(* ===== verification/Prelude.thy ===== *)
theory Prelude
  imports Main "HOL-Library.AList" "HOL-Library.Char_ord" "HOL-Library.List_Lexorder"
    "HOL-Library.Product_Lexorder" "HOL-Library.Multiset"
begin

text \<open>
  What every component shares: the exceptions of the Python code as one datatype, the result
  type of a function that may raise, the shape of a method that mutates its object and may
  raise part of the way through, insertion-ordered dictionaries, and decimal rendering of
  integers for the f-strings of the code.

  \<^item> A function that only reads returns \<open>'a res\<close>: \<open>Inl e\<close> is a raised exception, \<open>Inr x\<close> a
    returned value. \<open>andThen\<close> runs the next statement unless the previous one raised.
  \<^item> A method that mutates \<open>self\<close> has the type \<open>('s, 'a) method\<close>: it returns the result and the
    object as it is afterwards, also when it raised, since Python keeps what was assigned
    before the \<open>raise\<close>.
  \<^item> A \<open>dict\<close> is an association list in insertion order. Assigning to a present key keeps its
    place and assigning to a new key appends, which is what \<^const>\<open>AList.update\<close> does.
\<close>

section \<open>Exceptions and results\<close>

text \<open>
  One constructor for each exception class the modelled code raises; the argument is the message.
  \<open>OutOfModel\<close> is no Python exception: it marks a value of a type that the code's annotations
  rule out and whose coercion is not modelled (for example \<open>str\<close> of a list).
\<close>

datatype exn =
    ValueError string
  | TypeError string
  | KeyError string
  | IndexError string
  | RuntimeError string
  | OverflowError string
  | AssertionError string
  | MutationRejected string
  | HabitatEventError string
  | HabitatConfigError string
  | ProjectionMismatchError string
  | ExecutionJournalError string
  | TemporalEngineError string
  | TemporalReplayError string
  | TemporalConfigError string
  | DowntimeReconciliationError string
  | ElapsedContractError string
  | AllowlistError string
  | WaitExecutionError string
  | IdentityError string
  | PersistenceError string
  | IntegrityError string
  | ManipulationResolveError string
  | ManipulationValidationError string
  | IndividualityEngineError string
  | AdapterError string
  | HabitatAuthorityError string
  | OutOfModel string

type_synonym 'a res = "exn + 'a"

type_synonym ('s, 'a) "method" = "'s \<Rightarrow> 'a res \<times> 's"

primrec andThen :: "'a res \<Rightarrow> ('a \<Rightarrow> 'b res) \<Rightarrow> 'b res" where
  "andThen (Inl e) f = Inl e"
| "andThen (Inr x) f = f x"

primrec mapE :: "('a \<Rightarrow> 'b res) \<Rightarrow> 'a list \<Rightarrow> 'b list res" where
  "mapE f [] = Inr []"
| "mapE f (x # xs) = andThen (f x) (\<lambda>y. andThen (mapE f xs) (\<lambda>ys. Inr (y # ys)))"

primrec foldE :: "('s \<Rightarrow> 'a \<Rightarrow> 's res) \<Rightarrow> 's \<Rightarrow> 'a list \<Rightarrow> 's res" where
  "foldE f s [] = Inr s"
| "foldE f s (x # xs) = andThen (f s x) (\<lambda>s'. foldE f s' xs)"

lemma andThen_eq_Inr:
  "andThen r f = Inr y \<longleftrightarrow> (\<exists>x. r = Inr x \<and> f x = Inr y)"
  by (cases r) auto

lemma andThen_eq_Inl:
  "andThen r f = Inl e \<longleftrightarrow> r = Inl e \<or> (\<exists>x. r = Inr x \<and> f x = Inl e)"
  by (cases r) auto

lemma andThen_Inr_right [simp]: "andThen r Inr = r"
  by (cases r) auto

lemma andThen_assoc: "andThen (andThen r f) g = andThen r (\<lambda>x. andThen (f x) g)"
  by (cases r) auto

lemma mapE_Inr: "(\<And>x. x \<in> set xs \<Longrightarrow> f x = Inr (g x)) \<Longrightarrow> mapE f xs = Inr (map g xs)"
  by (induction xs) auto

lemma mapE_mem: "mapE f xs = Inr ys \<Longrightarrow> y \<in> set ys \<Longrightarrow> \<exists>x \<in> set xs. f x = Inr y"
  by (induction xs arbitrary: ys) (auto simp: andThen_eq_Inr)

lemma mapE_mem_src: "mapE f xs = Inr ys \<Longrightarrow> x \<in> set xs \<Longrightarrow> \<exists>y \<in> set ys. f x = Inr y"
  by (induction xs arbitrary: ys) (auto simp: andThen_eq_Inr)

lemma mapE_map: "mapE f (map g xs) = mapE (f \<circ> g) xs"
  by (induction xs) auto

lemma foldE_append: "foldE f s (xs @ ys) = andThen (foldE f s xs) (\<lambda>s'. foldE f s' ys)"
  by (induction xs arbitrary: s) (auto simp: andThen_assoc)

lemma foldE_invariant:
  assumes "foldE f s xs = Inr s'" and "P s"
    and "\<And>t x t'. x \<in> set xs \<Longrightarrow> P t \<Longrightarrow> f t x = Inr t' \<Longrightarrow> P t'"
  shows "P s'"
  using assms
proof (induction xs arbitrary: s)
  case Nil
  then show ?case by simp
next
  case (Cons x xs)
  then obtain t where t: "f s x = Inr t" and "foldE f t xs = Inr s'"
    by (auto simp: andThen_eq_Inr)
  moreover have "P t"
    using Cons.prems(3) [of x s t] Cons.prems(2) t by simp
  moreover have "P v'" if "y \<in> set xs" "P v" "f v y = Inr v'" for v y v'
    using Cons.prems(3) [of y v v'] that by simp
  ultimately show ?case
    using Cons.IH [of t] by simp
qed

lemma find_Some: "List.find P xs = Some x \<Longrightarrow> P x \<and> x \<in> set xs"
  by (induction xs) (auto split: if_splits)

section \<open>Dictionaries in insertion order\<close>

type_synonym 'v dict = "(string \<times> 'v) list"

definition dkeys :: "'v dict \<Rightarrow> string list" where
  "dkeys d = map fst d"

definition sorted_items :: "'v dict \<Rightarrow> 'v dict" where
  "sorted_items d = sort_key fst d"

abbreviation dput :: "string \<Rightarrow> 'v \<Rightarrow> 'v dict \<Rightarrow> 'v dict" where
  "dput \<equiv> AList.update"

abbreviation dpop :: "string \<Rightarrow> 'v dict \<Rightarrow> 'v dict" where
  "dpop \<equiv> AList.delete"

abbreviation dwf :: "'v dict \<Rightarrow> bool" where
  "dwf d \<equiv> distinct (map fst d)"

lemma dput_lookup [simp]: "map_of (dput k v d) = (map_of d)(k \<mapsto> v)"
  by (simp add: update_conv')

lemma dput_new: "map_of d k = None \<Longrightarrow> dput k v d = d @ [(k, v)]"
  by (induction d) (auto split: if_splits)

lemma length_dput:
  "length (dput k v d) = (if map_of d k = None then Suc (length d) else length d)"
  by (induction d) (auto split: if_splits)

lemma length_dpop_le: "length (dpop k d) \<le> length d"
  by (simp add: AList.length_delete_le)

lemma dwf_dput [intro]: "dwf d \<Longrightarrow> dwf (dput k v d)"
  by (rule distinct_update)

lemma dput_mem_cases: "(k', v') \<in> set (dput k v d) \<Longrightarrow> (k', v') = (k, v) \<or> (k', v') \<in> set d"
  by (induction d) (auto split: if_splits)

lemma dput_mem_iff:
  assumes "dwf d"
  shows "(k', v') \<in> set (dput k v d) \<longleftrightarrow> (if k' = k then v' = v else (k', v') \<in> set d)"
proof -
  have "dwf (dput k v d)" using assms by (rule dwf_dput)
  then have "(k', v') \<in> set (dput k v d) \<longleftrightarrow> map_of (dput k v d) k' = Some v'"
    by (rule map_of_eq_Some_iff [symmetric])
  also have "\<dots> \<longleftrightarrow> (if k' = k then v' = v else map_of d k' = Some v')"
    by auto
  finally show ?thesis using assms by (simp add: map_of_eq_Some_iff)
qed

lemma map_of_mem: "map_of d k = Some v \<Longrightarrow> (k, v) \<in> set d"
  by (rule map_of_SomeD)

lemma sorted_items_set [simp]: "set (sorted_items d) = set d"
  by (simp add: sorted_items_def)

lemma sorted_items_dwf [simp]: "dwf (sorted_items d) = dwf d"
  by (metis distinct_map distinct_sort set_sort sorted_items_def)

lemma sorted_items_lookup: "dwf d \<Longrightarrow> map_of (sorted_items d) = map_of d"
  by (rule map_of_inject_set [THEN iffD2]) auto

lemma sorted_items_sorted: "sorted (map fst (sorted_items d))"
  by (simp add: sorted_items_def)

lemma length_sorted_items [simp]: "length (sorted_items d) = length d"
  by (simp add: sorted_items_def)

text \<open>Rewriting every entry under an unchanged key, as a comprehension over \<open>items()\<close> does.\<close>

lemma map_of_map_value: "map_of (map (\<lambda>(k, v). (k, f v)) d) k = map_option f (map_of d k)"
  by (induction d) auto

lemma dput_map_value:
  "dput k (f v) (map (\<lambda>(k, v). (k, f v)) d) = map (\<lambda>(k, v). (k, f v)) (dput k v d)"
  by (induction d) auto

lemma sort_key_map_value:
  "sort_key fst (map (\<lambda>(k, v). (k, f v)) d) = map (\<lambda>(k, v). (k, f v)) (sort_key fst d)"
proof (induction d)
  case Nil
  then show ?case by simp
next
  case (Cons p d)
  obtain k v where p: "p = (k, v)" by (cases p)
  have "insort_key fst (k, f v) (map (\<lambda>(k, v). (k, f v)) xs)
      = map (\<lambda>(k, v). (k, f v)) (insort_key fst (k, v) xs)" for xs
    by (induction xs) auto
  then show ?case using Cons p by simp
qed

section \<open>Decimal rendering\<close>

definition digit_char :: "nat \<Rightarrow> char" where
  "digit_char d = char_of (48 + d)"

fun nat_str :: "nat \<Rightarrow> string" where
  "nat_str n = (if n < 10 then [digit_char n] else nat_str (n div 10) @ [digit_char (n mod 10)])"

declare nat_str.simps [simp del]

definition int_str :: "int \<Rightarrow> string" where
  "int_str i = (if i < 0 then CHR ''-'' # nat_str (nat (- i)) else nat_str (nat i))"

lemma of_digit_char: "d < 10 \<Longrightarrow> (of_char (digit_char d) :: nat) = 48 + d"
  unfolding digit_char_def by simp

lemma digit_char_inj: "a < 10 \<Longrightarrow> b < 10 \<Longrightarrow> digit_char a = digit_char b \<Longrightarrow> a = b"
  by (metis add_left_cancel of_digit_char)

lemma nat_str_small: "n < 10 \<Longrightarrow> nat_str n = [digit_char n]"
  by (subst nat_str.simps) simp

lemma nat_str_big: "\<not> n < 10 \<Longrightarrow> nat_str n = nat_str (n div 10) @ [digit_char (n mod 10)]"
  by (subst nat_str.simps) simp

lemma nat_str_ne [simp]: "nat_str n \<noteq> []" "[] \<noteq> nat_str n"
  by (cases "n < 10"; simp add: nat_str_small nat_str_big)+

lemma nat_str_chars: "c \<in> set (nat_str n) \<Longrightarrow> (of_char c :: nat) \<in> {48..57}"
proof (induction n rule: nat_str.induct)
  case (1 n)
  show ?case
  proof (cases "n < 10")
    case True
    with "1.prems" have "c = digit_char n" by (simp add: nat_str_small)
    with True show ?thesis by (simp add: of_digit_char)
  next
    case False
    with "1.prems" have "c \<in> set (nat_str (n div 10)) \<or> c = digit_char (n mod 10)"
      by (auto simp: nat_str_big)
    then show ?thesis
    proof
      assume "c \<in> set (nat_str (n div 10))"
      with False show ?thesis by (rule "1.IH")
    next
      assume "c = digit_char (n mod 10)"
      moreover have "n mod 10 < 10" by simp
      ultimately show ?thesis by (simp add: of_digit_char)
    qed
  qed
qed

lemma nat_str_inj: "nat_str m = nat_str n \<Longrightarrow> m = n"
proof (induction m arbitrary: n rule: nat_str.induct)
  case (1 m)
  show ?case
  proof (cases "m < 10 \<or> n < 10")
    case True
    with "1.prems" have "m < 10 \<and> n < 10 \<and> digit_char m = digit_char n"
      by (cases "m < 10"; cases "n < 10") (auto simp: nat_str_small nat_str_big)
    then show ?thesis by (auto intro: digit_char_inj)
  next
    case False
    with "1.prems" have "nat_str (m div 10) = nat_str (n div 10)"
      and "digit_char (m mod 10) = digit_char (n mod 10)"
      by (auto simp: nat_str_big)
    moreover have "m mod 10 < 10" "n mod 10 < 10" by simp_all
    ultimately have "m div 10 = n div 10" and "m mod 10 = n mod 10"
      using "1.IH" False by (blast intro: digit_char_inj)+
    then show ?thesis by (metis div_mult_mod_eq)
  qed
qed

lemma int_str_chars: "c \<in> set (int_str i) \<Longrightarrow> (of_char c :: nat) \<in> insert 45 {48..57}"
  using nat_str_chars by (auto simp: int_str_def split: if_splits)

lemma int_str_inj: "int_str i = int_str j \<Longrightarrow> i = j"
proof -
  have neg: "CHR ''-'' # xs \<noteq> nat_str n" for xs n
  proof
    assume "CHR ''-'' # xs = nat_str n"
    then have "CHR ''-'' \<in> set (nat_str n)" by (metis list.set_intros(1))
    from nat_str_chars [OF this] show False by simp
  qed
  show "int_str i = int_str j \<Longrightarrow> i = j"
    unfolding int_str_def
    using neg neg [symmetric] by (auto split: if_splits dest!: nat_str_inj)
qed

end
