(* ===== verification/Float64.thy ===== *)
theory Float64
  imports Prelude Complex_Main "HOL-Library.Log_Nat"
begin

text \<open>
  Python's \<open>float\<close>: IEEE 754 binary64 with round-to-nearest-even, as exact rationals that are
  rounded after every operation. \<open>Fin q\<close> is a finite double with the value \<open>q\<close>; the infinities
  and NaN are constructors of their own. The sign of zero is not represented: \<open>-0.0\<close> and \<open>0.0\<close>
  are one value here.

  \<open>rnd\<close> rounds a rational to 53 significant bits (fewer below the normal range, where the quantum
  stays at \<open>2 ^ -1074\<close>), ties to even. The lemmas the components use are that \<open>rnd\<close> is monotone,
  odd, fixes the integers up to \<open>2 ^ 53\<close> and keeps the range between two fixed points.
\<close>

section \<open>Rounding\<close>

definition pow2 :: "int \<Rightarrow> rat" where
  "pow2 e = (if 0 \<le> e then 2 ^ nat e else 1 / 2 ^ nat (- e))"

definition ilog2 :: "rat \<Rightarrow> int" where
  "ilog2 x = (let (n, d) = quotient_of x; k = bitlen n - bitlen d
              in if pow2 k \<le> x then k else k - 1)"

definition half_even :: "rat \<Rightarrow> int" where
  "half_even q =
     (let f = \<lfloor>q\<rfloor>; r = q - of_int f
      in if r < 1 / 2 then f else if 1 / 2 < r then f + 1 else if even f then f else f + 1)"

definition quantum :: "rat \<Rightarrow> int" where
  "quantum x = max (- 1074) (ilog2 x - 52)"

definition rnd_pos :: "rat \<Rightarrow> rat" where
  "rnd_pos x = of_int (half_even (x / pow2 (quantum x))) * pow2 (quantum x)"

definition rnd :: "rat \<Rightarrow> rat" where
  "rnd x = (if x = 0 then 0 else if 0 < x then rnd_pos x else - rnd_pos (- x))"

lemma pow2_pos [simp]: "0 < pow2 e"
  by (simp add: pow2_def)

lemma pow2_ne [simp]: "pow2 e \<noteq> 0"
  using pow2_pos [of e] by linarith

lemma pow2_nonneg [simp]: "0 \<le> pow2 e"
  using pow2_pos [of e] by linarith

lemma pow2_powi: "pow2 e = 2 powi e"
  by (auto simp: pow2_def power_int_def inverse_eq_divide power_one_over)

lemma pow2_add: "pow2 (a + b) = pow2 a * pow2 b"
  by (simp add: pow2_powi power_int_add)

lemma pow2_mono: "a \<le> b \<Longrightarrow> pow2 a \<le> pow2 b"
  by (simp add: pow2_powi power_int_increasing)

lemma pow2_less_iff: "pow2 a < pow2 b \<longleftrightarrow> a < b"
  by (metis linorder_not_less order_less_le pow2_mono pow2_powi power_int_strict_increasing
      one_less_numeral_iff semiring_norm(76))

lemma pow2_le_iff: "pow2 a \<le> pow2 b \<longleftrightarrow> a \<le> b"
  by (meson linorder_not_less pow2_less_iff)

lemma pow2_0 [simp]: "pow2 0 = 1"
  by (simp add: pow2_def)

subsection \<open>The binary exponent\<close>

lemma bitlen_pow2:
  assumes "0 < n"
  shows "pow2 (bitlen n - 1) \<le> of_int n" and "of_int n < pow2 (bitlen n)"
proof -
  have "1 \<le> bitlen n" using assms by (simp add: bitlen_def compute_floorlog)
  then have nat: "nat (bitlen n - 1) = nat (bitlen n) - 1" by simp
  from bitlen_bounds [OF assms]
  have b: "2 ^ nat (bitlen n - 1) \<le> n" "n < 2 ^ nat (bitlen n)" by auto
  have "(of_int (2 ^ nat (bitlen n - 1)) :: rat) \<le> of_int n" using b(1) by (rule of_int_le_iff [THEN iffD2])
  then show "pow2 (bitlen n - 1) \<le> of_int n"
    using \<open>1 \<le> bitlen n\<close> by (simp add: pow2_def)
  have "(of_int n :: rat) < of_int (2 ^ nat (bitlen n))" using b(2) by (rule of_int_less_iff [THEN iffD2])
  then show "of_int n < pow2 (bitlen n)"
    using \<open>1 \<le> bitlen n\<close> by (simp add: pow2_def)
qed

lemma ilog2_bounds:
  assumes "0 < x"
  shows "pow2 (ilog2 x) \<le> x" and "x < pow2 (ilog2 x + 1)"
proof -
  obtain n d where nd: "quotient_of x = (n, d)" by (cases "quotient_of x")
  have d: "0 < d" using quotient_of_denom_pos [OF nd] .
  have x: "x = of_int n / of_int d" using quotient_of_div [OF nd] .
  have n: "0 < n" using assms x d by (simp add: zero_less_divide_iff)
  define k where "k = bitlen n - bitlen d"
  have dpos: "0 < (of_int d :: rat)" using d by simp
  have up: "x < pow2 (k + 1)"
  proof -
    have "of_int n < pow2 (bitlen n)" using bitlen_pow2 [OF n] by simp
    also have "pow2 (bitlen n) = pow2 (k + 1) * pow2 (bitlen d - 1)"
      by (simp add: k_def flip: pow2_add)
    also have "\<dots> \<le> pow2 (k + 1) * of_int d"
      using bitlen_pow2 [OF d] by (intro mult_left_mono) auto
    finally show ?thesis using dpos by (simp add: x divide_less_eq)
  qed
  have low: "pow2 (k - 1) \<le> x"
  proof -
    have "pow2 (k - 1) * of_int d \<le> pow2 (k - 1) * pow2 (bitlen d)"
      using bitlen_pow2 [OF d] by (intro mult_left_mono) auto
    also have "\<dots> = pow2 (bitlen n - 1)"
      by (simp add: k_def flip: pow2_add)
    also have "\<dots> \<le> of_int n" using bitlen_pow2 [OF n] by simp
    finally show ?thesis using dpos by (simp add: x le_divide_eq)
  qed
  have e: "ilog2 x = (if pow2 k \<le> x then k else k - 1)"
    by (simp add: ilog2_def nd k_def Let_def)
  show "pow2 (ilog2 x) \<le> x" using low by (simp add: e)
  show "x < pow2 (ilog2 x + 1)" using up by (simp add: e)
qed

lemma ilog2_mono:
  assumes "0 < x" and "x \<le> y"
  shows "ilog2 x \<le> ilog2 y"
proof -
  have "pow2 (ilog2 x) \<le> x" using assms(1) by (rule ilog2_bounds)
  also have "\<dots> \<le> y" by fact
  also have "\<dots> < pow2 (ilog2 y + 1)" using assms by (intro ilog2_bounds) simp
  finally show ?thesis by (simp add: pow2_less_iff)
qed

lemma quantum_mono: "0 < x \<Longrightarrow> x \<le> y \<Longrightarrow> quantum x \<le> quantum y"
  unfolding quantum_def using ilog2_mono [of x y] by simp

subsection \<open>Rounding to an integer\<close>

lemma half_even_int [simp]: "half_even (of_int k) = k"
  by (simp add: half_even_def)

lemma half_even_near: "\<bar>of_int (half_even q) - q\<bar> \<le> 1 / 2"
  unfolding half_even_def Let_def using floor_correct [of q]
  by (auto simp: abs_le_iff)

lemma half_even_mono:
  assumes "p \<le> q"
  shows "half_even p \<le> half_even q"
proof (cases "\<lfloor>p\<rfloor> = \<lfloor>q\<rfloor>")
  case True
  then show ?thesis using assms by (auto simp: half_even_def Let_def)
next
  case False
  then have "\<lfloor>p\<rfloor> + 1 \<le> \<lfloor>q\<rfloor>" using floor_mono [OF assms] by linarith
  moreover have "half_even p \<le> \<lfloor>p\<rfloor> + 1" and "\<lfloor>q\<rfloor> \<le> half_even q"
    by (auto simp: half_even_def Let_def)
  ultimately show ?thesis by linarith
qed

lemma half_even_nonneg: "0 \<le> q \<Longrightarrow> 0 \<le> half_even q"
  using half_even_mono [of 0 q] half_even_int [of 0] by simp

subsection \<open>Rounding a rational\<close>

lemma rnd_pos_nonneg: "0 < x \<Longrightarrow> 0 \<le> rnd_pos x"
  by (simp add: rnd_pos_def half_even_nonneg)

text \<open>A multiple of the quantum of \<open>y\<close> that is below \<open>y\<close> stays below the rounded value.\<close>

lemma rnd_pos_ge:
  assumes "of_int k * pow2 (quantum y) \<le> y"
  shows "of_int k * pow2 (quantum y) \<le> rnd_pos y"
proof -
  have "of_int k \<le> y / pow2 (quantum y)" using assms by (simp add: le_divide_eq)
  then have "k \<le> half_even (y / pow2 (quantum y))"
    using half_even_mono [of "of_int k"] by simp
  then show ?thesis by (simp add: rnd_pos_def)
qed

lemma rnd_pos_le:
  assumes "y \<le> of_int k * pow2 (quantum y)"
  shows "rnd_pos y \<le> of_int k * pow2 (quantum y)"
proof -
  have "y / pow2 (quantum y) \<le> of_int k" using assms by (simp add: divide_le_eq)
  then have "half_even (y / pow2 (quantum y)) \<le> k"
    using half_even_mono [of _ "of_int k"] by simp
  then show ?thesis by (simp add: rnd_pos_def)
qed

lemma pow2_multiple:
  assumes "b \<le> a"
  shows "pow2 a = of_int (2 ^ nat (a - b)) * pow2 b"
proof -
  have "pow2 a = pow2 (a - b) * pow2 b" by (simp flip: pow2_add)
  also have "pow2 (a - b) = of_int (2 ^ nat (a - b))" using assms by (simp add: pow2_def)
  finally show ?thesis .
qed

lemma rnd_pos_mono:
  assumes "0 < x" and "x \<le> y"
  shows "rnd_pos x \<le> rnd_pos y"
proof (cases "quantum x = quantum y")
  case True
  then have "half_even (x / pow2 (quantum x)) \<le> half_even (y / pow2 (quantum y))"
    using assms by (intro half_even_mono) (simp add: divide_right_mono)
  then show ?thesis using True by (simp add: rnd_pos_def)
next
  case False
  then have less: "quantum x < quantum y" using quantum_mono [OF assms] by simp
  then have qy: "quantum y = ilog2 y - 52" and "quantum x \<ge> ilog2 x - 52"
    by (auto simp: quantum_def)
  then have lt: "ilog2 x + 1 \<le> ilog2 y" using less by linarith
  define b where "b = max (ilog2 x + 1) (quantum x)"
  have bq: "quantum x \<le> b" and by': "b \<le> ilog2 y" using lt less qy by (auto simp: b_def)
  have "x \<le> pow2 b"
    using ilog2_bounds(2) [OF assms(1)] pow2_mono [of "ilog2 x + 1" b] by (simp add: b_def)
  then have "rnd_pos x \<le> pow2 b"
    using rnd_pos_le [of x "2 ^ nat (b - quantum x)"] pow2_multiple [OF bq] by simp
  also have "\<dots> \<le> pow2 (ilog2 y)" using by' by (rule pow2_mono)
  also have "\<dots> \<le> rnd_pos y"
  proof -
    have m: "pow2 (ilog2 y) = of_int (2 ^ nat (ilog2 y - quantum y)) * pow2 (quantum y)"
      by (rule pow2_multiple) (simp add: qy)
    have "pow2 (ilog2 y) \<le> y" using assms by (intro ilog2_bounds) simp
    then show ?thesis using rnd_pos_ge [of "2 ^ nat (ilog2 y - quantum y)" y] m by simp
  qed
  finally show ?thesis .
qed

lemma rnd_0 [simp]: "rnd 0 = 0"
  by (simp add: rnd_def)

lemma rnd_minus: "rnd (- x) = - rnd x"
  by (simp add: rnd_def)

lemma rnd_nonneg: "0 \<le> x \<Longrightarrow> 0 \<le> rnd x"
  by (simp add: rnd_def rnd_pos_nonneg)

lemma rnd_nonpos: "x \<le> 0 \<Longrightarrow> rnd x \<le> 0"
  using rnd_nonneg [of "- x"] by (simp add: rnd_minus)

lemma rnd_mono:
  assumes "x \<le> y"
  shows "rnd x \<le> rnd y"
proof -
  consider "0 < x" | "x \<le> 0" "0 \<le> y" | "y < 0" using assms by linarith
  then show ?thesis
  proof cases
    case 1
    then show ?thesis using assms rnd_pos_mono [of x y] by (simp add: rnd_def)
  next
    case 2
    then show ?thesis using rnd_nonpos [of x] rnd_nonneg [of y] by linarith
  next
    case 3
    then show ?thesis using assms rnd_pos_mono [of "- y" "- x"] by (simp add: rnd_def)
  qed
qed

lemma rnd_pos_fixed: "x = of_int k * pow2 (quantum x) \<Longrightarrow> rnd_pos x = x"
proof -
  assume x: "x = of_int k * pow2 (quantum x)"
  then have "x / pow2 (quantum x) = of_int k" by (metis nonzero_mult_div_cancel_right pow2_ne)
  then show ?thesis using x by (simp add: rnd_pos_def)
qed

lemma rnd_pos_int:
  assumes "0 < n" and "n < 2 ^ 53"
  shows "rnd_pos (of_int n) = of_int n"
proof -
  let ?x = "of_int n :: rat"
  have "(of_int n :: rat) < of_int (2 ^ 53)" using assms(2) by (rule of_int_less_iff [THEN iffD2])
  then have "?x < pow2 53" by (simp add: pow2_def)
  moreover have "pow2 (ilog2 ?x) \<le> ?x" using assms(1) by (intro ilog2_bounds) simp
  ultimately have "ilog2 ?x < 53" by (metis order_le_less_trans pow2_less_iff)
  then have "quantum ?x \<le> 0" by (simp add: quantum_def)
  then have "pow2 0 = of_int (2 ^ nat (0 - quantum ?x)) * pow2 (quantum ?x)"
    by (rule pow2_multiple)
  then have "?x = of_int (n * 2 ^ nat (0 - quantum ?x)) * pow2 (quantum ?x)" by simp
  then show ?thesis by (rule rnd_pos_fixed)
qed

lemma rnd_int: "\<bar>n\<bar> < 2 ^ 53 \<Longrightarrow> rnd (of_int n) = of_int n"
  using rnd_pos_int [of n] rnd_pos_int [of "- n"] by (auto simp: rnd_def)

lemma rnd_1 [simp]: "rnd 1 = 1"
  using rnd_int [of 1] by simp

lemma rnd_ge_int: "of_int n \<le> x \<Longrightarrow> \<bar>n\<bar> < 2 ^ 53 \<Longrightarrow> of_int n \<le> rnd x"
  using rnd_mono [of "of_int n" x] by (simp add: rnd_int)

lemma rnd_le_int: "x \<le> of_int n \<Longrightarrow> \<bar>n\<bar> < 2 ^ 53 \<Longrightarrow> rnd x \<le> of_int n"
  using rnd_mono [of x "of_int n"] by (simp add: rnd_int)

section \<open>The float type\<close>

datatype flt = Fin rat | PInf | NInf | NaN

definition flt_of :: "rat \<Rightarrow> flt" where
  "flt_of q = (let r = rnd q in
     if pow2 1024 \<le> r then PInf else if r \<le> - pow2 1024 then NInf else Fin r)"



text \<open>The literal \<open>n / d\<close> (a decimal literal of the source), and the conversion \<open>float(n)\<close>.
  For \<open>\<bar>n\<bar> \<ge> 2 ^ 1024\<close> Python raises \<open>OverflowError\<close> where \<open>flt_of_int\<close> is infinite.\<close>

definition flit :: "int \<Rightarrow> int \<Rightarrow> flt" where
  "flit n d = flt_of (of_int n / of_int d)"

definition flt_of_int :: "int \<Rightarrow> flt" where
  "flt_of_int n = flt_of (of_int n)"

text \<open>\<open>float(n)\<close> with its \<open>OverflowError\<close>, where a loop depends on it.\<close>

definition float_of_int :: "int \<Rightarrow> flt res" where
  "float_of_int n = (case flt_of_int n of Fin q \<Rightarrow> Inr (Fin q)
     | _ \<Rightarrow> Inl (OverflowError ''int too large to convert to float''))"

text \<open>Python compares an \<open>int\<close> with a \<open>float\<close> by their exact values: \<open>exactly n\<close> is the integer as an
  operand of a comparison.\<close>

definition exactly :: "int \<Rightarrow> flt" where
  "exactly n = Fin (of_int n)"

fun flt_add :: "flt \<Rightarrow> flt \<Rightarrow> flt" where
  "flt_add (Fin a) (Fin b) = flt_of (a + b)"
| "flt_add NaN y = NaN"
| "flt_add x NaN = NaN"
| "flt_add PInf NInf = NaN"
| "flt_add NInf PInf = NaN"
| "flt_add PInf y = PInf"
| "flt_add NInf y = NInf"
| "flt_add x PInf = PInf"
| "flt_add x NInf = NInf"

fun flt_neg :: "flt \<Rightarrow> flt" where
  "flt_neg (Fin a) = Fin (- a)"
| "flt_neg PInf = NInf"
| "flt_neg NInf = PInf"
| "flt_neg NaN = NaN"

definition flt_sub :: "flt \<Rightarrow> flt \<Rightarrow> flt" where
  "flt_sub x y = flt_add x (flt_neg y)"

definition inf_sign :: "bool \<Rightarrow> flt" where
  "inf_sign pos = (if pos then PInf else NInf)"

fun flt_mult :: "flt \<Rightarrow> flt \<Rightarrow> flt" where
  "flt_mult (Fin a) (Fin b) = flt_of (a * b)"
| "flt_mult NaN y = NaN"
| "flt_mult x NaN = NaN"
| "flt_mult (Fin a) PInf = (if a = 0 then NaN else inf_sign (0 < a))"
| "flt_mult (Fin a) NInf = (if a = 0 then NaN else inf_sign (a < 0))"
| "flt_mult PInf (Fin a) = (if a = 0 then NaN else inf_sign (0 < a))"
| "flt_mult NInf (Fin a) = (if a = 0 then NaN else inf_sign (a < 0))"
| "flt_mult PInf PInf = PInf"
| "flt_mult PInf NInf = NInf"
| "flt_mult NInf PInf = NInf"
| "flt_mult NInf NInf = PInf"

text \<open>Division. Python raises on a zero divisor; every division of the modelled code stands under a
  guard that excludes it or divides by a nonzero literal, so the zero case is never read.\<close>

fun flt_div :: "flt \<Rightarrow> flt \<Rightarrow> flt" where
  "flt_div (Fin a) (Fin b) = (if b = 0 then NaN else flt_of (a / b))"
| "flt_div NaN y = NaN"
| "flt_div x NaN = NaN"
| "flt_div (Fin a) PInf = Fin 0"
| "flt_div (Fin a) NInf = Fin 0"
| "flt_div PInf (Fin b) = (if b = 0 then NaN else inf_sign (0 < b))"
| "flt_div NInf (Fin b) = (if b = 0 then NaN else inf_sign (b < 0))"
| "flt_div x y = NaN"

fun flt_abs :: "flt \<Rightarrow> flt" where
  "flt_abs (Fin a) = Fin \<bar>a\<bar>"
| "flt_abs NaN = NaN"
| "flt_abs x = PInf"

fun flt_lt :: "flt \<Rightarrow> flt \<Rightarrow> bool" where
  "flt_lt (Fin a) (Fin b) = (a < b)"
| "flt_lt NaN y = False"
| "flt_lt x NaN = False"
| "flt_lt NInf y = (y \<noteq> NInf)"
| "flt_lt x PInf = (x \<noteq> PInf)"
| "flt_lt x y = False"

definition flt_eq :: "flt \<Rightarrow> flt \<Rightarrow> bool" where
  "flt_eq x y = (x \<noteq> NaN \<and> x = y)"

definition flt_le :: "flt \<Rightarrow> flt \<Rightarrow> bool" where
  "flt_le x y = (flt_lt x y \<or> flt_eq x y)"

fun is_finite :: "flt \<Rightarrow> bool" where
  "is_finite (Fin a) = True"
| "is_finite x = False"

text \<open>\<open>int(x)\<close> truncates towards zero and raises on NaN and the infinities.\<close>

fun int_of_flt :: "flt \<Rightarrow> int res" where
  "int_of_flt (Fin a) = Inr (if 0 \<le> a then \<lfloor>a\<rfloor> else \<lceil>a\<rceil>)"
| "int_of_flt NaN = Inl (ValueError ''cannot convert float NaN to integer'')"
| "int_of_flt x = Inl (OverflowError ''cannot convert float infinity to integer'')"

text \<open>Python's two-argument \<open>min\<close> and \<open>max\<close>: the first argument unless the second is strictly better,
  which decides the result when an argument is NaN.\<close>

definition py_min :: "flt \<Rightarrow> flt \<Rightarrow> flt" where
  "py_min x y = (if flt_lt y x then y else x)"

definition py_max :: "flt \<Rightarrow> flt \<Rightarrow> flt" where
  "py_max x y = (if flt_lt x y then y else x)"

text \<open>\<open>clamp\<close> of \<open>umbra_core/util.py\<close>.\<close>

definition clamp :: "flt \<Rightarrow> flt \<Rightarrow> flt \<Rightarrow> flt" where
  "clamp x lo hi = py_max lo (py_min hi x)"

section \<open>Order lemmas\<close>

lemma flt_lt_irrefl [simp]: "\<not> flt_lt x x"
  by (cases x) auto

lemma flt_lt_trans: "flt_lt x y \<Longrightarrow> flt_lt y z \<Longrightarrow> flt_lt x z"
  by (cases x; cases y; cases z) auto

lemma flt_lt_asym: "flt_lt x y \<Longrightarrow> \<not> flt_lt y x"
  using flt_lt_trans flt_lt_irrefl by blast

lemma flt_lt_NaN [simp]: "\<not> flt_lt x NaN"
  by (cases x) auto

lemma flt_le_NaN [simp]: "\<not> flt_le x NaN" "\<not> flt_le NaN x"
  by (cases x; auto simp: flt_le_def flt_eq_def)+

lemma flt_le_Fin [simp]: "flt_le (Fin a) (Fin b) \<longleftrightarrow> a \<le> b"
  by (auto simp: flt_le_def flt_eq_def)

lemma flt_le_trans: "flt_le x y \<Longrightarrow> flt_le y z \<Longrightarrow> flt_le x z"
  unfolding flt_le_def flt_eq_def using flt_lt_trans by blast

lemma flt_le_refl: "x \<noteq> NaN \<Longrightarrow> flt_le x x"
  by (simp add: flt_le_def flt_eq_def)

lemma flt_not_lt: "x \<noteq> NaN \<Longrightarrow> y \<noteq> NaN \<Longrightarrow> \<not> flt_lt x y \<longleftrightarrow> flt_le y x"
  by (cases x; cases y) (auto simp: flt_le_def flt_eq_def)

lemma flt_not_le: "x \<noteq> NaN \<Longrightarrow> y \<noteq> NaN \<Longrightarrow> \<not> flt_le x y \<longleftrightarrow> flt_lt y x"
  using flt_not_lt [of y x] by blast

lemma flt_le_antisym: "flt_le x y \<Longrightarrow> flt_le y x \<Longrightarrow> x = y"
  unfolding flt_le_def flt_eq_def using flt_lt_asym by blast

lemma flt_le_less_trans: "flt_le x y \<Longrightarrow> flt_lt y z \<Longrightarrow> flt_lt x z"
  unfolding flt_le_def flt_eq_def using flt_lt_trans by blast

text \<open>\<open>clamp\<close> lands between its bounds for every argument, NaN and the infinities included.\<close>

lemma clamp_bounds:
  assumes "flt_le lo hi"
  shows "flt_le lo (clamp x lo hi)" and "flt_le (clamp x lo hi) hi"
proof -
  have nn: "lo \<noteq> NaN" "hi \<noteq> NaN" using assms by auto
  have m: "flt_le (py_min hi x) hi"
    unfolding py_min_def using nn by (auto simp: flt_le_def flt_eq_def)
  then have "py_min hi x \<noteq> NaN" by auto
  then show "flt_le lo (clamp x lo hi)" and "flt_le (clamp x lo hi) hi"
    using assms nn m unfolding clamp_def py_max_def
    by (auto simp: flt_not_lt intro: flt_le_refl) (auto simp: flt_le_def)
qed

lemma clamp_id: "flt_le lo x \<Longrightarrow> flt_le x hi \<Longrightarrow> clamp x lo hi = x"
proof -
  assume a: "flt_le lo x" "flt_le x hi"
  then have nn: "x \<noteq> NaN" "lo \<noteq> NaN" "hi \<noteq> NaN" by auto
  have "py_min hi x = x"
    using a nn flt_le_antisym [of x hi] by (auto simp: py_min_def flt_not_lt)
  then show ?thesis
    using a nn flt_le_antisym [of lo x] by (auto simp: clamp_def py_max_def flt_not_lt)
qed

lemma clamp_idem: "flt_le lo hi \<Longrightarrow> clamp (clamp x lo hi) lo hi = clamp x lo hi"
  by (simp add: clamp_id clamp_bounds)

lemma clamp_not_NaN: "flt_le lo hi \<Longrightarrow> clamp x lo hi \<noteq> NaN"
  using clamp_bounds(1) [of lo hi x] by auto

lemma flt_of_not_NaN [simp]: "flt_of q \<noteq> NaN"
  by (simp add: flt_of_def Let_def)

lemma flt_of_mono: "p \<le> q \<Longrightarrow> flt_le (flt_of p) (flt_of q)"
  using rnd_mono [of p q] pow2_pos [of 1024]
  by (auto simp: flt_of_def Let_def flt_le_def flt_eq_def)

lemma pow2_1024_big: "\<bar>n\<bar> < 2 ^ 53 \<Longrightarrow> \<bar>of_int n\<bar> < pow2 1024"
proof -
  assume n: "\<bar>n\<bar> < 2 ^ 53"
  have "(of_int \<bar>n\<bar> :: rat) < of_int (2 ^ 53)" using n by (rule of_int_less_iff [THEN iffD2])
  also have "\<dots> = pow2 53" by (simp add: pow2_def)
  also have "\<dots> < pow2 1024" by (simp add: pow2_less_iff)
  finally show ?thesis by simp
qed

text \<open>Evaluation compares with the threshold written out, and leaves small integers alone.\<close>

lemma pow2_1024:
  "pow2 1024 = 179769313486231590772930519078902473361797697894230657273430081157732675805500963132708477322407536021120113879871393357658789768814416622492847430639474124377767893424865485276302219601246094119453082952085005768838150682342462881473913110540827237163350510684586298239947245938479716304835356329624224137216"
  by (simp add: pow2_def)

lemma flt_of_code [code]:
  "flt_of q = (case quotient_of q of (n, d) \<Rightarrow>
     if d = 1 \<and> \<bar>n\<bar> < 9007199254740992 then Fin q
     else let r = rnd q in
       if \<bar>r\<bar> < 1000000000000 then Fin r
       else if pow2 1024 \<le> r then PInf else if r \<le> - pow2 1024 then NInf else Fin r)"
proof -
  obtain n d where nd: "quotient_of q = (n, d)" by (cases "quotient_of q")
  show ?thesis
  proof (cases "d = 1 \<and> \<bar>n\<bar> < 2 ^ 53")
    case True
    then have q: "q = of_int n" using quotient_of_div [OF nd] by simp
    then have "rnd q = q" "\<bar>q\<bar> < pow2 1024" using True rnd_int pow2_1024_big by auto
    then show ?thesis using True nd by (auto simp: flt_of_def Let_def)
  next
    case False
    then show ?thesis using nd by (auto simp: flt_of_def Let_def pow2_1024)
  qed
qed

lemma flt_of_int_exact: "\<bar>n\<bar> < 2 ^ 53 \<Longrightarrow> flt_of_int n = Fin (of_int n)"
  using pow2_1024_big [of n] by (auto simp: flt_of_int_def flt_of_def rnd_int abs_less_iff)

lemma flt_of_int_mono: "m \<le> n \<Longrightarrow> flt_le (flt_of_int m) (flt_of_int n)"
  by (simp add: flt_of_int_def flt_of_mono)

lemma ilog2_pow2: "ilog2 (pow2 k) = k"
proof -
  have "pow2 (ilog2 (pow2 k)) \<le> pow2 k" "pow2 k < pow2 (ilog2 (pow2 k) + 1)"
    by (rule ilog2_bounds; simp)+
  then show ?thesis by (simp add: pow2_le_iff pow2_less_iff)
qed

lemma rnd_pow2: "- 1022 \<le> k \<Longrightarrow> rnd (pow2 k) = pow2 k"
proof -
  assume "- 1022 \<le> k"
  then have "quantum (pow2 k) = k - 52" by (simp add: quantum_def ilog2_pow2)
  then have "pow2 k = of_int (2 ^ nat 52) * pow2 (quantum (pow2 k))"
    using pow2_multiple [of "k - 52" k] by simp
  then show ?thesis using rnd_pos_fixed [of "pow2 k" "2 ^ nat 52"] by (simp add: rnd_def)
qed

lemma float_of_int_bound:
  assumes "float_of_int n = Inr x"
  shows "n < 2 ^ 1024"
proof (rule ccontr)
  assume "\<not> n < 2 ^ 1024"
  then have "(of_int (2 ^ 1024) :: rat) \<le> of_int n" by (simp only: of_int_le_iff linorder_not_less)
  then have "pow2 1024 \<le> of_int n" by (simp add: pow2_def)
  then have "pow2 1024 \<le> rnd (of_int n)"
    using rnd_mono [of "pow2 1024" "of_int n"] by (simp add: rnd_pow2)
  then show False
    using assms by (simp add: float_of_int_def flt_of_int_def flt_of_def Let_def)
qed

lemma float_of_int_exact: "\<bar>n\<bar> < 2 ^ 53 \<Longrightarrow> float_of_int n = Inr (Fin (of_int n))"
  by (simp add: float_of_int_def flt_of_int_exact)

lemma float_of_int_eq: "float_of_int n = Inr x \<Longrightarrow> x = flt_of_int n"
  by (auto simp: float_of_int_def split: flt.splits)

text \<open>An operation whose exact result lies between two small integers rounds to a finite value between
  them.\<close>

lemma flt_of_between:
  assumes "of_int m \<le> q" "q \<le> of_int n" "\<bar>m\<bar> < 2 ^ 53" "\<bar>n\<bar> < 2 ^ 53"
  shows "flt_of q = Fin (rnd q)" and "of_int m \<le> rnd q" and "rnd q \<le> of_int n"
proof -
  show l: "of_int m \<le> rnd q" and u: "rnd q \<le> of_int n"
    using assms by (auto intro: rnd_ge_int rnd_le_int)
  show "flt_of q = Fin (rnd q)"
    using l u pow2_1024_big [OF assms(3)] pow2_1024_big [OF assms(4)]
    by (simp add: flt_of_def Let_def abs_less_iff)
qed

section \<open>Sorting floats\<close>

text \<open>
  \<open>sorted\<close> on floats. The order is the one of \<open><\<close> with \<open>NaN\<close> put last, so that it is total; a list
  with a \<open>NaN\<close> (which Python leaves in an order that depends on its algorithm) never reaches a
  sort in the modelled code.
\<close>

instantiation flt :: linorder
begin

definition less_eq_flt :: "flt \<Rightarrow> flt \<Rightarrow> bool" where
  "less_eq_flt x y = (y = NaN \<or> flt_le x y)"

definition less_flt :: "flt \<Rightarrow> flt \<Rightarrow> bool" where
  "less_flt x y = (x \<noteq> NaN \<and> (y = NaN \<or> flt_lt x y))"

instance
proof
  fix x y z :: flt
  show "x < y \<longleftrightarrow> x \<le> y \<and> \<not> y \<le> x"
    unfolding less_flt_def less_eq_flt_def
    by (cases x; cases y) (auto simp: flt_le_def flt_eq_def)
  show "x \<le> x"
    unfolding less_eq_flt_def using flt_le_refl by auto
  show "x \<le> y \<Longrightarrow> y \<le> z \<Longrightarrow> x \<le> z"
    unfolding less_eq_flt_def using flt_le_trans by auto
  show "x \<le> y \<Longrightarrow> y \<le> x \<Longrightarrow> x = y"
    unfolding less_eq_flt_def using flt_le_antisym by auto
  show "x \<le> y \<or> y \<le> x"
    unfolding less_eq_flt_def
    by (cases x; cases y) (auto simp: flt_le_def flt_eq_def)
qed

end

lemma flt_le_order: "y \<noteq> NaN \<Longrightarrow> flt_le x y \<longleftrightarrow> x \<le> y"
  by (simp add: less_eq_flt_def)

lemma flt_Fin_order [simp]: "Fin a \<le> Fin b \<longleftrightarrow> a \<le> b"
  by (simp add: less_eq_flt_def)

section \<open>Machine values\<close>

lemma rnd_pos_idem:
  assumes "0 < x" and pos: "0 < rnd_pos x"
  shows "rnd_pos (rnd_pos x) = rnd_pos x"
proof -
  let ?y = "rnd_pos x"
  let ?h = "half_even (x / pow2 (quantum x))"
  have y: "?y = of_int ?h * pow2 (quantum x)" by (simp add: rnd_pos_def)
  show ?thesis
  proof (cases "quantum ?y \<le> quantum x")
    case True
    have "?y = of_int (?h * 2 ^ nat (quantum x - quantum ?y)) * pow2 (quantum ?y)"
      by (subst y, subst pow2_multiple [OF True]) simp
    then show ?thesis by (rule rnd_pos_fixed)
  next
    case False
    then have q: "quantum ?y = ilog2 ?y - 52" and up: "ilog2 x + 1 \<le> ilog2 ?y" "quantum x < ilog2 ?y"
      by (auto simp: quantum_def)
    define b where "b = max (ilog2 x + 1) (quantum x)"
    have bq: "quantum x \<le> b" by (simp add: b_def)
    have "x \<le> pow2 b"
      using ilog2_bounds(2) [OF assms(1)] pow2_mono [of "ilog2 x + 1" b] by (simp add: b_def)
    then have "?y \<le> pow2 b"
      using rnd_pos_le [of x "2 ^ nat (b - quantum x)"] pow2_multiple [OF bq] by simp
    moreover have low: "pow2 (ilog2 ?y) \<le> ?y" using pos by (rule ilog2_bounds)
    ultimately have "ilog2 ?y \<le> b" by (metis order_trans pow2_le_iff)
    then have "b = ilog2 ?y" using up by (auto simp: b_def)
    then have eq: "?y = pow2 (ilog2 ?y)" using \<open>?y \<le> pow2 b\<close> low by simp
    have "pow2 (ilog2 ?y) = of_int (2 ^ nat 52) * pow2 (quantum ?y)"
      using pow2_multiple [of "quantum ?y" "ilog2 ?y"] q by simp
    then show ?thesis using rnd_pos_fixed [of ?y "2 ^ nat 52"] eq by simp
  qed
qed

lemma rnd_idem [simp]: "rnd (rnd x) = rnd x"
proof -
  have pos: "rnd (rnd_pos y) = rnd_pos y" if "0 < y" for y
    using rnd_pos_idem [OF that] rnd_pos_nonneg [OF that] by (cases "rnd_pos y = 0") (simp_all add: rnd_def)
  consider "x = 0" | "0 < x" | "x < 0" by linarith
  then show ?thesis
  proof cases
    case 3
    then have "rnd x = - rnd_pos (- x)" by (simp add: rnd_def)
    then show ?thesis using pos [of "- x"] 3 by (simp add: rnd_minus)
  qed (use pos in \<open>auto simp: rnd_def [of x]\<close>)
qed

text \<open>The values a float of the machine can have: every result of an operation is one.\<close>

fun is_double :: "flt \<Rightarrow> bool" where
  "is_double (Fin q) = (flt_of q = Fin q)"
| "is_double x = True"

lemma is_double_flt_of [simp]: "is_double (flt_of q)"
proof (cases "flt_of q")
  case (Fin r)
  then have "r = rnd q" and "\<not> pow2 1024 \<le> rnd q" "\<not> rnd q \<le> - pow2 1024"
    by (auto simp: flt_of_def Let_def split: if_splits)
  then show ?thesis using Fin by (simp add: flt_of_def Let_def)
qed simp_all

lemma is_double_add [simp]: "is_double (flt_add x y)"
  by (cases x; cases y) simp_all

lemma flt_of_small [simp]: "flt_of 0 = Fin 0" "flt_of 1 = Fin 1"
  using flt_of_int_exact [of 0] flt_of_int_exact [of 1] by (simp_all add: flt_of_int_def)

lemma flt_add_0 [simp]: "is_double x \<Longrightarrow> flt_add x (Fin 0) = x"
  by (cases x) simp_all

lemma is_double_clamp: "is_double x \<Longrightarrow> is_double (clamp x (Fin 0) (Fin 1))"
  by (simp add: clamp_def py_max_def py_min_def)

end
