(* ===== verification/PyValue.thy ===== *)
theory PyValue
  imports Float64
begin

text \<open>
  The plain values the code exchanges: what \<open>json\<close> can print, which is also what
  \<open>canonical_serialize\<close> (\<open>habitat/state.py\<close>, \<open>temporal/state.py\<close>) produces from dataclasses. A
  member of a \<open>str\<close> enumeration is the string of its value; a tuple is a list.

  The theory holds the coercions \<open>str\<close>, \<open>int\<close>, \<open>float\<close> and \<open>bool\<close> as the parsers of the code apply
  them, the canonical JSON text of \<open>util.canon_json\<close> (sorted keys, compact separators, ASCII
  only), and the commitment \<open>sha256_hex(canon_json(x))\<close>. The digest itself (\<open>hashlib\<close>) and the text of a
  float (\<open>float.__repr__\<close>) are the two fields of a \<open>hash_env\<close>, which every function that hashes
  takes as its first argument.
\<close>

section \<open>Values\<close>

datatype pyv =
    VNone
  | VBool bool
  | VInt int
  | VFlt flt
  | VStr string
  | VList "pyv list"
  | VDict "(string \<times> pyv) list"

abbreviation v_opt :: "('a \<Rightarrow> pyv) \<Rightarrow> 'a option \<Rightarrow> pyv" where
  "v_opt f x \<equiv> (case x of None \<Rightarrow> VNone | Some y \<Rightarrow> f y)"

abbreviation v_strs :: "string list \<Rightarrow> pyv" where
  "v_strs xs \<equiv> VList (map VStr xs)"

text \<open>\<open>payload[k]\<close>, \<open>payload.get(k, default)\<close> and \<open>k in payload\<close>.\<close>

fun item :: "pyv \<Rightarrow> string \<Rightarrow> pyv res" where
  "item (VDict d) k = (case map_of d k of None \<Rightarrow> Inl (KeyError k) | Some v \<Rightarrow> Inr v)"
| "item v k = Inl (TypeError ''not_a_mapping'')"

fun get_or :: "pyv \<Rightarrow> string \<Rightarrow> pyv \<Rightarrow> pyv res" where
  "get_or (VDict d) k v = Inr (case map_of d k of None \<Rightarrow> v | Some w \<Rightarrow> w)"
| "get_or v k w = Inl (TypeError ''no_attribute_get'')"

fun has_key :: "pyv \<Rightarrow> string \<Rightarrow> bool" where
  "has_key (VDict d) k = (map_of d k \<noteq> None)"
| "has_key v k = False"

section \<open>Coercions\<close>

text \<open>\<open>str(v)\<close>; the text of a float or a container is not modelled.\<close>

fun as_str :: "pyv \<Rightarrow> string res" where
  "as_str (VStr s) = Inr s"
| "as_str (VInt i) = Inr (int_str i)"
| "as_str (VBool b) = Inr (if b then ''True'' else ''False'')"
| "as_str VNone = Inr ''None''"
| "as_str v = Inl (OutOfModel ''str'')"

text \<open>\<open>int(v)\<close>; reading a number from text is not modelled.\<close>

fun as_int :: "pyv \<Rightarrow> int res" where
  "as_int (VInt i) = Inr i"
| "as_int (VBool b) = Inr (if b then 1 else 0)"
| "as_int (VFlt x) = int_of_flt x"
| "as_int (VStr s) = Inl (OutOfModel ''int'')"
| "as_int v = Inl (TypeError ''int_argument'')"

fun as_float :: "pyv \<Rightarrow> flt res" where
  "as_float (VFlt x) = Inr x"
| "as_float (VInt i) = float_of_int i"
| "as_float (VBool b) = Inr (if b then Fin 1 else Fin 0)"
| "as_float (VStr s) = Inl (OutOfModel ''float'')"
| "as_float v = Inl (TypeError ''float_argument'')"

text \<open>Truth value, as \<open>bool(v)\<close> and as a condition.\<close>

fun truthy :: "pyv \<Rightarrow> bool" where
  "truthy VNone = False"
| "truthy (VBool b) = b"
| "truthy (VInt i) = (i \<noteq> 0)"
| "truthy (VFlt x) = (x \<noteq> Fin 0)"
| "truthy (VStr s) = (s \<noteq> [])"
| "truthy (VList xs) = (xs \<noteq> [])"
| "truthy (VDict d) = (d \<noteq> [])"

definition as_bool :: "pyv \<Rightarrow> bool res" where
  "as_bool v = Inr (truthy v)"

text \<open>Iteration over a value, and over the items of a mapping.\<close>

fun as_list :: "pyv \<Rightarrow> pyv list res" where
  "as_list (VList xs) = Inr xs"
| "as_list (VDict d) = Inr (map (VStr \<circ> fst) d)"
| "as_list (VStr s) = Inr (map (\<lambda>c. VStr [c]) s)"
| "as_list v = Inl (TypeError ''not_iterable'')"

fun as_dict :: "pyv \<Rightarrow> pyv dict res" where
  "as_dict (VDict d) = Inr d"
| "as_dict v = Inl (OutOfModel ''dict'')"

text \<open>\<open>v or default\<close>.\<close>

definition or_else :: "pyv \<Rightarrow> pyv \<Rightarrow> pyv" where
  "or_else v w = (if truthy v then v else w)"

text \<open>\<open>None\<close> stays \<open>None\<close>; anything else is coerced. \<open>plain_flt\<close>, \<open>plain_str\<close> and so on read a value
  the code stores without a coercion, of the type its annotation gives.\<close>

definition opt_conv :: "(pyv \<Rightarrow> 'a res) \<Rightarrow> pyv \<Rightarrow> 'a option res" where
  "opt_conv f v = (if v = VNone then Inr None else andThen (f v) (\<lambda>x. Inr (Some x)))"

fun plain_flt :: "pyv \<Rightarrow> flt res" where
  "plain_flt (VFlt x) = Inr x"
| "plain_flt v = Inl (OutOfModel ''expected a float'')"

fun plain_str :: "pyv \<Rightarrow> string res" where
  "plain_str (VStr s) = Inr s"
| "plain_str v = Inl (OutOfModel ''expected a str'')"

fun plain_dict :: "pyv \<Rightarrow> pyv dict res" where
  "plain_dict (VDict d) = Inr d"
| "plain_dict v = Inl (OutOfModel ''expected a dict'')"

text \<open>\<open>conv(payload[k])\<close>, \<open>conv(payload.get(k, v))\<close> and a tuple comprehension
  \<open>tuple(conv(x) for x in v)\<close>.\<close>

definition fld :: "pyv \<Rightarrow> string \<Rightarrow> (pyv \<Rightarrow> 'a res) \<Rightarrow> 'a res" where
  "fld p k f = andThen (item p k) f"

definition tuple_of :: "(pyv \<Rightarrow> 'a res) \<Rightarrow> pyv \<Rightarrow> 'a list res" where
  "tuple_of f v = andThen (as_list v) (mapE f)"

definition fld_or :: "pyv \<Rightarrow> string \<Rightarrow> pyv \<Rightarrow> (pyv \<Rightarrow> 'a res) \<Rightarrow> 'a res" where
  "fld_or p k v f = andThen (get_or p k v) f"

lemma fld_or_VDict [simp]:
  "fld_or (VDict d) k v f = f (case map_of d k of None \<Rightarrow> v | Some w \<Rightarrow> w)"
  by (simp add: fld_or_def)

lemma fld_VDict [simp]:
  "fld (VDict d) k f = (case map_of d k of None \<Rightarrow> Inl (KeyError k) | Some v \<Rightarrow> f v)"
  by (simp add: fld_def split: option.splits)

lemma as_bool_VBool [simp]: "as_bool (VBool b) = Inr b"
  by (simp add: as_bool_def)

lemma opt_conv_None [simp]: "opt_conv f VNone = Inr None"
  by (simp add: opt_conv_def)

lemma tuple_of_map [simp]:
  "(\<And>x. f (g x) = Inr x) \<Longrightarrow> tuple_of f (VList (map g xs)) = Inr xs"
  by (simp add: tuple_of_def mapE_map mapE_Inr [where g = id] o_def)

lemma tuple_of_strs [simp]: "tuple_of as_str (v_strs xs) = Inr xs"
  by simp

lemma opt_conv_v_opt [simp]:
  "(\<And>x. f (g x) = Inr x) \<Longrightarrow> (\<And>x. g x \<noteq> VNone) \<Longrightarrow> opt_conv f (v_opt g y) = Inr y"
  by (auto simp: opt_conv_def split: option.splits)

section \<open>Canonical values and text\<close>

text \<open>
  \<open>_canonical_value\<close>: dictionaries with their keys sorted, recursively; everything else of a
  plain value is already canonical.
\<close>

primrec canonical :: "pyv \<Rightarrow> pyv" where
  "canonical VNone = VNone"
| "canonical (VBool b) = VBool b"
| "canonical (VInt i) = VInt i"
| "canonical (VFlt x) = VFlt x"
| "canonical (VStr s) = VStr s"
| "canonical (VList xs) = VList (map canonical xs)"
| "canonical (VDict d) = VDict (sorted_items (map (map_prod id canonical) d))"

definition hex_digit :: "nat \<Rightarrow> char" where
  "hex_digit d = (if d < 10 then char_of (48 + d) else char_of (87 + d))"

text \<open>The escapes of \<open>json.dumps\<close> with \<open>ensure_ascii\<close>.\<close>

definition json_char :: "char \<Rightarrow> string" where
  "json_char c = (let n = (of_char c :: nat) in
     if n = 34 then [char_of (92::nat), char_of (34::nat)]
     else if n = 92 then [char_of (92::nat), char_of (92::nat)]
     else if n = 10 then char_of (92::nat) # ''n''
     else if n = 13 then char_of (92::nat) # ''r''
     else if n = 9 then char_of (92::nat) # ''t''
     else if n = 12 then char_of (92::nat) # ''f''
     else if n = 8 then char_of (92::nat) # ''b''
     else if n < 32 \<or> 126 < n
       then char_of (92::nat) # ''u00'' @ [hex_digit (n div 16), hex_digit (n mod 16)]
     else [c])"

definition json_str :: "string \<Rightarrow> string" where
  "json_str s = CHR 0x22 # concat (map json_char s) @ [CHR 0x22]"

fun commas :: "string list \<Rightarrow> string" where
  "commas [] = []"
| "commas [x] = x"
| "commas (x # y # xs) = x @ '','' @ commas (y # xs)"

record hash_env =
  float_repr :: "flt \<Rightarrow> string"
  sha256_hex :: "string \<Rightarrow> string"

fun json_flt :: "hash_env \<Rightarrow> flt \<Rightarrow> string" where
  "json_flt E (Fin q) = float_repr E (Fin q)"
| "json_flt E PInf = ''Infinity''"
| "json_flt E NInf = ''-Infinity''"
| "json_flt E NaN = ''NaN''"

primrec json_text :: "hash_env \<Rightarrow> pyv \<Rightarrow> string" where
  "json_text E VNone = ''null''"
| "json_text E (VBool b) = (if b then ''true'' else ''false'')"
| "json_text E (VInt i) = int_str i"
| "json_text E (VFlt x) = json_flt E x"
| "json_text E (VStr s) = json_str s"
| "json_text E (VList xs) = ''['' @ commas (map (json_text E) xs) @ '']''"
| "json_text E (VDict d) =
     ''{'' @ commas (map (\<lambda>(k, t). json_str k @ '':'' @ t) (map (map_prod id (json_text E)) d)) @ ''}''"

definition canon_json :: "hash_env \<Rightarrow> pyv \<Rightarrow> string" where
  "canon_json E v = json_text E (canonical v)"

definition hash_canonical :: "hash_env \<Rightarrow> pyv \<Rightarrow> string" where
  "hash_canonical E v = sha256_hex E (canon_json E v)"

text \<open>The order of a dictionary's keys does not show in the canonical value or its hash.\<close>

lemma canonical_idem: "canonical (canonical v) = canonical v"
proof (induction v)
  case (VList xs)
  then show ?case by simp
next
  case (VDict d)
  let ?e = "map (map_prod id canonical) d"
  have "map (map_prod id canonical) ?e = ?e"
    using VDict by (fastforce simp: map_prod_def)
  moreover have "map (map_prod id canonical) (sorted_items ?e)
      = sorted_items (map (map_prod id canonical) ?e)"
    using sort_key_map_value [of canonical ?e] by (simp add: sorted_items_def map_prod_def id_def)
  moreover have "sorted_items (sorted_items ?e) = sorted_items ?e"
    by (simp add: sorted_items_def sorted_sort_id sort_key_id_if_sorted)
  ultimately show ?case by (simp only: canonical.simps)
qed simp_all

lemma hash_canonical_idem [simp]: "hash_canonical E (canonical v) = hash_canonical E v"
  by (simp add: hash_canonical_def canon_json_def canonical_idem)

section \<open>Reading a canonical dictionary\<close>

lemma canonical_lookup:
  assumes "dwf d"
  shows "map_of (sorted_items (map (map_prod id canonical) d)) k = map_option canonical (map_of d k)"
proof -
  have "map fst (map (map_prod id canonical) d) = map fst d" by (induction d) auto
  then have "dwf (map (map_prod id canonical) d)" using assms by simp
  then show ?thesis
    using map_of_map_value [of canonical d]
    by (simp add: sorted_items_lookup map_prod_def id_def)
qed

lemma fld_canonical:
  "dwf d \<Longrightarrow> fld (canonical (VDict d)) k f =
     (case map_of d k of None \<Rightarrow> Inl (KeyError k) | Some v \<Rightarrow> f (canonical v))"
  by (simp add: canonical_lookup split: option.splits)

lemma fld_or_canonical:
  "dwf d \<Longrightarrow> fld_or (canonical (VDict d)) k v f =
     f (case map_of d k of None \<Rightarrow> v | Some w \<Rightarrow> canonical w)"
  by (simp add: canonical_lookup split: option.splits)

lemma get_or_canonical:
  "dwf d \<Longrightarrow> get_or (canonical (VDict d)) k v =
     Inr (case map_of d k of None \<Rightarrow> v | Some w \<Rightarrow> canonical w)"
  by (simp add: canonical_lookup split: option.splits)

lemma item_canonical:
  "dwf d \<Longrightarrow> item (canonical (VDict d)) k =
     (case map_of d k of None \<Rightarrow> Inl (KeyError k) | Some v \<Rightarrow> Inr (canonical v))"
  by (simp add: canonical_lookup split: option.splits)

lemma canonical_v_opt [simp]: "canonical (v_opt g x) = v_opt (\<lambda>y. canonical (g y)) x"
  by (simp split: option.splits)

lemma canonical_strs [simp]: "map (\<lambda>x. canonical (VStr x)) xs = map VStr xs" "map (canonical \<circ> VStr) xs = map VStr xs"
  by (simp_all add: o_def)

lemma canonical_not_None [simp]: "canonical v = VNone \<longleftrightarrow> v = VNone"
  by (cases v) auto

lemma or_else_list: "or_else (VList xs) (VList []) = VList xs"
  by (simp add: or_else_def)

section \<open>A concrete environment\<close>

text \<open>A concrete environment for closed examples: the digest is the text itself.\<close>

definition plain_env :: hash_env where
  "plain_env = \<lparr>float_repr = (\<lambda>x. case x of Fin q \<Rightarrow>
       (let (n, d) = quotient_of q in int_str n @ ''/'' @ int_str d) | _ \<Rightarrow> ''''),
     sha256_hex = (\<lambda>s. s)\<rparr>"

end
