(* ===== verification/Contracts.thy ===== *)
theory Contracts
  imports PyValue
begin

text \<open>
  The interfaces several components share, as locales. Each is interpreted on the definitions of
  the components that provide it, in their own theories.

  \<^item> \<open>sealed_record\<close>: a record that carries a hash of its own body (\<open>with_state_hash\<close> and its kin).
  \<^item> \<open>event_log\<close>: states reached by applying records that name the version and hash they start from.
  \<^item> \<open>idempotent_log\<close>: logs in which an event that is already in the state is passed over.
  \<^item> \<open>plan_slot\<close>: the prepare / abandon / commit protocol of an engine with one plan in flight.
  \<^item> \<open>bounded_log\<close>: a buffer that keeps the newest entries up to a capacity.
  \<^item> \<open>keyed_store\<close>: values stored under their own key and read back.
\<close>

section \<open>Records that carry their own hash\<close>

text \<open>
  \<open>bdy s\<close> is what is hashed, \<open>get_hash s\<close> the stored hash, \<open>seal s\<close> stores the hash of the body.
\<close>

locale sealed_record =
  fixes seal :: "'s \<Rightarrow> 's" and bdy :: "'s \<Rightarrow> pyv" and get_hash :: "'s \<Rightarrow> string"
    and digest :: "pyv \<Rightarrow> string"
  assumes hash_seal: "get_hash (seal s) = digest (bdy s)"
    and bdy_seal: "bdy (seal s) = bdy s"
    and seal_fixed: "get_hash s = digest (bdy s) \<Longrightarrow> seal s = s"
begin

definition sealed :: "'s \<Rightarrow> bool" where
  "sealed s \<longleftrightarrow> get_hash s = digest (bdy s)"

lemma sealed_seal: "sealed (seal s)"
  by (simp add: sealed_def hash_seal bdy_seal)

lemma seal_idem: "seal (seal s) = seal s"
  by (rule seal_fixed) (simp add: hash_seal bdy_seal)

lemma sealed_iff: "sealed s \<longleftrightarrow> seal s = s"
  using sealed_def sealed_seal seal_fixed by metis

text \<open>Two sealed records with one hash have one body, or their bodies are a collision.\<close>

lemma hash_binds_body:
  assumes "sealed s" and "sealed t" and "get_hash s = get_hash t"
  shows "bdy s = bdy t \<or> (bdy s \<noteq> bdy t \<and> digest (bdy s) = digest (bdy t))"
  using assms by (auto simp: sealed_def)

end

section \<open>States reached through version-chained records\<close>

text \<open>
  \<open>app s r\<close> applies the record \<open>r\<close>. It refuses a record that does not start from the state's own
  version and hash, and otherwise ends in the version and hash that the record announces.
\<close>

locale event_log =
  fixes app :: "'s \<Rightarrow> 'r \<Rightarrow> 's res"
    and ver :: "'s \<Rightarrow> int" and hsh :: "'s \<Rightarrow> string"
    and prior_ver :: "'r \<Rightarrow> int" and prior_hash :: "'r \<Rightarrow> string"
    and new_ver :: "'r \<Rightarrow> int" and new_hash :: "'r \<Rightarrow> string"
  assumes app_prior: "app s r = Inr t \<Longrightarrow> prior_ver r = ver s \<and> prior_hash r = hsh s"
    and app_new: "app s r = Inr t \<Longrightarrow> ver t = new_ver r \<and> hsh t = new_hash r"
begin

fun chained :: "int \<Rightarrow> string \<Rightarrow> 'r list \<Rightarrow> bool" where
  "chained v h [] = True"
| "chained v h (r # rs) =
     (prior_ver r = v \<and> prior_hash r = h \<and> chained (new_ver r) (new_hash r) rs)"

lemma replay_chained: "foldE app s rs = Inr t \<Longrightarrow> chained (ver s) (hsh s) rs"
proof (induction rs arbitrary: s)
  case Nil
  then show ?case by simp
next
  case (Cons r rs)
  then obtain u where u: "app s r = Inr u" and rest: "foldE app u rs = Inr t"
    by (auto simp: andThen_eq_Inr)
  have "chained (ver u) (hsh u) rs" using rest by (rule Cons.IH)
  then show ?case using app_prior [OF u] app_new [OF u] by simp
qed

text \<open>A record that starts elsewhere is refused wherever it stands in the log.\<close>

lemma replay_refuses_gap:
  assumes "foldE app s rs = Inr t" and "prior_ver r \<noteq> ver t \<or> prior_hash r \<noteq> hsh t"
  shows "\<exists>e. foldE app s (rs @ r # rs') = Inl e"
proof (cases "app t r")
  case (Inl e)
  then show ?thesis using assms(1) by (simp add: foldE_append)
next
  case (Inr u)
  then show ?thesis using app_prior [OF Inr] assms(2) by simp
qed

text \<open>With strictly growing versions no record applies twice in one log.\<close>

lemma replay_increases:
  assumes "foldE app s rs = Inr t" and "\<And>r. r \<in> set rs \<Longrightarrow> prior_ver r < new_ver r"
  shows "ver s \<le> ver t \<and> (rs \<noteq> [] \<longrightarrow> ver s < ver t)"
  using assms
proof (induction rs arbitrary: s)
  case Nil
  then show ?case by simp
next
  case (Cons r rs)
  then obtain u where u: "app s r = Inr u" and rest: "foldE app u rs = Inr t"
    by (auto simp: andThen_eq_Inr)
  have "ver s < ver u" using app_prior [OF u] app_new [OF u] Cons.prems(2) [of r] by simp
  moreover have "ver u \<le> ver t" using Cons.IH [OF rest] Cons.prems(2) by auto
  ultimately show ?case by simp
qed

lemma replay_no_repeat:
  assumes "foldE app s (r # rs) = Inr t" and "\<And>q. q \<in> set (r # rs) \<Longrightarrow> prior_ver q < new_ver q"
  shows "\<exists>e. app t r = Inl e"
proof -
  obtain u where u: "app s r = Inr u" and rest: "foldE app u rs = Inr t"
    using assms(1) by (auto simp: andThen_eq_Inr)
  have "ver s < ver u" using app_prior [OF u] app_new [OF u] assms(2) [of r] by simp
  moreover have "ver u \<le> ver t" using replay_increases [OF rest] assms(2) by auto
  ultimately have "prior_ver r \<noteq> ver t" using app_prior [OF u] by simp
  then show ?thesis using app_prior by (cases "app t r") auto
qed

end

section \<open>Events that may arrive twice\<close>

text \<open>Applying an event \<open>r\<close> with \<open>good r\<close> to the state it has just produced changes nothing.\<close>

locale idempotent_log =
  fixes app :: "'s \<Rightarrow> 'r \<Rightarrow> 's res" and good :: "'r \<Rightarrow> bool"
  assumes app_again: "good r \<Longrightarrow> app s r = Inr t \<Longrightarrow> app t r = Inr t"
begin

lemma app_replicate: "good r \<Longrightarrow> app s r = Inr t \<Longrightarrow> foldE app t (replicate n r) = Inr t"
  by (induction n) (auto simp: app_again)

text \<open>A log in which every event is repeated any number of times on the spot replays as the log itself.\<close>

lemma replay_stuttered:
  assumes "\<And>r n. (r, n) \<in> set rns \<Longrightarrow> good r"
  shows "foldE app s (concat (map (\<lambda>(r, n). replicate (Suc n) r) rns)) = foldE app s (map fst rns)"
  using assms
proof (induction rns arbitrary: s)
  case Nil
  then show ?case by simp
next
  case (Cons p rns)
  obtain r n where p: "p = (r, n)" by (cases p)
  show ?case
  proof (cases "app s r")
    case (Inl e)
    then show ?thesis by (simp add: p)
  next
    case (Inr t)
    have "good r" using Cons.prems [of r n] p by simp
    then have "foldE app t (replicate n r) = Inr t" using app_replicate [OF _ Inr] by blast
    moreover have "foldE app t (concat (map (\<lambda>(r, n). replicate (Suc n) r) rns)) = foldE app t (map fst rns)"
      by (rule Cons.IH) (use Cons.prems in auto)
    ultimately have "foldE app t (replicate n r @ concat (map (\<lambda>(r, n). replicate (Suc n) r) rns)) = foldE app t (map fst rns)"
      by (simp only: foldE_append andThen.simps)
    then show ?thesis using Inr p by simp
  qed
qed

end

section \<open>One plan in flight\<close>

text \<open>
  An engine that prepares a plan, keeps it in a slot and commits or abandons it later. \<open>slot\<close> is the
  plan in flight, \<open>ident\<close> its identifier; \<open>abandon i\<close> and \<open>commit p\<close> are methods.
\<close>

locale plan_slot =
  fixes slot :: "'e \<Rightarrow> 'p option" and ident :: "'p \<Rightarrow> string"
    and abandon :: "string \<Rightarrow> ('e, unit) method" and commit :: "'p \<Rightarrow> ('e, 'r) method"
  assumes abandon_ok: "fst (abandon i t) = Inr u \<Longrightarrow>
      (\<exists>p. slot t = Some p \<and> ident p = i) \<and> slot (snd (abandon i t)) = None"
    and abandon_err: "fst (abandon i t) = Inl e \<Longrightarrow> snd (abandon i t) = t"
    and abandon_live: "slot t = Some p \<Longrightarrow> fst (abandon (ident p) t) = Inr ()"
    and commit_ok: "fst (commit p t) = Inr r \<Longrightarrow>
      (\<exists>q. slot t = Some q \<and> ident q = ident p) \<and> slot (snd (commit p t)) = None"
begin

lemma commit_needs_plan: "slot t = None \<Longrightarrow> \<exists>e. fst (commit p t) = Inl e"
  using commit_ok [of p t] by (cases "fst (commit p t)") auto

lemma abandon_needs_plan: "slot t = None \<Longrightarrow> \<exists>e. fst (abandon i t) = Inl e"
  using abandon_ok [of i t] by (cases "fst (abandon i t)") auto

text \<open>A committed plan cannot be committed again: its slot is empty.\<close>

lemma commit_once:
  assumes "fst (commit p t) = Inr r"
  shows "\<exists>e. fst (commit p (snd (commit p t))) = Inl e"
  using commit_ok [OF assms] commit_needs_plan by blast

lemma abandon_then_commit:
  assumes "fst (abandon i t) = Inr u"
  shows "\<exists>e. fst (commit p (snd (abandon i t))) = Inl e"
  using abandon_ok [OF assms] commit_needs_plan by blast

end

section \<open>Buffers of bounded length\<close>

definition last_n :: "nat \<Rightarrow> 'a list \<Rightarrow> 'a list" where
  "last_n n xs = drop (length xs - n) xs"

lemma length_last_n: "length (last_n n xs) = min n (length xs)"
  by (simp add: last_n_def)

lemma last_n_id: "length xs \<le> n \<Longrightarrow> last_n n xs = xs"
  by (simp add: last_n_def)

lemma set_last_n: "set (last_n n xs) \<subseteq> set xs"
  by (simp add: last_n_def set_drop_subset)

lemma last_n_snoc: "0 < n \<Longrightarrow> last_n n (xs @ [x]) = last_n (n - 1) xs @ [x]"
  by (cases "length xs \<le> n - 1") (auto simp: last_n_def Suc_diff_le not_le)

lemma last_n_last_n_snoc: "last_n n (last_n n xs @ [x]) = last_n n (xs @ [x])"
proof (cases "length xs \<le> n")
  case True
  then show ?thesis by (simp add: last_n_id)
next
  case False
  show ?thesis
  proof (cases n)
    case 0
    then show ?thesis by (simp add: last_n_def)
  next
    case (Suc m)
    have "Suc (length xs - n) = length xs - m" using False Suc by simp
    then show ?thesis using False Suc by (simp add: last_n_def Suc_diff_le)
  qed
qed

text \<open>\<open>view\<close> is the content, oldest first; \<open>push\<close> appends and drops the oldest beyond \<open>cap\<close>.\<close>

locale bounded_log =
  fixes cap :: nat and view :: "'b \<Rightarrow> 'a list" and push :: "'a \<Rightarrow> 'b \<Rightarrow> 'b" and ok :: "'b \<Rightarrow> bool"
  assumes cap_pos: "0 < cap"
    and view_push: "ok b \<Longrightarrow> view (push x b) = last_n cap (view b @ [x])"
    and ok_push: "ok b \<Longrightarrow> ok (push x b)"
    and ok_len: "ok b \<Longrightarrow> length (view b) \<le> cap"
begin

definition push_all :: "'a list \<Rightarrow> 'b \<Rightarrow> 'b" where
  "push_all xs b = fold push xs b"

lemma ok_push_all: "ok b \<Longrightarrow> ok (push_all xs b)"
  unfolding push_all_def by (induction xs arbitrary: b) (auto simp: ok_push)

text \<open>After any sequence of pushes the buffer holds exactly the newest \<open>cap\<close> entries.\<close>

lemma view_push_all: "ok b \<Longrightarrow> view (push_all xs b) = last_n cap (view b @ xs)"
proof (induction xs rule: rev_induct)
  case Nil
  then show ?case by (simp add: push_all_def last_n_id ok_len)
next
  case (snoc x xs)
  then have "view (push_all (xs @ [x]) b) = last_n cap (last_n cap (view b @ xs) @ [x])"
    using ok_push_all [of b xs] by (simp add: push_all_def view_push)
  then show ?case by (simp add: last_n_last_n_snoc)
qed

lemma newest_kept: "ok b \<Longrightarrow> x \<in> set (view (push x b))"
  using cap_pos by (simp add: view_push last_n_snoc)

lemma length_push_all: "ok b \<Longrightarrow> length (view (push_all xs b)) \<le> cap"
  using ok_len ok_push_all by blast

end

section \<open>Stores with a key per value\<close>

text \<open>
  \<open>put v s\<close> stores \<open>v\<close> under its own key, or raises; \<open>get s k\<close> reads it back. A value satisfying \<open>good\<close>
  is read back as it was stored.
\<close>

locale keyed_store =
  fixes put :: "'s \<Rightarrow> 'v \<Rightarrow> 's res" and get :: "'s \<Rightarrow> string \<Rightarrow> 'v option res"
    and key :: "'v \<Rightarrow> string" and wf_store :: "'s \<Rightarrow> bool" and good :: "'v \<Rightarrow> bool"
  assumes put_wf: "wf_store s \<Longrightarrow> put s v = Inr t \<Longrightarrow> wf_store t"
    and get_put: "wf_store s \<Longrightarrow> good v \<Longrightarrow> put s v = Inr t \<Longrightarrow>
      get t k = (if k = key v then Inr (Some v) else get s k)"
begin

lemma puts_wf: "foldE put s vs = Inr t \<Longrightarrow> wf_store s \<Longrightarrow> wf_store t"
  by (erule foldE_invariant) (auto intro: put_wf)

text \<open>After any sequence of puts a key holds the last value stored under it.\<close>

lemma get_puts:
  assumes "foldE put s vs = Inr t" and "wf_store s" and "\<And>v. v \<in> set vs \<Longrightarrow> good v"
  shows "get t k = (case filter (\<lambda>v. key v = k) vs of [] \<Rightarrow> get s k
     | hits \<Rightarrow> Inr (Some (last hits)))"
  using assms
proof (induction vs arbitrary: t rule: rev_induct)
  case Nil
  then show ?case by simp
next
  case (snoc v vs)
  obtain u where u: "foldE put s vs = Inr u" and v: "put u v = Inr t"
    using snoc.prems(1) by (auto simp: foldE_append andThen_eq_Inr)
  have "wf_store u" using puts_wf [OF u] snoc.prems(2) .
  from get_put [OF this _ v] snoc.prems(3)
  have "get t k = (if k = key v then Inr (Some v) else get u k)" by simp
  moreover have "get u k = (case filter (\<lambda>v. key v = k) vs of [] \<Rightarrow> get s k
     | hits \<Rightarrow> Inr (Some (last hits)))"
    using snoc.IH [OF u snoc.prems(2)] snoc.prems(3) by simp
  ultimately show ?case by (auto split: list.splits)
qed

end

end
