(* ===== verification/Recurrence.thy ===== *)
theory Recurrence
  imports Contracts
begin

text \<open>
  \<open>temporal/recurrence.py\<close>: the estimator of a recurring event's period, jitter and phase, the
  life cycle of a recurrence hypothesis, its dictionary form and the sorted index of hypotheses.

  An occurrence map (\<open>_OccurrenceMap\<close>) is a dictionary from occurrence ids to a tick and a lane.
  A call that the code can make fail only by an integer too large for a float (\<open>float(int)\<close>)
  returns a result like any other function that may raise.
\<close>

section \<open>Constants and estimators\<close>

definition ESTIMATOR_SCHEMA_VERSION :: string where
  "ESTIMATOR_SCHEMA_VERSION = ''d010.recurrence-estimator.v1''"

definition CONTEXT_SCHEMA_VERSION :: string where
  "CONTEXT_SCHEMA_VERSION = ''d010.recurrence-context.v1''"

definition MIN_O_LANE_OCCURRENCES_FOR_ACTIVE :: int where
  "MIN_O_LANE_OCCURRENCES_FOR_ACTIVE = 3"

definition MIN_INTERVALS_FOR_PERIOD :: nat where
  "MIN_INTERVALS_FOR_PERIOD = 1"

definition MIN_OCCURRENCES_FOR_STABLE_PHASE_ANCHOR :: nat where
  "MIN_OCCURRENCES_FOR_STABLE_PHASE_ANCHOR = 3"

definition JITTER_MARGIN_MULTIPLIER :: flt where
  "JITTER_MARGIN_MULTIPLIER = flit 2 1"

definition MAX_RECURRENCE_HYPOTHESES :: nat where
  "MAX_RECURRENCE_HYPOTHESES = 64"

definition MAX_MISSES_BEFORE_UNCERTAIN :: int where
  "MAX_MISSES_BEFORE_UNCERTAIN = 3"

definition estimator_definition_hash :: "hash_env \<Rightarrow> string" where
  "estimator_definition_hash E = hash_canonical E (VDict
     [(''schema_version'', VStr ESTIMATOR_SCHEMA_VERSION),
      (''min_o_lane_occurrences_for_active'', VInt MIN_O_LANE_OCCURRENCES_FOR_ACTIVE),
      (''min_intervals_for_period'', VInt (int MIN_INTERVALS_FOR_PERIOD)),
      (''min_occurrences_for_stable_phase_anchor'', VInt (int MIN_OCCURRENCES_FOR_STABLE_PHASE_ANCHOR)),
      (''jitter_margin_multiplier'', VFlt JITTER_MARGIN_MULTIPLIER),
      (''robust_center'', VStr ''median''),
      (''robust_spread'', VStr ''mad'')])"

datatype evidence_lane = ORGANISM_OBSERVABLE | AUTHORITATIVE

fun lane_value :: "evidence_lane \<Rightarrow> string" where
  "lane_value ORGANISM_OBSERVABLE = ''O''"
| "lane_value AUTHORITATIVE = ''A''"

datatype hypothesis_status = CANDIDATE | ACTIVE | UNCERTAIN | WEAKENED | INACTIVE | RETIRED

fun status_value :: "hypothesis_status \<Rightarrow> string" where
  "status_value CANDIDATE = ''CANDIDATE''"
| "status_value ACTIVE = ''ACTIVE''"
| "status_value UNCERTAIN = ''UNCERTAIN''"
| "status_value WEAKENED = ''WEAKENED''"
| "status_value INACTIVE = ''INACTIVE''"
| "status_value RETIRED = ''RETIRED''"

definition hypothesis_status_of :: "string \<Rightarrow> hypothesis_status res" where
  "hypothesis_status_of s =
     (if s = ''CANDIDATE'' then Inr CANDIDATE
      else if s = ''ACTIVE'' then Inr ACTIVE
      else if s = ''UNCERTAIN'' then Inr UNCERTAIN
      else if s = ''WEAKENED'' then Inr WEAKENED
      else if s = ''INACTIVE'' then Inr INACTIVE
      else if s = ''RETIRED'' then Inr RETIRED
      else Inl (ValueError ''not_a_valid_HypothesisStatus''))"

lemma hypothesis_status_of_value [simp]: "hypothesis_status_of (status_value s) = Inr s"
  by (cases s) (simp_all add: hypothesis_status_of_def)

definition robust_center :: "flt list \<Rightarrow> flt" where
  "robust_center values =
     (if values = [] then Fin 0
      else let ordered = sort values; mid = length ordered div 2
           in if length ordered mod 2 = 1 then ordered ! mid
              else flt_div (flt_add (ordered ! (mid - 1)) (ordered ! mid)) (flit 2 1))"

definition robust_spread :: "flt list \<Rightarrow> flt" where
  "robust_spread values =
     (if length values < 2 then Fin 0
      else let center = robust_center values;
               deviations = map (\<lambda>v. flt_abs (flt_sub v center)) values
           in robust_center deviations)"

definition compute_recurrence_key ::
  "hash_env \<Rightarrow> string \<Rightarrow> string \<Rightarrow> string \<Rightarrow> string option \<Rightarrow> string" where
  "compute_recurrence_key E event_kind internal_context_key context_schema_version estimator_hash =
     hash_canonical E (VDict
       [(''event_kind'', VStr event_kind),
        (''internal_context_key'', VStr internal_context_key),
        (''context_schema_version'', VStr context_schema_version),
        (''estimator_definition_hash'',
         VStr (case estimator_hash of None \<Rightarrow> estimator_definition_hash E
               | Some h \<Rightarrow> if h = [] then estimator_definition_hash E else h))])"

definition recurrence_id_from_key :: "string \<Rightarrow> string" where
  "recurrence_id_from_key recurrence_key = ''rec:'' @ take 16 recurrence_key"

definition compute_intervals :: "int list \<Rightarrow> flt list res" where
  "compute_intervals occurrence_ticks =
     (let ordered = sort occurrence_ticks
      in if length ordered < 2 then Inr []
         else mapE (\<lambda>i. float_of_int (ordered ! i - ordered ! (i - 1))) [1..<length ordered])"

section \<open>Prediction\<close>

text \<open>
  The search loop. \<open>float(n)\<close> in \<open>n * period_estimate\<close> raises once \<open>n\<close> reaches \<open>2 ^ 1024\<close>, so the loop
  ends on every input; \<open>compute_next_index_bounded\<close> below bounds the result where the code uses it.
\<close>

function next_index_loop :: "flt \<Rightarrow> flt \<Rightarrow> flt \<Rightarrow> nat \<Rightarrow> nat res" where
  "next_index_loop phase_anchor_tick period_estimate age n =
     (case float_of_int (int n) of
        Inl e \<Rightarrow> Inl e
      | Inr n_flt \<Rightarrow>
          if flt_le (flt_add phase_anchor_tick (flt_mult n_flt period_estimate)) age
          then next_index_loop phase_anchor_tick period_estimate age (Suc n)
          else Inr n)"
  by pat_completeness auto

termination
proof (relation "measure (\<lambda>(_, _, _, n). 2 ^ 1024 - n)")
  show "wf (measure (\<lambda>(_, _, _, n). 2 ^ 1024 - n))" by simp
next
  fix a p age :: flt and n :: nat and x
  assume "float_of_int (int n) = Inr x"
  then have "int n < 2 ^ 1024" by (rule float_of_int_bound)
  then have "n < 2 ^ 1024" by (metis of_nat_less_iff of_nat_numeral of_nat_power)
  then show "((a, p, age, Suc n), (a, p, age, n)) \<in> measure (\<lambda>(_, _, _, n). 2 ^ 1024 - n)"
    by (simp only: in_measure prod.case diff_less_mono2 lessI)
qed

declare next_index_loop.simps [simp del]

definition compute_next_index :: "flt \<Rightarrow> flt \<Rightarrow> int \<Rightarrow> nat res" where
  "compute_next_index phase_anchor_tick period_estimate current_age =
     (if flt_le period_estimate (Fin 0) then Inr 0
      else andThen (float_of_int current_age) (\<lambda>age.
             next_index_loop phase_anchor_tick period_estimate age 0))"

definition predict_center :: "flt option \<Rightarrow> int option \<Rightarrow> flt \<Rightarrow> int \<Rightarrow> bool \<Rightarrow> flt res" where
  "predict_center phase_anchor_tick last_observed_tick period_estimate current_age phase_anchor_stable =
     (let by_last =
        (case last_observed_tick of
           Some t \<Rightarrow>
             if flt_lt (Fin 0) period_estimate
             then andThen (float_of_int t) (\<lambda>x. Inr (flt_add x period_estimate))
             else float_of_int current_age
         | None \<Rightarrow> float_of_int current_age)
      in case phase_anchor_tick of
           Some anchor \<Rightarrow>
             if phase_anchor_stable \<and> flt_lt (Fin 0) period_estimate
             then andThen (compute_next_index anchor period_estimate current_age) (\<lambda>next_index.
                    andThen (float_of_int (int next_index)) (\<lambda>k.
                      Inr (flt_add anchor (flt_mult k period_estimate))))
             else by_last
         | None \<Rightarrow> by_last)"

record recurrence_prediction =
  rp_next_index :: nat
  rp_predicted_center :: flt
  rp_window_start :: flt
  rp_window_end :: flt
  rp_period_estimate :: flt
  rp_jitter_estimate :: flt
  rp_phase_anchor_tick :: "flt option"
  rp_phase_anchor_stable :: bool

section \<open>Hypotheses and their dictionary form\<close>

type_synonym occurrence = "string \<times> int \<times> string"

type_synonym occurrence_map = "(int \<times> string) dict"

record recurrence_hypothesis =
  rh_recurrence_id :: string
  rh_recurrence_key :: string
  rh_event_kind :: string
  rh_internal_context_key :: string
  rh_context_schema_version :: string
  rh_status :: hypothesis_status
  rh_hypothesis_version :: int
  rh_occurrence_by_id :: "occurrence list"
  rh_evidence_identities :: "string list"
  rh_o_lane_occurrence_count :: int
  rh_a_lane_seed_count :: int
  rh_period_estimate :: flt
  rh_jitter_estimate :: flt
  rh_phase_anchor_tick :: "flt option"
  rh_phase_anchor_stable :: bool
  rh_last_observed_tick :: "int option"
  rh_observation_count :: int
  rh_miss_count :: int

text \<open>An entry of two values is on the organism lane; any other length than two or three is an
  unpacking error. The value is built before the key is coerced, as in the assignment of the code.\<close>

definition parse_entry :: "pyv \<Rightarrow> occurrence res" where
  "parse_entry entry = andThen (as_list entry) (\<lambda>parts.
     case parts of
       [occ_id, tick] \<Rightarrow>
         andThen (as_int tick) (\<lambda>t. andThen (as_str occ_id) (\<lambda>i.
           Inr (i, t, lane_value ORGANISM_OBSERVABLE)))
     | [occ_id, tick, lane] \<Rightarrow>
         andThen (as_str lane) (\<lambda>l. andThen (as_int tick) (\<lambda>t. andThen (as_str occ_id) (\<lambda>i.
           Inr (i, t, l))))
     | _ \<Rightarrow> Inl (ValueError ''unpack''))"

definition occurrence_map_of :: "occurrence list \<Rightarrow> occurrence_map" where
  "occurrence_map_of xs = fold (\<lambda>(i, t, l). dput i (t, l)) xs []"

definition parse_occurrence_entries :: "pyv \<Rightarrow> occurrence_map res" where
  "parse_occurrence_entries raw_occurrences =
     andThen (as_list raw_occurrences) (\<lambda>entries.
     andThen (mapE parse_entry entries) (\<lambda>xs. Inr (occurrence_map_of xs)))"

definition serialize_occurrence_map :: "occurrence_map \<Rightarrow> occurrence list" where
  "serialize_occurrence_map occurrence_map = sort occurrence_map"

definition o_lane_ticks_from_map :: "occurrence_map \<Rightarrow> int list" where
  "o_lane_ticks_from_map occurrence_map =
     sort (map fst (filter (\<lambda>(tick, lane). lane = lane_value ORGANISM_OBSERVABLE)
       (map snd occurrence_map)))"

definition occurrence_ticks :: "recurrence_hypothesis \<Rightarrow> int list" where
  "occurrence_ticks h = o_lane_ticks_from_map (occurrence_map_of (rh_occurrence_by_id h))"

definition occurrence_to_pyv :: "occurrence \<Rightarrow> pyv" where
  "occurrence_to_pyv e = (case e of (i, t, l) \<Rightarrow> VList [VStr i, VInt t, VStr l])"

definition hypothesis_to_dict :: "recurrence_hypothesis \<Rightarrow> pyv" where
  "hypothesis_to_dict h = VDict
     [(''recurrence_id'', VStr (rh_recurrence_id h)),
      (''recurrence_key'', VStr (rh_recurrence_key h)),
      (''event_kind'', VStr (rh_event_kind h)),
      (''internal_context_key'', VStr (rh_internal_context_key h)),
      (''context_schema_version'', VStr (rh_context_schema_version h)),
      (''status'', VStr (status_value (rh_status h))),
      (''hypothesis_version'', VInt (rh_hypothesis_version h)),
      (''occurrence_by_id'', VList (map occurrence_to_pyv (rh_occurrence_by_id h))),
      (''evidence_identities'', v_strs (rh_evidence_identities h)),
      (''o_lane_occurrence_count'', VInt (rh_o_lane_occurrence_count h)),
      (''a_lane_seed_count'', VInt (rh_a_lane_seed_count h)),
      (''period_estimate'', VFlt (rh_period_estimate h)),
      (''jitter_estimate'', VFlt (rh_jitter_estimate h)),
      (''phase_anchor_tick'', v_opt VFlt (rh_phase_anchor_tick h)),
      (''phase_anchor_stable'', VBool (rh_phase_anchor_stable h)),
      (''last_observed_tick'', v_opt VInt (rh_last_observed_tick h)),
      (''observation_count'', VInt (rh_observation_count h)),
      (''miss_count'', VInt (rh_miss_count h))]"

definition hypothesis_from_dict :: "pyv \<Rightarrow> recurrence_hypothesis res" where
  "hypothesis_from_dict data =
     andThen (get_or data ''occurrence_by_id'' VNone) (\<lambda>raw.
     andThen (parse_occurrence_entries (or_else raw (VList []))) (\<lambda>occurrence_map.
     andThen (fld data ''recurrence_id'' as_str) (\<lambda>recurrence_id.
     andThen (fld data ''recurrence_key'' as_str) (\<lambda>recurrence_key.
     andThen (fld data ''event_kind'' as_str) (\<lambda>event_kind.
     andThen (fld data ''internal_context_key'' as_str) (\<lambda>internal_context_key.
     andThen (fld_or data ''context_schema_version'' (VStr CONTEXT_SCHEMA_VERSION) as_str)
       (\<lambda>context_schema_version.
     andThen (fld_or data ''status'' (VStr (status_value CANDIDATE)) as_str) (\<lambda>status_text.
     andThen (hypothesis_status_of status_text) (\<lambda>status.
     andThen (fld_or data ''hypothesis_version'' (VInt 1) as_int) (\<lambda>hypothesis_version.
     andThen (fld_or data ''evidence_identities'' VNone
       (\<lambda>v. tuple_of as_str (or_else v (VList [])))) (\<lambda>evidence_identities.
     andThen (fld_or data ''o_lane_occurrence_count'' (VInt 0) as_int) (\<lambda>o_count.
     andThen (fld_or data ''a_lane_seed_count'' (VInt 0) as_int) (\<lambda>a_count.
     andThen (fld_or data ''period_estimate'' (VFlt (Fin 0)) as_float) (\<lambda>period_estimate.
     andThen (fld_or data ''jitter_estimate'' (VFlt (Fin 0)) as_float) (\<lambda>jitter_estimate.
     andThen (fld_or data ''phase_anchor_tick'' VNone (opt_conv as_float)) (\<lambda>phase_anchor_tick.
     andThen (fld_or data ''phase_anchor_stable'' (VBool False) as_bool) (\<lambda>phase_anchor_stable.
     andThen (fld_or data ''last_observed_tick'' VNone (opt_conv as_int)) (\<lambda>last_observed_tick.
     andThen (fld_or data ''observation_count'' (VInt 0) as_int) (\<lambda>observation_count.
     andThen (fld_or data ''miss_count'' (VInt 0) as_int) (\<lambda>miss_count.
     Inr \<lparr>rh_recurrence_id = recurrence_id, rh_recurrence_key = recurrence_key,
       rh_event_kind = event_kind, rh_internal_context_key = internal_context_key,
       rh_context_schema_version = context_schema_version, rh_status = status,
       rh_hypothesis_version = hypothesis_version,
       rh_occurrence_by_id = serialize_occurrence_map occurrence_map,
       rh_evidence_identities = evidence_identities,
       rh_o_lane_occurrence_count = o_count, rh_a_lane_seed_count = a_count,
       rh_period_estimate = period_estimate, rh_jitter_estimate = jitter_estimate,
       rh_phase_anchor_tick = phase_anchor_tick, rh_phase_anchor_stable = phase_anchor_stable,
       rh_last_observed_tick = last_observed_tick, rh_observation_count = observation_count,
       rh_miss_count = miss_count\<rparr>))))))))))))))))))))"

section \<open>Estimation and life cycle\<close>

definition estimate_period_and_jitter :: "int list \<Rightarrow> (flt \<times> flt) res" where
  "estimate_period_and_jitter ticks =
     andThen (compute_intervals ticks) (\<lambda>intervals.
       if length intervals < MIN_INTERVALS_FOR_PERIOD then Inr (Fin 0, Fin 0)
       else Inr (robust_center intervals, robust_spread intervals))"

definition fit_phase_anchor :: "int list \<Rightarrow> flt option res" where
  "fit_phase_anchor ticks =
     (case sort ticks of
        [] \<Rightarrow> Inr None
      | t # _ \<Rightarrow> andThen (float_of_int t) (\<lambda>x. Inr (Some x)))"

definition phase_anchor_is_stable :: "int list \<Rightarrow> flt \<Rightarrow> bool res" where
  "phase_anchor_is_stable ticks period_estimate =
     (if length ticks < MIN_OCCURRENCES_FOR_STABLE_PHASE_ANCHOR then Inr False
      else if flt_le period_estimate (Fin 0) then Inr False
      else andThen (compute_intervals ticks) (\<lambda>intervals.
        if length intervals < MIN_INTERVALS_FOR_PERIOD then Inr False
        else Inr (flt_le (robust_spread intervals) period_estimate)))"

definition derive_status ::
  "hypothesis_status option \<Rightarrow> int \<Rightarrow> flt \<Rightarrow> nat \<Rightarrow> int \<Rightarrow> hypothesis_status" where
  "derive_status prior_status o_lane_occurrence_count period_estimate interval_count miss_count =
     (if prior_status = Some INACTIVE then INACTIVE
      else if prior_status = Some RETIRED then RETIRED
      else let can_promote = MIN_O_LANE_OCCURRENCES_FOR_ACTIVE \<le> o_lane_occurrence_count
                 \<and> flt_lt (Fin 0) period_estimate
                 \<and> MIN_INTERVALS_FOR_PERIOD \<le> interval_count
      in if can_promote then
           (if prior_status = Some ACTIVE \<and> MAX_MISSES_BEFORE_UNCERTAIN \<le> miss_count then UNCERTAIN
            else if prior_status = Some ACTIVE \<or> prior_status = Some UNCERTAIN then
              (if MAX_MISSES_BEFORE_UNCERTAIN \<le> miss_count then UNCERTAIN else the prior_status)
            else ACTIVE)
         else if prior_status = Some ACTIVE then
           (if miss_count \<le> 1 then ACTIVE
            else if MAX_MISSES_BEFORE_UNCERTAIN \<le> miss_count then UNCERTAIN
            else ACTIVE)
         else CANDIDATE)"

text \<open>The occurrence map and the two lane counts after one observation: a new occurrence is added, a
  seeded occurrence that is now observed is promoted, anything else leaves them unchanged.\<close>

definition merge_occurrence ::
  "string \<Rightarrow> int \<Rightarrow> evidence_lane \<Rightarrow> occurrence_map \<times> int \<times> int \<Rightarrow> occurrence_map \<times> int \<times> int" where
  "merge_occurrence occurrence_id tick lane st =
     (case st of (occurrence_map, o_lane_count, a_lane_count) \<Rightarrow>
        case map_of occurrence_map occurrence_id of
          Some (prev_tick, prev_lane) \<Rightarrow>
            if prev_lane = lane_value AUTHORITATIVE \<and> lane_value lane = lane_value ORGANISM_OBSERVABLE
            then (dput occurrence_id (prev_tick, lane_value lane) occurrence_map,
                  o_lane_count + 1, a_lane_count - 1)
            else (occurrence_map, o_lane_count, a_lane_count)
        | None \<Rightarrow>
            (dput occurrence_id (tick, lane_value lane) occurrence_map,
             if lane = ORGANISM_OBSERVABLE then o_lane_count + 1 else o_lane_count,
             if lane = ORGANISM_OBSERVABLE then a_lane_count else a_lane_count + 1))"

definition observe ::
  "recurrence_hypothesis option \<Rightarrow> string \<Rightarrow> string \<Rightarrow> string \<Rightarrow> string \<Rightarrow> string \<Rightarrow> int
    \<Rightarrow> evidence_lane \<Rightarrow> string \<Rightarrow> recurrence_hypothesis res" where
  "observe hypothesis recurrence_key event_kind internal_context_key occurrence_id
     evidence_identity tick lane context_schema_version =
   (let recurrence_id = recurrence_id_from_key recurrence_key;
        prior = (\<lambda>field default. case hypothesis of None \<Rightarrow> default | Some h \<Rightarrow> field h);
        occurrence_map0 = (case hypothesis of None \<Rightarrow> []
           | Some h \<Rightarrow> occurrence_map_of (rh_occurrence_by_id h));
        evidence0 = (case hypothesis of None \<Rightarrow> [] | Some h \<Rightarrow> rh_evidence_identities h);
        prior_status = map_option rh_status hypothesis;
        miss_count = prior rh_miss_count 0;
        (occurrence_map, o_lane_count, a_lane_count) =
          merge_occurrence occurrence_id tick lane
            (occurrence_map0, prior rh_o_lane_occurrence_count 0, prior rh_a_lane_seed_count 0);
        occurrence_by_id = serialize_occurrence_map occurrence_map;
        o_lane_ticks = o_lane_ticks_from_map occurrence_map
    in andThen (compute_intervals o_lane_ticks) (\<lambda>intervals.
       andThen (estimate_period_and_jitter o_lane_ticks) (\<lambda>(period_estimate, jitter_estimate).
       andThen (fit_phase_anchor o_lane_ticks) (\<lambda>phase_anchor_tick.
       andThen (phase_anchor_is_stable o_lane_ticks period_estimate) (\<lambda>phase_anchor_stable.
       let status = derive_status prior_status o_lane_count period_estimate (length intervals) miss_count;
           hypothesis_version =
             (case hypothesis of None \<Rightarrow> 1
              | Some h \<Rightarrow>
                  if status \<noteq> rh_status h
                     \<or> \<not> flt_eq period_estimate (rh_period_estimate h)
                     \<or> phase_anchor_stable \<noteq> rh_phase_anchor_stable h
                  then rh_hypothesis_version h + 1 else rh_hypothesis_version h)
       in Inr \<lparr>rh_recurrence_id = recurrence_id, rh_recurrence_key = recurrence_key,
            rh_event_kind = event_kind, rh_internal_context_key = internal_context_key,
            rh_context_schema_version = context_schema_version, rh_status = status,
            rh_hypothesis_version = hypothesis_version,
            rh_occurrence_by_id = occurrence_by_id,
            rh_evidence_identities = sort (remdups (evidence_identity # evidence0)),
            rh_o_lane_occurrence_count = o_lane_count, rh_a_lane_seed_count = a_lane_count,
            rh_period_estimate = period_estimate, rh_jitter_estimate = jitter_estimate,
            rh_phase_anchor_tick = phase_anchor_tick, rh_phase_anchor_stable = phase_anchor_stable,
            rh_last_observed_tick = (if o_lane_ticks = [] then None else Some (Max (set o_lane_ticks))),
            rh_observation_count = int (length occurrence_by_id),
            rh_miss_count = miss_count\<rparr>)))))"

definition record_miss :: "recurrence_hypothesis \<Rightarrow> recurrence_hypothesis res" where
  "record_miss h =
     (let miss_count = rh_miss_count h + 1
      in andThen (compute_intervals (occurrence_ticks h)) (\<lambda>intervals.
         let status = derive_status (Some (rh_status h)) (rh_o_lane_occurrence_count h)
               (rh_period_estimate h) (length intervals) miss_count
         in Inr (h\<lparr>rh_status := status,
              rh_hypothesis_version := (if status \<noteq> rh_status h
                then rh_hypothesis_version h + 1 else rh_hypothesis_version h),
              rh_miss_count := miss_count\<rparr>)))"

definition predict :: "recurrence_hypothesis \<Rightarrow> int \<Rightarrow> recurrence_prediction option res" where
  "predict h current_age =
     (if flt_le (rh_period_estimate h) (Fin 0) then Inr None
      else
        andThen (predict_center (rh_phase_anchor_tick h) (rh_last_observed_tick h)
          (rh_period_estimate h) current_age (rh_phase_anchor_stable h)) (\<lambda>center.
        andThen (case rh_phase_anchor_tick h of
            Some anchor \<Rightarrow> if rh_phase_anchor_stable h
              then compute_next_index anchor (rh_period_estimate h) current_age else Inr 0
          | None \<Rightarrow> Inr 0) (\<lambda>next_index.
        let jitter_margin = flt_mult (rh_jitter_estimate h) JITTER_MARGIN_MULTIPLIER
        in Inr (Some \<lparr>rp_next_index = next_index, rp_predicted_center = center,
             rp_window_start = flt_sub center jitter_margin,
             rp_window_end = flt_add center jitter_margin,
             rp_period_estimate = rh_period_estimate h,
             rp_jitter_estimate = rh_jitter_estimate h,
             rp_phase_anchor_tick = rh_phase_anchor_tick h,
             rp_phase_anchor_stable = rh_phase_anchor_stable h\<rparr>))))"

section \<open>The index of hypotheses\<close>

definition hypothesis_from_index_entry :: "string \<Rightarrow> pyv dict \<Rightarrow> recurrence_hypothesis res" where
  "hypothesis_from_index_entry recurrence_id payload =
     hypothesis_from_dict (VDict
       (if map_of payload ''recurrence_id'' = None
        then payload @ [(''recurrence_id'', VStr recurrence_id)] else payload))"

definition upsert_recurrence_index ::
  "pyv dict \<Rightarrow> recurrence_hypothesis \<Rightarrow> pyv dict res" where
  "upsert_recurrence_index recurrence_index hypothesis =
     (let updated = dput (rh_recurrence_id hypothesis) (hypothesis_to_dict hypothesis)
            (fold (\<lambda>(k, v). dput k v) recurrence_index [])
      in if MAX_RECURRENCE_HYPOTHESES < length updated
         then Inl (ValueError ''recurrence_index_overflow'')
         else Inr (sorted_items updated))"

fun get_hypothesis_from_index :: "pyv dict \<Rightarrow> string \<Rightarrow> recurrence_hypothesis option res" where
  "get_hypothesis_from_index [] recurrence_id = Inr None"
| "get_hypothesis_from_index ((key, payload) # rest) recurrence_id =
     (if key = recurrence_id
      then andThen (plain_dict payload) (\<lambda>d.
             andThen (hypothesis_from_index_entry key d) (\<lambda>h. Inr (Some h)))
      else get_hypothesis_from_index rest recurrence_id)"

section \<open>Facts about the estimators\<close>

lemma flt_of_ge_int: "of_int n \<le> q \<Longrightarrow> \<bar>n\<bar> < 2 ^ 53 \<Longrightarrow> flt_le (Fin (of_int n)) (flt_of q)"
  using flt_of_mono [of "of_int n" q] flt_of_int_exact [of n] by (simp add: flt_of_int_def)

lemma float_of_int_Fin: "float_of_int n = Inr x \<Longrightarrow> \<exists>q. x = Fin q"
  by (cases "flt_of_int n") (auto simp: float_of_int_def)

lemma float_of_int_nonneg:
  assumes "float_of_int n = Inr x" and "0 \<le> n"
  shows "\<exists>q\<ge>0. x = Fin q"
proof -
  obtain q where q: "x = Fin q" using float_of_int_Fin [OF assms(1)] by blast
  have "flt_le (Fin 0) (flt_of_int n)"
    using flt_of_ge_int [of 0 "of_int n"] assms(2) by (simp add: flt_of_int_def)
  then show ?thesis using q float_of_int_eq [OF assms(1)] by simp
qed

lemma sorted_nth_diff: "sorted (xs :: int list) \<Longrightarrow> i \<in> {1..<length xs} \<Longrightarrow> 0 \<le> xs ! i - xs ! (i - 1)"
  by (auto intro: sorted_nth_mono)

lemma mapE_eq_Inr_length: "mapE f xs = Inr ys \<Longrightarrow> length ys = length xs"
  by (induction xs arbitrary: ys) (auto simp: andThen_eq_Inr)

lemma mapE_eq_Inr_mem: "mapE f xs = Inr ys \<Longrightarrow> y \<in> set ys \<Longrightarrow> \<exists>x\<in>set xs. f x = Inr y"
  by (induction xs arbitrary: ys) (auto simp: andThen_eq_Inr)

lemma compute_intervals_length:
  "compute_intervals ts = Inr xs \<Longrightarrow> length xs = length ts - 1"
  by (auto simp: compute_intervals_def Let_def dest!: mapE_eq_Inr_length split: if_splits)

lemma compute_intervals_nonneg:
  assumes "compute_intervals ts = Inr xs" and "x \<in> set xs"
  shows "\<exists>q\<ge>0. x = Fin q"
proof -
  obtain i where i: "i \<in> {1..<length (sort ts)}"
    and x: "float_of_int (sort ts ! i - sort ts ! (i - 1)) = Inr x"
    using assms by (auto simp: compute_intervals_def Let_def split: if_splits dest!: mapE_eq_Inr_mem)
  show ?thesis
    using x by (rule float_of_int_nonneg) (rule sorted_nth_diff [OF _ i], simp)
qed

lemma compute_intervals_returns:
  assumes "\<And>t. t \<in> set ts \<Longrightarrow> 0 \<le> t \<and> t < 2 ^ 53"
  shows "\<exists>xs. compute_intervals ts = Inr xs"
proof -
  let ?o = "sort ts"
  have "float_of_int (?o ! i - ?o ! (i - 1)) = Inr (Fin (of_int (?o ! i - ?o ! (i - 1))))"
    if i: "i \<in> set [1..<length ?o]" for i
  proof (rule float_of_int_exact)
    have "?o ! i \<in> set ts" "?o ! (i - 1) \<in> set ts"
      using i nth_mem [of i ?o] nth_mem [of "i - 1" ?o] by auto
    then have "0 \<le> ?o ! i \<and> ?o ! i < 2 ^ 53 \<and> 0 \<le> ?o ! (i - 1) \<and> ?o ! (i - 1) < 2 ^ 53"
      using assms by simp
    then show "\<bar>?o ! i - ?o ! (i - 1)\<bar> < 2 ^ 53" by (auto simp: abs_less_iff)
  qed
  then have "mapE (\<lambda>i. float_of_int (?o ! i - ?o ! (i - 1))) [1..<length ?o]
      = Inr (map (\<lambda>i. Fin (of_int (?o ! i - ?o ! (i - 1)))) [1..<length ?o])"
    by (rule mapE_Inr)
  then show ?thesis by (simp only: compute_intervals_def Let_def) (simp del: length_sort)
qed

text \<open>The loop returns the first index whose prediction lies beyond the age.\<close>

definition reached :: "flt \<Rightarrow> flt \<Rightarrow> flt \<Rightarrow> nat \<Rightarrow> bool" where
  "reached anchor period age n =
     flt_le (flt_add anchor (flt_mult (flt_of_int (int n)) period)) age"

lemma next_index_loop_first:
  "next_index_loop a p age n = Inr k \<Longrightarrow> n \<le> k \<and> \<not> reached a p age k \<and> (\<forall>m. n \<le> m \<longrightarrow> m < k \<longrightarrow> reached a p age m)"
proof (induction a p age n rule: next_index_loop.induct)
  case (1 a p age n)
  obtain x where x: "float_of_int (int n) = Inr x"
    using "1.prems" by (cases "float_of_int (int n)") (simp_all add: next_index_loop.simps [of a p age n])
  have at_n: "flt_le (flt_add a (flt_mult x p)) age = reached a p age n"
    using float_of_int_eq [OF x] by (simp add: reached_def)
  show ?case
  proof (cases "reached a p age n")
    case True
    then have "next_index_loop a p age (Suc n) = Inr k"
      using "1.prems" x at_n by (simp add: next_index_loop.simps [of a p age n])
    then have "Suc n \<le> k \<and> \<not> reached a p age k \<and> (\<forall>m. Suc n \<le> m \<longrightarrow> m < k \<longrightarrow> reached a p age m)"
      using "1.IH" [OF x] True at_n by simp
    then show ?thesis using True by (metis Suc_le_eq le_neq_implies_less less_imp_le_nat)
  next
    case False
    then have "k = n" using "1.prems" x at_n by (simp add: next_index_loop.simps [of a p age n])
    with False show ?thesis by simp
  qed
qed

lemma next_index_loop_returns:
  "\<not> reached a p age m \<Longrightarrow> n \<le> m \<Longrightarrow> m < 2 ^ 53 \<Longrightarrow> \<exists>k\<le>m. next_index_loop a p age n = Inr k"
proof (induction "m - n" arbitrary: n)
  case 0
  then have n: "n = m" by simp
  have "float_of_int (int n) = Inr (flt_of_int (int n))"
    using 0 n by (simp add: float_of_int_exact flt_of_int_exact)
  then have "next_index_loop a p age n = Inr n"
    using 0 n by (simp add: next_index_loop.simps [of a p age m] reached_def)
  then show ?case using n by blast
next
  case (Suc d)
  have "float_of_int (int n) = Inr (flt_of_int (int n))"
    using Suc.prems by (simp add: float_of_int_exact flt_of_int_exact)
  moreover have "\<exists>k\<le>m. next_index_loop a p age (Suc n) = Inr k"
    using Suc by (intro Suc.hyps) auto
  ultimately show ?case
    using Suc.hyps(2) Suc.prems by (cases "reached a p age n")
      (auto simp: next_index_loop.simps [of a p age n] reached_def)
qed

lemma not_reached:
  assumes "0 \<le> a" and "1 / 2 \<le> p" and "0 \<le> age" and "age < 2 ^ 51" and "n = nat (2 * age + 2)"
  shows "\<not> reached (Fin a) (Fin p) (Fin (of_int age)) n"
proof -
  have n: "flt_of_int (int n) = Fin (of_int (2 * age + 2))"
    using assms by (simp add: flt_of_int_exact)
  have "of_int (2 * age + 2) * (1 / 2) \<le> of_int (2 * age + 2) * p"
    using assms by (intro mult_left_mono) auto
  then have "of_int (age + 1) \<le> of_int (2 * age + 2) * p" by simp
  then have step: "flt_le (Fin (of_int (age + 1))) (flt_of (of_int (2 * age + 2) * p))"
    using assms by (intro flt_of_ge_int) auto
  have "flt_le (Fin (of_int (age + 1))) (flt_add (Fin a) (flt_of (of_int (2 * age + 2) * p)))"
  proof (cases "flt_of (of_int (2 * age + 2) * p)")
    case (Fin q)
    with step have "of_int (age + 1) \<le> a + q" using assms(1) by simp
    then show ?thesis using Fin assms flt_of_ge_int [of "age + 1" "a + q"] by simp
  qed (use step in \<open>auto simp: flt_le_def flt_eq_def\<close>)
  then show ?thesis
    unfolding reached_def n flt_mult.simps
    using flt_le_trans [of "Fin (of_int (age + 1))" _ "Fin (of_int age)"] by auto
qed

section \<open>Occurrence maps\<close>

lemma fold_dput_fresh:
  "dwf (acc @ xs) \<Longrightarrow> fold (\<lambda>(i, v). dput i v) xs acc = acc @ xs"
proof (induction xs arbitrary: acc)
  case Nil
  then show ?case by simp
next
  case (Cons e xs)
  obtain i v where e: "e = (i, v)" by (cases e)
  have "map_of acc i = None" using Cons.prems e by (auto simp: map_of_eq_None_iff)
  then have "dput i v acc = acc @ [(i, v)]" by (rule dput_new)
  then show ?case using Cons e by simp
qed

lemma fold_dput_wf: "dwf acc \<Longrightarrow> dwf (fold (\<lambda>(i, v). dput i v) xs acc)"
  by (induction xs arbitrary: acc) (auto intro: dwf_dput split: prod.splits)

lemma occurrence_map_of_dput: "occurrence_map_of xs = fold (\<lambda>(i, v). dput i v) xs []"
  unfolding occurrence_map_of_def by (rule fold_cong) auto

lemma occurrence_map_of_id: "dwf xs \<Longrightarrow> occurrence_map_of xs = xs"
  using fold_dput_fresh [of "[]" xs] by (simp add: occurrence_map_of_dput)

lemma occurrence_map_of_wf: "dwf (occurrence_map_of xs)"
  using fold_dput_wf [of "[]" xs] by (simp add: occurrence_map_of_dput)

lemma dwf_sort [simp]: "dwf (sort xs) = dwf xs"
  by (metis distinct_map distinct_sort set_sort)

lemma serialize_facts:
  "sorted (serialize_occurrence_map m)" "set (serialize_occurrence_map m) = set m"
  "dwf (serialize_occurrence_map m) = dwf m" "length (serialize_occurrence_map m) = length m"
  by (simp_all add: serialize_occurrence_map_def)

lemma serialize_lookup: "dwf m \<Longrightarrow> map_of (serialize_occurrence_map m) = map_of m"
  by (rule map_of_inject_set [THEN iffD2]) (auto simp: serialize_occurrence_map_def)

lemma o_lane_ticks_perm:
  "mset m = mset m' \<Longrightarrow> o_lane_ticks_from_map m = o_lane_ticks_from_map m'"
  unfolding o_lane_ticks_from_map_def
  by (rule properties_for_sort) (simp_all only: mset_sort mset_map mset_filter sorted_sort)

lemma o_lane_ticks_serialize [simp]:
  "o_lane_ticks_from_map (serialize_occurrence_map m) = o_lane_ticks_from_map m"
  by (rule o_lane_ticks_perm) (simp add: serialize_occurrence_map_def)

lemma o_lane_ticks_sorted: "sorted (o_lane_ticks_from_map m)"
  by (simp add: o_lane_ticks_from_map_def)

definition lane_count :: "evidence_lane \<Rightarrow> occurrence_map \<Rightarrow> int" where
  "lane_count lane m = int (length (filter (\<lambda>e. snd (snd e) = lane_value lane) m))"

lemma lane_count_simps:
  "lane_count lane [] = 0"
  "lane_count lane (e # m) = (if snd (snd e) = lane_value lane then 1 else 0) + lane_count lane m"
  "lane_count lane (m @ m') = lane_count lane m + lane_count lane m'"
  by (simp_all add: lane_count_def)

lemma lane_count_serialize [simp]: "lane_count lane (serialize_occurrence_map m) = lane_count lane m"
proof -
  have "mset (serialize_occurrence_map m) = mset m" by (simp add: serialize_occurrence_map_def)
  then show ?thesis unfolding lane_count_def by (metis mset_filter size_mset)
qed

lemma length_o_lane_ticks: "int (length (o_lane_ticks_from_map m)) = lane_count ORGANISM_OBSERVABLE m"
  by (simp add: o_lane_ticks_from_map_def lane_count_def filter_map o_def case_prod_unfold)

lemma lane_count_new:
  "map_of m i = None \<Longrightarrow> lane_count lane (dput i (t, l) m)
     = lane_count lane m + (if l = lane_value lane then 1 else 0)"
  by (simp add: dput_new lane_count_simps)

lemma lane_count_promote:
  assumes "map_of m i = Some (t, l)"
  shows "lane_count lane (dput i (t', l') m)
     = lane_count lane m - (if l = lane_value lane then 1 else 0) + (if l' = lane_value lane then 1 else 0)"
  using assms
proof (induction m)
  case Nil
  then show ?case by simp
next
  case (Cons e m)
  show ?case
  proof (cases "fst e = i")
    case True
    then have "snd e = (t, l)" using Cons.prems by (cases e) simp
    with True show ?thesis by (cases e) (auto simp: lane_count_simps)
  next
    case False
    then have "map_of m i = Some (t, l)" using Cons.prems by (cases e) simp
    from Cons.IH [OF this] False show ?thesis by (cases e) (simp add: lane_count_simps)
  qed
qed

text \<open>The counters of a hypothesis are the numbers of its occurrences on each lane.\<close>

definition counted :: "occurrence_map \<times> int \<times> int \<Rightarrow> bool" where
  "counted st = (case st of (m, oc, ac) \<Rightarrow> dwf m
     \<and> oc = lane_count ORGANISM_OBSERVABLE m \<and> ac = lane_count AUTHORITATIVE m
     \<and> (\<forall>e \<in> set m. snd (snd e) \<in> {''O'', ''A''}))"

lemma merge_counted:
  assumes "counted st"
  shows "counted (merge_occurrence i t lane st)"
proof -
  obtain m oc ac where st: "st = (m, oc, ac)" by (cases st)
  have lanes: "\<forall>e \<in> set (dput i (t', lane_value lane) m). snd (snd e) \<in> {''O'', ''A''}" for t'
  proof
    fix e assume "e \<in> set (dput i (t', lane_value lane) m)"
    then have "e = (i, t', lane_value lane) \<or> e \<in> set m" 
      using dput_mem_cases [of "fst e" "snd e" i] by (cases e) auto
    then show "snd (snd e) \<in> {''O'', ''A''}" using assms st by (cases lane) (auto simp: counted_def)
  qed
  show ?thesis
  proof (cases "map_of m i")
    case None
    then show ?thesis
      using assms st lanes [of t] by (cases lane)
        (simp_all add: counted_def merge_occurrence_def lane_count_new dwf_dput)
  next
    case (Some v)
    obtain t' l where v: "v = (t', l)" by (cases v)
    then show ?thesis
      using assms st Some lanes [of t'] by (cases lane)
        (auto simp: counted_def merge_occurrence_def lane_count_promote dwf_dput)
  qed
qed

lemma merge_idem:
  "merge_occurrence i t lane (merge_occurrence i t lane st) = merge_occurrence i t lane st"
  by (cases st) (auto simp: merge_occurrence_def split: option.splits)

section \<open>Period estimates\<close>

lemma robust_center_mem_or_mid:
  assumes "xs \<noteq> []"
  obtains a where "a \<in> set xs" "robust_center xs = a"
  | a b where "a \<in> set xs" "b \<in> set xs" "robust_center xs = flt_div (flt_add a b) (flit 2 1)"
proof -
  let ?o = "sort xs"
  have mid: "length ?o div 2 < length ?o" "length ?o div 2 - 1 < length ?o"
    using assms by (auto intro: less_imp_diff_less)
  then have "?o ! (length ?o div 2) \<in> set xs" "?o ! (length ?o div 2 - 1) \<in> set xs"
    by (metis nth_mem set_sort)+
  then show ?thesis
    using that assms by (cases "length ?o mod 2 = 1") (auto simp: robust_center_def Let_def)
qed

lemma flit_2: "flit 2 1 = Fin 2"
  using flt_of_int_exact [of 2] by (simp add: flit_def flt_of_int_def)

lemma robust_center_not_NaN:
  assumes "\<And>x. x \<in> set xs \<Longrightarrow> \<exists>q. x = Fin q"
  shows "robust_center xs \<noteq> NaN"
proof (cases "xs = []")
  case True
  then show ?thesis by (simp add: robust_center_def)
next
  case False
  then show ?thesis
  proof (cases rule: robust_center_mem_or_mid)
    case (1 a)
    then show ?thesis using assms [of a] by auto
  next
    case (2 a b)
    obtain p q where "a = Fin p" "b = Fin q" using assms [of a] assms [of b] 2 by auto
    then show ?thesis
      using 2 flt_of_not_NaN by (cases "flt_of (p + q)") (auto simp: flit_2 inf_sign_def)
  qed
qed

text \<open>A center of exact integers lies between any integer bounds of them.\<close>

lemma robust_center_between:
  assumes ne: "xs \<noteq> []" and xs: "\<And>x. x \<in> set xs \<Longrightarrow> \<exists>n. x = Fin (of_int n) \<and> lo \<le> n \<and> n \<le> hi"
    and bounds: "0 \<le> lo" "hi < 2 ^ 52"
  shows "\<exists>q. robust_center xs = Fin q \<and> of_int lo \<le> q \<and> q \<le> of_int hi"
  using ne
proof (cases rule: robust_center_mem_or_mid)
  case (1 a)
  then obtain n where "robust_center xs = Fin (of_int n)" "lo \<le> n" "n \<le> hi"
    using xs by blast
  then show ?thesis by simp
next
  case (2 a b)
  obtain m n where m: "a = Fin (of_int m)" "lo \<le> m" "m \<le> hi"
    and n: "b = Fin (of_int n)" "lo \<le> n" "n \<le> hi"
    using xs 2 by blast
  have "flt_add a b = flt_of_int (m + n)" using m n by (simp add: flt_of_int_def)
  then have sum: "flt_add a b = Fin (of_int (m + n))"
    using m n bounds by (simp add: flt_of_int_exact)
  let ?h = "of_int (m + n) / (2 :: rat)"
  have "of_int (2 * lo) \<le> (of_int (m + n) :: rat)" "(of_int (m + n) :: rat) \<le> of_int (2 * hi)"
    using m n by (simp_all only: of_int_le_iff)
  then have h: "of_int lo \<le> ?h" "?h \<le> of_int hi" by simp_all
  have lo: "lo \<le> hi" using m by simp
  have b: "\<bar>lo\<bar> < 2 ^ 53" "\<bar>hi\<bar> < 2 ^ 53" using lo bounds by auto
  show ?thesis
    using flt_of_between [OF h b] 2 sum by (simp add: flit_2)
qed

lemma compute_intervals_exact:
  assumes "compute_intervals ts = Inr xs" and "\<And>t. t \<in> set ts \<Longrightarrow> 0 \<le> t \<and> t < 2 ^ 52"
    and "x \<in> set xs"
  shows "\<exists>i. Suc i < length ts \<and> x = Fin (of_int (sort ts ! Suc i - sort ts ! i))"
proof -
  obtain i where i: "i \<in> {1..<length (sort ts)}"
    and x: "float_of_int (sort ts ! i - sort ts ! (i - 1)) = Inr x"
    using assms(1,3) by (auto simp: compute_intervals_def Let_def split: if_splits dest!: mapE_eq_Inr_mem)
  have "sort ts ! i \<in> set ts" "sort ts ! (i - 1) \<in> set ts"
    using i nth_mem [of i "sort ts"] nth_mem [of "i - 1" "sort ts"] by auto
  then have "0 \<le> sort ts ! i \<and> sort ts ! i < 2 ^ 52" "0 \<le> sort ts ! (i - 1) \<and> sort ts ! (i - 1) < 2 ^ 52"
    using assms(2) by blast+
  then have "\<bar>sort ts ! i - sort ts ! (i - 1)\<bar> < 2 ^ 53" by (auto simp: abs_less_iff)
  then have "x = Fin (of_int (sort ts ! i - sort ts ! (i - 1)))"
    using x float_of_int_exact by (metis sum.inject(2))
  then show ?thesis using i by (intro exI [of _ "i - 1"]) auto
qed

section \<open>One observation\<close>

definition start_of :: "recurrence_hypothesis option \<Rightarrow> occurrence_map \<times> int \<times> int" where
  "start_of hypothesis = (case hypothesis of None \<Rightarrow> ([], 0, 0)
     | Some h \<Rightarrow> (occurrence_map_of (rh_occurrence_by_id h),
                  rh_o_lane_occurrence_count h, rh_a_lane_seed_count h))"

lemma observe_cases:
  assumes "observe hyp key kind ctx oid ev tick lane schema = Inr h"
  obtains m oc ac xs where "merge_occurrence oid tick lane (start_of hyp) = (m, oc, ac)"
    "compute_intervals (o_lane_ticks_from_map m) = Inr xs"
    "estimate_period_and_jitter (o_lane_ticks_from_map m) = Inr (rh_period_estimate h, rh_jitter_estimate h)"
    "fit_phase_anchor (o_lane_ticks_from_map m) = Inr (rh_phase_anchor_tick h)"
    "phase_anchor_is_stable (o_lane_ticks_from_map m) (rh_period_estimate h) = Inr (rh_phase_anchor_stable h)"
    "rh_status h = derive_status (map_option rh_status hyp) oc (rh_period_estimate h) (length xs) (rh_miss_count h)"
    "rh_occurrence_by_id h = serialize_occurrence_map m"
    "rh_o_lane_occurrence_count h = oc" "rh_a_lane_seed_count h = ac"
    "rh_observation_count h = int (length m)"
    "rh_miss_count h = (case hyp of None \<Rightarrow> 0 | Some g \<Rightarrow> rh_miss_count g)"
    "rh_evidence_identities h = sort (remdups (ev # (case hyp of None \<Rightarrow> [] | Some g \<Rightarrow> rh_evidence_identities g)))"
    "rh_last_observed_tick h = (if o_lane_ticks_from_map m = [] then None else Some (Max (set (o_lane_ticks_from_map m))))"
    "rh_recurrence_id h = recurrence_id_from_key key" "rh_recurrence_key h = key"
    "rh_event_kind h = kind" "rh_internal_context_key h = ctx" "rh_context_schema_version h = schema"
proof -
  obtain m oc ac where m: "merge_occurrence oid tick lane (start_of hyp) = (m, oc, ac)"
    by (cases "merge_occurrence oid tick lane (start_of hyp)")
  then show ?thesis
    using assms that
    by (cases hyp) (auto simp: observe_def start_of_def andThen_eq_Inr serialize_facts Let_def)
qed

definition hypothesis_wf :: "recurrence_hypothesis \<Rightarrow> bool" where
  "hypothesis_wf h \<longleftrightarrow>
     counted (rh_occurrence_by_id h, rh_o_lane_occurrence_count h, rh_a_lane_seed_count h)
     \<and> sorted (rh_occurrence_by_id h)
     \<and> rh_observation_count h = int (length (rh_occurrence_by_id h))
     \<and> sorted (rh_evidence_identities h) \<and> distinct (rh_evidence_identities h)
     \<and> rh_period_estimate h \<noteq> NaN"

lemma counted_start: "(case hyp of None \<Rightarrow> True | Some h \<Rightarrow> hypothesis_wf h) \<Longrightarrow> counted (start_of hyp)"
  by (cases hyp) (auto simp: start_of_def counted_def lane_count_def hypothesis_wf_def occurrence_map_of_id)

lemma counted_serialize: "counted (serialize_occurrence_map m, oc, ac) = counted (m, oc, ac)"
  by (simp add: counted_def serialize_facts)

lemma estimate_not_NaN:
  assumes "estimate_period_and_jitter ts = Inr (p, j)"
  shows "p \<noteq> NaN"
proof -
  obtain xs where xs: "compute_intervals ts = Inr xs" and p: "p = Fin 0 \<or> p = robust_center xs"
    using assms by (auto simp: estimate_period_and_jitter_def andThen_eq_Inr split: if_splits)
  have "robust_center xs \<noteq> NaN"
    by (rule robust_center_not_NaN) (use compute_intervals_nonneg [OF xs] in blast)
  with p show ?thesis by auto
qed

lemma observe_wf:
  assumes "observe hyp key kind ctx oid ev tick lane schema = Inr h"
    and "case hyp of None \<Rightarrow> True | Some g \<Rightarrow> hypothesis_wf g"
  shows "hypothesis_wf h"
  using assms(1)
proof (cases rule: observe_cases)
  case (1 m oc ac xs)
  have "counted (m, oc, ac)"
    using merge_counted [OF counted_start [OF assms(2)]] 1(1) by metis
  then show ?thesis
    using 1 estimate_not_NaN
    by (auto simp: hypothesis_wf_def counted_serialize serialize_facts)
qed

lemma derive_status_idem:
  "misses < 3 \<Longrightarrow> derive_status (Some (derive_status prior oc p n misses)) oc p n misses
     = derive_status prior oc p n misses"
  by (cases prior) (auto simp: derive_status_def Let_def MAX_MISSES_BEFORE_UNCERTAIN_def)

lemma merge_start_again:
  assumes "merge_occurrence oid t lane st = (m, oc, ac)"
  shows "merge_occurrence oid t lane (m, oc, ac) = (m, oc, ac)"
  using merge_idem [of oid t lane st] assms by simp

lemma merge_again_serialized:
  assumes "merge_occurrence oid t lane st = (m, oc, ac)" and "dwf m"
  shows "merge_occurrence oid t lane (serialize_occurrence_map m, oc, ac)
    = (serialize_occurrence_map m, oc, ac)"
proof -
  have m: "map_of (serialize_occurrence_map m) = map_of m" using assms(2) by (rule serialize_lookup)
  obtain v where v: "map_of m oid = Some v"
    using assms(1) by (cases st) (auto simp: merge_occurrence_def split: option.splits if_splits)
  have "\<not> (snd v = lane_value AUTHORITATIVE \<and> lane_value lane = lane_value ORGANISM_OBSERVABLE)"
    using merge_start_again [OF assms(1)] v by (cases v) (auto simp: merge_occurrence_def split: if_splits)
  then show ?thesis using m v by (cases v) (auto simp: merge_occurrence_def)
qed

text \<open>Seeing the same occurrence again changes nothing.\<close>

lemma observe_again:
  assumes ob: "observe hyp key kind ctx oid ev tick lane schema = Inr h"
    and wf: "case hyp of None \<Rightarrow> True | Some g \<Rightarrow> hypothesis_wf g"
    and misses: "rh_miss_count h < 3"
  shows "observe (Some h) key kind ctx oid ev tick lane schema = Inr h"
  using ob
proof (cases rule: observe_cases)
  case (1 m oc ac xs)
  have h_wf: "hypothesis_wf h" using observe_wf [OF ob wf] .
  then have dw: "dwf (serialize_occurrence_map m)" using 1 by (simp add: hypothesis_wf_def counted_def)
  then have m: "merge_occurrence oid tick lane (serialize_occurrence_map m, oc, ac)
      = (serialize_occurrence_map m, oc, ac)"
    using merge_again_serialized [OF 1(1)] by (simp add: serialize_facts)
  have ser: "serialize_occurrence_map (serialize_occurrence_map m) = serialize_occurrence_map m"
    by (simp add: serialize_occurrence_map_def sorted_sort_id)
  have st: "derive_status (Some (rh_status h)) oc (rh_period_estimate h) (length xs) (rh_miss_count h)
      = rh_status h"
    using derive_status_idem [OF misses] 1(6) by metis
  have ev: "sort (remdups (ev # rh_evidence_identities h)) = rh_evidence_identities h"
  proof -
    have "ev \<in> set (rh_evidence_identities h)" using 1(12) by simp
    then show ?thesis using h_wf by (auto simp: hypothesis_wf_def distinct_remdups_id sorted_sort_id)
  qed
  have eq: "flt_eq (rh_period_estimate h) (rh_period_estimate h)"
    using h_wf by (simp add: hypothesis_wf_def flt_eq_def)
  show ?thesis
    using 1 m dw ser st ev eq
    by (auto simp: observe_def occurrence_map_of_id Let_def serialize_facts)
qed

text \<open>A retired or inactive hypothesis keeps its status; a hypothesis becomes active only on organism
  evidence.\<close>

lemma derive_status_absorbing:
  "prior \<in> {INACTIVE, RETIRED} \<Longrightarrow> derive_status (Some prior) oc p n misses = prior"
  by (auto simp: derive_status_def)

lemma derive_status_active:
  "derive_status prior oc p n misses = ACTIVE \<Longrightarrow> prior \<noteq> Some ACTIVE \<Longrightarrow>
     3 \<le> oc \<and> flt_lt (Fin 0) p \<and> 1 \<le> n"
  by (auto simp: derive_status_def Let_def MIN_O_LANE_OCCURRENCES_FOR_ACTIVE_def
      MIN_INTERVALS_FOR_PERIOD_def split: if_splits)

lemma parse_entry_occurrence [simp]: "parse_entry (occurrence_to_pyv e) = Inr e"
  by (cases e) (simp add: parse_entry_def occurrence_to_pyv_def)

lemma parse_occurrences [simp]:
  "parse_occurrence_entries (VList (map occurrence_to_pyv xs)) = Inr (occurrence_map_of xs)"
  by (simp add: parse_occurrence_entries_def mapE_map o_def mapE_Inr [where g = id])

lemma hypothesis_dict_roundtrip:
  assumes "hypothesis_wf h"
  shows "hypothesis_from_dict (hypothesis_to_dict h) = Inr h"
proof -
  have "serialize_occurrence_map (occurrence_map_of (rh_occurrence_by_id h)) = rh_occurrence_by_id h"
    using assms by (simp add: hypothesis_wf_def counted_def occurrence_map_of_id
        serialize_occurrence_map_def sorted_sort_id)
  then show ?thesis
    by (simp add: hypothesis_from_dict_def hypothesis_to_dict_def or_else_list)
qed

section \<open>The index as a store\<close>

definition index_wf :: "pyv dict \<Rightarrow> bool" where
  "index_wf idx \<longleftrightarrow> sorted (map fst idx) \<and> dwf idx \<and> length idx \<le> MAX_RECURRENCE_HYPOTHESES"

lemma upsert_eq:
  assumes "index_wf idx"
  shows "upsert_recurrence_index idx h =
    (if MAX_RECURRENCE_HYPOTHESES < length (dput (rh_recurrence_id h) (hypothesis_to_dict h) idx)
     then Inl (ValueError ''recurrence_index_overflow'')
     else Inr (sorted_items (dput (rh_recurrence_id h) (hypothesis_to_dict h) idx)))"
  using assms fold_dput_fresh [of "[]" idx]
  by (simp add: upsert_recurrence_index_def index_wf_def Let_def)

lemma upsert_wf:
  "index_wf idx \<Longrightarrow> upsert_recurrence_index idx h = Inr idx' \<Longrightarrow> index_wf idx'"
  by (auto simp: upsert_eq index_wf_def sorted_items_sorted dwf_dput split: if_splits)

lemma get_hypothesis_lookup:
  "get_hypothesis_from_index idx k =
     (case map_of idx k of None \<Rightarrow> Inr None
      | Some p \<Rightarrow> andThen (plain_dict p) (\<lambda>d.
          andThen (hypothesis_from_index_entry k d) (\<lambda>h. Inr (Some h))))"
  by (induction idx k rule: get_hypothesis_from_index.induct) auto

lemma get_upsert:
  assumes "index_wf idx" and "hypothesis_wf h" and "upsert_recurrence_index idx h = Inr idx'"
  shows "get_hypothesis_from_index idx' k =
     (if k = rh_recurrence_id h then Inr (Some h) else get_hypothesis_from_index idx k)"
proof -
  let ?e = "dput (rh_recurrence_id h) (hypothesis_to_dict h) idx"
  have idx': "idx' = sorted_items ?e"
    using assms(1,3) by (auto simp: upsert_eq split: if_splits)
  have "dwf ?e" using assms(1) by (auto simp: index_wf_def intro: dwf_dput)
  then have m: "map_of idx' = (map_of idx)(rh_recurrence_id h \<mapsto> hypothesis_to_dict h)"
    using idx' by (simp add: sorted_items_lookup)
  obtain d where d: "hypothesis_to_dict h = VDict d" "map_of d ''recurrence_id'' \<noteq> None"
    by (auto simp: hypothesis_to_dict_def)
  have "hypothesis_from_index_entry k d = Inr h"
    using d hypothesis_dict_roundtrip [OF assms(2)] by (auto simp: hypothesis_from_index_entry_def)
  then show ?thesis
    using d m by (auto simp: get_hypothesis_lookup)
qed

interpretation hyp_index: keyed_store upsert_recurrence_index get_hypothesis_from_index
    rh_recurrence_id index_wf hypothesis_wf
  by unfold_locales (auto intro: upsert_wf simp: get_upsert)

section \<open>Runs of observations\<close>

text \<open>One call of \<open>observe\<close> on the hypothesis of one recurrence key, as the engine makes it.\<close>

fun observe_step :: "string \<Rightarrow> string \<Rightarrow> string \<Rightarrow> string \<Rightarrow> recurrence_hypothesis option
    \<Rightarrow> string \<times> string \<times> int \<times> evidence_lane \<Rightarrow> recurrence_hypothesis option res" where
  "observe_step key kind ctx schema hyp (oid, ev, tick, lane) =
     andThen (observe hyp key kind ctx oid ev tick lane schema) (\<lambda>h. Inr (Some h))"

lemma lane_counts_total:
  "(\<forall>e \<in> set m. snd (snd e) \<in> {''O'', ''A''}) \<Longrightarrow>
     lane_count ORGANISM_OBSERVABLE m + lane_count AUTHORITATIVE m = int (length m)"
  by (induction m) (auto simp: lane_count_simps)

lemma merge_ids:
  assumes "merge_occurrence i t lane (m, oc, ac) = (m', oc', ac')"
  shows "fst ` set m' = insert i (fst ` set m)"
proof (cases "map_of m i")
  case None
  then have "m' = dput i (t, lane_value lane) m" using assms by (simp add: merge_occurrence_def)
  then show ?thesis by (simp add: dom_update)
next
  case (Some v)
  have i: "i \<in> fst ` set m" using map_of_mem [OF Some] by force
  have "m' = m \<or> (\<exists>w. m' = dput i w m)"
    using assms Some by (auto simp: merge_occurrence_def split: prod.splits if_splits)
  moreover have "fst ` set (dput i w m) = insert i (fst ` set m)" for w
    by (simp add: dom_update)
  ultimately show ?thesis using i by (metis insert_absorb)
qed

definition ids_and_evidence :: "string set \<Rightarrow> string set \<Rightarrow> recurrence_hypothesis option \<Rightarrow> bool" where
  "ids_and_evidence ids evs hyp \<longleftrightarrow> (case hyp of None \<Rightarrow> ids = {} \<and> evs = {}
     | Some h \<Rightarrow> hypothesis_wf h \<and> fst ` set (rh_occurrence_by_id h) = ids
         \<and> set (rh_evidence_identities h) = evs)"

lemma observe_step_ids:
  assumes "observe_step key kind ctx schema hyp (oid, ev, tick, lane) = Inr hyp'"
    and "ids_and_evidence ids evs hyp"
  shows "ids_and_evidence (insert oid ids) (insert ev evs) hyp'"
proof -
  obtain h where h: "observe hyp key kind ctx oid ev tick lane schema = Inr h" "hyp' = Some h"
    using assms(1) by (auto simp: andThen_eq_Inr)
  have wf: "case hyp of None \<Rightarrow> True | Some g \<Rightarrow> hypothesis_wf g"
    using assms(2) by (auto simp: ids_and_evidence_def split: option.splits)
  show ?thesis
    using h(1)
  proof (cases rule: observe_cases)
    case (1 m oc ac xs)
    obtain m0 oc0 ac0 where st: "start_of hyp = (m0, oc0, ac0)" by (cases "start_of hyp")
    have "fst ` set m0 = ids"
      using assms(2) st by (auto simp: ids_and_evidence_def start_of_def hypothesis_wf_def counted_def
          occurrence_map_of_id split: option.splits)
    then have "fst ` set (rh_occurrence_by_id h) = insert oid ids"
      using 1 st merge_ids [of oid tick lane m0 oc0 ac0] by (simp add: serialize_facts)
    moreover have "set (rh_evidence_identities h) = insert ev evs"
      using 1 assms(2) by (auto simp: ids_and_evidence_def split: option.splits)
    ultimately show ?thesis
      using observe_wf [OF h(1) wf] h(2) by (simp add: ids_and_evidence_def)
  qed
qed

lemma observe_run_ids:
  "foldE (observe_step key kind ctx schema) hyp obs = Inr hyp' \<Longrightarrow> ids_and_evidence ids evs hyp \<Longrightarrow>
     ids_and_evidence (fst ` set obs \<union> ids) ((fst \<circ> snd) ` set obs \<union> evs) hyp'"
proof (induction obs arbitrary: hyp ids evs)
  case Nil
  then show ?case by simp
next
  case (Cons e obs)
  obtain i ev t l where e: "e = (i, ev, t, l)" by (cases e)
  obtain g where g: "observe_step key kind ctx schema hyp (i, ev, t, l) = Inr g"
    and rest: "foldE (observe_step key kind ctx schema) g obs = Inr hyp'"
    using Cons.prems(1) e by (auto simp: andThen_eq_Inr)
  from Cons.IH [OF rest observe_step_ids [OF g Cons.prems(2)]] e show ?case by simp
qed

definition example_observations :: "(string \<times> string \<times> int \<times> evidence_lane) list" where
  "example_observations =
     [(''o1'', ''e1'', 10, ORGANISM_OBSERVABLE), (''o2'', ''e2'', 20, AUTHORITATIVE),
      (''o2'', ''e3'', 20, ORGANISM_OBSERVABLE), (''o3'', ''e4'', 31, ORGANISM_OBSERVABLE)]"

definition example_hypothesis :: recurrence_hypothesis where
  "example_hypothesis =
     \<lparr>rh_recurrence_id = ''rec:k'', rh_recurrence_key = ''k'', rh_event_kind = ''kind'',
      rh_internal_context_key = ''ctx'', rh_context_schema_version = ''s'', rh_status = ACTIVE,
      rh_hypothesis_version = 3,
      rh_occurrence_by_id = [(''o1'', 10, ''O''), (''o2'', 20, ''O''), (''o3'', 31, ''O'')],
      rh_evidence_identities = [''e1'', ''e2'', ''e3'', ''e4''],
      rh_o_lane_occurrence_count = 3, rh_a_lane_seed_count = 0,
      rh_period_estimate = Fin (21 / 2), rh_jitter_estimate = Fin (1 / 2),
      rh_phase_anchor_tick = Some (Fin 10), rh_phase_anchor_stable = True,
      rh_last_observed_tick = Some 31, rh_observation_count = 3, rh_miss_count = 0\<rparr>"

lemma example_run:
  "foldE (observe_step ''k'' ''kind'' ''ctx'' ''s'') None example_observations
     = Inr (Some example_hypothesis)"
  by code_simp

lemma example_wf: "hypothesis_wf example_hypothesis"
  using observe_run_ids [OF example_run, of "{}" "{}"] by (simp add: ids_and_evidence_def)

section \<open>Properties\<close>

text \<open>C1: \<open>compute_next_index\<close> returns for every anchor \<open>\<ge> 0\<close>, period \<open>\<ge> 1/2\<close> and age below \<open>2 ^ 51\<close>: its
  search stops within \<open>2 * age + 2\<close> rounds, at the first index whose predicted tick (in binary64
  arithmetic) is later than the age. Every positive median of integer gaps is at least \<open>1/2\<close>.\<close>

theorem next_index_exact:
  assumes "0 \<le> anchor" and "1 / 2 \<le> period" and "0 \<le> age" and "age < 2 ^ 51"
  shows "\<exists>n \<le> nat (2 * age + 2). compute_next_index (Fin anchor) (Fin period) age = Inr n
     \<and> flt_lt (Fin (of_int age)) (flt_add (Fin anchor) (flt_mult (flt_of_int (int n)) (Fin period)))
     \<and> (\<forall>m < n. flt_le (flt_add (Fin anchor) (flt_mult (flt_of_int (int m)) (Fin period))) (Fin (of_int age)))"
proof -
  let ?N = "nat (2 * age + 2)"
  have age: "float_of_int age = Inr (Fin (of_int age))" using assms by (simp add: float_of_int_exact)
  have N: "\<not> reached (Fin anchor) (Fin period) (Fin (of_int age)) ?N"
    using assms by (intro not_reached) auto
  have "?N < 2 ^ 53" using assms by simp
  with next_index_loop_returns [OF N] obtain n where n: "n \<le> ?N"
    and loop: "next_index_loop (Fin anchor) (Fin period) (Fin (of_int age)) 0 = Inr n" by blast
  have small: "n < 2 ^ 53" using n assms by simp
  have "flt_add (Fin anchor) (flt_mult (flt_of_int (int n)) (Fin period)) \<noteq> NaN"
    using small by (cases "flt_of (of_int (int n) * period)") (auto simp: flt_of_int_exact)
  moreover have "compute_next_index (Fin anchor) (Fin period) age = Inr n"
    using loop age assms(2) by (simp add: compute_next_index_def)
  ultimately show ?thesis
    using n next_index_loop_first [OF loop] by (auto simp: reached_def flt_not_le)
qed

lemma next_index_exact_witness:
  "\<exists>n \<le> nat (2 * 25 + 2). compute_next_index (Fin 3) (Fin 10) 25 = Inr n
     \<and> flt_lt (Fin (of_int 25)) (flt_add (Fin 3) (flt_mult (flt_of_int (int n)) (Fin 10)))
     \<and> (\<forall>m < n. flt_le (flt_add (Fin 3) (flt_mult (flt_of_int (int m)) (Fin 10))) (Fin (of_int 25)))"
  by (rule next_index_exact) simp_all

text \<open>C2: after any sequence of observations of one recurrence, on either lane and with any ids repeated,
  the hypothesis holds each occurrence id once and exactly the evidence seen, its two lane counters are the
  numbers of its occurrences on that lane (so the promotion of a seeded occurrence moved it from one to the
  other), and \<open>observation_count\<close> is the number of different occurrences.\<close>

theorem observations_counted:
  assumes "foldE (observe_step key kind ctx schema) None obs = Inr (Some h)"
  shows "set (map fst (rh_occurrence_by_id h)) = fst ` set obs
    \<and> distinct (map fst (rh_occurrence_by_id h))
    \<and> set (rh_evidence_identities h) = (fst \<circ> snd) ` set obs
    \<and> rh_o_lane_occurrence_count h = int (length (occurrence_ticks h))
    \<and> rh_o_lane_occurrence_count h + rh_a_lane_seed_count h = rh_observation_count h
    \<and> rh_observation_count h = int (card (fst ` set obs))"
proof -
  have ids: "hypothesis_wf h" "fst ` set (rh_occurrence_by_id h) = fst ` set obs"
    "set (rh_evidence_identities h) = (fst \<circ> snd) ` set obs"
    using observe_run_ids [OF assms, of "{}" "{}"] by (simp_all add: ids_and_evidence_def)
  have d: "distinct (map fst (rh_occurrence_by_id h))"
    using ids(1) by (simp add: hypothesis_wf_def counted_def)
  moreover have "rh_observation_count h = int (card (fst ` set obs))"
    using ids d distinct_card [OF d] by (simp add: hypothesis_wf_def)
  ultimately show ?thesis
    using ids lane_counts_total [of "rh_occurrence_by_id h"]
    by (auto simp: occurrence_ticks_def length_o_lane_ticks hypothesis_wf_def counted_def occurrence_map_of_id)
qed

lemma observations_counted_witness:
  "set (map fst (rh_occurrence_by_id example_hypothesis)) = fst ` set example_observations
    \<and> rh_observation_count example_hypothesis = int (card (fst ` set example_observations))"
  using observations_counted [OF example_run] by blast

text \<open>Reporting an occurrence a second time, with the same evidence and lane, changes no field of the
  hypothesis, as long as it has not missed \<open>MAX_MISSES_BEFORE_UNCERTAIN\<close> predictions; the engine's replay of an
  observation is therefore harmless.\<close>

theorem observe_idempotent:
  assumes "foldE (observe_step key kind ctx schema) None obs = Inr hyp"
    and "observe hyp key kind ctx oid ev tick lane schema = Inr h"
    and "rh_miss_count h < MAX_MISSES_BEFORE_UNCERTAIN"
  shows "observe (Some h) key kind ctx oid ev tick lane schema = Inr h"
proof (rule observe_again [OF assms(2)])
  show "case hyp of None \<Rightarrow> True | Some g \<Rightarrow> hypothesis_wf g"
    using observe_run_ids [OF assms(1), of "{}" "{}"] by (auto simp: ids_and_evidence_def split: option.splits)
  show "rh_miss_count h < 3" using assms(3) by (simp add: MAX_MISSES_BEFORE_UNCERTAIN_def)
qed

lemma example_last:
  "observe (Some example_hypothesis) ''k'' ''kind'' ''ctx'' ''o3'' ''e4'' 31 ORGANISM_OBSERVABLE ''s''
     = Inr example_hypothesis"
  by code_simp

lemma observe_idempotent_witness:
  "observe (Some example_hypothesis) ''k'' ''kind'' ''ctx'' ''o3'' ''e4'' 31 ORGANISM_OBSERVABLE ''s''
     = Inr example_hypothesis"
  by (rule observe_idempotent [OF example_run example_last])
    (simp add: example_hypothesis_def MAX_MISSES_BEFORE_UNCERTAIN_def)

text \<open>The life cycle. Neither an observation nor a miss changes the status of an inactive or retired
  hypothesis; a hypothesis that an observation makes active has at least three occurrences on the organism lane and a
  positive period (seeds of the authoritative lane alone never activate one); a miss is counted, and an active
  hypothesis stays active until the third miss makes it uncertain.\<close>

theorem hypothesis_life_cycle:
  assumes "observe (Some g) key kind ctx oid ev tick lane schema = Inr h" and "record_miss g = Inr m"
  shows "(rh_status g \<in> {INACTIVE, RETIRED} \<longrightarrow> rh_status h = rh_status g \<and> rh_status m = rh_status g)
    \<and> (rh_status h = ACTIVE \<and> rh_status g \<noteq> ACTIVE \<longrightarrow>
        3 \<le> rh_o_lane_occurrence_count h \<and> flt_lt (Fin 0) (rh_period_estimate h))
    \<and> rh_miss_count m = rh_miss_count g + 1
    \<and> (rh_status g = ACTIVE \<longrightarrow> rh_status m = (if rh_miss_count m < 3 then ACTIVE else UNCERTAIN))"
proof -
  obtain xs where "rh_status m = derive_status (Some (rh_status g)) (rh_o_lane_occurrence_count g)
        (rh_period_estimate g) (length (xs :: flt list)) (rh_miss_count g + 1) \<and> rh_miss_count m = rh_miss_count g + 1"
    using assms(2) unfolding record_miss_def Let_def andThen_eq_Inr by auto
  then have st: "rh_status m = derive_status (Some (rh_status g)) (rh_o_lane_occurrence_count g)
        (rh_period_estimate g) (length xs) (rh_miss_count g + 1)" and mc: "rh_miss_count m = rh_miss_count g + 1"
    by auto
  have act: "rh_status g = ACTIVE \<longrightarrow> rh_status m = (if rh_miss_count m < 3 then ACTIVE else UNCERTAIN)"
    by (auto simp: st mc derive_status_def Let_def MAX_MISSES_BEFORE_UNCERTAIN_def)
  show ?thesis
    using assms(1)
  proof (cases rule: observe_cases)
    case (1 mm oc ac ys)
    show ?thesis
      using 1 act mc st derive_status_absorbing derive_status_active [of "Some (rh_status g)"]
      by auto
  qed
qed

definition retired_example :: recurrence_hypothesis where
  "retired_example = example_hypothesis\<lparr>rh_status := RETIRED\<rparr>"

lemma retired_observed:
  "observe (Some retired_example) ''k'' ''kind'' ''ctx'' ''o4'' ''e4'' 31 AUTHORITATIVE ''s''
     = Inr (retired_example\<lparr>rh_occurrence_by_id := [(''o1'', 10, ''O''), (''o2'', 20, ''O''), (''o3'', 31, ''O''), (''o4'', 31, ''A'')],
         rh_a_lane_seed_count := 1, rh_observation_count := 4\<rparr>)"
  by code_simp

lemma retired_missed: "record_miss retired_example = Inr (retired_example\<lparr>rh_miss_count := 1\<rparr>)"
  by code_simp

lemma hypothesis_life_cycle_witness:
  "rh_status retired_example = RETIRED \<and> rh_status (retired_example\<lparr>rh_miss_count := 1\<rparr>) = RETIRED"
  using hypothesis_life_cycle [OF retired_observed retired_missed] by (simp add: retired_example_def)

text \<open>The period estimate of a hypothesis is no shorter than the shortest and no longer than the longest gap
  between consecutive observed ticks (ticks below \<open>2 ^ 52\<close>), whatever the rounding of the median does.\<close>

theorem period_within_gaps:
  assumes "observe hyp key kind ctx oid ev tick lane schema = Inr h"
    and "hyp = None \<or> hyp = Some g \<and> hypothesis_wf g"
    and "\<And>t. t \<in> set (occurrence_ticks h) \<Longrightarrow> 0 \<le> t \<and> t < 2 ^ 52"
    and "2 \<le> length (occurrence_ticks h)" and "0 \<le> lo" and "hi < 2 ^ 52"
    and "\<And>i. Suc i < length (occurrence_ticks h) \<Longrightarrow>
      lo \<le> occurrence_ticks h ! Suc i - occurrence_ticks h ! i \<and>
      occurrence_ticks h ! Suc i - occurrence_ticks h ! i \<le> hi"
  shows "\<exists>q. rh_period_estimate h = Fin q \<and> of_int lo \<le> q \<and> q \<le> of_int hi"
  using assms(1)
proof (cases rule: observe_cases)
  case (1 m oc ac xs)
  have "hypothesis_wf h" using observe_wf [OF assms(1)] assms(2) by auto
  then have ticks: "occurrence_ticks h = o_lane_ticks_from_map m"
    using 1 by (simp add: occurrence_ticks_def occurrence_map_of_id hypothesis_wf_def counted_def)
  have len: "length xs = length (occurrence_ticks h) - 1"
    using compute_intervals_length [OF 1(2)] ticks by simp
  have p: "rh_period_estimate h = robust_center xs"
    using 1(2,3) len assms(4)
    by (cases "xs = []") (auto simp: estimate_period_and_jitter_def MIN_INTERVALS_FOR_PERIOD_def)
  have "\<exists>n. x = Fin (of_int n) \<and> lo \<le> n \<and> n \<le> hi" if "x \<in> set xs" for x
  proof -
    have srt: "sort (occurrence_ticks h) = occurrence_ticks h"
      using o_lane_ticks_sorted ticks by (simp add: sorted_sort_id)
    show ?thesis
      using compute_intervals_exact [OF 1(2) _ that] assms(3,7) ticks srt by fastforce
  qed
  moreover have "xs \<noteq> []" using len assms(4) by auto
  ultimately show ?thesis using robust_center_between assms(5,6) p by metis
qed

lemma period_within_gaps_witness:
  "\<exists>q. rh_period_estimate example_hypothesis = Fin q \<and> of_int 10 \<le> q \<and> q \<le> of_int 11"
proof (rule period_within_gaps [OF example_last])
  have t: "occurrence_ticks example_hypothesis = [10, 20, 31]" by code_simp
  show "0 \<le> t \<and> t < 2 ^ 52" if "t \<in> set (occurrence_ticks example_hypothesis)" for t
    using that t by auto
  show "2 \<le> length (occurrence_ticks example_hypothesis)" using t by simp
  show "10 \<le> occurrence_ticks example_hypothesis ! Suc i - occurrence_ticks example_hypothesis ! i
      \<and> occurrence_ticks example_hypothesis ! Suc i - occurrence_ticks example_hypothesis ! i \<le> 11"
    if "Suc i < length (occurrence_ticks example_hypothesis)" for i
    using that t by (cases i) (auto simp: less_Suc_eq)
qed (use example_wf in simp_all)

text \<open>After any sequence of upserts into a well-formed index (a key per hypothesis, sorted, at most
  \<open>MAX_RECURRENCE_HYPOTHESES\<close>), the index is well formed again, and reading an id parses back the hypothesis
  stored last under it, field for field, or what the index held before.\<close>

theorem index_returns_last_upsert:
  assumes "foldE upsert_recurrence_index idx hs = Inr idx'" and "index_wf idx"
    and "\<And>h. h \<in> set hs \<Longrightarrow> hypothesis_wf h"
  shows "index_wf idx' \<and> get_hypothesis_from_index idx' rid =
    (case filter (\<lambda>h. rh_recurrence_id h = rid) hs of
       [] \<Rightarrow> get_hypothesis_from_index idx rid | hits \<Rightarrow> Inr (Some (last hits)))"
  using hyp_index.puts_wf [OF assms(1,2)] hyp_index.get_puts [OF assms] by blast

lemma index_returns_last_upsert_witness:
  "get_hypothesis_from_index (sorted_items [(''rec:k'', hypothesis_to_dict example_hypothesis)]) ''rec:k''
     = Inr (Some example_hypothesis)"
proof -
  have run: "foldE upsert_recurrence_index [] [example_hypothesis]
      = Inr (sorted_items [(''rec:k'', hypothesis_to_dict example_hypothesis)])"
    by (simp add: upsert_recurrence_index_def example_hypothesis_def MAX_RECURRENCE_HYPOTHESES_def)
  have id: "rh_recurrence_id example_hypothesis = ''rec:k''" by (simp add: example_hypothesis_def)
  show ?thesis
    using index_returns_last_upsert [OF run, of "''rec:k''"] example_wf id by (simp add: index_wf_def)
qed

end
