(* ===== verification/WaitJournal.thy ===== *)
theory WaitJournal
  imports Recurrence
begin

text \<open>
  \<open>wait_execution.py\<close>: the journal of waits for a predicted occurrence. A wait is prepared, admitted,
  and ends in one of five terminal states; ending it suppresses re-entry for its recurrence and
  expectation version. \<open>new_id()\<close> is the argument \<open>fresh\<close>. The recovery delta that the downtime
  reconciliation applies to a journal (\<open>temporal/downtime.py\<close>) is declared here with its use.
\<close>

section \<open>Data\<close>

definition MAXIMUM_WAIT_TICKS :: int where
  "MAXIMUM_WAIT_TICKS = 10"

definition SUPPRESSION_DURATION_TICKS :: int where
  "SUPPRESSION_DURATION_TICKS = 8"

definition EXPECTATION_VERSION_BYPASS_EPSILON :: int where
  "EXPECTATION_VERSION_BYPASS_EPSILON = 1"

definition MAX_WAIT_EXECUTIONS :: nat where
  "MAX_WAIT_EXECUTIONS = 128"

definition MAX_WAIT_SUPPRESSIONS :: nat where
  "MAX_WAIT_SUPPRESSIONS = 128"

definition MAX_FALLBACK_BOUNDED_DELTA :: flt where
  "MAX_FALLBACK_BOUNDED_DELTA = flit 12 100"

definition TERMINAL_WAIT_STATUSES :: "string list" where
  "TERMINAL_WAIT_STATUSES =
     [''OCCURRENCE_OBSERVED'', ''INTERRUPTED'', ''EXPIRED'', ''INVALIDATED'', ''FAILED'']"

definition NON_TERMINAL_WAIT_STATUSES :: "string list" where
  "NON_TERMINAL_WAIT_STATUSES = [''ADMITTED'', ''ACTIVE'']"

record fallback_bias =
  fb_candidate_class :: string
  fb_bounded_delta :: flt
  fb_expires_after_ticks :: int

definition normalize_fallback_bias :: "fallback_bias option \<Rightarrow> fallback_bias option" where
  "normalize_fallback_bias bias =
     (case bias of None \<Rightarrow> None
      | Some b \<Rightarrow>
          let clamped = clamp (fb_bounded_delta b) (flt_neg MAX_FALLBACK_BOUNDED_DELTA)
                MAX_FALLBACK_BOUNDED_DELTA
          in if flt_eq clamped (fb_bounded_delta b) then Some b
             else Some (b\<lparr>fb_bounded_delta := clamped\<rparr>))"

record wait_execution =
  we_execution_id :: string
  we_recurrence_id :: string
  we_expectation_version :: int
  we_window_start :: flt
  we_window_end :: flt
  we_started_age_tick :: int
  we_deadline_age_tick :: int
  we_interrupt_conditions_hash :: string
  we_internal_context_key :: string
  we_expected_occurrence_id :: string
  we_status :: string
  we_terminal_reason :: "string option"
  we_fallback_bias :: "fallback_bias option"

definition is_terminal :: "wait_execution \<Rightarrow> bool" where
  "is_terminal e = (we_status e \<in> set TERMINAL_WAIT_STATUSES)"

record wait_suppression =
  wsp_anti_reentry_key :: string
  wsp_terminal_reason :: string
  wsp_suppressed_until_age_tick :: int
  wsp_source_execution_id :: "string option"
  wsp_governance_decision_id :: "string option"
  wsp_expectation_version :: int

definition wait_deadline_age_tick :: "int \<Rightarrow> flt \<Rightarrow> int \<Rightarrow> int res" where
  "wait_deadline_age_tick started_age_tick window_end maximum_wait_ticks =
     andThen (int_of_flt window_end) (\<lambda>w. Inr (min (started_age_tick + maximum_wait_ticks) w))"

definition anti_reentry_key :: "string \<Rightarrow> int \<Rightarrow> string" where
  "anti_reentry_key recurrence_id expectation_version =
     recurrence_id @ '':v'' @ int_str expectation_version"

definition compute_interrupt_conditions_hash :: "hash_env \<Rightarrow> string list \<Rightarrow> string" where
  "compute_interrupt_conditions_hash E conditions =
     hash_canonical E (VDict [(''interrupt_conditions'', v_strs conditions)])"

record wait_journal =
  wj_executions :: "wait_execution dict"
  wj_suppressions :: "wait_suppression list"
  wj_prepared :: "wait_execution dict"

definition new_wait_journal :: wait_journal where
  "new_wait_journal = \<lparr>wj_executions = [], wj_suppressions = [], wj_prepared = []\<rparr>"

section \<open>Operations\<close>

definition prepare_wait ::
  "hash_env \<Rightarrow> string \<Rightarrow> string \<Rightarrow> int \<Rightarrow> flt \<Rightarrow> flt \<Rightarrow> int \<Rightarrow> int \<Rightarrow> string list \<Rightarrow> fallback_bias option
    \<Rightarrow> string \<Rightarrow> string \<Rightarrow> string option \<Rightarrow> (wait_journal, wait_execution) method" where
  "prepare_wait E fresh recurrence_id expectation_version window_start window_end started_age_tick
     maximum_wait_ticks interrupt_conditions bias internal_context_key expected_occurrence_id
     execution_id j =
   (let exec_id = (case execution_id of None \<Rightarrow> fresh | Some i \<Rightarrow> if i = [] then fresh else i)
    in case map_of (wj_executions j) exec_id of
         Some existing \<Rightarrow> (Inr existing, j)
       | None \<Rightarrow>
           (case wait_deadline_age_tick started_age_tick window_end maximum_wait_ticks of
              Inl e \<Rightarrow> (Inl e, j)
            | Inr deadline \<Rightarrow>
                let prepared = \<lparr>we_execution_id = exec_id, we_recurrence_id = recurrence_id,
                      we_expectation_version = expectation_version,
                      we_window_start = window_start, we_window_end = window_end,
                      we_started_age_tick = started_age_tick, we_deadline_age_tick = deadline,
                      we_interrupt_conditions_hash =
                        compute_interrupt_conditions_hash E interrupt_conditions,
                      we_internal_context_key = internal_context_key,
                      we_expected_occurrence_id = expected_occurrence_id,
                      we_status = ''ADMITTED'', we_terminal_reason = None,
                      we_fallback_bias = normalize_fallback_bias bias\<rparr>
                in (Inr prepared, j\<lparr>wj_prepared := dput exec_id prepared (wj_prepared j)\<rparr>)))"

definition abandon_prepare :: "string \<Rightarrow> (wait_journal, unit) method" where
  "abandon_prepare execution_id j =
     (Inr (), j\<lparr>wj_prepared := dpop execution_id (wj_prepared j)\<rparr>)"

definition admit_prepared :: "string \<Rightarrow> (wait_journal, wait_execution) method" where
  "admit_prepared execution_id j =
     (let j' = j\<lparr>wj_prepared := dpop execution_id (wj_prepared j)\<rparr>
      in case map_of (wj_prepared j) execution_id of
           None \<Rightarrow>
             (case map_of (wj_executions j) execution_id of
                Some existing \<Rightarrow> (Inr existing, j')
              | None \<Rightarrow> (Inl (WaitExecutionError ''wait_not_prepared''), j'))
         | Some prepared \<Rightarrow>
             if MAX_WAIT_EXECUTIONS \<le> length (wj_executions j)
             then (Inl (WaitExecutionError ''wait_execution_cap_exceeded''), j')
             else let active = prepared\<lparr>we_status := ''ACTIVE'', we_terminal_reason := None\<rparr>
                  in (Inr active, j'\<lparr>wj_executions := dput execution_id active (wj_executions j)\<rparr>))"

definition push_suppression :: "wait_suppression \<Rightarrow> wait_suppression list \<Rightarrow> wait_suppression list" where
  "push_suppression s xs =
     (if MAX_WAIT_SUPPRESSIONS \<le> length xs then last_n (MAX_WAIT_SUPPRESSIONS - 1) xs else xs) @ [s]"

definition record_suppression ::
  "string \<Rightarrow> int \<Rightarrow> string \<Rightarrow> int \<Rightarrow> string option \<Rightarrow> string option
    \<Rightarrow> (wait_journal, wait_suppression) method" where
  "record_suppression recurrence_id expectation_version terminal_reason suppressed_until_age_tick
     source_execution_id governance_decision_id j =
   (let suppression = \<lparr>wsp_anti_reentry_key = anti_reentry_key recurrence_id expectation_version,
          wsp_terminal_reason = terminal_reason,
          wsp_suppressed_until_age_tick = suppressed_until_age_tick,
          wsp_source_execution_id = source_execution_id,
          wsp_governance_decision_id = governance_decision_id,
          wsp_expectation_version = expectation_version\<rparr>
    in (Inr suppression, j\<lparr>wj_suppressions := push_suppression suppression (wj_suppressions j)\<rparr>))"

definition str_or :: "string option \<Rightarrow> string \<Rightarrow> string" where
  "str_or x d = (case x of None \<Rightarrow> d | Some s \<Rightarrow> if s = [] then d else s)"

definition finalize :: "string \<Rightarrow> string \<Rightarrow> string option \<Rightarrow> (wait_journal, wait_execution) method" where
  "finalize execution_id status terminal_reason j =
     (if status \<notin> set TERMINAL_WAIT_STATUSES
      then (Inl (WaitExecutionError ''invalid_terminal_status''), j)
      else case map_of (wj_executions j) execution_id of
        None \<Rightarrow> (Inl (WaitExecutionError ''wait_execution_missing''), j)
      | Some current \<Rightarrow>
          if is_terminal current then (Inr current, j)
          else
            let finalized = current\<lparr>we_status := status,
                  we_terminal_reason := Some (str_or terminal_reason status)\<rparr>;
                j1 = j\<lparr>wj_executions := dput execution_id finalized (wj_executions j)\<rparr>;
                (_, j2) = record_suppression (we_recurrence_id finalized)
                  (we_expectation_version finalized)
                  (str_or (we_terminal_reason finalized) status)
                  (we_deadline_age_tick finalized + SUPPRESSION_DURATION_TICKS)
                  (Some execution_id) None j1
            in (Inr finalized, j2))"

definition get_execution :: "wait_journal \<Rightarrow> string \<Rightarrow> wait_execution option" where
  "get_execution j execution_id = map_of (wj_executions j) execution_id"

definition active_execution :: "wait_journal \<Rightarrow> wait_execution option" where
  "active_execution j = find (\<lambda>e. we_status e = ''ACTIVE'') (map snd (wj_executions j))"

definition is_suppressed :: "wait_journal \<Rightarrow> string \<Rightarrow> int \<Rightarrow> int \<Rightarrow> bool" where
  "is_suppressed j recurrence_id expectation_version effective_age_ticks =
     (let key = anti_reentry_key recurrence_id expectation_version
      in list_ex (\<lambda>s. wsp_anti_reentry_key s = key
           \<and> effective_age_ticks < wsp_suppressed_until_age_tick s) (rev (wj_suppressions j)))"

definition may_bypass_suppression :: "int \<Rightarrow> int \<Rightarrow> bool" where
  "may_bypass_suppression prior_expectation_version new_expectation_version =
     (EXPECTATION_VERSION_BYPASS_EPSILON \<le> new_expectation_version - prior_expectation_version)"

definition try_complete_with_occurrence ::
  "string \<Rightarrow> string \<Rightarrow> int \<Rightarrow> string \<Rightarrow> string \<Rightarrow> int \<Rightarrow> evidence_lane
    \<Rightarrow> (wait_journal, wait_execution option) method" where
  "try_complete_with_occurrence execution_id recurrence_id expectation_version occurrence_id
     internal_context_key observation_age_tick lane j =
   (case map_of (wj_executions j) execution_id of
      None \<Rightarrow> (Inr None, j)
    | Some e \<Rightarrow>
        if is_terminal e then (Inr (Some e), j)
        else if lane \<noteq> ORGANISM_OBSERVABLE then (Inr (Some e), j)
        else if we_recurrence_id e \<noteq> recurrence_id then (Inr (Some e), j)
        else if we_expectation_version e \<noteq> expectation_version then (Inr (Some e), j)
        else if \<not> (flt_le (we_window_start e) (exactly observation_age_tick)
                  \<and> flt_le (exactly observation_age_tick) (we_window_end e)) then (Inr (Some e), j)
        else if we_internal_context_key e \<noteq> internal_context_key then (Inr (Some e), j)
        else if we_expected_occurrence_id e \<noteq> occurrence_id then (Inr (Some e), j)
        else case finalize execution_id ''OCCURRENCE_OBSERVED'' (Some ''o_lane_occurrence_matched'') j of
               (r, j') \<Rightarrow> (andThen r (\<lambda>x. Inr (Some x)), j'))"

section \<open>Stored form\<close>

definition fallback_to_pyv :: "fallback_bias \<Rightarrow> pyv" where
  "fallback_to_pyv b = VDict
     [(''candidate_class'', VStr (fb_candidate_class b)),
      (''bounded_delta'', VFlt (fb_bounded_delta b)),
      (''expires_after_ticks'', VInt (fb_expires_after_ticks b))]"

definition execution_to_pyv :: "wait_execution \<Rightarrow> pyv" where
  "execution_to_pyv ex = VDict
     [(''execution_id'', VStr (we_execution_id ex)),
      (''recurrence_id'', VStr (we_recurrence_id ex)),
      (''expectation_version'', VInt (we_expectation_version ex)),
      (''window_start'', VFlt (we_window_start ex)),
      (''window_end'', VFlt (we_window_end ex)),
      (''started_age_tick'', VInt (we_started_age_tick ex)),
      (''deadline_age_tick'', VInt (we_deadline_age_tick ex)),
      (''interrupt_conditions_hash'', VStr (we_interrupt_conditions_hash ex)),
      (''internal_context_key'', VStr (we_internal_context_key ex)),
      (''expected_occurrence_id'', VStr (we_expected_occurrence_id ex)),
      (''status'', VStr (we_status ex)),
      (''terminal_reason'', v_opt VStr (we_terminal_reason ex)),
      (''fallback_bias'', v_opt fallback_to_pyv (we_fallback_bias ex))]"

definition suppression_to_pyv :: "wait_suppression \<Rightarrow> pyv" where
  "suppression_to_pyv s = VDict
     [(''anti_reentry_key'', VStr (wsp_anti_reentry_key s)),
      (''terminal_reason'', VStr (wsp_terminal_reason s)),
      (''suppressed_until_age_tick'', VInt (wsp_suppressed_until_age_tick s)),
      (''source_execution_id'', v_opt VStr (wsp_source_execution_id s)),
      (''governance_decision_id'', v_opt VStr (wsp_governance_decision_id s)),
      (''expectation_version'', VInt (wsp_expectation_version s))]"

definition journal_to_state :: "wait_journal \<Rightarrow> pyv" where
  "journal_to_state j = VDict
     [(''executions'', VDict (map (\<lambda>(eid, ex). (eid, execution_to_pyv ex)) (sorted_items (wj_executions j)))),
      (''suppressions'', VList (map suppression_to_pyv (wj_suppressions j)))]"

definition fallback_of_pyv :: "pyv \<Rightarrow> fallback_bias res" where
  "fallback_of_pyv fb =
     andThen (fld fb ''candidate_class'' as_str) (\<lambda>candidate_class.
     andThen (fld fb ''bounded_delta'' as_float) (\<lambda>bounded_delta.
     andThen (fld fb ''expires_after_ticks'' as_int) (\<lambda>expires_after_ticks.
     Inr \<lparr>fb_candidate_class = candidate_class, fb_bounded_delta = bounded_delta,
       fb_expires_after_ticks = expires_after_ticks\<rparr>)))"

definition execution_of_pyv :: "pyv \<Rightarrow> wait_execution res" where
  "execution_of_pyv payload =
     andThen (fld_or payload ''fallback_bias'' VNone (opt_conv fallback_of_pyv)) (\<lambda>fallback.
     andThen (fld payload ''execution_id'' as_str) (\<lambda>execution_id.
     andThen (fld payload ''recurrence_id'' as_str) (\<lambda>recurrence_id.
     andThen (fld payload ''expectation_version'' as_int) (\<lambda>expectation_version.
     andThen (fld payload ''window_start'' as_float) (\<lambda>window_start.
     andThen (fld payload ''window_end'' as_float) (\<lambda>window_end.
     andThen (fld payload ''started_age_tick'' as_int) (\<lambda>started_age_tick.
     andThen (fld payload ''deadline_age_tick'' as_int) (\<lambda>deadline_age_tick.
     andThen (fld payload ''interrupt_conditions_hash'' as_str) (\<lambda>interrupt_conditions_hash.
     andThen (fld_or payload ''internal_context_key'' (VStr []) as_str) (\<lambda>internal_context_key.
     andThen (fld_or payload ''expected_occurrence_id'' (VStr []) as_str) (\<lambda>expected_occurrence_id.
     andThen (fld payload ''status'' as_str) (\<lambda>status.
     andThen (fld_or payload ''terminal_reason'' VNone (opt_conv plain_str)) (\<lambda>terminal_reason.
     Inr \<lparr>we_execution_id = execution_id, we_recurrence_id = recurrence_id,
       we_expectation_version = expectation_version, we_window_start = window_start,
       we_window_end = window_end, we_started_age_tick = started_age_tick,
       we_deadline_age_tick = deadline_age_tick,
       we_interrupt_conditions_hash = interrupt_conditions_hash,
       we_internal_context_key = internal_context_key,
       we_expected_occurrence_id = expected_occurrence_id, we_status = status,
       we_terminal_reason = terminal_reason,
       we_fallback_bias = normalize_fallback_bias fallback\<rparr>)))))))))))))"

definition suppression_of_pyv :: "pyv \<Rightarrow> wait_suppression res" where
  "suppression_of_pyv payload =
     andThen (fld payload ''anti_reentry_key'' as_str) (\<lambda>key.
     andThen (fld payload ''terminal_reason'' as_str) (\<lambda>reason.
     andThen (fld payload ''suppressed_until_age_tick'' as_int) (\<lambda>until.
     andThen (fld_or payload ''source_execution_id'' VNone (opt_conv plain_str)) (\<lambda>source.
     andThen (fld_or payload ''governance_decision_id'' VNone (opt_conv plain_str)) (\<lambda>decision.
     andThen (fld_or payload ''expectation_version'' (VInt 0) as_int) (\<lambda>version.
     Inr \<lparr>wsp_anti_reentry_key = key, wsp_terminal_reason = reason,
       wsp_suppressed_until_age_tick = until, wsp_source_execution_id = source,
       wsp_governance_decision_id = decision, wsp_expectation_version = version\<rparr>))))))"

definition journal_from_state :: "pyv \<Rightarrow> wait_journal res" where
  "journal_from_state data =
     andThen (fld_or data ''executions'' VNone (\<lambda>v. as_dict (or_else v (VDict [])))) (\<lambda>items.
     andThen (mapE (\<lambda>(eid, payload). andThen (execution_of_pyv payload) (\<lambda>e. Inr (eid, e))) items) (\<lambda>es.
     andThen (fld_or data ''suppressions'' VNone
       (\<lambda>v. tuple_of suppression_of_pyv (or_else v (VList [])))) (\<lambda>ss.
     Inr \<lparr>wj_executions = fold (\<lambda>(eid, e). dput eid e) es [], wj_suppressions = ss,
       wj_prepared = []\<rparr>)))"

section \<open>Recovery after downtime\<close>

record wait_recovery_delta =
  wd_execution_id :: string
  wd_expected_status :: string
  wd_terminal_status :: string
  wd_terminal_reason :: string
  wd_suppression_plan :: "pyv option"

definition apply_wait_recovery_delta :: "wait_recovery_delta \<Rightarrow> (wait_journal, unit) method" where
  "apply_wait_recovery_delta delta j =
     (case map_of (wj_executions j) (wd_execution_id delta) of
        None \<Rightarrow> (Inl (WaitExecutionError ''wait_execution_missing''), j)
      | Some e \<Rightarrow>
          if we_status e \<noteq> wd_expected_status delta
          then (Inl (WaitExecutionError ''wait_status_mismatch''), j)
          else if is_terminal e then (Inr (), j)
          else case finalize (wd_execution_id delta) (wd_terminal_status delta)
                 (Some (wd_terminal_reason delta)) j of
                 (r, j') \<Rightarrow> (andThen r (\<lambda>_. Inr ()), j'))"

fun apply_wait_recovery_deltas :: "wait_recovery_delta list \<Rightarrow> (wait_journal, unit) method" where
  "apply_wait_recovery_deltas [] j = (Inr (), j)"
| "apply_wait_recovery_deltas (delta # deltas) j =
     (case apply_wait_recovery_delta delta j of
        (Inl e, j') \<Rightarrow> (Inl e, j')
      | (Inr _, j') \<Rightarrow> apply_wait_recovery_deltas deltas j')"

section \<open>Bias and round trip\<close>

lemma max_delta: "\<exists>r. MAX_FALLBACK_BOUNDED_DELTA = Fin r \<and> 0 \<le> r \<and> r \<le> 1"
  using flt_of_between [of 0 "12 / 100" 1] by (auto simp: MAX_FALLBACK_BOUNDED_DELTA_def flit_def)

definition bias_ok :: "fallback_bias option \<Rightarrow> bool" where
  "bias_ok bias = (case bias of None \<Rightarrow> True
     | Some b \<Rightarrow> flt_le (flt_neg MAX_FALLBACK_BOUNDED_DELTA) (fb_bounded_delta b)
         \<and> flt_le (fb_bounded_delta b) MAX_FALLBACK_BOUNDED_DELTA)"

lemma normalize_bias_ok: "bias_ok (normalize_fallback_bias bias)"
proof (cases bias)
  case None
  then show ?thesis by (simp add: normalize_fallback_bias_def bias_ok_def)
next
  case (Some b)
  let ?c = "clamp (fb_bounded_delta b) (flt_neg MAX_FALLBACK_BOUNDED_DELTA) MAX_FALLBACK_BOUNDED_DELTA"
  have le: "flt_le (flt_neg MAX_FALLBACK_BOUNDED_DELTA) MAX_FALLBACK_BOUNDED_DELTA"
  proof -
    obtain r where r: "MAX_FALLBACK_BOUNDED_DELTA = Fin r" "0 \<le> r" using max_delta by blast
    then have "- r \<le> r" by linarith
    then show ?thesis unfolding r(1) by simp
  qed
  then show ?thesis
    using Some clamp_bounds [OF le, of "fb_bounded_delta b"]
    by (auto simp: normalize_fallback_bias_def bias_ok_def Let_def flt_eq_def)
qed

lemma normalize_bias_id: "bias_ok bias \<Longrightarrow> normalize_fallback_bias bias = bias"
  by (auto simp: normalize_fallback_bias_def bias_ok_def Let_def clamp_id flt_eq_def split: option.splits)

lemma fallback_roundtrip [simp]: "fallback_of_pyv (fallback_to_pyv b) = Inr b"
  by (simp add: fallback_of_pyv_def fallback_to_pyv_def)

lemma fallback_to_pyv_ne [simp]: "fallback_to_pyv b \<noteq> VNone"
  by (simp add: fallback_to_pyv_def)

lemma execution_roundtrip:
  "bias_ok (we_fallback_bias e) \<Longrightarrow> execution_of_pyv (execution_to_pyv e) = Inr e"
  by (simp add: execution_of_pyv_def execution_to_pyv_def normalize_bias_id)

lemma suppression_roundtrip [simp]: "suppression_of_pyv (suppression_to_pyv s) = Inr s"
  by (simp add: suppression_of_pyv_def suppression_to_pyv_def)

lemma or_else_dict: "or_else (VDict xs) (VDict []) = VDict xs"
  by (simp add: or_else_def)

lemma journal_roundtrip:
  assumes "dwf (wj_executions j)" and "\<And>k e. (k, e) \<in> set (wj_executions j) \<Longrightarrow> bias_ok (we_fallback_bias e)"
  shows "journal_from_state (journal_to_state j)
    = Inr (j\<lparr>wj_executions := sorted_items (wj_executions j), wj_prepared := []\<rparr>)"
proof -
  have "mapE (\<lambda>(eid, payload). andThen (execution_of_pyv payload) (\<lambda>e. Inr (eid, e)))
      (map (\<lambda>(eid, ex). (eid, execution_to_pyv ex)) (sorted_items (wj_executions j)))
    = Inr (map id (sorted_items (wj_executions j)))"
    unfolding mapE_map by (rule mapE_Inr) (use assms(2) in \<open>auto simp: execution_roundtrip\<close>)
  moreover have "fold (\<lambda>(eid, e). dput eid e) (sorted_items (wj_executions j)) [] = sorted_items (wj_executions j)"
    using fold_dput_fresh [of "[]" "sorted_items (wj_executions j)"] assms(1) by simp
  ultimately show ?thesis
    by (simp add: journal_from_state_def journal_to_state_def or_else_dict or_else_list)
qed

section \<open>Keys\<close>

lemma split_last_unique:
  assumes "xs @ c # ys = xs' @ c # ys'" and "c \<notin> set ys" and "c \<notin> set ys'"
  shows "xs = xs' \<and> ys = ys'"
  using assms
proof (induction xs arbitrary: xs')
  case Nil
  then show ?case by (cases xs') auto
next
  case (Cons x xs)
  then show ?case by (cases xs') auto
qed

lemma anti_reentry_key_inj:
  assumes "anti_reentry_key r v = anti_reentry_key r' v'"
  shows "r = r' \<and> v = v'"
proof -
  have no_v: "CHR ''v'' \<notin> set (int_str i)" for i
    using int_str_chars [of "CHR ''v''" i] by auto
  have "(r @ '':'') @ CHR ''v'' # int_str v = (r' @ '':'') @ CHR ''v'' # int_str v'"
    using assms by (simp add: anti_reentry_key_def)
  from split_last_unique [OF this no_v no_v] show ?thesis
    by (auto dest: int_str_inj)
qed

lemma anti_reentry_key_eq [simp]:
  "anti_reentry_key r v = anti_reentry_key r' v' \<longleftrightarrow> r = r' \<and> v = v'"
  using anti_reentry_key_inj by blast

section \<open>Suppressions as a bounded log\<close>

lemma push_suppression_last_n:
  "length xs \<le> MAX_WAIT_SUPPRESSIONS \<Longrightarrow>
     push_suppression s xs = last_n MAX_WAIT_SUPPRESSIONS (xs @ [s])"
  by (cases "length xs = MAX_WAIT_SUPPRESSIONS")
    (simp_all add: push_suppression_def last_n_snoc last_n_id MAX_WAIT_SUPPRESSIONS_def)

interpretation suppression_log: bounded_log MAX_WAIT_SUPPRESSIONS wj_suppressions
    "\<lambda>s j. j\<lparr>wj_suppressions := push_suppression s (wj_suppressions j)\<rparr>"
    "\<lambda>j. length (wj_suppressions j) \<le> MAX_WAIT_SUPPRESSIONS"
  by unfold_locales
    (simp_all add: push_suppression_last_n length_last_n MAX_WAIT_SUPPRESSIONS_def)

lemma push_suppression_len:
  "length xs \<le> MAX_WAIT_SUPPRESSIONS \<Longrightarrow> length (push_suppression s xs) \<le> MAX_WAIT_SUPPRESSIONS"
  by (simp add: push_suppression_last_n length_last_n)

lemma push_suppression_mem: "s \<in> set (push_suppression s xs)"
  by (simp add: push_suppression_def)

section \<open>The journal's steps and invariant\<close>

text \<open>One call of an operation, with any arguments and whether or not it raises, or a restart from the
  stored state.\<close>

inductive wait_step :: "hash_env \<Rightarrow> wait_journal \<Rightarrow> wait_journal \<Rightarrow> bool" for E where
  prepare: "wait_step E j (snd (prepare_wait E fresh r v ws we t0 mx cs b ctx occ i j))"
| abandon: "wait_step E j (snd (abandon_prepare i j))"
| admit: "wait_step E j (snd (admit_prepared i j))"
| finish: "wait_step E j (snd (finalize i st reason j))"
| complete: "wait_step E j (snd (try_complete_with_occurrence i r v occ ctx t lane j))"
| recover: "wait_step E j (snd (apply_wait_recovery_delta d j))"
| suppress: "wait_step E j (snd (record_suppression r v reason until src gov j))"
| restart: "journal_from_state (journal_to_state j) = Inr j' \<Longrightarrow> wait_step E j j'"

inductive wait_steps :: "hash_env \<Rightarrow> wait_journal \<Rightarrow> wait_journal \<Rightarrow> bool" for E where
  start: "wait_steps E j j"
| extend: "wait_steps E j j' \<Longrightarrow> wait_step E j' j'' \<Longrightarrow> wait_steps E j j''"

definition execution_ok :: "string \<Rightarrow> wait_execution \<Rightarrow> bool" where
  "execution_ok k e \<longleftrightarrow> we_execution_id e = k
     \<and> (we_status e = ''ACTIVE'' \<and> we_terminal_reason e = None
        \<or> is_terminal e \<and> we_terminal_reason e \<noteq> None)
     \<and> bias_ok (we_fallback_bias e)
     \<and> (\<exists>w. int_of_flt (we_window_end e) = Inr w \<and> we_deadline_age_tick e \<le> w)"

definition prepared_ok :: "string \<Rightarrow> wait_execution \<Rightarrow> bool" where
  "prepared_ok k e \<longleftrightarrow> execution_ok k (e\<lparr>we_status := ''ACTIVE'', we_terminal_reason := None\<rparr>)
     \<and> we_status e = ''ADMITTED''"

definition keys_apart :: "'a dict \<Rightarrow> 'b dict \<Rightarrow> bool" where
  "keys_apart d d' \<longleftrightarrow> dom (map_of d) \<inter> dom (map_of d') = {}"

definition journal_ok :: "wait_journal \<Rightarrow> bool" where
  "journal_ok j \<longleftrightarrow> dwf (wj_executions j) \<and> dwf (wj_prepared j)
     \<and> length (wj_executions j) \<le> MAX_WAIT_EXECUTIONS
     \<and> length (wj_suppressions j) \<le> MAX_WAIT_SUPPRESSIONS
     \<and> (\<forall>(k, e) \<in> set (wj_executions j). execution_ok k e)
     \<and> (\<forall>(k, e) \<in> set (wj_prepared j). prepared_ok k e)
     \<and> keys_apart (wj_prepared j) (wj_executions j)"

lemma dpop_subset: "set (dpop k d) \<subseteq> set d"
  by (auto simp: AList.delete_eq)

lemma dpop_lookup: "map_of (dpop k d) = (map_of d)(k := None)"
  by (simp add: delete_conv')

lemma keys_apart_simps:
  "keys_apart [] d'"
  "map_of d' k = None \<Longrightarrow> keys_apart d d' \<Longrightarrow> keys_apart (dput k v d) d'"
  "keys_apart d d' \<Longrightarrow> keys_apart (dpop k d) d'"
  "keys_apart d d' \<Longrightarrow> keys_apart (dpop k d) (dput k v d')"
  "keys_apart d d' \<Longrightarrow> map_of d' k = Some w \<Longrightarrow> keys_apart d (dput k v d')"
  "keys_apart d d' \<Longrightarrow> map_of d k = Some x \<Longrightarrow> map_of d' k = None"
  unfolding keys_apart_def dpop_lookup dput_lookup by (auto simp: dom_def split: if_splits)

lemma dput_all:
  "\<forall>(k', e) \<in> set d. P k' e \<Longrightarrow> P k v \<Longrightarrow> \<forall>(k', e) \<in> set (dput k v d). P k' e"
  by (auto dest: dput_mem_cases)

lemma is_terminal_not_active:
  "is_terminal e \<Longrightarrow> we_status e \<noteq> ''ACTIVE''" "is_terminal e \<Longrightarrow> we_status e \<noteq> ''ADMITTED''"
  by (auto simp: is_terminal_def TERMINAL_WAIT_STATUSES_def)

lemma journal_okD:
  assumes "journal_ok j" and "map_of (wj_executions j) i = Some e"
  shows "execution_ok i e"
  using assms map_of_mem [OF assms(2)] by (auto simp: journal_ok_def)

lemma prepare_ok:
  assumes "journal_ok j"
  shows "journal_ok (snd (prepare_wait E fresh r v ws w t0 mx cs b ctx occ i j))"
proof -
  define k where "k = (case i of None \<Rightarrow> fresh | Some i \<Rightarrow> if i = [] then fresh else i)"
  show ?thesis
  proof (cases "map_of (wj_executions j) k")
    case None
    show ?thesis
    proof (cases "wait_deadline_age_tick t0 w mx")
      case (Inl e)
      then show ?thesis using None assms by (simp add: prepare_wait_def k_def Let_def)
    next
      case (Inr d)
      then obtain iw where iw: "int_of_flt w = Inr iw" "d \<le> iw"
        by (auto simp: wait_deadline_age_tick_def andThen_eq_Inr)
      show ?thesis
        using None Inr iw assms normalize_bias_ok
        by (auto simp: prepare_wait_def Let_def journal_ok_def prepared_ok_def execution_ok_def
            keys_apart_simps intro!: dwf_dput dest!: dput_mem_cases simp flip: k_def)
    qed
  next
    case (Some e)
    then show ?thesis using assms by (simp add: prepare_wait_def k_def Let_def)
  qed
qed

lemma abandon_ok: "journal_ok j \<Longrightarrow> journal_ok (snd (abandon_prepare i j))"
  using dpop_subset [of i "wj_prepared j"]
  by (auto simp: abandon_prepare_def journal_ok_def distinct_delete keys_apart_simps)

lemma admit_ok:
  assumes "journal_ok j"
  shows "journal_ok (snd (admit_prepared i j))"
proof -
  let ?j = "j\<lparr>wj_prepared := dpop i (wj_prepared j)\<rparr>"
  have pop: "journal_ok ?j"
    using abandon_ok [OF assms, of i] by (simp add: abandon_prepare_def)
  show ?thesis
  proof (cases "map_of (wj_prepared j) i")
    case None
    then show ?thesis using pop by (auto simp: admit_prepared_def Let_def split: option.splits)
  next
    case (Some p)
    then have "prepared_ok i p" using assms map_of_mem [OF Some] by (auto simp: journal_ok_def)
    moreover have "map_of (wj_executions j) i = None" using assms keys_apart_simps(6) [OF _ Some] by (auto simp: journal_ok_def)
    moreover have "keys_apart (dpop i (wj_prepared j)) (dput i v (wj_executions j))" for v
      using assms by (simp add: journal_ok_def keys_apart_simps)
    ultimately show ?thesis
      using Some pop
      by (auto simp: admit_prepared_def Let_def journal_ok_def prepared_ok_def length_dput
          MAX_WAIT_EXECUTIONS_def intro!: dwf_dput dest!: dput_mem_cases split: if_splits)
  qed
qed

text \<open>What \<open>finalize\<close> does to a live execution, and that it does nothing otherwise.\<close>

definition finalized :: "string \<Rightarrow> string option \<Rightarrow> wait_execution \<Rightarrow> wait_execution" where
  "finalized st reason e = e\<lparr>we_status := st, we_terminal_reason := Some (str_or reason st)\<rparr>"

definition suppression_for :: "string \<Rightarrow> string \<Rightarrow> string option \<Rightarrow> wait_execution \<Rightarrow> wait_suppression" where
  "suppression_for i st reason e =
     \<lparr>wsp_anti_reentry_key = anti_reentry_key (we_recurrence_id e) (we_expectation_version e),
      wsp_terminal_reason = str_or (Some (str_or reason st)) st,
      wsp_suppressed_until_age_tick = we_deadline_age_tick e + SUPPRESSION_DURATION_TICKS,
      wsp_source_execution_id = Some i, wsp_governance_decision_id = None,
      wsp_expectation_version = we_expectation_version e\<rparr>"

lemma finalize_live:
  assumes "map_of (wj_executions j) i = Some e" and "\<not> is_terminal e" and "st \<in> set TERMINAL_WAIT_STATUSES"
  shows "finalize i st reason j = (Inr (finalized st reason e),
    j\<lparr>wj_executions := dput i (finalized st reason e) (wj_executions j),
      wj_suppressions := push_suppression (suppression_for i st reason e) (wj_suppressions j)\<rparr>)"
  using assms
  by (simp add: finalize_def record_suppression_def Let_def finalized_def suppression_for_def)

lemma finalize_idle:
  assumes "\<not> (\<exists>e. map_of (wj_executions j) i = Some e \<and> \<not> is_terminal e \<and> st \<in> set TERMINAL_WAIT_STATUSES)"
  shows "snd (finalize i st reason j) = j"
  using assms by (auto simp: finalize_def split: option.splits)

lemma finalize_cases:
  obtains (idle) "snd (finalize i st reason j) = j"
  | (live) e where "map_of (wj_executions j) i = Some e" "\<not> is_terminal e" "st \<in> set TERMINAL_WAIT_STATUSES"
      "finalize i st reason j = (Inr (finalized st reason e),
    j\<lparr>wj_executions := dput i (finalized st reason e) (wj_executions j),
      wj_suppressions := push_suppression (suppression_for i st reason e) (wj_suppressions j)\<rparr>)"
  using finalize_idle finalize_live by metis

lemma finalize_ok:
  assumes "journal_ok j"
  shows "journal_ok (snd (finalize i st reason j))"
proof (cases rule: finalize_cases [of i st reason j])
  case idle
  then show ?thesis using assms by simp
next
  case (live e)
  have e: "execution_ok i e" using journal_okD [OF assms live(1)] .
  then have f: "execution_ok i (finalized st reason e)"
    using live by (auto simp: execution_ok_def finalized_def is_terminal_def)
  have "keys_apart (wj_prepared j) (dput i v (wj_executions j))" for v
    using assms live(1) by (auto simp: journal_ok_def keys_apart_simps)
  then show ?thesis
    using assms live f dput_all [of "wj_executions j" execution_ok i]
    by (auto simp: journal_ok_def length_dput push_suppression_len dest!: dput_mem_cases)
qed

lemma complete_state:
  "snd (try_complete_with_occurrence i r v occ ctx t lane j) = j \<or>
   snd (try_complete_with_occurrence i r v occ ctx t lane j)
     = snd (finalize i ''OCCURRENCE_OBSERVED'' (Some ''o_lane_occurrence_matched'') j)"
  by (auto simp: try_complete_with_occurrence_def split: option.splits prod.splits)

lemma recover_state:
  "snd (apply_wait_recovery_delta d j) = j \<or>
   snd (apply_wait_recovery_delta d j)
     = snd (finalize (wd_execution_id d) (wd_terminal_status d) (Some (wd_terminal_reason d)) j)"
  by (auto simp: apply_wait_recovery_delta_def split: option.splits prod.splits)

lemma journal_ok_bias: "journal_ok j \<Longrightarrow> (k, e) \<in> set (wj_executions j) \<Longrightarrow> bias_ok (we_fallback_bias e)"
  by (auto simp: journal_ok_def execution_ok_def)

lemma restart_eq:
  "journal_ok j \<Longrightarrow> journal_from_state (journal_to_state j)
     = Inr (j\<lparr>wj_executions := sorted_items (wj_executions j), wj_prepared := []\<rparr>)"
  by (rule journal_roundtrip) (auto simp: journal_ok_def execution_ok_def)

lemma restart_ok:
  assumes "journal_ok j" and "journal_from_state (journal_to_state j) = Inr j'"
  shows "journal_ok j'"
  using assms(1,2) unfolding restart_eq [OF assms(1)] by (auto simp: journal_ok_def keys_apart_simps)

lemma suppression_state:
  "snd (record_suppression r v reason until src gov j) = j\<lparr>wj_suppressions := push_suppression
     \<lparr>wsp_anti_reentry_key = anti_reentry_key r v, wsp_terminal_reason = reason,
       wsp_suppressed_until_age_tick = until, wsp_source_execution_id = src,
       wsp_governance_decision_id = gov, wsp_expectation_version = v\<rparr> (wj_suppressions j)\<rparr>"
  by (simp add: record_suppression_def Let_def)

lemma suppression_ok: "journal_ok j \<Longrightarrow> journal_ok (snd (record_suppression r v reason until src gov j))"
  by (simp add: suppression_state journal_ok_def push_suppression_len)

lemma wait_step_ok: "wait_step E j j' \<Longrightarrow> journal_ok j \<Longrightarrow> journal_ok j'"
proof (induction rule: wait_step.induct)
  case (complete j i r v occ ctx t lane)
  then show ?case using complete_state [of i r v occ ctx t lane j] finalize_ok by metis
next
  case (recover j d)
  then show ?case using recover_state [of d j] finalize_ok by metis
qed (simp_all add: prepare_ok abandon_ok admit_ok finalize_ok restart_ok suppression_ok)

lemma new_journal_ok: "journal_ok new_wait_journal"
  by (simp add: journal_ok_def new_wait_journal_def keys_apart_simps)

lemma wait_steps_ok: "wait_steps E j j' \<Longrightarrow> journal_ok j \<Longrightarrow> journal_ok j'"
  by (induction rule: wait_steps.induct) (auto intro: wait_step_ok)

lemma wait_step_terminal:
  assumes "wait_step E j j'" and "journal_ok j" and "map_of (wj_executions j) i = Some e" and "is_terminal e"
  shows "map_of (wj_executions j') i = Some e"
proof -
  have fin: "map_of (wj_executions (snd (finalize k st reason j))) i = Some e" for k st reason
    by (cases rule: finalize_cases [of k st reason j]) (use assms in auto)
  show ?thesis
    using assms(1)
  proof (cases rule: wait_step.cases)
    case (admit k)
    have apart: "keys_apart (wj_prepared j) (wj_executions j)" using assms(2) by (simp add: journal_ok_def)
    have "k \<noteq> i" if "map_of (wj_prepared j) k = Some p" for p
      using keys_apart_simps(6) [OF apart that] assms(3) by auto
    with admit assms(3) show ?thesis
      by (cases "map_of (wj_prepared j) k")
        (simp_all add: admit_prepared_def Let_def split: option.splits)
  next
    case (complete k r v occ ctx t lane)
    then show ?thesis using complete_state [of k r v occ ctx t lane j] fin assms by metis
  next
    case (recover d)
    then show ?thesis using recover_state [of d j] fin assms by metis
  next
    case restart
    then show ?thesis using assms restart_eq by (auto simp: journal_ok_def sorted_items_lookup)
  qed (use assms fin in \<open>auto simp: suppression_state prepare_wait_def abandon_prepare_def Let_def split: option.splits sum.splits\<close>)
qed

lemma wait_step_admitted:
  assumes "wait_step E j j'" and "journal_ok j"
  shows "length (wj_executions j) \<le> length (wj_executions j')"
proof -
  have fin: "length (wj_executions j) \<le> length (wj_executions (snd (finalize k st reason j)))" for k st reason
    by (cases rule: finalize_cases [of k st reason j]) (auto simp: length_dput)
  show ?thesis
    using assms(1)
  proof (cases rule: wait_step.cases)
    case (complete k r v occ ctx t lane)
    then show ?thesis using complete_state [of k r v occ ctx t lane j] fin by (metis order_refl)
  next
    case (recover d)
    then show ?thesis using recover_state [of d j] fin by (metis order_refl)
  next
    case restart
    then show ?thesis using assms restart_eq by auto
  qed (use fin in \<open>auto simp: suppression_state prepare_wait_def abandon_prepare_def admit_prepared_def length_dput Let_def
      split: option.splits sum.splits\<close>)
qed

lemma wait_steps_terminal:
  "wait_steps E j j' \<Longrightarrow> journal_ok j \<Longrightarrow> map_of (wj_executions j) i = Some e \<Longrightarrow> is_terminal e \<Longrightarrow>
     map_of (wj_executions j') i = Some e"
proof (induction rule: wait_steps.induct)
  case (extend j j' j'')
  then show ?case using wait_step_terminal [OF extend.hyps(2) wait_steps_ok [OF extend.hyps(1)]] by blast
qed

lemma wait_steps_admitted:
  "wait_steps E j j' \<Longrightarrow> journal_ok j \<Longrightarrow> length (wj_executions j) \<le> length (wj_executions j')"
proof (induction rule: wait_steps.induct)
  case (extend j j' j'')
  then show ?case using wait_step_admitted [OF extend.hyps(2) wait_steps_ok [OF extend.hyps(1)]] by force
qed simp

lemma suppressed_iff:
  "is_suppressed j r v age \<longleftrightarrow>
     (\<exists>s \<in> set (wj_suppressions j). wsp_anti_reentry_key s = anti_reentry_key r v
        \<and> age < wsp_suppressed_until_age_tick s)"
  by (auto simp: is_suppressed_def list_ex_iff)

lemma push_suppression_old: "s \<in> set (push_suppression x xs) \<Longrightarrow> s = x \<or> s \<in> set xs"
  using set_last_n [of "MAX_WAIT_SUPPRESSIONS - 1" xs] by (auto simp: push_suppression_def split: if_splits)

definition example_journal :: wait_journal where
  "example_journal = snd (admit_prepared ''w1''
     (snd (prepare_wait plain_env ''w1'' ''rec:1'' 2 (Fin 5) (Fin 9) 4 MAXIMUM_WAIT_TICKS [] None ''ctx'' ''occ'' None
       new_wait_journal)))"

definition example_execution :: wait_execution where
  "example_execution = \<lparr>we_execution_id = ''w1'', we_recurrence_id = ''rec:1'', we_expectation_version = 2,
     we_window_start = Fin 5, we_window_end = Fin 9, we_started_age_tick = 4, we_deadline_age_tick = 9,
     we_interrupt_conditions_hash = compute_interrupt_conditions_hash plain_env [],
     we_internal_context_key = ''ctx'', we_expected_occurrence_id = ''occ'', we_status = ''ACTIVE'',
     we_terminal_reason = None, we_fallback_bias = None\<rparr>"

lemma example_journal_eq:
  "example_journal = \<lparr>wj_executions = [(''w1'', example_execution)], wj_suppressions = [], wj_prepared = []\<rparr>"
  by (simp add: example_journal_def example_execution_def admit_prepared_def prepare_wait_def new_wait_journal_def
      wait_deadline_age_tick_def MAXIMUM_WAIT_TICKS_def MAX_WAIT_EXECUTIONS_def normalize_fallback_bias_def Let_def)

lemma example_reachable: "wait_steps plain_env new_wait_journal example_journal"
  unfolding example_journal_def by (rule wait_steps.extend [OF wait_steps.extend [OF wait_steps.start wait_step.prepare] wait_step.admit])

section \<open>Properties\<close>

text \<open>C3: in every journal reached by any calls and restarts, each execution is filed under its own id, is
  either active without a terminal reason or terminal with one, never waits past its predicted window, and biases
  the fallback by at most \<open>MAX_FALLBACK_BOUNDED_DELTA\<close>; prepared waits are \<open>ADMITTED\<close> and not yet executions;
  both buffers stay within their caps.\<close>

theorem wait_journal_invariant:
  assumes "wait_steps E new_wait_journal j"
  shows "length (wj_executions j) \<le> MAX_WAIT_EXECUTIONS \<and> length (wj_suppressions j) \<le> MAX_WAIT_SUPPRESSIONS
    \<and> distinct (map fst (wj_executions j))
    \<and> (\<forall>(k, e) \<in> set (wj_executions j). we_execution_id e = k
         \<and> (we_status e = ''ACTIVE'' \<longleftrightarrow> we_terminal_reason e = None)
         \<and> (we_status e \<noteq> ''ACTIVE'' \<longrightarrow> we_status e \<in> set TERMINAL_WAIT_STATUSES)
         \<and> (\<exists>w. int_of_flt (we_window_end e) = Inr w \<and> we_deadline_age_tick e \<le> w)
         \<and> bias_ok (we_fallback_bias e))
    \<and> (\<forall>(k, e) \<in> set (wj_prepared j). we_status e = ''ADMITTED'' \<and> get_execution j k = None)"
proof -
  have ok: "journal_ok j" using wait_steps_ok [OF assms new_journal_ok] .
  have "get_execution j k = None" if "(k, e) \<in> set (wj_prepared j)" for k e
  proof -
    have p: "map_of (wj_prepared j) k = Some e" using ok that by (simp add: journal_ok_def map_of_is_SomeI)
    have apart: "keys_apart (wj_prepared j) (wj_executions j)" using ok by (simp add: journal_ok_def)
    show ?thesis unfolding get_execution_def by (rule keys_apart_simps(6) [OF apart p])
  qed
  moreover have "we_status e = ''ADMITTED''" if "(k, e) \<in> set (wj_prepared j)" for k e
    using ok that by (auto simp: journal_ok_def prepared_ok_def)
  moreover have "we_execution_id e = k \<and> (we_status e = ''ACTIVE'' \<longleftrightarrow> we_terminal_reason e = None)
      \<and> (we_status e \<noteq> ''ACTIVE'' \<longrightarrow> we_status e \<in> set TERMINAL_WAIT_STATUSES)
      \<and> (\<exists>w. int_of_flt (we_window_end e) = Inr w \<and> we_deadline_age_tick e \<le> w)
      \<and> bias_ok (we_fallback_bias e)" if "(k, e) \<in> set (wj_executions j)" for k e
  proof -
    have "execution_ok k e" using ok that by (auto simp: journal_ok_def)
    then show ?thesis using is_terminal_not_active(1) [of e]
      unfolding execution_ok_def is_terminal_def by metis
  qed
  moreover have "length (wj_executions j) \<le> MAX_WAIT_EXECUTIONS" "length (wj_suppressions j) \<le> MAX_WAIT_SUPPRESSIONS"
    "distinct (map fst (wj_executions j))"
    using ok by (simp_all add: journal_ok_def)
  ultimately show ?thesis by blast
qed

lemma wait_journal_invariant_witness:
  "length (wj_executions example_journal) \<le> MAX_WAIT_EXECUTIONS
    \<and> list_all (\<lambda>(k, e). we_execution_id e = k) (wj_executions example_journal)"
  unfolding list_all_iff using wait_journal_invariant [OF example_reachable] by fast

text \<open>A wait that has ended is final. Whatever is called afterwards, restarts and recovery included, its record
  (status, reason, deadline) stays the same.\<close>

theorem terminal_wait_final:
  assumes "wait_steps E new_wait_journal j" and "get_execution j i = Some e" and "is_terminal e"
    and "wait_steps E j j'"
  shows "get_execution j' i = Some e"
  using wait_steps_terminal [OF assms(4) wait_steps_ok [OF assms(1) new_journal_ok]] assms(2,3)
  by (simp add: get_execution_def)

definition ended_journal :: wait_journal where
  "ended_journal = snd (finalize ''w1'' ''EXPIRED'' None example_journal)"

lemma ended_reachable: "wait_steps plain_env new_wait_journal ended_journal"
  unfolding ended_journal_def by (rule wait_steps.extend [OF example_reachable wait_step.finish])

lemma ended_lookup:
  "get_execution ended_journal ''w1'' = Some (finalized ''EXPIRED'' None example_execution)"
  by (simp add: ended_journal_def example_journal_eq get_execution_def finalize_def is_terminal_def
      TERMINAL_WAIT_STATUSES_def record_suppression_def finalized_def example_execution_def Let_def)

lemma terminal_wait_final_witness:
  "get_execution (snd (finalize ''w1'' ''FAILED'' None ended_journal)) ''w1''
     = Some (finalized ''EXPIRED'' None example_execution)"
  by (rule terminal_wait_final [OF ended_reachable ended_lookup _ wait_steps.extend [OF wait_steps.start wait_step.finish]])
    (simp add: is_terminal_def finalized_def TERMINAL_WAIT_STATUSES_def)

text \<open>Ending a live wait suppresses re-entry for its recurrence and expectation version at every age below its
  deadline plus \<open>SUPPRESSION_DURATION_TICKS\<close>, and suppresses nothing else: two different pairs of recurrence and version
  never share a key, also when a recurrence id contains the separator.\<close>

theorem finalize_suppresses_exactly:
  assumes "get_execution j i = Some e" and "\<not> is_terminal e" and "st \<in> set TERMINAL_WAIT_STATUSES"
  shows "\<exists>e'. fst (finalize i st reason j) = Inr e' \<and> get_execution (snd (finalize i st reason j)) i = Some e'
      \<and> we_status e' = st
    \<and> (\<forall>age < we_deadline_age_tick e + SUPPRESSION_DURATION_TICKS.
         is_suppressed (snd (finalize i st reason j)) (we_recurrence_id e) (we_expectation_version e) age)
    \<and> (\<forall>r v age. (r, v) \<noteq> (we_recurrence_id e, we_expectation_version e) \<longrightarrow>
         is_suppressed (snd (finalize i st reason j)) r v age \<longrightarrow> is_suppressed j r v age)"
proof -
  let ?s = "suppression_for i st reason e"
  have fin: "finalize i st reason j = (Inr (finalized st reason e),
    j\<lparr>wj_executions := dput i (finalized st reason e) (wj_executions j),
      wj_suppressions := push_suppression ?s (wj_suppressions j)\<rparr>)"
    using assms by (intro finalize_live) (simp_all add: get_execution_def)
  have "is_suppressed (snd (finalize i st reason j)) (we_recurrence_id e) (we_expectation_version e) age"
    if "age < we_deadline_age_tick e + SUPPRESSION_DURATION_TICKS" for age
    unfolding suppressed_iff fin using push_suppression_mem [of ?s] that
    by (intro bexI [of _ ?s]) (simp_all add: suppression_for_def)
  moreover have "is_suppressed j r v age"
    if sup: "is_suppressed (snd (finalize i st reason j)) r v age"
      and ne: "(r, v) \<noteq> (we_recurrence_id e, we_expectation_version e)" for r v age
  proof -
    obtain s where s: "s \<in> set (push_suppression ?s (wj_suppressions j))"
      "wsp_anti_reentry_key s = anti_reentry_key r v" "age < wsp_suppressed_until_age_tick s"
      using sup by (auto simp: suppressed_iff fin)
    have "s \<noteq> ?s" using s(2) ne by (auto simp: suppression_for_def)
    then show ?thesis using s push_suppression_old by (auto simp: suppressed_iff)
  qed
  ultimately show ?thesis by (auto simp: fin get_execution_def finalized_def)
qed

lemma finalize_suppresses_exactly_witness:
  "is_suppressed (snd (finalize ''w1'' ''EXPIRED'' None example_journal)) ''rec:1'' 2 16"
proof -
  have "get_execution example_journal ''w1'' = Some example_execution" "\<not> is_terminal example_execution"
    by (simp_all add: example_journal_eq get_execution_def is_terminal_def example_execution_def
        TERMINAL_WAIT_STATUSES_def)
  from finalize_suppresses_exactly [OF this, of "''EXPIRED''" None]
  show ?thesis by (auto simp: TERMINAL_WAIT_STATUSES_def example_execution_def SUPPRESSION_DURATION_TICKS_def)
qed

text \<open>An observation ends a live wait exactly when it is on the organism lane, within the predicted window, and
  of the awaited recurrence, version, context and occurrence; in every other case the journal is untouched and the
  execution is returned as it is.\<close>

theorem occurrence_completes_iff:
  assumes "get_execution j i = Some e" and "\<not> is_terminal e"
  shows "(if lane = ORGANISM_OBSERVABLE \<and> we_recurrence_id e = r \<and> we_expectation_version e = v
        \<and> we_internal_context_key e = ctx \<and> we_expected_occurrence_id e = occ
        \<and> flt_le (we_window_start e) (exactly tick) \<and> flt_le (exactly tick) (we_window_end e)
      then \<exists>e'. fst (try_complete_with_occurrence i r v occ ctx tick lane j) = Inr (Some e')
             \<and> we_status e' = ''OCCURRENCE_OBSERVED''
             \<and> get_execution (snd (try_complete_with_occurrence i r v occ ctx tick lane j)) i = Some e'
      else try_complete_with_occurrence i r v occ ctx tick lane j = (Inr (Some e), j))"
proof -
  have st: "''OCCURRENCE_OBSERVED'' \<in> set TERMINAL_WAIT_STATUSES" by (simp add: TERMINAL_WAIT_STATUSES_def)
  have m: "map_of (wj_executions j) i = Some e" using assms(1) by (simp add: get_execution_def)
  show ?thesis
    using m assms(2) finalize_live [OF m assms(2) st, of "Some ''o_lane_occurrence_matched''"]
    by (simp add: try_complete_with_occurrence_def get_execution_def finalized_def)
qed

lemma occurrence_completes_iff_witness:
  "\<exists>e'. fst (try_complete_with_occurrence ''w1'' ''rec:1'' 2 ''occ'' ''ctx'' 6 ORGANISM_OBSERVABLE example_journal)
     = Inr (Some e') \<and> we_status e' = ''OCCURRENCE_OBSERVED''"
proof -
  have "get_execution example_journal ''w1'' = Some example_execution" "\<not> is_terminal example_execution"
    by (simp_all add: example_journal_eq get_execution_def is_terminal_def example_execution_def
        TERMINAL_WAIT_STATUSES_def)
  from occurrence_completes_iff [OF this, of ORGANISM_OBSERVABLE "''rec:1''" 2 "''ctx''" "''occ''" 6]
  show ?thesis by (auto simp: example_execution_def exactly_def)
qed

text \<open>A restart keeps every execution and every suppression of a reachable journal, in the order of the ids;
  prepared waits, which are not stored, are dropped.\<close>

theorem journal_restart:
  assumes "wait_steps E new_wait_journal j"
  shows "\<exists>j'. journal_from_state (journal_to_state j) = Inr j'
    \<and> (\<forall>i. get_execution j' i = get_execution j i)
    \<and> (\<forall>r v age. is_suppressed j' r v age = is_suppressed j r v age)
    \<and> wj_prepared j' = [] \<and> sorted (map fst (wj_executions j'))"
proof -
  have ok: "journal_ok j" using wait_steps_ok [OF assms new_journal_ok] .
  then have "dwf (wj_executions j)" by (simp add: journal_ok_def)
  then show ?thesis
    by (simp add: restart_eq [OF ok] get_execution_def sorted_items_lookup is_suppressed_def sorted_items_sorted)
qed

lemma journal_restart_witness:
  "\<exists>j'. journal_from_state (journal_to_state ended_journal) = Inr j'
     \<and> (\<forall>r v age. is_suppressed j' r v age = is_suppressed ended_journal r v age)"
  using journal_restart [OF ended_reachable] by blast

text \<open>C4: ended executions are never evicted, so once \<open>MAX_WAIT_EXECUTIONS\<close> waits have been admitted every later
  attempt to admit a prepared wait is refused, restarts included.\<close>

theorem execution_cap_is_permanent:
  assumes "wait_steps E new_wait_journal j" and "length (wj_executions j) = MAX_WAIT_EXECUTIONS"
    and "wait_steps E j j'" and "map_of (wj_prepared j') i = Some p"
  shows "fst (admit_prepared i j') = Inl (WaitExecutionError ''wait_execution_cap_exceeded'')
    \<and> wj_executions (snd (admit_prepared i j')) = wj_executions j'"
proof -
  have "MAX_WAIT_EXECUTIONS \<le> length (wj_executions j')"
    using wait_steps_admitted [OF assms(3) wait_steps_ok [OF assms(1) new_journal_ok]] assms(2) by simp
  then show ?thesis using assms(4) by (simp add: admit_prepared_def Let_def)
qed

definition admit_one :: "nat \<Rightarrow> wait_journal \<Rightarrow> wait_journal" where
  "admit_one n j = snd (admit_prepared (nat_str n)
     (snd (prepare_wait plain_env (nat_str n) ''r'' 0 (Fin 0) (Fin 0) 0 0 [] None [] [] None j)))"

lemma admit_one_steps: "wait_steps E j j' \<Longrightarrow> E = plain_env \<Longrightarrow> wait_steps E j (admit_one n j')"
  unfolding admit_one_def
  by (simp, rule wait_steps.extend [OF wait_steps.extend [OF _ wait_step.prepare] wait_step.admit])

definition full_journal :: "nat \<Rightarrow> wait_journal" where
  "full_journal n = fold admit_one [0..<n] new_wait_journal"

lemma full_journal_Suc: "full_journal (Suc n) = admit_one n (full_journal n)"
  by (simp add: full_journal_def)

lemma full_reachable: "wait_steps plain_env new_wait_journal (full_journal n)"
proof (induction n)
  case 0
  then show ?case by (simp add: full_journal_def wait_steps.start)
next
  case (Suc n)
  then show ?case by (simp add: full_journal_Suc admit_one_steps)
qed

lemma full_keys: "n \<le> MAX_WAIT_EXECUTIONS \<Longrightarrow>
    map fst (wj_executions (full_journal n)) = map nat_str [0..<n] \<and> wj_prepared (full_journal n) = []"
proof (induction n)
  case 0
  then show ?case by (simp add: full_journal_def new_wait_journal_def)
next
  case (Suc n)
  then have keys: "map fst (wj_executions (full_journal n)) = map nat_str [0..<n]" "wj_prepared (full_journal n) = []"
    by auto
  have len: "length (wj_executions (full_journal n)) = n"
    using arg_cong [OF keys(1), of length] by simp
  have "nat_str n \<notin> set (map fst (wj_executions (full_journal n)))"
    unfolding keys(1) by (auto dest: nat_str_inj)
  then have "map_of (wj_executions (full_journal n)) (nat_str n) = None"
    by (simp only: map_of_eq_None_iff set_map)  simp
  then show ?case
    using keys len Suc.prems
    by (simp add: full_journal_Suc admit_one_def prepare_wait_def admit_prepared_def wait_deadline_age_tick_def
        Let_def dput_new)
qed

lemma execution_cap_is_permanent_witness:
  "\<exists>j. wait_steps plain_env new_wait_journal j
    \<and> fst (admit_prepared ''next'' j) = Inl (WaitExecutionError ''wait_execution_cap_exceeded'')"
proof -
  let ?j = "full_journal MAX_WAIT_EXECUTIONS"
  let ?j' = "snd (prepare_wait plain_env ''next'' ''r'' 0 (Fin 0) (Fin 0) 0 0 [] None [] [] None ?j)"
  have keys: "map fst (wj_executions ?j) = map nat_str [0..<MAX_WAIT_EXECUTIONS]"
    using full_keys [of MAX_WAIT_EXECUTIONS] by simp
  have len: "length (wj_executions ?j) = MAX_WAIT_EXECUTIONS" using arg_cong [OF keys, of length] by simp
  have "''next'' \<noteq> nat_str n" for n
  proof
    assume "''next'' = nat_str n"
    then have "CHR ''n'' \<in> set (nat_str n)" by (metis list.set_intros(1))
    from nat_str_chars [OF this] show False by simp
  qed
  then have "''next'' \<notin> set (map fst (wj_executions ?j))" unfolding keys by auto
  then have "map_of (wj_executions ?j) ''next'' = None" by (simp only: map_of_eq_None_iff set_map) simp
  then have prep: "\<exists>p. map_of (wj_prepared ?j') ''next'' = Some p"
    by (simp add: prepare_wait_def wait_deadline_age_tick_def Let_def)
  have step: "wait_steps plain_env ?j ?j'" by (rule wait_steps.extend [OF wait_steps.start wait_step.prepare])
  have "wait_steps plain_env new_wait_journal ?j'"
    by (rule wait_steps.extend [OF full_reachable wait_step.prepare])
  moreover have "fst (admit_prepared ''next'' ?j') = Inl (WaitExecutionError ''wait_execution_cap_exceeded'')"
    using execution_cap_is_permanent [OF full_reachable len step] prep by blast
  ultimately show ?thesis by blast
qed

end
