(* ===== verification/TemporalState.thy ===== *)
theory TemporalState
  imports WaitJournal
begin

text \<open>
  \<open>temporal/observations.py\<close> (plans, window evidence and the bounded summary of identities already seen),
  \<open>temporal/state.py\<close> (the temporal state, its time anchor and their hashes), \<open>temporal/clock.py\<close> and
  \<open>temporal/migration.py\<close> (the genesis state).

  A frozen dataclass is a record; \<open>canonical_serialize\<close> of one is the dictionary of its fields, here
  \<open>anchor_to_pyv\<close>, \<open>temporal_state_to_pyv\<close> and so on.
\<close>

section \<open>Observation plans and evidence\<close>

definition MIN_OBSERVATION_COVERAGE_FRACTION :: flt where
  "MIN_OBSERVATION_COVERAGE_FRACTION = flit 75 100"

definition MIN_OBSERVABILITY_QUALITY :: flt where
  "MIN_OBSERVABILITY_QUALITY = flit 5 10"

definition MAX_RECENT_EVIDENCE_IDENTITIES :: nat where
  "MAX_RECENT_EVIDENCE_IDENTITIES = 32"

definition MAX_RETAINED_OCCURRENCE_IDENTITIES :: nat where
  "MAX_RETAINED_OCCURRENCE_IDENTITIES = 32"

definition MAX_COMPACTED_IDENTITIES :: nat where
  "MAX_COMPACTED_IDENTITIES = 128"

datatype commit_mode = IN_TICK | POST_HOC

record hypothesis_delta =
  hd_event_kind :: string
  hd_internal_context_key :: string
  hd_occurrence_id :: string
  hd_evidence_identity :: string
  hd_tick :: int
  hd_lane :: string
  hd_context_schema_version :: string

record temporal_observation_plan =
  op_observation_plan_id :: string
  op_commit_mode :: commit_mode
  op_expected_temporal_state_version :: int
  op_expected_temporal_state_hash :: string
  op_source_transaction_id :: "string option"
  op_source_event_id :: "string option"
  op_source_event_hash :: "string option"
  op_committed_advance_id :: "string option"
  op_committed_age_ticks :: "int option"
  op_committed_temporal_state_version :: "int option"
  op_occurrence_id :: string
  op_evidence_identities :: "string list"
  op_hypothesis_deltas :: "hypothesis_delta list"
  op_temporal_events :: "pyv list"

record observation_window_evidence =
  ow_recurrence_id :: string
  ow_expectation_version :: int
  ow_window_start :: flt
  ow_window_end :: flt
  ow_coverage_start :: flt
  ow_coverage_end :: flt
  ow_observability_quality :: flt
  ow_supporting_observation_refs :: "string list"
  ow_matched_occurrence_id :: "string option"
  ow_downtime_or_conservative_recovery :: bool

record dedup_summary =
  dd_recent_evidence_identities :: "string list"
  dd_retained_occurrence_identities :: "string list"
  dd_compacted_identities :: "string list"
  dd_compacted_identity_digest :: string

definition dedup_to_dict :: "dedup_summary \<Rightarrow> pyv" where
  "dedup_to_dict s = VDict
     [(''recent_evidence_identities'', v_strs (dd_recent_evidence_identities s)),
      (''retained_occurrence_identities'', v_strs (dd_retained_occurrence_identities s)),
      (''compacted_identities'', v_strs (dd_compacted_identities s)),
      (''compacted_identity_digest'', VStr (dd_compacted_identity_digest s))]"

definition empty_dedup_summary :: dedup_summary where
  "empty_dedup_summary = \<lparr>dd_recent_evidence_identities = [], dd_retained_occurrence_identities = [],
     dd_compacted_identities = [], dd_compacted_identity_digest = []\<rparr>"

definition dedup_from_dict :: "pyv \<Rightarrow> dedup_summary res" where
  "dedup_from_dict data =
     (if \<not> truthy data then Inr empty_dedup_summary
      else
        andThen (fld_or data ''recent_evidence_identities'' VNone
          (\<lambda>v. tuple_of as_str (or_else v (VList [])))) (\<lambda>recent.
        andThen (fld_or data ''retained_occurrence_identities'' VNone
          (\<lambda>v. tuple_of as_str (or_else v (VList [])))) (\<lambda>retained.
        andThen (fld_or data ''compacted_identities'' VNone
          (\<lambda>v. tuple_of as_str (or_else v (VList [])))) (\<lambda>compacted.
        andThen (fld_or data ''compacted_identity_digest'' (VStr []) as_str) (\<lambda>dig.
        Inr \<lparr>dd_recent_evidence_identities = recent, dd_retained_occurrence_identities = retained,
          dd_compacted_identities = compacted, dd_compacted_identity_digest = dig\<rparr>)))))"

definition compute_compacted_digest :: "hash_env \<Rightarrow> string list \<Rightarrow> string" where
  "compute_compacted_digest E identities =
     (if identities = [] then [] else hash_canonical E (v_strs (sort identities)))"

definition identity_seen :: "dedup_summary \<Rightarrow> string option \<Rightarrow> string option \<Rightarrow> bool" where
  "identity_seen s evidence_identity occurrence_id =
     ((case evidence_identity of None \<Rightarrow> False
       | Some e \<Rightarrow> e \<in> set (dd_recent_evidence_identities s) \<or> e \<in> set (dd_compacted_identities s))
      \<or> (case occurrence_id of None \<Rightarrow> False
       | Some i \<Rightarrow> i \<in> set (dd_retained_occurrence_identities s) \<or> i \<in> set (dd_compacted_identities s)))"

text \<open>One round of either registration loop, on the window it fills and the compacted identities.\<close>

definition register_identity ::
  "nat \<Rightarrow> string list \<times> string list \<Rightarrow> string \<Rightarrow> (string list \<times> string list) res" where
  "register_identity limit st identity =
     (case st of (window, compacted) \<Rightarrow>
        if identity \<in> set window \<or> identity \<in> set compacted then Inr (window, compacted)
        else if limit \<le> length window then
          let evicted = hd window; window' = tl window
          in if evicted \<notin> set compacted then
               if MAX_COMPACTED_IDENTITIES \<le> length compacted
               then Inl (ValueError ''dedup_compaction_overflow'')
               else Inr (window' @ [identity], compacted @ [evicted])
             else Inr (window' @ [identity], compacted)
        else Inr (window @ [identity], compacted))"

definition register_identities ::
  "hash_env \<Rightarrow> dedup_summary \<Rightarrow> string list \<Rightarrow> string list \<Rightarrow> dedup_summary res" where
  "register_identities E s evidence_identities occurrence_ids =
     andThen (foldE (register_identity MAX_RECENT_EVIDENCE_IDENTITIES)
         (dd_recent_evidence_identities s, dd_compacted_identities s) evidence_identities)
       (\<lambda>(recent, compacted1).
     andThen (foldE (register_identity MAX_RETAINED_OCCURRENCE_IDENTITIES)
         (dd_retained_occurrence_identities s, compacted1) occurrence_ids)
       (\<lambda>(retained, compacted).
     Inr \<lparr>dd_recent_evidence_identities = recent, dd_retained_occurrence_identities = retained,
       dd_compacted_identities = compacted,
       dd_compacted_identity_digest = compute_compacted_digest E compacted\<rparr>))"

definition observation_miss_key :: "hash_env \<Rightarrow> string \<Rightarrow> int \<Rightarrow> flt \<Rightarrow> flt \<Rightarrow> string" where
  "observation_miss_key E recurrence_id expectation_version window_start window_end =
     hash_canonical E (VDict
       [(''recurrence_id'', VStr recurrence_id),
        (''expectation_version'', VInt expectation_version),
        (''window_start'', VFlt window_start),
        (''window_end'', VFlt window_end)])"

definition window_coverage_fraction :: "observation_window_evidence \<Rightarrow> flt" where
  "window_coverage_fraction e =
     (let window_span = flt_sub (ow_window_end e) (ow_window_start e)
      in if flt_le window_span (Fin 0) then Fin 0
         else let covered = py_max (Fin 0)
                (flt_sub (py_min (ow_coverage_end e) (ow_window_end e))
                         (py_max (ow_coverage_start e) (ow_window_start e)))
              in flt_div covered window_span)"

definition miss_eligible :: "observation_window_evidence \<Rightarrow> int \<Rightarrow> bool" where
  "miss_eligible e current_expectation_version =
     (if ow_downtime_or_conservative_recovery e then False
      else if ow_matched_occurrence_id e \<noteq> None then False
      else if ow_expectation_version e \<noteq> current_expectation_version then False
      else if flt_lt (ow_observability_quality e) MIN_OBSERVABILITY_QUALITY then False
      else if flt_lt (window_coverage_fraction e) MIN_OBSERVATION_COVERAGE_FRACTION then False
      else True)"

definition new_observation_plan_id :: "string \<Rightarrow> string" where
  "new_observation_plan_id fresh = ''obs-plan:'' @ fresh"

section \<open>Anchor and state\<close>

definition TEMPORAL_SCHEMA_VERSION :: string where
  "TEMPORAL_SCHEMA_VERSION = ''d010.temporal-state.v1''"

definition GENESIS_ADVANCE_ID :: string where
  "GENESIS_ADVANCE_ID = ''advance:genesis''"

datatype anchor_trust_class = TRUSTED_SHORT | TC_UNCERTAIN | EXCESSIVE | MISSING_WALL

fun trust_value :: "anchor_trust_class \<Rightarrow> string" where
  "trust_value TRUSTED_SHORT = ''TRUSTED_SHORT''"
| "trust_value TC_UNCERTAIN = ''UNCERTAIN''"
| "trust_value EXCESSIVE = ''EXCESSIVE''"
| "trust_value MISSING_WALL = ''MISSING_WALL''"

definition trust_of :: "string \<Rightarrow> anchor_trust_class res" where
  "trust_of s =
     (if s = ''TRUSTED_SHORT'' then Inr TRUSTED_SHORT
      else if s = ''UNCERTAIN'' then Inr TC_UNCERTAIN
      else if s = ''EXCESSIVE'' then Inr EXCESSIVE
      else if s = ''MISSING_WALL'' then Inr MISSING_WALL
      else Inl (ValueError ''not_a_valid_AnchorTrustClass''))"

lemma trust_of_value [simp]: "trust_of (trust_value c) = Inr c"
  by (cases c) (simp_all add: trust_of_def)

record wall_clock_mapping =
  wm_schema_version :: string
  wm_session_id :: string
  wm_monotonic_ns_at_mapping :: int
  wm_wall_time_seconds :: "flt option"
  wm_wall_time_source :: "string option"
  wm_uncertainty :: flt

record time_anchor =
  ta_organism_age_ticks :: int
  ta_organism_active_ticks :: int
  ta_state_version :: int
  ta_state_hash :: string
  ta_wall_time :: "flt option"
  ta_wall_time_source :: "string option"
  ta_wall_time_uncertainty :: flt
  ta_session_id_at_commit :: string
  ta_advance_id :: string
  ta_anchor_trust_class :: anchor_trust_class
  ta_trust_reason_codes :: "string list"
  ta_eligible_as_downtime_baseline :: bool
  ta_source_sample_hash :: string

record temporal_state =
  ts_schema_version :: string
  ts_temporal_epoch_id :: string
  ts_initialized_from_commit :: string
  ts_pre_temporal_history_ref :: string
  ts_organism_age_ticks :: int
  ts_organism_active_ticks :: int
  ts_last_committed_orchestration_sequence :: int
  ts_last_advance_id :: string
  ts_last_time_anchor :: time_anchor
  ts_wall_clock_mapping :: "wall_clock_mapping option"
  ts_clock_uncertainty :: flt
  ts_recurrence_index :: "pyv dict"
  ts_dedup_summary :: dedup_summary
  ts_observation_miss_keys :: "string list"
  ts_state_version :: int
  ts_definition_hash :: string
  ts_state_hash :: string

definition mapping_to_pyv :: "wall_clock_mapping \<Rightarrow> pyv" where
  "mapping_to_pyv m = VDict
     [(''schema_version'', VStr (wm_schema_version m)),
      (''session_id'', VStr (wm_session_id m)),
      (''monotonic_ns_at_mapping'', VInt (wm_monotonic_ns_at_mapping m)),
      (''wall_time_seconds'', v_opt VFlt (wm_wall_time_seconds m)),
      (''wall_time_source'', v_opt VStr (wm_wall_time_source m)),
      (''uncertainty'', VFlt (wm_uncertainty m))]"

definition anchor_to_pyv :: "time_anchor \<Rightarrow> pyv" where
  "anchor_to_pyv a = VDict
     [(''organism_age_ticks'', VInt (ta_organism_age_ticks a)),
      (''organism_active_ticks'', VInt (ta_organism_active_ticks a)),
      (''state_version'', VInt (ta_state_version a)),
      (''state_hash'', VStr (ta_state_hash a)),
      (''wall_time'', v_opt VFlt (ta_wall_time a)),
      (''wall_time_source'', v_opt VStr (ta_wall_time_source a)),
      (''wall_time_uncertainty'', VFlt (ta_wall_time_uncertainty a)),
      (''session_id_at_commit'', VStr (ta_session_id_at_commit a)),
      (''advance_id'', VStr (ta_advance_id a)),
      (''anchor_trust_class'', VStr (trust_value (ta_anchor_trust_class a))),
      (''trust_reason_codes'', v_strs (ta_trust_reason_codes a)),
      (''eligible_as_downtime_baseline'', VBool (ta_eligible_as_downtime_baseline a)),
      (''source_sample_hash'', VStr (ta_source_sample_hash a))]"

definition index_to_pyv :: "pyv dict \<Rightarrow> pyv" where
  "index_to_pyv idx = VList (map (\<lambda>(key, payload). VList [VStr key, payload]) idx)"

definition temporal_state_to_pyv :: "temporal_state \<Rightarrow> pyv" where
  "temporal_state_to_pyv s = VDict
     [(''schema_version'', VStr (ts_schema_version s)),
      (''temporal_epoch_id'', VStr (ts_temporal_epoch_id s)),
      (''initialized_from_commit'', VStr (ts_initialized_from_commit s)),
      (''pre_temporal_history_ref'', VStr (ts_pre_temporal_history_ref s)),
      (''organism_age_ticks'', VInt (ts_organism_age_ticks s)),
      (''organism_active_ticks'', VInt (ts_organism_active_ticks s)),
      (''last_committed_orchestration_sequence'', VInt (ts_last_committed_orchestration_sequence s)),
      (''last_advance_id'', VStr (ts_last_advance_id s)),
      (''last_time_anchor'', anchor_to_pyv (ts_last_time_anchor s)),
      (''wall_clock_mapping'', v_opt mapping_to_pyv (ts_wall_clock_mapping s)),
      (''clock_uncertainty'', VFlt (ts_clock_uncertainty s)),
      (''recurrence_index'', index_to_pyv (ts_recurrence_index s)),
      (''dedup_summary'', dedup_to_dict (ts_dedup_summary s)),
      (''observation_miss_keys'', v_strs (ts_observation_miss_keys s)),
      (''state_version'', VInt (ts_state_version s)),
      (''definition_hash'', VStr (ts_definition_hash s)),
      (''state_hash'', VStr (ts_state_hash s))]"

text \<open>\<open>payload.pop(k, None)\<close> on a copied dictionary.\<close>

fun pop_key :: "string \<Rightarrow> pyv \<Rightarrow> pyv" where
  "pop_key k (VDict d) = VDict (dpop k d)"
| "pop_key k v = v"

definition compute_definition_hash :: "hash_env \<Rightarrow> temporal_state \<Rightarrow> string" where
  "compute_definition_hash E s = hash_canonical E (VDict
     [(''schema_version'', VStr (ts_schema_version s)),
      (''temporal_epoch_id'', VStr (ts_temporal_epoch_id s)),
      (''initialized_from_commit'', VStr (ts_initialized_from_commit s)),
      (''pre_temporal_history_ref'', VStr (ts_pre_temporal_history_ref s))])"

definition state_body :: "temporal_state \<Rightarrow> pyv" where
  "state_body s = pop_key ''state_hash'' (canonical (temporal_state_to_pyv s))"

definition compute_state_hash :: "hash_env \<Rightarrow> temporal_state \<Rightarrow> string" where
  "compute_state_hash E s = hash_canonical E (state_body s)"

definition anchor_body :: "time_anchor \<Rightarrow> pyv" where
  "anchor_body a = pop_key ''state_hash'' (canonical (anchor_to_pyv a))"

definition compute_anchor_state_hash :: "hash_env \<Rightarrow> time_anchor \<Rightarrow> string" where
  "compute_anchor_state_hash E a = hash_canonical E (anchor_body a)"

definition with_state_hash :: "hash_env \<Rightarrow> temporal_state \<Rightarrow> temporal_state" where
  "with_state_hash E s =
     (let base = s\<lparr>ts_state_hash := []\<rparr> in base\<lparr>ts_state_hash := compute_state_hash E base\<rparr>)"

definition with_anchor_state_hash :: "hash_env \<Rightarrow> time_anchor \<Rightarrow> time_anchor" where
  "with_anchor_state_hash E a =
     (let base = a\<lparr>ta_state_hash := []\<rparr> in base\<lparr>ta_state_hash := compute_anchor_state_hash E base\<rparr>)"

definition assert_age_never_decreases :: "int \<Rightarrow> int \<Rightarrow> unit res" where
  "assert_age_never_decreases prior_age_ticks new_age_ticks =
     (if new_age_ticks < prior_age_ticks
      then Inl (ValueError (''organism_age_ticks_decreased:'' @ int_str prior_age_ticks @ ''->''
             @ int_str new_age_ticks))
      else Inr ())"

section \<open>Clock samples and the genesis state\<close>

record trusted_sample =
  sm_session_id :: string
  sm_monotonic_ns :: int
  sm_optional_wall_time :: "flt option"
  sm_wall_time_source :: "string option"
  sm_wall_time_uncertainty :: flt
  sm_sample_sequence :: int

definition sample_to_pyv :: "trusted_sample \<Rightarrow> pyv" where
  "sample_to_pyv s = VDict
     [(''session_id'', VStr (sm_session_id s)),
      (''monotonic_ns'', VInt (sm_monotonic_ns s)),
      (''optional_wall_time'', v_opt VFlt (sm_optional_wall_time s)),
      (''wall_time_source'', v_opt VStr (sm_wall_time_source s)),
      (''wall_time_uncertainty'', VFlt (sm_wall_time_uncertainty s)),
      (''sample_sequence'', VInt (sm_sample_sequence s))]"

definition compute_sample_hash :: "hash_env \<Rightarrow> trusted_sample \<Rightarrow> string" where
  "compute_sample_hash E s = hash_canonical E (canonical (sample_to_pyv s))"

record temporal_migration_context =
  tm_migration_id :: string
  tm_source_commit :: string
  tm_source_seal :: string
  tm_pre_temporal_history_ref :: string
  tm_genesis_session_id :: string
  tm_genesis_monotonic_ns :: int
  tm_genesis_sample_sequence :: int

definition temporal_epoch_id :: "hash_env \<Rightarrow> temporal_migration_context \<Rightarrow> string" where
  "temporal_epoch_id E ctx =
     (let material = tm_migration_id ctx @ ''|'' @ tm_source_commit ctx @ ''|'' @ tm_source_seal ctx
            @ ''|'' @ tm_pre_temporal_history_ref ctx
      in ''epoch:'' @ take 16 (sha256_hex E material))"

definition initialize_temporal_epoch ::
  "hash_env \<Rightarrow> temporal_state option \<Rightarrow> temporal_migration_context \<Rightarrow> temporal_state" where
  "initialize_temporal_epoch E existing ctx =
     (case existing of Some s \<Rightarrow> s
      | None \<Rightarrow>
        let genesis_sample = \<lparr>sm_session_id = tm_genesis_session_id ctx,
              sm_monotonic_ns = tm_genesis_monotonic_ns ctx, sm_optional_wall_time = None,
              sm_wall_time_source = None, sm_wall_time_uncertainty = Fin 0,
              sm_sample_sequence = tm_genesis_sample_sequence ctx\<rparr>;
            sample_hash = compute_sample_hash E genesis_sample;
            anchor = with_anchor_state_hash E \<lparr>ta_organism_age_ticks = 0, ta_organism_active_ticks = 0,
              ta_state_version = 0, ta_state_hash = [], ta_wall_time = None, ta_wall_time_source = None,
              ta_wall_time_uncertainty = Fin 0, ta_session_id_at_commit = tm_genesis_session_id ctx,
              ta_advance_id = GENESIS_ADVANCE_ID, ta_anchor_trust_class = MISSING_WALL,
              ta_trust_reason_codes = [''genesis_no_wall_sample''],
              ta_eligible_as_downtime_baseline = False, ta_source_sample_hash = sample_hash\<rparr>;
            base = \<lparr>ts_schema_version = TEMPORAL_SCHEMA_VERSION,
              ts_temporal_epoch_id = temporal_epoch_id E ctx,
              ts_initialized_from_commit = tm_source_commit ctx,
              ts_pre_temporal_history_ref = tm_pre_temporal_history_ref ctx,
              ts_organism_age_ticks = 0, ts_organism_active_ticks = 0,
              ts_last_committed_orchestration_sequence = 0, ts_last_advance_id = GENESIS_ADVANCE_ID,
              ts_last_time_anchor = anchor, ts_wall_clock_mapping = None, ts_clock_uncertainty = Fin 0,
              ts_recurrence_index = [], ts_dedup_summary = empty_dedup_summary,
              ts_observation_miss_keys = [], ts_state_version = 0, ts_definition_hash = [],
              ts_state_hash = []\<rparr>;
            with_definition = base\<lparr>ts_definition_hash := compute_definition_hash E base\<rparr>
        in with_state_hash E with_definition)"

definition sample_temporal_state :: "hash_env \<Rightarrow> temporal_state" where
  "sample_temporal_state E = initialize_temporal_epoch E None
     \<lparr>tm_migration_id = ''d010.genesis.v1'', tm_source_commit = ''af35371'',
      tm_source_seal = ''UMBRA_D009_PERSISTENT_HABITAT_AGENCY_QUALIFIED'',
      tm_pre_temporal_history_ref = ''event-log:pre-d010'', tm_genesis_session_id = ''session:genesis'',
      tm_genesis_monotonic_ns = 1000000, tm_genesis_sample_sequence = 0\<rparr>"

section \<open>Lemmas\<close>

lemma state_body_hash [simp]: "state_body (s\<lparr>ts_state_hash := h\<rparr>) = state_body s"
  by (simp add: state_body_def temporal_state_to_pyv_def sorted_items_def)

lemma anchor_body_hash [simp]: "anchor_body (a\<lparr>ta_state_hash := h\<rparr>) = anchor_body a"
  by (simp add: anchor_body_def anchor_to_pyv_def sorted_items_def)

interpretation state_seal: sealed_record "with_state_hash E" state_body ts_state_hash "hash_canonical E" for E
  by unfold_locales (simp_all add: with_state_hash_def compute_state_hash_def)

interpretation anchor_seal: sealed_record "with_anchor_state_hash E" anchor_body ta_state_hash "hash_canonical E" for E
  by unfold_locales (simp_all add: with_anchor_state_hash_def compute_anchor_state_hash_def)

definition dedup_ok :: "dedup_summary \<Rightarrow> bool" where
  "dedup_ok s \<longleftrightarrow>
     length (dd_recent_evidence_identities s) \<le> MAX_RECENT_EVIDENCE_IDENTITIES
     \<and> length (dd_retained_occurrence_identities s) \<le> MAX_RETAINED_OCCURRENCE_IDENTITIES
     \<and> length (dd_compacted_identities s) \<le> MAX_COMPACTED_IDENTITIES
     \<and> distinct (dd_recent_evidence_identities s) \<and> distinct (dd_retained_occurrence_identities s)
     \<and> distinct (dd_compacted_identities s)"

text \<open>What one registration keeps: nothing known is lost, only the new identity is added, no duplicates, and
  neither list outgrows its limit.\<close>

definition registered :: "nat \<Rightarrow> string set \<Rightarrow> string list \<times> string list \<Rightarrow> string list \<times> string list \<Rightarrow> bool" where
  "registered limit new st st' \<longleftrightarrow>
     set (fst st') \<union> set (snd st') = new \<union> set (fst st) \<union> set (snd st)
     \<and> set (snd st) \<subseteq> set (snd st') \<and> set (snd st') \<subseteq> set (snd st) \<union> set (fst st) \<union> new
     \<and> (length (fst st) \<le> limit \<longrightarrow> length (fst st') \<le> limit)
     \<and> (length (snd st) \<le> MAX_COMPACTED_IDENTITIES \<longrightarrow> length (snd st') \<le> MAX_COMPACTED_IDENTITIES)
     \<and> (distinct (fst st) \<longrightarrow> distinct (fst st')) \<and> (distinct (snd st) \<longrightarrow> distinct (snd st'))"

lemma registered_refl: "registered limit {} st st"
  by (simp add: registered_def)

lemma registered_trans:
  "registered limit A s t \<Longrightarrow> registered limit B t u \<Longrightarrow> registered limit (A \<union> B) s u"
  unfolding registered_def by blast

lemma register_identity_registered:
  assumes "register_identity limit st x = Inr st'" and "0 < limit"
  shows "registered limit {x} st st'"
proof -
  obtain w c where st: "st = (w, c)" by (cases st)
  show ?thesis
  proof (cases "x \<in> set w \<or> x \<in> set c")
    case True
    then show ?thesis using assms st by (auto simp: register_identity_def registered_def)
  next
    case fresh: False
    show ?thesis
    proof (cases "limit \<le> length w")
      case True
      then obtain v vs where w: "w = v # vs" using assms(2) by (cases w) auto
      then show ?thesis
        using assms st fresh True by (auto simp: register_identity_def registered_def split: if_splits)
    next
      case False
      then show ?thesis using assms st fresh by (auto simp: register_identity_def registered_def)
    qed
  qed
qed

lemma register_all:
  "foldE (register_identity limit) st xs = Inr st' \<Longrightarrow> 0 < limit \<Longrightarrow> registered limit (set xs) st st'"
proof (induction xs arbitrary: st)
  case Nil
  then show ?case by (simp add: registered_refl)
next
  case (Cons x xs)
  then obtain t where "register_identity limit st x = Inr t" "foldE (register_identity limit) t xs = Inr st'"
    by (auto simp: andThen_eq_Inr)
  then have "registered limit {x} st t" "registered limit (set xs) t st'"
    using Cons register_identity_registered by blast+
  from registered_trans [OF this] show ?case by simp
qed

lemma dedup_roundtrip [simp]: "dedup_from_dict (dedup_to_dict s) = Inr s"
  by (simp add: dedup_from_dict_def dedup_to_dict_def or_else_list)

lemma empty_dedup_ok: "dedup_ok empty_dedup_summary"
  by (simp add: dedup_ok_def empty_dedup_summary_def)

lemma register_identities_cases:
  assumes "register_identities E s evs occs = Inr s'"
  obtains c where
    "registered MAX_RECENT_EVIDENCE_IDENTITIES (set evs)
       (dd_recent_evidence_identities s, dd_compacted_identities s) (dd_recent_evidence_identities s', c)"
    "registered MAX_RETAINED_OCCURRENCE_IDENTITIES (set occs)
       (dd_retained_occurrence_identities s, c) (dd_retained_occurrence_identities s', dd_compacted_identities s')"
    "dd_compacted_identity_digest s' = compute_compacted_digest E (dd_compacted_identities s')"
proof -
  obtain r c t d where
    1: "foldE (register_identity MAX_RECENT_EVIDENCE_IDENTITIES)
         (dd_recent_evidence_identities s, dd_compacted_identities s) evs = Inr (r, c)"
    and 2: "foldE (register_identity MAX_RETAINED_OCCURRENCE_IDENTITIES)
         (dd_retained_occurrence_identities s, c) occs = Inr (t, d)"
    and s': "s' = \<lparr>dd_recent_evidence_identities = r, dd_retained_occurrence_identities = t,
       dd_compacted_identities = d, dd_compacted_identity_digest = compute_compacted_digest E d\<rparr>"
    using assms by (auto simp: register_identities_def andThen_eq_Inr)
  show ?thesis
    using that register_all [OF 1] register_all [OF 2] s'
    by (simp add: MAX_RECENT_EVIDENCE_IDENTITIES_def MAX_RETAINED_OCCURRENCE_IDENTITIES_def)
qed

lemma identity_seen_iff:
  "identity_seen t (Some e) None \<longleftrightarrow>
     e \<in> set (dd_recent_evidence_identities t) \<union> set (dd_compacted_identities t)"
  "identity_seen t None (Some i) \<longleftrightarrow>
     i \<in> set (dd_retained_occurrence_identities t) \<union> set (dd_compacted_identities t)"
  "identity_seen t (Some e) (Some i) \<longleftrightarrow>
     e \<in> set (dd_recent_evidence_identities t) \<union> set (dd_compacted_identities t)
     \<or> i \<in> set (dd_retained_occurrence_identities t) \<union> set (dd_compacted_identities t)"
  by (auto simp: identity_seen_def)

lemma register_identities_keep:
  assumes "register_identities E s evs occs = Inr s'"
  shows "dedup_ok s \<Longrightarrow> dedup_ok s'"
    and "identity_seen s (Some e) None \<or> e \<in> set evs \<Longrightarrow> identity_seen s' (Some e) None"
    and "identity_seen s None (Some i) \<or> i \<in> set occs \<Longrightarrow> identity_seen s' None (Some i)"
proof -
  obtain c where 1:
    "registered MAX_RECENT_EVIDENCE_IDENTITIES (set evs)
       (dd_recent_evidence_identities s, dd_compacted_identities s) (dd_recent_evidence_identities s', c)"
    "registered MAX_RETAINED_OCCURRENCE_IDENTITIES (set occs)
       (dd_retained_occurrence_identities s, c) (dd_retained_occurrence_identities s', dd_compacted_identities s')"
    using assms by (rule register_identities_cases)
  show "dedup_ok s \<Longrightarrow> dedup_ok s'"
    using 1 unfolding registered_def dedup_ok_def by simp
  show "identity_seen s (Some e) None \<or> e \<in> set evs \<Longrightarrow> identity_seen s' (Some e) None"
    using 1 unfolding registered_def identity_seen_iff fst_conv snd_conv by blast
  show "identity_seen s None (Some i) \<or> i \<in> set occs \<Longrightarrow> identity_seen s' None (Some i)"
    using 1 unfolding registered_def identity_seen_iff fst_conv snd_conv by blast
qed

section \<open>Properties\<close>

text \<open>A successful registration keeps the summary within its three limits and free of duplicates, whatever it
  evicts: every identity that was recognised before still is, every identity passed in is recognised from now on,
  and an identity is recognised only if it was passed in or already stood in the summary.\<close>

theorem dedup_never_forgets:
  assumes "register_identities E s evs occs = Inr s'" and "dedup_ok s"
  shows "dedup_ok s'
    \<and> (\<forall>e. identity_seen s (Some e) None \<or> e \<in> set evs \<longrightarrow> identity_seen s' (Some e) None)
    \<and> (\<forall>i. identity_seen s None (Some i) \<or> i \<in> set occs \<longrightarrow> identity_seen s' None (Some i))
    \<and> (\<forall>x. identity_seen s' (Some x) (Some x) \<longrightarrow> identity_seen s (Some x) (Some x) \<or> x \<in> set evs \<union> set occs)"
proof (intro conjI allI impI)
  fix x
  assume "identity_seen s' (Some x) (Some x)"
  then show "identity_seen s (Some x) (Some x) \<or> x \<in> set evs \<union> set occs"
    using assms(1)
    by (elim register_identities_cases)
      (unfold registered_def identity_seen_iff fst_conv snd_conv, blast)
qed (use register_identities_keep [OF assms(1)] assms(2) in blast)+

lemma dedup_never_forgets_witness:
  "\<exists>s'. register_identities plain_env empty_dedup_summary [''e1'', ''e2''] [''o1''] = Inr s'
     \<and> identity_seen s' (Some ''e1'') None \<and> identity_seen s' None (Some ''o1'')"
proof -
  have run: "register_identities plain_env empty_dedup_summary [''e1'', ''e2''] [''o1''] =
      Inr \<lparr>dd_recent_evidence_identities = [''e1'', ''e2''], dd_retained_occurrence_identities = [''o1''],
        dd_compacted_identities = [], dd_compacted_identity_digest = []\<rparr>"
    by (simp add: register_identities_def register_identity_def empty_dedup_summary_def compute_compacted_digest_def
        MAX_RECENT_EVIDENCE_IDENTITIES_def MAX_RETAINED_OCCURRENCE_IDENTITIES_def)
  show ?thesis using run dedup_never_forgets [OF run empty_dedup_ok] by simp
qed

end
