(* ===== verification/TemporalPolicy.thy ===== *)
theory TemporalPolicy
  imports Recurrence
begin

text \<open>
  \<open>temporal/policy.py\<close> (what a policy sees of a recurrence hypothesis), \<open>temporal/config.py\<close> (the ablation
  switches) and \<open>temporal/allowlists.py\<close> (the event and evidence allowlists). An allowlist file is given by
  its parsed content, \<open>None\<close> when it is missing; its caching is not modelled.
\<close>

section \<open>Configuration\<close>

record temporal_config =
  tc_anticipation_enabled :: bool
  tc_temporal_routine_eligibility_enabled :: bool
  tc_temporal_score_modifiers_enabled :: bool
  tc_wait_generation_enabled :: bool
  tc_reset_on_restart :: bool
  tc_frequency_only_recurrence :: bool
  tc_p0_performance_mode :: bool

definition default_temporal_config :: temporal_config where
  "default_temporal_config = \<lparr>tc_anticipation_enabled = True,
     tc_temporal_routine_eligibility_enabled = True, tc_temporal_score_modifiers_enabled = True,
     tc_wait_generation_enabled = True, tc_reset_on_restart = False,
     tc_frequency_only_recurrence = False, tc_p0_performance_mode = False\<rparr>"

definition resolve_temporal_config :: "temporal_config option \<Rightarrow> temporal_config" where
  "resolve_temporal_config config = (case config of None \<Rightarrow> default_temporal_config | Some c \<Rightarrow> c)"

definition p0_performance_config :: temporal_config where
  "p0_performance_config = default_temporal_config\<lparr>tc_anticipation_enabled := False,
     tc_temporal_routine_eligibility_enabled := False, tc_wait_generation_enabled := False,
     tc_temporal_score_modifiers_enabled := False, tc_p0_performance_mode := True\<rparr>"

definition PRODUCTION_UNREACHABLE_CONTROL_IDS :: "string list" where
  "PRODUCTION_UNREACHABLE_CONTROL_IDS = map (\<lambda>i. ''C'' @ nat_str i) [1..<14]"

definition assert_no_d010_control_via_organism_condition :: "string \<Rightarrow> bool \<Rightarrow> unit res" where
  "assert_no_d010_control_via_organism_condition condition temporal_enabled =
     (if \<not> temporal_enabled then Inr ()
      else if condition \<in> set PRODUCTION_UNREACHABLE_CONTROL_IDS
      then Inl (TemporalConfigError
        (condition @ ''_d010_control_requires_explicit_temporal_config_not_organism_condition''))
      else Inr ())"

section \<open>Allowlists\<close>

definition load_json :: "string \<Rightarrow> pyv option \<Rightarrow> pyv dict res" where
  "load_json path_name file =
     (case file of
        None \<Rightarrow> Inl (AllowlistError (''allowlist_missing:'' @ path_name))
      | Some (VDict d) \<Rightarrow> Inr d
      | Some _ \<Rightarrow> Inl (AllowlistError (''allowlist_invalid:'' @ path_name)))"

definition compute_allowlist_hash :: "hash_env \<Rightarrow> pyv dict \<Rightarrow> string" where
  "compute_allowlist_hash E data = hash_canonical E (VDict data)"

definition load_authoritative_event_allowlist :: "pyv option \<Rightarrow> pyv dict res" where
  "load_authoritative_event_allowlist file =
     andThen (load_json ''authoritative-event-allowlist.json'' file) (\<lambda>data.
       if map_of data ''allowed_event_kinds'' = None
       then Inl (AllowlistError ''authoritative_allowlist_missing_kinds'') else Inr data)"

definition load_observable_evidence_allowlist :: "pyv option \<Rightarrow> pyv dict res" where
  "load_observable_evidence_allowlist file =
     andThen (load_json ''observable-evidence-allowlist.json'' file) (\<lambda>data.
       if map_of data ''allowed_evidence_kinds'' = None
       then Inl (AllowlistError ''observable_allowlist_missing_kinds'') else Inr data)"

definition assert_authoritative_event_allowed :: "string \<Rightarrow> pyv option \<Rightarrow> unit res" where
  "assert_authoritative_event_allowed event_kind file =
     andThen (load_authoritative_event_allowlist file) (\<lambda>allowlist.
     andThen (fld (VDict allowlist) ''allowed_event_kinds'' as_list) (\<lambda>allowed.
       if VStr event_kind \<notin> set allowed
       then Inl (AllowlistError (''authoritative_event_disallowed:'' @ event_kind)) else Inr ()))"

definition assert_observable_evidence_allowed :: "string \<Rightarrow> pyv option \<Rightarrow> unit res" where
  "assert_observable_evidence_allowed evidence_kind file =
     andThen (load_observable_evidence_allowlist file) (\<lambda>allowlist.
     andThen (fld (VDict allowlist) ''allowed_evidence_kinds'' as_list) (\<lambda>allowed.
       if VStr evidence_kind \<notin> set allowed
       then Inl (AllowlistError (''observable_evidence_disallowed:'' @ evidence_kind)) else Inr ()))"

section \<open>Policy views\<close>

definition POLICY_VISIBLE_STATUSES :: "string list" where
  "POLICY_VISIBLE_STATUSES = [status_value ACTIVE, status_value UNCERTAIN]"

record policy_expectation_view =
  pv_recurrence_id :: string
  pv_window_start :: flt
  pv_window_end :: flt
  pv_confidence :: flt
  pv_uncertainty :: flt
  pv_expected_context :: string
  pv_expectation_version :: int
  pv_status :: string

definition build_policy_context_view :: "string \<Rightarrow> string" where
  "build_policy_context_view event_kind = event_kind"

definition hypothesis_confidence :: "recurrence_hypothesis \<Rightarrow> flt res" where
  "hypothesis_confidence h =
     andThen (float_of_int (rh_o_lane_occurrence_count h)) (\<lambda>seen.
     andThen (float_of_int (rh_miss_count h)) (\<lambda>missed.
       if rh_status h = ACTIVE then
         let base = flt_add (flit 7 10) (py_min (flit 25 100) (flt_mult seen (flit 5 100)));
             base2 = flt_sub base (py_min (flit 2 10) (flt_mult missed (flit 5 100)))
         in Inr (clamp base2 (flit 5 10) (flit 95 100))
       else
         let base = flt_add (flit 35 100) (py_min (flit 15 100) (flt_mult seen (flit 3 100)));
             base2 = flt_sub base (py_min (flit 1 10) (flt_mult missed (flit 3 100)))
         in Inr (clamp base2 (flit 2 10) (flit 5 10))))"

definition hypothesis_uncertainty :: "recurrence_hypothesis \<Rightarrow> flt" where
  "hypothesis_uncertainty h =
     (if flt_le (rh_period_estimate h) (Fin 0) then Fin 1
      else clamp (flt_div (rh_jitter_estimate h) (rh_period_estimate h)) (Fin 0) (Fin 1))"

definition build_policy_expectation_view ::
  "recurrence_hypothesis \<Rightarrow> recurrence_prediction \<Rightarrow> policy_expectation_view option res" where
  "build_policy_expectation_view h prediction =
     (if status_value (rh_status h) \<notin> set POLICY_VISIBLE_STATUSES then Inr None
      else andThen (hypothesis_confidence h) (\<lambda>confidence.
        Inr (Some \<lparr>pv_recurrence_id = rh_recurrence_id h,
          pv_window_start = rp_window_start prediction, pv_window_end = rp_window_end prediction,
          pv_confidence = confidence, pv_uncertainty = hypothesis_uncertainty h,
          pv_expected_context = build_policy_context_view (rh_event_kind h),
          pv_expectation_version = rh_hypothesis_version h,
          pv_status = status_value (rh_status h)\<rparr>)))"

text \<open>\<open>predict_fn\<close> is the caller's prediction by recurrence id and age.\<close>

fun policy_views_loop ::
  "pyv dict \<Rightarrow> int \<Rightarrow> (string \<Rightarrow> int \<Rightarrow> recurrence_prediction option res) \<Rightarrow> pyv dict
    \<Rightarrow> policy_expectation_view list res" where
  "policy_views_loop recurrence_index current_age predict_fn [] = Inr []"
| "policy_views_loop recurrence_index current_age predict_fn ((recurrence_id, _) # rest) =
     andThen (predict_fn recurrence_id current_age) (\<lambda>prediction.
     andThen (case prediction of None \<Rightarrow> Inr None
       | Some p \<Rightarrow> andThen (get_hypothesis_from_index recurrence_index recurrence_id) (\<lambda>hypothesis.
           case hypothesis of None \<Rightarrow> Inr None
           | Some h \<Rightarrow> build_policy_expectation_view h p)) (\<lambda>view.
     andThen (policy_views_loop recurrence_index current_age predict_fn rest) (\<lambda>views.
       Inr (case view of None \<Rightarrow> views | Some v \<Rightarrow> v # views))))"

definition policy_expectation_views_from_index ::
  "pyv dict \<Rightarrow> int \<Rightarrow> (string \<Rightarrow> int \<Rightarrow> recurrence_prediction option res)
    \<Rightarrow> policy_expectation_view list res" where
  "policy_expectation_views_from_index recurrence_index current_age predict_fn =
     andThen (policy_views_loop recurrence_index current_age predict_fn recurrence_index) (\<lambda>views.
       Inr (sort_key pv_recurrence_id views))"

section \<open>Lemmas\<close>

lemma half_ninety: "flt_le (flit 5 10) (flit 95 100)" and fifth_half: "flt_le (flit 2 10) (flit 5 10)"
  unfolding flit_def by (rule flt_of_mono, simp)+

lemma confidence_bounds:
  assumes "hypothesis_confidence h = Inr c"
  shows "if rh_status h = ACTIVE then flt_le (flit 5 10) c \<and> flt_le c (flit 95 100)
    else flt_le (flit 2 10) c \<and> flt_le c (flit 5 10)"
  using assms
  by (cases "rh_status h = ACTIVE")
    (auto simp: hypothesis_confidence_def andThen_eq_Inr Let_def
      clamp_bounds [OF half_ninety] clamp_bounds [OF fifth_half])

lemma uncertainty_bounds:
  "flt_le (Fin 0) (hypothesis_uncertainty h) \<and> flt_le (hypothesis_uncertainty h) (Fin 1)"
  using clamp_bounds [of "Fin 0" "Fin 1"] by (simp add: hypothesis_uncertainty_def)

definition view_ok :: "policy_expectation_view \<Rightarrow> bool" where
  "view_ok v \<longleftrightarrow> pv_status v \<in> {''ACTIVE'', ''UNCERTAIN''}
     \<and> (if pv_status v = ''ACTIVE'' then flt_le (flit 5 10) (pv_confidence v) \<and> flt_le (pv_confidence v) (flit 95 100)
        else flt_le (flit 2 10) (pv_confidence v) \<and> flt_le (pv_confidence v) (flit 5 10))
     \<and> flt_le (Fin 0) (pv_uncertainty v) \<and> flt_le (pv_uncertainty v) (Fin 1)"

lemma build_view_ok:
  assumes "build_policy_expectation_view h p = Inr (Some v)"
  shows "view_ok v"
proof -
  obtain c where c: "hypothesis_confidence h = Inr c" and vis: "rh_status h = ACTIVE \<or> rh_status h = UNCERTAIN"
    and v: "pv_status v = status_value (rh_status h)" "pv_confidence v = c" "pv_uncertainty v = hypothesis_uncertainty h"
    using assms by (cases "rh_status h")
      (auto simp: build_policy_expectation_view_def andThen_eq_Inr POLICY_VISIBLE_STATUSES_def)
  show ?thesis
    using confidence_bounds [OF c] uncertainty_bounds [of h] vis v by (auto simp: view_ok_def)
qed

lemma views_loop_ok:
  "policy_views_loop idx age f entries = Inr vs \<Longrightarrow> v \<in> set vs \<Longrightarrow> view_ok v"
proof (induction idx age f entries arbitrary: vs rule: policy_views_loop.induct)
  case (2 idx age f rid p rest)
  then show ?case
    by (auto simp: andThen_eq_Inr build_view_ok split: option.splits)
qed simp

section \<open>Properties\<close>

text \<open>What a policy is shown of a recurrence index: only active and uncertain hypotheses, in the order of their
  ids, with a confidence in \<open>[0.5, 0.95]\<close> for an active and \<open>[0.2, 0.5]\<close> for an uncertain one and an uncertainty in
  \<open>[0, 1]\<close>, for every history of the index, whatever the floats in it (\<open>NaN\<close> included).\<close>

theorem policy_views_sound:
  assumes "policy_expectation_views_from_index idx age predict_fn = Inr vs"
  shows "sorted (map pv_recurrence_id vs)
    \<and> (\<forall>v \<in> set vs. pv_status v \<in> {''ACTIVE'', ''UNCERTAIN''}
        \<and> (if pv_status v = ''ACTIVE''
           then flt_le (flit 5 10) (pv_confidence v) \<and> flt_le (pv_confidence v) (flit 95 100)
           else flt_le (flit 2 10) (pv_confidence v) \<and> flt_le (pv_confidence v) (flit 5 10))
        \<and> flt_le (Fin 0) (pv_uncertainty v) \<and> flt_le (pv_uncertainty v) (Fin 1))"
proof -
  obtain ws where ws: "policy_views_loop idx age predict_fn idx = Inr ws" and vs: "vs = sort_key pv_recurrence_id ws"
    using assms by (auto simp: policy_expectation_views_from_index_def andThen_eq_Inr)
  have "view_ok v" if "v \<in> set vs" for v
    using views_loop_ok [OF ws] that vs by simp
  then show ?thesis by (auto simp: vs view_ok_def)
qed

definition example_index :: "pyv dict" where
  "example_index = [(''rec:k'', hypothesis_to_dict example_hypothesis)]"

definition example_prediction :: recurrence_prediction where
  "example_prediction = \<lparr>rp_next_index = 3, rp_predicted_center = Fin 42, rp_window_start = Fin 41,
     rp_window_end = Fin 43, rp_period_estimate = Fin (21 / 2), rp_jitter_estimate = Fin (1 / 2),
     rp_phase_anchor_tick = Some (Fin 10), rp_phase_anchor_stable = True\<rparr>"

lemma example_index_get: "get_hypothesis_from_index example_index ''rec:k'' = Inr (Some example_hypothesis)"
proof -
  have "upsert_recurrence_index [] example_hypothesis = Inr example_index"
    by (simp add: upsert_recurrence_index_def example_index_def example_hypothesis_def MAX_RECURRENCE_HYPOTHESES_def
        sorted_items_def)
  from get_upsert [OF _ example_wf this, of "''rec:k''"] show ?thesis
    by (simp add: index_wf_def example_hypothesis_def)
qed

lemma policy_views_sound_witness:
  "\<exists>v. policy_expectation_views_from_index example_index 40 (\<lambda>_ _. Inr (Some example_prediction)) = Inr [v]
     \<and> pv_status v = ''ACTIVE'' \<and> flt_le (flit 5 10) (pv_confidence v)"
proof -
  let ?r = "policy_expectation_views_from_index example_index 40 (\<lambda>_ _. Inr (Some example_prediction))"
  have st: "rh_status example_hypothesis = ACTIVE" "rh_o_lane_occurrence_count example_hypothesis = 3"
    "rh_miss_count example_hypothesis = 0"
    by (simp_all add: example_hypothesis_def)
  obtain v where v: "?r = Inr [v]" "pv_status v = ''ACTIVE''"
    using example_index_get st float_of_int_exact [of 3] float_of_int_exact [of 0]
    by (simp add: policy_expectation_views_from_index_def example_index_def build_policy_expectation_view_def
        POLICY_VISIBLE_STATUSES_def hypothesis_confidence_def Let_def)
  with policy_views_sound [OF v(1)] show ?thesis by simp
qed

end
