(* ===== verification/Downtime.thy ===== *)
theory Downtime
  imports TemporalState TemporalPolicy
begin

text \<open>
  \<open>temporal/contracts.py\<close> (elapsed-time contracts and their pure effect calculation) and
  \<open>temporal/downtime.py\<close> (trust classification of a gap between two clock samples, the reconciliation
  plan and its application to the temporal state). A frozen set of strings is a list without
  duplicates; the registry file is given by its parsed content.
\<close>

section \<open>Elapsed-time contracts\<close>

record elapsed_effect_plan =
  ep_effect_plan_id :: string
  ep_contract_id :: string
  ep_contract_version :: int
  ep_contract_hash :: string
  ep_expected_subsystem_state_version :: int
  ep_expected_subsystem_state_hash :: string
  ep_declarative_effects :: "pyv list"
  ep_effect_plan_hash :: string

record elapsed_time_contract =
  ec_contract_id :: string
  ec_contract_version :: int
  ec_contract_hash :: string
  ec_subsystem :: string
  ec_maximum_elapsed :: flt
  ec_maximum_uncertainty :: flt
  ec_supported_trust_classes :: "string list"
  ec_required_for_trust_classes :: "string list"
  ec_effect_schema_id :: string
  ec_supported_effects :: "string list"

record elapsed_contract_registry =
  er_schema_version :: string
  er_registry_version :: int
  er_registry_hash :: string
  er_contracts :: "elapsed_time_contract list"

definition contract_hash :: "hash_env \<Rightarrow> pyv \<Rightarrow> string" where
  "contract_hash E contract = hash_canonical E (canonical (pop_key ''contract_hash'' contract))"

definition registry_hash :: "hash_env \<Rightarrow> elapsed_time_contract list \<Rightarrow> string \<Rightarrow> int \<Rightarrow> string" where
  "registry_hash E contracts schema_version registry_version = hash_canonical E (VDict
     [(''schema_version'', VStr schema_version),
      (''registry_version'', VInt registry_version),
      (''contracts'', VList (map (\<lambda>c. VDict
        [(''contract_id'', VStr (ec_contract_id c)),
         (''contract_version'', VInt (ec_contract_version c)),
         (''contract_hash'', VStr (ec_contract_hash c))]) contracts))])"

definition string_set :: "pyv \<Rightarrow> string list res" where
  "string_set v = andThen (tuple_of as_str v) (\<lambda>xs. Inr (remdups xs))"

definition load_contract :: "hash_env \<Rightarrow> pyv \<Rightarrow> elapsed_time_contract res" where
  "load_contract E entry =
     andThen (fld_or entry ''contract_hash'' VNone
       (\<lambda>v. as_str (or_else v (VStr (contract_hash E entry))))) (\<lambda>hash.
     andThen (fld entry ''contract_id'' as_str) (\<lambda>contract_id.
     andThen (fld entry ''contract_version'' as_int) (\<lambda>contract_version.
     andThen (fld entry ''subsystem'' as_str) (\<lambda>subsystem.
     andThen (fld entry ''maximum_elapsed'' as_float) (\<lambda>maximum_elapsed.
     andThen (fld entry ''maximum_uncertainty'' as_float) (\<lambda>maximum_uncertainty.
     andThen (fld entry ''supported_trust_classes'' string_set) (\<lambda>supported.
     andThen (fld_or entry ''required_for_trust_classes'' VNone
       (\<lambda>v. string_set (or_else v (VList [])))) (\<lambda>required.
     andThen (fld entry ''effect_schema_id'' as_str) (\<lambda>effect_schema_id.
     andThen (fld entry ''supported_effects'' string_set) (\<lambda>effects.
     Inr \<lparr>ec_contract_id = contract_id, ec_contract_version = contract_version,
       ec_contract_hash = hash, ec_subsystem = subsystem, ec_maximum_elapsed = maximum_elapsed,
       ec_maximum_uncertainty = maximum_uncertainty, ec_supported_trust_classes = supported,
       ec_required_for_trust_classes = required, ec_effect_schema_id = effect_schema_id,
       ec_supported_effects = effects\<rparr>))))))))))"

definition load_elapsed_contract_registry :: "hash_env \<Rightarrow> pyv \<Rightarrow> elapsed_contract_registry res" where
  "load_elapsed_contract_registry E raw =
     andThen (fld raw ''schema_version'' as_str) (\<lambda>schema_version.
     andThen (fld raw ''registry_version'' as_int) (\<lambda>registry_version.
     andThen (fld_or raw ''contracts'' VNone
       (\<lambda>v. tuple_of (load_contract E) (or_else v (VList [])))) (\<lambda>contracts.
     andThen (get_or raw ''registry_hash'' VNone) (\<lambda>declared.
     let hash = registry_hash E contracts schema_version registry_version
     in andThen (if truthy declared then andThen (as_str declared) (\<lambda>d. Inr (d \<noteq> hash)) else Inr False)
       (\<lambda>mismatch.
         if mismatch then Inl (ElapsedContractError ''ELAPSED_CONTRACT_REGISTRY_MISMATCH'')
         else Inr \<lparr>er_schema_version = schema_version, er_registry_version = registry_version,
           er_registry_hash = hash, er_contracts = contracts\<rparr>)))))"

definition calculate_effects ::
  "hash_env \<Rightarrow> string \<Rightarrow> elapsed_time_contract \<Rightarrow> pyv \<Rightarrow> flt \<Rightarrow> flt \<Rightarrow> anchor_trust_class
    \<Rightarrow> elapsed_effect_plan option res" where
  "calculate_effects E fresh contract snapshot elapsed_seconds uncertainty trust_class =
     (if trust_value trust_class \<notin> set (ec_supported_trust_classes contract) then Inr None
      else if flt_lt (ec_maximum_elapsed contract) elapsed_seconds then Inr None
      else if flt_lt (ec_maximum_uncertainty contract) uncertainty then Inr None
      else
        andThen (fld_or snapshot ''state_version'' (VInt 0) as_int) (\<lambda>state_version.
        andThen (fld_or snapshot ''state_hash'' (VStr []) as_str) (\<lambda>state_hash.
        let effects = map (\<lambda>effect_name. VDict
              [(''effect'', VStr effect_name),
               (''subsystem'', VStr (ec_subsystem contract)),
               (''elapsed_seconds'', VFlt elapsed_seconds),
               (''trust_class'', VStr (trust_value trust_class))])
              (sort (ec_supported_effects contract));
            effect_plan_hash = hash_canonical E (canonical (VDict
              [(''contract_id'', VStr (ec_contract_id contract)),
               (''contract_version'', VInt (ec_contract_version contract)),
               (''contract_hash'', VStr (ec_contract_hash contract)),
               (''expected_subsystem_state_version'', VInt state_version),
               (''expected_subsystem_state_hash'', VStr state_hash),
               (''declarative_effects'', VList effects)]))
        in Inr (Some \<lparr>ep_effect_plan_id = ''effect:'' @ fresh,
             ep_contract_id = ec_contract_id contract,
             ep_contract_version = ec_contract_version contract,
             ep_contract_hash = ec_contract_hash contract,
             ep_expected_subsystem_state_version = state_version,
             ep_expected_subsystem_state_hash = state_hash,
             ep_declarative_effects = effects,
             ep_effect_plan_hash = effect_plan_hash\<rparr>))))"

text \<open>The loop of \<open>calculate_all_effects\<close>; \<open>fresh i\<close> is the \<open>i\<close>-th new id. The result is the plans, the
  skipped optional contracts and whether a required contract failed.\<close>

fun calculate_all_effects ::
  "hash_env \<Rightarrow> (nat \<Rightarrow> string) \<Rightarrow> elapsed_time_contract list \<Rightarrow> pyv dict \<Rightarrow> flt \<Rightarrow> flt
    \<Rightarrow> anchor_trust_class \<Rightarrow> (elapsed_effect_plan list \<times> string list \<times> bool) res" where
  "calculate_all_effects E fresh [] snapshots elapsed_seconds uncertainty trust_class =
     Inr ([], [], False)"
| "calculate_all_effects E fresh (contract # rest) snapshots elapsed_seconds uncertainty trust_class =
     andThen (case map_of snapshots (ec_subsystem contract) of
         None \<Rightarrow> Inr None
       | Some snapshot \<Rightarrow> calculate_effects E (fresh 0) contract snapshot elapsed_seconds uncertainty trust_class)
       (\<lambda>plan.
     andThen (calculate_all_effects E (fresh \<circ> Suc) rest snapshots elapsed_seconds uncertainty trust_class)
       (\<lambda>(plans, skipped, required_failure).
       Inr (case plan of
              Some p \<Rightarrow> (p # plans, skipped, required_failure)
            | None \<Rightarrow>
                if trust_value trust_class \<in> set (ec_required_for_trust_classes contract)
                then (plans, skipped, True)
                else (plans, ec_contract_id contract # skipped, required_failure))))"

section \<open>Trust in a gap\<close>

definition ACCEPTED_WALL_SOURCES :: "string list" where
  "ACCEPTED_WALL_SOURCES = [''runtime.wall_time_fn'', ''system.clock'']"

definition MAX_TRUSTED_DOWNTIME_SECONDS :: flt where
  "MAX_TRUSTED_DOWNTIME_SECONDS = flit 3600 1"

definition MAX_WALL_UNCERTAINTY :: flt where
  "MAX_WALL_UNCERTAINTY = flit 1 1"

definition SAMPLE_FRESHNESS_SECONDS :: flt where
  "SAMPLE_FRESHNESS_SECONDS = flit 30 1"

definition SECONDS_PER_AGE_TICK :: flt where
  "SECONDS_PER_AGE_TICK = flit 60 1"

definition MAX_DOWNTIME_AGE_ADVANCE :: int where
  "MAX_DOWNTIME_AGE_ADVANCE = 60"

definition RECONCILIATION_POLICY_VERSION :: string where
  "RECONCILIATION_POLICY_VERSION = ''d010.reconciliation-policy.v1''"

datatype reconciliation_status = PREPARED | COMMITTED

definition reconciliation_policy_hash :: "hash_env \<Rightarrow> string" where
  "reconciliation_policy_hash E = hash_canonical E (VDict
     [(''policy_version'', VStr RECONCILIATION_POLICY_VERSION),
      (''accepted_wall_sources'', v_strs (sort ACCEPTED_WALL_SOURCES)),
      (''max_trusted_downtime_seconds'', VFlt MAX_TRUSTED_DOWNTIME_SECONDS),
      (''max_wall_uncertainty'', VFlt MAX_WALL_UNCERTAINTY),
      (''sample_freshness_seconds'', VFlt SAMPLE_FRESHNESS_SECONDS),
      (''seconds_per_age_tick'', VFlt SECONDS_PER_AGE_TICK),
      (''max_downtime_age_advance'', VInt MAX_DOWNTIME_AGE_ADVANCE)])"

record trust_classification =
  tr_trust_class :: anchor_trust_class
  tr_reason_codes :: "string list"
  tr_elapsed_seconds :: flt
  tr_age_advance :: int
  tr_fractional_remainder :: flt
  tr_conservative :: bool

definition conservative_trust :: "anchor_trust_class \<Rightarrow> string \<Rightarrow> flt \<Rightarrow> trust_classification" where
  "conservative_trust c reason elapsed = \<lparr>tr_trust_class = c, tr_reason_codes = [reason],
     tr_elapsed_seconds = elapsed, tr_age_advance = 0, tr_fractional_remainder = Fin 0,
     tr_conservative = True\<rparr>"

text \<open>The seconds the monotonic clock counted since the mapping, when the mapping has a wall time; that wall
  time comes with it.\<close>

definition monotonic_elapsed :: "trusted_sample \<Rightarrow> wall_clock_mapping option \<Rightarrow> (flt \<times> flt) option res" where
  "monotonic_elapsed sample wall_clock_mapping =
     (case wall_clock_mapping of
        None \<Rightarrow> Inr None
      | Some m \<Rightarrow>
          (case wm_wall_time_seconds m of
             None \<Rightarrow> Inr None
           | Some mapped_wall \<Rightarrow>
               andThen (float_of_int (sm_monotonic_ns sample - wm_monotonic_ns_at_mapping m)) (\<lambda>ns.
                 Inr (Some (mapped_wall, flt_div ns (flit 1000000000 1))))))"

definition classify_downtime_trust ::
  "time_anchor \<Rightarrow> trusted_sample \<Rightarrow> wall_clock_mapping option \<Rightarrow> trust_classification res" where
  "classify_downtime_trust prior_anchor sample wall_clock_mapping =
     (case sm_optional_wall_time sample of
        None \<Rightarrow> Inr (conservative_trust MISSING_WALL ''missing_wall_sample'' (Fin 0))
      | Some wall \<Rightarrow>
     (case ta_wall_time prior_anchor of
        None \<Rightarrow> Inr (conservative_trust TC_UNCERTAIN ''prior_anchor_not_eligible_baseline'' (Fin 0))
      | Some prior_wall \<Rightarrow>
          if \<not> ta_eligible_as_downtime_baseline prior_anchor
          then Inr (conservative_trust TC_UNCERTAIN ''prior_anchor_not_eligible_baseline'' (Fin 0))
          else if \<not> (case sm_wall_time_source sample of None \<Rightarrow> False | Some s \<Rightarrow> s \<in> set ACCEPTED_WALL_SOURCES)
          then Inr (conservative_trust TC_UNCERTAIN ''wall_source_not_accepted'' (Fin 0))
          else if flt_lt MAX_WALL_UNCERTAINTY (sm_wall_time_uncertainty sample)
          then Inr (conservative_trust EXCESSIVE ''wall_uncertainty_excessive'' (Fin 0))
          else andThen (monotonic_elapsed sample wall_clock_mapping) (\<lambda>mono.
            if (case mono of None \<Rightarrow> False | Some (mapped_wall, mono_s) \<Rightarrow>
                  flt_lt SAMPLE_FRESHNESS_SECONDS (flt_abs (flt_sub wall (flt_add mapped_wall mono_s))))
            then Inr (conservative_trust TC_UNCERTAIN ''sample_not_fresh'' (Fin 0))
            else
              let elapsed = flt_sub wall prior_wall
              in if flt_lt elapsed (Fin 0)
                 then Inr (conservative_trust TC_UNCERTAIN ''wall_time_backward_jump'' elapsed)
                 else if flt_lt MAX_TRUSTED_DOWNTIME_SECONDS elapsed
                 then Inr (conservative_trust EXCESSIVE ''downtime_gap_excessive'' elapsed)
                 else if ta_wall_time_source prior_anchor \<noteq> None
                       \<and> sm_wall_time_source sample \<noteq> ta_wall_time_source prior_anchor
                 then Inr (conservative_trust TC_UNCERTAIN ''wall_source_discontinuity'' elapsed)
                 else if (case mono of None \<Rightarrow> False | Some (_, mono_s) \<Rightarrow>
                       flt_lt SAMPLE_FRESHNESS_SECONDS (flt_abs (flt_sub elapsed mono_s)))
                 then Inr (conservative_trust TC_UNCERTAIN ''wall_monotonic_implausible'' elapsed)
                 else
                   let tick_equiv = flt_div elapsed SECONDS_PER_AGE_TICK
                   in andThen (int_of_flt tick_equiv) (\<lambda>ticks.
                      let age_advance = min ticks MAX_DOWNTIME_AGE_ADVANCE
                      in andThen (float_of_int age_advance) (\<lambda>advanced.
                         Inr \<lparr>tr_trust_class = TRUSTED_SHORT, tr_reason_codes = [''trusted_short_gap''],
                           tr_elapsed_seconds = elapsed, tr_age_advance = age_advance,
                           tr_fractional_remainder = flt_sub tick_equiv advanced,
                           tr_conservative = False\<rparr>)))))"

section \<open>Reconciliation plans\<close>

record expectation_recovery_delta =
  xd_recurrence_id :: string
  xd_expected_hypothesis_version :: int
  xd_expected_expectation_version :: int
  xd_action :: string
  xd_bounded_delta :: flt

record downtime_reconciliation_record =
  dr_downtime_interval_id :: string
  dr_reconciliation_id :: string
  dr_canonical_plan_hash :: string
  dr_status :: reconciliation_status
  dr_transaction_id :: "string option"
  dr_sticky_sample_hash :: "string option"

record downtime_reconciliation_plan =
  dp_downtime_interval_id :: string
  dp_reconciliation_id :: string
  dp_canonical_plan_hash :: string
  dp_expected_state_version :: int
  dp_expected_state_hash :: string
  dp_session_id :: string
  dp_trusted_sample_hash :: string
  dp_trust_class :: anchor_trust_class
  dp_trust_reason_codes :: "string list"
  dp_elapsed_seconds :: flt
  dp_age_advance :: int
  dp_fractional_remainder :: flt
  dp_prior_age_ticks :: int
  dp_next_age_ticks :: int
  dp_prior_active_ticks :: int
  dp_next_active_ticks :: int
  dp_prior_time_anchor :: time_anchor
  dp_new_time_anchor :: time_anchor
  dp_registry_hash :: string
  dp_effect_plan_ids :: "string list"
  dp_effect_plan_hashes :: "string list"
  dp_skipped_contract_ids :: "string list"
  dp_expectation_recovery_deltas :: "expectation_recovery_delta list"
  dp_wait_recovery_deltas :: "wait_recovery_delta list"
  dp_conservative :: bool

definition compute_downtime_interval_id ::
  "hash_env \<Rightarrow> time_anchor \<Rightarrow> trusted_sample \<Rightarrow> string option \<Rightarrow> string" where
  "compute_downtime_interval_id E prior_anchor sample policy_hash =
     ''downtime:'' @ take 32 (hash_canonical E (canonical (VDict
       [(''prior_anchor_state_hash'', VStr (ta_state_hash prior_anchor)),
        (''prior_anchor_advance_id'', VStr (ta_advance_id prior_anchor)),
        (''prior_anchor_session_id'', VStr (ta_session_id_at_commit prior_anchor)),
        (''current_session_id'', VStr (sm_session_id sample)),
        (''current_sample_hash'', VStr (compute_sample_hash E sample)),
        (''reconciliation_policy_hash'', VStr (str_or policy_hash (reconciliation_policy_hash E)))])))"

definition expectation_delta_to_pyv :: "expectation_recovery_delta \<Rightarrow> pyv" where
  "expectation_delta_to_pyv d = VDict
     [(''recurrence_id'', VStr (xd_recurrence_id d)),
      (''expected_hypothesis_version'', VInt (xd_expected_hypothesis_version d)),
      (''expected_expectation_version'', VInt (xd_expected_expectation_version d)),
      (''action'', VStr (xd_action d)),
      (''bounded_delta'', VFlt (xd_bounded_delta d))]"

definition wait_delta_to_pyv :: "wait_recovery_delta \<Rightarrow> pyv" where
  "wait_delta_to_pyv d = VDict
     [(''execution_id'', VStr (wd_execution_id d)),
      (''expected_status'', VStr (wd_expected_status d)),
      (''terminal_status'', VStr (wd_terminal_status d)),
      (''terminal_reason'', VStr (wd_terminal_reason d)),
      (''suppression_plan'', v_opt (\<lambda>v. v) (wd_suppression_plan d))]"

definition plan_identity_payload ::
  "string \<Rightarrow> anchor_trust_class \<Rightarrow> string list \<Rightarrow> flt \<Rightarrow> int \<Rightarrow> flt \<Rightarrow> int \<Rightarrow> int \<Rightarrow> string \<Rightarrow> string list
    \<Rightarrow> string list \<Rightarrow> expectation_recovery_delta list \<Rightarrow> wait_recovery_delta list \<Rightarrow> bool \<Rightarrow> string \<Rightarrow> pyv" where
  "plan_identity_payload downtime_interval_id trust_class trust_reason_codes elapsed_seconds age_advance
     fractional_remainder prior_age_ticks next_age_ticks reg_hash effect_plan_hashes
     skipped_contract_ids expectation_deltas wait_deltas conservative trusted_sample_hash =
   canonical (VDict
     [(''downtime_interval_id'', VStr downtime_interval_id),
      (''trust_class'', VStr (trust_value trust_class)),
      (''trust_reason_codes'', v_strs trust_reason_codes),
      (''elapsed_seconds'', VFlt elapsed_seconds),
      (''age_advance'', VInt age_advance),
      (''fractional_remainder'', VFlt fractional_remainder),
      (''prior_age_ticks'', VInt prior_age_ticks),
      (''next_age_ticks'', VInt next_age_ticks),
      (''registry_hash'', VStr reg_hash),
      (''effect_plan_hashes'', v_strs effect_plan_hashes),
      (''skipped_contract_ids'', v_strs skipped_contract_ids),
      (''expectation_recovery_deltas'', VList (map expectation_delta_to_pyv expectation_deltas)),
      (''wait_recovery_deltas'', VList (map wait_delta_to_pyv wait_deltas)),
      (''conservative'', VBool conservative),
      (''trusted_sample_hash'', VStr trusted_sample_hash)])"

definition compute_canonical_plan_hash :: "hash_env \<Rightarrow> pyv \<Rightarrow> string" where
  "compute_canonical_plan_hash E plan_fields = hash_canonical E (canonical plan_fields)"

definition plan_canonical_identity :: "downtime_reconciliation_plan \<Rightarrow> pyv" where
  "plan_canonical_identity p =
     plan_identity_payload (dp_downtime_interval_id p) (dp_trust_class p) (dp_trust_reason_codes p)
       (dp_elapsed_seconds p) (dp_age_advance p) (dp_fractional_remainder p) (dp_prior_age_ticks p)
       (dp_next_age_ticks p) (dp_registry_hash p) (dp_effect_plan_hashes p) (dp_skipped_contract_ids p)
       (dp_expectation_recovery_deltas p) (dp_wait_recovery_deltas p) (dp_conservative p)
       (dp_trusted_sample_hash p)"

definition verify_plan_canonical_hash :: "hash_env \<Rightarrow> downtime_reconciliation_plan \<Rightarrow> bool" where
  "verify_plan_canonical_hash E p =
     (compute_canonical_plan_hash E (plan_canonical_identity p) = dp_canonical_plan_hash p)"

definition build_downtime_anchor ::
  "hash_env \<Rightarrow> trusted_sample \<Rightarrow> string \<Rightarrow> int \<Rightarrow> int \<Rightarrow> int \<Rightarrow> trust_classification \<Rightarrow> string \<Rightarrow> time_anchor" where
  "build_downtime_anchor E sample session_id age_ticks active_ticks state_version trust reconciliation_id =
     (let sample_hash = compute_sample_hash E sample;
          eligible = (tr_trust_class trust = TRUSTED_SHORT \<and> \<not> tr_conservative trust)
      in with_anchor_state_hash E
        \<lparr>ta_organism_age_ticks = age_ticks, ta_organism_active_ticks = active_ticks,
         ta_state_version = state_version, ta_state_hash = [],
         ta_wall_time = sm_optional_wall_time sample, ta_wall_time_source = sm_wall_time_source sample,
         ta_wall_time_uncertainty = sm_wall_time_uncertainty sample,
         ta_session_id_at_commit = session_id, ta_advance_id = ''reconcile:'' @ reconciliation_id,
         ta_anchor_trust_class = tr_trust_class trust, ta_trust_reason_codes = tr_reason_codes trust,
         ta_eligible_as_downtime_baseline = eligible, ta_source_sample_hash = sample_hash\<rparr>)"

text \<open>\<open>build_wall_clock_mapping\<close> of \<open>temporal/events.py\<close>.\<close>

definition build_wall_clock_mapping :: "trusted_sample \<Rightarrow> string \<Rightarrow> wall_clock_mapping option" where
  "build_wall_clock_mapping sample session_id =
     (case sm_optional_wall_time sample of
        None \<Rightarrow> None
      | Some wall \<Rightarrow> Some \<lparr>wm_schema_version = ''d010.wall-mapping.v1'', wm_session_id = session_id,
          wm_monotonic_ns_at_mapping = sm_monotonic_ns sample, wm_wall_time_seconds = Some wall,
          wm_wall_time_source = sm_wall_time_source sample,
          wm_uncertainty = sm_wall_time_uncertainty sample\<rparr>)"

section \<open>Applying a plan\<close>

definition apply_expectation_recovery_delta ::
  "temporal_state \<Rightarrow> expectation_recovery_delta \<Rightarrow> temporal_state res" where
  "apply_expectation_recovery_delta current delta =
     andThen (get_hypothesis_from_index (ts_recurrence_index current) (xd_recurrence_id delta)) (\<lambda>hypothesis.
       case hypothesis of
         None \<Rightarrow> Inl (DowntimeReconciliationError ''RECONCILIATION_PAYLOAD_MISMATCH'')
       | Some h \<Rightarrow>
           if rh_hypothesis_version h \<noteq> xd_expected_hypothesis_version delta
           then Inl (DowntimeReconciliationError ''RECONCILIATION_PAYLOAD_MISMATCH'')
           else if xd_expected_expectation_version delta \<noteq> rh_hypothesis_version h
           then Inl (DowntimeReconciliationError ''RECONCILIATION_PAYLOAD_MISMATCH'')
           else
             let store = (\<lambda>updated. andThen (upsert_recurrence_index (ts_recurrence_index current) updated)
                   (\<lambda>new_index. Inr (current\<lparr>ts_recurrence_index := new_index\<rparr>)))
             in if xd_action delta = ''EXPIRE''
                then store (h\<lparr>rh_status := INACTIVE, rh_hypothesis_version := rh_hypothesis_version h + 1\<rparr>)
                else if xd_action delta = ''DECAY_CONFIDENCE''
                then store (h\<lparr>rh_miss_count := rh_miss_count h + 1,
                              rh_hypothesis_version := rh_hypothesis_version h + 1\<rparr>)
                else Inr current)"

definition apply_expectation_recovery_deltas ::
  "temporal_state \<Rightarrow> expectation_recovery_delta list \<Rightarrow> temporal_state res" where
  "apply_expectation_recovery_deltas state deltas = foldE apply_expectation_recovery_delta state deltas"

definition apply_downtime_plan_to_state ::
  "hash_env \<Rightarrow> temporal_state \<Rightarrow> downtime_reconciliation_plan \<Rightarrow> trusted_sample \<Rightarrow> temporal_state res" where
  "apply_downtime_plan_to_state E state plan sample =
     (if dp_expected_state_version plan \<noteq> ts_state_version state
      then Inl (DowntimeReconciliationError ''TEMPORAL_ANCHOR_MISMATCH'')
      else if dp_expected_state_hash plan \<noteq> ts_state_hash state
      then Inl (DowntimeReconciliationError ''TEMPORAL_ANCHOR_MISMATCH'')
      else
        let new_version = ts_state_version state + 1;
            new_anchor = with_anchor_state_hash E ((dp_new_time_anchor plan)\<lparr>ta_state_version := new_version\<rparr>);
            new_mapping = (case build_wall_clock_mapping sample (dp_session_id plan) of
               None \<Rightarrow> ts_wall_clock_mapping state | Some m \<Rightarrow> Some m);
            new_uncertainty = (if sm_optional_wall_time sample \<noteq> None
               then sm_wall_time_uncertainty sample else ts_clock_uncertainty state);
            base = state\<lparr>ts_organism_age_ticks := dp_next_age_ticks plan,
               ts_organism_active_ticks := dp_next_active_ticks plan,
               ts_last_advance_id := ta_advance_id new_anchor, ts_last_time_anchor := new_anchor,
               ts_wall_clock_mapping := new_mapping, ts_clock_uncertainty := new_uncertainty,
               ts_state_version := new_version, ts_state_hash := []\<rparr>
        in andThen (if dp_expectation_recovery_deltas plan \<noteq> []
             then apply_expectation_recovery_deltas base (dp_expectation_recovery_deltas plan)
             else Inr base) (\<lambda>base2. Inr (with_state_hash E base2)))"

definition compute_wait_recovery_deltas :: "wait_journal \<Rightarrow> int \<Rightarrow> wait_recovery_delta list" where
  "compute_wait_recovery_deltas j new_age_ticks =
     map (\<lambda>e. \<lparr>wd_execution_id = we_execution_id e, wd_expected_status = we_status e,
         wd_terminal_status = ''EXPIRED'', wd_terminal_reason = ''downtime_window_elapsed'',
         wd_suppression_plan = Some (VDict
           [(''recurrence_id'', VStr (we_recurrence_id e)),
            (''expectation_version'', VInt (we_expectation_version e)),
            (''suppressed_until_age_tick'', VInt (we_deadline_age_tick e + SUPPRESSION_DURATION_TICKS))])\<rparr>)
       (filter (\<lambda>e. we_status e \<in> set NON_TERMINAL_WAIT_STATUSES \<and> we_deadline_age_tick e \<le> new_age_ticks)
         (map snd (wj_executions j)))"

fun expectation_deltas_loop ::
  "pyv dict \<Rightarrow> int \<Rightarrow> policy_expectation_view list \<Rightarrow> expectation_recovery_delta list res" where
  "expectation_deltas_loop recurrence_index new_age_ticks [] = Inr []"
| "expectation_deltas_loop recurrence_index new_age_ticks (view # views) =
     andThen (float_of_int new_age_ticks) (\<lambda>age.
       if flt_le age (pv_window_end view) then expectation_deltas_loop recurrence_index new_age_ticks views
       else andThen (get_hypothesis_from_index recurrence_index (pv_recurrence_id view)) (\<lambda>hypothesis.
         andThen (expectation_deltas_loop recurrence_index new_age_ticks views) (\<lambda>deltas.
         Inr (case hypothesis of None \<Rightarrow> deltas
           | Some h \<Rightarrow>
               let action = (if pv_status view = ''ACTIVE'' then ''EXPIRE'' else ''DECAY_CONFIDENCE'');
                   bounded_delta = (if action = ''DECAY_CONFIDENCE'' then flit (- 5) 100 else Fin 0)
               in \<lparr>xd_recurrence_id = pv_recurrence_id view,
                    xd_expected_hypothesis_version = rh_hypothesis_version h,
                    xd_expected_expectation_version = pv_expectation_version view,
                    xd_action = action, xd_bounded_delta = bounded_delta\<rparr> # deltas))))"

definition compute_expectation_recovery_deltas ::
  "temporal_state \<Rightarrow> int \<Rightarrow> (string \<Rightarrow> int \<Rightarrow> recurrence_prediction option res)
    \<Rightarrow> expectation_recovery_delta list res" where
  "compute_expectation_recovery_deltas state new_age_ticks predict_fn =
     andThen (policy_expectation_views_from_index (ts_recurrence_index state) new_age_ticks predict_fn)
       (expectation_deltas_loop (ts_recurrence_index state) new_age_ticks)"

section \<open>Lemmas\<close>

lemma flit_int: "\<bar>n\<bar> < 2 ^ 53 \<Longrightarrow> flit n 1 = Fin (of_int n)"
  using flt_of_int_exact [of n] by (simp add: flit_def flt_of_int_def)

lemma downtime_constants:
  "MAX_TRUSTED_DOWNTIME_SECONDS = Fin 3600" "SECONDS_PER_AGE_TICK = Fin 60"
  using flit_int [of 3600] flit_int [of 60]
  by (simp_all add: MAX_TRUSTED_DOWNTIME_SECONDS_def SECONDS_PER_AGE_TICK_def)

definition trusted_ok :: "trust_classification \<Rightarrow> bool" where
  "trusted_ok t \<longleftrightarrow> tr_trust_class t = TRUSTED_SHORT \<and> \<not> tr_conservative t
     \<and> (\<exists>q r. tr_elapsed_seconds t = Fin q \<and> 0 \<le> q \<and> q \<le> 3600
          \<and> tr_age_advance t = \<lfloor>rnd (q / 60)\<rfloor> \<and> 0 \<le> tr_age_advance t \<and> tr_age_advance t \<le> 60
          \<and> tr_fractional_remainder t = Fin r \<and> 0 \<le> r \<and> r \<le> 1)"

definition conservative_ok :: "trust_classification \<Rightarrow> bool" where
  "conservative_ok t \<longleftrightarrow> tr_trust_class t \<noteq> TRUSTED_SHORT \<and> tr_conservative t
     \<and> tr_age_advance t = 0 \<and> tr_fractional_remainder t = Fin 0"

lemma conservative_trust_ok: "c \<noteq> TRUSTED_SHORT \<Longrightarrow> conservative_ok (conservative_trust c reason elapsed)"
  by (simp add: conservative_ok_def conservative_trust_def)

lemma trusted_case:
  assumes "\<not> flt_lt elapsed (Fin 0)" and "\<not> flt_lt MAX_TRUSTED_DOWNTIME_SECONDS elapsed"
    and "int_of_flt (flt_div elapsed SECONDS_PER_AGE_TICK) = Inr ticks"
    and "float_of_int (min ticks MAX_DOWNTIME_AGE_ADVANCE) = Inr advanced"
  shows "trusted_ok \<lparr>tr_trust_class = TRUSTED_SHORT, tr_reason_codes = rs, tr_elapsed_seconds = elapsed,
    tr_age_advance = min ticks MAX_DOWNTIME_AGE_ADVANCE,
    tr_fractional_remainder = flt_sub (flt_div elapsed SECONDS_PER_AGE_TICK) advanced, tr_conservative = False\<rparr>"
proof -
  have "elapsed \<noteq> NaN" using assms(3) by (auto simp: downtime_constants)
  then obtain q where q: "elapsed = Fin q" "0 \<le> q" "q \<le> 3600"
    using assms(1,2) by (cases elapsed) (auto simp: downtime_constants)
  have b: "of_int 0 \<le> q / 60" "q / 60 \<le> of_int 60" using q by simp_all
  let ?r = "rnd (q / 60)"
  have r: "flt_of (q / 60) = Fin ?r" "0 \<le> ?r" "?r \<le> 60"
    using flt_of_between [OF b] by simp_all
  have ticks: "ticks = \<lfloor>?r\<rfloor>" "0 \<le> ticks" "ticks \<le> 60"
    using assms(3) q r by (auto simp: downtime_constants floor_le_iff)
  then have m: "min ticks MAX_DOWNTIME_AGE_ADVANCE = ticks" by (simp add: MAX_DOWNTIME_AGE_ADVANCE_def)
  have adv: "advanced = Fin (of_int ticks)"
    using assms(4) ticks float_of_int_exact [of ticks] unfolding m by simp
  have d: "of_int 0 \<le> ?r - of_int ticks" "?r - of_int ticks \<le> of_int 1"
    using ticks(1) by (auto simp: algebra_simps) linarith
  have "flt_sub (flt_of (q / 60)) advanced = flt_of (?r - of_int ticks)"
    by (simp add: r adv flt_sub_def)
  then have "\<exists>f. flt_sub (flt_of (q / 60)) advanced = Fin f \<and> 0 \<le> f \<and> f \<le> 1"
    using flt_of_between [OF d] by auto
  then show ?thesis using q r ticks m by (auto simp: trusted_ok_def downtime_constants)
qed

lemma classify_cases:
  assumes "classify_downtime_trust a s m = Inr t"
  shows "conservative_ok t \<or> trusted_ok t"
  using assms
  by (auto simp: classify_downtime_trust_def Let_def andThen_eq_Inr
      intro!: conservative_trust_ok trusted_case split: option.splits if_splits)

lemma terminal_expired: "''EXPIRED'' \<in> set TERMINAL_WAIT_STATUSES"
  by (simp add: TERMINAL_WAIT_STATUSES_def)

definition overdue :: "int \<Rightarrow> wait_execution \<Rightarrow> bool" where
  "overdue age e \<longleftrightarrow> we_status e \<in> set NON_TERMINAL_WAIT_STATUSES \<and> we_deadline_age_tick e \<le> age"

definition expired :: "wait_execution \<Rightarrow> wait_execution" where
  "expired e = e\<lparr>we_status := ''EXPIRED'', we_terminal_reason := Some ''downtime_window_elapsed''\<rparr>"

definition recovery_delta_for :: "wait_execution \<Rightarrow> wait_recovery_delta" where
  "recovery_delta_for e = \<lparr>wd_execution_id = we_execution_id e, wd_expected_status = we_status e,
     wd_terminal_status = ''EXPIRED'', wd_terminal_reason = ''downtime_window_elapsed'',
     wd_suppression_plan = Some (VDict
       [(''recurrence_id'', VStr (we_recurrence_id e)),
        (''expectation_version'', VInt (we_expectation_version e)),
        (''suppressed_until_age_tick'', VInt (we_deadline_age_tick e + SUPPRESSION_DURATION_TICKS))])\<rparr>"

lemma compute_wait_deltas_eq:
  "compute_wait_recovery_deltas j age =
     map recovery_delta_for (filter (overdue age) (map snd (wj_executions j)))"
  unfolding compute_wait_recovery_deltas_def
  by (simp add: recovery_delta_for_def [abs_def] overdue_def [abs_def])

lemma overdue_live: "overdue age e \<Longrightarrow> \<not> is_terminal e"
  by (auto simp: overdue_def is_terminal_def NON_TERMINAL_WAIT_STATUSES_def TERMINAL_WAIT_STATUSES_def)

lemma apply_one_recovery:
  assumes "map_of (wj_executions j) (we_execution_id e) = Some e" and "overdue age e"
  shows "fst (apply_wait_recovery_delta (recovery_delta_for e) j) = Inr ()"
    and "wj_executions (snd (apply_wait_recovery_delta (recovery_delta_for e) j))
      = dput (we_execution_id e) (expired e) (wj_executions j)"
proof -
  have "finalize (we_execution_id e) ''EXPIRED'' (Some ''downtime_window_elapsed'') j
    = (Inr (finalized ''EXPIRED'' (Some ''downtime_window_elapsed'') e),
       j\<lparr>wj_executions := dput (we_execution_id e) (finalized ''EXPIRED'' (Some ''downtime_window_elapsed'') e) (wj_executions j),
         wj_suppressions := push_suppression
           (suppression_for (we_execution_id e) ''EXPIRED'' (Some ''downtime_window_elapsed'') e) (wj_suppressions j)\<rparr>)"
    using assms overdue_live terminal_expired by (intro finalize_live) auto
  moreover have "finalized ''EXPIRED'' (Some ''downtime_window_elapsed'') e = expired e"
    by (simp add: finalized_def expired_def str_or_def)
  ultimately show "fst (apply_wait_recovery_delta (recovery_delta_for e) j) = Inr ()"
    and "wj_executions (snd (apply_wait_recovery_delta (recovery_delta_for e) j))
      = dput (we_execution_id e) (expired e) (wj_executions j)"
    using assms overdue_live [OF assms(2)]
    by (simp_all add: apply_wait_recovery_delta_def recovery_delta_for_def)
qed

lemma apply_recoveries:
  assumes "distinct (map we_execution_id es)" and "\<And>e. e \<in> set es \<Longrightarrow> overdue age e"
    and "\<And>e. e \<in> set es \<Longrightarrow> map_of (wj_executions j) (we_execution_id e) = Some e"
  shows "fst (apply_wait_recovery_deltas (map recovery_delta_for es) j) = Inr ()
    \<and> map_of (wj_executions (snd (apply_wait_recovery_deltas (map recovery_delta_for es) j)))
      = map_of (wj_executions j) ++ map_of (map (\<lambda>e. (we_execution_id e, expired e)) es)"
  using assms
proof (induction es arbitrary: j)
  case Nil
  then show ?case by simp
next
  case (Cons e es)
  let ?r = "apply_wait_recovery_delta (recovery_delta_for e) j"
  have one: "fst ?r = Inr ()" "wj_executions (snd ?r) = dput (we_execution_id e) (expired e) (wj_executions j)"
    using apply_one_recovery [of j e age] Cons.prems by auto
  have rest: "map_of (wj_executions (snd ?r)) (we_execution_id f) = Some f" if "f \<in> set es" for f
  proof -
    have "we_execution_id f \<noteq> we_execution_id e" using Cons.prems(1) that by (metis distinct.simps(2) image_eqI list.simps(9) set_map)
    then show ?thesis using one(2) Cons.prems(3) [of f] that by simp
  qed
  have ih: "fst (apply_wait_recovery_deltas (map recovery_delta_for es) (snd ?r)) = Inr ()"
    "map_of (wj_executions (snd (apply_wait_recovery_deltas (map recovery_delta_for es) (snd ?r))))
      = map_of (wj_executions (snd ?r)) ++ map_of (map (\<lambda>e. (we_execution_id e, expired e)) es)"
    using Cons.IH [of "snd ?r"] Cons.prems rest by auto
  have "?r = (Inr (), snd ?r)" using one(1) by (metis prod.collapse)
  then have step: "apply_wait_recovery_deltas (map recovery_delta_for (e # es)) j
      = apply_wait_recovery_deltas (map recovery_delta_for es) (snd ?r)"
    by (simp add: case_prod_unfold one(1))
  have "we_execution_id e \<notin> dom (map_of (map (\<lambda>e. (we_execution_id e, expired e)) es))"
    using Cons.prems(1) by (auto simp: dom_map_of_conv_image_fst image_image)
  then show ?case
    using ih one(2) unfolding step
    by (auto simp: map_add_upd_left map_add_def fun_eq_iff split: option.splits)
qed

section \<open>Properties\<close>

text \<open>The trust classification of a gap never grants more than \<open>MAX_DOWNTIME_AGE_ADVANCE\<close> ticks of age, nor a
  negative number. A gap is either trusted, and then lies between zero and an hour and is worth its whole minutes
  (as binary64 divides), or it is conservative, and then is worth nothing, whatever the clocks report.\<close>

theorem downtime_advance_bounded:
  assumes "classify_downtime_trust prior_anchor sample wall_clock_mapping = Inr t"
  shows "0 \<le> tr_age_advance t \<and> tr_age_advance t \<le> MAX_DOWNTIME_AGE_ADVANCE
    \<and> (tr_conservative t \<longleftrightarrow> tr_trust_class t \<noteq> TRUSTED_SHORT)
    \<and> (tr_conservative t \<longrightarrow> tr_age_advance t = 0 \<and> tr_fractional_remainder t = Fin 0)
    \<and> (\<not> tr_conservative t \<longrightarrow> (\<exists>q r. tr_elapsed_seconds t = Fin q \<and> 0 \<le> q \<and> q \<le> 3600
         \<and> tr_age_advance t = \<lfloor>rnd (q / 60)\<rfloor>
         \<and> tr_fractional_remainder t = Fin r \<and> 0 \<le> r \<and> r \<le> 1))"
  using classify_cases [OF assms]
  by (auto simp: conservative_ok_def trusted_ok_def MAX_DOWNTIME_AGE_ADVANCE_def)

definition example_anchor :: time_anchor where
  "example_anchor = with_anchor_state_hash plain_env
     \<lparr>ta_organism_age_ticks = 7, ta_organism_active_ticks = 7, ta_state_version = 7, ta_state_hash = [],
      ta_wall_time = Some (Fin 1000), ta_wall_time_source = Some ''system.clock'',
      ta_wall_time_uncertainty = Fin 0, ta_session_id_at_commit = ''s1'', ta_advance_id = ''advance:7'',
      ta_anchor_trust_class = TRUSTED_SHORT, ta_trust_reason_codes = [''wall_sample_present''],
      ta_eligible_as_downtime_baseline = True, ta_source_sample_hash = ''h''\<rparr>"

definition example_sample :: trusted_sample where
  "example_sample = \<lparr>sm_session_id = ''s2'', sm_monotonic_ns = 5, sm_optional_wall_time = Some (Fin 1300),
     sm_wall_time_source = Some ''system.clock'', sm_wall_time_uncertainty = Fin 0, sm_sample_sequence = 0\<rparr>"

lemma example_trust:
  "classify_downtime_trust example_anchor example_sample None = Inr
     \<lparr>tr_trust_class = TRUSTED_SHORT, tr_reason_codes = [''trusted_short_gap''], tr_elapsed_seconds = Fin 300,
      tr_age_advance = 5, tr_fractional_remainder = Fin 0, tr_conservative = False\<rparr>"
  by code_simp

lemma downtime_advance_bounded_witness:
  "\<exists>t. classify_downtime_trust example_anchor example_sample None = Inr t \<and> tr_age_advance t = 5
     \<and> tr_age_advance t \<le> MAX_DOWNTIME_AGE_ADVANCE"
  using downtime_advance_bounded [OF example_trust] example_trust by simp

text \<open>Recovery after downtime ends exactly the overdue waits. For every reachable journal, applying the deltas
  computed for the new age succeeds; each live wait whose deadline has come is then \<open>EXPIRED\<close> for
  \<open>downtime_window_elapsed\<close>, and every other execution is as it was.\<close>

theorem downtime_expires_overdue_waits:
  assumes "wait_steps E new_wait_journal j"
  shows "fst (apply_wait_recovery_deltas (compute_wait_recovery_deltas j age) j) = Inr ()
    \<and> (\<forall>i. get_execution (snd (apply_wait_recovery_deltas (compute_wait_recovery_deltas j age) j)) i
        = map_option (\<lambda>e. if we_status e \<in> set NON_TERMINAL_WAIT_STATUSES \<and> we_deadline_age_tick e \<le> age
            then e\<lparr>we_status := ''EXPIRED'', we_terminal_reason := Some ''downtime_window_elapsed''\<rparr> else e)
          (get_execution j i))"
proof -
  let ?es = "filter (overdue age) (map snd (wj_executions j))"
  have ok: "journal_ok j" using wait_steps_ok [OF assms new_journal_ok] .
  then have d: "dwf (wj_executions j)" by (simp add: journal_ok_def)
  have ids: "we_execution_id e = k" if "(k, e) \<in> set (wj_executions j)" for k e
    using ok that by (auto simp: journal_ok_def execution_ok_def)
  then have "map we_execution_id (map snd (wj_executions j)) = map fst (wj_executions j)" by auto
  then have dist: "distinct (map we_execution_id ?es)"
    using d by (metis distinct_map_filter)
  have look: "map_of (wj_executions j) (we_execution_id e) = Some e" if "e \<in> set ?es" for e
    using that ids d by (force simp: map_of_is_SomeI)
  have run: "fst (apply_wait_recovery_deltas (map recovery_delta_for ?es) j) = Inr ()"
    "map_of (wj_executions (snd (apply_wait_recovery_deltas (map recovery_delta_for ?es) j)))
      = map_of (wj_executions j) ++ map_of (map (\<lambda>e. (we_execution_id e, expired e)) ?es)"
    using apply_recoveries [OF dist _ look] by auto
  have "(map_of (wj_executions j) ++ map_of (map (\<lambda>e. (we_execution_id e, expired e)) ?es)) i
      = map_option (\<lambda>e. if overdue age e then expired e else e) (map_of (wj_executions j) i)" for i
  proof (cases "\<exists>e \<in> set ?es. we_execution_id e = i")
    case True
    then obtain e where e: "e \<in> set ?es" "we_execution_id e = i" by blast
    have "distinct (map fst (map (\<lambda>e. (we_execution_id e, expired e)) ?es))" using dist by (simp add: o_def)
    then have "map_of (map (\<lambda>e. (we_execution_id e, expired e)) ?es) i = Some (expired e)"
      using e by (intro map_of_is_SomeI) force+
    then show ?thesis using look [OF e(1)] e by simp
  next
    case False
    then have none: "map_of (map (\<lambda>e. (we_execution_id e, expired e)) ?es) i = None"
      by (auto simp: map_of_eq_None_iff image_image)
    have "\<not> overdue age e" if "map_of (wj_executions j) i = Some e" for e
      using map_of_mem [OF that] ids False by force
    then show ?thesis using none by (cases "map_of (wj_executions j) i") (simp_all add: map_add_def)
  qed
  then have "map_of (wj_executions (snd (apply_wait_recovery_deltas (map recovery_delta_for ?es) j))) i
      = map_option (\<lambda>e. if overdue age e then expired e else e) (map_of (wj_executions j) i)" for i
    using run(2) by simp
  then show ?thesis
    using run(1) unfolding compute_wait_deltas_eq get_execution_def overdue_def expired_def by blast
qed

lemma downtime_expires_overdue_waits_witness:
  "get_execution (snd (apply_wait_recovery_deltas (compute_wait_recovery_deltas example_journal 9) example_journal)) ''w1''
     = Some (example_execution\<lparr>we_status := ''EXPIRED'', we_terminal_reason := Some ''downtime_window_elapsed''\<rparr>)"
proof -
  have "get_execution example_journal ''w1'' = Some example_execution"
    by (simp add: example_journal_eq get_execution_def)
  then show ?thesis
    using downtime_expires_overdue_waits [OF example_reachable, of 9]
    by (simp add: example_execution_def NON_TERMINAL_WAIT_STATUSES_def)
qed

end
