(* ===== verification/TemporalEvents.thy ===== *)
theory TemporalEvents
  imports Downtime
begin

text \<open>
  \<open>temporal/events.py\<close>: the records an advance or a downtime reconciliation leaves in the ledger, their
  dictionary forms, how a state applies a plan, and how a log of records is replayed. The advance plan
  itself (\<open>temporal/engine.py\<close>) is declared here because the records are built from it.
\<close>

section \<open>Plans, records and envelopes\<close>

record anchor_delta =
  ad_trusted_sample_hash :: string
  ad_orchestration_sequence :: int

record temporal_advance_plan =
  tp_advance_id :: string
  tp_expected_state_version :: int
  tp_expected_state_hash :: string
  tp_orchestration_sequence :: int
  tp_trusted_sample_hash :: string
  tp_prior_age_ticks :: int
  tp_next_age_ticks :: int
  tp_prior_active_ticks :: int
  tp_next_active_ticks :: int
  tp_anchor_delta :: anchor_delta

definition ORCHESTRATION_TICK_COMMITTED :: string where
  "ORCHESTRATION_TICK_COMMITTED = ''orchestration_tick_committed''"

definition TEMPORAL_DOWNTIME_RECONCILED :: string where
  "TEMPORAL_DOWNTIME_RECONCILED = ''temporal_downtime_reconciled''"

record temporal_advance_record =
  ar_advance_id :: string
  ar_orchestration_sequence :: int
  ar_trusted_sample_hash :: string
  ar_prior_state_version :: int
  ar_new_state_version :: int
  ar_prior_state_hash :: string
  ar_new_state_hash :: string
  ar_prior_age_ticks :: int
  ar_new_age_ticks :: int
  ar_prior_active_ticks :: int
  ar_new_active_ticks :: int
  ar_prior_time_anchor :: time_anchor
  ar_new_time_anchor :: time_anchor
  ar_prior_wall_clock_mapping :: "wall_clock_mapping option"
  ar_new_wall_clock_mapping :: "wall_clock_mapping option"
  ar_prior_clock_uncertainty :: flt
  ar_new_clock_uncertainty :: flt

record downtime_reconciled_record =
  rr_downtime_interval_id :: string
  rr_reconciliation_id :: string
  rr_canonical_plan_hash :: string
  rr_prior_state_version :: int
  rr_new_state_version :: int
  rr_prior_state_hash :: string
  rr_new_state_hash :: string
  rr_trust_class :: string
  rr_trust_reason_codes :: "string list"
  rr_elapsed_seconds :: flt
  rr_age_advance :: int
  rr_fractional_remainder :: flt
  rr_registry_hash :: string
  rr_effect_plan_ids :: "string list"
  rr_effect_plan_hashes :: "string list"
  rr_skipped_contract_ids :: "string list"
  rr_expectation_recovery_deltas :: "pyv list"
  rr_wait_recovery_deltas :: "pyv list"
  rr_prior_time_anchor :: time_anchor
  rr_new_time_anchor :: time_anchor
  rr_prior_age_ticks :: int
  rr_new_age_ticks :: int
  rr_prior_active_ticks :: int
  rr_new_active_ticks :: int
  rr_conservative :: bool

record temporal_contained_event =
  ce_event_kind :: string
  ce_transaction_event_index :: int
  ce_payload_hash :: string

record temporal_transaction_envelope =
  te_transaction_id :: string
  te_prior_state_version :: int
  te_new_state_version :: int
  te_prior_state_hash :: string
  te_new_state_hash :: string
  te_ordered_events :: "temporal_contained_event list"

section \<open>Dictionary forms\<close>

definition payload_hash :: "hash_env \<Rightarrow> pyv \<Rightarrow> string" where
  "payload_hash E payload = hash_canonical E (canonical payload)"

definition anchor_to_dict :: "time_anchor \<Rightarrow> pyv" where
  "anchor_to_dict a = canonical (anchor_to_pyv a)"

definition anchor_from_dict :: "pyv \<Rightarrow> time_anchor res" where
  "anchor_from_dict data =
     andThen (fld data ''organism_age_ticks'' as_int) (\<lambda>age.
     andThen (fld data ''organism_active_ticks'' as_int) (\<lambda>active.
     andThen (fld data ''state_version'' as_int) (\<lambda>version.
     andThen (fld data ''state_hash'' as_str) (\<lambda>state_hash.
     andThen (fld_or data ''wall_time'' VNone (opt_conv plain_flt)) (\<lambda>wall_time.
     andThen (fld_or data ''wall_time_source'' VNone (opt_conv plain_str)) (\<lambda>wall_source.
     andThen (fld data ''wall_time_uncertainty'' as_float) (\<lambda>uncertainty.
     andThen (fld data ''session_id_at_commit'' as_str) (\<lambda>session_id.
     andThen (fld data ''advance_id'' as_str) (\<lambda>advance_id.
     andThen (fld data ''anchor_trust_class'' (\<lambda>v. andThen (as_str v) trust_of)) (\<lambda>trust_class.
     andThen (fld data ''trust_reason_codes'' (tuple_of as_str)) (\<lambda>reasons.
     andThen (fld data ''eligible_as_downtime_baseline'' as_bool) (\<lambda>eligible.
     andThen (fld data ''source_sample_hash'' as_str) (\<lambda>sample_hash.
     Inr \<lparr>ta_organism_age_ticks = age, ta_organism_active_ticks = active, ta_state_version = version,
       ta_state_hash = state_hash, ta_wall_time = wall_time, ta_wall_time_source = wall_source,
       ta_wall_time_uncertainty = uncertainty, ta_session_id_at_commit = session_id,
       ta_advance_id = advance_id, ta_anchor_trust_class = trust_class,
       ta_trust_reason_codes = reasons, ta_eligible_as_downtime_baseline = eligible,
       ta_source_sample_hash = sample_hash\<rparr>)))))))))))))"

definition mapping_to_dict :: "wall_clock_mapping option \<Rightarrow> pyv" where
  "mapping_to_dict m = v_opt (\<lambda>x. canonical (mapping_to_pyv x)) m"

definition mapping_from_pyv :: "pyv \<Rightarrow> wall_clock_mapping res" where
  "mapping_from_pyv data =
     andThen (fld data ''schema_version'' as_str) (\<lambda>schema_version.
     andThen (fld data ''session_id'' as_str) (\<lambda>session_id.
     andThen (get_or data ''monotonic_ns'' (VInt 0)) (\<lambda>legacy_ns.
     andThen (fld_or data ''monotonic_ns_at_mapping'' legacy_ns as_int) (\<lambda>ns.
     andThen (fld_or data ''wall_time_seconds'' VNone (opt_conv plain_flt)) (\<lambda>wall.
     andThen (fld_or data ''wall_time_source'' VNone (opt_conv plain_str)) (\<lambda>source.
     andThen (fld data ''uncertainty'' as_float) (\<lambda>uncertainty.
     Inr \<lparr>wm_schema_version = schema_version, wm_session_id = session_id,
       wm_monotonic_ns_at_mapping = ns, wm_wall_time_seconds = wall, wm_wall_time_source = source,
       wm_uncertainty = uncertainty\<rparr>)))))))"

definition mapping_from_dict :: "pyv \<Rightarrow> wall_clock_mapping option res" where
  "mapping_from_dict data = opt_conv mapping_from_pyv data"

definition advance_record_to_dict :: "temporal_advance_record \<Rightarrow> pyv" where
  "advance_record_to_dict r = VDict
     [(''advance_id'', VStr (ar_advance_id r)),
      (''orchestration_sequence'', VInt (ar_orchestration_sequence r)),
      (''trusted_sample_hash'', VStr (ar_trusted_sample_hash r)),
      (''prior_state_version'', VInt (ar_prior_state_version r)),
      (''new_state_version'', VInt (ar_new_state_version r)),
      (''prior_state_hash'', VStr (ar_prior_state_hash r)),
      (''new_state_hash'', VStr (ar_new_state_hash r)),
      (''prior_age_ticks'', VInt (ar_prior_age_ticks r)),
      (''new_age_ticks'', VInt (ar_new_age_ticks r)),
      (''prior_active_ticks'', VInt (ar_prior_active_ticks r)),
      (''new_active_ticks'', VInt (ar_new_active_ticks r)),
      (''prior_time_anchor'', anchor_to_dict (ar_prior_time_anchor r)),
      (''new_time_anchor'', anchor_to_dict (ar_new_time_anchor r)),
      (''prior_wall_clock_mapping'', mapping_to_dict (ar_prior_wall_clock_mapping r)),
      (''new_wall_clock_mapping'', mapping_to_dict (ar_new_wall_clock_mapping r)),
      (''prior_clock_uncertainty'', VFlt (ar_prior_clock_uncertainty r)),
      (''new_clock_uncertainty'', VFlt (ar_new_clock_uncertainty r))]"

definition advance_record_from_dict :: "pyv \<Rightarrow> temporal_advance_record res" where
  "advance_record_from_dict data =
     andThen (fld data ''advance_id'' as_str) (\<lambda>advance_id.
     andThen (fld data ''orchestration_sequence'' as_int) (\<lambda>sequence.
     andThen (fld data ''trusted_sample_hash'' as_str) (\<lambda>sample_hash.
     andThen (fld data ''prior_state_version'' as_int) (\<lambda>prior_version.
     andThen (fld data ''new_state_version'' as_int) (\<lambda>new_version.
     andThen (fld data ''prior_state_hash'' as_str) (\<lambda>prior_hash.
     andThen (fld data ''new_state_hash'' as_str) (\<lambda>new_hash.
     andThen (fld data ''prior_age_ticks'' as_int) (\<lambda>prior_age.
     andThen (fld data ''new_age_ticks'' as_int) (\<lambda>new_age.
     andThen (fld data ''prior_active_ticks'' as_int) (\<lambda>prior_active.
     andThen (fld data ''new_active_ticks'' as_int) (\<lambda>new_active.
     andThen (fld data ''prior_time_anchor'' anchor_from_dict) (\<lambda>prior_anchor.
     andThen (fld data ''new_time_anchor'' anchor_from_dict) (\<lambda>new_anchor.
     andThen (fld_or data ''prior_wall_clock_mapping'' VNone mapping_from_dict) (\<lambda>prior_mapping.
     andThen (fld_or data ''new_wall_clock_mapping'' VNone mapping_from_dict) (\<lambda>new_mapping.
     andThen (fld data ''prior_clock_uncertainty'' as_float) (\<lambda>prior_uncertainty.
     andThen (fld data ''new_clock_uncertainty'' as_float) (\<lambda>new_uncertainty.
     Inr \<lparr>ar_advance_id = advance_id, ar_orchestration_sequence = sequence,
       ar_trusted_sample_hash = sample_hash, ar_prior_state_version = prior_version,
       ar_new_state_version = new_version, ar_prior_state_hash = prior_hash,
       ar_new_state_hash = new_hash, ar_prior_age_ticks = prior_age, ar_new_age_ticks = new_age,
       ar_prior_active_ticks = prior_active, ar_new_active_ticks = new_active,
       ar_prior_time_anchor = prior_anchor, ar_new_time_anchor = new_anchor,
       ar_prior_wall_clock_mapping = prior_mapping, ar_new_wall_clock_mapping = new_mapping,
       ar_prior_clock_uncertainty = prior_uncertainty,
       ar_new_clock_uncertainty = new_uncertainty\<rparr>)))))))))))))))))"

definition contained_event_to_pyv :: "temporal_contained_event \<Rightarrow> pyv" where
  "contained_event_to_pyv e = VDict
     [(''event_kind'', VStr (ce_event_kind e)),
      (''transaction_event_index'', VInt (ce_transaction_event_index e)),
      (''payload_hash'', VStr (ce_payload_hash e))]"

definition envelope_to_dict :: "temporal_transaction_envelope \<Rightarrow> pyv" where
  "envelope_to_dict t = VDict
     [(''transaction_id'', VStr (te_transaction_id t)),
      (''prior_state_version'', VInt (te_prior_state_version t)),
      (''new_state_version'', VInt (te_new_state_version t)),
      (''prior_state_hash'', VStr (te_prior_state_hash t)),
      (''new_state_hash'', VStr (te_new_state_hash t)),
      (''ordered_events'', VList (map contained_event_to_pyv (te_ordered_events t)))]"

definition contained_event_of_pyv :: "pyv \<Rightarrow> temporal_contained_event res" where
  "contained_event_of_pyv v =
     andThen (fld v ''event_kind'' as_str) (\<lambda>kind.
     andThen (fld v ''transaction_event_index'' as_int) (\<lambda>index.
     andThen (fld v ''payload_hash'' as_str) (\<lambda>hash.
     Inr \<lparr>ce_event_kind = kind, ce_transaction_event_index = index, ce_payload_hash = hash\<rparr>)))"

definition envelope_from_dict :: "pyv \<Rightarrow> temporal_transaction_envelope res" where
  "envelope_from_dict data =
     andThen (fld data ''transaction_id'' as_str) (\<lambda>transaction_id.
     andThen (fld data ''prior_state_version'' as_int) (\<lambda>prior_version.
     andThen (fld data ''new_state_version'' as_int) (\<lambda>new_version.
     andThen (fld data ''prior_state_hash'' as_str) (\<lambda>prior_hash.
     andThen (fld data ''new_state_hash'' as_str) (\<lambda>new_hash.
     andThen (fld data ''ordered_events'' (tuple_of contained_event_of_pyv)) (\<lambda>events.
     Inr \<lparr>te_transaction_id = transaction_id, te_prior_state_version = prior_version,
       te_new_state_version = new_version, te_prior_state_hash = prior_hash,
       te_new_state_hash = new_hash, te_ordered_events = events\<rparr>))))))"

section \<open>Applying an advance plan\<close>

definition build_time_anchor ::
  "hash_env \<Rightarrow> temporal_advance_plan \<Rightarrow> trusted_sample \<Rightarrow> string \<Rightarrow> int \<Rightarrow> int \<Rightarrow> int \<Rightarrow> time_anchor" where
  "build_time_anchor E plan sample session_id age_ticks active_ticks state_version =
     (let (trust_class, trust_reasons, eligible) =
            (if sm_optional_wall_time sample \<noteq> None
             then (TRUSTED_SHORT, [''wall_sample_present''], True)
             else (MISSING_WALL, [''no_wall_sample''], False))
      in with_anchor_state_hash E
        \<lparr>ta_organism_age_ticks = age_ticks, ta_organism_active_ticks = active_ticks,
         ta_state_version = state_version, ta_state_hash = [],
         ta_wall_time = sm_optional_wall_time sample, ta_wall_time_source = sm_wall_time_source sample,
         ta_wall_time_uncertainty = sm_wall_time_uncertainty sample,
         ta_session_id_at_commit = session_id, ta_advance_id = tp_advance_id plan,
         ta_anchor_trust_class = trust_class, ta_trust_reason_codes = trust_reasons,
         ta_eligible_as_downtime_baseline = eligible,
         ta_source_sample_hash = tp_trusted_sample_hash plan\<rparr>)"

definition apply_advance_plan ::
  "hash_env \<Rightarrow> temporal_state \<Rightarrow> temporal_advance_plan \<Rightarrow> trusted_sample \<Rightarrow> string \<Rightarrow> temporal_state res" where
  "apply_advance_plan E state plan sample session_id =
     (if tp_expected_state_version plan \<noteq> ts_state_version state
      then Inl (TemporalEngineError ''expected_state_version_mismatch'')
      else if tp_expected_state_hash plan \<noteq> ts_state_hash state
      then Inl (TemporalEngineError ''expected_state_hash_mismatch'')
      else if tp_advance_id plan = ts_last_advance_id state
      then Inl (TemporalEngineError ''advance_id_already_committed'')
      else
        let new_version = ts_state_version state + 1;
            new_anchor = build_time_anchor E plan sample session_id (tp_next_age_ticks plan)
              (tp_next_active_ticks plan) new_version;
            new_mapping = (case build_wall_clock_mapping sample session_id of
               None \<Rightarrow> ts_wall_clock_mapping state | Some m \<Rightarrow> Some m);
            new_uncertainty = (if sm_optional_wall_time sample \<noteq> None
               then sm_wall_time_uncertainty sample else ts_clock_uncertainty state);
            base = state\<lparr>ts_organism_age_ticks := tp_next_age_ticks plan,
               ts_organism_active_ticks := tp_next_active_ticks plan,
               ts_last_committed_orchestration_sequence := tp_orchestration_sequence plan,
               ts_last_advance_id := tp_advance_id plan, ts_last_time_anchor := new_anchor,
               ts_wall_clock_mapping := new_mapping, ts_clock_uncertainty := new_uncertainty,
               ts_state_version := new_version, ts_state_hash := []\<rparr>
        in Inr (with_state_hash E base))"

definition build_advance_record ::
  "temporal_state \<Rightarrow> temporal_state \<Rightarrow> temporal_advance_plan \<Rightarrow> temporal_advance_record" where
  "build_advance_record prior new plan =
     \<lparr>ar_advance_id = tp_advance_id plan, ar_orchestration_sequence = tp_orchestration_sequence plan,
      ar_trusted_sample_hash = tp_trusted_sample_hash plan,
      ar_prior_state_version = ts_state_version prior, ar_new_state_version = ts_state_version new,
      ar_prior_state_hash = ts_state_hash prior, ar_new_state_hash = ts_state_hash new,
      ar_prior_age_ticks = ts_organism_age_ticks prior, ar_new_age_ticks = ts_organism_age_ticks new,
      ar_prior_active_ticks = ts_organism_active_ticks prior,
      ar_new_active_ticks = ts_organism_active_ticks new,
      ar_prior_time_anchor = ts_last_time_anchor prior, ar_new_time_anchor = ts_last_time_anchor new,
      ar_prior_wall_clock_mapping = ts_wall_clock_mapping prior,
      ar_new_wall_clock_mapping = ts_wall_clock_mapping new,
      ar_prior_clock_uncertainty = ts_clock_uncertainty prior,
      ar_new_clock_uncertainty = ts_clock_uncertainty new\<rparr>"

definition build_tick_transaction_envelope ::
  "hash_env \<Rightarrow> string \<Rightarrow> temporal_state \<Rightarrow> temporal_state \<Rightarrow> temporal_advance_record
    \<Rightarrow> temporal_transaction_envelope" where
  "build_tick_transaction_envelope E transaction_id prior new r =
     \<lparr>te_transaction_id = transaction_id, te_prior_state_version = ts_state_version prior,
      te_new_state_version = ts_state_version new, te_prior_state_hash = ts_state_hash prior,
      te_new_state_hash = ts_state_hash new,
      te_ordered_events = [\<lparr>ce_event_kind = ''temporal_tick_advance'', ce_transaction_event_index = 0,
        ce_payload_hash = payload_hash E (advance_record_to_dict r)\<rparr>]\<rparr>"

definition build_orchestration_tick_payload ::
  "int \<Rightarrow> int \<Rightarrow> temporal_advance_record \<Rightarrow> temporal_transaction_envelope \<Rightarrow> pyv" where
  "build_orchestration_tick_payload orchestration_sequence runtime_tick r envelope = VDict
     [(''orchestration_sequence'', VInt orchestration_sequence),
      (''runtime_tick'', VInt runtime_tick),
      (''temporal_advance_record'', advance_record_to_dict r),
      (''temporal_transaction'', envelope_to_dict envelope)]"

section \<open>Applying records\<close>

definition state_from_record_tail :: "temporal_state \<Rightarrow> temporal_advance_record \<Rightarrow> temporal_state" where
  "state_from_record_tail state r = state\<lparr>ts_organism_age_ticks := ar_new_age_ticks r,
     ts_organism_active_ticks := ar_new_active_ticks r,
     ts_last_committed_orchestration_sequence := ar_orchestration_sequence r,
     ts_last_advance_id := ar_advance_id r, ts_last_time_anchor := ar_new_time_anchor r,
     ts_wall_clock_mapping := ar_new_wall_clock_mapping r,
     ts_clock_uncertainty := ar_new_clock_uncertainty r,
     ts_state_version := ar_new_state_version r, ts_state_hash := ar_new_state_hash r\<rparr>"

definition apply_advance_record ::
  "temporal_state \<Rightarrow> temporal_advance_record \<Rightarrow> temporal_state res" where
  "apply_advance_record state r =
     (if ar_prior_state_version r \<noteq> ts_state_version state
      then Inl (TemporalReplayError ''prior_state_version_mismatch'')
      else if ar_prior_state_hash r \<noteq> ts_state_hash state
      then Inl (TemporalReplayError ''prior_state_hash_mismatch'')
      else if ar_prior_age_ticks r \<noteq> ts_organism_age_ticks state
      then Inl (TemporalReplayError ''prior_age_mismatch'')
      else
        let new_state = state_from_record_tail state r
        in if ar_new_state_hash r \<noteq> ts_state_hash new_state
           then Inl (TemporalReplayError ''new_state_hash_mismatch'') else Inr new_state)"

definition expectation_delta_from_dict :: "pyv \<Rightarrow> expectation_recovery_delta res" where
  "expectation_delta_from_dict data =
     andThen (fld data ''recurrence_id'' as_str) (\<lambda>recurrence_id.
     andThen (fld data ''expected_hypothesis_version'' as_int) (\<lambda>hypothesis_version.
     andThen (fld data ''expected_expectation_version'' as_int) (\<lambda>expectation_version.
     andThen (fld data ''action'' as_str) (\<lambda>action.
     andThen (fld data ''bounded_delta'' as_float) (\<lambda>bounded_delta.
     Inr \<lparr>xd_recurrence_id = recurrence_id, xd_expected_hypothesis_version = hypothesis_version,
       xd_expected_expectation_version = expectation_version, xd_action = action,
       xd_bounded_delta = bounded_delta\<rparr>)))))"

definition wait_delta_from_dict :: "pyv \<Rightarrow> wait_recovery_delta res" where
  "wait_delta_from_dict data =
     andThen (fld data ''execution_id'' as_str) (\<lambda>execution_id.
     andThen (fld data ''expected_status'' as_str) (\<lambda>expected_status.
     andThen (fld data ''terminal_status'' as_str) (\<lambda>terminal_status.
     andThen (fld data ''terminal_reason'' as_str) (\<lambda>terminal_reason.
     andThen (get_or data ''suppression_plan'' VNone) (\<lambda>plan.
     Inr \<lparr>wd_execution_id = execution_id, wd_expected_status = expected_status,
       wd_terminal_status = terminal_status, wd_terminal_reason = terminal_reason,
       wd_suppression_plan = (if plan = VNone then None else Some plan)\<rparr>)))))"

definition downtime_reconciled_record_to_dict :: "downtime_reconciled_record \<Rightarrow> pyv" where
  "downtime_reconciled_record_to_dict r = VDict
     [(''downtime_interval_id'', VStr (rr_downtime_interval_id r)),
      (''reconciliation_id'', VStr (rr_reconciliation_id r)),
      (''canonical_plan_hash'', VStr (rr_canonical_plan_hash r)),
      (''prior_state_version'', VInt (rr_prior_state_version r)),
      (''new_state_version'', VInt (rr_new_state_version r)),
      (''prior_state_hash'', VStr (rr_prior_state_hash r)),
      (''new_state_hash'', VStr (rr_new_state_hash r)),
      (''trust_class'', VStr (rr_trust_class r)),
      (''trust_reason_codes'', v_strs (rr_trust_reason_codes r)),
      (''elapsed_seconds'', VFlt (rr_elapsed_seconds r)),
      (''age_advance'', VInt (rr_age_advance r)),
      (''fractional_remainder'', VFlt (rr_fractional_remainder r)),
      (''registry_hash'', VStr (rr_registry_hash r)),
      (''effect_plan_ids'', v_strs (rr_effect_plan_ids r)),
      (''effect_plan_hashes'', v_strs (rr_effect_plan_hashes r)),
      (''skipped_contract_ids'', v_strs (rr_skipped_contract_ids r)),
      (''expectation_recovery_deltas'', VList (rr_expectation_recovery_deltas r)),
      (''wait_recovery_deltas'', VList (rr_wait_recovery_deltas r)),
      (''prior_time_anchor'', anchor_to_dict (rr_prior_time_anchor r)),
      (''new_time_anchor'', anchor_to_dict (rr_new_time_anchor r)),
      (''prior_age_ticks'', VInt (rr_prior_age_ticks r)),
      (''new_age_ticks'', VInt (rr_new_age_ticks r)),
      (''prior_active_ticks'', VInt (rr_prior_active_ticks r)),
      (''new_active_ticks'', VInt (rr_new_active_ticks r)),
      (''conservative'', VBool (rr_conservative r))]"

definition downtime_reconciled_record_from_dict :: "pyv \<Rightarrow> downtime_reconciled_record res" where
  "downtime_reconciled_record_from_dict data =
     andThen (fld data ''downtime_interval_id'' as_str) (\<lambda>interval_id.
     andThen (fld data ''reconciliation_id'' as_str) (\<lambda>reconciliation_id.
     andThen (fld data ''canonical_plan_hash'' as_str) (\<lambda>plan_hash.
     andThen (fld data ''prior_state_version'' as_int) (\<lambda>prior_version.
     andThen (fld data ''new_state_version'' as_int) (\<lambda>new_version.
     andThen (fld data ''prior_state_hash'' as_str) (\<lambda>prior_hash.
     andThen (fld data ''new_state_hash'' as_str) (\<lambda>new_hash.
     andThen (fld data ''trust_class'' as_str) (\<lambda>trust_class.
     andThen (fld data ''trust_reason_codes'' (tuple_of as_str)) (\<lambda>reasons.
     andThen (fld data ''elapsed_seconds'' as_float) (\<lambda>elapsed.
     andThen (fld data ''age_advance'' as_int) (\<lambda>age_advance.
     andThen (fld data ''fractional_remainder'' as_float) (\<lambda>fractional.
     andThen (fld data ''registry_hash'' as_str) (\<lambda>reg_hash.
     andThen (fld data ''effect_plan_ids'' (tuple_of as_str)) (\<lambda>effect_ids.
     andThen (fld data ''effect_plan_hashes'' (tuple_of as_str)) (\<lambda>effect_hashes.
     andThen (fld_or data ''skipped_contract_ids'' VNone
       (\<lambda>v. tuple_of as_str (or_else v (VList [])))) (\<lambda>skipped.
     andThen (fld_or data ''expectation_recovery_deltas'' VNone
       (\<lambda>v. as_list (or_else v (VList [])))) (\<lambda>expectation_deltas.
     andThen (fld_or data ''wait_recovery_deltas'' VNone
       (\<lambda>v. as_list (or_else v (VList [])))) (\<lambda>wait_deltas.
     andThen (fld data ''prior_time_anchor'' anchor_from_dict) (\<lambda>prior_anchor.
     andThen (fld data ''new_time_anchor'' anchor_from_dict) (\<lambda>new_anchor.
     andThen (fld data ''prior_age_ticks'' as_int) (\<lambda>prior_age.
     andThen (fld data ''new_age_ticks'' as_int) (\<lambda>new_age.
     andThen (fld data ''prior_active_ticks'' as_int) (\<lambda>prior_active.
     andThen (fld data ''new_active_ticks'' as_int) (\<lambda>new_active.
     andThen (fld data ''conservative'' as_bool) (\<lambda>conservative.
     Inr \<lparr>rr_downtime_interval_id = interval_id, rr_reconciliation_id = reconciliation_id,
       rr_canonical_plan_hash = plan_hash, rr_prior_state_version = prior_version,
       rr_new_state_version = new_version, rr_prior_state_hash = prior_hash,
       rr_new_state_hash = new_hash, rr_trust_class = trust_class, rr_trust_reason_codes = reasons,
       rr_elapsed_seconds = elapsed, rr_age_advance = age_advance,
       rr_fractional_remainder = fractional, rr_registry_hash = reg_hash,
       rr_effect_plan_ids = effect_ids, rr_effect_plan_hashes = effect_hashes,
       rr_skipped_contract_ids = skipped, rr_expectation_recovery_deltas = expectation_deltas,
       rr_wait_recovery_deltas = wait_deltas, rr_prior_time_anchor = prior_anchor,
       rr_new_time_anchor = new_anchor, rr_prior_age_ticks = prior_age, rr_new_age_ticks = new_age,
       rr_prior_active_ticks = prior_active, rr_new_active_ticks = new_active,
       rr_conservative = conservative\<rparr>)))))))))))))))))))))))))"

definition build_downtime_reconciled_record ::
  "temporal_state \<Rightarrow> temporal_state \<Rightarrow> downtime_reconciliation_plan \<Rightarrow> downtime_reconciled_record" where
  "build_downtime_reconciled_record prior new plan =
     \<lparr>rr_downtime_interval_id = dp_downtime_interval_id plan,
      rr_reconciliation_id = dp_reconciliation_id plan,
      rr_canonical_plan_hash = dp_canonical_plan_hash plan,
      rr_prior_state_version = ts_state_version prior, rr_new_state_version = ts_state_version new,
      rr_prior_state_hash = ts_state_hash prior, rr_new_state_hash = ts_state_hash new,
      rr_trust_class = trust_value (dp_trust_class plan),
      rr_trust_reason_codes = dp_trust_reason_codes plan,
      rr_elapsed_seconds = dp_elapsed_seconds plan, rr_age_advance = dp_age_advance plan,
      rr_fractional_remainder = dp_fractional_remainder plan,
      rr_registry_hash = dp_registry_hash plan, rr_effect_plan_ids = dp_effect_plan_ids plan,
      rr_effect_plan_hashes = dp_effect_plan_hashes plan,
      rr_skipped_contract_ids = dp_skipped_contract_ids plan,
      rr_expectation_recovery_deltas =
        map (\<lambda>d. canonical (expectation_delta_to_pyv d)) (dp_expectation_recovery_deltas plan),
      rr_wait_recovery_deltas = map (\<lambda>d. canonical (wait_delta_to_pyv d)) (dp_wait_recovery_deltas plan),
      rr_prior_time_anchor = dp_prior_time_anchor plan,
      rr_new_time_anchor = ts_last_time_anchor new,
      rr_prior_age_ticks = dp_prior_age_ticks plan, rr_new_age_ticks = dp_next_age_ticks plan,
      rr_prior_active_ticks = dp_prior_active_ticks plan,
      rr_new_active_ticks = dp_next_active_ticks plan, rr_conservative = dp_conservative plan\<rparr>"

definition apply_downtime_reconciled_record ::
  "temporal_state \<Rightarrow> downtime_reconciled_record \<Rightarrow> temporal_state res" where
  "apply_downtime_reconciled_record state r =
     (if rr_prior_state_version r \<noteq> ts_state_version state
      then Inl (TemporalReplayError ''prior_state_version_mismatch'')
      else if rr_prior_state_hash r \<noteq> ts_state_hash state
      then Inl (TemporalReplayError ''prior_state_hash_mismatch'')
      else if rr_prior_age_ticks r \<noteq> ts_organism_age_ticks state
      then Inl (TemporalReplayError ''prior_age_mismatch'')
      else
        andThen (mapE expectation_delta_from_dict (rr_expectation_recovery_deltas r)) (\<lambda>deltas.
        let new_state = state\<lparr>ts_organism_age_ticks := rr_new_age_ticks r,
              ts_organism_active_ticks := rr_new_active_ticks r,
              ts_last_advance_id := ta_advance_id (rr_new_time_anchor r),
              ts_last_time_anchor := rr_new_time_anchor r,
              ts_state_version := rr_new_state_version r, ts_state_hash := rr_new_state_hash r\<rparr>
        in andThen (if deltas \<noteq> [] then apply_expectation_recovery_deltas new_state deltas
                    else Inr new_state) (\<lambda>new_state2.
           if ts_state_hash new_state2 \<noteq> rr_new_state_hash r
           then Inl (TemporalReplayError ''new_state_hash_mismatch'') else Inr new_state2)))"

definition build_downtime_reconciled_payload ::
  "string \<Rightarrow> downtime_reconciled_record \<Rightarrow> temporal_transaction_envelope \<Rightarrow> pyv" where
  "build_downtime_reconciled_payload transaction_id r envelope = VDict
     [(''transaction_id'', VStr transaction_id),
      (''downtime_reconciled_record'', downtime_reconciled_record_to_dict r),
      (''temporal_transaction'', envelope_to_dict envelope)]"

definition build_downtime_transaction_envelope ::
  "hash_env \<Rightarrow> string \<Rightarrow> temporal_state \<Rightarrow> temporal_state \<Rightarrow> downtime_reconciled_record
    \<Rightarrow> temporal_transaction_envelope" where
  "build_downtime_transaction_envelope E transaction_id prior new r =
     \<lparr>te_transaction_id = transaction_id, te_prior_state_version = ts_state_version prior,
      te_new_state_version = ts_state_version new, te_prior_state_hash = ts_state_hash prior,
      te_new_state_hash = ts_state_hash new,
      te_ordered_events = [\<lparr>ce_event_kind = TEMPORAL_DOWNTIME_RECONCILED, ce_transaction_event_index = 0,
        ce_payload_hash = payload_hash E (downtime_reconciled_record_to_dict r)\<rparr>]\<rparr>"

section \<open>Replay\<close>

definition raw_record :: "pyv \<Rightarrow> string \<Rightarrow> pyv res" where
  "raw_record event key =
     andThen (get_or event ''payload'' VNone) (\<lambda>payload. get_or (or_else payload (VDict [])) key VNone)"

text \<open>One event of the log, on the state and the advance and interval ids seen so far.\<close>

definition replay_event ::
  "bool \<Rightarrow> temporal_state \<times> string list \<times> string list \<Rightarrow> pyv
    \<Rightarrow> (temporal_state \<times> string list \<times> string list) res" where
  "replay_event require_advance_record st event =
     (case st of (state, seen_advance_ids, seen_interval_ids) \<Rightarrow>
        andThen (get_or event ''event_type'' VNone) (\<lambda>event_type.
        if event_type = VStr TEMPORAL_DOWNTIME_RECONCILED then
          andThen (raw_record event ''downtime_reconciled_record'') (\<lambda>raw.
          if raw = VNone then Inl (TemporalReplayError ''missing_downtime_reconciled_record'')
          else andThen (downtime_reconciled_record_from_dict raw) (\<lambda>r.
            if rr_downtime_interval_id r \<in> set seen_interval_ids
            then Inl (TemporalReplayError ''duplicate_downtime_interval'')
            else andThen (apply_downtime_reconciled_record state r) (\<lambda>s.
              Inr (s, seen_advance_ids, rr_downtime_interval_id r # seen_interval_ids))))
        else if event_type \<noteq> VStr ORCHESTRATION_TICK_COMMITTED then Inr st
        else
          andThen (raw_record event ''temporal_advance_record'') (\<lambda>raw.
          if raw = VNone then
            if require_advance_record then Inl (TemporalReplayError ''missing_temporal_advance_record'')
            else Inr st
          else andThen (advance_record_from_dict raw) (\<lambda>r.
            if ar_advance_id r \<in> set seen_advance_ids
            then Inl (TemporalReplayError ''duplicate_advance_id'')
            else andThen (apply_advance_record state r) (\<lambda>s.
              Inr (s, ar_advance_id r # seen_advance_ids, seen_interval_ids))))))"

definition replay_temporal_state_from_events ::
  "temporal_state \<Rightarrow> pyv list \<Rightarrow> bool \<Rightarrow> temporal_state res" where
  "replay_temporal_state_from_events genesis events require_advance_record =
     andThen (foldE (replay_event require_advance_record) (genesis, [], []) events) (\<lambda>(state, _).
       Inr state)"

section \<open>The stored state\<close>

definition temporal_state_to_dict :: "temporal_state \<Rightarrow> pyv" where
  "temporal_state_to_dict s = canonical (temporal_state_to_pyv s)"

text \<open>\<open>(str(k), dict(v)) for k, v in ...\<close>\<close>

definition index_entry_of :: "pyv \<Rightarrow> (string \<times> pyv) res" where
  "index_entry_of entry = andThen (as_list entry) (\<lambda>parts.
     case parts of
       [k, v] \<Rightarrow> andThen (as_str k) (\<lambda>key. andThen (as_dict v) (\<lambda>d. Inr (key, VDict d)))
     | _ \<Rightarrow> Inl (ValueError ''unpack''))"

definition temporal_state_from_dict :: "pyv \<Rightarrow> temporal_state res" where
  "temporal_state_from_dict data =
     andThen (item data ''last_time_anchor'') (\<lambda>anchor_data.
     andThen (get_or data ''wall_clock_mapping'' VNone) (\<lambda>mapping_data.
     andThen (fld data ''schema_version'' as_str) (\<lambda>schema_version.
     andThen (fld data ''temporal_epoch_id'' as_str) (\<lambda>epoch_id.
     andThen (fld data ''initialized_from_commit'' as_str) (\<lambda>from_commit.
     andThen (fld data ''pre_temporal_history_ref'' as_str) (\<lambda>history_ref.
     andThen (fld data ''organism_age_ticks'' as_int) (\<lambda>age.
     andThen (fld data ''organism_active_ticks'' as_int) (\<lambda>active.
     andThen (fld data ''last_committed_orchestration_sequence'' as_int) (\<lambda>sequence.
     andThen (fld data ''last_advance_id'' as_str) (\<lambda>last_advance.
     andThen (anchor_from_dict anchor_data) (\<lambda>anchor.
     andThen (mapping_from_dict mapping_data) (\<lambda>mapping.
     andThen (fld data ''clock_uncertainty'' as_float) (\<lambda>uncertainty.
     andThen (fld_or data ''recurrence_index'' VNone
       (\<lambda>v. tuple_of index_entry_of (or_else v (VList [])))) (\<lambda>idx.
     andThen (fld_or data ''dedup_summary'' VNone dedup_from_dict) (\<lambda>summary.
     andThen (fld_or data ''observation_miss_keys'' VNone
       (\<lambda>v. tuple_of as_str (or_else v (VList [])))) (\<lambda>miss_keys.
     andThen (fld data ''state_version'' as_int) (\<lambda>version.
     andThen (fld data ''definition_hash'' as_str) (\<lambda>definition_hash.
     andThen (fld data ''state_hash'' as_str) (\<lambda>state_hash.
     Inr \<lparr>ts_schema_version = schema_version, ts_temporal_epoch_id = epoch_id,
       ts_initialized_from_commit = from_commit, ts_pre_temporal_history_ref = history_ref,
       ts_organism_age_ticks = age, ts_organism_active_ticks = active,
       ts_last_committed_orchestration_sequence = sequence, ts_last_advance_id = last_advance,
       ts_last_time_anchor = anchor, ts_wall_clock_mapping = mapping,
       ts_clock_uncertainty = uncertainty, ts_recurrence_index = idx, ts_dedup_summary = summary,
       ts_observation_miss_keys = miss_keys, ts_state_version = version,
       ts_definition_hash = definition_hash, ts_state_hash = state_hash\<rparr>)))))))))))))))))))"

section \<open>Round trips\<close>

lemma anchor_roundtrip [simp]: "anchor_from_dict (anchor_to_dict a) = Inr a"
  unfolding anchor_from_dict_def anchor_to_dict_def anchor_to_pyv_def
  by (simp add: fld_canonical fld_or_canonical del: canonical.simps(7) fld_VDict fld_or_VDict)

lemma mapping_roundtrip [simp]: "mapping_from_pyv (canonical (mapping_to_pyv m)) = Inr m"
  unfolding mapping_from_pyv_def mapping_to_pyv_def
  by (simp add: fld_canonical fld_or_canonical get_or_canonical del: canonical.simps(7) fld_VDict fld_or_VDict)

lemma mapping_dict_roundtrip [simp]: "mapping_from_dict (mapping_to_dict m) = Inr m"
proof -
  have "canonical (mapping_to_pyv x) \<noteq> VNone" for x by (simp add: mapping_to_pyv_def)
  then show ?thesis by (auto simp: mapping_from_dict_def mapping_to_dict_def)
qed

lemma advance_record_roundtrip [simp]: "advance_record_from_dict (advance_record_to_dict r) = Inr r"
  by (simp add: advance_record_from_dict_def advance_record_to_dict_def)

lemma downtime_record_roundtrip [simp]:
  "downtime_reconciled_record_from_dict (downtime_reconciled_record_to_dict r) = Inr r"
  by (simp add: downtime_reconciled_record_from_dict_def downtime_reconciled_record_to_dict_def or_else_list)

lemma contained_event_roundtrip [simp]: "contained_event_of_pyv (contained_event_to_pyv e) = Inr e"
  by (simp add: contained_event_of_pyv_def contained_event_to_pyv_def)

lemma envelope_roundtrip [simp]: "envelope_from_dict (envelope_to_dict t) = Inr t"
  by (simp add: envelope_from_dict_def envelope_to_dict_def)

section \<open>The stored state and its hash\<close>

definition canonical_index :: "pyv dict \<Rightarrow> pyv dict" where
  "canonical_index idx = map (\<lambda>(k, p). (k, canonical p)) idx"

definition payload_dicts :: "pyv dict \<Rightarrow> bool" where
  "payload_dicts idx \<longleftrightarrow> (\<forall>(k, p) \<in> set idx. \<exists>d. p = VDict d)"

lemma index_entry_canonical:
  "index_entry_of (canonical (VList [VStr k, VDict d])) = Inr (k, canonical (VDict d))"
  by (simp add: index_entry_of_def)

lemma index_roundtrip:
  assumes "payload_dicts idx"
  shows "tuple_of index_entry_of (or_else (canonical (index_to_pyv idx)) (VList [])) = Inr (canonical_index idx)"
proof -
  have "index_entry_of (canonical (VList [VStr k, p])) = Inr (k, canonical p)" if "(k, p) \<in> set idx" for k p
    using assms that index_entry_canonical by (auto simp: payload_dicts_def)
  then have "mapE index_entry_of (map (\<lambda>(k, p). canonical (VList [VStr k, p])) idx)
      = Inr (map (\<lambda>(k, p). (k, canonical p)) idx)"
    unfolding mapE_map by (intro mapE_Inr) auto
  moreover have "canonical (index_to_pyv idx) = VList (map (\<lambda>(k, p). canonical (VList [VStr k, p])) idx)"
    by (simp add: index_to_pyv_def case_prod_beta o_def)
  ultimately show ?thesis
    by (simp add: tuple_of_def or_else_def canonical_index_def)
qed

lemma dedup_canonical_roundtrip: "dedup_from_dict (canonical (dedup_to_dict s)) = Inr s"
proof -
  have "truthy (canonical (dedup_to_dict s))"
    by (simp add: dedup_to_dict_def sorted_items_def)
  then show ?thesis
    unfolding dedup_from_dict_def dedup_to_dict_def
    by (simp add: fld_canonical fld_or_canonical or_else_list
        del: canonical.simps(7) fld_VDict fld_or_VDict truthy.simps)
qed

lemma temporal_state_roundtrip:
  assumes "payload_dicts (ts_recurrence_index s)"
  shows "temporal_state_from_dict (temporal_state_to_dict s)
    = Inr (s\<lparr>ts_recurrence_index := canonical_index (ts_recurrence_index s)\<rparr>)"
proof -
  have a: "anchor_from_dict (canonical (anchor_to_pyv a)) = Inr a" for a
    using anchor_roundtrip [of a] by (simp only: anchor_to_dict_def)
  have m: "mapping_from_dict (v_opt (\<lambda>x. canonical (mapping_to_pyv x)) m) = Inr m" for m
    using mapping_dict_roundtrip [of m] by (simp only: mapping_to_dict_def)
  show ?thesis
    unfolding temporal_state_from_dict_def temporal_state_to_dict_def temporal_state_to_pyv_def
    using index_roundtrip [OF assms]
    by (simp add: fld_canonical fld_or_canonical get_or_canonical item_canonical a m dedup_canonical_roundtrip
        or_else_list del: canonical.simps(7) fld_VDict fld_or_VDict get_or.simps item.simps)
qed

lemma canonical_index_pyv: "canonical (index_to_pyv (canonical_index idx)) = canonical (index_to_pyv idx)"
  by (simp add: index_to_pyv_def canonical_index_def case_prod_beta o_def canonical_idem)

lemma state_body_canonical_index:
  "state_body (s\<lparr>ts_recurrence_index := canonical_index (ts_recurrence_index s)\<rparr>) = state_body s"
  by (simp add: state_body_def temporal_state_to_pyv_def canonical_index_pyv)

section \<open>Records as an event log\<close>

lemma advance_record_ok:
  assumes "apply_advance_record s r = Inr t"
  shows "ar_prior_state_version r = ts_state_version s" "ar_prior_state_hash r = ts_state_hash s"
    "ar_prior_age_ticks r = ts_organism_age_ticks s" "t = state_from_record_tail s r"
  using assms by (auto simp: apply_advance_record_def Let_def split: if_splits)

interpretation advance_log: event_log apply_advance_record ts_state_version ts_state_hash
    ar_prior_state_version ar_prior_state_hash ar_new_state_version ar_new_state_hash
  by unfold_locales (auto dest: advance_record_ok simp: state_from_record_tail_def)

lemma index_update_keeps:
  "andThen r (\<lambda>idx. Inr (s\<lparr>ts_recurrence_index := idx\<rparr>)) = Inr t \<Longrightarrow> t = s\<lparr>ts_recurrence_index := ts_recurrence_index t\<rparr>"
  by (cases r) auto

lemma recovery_delta_keeps:
  assumes "apply_expectation_recovery_delta s d = Inr t"
  shows "t = s\<lparr>ts_recurrence_index := ts_recurrence_index t\<rparr>"
proof -
  obtain h where h: "get_hypothesis_from_index (ts_recurrence_index s) (xd_recurrence_id d) = Inr (Some h)"
    using assms by (auto simp: apply_expectation_recovery_delta_def andThen_eq_Inr split: option.splits)
  show ?thesis
    using assms index_update_keeps
    by (simp add: apply_expectation_recovery_delta_def h Let_def split: if_splits)
qed

lemma recovery_deltas_keep:
  "apply_expectation_recovery_deltas s ds = Inr t \<Longrightarrow> t = s\<lparr>ts_recurrence_index := ts_recurrence_index t\<rparr>"
proof (induction ds arbitrary: s)
  case Nil
  then show ?case by (simp add: apply_expectation_recovery_deltas_def)
next
  case (Cons d ds)
  then obtain u where u: "apply_expectation_recovery_delta s d = Inr u"
    "apply_expectation_recovery_deltas u ds = Inr t"
    by (auto simp: apply_expectation_recovery_deltas_def andThen_eq_Inr)
  have "t = u\<lparr>ts_recurrence_index := ts_recurrence_index t\<rparr>" using Cons.IH [OF u(2)] .
  also have "\<dots> = s\<lparr>ts_recurrence_index := ts_recurrence_index t\<rparr>"
    by (subst recovery_delta_keeps [OF u(1)]) simp
  finally show ?case .
qed

lemma downtime_record_ok:
  assumes "apply_downtime_reconciled_record s r = Inr t"
  shows "rr_prior_state_version r = ts_state_version s" "rr_prior_state_hash r = ts_state_hash s"
    "ts_state_version t = rr_new_state_version r" "ts_state_hash t = rr_new_state_hash r"
proof -
  have keep: "apply_expectation_recovery_deltas u ds = Inr t \<Longrightarrow> ts_state_version t = ts_state_version u" for u ds
    by (drule recovery_deltas_keep, drule arg_cong [where f = ts_state_version], simp)
  show "rr_prior_state_version r = ts_state_version s" "rr_prior_state_hash r = ts_state_hash s"
    "ts_state_version t = rr_new_state_version r" "ts_state_hash t = rr_new_state_hash r"
    using assms
    by (auto simp: apply_downtime_reconciled_record_def Let_def andThen_eq_Inr
        dest: keep split: if_splits)
qed

interpretation downtime_log: event_log apply_downtime_reconciled_record ts_state_version ts_state_hash
    rr_prior_state_version rr_prior_state_hash rr_new_state_version rr_new_state_hash
  by unfold_locales (auto dest: downtime_record_ok)

section \<open>A committed advance and its record\<close>

lemma advance_replayed:
  assumes "apply_advance_plan E s plan sample sess = Inr s'"
  shows "apply_advance_record s (build_advance_record s s' plan) = Inr s'"
  using assms
  by (auto simp: apply_advance_plan_def apply_advance_record_def build_advance_record_def
      state_from_record_tail_def with_state_hash_def Let_def split: if_splits)

text \<open>A run of committed advances, with the record each leaves.\<close>

fun advance_run ::
  "hash_env \<Rightarrow> temporal_state \<Rightarrow> (temporal_advance_plan \<times> trusted_sample \<times> string) list
    \<Rightarrow> (temporal_state \<times> temporal_advance_record list) res" where
  "advance_run E s [] = Inr (s, [])"
| "advance_run E s ((plan, sample, sess) # steps) =
     andThen (apply_advance_plan E s plan sample sess) (\<lambda>s'.
     andThen (advance_run E s' steps) (\<lambda>(t, rs). Inr (t, build_advance_record s s' plan # rs)))"

definition tick_event :: "int \<Rightarrow> temporal_transaction_envelope \<Rightarrow> temporal_advance_record \<Rightarrow> pyv" where
  "tick_event tick envelope r = VDict
     [(''event_type'', VStr ORCHESTRATION_TICK_COMMITTED),
      (''payload'', build_orchestration_tick_payload (ar_orchestration_sequence r) tick r envelope)]"

lemma raw_tick: "raw_record (tick_event tick envelope r) ''temporal_advance_record'' = Inr (advance_record_to_dict r)"
  by (simp add: raw_record_def tick_event_def build_orchestration_tick_payload_def or_else_def)

lemma advance_dict_not_None: "advance_record_to_dict r \<noteq> VNone"
  by (simp add: advance_record_to_dict_def)

lemma replay_tick:
  assumes "ar_advance_id r \<notin> set seen" and "apply_advance_record s r = Inr t"
  shows "replay_event req (s, seen, ints) (tick_event tick envelope r) = Inr (t, ar_advance_id r # seen, ints)"
proof -
  have "get_or (tick_event tick envelope r) ''event_type'' VNone = Inr (VStr ORCHESTRATION_TICK_COMMITTED)"
    by (simp add: tick_event_def)
  then show ?thesis
    using assms advance_dict_not_None
    by (simp add: replay_event_def raw_tick ORCHESTRATION_TICK_COMMITTED_def TEMPORAL_DOWNTIME_RECONCILED_def)
qed

lemma replay_ticks:
  assumes "foldE apply_advance_record s rs = Inr t" and "distinct (map ar_advance_id rs)"
    and "set (map ar_advance_id rs) \<inter> set seen = {}"
  shows "\<exists>seen'. foldE (replay_event req) (s, seen, ints) (map (\<lambda>r. tick_event (f r) (g r) r) rs) = Inr (t, seen', ints)"
  using assms
proof (induction rs arbitrary: s seen)
  case Nil
  then show ?case by simp
next
  case (Cons r rs)
  then obtain u where u: "apply_advance_record s r = Inr u" and rest: "foldE apply_advance_record u rs = Inr t"
    by (auto simp: andThen_eq_Inr)
  have "replay_event req (s, seen, ints) (tick_event (f r) (g r) r) = Inr (u, ar_advance_id r # seen, ints)"
    using replay_tick u Cons.prems(3) by simp
  then show ?case using Cons.IH [OF rest, of "ar_advance_id r # seen"] Cons.prems by auto
qed

lemma advance_run_records:
  "advance_run E s steps = Inr (t, rs) \<Longrightarrow> foldE apply_advance_record s rs = Inr t"
proof (induction E s steps arbitrary: t rs rule: advance_run.induct)
  case (2 E s plan sample sess steps)
  then show ?case by (auto simp: andThen_eq_Inr advance_replayed)
qed simp

section \<open>A committed reconciliation and its record\<close>

lemma recovery_delta_same_index:
  assumes "apply_expectation_recovery_delta s d = Inr t" and "ts_recurrence_index s2 = ts_recurrence_index s"
  shows "apply_expectation_recovery_delta s2 d = Inr (s2\<lparr>ts_recurrence_index := ts_recurrence_index t\<rparr>)"
proof -
  obtain h where h: "get_hypothesis_from_index (ts_recurrence_index s) (xd_recurrence_id d) = Inr (Some h)"
    using assms by (auto simp: apply_expectation_recovery_delta_def andThen_eq_Inr split: option.splits)
  have store: "andThen r (\<lambda>idx. Inr (s\<lparr>ts_recurrence_index := idx\<rparr>)) = Inr t \<Longrightarrow>
      andThen r (\<lambda>idx. Inr (s2\<lparr>ts_recurrence_index := idx\<rparr>)) = Inr (s2\<lparr>ts_recurrence_index := ts_recurrence_index t\<rparr>)"
    for r by (cases r) auto
  have same: "s2\<lparr>ts_recurrence_index := ts_recurrence_index s\<rparr> = s2" using assms(2) by simp
  show ?thesis
    using assms store same
    by (simp add: apply_expectation_recovery_delta_def h Let_def split: if_splits)
qed

lemma recovery_deltas_same_index:
  "apply_expectation_recovery_deltas s ds = Inr t \<Longrightarrow> ts_recurrence_index s2 = ts_recurrence_index s \<Longrightarrow>
     apply_expectation_recovery_deltas s2 ds = Inr (s2\<lparr>ts_recurrence_index := ts_recurrence_index t\<rparr>)"
proof (induction ds arbitrary: s s2)
  case Nil
  have "s2\<lparr>ts_recurrence_index := ts_recurrence_index s\<rparr> = s2" using Nil(2) by simp
  then show ?case using Nil by (simp add: apply_expectation_recovery_deltas_def)
next
  case (Cons d ds)
  then obtain u where u: "apply_expectation_recovery_delta s d = Inr u"
    "apply_expectation_recovery_deltas u ds = Inr t"
    by (auto simp: apply_expectation_recovery_deltas_def andThen_eq_Inr)
  let ?u2 = "s2\<lparr>ts_recurrence_index := ts_recurrence_index u\<rparr>"
  have "apply_expectation_recovery_deltas ?u2 ds = Inr (?u2\<lparr>ts_recurrence_index := ts_recurrence_index t\<rparr>)"
    using Cons.IH [OF u(2), of ?u2] by simp
  then show ?case
    using recovery_delta_same_index [OF u(1) Cons.prems(2)]
    by (simp add: apply_expectation_recovery_deltas_def)
qed

lemma expectation_delta_roundtrip [simp]:
  "expectation_delta_from_dict (canonical (expectation_delta_to_pyv d)) = Inr d"
  unfolding expectation_delta_from_dict_def expectation_delta_to_pyv_def
  by (simp add: fld_canonical del: canonical.simps(7) fld_VDict)

lemma expectation_deltas_roundtrip:
  "mapE expectation_delta_from_dict (map (\<lambda>d. canonical (expectation_delta_to_pyv d)) ds) = Inr ds"
  by (induction ds) simp_all

definition downtime_base :: "hash_env \<Rightarrow> temporal_state \<Rightarrow> downtime_reconciliation_plan \<Rightarrow> trusted_sample \<Rightarrow> temporal_state" where
  "downtime_base E s plan sample =
     (let new_anchor = with_anchor_state_hash E ((dp_new_time_anchor plan)\<lparr>ta_state_version := ts_state_version s + 1\<rparr>)
      in s\<lparr>ts_organism_age_ticks := dp_next_age_ticks plan,
           ts_organism_active_ticks := dp_next_active_ticks plan,
           ts_last_advance_id := ta_advance_id new_anchor, ts_last_time_anchor := new_anchor,
           ts_wall_clock_mapping := (case build_wall_clock_mapping sample (dp_session_id plan) of
               None \<Rightarrow> ts_wall_clock_mapping s | Some m \<Rightarrow> Some m),
           ts_clock_uncertainty := (if sm_optional_wall_time sample \<noteq> None
               then sm_wall_time_uncertainty sample else ts_clock_uncertainty s),
           ts_state_version := ts_state_version s + 1, ts_state_hash := []\<rparr>)"

lemma apply_downtime_plan_cases:
  assumes "apply_downtime_plan_to_state E s plan sample = Inr s'"
  obtains b where "apply_expectation_recovery_deltas (downtime_base E s plan sample)
      (dp_expectation_recovery_deltas plan) = Inr b"
    "b = (downtime_base E s plan sample)\<lparr>ts_recurrence_index := ts_recurrence_index b\<rparr>"
    "s' = with_state_hash E b"
    "dp_expected_state_version plan = ts_state_version s" "dp_expected_state_hash plan = ts_state_hash s"
proof -
  have v: "dp_expected_state_version plan = ts_state_version s" "dp_expected_state_hash plan = ts_state_hash s"
    using assms by (auto simp: apply_downtime_plan_to_state_def split: if_splits)
  have "andThen (if dp_expectation_recovery_deltas plan \<noteq> []
        then apply_expectation_recovery_deltas (downtime_base E s plan sample) (dp_expectation_recovery_deltas plan)
        else Inr (downtime_base E s plan sample)) (\<lambda>base2. Inr (with_state_hash E base2)) = Inr s'"
    using assms by (simp only: apply_downtime_plan_to_state_def downtime_base_def Let_def v simp_thms if_False)
  then obtain b where b: "apply_expectation_recovery_deltas (downtime_base E s plan sample)
      (dp_expectation_recovery_deltas plan) = Inr b" and s': "s' = with_state_hash E b"
    by (cases "dp_expectation_recovery_deltas plan")
      (auto simp: andThen_eq_Inr apply_expectation_recovery_deltas_def)
  show ?thesis using that [OF b recovery_deltas_keep [OF b] s' v] .
qed

lemma with_state_hash_fields [simp]:
  "ts_recurrence_index (with_state_hash E s) = ts_recurrence_index s"
  "ts_last_time_anchor (with_state_hash E s) = ts_last_time_anchor s"
  "ts_state_version (with_state_hash E s) = ts_state_version s"
  "ts_organism_age_ticks (with_state_hash E s) = ts_organism_age_ticks s"
  "ts_organism_active_ticks (with_state_hash E s) = ts_organism_active_ticks s"
  "ts_last_advance_id (with_state_hash E s) = ts_last_advance_id s"
  "ts_wall_clock_mapping (with_state_hash E s) = ts_wall_clock_mapping s"
  "ts_clock_uncertainty (with_state_hash E s) = ts_clock_uncertainty s"
  "ts_dedup_summary (with_state_hash E s) = ts_dedup_summary s"
  "ts_observation_miss_keys (with_state_hash E s) = ts_observation_miss_keys s"
  by (simp_all add: with_state_hash_def Let_def)

lemma downtime_replayed:
  assumes "apply_downtime_plan_to_state E s plan sample = Inr s'"
    and "dp_prior_age_ticks plan = ts_organism_age_ticks s"
  shows "apply_downtime_reconciled_record s (build_downtime_reconciled_record s s' plan)
    = Inr (s'\<lparr>ts_wall_clock_mapping := ts_wall_clock_mapping s, ts_clock_uncertainty := ts_clock_uncertainty s\<rparr>)"
  using assms(1)
proof (cases rule: apply_downtime_plan_cases)
  case (1 b)
  let ?r = "build_downtime_reconciled_record s s' plan"
  let ?B = "s\<lparr>ts_organism_age_ticks := rr_new_age_ticks ?r, ts_organism_active_ticks := rr_new_active_ticks ?r,
      ts_last_advance_id := ta_advance_id (rr_new_time_anchor ?r),
      ts_last_time_anchor := rr_new_time_anchor ?r,
      ts_state_version := rr_new_state_version ?r, ts_state_hash := rr_new_state_hash ?r\<rparr>"
  have idx: "ts_recurrence_index ?B = ts_recurrence_index (downtime_base E s plan sample)"
    by (simp add: downtime_base_def Let_def)
  have deltas: "apply_expectation_recovery_deltas ?B (dp_expectation_recovery_deltas plan)
      = Inr (?B\<lparr>ts_recurrence_index := ts_recurrence_index b\<rparr>)"
    by (rule recovery_deltas_same_index [OF 1(1) idx])
  then have deltas': "(if dp_expectation_recovery_deltas plan \<noteq> []
      then apply_expectation_recovery_deltas ?B (dp_expectation_recovery_deltas plan) else Inr ?B)
      = Inr (?B\<lparr>ts_recurrence_index := ts_recurrence_index b\<rparr>)"
    by (cases "dp_expectation_recovery_deltas plan") (simp_all add: apply_expectation_recovery_deltas_def)
  have parse: "mapE expectation_delta_from_dict (rr_expectation_recovery_deltas ?r)
      = Inr (dp_expectation_recovery_deltas plan)"
    by (simp add: build_downtime_reconciled_record_def expectation_deltas_roundtrip)
  have "apply_downtime_reconciled_record s ?r = Inr (?B\<lparr>ts_recurrence_index := ts_recurrence_index b\<rparr>)"
  proof -
    have priors: "rr_prior_state_version ?r = ts_state_version s" "rr_prior_state_hash ?r = ts_state_hash s"
      "rr_prior_age_ticks ?r = ts_organism_age_ticks s"
      using assms(2) by (simp_all add: build_downtime_reconciled_record_def)
    have h: "ts_state_hash (?B\<lparr>ts_recurrence_index := ts_recurrence_index b\<rparr>) = rr_new_state_hash ?r" by simp
    show ?thesis
      unfolding apply_downtime_reconciled_record_def priors parse andThen.simps Let_def deltas'
      using h by simp
  qed
  moreover have "?B\<lparr>ts_recurrence_index := ts_recurrence_index b\<rparr>
      = s'\<lparr>ts_wall_clock_mapping := ts_wall_clock_mapping s, ts_clock_uncertainty := ts_clock_uncertainty s\<rparr>"
  proof -
    have r: "rr_new_time_anchor ?r = ts_last_time_anchor b" "rr_new_state_version ?r = ts_state_version b"
      "rr_new_state_hash ?r = ts_state_hash s'" "rr_new_age_ticks ?r = dp_next_age_ticks plan"
      "rr_new_active_ticks ?r = dp_next_active_ticks plan"
      using 1(3) by (simp_all add: build_downtime_reconciled_record_def)
    have s': "s' = b\<lparr>ts_state_hash := ts_state_hash s'\<rparr>"
      using 1(3) by (simp add: with_state_hash_def Let_def)
    show ?thesis
      unfolding r by (subst s', subst (1 2 3 4) 1(2)) (simp add: downtime_base_def Let_def)
  qed
  ultimately show ?thesis by simp
qed

section \<open>Properties\<close>

text \<open>C5: replaying the ledger reproduces the engine. For every run of committed advances with different advance
  ids, the event log built from the records it left (their dictionaries inside tick payloads, with any envelope)
  replays from the starting state to exactly the state the run reached, in both replay modes.\<close>

theorem replay_reproduces_advances:
  assumes "advance_run E s steps = Inr (t, rs)" and "distinct (map ar_advance_id rs)"
  shows "replay_temporal_state_from_events s (map (\<lambda>r. tick_event (tick r) (envelope r) r) rs) require_record = Inr t"
  using replay_ticks [OF advance_run_records [OF assms(1)] assms(2), of "[]" require_record "[]" tick envelope]
  by (auto simp: replay_temporal_state_from_events_def)

definition example_state :: temporal_state where
  "example_state = sample_temporal_state plain_env"

definition example_plan :: temporal_advance_plan where
  "example_plan = \<lparr>tp_advance_id = ''advance:a1'', tp_expected_state_version = ts_state_version example_state,
     tp_expected_state_hash = ts_state_hash example_state, tp_orchestration_sequence = 1,
     tp_trusted_sample_hash = compute_sample_hash plain_env example_sample, tp_prior_age_ticks = 0,
     tp_next_age_ticks = 1, tp_prior_active_ticks = 0, tp_next_active_ticks = 1,
     tp_anchor_delta = \<lparr>ad_trusted_sample_hash = compute_sample_hash plain_env example_sample,
       ad_orchestration_sequence = 1\<rparr>\<rparr>"

lemma example_fresh: "tp_advance_id example_plan \<noteq> ts_last_advance_id example_state"
  by (simp add: example_plan_def example_state_def sample_temporal_state_def initialize_temporal_epoch_def Let_def
      with_state_hash_def GENESIS_ADVANCE_ID_def)

lemma example_advance: "\<exists>t. apply_advance_plan plain_env example_state example_plan example_sample ''s2'' = Inr t"
  using example_fresh
  by (simp add: apply_advance_plan_def Let_def example_plan_def)

lemma replay_reproduces_advances_witness:
  "\<exists>t r. apply_advance_plan plain_env example_state example_plan example_sample ''s2'' = Inr t
     \<and> replay_temporal_state_from_events example_state
         [tick_event 1 (build_tick_transaction_envelope plain_env ''txn:1'' example_state t r) r] True = Inr t"
proof -
  obtain t where t: "apply_advance_plan plain_env example_state example_plan example_sample ''s2'' = Inr t"
    using example_advance by blast
  let ?r = "build_advance_record example_state t example_plan"
  have "advance_run plain_env example_state [(example_plan, example_sample, ''s2'')] = Inr (t, [?r])"
    using t by simp
  from replay_reproduces_advances [OF this, of "\<lambda>_. 1"
      "\<lambda>r. build_tick_transaction_envelope plain_env ''txn:1'' example_state t r" True] t
  show ?thesis by auto
qed

text \<open>C6: a stored state is read back as it was, field for field; only the keys inside the payloads of the recurrence
  index come back sorted. The hash of the state read back is the hash of the state stored.\<close>

theorem stored_state_read_back:
  assumes "\<And>k p. (k, p) \<in> set (ts_recurrence_index s) \<Longrightarrow> \<exists>d. p = VDict d"
  shows "\<exists>s'. temporal_state_from_dict (temporal_state_to_dict s) = Inr s'
    \<and> s' = s\<lparr>ts_recurrence_index := map (\<lambda>(k, p). (k, canonical p)) (ts_recurrence_index s)\<rparr>
    \<and> compute_state_hash E s' = compute_state_hash E s"
proof -
  have "payload_dicts (ts_recurrence_index s)" using assms by (auto simp: payload_dicts_def)
  then show ?thesis
    using temporal_state_roundtrip state_body_canonical_index [of s]
    by (simp add: canonical_index_def compute_state_hash_def)
qed

lemma stored_state_read_back_witness:
  "\<exists>s'. temporal_state_from_dict (temporal_state_to_dict example_state) = Inr s'
     \<and> compute_state_hash plain_env s' = compute_state_hash plain_env example_state"
proof -
  have "ts_recurrence_index example_state = []"
    by (simp add: example_state_def sample_temporal_state_def initialize_temporal_epoch_def Let_def)
  then show ?thesis using stored_state_read_back [of example_state plain_env] by auto
qed

text \<open>The hash test at the end of \<open>apply_advance_record\<close> compares the record's new hash with itself. A record
  that replays still replays after its new hash, age, anchor and clock mapping are replaced by anything, and the
  state then carries the replaced values.\<close>

theorem advance_record_not_verified:
  assumes "apply_advance_record s r = Inr t"
  shows "apply_advance_record s (r\<lparr>ar_new_state_hash := h, ar_new_age_ticks := age, ar_new_time_anchor := anchor,
       ar_new_wall_clock_mapping := mapping\<rparr>)
    = Inr (t\<lparr>ts_state_hash := h, ts_organism_age_ticks := age, ts_last_time_anchor := anchor,
        ts_wall_clock_mapping := mapping\<rparr>)"
  using assms
  by (auto simp: apply_advance_record_def state_from_record_tail_def Let_def split: if_splits)

lemma advance_record_not_verified_witness:
  "\<exists>r t. apply_advance_record example_state r = Inr t \<and> ts_state_hash t = ''forged'' \<and> ts_organism_age_ticks t = 1000000"
proof -
  obtain t where "apply_advance_plan plain_env example_state example_plan example_sample ''s2'' = Inr t"
    using example_advance by blast
  from advance_record_not_verified [OF advance_replayed [OF this], where h = "''forged''" and age = 1000000
      and anchor = example_anchor and mapping = None]
  show ?thesis by (intro exI conjI) (assumption, simp_all)
qed

text \<open>Replaying the record of a downtime reconciliation reproduces the committed state except for the wall clock
  mapping and the clock uncertainty, which the record does not carry: the replayed state keeps the old ones, while
  its stored hash is the hash of the committed state.\<close>

theorem downtime_replay_loses_mapping:
  assumes "apply_downtime_plan_to_state E s plan sample = Inr s'"
    and "dp_prior_age_ticks plan = ts_organism_age_ticks s"
  shows "apply_downtime_reconciled_record s (build_downtime_reconciled_record s s' plan)
      = Inr (s'\<lparr>ts_wall_clock_mapping := ts_wall_clock_mapping s, ts_clock_uncertainty := ts_clock_uncertainty s\<rparr>)
    \<and> (sm_optional_wall_time sample \<noteq> None \<longrightarrow>
        (\<exists>m. ts_wall_clock_mapping s' = Some m \<and> wm_monotonic_ns_at_mapping m = sm_monotonic_ns sample))"
proof -
  have "\<exists>m. ts_wall_clock_mapping s' = Some m \<and> wm_monotonic_ns_at_mapping m = sm_monotonic_ns sample"
    if "sm_optional_wall_time sample \<noteq> None"
    using assms(1)
  proof (cases rule: apply_downtime_plan_cases)
    case (1 b)
    have "ts_wall_clock_mapping s' = ts_wall_clock_mapping b" using 1(3) by simp
    also have "\<dots> = ts_wall_clock_mapping (downtime_base E s plan sample)" by (subst 1(2)) simp
    finally show ?thesis using that by (auto simp: downtime_base_def build_wall_clock_mapping_def Let_def)
  qed
  then show ?thesis using downtime_replayed [OF assms] by blast
qed

definition example_downtime_plan :: downtime_reconciliation_plan where
  "example_downtime_plan = \<lparr>dp_downtime_interval_id = ''downtime:1'', dp_reconciliation_id = ''r1'',
     dp_canonical_plan_hash = ''p'', dp_expected_state_version = ts_state_version example_state,
     dp_expected_state_hash = ts_state_hash example_state, dp_session_id = ''s2'', dp_trusted_sample_hash = ''h'',
     dp_trust_class = TRUSTED_SHORT, dp_trust_reason_codes = [], dp_elapsed_seconds = Fin 300, dp_age_advance = 5,
     dp_fractional_remainder = Fin 0, dp_prior_age_ticks = ts_organism_age_ticks example_state, dp_next_age_ticks = 5,
     dp_prior_active_ticks = 0, dp_next_active_ticks = 0, dp_prior_time_anchor = ts_last_time_anchor example_state,
     dp_new_time_anchor = example_anchor, dp_registry_hash = ''g'', dp_effect_plan_ids = [], dp_effect_plan_hashes = [],
     dp_skipped_contract_ids = [], dp_expectation_recovery_deltas = [], dp_wait_recovery_deltas = [],
     dp_conservative = False\<rparr>"

lemma downtime_replay_loses_mapping_witness:
  "\<exists>s' t. apply_downtime_plan_to_state plain_env example_state example_downtime_plan example_sample = Inr s'
     \<and> apply_downtime_reconciled_record example_state
         (build_downtime_reconciled_record example_state s' example_downtime_plan) = Inr t
     \<and> ts_wall_clock_mapping s' \<noteq> ts_wall_clock_mapping t"
proof -
  have prior: "dp_prior_age_ticks example_downtime_plan = ts_organism_age_ticks example_state"
    by (simp add: example_downtime_plan_def)
  obtain s' where s': "apply_downtime_plan_to_state plain_env example_state example_downtime_plan example_sample = Inr s'"
    by (simp add: apply_downtime_plan_to_state_def Let_def example_downtime_plan_def)
  have "ts_wall_clock_mapping example_state = None"
    by (simp add: example_state_def sample_temporal_state_def initialize_temporal_epoch_def Let_def)
  moreover have "sm_optional_wall_time example_sample \<noteq> None" by (simp add: example_sample_def)
  ultimately show ?thesis using s' downtime_replay_loses_mapping [OF s' prior] by auto
qed

end
