(* ===== verification/TemporalEngine.thy ===== *)
theory TemporalEngine
  imports TemporalEvents
begin

text \<open>
  \<open>temporal/engine.py\<close>: the engine that owns the temporal state. Three protocols share it, each with one
  plan in flight: advancing the age by a tick, committing an observation plan, and reconciling downtime.
  \<open>new_id()\<close> is an argument (\<open>fresh\<close>); the allowlist and contract files are given by their parsed content.
  Sets of committed ids are lists without duplicates.
\<close>

section \<open>State\<close>

record tick_temporal_context =
  cx_advance_id :: string
  cx_effective_age_ticks :: int
  cx_effective_active_ticks :: int
  cx_orchestration_sequence :: int
  cx_prior_state_version :: int
  cx_prior_state_hash :: string

definition build_tick_temporal_context :: "temporal_advance_plan \<Rightarrow> tick_temporal_context" where
  "build_tick_temporal_context plan =
     \<lparr>cx_advance_id = tp_advance_id plan, cx_effective_age_ticks = tp_next_age_ticks plan,
      cx_effective_active_ticks = tp_next_active_ticks plan,
      cx_orchestration_sequence = tp_orchestration_sequence plan,
      cx_prior_state_version = tp_expected_state_version plan,
      cx_prior_state_hash = tp_expected_state_hash plan\<rparr>"

record post_hoc_anchor =
  pa_source_event_hash :: string
  pa_committed_advance_id :: string
  pa_committed_age_ticks :: int
  pa_committed_temporal_state_version :: int

record temporal_engine =
  en_state :: temporal_state
  en_in_flight :: "temporal_advance_plan option"
  en_committed_advance_ids :: "string list"
  en_in_flight_observation :: "temporal_observation_plan option"
  en_committed_observation_plan_ids :: "string list"
  en_post_hoc_anchor_registry :: "post_hoc_anchor dict"
  en_reconciliation_journal :: "downtime_reconciliation_record dict"
  en_in_flight_reconciliation :: "downtime_reconciliation_plan option"
  en_prepared_reconciliation_samples :: "trusted_sample dict"
  en_prepared_context_index :: "string dict"
  en_committed_reconciliation_ids :: "string list"
  en_committed_reconciliation_plans :: "downtime_reconciliation_plan dict"

definition new_temporal_engine :: "temporal_state \<Rightarrow> temporal_engine" where
  "new_temporal_engine state =
     \<lparr>en_state = state, en_in_flight = None, en_committed_advance_ids = [ts_last_advance_id state],
      en_in_flight_observation = None, en_committed_observation_plan_ids = [],
      en_post_hoc_anchor_registry = [], en_reconciliation_journal = [],
      en_in_flight_reconciliation = None, en_prepared_reconciliation_samples = [],
      en_prepared_context_index = [], en_committed_reconciliation_ids = [],
      en_committed_reconciliation_plans = []\<rparr>"

definition register_post_hoc_anchor ::
  "string \<Rightarrow> string \<Rightarrow> string \<Rightarrow> int \<Rightarrow> int \<Rightarrow> temporal_engine \<Rightarrow> temporal_engine" where
  "register_post_hoc_anchor source_event_id source_event_hash committed_advance_id committed_age_ticks
     committed_temporal_state_version t =
   t\<lparr>en_post_hoc_anchor_registry := dput source_event_id
       \<lparr>pa_source_event_hash = source_event_hash, pa_committed_advance_id = committed_advance_id,
        pa_committed_age_ticks = committed_age_ticks,
        pa_committed_temporal_state_version = committed_temporal_state_version\<rparr>
       (en_post_hoc_anchor_registry t)\<rparr>"

section \<open>Advancing\<close>

definition prepare_advance ::
  "hash_env \<Rightarrow> string \<Rightarrow> trusted_sample \<Rightarrow> int \<Rightarrow> (temporal_engine, temporal_advance_plan) method" where
  "prepare_advance E fresh sample orchestration_sequence t =
     (if en_in_flight t \<noteq> None then (Inl (TemporalEngineError ''advance_already_prepared''), t)
      else
        let prior_age = ts_organism_age_ticks (en_state t);
            prior_active = ts_organism_active_ticks (en_state t);
            sample_hash = compute_sample_hash E sample;
            plan = \<lparr>tp_advance_id = ''advance:'' @ fresh,
              tp_expected_state_version = ts_state_version (en_state t),
              tp_expected_state_hash = ts_state_hash (en_state t),
              tp_orchestration_sequence = orchestration_sequence,
              tp_trusted_sample_hash = sample_hash, tp_prior_age_ticks = prior_age,
              tp_next_age_ticks = prior_age + 1, tp_prior_active_ticks = prior_active,
              tp_next_active_ticks = prior_active + 1,
              tp_anchor_delta = \<lparr>ad_trusted_sample_hash = sample_hash,
                ad_orchestration_sequence = orchestration_sequence\<rparr>\<rparr>
        in (Inr plan, t\<lparr>en_in_flight := Some plan\<rparr>))"

definition abandon_advance :: "string \<Rightarrow> (temporal_engine, unit) method" where
  "abandon_advance advance_id t =
     (case en_in_flight t of
        None \<Rightarrow> (Inl (TemporalEngineError ''no_advance_prepared''), t)
      | Some p \<Rightarrow>
          if tp_advance_id p \<noteq> advance_id then (Inl (TemporalEngineError ''advance_id_mismatch''), t)
          else (Inr (), t\<lparr>en_in_flight := None\<rparr>))"

definition commit_advance ::
  "hash_env \<Rightarrow> trusted_sample \<Rightarrow> string \<Rightarrow> temporal_advance_plan
    \<Rightarrow> (temporal_engine, temporal_state \<times> temporal_advance_record) method" where
  "commit_advance E sample session_id plan t =
     (case en_in_flight t of
        None \<Rightarrow> (Inl (TemporalEngineError ''no_advance_prepared''), t)
      | Some p \<Rightarrow>
          if tp_advance_id p \<noteq> tp_advance_id plan
          then (Inl (TemporalEngineError ''advance_id_mismatch''), t)
          else if tp_advance_id plan \<in> set (en_committed_advance_ids t)
          then (Inl (TemporalEngineError ''advance_id_already_committed''), t)
          else case apply_advance_plan E (en_state t) plan sample session_id of
                 Inl e \<Rightarrow> (Inl e, t)
               | Inr new_state \<Rightarrow>
                   (Inr (new_state, build_advance_record (en_state t) new_state plan),
                    t\<lparr>en_state := new_state, en_in_flight := None,
                      en_committed_advance_ids := [tp_advance_id plan]\<rparr>))"

definition predict_recurrence ::
  "temporal_engine \<Rightarrow> string \<Rightarrow> int option \<Rightarrow> recurrence_prediction option res" where
  "predict_recurrence t recurrence_id current_age =
     andThen (get_hypothesis_from_index (ts_recurrence_index (en_state t)) recurrence_id) (\<lambda>hypothesis.
       case hypothesis of None \<Rightarrow> Inr None
       | Some h \<Rightarrow> predict h (case current_age of None \<Rightarrow> ts_organism_age_ticks (en_state t) | Some a \<Rightarrow> a))"

definition build_policy_expectation_views ::
  "temporal_engine \<Rightarrow> int option \<Rightarrow> policy_expectation_view list res" where
  "build_policy_expectation_views t current_age =
     policy_expectation_views_from_index (ts_recurrence_index (en_state t))
       (case current_age of None \<Rightarrow> ts_organism_age_ticks (en_state t) | Some a \<Rightarrow> a)
       (\<lambda>rid age. predict_recurrence t rid (Some age))"

section \<open>Reconciling downtime\<close>

definition set_default :: "string \<Rightarrow> 'v \<Rightarrow> 'v dict \<Rightarrow> 'v dict" where
  "set_default k v d = (if map_of d k = None then dput k v d else d)"

definition subsystem_snaps :: "temporal_engine \<Rightarrow> pyv dict \<Rightarrow> pyv dict" where
  "subsystem_snaps t snapshots =
     set_default ''needs'' (VDict [(''state_version'', VInt 0), (''state_hash'', VStr ''needs:genesis'')])
      (set_default ''physiology'' (VDict [(''state_version'', VInt 0), (''state_hash'', VStr ''physiology:genesis'')])
       (set_default ''temporal'' (VDict [(''state_version'', VInt (ts_state_version (en_state t))),
          (''state_hash'', VStr (ts_state_hash (en_state t)))]) snapshots))"

text \<open>The plan that \<open>reconcile_downtime\<close> computes once the interval and the sample are fixed; it only reads the
  engine.\<close>

definition downtime_plan ::
  "hash_env \<Rightarrow> (nat \<Rightarrow> string) \<Rightarrow> string \<Rightarrow> string \<Rightarrow> wait_journal option \<Rightarrow> elapsed_contract_registry
    \<Rightarrow> pyv dict \<Rightarrow> string \<Rightarrow> trusted_sample \<Rightarrow> temporal_engine \<Rightarrow> downtime_reconciliation_plan res" where
  "downtime_plan E fresh_effect reconciliation_id session_id journal reg snapshots interval_id sample t =
   (let state = en_state t; prior_anchor = ts_last_time_anchor state in
    andThen (classify_downtime_trust prior_anchor sample (ts_wall_clock_mapping state)) (\<lambda>trust.
    andThen (calculate_all_effects E fresh_effect (er_contracts reg) (subsystem_snaps t snapshots)
        (tr_elapsed_seconds trust) (sm_wall_time_uncertainty sample) (tr_trust_class trust))
      (\<lambda>(effect_plans, skipped, required_failure).
    let conservative = (tr_conservative trust \<or> required_failure);
        age_advance = (if conservative then 0 else tr_age_advance trust);
        fractional = (if conservative then Fin 0 else tr_fractional_remainder trust);
        prior_age = ts_organism_age_ticks state;
        next_age = prior_age + age_advance
    in andThen (compute_expectation_recovery_deltas state next_age
          (\<lambda>rid age. predict_recurrence t rid (Some age))) (\<lambda>expectation_deltas.
       let wait_deltas = (case journal of None \<Rightarrow> [] | Some j \<Rightarrow> compute_wait_recovery_deltas j next_age);
           effective_trust = trust\<lparr>tr_conservative := conservative, tr_age_advance := age_advance,
             tr_fractional_remainder := fractional\<rparr>;
           new_anchor = build_downtime_anchor E sample session_id next_age
             (ts_organism_active_ticks state) (ts_state_version state + 1) effective_trust reconciliation_id;
           identity = plan_identity_payload interval_id (tr_trust_class trust) (tr_reason_codes trust)
             (tr_elapsed_seconds trust) age_advance fractional prior_age next_age (er_registry_hash reg)
             (map ep_effect_plan_hash effect_plans) skipped expectation_deltas wait_deltas conservative
             (compute_sample_hash E sample)
       in Inr \<lparr>dp_downtime_interval_id = interval_id, dp_reconciliation_id = reconciliation_id,
            dp_canonical_plan_hash = compute_canonical_plan_hash E identity,
            dp_expected_state_version = ts_state_version state,
            dp_expected_state_hash = ts_state_hash state, dp_session_id = session_id,
            dp_trusted_sample_hash = compute_sample_hash E sample,
            dp_trust_class = tr_trust_class trust, dp_trust_reason_codes = tr_reason_codes trust,
            dp_elapsed_seconds = tr_elapsed_seconds trust, dp_age_advance = age_advance,
            dp_fractional_remainder = fractional, dp_prior_age_ticks = prior_age,
            dp_next_age_ticks = next_age, dp_prior_active_ticks = ts_organism_active_ticks state,
            dp_next_active_ticks = ts_organism_active_ticks state,
            dp_prior_time_anchor = prior_anchor, dp_new_time_anchor = new_anchor,
            dp_registry_hash = er_registry_hash reg,
            dp_effect_plan_ids = map ep_effect_plan_id effect_plans,
            dp_effect_plan_hashes = map ep_effect_plan_hash effect_plans,
            dp_skipped_contract_ids = skipped, dp_expectation_recovery_deltas = expectation_deltas,
            dp_wait_recovery_deltas = wait_deltas, dp_conservative = conservative\<rparr>))))"

text \<open>The interval of a context and the sample that sticks to it, recorded on first use.\<close>

definition sticky_interval ::
  "hash_env \<Rightarrow> trusted_sample \<Rightarrow> string \<Rightarrow> (temporal_engine, string \<times> trusted_sample) method" where
  "sticky_interval E sample session_id t =
     (let prior_anchor = ts_last_time_anchor (en_state t);
          context_key = ta_state_hash prior_anchor @ '':'' @ session_id
      in case map_of (en_prepared_context_index t) context_key of
           Some interval_id \<Rightarrow>
             (case map_of (en_prepared_reconciliation_samples t) interval_id of
                None \<Rightarrow> (Inl (KeyError interval_id), t)
              | Some sticky \<Rightarrow> (Inr (interval_id, sticky), t))
         | None \<Rightarrow>
             let interval_id = compute_downtime_interval_id E prior_anchor sample None
             in (Inr (interval_id, sample),
                 t\<lparr>en_prepared_reconciliation_samples :=
                     dput interval_id sample (en_prepared_reconciliation_samples t),
                   en_prepared_context_index := dput context_key interval_id (en_prepared_context_index t)\<rparr>))"

definition reconcile_downtime ::
  "hash_env \<Rightarrow> (nat \<Rightarrow> string) \<Rightarrow> string \<Rightarrow> trusted_sample \<Rightarrow> string \<Rightarrow> wait_journal option
    \<Rightarrow> elapsed_contract_registry option \<Rightarrow> pyv \<Rightarrow> pyv dict option
    \<Rightarrow> (temporal_engine, downtime_reconciliation_plan) method" where
  "reconcile_downtime E fresh_effect reconciliation_id sample session_id journal registry registry_file
     snapshots t =
   (case en_in_flight_reconciliation t of
      Some plan \<Rightarrow> (Inr plan, t)
    | None \<Rightarrow>
   (case sticky_interval E sample session_id t of
      (Inl e, t1) \<Rightarrow> (Inl e, t1)
    | (Inr (interval_id, effective_sample), t1) \<Rightarrow>
   (let existing = map_of (en_reconciliation_journal t1) interval_id in
    if (case existing of None \<Rightarrow> False | Some r \<Rightarrow> dr_status r = COMMITTED)
    then (case map_of (en_committed_reconciliation_plans t1) interval_id of
            None \<Rightarrow> (Inl (TemporalEngineError ''committed_plan_missing''), t1)
          | Some plan \<Rightarrow> (Inr plan, t1))
    else
      case andThen (case registry of Some r \<Rightarrow> Inr r
               | None \<Rightarrow> load_elapsed_contract_registry E registry_file) (\<lambda>reg.
             downtime_plan E fresh_effect reconciliation_id session_id journal reg
               (case snapshots of None \<Rightarrow> [] | Some d \<Rightarrow> d) interval_id effective_sample t1) of
        Inl e \<Rightarrow> (Inl e, t1)
      | Inr plan \<Rightarrow>
          if (case existing of None \<Rightarrow> False
              | Some r \<Rightarrow> dr_canonical_plan_hash r \<noteq> dp_canonical_plan_hash plan)
          then (Inl (DowntimeReconciliationError ''RECONCILIATION_PAYLOAD_MISMATCH''), t1)
          else (Inr plan,
                t1\<lparr>en_in_flight_reconciliation := Some plan,
                   en_reconciliation_journal := dput interval_id
                     \<lparr>dr_downtime_interval_id = interval_id,
                      dr_reconciliation_id = reconciliation_id,
                      dr_canonical_plan_hash = dp_canonical_plan_hash plan,
                      dr_status = PREPARED, dr_transaction_id = None,
                      dr_sticky_sample_hash = Some (compute_sample_hash E effective_sample)\<rparr>
                     (en_reconciliation_journal t1)\<rparr>))))"

definition abandon_downtime_reconciliation :: "string \<Rightarrow> (temporal_engine, unit) method" where
  "abandon_downtime_reconciliation reconciliation_id t =
     (case en_in_flight_reconciliation t of
        None \<Rightarrow> (Inl (TemporalEngineError ''no_reconciliation_prepared''), t)
      | Some p \<Rightarrow>
          if dp_reconciliation_id p \<noteq> reconciliation_id
          then (Inl (TemporalEngineError ''reconciliation_id_mismatch''), t)
          else (Inr (), t\<lparr>en_in_flight_reconciliation := None\<rparr>))"

record downtime_reconciliation_result =
  dx_plan :: downtime_reconciliation_plan
  dx_new_state :: temporal_state
  dx_record :: downtime_reconciliation_record

definition commit_downtime_reconciliation ::
  "hash_env \<Rightarrow> trusted_sample \<Rightarrow> string \<Rightarrow> downtime_reconciliation_plan
    \<Rightarrow> (temporal_engine, downtime_reconciliation_result) method" where
  "commit_downtime_reconciliation E sample transaction_id plan t =
   (let interval_id = dp_downtime_interval_id plan;
        fresh_commit =
         (case en_in_flight_reconciliation t of
            None \<Rightarrow> (Inl (TemporalEngineError ''no_reconciliation_prepared''), t)
          | Some p \<Rightarrow>
              if dp_reconciliation_id p \<noteq> dp_reconciliation_id plan
              then (Inl (TemporalEngineError ''reconciliation_id_mismatch''), t)
              else if dp_canonical_plan_hash plan \<noteq> dp_canonical_plan_hash p
              then (Inl (DowntimeReconciliationError ''RECONCILIATION_PAYLOAD_MISMATCH''), t)
              else if \<not> verify_plan_canonical_hash E plan
              then (Inl (DowntimeReconciliationError ''RECONCILIATION_PAYLOAD_MISMATCH''), t)
              else
                let sticky = (case map_of (en_prepared_reconciliation_samples t) interval_id of
                      None \<Rightarrow> sample | Some s \<Rightarrow> s)
                in if compute_sample_hash E sticky \<noteq> dp_trusted_sample_hash plan
                   then (Inl (DowntimeReconciliationError ''RECONCILIATION_PAYLOAD_MISMATCH''), t)
                   else case apply_downtime_plan_to_state E (en_state t) plan sticky of
                     Inl e \<Rightarrow> (Inl e, t)
                   | Inr new_state \<Rightarrow>
                       let r = \<lparr>dr_downtime_interval_id = interval_id,
                             dr_reconciliation_id = dp_reconciliation_id plan,
                             dr_canonical_plan_hash = dp_canonical_plan_hash plan,
                             dr_status = COMMITTED, dr_transaction_id = Some transaction_id,
                             dr_sticky_sample_hash = Some (dp_trusted_sample_hash plan)\<rparr>
                       in (Inr \<lparr>dx_plan = plan, dx_new_state = new_state, dx_record = r\<rparr>,
                           t\<lparr>en_state := new_state,
                             en_reconciliation_journal := dput interval_id r (en_reconciliation_journal t),
                             en_committed_reconciliation_ids :=
                               List.insert (dp_reconciliation_id plan) (en_committed_reconciliation_ids t),
                             en_committed_reconciliation_plans :=
                               dput interval_id plan (en_committed_reconciliation_plans t),
                             en_in_flight_reconciliation := None\<rparr>))
    in case map_of (en_reconciliation_journal t) interval_id of
         None \<Rightarrow> fresh_commit
       | Some existing \<Rightarrow>
           if dr_status existing = COMMITTED then
             if dr_canonical_plan_hash existing \<noteq> dp_canonical_plan_hash plan
             then (Inl (DowntimeReconciliationError ''RECONCILIATION_PAYLOAD_MISMATCH''), t)
             else (Inr \<lparr>dx_plan = plan, dx_new_state = en_state t, dx_record = existing\<rparr>, t)
           else fresh_commit)"

definition get_reconciliation_record ::
  "temporal_engine \<Rightarrow> string \<Rightarrow> downtime_reconciliation_record option" where
  "get_reconciliation_record t downtime_interval_id =
     map_of (en_reconciliation_journal t) downtime_interval_id"

definition replace_state :: "temporal_state \<Rightarrow> temporal_engine \<Rightarrow> temporal_engine" where
  "replace_state state t =
     t\<lparr>en_state := state, en_in_flight := None, en_committed_advance_ids := [ts_last_advance_id state],
       en_in_flight_observation := None, en_committed_observation_plan_ids := [],
       en_reconciliation_journal := [], en_in_flight_reconciliation := None,
       en_prepared_reconciliation_samples := [], en_prepared_context_index := [],
       en_committed_reconciliation_ids := [], en_committed_reconciliation_plans := []\<rparr>"

section \<open>Observations\<close>

fun check_occurrences :: "string \<Rightarrow> int \<Rightarrow> pyv list \<Rightarrow> unit res" where
  "check_occurrences occurrence_id anchored_age [] = Inr ()"
| "check_occurrences occurrence_id anchored_age (entry # rest) =
     andThen (as_list entry) (\<lambda>parts.
       case parts of
         [occ_id, occ_tick, _] \<Rightarrow>
           andThen (as_str occ_id) (\<lambda>i.
             if i \<noteq> occurrence_id then check_occurrences occurrence_id anchored_age rest
             else andThen (as_int occ_tick) (\<lambda>tick.
               if tick \<noteq> anchored_age
               then Inl (TemporalEngineError ''post_hoc_occurrence_age_immutable'')
               else check_occurrences occurrence_id anchored_age rest))
       | _ \<Rightarrow> Inl (ValueError ''unpack''))"

fun check_index :: "string \<Rightarrow> int \<Rightarrow> pyv dict \<Rightarrow> unit res" where
  "check_index occurrence_id anchored_age [] = Inr ()"
| "check_index occurrence_id anchored_age ((_, payload) # rest) =
     andThen (fld_or payload ''occurrence_by_id'' VNone (\<lambda>v. as_list (or_else v (VList [])))) (\<lambda>entries.
     andThen (check_occurrences occurrence_id anchored_age entries) (\<lambda>_.
     check_index occurrence_id anchored_age rest))"

definition given :: "string option \<Rightarrow> bool" where
  "given x = (case x of None \<Rightarrow> False | Some s \<Rightarrow> s \<noteq> [])"

definition validate_post_hoc_anchors ::
  "temporal_engine \<Rightarrow> string option \<Rightarrow> string option \<Rightarrow> string option \<Rightarrow> int option \<Rightarrow> int option \<Rightarrow> string
    \<Rightarrow> unit res" where
  "validate_post_hoc_anchors t source_event_id source_event_hash committed_advance_id committed_age_ticks
     committed_temporal_state_version occurrence_id =
   (if \<not> (given source_event_id \<and> given source_event_hash \<and> given committed_advance_id
          \<and> committed_age_ticks \<noteq> None \<and> committed_temporal_state_version \<noteq> None)
    then Inl (TemporalEngineError ''post_hoc_anchor_missing'')
    else case map_of (en_post_hoc_anchor_registry t) (the source_event_id) of
      None \<Rightarrow> Inl (TemporalEngineError ''post_hoc_source_anchor_missing'')
    | Some anchor \<Rightarrow>
        if Some (pa_source_event_hash anchor) \<noteq> source_event_hash
        then Inl (TemporalEngineError ''post_hoc_source_event_hash_mismatch'')
        else if Some (pa_committed_advance_id anchor) \<noteq> committed_advance_id
        then Inl (TemporalEngineError ''post_hoc_advance_id_mismatch'')
        else if Some (pa_committed_age_ticks anchor) \<noteq> committed_age_ticks
        then Inl (TemporalEngineError ''post_hoc_age_mismatch'')
        else if Some (pa_committed_temporal_state_version anchor) \<noteq> committed_temporal_state_version
        then Inl (TemporalEngineError ''post_hoc_state_version_mismatch'')
        else check_index occurrence_id (the committed_age_ticks) (ts_recurrence_index (en_state t)))"

definition prepare_observation_plan ::
  "string \<Rightarrow> evidence_lane \<Rightarrow> string \<Rightarrow> string \<Rightarrow> string \<Rightarrow> string \<Rightarrow> int \<Rightarrow> commit_mode \<Rightarrow> string option
    \<Rightarrow> string option \<Rightarrow> string option \<Rightarrow> string option \<Rightarrow> int option \<Rightarrow> int option \<Rightarrow> string
    \<Rightarrow> (temporal_engine, temporal_observation_plan) method" where
  "prepare_observation_plan fresh lane event_kind internal_context_key occurrence_id evidence_identity tick
     commit_mode source_transaction_id source_event_id source_event_hash committed_advance_id
     committed_age_ticks committed_temporal_state_version context_schema_version t =
   (case (if commit_mode = IN_TICK then
            if \<not> given source_transaction_id
            then Inl (TemporalEngineError ''source_transaction_id_required'') else Inr tick
          else andThen (validate_post_hoc_anchors t source_event_id source_event_hash committed_advance_id
                 committed_age_ticks committed_temporal_state_version occurrence_id) (\<lambda>_.
                 Inr (the committed_age_ticks))) of
      Inl e \<Rightarrow> (Inl e, t)
    | Inr effective_tick \<Rightarrow>
        let delta = \<lparr>hd_event_kind = event_kind, hd_internal_context_key = internal_context_key,
              hd_occurrence_id = occurrence_id, hd_evidence_identity = evidence_identity,
              hd_tick = effective_tick, hd_lane = lane_value lane,
              hd_context_schema_version = context_schema_version\<rparr>;
            plan = \<lparr>op_observation_plan_id = new_observation_plan_id fresh, op_commit_mode = commit_mode,
              op_expected_temporal_state_version = ts_state_version (en_state t),
              op_expected_temporal_state_hash = ts_state_hash (en_state t),
              op_source_transaction_id = source_transaction_id, op_source_event_id = source_event_id,
              op_source_event_hash = source_event_hash, op_committed_advance_id = committed_advance_id,
              op_committed_age_ticks = committed_age_ticks,
              op_committed_temporal_state_version = committed_temporal_state_version,
              op_occurrence_id = occurrence_id, op_evidence_identities = [evidence_identity],
              op_hypothesis_deltas = [delta], op_temporal_events = []\<rparr>
        in (Inr plan, t\<lparr>en_in_flight_observation := Some plan\<rparr>))"

fun as_engine_error :: "unit res \<Rightarrow> unit res" where
  "as_engine_error (Inl (AllowlistError m)) = Inl (TemporalEngineError m)"
| "as_engine_error r = r"

definition prepare_finalized_evidence ::
  "pyv option \<Rightarrow> string \<Rightarrow> string \<Rightarrow> string \<Rightarrow> string \<Rightarrow> string \<Rightarrow> string \<Rightarrow> int \<Rightarrow> commit_mode
    \<Rightarrow> string option \<Rightarrow> string option \<Rightarrow> string option \<Rightarrow> int option \<Rightarrow> int option \<Rightarrow> string
    \<Rightarrow> (temporal_engine, temporal_observation_plan) method" where
  "prepare_finalized_evidence allowlist_file fresh source_transaction_id event_kind internal_context_key
     occurrence_id evidence_identity tick commit_mode source_event_id source_event_hash
     committed_advance_id committed_age_ticks committed_temporal_state_version context_schema_version t =
   (if en_in_flight_observation t \<noteq> None
    then (Inl (TemporalEngineError ''observation_plan_already_prepared''), t)
    else case as_engine_error (assert_observable_evidence_allowed event_kind allowlist_file) of
      Inl e \<Rightarrow> (Inl e, t)
    | Inr _ \<Rightarrow>
        prepare_observation_plan fresh ORGANISM_OBSERVABLE event_kind internal_context_key occurrence_id
          evidence_identity tick commit_mode (Some source_transaction_id) source_event_id
          source_event_hash committed_advance_id committed_age_ticks
          committed_temporal_state_version context_schema_version t)"

definition prepare_authoritative_event ::
  "pyv option \<Rightarrow> string \<Rightarrow> string \<Rightarrow> string \<Rightarrow> string \<Rightarrow> string \<Rightarrow> string \<Rightarrow> int \<Rightarrow> commit_mode
    \<Rightarrow> string option \<Rightarrow> string option \<Rightarrow> string option \<Rightarrow> int option \<Rightarrow> int option \<Rightarrow> string
    \<Rightarrow> (temporal_engine, temporal_observation_plan) method" where
  "prepare_authoritative_event allowlist_file fresh source_transaction_id event_kind internal_context_key
     occurrence_id evidence_identity tick commit_mode source_event_id source_event_hash
     committed_advance_id committed_age_ticks committed_temporal_state_version context_schema_version t =
   (if en_in_flight_observation t \<noteq> None
    then (Inl (TemporalEngineError ''observation_plan_already_prepared''), t)
    else case as_engine_error (assert_authoritative_event_allowed event_kind allowlist_file) of
      Inl e \<Rightarrow> (Inl e, t)
    | Inr _ \<Rightarrow>
        prepare_observation_plan fresh AUTHORITATIVE event_kind internal_context_key occurrence_id
          evidence_identity tick commit_mode (Some source_transaction_id) source_event_id
          source_event_hash committed_advance_id committed_age_ticks
          committed_temporal_state_version context_schema_version t)"

definition abandon_observation_plan :: "string \<Rightarrow> (temporal_engine, unit) method" where
  "abandon_observation_plan observation_plan_id t =
     (case en_in_flight_observation t of
        None \<Rightarrow> (Inl (TemporalEngineError ''no_observation_plan_prepared''), t)
      | Some p \<Rightarrow>
          if op_observation_plan_id p \<noteq> observation_plan_id
          then (Inl (TemporalEngineError ''observation_plan_id_mismatch''), t)
          else (Inr (), t\<lparr>en_in_flight_observation := None\<rparr>))"

definition evidence_lane_of :: "string \<Rightarrow> evidence_lane res" where
  "evidence_lane_of s = (if s = ''O'' then Inr ORGANISM_OBSERVABLE else if s = ''A'' then Inr AUTHORITATIVE
     else Inl (ValueError ''not_a_valid_EvidenceLane''))"

definition delta_recurrence_id :: "hash_env \<Rightarrow> hypothesis_delta \<Rightarrow> string" where
  "delta_recurrence_id E delta = ''rec:'' @ take 16 (compute_recurrence_key E (hd_event_kind delta)
     (hd_internal_context_key delta) (hd_context_schema_version delta) None)"

text \<open>One round of the loop in \<open>_apply_hypothesis_deltas\<close> that sees new evidence: the hypothesis, the new
  summary and the new state.\<close>

definition apply_new_delta ::
  "hash_env \<Rightarrow> temporal_state \<Rightarrow> dedup_summary \<Rightarrow> hypothesis_delta
    \<Rightarrow> (recurrence_hypothesis \<times> dedup_summary \<times> temporal_state) res" where
  "apply_new_delta E state summary delta =
     (let recurrence_key = compute_recurrence_key E (hd_event_kind delta) (hd_internal_context_key delta)
            (hd_context_schema_version delta) None
      in andThen (get_hypothesis_from_index (ts_recurrence_index state) (delta_recurrence_id E delta)) (\<lambda>existing.
         andThen (evidence_lane_of (hd_lane delta)) (\<lambda>lane.
         andThen (observe existing recurrence_key (hd_event_kind delta) (hd_internal_context_key delta)
           (hd_occurrence_id delta) (hd_evidence_identity delta) (hd_tick delta) lane
           (hd_context_schema_version delta)) (\<lambda>hypothesis.
         andThen (upsert_recurrence_index (ts_recurrence_index state) hypothesis) (\<lambda>new_index.
         let occurrence_ids = (if \<not> identity_seen summary None (Some (hd_occurrence_id delta))
               then [hd_occurrence_id delta] else [])
         in andThen (case register_identities E summary [hd_evidence_identity delta] occurrence_ids of
               Inl e \<Rightarrow> if e = ValueError ''dedup_compaction_overflow''
                 then Inl (TemporalEngineError ''dedup_compaction_overflow'') else Inl e
             | Inr s \<Rightarrow> Inr s) (\<lambda>summary'.
            Inr (hypothesis, summary',
              with_state_hash E (state\<lparr>ts_recurrence_index := new_index, ts_dedup_summary := summary'\<rparr>))))))))"

fun apply_hypothesis_deltas ::
  "hash_env \<Rightarrow> hypothesis_delta list \<Rightarrow> dedup_summary \<Rightarrow> recurrence_hypothesis option
    \<Rightarrow> (temporal_state, recurrence_hypothesis) method" where
  "apply_hypothesis_deltas E [] summary hypothesis state =
     (case hypothesis of
        None \<Rightarrow> (Inl (TemporalEngineError ''observation_plan_no_effect''), state)
      | Some h \<Rightarrow> (Inr h, state))"
| "apply_hypothesis_deltas E (delta # deltas) summary hypothesis state =
     (if identity_seen summary (Some (hd_evidence_identity delta)) None then
        case get_hypothesis_from_index (ts_recurrence_index state) (delta_recurrence_id E delta) of
          Inl e \<Rightarrow> (Inl e, state)
        | Inr existing \<Rightarrow>
            apply_hypothesis_deltas E deltas summary
              (case existing of None \<Rightarrow> hypothesis | Some h \<Rightarrow> Some h) state
      else
        case apply_new_delta E state summary delta of
          Inl e \<Rightarrow> (Inl e, state)
        | Inr (h, summary', state') \<Rightarrow> apply_hypothesis_deltas E deltas summary' (Some h) state')"

definition commit_observation_plan ::
  "hash_env \<Rightarrow> temporal_observation_plan \<Rightarrow> (temporal_engine, recurrence_hypothesis) method" where
  "commit_observation_plan E plan t =
     (if op_observation_plan_id plan \<in> set (en_committed_observation_plan_ids t)
      then (Inl (TemporalEngineError ''observation_plan_already_committed''), t)
      else case en_in_flight_observation t of
        None \<Rightarrow> (Inl (TemporalEngineError ''no_observation_plan_prepared''), t)
      | Some p \<Rightarrow>
          if op_observation_plan_id p \<noteq> op_observation_plan_id plan
          then (Inl (TemporalEngineError ''observation_plan_id_mismatch''), t)
          else if op_expected_temporal_state_version plan \<noteq> ts_state_version (en_state t)
          then (Inl (TemporalEngineError ''expected_state_version_mismatch''), t)
          else if op_expected_temporal_state_hash plan \<noteq> ts_state_hash (en_state t)
          then (Inl (TemporalEngineError ''expected_state_hash_mismatch''), t)
          else case (if op_commit_mode plan = POST_HOC
                then validate_post_hoc_anchors t (op_source_event_id plan) (op_source_event_hash plan)
                  (op_committed_advance_id plan) (op_committed_age_ticks plan)
                  (op_committed_temporal_state_version plan) (op_occurrence_id plan)
                else Inr ()) of
            Inl e \<Rightarrow> (Inl e, t)
          | Inr _ \<Rightarrow>
              (case apply_hypothesis_deltas E (op_hypothesis_deltas plan)
                 (ts_dedup_summary (en_state t)) None (en_state t) of
                 (Inl e, state) \<Rightarrow> (Inl e, t\<lparr>en_state := state\<rparr>)
               | (Inr hypothesis, state) \<Rightarrow>
                   (Inr hypothesis,
                    t\<lparr>en_state := state, en_committed_observation_plan_ids := [op_observation_plan_id plan],
                      en_in_flight_observation := None,
                      en_post_hoc_anchor_registry :=
                        (if op_commit_mode plan = POST_HOC \<and> op_source_event_id plan \<noteq> None
                         then dpop (the (op_source_event_id plan)) (en_post_hoc_anchor_registry t)
                         else en_post_hoc_anchor_registry t)\<rparr>)))"

text \<open>Storing an updated hypothesis, as the methods that bypass observation plans do.\<close>

definition store_hypothesis ::
  "hash_env \<Rightarrow> recurrence_hypothesis \<Rightarrow> (temporal_state \<Rightarrow> temporal_state)
    \<Rightarrow> (temporal_engine, recurrence_hypothesis) method" where
  "store_hypothesis E updated also_set t =
     (case upsert_recurrence_index (ts_recurrence_index (en_state t)) updated of
        Inl e \<Rightarrow> (Inl e, t)
      | Inr new_index \<Rightarrow>
          (Inr updated, t\<lparr>en_state := with_state_hash E
             (also_set ((en_state t)\<lparr>ts_recurrence_index := new_index\<rparr>))\<rparr>))"

definition record_observation_window_miss ::
  "hash_env \<Rightarrow> observation_window_evidence \<Rightarrow> (temporal_engine, recurrence_hypothesis option) method" where
  "record_observation_window_miss E evidence t =
     (case get_hypothesis_from_index (ts_recurrence_index (en_state t)) (ow_recurrence_id evidence) of
        Inl e \<Rightarrow> (Inl e, t)
      | Inr None \<Rightarrow> (Inl (TemporalEngineError ''recurrence_hypothesis_missing''), t)
      | Inr (Some h) \<Rightarrow>
          if \<not> miss_eligible evidence (rh_hypothesis_version h) then (Inr None, t)
          else
            let miss_key = observation_miss_key E (ow_recurrence_id evidence)
                  (ow_expectation_version evidence) (ow_window_start evidence) (ow_window_end evidence)
            in if miss_key \<in> set (ts_observation_miss_keys (en_state t)) then (Inr (Some h), t)
               else case record_miss h of
                 Inl e \<Rightarrow> (Inl e, t)
               | Inr updated \<Rightarrow>
                   (case store_hypothesis E updated
                      (\<lambda>s. s\<lparr>ts_observation_miss_keys := ts_observation_miss_keys s @ [miss_key]\<rparr>) t of
                      (r, t') \<Rightarrow> (andThen r (\<lambda>u. Inr (Some u)), t')))"

definition observe_recurrence_occurrence ::
  "hash_env \<Rightarrow> string \<Rightarrow> string \<Rightarrow> string \<Rightarrow> string \<Rightarrow> int \<Rightarrow> evidence_lane \<Rightarrow> string
    \<Rightarrow> (temporal_engine, recurrence_hypothesis) method" where
  "observe_recurrence_occurrence E event_kind internal_context_key occurrence_id evidence_identity tick lane
     context_schema_version t =
   (let recurrence_key = compute_recurrence_key E event_kind internal_context_key context_schema_version None
    in case andThen (get_hypothesis_from_index (ts_recurrence_index (en_state t))
           (''rec:'' @ take 16 recurrence_key)) (\<lambda>existing.
           observe existing recurrence_key event_kind internal_context_key occurrence_id evidence_identity
             tick lane context_schema_version) of
         Inl e \<Rightarrow> (Inl e, t)
       | Inr hypothesis \<Rightarrow> store_hypothesis E hypothesis (\<lambda>s. s) t)"

definition record_recurrence_miss ::
  "hash_env \<Rightarrow> string \<Rightarrow> (temporal_engine, recurrence_hypothesis) method" where
  "record_recurrence_miss E recurrence_id t =
     (case get_hypothesis_from_index (ts_recurrence_index (en_state t)) recurrence_id of
        Inl e \<Rightarrow> (Inl e, t)
      | Inr None \<Rightarrow> (Inl (TemporalEngineError ''recurrence_hypothesis_missing''), t)
      | Inr (Some h) \<Rightarrow>
          (case record_miss h of
             Inl e \<Rightarrow> (Inl e, t)
           | Inr updated \<Rightarrow> store_hypothesis E updated (\<lambda>s. s) t))"

section \<open>Interfaces\<close>

lemma abandon_simps:
  "abandon_advance i t = (case en_in_flight t of
     Some p \<Rightarrow> if tp_advance_id p = i then (Inr (), t\<lparr>en_in_flight := None\<rparr>)
       else (Inl (TemporalEngineError ''advance_id_mismatch''), t)
   | None \<Rightarrow> (Inl (TemporalEngineError ''no_advance_prepared''), t))"
  by (simp add: abandon_advance_def split: option.splits)

interpretation advance_slot: plan_slot en_in_flight tp_advance_id abandon_advance "commit_advance E sample sess" for E sample sess
  by unfold_locales
    (auto simp: abandon_advance_def commit_advance_def split: option.splits if_splits sum.splits)

interpretation observation_slot: plan_slot en_in_flight_observation op_observation_plan_id abandon_observation_plan
    "commit_observation_plan E" for E
  by unfold_locales
    (auto simp: abandon_observation_plan_def commit_observation_plan_def
      split: option.splits if_splits sum.splits prod.splits)

end
