(* ===== verification/EngineInvariant.thy ===== *)
theory EngineInvariant
  imports TemporalEngine
begin

text \<open>
  The invariant of the temporal engine over every sequence of its operations, whatever their outcomes: the stored hash
  is the hash of the state, and since the last state was loaded by \<open>replace_state\<close> the clock has not run backwards, nothing
  learned has been forgotten, and each of the three protocols has committed a plan at most once.
\<close>

section \<open>What an operation does to the state\<close>

definition state_ok :: "hash_env \<Rightarrow> temporal_state \<Rightarrow> bool" where
  "state_ok E s \<longleftrightarrow> ts_state_hash s = compute_state_hash E s \<and> dedup_ok (ts_dedup_summary s)
     \<and> index_wf (ts_recurrence_index s)"

text \<open>\<open>later s s'\<close>: what any sequence of operations leaves between two states. Nothing but a new version moves the
  clock, the organism is active for no more ticks than it ages, and no identity or miss key is forgotten.\<close>

definition later :: "temporal_state \<Rightarrow> temporal_state \<Rightarrow> bool" where
  "later s s' \<longleftrightarrow>
     ts_temporal_epoch_id s' = ts_temporal_epoch_id s \<and> ts_definition_hash s' = ts_definition_hash s
     \<and> ts_state_version s \<le> ts_state_version s'
     \<and> (ts_state_version s' = ts_state_version s \<longrightarrow> ts_organism_age_ticks s' = ts_organism_age_ticks s
          \<and> ts_organism_active_ticks s' = ts_organism_active_ticks s
          \<and> ts_last_advance_id s' = ts_last_advance_id s \<and> ts_last_time_anchor s' = ts_last_time_anchor s)
     \<and> ts_organism_active_ticks s \<le> ts_organism_active_ticks s'
     \<and> ts_organism_active_ticks s' - ts_organism_active_ticks s \<le> ts_organism_age_ticks s' - ts_organism_age_ticks s
     \<and> (\<forall>e. identity_seen (ts_dedup_summary s) (Some e) None \<longrightarrow> identity_seen (ts_dedup_summary s') (Some e) None)
     \<and> (\<forall>i. identity_seen (ts_dedup_summary s) None (Some i) \<longrightarrow> identity_seen (ts_dedup_summary s') None (Some i))
     \<and> set (ts_observation_miss_keys s) \<subseteq> set (ts_observation_miss_keys s')"

lemma later_refl: "later s s"
  by (simp add: later_def)

lemma later_trans: "later s t \<Longrightarrow> later t u \<Longrightarrow> later s u"
  unfolding later_def by (elim conjE, intro conjI) (auto simp: order.trans)

lemma with_state_hash_more [simp]:
  "ts_temporal_epoch_id (with_state_hash E s) = ts_temporal_epoch_id s"
  "ts_definition_hash (with_state_hash E s) = ts_definition_hash s"
  by (simp_all add: with_state_hash_def Let_def)

lemma later_seal: "later s (with_state_hash E t) = later s t"
  by (simp add: later_def)

lemma state_ok_seal:
  "state_ok E (with_state_hash E s) \<longleftrightarrow> dedup_ok (ts_dedup_summary s) \<and> index_wf (ts_recurrence_index s)"
  using state_seal.sealed_seal [of E s] by (simp add: state_ok_def state_seal.sealed_def compute_state_hash_def)

definition advance_plan_ok :: "temporal_state \<Rightarrow> temporal_advance_plan \<Rightarrow> bool" where
  "advance_plan_ok s p \<longleftrightarrow>
     tp_next_age_ticks p = tp_prior_age_ticks p + 1 \<and> tp_next_active_ticks p = tp_prior_active_ticks p + 1
     \<and> tp_expected_state_version p \<le> ts_state_version s
     \<and> (tp_expected_state_version p = ts_state_version s \<longrightarrow>
          tp_prior_age_ticks p = ts_organism_age_ticks s \<and> tp_prior_active_ticks p = ts_organism_active_ticks s)"

lemma advance_plan_later: "advance_plan_ok s p \<Longrightarrow> later s s' \<Longrightarrow> advance_plan_ok s' p"
  by (auto simp: advance_plan_ok_def later_def)

lemma apply_advance_effect:
  assumes "apply_advance_plan E s p sample sess = Inr s'" and "advance_plan_ok s p" and "state_ok E s"
  shows "state_ok E s'" "later s s'" "ts_organism_age_ticks s' = ts_organism_age_ticks s + 1"
    "ts_organism_active_ticks s' = ts_organism_active_ticks s + 1" "ts_state_version s' = ts_state_version s + 1"
    "ts_last_advance_id s' = tp_advance_id p"
proof -
  have "dedup_ok (ts_dedup_summary s)" "index_wf (ts_recurrence_index s)" using assms(3) by (simp_all add: state_ok_def)
  then show "state_ok E s'" "later s s'" "ts_organism_age_ticks s' = ts_organism_age_ticks s + 1"
    "ts_organism_active_ticks s' = ts_organism_active_ticks s + 1" "ts_state_version s' = ts_state_version s + 1"
    "ts_last_advance_id s' = tp_advance_id p"
    using assms(1,2)
    by (auto simp: apply_advance_plan_def Let_def later_seal state_ok_seal later_def advance_plan_ok_def
        split: if_splits)
qed

definition reconciliation_plan_ok :: "temporal_state \<Rightarrow> downtime_reconciliation_plan \<Rightarrow> bool" where
  "reconciliation_plan_ok s p \<longleftrightarrow>
     0 \<le> dp_age_advance p \<and> dp_age_advance p \<le> MAX_DOWNTIME_AGE_ADVANCE
     \<and> dp_next_age_ticks p = dp_prior_age_ticks p + dp_age_advance p
     \<and> dp_next_active_ticks p = dp_prior_active_ticks p
     \<and> dp_expected_state_version p \<le> ts_state_version s
     \<and> (dp_expected_state_version p = ts_state_version s \<longrightarrow>
          dp_prior_age_ticks p = ts_organism_age_ticks s \<and> dp_prior_active_ticks p = ts_organism_active_ticks s)"

lemma reconciliation_plan_later: "reconciliation_plan_ok s p \<Longrightarrow> later s s' \<Longrightarrow> reconciliation_plan_ok s' p"
  by (auto simp: reconciliation_plan_ok_def later_def)

lemma recovery_delta_index:
  assumes "apply_expectation_recovery_delta s d = Inr t" and "index_wf (ts_recurrence_index s)"
  shows "index_wf (ts_recurrence_index t)"
proof -
  have store: "andThen (upsert_recurrence_index (ts_recurrence_index s) h) (\<lambda>idx. Inr (s\<lparr>ts_recurrence_index := idx\<rparr>)) = Inr t
      \<Longrightarrow> index_wf (ts_recurrence_index t)" for h
    using assms(2) by (auto simp: andThen_eq_Inr intro: upsert_wf)
  obtain h where h: "get_hypothesis_from_index (ts_recurrence_index s) (xd_recurrence_id d) = Inr (Some h)"
    using assms(1) by (auto simp: apply_expectation_recovery_delta_def andThen_eq_Inr split: option.splits)
  show ?thesis
    using assms store by (simp add: apply_expectation_recovery_delta_def h Let_def split: if_splits)
qed

lemma recovery_deltas_index:
  "apply_expectation_recovery_deltas s ds = Inr t \<Longrightarrow> index_wf (ts_recurrence_index s) \<Longrightarrow> index_wf (ts_recurrence_index t)"
  unfolding apply_expectation_recovery_deltas_def
  by (erule foldE_invariant) (auto intro: recovery_delta_index)

lemma apply_downtime_effect:
  assumes "apply_downtime_plan_to_state E s p sample = Inr s'" and "reconciliation_plan_ok s p" and "state_ok E s"
  shows "state_ok E s'" "later s s'" "ts_organism_age_ticks s' = ts_organism_age_ticks s + dp_age_advance p"
    "ts_organism_active_ticks s' = ts_organism_active_ticks s" "ts_state_version s' = ts_state_version s + 1"
proof -
  obtain b where 1: "apply_expectation_recovery_deltas (downtime_base E s p sample)
      (dp_expectation_recovery_deltas p) = Inr b"
    "b = (downtime_base E s p sample)\<lparr>ts_recurrence_index := ts_recurrence_index b\<rparr>"
    "s' = with_state_hash E b" "dp_expected_state_version p = ts_state_version s"
    using assms(1) by (rule apply_downtime_plan_cases)
  let ?d = "downtime_base E s p sample"
  have wf: "index_wf (ts_recurrence_index b)"
    using recovery_deltas_index [OF 1(1)] assms(3) by (simp add: downtime_base_def Let_def state_ok_def)
  have prior: "dp_prior_age_ticks p = ts_organism_age_ticks s" "dp_prior_active_ticks p = ts_organism_active_ticks s"
    using assms(2) 1(4) by (simp_all add: reconciliation_plan_ok_def)
  have b: "ts_temporal_epoch_id b = ts_temporal_epoch_id s" "ts_definition_hash b = ts_definition_hash s"
    "ts_state_version b = ts_state_version s + 1" "ts_organism_age_ticks b = ts_organism_age_ticks s + dp_age_advance p"
    "ts_organism_active_ticks b = ts_organism_active_ticks s" "ts_dedup_summary b = ts_dedup_summary s"
    "ts_observation_miss_keys b = ts_observation_miss_keys s"
    using prior assms(2) by (subst 1(2), simp add: downtime_base_def Let_def reconciliation_plan_ok_def)+
  have "state_ok E s' \<and> later s s' \<and> ts_organism_age_ticks s' = ts_organism_age_ticks s + dp_age_advance p
      \<and> ts_organism_active_ticks s' = ts_organism_active_ticks s \<and> ts_state_version s' = ts_state_version s + 1"
    unfolding 1(3) later_seal state_ok_seal
    using wf b assms(2,3)
    by (simp add: later_def state_ok_def reconciliation_plan_ok_def)
  then show "state_ok E s'" "later s s'" "ts_organism_age_ticks s' = ts_organism_age_ticks s + dp_age_advance p"
    "ts_organism_active_ticks s' = ts_organism_active_ticks s" "ts_state_version s' = ts_state_version s + 1"
    by simp_all
qed

definition same_clock :: "temporal_state \<Rightarrow> temporal_state \<Rightarrow> bool" where
  "same_clock s s' \<longleftrightarrow> later s s' \<and> ts_state_version s' = ts_state_version s"

lemma new_delta_effect:
  assumes "apply_new_delta E s summary d = Inr (h, summary', s')" and "state_ok E s"
    and "summary = ts_dedup_summary s"
  shows "state_ok E s' \<and> same_clock s s' \<and> summary' = ts_dedup_summary s'
    \<and> identity_seen summary' (Some (hd_evidence_identity d)) None
    \<and> identity_seen summary' None (Some (hd_occurrence_id d))"
proof -
  obtain idx occs where idx: "upsert_recurrence_index (ts_recurrence_index s) h = Inr idx"
    and occs: "occs = (if \<not> identity_seen summary None (Some (hd_occurrence_id d)) then [hd_occurrence_id d] else [])"
    and reg: "register_identities E summary [hd_evidence_identity d] occs = Inr summary'"
    and s': "s' = with_state_hash E (s\<lparr>ts_recurrence_index := idx, ts_dedup_summary := summary'\<rparr>)"
    using assms(1)
    by (auto simp: apply_new_delta_def Let_def andThen_eq_Inr split: sum.splits if_splits)
  have seen: "identity_seen summary' (Some (hd_evidence_identity d)) None"
    "identity_seen summary' None (Some (hd_occurrence_id d))"
    using register_identities_keep(2,3) [OF reg] occs by auto
  have keep: "later s (s\<lparr>ts_recurrence_index := idx, ts_dedup_summary := summary'\<rparr>)"
    using register_identities_keep(2,3) [OF reg] assms(3) by (simp add: later_def)
  have "dedup_ok summary'" "index_wf idx"
    using register_identities_keep(1) [OF reg] upsert_wf [OF _ idx] assms(2,3) by (simp_all add: state_ok_def)
  then show ?thesis using seen keep by (simp add: s' state_ok_seal same_clock_def later_seal)
qed

lemma same_clock_trans: "same_clock s t \<Longrightarrow> same_clock t u \<Longrightarrow> same_clock s u"
  using later_trans by (auto simp: same_clock_def)

lemma deltas_effect:
  assumes "apply_hypothesis_deltas E ds summary h s = (r, s')" and "state_ok E s" and "summary = ts_dedup_summary s"
  shows "state_ok E s' \<and> same_clock s s'
    \<and> ((\<exists>g. r = Inr g) \<longrightarrow> (\<forall>d \<in> set ds. identity_seen (ts_dedup_summary s') (Some (hd_evidence_identity d)) None))"
  using assms
proof (induction E ds summary h s rule: apply_hypothesis_deltas.induct)
  case (1 E summary h s)
  then show ?case by (auto simp: same_clock_def later_refl split: option.splits)
next
  case (2 E d ds summary h s)
  show ?case
  proof (cases "identity_seen summary (Some (hd_evidence_identity d)) None")
    case seen: True
    show ?thesis
    proof (cases "get_hypothesis_from_index (ts_recurrence_index s) (delta_recurrence_id E d)")
      case (Inl e)
      then show ?thesis using 2 seen by (auto simp: same_clock_def later_refl)
    next
      case (Inr g)
      then have ih: "state_ok E s' \<and> same_clock s s'
          \<and> ((\<exists>g. r = Inr g) \<longrightarrow> (\<forall>d \<in> set ds. identity_seen (ts_dedup_summary s') (Some (hd_evidence_identity d)) None))"
        using "2.IH"(1) [OF seen Inr] "2.prems" seen by simp
      then show ?thesis using seen "2.prems"(3) by (auto simp: same_clock_def later_def)
    qed
  next
    case fresh: False
    show ?thesis
    proof (cases "apply_new_delta E s summary d")
      case (Inl e)
      then show ?thesis using 2 fresh by (auto simp: same_clock_def later_refl)
    next
      case (Inr x)
      obtain g summary' t where x: "x = (g, summary', t)" by (cases x)
      have t: "state_ok E t" "same_clock s t" "summary' = ts_dedup_summary t"
        "identity_seen summary' (Some (hd_evidence_identity d)) None"
        using new_delta_effect [OF Inr [unfolded x] "2.prems"(2,3)] by blast+
      have ih: "state_ok E s' \<and> same_clock t s'
          \<and> ((\<exists>g. r = Inr g) \<longrightarrow> (\<forall>d \<in> set ds. identity_seen (ts_dedup_summary s') (Some (hd_evidence_identity d)) None))"
        using "2.IH"(2) [OF fresh Inr [unfolded x] HOL.refl HOL.refl _ t(1,3)] "2.prems"(1) fresh Inr x by simp
      then show ?thesis
        using t same_clock_trans by (auto simp: same_clock_def later_def)
    qed
  qed
qed

section \<open>Invariant\<close>

text \<open>What holds of a reconciliation in flight: its interval has a sample, the one it was computed from, and a
  journal entry that is prepared with its hash.\<close>

definition in_flight_ok :: "hash_env \<Rightarrow> temporal_engine \<Rightarrow> downtime_reconciliation_plan \<Rightarrow> bool" where
  "in_flight_ok E t p \<longleftrightarrow> reconciliation_plan_ok (en_state t) p \<and> verify_plan_canonical_hash E p
     \<and> (\<exists>s. map_of (en_prepared_reconciliation_samples t) (dp_downtime_interval_id p) = Some s
          \<and> compute_sample_hash E s = dp_trusted_sample_hash p)
     \<and> (\<exists>r. map_of (en_reconciliation_journal t) (dp_downtime_interval_id p) = Some r \<and> dr_status r = PREPARED
          \<and> dr_canonical_plan_hash r = dp_canonical_plan_hash p)"

definition engine_ok :: "hash_env \<Rightarrow> temporal_engine \<Rightarrow> bool" where
  "engine_ok E t \<longleftrightarrow> state_ok E (en_state t)
     \<and> (\<forall>p. en_in_flight t = Some p \<longrightarrow> advance_plan_ok (en_state t) p)
     \<and> (\<forall>p. en_in_flight_reconciliation t = Some p \<longrightarrow> in_flight_ok E t p)
     \<and> (\<forall>k i. map_of (en_prepared_context_index t) k = Some i
          \<longrightarrow> map_of (en_prepared_reconciliation_samples t) i \<noteq> None)
     \<and> (\<forall>i r. map_of (en_reconciliation_journal t) i = Some r \<longrightarrow> dr_status r = COMMITTED
          \<longrightarrow> (\<exists>p. map_of (en_committed_reconciliation_plans t) i = Some p
               \<and> dp_downtime_interval_id p = i \<and> dp_canonical_plan_hash p = dr_canonical_plan_hash r))"

lemma engine_ok_state:
  assumes "engine_ok E t" and "later (en_state t) s'" and "state_ok E s'"
  shows "engine_ok E (t\<lparr>en_state := s'\<rparr>)"
  using assms advance_plan_later reconciliation_plan_later
  by (fastforce simp: engine_ok_def in_flight_ok_def)

lemma new_engine_ok: "state_ok E s \<Longrightarrow> engine_ok E (new_temporal_engine s)"
  by (simp add: engine_ok_def new_temporal_engine_def)

definition grown :: "hash_env \<Rightarrow> temporal_engine \<Rightarrow> temporal_engine \<Rightarrow> bool" where
  "grown E t t' \<longleftrightarrow> engine_ok E t' \<and> later (en_state t) (en_state t')"

lemma grown_refl: "engine_ok E t \<Longrightarrow> grown E t t"
  by (simp add: grown_def later_refl)

lemma grown_same:
  assumes "engine_ok E t" and "en_state t' = en_state t" and "en_in_flight t' = en_in_flight t"
    and "en_in_flight_reconciliation t' = en_in_flight_reconciliation t"
    and "en_prepared_reconciliation_samples t' = en_prepared_reconciliation_samples t"
    and "en_prepared_context_index t' = en_prepared_context_index t"
    and "en_reconciliation_journal t' = en_reconciliation_journal t"
    and "en_committed_reconciliation_plans t' = en_committed_reconciliation_plans t"
  shows "grown E t t'"
  using assms by (simp add: grown_def later_refl engine_ok_def in_flight_ok_def)

lemma prepare_advance_grown: "engine_ok E t \<Longrightarrow> grown E t (snd (prepare_advance E fresh sample sq t))"
  by (auto simp: prepare_advance_def Let_def grown_def later_refl engine_ok_def in_flight_ok_def advance_plan_ok_def)

lemma abandon_advance_grown: "engine_ok E t \<Longrightarrow> grown E t (snd (abandon_advance i t))"
  by (auto simp: abandon_advance_def grown_def later_refl engine_ok_def in_flight_ok_def split: option.splits)

lemma commit_advance_grown:
  assumes "engine_ok E t" and "\<And>p. en_in_flight t = Some p \<Longrightarrow> tp_advance_id p = tp_advance_id plan \<Longrightarrow> p = plan"
  shows "grown E t (snd (commit_advance E sample sess plan t))"
proof (cases "commit_advance E sample sess plan t")
  case (Pair r t')
  show ?thesis
  proof (cases "t' = t")
    case False
    then obtain s' where s': "apply_advance_plan E (en_state t) plan sample sess = Inr s'"
      and t': "t' = t\<lparr>en_state := s', en_in_flight := None, en_committed_advance_ids := [tp_advance_id plan]\<rparr>"
      and flight: "en_in_flight t = Some plan"
      using Pair assms(2) by (auto simp: commit_advance_def split: option.splits sum.splits if_splits)
    have eff: "state_ok E s'" "later (en_state t) s'"
      using apply_advance_effect(1,2) [OF s'] assms(1) flight by (simp_all add: engine_ok_def)
    have "engine_ok E (t\<lparr>en_state := s'\<rparr>)" using engine_ok_state [OF assms(1) eff(2,1)] .
    then show ?thesis using Pair t' eff by (simp add: grown_def engine_ok_def in_flight_ok_def)
  qed (use Pair assms(1) grown_refl in simp)
qed

lemma sticky_ok:
  assumes "engine_ok E t" and "en_in_flight_reconciliation t = None"
  shows "\<exists>i s t1. sticky_interval E sample sess t = (Inr (i, s), t1)
    \<and> engine_ok E t1 \<and> en_state t1 = en_state t \<and> en_in_flight_reconciliation t1 = None
    \<and> map_of (en_prepared_reconciliation_samples t1) i = Some s
    \<and> map_of (en_prepared_context_index t1) (ta_state_hash (ts_last_time_anchor (en_state t)) @ '':'' @ sess) = Some i"
proof (cases "map_of (en_prepared_context_index t) (ta_state_hash (ts_last_time_anchor (en_state t)) @ '':'' @ sess)")
  case None
  then show ?thesis
    using assms by (auto simp: sticky_interval_def Let_def engine_ok_def in_flight_ok_def)
next
  case (Some i)
  moreover obtain s where "map_of (en_prepared_reconciliation_samples t) i = Some s"
    using assms(1) Some by (fastforce simp: engine_ok_def)
  ultimately show ?thesis using assms by (simp add: sticky_interval_def)
qed

lemma downtime_plan_facts:
  assumes "downtime_plan E fresh rid sess j reg snaps i sample t = Inr p"
  shows "reconciliation_plan_ok (en_state t) p" "verify_plan_canonical_hash E p" "dp_downtime_interval_id p = i"
    "dp_trusted_sample_hash p = compute_sample_hash E sample" "dp_reconciliation_id p = rid"
    "dp_expected_state_version p = ts_state_version (en_state t)"
    "dp_expected_state_hash p = ts_state_hash (en_state t)"
    "dp_conservative p \<Longrightarrow> dp_age_advance p = 0"
proof -
  obtain c where c: "classify_downtime_trust (ts_last_time_anchor (en_state t)) sample
      (ts_wall_clock_mapping (en_state t)) = Inr c"
    using assms by (auto simp: downtime_plan_def Let_def andThen_eq_Inr)
  have bound: "0 \<le> tr_age_advance c \<and> tr_age_advance c \<le> MAX_DOWNTIME_AGE_ADVANCE"
    using classify_cases [OF c] by (auto simp: conservative_ok_def trusted_ok_def MAX_DOWNTIME_AGE_ADVANCE_def)
  show "reconciliation_plan_ok (en_state t) p" "verify_plan_canonical_hash E p" "dp_downtime_interval_id p = i"
    "dp_trusted_sample_hash p = compute_sample_hash E sample" "dp_reconciliation_id p = rid"
    "dp_expected_state_version p = ts_state_version (en_state t)"
    "dp_expected_state_hash p = ts_state_hash (en_state t)"
    "dp_conservative p \<Longrightarrow> dp_age_advance p = 0"
    using assms bound
    by (auto simp: downtime_plan_def Let_def c andThen_eq_Inr reconciliation_plan_ok_def
        verify_plan_canonical_hash_def plan_canonical_identity_def MAX_DOWNTIME_AGE_ADVANCE_def)
qed

text \<open>\<open>reconcile_downtime\<close> when nothing is in flight, after the interval and the sample are fixed.\<close>

definition reconcile_from ::
  "hash_env \<Rightarrow> string \<Rightarrow> string \<Rightarrow> trusted_sample \<Rightarrow> downtime_reconciliation_plan res
    \<Rightarrow> (temporal_engine, downtime_reconciliation_plan) method" where
  "reconcile_from E rid i s computed t1 =
     (if \<exists>r. map_of (en_reconciliation_journal t1) i = Some r \<and> dr_status r = COMMITTED
      then (case map_of (en_committed_reconciliation_plans t1) i of
              None \<Rightarrow> (Inl (TemporalEngineError ''committed_plan_missing''), t1)
            | Some p \<Rightarrow> (Inr p, t1))
      else case computed of Inl e \<Rightarrow> (Inl e, t1)
      | Inr p \<Rightarrow>
          if \<exists>r. map_of (en_reconciliation_journal t1) i = Some r \<and> dr_canonical_plan_hash r \<noteq> dp_canonical_plan_hash p
          then (Inl (DowntimeReconciliationError ''RECONCILIATION_PAYLOAD_MISMATCH''), t1)
          else (Inr p, t1\<lparr>en_in_flight_reconciliation := Some p,
            en_reconciliation_journal := dput i \<lparr>dr_downtime_interval_id = i, dr_reconciliation_id = rid,
              dr_canonical_plan_hash = dp_canonical_plan_hash p, dr_status = PREPARED, dr_transaction_id = None,
              dr_sticky_sample_hash = Some (compute_sample_hash E s)\<rparr> (en_reconciliation_journal t1)\<rparr>))"

lemma case_option_False: "(case x of None \<Rightarrow> False | Some r \<Rightarrow> P r) \<longleftrightarrow> (\<exists>r. x = Some r \<and> P r)"
  by (cases x) simp_all

lemma reconcile_eq:
  assumes "en_in_flight_reconciliation t = None" and "sticky_interval E sample sess t = (Inr (i, s), t1)"
  shows "reconcile_downtime E fresh rid sample sess j reg file snaps t = reconcile_from E rid i s
    (andThen (case reg of Some g \<Rightarrow> Inr g | None \<Rightarrow> load_elapsed_contract_registry E file) (\<lambda>g.
      downtime_plan E fresh rid sess j g (case snaps of None \<Rightarrow> [] | Some d \<Rightarrow> d) i s t1)) t1"
  unfolding reconcile_downtime_def reconcile_from_def assms Let_def option.case prod.case sum.case case_option_False ..

lemma reconcile_from_ok:
  assumes "engine_ok E t1" and "en_in_flight_reconciliation t1 = None"
    and "map_of (en_prepared_reconciliation_samples t1) i = Some s"
    and "\<And>p. computed = Inr p \<Longrightarrow> reconciliation_plan_ok (en_state t1) p \<and> verify_plan_canonical_hash E p
      \<and> dp_downtime_interval_id p = i \<and> dp_trusted_sample_hash p = compute_sample_hash E s"
  shows "engine_ok E (snd (reconcile_from E rid i s computed t1))"
    "en_state (snd (reconcile_from E rid i s computed t1)) = en_state t1"
  using assms
  by (auto simp: reconcile_from_def engine_ok_def in_flight_ok_def split: option.split sum.split)

lemma reconcile_grown:
  assumes "engine_ok E t"
  shows "grown E t (snd (reconcile_downtime E fresh rid sample sess j reg file snaps t))"
proof (cases "en_in_flight_reconciliation t")
  case (Some p)
  then show ?thesis using assms grown_refl by (simp add: reconcile_downtime_def)
next
  case None
  from sticky_ok [OF assms None, of sample sess]
  obtain i s t1 where st: "sticky_interval E sample sess t = (Inr (i, s), t1)"
    and t1: "engine_ok E t1" "en_state t1 = en_state t" "en_in_flight_reconciliation t1 = None"
      "map_of (en_prepared_reconciliation_samples t1) i = Some s"
    by blast
  have "reconciliation_plan_ok (en_state t1) p \<and> verify_plan_canonical_hash E p
      \<and> dp_downtime_interval_id p = i \<and> dp_trusted_sample_hash p = compute_sample_hash E s"
    if "andThen (case reg of Some g \<Rightarrow> Inr g | None \<Rightarrow> load_elapsed_contract_registry E file) (\<lambda>g.
      downtime_plan E fresh rid sess j g (case snaps of None \<Rightarrow> [] | Some d \<Rightarrow> d) i s t1) = Inr p" for p
    using that downtime_plan_facts(1-4) by (auto simp: andThen_eq_Inr)
  from reconcile_from_ok [OF t1(1,3,4) this] show ?thesis
    unfolding reconcile_eq [OF None st] grown_def t1(2) [symmetric] by (simp add: later_refl)
qed

lemma abandon_reconciliation_grown:
  "engine_ok E t \<Longrightarrow> grown E t (snd (abandon_downtime_reconciliation i t))"
  by (auto simp: abandon_downtime_reconciliation_def grown_def later_refl engine_ok_def in_flight_ok_def
      split: option.splits)

text \<open>A reconciliation commit either changes nothing or commits the plan in flight.\<close>

lemma commit_downtime_cases:
  assumes "commit_downtime_reconciliation E sample txn plan t = (r, t')"
  obtains (same) "t' = t"
    | (committed) p s' where "en_in_flight_reconciliation t = Some p" "dp_reconciliation_id p = dp_reconciliation_id plan"
      "dp_canonical_plan_hash plan = dp_canonical_plan_hash p" "verify_plan_canonical_hash E plan"
      "apply_downtime_plan_to_state E (en_state t) plan (case map_of (en_prepared_reconciliation_samples t)
         (dp_downtime_interval_id plan) of None \<Rightarrow> sample | Some s \<Rightarrow> s) = Inr s'"
      "t' = t\<lparr>en_state := s',
         en_reconciliation_journal := dput (dp_downtime_interval_id plan)
           \<lparr>dr_downtime_interval_id = dp_downtime_interval_id plan, dr_reconciliation_id = dp_reconciliation_id plan,
            dr_canonical_plan_hash = dp_canonical_plan_hash plan, dr_status = COMMITTED,
            dr_transaction_id = Some txn, dr_sticky_sample_hash = Some (dp_trusted_sample_hash plan)\<rparr>
           (en_reconciliation_journal t),
         en_committed_reconciliation_ids := List.insert (dp_reconciliation_id plan) (en_committed_reconciliation_ids t),
         en_committed_reconciliation_plans := dput (dp_downtime_interval_id plan) plan (en_committed_reconciliation_plans t),
         en_in_flight_reconciliation := None\<rparr>"
proof (cases "t' = t")
  case True
  then show ?thesis by (rule same)
next
  case False
  then show ?thesis
    using assms committed
    by (simp add: commit_downtime_reconciliation_def Let_def split: option.splits if_splits sum.splits)
qed

lemma commit_downtime_grown:
  assumes "engine_ok E t"
    and "\<And>p. en_in_flight_reconciliation t = Some p \<Longrightarrow> dp_reconciliation_id p = dp_reconciliation_id plan \<Longrightarrow> p = plan"
  shows "grown E t (snd (commit_downtime_reconciliation E sample txn plan t))"
proof (cases "commit_downtime_reconciliation E sample txn plan t")
  case (Pair r t')
  then show ?thesis
  proof (cases rule: commit_downtime_cases)
    case same
    then show ?thesis using Pair assms(1) grown_refl by simp
  next
    case (committed p s')
    have p: "en_in_flight_reconciliation t = Some plan" using committed(1,2) assms(2) by simp
    then have "state_ok E s'" "later (en_state t) s'"
      using apply_downtime_effect(1,2) [OF committed(5)] assms(1) by (simp_all add: engine_ok_def in_flight_ok_def)
    then show ?thesis
      using Pair committed(6) assms(1) advance_plan_later
      by (auto simp: grown_def engine_ok_def in_flight_ok_def)
  qed
qed

lemma prepare_observation_grown:
  "engine_ok E t \<Longrightarrow> grown E t (snd (prepare_observation_plan fresh lane k c oi ei tick m tx se sh ca age ver schema t))"
  by (auto simp: prepare_observation_plan_def Let_def grown_refl intro: grown_same split: sum.split)

lemma prepare_finalized_grown:
  "engine_ok E t \<Longrightarrow> grown E t (snd (prepare_finalized_evidence file fresh tx k c oi ei tick m se sh ca age ver schema t))"
  by (auto simp: prepare_finalized_evidence_def grown_refl prepare_observation_grown split: sum.split)

lemma prepare_authoritative_grown:
  "engine_ok E t \<Longrightarrow> grown E t (snd (prepare_authoritative_event file fresh tx k c oi ei tick m se sh ca age ver schema t))"
  by (auto simp: prepare_authoritative_event_def grown_refl prepare_observation_grown split: sum.split)

lemma abandon_observation_grown: "engine_ok E t \<Longrightarrow> grown E t (snd (abandon_observation_plan i t))"
  by (auto simp: abandon_observation_plan_def grown_refl intro: grown_same split: option.split)

lemma engine_ok_observation [simp]:
  "engine_ok E (t\<lparr>en_in_flight_observation := obs\<rparr>) = engine_ok E t"
  "engine_ok E (t\<lparr>en_committed_observation_plan_ids := done\<rparr>) = engine_ok E t"
  "engine_ok E (t\<lparr>en_post_hoc_anchor_registry := anchors\<rparr>) = engine_ok E t"
  by (simp_all add: engine_ok_def in_flight_ok_def)

lemma commit_observation_cases:
  assumes "commit_observation_plan E plan t = (r, t')"
  obtains (same) e where "r = Inl e" "t' = t"
    | (ran) q s' where "en_in_flight_observation t = Some q" "op_observation_plan_id q = op_observation_plan_id plan"
      "op_expected_temporal_state_version plan = ts_state_version (en_state t)"
      "op_expected_temporal_state_hash plan = ts_state_hash (en_state t)"
      "apply_hypothesis_deltas E (op_hypothesis_deltas plan) (ts_dedup_summary (en_state t)) None (en_state t) = (r, s')"
      "en_state t' = s'" "engine_ok E t' = engine_ok E (t\<lparr>en_state := s'\<rparr>)"
      "en_in_flight t' = en_in_flight t" "en_committed_advance_ids t' = en_committed_advance_ids t"
proof (cases "\<exists>e. r = Inl e \<and> t' = t")
  case True
  then show ?thesis using same by blast
next
  case False
  obtain q where q: "en_in_flight_observation t = Some q" "op_observation_plan_id q = op_observation_plan_id plan"
      "op_expected_temporal_state_version plan = ts_state_version (en_state t)"
      "op_expected_temporal_state_hash plan = ts_state_hash (en_state t)"
    using assms False by (auto simp: commit_observation_plan_def split: option.splits if_splits)
  obtain g s' where run: "apply_hypothesis_deltas E (op_hypothesis_deltas plan) (ts_dedup_summary (en_state t)) None
      (en_state t) = (g, s')" by (rule prod.exhaust)
  have "r = g \<and> en_state t' = s' \<and> engine_ok E t' = engine_ok E (t\<lparr>en_state := s'\<rparr>)
      \<and> en_in_flight t' = en_in_flight t \<and> en_committed_advance_ids t' = en_committed_advance_ids t"
    using assms False q by (cases g) (auto simp: commit_observation_plan_def run split: if_splits sum.splits)
  then show ?thesis using ran [OF q] run by blast
qed

lemma commit_observation_effect:
  assumes "engine_ok E t" and "commit_observation_plan E plan t = (r, t')"
  shows "grown E t t'" "ts_state_version (en_state t') = ts_state_version (en_state t)"
    "r = Inr h \<Longrightarrow> d \<in> set (op_hypothesis_deltas plan)
      \<Longrightarrow> identity_seen (ts_dedup_summary (en_state t')) (Some (hd_evidence_identity d)) None"
proof -
  have s: "state_ok E (en_state t)" using assms(1) by (simp add: engine_ok_def)
  have "grown E t t' \<and> ts_state_version (en_state t') = ts_state_version (en_state t) \<and> (r = Inr h \<longrightarrow>
      (\<forall>d \<in> set (op_hypothesis_deltas plan). identity_seen (ts_dedup_summary (en_state t')) (Some (hd_evidence_identity d)) None))"
    using assms(2)
  proof (cases rule: commit_observation_cases)
    case same
    then show ?thesis using assms(1) grown_refl by simp
  next
    case (ran q s')
    note eff = deltas_effect [OF ran(5) s HOL.refl]
    have "engine_ok E (t\<lparr>en_state := s'\<rparr>)"
      using eff by (intro engine_ok_state [OF assms(1)]) (simp_all add: same_clock_def)
    then show ?thesis using eff ran(6,7) by (auto simp: grown_def same_clock_def)
  qed
  then show "grown E t t'" "ts_state_version (en_state t') = ts_state_version (en_state t)"
    "r = Inr h \<Longrightarrow> d \<in> set (op_hypothesis_deltas plan)
      \<Longrightarrow> identity_seen (ts_dedup_summary (en_state t')) (Some (hd_evidence_identity d)) None" by auto
qed

lemma store_grown:
  assumes "engine_ok E t" and "\<And>s. \<exists>ks. also_set s = s\<lparr>ts_observation_miss_keys := ts_observation_miss_keys s @ ks\<rparr>"
  shows "grown E t (snd (store_hypothesis E h also_set t))"
proof (cases "upsert_recurrence_index (ts_recurrence_index (en_state t)) h")
  case (Inl e)
  then show ?thesis using assms(1) by (simp add: store_hypothesis_def grown_refl)
next
  case (Inr idx)
  obtain ks where ks: "also_set ((en_state t)\<lparr>ts_recurrence_index := idx\<rparr>)
      = (en_state t)\<lparr>ts_recurrence_index := idx, ts_observation_miss_keys := ts_observation_miss_keys (en_state t) @ ks\<rparr>"
    using assms(2) [of "(en_state t)\<lparr>ts_recurrence_index := idx\<rparr>"] by auto
  let ?s = "with_state_hash E (also_set ((en_state t)\<lparr>ts_recurrence_index := idx\<rparr>))"
  have ok: "state_ok E (en_state t)" using assms(1) by (simp add: engine_ok_def)
  then have s: "state_ok E ?s"
    using upsert_wf [OF _ Inr] unfolding state_ok_seal ks by (simp add: state_ok_def)
  have l: "later (en_state t) ?s" unfolding later_seal ks by (simp add: later_def)
  have "snd (store_hypothesis E h also_set t) = t\<lparr>en_state := ?s\<rparr>"
    by (simp add: store_hypothesis_def Inr)
  then show ?thesis using engine_ok_state [OF assms(1) l s] l by (simp add: grown_def)
qed

lemma window_miss_grown: "engine_ok E t \<Longrightarrow> grown E t (snd (record_observation_window_miss E ev t))"
  by (auto simp: record_observation_window_miss_def Let_def grown_refl split: sum.split option.split prod.split
      dest!: arg_cong [where f = snd] intro!: store_grown)

lemma observe_occurrence_grown:
  "engine_ok E t \<Longrightarrow> grown E t (snd (observe_recurrence_occurrence E k c oi ei tick lane schema t))"
  by (auto simp: observe_recurrence_occurrence_def Let_def grown_refl split: sum.split
      intro!: store_grown exI [where x = "[]"])

lemma recurrence_miss_grown: "engine_ok E t \<Longrightarrow> grown E t (snd (record_recurrence_miss E i t))"
  by (auto simp: record_recurrence_miss_def grown_refl split: sum.split option.split
      intro!: store_grown exI [where x = "[]"])

section \<open>Reachable engines\<close>

text \<open>One operation of the engine, whatever its outcome. A caller commits the plan it was given: a plan with the
  identifier of the plan in flight is the plan in flight.\<close>

inductive engine_step :: "hash_env \<Rightarrow> temporal_engine \<Rightarrow> temporal_engine \<Rightarrow> bool" for E where
  anchor_registered: "engine_step E t (register_post_hoc_anchor i h a g v t)"
| advance_prepared: "engine_step E t (snd (prepare_advance E fresh sample sq t))"
| advance_abandoned: "engine_step E t (snd (abandon_advance i t))"
| advance_committed: "(\<And>p. en_in_flight t = Some p \<Longrightarrow> tp_advance_id p = tp_advance_id plan \<Longrightarrow> p = plan)
    \<Longrightarrow> engine_step E t (snd (commit_advance E sample sess plan t))"
| downtime_prepared: "engine_step E t (snd (reconcile_downtime E fe rid sample sess j reg file snaps t))"
| downtime_abandoned: "engine_step E t (snd (abandon_downtime_reconciliation i t))"
| downtime_committed: "(\<And>p. en_in_flight_reconciliation t = Some p
      \<Longrightarrow> dp_reconciliation_id p = dp_reconciliation_id dplan \<Longrightarrow> p = dplan)
    \<Longrightarrow> engine_step E t (snd (commit_downtime_reconciliation E sample txn dplan t))"
| evidence_prepared: "engine_step E t (snd (prepare_finalized_evidence allow fresh tx k c oi ei tick m se sh ca age ver sc t))"
| event_prepared: "engine_step E t (snd (prepare_authoritative_event allow fresh tx k c oi ei tick m se sh ca age ver sc t))"
| observation_abandoned: "engine_step E t (snd (abandon_observation_plan i t))"
| observation_committed: "engine_step E t (snd (commit_observation_plan E oplan t))"
| window_missed: "engine_step E t (snd (record_observation_window_miss E ev t))"
| occurrence_observed: "engine_step E t (snd (observe_recurrence_occurrence E k c oi ei tick lane sc t))"
| recurrence_missed: "engine_step E t (snd (record_recurrence_miss E i t))"

inductive engine_steps :: "hash_env \<Rightarrow> temporal_engine \<Rightarrow> temporal_engine \<Rightarrow> bool" for E where
  stay: "engine_steps E t t"
| more: "engine_steps E t t' \<Longrightarrow> engine_step E t' t'' \<Longrightarrow> engine_steps E t t''"

inductive_cases engine_stepsE: "engine_steps E t t'"

lemma step_grown: "engine_step E t t' \<Longrightarrow> engine_ok E t \<Longrightarrow> grown E t t'"
proof (induction rule: engine_step.induct)
  case (anchor_registered t i h a g v)
  then show ?case by (auto simp: register_post_hoc_anchor_def intro: grown_same)
next
  case (observation_committed t oplan)
  then show ?case using commit_observation_effect(1) [OF _ prod.collapse [symmetric]] by blast
qed (simp_all add: prepare_advance_grown abandon_advance_grown commit_advance_grown reconcile_grown
    abandon_reconciliation_grown commit_downtime_grown prepare_finalized_grown prepare_authoritative_grown
    abandon_observation_grown window_miss_grown observe_occurrence_grown recurrence_miss_grown)

lemma steps_grown: "engine_steps E t t' \<Longrightarrow> engine_ok E t \<Longrightarrow> grown E t t'"
proof (induction rule: engine_steps.induct)
  case (stay t)
  then show ?case by (rule grown_refl)
next
  case (more t t' t'')
  then show ?case using step_grown [of E t' t''] later_trans by (auto simp: grown_def)
qed

lemma steps_trans: "engine_steps E t u \<Longrightarrow> engine_steps E s t \<Longrightarrow> engine_steps E s u"
  by (induction rule: engine_steps.induct) (auto intro: engine_steps.more)

section \<open>Engines with restarts\<close>

text \<open>
  The life of an engine object, \<open>replace_state\<close> included: that call starts over from a durable state, which may be older than
  the one it replaces, and forgets every plan and journal. \<open>engine_life E s t\<close>: the engine is now \<open>t\<close> and the last state loaded
  into it was \<open>s\<close>. A loaded state is an intact one, with its own hash, a dedup summary within its limits and a well-formed index,
  as \<open>temporal_state_from_dict\<close> returns it for a stored state.
\<close>

inductive engine_life :: "hash_env \<Rightarrow> temporal_state \<Rightarrow> temporal_engine \<Rightarrow> bool" for E where
  created: "state_ok E s \<Longrightarrow> engine_life E s (new_temporal_engine s)"
| stepped: "engine_life E s t \<Longrightarrow> engine_step E t t' \<Longrightarrow> engine_life E s t'"
| restored: "engine_life E s t \<Longrightarrow> state_ok E s' \<Longrightarrow> engine_life E s' (replace_state s' t)"

lemma replace_state_ok: "state_ok E s \<Longrightarrow> engine_ok E (replace_state s t)"
  by (simp add: engine_ok_def replace_state_def)

lemma engine_life_ok: "engine_life E s t \<Longrightarrow> engine_ok E t \<and> later s (en_state t)"
proof (induction rule: engine_life.induct)
  case (created s)
  then show ?case using new_engine_ok later_refl by (simp add: new_temporal_engine_def)
next
  case (stepped s t t')
  then show ?case using step_grown [of E t t'] later_trans by (auto simp: grown_def)
next
  case (restored s t s')
  then show ?case using replace_state_ok later_refl by (simp add: replace_state_def)
qed

lemma steps_life: "engine_steps E t t' \<Longrightarrow> engine_life E s t \<Longrightarrow> engine_life E s t'"
  by (induction rule: engine_steps.induct) (auto intro: engine_life.stepped)

end
