(* ===== verification/EngineProtocols.thy ===== *)
theory EngineProtocols
  imports EngineInvariant
begin

text \<open>
  The three protocols of the temporal engine over its reachable states: an advance commits and counts once, a
  reconciliation of downtime counts once and its retry is the same reconciliation, and evidence counts once.
\<close>

section \<open>Committed intervals\<close>

definition committed_as :: "temporal_engine \<Rightarrow> string \<Rightarrow> downtime_reconciliation_record \<Rightarrow> bool" where
  "committed_as t i r \<longleftrightarrow> map_of (en_reconciliation_journal t) i = Some r \<and> dr_status r = COMMITTED"

lemma committed_as_journal:
  "en_reconciliation_journal t' = en_reconciliation_journal t \<Longrightarrow> committed_as t' i r = committed_as t i r"
  by (simp add: committed_as_def)

lemma sticky_journal:
  "sticky_interval E sample sess t = (x, t1) \<Longrightarrow> en_reconciliation_journal t1 = en_reconciliation_journal t"
  by (auto simp: sticky_interval_def Let_def split: option.splits)

lemma store_journal: "en_reconciliation_journal (snd (store_hypothesis E h f t)) = en_reconciliation_journal t"
  by (simp add: store_hypothesis_def split: sum.split)

lemma reconcile_from_committed:
  "committed_as t1 i r \<Longrightarrow> committed_as (snd (reconcile_from E rid k s computed t1)) i r"
  by (cases computed) (auto simp: reconcile_from_def committed_as_def split: option.split)

lemma reconcile_keeps_committed:
  assumes "engine_ok E t" and "committed_as t i r"
  shows "committed_as (snd (reconcile_downtime E fresh rid sample sess j reg file snaps t)) i r"
proof (cases "en_in_flight_reconciliation t")
  case (Some p)
  then show ?thesis using assms by (simp add: reconcile_downtime_def)
next
  case None
  from sticky_ok [OF assms(1) None, of sample sess]
  obtain k s t1 where st: "sticky_interval E sample sess t = (Inr (k, s), t1)" by blast
  have "committed_as t1 i r" using assms(2) committed_as_journal [OF sticky_journal [OF st]] by simp
  then show ?thesis
    unfolding reconcile_eq [OF None st] by (rule reconcile_from_committed)
qed

lemma commit_keeps_committed:
  assumes "engine_ok E t" and "committed_as t i r"
    and "\<And>p. en_in_flight_reconciliation t = Some p \<Longrightarrow> dp_reconciliation_id p = dp_reconciliation_id plan \<Longrightarrow> p = plan"
  shows "committed_as (snd (commit_downtime_reconciliation E sample txn plan t)) i r"
proof (cases "commit_downtime_reconciliation E sample txn plan t")
  case (Pair x t')
  then show ?thesis
  proof (cases rule: commit_downtime_cases)
    case same
    then show ?thesis using Pair assms(2) by simp
  next
    case (committed p s')
    then have "in_flight_ok E t plan" using assms(1,3) by (simp add: engine_ok_def)
    then have "dp_downtime_interval_id plan \<noteq> i" using assms(2) by (auto simp: in_flight_ok_def committed_as_def)
    then show ?thesis using Pair committed(6) assms(2) by (simp add: committed_as_def)
  qed
qed

lemma step_keeps_committed:
  "engine_step E t t' \<Longrightarrow> engine_ok E t \<Longrightarrow> committed_as t i r \<Longrightarrow> committed_as t' i r"
proof (induction rule: engine_step.induct)
  case downtime_prepared
  then show ?case using reconcile_keeps_committed by blast
next
  case (downtime_committed t dplan sample txn)
  then show ?case using commit_keeps_committed by blast
next
  case (window_missed t ev)
  have "en_reconciliation_journal (snd (record_observation_window_miss E ev t)) = en_reconciliation_journal t"
    by (simp add: record_observation_window_miss_def Let_def store_journal [unfolded prod.sel] case_prod_beta
        split: sum.split option.split)
  then show ?case using window_missed committed_as_journal by blast
qed (auto simp: committed_as_def register_post_hoc_anchor_def prepare_advance_def abandon_advance_def commit_advance_def
    abandon_downtime_reconciliation_def prepare_finalized_evidence_def prepare_authoritative_event_def
    prepare_observation_plan_def abandon_observation_plan_def commit_observation_plan_def
    observe_recurrence_occurrence_def record_recurrence_miss_def store_journal Let_def
    split: option.splits sum.splits prod.splits)

lemma steps_keep_committed:
  "engine_steps E t t' \<Longrightarrow> engine_ok E t \<Longrightarrow> committed_as t i r \<Longrightarrow> committed_as t' i r"
proof (induction rule: engine_steps.induct)
  case (more t t' t'')
  then show ?case using step_keeps_committed steps_grown by (auto simp: grown_def)
qed

lemma commit_again:
  "committed_as t (dp_downtime_interval_id p) r \<Longrightarrow> dr_canonical_plan_hash r = dp_canonical_plan_hash p \<Longrightarrow>
     commit_downtime_reconciliation E sample txn p t = (Inr \<lparr>dx_plan = p, dx_new_state = en_state t, dx_record = r\<rparr>, t)"
  by (simp add: commit_downtime_reconciliation_def committed_as_def Let_def)

lemma effect_hash_independent:
  "calculate_effects E f c snap el u tc = Inr (Some p) \<Longrightarrow>
     \<exists>p'. calculate_effects E f' c snap el u tc = Inr (Some p') \<and> ep_effect_plan_hash p' = ep_effect_plan_hash p"
  "calculate_effects E f c snap el u tc = Inr None \<Longrightarrow> calculate_effects E f' c snap el u tc = Inr None"
  by (auto simp: calculate_effects_def Let_def andThen_eq_Inr split: if_splits)

lemma effects_hashes_independent:
  "calculate_all_effects E fr cs snaps el u tc = Inr (ps, sk, rf) \<Longrightarrow>
     \<exists>ps'. calculate_all_effects E fr' cs snaps el u tc = Inr (ps', sk, rf)
       \<and> map ep_effect_plan_hash ps' = map ep_effect_plan_hash ps"
proof (induction cs arbitrary: fr fr' ps sk rf)
  case Nil
  then show ?case by simp
next
  case (Cons c cs)
  obtain plan where plan: "(case map_of snaps (ec_subsystem c) of None \<Rightarrow> Inr None
      | Some snapshot \<Rightarrow> calculate_effects E (fr 0) c snapshot el u tc) = Inr plan"
    using Cons.prems by (auto simp: andThen_eq_Inr)
  obtain qs sk0 rf0 where qs: "calculate_all_effects E (fr \<circ> Suc) cs snaps el u tc = Inr (qs, sk0, rf0)"
    using Cons.prems plan by (auto simp: andThen_eq_Inr)
  obtain qs' where qs': "calculate_all_effects E (fr' \<circ> Suc) cs snaps el u tc = Inr (qs', sk0, rf0)"
    "map ep_effect_plan_hash qs' = map ep_effect_plan_hash qs"
    using Cons.IH [OF qs] by blast
  show ?case
  proof (cases plan)
    case None
    then have "(case map_of snaps (ec_subsystem c) of None \<Rightarrow> Inr None
      | Some snapshot \<Rightarrow> calculate_effects E (fr' 0) c snapshot el u tc) = Inr None"
      using plan effect_hash_independent(2) by (auto split: option.splits)
    then show ?thesis using Cons.prems plan None qs qs' by (auto split: if_splits)
  next
    case (Some p)
    then obtain p' where "(case map_of snaps (ec_subsystem c) of None \<Rightarrow> Inr None
      | Some snapshot \<Rightarrow> calculate_effects E (fr' 0) c snapshot el u tc) = Inr (Some p')"
      "ep_effect_plan_hash p' = ep_effect_plan_hash p"
    proof -
      obtain x where x: "map_of snaps (ec_subsystem c) = Some x" "calculate_effects E (fr 0) c x el u tc = Inr (Some p)"
        using plan Some by (auto split: option.splits)
      from effect_hash_independent(1) [OF x(2), of "fr' 0"] that x(1) show ?thesis by auto
    qed
    then show ?thesis using Cons.prems plan Some qs qs' by auto
  qed
qed

text \<open>The plan of a gap does not depend on the new identifiers it is given, these apart.\<close>

lemma downtime_plan_again:
  assumes "downtime_plan E fr rid sess j reg snaps i s t = Inr p"
    and "en_state t' = en_state t"
  shows "\<exists>q. downtime_plan E fr' rid' sess j reg snaps i s t' = Inr q
    \<and> dp_canonical_plan_hash q = dp_canonical_plan_hash p \<and> dp_trusted_sample_hash q = dp_trusted_sample_hash p
    \<and> dp_age_advance q = dp_age_advance p \<and> dp_wait_recovery_deltas q = dp_wait_recovery_deltas p
    \<and> dp_expectation_recovery_deltas q = dp_expectation_recovery_deltas p"
proof -
  obtain c where c: "classify_downtime_trust (ts_last_time_anchor (en_state t)) s
      (ts_wall_clock_mapping (en_state t)) = Inr c"
    using assms(1) by (auto simp: downtime_plan_def Let_def andThen_eq_Inr)
  obtain ps sk rf where ps: "calculate_all_effects E fr (er_contracts reg) (subsystem_snaps t snaps)
      (tr_elapsed_seconds c) (sm_wall_time_uncertainty s) (tr_trust_class c) = Inr (ps, sk, rf)"
    using assms(1) by (auto simp: downtime_plan_def Let_def c andThen_eq_Inr)
  obtain ps' where ps': "calculate_all_effects E fr' (er_contracts reg) (subsystem_snaps t snaps)
      (tr_elapsed_seconds c) (sm_wall_time_uncertainty s) (tr_trust_class c) = Inr (ps', sk, rf)"
    "map ep_effect_plan_hash ps' = map ep_effect_plan_hash ps"
    using effects_hashes_independent [OF ps] by blast
  have same: "subsystem_snaps t' snaps = subsystem_snaps t snaps" "predict_recurrence t' = predict_recurrence t"
    unfolding subsystem_snaps_def predict_recurrence_def assms(2) by (rule HOL.refl)+
  show ?thesis
    using assms(1)
    by (auto simp: downtime_plan_def Let_def assms(2) same c ps ps' andThen_eq_Inr)
qed

lemma sticky_again:
  assumes "sticky_interval E sample sess t = (Inr (i, s), t1)" and "engine_ok E t" and "en_in_flight_reconciliation t = None"
    and "en_state u = en_state t1"
    and "en_prepared_context_index u = en_prepared_context_index t1"
    and "en_prepared_reconciliation_samples u = en_prepared_reconciliation_samples t1"
  shows "sticky_interval E sample' sess u = (Inr (i, s), u)"
  using sticky_ok [OF assms(2,3), of sample sess] assms(1,4-6) by (auto simp: sticky_interval_def)

lemma prepared_commit:
  assumes "prepare_advance E fresh sample sq t = (Inr plan, t1)"
    and "''advance:'' @ fresh \<notin> set (en_committed_advance_ids t)"
    and "''advance:'' @ fresh \<noteq> ts_last_advance_id (en_state t)"
  shows "\<exists>s' r t2. commit_advance E sample' sess plan t1 = (Inr (s', r), t2) \<and> en_state t2 = s' \<and> en_in_flight t2 = None
    \<and> ts_organism_age_ticks s' = ts_organism_age_ticks (en_state t) + 1
    \<and> ts_organism_active_ticks s' = ts_organism_active_ticks (en_state t) + 1
    \<and> ts_state_version s' = ts_state_version (en_state t) + 1
    \<and> ts_recurrence_index s' = ts_recurrence_index (en_state t) \<and> ts_dedup_summary s' = ts_dedup_summary (en_state t)
    \<and> ts_state_hash s' = compute_state_hash E s'
    \<and> apply_advance_record (en_state t) r = Inr s'"
proof -
  have plan: "tp_advance_id plan = ''advance:'' @ fresh" "tp_expected_state_version plan = ts_state_version (en_state t)"
    "tp_expected_state_hash plan = ts_state_hash (en_state t)"
    "tp_next_age_ticks plan = ts_organism_age_ticks (en_state t) + 1"
    "tp_next_active_ticks plan = ts_organism_active_ticks (en_state t) + 1"
    "t1 = t\<lparr>en_in_flight := Some plan\<rparr>"
    using assms(1) by (auto simp: prepare_advance_def Let_def split: if_splits)
  obtain s' where s': "apply_advance_plan E (en_state t) plan sample' sess = Inr s'"
    using assms(3) plan by (simp add: apply_advance_plan_def Let_def)
  have eff: "ts_organism_age_ticks s' = ts_organism_age_ticks (en_state t) + 1"
    "ts_organism_active_ticks s' = ts_organism_active_ticks (en_state t) + 1"
    "ts_state_version s' = ts_state_version (en_state t) + 1"
    "ts_recurrence_index s' = ts_recurrence_index (en_state t)" "ts_dedup_summary s' = ts_dedup_summary (en_state t)"
    "ts_state_hash s' = compute_state_hash E s'"
    using s' plan state_seal.sealed_seal [of E]
    by (auto simp: apply_advance_plan_def Let_def state_seal.sealed_def compute_state_hash_def split: if_splits)
  let ?r = "build_advance_record (en_state t) s' plan"
  let ?t2 = "t1\<lparr>en_state := s', en_in_flight := None, en_committed_advance_ids := [tp_advance_id plan]\<rparr>"
  have commit: "commit_advance E sample' sess plan t1 = (Inr (s', ?r), ?t2)"
    using assms(2) plan s' by (simp add: commit_advance_def)
  have "en_state ?t2 = s'" "en_in_flight ?t2 = None" by simp_all
  then show ?thesis using commit eff advance_replayed [OF s'] by blast
qed

section \<open>Properties\<close>

text \<open>C7: the invariant of the engine. Whatever its operations are called with and however they end, restarts through
  \<open>replace_state\<close> included, the stored hash is the hash of the state, the dedup summary is within its limits and the recurrence
  index is sorted, without duplicate keys and within its cap. Since the last state was loaded, age, active ticks and version
  have not decreased, the clock has moved only with the version, the organism has been active for no more ticks than it has
  aged, and no evidence, occurrence or miss key has been forgotten. Two obligations are the caller's: a loaded state is intact,
  and a commit that names the plan in flight is given that plan.\<close>

theorem engine_invariant:
  assumes "engine_life E s t"
  shows "ts_state_hash (en_state t) = compute_state_hash E (en_state t)
    \<and> dedup_ok (ts_dedup_summary (en_state t)) \<and> index_wf (ts_recurrence_index (en_state t))
    \<and> later s (en_state t)"
  using engine_life_ok [OF assms] by (simp add: engine_ok_def state_ok_def)

lemma example_state_ok: "state_ok plain_env example_state"
  by (simp add: example_state_def sample_temporal_state_def initialize_temporal_epoch_def Let_def state_ok_seal
      empty_dedup_ok index_wf_def MAX_RECURRENCE_HYPOTHESES_def)

definition example_engine :: temporal_engine where
  "example_engine = new_temporal_engine example_state"

definition ticking_engine :: temporal_engine where
  "ticking_engine = snd (prepare_advance plain_env ''a1'' example_sample 1 example_engine)"

lemma ticking_reachable: "engine_steps plain_env (new_temporal_engine example_state) ticking_engine"
  unfolding ticking_engine_def example_engine_def
  by (rule engine_steps.more [OF engine_steps.stay engine_step.advance_prepared])

text \<open>An engine that ticks, is restored to the state it started from, and prepares its next tick.\<close>

definition restored_engine :: temporal_engine where
  "restored_engine = snd (prepare_advance plain_env ''a2'' example_sample 2 (replace_state example_state ticking_engine))"

lemma restored_life: "engine_life plain_env example_state restored_engine"
  unfolding restored_engine_def
  by (rule engine_life.stepped [OF engine_life.restored [OF steps_life [OF ticking_reachable
      engine_life.created [OF example_state_ok]] example_state_ok] engine_step.advance_prepared])

lemma engine_invariant_witness:
  "ts_state_hash (en_state restored_engine) = compute_state_hash plain_env (en_state restored_engine)
    \<and> later example_state (en_state restored_engine)"
  using engine_invariant [OF restored_life] by blast

text \<open>C8: a prepared advance commits, whatever the engine held before: the age, the active ticks and the version grow
  by exactly one, the recurrence index and the dedup summary stay, the slot is empty afterwards, the record left
  replays from the prior state to the new one, and the same plan is refused the second time.\<close>

theorem prepared_advance_commits:
  assumes "prepare_advance E fresh sample sq t = (Inr plan, t1)"
    and "''advance:'' @ fresh \<notin> set (en_committed_advance_ids t)"
    and "''advance:'' @ fresh \<noteq> ts_last_advance_id (en_state t)"
  shows "\<exists>s' r t2. commit_advance E sample' sess plan t1 = (Inr (s', r), t2) \<and> en_state t2 = s' \<and> en_in_flight t2 = None
    \<and> ts_organism_age_ticks s' = ts_organism_age_ticks (en_state t) + 1
    \<and> ts_organism_active_ticks s' = ts_organism_active_ticks (en_state t) + 1
    \<and> ts_state_version s' = ts_state_version (en_state t) + 1
    \<and> ts_recurrence_index s' = ts_recurrence_index (en_state t) \<and> ts_dedup_summary s' = ts_dedup_summary (en_state t)
    \<and> ts_state_hash s' = compute_state_hash E s'
    \<and> apply_advance_record (en_state t) r = Inr s'
    \<and> (\<exists>e. fst (commit_advance E sample' sess plan t2) = Inl e)"
  using prepared_commit [OF assms] advance_slot.commit_once [of E sample' sess plan t1] by fastforce

lemma prepared_advance_commits_witness:
  "\<exists>s' r t2 plan. commit_advance plain_env example_sample ''s2'' plan ticking_engine = (Inr (s', r), t2)
     \<and> ts_organism_age_ticks s' = 1 \<and> apply_advance_record example_state r = Inr s'"
proof -
  obtain plan where "prepare_advance plain_env ''a1'' example_sample 1 example_engine = (Inr plan, ticking_engine)"
    by (simp add: ticking_engine_def prepare_advance_def Let_def example_engine_def new_temporal_engine_def)
  from prepared_advance_commits [OF this, of example_sample "''s2''"]
  show ?thesis
    by (simp add: example_engine_def new_temporal_engine_def example_state_def sample_temporal_state_def
        initialize_temporal_epoch_def Let_def with_state_hash_def GENESIS_ADVANCE_ID_def) blast
qed

text \<open>C9: downtime is counted once. Committing the reconciliation in flight of a reachable engine, if it succeeds, adds
  at most \<open>MAX_DOWNTIME_AGE_ADVANCE\<close> ticks of age, no active tick and one version; and however the engine goes on,
  committing that plan again succeeds without changing anything.\<close>

theorem downtime_counted_once:
  assumes "engine_steps E (new_temporal_engine s) t" and "state_ok E s"
    and "en_in_flight_reconciliation t = Some p"
    and "commit_downtime_reconciliation E sample txn p t = (Inr x, t')"
    and "engine_steps E t' u"
  shows "0 \<le> ts_organism_age_ticks (en_state t') - ts_organism_age_ticks (en_state t)
    \<and> ts_organism_age_ticks (en_state t') - ts_organism_age_ticks (en_state t) \<le> MAX_DOWNTIME_AGE_ADVANCE
    \<and> ts_organism_active_ticks (en_state t') = ts_organism_active_ticks (en_state t)
    \<and> ts_state_version (en_state t') = ts_state_version (en_state t) + 1
    \<and> en_in_flight_reconciliation t' = None
    \<and> (\<exists>y. commit_downtime_reconciliation E sample' txn' p u = (Inr y, u))"
proof -
  have ok: "engine_ok E t" using steps_grown [OF assms(1) new_engine_ok [OF assms(2)]] by (simp add: grown_def)
  have p: "in_flight_ok E t p" using ok assms(3) by (simp add: engine_ok_def)
  have "t' \<noteq> t"
    using assms(3,4) p
    by (auto simp: in_flight_ok_def commit_downtime_reconciliation_def Let_def split: if_splits option.splits sum.splits
        dest!: arg_cong [where f = en_in_flight_reconciliation])
  with assms(4) obtain s' where c: "apply_downtime_plan_to_state E (en_state t) p (case map_of (en_prepared_reconciliation_samples t)
         (dp_downtime_interval_id p) of None \<Rightarrow> sample | Some s \<Rightarrow> s) = Inr s'"
    "en_state t' = s'" "en_in_flight_reconciliation t' = None"
    "\<exists>r. committed_as t' (dp_downtime_interval_id p) r \<and> dr_canonical_plan_hash r = dp_canonical_plan_hash p"
    by (cases rule: commit_downtime_cases) (auto simp: committed_as_def)
  have eff: "ts_organism_age_ticks s' = ts_organism_age_ticks (en_state t) + dp_age_advance p"
    "ts_organism_active_ticks s' = ts_organism_active_ticks (en_state t)" "ts_state_version s' = ts_state_version (en_state t) + 1"
    using apply_downtime_effect(3-5) [OF c(1)] p ok by (simp_all add: in_flight_ok_def engine_ok_def)
  have "engine_ok E t'"
    using commit_downtime_grown [OF ok, of p sample txn] assms(3,4) by (simp add: grown_def)
  then have "\<exists>r. committed_as u (dp_downtime_interval_id p) r \<and> dr_canonical_plan_hash r = dp_canonical_plan_hash p"
    using c(4) steps_keep_committed [OF assms(5)] by blast
  then have "\<exists>y. commit_downtime_reconciliation E sample' txn' p u = (Inr y, u)" using commit_again by blast
  then show ?thesis using eff c p by (simp add: in_flight_ok_def reconciliation_plan_ok_def)
qed

definition no_contracts :: elapsed_contract_registry where
  "no_contracts = \<lparr>er_schema_version = ''s'', er_registry_version = 1, er_registry_hash = ''g'', er_contracts = []\<rparr>"

definition rested_state :: temporal_state where
  "rested_state = with_state_hash plain_env (example_state\<lparr>ts_last_time_anchor := example_anchor,
     ts_organism_age_ticks := 7, ts_organism_active_ticks := 7\<rparr>)"

lemma rested_fields:
  "ts_last_time_anchor rested_state = example_anchor" "ts_wall_clock_mapping rested_state = None"
  "ts_recurrence_index rested_state = []" "ts_organism_age_ticks rested_state = 7"
  by (simp_all add: rested_state_def example_state_def sample_temporal_state_def initialize_temporal_epoch_def Let_def)

lemma rested_state_ok: "state_ok plain_env rested_state"
  using example_state_ok by (simp add: rested_state_def state_ok_seal) (simp add: state_ok_def)

definition rested_engine :: temporal_engine where
  "rested_engine = new_temporal_engine rested_state"

definition reconciling_engine :: temporal_engine where
  "reconciling_engine = snd (reconcile_downtime plain_env (\<lambda>_. ''f'') ''rc1'' example_sample ''s2'' None
     (Some no_contracts) VNone None rested_engine)"

lemma reconciling_reachable: "engine_steps plain_env (new_temporal_engine rested_state) reconciling_engine"
  unfolding reconciling_engine_def rested_engine_def
  by (rule engine_steps.more [OF engine_steps.stay engine_step.downtime_prepared])

lemma no_expectations: "ts_recurrence_index s = [] \<Longrightarrow> compute_expectation_recovery_deltas s n f = Inr []"
  by (simp add: compute_expectation_recovery_deltas_def policy_expectation_views_from_index_def)

lemma example_reconciled:
  "\<exists>p. reconcile_downtime plain_env (\<lambda>_. ''f'') ''rc1'' example_sample ''s2'' None (Some no_contracts) VNone None
     rested_engine = (Inr p, reconciling_engine) \<and> en_in_flight_reconciliation reconciling_engine = Some p
     \<and> en_state reconciling_engine = rested_state \<and> dp_age_advance p = 5 \<and> dp_expectation_recovery_deltas p = []"
  by (simp add: reconciling_engine_def reconcile_downtime_def rested_engine_def new_temporal_engine_def
      sticky_interval_def Let_def no_contracts_def downtime_plan_def rested_fields example_trust no_expectations)

lemma example_reconciliation:
  "\<exists>p x t'. en_in_flight_reconciliation reconciling_engine = Some p
     \<and> commit_downtime_reconciliation plain_env example_sample ''t1'' p reconciling_engine = (Inr x, t')"
proof -
  obtain p where p: "en_in_flight_reconciliation reconciling_engine = Some p"
    "en_state reconciling_engine = rested_state" "dp_expectation_recovery_deltas p = []"
    and run: "reconcile_downtime plain_env (\<lambda>_. ''f'') ''rc1'' example_sample ''s2'' None (Some no_contracts) VNone None
       rested_engine = (Inr p, reconciling_engine)"
    using example_reconciled by blast
  have "engine_ok plain_env reconciling_engine"
    using steps_grown [OF reconciling_reachable new_engine_ok [OF rested_state_ok]] by (simp add: grown_def)
  then have ok: "in_flight_ok plain_env reconciling_engine p" using p(1) by (simp add: engine_ok_def)
  have "dp_expected_state_version p = ts_state_version rested_state" "dp_expected_state_hash p = ts_state_hash rested_state"
    using run by (auto simp: reconcile_downtime_def rested_engine_def new_temporal_engine_def
      sticky_interval_def Let_def no_contracts_def downtime_plan_def rested_fields example_trust no_expectations)
  then show ?thesis
    using ok p by (auto simp: commit_downtime_reconciliation_def in_flight_ok_def Let_def apply_downtime_plan_to_state_def)
qed

lemma downtime_counted_once_witness:
  "\<exists>p x t' y. commit_downtime_reconciliation plain_env example_sample ''t1'' p reconciling_engine = (Inr x, t')
     \<and> ts_state_version (en_state t') = ts_state_version rested_state + 1
     \<and> commit_downtime_reconciliation plain_env example_sample ''t2'' p t' = (Inr y, t')"
proof -
  obtain p x t' where p: "en_in_flight_reconciliation reconciling_engine = Some p"
    "commit_downtime_reconciliation plain_env example_sample ''t1'' p reconciling_engine = (Inr x, t')"
    using example_reconciliation by blast
  have "en_state reconciling_engine = rested_state" using example_reconciled by blast
  with downtime_counted_once [OF reconciling_reachable rested_state_ok p engine_steps.stay,
      where sample' = example_sample and txn' = "''t2''"] p(2)
  show ?thesis by metis
qed

text \<open>C10: a retry of an abandoned reconciliation is the same reconciliation. In a reachable engine, once a plan is
  in flight every further call returns it; and if it is abandoned, the next call of the session computes, from the
  sample first taken and not the one now given, a plan with the same interval, hash, sample, age and deltas, and puts
  it in flight, whatever new identifiers are drawn.\<close>

theorem reconciliation_retry:
  assumes "engine_steps E (new_temporal_engine s) t" and "state_ok E s"
    and "en_in_flight_reconciliation t = None"
    and "reconcile_downtime E fresh rid sample sess j (Some reg) file snaps t = (Inr p, t1)"
    and "en_in_flight_reconciliation t1 = Some p"
  shows "reconcile_downtime E fresh' rid' sample' sess j' reg' file' snaps' t1 = (Inr p, t1)
    \<and> (\<exists>t2 q t3. abandon_downtime_reconciliation (dp_reconciliation_id p) t1 = (Inr (), t2)
        \<and> reconcile_downtime E fresh' rid' sample' sess j (Some reg) file' snaps t2 = (Inr q, t3)
        \<and> en_in_flight_reconciliation t3 = Some q
        \<and> dp_downtime_interval_id q = dp_downtime_interval_id p
        \<and> dp_canonical_plan_hash q = dp_canonical_plan_hash p
        \<and> dp_trusted_sample_hash q = dp_trusted_sample_hash p
        \<and> dp_age_advance q = dp_age_advance p
        \<and> dp_wait_recovery_deltas q = dp_wait_recovery_deltas p
        \<and> dp_expectation_recovery_deltas q = dp_expectation_recovery_deltas p)"
proof -
  have ok: "engine_ok E t" using steps_grown [OF assms(1) new_engine_ok [OF assms(2)]] by (simp add: grown_def)
  obtain i c u where st: "sticky_interval E sample sess t = (Inr (i, c), u)"
    and u: "en_state u = en_state t" "en_in_flight_reconciliation u = None"
    using sticky_ok [OF ok assms(3), of sample sess] by blast
  have "(\<exists>r. map_of (en_reconciliation_journal u) i = Some r \<and> dr_status r = COMMITTED) \<Longrightarrow> False"
    using assms(4,5) u(2) unfolding reconcile_eq [OF assms(3) st] by (auto simp: reconcile_from_def split: option.splits)
  then have fresh_plan: "downtime_plan E fresh rid sess j reg (case snaps of None \<Rightarrow> [] | Some d \<Rightarrow> d) i c u = Inr p"
    and t1: "t1 = u\<lparr>en_in_flight_reconciliation := Some p,
       en_reconciliation_journal := dput i \<lparr>dr_downtime_interval_id = i, dr_reconciliation_id = rid,
         dr_canonical_plan_hash = dp_canonical_plan_hash p, dr_status = PREPARED, dr_transaction_id = None,
         dr_sticky_sample_hash = Some (compute_sample_hash E c)\<rparr> (en_reconciliation_journal u)\<rparr>"
    using assms(4) unfolding reconcile_eq [OF assms(3) st]
    by (auto simp: reconcile_from_def split: sum.splits if_splits)
  let ?t2 = "t1\<lparr>en_in_flight_reconciliation := None\<rparr>"
  have none: "en_in_flight_reconciliation ?t2 = None" "en_state ?t2 = en_state u" by (simp_all add: t1)
  have st2: "sticky_interval E sample' sess ?t2 = (Inr (i, c), ?t2)"
    by (rule sticky_again [OF st ok assms(3)]) (simp_all add: t1)
  obtain q where q: "downtime_plan E fresh' rid' sess j reg (case snaps of None \<Rightarrow> [] | Some d \<Rightarrow> d) i c ?t2 = Inr q"
    "dp_canonical_plan_hash q = dp_canonical_plan_hash p" "dp_trusted_sample_hash q = dp_trusted_sample_hash p"
    "dp_age_advance q = dp_age_advance p" "dp_wait_recovery_deltas q = dp_wait_recovery_deltas p"
    "dp_expectation_recovery_deltas q = dp_expectation_recovery_deltas p"
    using downtime_plan_again [OF fresh_plan none(2)] by blast
  have entry: "\<exists>r. map_of (en_reconciliation_journal ?t2) i = Some r \<and> dr_status r = PREPARED
      \<and> dr_canonical_plan_hash r = dp_canonical_plan_hash p" by (simp add: t1)
  have "\<exists>t3. reconcile_downtime E fresh' rid' sample' sess j (Some reg) file' snaps ?t2 = (Inr q, t3)
      \<and> en_in_flight_reconciliation t3 = Some q"
    unfolding reconcile_eq [OF none(1) st2] using entry q by (auto simp: reconcile_from_def)
  moreover have "abandon_downtime_reconciliation (dp_reconciliation_id p) t1 = (Inr (), ?t2)"
    by (simp add: abandon_downtime_reconciliation_def assms(5))
  moreover have "reconcile_downtime E fresh' rid' sample' sess j' reg' file' snaps' t1 = (Inr p, t1)"
    by (simp add: reconcile_downtime_def assms(5))
  ultimately show ?thesis
    using q downtime_plan_facts(3) [OF fresh_plan] downtime_plan_facts(3) [OF q(1)] by metis
qed

lemma reconciliation_retry_witness:
  "\<exists>t2 q t3. abandon_downtime_reconciliation ''rc1'' reconciling_engine = (Inr (), t2)
     \<and> reconcile_downtime plain_env (\<lambda>_. ''g'') ''rc2'' (example_sample\<lparr>sm_optional_wall_time := None\<rparr>) ''s2'' None
        (Some no_contracts) VNone None t2 = (Inr q, t3)
     \<and> dp_age_advance q = 5"
proof -
  obtain p where p: "reconcile_downtime plain_env (\<lambda>_. ''f'') ''rc1'' example_sample ''s2'' None (Some no_contracts)
      VNone None rested_engine = (Inr p, reconciling_engine)" "en_in_flight_reconciliation reconciling_engine = Some p"
    "dp_age_advance p = 5"
    using example_reconciled by blast
  have start: "engine_steps plain_env (new_temporal_engine rested_state) rested_engine"
    unfolding rested_engine_def by (rule engine_steps.stay)
  have none: "en_in_flight_reconciliation rested_engine = None" by (simp add: rested_engine_def new_temporal_engine_def)
  have "dp_reconciliation_id p = ''rc1''"
    using p(1) by (auto simp: reconcile_downtime_def rested_engine_def new_temporal_engine_def
      sticky_interval_def Let_def no_contracts_def downtime_plan_def rested_fields example_trust no_expectations)
  with reconciliation_retry [OF start rested_state_ok none p(1,2), where fresh' = "\<lambda>_. ''g''" and rid' = "''rc2''"
      and sample' = "example_sample\<lparr>sm_optional_wall_time := None\<rparr>" and file' = VNone] p(3)
  show ?thesis by metis
qed

lemma seen_deltas_keep:
  "(\<And>d. d \<in> set ds \<Longrightarrow> identity_seen summary (Some (hd_evidence_identity d)) None) \<Longrightarrow>
     apply_hypothesis_deltas E ds summary h s = (r, s') \<Longrightarrow> s' = s"
  by (induction ds arbitrary: h) (auto split: option.splits sum.splits)

definition allowlist_file :: "pyv option" where
  "allowlist_file = Some (VDict [(''allowed_evidence_kinds'', VList [VStr ''feed''])])"

definition observing_engine :: temporal_engine where
  "observing_engine = snd (prepare_finalized_evidence allowlist_file ''p1'' ''tx'' ''feed'' ''ctx'' ''o1'' ''e1'' 3 IN_TICK
     None None None None None CONTEXT_SCHEMA_VERSION example_engine)"

lemma first_observation:
  "\<exists>h. observe None key ''feed'' ''ctx'' ''o1'' ''e1'' 3 ORGANISM_OBSERVABLE schema = Inr h
     \<and> rh_occurrence_by_id h = [(''o1'', 3, ''O'')]"
proof -
  have "case observe None key ''feed'' ''ctx'' ''o1'' ''e1'' 3 ORGANISM_OBSERVABLE schema of
     Inr h \<Rightarrow> rh_occurrence_by_id h = [(''o1'', 3, ''O'')] | Inl _ \<Rightarrow> False"
    by code_simp
  then show ?thesis by (auto split: sum.splits)
qed

text \<open>C11: evidence counts once. Once an observation plan of a reachable engine has been committed, no later plan made of
  evidence it contained changes the state, however the engine went on in between: its commit leaves the temporal state
  as it was.\<close>

theorem evidence_counts_once:
  assumes "engine_steps E (new_temporal_engine s) t" and "state_ok E s"
    and "commit_observation_plan E plan t = (Inr h, t')" and "engine_steps E t' u"
    and "hd_evidence_identity ` set (op_hypothesis_deltas plan2) \<subseteq> hd_evidence_identity ` set (op_hypothesis_deltas plan)"
    and "commit_observation_plan E plan2 u = (r, u')"
  shows "en_state u' = en_state u"
proof -
  have ok: "engine_ok E t" using steps_grown [OF assms(1) new_engine_ok [OF assms(2)]] by (simp add: grown_def)
  note first = commit_observation_effect [OF ok assms(3)]
  have later: "later (en_state t') (en_state u)"
    using steps_grown [OF assms(4)] first(1) by (simp add: grown_def)
  have seen: "identity_seen (ts_dedup_summary (en_state u)) (Some (hd_evidence_identity d)) None"
    if "d \<in> set (op_hypothesis_deltas plan2)" for d
  proof -
    have "hd_evidence_identity d \<in> hd_evidence_identity ` set (op_hypothesis_deltas plan)" using that assms(5) by blast
    then show ?thesis using first(3) later by (auto simp: later_def)
  qed
  show ?thesis
    using assms(6)
  proof (cases rule: commit_observation_cases)
    case same
    then show ?thesis by simp
  next
    case (ran q s')
    show ?thesis using seen_deltas_keep [OF _ ran(5)] seen ran(6) by simp
  qed
qed

lemma example_observation:
  "\<exists>p h t'. en_in_flight_observation observing_engine = Some p
     \<and> commit_observation_plan plain_env p observing_engine = (Inr h, t')
     \<and> hd_evidence_identity ` set (op_hypothesis_deltas p) = {''e1''}
     \<and> en_committed_observation_plan_ids observing_engine = []"
proof -
  have idx: "ts_recurrence_index example_state = []" "ts_dedup_summary example_state = empty_dedup_summary"
    by (simp_all add: example_state_def sample_temporal_state_def initialize_temporal_epoch_def Let_def)
  let ?d = "\<lparr>hd_event_kind = ''feed'', hd_internal_context_key = ''ctx'', hd_occurrence_id = ''o1'',
      hd_evidence_identity = ''e1'', hd_tick = 3, hd_lane = ''O'', hd_context_schema_version = CONTEXT_SCHEMA_VERSION\<rparr>"
  obtain h where h: "observe None (compute_recurrence_key plain_env ''feed'' ''ctx'' CONTEXT_SCHEMA_VERSION None)
      ''feed'' ''ctx'' ''o1'' ''e1'' 3 ORGANISM_OBSERVABLE CONTEXT_SCHEMA_VERSION = Inr h"
    using first_observation by blast
  have up: "upsert_recurrence_index [] h = Inr [(rh_recurrence_id h, hypothesis_to_dict h)]"
    by (simp add: upsert_eq index_wf_def MAX_RECURRENCE_HYPOTHESES_def sorted_items_def)
  have "\<exists>s' summary'. apply_new_delta plain_env example_state empty_dedup_summary ?d = Inr (h, summary', s')"
    by (simp add: apply_new_delta_def idx h up evidence_lane_of_def Let_def identity_seen_def empty_dedup_summary_def
        register_identities_def register_identity_def MAX_RECENT_EVIDENCE_IDENTITIES_def
        MAX_RETAINED_OCCURRENCE_IDENTITIES_def)
  then have run: "\<exists>s'. apply_hypothesis_deltas plain_env [?d] empty_dedup_summary None example_state = (Inr h, s')"
    by (auto simp: identity_seen_def empty_dedup_summary_def)
  have obs: "observing_engine = example_engine\<lparr>en_in_flight_observation :=
      en_in_flight_observation observing_engine\<rparr>"
    and plan: "\<exists>p. en_in_flight_observation observing_engine = Some p \<and> op_hypothesis_deltas p = [?d]
      \<and> op_commit_mode p = IN_TICK \<and> op_expected_temporal_state_version p = ts_state_version example_state
      \<and> op_expected_temporal_state_hash p = ts_state_hash example_state"
    by (simp_all add: observing_engine_def prepare_finalized_evidence_def prepare_observation_plan_def Let_def
        example_engine_def new_temporal_engine_def allowlist_file_def assert_observable_evidence_allowed_def
        load_observable_evidence_allowlist_def load_json_def given_def)
  obtain p where p: "en_in_flight_observation observing_engine = Some p" "op_hypothesis_deltas p = [?d]"
    "op_commit_mode p = IN_TICK" "op_expected_temporal_state_version p = ts_state_version example_state"
    "op_expected_temporal_state_hash p = ts_state_hash example_state"
    using plan by blast
  have st: "en_state observing_engine = example_state" "en_committed_observation_plan_ids observing_engine = []"
    by (subst obs, simp add: example_engine_def new_temporal_engine_def)+
  have "\<exists>t'. commit_observation_plan plain_env p observing_engine = (Inr h, t')"
    using run by (auto simp: commit_observation_plan_def p st idx)
  then show ?thesis using p st by auto
qed

lemma observing_kept:
  assumes "commit_observation_plan plain_env p observing_engine = (Inr h, t)"
  shows "en_in_flight t = None" "en_committed_advance_ids t = [GENESIS_ADVANCE_ID]"
    "ts_last_advance_id (en_state t) = GENESIS_ADVANCE_ID"
proof -
  have start: "en_in_flight observing_engine = None" "en_committed_advance_ids observing_engine = [GENESIS_ADVANCE_ID]"
    "en_state observing_engine = example_state" "ts_last_advance_id example_state = GENESIS_ADVANCE_ID"
    by (simp_all add: observing_engine_def prepare_finalized_evidence_def prepare_observation_plan_def Let_def
        example_engine_def new_temporal_engine_def allowlist_file_def assert_observable_evidence_allowed_def
        load_observable_evidence_allowlist_def load_json_def given_def example_state_def sample_temporal_state_def
        initialize_temporal_epoch_def)
  have "same_clock example_state (en_state t) \<and> en_in_flight t = None \<and> en_committed_advance_ids t = [GENESIS_ADVANCE_ID]"
    using assms
  proof (cases rule: commit_observation_cases)
    case (ran q s')
    then show ?thesis using deltas_effect [OF ran(5)] example_state_ok start by simp
  qed simp
  then show "en_in_flight t = None" "en_committed_advance_ids t = [GENESIS_ADVANCE_ID]"
    "ts_last_advance_id (en_state t) = GENESIS_ADVANCE_ID"
    using start by (simp_all add: same_clock_def later_def)
qed

lemma observing_reachable: "engine_steps plain_env (new_temporal_engine example_state) observing_engine"
  unfolding observing_engine_def example_engine_def
  by (rule engine_steps.more [OF engine_steps.stay engine_step.evidence_prepared])

lemma evidence_counts_once_witness:
  "\<exists>p h t' u r u'. commit_observation_plan plain_env p observing_engine = (Inr h, t')
     \<and> u = snd (prepare_finalized_evidence allowlist_file ''p2'' ''tx'' ''feed'' ''ctx'' ''o2'' ''e1'' 9 IN_TICK
         None None None None None CONTEXT_SCHEMA_VERSION t')
     \<and> commit_observation_plan plain_env p u = (r, u') \<and> en_state u' = en_state u"
proof -
  obtain p h t' where p: "commit_observation_plan plain_env p observing_engine = (Inr h, t')"
    using example_observation by (elim exE conjE)
  let ?u = "snd (prepare_finalized_evidence allowlist_file ''p2'' ''tx'' ''feed'' ''ctx'' ''o2'' ''e1'' 9 IN_TICK
         None None None None None CONTEXT_SCHEMA_VERSION t')"
  have u: "engine_steps plain_env t' ?u"
    by (rule engine_steps.more, rule engine_steps.stay, rule engine_step.evidence_prepared)
  obtain r u' where r: "commit_observation_plan plain_env p ?u = (r, u')" by (rule prod.exhaust)
  from evidence_counts_once [OF observing_reachable example_state_ok p u order.refl r] p r
  show ?thesis by (intro exI conjI) (rule p, rule HOL.refl, rule r, assumption)
qed

text \<open>The log of advances does not carry observations. Between two advances a committed observation plan changes the
  recurrence index, the dedup summary and the stored hash but not the version, and leaves no record. Replaying the
  record of the next advance from the state before the observation is therefore refused for its hash, or else (only if
  the two states have one hash) ends with the recurrence index and the dedup summary from before the observation.\<close>

theorem observation_not_replayed:
  assumes "engine_steps E (new_temporal_engine s) t" and "state_ok E s"
    and "commit_observation_plan E oplan t = (Inr h, t1)"
    and "prepare_advance E fresh sample sq t1 = (Inr plan, t2)"
    and "commit_advance E sample sess plan t2 = (Inr (s', r), t3)"
  shows "ts_state_version (en_state t1) = ts_state_version (en_state t)
    \<and> (case apply_advance_record (en_state t) r of
         Inl e \<Rightarrow> e = TemporalReplayError ''prior_state_hash_mismatch''
       | Inr v \<Rightarrow> ts_state_hash (en_state t1) = ts_state_hash (en_state t)
           \<and> ts_recurrence_index v = ts_recurrence_index (en_state t)
           \<and> ts_dedup_summary v = ts_dedup_summary (en_state t))"
proof -
  have ok: "engine_ok E t" using steps_grown [OF assms(1) new_engine_ok [OF assms(2)]] by (simp add: grown_def)
  note obs = commit_observation_effect(1,2) [OF ok assms(3)]
  have age: "ts_organism_age_ticks (en_state t1) = ts_organism_age_ticks (en_state t)"
    using obs by (simp add: grown_def later_def)
  have "en_state t2 = en_state t1" using assms(4) by (auto simp: prepare_advance_def Let_def split: if_splits)
  then have "r = build_advance_record (en_state t1) s' plan"
    using assms(5) by (auto simp: commit_advance_def split: option.splits if_splits sum.splits)
  then have r: "ar_prior_state_version r = ts_state_version (en_state t)"
    "ar_prior_state_hash r = ts_state_hash (en_state t1)" "ar_prior_age_ticks r = ts_organism_age_ticks (en_state t)"
    using obs(2) age by (simp_all add: build_advance_record_def)
  show ?thesis
  proof (cases "ts_state_hash (en_state t1) = ts_state_hash (en_state t)")
    case True
    then have "apply_advance_record (en_state t) r = Inr (state_from_record_tail (en_state t) r)"
      using r by (simp add: apply_advance_record_def Let_def state_from_record_tail_def)
    then show ?thesis using obs(2) True by (simp add: state_from_record_tail_def)
  next
    case False
    then show ?thesis using obs(2) r by (simp add: apply_advance_record_def)
  qed
qed

lemma observation_not_replayed_witness:
  "\<exists>p h t1 plan s' r t3. commit_observation_plan plain_env p observing_engine = (Inr h, t1)
     \<and> commit_advance plain_env example_sample ''s2'' plan (snd (prepare_advance plain_env ''a2'' example_sample 1 t1))
         = (Inr (s', r), t3)
     \<and> ts_state_version (en_state t1) = ts_state_version (en_state observing_engine)"
proof -
  obtain p h t1 where p: "commit_observation_plan plain_env p observing_engine = (Inr h, t1)"
    using example_observation by (elim exE conjE)
  have keep: "en_in_flight t1 = None" "en_committed_advance_ids t1 = [GENESIS_ADVANCE_ID]"
    "ts_last_advance_id (en_state t1) = GENESIS_ADVANCE_ID"
    using observing_kept [OF p] by simp_all
  then obtain plan t2 where plan: "prepare_advance plain_env ''a2'' example_sample 1 t1 = (Inr plan, t2)"
    by (simp add: prepare_advance_def Let_def)
  obtain s' r t3 where c: "commit_advance plain_env example_sample ''s2'' plan t2 = (Inr (s', r), t3)"
    using prepared_commit [OF plan, where sample' = example_sample and sess = "''s2''"] keep
    by (auto simp: GENESIS_ADVANCE_ID_def)
  have "snd (prepare_advance plain_env ''a2'' example_sample 1 t1) = t2" using plan by simp
  with observation_not_replayed [OF observing_reachable example_state_ok p plan c] p c
  show ?thesis by (intro exI conjI) (rule p, simp_all)
qed

end
