(* ===== verification/HabitatState.thy ===== *)
theory HabitatState
  imports Contracts
begin

text \<open>
  \<open>habitat/state.py\<close> and \<open>habitat/config.py\<close>: zones, objects with a location and a state, the habitat as a whole, the
  hashes that commit to each, and the ablation switches. \<open>canonical_serialize\<close> of a dataclass is the dictionary of its
  fields (one \<open>_to_pyv\<close> function per class); a \<open>str\<close> enumeration member is the string of its value.
\<close>

section \<open>Enumerations\<close>

definition HABITAT_SCHEMA_VERSION :: string where
  "HABITAT_SCHEMA_VERSION = ''d009.habitat-state.v1''"

definition INITIAL_OBJECT_VERSION :: int where
  "INITIAL_OBJECT_VERSION = 1"

definition INITIAL_DEFINITION_VERSION :: int where
  "INITIAL_DEFINITION_VERSION = 1"

datatype zone_kind = GENERAL | REST | RECOVERY | MAINTENANCE | EXPLORATION | SOCIAL

fun zone_kind_value :: "zone_kind \<Rightarrow> string" where
  "zone_kind_value GENERAL = ''GENERAL''"
| "zone_kind_value REST = ''REST''"
| "zone_kind_value RECOVERY = ''RECOVERY''"
| "zone_kind_value MAINTENANCE = ''MAINTENANCE''"
| "zone_kind_value EXPLORATION = ''EXPLORATION''"
| "zone_kind_value SOCIAL = ''SOCIAL''"

datatype object_kind =
    SCENERY | OBSTACLE | HAZARD | RESOURCE | INSPECTABLE | REST_STATION | CHARGE_STATION
  | PORTABLE_OBJECT | ACTIVATABLE_OBJECT | SOCIAL_ENTITY

fun object_kind_value :: "object_kind \<Rightarrow> string" where
  "object_kind_value SCENERY = ''SCENERY''"
| "object_kind_value OBSTACLE = ''OBSTACLE''"
| "object_kind_value HAZARD = ''HAZARD''"
| "object_kind_value RESOURCE = ''RESOURCE''"
| "object_kind_value INSPECTABLE = ''INSPECTABLE''"
| "object_kind_value REST_STATION = ''REST_STATION''"
| "object_kind_value CHARGE_STATION = ''CHARGE_STATION''"
| "object_kind_value PORTABLE_OBJECT = ''PORTABLE_OBJECT''"
| "object_kind_value ACTIVATABLE_OBJECT = ''ACTIVATABLE_OBJECT''"
| "object_kind_value SOCIAL_ENTITY = ''SOCIAL_ENTITY''"

section \<open>Data\<close>

record zone_bounds =
  zb_x_min :: flt
  zb_y_min :: flt
  zb_x_max :: flt
  zb_y_max :: flt

record body_constraints =
  bc_required_capabilities :: "string list"
  bc_maximum_body_radius :: flt
  bc_maximum_body_mass_class :: string
  bc_locomotion_requirements :: "string list"

record environmental_properties =
  ev_schema_version :: string
  ev_values :: "(string \<times> flt) list"

record zone =
  zn_zone_id :: string
  zn_zone_kind :: zone_kind
  zn_bounds :: zone_bounds
  zn_occupancy_limit :: int
  zn_body_constraints :: body_constraints
  zn_environmental_properties :: environmental_properties
  zn_rest_support :: bool
  zn_maintenance_support :: bool

record zone_connection =
  zc_from_zone_id :: string
  zc_to_zone_id :: string

record environmental_transition =
  et_transition_id :: string
  et_start_tick :: int
  et_completion_tick :: int
  et_definition_hash :: string
  et_status :: string

datatype object_location =
    FreeLocation flt flt string
  | HeldByLocation string int int

fun is_free :: "object_location \<Rightarrow> bool" where
  "is_free (FreeLocation _ _ _) = True"
| "is_free (HeldByLocation _ _ _) = False"

record social_entity_spatial_state =
  se_entity_ref :: string
  se_history_code :: string
  se_motion_signature :: "flt list"
  se_appearance_signature :: "flt list"
  se_response_timing_pattern :: "flt list"
  se_interaction_style_cues :: "flt list"
  se_response_mode :: string
  se_contingent_probability :: flt
  se_flip_at :: "flt option"
  se_absent_windows :: "(flt \<times> flt) list"
  se_active :: bool

datatype object_state =
    IdleState
  | ResourceState flt
  | StationState string bool
  | ActivatableState bool
  | SocialEntitySpatialState social_entity_spatial_state

record habitat_object =
  ho_object_id :: string
  ho_object_kind :: object_kind
  ho_definition_version :: int
  ho_definition_hash :: string
  ho_object_version :: int
  ho_object_state_hash :: string
  ho_location :: object_location
  ho_state :: object_state
  ho_mass_class :: string
  ho_portable :: bool
  ho_passable :: bool
  ho_occluded :: bool
  ho_collision_radius :: flt
  ho_affordance_ids :: "string list"
  ho_visibility :: string
  ho_condition :: flt
  ho_cooldowns :: "(string \<times> int) list"

record habitat_state =
  hs_habitat_id :: string
  hs_schema_version :: string
  hs_habitat_tick :: int
  hs_state_version :: int
  hs_definition_hash :: string
  hs_state_hash :: string
  hs_zones :: "zone dict"
  hs_objects :: "habitat_object dict"
  hs_zone_connections :: "zone_connection list"
  hs_active_environmental_transitions :: "environmental_transition list"
  hs_bounded_environmental_history_refs :: "string list"

section \<open>Canonical form\<close>

definition bounds_to_pyv :: "zone_bounds \<Rightarrow> pyv" where
  "bounds_to_pyv b = VDict
     [(''x_min'', VFlt (zb_x_min b)), (''y_min'', VFlt (zb_y_min b)),
      (''x_max'', VFlt (zb_x_max b)), (''y_max'', VFlt (zb_y_max b))]"

definition constraints_to_pyv :: "body_constraints \<Rightarrow> pyv" where
  "constraints_to_pyv c = VDict
     [(''required_capabilities'', v_strs (bc_required_capabilities c)),
      (''maximum_body_radius'', VFlt (bc_maximum_body_radius c)),
      (''maximum_body_mass_class'', VStr (bc_maximum_body_mass_class c)),
      (''locomotion_requirements'', v_strs (bc_locomotion_requirements c))]"

definition environment_to_pyv :: "environmental_properties \<Rightarrow> pyv" where
  "environment_to_pyv v = VDict
     [(''schema_version'', VStr (ev_schema_version v)),
      (''values'', VList (map (\<lambda>(k, x). VList [VStr k, VFlt x]) (ev_values v)))]"

definition zone_to_pyv :: "zone \<Rightarrow> pyv" where
  "zone_to_pyv z = VDict
     [(''zone_id'', VStr (zn_zone_id z)),
      (''zone_kind'', VStr (zone_kind_value (zn_zone_kind z))),
      (''bounds'', bounds_to_pyv (zn_bounds z)),
      (''occupancy_limit'', VInt (zn_occupancy_limit z)),
      (''body_constraints'', constraints_to_pyv (zn_body_constraints z)),
      (''environmental_properties'', environment_to_pyv (zn_environmental_properties z)),
      (''rest_support'', VBool (zn_rest_support z)),
      (''maintenance_support'', VBool (zn_maintenance_support z))]"

definition connection_to_pyv :: "zone_connection \<Rightarrow> pyv" where
  "connection_to_pyv c = VDict
     [(''from_zone_id'', VStr (zc_from_zone_id c)), (''to_zone_id'', VStr (zc_to_zone_id c))]"

definition transition_to_pyv :: "environmental_transition \<Rightarrow> pyv" where
  "transition_to_pyv t = VDict
     [(''transition_id'', VStr (et_transition_id t)), (''start_tick'', VInt (et_start_tick t)),
      (''completion_tick'', VInt (et_completion_tick t)), (''definition_hash'', VStr (et_definition_hash t)),
      (''status'', VStr (et_status t))]"

fun location_to_pyv :: "object_location \<Rightarrow> pyv" where
  "location_to_pyv (FreeLocation x y zone_id) = VDict
     [(''x'', VFlt x), (''y'', VFlt y), (''zone_id'', VStr zone_id)]"
| "location_to_pyv (HeldByLocation body generation slot) = VDict
     [(''body_instance_id'', VStr body), (''attachment_generation'', VInt generation), (''hold_slot'', VInt slot)]"

abbreviation v_flts :: "flt list \<Rightarrow> pyv" where
  "v_flts xs \<equiv> VList (map VFlt xs)"

fun object_state_to_pyv :: "object_state \<Rightarrow> pyv" where
  "object_state_to_pyv IdleState = VDict [(''kind'', VStr ''IDLE'')]"
| "object_state_to_pyv (ResourceState y) = VDict [(''remaining_yield'', VFlt y), (''kind'', VStr ''RESOURCE'')]"
| "object_state_to_pyv (StationState k a) = VDict
     [(''station_kind'', VStr k), (''available'', VBool a), (''kind'', VStr ''STATION'')]"
| "object_state_to_pyv (ActivatableState a) = VDict [(''active'', VBool a), (''kind'', VStr ''ACTIVATABLE'')]"
| "object_state_to_pyv (SocialEntitySpatialState s) = VDict
     [(''entity_ref'', VStr (se_entity_ref s)), (''history_code'', VStr (se_history_code s)),
      (''motion_signature'', v_flts (se_motion_signature s)),
      (''appearance_signature'', v_flts (se_appearance_signature s)),
      (''response_timing_pattern'', v_flts (se_response_timing_pattern s)),
      (''interaction_style_cues'', v_flts (se_interaction_style_cues s)),
      (''response_mode'', VStr (se_response_mode s)),
      (''contingent_probability'', VFlt (se_contingent_probability s)),
      (''flip_at'', v_opt VFlt (se_flip_at s)),
      (''absent_windows'', VList (map (\<lambda>(a, b). VList [VFlt a, VFlt b]) (se_absent_windows s))),
      (''active'', VBool (se_active s)), (''kind'', VStr ''SOCIAL_ENTITY'')]"

definition object_to_pyv :: "habitat_object \<Rightarrow> pyv" where
  "object_to_pyv ob = VDict
     [(''object_id'', VStr (ho_object_id ob)),
      (''object_kind'', VStr (object_kind_value (ho_object_kind ob))),
      (''definition_version'', VInt (ho_definition_version ob)),
      (''definition_hash'', VStr (ho_definition_hash ob)),
      (''object_version'', VInt (ho_object_version ob)),
      (''object_state_hash'', VStr (ho_object_state_hash ob)),
      (''location'', location_to_pyv (ho_location ob)),
      (''state'', object_state_to_pyv (ho_state ob)),
      (''mass_class'', VStr (ho_mass_class ob)),
      (''portable'', VBool (ho_portable ob)),
      (''passable'', VBool (ho_passable ob)),
      (''occluded'', VBool (ho_occluded ob)),
      (''collision_radius'', VFlt (ho_collision_radius ob)),
      (''affordance_ids'', v_strs (ho_affordance_ids ob)),
      (''visibility'', VStr (ho_visibility ob)),
      (''condition'', VFlt (ho_condition ob)),
      (''cooldowns'', VList (map (\<lambda>(k, n). VList [VStr k, VInt n]) (ho_cooldowns ob)))]"

text \<open>A dictionary comes out with its keys sorted.\<close>

definition dict_to_pyv :: "('v \<Rightarrow> pyv) \<Rightarrow> 'v dict \<Rightarrow> pyv" where
  "dict_to_pyv f d = VDict (map (\<lambda>(k, v). (k, f v)) (sorted_items d))"

definition habitat_to_pyv :: "habitat_state \<Rightarrow> pyv" where
  "habitat_to_pyv s = VDict
     [(''habitat_id'', VStr (hs_habitat_id s)),
      (''schema_version'', VStr (hs_schema_version s)),
      (''habitat_tick'', VInt (hs_habitat_tick s)),
      (''state_version'', VInt (hs_state_version s)),
      (''definition_hash'', VStr (hs_definition_hash s)),
      (''state_hash'', VStr (hs_state_hash s)),
      (''zones'', dict_to_pyv zone_to_pyv (hs_zones s)),
      (''objects'', dict_to_pyv object_to_pyv (hs_objects s)),
      (''zone_connections'', VList (map connection_to_pyv (hs_zone_connections s))),
      (''active_environmental_transitions'',
         VList (map transition_to_pyv (hs_active_environmental_transitions s))),
      (''bounded_environmental_history_refs'', v_strs (hs_bounded_environmental_history_refs s))]"

text \<open>\<open>payload.pop(k, None)\<close> on a dictionary payload.\<close>

fun without_key :: "string \<Rightarrow> pyv \<Rightarrow> pyv" where
  "without_key k (VDict d) = VDict (dpop k d)"
| "without_key k v = v"

section \<open>Hashes\<close>

definition object_definition_payload :: "habitat_object \<Rightarrow> pyv" where
  "object_definition_payload ob = VDict
     [(''object_id'', VStr (ho_object_id ob)),
      (''object_kind'', VStr (object_kind_value (ho_object_kind ob))),
      (''definition_version'', VInt (ho_definition_version ob)),
      (''mass_class'', VStr (ho_mass_class ob)),
      (''portable'', VBool (ho_portable ob)),
      (''passable'', VBool (ho_passable ob)),
      (''occluded'', VBool (ho_occluded ob)),
      (''collision_radius'', VFlt (ho_collision_radius ob)),
      (''affordance_ids'', v_strs (ho_affordance_ids ob))]"

definition compute_object_definition_hash :: "hash_env \<Rightarrow> habitat_object \<Rightarrow> string" where
  "compute_object_definition_hash E ob = hash_canonical E (object_definition_payload ob)"

definition object_body :: "habitat_object \<Rightarrow> pyv" where
  "object_body ob = without_key ''object_state_hash'' (object_to_pyv ob)"

definition compute_object_state_hash :: "hash_env \<Rightarrow> habitat_object \<Rightarrow> string" where
  "compute_object_state_hash E ob = hash_canonical E (object_body ob)"

definition compute_habitat_definition_hash :: "hash_env \<Rightarrow> habitat_state \<Rightarrow> string" where
  "compute_habitat_definition_hash E s = hash_canonical E (VDict
     [(''habitat_id'', VStr (hs_habitat_id s)),
      (''schema_version'', VStr (hs_schema_version s)),
      (''zones'', dict_to_pyv zone_to_pyv (hs_zones s)),
      (''zone_connections'', VList (map connection_to_pyv (hs_zone_connections s))),
      (''objects'', dict_to_pyv object_definition_payload (hs_objects s))])"

definition habitat_body :: "habitat_state \<Rightarrow> pyv" where
  "habitat_body s = without_key ''state_hash'' (habitat_to_pyv s)"

definition compute_habitat_hash :: "hash_env \<Rightarrow> habitat_state \<Rightarrow> string" where
  "compute_habitat_hash E s = hash_canonical E (habitat_body s)"

definition with_object_state_hash :: "hash_env \<Rightarrow> int option \<Rightarrow> habitat_object \<Rightarrow> habitat_object" where
  "with_object_state_hash E object_version ob =
     (let version = (case object_version of None \<Rightarrow> ho_object_version ob | Some v \<Rightarrow> v);
          base = ob\<lparr>ho_object_version := version, ho_object_state_hash := []\<rparr>
      in base\<lparr>ho_object_state_hash := compute_object_state_hash E base\<rparr>)"

definition with_habitat_hash :: "hash_env \<Rightarrow> habitat_state \<Rightarrow> habitat_state" where
  "with_habitat_hash E s =
     (let base = s\<lparr>hs_state_hash := []\<rparr> in base\<lparr>hs_state_hash := compute_habitat_hash E base\<rparr>)"

section \<open>Object versioning\<close>

definition apply_committed_object_mutation ::
  "hash_env \<Rightarrow> (habitat_object \<Rightarrow> habitat_object res) \<Rightarrow> habitat_object \<Rightarrow> habitat_object res" where
  "apply_committed_object_mutation E mutate_fn obj =
     andThen (mutate_fn obj) (\<lambda>updated. Inr (with_object_state_hash E (Some (ho_object_version obj + 1)) updated))"

fun is_mutation_rejected :: "exn \<Rightarrow> bool" where
  "is_mutation_rejected (MutationRejected _) = True"
| "is_mutation_rejected _ = False"

definition apply_rejected_object_mutation ::
  "(habitat_object \<Rightarrow> habitat_object res) \<Rightarrow> habitat_object \<Rightarrow> habitat_object res" where
  "apply_rejected_object_mutation mutate_fn obj =
     (case mutate_fn obj of
        Inl e \<Rightarrow> if is_mutation_rejected e then Inr obj else Inl e
      | Inr _ \<Rightarrow> Inl (MutationRejected ''rejected_mutation_requires_MutationRejected''))"

definition migrate_object_definition ::
  "hash_env \<Rightarrow> int \<Rightarrow> string \<Rightarrow> (habitat_object \<Rightarrow> habitat_object res) \<Rightarrow> habitat_object \<Rightarrow> habitat_object res" where
  "migrate_object_definition E new_definition_version new_definition_hash migrate_fn obj =
     andThen (migrate_fn obj) (\<lambda>migrated.
       Inr (with_object_state_hash E (Some (ho_object_version obj + 1))
         (migrated\<lparr>ho_definition_version := new_definition_version, ho_definition_hash := new_definition_hash\<rparr>)))"

section \<open>Construction\<close>

definition default_zone :: "string \<Rightarrow> zone_kind \<Rightarrow> bool \<Rightarrow> zone" where
  "default_zone zone_id kind rest_support =
     \<lparr>zn_zone_id = zone_id, zn_zone_kind = kind,
      zn_bounds = \<lparr>zb_x_min = Fin 0, zb_y_min = Fin 0, zb_x_max = Fin 20, zb_y_max = Fin 20\<rparr>,
      zn_occupancy_limit = 16,
      zn_body_constraints = \<lparr>bc_required_capabilities = [''MOVE''], bc_maximum_body_radius = Fin 2,
        bc_maximum_body_mass_class = ''MEDIUM'', bc_locomotion_requirements = [''GROUND'']\<rparr>,
      zn_environmental_properties = \<lparr>ev_schema_version = ''d009.zone-env.v1'',
        ev_values = [(''light_level'', flit 75 100)]\<rparr>,
      zn_rest_support = rest_support, zn_maintenance_support = False\<rparr>"

definition make_object ::
  "hash_env \<Rightarrow> string \<Rightarrow> object_kind \<Rightarrow> object_location \<Rightarrow> object_state \<Rightarrow> flt \<Rightarrow> string list \<Rightarrow> habitat_object" where
  "make_object E object_id kind location state collision_radius affordance_ids =
     (let base = \<lparr>ho_object_id = object_id, ho_object_kind = kind,
            ho_definition_version = INITIAL_DEFINITION_VERSION, ho_definition_hash = [],
            ho_object_version = INITIAL_OBJECT_VERSION, ho_object_state_hash = [],
            ho_location = location, ho_state = state, ho_mass_class = ''LIGHT'',
            ho_portable = (kind = PORTABLE_OBJECT), ho_passable = (kind \<notin> {OBSTACLE, HAZARD}),
            ho_occluded = False, ho_collision_radius = collision_radius, ho_affordance_ids = affordance_ids,
            ho_visibility = ''VISIBLE'', ho_condition = Fin 1, ho_cooldowns = []\<rparr>
      in with_object_state_hash E None (base\<lparr>ho_definition_hash := compute_object_definition_hash E base\<rparr>))"

definition make_social_entity_object ::
  "hash_env \<Rightarrow> string \<Rightarrow> object_location \<Rightarrow> social_entity_spatial_state \<Rightarrow> bool \<Rightarrow> habitat_object" where
  "make_social_entity_object E object_id location state occluded =
     (let base = \<lparr>ho_object_id = object_id, ho_object_kind = SOCIAL_ENTITY,
            ho_definition_version = INITIAL_DEFINITION_VERSION, ho_definition_hash = [],
            ho_object_version = INITIAL_OBJECT_VERSION, ho_object_state_hash = [],
            ho_location = location, ho_state = SocialEntitySpatialState state, ho_mass_class = ''LIGHT'',
            ho_portable = False, ho_passable = True, ho_occluded = occluded,
            ho_collision_radius = flit 5 10, ho_affordance_ids = [],
            ho_visibility = ''VISIBLE'', ho_condition = Fin 1, ho_cooldowns = []\<rparr>
      in with_object_state_hash E None (base\<lparr>ho_definition_hash := compute_object_definition_hash E base\<rparr>))"

definition sample_habitat_state :: "hash_env \<Rightarrow> habitat_state" where
  "sample_habitat_state E =
     (let base = \<lparr>hs_habitat_id = ''habitat:sample'', hs_schema_version = HABITAT_SCHEMA_VERSION,
            hs_habitat_tick = 0, hs_state_version = 0, hs_definition_hash = [], hs_state_hash = [],
            hs_zones = [(''zone:general'', default_zone ''zone:general'' GENERAL False),
              (''zone:rest'', default_zone ''zone:rest'' REST True)],
            hs_objects =
              [(''resource:0'', make_object E ''resource:0'' RESOURCE (FreeLocation (Fin 4) (Fin 3) ''zone:general'')
                 (ResourceState (Fin 1)) (flit 12 10) [''USE'']),
               (''rest:0'', make_object E ''rest:0'' REST_STATION (FreeLocation (Fin 12) (Fin 8) ''zone:rest'')
                 (StationState ''REST'' True) (flit 15 10) [''REST''])],
            hs_zone_connections = [\<lparr>zc_from_zone_id = ''zone:general'', zc_to_zone_id = ''zone:rest''\<rparr>],
            hs_active_environmental_transitions = [], hs_bounded_environmental_history_refs = []\<rparr>
      in with_habitat_hash E (base\<lparr>hs_definition_hash := compute_habitat_definition_hash E base\<rparr>))"

section \<open>Configuration\<close>

record habitat_config =
  hc_manipulation_candidates_enabled :: bool
  hc_affordance_execution_enabled :: bool
  hc_environmental_routines_enabled :: bool
  hc_habitat_dynamics_enabled :: bool
  hc_static_habitat :: bool
  hc_reset_on_restart :: bool
  hc_p0_compatibility_mode :: bool

definition default_habitat_config :: habitat_config where
  "default_habitat_config = \<lparr>hc_manipulation_candidates_enabled = True, hc_affordance_execution_enabled = True,
     hc_environmental_routines_enabled = True, hc_habitat_dynamics_enabled = True, hc_static_habitat = False,
     hc_reset_on_restart = False, hc_p0_compatibility_mode = False\<rparr>"

definition condition_to_habitat_config :: "string \<Rightarrow> habitat_config res" where
  "condition_to_habitat_config condition =
     (if condition \<in> {''C2'', ''C3''}
      then Inl (HabitatConfigError (condition @ ''_is_experiments_only_diagnostic_not_production_schema''))
      else
        let cfg = default_habitat_config
        in if condition = ''C0'' then Inr cfg
           else if condition = ''C1'' then Inr (cfg\<lparr>hc_static_habitat := True\<rparr>)
           else if condition = ''C6'' then Inr (cfg\<lparr>hc_environmental_routines_enabled := False\<rparr>)
           else if condition = ''C8'' then Inr (cfg\<lparr>hc_reset_on_restart := True\<rparr>)
           else if condition = ''C13''
           then Inr (cfg\<lparr>hc_p0_compatibility_mode := True, hc_manipulation_candidates_enabled := False,
             hc_affordance_execution_enabled := False, hc_environmental_routines_enabled := False,
             hc_habitat_dynamics_enabled := False\<rparr>)
           else if condition \<in> {''C4'', ''C5'', ''C7'', ''C9'', ''C10'', ''C11'', ''C12''} then Inr cfg
           else if take 1 condition = ''C''
           then Inl (HabitatConfigError (''unknown_habitat_condition:'' @ condition))
           else Inr cfg)"

definition p0_compatibility_config :: "habitat_config res" where
  "p0_compatibility_config = condition_to_habitat_config ''C13''"

section \<open>Lemmas\<close>

lemma object_body_hash [simp]: "object_body (ob\<lparr>ho_object_state_hash := h\<rparr>) = object_body ob"
  by (simp add: object_body_def object_to_pyv_def)

lemma habitat_body_hash [simp]: "habitat_body (s\<lparr>hs_state_hash := h\<rparr>) = habitat_body s"
  by (simp add: habitat_body_def habitat_to_pyv_def)

interpretation object_seal: sealed_record "with_object_state_hash E None" object_body ho_object_state_hash
    "hash_canonical E" for E
  by unfold_locales (simp_all add: with_object_state_hash_def compute_object_state_hash_def)

interpretation habitat_seal: sealed_record "with_habitat_hash E" habitat_body hs_state_hash "hash_canonical E" for E
  by unfold_locales (simp_all add: with_habitat_hash_def compute_habitat_hash_def)

lemma with_habitat_hash_fields [simp]:
  "hs_habitat_id (with_habitat_hash E s) = hs_habitat_id s"
  "hs_schema_version (with_habitat_hash E s) = hs_schema_version s"
  "hs_habitat_tick (with_habitat_hash E s) = hs_habitat_tick s"
  "hs_state_version (with_habitat_hash E s) = hs_state_version s"
  "hs_definition_hash (with_habitat_hash E s) = hs_definition_hash s"
  "hs_zones (with_habitat_hash E s) = hs_zones s"
  "hs_objects (with_habitat_hash E s) = hs_objects s"
  "hs_zone_connections (with_habitat_hash E s) = hs_zone_connections s"
  "hs_active_environmental_transitions (with_habitat_hash E s) = hs_active_environmental_transitions s"
  "hs_bounded_environmental_history_refs (with_habitat_hash E s) = hs_bounded_environmental_history_refs s"
  by (simp_all add: with_habitat_hash_def Let_def)

lemma with_object_hash_fields [simp]:
  "ho_object_id (with_object_state_hash E v ob) = ho_object_id ob"
  "ho_object_version (with_object_state_hash E v ob) = (case v of None \<Rightarrow> ho_object_version ob | Some n \<Rightarrow> n)"
  "ho_location (with_object_state_hash E v ob) = ho_location ob"
  "ho_state (with_object_state_hash E v ob) = ho_state ob"
  "ho_object_kind (with_object_state_hash E v ob) = ho_object_kind ob"
  "ho_passable (with_object_state_hash E v ob) = ho_passable ob"
  "ho_collision_radius (with_object_state_hash E v ob) = ho_collision_radius ob"
  by (simp_all add: with_object_state_hash_def Let_def)

lemma with_object_hash_sealed:
  "ho_object_state_hash (with_object_state_hash E v ob) = compute_object_state_hash E (with_object_state_hash E v ob)"
  by (simp add: with_object_state_hash_def Let_def compute_object_state_hash_def)

lemma with_habitat_hash_sealed:
  "hs_state_hash (with_habitat_hash E s) = compute_habitat_hash E (with_habitat_hash E s)"
  by (simp add: with_habitat_hash_def Let_def compute_habitat_hash_def)

end
