(* ===== verification/HabitatEvents.thy ===== *)
theory HabitatEvents
  imports HabitatState
begin

text \<open>
  \<open>habitat/events.py\<close>: the dictionary form of habitat data, the event builders, the fail-closed application of an event
  to a habitat and the replay of a log. An event is the dictionary the ledger holds, a value of type \<^typ>\<open>pyv\<close>.
  \<open>new_id()\<close> is the argument \<open>fresh\<close>: \<open>fresh 0\<close> for the transaction, \<open>fresh 1\<close> for the request, \<open>fresh 2\<close> for the event.
\<close>

section \<open>Event types\<close>

definition HABITAT_INITIALIZED :: string where
  "HABITAT_INITIALIZED = ''habitat_initialized''"

definition HABITAT_ZONE_ADDED :: string where
  "HABITAT_ZONE_ADDED = ''habitat_zone_added''"

definition HABITAT_OBJECT_CREATED :: string where
  "HABITAT_OBJECT_CREATED = ''habitat_object_created''"

definition HABITAT_OBJECT_VISIBILITY_CHANGED :: string where
  "HABITAT_OBJECT_VISIBILITY_CHANGED = ''habitat_object_visibility_changed''"

definition HABITAT_OBJECT_STATE_CHANGED :: string where
  "HABITAT_OBJECT_STATE_CHANGED = ''habitat_object_state_changed''"

definition HABITAT_OBJECT_MOVED :: string where
  "HABITAT_OBJECT_MOVED = ''habitat_object_moved''"

definition HABITAT_OBJECT_PICKED_UP :: string where
  "HABITAT_OBJECT_PICKED_UP = ''habitat_object_picked_up''"

definition HABITAT_OBJECT_PLACED :: string where
  "HABITAT_OBJECT_PLACED = ''habitat_object_placed''"

definition HABITAT_AFFORDANCE_ACTIVATED :: string where
  "HABITAT_AFFORDANCE_ACTIVATED = ''habitat_affordance_activated''"

definition HABITAT_AFFORDANCE_DEACTIVATED :: string where
  "HABITAT_AFFORDANCE_DEACTIVATED = ''habitat_affordance_deactivated''"

definition HABITAT_TRANSITION_APPLIED :: string where
  "HABITAT_TRANSITION_APPLIED = ''habitat_transition_applied''"

definition HABITAT_DEFINITION_MIGRATED :: string where
  "HABITAT_DEFINITION_MIGRATED = ''habitat_definition_migrated''"

definition HABITAT_HELD_BINDING_REBASED :: string where
  "HABITAT_HELD_BINDING_REBASED = ''habitat_held_binding_rebased''"

definition HABITAT_BODY_ZONE_TRANSITIONED :: string where
  "HABITAT_BODY_ZONE_TRANSITIONED = ''habitat_body_zone_transitioned''"

lemmas habitat_event_names = HABITAT_INITIALIZED_def HABITAT_ZONE_ADDED_def HABITAT_OBJECT_CREATED_def
  HABITAT_OBJECT_VISIBILITY_CHANGED_def HABITAT_OBJECT_STATE_CHANGED_def HABITAT_OBJECT_MOVED_def
  HABITAT_OBJECT_PICKED_UP_def HABITAT_OBJECT_PLACED_def HABITAT_AFFORDANCE_ACTIVATED_def
  HABITAT_AFFORDANCE_DEACTIVATED_def HABITAT_TRANSITION_APPLIED_def HABITAT_DEFINITION_MIGRATED_def
  HABITAT_HELD_BINDING_REBASED_def HABITAT_BODY_ZONE_TRANSITIONED_def

definition HABITAT_EVENT_TYPES :: "string list" where
  "HABITAT_EVENT_TYPES =
     [HABITAT_INITIALIZED, HABITAT_ZONE_ADDED, HABITAT_OBJECT_CREATED, HABITAT_OBJECT_VISIBILITY_CHANGED,
      HABITAT_OBJECT_STATE_CHANGED, HABITAT_OBJECT_MOVED, HABITAT_OBJECT_PICKED_UP, HABITAT_OBJECT_PLACED,
      HABITAT_AFFORDANCE_ACTIVATED, HABITAT_AFFORDANCE_DEACTIVATED, HABITAT_TRANSITION_APPLIED,
      HABITAT_DEFINITION_MIGRATED, HABITAT_HELD_BINDING_REBASED, HABITAT_BODY_ZONE_TRANSITIONED]"

definition INIT_PRIOR_STATE_VERSION :: int where
  "INIT_PRIOR_STATE_VERSION = - 1"

definition INIT_PRIOR_STATE_HASH :: string where
  "INIT_PRIOR_STATE_HASH = []"

section \<open>Reading payloads\<close>

text \<open>\<open>text.rsplit(".", 1)[-1]\<close>.\<close>

definition after_last_dot :: "string \<Rightarrow> string" where
  "after_last_dot s = rev (takeWhile (\<lambda>c. c \<noteq> CHR ''.'') (rev s))"

definition zone_kind_of :: "string \<Rightarrow> zone_kind res" where
  "zone_kind_of s = (let t = after_last_dot s in
     if t = ''GENERAL'' then Inr GENERAL else if t = ''REST'' then Inr REST
     else if t = ''RECOVERY'' then Inr RECOVERY else if t = ''MAINTENANCE'' then Inr MAINTENANCE
     else if t = ''EXPLORATION'' then Inr EXPLORATION else if t = ''SOCIAL'' then Inr SOCIAL
     else Inl (ValueError ''not_a_valid_ZoneKind''))"

definition object_kind_of :: "string \<Rightarrow> object_kind res" where
  "object_kind_of s = (let t = after_last_dot s in
     if t = ''SCENERY'' then Inr SCENERY else if t = ''OBSTACLE'' then Inr OBSTACLE
     else if t = ''HAZARD'' then Inr HAZARD else if t = ''RESOURCE'' then Inr RESOURCE
     else if t = ''INSPECTABLE'' then Inr INSPECTABLE else if t = ''REST_STATION'' then Inr REST_STATION
     else if t = ''CHARGE_STATION'' then Inr CHARGE_STATION
     else if t = ''PORTABLE_OBJECT'' then Inr PORTABLE_OBJECT
     else if t = ''ACTIVATABLE_OBJECT'' then Inr ACTIVATABLE_OBJECT
     else if t = ''SOCIAL_ENTITY'' then Inr SOCIAL_ENTITY
     else Inl (ValueError ''not_a_valid_ObjectKind''))"

fun habitat_location_to_payload :: "object_location \<Rightarrow> pyv" where
  "habitat_location_to_payload (FreeLocation x y zone_id) = VDict
     [(''mode'', VStr ''FREE''), (''x'', VFlt x), (''y'', VFlt y), (''zone_id'', VStr zone_id)]"
| "habitat_location_to_payload (HeldByLocation body generation slot) = VDict
     [(''mode'', VStr ''HELD_BY''), (''body_instance_id'', VStr body),
      (''attachment_generation'', VInt generation), (''hold_slot'', VInt slot)]"

definition location_from_payload :: "pyv \<Rightarrow> object_location res" where
  "location_from_payload payload =
     andThen (get_or payload ''mode'' VNone) (\<lambda>mode.
       if mode = VStr ''HELD_BY'' \<or> has_key payload ''body_instance_id''
       then andThen (fld payload ''body_instance_id'' as_str) (\<lambda>body.
            andThen (fld payload ''attachment_generation'' as_int) (\<lambda>generation.
            andThen (fld payload ''hold_slot'' as_int) (\<lambda>slot.
            Inr (HeldByLocation body generation slot))))
       else andThen (fld payload ''x'' as_float) (\<lambda>x.
            andThen (fld payload ''y'' as_float) (\<lambda>y.
            andThen (fld payload ''zone_id'' as_str) (\<lambda>zone_id.
            Inr (FreeLocation x y zone_id)))))"

text \<open>\<open>v[n]\<close> on a sequence, and unpacking \<open>k, v = entry\<close>.\<close>

fun at_index :: "pyv \<Rightarrow> nat \<Rightarrow> pyv res" where
  "at_index (VList xs) n = (if n < length xs then Inr (xs ! n) else Inl (IndexError ''index_out_of_range''))"
| "at_index v n = Inl (OutOfModel ''index'')"

definition unpack_pair :: "(pyv \<Rightarrow> 'a res) \<Rightarrow> (pyv \<Rightarrow> 'b res) \<Rightarrow> pyv \<Rightarrow> ('a \<times> 'b) res" where
  "unpack_pair f g entry = andThen (as_list entry) (\<lambda>parts.
     case parts of [a, b] \<Rightarrow> andThen (f a) (\<lambda>x. andThen (g b) (\<lambda>y. Inr (x, y)))
     | _ \<Rightarrow> Inl (ValueError ''unpack''))"

definition window_of :: "pyv \<Rightarrow> (flt \<times> flt) res" where
  "window_of window = andThen (andThen (at_index window 0) as_float) (\<lambda>a.
     andThen (andThen (at_index window 1) as_float) (\<lambda>b. Inr (a, b)))"

definition social_state_from_payload :: "pyv \<Rightarrow> social_entity_spatial_state res" where
  "social_state_from_payload p =
     andThen (fld p ''entity_ref'' as_str) (\<lambda>entity_ref.
     andThen (fld_or p ''history_code'' (VStr ''H0'') as_str) (\<lambda>history_code.
     andThen (fld_or p ''motion_signature'' (VList []) (tuple_of as_float)) (\<lambda>motion.
     andThen (fld_or p ''appearance_signature'' (VList []) (tuple_of as_float)) (\<lambda>appearance.
     andThen (fld_or p ''response_timing_pattern'' (VList []) (tuple_of as_float)) (\<lambda>timing.
     andThen (fld_or p ''interaction_style_cues'' (VList []) (tuple_of as_float)) (\<lambda>cues.
     andThen (fld_or p ''response_mode'' (VStr ''contingent'') as_str) (\<lambda>response_mode.
     andThen (fld_or p ''contingent_probability'' (VFlt (flit 85 100)) as_float) (\<lambda>probability.
     andThen (fld_or p ''flip_at'' VNone (opt_conv as_float)) (\<lambda>flip_at.
     andThen (fld_or p ''absent_windows'' (VList []) (tuple_of window_of)) (\<lambda>windows.
     andThen (fld_or p ''active'' (VBool True) as_bool) (\<lambda>active.
     Inr \<lparr>se_entity_ref = entity_ref, se_history_code = history_code, se_motion_signature = motion,
          se_appearance_signature = appearance, se_response_timing_pattern = timing,
          se_interaction_style_cues = cues, se_response_mode = response_mode,
          se_contingent_probability = probability, se_flip_at = flip_at,
          se_absent_windows = windows, se_active = active\<rparr>)))))))))))"

definition object_state_from_payload :: "pyv \<Rightarrow> object_state res" where
  "object_state_from_payload p =
     andThen (get_or p ''kind'' VNone) (\<lambda>kind.
       if kind = VStr ''IDLE'' then Inr IdleState
       else if kind = VStr ''RESOURCE''
       then andThen (fld p ''remaining_yield'' as_float) (\<lambda>y. Inr (ResourceState y))
       else if kind = VStr ''STATION''
       then andThen (fld p ''station_kind'' as_str) (\<lambda>k.
            andThen (fld p ''available'' as_bool) (\<lambda>a. Inr (StationState k a)))
       else if kind = VStr ''ACTIVATABLE''
       then andThen (fld p ''active'' as_bool) (\<lambda>a. Inr (ActivatableState a))
       else if kind = VStr ''SOCIAL_ENTITY''
       then andThen (social_state_from_payload p) (\<lambda>s. Inr (SocialEntitySpatialState s))
       else andThen (as_str kind) (\<lambda>k. Inl (HabitatEventError (''unknown_object_state_kind:'' @ k))))"

definition zone_from_payload :: "pyv \<Rightarrow> zone res" where
  "zone_from_payload p =
     andThen (item p ''bounds'') (\<lambda>bounds.
     andThen (item p ''body_constraints'') (\<lambda>body.
     andThen (item p ''environmental_properties'') (\<lambda>env.
     andThen (fld p ''zone_id'' as_str) (\<lambda>zone_id.
     andThen (andThen (fld p ''zone_kind'' as_str) zone_kind_of) (\<lambda>kind.
     andThen (fld bounds ''x_min'' as_float) (\<lambda>x_min.
     andThen (fld bounds ''y_min'' as_float) (\<lambda>y_min.
     andThen (fld bounds ''x_max'' as_float) (\<lambda>x_max.
     andThen (fld bounds ''y_max'' as_float) (\<lambda>y_max.
     andThen (fld p ''occupancy_limit'' as_int) (\<lambda>limit.
     andThen (fld body ''required_capabilities'' (tuple_of plain_str)) (\<lambda>capabilities.
     andThen (fld body ''maximum_body_radius'' as_float) (\<lambda>radius.
     andThen (fld body ''maximum_body_mass_class'' as_str) (\<lambda>mass.
     andThen (fld body ''locomotion_requirements'' (tuple_of plain_str)) (\<lambda>locomotion.
     andThen (fld env ''schema_version'' as_str) (\<lambda>schema.
     andThen (fld env ''values'' (tuple_of (unpack_pair as_str as_float))) (\<lambda>values.
     andThen (fld p ''rest_support'' as_bool) (\<lambda>rest_support.
     andThen (fld p ''maintenance_support'' as_bool) (\<lambda>maintenance_support.
     Inr \<lparr>zn_zone_id = zone_id, zn_zone_kind = kind,
          zn_bounds = \<lparr>zb_x_min = x_min, zb_y_min = y_min, zb_x_max = x_max, zb_y_max = y_max\<rparr>,
          zn_occupancy_limit = limit,
          zn_body_constraints = \<lparr>bc_required_capabilities = capabilities, bc_maximum_body_radius = radius,
            bc_maximum_body_mass_class = mass, bc_locomotion_requirements = locomotion\<rparr>,
          zn_environmental_properties = \<lparr>ev_schema_version = schema, ev_values = values\<rparr>,
          zn_rest_support = rest_support, zn_maintenance_support = maintenance_support\<rparr>))))))))))))))))))"

definition object_from_payload :: "pyv \<Rightarrow> habitat_object res" where
  "object_from_payload p =
     andThen (fld p ''object_id'' as_str) (\<lambda>object_id.
     andThen (andThen (fld p ''object_kind'' as_str) object_kind_of) (\<lambda>kind.
     andThen (fld p ''definition_version'' as_int) (\<lambda>definition_version.
     andThen (fld p ''definition_hash'' as_str) (\<lambda>definition_hash.
     andThen (fld p ''object_version'' as_int) (\<lambda>object_version.
     andThen (fld p ''object_state_hash'' as_str) (\<lambda>object_state_hash.
     andThen (fld p ''location'' location_from_payload) (\<lambda>location.
     andThen (fld p ''state'' object_state_from_payload) (\<lambda>state.
     andThen (fld p ''mass_class'' as_str) (\<lambda>mass_class.
     andThen (fld p ''portable'' as_bool) (\<lambda>portable.
     andThen (fld p ''passable'' as_bool) (\<lambda>passable.
     andThen (fld p ''occluded'' as_bool) (\<lambda>occluded.
     andThen (fld p ''collision_radius'' as_float) (\<lambda>collision_radius.
     andThen (fld p ''affordance_ids'' (tuple_of as_str)) (\<lambda>affordance_ids.
     andThen (fld p ''visibility'' as_str) (\<lambda>visibility.
     andThen (fld p ''condition'' as_float) (\<lambda>condition.
     andThen (fld p ''cooldowns'' (tuple_of (unpack_pair as_str as_int))) (\<lambda>cooldowns.
     Inr \<lparr>ho_object_id = object_id, ho_object_kind = kind, ho_definition_version = definition_version,
          ho_definition_hash = definition_hash, ho_object_version = object_version,
          ho_object_state_hash = object_state_hash, ho_location = location, ho_state = state,
          ho_mass_class = mass_class, ho_portable = portable, ho_passable = passable, ho_occluded = occluded,
          ho_collision_radius = collision_radius, ho_affordance_ids = affordance_ids,
          ho_visibility = visibility, ho_condition = condition, ho_cooldowns = cooldowns\<rparr>)))))))))))))))))"

definition transition_from_payload :: "pyv \<Rightarrow> environmental_transition res" where
  "transition_from_payload p =
     andThen (fld p ''transition_id'' as_str) (\<lambda>transition_id.
     andThen (fld p ''start_tick'' as_int) (\<lambda>start_tick.
     andThen (fld p ''completion_tick'' as_int) (\<lambda>completion_tick.
     andThen (fld p ''definition_hash'' as_str) (\<lambda>definition_hash.
     andThen (fld p ''status'' as_str) (\<lambda>status.
     Inr \<lparr>et_transition_id = transition_id, et_start_tick = start_tick, et_completion_tick = completion_tick,
          et_definition_hash = definition_hash, et_status = status\<rparr>)))))"

definition connection_from_payload :: "pyv \<Rightarrow> zone_connection res" where
  "connection_from_payload p =
     andThen (fld p ''from_zone_id'' as_str) (\<lambda>from_zone_id.
     andThen (fld p ''to_zone_id'' as_str) (\<lambda>to_zone_id.
     Inr \<lparr>zc_from_zone_id = from_zone_id, zc_to_zone_id = to_zone_id\<rparr>))"

section \<open>Whole habitats\<close>

definition habitat_state_to_init_payload :: "habitat_state \<Rightarrow> pyv dict" where
  "habitat_state_to_init_payload s =
     [(''habitat_id'', VStr (hs_habitat_id s)),
      (''schema_version'', VStr (hs_schema_version s)),
      (''habitat_tick'', VInt (hs_habitat_tick s)),
      (''definition_hash'', VStr (hs_definition_hash s)),
      (''zones'', dict_to_pyv zone_to_pyv (hs_zones s)),
      (''objects'', dict_to_pyv object_to_pyv (hs_objects s)),
      (''zone_connections'', VList (map connection_to_pyv (hs_zone_connections s))),
      (''active_environmental_transitions'',
         VList (map transition_to_pyv (hs_active_environmental_transitions s))),
      (''bounded_environmental_history_refs'', v_strs (hs_bounded_environmental_history_refs s))]"

definition habitat_state_to_checkpoint_payload :: "habitat_state \<Rightarrow> pyv" where
  "habitat_state_to_checkpoint_payload s = VDict
     (dput ''state_hash'' (VStr (hs_state_hash s))
       (dput ''state_version'' (VInt (hs_state_version s)) (habitat_state_to_init_payload s)))"

definition dict_from :: "(pyv \<Rightarrow> 'a res) \<Rightarrow> pyv \<Rightarrow> 'a dict res" where
  "dict_from f v = andThen (as_dict v) (mapE (\<lambda>(k, p). andThen (f p) (\<lambda>x. Inr (k, x))))"

definition state_from_init_payload :: "hash_env \<Rightarrow> pyv \<Rightarrow> habitat_state res" where
  "state_from_init_payload E p =
     andThen (fld p ''zones'' (dict_from zone_from_payload)) (\<lambda>zones.
     andThen (fld p ''objects'' (dict_from object_from_payload)) (\<lambda>objects.
     andThen (fld p ''zone_connections'' (tuple_of connection_from_payload)) (\<lambda>connections.
     andThen (fld p ''active_environmental_transitions'' (tuple_of transition_from_payload)) (\<lambda>transitions.
     andThen (fld p ''habitat_id'' as_str) (\<lambda>habitat_id.
     andThen (fld p ''schema_version'' as_str) (\<lambda>schema_version.
     andThen (fld_or p ''habitat_tick'' (VInt 0) as_int) (\<lambda>habitat_tick.
     andThen (fld p ''definition_hash'' as_str) (\<lambda>definition_hash.
     andThen (fld_or p ''bounded_environmental_history_refs'' VNone
         (\<lambda>v. tuple_of as_str (or_else v (VList [])))) (\<lambda>refs.
     let base = \<lparr>hs_habitat_id = habitat_id, hs_schema_version = schema_version,
           hs_habitat_tick = habitat_tick, hs_state_version = 0, hs_definition_hash = definition_hash,
           hs_state_hash = [], hs_zones = zones, hs_objects = objects, hs_zone_connections = connections,
           hs_active_environmental_transitions = transitions,
           hs_bounded_environmental_history_refs = refs\<rparr>
     in Inr (with_habitat_hash E
          (base\<lparr>hs_definition_hash := compute_habitat_definition_hash E base\<rparr>)))))))))))"

definition habitat_state_from_checkpoint_payload :: "hash_env \<Rightarrow> pyv \<Rightarrow> habitat_state res" where
  "habitat_state_from_checkpoint_payload E p =
     andThen (state_from_init_payload E p) (\<lambda>base.
     andThen (fld p ''state_version'' as_int) (\<lambda>version.
     andThen (fld p ''state_hash'' as_str) (\<lambda>expected_hash.
     andThen (fld p ''definition_hash'' as_str) (\<lambda>definition_hash.
     let restored = with_habitat_hash E
           (base\<lparr>hs_definition_hash := definition_hash, hs_state_version := version, hs_state_hash := []\<rparr>)
     in if hs_state_hash restored \<noteq> expected_hash
        then Inl (HabitatEventError ''checkpoint_habitat_state_hash_mismatch'')
        else Inr restored))))"

section \<open>Building events\<close>

text \<open>The keyword arguments of the envelope.\<close>

record envelope_args =
  ea_habitat_tick :: "int option"
  ea_transaction_id :: "string option"
  ea_request_id :: "string option"
  ea_execution_id :: "string option"
  ea_actor_ref :: "string option"
  ea_target_ref :: "string option"

definition no_args :: envelope_args where
  "no_args = \<lparr>ea_habitat_tick = None, ea_transaction_id = None, ea_request_id = None, ea_execution_id = None,
     ea_actor_ref = None, ea_target_ref = None\<rparr>"

text \<open>\<open>x or new_id()\<close>.\<close>

fun or_fresh :: "string option \<Rightarrow> string \<Rightarrow> string" where
  "or_fresh None f = f"
| "or_fresh (Some s) f = (if s = [] then f else s)"

definition opt_field :: "string \<Rightarrow> string option \<Rightarrow> pyv dict" where
  "opt_field k x = (case x of None \<Rightarrow> [] | Some s \<Rightarrow> [(k, VStr s)])"

definition envelope_fields ::
  "(nat \<Rightarrow> string) \<Rightarrow> habitat_state option \<Rightarrow> habitat_state \<Rightarrow> envelope_args \<Rightarrow> pyv dict" where
  "envelope_fields fresh before after args =
     (let prior_version = (case before of None \<Rightarrow> INIT_PRIOR_STATE_VERSION | Some s \<Rightarrow> hs_state_version s);
          prior_hash = (case before of None \<Rightarrow> INIT_PRIOR_STATE_HASH | Some s \<Rightarrow> hs_state_hash s)
      in [(''habitat_id'', VStr (hs_habitat_id after)),
          (''transaction_id'', VStr (or_fresh (ea_transaction_id args) (fresh 0))),
          (''prior_state_version'', VInt prior_version),
          (''new_state_version'', VInt (hs_state_version after)),
          (''habitat_tick'', VInt (case ea_habitat_tick args of None \<Rightarrow> hs_habitat_tick after | Some n \<Rightarrow> n)),
          (''request_id'', VStr (or_fresh (ea_request_id args) (fresh 1))),
          (''prior_state_hash'', VStr prior_hash),
          (''new_state_hash'', VStr (hs_state_hash after)),
          (''definition_hash'', VStr (hs_definition_hash after))]
         @ opt_field ''execution_id'' (ea_execution_id args)
         @ opt_field ''actor_ref'' (ea_actor_ref args)
         @ opt_field ''target_ref'' (ea_target_ref args))"

definition dict_update :: "pyv dict \<Rightarrow> pyv dict \<Rightarrow> pyv dict" where
  "dict_update d extra = fold (\<lambda>(k, v) acc. dput k v acc) extra d"

definition habitat_event :: "string \<Rightarrow> string \<Rightarrow> pyv dict \<Rightarrow> pyv" where
  "habitat_event event_id event_type payload = VDict
     [(''event_id'', VStr event_id), (''event_type'', VStr event_type), (''payload'', VDict payload)]"

definition build_habitat_event ::
  "(nat \<Rightarrow> string) \<Rightarrow> habitat_state option \<Rightarrow> habitat_state \<Rightarrow> string \<Rightarrow> string option \<Rightarrow> pyv dict
    \<Rightarrow> envelope_args \<Rightarrow> pyv res" where
  "build_habitat_event fresh before after event_type event_id extra_payload args =
     (if event_type \<notin> set HABITAT_EVENT_TYPES
      then Inl (HabitatEventError (''unknown_habitat_event:'' @ event_type))
      else Inr (habitat_event (or_fresh event_id (fresh 2)) event_type
             (dict_update (envelope_fields fresh before after args) extra_payload)))"

text \<open>The three location events differ in their type only.\<close>

definition build_location_event ::
  "string \<Rightarrow> (nat \<Rightarrow> string) \<Rightarrow> habitat_state \<Rightarrow> habitat_state \<Rightarrow> string \<Rightarrow> string option \<Rightarrow> envelope_args \<Rightarrow> pyv res" where
  "build_location_event event_type fresh before after object_id event_id args =
     (case map_of (hs_objects after) object_id of
        None \<Rightarrow> Inl (KeyError object_id)
      | Some ob \<Rightarrow>
          build_habitat_event fresh (Some before) after event_type event_id
            [(''object_id'', VStr object_id), (''new_location'', habitat_location_to_payload (ho_location ob))] args)"

definition build_object_moved_event ::
  "(nat \<Rightarrow> string) \<Rightarrow> habitat_state \<Rightarrow> habitat_state \<Rightarrow> string \<Rightarrow> string option \<Rightarrow> envelope_args \<Rightarrow> pyv res" where
  "build_object_moved_event = build_location_event HABITAT_OBJECT_MOVED"

definition build_object_picked_up_event ::
  "(nat \<Rightarrow> string) \<Rightarrow> habitat_state \<Rightarrow> habitat_state \<Rightarrow> string \<Rightarrow> string option \<Rightarrow> envelope_args \<Rightarrow> pyv res" where
  "build_object_picked_up_event = build_location_event HABITAT_OBJECT_PICKED_UP"

definition build_object_placed_event ::
  "(nat \<Rightarrow> string) \<Rightarrow> habitat_state \<Rightarrow> habitat_state \<Rightarrow> string \<Rightarrow> string option \<Rightarrow> envelope_args \<Rightarrow> pyv res" where
  "build_object_placed_event = build_location_event HABITAT_OBJECT_PLACED"

definition build_object_visibility_event ::
  "(nat \<Rightarrow> string) \<Rightarrow> habitat_state \<Rightarrow> habitat_state \<Rightarrow> string \<Rightarrow> string option \<Rightarrow> envelope_args \<Rightarrow> pyv res" where
  "build_object_visibility_event fresh before after object_id event_id args =
     (case map_of (hs_objects after) object_id of
        None \<Rightarrow> Inl (KeyError object_id)
      | Some ob \<Rightarrow>
          build_habitat_event fresh (Some before) after HABITAT_OBJECT_VISIBILITY_CHANGED event_id
            [(''object_id'', VStr object_id), (''occluded'', VBool (ho_occluded ob)),
             (''visibility'', VStr (ho_visibility ob))] args)"

definition build_initialized_event ::
  "hash_env \<Rightarrow> (nat \<Rightarrow> string) \<Rightarrow> habitat_state \<Rightarrow> string option \<Rightarrow> envelope_args \<Rightarrow> pyv" where
  "build_initialized_event E fresh state event_id args =
     (let init_state = with_habitat_hash E (state\<lparr>hs_state_version := 0, hs_state_hash := []\<rparr>);
          payload = dput ''initial_state'' (VDict (habitat_state_to_init_payload init_state))
            (envelope_fields fresh None init_state args)
      in habitat_event (or_fresh event_id (fresh 2)) HABITAT_INITIALIZED payload)"

text \<open>
  The last two builders pass all their keyword arguments on to \<open>_envelope_fields\<close>, which has no parameter
  \<open>event_id\<close>: \<open>event_id\<close> is \<open>None\<close> here when the caller did not pass it and \<open>Some x\<close> when it passed \<open>x\<close>.
\<close>

definition build_body_zone_transition_event ::
  "(nat \<Rightarrow> string) \<Rightarrow> habitat_state \<Rightarrow> string \<Rightarrow> string \<Rightarrow> string \<Rightarrow> string option option \<Rightarrow> envelope_args \<Rightarrow> pyv res" where
  "build_body_zone_transition_event fresh state body_instance_id from_zone_id to_zone_id event_id args =
     (case event_id of
        Some _ \<Rightarrow> Inl (TypeError ''unexpected_keyword_argument_event_id'')
      | None \<Rightarrow> Inr (habitat_event (fresh 2) HABITAT_BODY_ZONE_TRANSITIONED
          (dict_update (envelope_fields fresh (Some state) state args)
            [(''body_instance_id'', VStr body_instance_id), (''from_zone_id'', VStr from_zone_id),
             (''to_zone_id'', VStr to_zone_id)])))"

definition build_held_binding_rebased_event ::
  "(nat \<Rightarrow> string) \<Rightarrow> habitat_state \<Rightarrow> habitat_state \<Rightarrow> string \<Rightarrow> string \<Rightarrow> int \<Rightarrow> int \<Rightarrow> int
    \<Rightarrow> string option option \<Rightarrow> envelope_args \<Rightarrow> pyv res" where
  "build_held_binding_rebased_event fresh before after object_id body_instance_id old_attachment_generation
     new_attachment_generation hold_slot event_id args =
     (case event_id of
        Some _ \<Rightarrow> Inl (TypeError ''unexpected_keyword_argument_event_id'')
      | None \<Rightarrow> Inr (habitat_event (fresh 2) HABITAT_HELD_BINDING_REBASED
          (dict_update (envelope_fields fresh (Some before) after args)
            [(''object_id'', VStr object_id), (''body_instance_id'', VStr body_instance_id),
             (''old_attachment_generation'', VInt old_attachment_generation),
             (''new_attachment_generation'', VInt new_attachment_generation),
             (''hold_slot'', VInt hold_slot)])))"

section \<open>Applying events\<close>

definition bump_state :: "hash_env \<Rightarrow> habitat_state \<Rightarrow> habitat_state" where
  "bump_state E s = with_habitat_hash E (s\<lparr>hs_state_version := hs_state_version s + 1\<rparr>)"

definition mutate_object ::
  "hash_env \<Rightarrow> habitat_state \<Rightarrow> string \<Rightarrow> (habitat_object \<Rightarrow> habitat_object res) \<Rightarrow> habitat_state res" where
  "mutate_object E state object_id mutate_fn =
     (case map_of (hs_objects state) object_id of
        None \<Rightarrow> Inl (HabitatEventError (''missing_object:'' @ object_id))
      | Some obj \<Rightarrow>
          andThen (apply_committed_object_mutation E mutate_fn obj) (\<lambda>updated.
            Inr (bump_state E (state\<lparr>hs_objects := dput object_id updated (hs_objects state)\<rparr>))))"

definition relocate_to ::
  "bool \<Rightarrow> string \<Rightarrow> bool \<Rightarrow> string \<Rightarrow> object_location \<Rightarrow> habitat_object \<Rightarrow> habitat_object res" where
  "relocate_to from_free from_error to_free to_error location obj =
     (if is_free (ho_location obj) \<noteq> from_free then Inl (HabitatEventError from_error)
      else if is_free location \<noteq> to_free then Inl (HabitatEventError to_error)
      else Inr (obj\<lparr>ho_location := location\<rparr>))"

definition change_visibility :: "pyv \<Rightarrow> habitat_object \<Rightarrow> habitat_object res" where
  "change_visibility payload obj =
     andThen (fld payload ''occluded'' as_bool) (\<lambda>occluded.
     andThen (fld_or payload ''visibility'' (VStr (ho_visibility obj)) as_str) (\<lambda>visibility.
     Inr (obj\<lparr>ho_occluded := occluded, ho_visibility := visibility\<rparr>)))"

fun rebase :: "int \<Rightarrow> int \<Rightarrow> habitat_object \<Rightarrow> habitat_object res" where
  "rebase new_generation hold_slot obj =
     (case ho_location obj of
        FreeLocation _ _ _ \<Rightarrow> Inl (HabitatEventError ''rebase_requires_held_location'')
      | HeldByLocation body _ _ \<Rightarrow> Inr (obj\<lparr>ho_location := HeldByLocation body new_generation hold_slot\<rparr>))"

definition mutate_location ::
  "hash_env \<Rightarrow> habitat_state \<Rightarrow> pyv \<Rightarrow> bool \<Rightarrow> string \<Rightarrow> bool \<Rightarrow> string \<Rightarrow> habitat_state res" where
  "mutate_location E s payload from_free from_error to_free to_error =
     andThen (fld payload ''object_id'' as_str) (\<lambda>object_id.
     andThen (fld payload ''new_location'' location_from_payload) (\<lambda>location.
     mutate_object E s object_id (relocate_to from_free from_error to_free to_error location)))"

definition mutate_state :: "hash_env \<Rightarrow> habitat_state \<Rightarrow> pyv \<Rightarrow> habitat_state res" where
  "mutate_state E s payload =
     andThen (fld payload ''object_id'' as_str) (\<lambda>object_id.
     andThen (fld payload ''new_state'' object_state_from_payload) (\<lambda>new_state.
     mutate_object E s object_id (\<lambda>obj. Inr (obj\<lparr>ho_state := new_state\<rparr>))))"

definition apply_mutation :: "hash_env \<Rightarrow> habitat_state option \<Rightarrow> string \<Rightarrow> pyv \<Rightarrow> habitat_state res" where
  "apply_mutation E state event_type payload =
     (if event_type = HABITAT_INITIALIZED then fld payload ''initial_state'' (state_from_init_payload E)
      else case state of
        None \<Rightarrow> Inl (HabitatEventError ''missing_habitat_init'')
      | Some s \<Rightarrow>
      if event_type = HABITAT_ZONE_ADDED then
        andThen (fld payload ''zone'' zone_from_payload) (\<lambda>zone.
        let zones = dput (zn_zone_id zone) zone (hs_zones s);
            definition_hash = compute_habitat_definition_hash E (s\<lparr>hs_zones := zones\<rparr>)
        in Inr (with_habitat_hash E ((bump_state E (s\<lparr>hs_zones := zones\<rparr>))\<lparr>hs_definition_hash := definition_hash\<rparr>)))
      else if event_type = HABITAT_OBJECT_CREATED then
        andThen (fld payload ''object'' object_from_payload) (\<lambda>obj.
        let objects = dput (ho_object_id obj) obj (hs_objects s);
            definition_hash = compute_habitat_definition_hash E (s\<lparr>hs_objects := objects\<rparr>)
        in Inr (with_habitat_hash E ((bump_state E (s\<lparr>hs_objects := objects\<rparr>))\<lparr>hs_definition_hash := definition_hash\<rparr>)))
      else if event_type = HABITAT_OBJECT_VISIBILITY_CHANGED then
        andThen (fld payload ''object_id'' as_str) (\<lambda>object_id.
        mutate_object E s object_id (change_visibility payload))
      else if event_type = HABITAT_OBJECT_STATE_CHANGED then mutate_state E s payload
      else if event_type = HABITAT_OBJECT_MOVED then
        mutate_location E s payload True ''moved_requires_free_location'' True ''moved_requires_free_target''
      else if event_type = HABITAT_OBJECT_PICKED_UP then
        mutate_location E s payload True ''pick_up_requires_free_location'' False ''pick_up_requires_held_target''
      else if event_type = HABITAT_OBJECT_PLACED then
        mutate_location E s payload False ''place_requires_held_location'' True ''place_requires_free_target''
      else if event_type = HABITAT_AFFORDANCE_ACTIVATED then mutate_state E s payload
      else if event_type = HABITAT_AFFORDANCE_DEACTIVATED then mutate_state E s payload
      else if event_type = HABITAT_TRANSITION_APPLIED then
        andThen (fld payload ''transition'' transition_from_payload) (\<lambda>transition.
        Inr (bump_state E (s\<lparr>hs_active_environmental_transitions :=
          hs_active_environmental_transitions s @ [transition]\<rparr>)))
      else if event_type = HABITAT_DEFINITION_MIGRATED then
        andThen (fld payload ''object_id'' as_str) (\<lambda>object_id.
        mutate_object E s object_id (\<lambda>obj.
          andThen (fld payload ''new_definition_version'' as_int) (\<lambda>version.
          andThen (fld payload ''new_definition_hash'' as_str) (\<lambda>hash.
          migrate_object_definition E version hash
            (\<lambda>current. fld payload ''migrated_object'' object_from_payload) obj))))
      else if event_type = HABITAT_HELD_BINDING_REBASED then
        andThen (fld payload ''object_id'' as_str) (\<lambda>object_id.
        andThen (fld payload ''new_attachment_generation'' as_int) (\<lambda>new_generation.
        andThen (fld payload ''hold_slot'' as_int) (\<lambda>hold_slot.
        mutate_object E s object_id (rebase new_generation hold_slot))))
      else Inl (HabitatEventError (''unhandled_habitat_event:'' @ event_type)))"

text \<open>The checks of the state against the event: \<open>Some s\<close> when the event is already in the state.\<close>

definition check_order :: "habitat_state option \<Rightarrow> string \<Rightarrow> pyv \<Rightarrow> habitat_state option res" where
  "check_order state event_type payload =
     (case state of
        None \<Rightarrow> if event_type \<noteq> HABITAT_INITIALIZED
          then Inl (HabitatEventError ''missing_habitat_init'') else Inr None
      | Some s \<Rightarrow>
          andThen (get_or payload ''habitat_id'' VNone) (\<lambda>habitat_id.
          if truthy habitat_id \<and> habitat_id \<noteq> VStr (hs_habitat_id s)
          then Inl (HabitatEventError ''habitat_id_mismatch'')
          else andThen (fld payload ''new_state_version'' as_int) (\<lambda>new_version.
          andThen (if hs_state_version s = new_version
              then andThen (item payload ''new_state_hash'') (\<lambda>h. Inr (h = VStr (hs_state_hash s)))
              else Inr False) (\<lambda>already.
          if already then Inr (Some s)
          else andThen (fld payload ''prior_state_version'' as_int) (\<lambda>prior_version.
            if hs_state_version s \<noteq> prior_version
            then Inl (HabitatEventError ''invalid_habitat_event_order'')
            else andThen (item payload ''prior_state_hash'') (\<lambda>prior_hash.
              if prior_hash \<noteq> VStr (hs_state_hash s)
              then Inl (HabitatEventError ''habitat_state_hash_mismatch'')
              else Inr None))))))"

definition apply_habitat_event :: "hash_env \<Rightarrow> habitat_state option \<Rightarrow> pyv \<Rightarrow> habitat_state res" where
  "apply_habitat_event E state event =
     andThen (get_or event ''event_type'' VNone) (\<lambda>type_value.
     andThen (as_str type_value) (\<lambda>event_type.
     if (case type_value of VStr t \<Rightarrow> t \<notin> set HABITAT_EVENT_TYPES | _ \<Rightarrow> True)
     then Inl (HabitatEventError (''unknown_habitat_event:'' @ event_type))
     else andThen (get_or event ''payload'' VNone) (\<lambda>payload_value.
     let payload = or_else payload_value (VDict []) in
     andThen (check_order state event_type payload) (\<lambda>already.
     case already of Some s \<Rightarrow> Inr s | None \<Rightarrow>
     if event_type = HABITAT_BODY_ZONE_TRANSITIONED then
       andThen (fld payload ''prior_state_version'' as_int) (\<lambda>prior_version.
       andThen (fld payload ''new_state_version'' as_int) (\<lambda>new_version.
       if prior_version \<noteq> new_version
       then Inl (HabitatEventError ''zone_transition_must_not_advance_version'')
       else andThen (item payload ''prior_state_hash'') (\<lambda>prior_hash.
       andThen (item payload ''new_state_hash'') (\<lambda>new_hash.
       if prior_hash \<noteq> new_hash
       then Inl (HabitatEventError ''zone_transition_must_not_change_hash'')
       else case state of
         None \<Rightarrow> Inl (HabitatEventError ''invalid_habitat_event_order'')
       | Some s \<Rightarrow> Inr s))))
     else
       andThen (apply_mutation E state event_type payload) (\<lambda>new_state.
       andThen (fld payload ''new_state_version'' as_int) (\<lambda>new_version.
       if hs_state_version new_state \<noteq> new_version
       then Inl (HabitatEventError ''event_new_state_version_mismatch'')
       else andThen (item payload ''new_state_hash'') (\<lambda>new_hash.
       if new_hash \<noteq> VStr (hs_state_hash new_state)
       then Inl (HabitatEventError ''event_new_state_hash_mismatch'')
       else Inr new_state)))))))"

definition replay_step :: "hash_env \<Rightarrow> habitat_state option \<Rightarrow> pyv \<Rightarrow> habitat_state option res" where
  "replay_step E state event = andThen (apply_habitat_event E state event) (\<lambda>s. Inr (Some s))"

definition replay_habitat_from_events :: "hash_env \<Rightarrow> pyv list \<Rightarrow> habitat_state res" where
  "replay_habitat_from_events E events =
     (if events = [] then Inl (HabitatEventError ''missing_habitat_events_fail_closed'')
      else andThen (foldE (replay_step E) None events) (\<lambda>state.
        case state of None \<Rightarrow> Inl (HabitatEventError ''missing_habitat_events_fail_closed'')
        | Some s \<Rightarrow> Inr s))"

section \<open>Round trips\<close>

lemma zone_kind_roundtrip [simp]: "zone_kind_of (zone_kind_value k) = Inr k"
  by (cases k) (simp_all add: zone_kind_of_def after_last_dot_def)

lemma object_kind_roundtrip [simp]: "object_kind_of (object_kind_value k) = Inr k"
  by (cases k) (simp_all add: object_kind_of_def after_last_dot_def)

lemmas read_canonical = fld_canonical fld_or_canonical get_or_canonical item_canonical
lemmas plain_lookups = canonical.simps(7) fld_VDict fld_or_VDict get_or.simps item.simps

lemma has_key_canonical: "dwf d \<Longrightarrow> has_key (canonical (VDict d)) k = has_key (VDict d) k"
  by (simp add: canonical_lookup)

lemma pairs_roundtrip:
  "(\<And>x. g (canonical (h x)) = Inr x) \<Longrightarrow>
     tuple_of (unpack_pair as_str g) (canonical (VList (map (\<lambda>(k, x). VList [VStr k, h x]) xs))) = Inr xs"
  by (simp add: tuple_of_def mapE_map o_def case_prod_beta unpack_pair_def mapE_Inr [where g = id])

lemma map_conv_roundtrip:
  "(\<And>x. f (canonical (h x)) = Inr x) \<Longrightarrow> tuple_of f (canonical (VList (map h xs))) = Inr xs"
  by (simp add: tuple_of_def mapE_map o_def mapE_Inr [where g = id])

lemma zone_roundtrip: "zone_from_payload (canonical (zone_to_pyv z)) = Inr z"
  unfolding zone_from_payload_def zone_to_pyv_def bounds_to_pyv_def constraints_to_pyv_def environment_to_pyv_def
  by (simp add: read_canonical pairs_roundtrip map_conv_roundtrip del: plain_lookups canonical.simps(6))

lemma location_roundtrip: "location_from_payload (canonical (location_to_pyv l)) = Inr l"
  by (cases l) (simp_all add: location_from_payload_def read_canonical has_key_canonical del: plain_lookups)

lemma location_payload_roundtrip: "location_from_payload (habitat_location_to_payload l) = Inr l"
  by (cases l) (simp_all add: location_from_payload_def)

lemma windows_roundtrip:
  "tuple_of window_of (canonical (VList (map (\<lambda>(a, b). VList [VFlt a, VFlt b]) xs))) = Inr xs"
  by (simp add: tuple_of_def mapE_map o_def case_prod_beta window_of_def mapE_Inr [where g = id])

lemma object_state_roundtrip: "object_state_from_payload (canonical (object_state_to_pyv st)) = Inr st"
proof (cases st)
  case (SocialEntitySpatialState s)
  then show ?thesis
    by (simp add: object_state_from_payload_def social_state_from_payload_def read_canonical map_conv_roundtrip
        windows_roundtrip del: plain_lookups canonical.simps(6))
qed (simp_all add: object_state_from_payload_def read_canonical del: plain_lookups)

lemma object_roundtrip: "object_from_payload (canonical (object_to_pyv ob)) = Inr ob"
  unfolding object_from_payload_def object_to_pyv_def
  by (simp add: read_canonical pairs_roundtrip map_conv_roundtrip location_roundtrip object_state_roundtrip
      del: plain_lookups canonical.simps(6))

lemma transition_roundtrip: "transition_from_payload (canonical (transition_to_pyv t)) = Inr t"
  unfolding transition_from_payload_def transition_to_pyv_def
  by (simp add: read_canonical del: plain_lookups)

lemma connection_roundtrip: "connection_from_payload (canonical (connection_to_pyv c)) = Inr c"
  unfolding connection_from_payload_def connection_to_pyv_def
  by (simp add: read_canonical del: plain_lookups)

lemma sorted_items_idem [simp]: "sorted_items (sorted_items d) = sorted_items d"
proof -
  have "sorted (map fst xs) \<Longrightarrow> sort_key fst xs = xs" for xs :: "'a dict"
    by (induction xs) (auto intro: insort_is_Cons)
  then show ?thesis by (simp add: sorted_items_def)
qed

lemma canonical_dict:
  "canonical (dict_to_pyv f d) = VDict (map (\<lambda>(k, v). (k, canonical (f v))) (sorted_items d))"
proof -
  have "sorted_items (map (\<lambda>(k, v). (k, canonical (f v))) (sorted_items d))
      = map (\<lambda>(k, v). (k, canonical (f v))) (sorted_items d)"
    using sorted_items_idem [of d] unfolding sorted_items_def sort_key_map_value by simp
  moreover have "map_prod id canonical \<circ> (\<lambda>(k :: string, v). (k, f v)) = (\<lambda>(k, v). (k, canonical (f v)))"
    by (auto simp: fun_eq_iff)
  ultimately show ?thesis by (simp only: dict_to_pyv_def canonical.simps map_map)
qed

lemma dict_roundtrip:
  "(\<And>x. f (canonical (h x)) = Inr x) \<Longrightarrow> dict_from f (canonical (dict_to_pyv h d)) = Inr (sorted_items d)"
  by (simp add: canonical_dict dict_from_def mapE_map o_def case_prod_beta mapE_Inr [where g = id])


text \<open>The habitat with its dictionaries in sorted order: the state that a stored payload gives back.\<close>

definition sorted_habitat :: "habitat_state \<Rightarrow> habitat_state" where
  "sorted_habitat s = s\<lparr>hs_zones := sorted_items (hs_zones s), hs_objects := sorted_items (hs_objects s)\<rparr>"

lemma sorted_habitat_pyv [simp]: "habitat_to_pyv (sorted_habitat s) = habitat_to_pyv s"
  by (simp add: habitat_to_pyv_def sorted_habitat_def dict_to_pyv_def)

lemma sorted_habitat_hash [simp]:
  "compute_habitat_hash E (sorted_habitat s) = compute_habitat_hash E s"
  "compute_habitat_definition_hash E (sorted_habitat s) = compute_habitat_definition_hash E s"
  by (simp_all add: compute_habitat_hash_def habitat_body_def compute_habitat_definition_hash_def dict_to_pyv_def
      sorted_habitat_def [of s, THEN arg_cong [where f = hs_zones]] )
     (simp add: sorted_habitat_def)

lemma init_payload_roundtrip:
  "state_from_init_payload E (canonical (VDict (habitat_state_to_init_payload s)))
     = Inr (with_habitat_hash E ((sorted_habitat s)\<lparr>hs_state_version := 0,
         hs_definition_hash := compute_habitat_definition_hash E s\<rparr>))"
proof -
  have refs: "tuple_of as_str (or_else (canonical (v_strs xs)) (VList [])) = Inr xs" for xs
    by (simp add: or_else_list o_def)
  have "state_from_init_payload E (canonical (VDict (habitat_state_to_init_payload s)))
    = (let base = (sorted_habitat s)\<lparr>hs_state_version := 0, hs_state_hash := []\<rparr>
       in Inr (with_habitat_hash E (base\<lparr>hs_definition_hash := compute_habitat_definition_hash E base\<rparr>)))"
    unfolding state_from_init_payload_def habitat_state_to_init_payload_def
    by (simp add: read_canonical dict_roundtrip zone_roundtrip object_roundtrip map_conv_roundtrip
        connection_roundtrip transition_roundtrip refs sorted_habitat_def Let_def
        del: plain_lookups canonical.simps(6)) (cases s, simp)
  also have "\<dots> = Inr (with_habitat_hash E ((sorted_habitat s)\<lparr>hs_state_version := 0,
         hs_definition_hash := compute_habitat_definition_hash E s\<rparr>))"
    by (simp add: Let_def with_habitat_hash_def compute_habitat_definition_hash_def sorted_habitat_def dict_to_pyv_def)
  finally show ?thesis .
qed

lemma checkpoint_roundtrip:
  assumes "hs_state_hash s = compute_habitat_hash E s"
  shows "habitat_state_from_checkpoint_payload E (canonical (habitat_state_to_checkpoint_payload s))
    = Inr (sorted_habitat s)"
proof -
  let ?init = "habitat_state_to_init_payload s"
  let ?d = "dput ''state_hash'' (VStr (hs_state_hash s)) (dput ''state_version'' (VInt (hs_state_version s)) ?init)"
  have d: "?d = ?init @ [(''state_version'', VInt (hs_state_version s)), (''state_hash'', VStr (hs_state_hash s))]"
    by (simp add: habitat_state_to_init_payload_def)
  have same: "state_from_init_payload E (canonical (VDict ?d)) = state_from_init_payload E (canonical (VDict ?init))"
    unfolding state_from_init_payload_def d
    by (simp add: read_canonical habitat_state_to_init_payload_def del: plain_lookups)
  have fields: "fld (canonical (VDict ?d)) ''state_version'' as_int = Inr (hs_state_version s)"
    "fld (canonical (VDict ?d)) ''state_hash'' as_str = Inr (hs_state_hash s)"
    "fld (canonical (VDict ?d)) ''definition_hash'' as_str = Inr (hs_definition_hash s)"
    unfolding d by (simp_all add: read_canonical habitat_state_to_init_payload_def del: plain_lookups)
  have re: "with_habitat_hash E ((with_habitat_hash E ((sorted_habitat s)\<lparr>hs_state_version := 0,
         hs_definition_hash := compute_habitat_definition_hash E s\<rparr>))
       \<lparr>hs_definition_hash := hs_definition_hash s, hs_state_version := hs_state_version s, hs_state_hash := []\<rparr>)
     = with_habitat_hash E (sorted_habitat s)"
    by (cases s) (simp add: with_habitat_hash_def sorted_habitat_def Let_def)
  have fixed: "with_habitat_hash E (sorted_habitat s) = sorted_habitat s"
    by (rule habitat_seal.seal_fixed)
      (simp add: assms compute_habitat_hash_def habitat_body_def, simp add: sorted_habitat_def assms compute_habitat_hash_def habitat_body_def)
  show ?thesis
    unfolding habitat_state_from_checkpoint_payload_def habitat_state_to_checkpoint_payload_def same
      init_payload_roundtrip andThen.simps fields Let_def re fixed
    by (simp add: sorted_habitat_def)
qed

section \<open>What an applied event guarantees\<close>

definition habitat_sealed :: "hash_env \<Rightarrow> habitat_state \<Rightarrow> bool" where
  "habitat_sealed E s \<longleftrightarrow> hs_state_hash s = compute_habitat_hash E s"

lemma sealed_with_hash [simp]: "habitat_sealed E (with_habitat_hash E s)"
  using with_habitat_hash_sealed by (simp add: habitat_sealed_def)

lemma bump_sealed [simp]: "habitat_sealed E (bump_state E s)"
  by (simp add: bump_state_def)

lemma init_sealed: "state_from_init_payload E p = Inr s \<Longrightarrow> habitat_sealed E s"
  by (auto simp: state_from_init_payload_def Let_def andThen_eq_Inr)

lemma mutate_object_effect:
  assumes "mutate_object E s i f = Inr t"
  obtains ob ob' where "map_of (hs_objects s) i = Some ob" "f ob = Inr ob'"
    "t = bump_state E (s\<lparr>hs_objects := dput i (with_object_state_hash E (Some (ho_object_version ob + 1)) ob') (hs_objects s)\<rparr>)"
  using assms
  by (auto simp: mutate_object_def apply_committed_object_mutation_def andThen_eq_Inr split: option.splits)

lemma mutate_object_keeps:
  assumes "mutate_object E s i f = Inr t"
  shows "habitat_sealed E t \<and> hs_state_version t = hs_state_version s + 1 \<and> hs_habitat_id t = hs_habitat_id s"
  using assms by (elim mutate_object_effect) (simp add: bump_state_def)

text \<open>A mutation other than the initial one: sealed, one version on, of the same habitat.\<close>

lemma apply_mutation_keeps:
  assumes "apply_mutation E (Some s) event_type payload = Inr t" and "event_type \<noteq> HABITAT_INITIALIZED"
  shows "habitat_sealed E t \<and> hs_state_version t = hs_state_version s + 1 \<and> hs_habitat_id t = hs_habitat_id s"
  using assms mutate_object_keeps
  by (auto simp: apply_mutation_def mutate_location_def mutate_state_def Let_def andThen_eq_Inr bump_state_def
      split: if_splits)

lemma apply_mutation_sealed: "apply_mutation E state event_type payload = Inr t \<Longrightarrow> habitat_sealed E t"
proof (cases "event_type = HABITAT_INITIALIZED")
  case True
  assume "apply_mutation E state event_type payload = Inr t"
  then show ?thesis using True init_sealed by (auto simp: apply_mutation_def andThen_eq_Inr fld_def)
next
  case False
  assume a: "apply_mutation E state event_type payload = Inr t"
  then obtain s where "state = Some s" using False by (cases state) (auto simp: apply_mutation_def)
  then show ?thesis using apply_mutation_keeps a False by blast
qed

text \<open>The event as its type and payload, when it is one the habitat knows.\<close>

definition event_parts :: "pyv \<Rightarrow> string \<Rightarrow> pyv \<Rightarrow> bool" where
  "event_parts event event_type payload \<longleftrightarrow>
     get_or event ''event_type'' VNone = Inr (VStr event_type) \<and> event_type \<in> set HABITAT_EVENT_TYPES
     \<and> (\<exists>v. get_or event ''payload'' VNone = Inr v \<and> payload = or_else v (VDict []))"

lemma apply_event_cases:
  assumes "apply_habitat_event E state event = Inr t"
  obtains (already) s event_type payload where "event_parts event event_type payload"
      "check_order state event_type payload = Inr (Some s)" "t = s"
    | (zone) s payload h where "event_parts event HABITAT_BODY_ZONE_TRANSITIONED payload"
      "check_order state HABITAT_BODY_ZONE_TRANSITIONED payload = Inr None" "state = Some s" "t = s"
      "item payload ''prior_state_hash'' = Inr h" "item payload ''new_state_hash'' = Inr h"
      "fld payload ''prior_state_version'' as_int = fld payload ''new_state_version'' as_int"
    | (mutated) event_type payload where "event_parts event event_type payload"
      "event_type \<noteq> HABITAT_BODY_ZONE_TRANSITIONED" "check_order state event_type payload = Inr None"
      "apply_mutation E state event_type payload = Inr t"
      "fld payload ''new_state_version'' as_int = Inr (hs_state_version t)"
      "item payload ''new_state_hash'' = Inr (VStr (hs_state_hash t))"
proof -
  obtain v et where et: "get_or event ''event_type'' VNone = Inr v" "as_str v = Inr et" "v = VStr et"
    "et \<in> set HABITAT_EVENT_TYPES"
    using assms
    by (auto simp: apply_habitat_event_def andThen_eq_Inr split: if_splits pyv.splits)
  obtain w where w: "get_or event ''payload'' VNone = Inr w"
    using assms et by (auto simp: apply_habitat_event_def andThen_eq_Inr)
  let ?p = "or_else w (VDict [])"
  have parts: "event_parts event et ?p" using et w by (simp add: event_parts_def)
  obtain c where c: "check_order state et ?p = Inr c"
    using assms et w by (auto simp: apply_habitat_event_def andThen_eq_Inr Let_def)
  show ?thesis
  proof (cases c)
    case (Some s)
    then show ?thesis using already [OF parts] assms et w c by (auto simp: apply_habitat_event_def Let_def)
  next
    case None
    show ?thesis
    proof (cases "et = HABITAT_BODY_ZONE_TRANSITIONED")
      case True
      then show ?thesis using zone parts assms et w c None
        by (auto simp: apply_habitat_event_def Let_def andThen_eq_Inr split: if_splits option.splits)
    next
      case False
      then show ?thesis using mutated [OF parts] assms et w c None
        by (auto simp: apply_habitat_event_def Let_def andThen_eq_Inr split: if_splits)
    qed
  qed
qed

end
