(* ===== verification/HabitatEngine.thy ===== *)
theory HabitatEngine
  imports HabitatEvents
begin

text \<open>
  \<open>habitat/migration.py\<close> (legacy features as objects), \<open>habitat/projection.py\<close> (the read-only projection) and
  \<open>habitat/engine.py\<close> (the sole writer of the habitat, with its indexes). \<open>math.hypot\<close> is the argument \<open>hypot\<close>.
  A call that mutates takes the engine last and returns the engine as it is afterwards.
\<close>

section \<open>Legacy features\<close>

record habitat_feature =
  hf_kind :: string
  hf_x :: flt
  hf_y :: flt
  hf_radius :: flt
  hf_chargeable :: bool
  hf_restable :: bool
  hf_inspectable :: bool
  hf_passable :: bool
  hf_occluded :: bool

definition OBJECT_KIND_BY_FEATURE_KIND :: "object_kind dict" where
  "OBJECT_KIND_BY_FEATURE_KIND =
     [(''rest'', REST_STATION), (''resource'', RESOURCE), (''inspect'', INSPECTABLE), (''hazard'', HAZARD),
      (''open'', OBSTACLE), (''novel_crystal'', PORTABLE_OBJECT), (''impossible_node'', OBSTACLE),
      (''noise_blink'', INSPECTABLE), (''spurious_blink'', INSPECTABLE)]"

fun feature_kind_by_object_kind :: "object_kind \<Rightarrow> string" where
  "feature_kind_by_object_kind REST_STATION = ''rest''"
| "feature_kind_by_object_kind RESOURCE = ''resource''"
| "feature_kind_by_object_kind INSPECTABLE = ''inspect''"
| "feature_kind_by_object_kind HAZARD = ''hazard''"
| "feature_kind_by_object_kind OBSTACLE = ''hazard''"
| "feature_kind_by_object_kind PORTABLE_OBJECT = ''resource''"
| "feature_kind_by_object_kind ACTIVATABLE_OBJECT = ''inspect''"
| "feature_kind_by_object_kind SCENERY = ''open''"
| "feature_kind_by_object_kind CHARGE_STATION = ''resource''"
| "feature_kind_by_object_kind SOCIAL_ENTITY = ''partner''"

definition legacy_object_id_for_feature :: "string \<Rightarrow> int \<Rightarrow> string" where
  "legacy_object_id_for_feature kind index = ''feature:'' @ kind @ '':'' @ int_str index"

definition object_kind_for_feature_kind :: "string \<Rightarrow> object_kind" where
  "object_kind_for_feature_kind kind =
     (case map_of OBJECT_KIND_BY_FEATURE_KIND kind of None \<Rightarrow> INSPECTABLE | Some k \<Rightarrow> k)"

definition feature_kind_from_object :: "habitat_object \<Rightarrow> string" where
  "feature_kind_from_object ob = feature_kind_by_object_kind (ho_object_kind ob)"

definition habitat_object_from_legacy_feature ::
  "hash_env \<Rightarrow> habitat_feature \<Rightarrow> string option \<Rightarrow> string \<Rightarrow> int \<Rightarrow> habitat_object" where
  "habitat_object_from_legacy_feature E feature object_id zone_id index =
     (let kind = hf_kind feature;
          oid = or_fresh object_id (legacy_object_id_for_feature kind index);
          object_kind = object_kind_for_feature_kind kind;
          state = (if object_kind = RESOURCE then ResourceState (Fin 1)
            else if object_kind = REST_STATION then StationState ''REST'' (hf_restable feature)
            else IdleState);
          base = make_object E oid object_kind (FreeLocation (hf_x feature) (hf_y feature) zone_id) state
            (hf_radius feature) [];
          updated = base\<lparr>ho_passable := hf_passable feature, ho_occluded := hf_occluded feature,
            ho_portable := (object_kind = PORTABLE_OBJECT)\<rparr>
      in with_object_state_hash E None
           (updated\<lparr>ho_definition_hash := compute_object_definition_hash E updated\<rparr>))"

section \<open>Projection\<close>

record position =
  po_x :: flt
  po_y :: flt

record body_pose_view =
  bp_body_instance_id :: string
  bp_body_pose_version :: int
  bp_position :: position
  bp_collision_radius :: flt
  bp_attachment_generation :: int

record habitat_snapshot =
  sn_habitat_id :: string
  sn_state_version :: int
  sn_state_hash :: string
  sn_definition_hash :: string
  sn_habitat_tick :: int
  sn_objects :: "habitat_object dict"
  sn_zones :: "zone dict"

record immutable_habitat_feature =
  if_kind :: string
  if_x :: flt
  if_y :: flt
  if_radius :: flt
  if_chargeable :: bool
  if_restable :: bool
  if_inspectable :: bool
  if_passable :: bool
  if_occluded :: bool
  if_object_id :: string
  if_source_state_version :: int
  if_source_object_version :: int
  if_source_state_hash :: string

record immutable_partner_view =
  ip_x :: flt
  ip_y :: flt
  ip_occluded :: bool
  ip_source_state_version :: int
  ip_source_object_version :: int
  ip_source_state_hash :: string

record immutable_habitat_projection =
  pj_width :: flt
  pj_height :: flt
  pj_features :: "immutable_habitat_feature list"
  pj_partners :: "immutable_partner_view list"
  pj_blocked_cells :: "(flt \<times> flt \<times> flt) list"
  pj_delayed_consequence_ticks :: int
  pj_misleading_correlation :: bool
  pj_state_version :: int
  pj_state_hash :: string
  pj_habitat_id :: string

definition feature_flags_for_object :: "habitat_object \<Rightarrow> bool \<times> bool \<times> bool" where
  "feature_flags_for_object ob =
     (ho_object_kind ob \<in> {RESOURCE, CHARGE_STATION, PORTABLE_OBJECT},
      ho_object_kind ob = REST_STATION,
      ho_object_kind ob \<in> {INSPECTABLE, ACTIVATABLE_OBJECT, PORTABLE_OBJECT})"

text \<open>A view is a feature (\<open>Inl\<close>) or a partner (\<open>Inr\<close>).\<close>

definition project_object ::
  "int \<Rightarrow> string \<Rightarrow> body_pose_view option \<Rightarrow> habitat_object
    \<Rightarrow> (immutable_habitat_feature + immutable_partner_view) option" where
  "project_object state_version state_hash body_pose ob =
     (case (case ho_location ob of
         HeldByLocation _ _ _ \<Rightarrow> (case body_pose of None \<Rightarrow> None
           | Some pose \<Rightarrow> Some (po_x (bp_position pose), po_y (bp_position pose)))
       | FreeLocation x y _ \<Rightarrow> Some (x, y)) of
        None \<Rightarrow> None
      | Some (x, y) \<Rightarrow>
          (case (if ho_object_kind ob = SOCIAL_ENTITY
              then (case ho_state ob of SocialEntitySpatialState s \<Rightarrow> Some s | _ \<Rightarrow> None) else None) of
             Some s \<Rightarrow> Some (Inr \<lparr>ip_x = x, ip_y = y, ip_occluded = (ho_occluded ob \<or> \<not> se_active s),
               ip_source_state_version = state_version, ip_source_object_version = ho_object_version ob,
               ip_source_state_hash = state_hash\<rparr>)
           | None \<Rightarrow>
               let (chargeable, restable, inspectable) = feature_flags_for_object ob
               in Some (Inl \<lparr>if_kind = feature_kind_from_object ob, if_x = x, if_y = y,
                 if_radius = ho_collision_radius ob, if_chargeable = chargeable, if_restable = restable,
                 if_inspectable = inspectable, if_passable = ho_passable ob, if_occluded = ho_occluded ob,
                 if_object_id = ho_object_id ob, if_source_state_version = state_version,
                 if_source_object_version = ho_object_version ob, if_source_state_hash = state_hash\<rparr>)))"

definition lefts :: "('a + 'b) list \<Rightarrow> 'a list" where
  "lefts xs = List.map_filter (\<lambda>x. case x of Inl a \<Rightarrow> Some a | Inr _ \<Rightarrow> None) xs"

definition rights :: "('a + 'b) list \<Rightarrow> 'b list" where
  "rights xs = List.map_filter (\<lambda>x. case x of Inl _ \<Rightarrow> None | Inr b \<Rightarrow> Some b) xs"

definition project_features ::
  "habitat_snapshot \<Rightarrow> body_pose_view option \<Rightarrow> flt \<Rightarrow> flt \<Rightarrow> (flt \<times> flt \<times> flt) list \<Rightarrow> int \<Rightarrow> bool
    \<Rightarrow> immutable_habitat_projection" where
  "project_features sn body_pose width height blocked_cells delayed_consequence_ticks misleading_correlation =
     (let views = List.map_filter (\<lambda>(k, ob). project_object (sn_state_version sn) (sn_state_hash sn) body_pose ob)
            (sorted_items (sn_objects sn))
      in \<lparr>pj_width = width, pj_height = height, pj_features = lefts views, pj_partners = rights views,
          pj_blocked_cells = blocked_cells, pj_delayed_consequence_ticks = delayed_consequence_ticks,
          pj_misleading_correlation = misleading_correlation, pj_state_version = sn_state_version sn,
          pj_state_hash = sn_state_hash sn, pj_habitat_id = sn_habitat_id sn\<rparr>)"

definition validate_projection :: "immutable_habitat_projection \<Rightarrow> habitat_snapshot \<Rightarrow> unit res" where
  "validate_projection p sn =
     (if pj_state_version p \<noteq> sn_state_version sn then Inl (ProjectionMismatchError ''state_version_mismatch'')
      else if pj_state_hash p \<noteq> sn_state_hash sn then Inl (ProjectionMismatchError ''state_hash_mismatch'')
      else Inr ())"

definition projection_feature :: "immutable_habitat_projection \<Rightarrow> string \<Rightarrow> immutable_habitat_feature option" where
  "projection_feature p kind = List.find (\<lambda>f. if_kind f = kind) (pj_features p)"

fun nearest_loop ::
  "(flt \<Rightarrow> flt \<Rightarrow> flt) \<Rightarrow> string \<Rightarrow> flt \<Rightarrow> flt \<Rightarrow> immutable_habitat_feature list
    \<Rightarrow> immutable_habitat_feature option \<times> flt \<Rightarrow> immutable_habitat_feature option \<times> flt" where
  "nearest_loop hypot kind x y [] (best, best_d) = (best, best_d)"
| "nearest_loop hypot kind x y (f # fs) (best, best_d) =
     (if if_kind f \<noteq> kind then nearest_loop hypot kind x y fs (best, best_d)
      else let d = hypot (flt_sub (if_x f) x) (flt_sub (if_y f) y)
           in nearest_loop hypot kind x y fs (if flt_lt d best_d then (Some f, d) else (best, best_d)))"

definition projection_nearest ::
  "(flt \<Rightarrow> flt \<Rightarrow> flt) \<Rightarrow> immutable_habitat_projection \<Rightarrow> string \<Rightarrow> flt \<Rightarrow> flt
    \<Rightarrow> immutable_habitat_feature option \<times> flt" where
  "projection_nearest hypot p kind x y = nearest_loop hypot kind x y (pj_features p) (None, PInf)"

definition projection_to_state :: "immutable_habitat_projection \<Rightarrow> pyv" where
  "projection_to_state p = VDict
     [(''width'', VFlt (pj_width p)), (''height'', VFlt (pj_height p)),
      (''features'', VList (map (\<lambda>f. VDict
         [(''kind'', VStr (if_kind f)), (''x'', VFlt (if_x f)), (''y'', VFlt (if_y f)),
          (''radius'', VFlt (if_radius f)), (''chargeable'', VBool (if_chargeable f)),
          (''restable'', VBool (if_restable f)), (''inspectable'', VBool (if_inspectable f)),
          (''passable'', VBool (if_passable f)), (''occluded'', VBool (if_occluded f)),
          (''object_id'', VStr (if_object_id f)),
          (''source_state_version'', VInt (if_source_state_version f)),
          (''source_object_version'', VInt (if_source_object_version f)),
          (''source_state_hash'', VStr (if_source_state_hash f))]) (pj_features p))),
      (''blocked_cells'', VList (map (\<lambda>(a, b, c). v_flts [a, b, c]) (pj_blocked_cells p))),
      (''delayed_consequence_ticks'', VInt (pj_delayed_consequence_ticks p)),
      (''misleading_correlation'', VBool (pj_misleading_correlation p)),
      (''partners'', VList (map (\<lambda>v. VDict
         [(''x'', VFlt (ip_x v)), (''y'', VFlt (ip_y v)), (''occluded'', VBool (ip_occluded v)),
          (''source_state_version'', VInt (ip_source_state_version v)),
          (''source_object_version'', VInt (ip_source_object_version v)),
          (''source_state_hash'', VStr (ip_source_state_hash v))]) (pj_partners p))),
      (''state_version'', VInt (pj_state_version p)),
      (''state_hash'', VStr (pj_state_hash p)),
      (''habitat_id'', VStr (pj_habitat_id p))]"

section \<open>The engine\<close>

record habitat_engine =
  he_state :: habitat_state
  he_zone_free_object_count :: "int dict"
  he_zone_held_object_count :: "int dict"
  he_hold_index :: "(int \<times> string) list dict"
  he_free_spatial_index :: "(flt \<times> flt \<times> string) dict"
  he_last_body_poses :: "body_pose_view dict"

definition dget :: "'v \<Rightarrow> string \<Rightarrow> 'v dict \<Rightarrow> 'v" where
  "dget v k d = (case map_of d k of None \<Rightarrow> v | Some w \<Rightarrow> w)"

definition in_bounds :: "zone_bounds \<Rightarrow> flt \<Rightarrow> flt \<Rightarrow> bool" where
  "in_bounds b x y \<longleftrightarrow> flt_le (zb_x_min b) x \<and> flt_le x (zb_x_max b) \<and> flt_le (zb_y_min b) y \<and> flt_le y (zb_y_max b)"

definition zone_at :: "habitat_state \<Rightarrow> flt \<Rightarrow> flt \<Rightarrow> string option" where
  "zone_at s x y =
     (let matches = map fst (filter (\<lambda>(zone_id, zone). in_bounds (zn_bounds zone) x y) (hs_zones s))
      in if matches = [] then None else Some (hd (sort matches)))"

text \<open>One object's share of the indexes that \<open>_rebuild_indexes\<close> builds.\<close>

fun index_object ::
  "string \<times> habitat_object
    \<Rightarrow> int dict \<times> (int \<times> string) list dict \<times> (flt \<times> flt \<times> string) dict
    \<Rightarrow> int dict \<times> (int \<times> string) list dict \<times> (flt \<times> flt \<times> string) dict" where
  "index_object (object_id, obj) (free_count, holds, spatial) =
     (case ho_location obj of
        FreeLocation x y zone_id \<Rightarrow>
          (dput zone_id (dget 0 zone_id free_count + 1) free_count, holds, dput object_id (x, y, zone_id) spatial)
      | HeldByLocation holder _ slot \<Rightarrow>
          (free_count, dput holder (AList.update slot object_id (dget [] holder holds)) holds, spatial))"

text \<open>\<open>_apply_held_zone_counts\<close>: every zone starts at zero, then each held object whose holder has a known pose counts
  in the zone of that pose.\<close>

definition held_zone_counts :: "habitat_state \<Rightarrow> body_pose_view dict \<Rightarrow> int dict \<Rightarrow> int dict" where
  "held_zone_counts s body_poses counts =
     fold (\<lambda>(k, obj) acc.
         case ho_location obj of
           FreeLocation _ _ _ \<Rightarrow> acc
         | HeldByLocation holder _ _ \<Rightarrow>
             (case map_of body_poses holder of None \<Rightarrow> acc
              | Some pose \<Rightarrow>
                  (case zone_at s (po_x (bp_position pose)) (po_y (bp_position pose)) of None \<Rightarrow> acc
                   | Some zone_id \<Rightarrow> dput zone_id (dget 0 zone_id acc + 1) acc)))
       (hs_objects s) (fold (\<lambda>(zone_id, _) acc. dput zone_id 0 acc) (hs_zones s) counts)"

definition rebuild_indexes :: "habitat_engine \<Rightarrow> habitat_engine" where
  "rebuild_indexes t =
     (let zeros = map (\<lambda>(zone_id, _). (zone_id, 0)) (hs_zones (he_state t));
          (free_count, holds, spatial) = fold index_object (hs_objects (he_state t)) (zeros, [], [])
      in t\<lparr>he_zone_free_object_count := free_count,
           he_zone_held_object_count := held_zone_counts (he_state t) (he_last_body_poses t) zeros,
           he_hold_index := holds, he_free_spatial_index := spatial\<rparr>)"

definition new_habitat_engine :: "habitat_state \<Rightarrow> habitat_engine" where
  "new_habitat_engine s = rebuild_indexes
     \<lparr>he_state = s, he_zone_free_object_count = [], he_zone_held_object_count = [], he_hold_index = [],
      he_free_spatial_index = [], he_last_body_poses = []\<rparr>"

definition get_zone :: "habitat_engine \<Rightarrow> string \<Rightarrow> zone option" where
  "get_zone t zone_id = map_of (hs_zones (he_state t)) zone_id"

definition connected_zones :: "habitat_engine \<Rightarrow> string \<Rightarrow> string list" where
  "connected_zones t zone_id =
     sort (remdups (List.map_filter (\<lambda>c.
         if zc_from_zone_id c = zone_id then Some (zc_to_zone_id c)
         else if zc_to_zone_id c = zone_id then Some (zc_from_zone_id c) else None)
       (hs_zone_connections (he_state t))))"

definition get_object :: "habitat_engine \<Rightarrow> string \<Rightarrow> habitat_object option" where
  "get_object t object_id = map_of (hs_objects (he_state t)) object_id"

text \<open>Held objects never hit: without \<open>free_only\<close> the loop skips them all the same.\<close>

definition query_nearby ::
  "(flt \<Rightarrow> flt \<Rightarrow> flt) \<Rightarrow> habitat_engine \<Rightarrow> flt \<Rightarrow> flt \<Rightarrow> flt \<Rightarrow> bool \<Rightarrow> string list" where
  "query_nearby hypot t x y radius free_only =
     map snd (sort (List.map_filter (\<lambda>(object_id, obj).
         case ho_location obj of
           HeldByLocation _ _ _ \<Rightarrow> None
         | FreeLocation ox oy _ \<Rightarrow>
             let d = hypot (flt_sub ox x) (flt_sub oy y)
             in if flt_le d (flt_add radius (ho_collision_radius obj)) then Some (d, object_id) else None)
       (hs_objects (he_state t))))"

definition check_collision ::
  "(flt \<Rightarrow> flt \<Rightarrow> flt) \<Rightarrow> habitat_engine \<Rightarrow> flt \<Rightarrow> position \<Rightarrow> bool" where
  "check_collision hypot t radius pos =
     (\<exists>(object_id, obj) \<in> set (hs_objects (he_state t)).
        case ho_location obj of
          HeldByLocation _ _ _ \<Rightarrow> False
        | FreeLocation ox oy _ \<Rightarrow>
            \<not> ho_passable obj
            \<and> flt_lt (hypot (flt_sub ox (po_x pos)) (flt_sub oy (po_y pos))) (flt_add radius (ho_collision_radius obj)))"

definition check_range ::
  "(flt \<Rightarrow> flt \<Rightarrow> flt) \<Rightarrow> habitat_engine \<Rightarrow> body_pose_view \<Rightarrow> flt \<Rightarrow> string \<Rightarrow> bool" where
  "check_range hypot t body_pose reach_radius object_id =
     (case get_object t object_id of
        None \<Rightarrow> False
      | Some obj \<Rightarrow>
          let px = po_x (bp_position body_pose); py = po_y (bp_position body_pose)
          in case (case ho_location obj of
                FreeLocation ox oy _ \<Rightarrow> Some (ox, oy)
              | HeldByLocation holder _ _ \<Rightarrow>
                  if holder \<noteq> bp_body_instance_id body_pose then None else Some (px, py)) of
               None \<Rightarrow> False
             | Some (ox, oy) \<Rightarrow>
                 flt_le (hypot (flt_sub ox px) (flt_sub oy py)) (flt_add reach_radius (ho_collision_radius obj)))"

definition held_by :: "habitat_engine \<Rightarrow> string \<Rightarrow> string list" where
  "held_by t body_instance_id = map snd (sort_key fst (dget [] body_instance_id (he_hold_index t)))"

definition authoritative_social_entities :: "habitat_engine \<Rightarrow> habitat_object list" where
  "authoritative_social_entities t =
     filter (\<lambda>ob. ho_object_kind ob = SOCIAL_ENTITY
        \<and> (case ho_state ob of SocialEntitySpatialState _ \<Rightarrow> True | _ \<Rightarrow> False))
       (map snd (sorted_items (hs_objects (he_state t))))"

definition snapshot_view :: "habitat_engine \<Rightarrow> habitat_snapshot" where
  "snapshot_view t =
     \<lparr>sn_habitat_id = hs_habitat_id (he_state t), sn_state_version = hs_state_version (he_state t),
      sn_state_hash = hs_state_hash (he_state t), sn_definition_hash = hs_definition_hash (he_state t),
      sn_habitat_tick = hs_habitat_tick (he_state t), sn_objects = hs_objects (he_state t),
      sn_zones = hs_zones (he_state t)\<rparr>"

definition engine_project ::
  "body_pose_view option \<Rightarrow> flt \<Rightarrow> flt \<Rightarrow> (flt \<times> flt \<times> flt) list \<Rightarrow> int \<Rightarrow> bool
    \<Rightarrow> (habitat_engine, immutable_habitat_projection) method" where
  "engine_project body_pose width height blocked_cells delayed_consequence_ticks misleading_correlation t =
     (let t' = (case body_pose of None \<Rightarrow> t
          | Some pose \<Rightarrow>
              let poses = dput (bp_body_instance_id pose) pose (he_last_body_poses t)
              in t\<lparr>he_last_body_poses := poses,
                   he_zone_held_object_count :=
                     held_zone_counts (he_state t) poses (he_zone_held_object_count t)\<rparr>)
      in (Inr (project_features (snapshot_view t') body_pose width height blocked_cells
            delayed_consequence_ticks misleading_correlation), t'))"

definition engine_validate_projection :: "habitat_engine \<Rightarrow> immutable_habitat_projection \<Rightarrow> unit res" where
  "engine_validate_projection t p = validate_projection p (snapshot_view t)"

section \<open>Writing\<close>

definition commit_object_mutation ::
  "hash_env \<Rightarrow> string \<Rightarrow> (habitat_object \<Rightarrow> habitat_object res) \<Rightarrow> (habitat_engine, unit) method" where
  "commit_object_mutation E object_id mutate_fn t =
     (case map_of (hs_objects (he_state t)) object_id of
        None \<Rightarrow> (Inl (MutationRejected (''missing_object:'' @ object_id)), t)
      | Some obj \<Rightarrow>
          (case apply_committed_object_mutation E mutate_fn obj of
             Inl e \<Rightarrow> (Inl e, t)
           | Inr updated \<Rightarrow>
               (Inr (), rebuild_indexes (t\<lparr>he_state := with_habitat_hash E
                  ((he_state t)\<lparr>hs_objects := dput object_id updated (hs_objects (he_state t)),
                     hs_state_version := hs_state_version (he_state t) + 1\<rparr>)\<rparr>))))"

definition commit_object_creation ::
  "hash_env \<Rightarrow> (nat \<Rightarrow> string) \<Rightarrow> habitat_object \<Rightarrow> string option \<Rightarrow> string option \<Rightarrow> string option
    \<Rightarrow> (habitat_engine, pyv) method" where
  "commit_object_creation E fresh obj event_id transaction_id request_id t =
     (if map_of (hs_objects (he_state t)) (ho_object_id obj) \<noteq> None
      then (Inl (MutationRejected (''duplicate_object:'' @ ho_object_id obj)), t)
      else
        let before = he_state t;
            objects = dput (ho_object_id obj) obj (hs_objects before);
            after = with_habitat_hash E (before\<lparr>hs_objects := objects,
              hs_definition_hash := compute_habitat_definition_hash E (before\<lparr>hs_objects := objects\<rparr>),
              hs_state_version := hs_state_version before + 1\<rparr>)
        in (build_habitat_event fresh (Some before) after HABITAT_OBJECT_CREATED event_id
              [(''object'', object_to_pyv obj)]
              (no_args\<lparr>ea_transaction_id := transaction_id, ea_request_id := request_id\<rparr>),
            rebuild_indexes (t\<lparr>he_state := after\<rparr>)))"

definition commit_object_visibility ::
  "hash_env \<Rightarrow> (nat \<Rightarrow> string) \<Rightarrow> string \<Rightarrow> bool \<Rightarrow> string option \<Rightarrow> string option \<Rightarrow> string option
    \<Rightarrow> (habitat_engine, pyv) method" where
  "commit_object_visibility E fresh object_id occluded event_id transaction_id request_id t =
     (case map_of (hs_objects (he_state t)) object_id of
        None \<Rightarrow> (Inl (MutationRejected (''missing_object:'' @ object_id)), t)
      | Some obj \<Rightarrow>
          let before = he_state t;
              updated0 = obj\<lparr>ho_object_version := ho_object_version obj + 1, ho_occluded := occluded,
                ho_object_state_hash := []\<rparr>;
              updated = updated0\<lparr>ho_object_state_hash := compute_object_state_hash E updated0\<rparr>;
              after = with_habitat_hash E (before\<lparr>hs_objects := dput object_id updated (hs_objects before),
                hs_state_version := hs_state_version before + 1\<rparr>)
          in (build_object_visibility_event fresh before after object_id event_id
                (no_args\<lparr>ea_transaction_id := transaction_id, ea_request_id := request_id\<rparr>),
              rebuild_indexes (t\<lparr>he_state := after\<rparr>)))"

definition relocate ::
  "habitat_state \<Rightarrow> flt \<Rightarrow> flt \<Rightarrow> string option \<Rightarrow> habitat_object \<Rightarrow> habitat_object res" where
  "relocate s x y zone_id obj =
     (case ho_location obj of
        HeldByLocation _ _ _ \<Rightarrow> Inl (MutationRejected ''not_free_object'')
      | FreeLocation _ _ old_zone \<Rightarrow>
          let zid = or_fresh zone_id (or_fresh (zone_at s x y) old_zone)
          in Inr (obj\<lparr>ho_location := FreeLocation x y zid\<rparr>))"

definition commit_free_location ::
  "hash_env \<Rightarrow> string \<Rightarrow> flt \<Rightarrow> flt \<Rightarrow> string option \<Rightarrow> (habitat_engine, unit) method" where
  "commit_free_location E object_id x y zone_id t =
     commit_object_mutation E object_id (relocate (he_state t) x y zone_id) t"

end
