(* ===== verification/HabitatReplay.thy ===== *)
theory HabitatReplay
  imports HabitatEngine
begin

text \<open>
  What the habitat guarantees: stored events apply to exactly the state their builder announced, the engine's writes replay to
  the engine's state, repeated events change nothing, a replayed habitat is sealed, and the engine's indexes are exact in
  every engine a program can reach. The properties come last.
\<close>

section \<open>Stored events\<close>

text \<open>An event as the ledger stores and returns it: canonical.\<close>

lemma stored_parts:
  assumes "event_type \<in> set HABITAT_EVENT_TYPES"
  shows "event_parts (canonical (habitat_event event_id event_type payload)) event_type (canonical (VDict payload))"
  using assms by (simp add: event_parts_def habitat_event_def get_or_canonical or_else_def del: plain_lookups)
    (auto simp: sorted_items_def)

lemma apply_parts:
  assumes "event_parts event event_type payload"
  shows "apply_habitat_event E state event =
     andThen (check_order state event_type payload) (\<lambda>already.
     case already of Some s \<Rightarrow> Inr s | None \<Rightarrow>
     if event_type = HABITAT_BODY_ZONE_TRANSITIONED then
       andThen (fld payload ''prior_state_version'' as_int) (\<lambda>prior_version.
       andThen (fld payload ''new_state_version'' as_int) (\<lambda>new_version.
       if prior_version \<noteq> new_version
       then Inl (HabitatEventError ''zone_transition_must_not_advance_version'')
       else andThen (item payload ''prior_state_hash'') (\<lambda>prior_hash.
       andThen (item payload ''new_state_hash'') (\<lambda>new_hash.
       if prior_hash \<noteq> new_hash
       then Inl (HabitatEventError ''zone_transition_must_not_change_hash'')
       else case state of
         None \<Rightarrow> Inl (HabitatEventError ''invalid_habitat_event_order'')
       | Some s \<Rightarrow> Inr s))))
     else
       andThen (apply_mutation E state event_type payload) (\<lambda>new_state.
       andThen (fld payload ''new_state_version'' as_int) (\<lambda>new_version.
       if hs_state_version new_state \<noteq> new_version
       then Inl (HabitatEventError ''event_new_state_version_mismatch'')
       else andThen (item payload ''new_state_hash'') (\<lambda>new_hash.
       if new_hash \<noteq> VStr (hs_state_hash new_state)
       then Inl (HabitatEventError ''event_new_state_hash_mismatch'')
       else Inr new_state))))"
  using assms by (auto simp: event_parts_def apply_habitat_event_def Let_def)

lemma dict_update_simps [simp]:
  "dict_update d [] = d"
  "dict_update d ((k, v) # extra) = dict_update (dput k v d) extra"
  by (simp_all add: dict_update_def)

lemma envelope_lookup:
  "map_of (envelope_fields fresh before after args) k =
     (if k = ''habitat_id'' then Some (VStr (hs_habitat_id after))
      else if k = ''transaction_id'' then Some (VStr (or_fresh (ea_transaction_id args) (fresh 0)))
      else if k = ''prior_state_version''
      then Some (VInt (case before of None \<Rightarrow> INIT_PRIOR_STATE_VERSION | Some s \<Rightarrow> hs_state_version s))
      else if k = ''new_state_version'' then Some (VInt (hs_state_version after))
      else if k = ''habitat_tick''
      then Some (VInt (case ea_habitat_tick args of None \<Rightarrow> hs_habitat_tick after | Some n \<Rightarrow> n))
      else if k = ''request_id'' then Some (VStr (or_fresh (ea_request_id args) (fresh 1)))
      else if k = ''prior_state_hash''
      then Some (VStr (case before of None \<Rightarrow> INIT_PRIOR_STATE_HASH | Some s \<Rightarrow> hs_state_hash s))
      else if k = ''new_state_hash'' then Some (VStr (hs_state_hash after))
      else if k = ''definition_hash'' then Some (VStr (hs_definition_hash after))
      else if k = ''execution_id'' then map_option VStr (ea_execution_id args)
      else if k = ''actor_ref'' then map_option VStr (ea_actor_ref args)
      else if k = ''target_ref'' then map_option VStr (ea_target_ref args)
      else None)"
  by (auto simp: envelope_fields_def Let_def opt_field_def map_add_def split: option.splits)

lemma envelope_dwf [simp]: "dwf (envelope_fields fresh before after args)"
  by (auto simp: envelope_fields_def Let_def opt_field_def split: option.splits)

text \<open>The order check accepts the envelope of a step from \<open>before\<close> to a later version of the same habitat.\<close>

lemma order_accepted:
  assumes "dwf d" and "map_of d ''habitat_id'' = Some (VStr (hs_habitat_id s))"
    and "map_of d ''prior_state_version'' = Some (VInt (hs_state_version s))"
    and "map_of d ''prior_state_hash'' = Some (VStr (hs_state_hash s))"
    and "map_of d ''new_state_version'' = Some (VInt v)" and "v \<noteq> hs_state_version s"
  shows "check_order (Some s) event_type (canonical (VDict d)) = Inr None"
  using assms by (simp add: check_order_def read_canonical del: plain_lookups)

text \<open>A stored event that announces what its mutation gives is applied.\<close>

lemma stored_applies:
  assumes "event_type \<in> set HABITAT_EVENT_TYPES" and "event_type \<noteq> HABITAT_BODY_ZONE_TRANSITIONED"
    and "dwf d" and "map_of d ''habitat_id'' = Some (VStr (hs_habitat_id s))"
    and "map_of d ''prior_state_version'' = Some (VInt (hs_state_version s))"
    and "map_of d ''prior_state_hash'' = Some (VStr (hs_state_hash s))"
    and "map_of d ''new_state_version'' = Some (VInt (hs_state_version t))"
    and "hs_state_version t \<noteq> hs_state_version s"
    and "map_of d ''new_state_hash'' = Some (VStr (hs_state_hash t))"
    and "apply_mutation E (Some s) event_type (canonical (VDict d)) = Inr t"
  shows "apply_habitat_event E (Some s) (canonical (habitat_event event_id event_type d)) = Inr t"
proof -
  have "check_order (Some s) event_type (canonical (VDict d)) = Inr None"
    using assms by (intro order_accepted) auto
  then show ?thesis
    using assms by (simp add: apply_parts [OF stored_parts] read_canonical del: plain_lookups)
qed

section \<open>The engine's own writes\<close>

text \<open>A write that leaves a ledger event: creation of an object or a change of its occlusion.\<close>

datatype ledger_write =
    CreateObject habitat_object "nat \<Rightarrow> string" "string option" "string option" "string option"
  | SetOccluded string bool "nat \<Rightarrow> string" "string option" "string option" "string option"

fun ledger_write_step :: "hash_env \<Rightarrow> ledger_write \<Rightarrow> (habitat_engine, pyv) method" where
  "ledger_write_step E (CreateObject ob fresh event_id transaction_id request_id) t =
     commit_object_creation E fresh ob event_id transaction_id request_id t"
| "ledger_write_step E (SetOccluded object_id occluded fresh event_id transaction_id request_id) t =
     commit_object_visibility E fresh object_id occluded event_id transaction_id request_id t"

text \<open>The events of the writes that did not raise, in order, and the engine at the end.\<close>

fun ledger_writes :: "hash_env \<Rightarrow> ledger_write list \<Rightarrow> habitat_engine \<Rightarrow> pyv list \<times> habitat_engine" where
  "ledger_writes E [] t = ([], t)"
| "ledger_writes E (w # ws) t =
     (let (r, t') = ledger_write_step E w t; (events, u) = ledger_writes E ws t'
      in (case r of Inl e \<Rightarrow> events | Inr event \<Rightarrow> event # events, u))"

lemma with_hash_again [simp]: "with_habitat_hash E (s\<lparr>hs_state_hash := h\<rparr>) = with_habitat_hash E s"
  by (simp add: with_habitat_hash_def)

lemma bump_then_definition:
  "with_habitat_hash E ((bump_state E s)\<lparr>hs_definition_hash := d\<rparr>)
    = with_habitat_hash E (s\<lparr>hs_definition_hash := d, hs_state_version := hs_state_version s + 1\<rparr>)"
  by (cases s) (simp add: bump_state_def with_habitat_hash_def Let_def)

lemma rebuild_state [simp]: "he_state (rebuild_indexes t) = he_state t"
  by (simp add: rebuild_indexes_def Let_def split: prod.split)

lemma creation_event_applies:
  assumes "commit_object_creation E fresh ob event_id transaction_id request_id t = (Inr event, u)"
  shows "apply_habitat_event E (Some (he_state t)) (canonical event) = Inr (he_state u)"
proof -
  let ?s = "he_state t"
  let ?objects = "dput (ho_object_id ob) ob (hs_objects ?s)"
  let ?after = "with_habitat_hash E (?s\<lparr>hs_objects := ?objects,
      hs_definition_hash := compute_habitat_definition_hash E (?s\<lparr>hs_objects := ?objects\<rparr>),
      hs_state_version := hs_state_version ?s + 1\<rparr>)"
  let ?args = "no_args\<lparr>ea_transaction_id := transaction_id, ea_request_id := request_id\<rparr>"
  let ?d = "dict_update (envelope_fields fresh (Some ?s) ?after ?args) [(''object'', object_to_pyv ob)]"
  have ev: "event = habitat_event (or_fresh event_id (fresh 2)) HABITAT_OBJECT_CREATED ?d"
    and u: "he_state u = ?after"
    using assms
    by (auto simp: commit_object_creation_def build_habitat_event_def HABITAT_EVENT_TYPES_def Let_def split: if_splits)
  have "apply_mutation E (Some ?s) HABITAT_OBJECT_CREATED (canonical (VDict ?d)) = Inr ?after"
    by (simp add: apply_mutation_def habitat_event_names read_canonical dwf_dput object_roundtrip Let_def
        bump_then_definition del: plain_lookups)
  then show ?thesis
    unfolding ev u
    by (intro stored_applies) (simp_all add: HABITAT_EVENT_TYPES_def habitat_event_names envelope_lookup dwf_dput)
qed

lemma visibility_event_applies:
  assumes "commit_object_visibility E fresh i occ event_id transaction_id request_id t = (Inr event, u)"
  shows "apply_habitat_event E (Some (he_state t)) (canonical event) = Inr (he_state u)"
proof -
  let ?s = "he_state t"
  obtain ob where ob: "map_of (hs_objects ?s) i = Some ob"
    using assms by (auto simp: commit_object_visibility_def split: option.splits)
  let ?new = "with_object_state_hash E (Some (ho_object_version ob + 1)) (ob\<lparr>ho_occluded := occ\<rparr>)"
  let ?after = "with_habitat_hash E (?s\<lparr>hs_objects := dput i ?new (hs_objects ?s),
      hs_state_version := hs_state_version ?s + 1\<rparr>)"
  let ?args = "no_args\<lparr>ea_transaction_id := transaction_id, ea_request_id := request_id\<rparr>"
  let ?d = "dict_update (envelope_fields fresh (Some ?s) ?after ?args)
      [(''object_id'', VStr i), (''occluded'', VBool occ), (''visibility'', VStr (ho_visibility ob))]"
  have new: "?new = (let b = ob\<lparr>ho_object_version := ho_object_version ob + 1, ho_occluded := occ, ho_object_state_hash := []\<rparr>
      in b\<lparr>ho_object_state_hash := compute_object_state_hash E b\<rparr>)"
    by (cases ob) (simp add: with_object_state_hash_def Let_def)
  have seen: "ho_occluded ?new = occ" "ho_visibility ?new = ho_visibility ob"
    by (simp_all add: with_object_state_hash_def Let_def)
  have u: "he_state u = ?after"
    and ev: "build_object_visibility_event fresh ?s ?after i event_id ?args = Inr event"
    using assms ob unfolding new by (auto simp: commit_object_visibility_def Let_def)
  have ev: "event = habitat_event (or_fresh event_id (fresh 2)) HABITAT_OBJECT_VISIBILITY_CHANGED ?d"
    using ev seen by (simp add: build_object_visibility_event_def build_habitat_event_def HABITAT_EVENT_TYPES_def)
  have "apply_mutation E (Some ?s) HABITAT_OBJECT_VISIBILITY_CHANGED (canonical (VDict ?d)) = Inr ?after"
    using ob
    by (simp add: apply_mutation_def habitat_event_names read_canonical dwf_dput Let_def mutate_object_def
        change_visibility_def apply_committed_object_mutation_def bump_state_def del: plain_lookups)
  then show ?thesis
    unfolding ev u
    by (intro stored_applies) (simp_all add: HABITAT_EVENT_TYPES_def habitat_event_names envelope_lookup dwf_dput)
qed

lemma writes_replay_step:
  assumes "ledger_write_step E w t = (Inr event, u)"
  shows "replay_step E (Some (he_state t)) (canonical event) = Inr (Some (he_state u))"
  using assms creation_event_applies visibility_event_applies
  by (cases w) (auto simp: replay_step_def)

lemma writes_error_state:
  assumes "ledger_write_step E w t = (Inl e, u)"
  shows "he_state u = he_state t"
  using assms
  by (cases w) (auto simp: commit_object_creation_def commit_object_visibility_def build_habitat_event_def
      build_object_visibility_event_def HABITAT_EVENT_TYPES_def Let_def split: if_splits option.splits)

lemma writes_replay:
  "foldE (replay_step E) (Some (he_state t)) (map canonical (fst (ledger_writes E ws t)))
    = Inr (Some (he_state (snd (ledger_writes E ws t))))"
proof (induction ws arbitrary: t)
  case Nil
  then show ?case by simp
next
  case (Cons w ws)
  obtain r t' where st: "ledger_write_step E w t = (r, t')" by (cases "ledger_write_step E w t")
  obtain events u where rest: "ledger_writes E ws t' = (events, u)" by (cases "ledger_writes E ws t'")
  have tail: "foldE (replay_step E) (Some (he_state t')) (map canonical events) = Inr (Some (he_state u))"
    using Cons.IH [of t'] rest by simp
  show ?case
  proof (cases r)
    case (Inl e)
    then show ?thesis using tail st rest writes_error_state [of E w t e t'] by simp
  next
    case (Inr event)
    then show ?thesis using tail st rest writes_replay_step [of E w t event t'] by simp
  qed
qed

section \<open>The indexes\<close>

lemma dget_dput [simp]: "dget v k (dput k' w d) = (if k = k' then w else dget v k d)"
  by (simp add: dget_def)

definition free_in :: "string \<Rightarrow> string \<times> habitat_object \<Rightarrow> bool" where
  "free_in z p = (case ho_location (snd p) of FreeLocation _ _ z' \<Rightarrow> z' = z | HeldByLocation _ _ _ \<Rightarrow> False)"

text \<open>Who holds what: the later object wins a slot.\<close>

definition hold_entry :: "string \<times> habitat_object \<Rightarrow> ((string \<times> int) \<times> string) option" where
  "hold_entry p = (case ho_location (snd p) of FreeLocation _ _ _ \<Rightarrow> None
     | HeldByLocation holder _ slot \<Rightarrow> Some ((holder, slot), fst p))"

definition hold_table :: "habitat_object dict \<Rightarrow> ((string \<times> int) \<times> string) list" where
  "hold_table objects = rev (List.map_filter hold_entry objects)"

definition free_place :: "habitat_object \<Rightarrow> (flt \<times> flt \<times> string) option" where
  "free_place ob = (case ho_location ob of FreeLocation x y z \<Rightarrow> Some (x, y, z) | HeldByLocation _ _ _ \<Rightarrow> None)"

lemma index_fold_free:
  "dget 0 z (fst (fold index_object objs acc)) = dget 0 z (fst acc) + int (length (filter (free_in z) objs))"
proof (induction objs arbitrary: acc)
  case (Cons p objs)
  obtain i ob f h s where "p = (i, ob)" "acc = (f, h, s)" by (metis prod_cases3 surj_pair)
  then show ?case by (cases "ho_location ob") (simp_all add: Cons.IH free_in_def)
qed simp

lemma index_fold_spatial:
  "dwf objs \<Longrightarrow> map_of (snd (snd (fold index_object objs acc))) i =
     (case Option.bind (map_of objs i) free_place of None \<Rightarrow> map_of (snd (snd acc)) i | Some p \<Rightarrow> Some p)"
proof (induction objs arbitrary: acc)
  case (Cons p objs)
  obtain k ob f h s where p: "p = (k, ob)" "acc = (f, h, s)" by (metis prod_cases3 surj_pair)
  have "k = i \<Longrightarrow> map_of objs i = None" using Cons.prems p by (simp add: map_of_eq_None_iff)
  then show ?case
    using Cons.prems p by (cases "ho_location ob") (auto simp: Cons.IH free_place_def split: option.splits)
qed simp

lemma index_fold_holds:
  "map_of (dget [] b (fst (snd (fold index_object objs acc)))) n =
     (case map_of (hold_table objs) (b, n) of None \<Rightarrow> map_of (dget [] b (fst (snd acc))) n | Some i \<Rightarrow> Some i)"
proof (induction objs arbitrary: acc)
  case Nil
  then show ?case by (simp add: hold_table_def List.map_filter_def)
next
  case (Cons p objs)
  obtain k ob f h s where p: "p = (k, ob)" "acc = (f, h, s)" by (metis prod_cases3 surj_pair)
  then show ?case
    by (cases "ho_location ob")
      (auto simp: Cons.IH hold_table_def hold_entry_def List.map_filter_simps map_add_def update_conv'
        split: option.splits)
qed

text \<open>The held objects whose holder was last seen in zone \<open>z\<close>.\<close>

definition held_in :: "habitat_state \<Rightarrow> body_pose_view dict \<Rightarrow> string \<Rightarrow> string \<times> habitat_object \<Rightarrow> bool" where
  "held_in s poses z p =
     (case ho_location (snd p) of FreeLocation _ _ _ \<Rightarrow> False
      | HeldByLocation holder _ _ \<Rightarrow>
          (case map_of poses holder of None \<Rightarrow> False
           | Some pose \<Rightarrow> zone_at s (po_x (bp_position pose)) (po_y (bp_position pose)) = Some z))"

lemma hd_sort_mem: "xs \<noteq> [] \<Longrightarrow> hd (sort xs) \<in> set xs"
  by (metis hd_in_set set_empty set_sort)

lemma zone_at_zone: "zone_at s x y = Some z \<Longrightarrow> z \<in> fst ` set (hs_zones s)"
  using hd_sort_mem [of "map fst (filter (\<lambda>(zone_id, zone). in_bounds (zn_bounds zone) x y) (hs_zones s))"]
  by (auto simp: zone_at_def Let_def split: if_splits)

lemma zero_fold: "dget 0 z (fold (\<lambda>(zone_id, w) acc. dput zone_id 0 acc) zs counts) =
    (if z \<in> fst ` set zs then 0 else dget (0 :: int) z counts)"
  by (induction zs arbitrary: counts) auto

lemma held_counts:
  "dget 0 z (held_zone_counts s poses counts) =
     (if z \<in> fst ` set (hs_zones s) then 0 else dget 0 z counts) + int (length (filter (held_in s poses z) (hs_objects s)))"
proof -
  have "dget 0 z (fold (\<lambda>(k, obj) acc. case ho_location obj of FreeLocation _ _ _ \<Rightarrow> acc
         | HeldByLocation holder _ _ \<Rightarrow> (case map_of poses holder of None \<Rightarrow> acc
              | Some pose \<Rightarrow> (case zone_at s (po_x (bp_position pose)) (po_y (bp_position pose)) of None \<Rightarrow> acc
                   | Some zone_id \<Rightarrow> dput zone_id (dget 0 zone_id acc + 1) acc))) objs acc)
      = dget 0 z acc + int (length (filter (held_in s poses z) objs))" for objs :: "habitat_object dict" and acc
    by (induction objs arbitrary: acc) (auto simp: held_in_def split: object_location.splits option.splits)
  then show ?thesis by (simp add: held_zone_counts_def zero_fold)
qed

lemma no_zone_none_held:
  assumes "z \<notin> fst ` set (hs_zones s)"
  shows "filter (held_in s poses z) objs = []"
  using assms zone_at_zone by (fastforce simp: filter_empty_conv held_in_def split: object_location.splits option.splits)

section \<open>The first event\<close>

lemma stored_initial:
  "canonical (VDict (dput ''initial_state'' v (envelope_fields fresh before after args)))
    = canonical (VDict (dict_update (envelope_fields fresh before after args) [(''initial_state'', v)]))"
  by simp

text \<open>The initial event of a habitat gives it back at version 0, when its definition hash is the right one.\<close>

definition genesis :: "hash_env \<Rightarrow> habitat_state \<Rightarrow> habitat_state" where
  "genesis E s = sorted_habitat (with_habitat_hash E (s\<lparr>hs_state_version := 0\<rparr>))"

lemma sorted_with_hash: "sorted_habitat (with_habitat_hash E s) = with_habitat_hash E (sorted_habitat s)"
proof -
  have "compute_habitat_hash E (sorted_habitat (s\<lparr>hs_state_hash := []\<rparr>)) = compute_habitat_hash E (s\<lparr>hs_state_hash := []\<rparr>)"
    by (rule sorted_habitat_hash)
  then show ?thesis by (cases s) (simp add: with_habitat_hash_def sorted_habitat_def Let_def)
qed

lemma initial_event_applies:
  assumes "hs_definition_hash s = compute_habitat_definition_hash E s"
  shows "apply_habitat_event E None (canonical (build_initialized_event E fresh s event_id args)) = Inr (genesis E s)"
proof -
  let ?i = "with_habitat_hash E (s\<lparr>hs_state_version := 0, hs_state_hash := []\<rparr>)"
  let ?d = "dput ''initial_state'' (VDict (habitat_state_to_init_payload ?i)) (envelope_fields fresh None ?i args)"
  have ev: "build_initialized_event E fresh s event_id args
      = habitat_event (or_fresh event_id (fresh 2)) HABITAT_INITIALIZED ?d"
    by (simp add: build_initialized_event_def Let_def)
  have i: "?i = with_habitat_hash E (s\<lparr>hs_state_version := 0\<rparr>)" by simp
  have same: "compute_habitat_definition_hash E ?i = compute_habitat_definition_hash E s"
    by (simp add: compute_habitat_definition_hash_def)
  have "(sorted_habitat ?i)\<lparr>hs_state_version := 0, hs_definition_hash := compute_habitat_definition_hash E ?i\<rparr>
      = sorted_habitat ?i"
    using assms unfolding same by (cases s) (simp add: sorted_habitat_def with_habitat_hash_def Let_def)
  then have state: "state_from_init_payload E (canonical (VDict (habitat_state_to_init_payload ?i))) = Inr (genesis E s)"
    unfolding init_payload_roundtrip genesis_def i by (simp add: sorted_with_hash)
      (simp add: with_habitat_hash_def sorted_habitat_def)
  have "hs_state_hash (genesis E s) = hs_state_hash ?i" "hs_state_version (genesis E s) = 0" "hs_state_version ?i = 0"
    by (simp_all add: genesis_def sorted_habitat_def)
  moreover have "apply_mutation E None HABITAT_INITIALIZED (canonical (VDict ?d)) = Inr (genesis E s)"
    using state by (simp add: apply_mutation_def read_canonical dwf_dput del: plain_lookups)
  moreover have "HABITAT_INITIALIZED \<in> set HABITAT_EVENT_TYPES" "HABITAT_INITIALIZED \<noteq> HABITAT_BODY_ZONE_TRANSITIONED"
    by (simp_all add: HABITAT_EVENT_TYPES_def habitat_event_names)
  ultimately show ?thesis
    unfolding ev
    by (simp add: apply_parts [OF stored_parts] check_order_def read_canonical dwf_dput envelope_lookup
        del: plain_lookups)
qed

lemma replay_init_then:
  assumes "hs_definition_hash s = compute_habitat_definition_hash E s"
    and "foldE (replay_step E) (Some (genesis E s)) events = Inr (Some t)"
  shows "replay_habitat_from_events E (canonical (build_initialized_event E fresh s event_id args) # events) = Inr t"
  using assms initial_event_applies [of s E fresh event_id args]
  by (simp add: replay_habitat_from_events_def replay_step_def)

section \<open>What the log announces\<close>

text \<open>The version and hash that an event announces are those of \<open>s\<close>.\<close>

definition announces :: "pyv \<Rightarrow> habitat_state \<Rightarrow> bool" where
  "announces event s \<longleftrightarrow> (\<exists>event_type payload. event_parts event event_type payload
     \<and> fld payload ''new_state_version'' as_int = Inr (hs_state_version s)
     \<and> item payload ''new_state_hash'' = Inr (VStr (hs_state_hash s)))"

lemma check_order_None:
  assumes "check_order (Some s) event_type payload = Inr None"
  shows "fld payload ''prior_state_version'' as_int = Inr (hs_state_version s)"
    and "item payload ''prior_state_hash'' = Inr (VStr (hs_state_hash s))"
    and "\<exists>h. get_or payload ''habitat_id'' VNone = Inr h \<and> (truthy h \<longrightarrow> h = VStr (hs_habitat_id s))"
  using assms by (auto simp: check_order_def andThen_eq_Inr split: if_splits)

lemma check_order_Some:
  assumes "check_order state event_type payload = Inr (Some s)"
  shows "state = Some s" and "fld payload ''new_state_version'' as_int = Inr (hs_state_version s)"
    and "item payload ''new_state_hash'' = Inr (VStr (hs_state_hash s))"
  using assms by (auto simp: check_order_def andThen_eq_Inr split: if_splits option.splits)

lemma applied_announced:
  assumes "apply_habitat_event E state event = Inr t"
  shows "announces event t"
  using assms
proof (cases rule: apply_event_cases)
  case (already s event_type payload)
  then show ?thesis unfolding announces_def using check_order_Some [of state event_type payload s] by blast
next
  case (zone s payload h)
  then show ?thesis unfolding announces_def using check_order_None [of s _ payload] by metis
next
  case (mutated event_type payload)
  then show ?thesis unfolding announces_def by blast
qed

lemma applied_sealed:
  assumes "apply_habitat_event E state event = Inr t" and "\<And>s. state = Some s \<Longrightarrow> habitat_sealed E s"
  shows "habitat_sealed E t"
  using assms(1)
proof (cases rule: apply_event_cases)
  case (already s event_type payload)
  then show ?thesis using check_order_Some(1) [of state event_type payload s] assms(2) by auto
next
  case (zone s payload h)
  then show ?thesis using assms(2) by blast
next
  case (mutated event_type payload)
  then show ?thesis using apply_mutation_sealed by blast
qed

lemma replay_step_Inr:
  "replay_step E state event = Inr t \<longleftrightarrow> (\<exists>u. apply_habitat_event E state event = Inr u \<and> t = Some u)"
  by (auto simp: replay_step_def andThen_eq_Inr)

lemma replay_fold_sealed:
  assumes "foldE (replay_step E) state events = Inr (Some t)" and "\<And>s. state = Some s \<Longrightarrow> habitat_sealed E s"
  shows "habitat_sealed E t \<and> (events \<noteq> [] \<longrightarrow> announces (last events) t)"
  using assms
proof (induction events arbitrary: state)
  case Nil
  then show ?case by simp
next
  case (Cons event events)
  obtain u where u: "apply_habitat_event E state event = Inr u"
    and rest: "foldE (replay_step E) (Some u) events = Inr (Some t)"
    using Cons.prems(1) by (auto simp: andThen_eq_Inr replay_step_Inr)
  have "habitat_sealed E u" using applied_sealed u Cons.prems(2) by blast
  then have "habitat_sealed E t \<and> (events \<noteq> [] \<longrightarrow> announces (last events) t)" using Cons.IH [OF rest] by blast
  then show ?case using applied_announced [OF u] rest by (cases "events = []") auto
qed

section \<open>Events that arrive again\<close>

text \<open>An initial event names the habitat it carries (or none).\<close>

definition names_its_habitat :: "pyv \<Rightarrow> bool" where
  "names_its_habitat event =
     (if get_or event ''event_type'' VNone = Inr (VStr HABITAT_INITIALIZED)
      then (case get_or event ''payload'' VNone of
          Inl e \<Rightarrow> True
        | Inr v \<Rightarrow> (let payload = or_else v (VDict []) in
            (case (get_or payload ''habitat_id'' VNone, fld payload ''initial_state'' (\<lambda>i. fld i ''habitat_id'' as_str)) of
               (Inr h, Inr i) \<Rightarrow> \<not> truthy h \<or> h = VStr i
             | _ \<Rightarrow> False)))
      else True)"

lemma init_habitat_id: "state_from_init_payload E p = Inr s \<Longrightarrow> fld p ''habitat_id'' as_str = Inr (hs_habitat_id s)"
  by (auto simp: state_from_init_payload_def Let_def andThen_eq_Inr)

lemma already_applied:
  assumes "get_or payload ''habitat_id'' VNone = Inr h" and "truthy h \<Longrightarrow> h = VStr (hs_habitat_id u)"
    and "fld payload ''new_state_version'' as_int = Inr (hs_state_version u)"
    and "item payload ''new_state_hash'' = Inr (VStr (hs_state_hash u))"
  shows "check_order (Some u) event_type payload = Inr (Some u)"
  using assms by (auto simp: check_order_def)

lemma mutated_names_habitat:
  assumes parts: "event_parts event event_type payload" and order: "check_order state event_type payload = Inr None"
    and mut: "apply_mutation E state event_type payload = Inr u" and named: "names_its_habitat event"
  shows "\<exists>h. get_or payload ''habitat_id'' VNone = Inr h \<and> (truthy h \<longrightarrow> h = VStr (hs_habitat_id u))"
proof (cases "event_type = HABITAT_INITIALIZED")
  case True
  then obtain p where p: "item payload ''initial_state'' = Inr p" "state_from_init_payload E p = Inr u"
    using mut by (auto simp: apply_mutation_def fld_def andThen_eq_Inr)
  then have "fld payload ''initial_state'' (\<lambda>i. fld i ''habitat_id'' as_str) = Inr (hs_habitat_id u)"
    using init_habitat_id by (simp add: fld_def)
  then show ?thesis
    using named parts True
    by (auto simp: names_its_habitat_def event_parts_def Let_def split: sum.splits)
next
  case False
  then obtain s where s: "state = Some s" using order by (cases state) (auto simp: check_order_def)
  then show ?thesis
    using check_order_None(3) order apply_mutation_keeps mut False by metis
qed

lemma replay_step_again:
  assumes named: "names_its_habitat event" and app: "replay_step E state event = Inr t"
  shows "replay_step E t event = Inr t"
proof -
  obtain u where u: "apply_habitat_event E state event = Inr u" and t: "t = Some u"
    using app by (auto simp: replay_step_Inr)
  have "apply_habitat_event E (Some u) event = Inr u"
    using u
  proof (cases rule: apply_event_cases)
    case (already s event_type payload)
    then show ?thesis using check_order_Some(1) [of state event_type payload s] u by simp
  next
    case (zone s payload h)
    then show ?thesis using u by simp
  next
    case (mutated event_type payload)
    obtain h where h: "get_or payload ''habitat_id'' VNone = Inr h" "truthy h \<longrightarrow> h = VStr (hs_habitat_id u)"
      using mutated_names_habitat [OF mutated(1,3,4) named] by blast
    have "check_order (Some u) event_type payload = Inr (Some u)"
      using already_applied h mutated(5,6) by blast
    then show ?thesis by (simp add: apply_parts [OF mutated(1)])
  qed
  then show ?thesis by (simp add: t replay_step_def)
qed

interpretation habitat_log: idempotent_log "replay_step E" names_its_habitat for E
  by unfold_locales (rule replay_step_again)

section \<open>Every engine a program can reach\<close>

text \<open>
  The engines that come from a habitat by the engine's methods: \<open>commit_object_mutation\<close> with any function (and with it
  \<open>commit_free_location\<close>), the two writes that leave an event, and \<open>project\<close>, which remembers the pose it was given.
\<close>

inductive engine_from :: "hash_env \<Rightarrow> habitat_state \<Rightarrow> habitat_engine \<Rightarrow> bool" for E s where
  created: "engine_from E s (new_habitat_engine s)"
| mutated: "engine_from E s t \<Longrightarrow> engine_from E s (snd (commit_object_mutation E object_id mutate_fn t))"
| relocated: "engine_from E s t \<Longrightarrow> engine_from E s (snd (commit_free_location E object_id x y zone_id t))"
| written: "engine_from E s t \<Longrightarrow> engine_from E s (snd (ledger_write_step E w t))"
| projected: "engine_from E s t \<Longrightarrow>
    engine_from E s (snd (engine_project body_pose width height blocked delayed misleading t))"

text \<open>The indexes hold exactly what the state says.\<close>

definition indexes_agree :: "habitat_engine \<Rightarrow> bool" where
  "indexes_agree t \<longleftrightarrow>
     (\<forall>i. map_of (he_free_spatial_index t) i = Option.bind (map_of (hs_objects (he_state t)) i) free_place)
     \<and> (\<forall>z. dget 0 z (he_zone_free_object_count t) = int (length (filter (free_in z) (hs_objects (he_state t)))))
     \<and> (\<forall>b n. map_of (dget [] b (he_hold_index t)) n = map_of (hold_table (hs_objects (he_state t))) (b, n))
     \<and> (\<forall>z. dget 0 z (he_zone_held_object_count t)
          = int (length (filter (held_in (he_state t) (he_last_body_poses t) z) (hs_objects (he_state t)))))"

lemma dget_zeros: "dget 0 z (map (\<lambda>(k, w). (k, 0 :: int)) d) = 0"
  by (induction d) (auto simp: dget_def)

lemma rebuild_agrees:
  assumes "dwf (hs_objects (he_state t))"
  shows "indexes_agree (rebuild_indexes t)"
proof -
  let ?zeros = "map (\<lambda>(zone_id, w). (zone_id, 0 :: int)) (hs_zones (he_state t))"
  obtain f h s where fold: "fold index_object (hs_objects (he_state t)) (?zeros, [], []) = (f, h, s)"
    by (metis prod_cases3)
  have r: "rebuild_indexes t = t\<lparr>he_zone_free_object_count := f,
      he_zone_held_object_count := held_zone_counts (he_state t) (he_last_body_poses t) ?zeros,
      he_hold_index := h, he_free_spatial_index := s\<rparr>"
    using fold by (simp add: rebuild_indexes_def Let_def)
  have "map_of s i = Option.bind (map_of (hs_objects (he_state t)) i) free_place" for i
    using index_fold_spatial [OF assms, of "(?zeros, [], [])" i] fold by (simp split: option.splits)
  moreover have "dget 0 z f = int (length (filter (free_in z) (hs_objects (he_state t))))" for z
    using index_fold_free [of z "hs_objects (he_state t)" "(?zeros, [], [])"] fold by (simp add: dget_zeros)
  moreover have "map_of (dget [] b h) n = map_of (hold_table (hs_objects (he_state t))) (b, n)" for b n
    using index_fold_holds [of b "hs_objects (he_state t)" "(?zeros, [], [])" n] fold
    by (simp add: dget_def split: option.splits)
  ultimately show ?thesis by (simp add: indexes_agree_def r held_counts dget_zeros)
qed

lemma project_agrees:
  assumes "indexes_agree t"
  shows "indexes_agree (snd (engine_project body_pose width height blocked delayed misleading t))"
proof (cases body_pose)
  case None
  then show ?thesis using assms by (simp add: engine_project_def)
next
  case (Some pose)
  have "z \<notin> fst ` set (hs_zones (he_state t)) \<Longrightarrow> dget 0 z (he_zone_held_object_count t) = 0" for z
    using assms by (simp add: indexes_agree_def no_zone_none_held)
  then show ?thesis using Some assms by (simp add: engine_project_def Let_def indexes_agree_def held_counts)
qed

definition engine_sound :: "habitat_engine \<Rightarrow> bool" where
  "engine_sound t \<longleftrightarrow> dwf (hs_objects (he_state t)) \<and> indexes_agree t"

lemma rebuild_sound: "dwf (hs_objects (he_state t)) \<Longrightarrow> engine_sound (rebuild_indexes t)"
  by (simp add: engine_sound_def rebuild_agrees)

lemma mutation_sound: "engine_sound t \<Longrightarrow> engine_sound (snd (commit_object_mutation E i f t))"
  by (auto simp: commit_object_mutation_def dwf_dput engine_sound_def rebuild_agrees split: option.splits sum.splits)

lemma write_sound: "engine_sound t \<Longrightarrow> engine_sound (snd (ledger_write_step E w t))"
  by (cases w)
    (auto simp: commit_object_creation_def commit_object_visibility_def Let_def dwf_dput engine_sound_def
      rebuild_agrees split: option.splits)

lemma engine_from_sound: "engine_from E s t \<Longrightarrow> dwf (hs_objects s) \<Longrightarrow> engine_sound t"
proof (induction rule: engine_from.induct)
  case created
  then show ?case by (simp add: new_habitat_engine_def rebuild_sound)
next
  case (projected t body_pose width height blocked delayed misleading)
  moreover have "he_state (snd (engine_project body_pose width height blocked delayed misleading t)) = he_state t"
    by (simp add: engine_project_def Let_def split: option.splits)
  ultimately show ?case using project_agrees by (simp add: engine_sound_def)
qed (auto simp: commit_free_location_def intro: mutation_sound write_sound)

section \<open>Properties\<close>

lemma sample_definition_hash:
  "hs_definition_hash (sample_habitat_state E) = compute_habitat_definition_hash E (sample_habitat_state E)"
  by (simp add: sample_habitat_state_def Let_def compute_habitat_definition_hash_def)

lemma sample_sealed: "hs_state_hash (sample_habitat_state E) = compute_habitat_hash E (sample_habitat_state E)"
  unfolding sample_habitat_state_def Let_def by (rule with_habitat_hash_sealed)

abbreviation (input) sample_init :: pyv where
  "sample_init \<equiv> canonical (build_initialized_event plain_env (\<lambda>n. ''id'') (sample_habitat_state plain_env) None no_args)"

lemma sample_replay: "replay_habitat_from_events plain_env [sample_init] = Inr (genesis plain_env (sample_habitat_state plain_env))"
  by (rule replay_init_then [OF sample_definition_hash]) simp

text \<open>C13: a habitat that comes out of the log is sealed: its state hash is the hash of its own contents, whatever the
  events carry; and the last event announced exactly this version and hash. A log that was edited so that its contents
  no longer give the announced hash does not replay.\<close>

theorem replayed_habitat_sealed:
  assumes "replay_habitat_from_events E events = Inr s"
  shows "hs_state_hash s = compute_habitat_hash E s \<and> announces (last events) s"
proof -
  have "events \<noteq> []" "foldE (replay_step E) None events = Inr (Some s)"
    using assms by (auto simp: replay_habitat_from_events_def andThen_eq_Inr split: if_splits option.splits)
  then show ?thesis using replay_fold_sealed [of E None events s] by (simp add: habitat_sealed_def)
qed

theorem replayed_habitat_sealed_witness:
  "let s = genesis plain_env (sample_habitat_state plain_env)
   in replay_habitat_from_events plain_env [sample_init] = Inr s
      \<and> hs_state_hash s = compute_habitat_hash plain_env s \<and> announces sample_init s"
  using replayed_habitat_sealed [OF sample_replay] sample_replay by (simp add: Let_def)

text \<open>C14: delivery at least once is enough: a log in which any event is repeated any number of times on the spot replays
  exactly as the log without the repetitions, errors included, when its initial events name the habitat they carry.\<close>

theorem repeated_events_replay_once:
  assumes "list_all (\<lambda>(event, n). names_its_habitat event) entries"
  shows "replay_habitat_from_events E (concat (map (\<lambda>(event, n). replicate (Suc n) event) entries))
    = replay_habitat_from_events E (map fst entries)"
proof -
  have "foldE (replay_step E) None (concat (map (\<lambda>(event, n). replicate (Suc n) event) entries))
      = foldE (replay_step E) None (map fst entries)"
    by (rule habitat_log.replay_stuttered) (use assms in \<open>auto simp: list_all_iff\<close>)
  then show ?thesis by (cases entries) (auto simp: replay_habitat_from_events_def)
qed

lemma names_parts:
  assumes "event_parts event event_type payload" and "get_or payload ''habitat_id'' VNone = Inr (VStr i)"
    and "fld payload ''initial_state'' (\<lambda>p. fld p ''habitat_id'' as_str) = Inr i"
  shows "names_its_habitat event"
  using assms by (auto simp: names_its_habitat_def event_parts_def Let_def)

lemma sample_names: "names_its_habitat sample_init"
proof -
  let ?i = "with_habitat_hash plain_env ((sample_habitat_state plain_env)\<lparr>hs_state_version := 0, hs_state_hash := []\<rparr>)"
  let ?d = "dput ''initial_state'' (VDict (habitat_state_to_init_payload ?i)) (envelope_fields (\<lambda>n. ''id'') None ?i no_args)"
  have "map_of (habitat_state_to_init_payload ?i) ''habitat_id'' = Some (VStr (hs_habitat_id ?i))"
    "dwf (habitat_state_to_init_payload ?i)"
    by (simp_all add: habitat_state_to_init_payload_def)
  then have f: "fld (canonical (VDict ?d)) ''initial_state'' (\<lambda>i. fld i ''habitat_id'' as_str) = Inr (hs_habitat_id ?i)"
    by (simp add: read_canonical dwf_dput del: plain_lookups)
  have h: "get_or (canonical (VDict ?d)) ''habitat_id'' VNone = Inr (VStr (hs_habitat_id ?i))"
    by (simp add: read_canonical dwf_dput envelope_lookup del: plain_lookups)
  have init: "event_parts sample_init HABITAT_INITIALIZED (canonical (VDict ?d))"
    unfolding build_initialized_event_def Let_def by (rule stored_parts) (simp add: HABITAT_EVENT_TYPES_def)
  show ?thesis by (rule names_parts [OF init h f])
qed

theorem repeated_events_replay_once_witness:
  "replay_habitat_from_events plain_env [sample_init, sample_init, sample_init] = replay_habitat_from_events plain_env [sample_init]"
  using repeated_events_replay_once [of "[(sample_init, 2)]" plain_env] sample_names
  by (simp add: numeral_2_eq_2)

text \<open>C17: a checkpoint stored and read back gives the same habitat (dictionaries in key order); and a checkpoint that
  can be restored at all gives a sealed habitat with the hash it announced.\<close>

theorem habitat_checkpoint_restored:
  assumes "hs_state_hash s = compute_habitat_hash E s"
  shows "habitat_state_from_checkpoint_payload E (canonical (habitat_state_to_checkpoint_payload s)) = Inr (sorted_habitat s)
    \<and> (\<forall>p t. habitat_state_from_checkpoint_payload E p = Inr t \<longrightarrow>
         hs_state_hash t = compute_habitat_hash E t \<and> fld p ''state_hash'' as_str = Inr (hs_state_hash t))"
proof -
  have "hs_state_hash t = compute_habitat_hash E t \<and> fld p ''state_hash'' as_str = Inr (hs_state_hash t)"
    if "habitat_state_from_checkpoint_payload E p = Inr t" for p t
    using that with_habitat_hash_sealed
    by (auto simp: habitat_state_from_checkpoint_payload_def Let_def andThen_eq_Inr split: if_splits)
  then show ?thesis using checkpoint_roundtrip [OF assms] by blast
qed

theorem habitat_checkpoint_restored_witness:
  "let s = sample_habitat_state plain_env in hs_state_hash s = compute_habitat_hash plain_env s
     \<and> habitat_state_from_checkpoint_payload plain_env (canonical (habitat_state_to_checkpoint_payload s)) = Inr (sorted_habitat s)"
  using habitat_checkpoint_restored [OF sample_sealed [of plain_env]] sample_sealed [of plain_env] by (simp add: Let_def)

text \<open>The sample habitat with its rest station picked up.\<close>

lemma sample_pick_up:
  obtains ob after event where
    "map_of (hs_objects (sample_habitat_state plain_env)) ''rest:0'' = Some ob"
    "mutate_object plain_env (sample_habitat_state plain_env) ''rest:0''
       (\<lambda>ob. Inr (ob\<lparr>ho_location := HeldByLocation ''b'' 1 0\<rparr>)) = Inr after"
    "build_location_event HABITAT_OBJECT_PICKED_UP (\<lambda>n. ''id'') (sample_habitat_state plain_env) after ''rest:0'' None no_args
       = Inr event"
    "is_free (ho_location ob)"
proof -
  let ?s = "sample_habitat_state plain_env"
  let ?ob = "make_object plain_env ''rest:0'' REST_STATION (FreeLocation (Fin 12) (Fin 8) ''zone:rest'')
      (StationState ''REST'' True) (flit 15 10) [''REST'']"
  have ob: "map_of (hs_objects ?s) ''rest:0'' = Some ?ob" by (simp add: sample_habitat_state_def Let_def)
  let ?new = "with_object_state_hash plain_env (Some (ho_object_version ?ob + 1)) (?ob\<lparr>ho_location := HeldByLocation ''b'' 1 0\<rparr>)"
  let ?after = "bump_state plain_env (?s\<lparr>hs_objects := dput ''rest:0'' ?new (hs_objects ?s)\<rparr>)"
  have "mutate_object plain_env ?s ''rest:0'' (\<lambda>ob. Inr (ob\<lparr>ho_location := HeldByLocation ''b'' 1 0\<rparr>)) = Inr ?after"
    using ob by (simp add: mutate_object_def apply_committed_object_mutation_def)
  moreover have "\<exists>event. build_location_event HABITAT_OBJECT_PICKED_UP (\<lambda>n. ''id'') ?s ?after ''rest:0'' None no_args = Inr event"
    by (simp add: build_location_event_def build_habitat_event_def HABITAT_EVENT_TYPES_def bump_state_def)
  moreover have "is_free (ho_location ?ob)" by (simp add: make_object_def Let_def)
  ultimately show ?thesis using that ob by blast
qed

lemma sample_dicts: "dwf (hs_zones (sample_habitat_state E))" "dwf (hs_objects (sample_habitat_state E))"
  by (simp_all add: sample_habitat_state_def Let_def)

text \<open>A write of the engine that returns no event: \<open>commit_object_mutation\<close>, which takes any function, and
  \<open>commit_free_location\<close>.\<close>

definition unlogged_write :: "hash_env \<Rightarrow> habitat_engine \<Rightarrow> habitat_engine \<Rightarrow> bool" where
  "unlogged_write E t u \<longleftrightarrow> (\<exists>object_id mutate_fn. commit_object_mutation E object_id mutate_fn t = (Inr (), u))
     \<or> (\<exists>object_id x y zone_id. commit_free_location E object_id x y zone_id t = (Inr (), u))"

lemma mutation_version:
  assumes "commit_object_mutation E i f t = (Inr (), u)"
  shows "hs_state_version (he_state u) = hs_state_version (he_state t) + 1"
proof -
  obtain ob ob' where "map_of (hs_objects (he_state t)) i = Some ob" "apply_committed_object_mutation E f ob = Inr ob'"
    using assms by (fastforce simp: commit_object_mutation_def split: option.splits sum.splits)
  with assms have "u = rebuild_indexes (t\<lparr>he_state := with_habitat_hash E ((he_state t)\<lparr>hs_objects :=
      dput i ob' (hs_objects (he_state t)), hs_state_version := hs_state_version (he_state t) + 1\<rparr>)\<rparr>)"
    by (simp add: commit_object_mutation_def)
  then show ?thesis by (simp add: with_habitat_hash_def)
qed

lemma unlogged_write_version:
  "unlogged_write E t u \<Longrightarrow> hs_state_version (he_state u) = hs_state_version (he_state t) + 1"
  unfolding unlogged_write_def commit_free_location_def using mutation_version by blast

lemma free_relocation:
  assumes "map_of (hs_objects (he_state t)) i = Some ob" and "is_free (ho_location ob)"
  shows "\<exists>u. commit_free_location E i x y z t = (Inr (), u)"
  using assms
  by (auto simp: commit_free_location_def commit_object_mutation_def apply_committed_object_mutation_def relocate_def
      Let_def split: object_location.splits)

lemma occlusion_keeps_place:
  assumes "commit_object_visibility E fresh i b ev tr rq t = (r, u)" and "map_of (hs_objects (he_state t)) i = Some ob"
  obtains ob' where "map_of (hs_objects (he_state u)) i = Some ob'" "ho_location ob' = ho_location ob"
  using assms by (auto simp: commit_object_visibility_def with_habitat_hash_def Let_def)

text \<open>C12: event sourcing. The initial event of a habitat followed by the events that the engine returns for any sequence
  of creations and occlusion changes (refused ones included) replays, as stored, to exactly the state of the engine. The
  two other writes of the engine, \<open>commit_object_mutation\<close> and \<open>commit_free_location\<close>, return no event, and the
  same log no longer replays to the state after one of them: its version is one ahead of the log.\<close>

theorem logged_writes_replay:
  assumes "hs_definition_hash s = compute_habitat_definition_hash E s"
    and "ledger_writes E ws (new_habitat_engine (genesis E s)) = (events, t)"
  shows "replay_habitat_from_events E
       (canonical (build_initialized_event E fresh s event_id args) # map canonical events) = Inr (he_state t)
     \<and> (\<forall>u. unlogged_write E t u \<longrightarrow> replay_habitat_from_events E
       (canonical (build_initialized_event E fresh s event_id args) # map canonical events) \<noteq> Inr (he_state u))"
proof -
  have "replay_habitat_from_events E
       (canonical (build_initialized_event E fresh s event_id args) # map canonical events) = Inr (he_state t)"
  proof (rule replay_init_then [OF assms(1)])
    show "foldE (replay_step E) (Some (genesis E s)) (map canonical events) = Inr (Some (he_state t))"
      using writes_replay [of E "new_habitat_engine (genesis E s)" ws] assms(2) by (simp add: new_habitat_engine_def)
  qed
  then show ?thesis using unlogged_write_version by fastforce
qed

definition occluding_write :: ledger_write where
  "occluding_write = SetOccluded ''rest:0'' True (\<lambda>n. ''id'') None None None"

theorem logged_writes_replay_witness:
  "let r = ledger_writes plain_env [occluding_write] (new_habitat_engine (genesis plain_env (sample_habitat_state plain_env)));
       u = snd (commit_free_location plain_env ''rest:0'' (Fin 1) (Fin 2) None (snd r))
   in replay_habitat_from_events plain_env (sample_init # map canonical (fst r)) = Inr (he_state (snd r))
     \<and> unlogged_write plain_env (snd r) u
     \<and> replay_habitat_from_events plain_env (sample_init # map canonical (fst r)) \<noteq> Inr (he_state u)"
proof -
  let ?t = "new_habitat_engine (genesis plain_env (sample_habitat_state plain_env))"
  let ?r = "ledger_writes plain_env [occluding_write] ?t"
  obtain ob where ob: "map_of (hs_objects (he_state ?t)) ''rest:0'' = Some ob" "is_free (ho_location ob)"
  proof -
    have "hs_objects (he_state ?t) = sorted_items (hs_objects (sample_habitat_state plain_env))"
      by (simp add: new_habitat_engine_def genesis_def with_habitat_hash_def sorted_habitat_def)
    then have "map_of (hs_objects (he_state ?t)) = map_of (hs_objects (sample_habitat_state plain_env))"
      by (simp add: sorted_items_lookup sample_dicts)
    then show thesis using that sample_pick_up by metis
  qed
  have end_state: "snd ?r = snd (commit_object_visibility plain_env (\<lambda>n. ''id'') ''rest:0'' True None None None ?t)"
    by (simp add: occluding_write_def Let_def split: prod.splits)
  obtain ob' where "map_of (hs_objects (he_state (snd ?r))) ''rest:0'' = Some ob'" "ho_location ob' = ho_location ob"
    using occlusion_keeps_place [OF surjective_pairing ob(1)] unfolding end_state by blast
  with ob(2) obtain u where u: "commit_free_location plain_env ''rest:0'' (Fin 1) (Fin 2) None (snd ?r) = (Inr (), u)"
    using free_relocation [of "snd ?r"] by metis
  then have "unlogged_write plain_env (snd ?r) u" unfolding unlogged_write_def by blast
  moreover note logged_writes_replay [OF sample_definition_hash surjective_pairing [of ?r]]
  ultimately show ?thesis unfolding Let_def u snd_conv by blast
qed

text \<open>C15: in every engine a program can reach, the free index lists exactly the free objects with their places, the two
  counters of a zone count its free objects and the held objects whose holder was last seen there, and the hold index of a
  body gives for each slot the object it holds there (the last one, when two claim the same slot).\<close>

theorem engine_indexes_exact:
  assumes "engine_from E s t" and "dwf (hs_objects s)"
  shows "map_of (he_free_spatial_index t) i = Option.bind (map_of (hs_objects (he_state t)) i) free_place
    \<and> dget 0 z (he_zone_free_object_count t) = int (length (filter (free_in z) (hs_objects (he_state t))))
    \<and> dget 0 z (he_zone_held_object_count t)
       = int (length (filter (held_in (he_state t) (he_last_body_poses t) z) (hs_objects (he_state t))))
    \<and> map_of (dget [] b (he_hold_index t)) n = map_of (hold_table (hs_objects (he_state t))) (b, n)"
  using engine_from_sound [OF assms] by (simp add: engine_sound_def indexes_agree_def)

theorem engine_indexes_exact_witness:
  "let t = new_habitat_engine (sample_habitat_state plain_env) in
     map_of (he_free_spatial_index t) ''rest:0'' = Some (Fin 12, Fin 8, ''zone:rest'')
     \<and> dget 0 ''zone:rest'' (he_zone_free_object_count t) = 1
     \<and> dget 0 ''zone:rest'' (he_zone_held_object_count t) = 0"
proof -
  have d: "dwf (hs_objects (sample_habitat_state plain_env))" by (simp add: sample_habitat_state_def Let_def)
  show ?thesis
    using engine_indexes_exact [OF engine_from.created [of plain_env "sample_habitat_state plain_env"] d,
        of "''rest:0''" "''zone:rest''" "''b''" 0]
    by (simp add: new_habitat_engine_def sample_habitat_state_def Let_def make_object_def free_place_def free_in_def
        held_in_def)
qed

text \<open>The shape of a habitat that an event other than the initial one keeps.\<close>

definition shape_kept :: "habitat_state \<Rightarrow> habitat_state \<Rightarrow> bool" where
  "shape_kept s t \<longleftrightarrow> dwf (hs_zones t) \<and> dwf (hs_objects t) \<and> hs_schema_version t = hs_schema_version s
    \<and> set (map fst (hs_zones s)) \<subseteq> set (map fst (hs_zones t))
    \<and> set (map fst (hs_objects s)) \<subseteq> set (map fst (hs_objects t))"

lemma shape_rules:
  assumes "dwf (hs_zones s)" and "dwf (hs_objects s)"
  shows "shape_kept s (bump_state E (s\<lparr>hs_objects := dput i ob (hs_objects s)\<rparr>))"
    and "shape_kept s (bump_state E (s\<lparr>hs_active_environmental_transitions := ts\<rparr>))"
    and "shape_kept s (with_habitat_hash E ((bump_state E (s\<lparr>hs_zones := dput z w (hs_zones s)\<rparr>))\<lparr>hs_definition_hash := d\<rparr>))"
    and "shape_kept s (with_habitat_hash E ((bump_state E (s\<lparr>hs_objects := dput i ob (hs_objects s)\<rparr>))\<lparr>hs_definition_hash := d\<rparr>))"
  using assms by (simp_all add: shape_kept_def bump_state_def dwf_dput update_keys subset_insertI)

lemma mutate_object_shape:
  assumes "mutate_object E s i f = Inr t" and "dwf (hs_zones s)" and "dwf (hs_objects s)"
  shows "shape_kept s t"
  using assms(1) by (elim mutate_object_effect) (simp add: shape_rules(1) assms(2,3))

lemma apply_mutation_shape:
  assumes "apply_mutation E (Some s) event_type payload = Inr t" and "event_type \<noteq> HABITAT_INITIALIZED"
    and wf: "dwf (hs_zones s)" "dwf (hs_objects s)"
  shows "shape_kept s t"
  using assms(1,2) mutate_object_shape [OF _ wf] shape_rules [OF wf]
  by (auto simp: apply_mutation_def mutate_location_def mutate_state_def Let_def andThen_eq_Inr split: if_splits)

text \<open>C16: events respect the type of a habitat. Applied to a habitat whose dictionaries have distinct keys, an event other
  than an initial one gives such a habitat again, of the same name and schema, with no zone and no object lost; the version
  stays with the state or moves by exactly one.\<close>

theorem applied_event_typed:
  assumes "apply_habitat_event E (Some s) event = Inr t" and "dwf (hs_zones s)" and "dwf (hs_objects s)"
    and "get_or event ''event_type'' VNone \<noteq> Inr (VStr HABITAT_INITIALIZED)"
  shows "dwf (hs_zones t) \<and> dwf (hs_objects t) \<and> hs_habitat_id t = hs_habitat_id s
    \<and> hs_schema_version t = hs_schema_version s
    \<and> set (map fst (hs_zones s)) \<subseteq> set (map fst (hs_zones t))
    \<and> set (map fst (hs_objects s)) \<subseteq> set (map fst (hs_objects t))
    \<and> (t = s \<or> hs_state_version t = hs_state_version s + 1)"
  using assms(1)
proof (cases rule: apply_event_cases)
  case (already s' event_type payload)
  then show ?thesis using check_order_Some(1) [of "Some s" event_type payload s'] assms by auto
next
  case (zone s' payload h)
  then show ?thesis using assms by auto
next
  case (mutated event_type payload)
  then have "event_type \<noteq> HABITAT_INITIALIZED" using assms(4) by (auto simp: event_parts_def)
  then show ?thesis
    using apply_mutation_keeps [OF mutated(4)] apply_mutation_shape [OF mutated(4) _ assms(2,3)] by (simp add: shape_kept_def)
qed

text \<open>The types of a location event: the place an object may be in before and after.\<close>

definition location_rule :: "string \<Rightarrow> object_location \<Rightarrow> object_location \<Rightarrow> bool" where
  "location_rule event_type from to \<longleftrightarrow>
     (event_type = HABITAT_OBJECT_MOVED \<and> is_free from \<and> is_free to)
     \<or> (event_type = HABITAT_OBJECT_PICKED_UP \<and> is_free from \<and> \<not> is_free to)
     \<or> (event_type = HABITAT_OBJECT_PLACED \<and> \<not> is_free from \<and> is_free to)"

lemma canonical_location:
  "location_from_payload (canonical (habitat_location_to_payload l)) = Inr l"
  by (cases l) (simp_all add: location_from_payload_def read_canonical has_key_canonical del: plain_lookups)

lemma location_mutation:
  assumes ty: "event_type \<in> {HABITAT_OBJECT_MOVED, HABITAT_OBJECT_PICKED_UP, HABITAT_OBJECT_PLACED}"
    and ob: "map_of (hs_objects s) i = Some ob"
    and f: "fld p ''object_id'' as_str = Inr i" "fld p ''new_location'' location_from_payload = Inr l"
  shows "apply_mutation E (Some s) event_type p =
    (if location_rule event_type (ho_location ob) l then mutate_object E s i (\<lambda>ob. Inr (ob\<lparr>ho_location := l\<rparr>))
     else Inl (HabitatEventError
       (if event_type = HABITAT_OBJECT_MOVED
        then if is_free (ho_location ob) then ''moved_requires_free_target'' else ''moved_requires_free_location''
        else if event_type = HABITAT_OBJECT_PICKED_UP
        then if is_free (ho_location ob) then ''pick_up_requires_held_target'' else ''pick_up_requires_free_location''
        else if is_free (ho_location ob) then ''place_requires_held_location'' else ''place_requires_free_target'')))"
  using ty ob f
  by (auto simp: apply_mutation_def habitat_event_names mutate_location_def mutate_object_def relocate_to_def
      location_rule_def apply_committed_object_mutation_def)

text \<open>The places of an object form a state machine. The event built for an object that went to place \<open>l\<close> is applied,
  and then gives exactly the new state, when its type allows the transition: \<open>MOVED\<close> from free to free, \<open>PICKED_UP\<close>
  from free to held, \<open>PLACED\<close> from held to free. It raises otherwise.\<close>

theorem location_events_follow_places:
  assumes "event_type \<in> {HABITAT_OBJECT_MOVED, HABITAT_OBJECT_PICKED_UP, HABITAT_OBJECT_PLACED}"
    and "map_of (hs_objects s) i = Some ob"
    and "mutate_object E s i (\<lambda>ob. Inr (ob\<lparr>ho_location := l\<rparr>)) = Inr after"
    and "build_location_event event_type fresh s after i event_id args = Inr event"
  shows "if location_rule event_type (ho_location ob) l
    then apply_habitat_event E (Some s) (canonical event) = Inr after
    else (\<exists>reason. apply_habitat_event E (Some s) (canonical event) = Inl (HabitatEventError reason))"
proof -
  let ?new = "with_object_state_hash E (Some (ho_object_version ob + 1)) (ob\<lparr>ho_location := l\<rparr>)"
  let ?d = "dict_update (envelope_fields fresh (Some s) after args)
      [(''object_id'', VStr i), (''new_location'', habitat_location_to_payload l)]"
  have types: "event_type \<in> set HABITAT_EVENT_TYPES" "event_type \<noteq> HABITAT_BODY_ZONE_TRANSITIONED"
    using assms(1) by (auto simp: HABITAT_EVENT_TYPES_def habitat_event_names)
  have after: "after = bump_state E (s\<lparr>hs_objects := dput i ?new (hs_objects s)\<rparr>)"
    using assms(2,3) by (simp add: mutate_object_def apply_committed_object_mutation_def)
  then have seen: "map_of (hs_objects after) i = Some ?new" "hs_state_version after = hs_state_version s + 1"
    "hs_habitat_id after = hs_habitat_id s"
    by (simp_all add: bump_state_def)
  have ev: "event = habitat_event (or_fresh event_id (fresh 2)) event_type ?d"
    using assms(4) seen types by (simp add: build_location_event_def build_habitat_event_def)
  have d: "dwf ?d" "map_of ?d ''habitat_id'' = Some (VStr (hs_habitat_id s))"
    "map_of ?d ''prior_state_version'' = Some (VInt (hs_state_version s))"
    "map_of ?d ''prior_state_hash'' = Some (VStr (hs_state_hash s))"
    "map_of ?d ''new_state_version'' = Some (VInt (hs_state_version after))"
    "map_of ?d ''new_state_hash'' = Some (VStr (hs_state_hash after))"
    by (simp_all add: envelope_lookup dwf_dput seen)
  have f: "fld (canonical (VDict ?d)) ''object_id'' as_str = Inr i"
    "fld (canonical (VDict ?d)) ''new_location'' location_from_payload = Inr l"
    using d(1) by (simp_all add: read_canonical canonical_location del: plain_lookups)
  note mutation = location_mutation [OF assms(1,2) f]
  show ?thesis
  proof (cases "location_rule event_type (ho_location ob) l")
    case True
    then show ?thesis
      unfolding ev using types d seen(2) mutation assms(3) by (simp add: stored_applies)
  next
    case False
    have "check_order (Some s) event_type (canonical (VDict ?d)) = Inr None"
      by (rule order_accepted [OF d(1-5)]) (simp add: seen)
    then show ?thesis
      unfolding ev using types mutation False by (simp add: apply_parts [OF stored_parts])
  qed
qed

lemma stored_type: "get_or (canonical (habitat_event i ty d)) ''event_type'' VNone = Inr (VStr ty)"
  by (simp add: habitat_event_def get_or_canonical del: plain_lookups)

lemma pick_up_allowed: "is_free from \<Longrightarrow> location_rule HABITAT_OBJECT_PICKED_UP from (HeldByLocation b g n)"
  by (simp add: location_rule_def)

theorem location_events_follow_places_witness:
  "\<exists>event after. apply_habitat_event plain_env (Some (sample_habitat_state plain_env)) (canonical event) = Inr after
     \<and> hs_state_version after = 1"
proof -
  obtain ob after event where e: "map_of (hs_objects (sample_habitat_state plain_env)) ''rest:0'' = Some ob"
    "mutate_object plain_env (sample_habitat_state plain_env) ''rest:0''
       (\<lambda>ob. Inr (ob\<lparr>ho_location := HeldByLocation ''b'' 1 0\<rparr>)) = Inr after"
    "build_location_event HABITAT_OBJECT_PICKED_UP (\<lambda>n. ''id'') (sample_habitat_state plain_env) after ''rest:0'' None no_args
       = Inr event" "is_free (ho_location ob)"
    using sample_pick_up .
  have "apply_habitat_event plain_env (Some (sample_habitat_state plain_env)) (canonical event) = Inr after"
    using location_events_follow_places [OF _ e(1-3)] pick_up_allowed [OF e(4)] by simp
  moreover have "hs_state_version after = 1"
    using mutate_object_keeps [OF e(2)] by (simp add: sample_habitat_state_def Let_def)
  ultimately show ?thesis by (intro exI conjI)
qed

theorem applied_event_typed_witness:
  "\<exists>event t. apply_habitat_event plain_env (Some (sample_habitat_state plain_env)) event = Inr t
     \<and> dwf (hs_objects t) \<and> hs_habitat_id t = ''habitat:sample''"
proof -
  let ?s = "sample_habitat_state plain_env"
  let ?w = "SetOccluded ''rest:0'' True (\<lambda>n. ''id'') None None None"
  obtain event u where e: "commit_object_visibility plain_env (\<lambda>n. ''id'') ''rest:0'' True None None None (new_habitat_engine ?s)
      = (Inr event, u)"
    by (simp add: commit_object_visibility_def new_habitat_engine_def build_object_visibility_event_def
        build_habitat_event_def HABITAT_EVENT_TYPES_def sample_habitat_state_def Let_def)
  have ty: "get_or (canonical event) ''event_type'' VNone \<noteq> Inr (VStr HABITAT_INITIALIZED)"
    using e stored_type
    by (auto simp: commit_object_visibility_def build_object_visibility_event_def build_habitat_event_def
        HABITAT_EVENT_TYPES_def habitat_event_names Let_def split: option.splits)
  have a: "apply_habitat_event plain_env (Some ?s) (canonical event) = Inr (he_state u)"
    using visibility_event_applies [OF e] by (simp add: new_habitat_engine_def)
  show ?thesis
    using applied_event_typed [OF a sample_dicts ty] a
    by (intro exI [of _ "canonical event"] exI [of _ "he_state u"]) (simp add: sample_habitat_state_def Let_def)
qed

text \<open>The two builders that pass their keyword arguments on cannot be called with an event id, whatever it is, although
  every other builder can: the call raises. Without one, the event of a body that changes zone leaves the habitat as it
  is, version and hash included.\<close>

theorem zone_events_refuse_an_event_id:
  "build_body_zone_transition_event fresh s body from_zone to_zone (Some event_id) args
     = Inl (TypeError ''unexpected_keyword_argument_event_id'')
   \<and> build_held_binding_rebased_event fresh s after object_id body old new slot (Some event_id) args
     = Inl (TypeError ''unexpected_keyword_argument_event_id'')
   \<and> andThen (build_body_zone_transition_event fresh s body from_zone to_zone None args)
       (\<lambda>event. apply_habitat_event E (Some s) (canonical event)) = Inr s"
proof -
  let ?d = "dict_update (envelope_fields fresh (Some s) s args)
      [(''body_instance_id'', VStr body), (''from_zone_id'', VStr from_zone), (''to_zone_id'', VStr to_zone)]"
  have "check_order (Some s) HABITAT_BODY_ZONE_TRANSITIONED (canonical (VDict ?d)) = Inr (Some s)"
    by (rule already_applied [where h = "VStr (hs_habitat_id s)"])
      (simp_all add: read_canonical dwf_dput envelope_lookup del: plain_lookups)
  moreover have "HABITAT_BODY_ZONE_TRANSITIONED \<in> set HABITAT_EVENT_TYPES" by (simp add: HABITAT_EVENT_TYPES_def)
  ultimately show ?thesis
    by (simp add: build_body_zone_transition_event_def build_held_binding_rebased_event_def
        apply_parts [OF stored_parts])
qed

end
