(* ===== verification/Physiology.thy ===== *)
theory Physiology
  imports HabitatReplay
begin

text \<open>
  \<open>physiology.py\<close>: the four homeostatic variables, their bands, autonomous drift, the verified effects of outcomes and the
  pure projection of one decision. The four variables are kept as a dictionary by name only where the code does
  (\<open>as_dict\<close>); \<open>getattr\<close> and \<open>setattr\<close> are \<open>phys_get\<close> and \<open>set_var\<close>, which the code calls with the names of \<open>BOUNDS\<close>.
\<close>

section \<open>Bands\<close>

record bounds =
  bd_critical_low :: flt
  bd_viable_low :: flt
  bd_ideal :: flt
  bd_viable_high :: flt
  bd_critical_high :: flt

definition in_viable_band :: "bounds \<Rightarrow> flt \<Rightarrow> bool" where
  "in_viable_band b x \<longleftrightarrow> flt_le (bd_viable_low b) x \<and> flt_le x (bd_viable_high b)"

definition critical_violation :: "bounds \<Rightarrow> flt \<Rightarrow> bool" where
  "critical_violation b x \<longleftrightarrow> flt_lt x (bd_critical_low b) \<or> flt_lt (bd_critical_high b) x"

definition bounds_deficit :: "bounds \<Rightarrow> flt \<Rightarrow> flt" where
  "bounds_deficit b x = flt_sub (bd_ideal b) x"

definition overshoot :: "bounds \<Rightarrow> flt \<Rightarrow> flt" where
  "overshoot b x =
     (if flt_lt (bd_viable_high b) x then flt_sub x (bd_viable_high b)
      else if flt_lt x (bd_viable_low b) then flt_sub (bd_viable_low b) x else Fin 0)"

definition make_bounds :: "flt \<Rightarrow> flt \<Rightarrow> flt \<Rightarrow> flt \<Rightarrow> flt \<Rightarrow> bounds" where
  "make_bounds a b c d e = \<lparr>bd_critical_low = a, bd_viable_low = b, bd_ideal = c, bd_viable_high = d, bd_critical_high = e\<rparr>"

definition BOUNDS :: "bounds dict" where
  "BOUNDS =
     [(''energy'', make_bounds (flit 5 100) (flit 30 100) (flit 70 100) (flit 90 100) (Fin 1)),
      (''fatigue'', make_bounds (Fin 0) (flit 5 100) (flit 20 100) (flit 70 100) (flit 95 100)),
      (''integrity'', make_bounds (flit 5 100) (flit 35 100) (flit 85 100) (flit 98 100) (Fin 1)),
      (''stimulation'', make_bounds (flit 5 100) (flit 25 100) (flit 55 100) (flit 80 100) (Fin 1))]"

definition DEFAULT_DRIFT :: "flt dict" where
  "DEFAULT_DRIFT =
     [(''energy'', flit (- 2) 1000), (''fatigue'', flit 2 1000), (''integrity'', flit (- 2) 10000),
      (''stimulation'', flit (- 2) 1000)]"

abbreviation clamp01 :: "flt \<Rightarrow> flt" where
  "clamp01 x \<equiv> clamp x (Fin 0) (Fin 1)"

text \<open>\<open>dict[name]\<close> of a dictionary of the code.\<close>

definition ditem :: "string \<Rightarrow> 'v dict \<Rightarrow> 'v res" where
  "ditem k d = (case map_of d k of None \<Rightarrow> Inl (KeyError k) | Some v \<Rightarrow> Inr v)"

definition project_verified_transition :: "flt dict \<Rightarrow> flt dict \<Rightarrow> bool \<Rightarrow> flt \<Rightarrow> flt dict res" where
  "project_verified_transition physiology effects drift_enabled dt =
     andThen (mapE (\<lambda>(name, b). andThen (ditem name physiology) (\<lambda>x.
         Inr (name, clamp01 (flt_add x (dget (Fin 0) name effects))))) BOUNDS) (\<lambda>projected.
     if drift_enabled
     then mapE (\<lambda>(name, x). andThen (ditem name DEFAULT_DRIFT) (\<lambda>rate.
         Inr (name, clamp01 (flt_add x (flt_mult rate dt))))) projected
     else Inr projected)"

section \<open>The owner\<close>

record physiology =
  ph_energy :: flt
  ph_fatigue :: flt
  ph_integrity :: flt
  ph_stimulation :: flt
  ph_drift_enabled :: bool
  ph_history_len :: int

definition default_physiology :: physiology where
  "default_physiology = \<lparr>ph_energy = flit 70 100, ph_fatigue = flit 20 100, ph_integrity = flit 90 100,
     ph_stimulation = flit 55 100, ph_drift_enabled = True, ph_history_len = 0\<rparr>"

definition phys_as_dict :: "physiology \<Rightarrow> flt dict" where
  "phys_as_dict p =
     [(''energy'', ph_energy p), (''fatigue'', ph_fatigue p), (''integrity'', ph_integrity p),
      (''stimulation'', ph_stimulation p)]"

definition phys_get :: "physiology \<Rightarrow> string \<Rightarrow> flt" where
  "phys_get p name = dget NaN name (phys_as_dict p)"

definition set_var :: "string \<Rightarrow> flt \<Rightarrow> physiology \<Rightarrow> physiology" where
  "set_var name value p =
     (if name = ''energy'' then p\<lparr>ph_energy := clamp01 value\<rparr>
      else if name = ''fatigue'' then p\<lparr>ph_fatigue := clamp01 value\<rparr>
      else if name = ''integrity'' then p\<lparr>ph_integrity := clamp01 value\<rparr>
      else if name = ''stimulation'' then p\<lparr>ph_stimulation := clamp01 value\<rparr> else p)"

definition phys_in_viable :: "physiology \<Rightarrow> string \<Rightarrow> bool res" where
  "phys_in_viable p name = andThen (ditem name BOUNDS) (\<lambda>b. Inr (in_viable_band b (phys_get p name)))"

definition phys_all_viable :: "physiology \<Rightarrow> bool" where
  "phys_all_viable p = list_all (\<lambda>(n, b). in_viable_band b (phys_get p n)) BOUNDS"

definition needs_recovery :: "physiology \<Rightarrow> string list" where
  "needs_recovery p = map fst (filter (\<lambda>(n, b). \<not> in_viable_band b (phys_get p n)) BOUNDS)"

definition active_recovery_needs :: "physiology \<Rightarrow> string list" where
  "active_recovery_needs p = map fst (filter (\<lambda>(n, b).
     let x = phys_get p n in
     if n = ''fatigue'' then flt_lt (bd_viable_high b) x
     else if n = ''energy'' \<or> n = ''integrity'' then flt_lt x (bd_viable_low b)
     else \<not> in_viable_band b x) BOUNDS)"

definition critical_any :: "physiology \<Rightarrow> bool" where
  "critical_any p = list_ex (\<lambda>(n, b). critical_violation b (phys_get p n)) BOUNDS"

definition critical_vars :: "physiology \<Rightarrow> string list" where
  "critical_vars p = map fst (filter (\<lambda>(n, b). critical_violation b (phys_get p n)) BOUNDS)"

definition band_urgency :: "string \<Rightarrow> bounds \<Rightarrow> flt \<Rightarrow> flt" where
  "band_urgency name b x =
     flt_add (py_max (Fin 0) (if name = ''fatigue'' then flt_sub x (bd_ideal b) else flt_sub (bd_ideal b) x))
       (flt_mult (Fin 2) (overshoot b x))"

definition urgency :: "physiology \<Rightarrow> string \<Rightarrow> flt res" where
  "urgency p name = andThen (ditem name BOUNDS) (\<lambda>b. Inr (band_urgency name b (phys_get p name)))"

definition vector_urgency :: "physiology \<Rightarrow> flt dict" where
  "vector_urgency p = map (\<lambda>(n, b). (n, band_urgency n b (phys_get p n))) BOUNDS"

definition tick_drift :: "flt \<Rightarrow> physiology \<Rightarrow> flt dict \<times> physiology" where
  "tick_drift dt p =
     (let before = phys_as_dict p in
      if \<not> ph_drift_enabled p
      then (map (\<lambda>(k, x). (k, Fin 0)) before, p\<lparr>ph_history_len := ph_history_len p + 1\<rparr>)
      else
        let moved = fold (\<lambda>(name, rate) q. set_var name (flt_add (phys_get q name) (flt_mult rate dt)) q) DEFAULT_DRIFT p;
            p' = moved\<lparr>ph_history_len := ph_history_len moved + 1\<rparr>
        in (map (\<lambda>(k, x). (k, flt_sub (phys_get p' k) x)) before, p'))"

definition apply_outcome_effects :: "flt dict \<Rightarrow> physiology \<Rightarrow> physiology" where
  "apply_outcome_effects effects p =
     fold (\<lambda>(name, delta) q.
         if map_of BOUNDS name = None then q else set_var name (flt_add (phys_get q name) delta) q) effects p"

definition intervene :: "flt dict \<Rightarrow> physiology \<Rightarrow> physiology" where
  "intervene kwargs p = fold (\<lambda>(k, v) q. if map_of BOUNDS k = None then q else set_var k v q) kwargs p"

definition satiation_penalty :: "physiology \<Rightarrow> string \<Rightarrow> flt res" where
  "satiation_penalty p name =
     andThen (ditem name BOUNDS) (\<lambda>b.
       let x = phys_get p name in Inr
         (if name = ''fatigue''
          then (if flt_le x (bd_ideal b) then flt_add (Fin 1) (flt_sub (bd_ideal b) x) else Fin 0)
          else if flt_lt (flt_abs (flt_sub x (bd_ideal b))) (flit 8 100) \<and> in_viable_band b x
          then flt_add (Fin 1) (flt_abs (flt_sub x (bd_ideal b)))
          else if flt_lt (bd_viable_high b) x then flt_add (Fin 2) (flt_sub x (bd_viable_high b))
          else Fin 0))"

definition physiology_to_state :: "physiology \<Rightarrow> pyv" where
  "physiology_to_state p = VDict (map (\<lambda>(k, x). (k, VFlt x)) (phys_as_dict p)
     @ [(''drift_enabled'', VBool (ph_drift_enabled p)), (''history_len'', VInt (ph_history_len p))])"

definition physiology_from_state :: "pyv \<Rightarrow> physiology res" where
  "physiology_from_state d =
     andThen (fld_or d ''energy'' (VFlt (flit 70 100)) as_float) (\<lambda>energy.
     andThen (fld_or d ''fatigue'' (VFlt (flit 20 100)) as_float) (\<lambda>fatigue.
     andThen (fld_or d ''integrity'' (VFlt (flit 90 100)) as_float) (\<lambda>integrity.
     andThen (fld_or d ''stimulation'' (VFlt (flit 55 100)) as_float) (\<lambda>stimulation.
     andThen (fld_or d ''drift_enabled'' (VBool True) as_bool) (\<lambda>drift_enabled.
     andThen (fld_or d ''history_len'' (VInt 0) as_int) (\<lambda>history_len.
     Inr \<lparr>ph_energy = energy, ph_fatigue = fatigue, ph_integrity = integrity, ph_stimulation = stimulation,
          ph_drift_enabled = drift_enabled, ph_history_len = history_len\<rparr>))))))"

section \<open>Effects of outcomes\<close>

definition OUTCOME_EFFECTS :: "flt dict dict" where
  "OUTCOME_EFFECTS =
     [(''IDLE'', [(''energy'', flit (- 5) 10000), (''fatigue'', flit 5 10000), (''stimulation'', flit (- 1) 1000),
        (''integrity'', flit 2 100)]),
      (''ORIENT'', [(''energy'', flit (- 1) 1000), (''fatigue'', flit 1 1000), (''stimulation'', flit 5 1000)]),
      (''MOVE'', [(''energy'', flit (- 5) 1000), (''fatigue'', flit 4 1000), (''stimulation'', flit 3 1000)]),
      (''APPROACH'', [(''energy'', flit (- 4) 1000), (''fatigue'', flit 3 1000), (''stimulation'', flit 4 1000)]),
      (''RETREAT'', [(''energy'', flit (- 5) 1000), (''fatigue'', flit 4 1000), (''stimulation'', flit 3 1000),
        (''integrity'', flit 1 100)]),
      (''INSPECT'', [(''energy'', flit (- 3) 1000), (''fatigue'', flit 2 1000), (''stimulation'', flit 4 100)]),
      (''REST'', [(''energy'', flit 15 1000), (''fatigue'', flit (- 8) 100), (''stimulation'', flit (- 2) 100),
        (''integrity'', flit 55 1000)]),
      (''CHARGE'', [(''energy'', flit 14 100), (''fatigue'', flit (- 1) 100), (''stimulation'', flit (- 5) 1000)]),
      (''SIGNAL_PLAY'', [(''energy'', flit (- 1) 1000)]),
      (''SIGNAL_ASSISTANCE'', [(''energy'', flit (- 1) 1000)]),
      (''HAZARD_HIT'', [(''integrity'', flit (- 4) 100), (''stimulation'', flit 2 100), (''energy'', flit (- 6) 1000)]),
      (''FAILED_MOVE'', [(''energy'', flit (- 3) 1000), (''fatigue'', flit 3 1000)])]"

definition verified_outcome_effects :: "string \<Rightarrow> bool \<Rightarrow> flt dict" where
  "verified_outcome_effects capability success =
     (if success then dget [] capability OUTCOME_EFFECTS
      else if capability \<in> {''MOVE'', ''APPROACH'', ''RETREAT''} then dget [] ''FAILED_MOVE'' OUTCOME_EFFECTS
      else [(''energy'', flit (- 3) 1000), (''fatigue'', flit 2 1000)])"

definition verified_outcome_effect_branches :: "string \<Rightarrow> flt dict list" where
  "verified_outcome_effect_branches capability =
     (let success = verified_outcome_effects capability True in
      if capability \<in> {''IDLE'', ''SIGNAL_PLAY'', ''SIGNAL_ASSISTANCE''} then [success]
      else if capability = ''ORIENT'' then [success, []]
      else [success, verified_outcome_effects capability False])"

section \<open>Lemmas\<close>

definition in_unit :: "flt \<Rightarrow> bool" where
  "in_unit x \<longleftrightarrow> flt_le (Fin 0) x \<and> flt_le x (Fin 1)"

lemma clamp01_unit [simp]: "in_unit (clamp01 x)"
  using clamp_bounds [of "Fin 0" "Fin 1" x] by (simp add: in_unit_def)

lemma clamp01_id: "in_unit x \<Longrightarrow> clamp01 x = x"
  by (simp add: in_unit_def clamp_id)

definition phys_bounded :: "physiology \<Rightarrow> bool" where
  "phys_bounded p \<longleftrightarrow> list_all (\<lambda>(n, x). in_unit x) (phys_as_dict p)"

definition phys_double :: "physiology \<Rightarrow> bool" where
  "phys_double p \<longleftrightarrow> list_all (\<lambda>(n, x). is_double x) (phys_as_dict p)"

lemma bounds_known: "map_of BOUNDS n = None \<longleftrightarrow> n \<notin> {''energy'', ''fatigue'', ''integrity'', ''stimulation''}"
  by (auto simp: BOUNDS_def)

lemma phys_get_set_var:
  "phys_get (set_var n v p) m = (if n = m \<and> map_of BOUNDS n \<noteq> None then clamp01 v else phys_get p m)"
  unfolding bounds_known by (auto simp: set_var_def phys_get_def phys_as_dict_def dget_def)

lemma phys_dict_get:
  "phys_as_dict p = map (\<lambda>n. (n, phys_get p n)) [''energy'', ''fatigue'', ''integrity'', ''stimulation'']"
  by (simp add: phys_as_dict_def phys_get_def dget_def)

lemma set_var_bounded: "phys_bounded p \<Longrightarrow> phys_bounded (set_var n v p)"
  by (simp add: phys_bounded_def phys_dict_get phys_get_set_var)

lemma set_var_other [simp]:
  "ph_drift_enabled (set_var n v p) = ph_drift_enabled p" "ph_history_len (set_var n v p) = ph_history_len p"
  by (simp_all add: set_var_def)

lemma fold_bounded:
  "(\<And>x q. phys_bounded q \<Longrightarrow> phys_bounded (f x q)) \<Longrightarrow> phys_bounded p \<Longrightarrow> phys_bounded (fold f xs p)"
  by (induction xs arbitrary: p) auto

lemma history_bounded [simp]: "phys_bounded (p\<lparr>ph_history_len := n\<rparr>) = phys_bounded p"
  by (simp add: phys_bounded_def phys_as_dict_def)

lemma drift_bounded: "phys_bounded p \<Longrightarrow> phys_bounded (snd (tick_drift dt p))"
  by (auto simp: tick_drift_def Let_def intro!: fold_bounded set_var_bounded)

lemma effects_bounded: "phys_bounded p \<Longrightarrow> phys_bounded (apply_outcome_effects effects p)"
  by (auto simp: apply_outcome_effects_def intro!: fold_bounded set_var_bounded)

lemma intervene_bounded: "phys_bounded p \<Longrightarrow> phys_bounded (intervene kwargs p)"
  by (auto simp: intervene_def intro!: fold_bounded set_var_bounded)

text \<open>One outcome: each variable moves by its own effect.\<close>

lemma effects_get:
  assumes "dwf effects"
  shows "phys_get (apply_outcome_effects effects p) n =
    (case map_of effects n of None \<Rightarrow> phys_get p n
     | Some d \<Rightarrow> if map_of BOUNDS n = None then phys_get p n else clamp01 (flt_add (phys_get p n) d))"
  using assms
proof (induction effects arbitrary: p)
  case Nil
  then show ?case by (simp add: apply_outcome_effects_def)
next
  case (Cons e effects)
  obtain k d where e: "e = (k, d)" by (cases e)
  let ?q = "if map_of BOUNDS k = None then p else set_var k (flt_add (phys_get p k) d) p"
  have step: "apply_outcome_effects (e # effects) p = apply_outcome_effects effects ?q"
    by (simp add: apply_outcome_effects_def e)
  have "k = n \<Longrightarrow> map_of effects n = None" using Cons.prems e by (simp add: map_of_eq_None_iff)
  then show ?case
    unfolding step using Cons.IH [of ?q] Cons.prems e by (auto simp: phys_get_set_var split: option.splits)
qed

lemma fold_keeps: "(\<And>x q. g (f x q) = g q) \<Longrightarrow> g (fold f xs p) = g p"
  by (induction xs arbitrary: p) simp_all

lemma effects_drift_enabled [simp]: "ph_drift_enabled (apply_outcome_effects effects p) = ph_drift_enabled p"
  unfolding apply_outcome_effects_def by (rule fold_keeps) (simp add: case_prod_beta)

text \<open>Drift is the outcome whose effects are the rates.\<close>

definition drift_effects :: "flt \<Rightarrow> flt dict" where
  "drift_effects dt = map (\<lambda>(n, rate). (n, flt_mult rate dt)) DEFAULT_DRIFT"

lemma drift_as_effects:
  assumes "ph_drift_enabled p"
  shows "snd (tick_drift dt p) = (apply_outcome_effects (drift_effects dt) p)\<lparr>ph_history_len := ph_history_len p + 1\<rparr>"
proof -
  have "ph_history_len (apply_outcome_effects effects p) = ph_history_len p" for effects
    unfolding apply_outcome_effects_def by (rule fold_keeps) (simp add: case_prod_beta)
  moreover have "fold (\<lambda>(name, rate) q. set_var name (flt_add (phys_get q name) (flt_mult rate dt)) q) DEFAULT_DRIFT p
      = apply_outcome_effects (drift_effects dt) p"
    by (simp add: DEFAULT_DRIFT_def drift_effects_def apply_outcome_effects_def bounds_known)
  ultimately show ?thesis using assms by (simp add: tick_drift_def Let_def)
qed

lemma history_get [simp]: "phys_get (q\<lparr>ph_history_len := m\<rparr>) n = phys_get q n"
  by (simp add: phys_get_def phys_as_dict_def)

section \<open>Properties\<close>

datatype physiology_op = Drift flt | Outcome "flt dict" | Intervene "flt dict"

fun physiology_step :: "physiology_op \<Rightarrow> physiology \<Rightarrow> physiology" where
  "physiology_step (Drift dt) p = snd (tick_drift dt p)"
| "physiology_step (Outcome effects) p = apply_outcome_effects effects p"
| "physiology_step (Intervene kwargs) p = intervene kwargs p"

text \<open>C25: the homeostatic variables stay in the unit interval under any sequence of drifts, outcomes and interventions,
  whatever the numbers are: overflow to an infinity and NaN included.\<close>

theorem physiology_stays_bounded:
  assumes "phys_bounded p"
  shows "phys_bounded (fold physiology_step ops p)"
proof (rule fold_bounded [OF _ assms])
  show "phys_bounded q \<Longrightarrow> phys_bounded (physiology_step x q)" for x q
    by (cases x) (simp_all add: drift_bounded effects_bounded intervene_bounded)
qed

lemma unit_literal: "0 \<le> n \<Longrightarrow> n \<le> d \<Longrightarrow> 0 < d \<Longrightarrow> in_unit (flit n d)"
  using flt_of_mono [of 0 "of_int n / of_int d"] flt_of_mono [of "of_int n / of_int d" 1]
  by (simp add: in_unit_def flit_def)

lemma default_bounded: "phys_bounded default_physiology"
  by (simp add: phys_bounded_def phys_as_dict_def default_physiology_def unit_literal)

theorem physiology_stays_bounded_witness:
  "phys_bounded (fold physiology_step [Drift NaN, Outcome [(''energy'', PInf)], Intervene [(''fatigue'', NInf)]] default_physiology)"
  by (rule physiology_stays_bounded [OF default_bounded])

text \<open>C26: the pure projection that safety and recoverability decisions use is what the owner then does: the verified
  effects of an outcome followed by one drift. This needs the variables in range (the projection clamps also where no
  effect applies) and at machine precision.\<close>

theorem projection_is_the_transition:
  assumes "phys_bounded p" and "phys_double p" and "dwf effects"
  shows "project_verified_transition (phys_as_dict p) effects (ph_drift_enabled p) dt
    = Inr (phys_as_dict (snd (tick_drift dt (apply_outcome_effects effects p))))"
proof -
  have eff: "clamp01 (flt_add (phys_get p n) (dget (Fin 0) n effects)) = phys_get (apply_outcome_effects effects p) n"
    if "n \<in> {''energy'', ''fatigue'', ''integrity'', ''stimulation''}" for n
    using that assms
    by (auto simp: effects_get [OF assms(3)] dget_def bounds_known clamp01_id phys_bounded_def phys_double_def
        phys_dict_get split: option.splits)
  have dr: "dwf (drift_effects dt)" by (simp add: drift_effects_def DEFAULT_DRIFT_def)
  have drift: "phys_get (apply_outcome_effects (drift_effects dt) q) n = clamp01 (flt_add (phys_get q n) (flt_mult rate dt))"
    if "map_of DEFAULT_DRIFT n = Some rate" "n \<in> {''energy'', ''fatigue'', ''integrity'', ''stimulation''}" for q n rate
  proof -
    have "map_of (drift_effects dt) n = Some (flt_mult rate dt)"
      using that(1) by (simp add: drift_effects_def map_of_map_value)
    then show ?thesis using that(2) by (simp add: effects_get [OF dr] bounds_known)
  qed
  have rates: "map_of DEFAULT_DRIFT ''energy'' = Some (flit (- 2) 1000)" "map_of DEFAULT_DRIFT ''fatigue'' = Some (flit 2 1000)"
    "map_of DEFAULT_DRIFT ''integrity'' = Some (flit (- 2) 10000)" "map_of DEFAULT_DRIFT ''stimulation'' = Some (flit (- 2) 1000)"
    by (simp_all add: DEFAULT_DRIFT_def)
  show ?thesis
  proof (cases "ph_drift_enabled p")
    case True
    then have "phys_as_dict (snd (tick_drift dt (apply_outcome_effects effects p)))
        = phys_as_dict (apply_outcome_effects (drift_effects dt) (apply_outcome_effects effects p))"
      by (simp add: drift_as_effects phys_dict_get)
    then show ?thesis
      using True
      by (simp add: project_verified_transition_def BOUNDS_def ditem_def phys_dict_get eff rates drift)
  next
    case False
    then show ?thesis
      by (simp add: project_verified_transition_def BOUNDS_def ditem_def phys_dict_get eff tick_drift_def Let_def)
  qed
qed

lemma double_literal [simp]: "is_double (flit n d)"
  by (simp add: flit_def)

lemma default_double: "phys_double default_physiology"
  by (simp add: phys_double_def phys_as_dict_def default_physiology_def)

theorem projection_is_the_transition_witness:
  "project_verified_transition (phys_as_dict default_physiology) (verified_outcome_effects ''REST'' True) True (Fin 1)
    = Inr (phys_as_dict (snd (tick_drift (Fin 1) (apply_outcome_effects (verified_outcome_effects ''REST'' True) default_physiology))))"
proof -
  have "dwf (verified_outcome_effects ''REST'' True)"
    by (simp add: verified_outcome_effects_def OUTCOME_EFFECTS_def dget_def)
  then show ?thesis
    using projection_is_the_transition [OF default_bounded default_double] by (simp add: default_physiology_def)
qed

end
