(* ===== verification/Ledger.thy ===== *)
theory Ledger
  imports Physiology
begin

text \<open>
  \<open>persistence.py\<close>: the event ledger with its hash chain, the snapshots, the checkpoints that replace a compacted prefix, the
  execution journal of the habitat, and transactions. A table of the database is a list of rows in the order of their row
  ids; a query that orders its result sorts the list. A JSON column holds the value its text denotes: what
  \<open>json.loads\<close> gives back for what \<open>json.dumps(\<dots>, sort_keys=True)\<close> wrote, a canonical value. A violated
  \<open>UNIQUE\<close>, \<open>PRIMARY KEY\<close> or \<open>NOT NULL\<close> constraint is \<open>IntegrityError\<close> (SQLite stores a NaN as NULL). The connection is in
  autocommit mode and one thread uses it. \<open>new_id()\<close> is the argument \<open>fresh\<close>.
\<close>

section \<open>Tables\<close>

definition SCHEMA_VERSION :: string where
  "SCHEMA_VERSION = ''1.0.0''"

record event_row =
  er_sequence :: int
  er_event_id :: string
  er_agent_id :: string
  er_event_type :: string
  er_schema_version :: string
  er_monotonic_time :: flt
  er_wall_time :: flt
  er_causal_parent_ids :: "string list"
  er_payload :: pyv
  er_payload_hash :: string
  er_previous_event_hash :: string
  er_event_hash :: string

record snapshot_row =
  ss_snapshot_id :: string
  ss_agent_id :: string
  ss_sequence :: int
  ss_monotonic_time :: flt
  ss_state :: pyv
  ss_state_hash :: string
  ss_protected :: bool

record checkpoint_row =
  cp_checkpoint_id :: string
  cp_agent_id :: string
  cp_checkpoint_epoch :: int
  cp_compacted_sequence_start :: int
  cp_compacted_sequence_end :: int
  cp_compacted_event_count :: int
  cp_previous_checkpoint_hash :: string
  cp_terminal_event_hash :: string
  cp_snapshot_id :: string
  cp_snapshot_state_hash :: string
  cp_habitat_binding :: pyv
  cp_habitat_checkpoint :: "pyv option"
  cp_body_attachment :: pyv
  cp_schema_version :: string
  cp_creation_tick :: int
  cp_creation_wall_time :: flt
  cp_checkpoint_hash :: string

record provenance_row =
  pv_checkpoint_id :: string
  pv_provenance_key :: string
  pv_event :: pyv
  pv_event_hash :: string

record journal_row =
  jr_execution_id :: string
  jr_request_id :: string
  jr_status :: string
  jr_canonical_payload_hash :: string
  jr_payload :: pyv
  jr_transaction_id :: string
  jr_prepared_tick :: int
  jr_outcome_id :: "string option"
  jr_failure_code :: "string option"

text \<open>The three keys of the table \<open>meta\<close> that the ledger uses are fields of the store; \<open>event_storage_budget\<close> is an
  attribute of the object, not of the database.\<close>

record store =
  st_events :: "event_row list"
  st_snapshots :: "snapshot_row list"
  st_checkpoints :: "checkpoint_row list"
  st_provenance :: "provenance_row list"
  st_journal :: "journal_row list"
  st_identity :: "(string \<times> pyv \<times> string) list"
  st_ledger_tip :: "(int \<times> string) option"
  st_latest_snapshot :: "string option"
  st_ledger_checkpoint :: "(string \<times> string) option"
  st_event_storage_budget :: "int option"

definition empty_store :: store where
  "empty_store = \<lparr>st_events = [], st_snapshots = [], st_checkpoints = [], st_provenance = [], st_journal = [], st_identity = [],
     st_ledger_tip = None, st_latest_snapshot = None, st_ledger_checkpoint = None, st_event_storage_budget = None\<rparr>"

section \<open>Transactions\<close>

text \<open>
  The durable stages run in one transaction: an exception in a stage, or the injected crash after stage \<open>n\<close>, rolls every
  stage back. A stage reads and writes the store only.
\<close>

fun run_stages :: "nat \<Rightarrow> nat option \<Rightarrow> (store \<Rightarrow> store res) list \<Rightarrow> store \<Rightarrow> store res" where
  "run_stages i crash [] s = Inr s"
| "run_stages i crash (stage # stages) s =
     andThen (stage s) (\<lambda>t.
       if crash = Some i then Inl (PersistenceError (''crash_injection_after_stage_'' @ nat_str i))
       else run_stages (Suc i) crash stages t)"

definition atomic_outcome :: "nat option \<Rightarrow> (store \<Rightarrow> store res) list \<Rightarrow> (store, unit) method" where
  "atomic_outcome crash_after_stage stages s =
     (case run_stages 1 crash_after_stage stages s of Inl e \<Rightarrow> (Inl e, s) | Inr t \<Rightarrow> (Inr (), t))"

section \<open>Reading the ledger\<close>

definition ordered_events :: "store \<Rightarrow> event_row list" where
  "ordered_events s = sort_key er_sequence (st_events s)"

definition ordered_checkpoints :: "store \<Rightarrow> checkpoint_row list" where
  "ordered_checkpoints s = rev (sort_key cp_checkpoint_epoch (st_checkpoints s))"

definition latest_checkpoint :: "store \<Rightarrow> checkpoint_row option" where
  "latest_checkpoint s = (case ordered_checkpoints s of [] \<Rightarrow> None | c # cs \<Rightarrow> Some c)"

definition has_compacted_prefix :: "store \<Rightarrow> bool" where
  "has_compacted_prefix s \<longleftrightarrow> latest_checkpoint s \<noteq> None"

definition last_sequence :: "store \<Rightarrow> int" where
  "last_sequence s = (case rev (ordered_events s) of
       r # rs \<Rightarrow> er_sequence r
     | [] \<Rightarrow> (case latest_checkpoint s of None \<Rightarrow> 0 | Some c \<Rightarrow> cp_compacted_sequence_end c))"

definition last_event_hash :: "store \<Rightarrow> string" where
  "last_event_hash s = (case rev (ordered_events s) of
       r # rs \<Rightarrow> er_event_hash r
     | [] \<Rightarrow> (case latest_checkpoint s of None \<Rightarrow> ''genesis'' | Some c \<Rightarrow> cp_terminal_event_hash c))"

definition row_to_event :: "event_row \<Rightarrow> pyv" where
  "row_to_event r = VDict
     [(''event_id'', VStr (er_event_id r)), (''agent_id'', VStr (er_agent_id r)),
      (''sequence'', VInt (er_sequence r)), (''event_type'', VStr (er_event_type r)),
      (''schema_version'', VStr (er_schema_version r)), (''monotonic_time'', VFlt (er_monotonic_time r)),
      (''wall_time'', VFlt (er_wall_time r)), (''causal_parent_ids'', v_strs (er_causal_parent_ids r)),
      (''payload'', er_payload r), (''payload_hash'', VStr (er_payload_hash r)),
      (''previous_event_hash'', VStr (er_previous_event_hash r)), (''event_hash'', VStr (er_event_hash r))]"

definition iter_rows :: "int \<Rightarrow> store \<Rightarrow> event_row list" where
  "iter_rows from_sequence s = filter (\<lambda>r. from_sequence \<le> er_sequence r) (ordered_events s)"

definition iter_events :: "int \<Rightarrow> store \<Rightarrow> pyv list" where
  "iter_events from_sequence s = map row_to_event (iter_rows from_sequence s)"

section \<open>Appending\<close>

text \<open>What \<open>event_hash\<close> commits to: the envelope with the payload.\<close>

definition event_body :: "event_row \<Rightarrow> pyv" where
  "event_body r = VDict
     [(''event_id'', VStr (er_event_id r)), (''agent_id'', VStr (er_agent_id r)),
      (''sequence'', VInt (er_sequence r)), (''event_type'', VStr (er_event_type r)),
      (''schema_version'', VStr (er_schema_version r)), (''monotonic_time'', VFlt (er_monotonic_time r)),
      (''wall_time'', VFlt (er_wall_time r)), (''causal_parent_ids'', v_strs (er_causal_parent_ids r)),
      (''payload_hash'', VStr (er_payload_hash r)),
      (''previous_event_hash'', VStr (er_previous_event_hash r)), (''payload'', er_payload r)]"

definition check_event_storage_budget :: "store \<Rightarrow> unit res" where
  "check_event_storage_budget s =
     (case st_event_storage_budget s of None \<Rightarrow> Inr ()
      | Some budget \<Rightarrow> if budget \<le> int (length (st_events s))
          then Inl (MutationRejected ''EVENT_STORAGE_BUDGET_EXCEEDED'') else Inr ())"

definition insert_event :: "event_row \<Rightarrow> store \<Rightarrow> store res" where
  "insert_event r s =
     (if er_monotonic_time r = NaN \<or> er_wall_time r = NaN then Inl (IntegrityError ''NOT NULL constraint failed'')
      else if list_ex (\<lambda>q. er_sequence q = er_sequence r \<or> er_event_id q = er_event_id r) (st_events s)
      then Inl (IntegrityError ''UNIQUE constraint failed'')
      else Inr (s\<lparr>st_events := st_events s @ [r]\<rparr>))"

record new_event =
  ne_agent_id :: string
  ne_event_type :: string
  ne_monotonic_time :: flt
  ne_wall_time :: flt
  ne_payload :: pyv
  ne_causal_parent_ids :: "string list option"
  ne_event_id :: "string option"

definition new_row :: "hash_env \<Rightarrow> string \<Rightarrow> new_event \<Rightarrow> store \<Rightarrow> event_row" where
  "new_row E fresh ev s =
     (let base = \<lparr>er_sequence = last_sequence s + 1,
            er_event_id = or_fresh (ne_event_id ev) fresh, er_agent_id = ne_agent_id ev,
            er_event_type = ne_event_type ev, er_schema_version = SCHEMA_VERSION,
            er_monotonic_time = ne_monotonic_time ev, er_wall_time = ne_wall_time ev,
            er_causal_parent_ids = (case ne_causal_parent_ids ev of None \<Rightarrow> [] | Some ps \<Rightarrow> ps),
            er_payload = canonical (ne_payload ev),
            er_payload_hash = hash_canonical E (ne_payload ev),
            er_previous_event_hash = last_event_hash s, er_event_hash = []\<rparr>
      in base\<lparr>er_event_hash := hash_canonical E (event_body base)\<rparr>)"

text \<open>The two statements of the transaction: the row, and the tip in \<open>meta\<close>.\<close>

definition append_row :: "hash_env \<Rightarrow> string \<Rightarrow> new_event \<Rightarrow> store \<Rightarrow> store res" where
  "append_row E fresh ev s =
     andThen (check_event_storage_budget s) (\<lambda>_.
       let r = new_row E fresh ev s in
       andThen (insert_event r s) (\<lambda>t. Inr (t\<lparr>st_ledger_tip := Some (er_sequence r, er_event_hash r)\<rparr>)))"

definition append_event :: "hash_env \<Rightarrow> string \<Rightarrow> new_event \<Rightarrow> (store, pyv) method" where
  "append_event E fresh ev s =
     (case append_row E fresh ev s of Inl e \<Rightarrow> (Inl e, s)
      | Inr t \<Rightarrow> (Inr (row_to_event (new_row E fresh ev s)), t))"

section \<open>Snapshots\<close>

definition save_snapshot :: "hash_env \<Rightarrow> string \<Rightarrow> string \<Rightarrow> int \<Rightarrow> flt \<Rightarrow> pyv \<Rightarrow> bool \<Rightarrow> (store, string) method" where
  "save_snapshot E sid agent_id sequence monotonic_time state protected s =
     (if monotonic_time = NaN \<or> list_ex (\<lambda>q. ss_snapshot_id q = sid) (st_snapshots s)
      then (Inl (IntegrityError ''snapshots''), s)
      else (Inr sid, s\<lparr>st_snapshots := st_snapshots s @
          [\<lparr>ss_snapshot_id = sid, ss_agent_id = agent_id, ss_sequence = sequence, ss_monotonic_time = monotonic_time,
            ss_state = canonical state, ss_state_hash = hash_canonical E state, ss_protected = protected\<rparr>],
          st_latest_snapshot := Some sid\<rparr>))"

text \<open>\<open>ORDER BY sequence DESC, rowid DESC\<close>.\<close>

definition newest_first :: "snapshot_row list \<Rightarrow> snapshot_row list" where
  "newest_first rows = rev (sort_key ss_sequence rows)"

definition prune_snapshots :: "int \<Rightarrow> (store, int) method" where
  "prune_snapshots keep s =
     (if keep < 1 then (Inl (ValueError ''keep_must_be_positive''), s)
      else
        let rows = newest_first (st_snapshots s);
            ordinary = filter (\<lambda>r. \<not> ss_protected r) rows
        in if int (length ordinary) \<le> keep then (Inr 0, s)
           else
             let drop_ids = map ss_snapshot_id (drop (nat keep) ordinary)
             in (Inr (int (length drop_ids)),
                 s\<lparr>st_snapshots := filter (\<lambda>r. ss_snapshot_id r \<notin> set drop_ids) (st_snapshots s),
                   st_latest_snapshot := Some (ss_snapshot_id (hd rows))\<rparr>))"

definition find_snapshot :: "string \<Rightarrow> store \<Rightarrow> snapshot_row option" where
  "find_snapshot sid s = List.find (\<lambda>r. ss_snapshot_id r = sid) (st_snapshots s)"

definition load_snapshot :: "hash_env \<Rightarrow> string option \<Rightarrow> store \<Rightarrow> snapshot_row res" where
  "load_snapshot E snapshot_id s =
     andThen (case snapshot_id of Some i \<Rightarrow> Inr i
       | None \<Rightarrow> (case st_latest_snapshot s of None \<Rightarrow> Inl (PersistenceError ''no_snapshot'') | Some i \<Rightarrow> Inr i)) (\<lambda>i.
     case find_snapshot i s of
       None \<Rightarrow> Inl (PersistenceError ''snapshot_missing'')
     | Some r \<Rightarrow> if hash_canonical E (ss_state r) \<noteq> ss_state_hash r
         then Inl (PersistenceError ''snapshot_hash_mismatch'') else Inr r)"

section \<open>Validation\<close>

definition checkpoint_envelope :: "checkpoint_row \<Rightarrow> pyv" where
  "checkpoint_envelope c = VDict
     [(''checkpoint_id'', VStr (cp_checkpoint_id c)), (''agent_id'', VStr (cp_agent_id c)),
      (''checkpoint_epoch'', VInt (cp_checkpoint_epoch c)),
      (''compacted_sequence_start'', VInt (cp_compacted_sequence_start c)),
      (''compacted_sequence_end'', VInt (cp_compacted_sequence_end c)),
      (''compacted_event_count'', VInt (cp_compacted_event_count c)),
      (''previous_checkpoint_hash'', VStr (cp_previous_checkpoint_hash c)),
      (''terminal_event_hash'', VStr (cp_terminal_event_hash c)),
      (''snapshot_id'', VStr (cp_snapshot_id c)), (''snapshot_state_hash'', VStr (cp_snapshot_state_hash c)),
      (''habitat_binding'', cp_habitat_binding c),
      (''habitat_checkpoint'', v_opt (\<lambda>v. v) (cp_habitat_checkpoint c)),
      (''body_attachment'', cp_body_attachment c), (''schema_version'', VStr (cp_schema_version c)),
      (''creation_tick'', VInt (cp_creation_tick c)), (''creation_wall_time'', VFlt (cp_creation_wall_time c))]"

definition validate_latest_checkpoint :: "hash_env \<Rightarrow> store \<Rightarrow> checkpoint_row option res" where
  "validate_latest_checkpoint E s =
     (case latest_checkpoint s of None \<Rightarrow> Inr None
      | Some c \<Rightarrow>
          if hash_canonical E (checkpoint_envelope c) \<noteq> cp_checkpoint_hash c
          then Inl (PersistenceError ''checkpoint_hash_mismatch'')
          else andThen (load_snapshot E (Some (cp_snapshot_id c)) s) (\<lambda>snapshot.
            if ss_state_hash snapshot \<noteq> cp_snapshot_state_hash c
            then Inl (PersistenceError ''checkpoint_snapshot_hash_mismatch'')
            else if ss_sequence snapshot < cp_compacted_sequence_end c
            then Inl (PersistenceError ''checkpoint_snapshot_precedes_prefix'')
            else Inr (Some c)))"

fun validate_rows :: "hash_env \<Rightarrow> string \<Rightarrow> int \<Rightarrow> event_row list \<Rightarrow> (string \<times> int) res" where
  "validate_rows E prev_hash expect_seq [] = Inr (prev_hash, expect_seq)"
| "validate_rows E prev_hash expect_seq (r # rs) =
     (if er_sequence r \<noteq> expect_seq
      then Inl (PersistenceError (''sequence_gap:expected_'' @ int_str expect_seq @ ''_got_'' @ int_str (er_sequence r)))
      else if hash_canonical E (er_payload r) \<noteq> er_payload_hash r
      then Inl (PersistenceError (''payload_hash_mismatch:seq_'' @ int_str (er_sequence r)))
      else if er_previous_event_hash r \<noteq> prev_hash
      then Inl (PersistenceError (''chain_break:seq_'' @ int_str (er_sequence r)))
      else if hash_canonical E (event_body r) \<noteq> er_event_hash r
      then Inl (PersistenceError (''event_hash_mismatch:seq_'' @ int_str (er_sequence r)))
      else validate_rows E (er_event_hash r) (expect_seq + 1) rs)"

definition validate_chain :: "hash_env \<Rightarrow> store \<Rightarrow> unit res" where
  "validate_chain E s =
     andThen (validate_latest_checkpoint E s) (\<lambda>checkpoint.
     let from_sequence = (case checkpoint of None \<Rightarrow> 1 | Some c \<Rightarrow> cp_compacted_sequence_end c + 1);
         prev_hash = (case checkpoint of None \<Rightarrow> ''genesis'' | Some c \<Rightarrow> cp_terminal_event_hash c)
     in andThen (validate_rows E prev_hash from_sequence (iter_rows from_sequence s)) (\<lambda>(prev, expect).
        case st_ledger_tip s of None \<Rightarrow> Inr ()
        | Some tip \<Rightarrow> if tip \<noteq> (expect - 1, prev) then Inl (PersistenceError ''ledger_tip_mismatch'') else Inr ()))"

section \<open>Provenance\<close>

text \<open>All strings of a snapshot, keys included.\<close>

primrec snapshot_strings :: "pyv \<Rightarrow> string list" where
  "snapshot_strings VNone = []"
| "snapshot_strings (VBool b) = []"
| "snapshot_strings (VInt i) = []"
| "snapshot_strings (VFlt x) = []"
| "snapshot_strings (VStr s) = [s]"
| "snapshot_strings (VList xs) = concat (map snapshot_strings xs)"
| "snapshot_strings (VDict d) = concat (map (\<lambda>(k, ss). k # ss) (map (map_prod id snapshot_strings) d))"

definition events_referenced_by_snapshot :: "snapshot_row \<Rightarrow> store \<Rightarrow> pyv dict" where
  "events_referenced_by_snapshot snapshot s =
     (let candidates = set (snapshot_strings (ss_state snapshot))
      in map (\<lambda>r. (er_event_id r, row_to_event r)) (filter (\<lambda>r. er_event_id r \<in> candidates) (st_events s)))"

definition checkpoint_provenance :: "string option \<Rightarrow> store \<Rightarrow> (string \<times> pyv) list res" where
  "checkpoint_provenance checkpoint_id s =
     (let latest = (if checkpoint_id = None then map_option cp_checkpoint_id (latest_checkpoint s) else None);
          selected = (case checkpoint_id of Some i \<Rightarrow> if i \<noteq> [] then Some i else latest | None \<Rightarrow> latest)
      in case selected of None \<Rightarrow> Inr []
         | Some cid \<Rightarrow>
             mapE (\<lambda>row. andThen (andThen (get_or (pv_event row) ''event_hash'' VNone) as_str) (\<lambda>h.
                 if h \<noteq> pv_event_hash row then Inl (PersistenceError ''checkpoint_provenance_hash_mismatch'')
                 else Inr (pv_provenance_key row, pv_event row)))
               (sort_key pv_provenance_key (filter (\<lambda>p. pv_checkpoint_id p = cid) (st_provenance s))))"

text \<open>\<open>max(candidates, key=sequence)\<close>: the first of the largest.\<close>

fun max_event :: "(pyv \<times> int) option \<Rightarrow> pyv list \<Rightarrow> (pyv \<times> int) option res" where
  "max_event best [] = Inr best"
| "max_event best (ev # evs) =
     andThen (fld ev ''sequence'' as_int) (\<lambda>n.
       case best of None \<Rightarrow> max_event (Some (ev, n)) evs
       | Some (b, m) \<Rightarrow> if m < n then max_event (Some (ev, n)) evs else max_event best evs)"

definition last_event_of_types :: "string list \<Rightarrow> store \<Rightarrow> pyv option res" where
  "last_event_of_types event_types s =
     (let tail_row = (case rev (filter (\<lambda>r. er_event_type r \<in> set event_types) (ordered_events s)) of
          [] \<Rightarrow> None | r # rs \<Rightarrow> Some r)
      in andThen (case latest_checkpoint s of None \<Rightarrow> Inr None
           | Some c \<Rightarrow> andThen (checkpoint_provenance (Some (cp_checkpoint_id c)) s) (\<lambda>items.
               max_event None (filter (\<lambda>ev. list_ex (\<lambda>t. get_or ev ''event_type'' VNone = Inr (VStr t)) event_types)
                 (map snd items)))) (\<lambda>checkpoint_event.
         Inr (case (tail_row, checkpoint_event) of
             (None, None) \<Rightarrow> None
           | (None, Some (ev, n)) \<Rightarrow> Some ev
           | (Some r, None) \<Rightarrow> Some (row_to_event r)
           | (Some r, Some (ev, n)) \<Rightarrow> if n \<le> er_sequence r then Some (row_to_event r) else Some ev)))"

section \<open>Compaction\<close>

definition has_prepared_habitat_execution :: "store \<Rightarrow> bool" where
  "has_prepared_habitat_execution s = list_ex (\<lambda>r. jr_status r = ''PREPARED'') (st_journal s)"

record compaction =
  cq_agent_id :: string
  cq_snapshot_id :: string
  cq_creation_tick :: int
  cq_creation_wall_time :: flt
  cq_habitat_binding :: "pyv option"
  cq_habitat_checkpoint :: "pyv option"
  cq_body_attachment :: "pyv option"
  cq_protected_event_types :: "string list"
  cq_keep_checkpoints :: int
  cq_crash_after :: "string option"

text \<open>\<open>dict(x or {})\<close>, and \<open>dict(x) if x else None\<close>.\<close>

definition or_empty :: "pyv option \<Rightarrow> pyv" where
  "or_empty v = (case v of None \<Rightarrow> VDict [] | Some d \<Rightarrow> or_else d (VDict []))"

definition if_truthy :: "pyv option \<Rightarrow> pyv option" where
  "if_truthy v = (case v of None \<Rightarrow> None | Some d \<Rightarrow> if truthy d then Some d else None)"

text \<open>Step by step: the provenance to carry over, the new row, the transaction, the removal of old anchors.\<close>

definition protected_provenance ::
  "compaction \<Rightarrow> checkpoint_row option \<Rightarrow> snapshot_row \<Rightarrow> store \<Rightarrow> pyv dict res" where
  "protected_provenance q previous snapshot s =
     andThen (case previous of None \<Rightarrow> Inr []
       | Some c \<Rightarrow> andThen (checkpoint_provenance (Some (cp_checkpoint_id c)) s) (foldE (\<lambda>protected (key, event).
           if take 11 key = ''event_type:'' then Inr (dput key event protected)
           else andThen (fld event ''event_id'' as_str) (\<lambda>i.
             Inr (if i \<in> set (snapshot_strings (ss_state snapshot)) then dput key event protected else protected)))
           [])) (\<lambda>carried.
     andThen (foldE (\<lambda>protected event_type. andThen (last_event_of_types [event_type] s) (\<lambda>event.
         Inr (case event of None \<Rightarrow> protected | Some ev \<Rightarrow> dput (''event_type:'' @ event_type) ev protected)))
       carried (cq_protected_event_types q)) (\<lambda>typed.
     Inr (fold (\<lambda>(event_id, event). dput (''active_event:'' @ event_id) event)
       (events_referenced_by_snapshot snapshot s) typed)))"

definition new_checkpoint ::
  "hash_env \<Rightarrow> string \<Rightarrow> compaction \<Rightarrow> checkpoint_row option \<Rightarrow> snapshot_row \<Rightarrow> int \<Rightarrow> event_row list \<Rightarrow> checkpoint_row" where
  "new_checkpoint E checkpoint_id q previous snapshot start rows =
     (let base = \<lparr>cp_checkpoint_id = checkpoint_id, cp_agent_id = cq_agent_id q,
            cp_checkpoint_epoch = (case previous of None \<Rightarrow> 1 | Some c \<Rightarrow> cp_checkpoint_epoch c + 1),
            cp_compacted_sequence_start = start, cp_compacted_sequence_end = ss_sequence snapshot,
            cp_compacted_event_count = int (length rows),
            cp_previous_checkpoint_hash = (case previous of None \<Rightarrow> ''genesis'' | Some c \<Rightarrow> cp_checkpoint_hash c),
            cp_terminal_event_hash = er_event_hash (last rows), cp_snapshot_id = cq_snapshot_id q,
            cp_snapshot_state_hash = ss_state_hash snapshot,
            cp_habitat_binding = canonical (or_empty (cq_habitat_binding q)),
            cp_habitat_checkpoint = map_option canonical (if_truthy (cq_habitat_checkpoint q)),
            cp_body_attachment = canonical (or_empty (cq_body_attachment q)),
            cp_schema_version = SCHEMA_VERSION, cp_creation_tick = cq_creation_tick q,
            cp_creation_wall_time = cq_creation_wall_time q, cp_checkpoint_hash = []\<rparr>
      in base\<lparr>cp_checkpoint_hash := hash_canonical E (checkpoint_envelope base)\<rparr>)"

definition set_protected :: "bool \<Rightarrow> string \<Rightarrow> store \<Rightarrow> store" where
  "set_protected b sid s =
     s\<lparr>st_snapshots := map (\<lambda>r. if ss_snapshot_id r = sid then r\<lparr>ss_protected := b\<rparr> else r) (st_snapshots s)\<rparr>"

definition insert_checkpoint :: "checkpoint_row \<Rightarrow> store \<Rightarrow> store res" where
  "insert_checkpoint c s =
     (if cp_creation_wall_time c = NaN
        \<or> list_ex (\<lambda>d. cp_checkpoint_id d = cp_checkpoint_id c \<or> cp_checkpoint_epoch d = cp_checkpoint_epoch c)
            (st_checkpoints s)
      then Inl (IntegrityError ''ledger_checkpoints'')
      else Inr (s\<lparr>st_checkpoints := st_checkpoints s @ [c]\<rparr>))"

definition insert_provenance :: "string \<Rightarrow> store \<Rightarrow> string \<times> pyv \<Rightarrow> store res" where
  "insert_provenance checkpoint_id s = (\<lambda>(key, event).
     andThen (fld event ''event_hash'' as_str) (\<lambda>h.
     if list_ex (\<lambda>p. pv_checkpoint_id p = checkpoint_id \<and> pv_provenance_key p = key) (st_provenance s)
     then Inl (IntegrityError ''checkpoint_provenance'')
     else Inr (s\<lparr>st_provenance := st_provenance s @
       [\<lparr>pv_checkpoint_id = checkpoint_id, pv_provenance_key = key, pv_event = canonical event, pv_event_hash = h\<rparr>]\<rparr>)))"

definition commit_checkpoint :: "checkpoint_row \<Rightarrow> pyv dict \<Rightarrow> string option \<Rightarrow> store \<Rightarrow> store res" where
  "commit_checkpoint c protected crash_after s =
     andThen (insert_checkpoint c (set_protected True (cp_snapshot_id c) s)) (\<lambda>s1.
     andThen (foldE (insert_provenance (cp_checkpoint_id c)) s1 protected) (\<lambda>s2.
     if crash_after = Some ''checkpoint_commit'' then Inl (PersistenceError ''crash_injection_checkpoint_commit'')
     else
       let s3 = s2\<lparr>st_events := filter (\<lambda>r. \<not> er_sequence r \<le> cp_compacted_sequence_end c) (st_events s2)\<rparr>
       in if crash_after = Some ''prefix_removal'' then Inl (PersistenceError ''crash_injection_prefix_removal'')
          else Inr (s3\<lparr>st_ledger_checkpoint := Some (cp_checkpoint_id c, cp_checkpoint_hash c)\<rparr>)))"

definition drop_checkpoint :: "checkpoint_row \<Rightarrow> store \<Rightarrow> store" where
  "drop_checkpoint old s =
     (let s1 = s\<lparr>st_provenance := filter (\<lambda>p. pv_checkpoint_id p \<noteq> cp_checkpoint_id old) (st_provenance s),
            st_checkpoints := filter (\<lambda>d. cp_checkpoint_id d \<noteq> cp_checkpoint_id old) (st_checkpoints s)\<rparr>
      in if list_ex (\<lambda>d. cp_snapshot_id d = cp_snapshot_id old) (st_checkpoints s1) then s1
         else set_protected False (cp_snapshot_id old) s1)"

definition drop_old_checkpoints :: "string \<Rightarrow> int \<Rightarrow> store \<Rightarrow> store" where
  "drop_old_checkpoints checkpoint_id keep s =
     fold drop_checkpoint
       (drop (nat (keep - 1)) (filter (\<lambda>d. cp_checkpoint_id d \<noteq> checkpoint_id) (ordered_checkpoints s))) s"

definition checkpoint_result :: "checkpoint_row \<Rightarrow> int \<Rightarrow> pyv" where
  "checkpoint_result c n =
     (case checkpoint_envelope c of VDict d \<Rightarrow>
        VDict (d @ [(''checkpoint_hash'', VStr (cp_checkpoint_hash c)), (''protected_provenance_count'', VInt n)])
      | v \<Rightarrow> v)"

text \<open>The checks of \<open>compact_authoritative_prefix\<close> before anything is written: what is to be compacted, if anything.\<close>

definition plan_compaction ::
  "hash_env \<Rightarrow> compaction \<Rightarrow> store \<Rightarrow> (checkpoint_row option \<times> snapshot_row \<times> int \<times> event_row list) option res" where
  "plan_compaction E q s =
     (if cq_keep_checkpoints q < 1 then Inl (ValueError ''keep_checkpoints_must_be_positive'')
      else if has_prepared_habitat_execution s then Inl (PersistenceError ''compaction_prepared_habitat_execution'')
      else andThen (validate_chain E s) (\<lambda>_.
      andThen (load_snapshot E (Some (cq_snapshot_id q)) s) (\<lambda>snapshot.
      if ss_agent_id snapshot \<noteq> cq_agent_id q then Inl (PersistenceError ''checkpoint_snapshot_agent_mismatch'')
      else if ss_sequence snapshot \<noteq> last_sequence s
      then Inl (PersistenceError ''checkpoint_snapshot_not_current_tip'')
      else
        let previous = latest_checkpoint s;
            start = (case previous of None \<Rightarrow> 1 | Some c \<Rightarrow> cp_compacted_sequence_end c + 1);
            through = ss_sequence snapshot
        in if through < start then Inr None
           else
             let rows = filter (\<lambda>r. start \<le> er_sequence r \<and> er_sequence r \<le> through) (ordered_events s)
             in if rows = [] then Inl (PersistenceError ''checkpoint_missing_hot_tail'')
                else if er_sequence (hd rows) \<noteq> start \<or> er_sequence (last rows) \<noteq> through
                then Inl (PersistenceError ''checkpoint_tail_sequence_gap'')
                else Inr (Some (previous, snapshot, start, rows)))))"

definition compact_authoritative_prefix ::
  "hash_env \<Rightarrow> string \<Rightarrow> compaction \<Rightarrow> (store, pyv option) method" where
  "compact_authoritative_prefix E checkpoint_id q s =
     (case plan_compaction E q s of Inl e \<Rightarrow> (Inl e, s) | Inr None \<Rightarrow> (Inr None, s)
      | Inr (Some (previous, snapshot, start, rows)) \<Rightarrow>
     (case protected_provenance q previous snapshot s of Inl e \<Rightarrow> (Inl e, s) | Inr protected \<Rightarrow>
        let c = new_checkpoint E checkpoint_id q previous snapshot start rows
        in if cq_crash_after q = Some ''checkpoint_prepared''
           then (Inl (PersistenceError ''crash_injection_checkpoint_prepared''), s)
           else case commit_checkpoint c protected (cq_crash_after q) s of Inl e \<Rightarrow> (Inl e, s)
           | Inr s1 \<Rightarrow>
               let s2 = drop_old_checkpoints checkpoint_id (cq_keep_checkpoints q) s1
               in (case prune_snapshots 2 s2 of (Inl e, s3) \<Rightarrow> (Inl e, s3)
                   | (Inr _, s3) \<Rightarrow>
                       (case validate_chain E s3 of Inl e \<Rightarrow> (Inl e, s3)
                        | Inr _ \<Rightarrow> (Inr (Some (checkpoint_result c (int (length protected)))), s3)))))"

definition reclaim_physical_storage :: "hash_env \<Rightarrow> string option \<Rightarrow> store \<Rightarrow> unit res" where
  "reclaim_physical_storage E crash_after s =
     andThen (validate_latest_checkpoint E s) (\<lambda>_.
     if crash_after = Some ''before_vacuum'' then Inl (PersistenceError ''crash_injection_before_vacuum'')
     else if crash_after = Some ''after_vacuum'' then Inl (PersistenceError ''crash_injection_after_vacuum'')
     else validate_chain E s)"

section \<open>Identity\<close>

text \<open>\<open>identity.py\<close>: the constitutional record of an agent and its commitment.\<close>

definition FORBIDDEN_IDENTITY_FIELDS :: "string list" where
  "FORBIDDEN_IDENTITY_FIELDS =
     [''personality'', ''memories'', ''model'', ''body'', ''skills'', ''preferences'', ''mood'', ''physiology'', ''energy'',
      ''fatigue'', ''integrity'', ''stimulation'', ''big_five'', ''current_model'', ''current_body'', ''risk_appetite'',
      ''verbosity'', ''persona_name'', ''learned_preferences'']"

record constitutional_identity =
  ci_agent_id :: string
  ci_lineage_id :: string
  ci_birth_event_id :: string
  ci_schema_version :: string
  ci_created_at :: flt
  ci_lifecycle_sequence :: int
  ci_identity_commitment :: string

definition identity_as_dict :: "constitutional_identity \<Rightarrow> pyv dict" where
  "identity_as_dict c =
     [(''agent_id'', VStr (ci_agent_id c)), (''lineage_id'', VStr (ci_lineage_id c)),
      (''birth_event_id'', VStr (ci_birth_event_id c)), (''schema_version'', VStr (ci_schema_version c)),
      (''created_at'', VFlt (ci_created_at c)), (''lifecycle_sequence'', VInt (ci_lifecycle_sequence c)),
      (''identity_commitment'', VStr (ci_identity_commitment c))]"

definition commitment_payload :: "constitutional_identity \<Rightarrow> pyv dict" where
  "commitment_payload c = dpop ''identity_commitment'' (identity_as_dict c)"

definition forbid_fields :: "pyv dict \<Rightarrow> unit res" where
  "forbid_fields d = (case List.find (\<lambda>(k, v). k \<in> set FORBIDDEN_IDENTITY_FIELDS) d of
     None \<Rightarrow> Inr () | Some (k, v) \<Rightarrow> Inl (IdentityError (''forbidden_constitutional_field:'' @ k)))"

definition compute_commitment :: "hash_env \<Rightarrow> pyv dict \<Rightarrow> string res" where
  "compute_commitment E fs =
     (let clean = filter (\<lambda>(k, v). k \<noteq> ''identity_commitment'') fs
      in andThen (forbid_fields clean) (\<lambda>_. Inr (hash_canonical E (VDict clean))))"

definition deterministic_id :: "hash_env \<Rightarrow> int \<Rightarrow> string \<Rightarrow> string" where
  "deterministic_id E seed label =
     (let h = sha256_hex E (''umbra:'' @ label @ '':'' @ int_str seed)
      in take 8 h @ ''-'' @ take 4 (drop 8 h) @ ''-'' @ take 4 (drop 12 h) @ ''-'' @ take 4 (drop 16 h) @ ''-''
         @ take 12 (drop 20 h))"

definition create_birth ::
  "hash_env \<Rightarrow> (nat \<Rightarrow> string) \<Rightarrow> flt \<Rightarrow> string option \<Rightarrow> string option \<Rightarrow> string option \<Rightarrow> int option
    \<Rightarrow> constitutional_identity res" where
  "create_birth E fresh created_at lineage_id agent_id birth_event_id seed =
     (let aid = (case (agent_id, seed) of (None, Some n) \<Rightarrow> deterministic_id E n ''agent''
            | _ \<Rightarrow> or_fresh agent_id (fresh 0));
          lid = or_fresh lineage_id aid;
          bid = (case (birth_event_id, seed) of (None, Some n) \<Rightarrow> deterministic_id E n ''birth''
            | _ \<Rightarrow> or_fresh birth_event_id (fresh 1))
      in andThen (case seed of None \<Rightarrow> Inr created_at
           | Some n \<Rightarrow> andThen (float_of_int n) (\<lambda>x.
               Inr (flt_add (Fin 1700000000) (flt_mult x (flit 1 1000000))))) (\<lambda>created.
         let base = \<lparr>ci_agent_id = aid, ci_lineage_id = lid, ci_birth_event_id = bid,
               ci_schema_version = SCHEMA_VERSION, ci_created_at = created, ci_lifecycle_sequence = 0,
               ci_identity_commitment = []\<rparr>
         in andThen (compute_commitment E (commitment_payload base)) (\<lambda>commitment.
            Inr (base\<lparr>ci_identity_commitment := commitment\<rparr>))))"

definition verify_identity :: "hash_env \<Rightarrow> constitutional_identity \<Rightarrow> unit res" where
  "verify_identity E c =
     andThen (compute_commitment E (commitment_payload c)) (\<lambda>expected.
     if expected \<noteq> ci_identity_commitment c then Inl (IdentityError ''identity_commitment_mismatch'')
     else forbid_fields (identity_as_dict c))"

definition identity_from_dict :: "hash_env \<Rightarrow> pyv \<Rightarrow> constitutional_identity res" where
  "identity_from_dict E v =
     andThen (as_dict v) (\<lambda>d.
     andThen (forbid_fields d) (\<lambda>_.
     andThen (foldE (\<lambda>_ k. if map_of d k = None then Inl (IdentityError (''missing_field:'' @ k)) else Inr ()) ()
       [''agent_id'', ''lineage_id'', ''birth_event_id'', ''schema_version'', ''created_at'', ''lifecycle_sequence'',
        ''identity_commitment'']) (\<lambda>_.
     andThen (fld v ''agent_id'' as_str) (\<lambda>agent_id.
     andThen (fld v ''lineage_id'' as_str) (\<lambda>lineage_id.
     andThen (fld v ''birth_event_id'' as_str) (\<lambda>birth_event_id.
     andThen (fld v ''schema_version'' as_str) (\<lambda>schema_version.
     andThen (fld v ''created_at'' as_float) (\<lambda>created_at.
     andThen (fld v ''lifecycle_sequence'' as_int) (\<lambda>lifecycle_sequence.
     andThen (fld v ''identity_commitment'' as_str) (\<lambda>identity_commitment.
     let ident = \<lparr>ci_agent_id = agent_id, ci_lineage_id = lineage_id, ci_birth_event_id = birth_event_id,
           ci_schema_version = schema_version, ci_created_at = created_at,
           ci_lifecycle_sequence = lifecycle_sequence, ci_identity_commitment = identity_commitment\<rparr>
     in andThen (verify_identity E ident) (\<lambda>_. Inr ident)))))))))))"

text \<open>\<open>INSERT OR REPLACE\<close> by primary key: the old row goes, the new one comes last.\<close>

definition save_identity :: "constitutional_identity \<Rightarrow> store \<Rightarrow> store" where
  "save_identity c s = s\<lparr>st_identity := filter (\<lambda>(i, record_value, commitment). i \<noteq> ci_agent_id c) (st_identity s)
     @ [(ci_agent_id c, canonical (VDict (identity_as_dict c)), ci_identity_commitment c)]\<rparr>"

definition load_identity :: "hash_env \<Rightarrow> store \<Rightarrow> constitutional_identity res" where
  "load_identity E s =
     (case st_identity s of [] \<Rightarrow> Inl (IdentityError ''no_identity'')
      | (i, data, commitment) # rest \<Rightarrow>
          andThen (get_or data ''identity_commitment'' VNone) (\<lambda>c.
          if c \<noteq> VStr commitment then Inl (IdentityError ''identity_row_commitment_mismatch'')
          else identity_from_dict E data))"

section \<open>Provenance of social evidence\<close>

record social_evidence_row =
  sl_link_id :: string
  sl_agent_id :: string
  sl_hypothesis_id :: string
  sl_context :: string
  sl_signal :: string
  sl_episode_id :: string
  sl_pending_interaction_id :: string
  sl_classification :: string
  sl_relation :: string
  sl_tick :: int

record social_lineage_row =
  sp_link_id :: string
  sp_agent_id :: string
  sp_operation :: string
  sp_result_hypothesis_id :: string
  sp_source_hypothesis_id :: string
  sp_tick :: int

text \<open>The two tables, with the constraint that guards against counting an episode twice.\<close>

definition insert_social_evidence_link ::
  "social_evidence_row \<Rightarrow> social_evidence_row list \<Rightarrow> social_evidence_row list res" where
  "insert_social_evidence_link r rows =
     (if list_ex (\<lambda>q. sl_link_id q = sl_link_id r
          \<or> (sl_hypothesis_id q = sl_hypothesis_id r \<and> sl_context q = sl_context r \<and> sl_signal q = sl_signal r
             \<and> sl_episode_id q = sl_episode_id r \<and> sl_relation q = sl_relation r)) rows
      then Inl (IntegrityError ''social_evidence_links'') else Inr (rows @ [r]))"

definition social_evidence_links_for :: "string \<Rightarrow> social_evidence_row list \<Rightarrow> social_evidence_row list" where
  "social_evidence_links_for hypothesis_id rows = filter (\<lambda>r. sl_hypothesis_id r = hypothesis_id) rows"

definition insert_social_hypothesis_provenance_link ::
  "social_lineage_row \<Rightarrow> social_lineage_row list \<Rightarrow> social_lineage_row list res" where
  "insert_social_hypothesis_provenance_link r rows =
     (if list_ex (\<lambda>q. sp_link_id q = sp_link_id r
          \<or> (sp_operation q = sp_operation r \<and> sp_result_hypothesis_id q = sp_result_hypothesis_id r
             \<and> sp_source_hypothesis_id q = sp_source_hypothesis_id r)) rows
      then Inl (IntegrityError ''social_hypothesis_provenance_links'') else Inr (rows @ [r]))"

definition social_hypothesis_provenance_links_for :: "string \<Rightarrow> social_lineage_row list \<Rightarrow> social_lineage_row list" where
  "social_hypothesis_provenance_links_for hypothesis_id rows =
     filter (\<lambda>r. sp_result_hypothesis_id r = hypothesis_id) rows"

section \<open>The execution journal\<close>

text \<open>\<open>VerifiedOutcome\<close> of \<open>governance.py\<close>, which the ledger reads back.\<close>

record verified_outcome =
  vo_outcome_id :: string
  vo_capability :: string
  vo_success :: bool
  vo_reason :: string
  vo_physiology_effects :: "flt dict"
  vo_raw :: "pyv dict"
  vo_verified :: bool

definition insert_journal_prepared :: "journal_row \<Rightarrow> store \<Rightarrow> store res" where
  "insert_journal_prepared r s =
     (if list_ex (\<lambda>q. jr_execution_id q = jr_execution_id r \<or> jr_request_id q = jr_request_id r) (st_journal s)
      then Inl (IntegrityError ''habitat_execution_journal'')
      else Inr (s\<lparr>st_journal := st_journal s @ [r]\<rparr>))"

definition get_journal :: "string \<Rightarrow> store \<Rightarrow> journal_row option" where
  "get_journal execution_id s = List.find (\<lambda>r. jr_execution_id r = execution_id) (st_journal s)"

definition get_journal_by_request :: "string \<Rightarrow> store \<Rightarrow> journal_row option" where
  "get_journal_by_request request_id s = List.find (\<lambda>r. jr_request_id r = request_id) (st_journal s)"

definition update_journal_terminal :: "string \<Rightarrow> string \<Rightarrow> string option \<Rightarrow> string option \<Rightarrow> store \<Rightarrow> store" where
  "update_journal_terminal execution_id status outcome_id failure_code s =
     s\<lparr>st_journal := map (\<lambda>r. if jr_execution_id r = execution_id
         then r\<lparr>jr_status := status, jr_outcome_id := outcome_id, jr_failure_code := failure_code\<rparr> else r) (st_journal s)\<rparr>"

record commit_evidence =
  ce_status :: string
  ce_outcome_id :: "string option"
  ce_failure_code :: "string option"

text \<open>The newest verified outcome of this execution and transaction.\<close>

definition matches_execution :: "string \<Rightarrow> string \<Rightarrow> pyv \<Rightarrow> bool" where
  "matches_execution execution_id transaction_id payload \<longleftrightarrow>
     get_or payload ''execution_id'' VNone = Inr (VStr execution_id)
     \<and> andThen (get_or payload ''raw'' VNone) (\<lambda>v. get_or (or_else v (VDict [])) ''transaction_id'' VNone) = Inr (VStr transaction_id)"

definition find_commit_evidence :: "string \<Rightarrow> string \<Rightarrow> string \<Rightarrow> store \<Rightarrow> commit_evidence option res" where
  "find_commit_evidence execution_id transaction_id agent_id s =
     (case List.find (\<lambda>r. matches_execution execution_id transaction_id (er_payload r))
         (rev (filter (\<lambda>r. er_agent_id r = agent_id \<and> er_event_type r = ''outcome_verified'') (ordered_events s))) of
        None \<Rightarrow> Inr None
      | Some r \<Rightarrow>
          andThen (get_or (er_payload r) ''success'' VNone) (\<lambda>success.
          andThen (fld_or (er_payload r) ''outcome_id'' VNone (opt_conv plain_str)) (\<lambda>outcome_id.
          andThen (fld_or (er_payload r) ''reason'' VNone (opt_conv plain_str)) (\<lambda>reason.
          Inr (Some \<lparr>ce_status = (if truthy success then ''COMMITTED_SUCCESS'' else ''COMMITTED_FAILURE''),
            ce_outcome_id = outcome_id, ce_failure_code = (if truthy success then None else reason)\<rparr>)))))"

text \<open>\<open>LIKE 'habitat_%'\<close>: case does not matter and the underscore stands for any one character.\<close>

definition ascii_lower :: "char \<Rightarrow> char" where
  "ascii_lower c = (let n = (of_char c :: nat) in if 65 \<le> n \<and> n \<le> 90 then char_of (n + 32) else c)"

definition like_habitat :: "string \<Rightarrow> bool" where
  "like_habitat ty \<longleftrightarrow> 8 \<le> length ty \<and> map ascii_lower (take 7 ty) = ''habitat''"

definition list_habitat_events_for_execution :: "string \<Rightarrow> string \<Rightarrow> string \<Rightarrow> store \<Rightarrow> pyv list" where
  "list_habitat_events_for_execution agent_id execution_id transaction_id s =
     map (\<lambda>r. VDict [(''event_type'', VStr (er_event_type r)), (''payload'', er_payload r)])
       (filter (\<lambda>r. er_agent_id r = agent_id \<and> like_habitat (er_event_type r)
            \<and> er_event_type r \<noteq> ''habitat_body_zone_transitioned''
            \<and> get_or (er_payload r) ''execution_id'' VNone = Inr (VStr execution_id)
            \<and> get_or (er_payload r) ''transaction_id'' VNone = Inr (VStr transaction_id)) (ordered_events s))"

definition outcome_from_payload :: "string \<Rightarrow> pyv \<Rightarrow> verified_outcome res" where
  "outcome_from_payload outcome_id payload =
     andThen (fld_or payload ''outcome_id'' (VStr outcome_id) as_str) (\<lambda>oid.
     andThen (fld_or payload ''capability'' (VStr ''MANIPULATE'') as_str) (\<lambda>capability.
     andThen (fld_or payload ''success'' VNone as_bool) (\<lambda>success.
     andThen (fld_or payload ''reason'' (VStr []) as_str) (\<lambda>reason.
     andThen (fld_or payload ''effects'' VNone (\<lambda>v. dict_from plain_flt (or_else v (VDict [])))) (\<lambda>effects.
     andThen (fld_or payload ''raw'' VNone (\<lambda>v. as_dict (or_else v (VDict [])))) (\<lambda>raw.
     andThen (fld_or payload ''verified'' (VBool True) as_bool) (\<lambda>verified.
     Inr \<lparr>vo_outcome_id = oid, vo_capability = capability, vo_success = success, vo_reason = reason,
          vo_physiology_effects = effects, vo_raw = raw, vo_verified = verified\<rparr>)))))))"

definition get_verified_outcome_by_id :: "string \<Rightarrow> string \<Rightarrow> store \<Rightarrow> verified_outcome option res" where
  "get_verified_outcome_by_id outcome_id agent_id s =
     (case List.find (\<lambda>r. er_agent_id r = agent_id \<and> er_event_type r = ''outcome_verified'' \<and> er_event_id r = outcome_id)
         (st_events s) of
        None \<Rightarrow> Inr None
      | Some r \<Rightarrow> andThen (outcome_from_payload outcome_id (er_payload r)) (\<lambda>v. Inr (Some v)))"

end
