(* ===== verification/LedgerChain.thy ===== *)
theory LedgerChain
  imports Ledger
begin

text \<open>
  The ledger over time: the invariant of the store (keys, anchor, chain, tip), that every operation keeps it, crashes included,
  and what validation then guarantees. The properties come last.
\<close>

section \<open>The chain\<close>

lemma validate_rows_facts:
  assumes "validate_rows E h n rs = Inr (h', n')"
  shows "map er_sequence rs = [n..n' - 1]" and "n' = n + int (length rs)"
    and "h' = (if rs = [] then h else er_event_hash (last rs))"
proof -
  have "map er_sequence rs = [n..n' - 1] \<and> n' = n + int (length rs) \<and> h' = (if rs = [] then h else er_event_hash (last rs))"
    using assms
  proof (induction rs arbitrary: h n)
    case Nil
    then show ?case by simp
  next
    case (Cons r rs)
    then have "er_sequence r = n" and rest: "validate_rows E (er_event_hash r) (n + 1) rs = Inr (h', n')"
      by (auto split: if_splits)
    moreover have "n' = (n + 1) + int (length rs)" "map er_sequence rs = [n + 1..n' - 1]"
      "h' = (if rs = [] then er_event_hash r else er_event_hash (last rs))"
      using Cons.IH [OF rest] by auto
    ultimately show ?case by (auto simp: upto_rec1 [of n])
  qed
  then show "map er_sequence rs = [n..n' - 1]" "n' = n + int (length rs)"
    "h' = (if rs = [] then h else er_event_hash (last rs))" by auto
qed

lemma validate_rows_append:
  "validate_rows E h n (rs @ qs) = andThen (validate_rows E h n rs) (\<lambda>(h', n'). validate_rows E h' n' qs)"
  by (induction rs arbitrary: h n) auto

lemma sort_key_sorted: "sorted (map f xs) \<Longrightarrow> sort_key f xs = xs"
  by (simp add: sort_key_id_if_sorted)

lemma last_upto: "i \<le> j \<Longrightarrow> last [i..j] = j"
  by (simp add: upto_rec2)

definition base_seq :: "store \<Rightarrow> int" where
  "base_seq s = (case latest_checkpoint s of None \<Rightarrow> 0 | Some c \<Rightarrow> cp_compacted_sequence_end c)"

definition base_hash :: "store \<Rightarrow> string" where
  "base_hash s = (case latest_checkpoint s of None \<Rightarrow> ''genesis'' | Some c \<Rightarrow> cp_terminal_event_hash c)"

definition tail_ok :: "hash_env \<Rightarrow> store \<Rightarrow> bool" where
  "tail_ok E s \<longleftrightarrow> (\<exists>h n. validate_rows E (base_hash s) (base_seq s + 1) (st_events s) = Inr (h, n))"

lemma tail_ordered:
  assumes "tail_ok E s"
  shows "ordered_events s = st_events s" and "iter_rows (base_seq s + 1) s = st_events s"
proof -
  obtain h n where v: "validate_rows E (base_hash s) (base_seq s + 1) (st_events s) = Inr (h, n)"
    using assms by (auto simp: tail_ok_def)
  note seqs = validate_rows_facts(1) [OF v]
  show o: "ordered_events s = st_events s"
    unfolding ordered_events_def by (rule sort_key_sorted) (simp add: seqs sorted_upto)
  have "base_seq s + 1 \<le> er_sequence r" if "r \<in> set (st_events s)" for r
  proof -
    have "er_sequence r \<in> set (map er_sequence (st_events s))" using that by auto
    then show ?thesis by (simp add: seqs)
  qed
  then show "iter_rows (base_seq s + 1) s = st_events s" by (simp add: iter_rows_def o)
qed

lemma tail_tip:
  assumes "validate_rows E (base_hash s) (base_seq s + 1) (st_events s) = Inr (h, n)"
  shows "last_sequence s = n - 1" and "last_event_hash s = h"
proof -
  have ok: "tail_ok E s" using assms by (auto simp: tail_ok_def)
  note facts = validate_rows_facts [OF assms]
  show "last_sequence s = n - 1"
  proof (cases "st_events s = []")
    case True
    then show ?thesis
      using facts by (simp add: last_sequence_def tail_ordered(1) [OF ok] base_seq_def split: option.splits)
  next
    case False
    then have "er_sequence (last (st_events s)) = n - 1"
      using facts(1,2) last_upto [of "base_seq s + 1" "n - 1"] last_map [of "st_events s" er_sequence]
      by (cases "st_events s") auto
    moreover obtain r rs where "rev (st_events s) = r # rs" using False by (cases "rev (st_events s)") auto
    ultimately show ?thesis
      by (simp add: last_sequence_def tail_ordered(1) [OF ok])
  qed
  show "last_event_hash s = h"
  proof (cases "st_events s = []")
    case True
    then show ?thesis
      using facts by (simp add: last_event_hash_def tail_ordered(1) [OF ok] base_hash_def split: option.splits)
  next
    case False
    then obtain r rs where "rev (st_events s) = r # rs" by (cases "rev (st_events s)") auto
    then show ?thesis
      using facts False by (simp add: last_event_hash_def tail_ordered(1) [OF ok])
  qed
qed

section \<open>The invariant\<close>

text \<open>The anchor: the latest checkpoint is intact and its snapshot is there, intact and protected.\<close>

definition anchored :: "hash_env \<Rightarrow> store \<Rightarrow> checkpoint_row \<Rightarrow> bool" where
  "anchored E s c \<longleftrightarrow> hash_canonical E (checkpoint_envelope c) = cp_checkpoint_hash c
     \<and> (\<exists>r. find_snapshot (cp_snapshot_id c) s = Some r \<and> hash_canonical E (ss_state r) = ss_state_hash r
          \<and> ss_state_hash r = cp_snapshot_state_hash c \<and> cp_compacted_sequence_end c \<le> ss_sequence r \<and> ss_protected r)"

definition keys_ok :: "store \<Rightarrow> bool" where
  "keys_ok s \<longleftrightarrow> distinct (map ss_snapshot_id (st_snapshots s)) \<and> distinct (map cp_checkpoint_id (st_checkpoints s))
     \<and> distinct (map cp_checkpoint_epoch (st_checkpoints s))"

definition tip_ok :: "store \<Rightarrow> bool" where
  "tip_ok s \<longleftrightarrow> (case st_ledger_tip s of None \<Rightarrow> st_events s = [] \<and> st_checkpoints s = []
     | Some tip \<Rightarrow> tip = (last_sequence s, last_event_hash s))"

definition ledger_ok :: "hash_env \<Rightarrow> store \<Rightarrow> bool" where
  "ledger_ok E s \<longleftrightarrow> keys_ok s \<and> (\<forall>c. latest_checkpoint s = Some c \<longrightarrow> anchored E s c) \<and> tail_ok E s \<and> tip_ok s"

lemma anchored_validates:
  assumes "\<And>c. latest_checkpoint s = Some c \<Longrightarrow> anchored E s c"
  shows "validate_latest_checkpoint E s = Inr (latest_checkpoint s)"
  using assms
  by (fastforce simp: validate_latest_checkpoint_def anchored_def load_snapshot_def split: option.splits)

lemma ok_validates:
  assumes "ledger_ok E s"
  shows "validate_chain E s = Inr ()"
proof -
  obtain h n where v: "validate_rows E (base_hash s) (base_seq s + 1) (st_events s) = Inr (h, n)"
    using assms by (auto simp: ledger_ok_def tail_ok_def)
  have ok: "tail_ok E s" "tip_ok s" and ck: "validate_latest_checkpoint E s = Inr (latest_checkpoint s)"
    using assms anchored_validates by (auto simp: ledger_ok_def)
  have from1: "(case latest_checkpoint s of None \<Rightarrow> 1 | Some c \<Rightarrow> cp_compacted_sequence_end c + 1) = base_seq s + 1"
    and from2: "(case latest_checkpoint s of None \<Rightarrow> ''genesis'' | Some c \<Rightarrow> cp_terminal_event_hash c) = base_hash s"
    by (auto simp: base_seq_def base_hash_def split: option.splits)
  show ?thesis
    unfolding validate_chain_def ck andThen.simps Let_def from1 from2 tail_ordered(2) [OF ok(1)] v
    using ok(2) tail_tip [OF v] by (auto simp: tip_ok_def split: option.splits)
qed

lemma empty_ok: "ledger_ok E empty_store"
  by (simp add: ledger_ok_def keys_ok_def tail_ok_def tip_ok_def empty_store_def latest_checkpoint_def
      ordered_checkpoints_def)

section \<open>Appending keeps it\<close>

lemma events_only [simp]:
  "latest_checkpoint (s\<lparr>st_events := es\<rparr>) = latest_checkpoint s"
  "latest_checkpoint (s\<lparr>st_ledger_tip := tip\<rparr>) = latest_checkpoint s"
  "find_snapshot i (s\<lparr>st_events := es\<rparr>) = find_snapshot i s"
  "find_snapshot i (s\<lparr>st_ledger_tip := tip\<rparr>) = find_snapshot i s"
  by (simp_all add: latest_checkpoint_def ordered_checkpoints_def find_snapshot_def)

lemma event_body_hash [simp]: "event_body (r\<lparr>er_event_hash := h\<rparr>) = event_body r"
  by (simp add: event_body_def)

lemma new_row_valid:
  assumes "validate_rows E (base_hash s) (base_seq s + 1) (st_events s) = Inr (h, n)"
  shows "validate_rows E h n [new_row E fresh ev s] = Inr (er_event_hash (new_row E fresh ev s), n + 1)"
  using tail_tip [OF assms] by (simp add: new_row_def Let_def event_body_def)

lemma append_ok:
  assumes ok: "ledger_ok E s" and app: "append_row E fresh ev s = Inr t"
  shows "ledger_ok E t \<and> last_sequence t = last_sequence s + 1"
proof -
  let ?r = "new_row E fresh ev s"
  have t: "t = s\<lparr>st_events := st_events s @ [?r], st_ledger_tip := Some (er_sequence ?r, er_event_hash ?r)\<rparr>"
    using app by (auto simp: append_row_def Let_def andThen_eq_Inr insert_event_def split: if_splits)
  obtain h n where v: "validate_rows E (base_hash s) (base_seq s + 1) (st_events s) = Inr (h, n)"
    using ok by (auto simp: ledger_ok_def tail_ok_def)
  have base: "base_hash t = base_hash s" "base_seq t = base_seq s" by (simp_all add: t base_hash_def base_seq_def)
  have vt: "validate_rows E (base_hash t) (base_seq t + 1) (st_events t) = Inr (er_event_hash ?r, n + 1)"
    unfolding base using v new_row_valid [OF v, of fresh ev] by (simp add: t validate_rows_append)
  have seq: "er_sequence ?r = n" using tail_tip(1) [OF v] by (simp add: new_row_def Let_def)
  have "tip_ok t" using tail_tip [OF vt] seq by (simp add: tip_ok_def t)
  moreover have "keys_ok t" using ok by (simp add: ledger_ok_def keys_ok_def t)
  moreover have "latest_checkpoint t = Some c \<Longrightarrow> anchored E t c" for c
    using ok by (simp add: ledger_ok_def anchored_def t)
  moreover have "tail_ok E t" using vt by (auto simp: tail_ok_def)
  ultimately show ?thesis using tail_tip(1) [OF vt] tail_tip(1) [OF v] by (simp add: ledger_ok_def)
qed

section \<open>Snapshots keep it\<close>

lemma find_unique:
  assumes "distinct (map f xs)"
  shows "List.find (\<lambda>x. f x = k) xs = Some r \<longleftrightarrow> r \<in> set xs \<and> f r = k"
  using assms by (induction xs) (auto split: if_splits)

lemma find_snapshot_unique:
  "keys_ok s \<Longrightarrow> find_snapshot i s = Some r \<longleftrightarrow> r \<in> set (st_snapshots s) \<and> ss_snapshot_id r = i"
  by (simp add: find_snapshot_def keys_ok_def find_unique)

text \<open>A step that touches neither events nor tip nor checkpoints keeps the invariant when the anchor snapshots survive.\<close>

definition same_chain :: "store \<Rightarrow> store \<Rightarrow> bool" where
  "same_chain s t \<longleftrightarrow> st_events t = st_events s \<and> st_ledger_tip t = st_ledger_tip s"

lemma same_chain_seq:
  assumes "same_chain s t" and "latest_checkpoint t = latest_checkpoint s"
  shows "base_seq t = base_seq s" "base_hash t = base_hash s" "last_sequence t = last_sequence s"
    "last_event_hash t = last_event_hash s" "tail_ok E t = tail_ok E s"
  using assms
  by (simp_all add: same_chain_def base_seq_def base_hash_def last_sequence_def last_event_hash_def ordered_events_def
      tail_ok_def split: list.split)

lemma same_chain_ok:
  assumes ok: "ledger_ok E s" and same: "same_chain s t" and latest: "latest_checkpoint t = latest_checkpoint s"
    and keys: "keys_ok t" and none: "st_checkpoints s = [] \<Longrightarrow> st_checkpoints t = []"
    and anchor: "\<And>c. latest_checkpoint s = Some c \<Longrightarrow> anchored E s c \<Longrightarrow> anchored E t c"
  shows "ledger_ok E t"
  using ok keys anchor same_chain_seq [OF same latest] same none
  by (auto simp: ledger_ok_def latest tip_ok_def same_chain_def split: option.splits)

lemma save_ok:
  assumes "ledger_ok E s"
  shows "ledger_ok E (snd (save_snapshot E sid agent_id sequence monotonic_time state prot s))"
proof (cases "monotonic_time = NaN \<or> list_ex (\<lambda>q. ss_snapshot_id q = sid) (st_snapshots s)")
  case True
  then show ?thesis using assms by (simp add: save_snapshot_def)
next
  case False
  let ?t = "snd (save_snapshot E sid agent_id sequence monotonic_time state prot s)"
  have fresh: "sid \<notin> ss_snapshot_id ` set (st_snapshots s)" using False by (auto simp: list_ex_iff)
  then have keys: "keys_ok ?t" using assms False by (auto simp: save_snapshot_def ledger_ok_def keys_ok_def)
  moreover have "find_snapshot i s = Some r \<Longrightarrow> find_snapshot i ?t = Some r" for i r
    using keys assms False by (auto simp: find_snapshot_unique ledger_ok_def save_snapshot_def)
  ultimately show ?thesis
    using assms False
    by (intro same_chain_ok [OF assms])
      (auto simp: same_chain_def save_snapshot_def latest_checkpoint_def ordered_checkpoints_def anchored_def)
qed

lemma prune_ok:
  assumes "ledger_ok E s"
  shows "ledger_ok E (snd (prune_snapshots keep s))"
    and "same_chain s (snd (prune_snapshots keep s))"
    and "latest_checkpoint (snd (prune_snapshots keep s)) = latest_checkpoint s"
proof -
  let ?t = "snd (prune_snapshots keep s)"
  show same: "same_chain s ?t" and latest: "latest_checkpoint ?t = latest_checkpoint s"
    by (simp_all add: same_chain_def prune_snapshots_def Let_def latest_checkpoint_def ordered_checkpoints_def)
  have keys: "keys_ok ?t"
    using assms by (auto simp: ledger_ok_def keys_ok_def prune_snapshots_def Let_def distinct_map_filter)
  have sub: "set (st_snapshots ?t) \<subseteq> set (st_snapshots s)"
    by (auto simp: prune_snapshots_def Let_def)
  have kept: "r \<in> set (st_snapshots ?t)" if r: "r \<in> set (st_snapshots s)" and prot: "ss_protected r" for r
  proof -
    have "ss_snapshot_id r \<notin> set (map ss_snapshot_id (drop n (filter (\<lambda>r. \<not> ss_protected r) (newest_first (st_snapshots s)))))" for n
    proof
      assume "ss_snapshot_id r \<in> set (map ss_snapshot_id (drop n (filter (\<lambda>r. \<not> ss_protected r) (newest_first (st_snapshots s)))))"
      then obtain q where q: "q \<in> set (drop n (filter (\<lambda>r. \<not> ss_protected r) (newest_first (st_snapshots s))))"
        "ss_snapshot_id q = ss_snapshot_id r"
        by auto
      have "q \<in> set (st_snapshots s)" "\<not> ss_protected q"
        using set_drop_subset q(1) by (fastforce simp: newest_first_def)+
      then show False
        using q(2) r prot assms by (auto simp: ledger_ok_def keys_ok_def distinct_map inj_on_def)
    qed
    then show ?thesis using r by (simp add: prune_snapshots_def Let_def)
  qed
  show "ledger_ok E ?t"
  proof (rule same_chain_ok [OF assms same latest keys])
    show "st_checkpoints s = [] \<Longrightarrow> st_checkpoints ?t = []" by (simp add: prune_snapshots_def Let_def)
    show "anchored E ?t c" if "anchored E s c" for c
      using that keys kept assms by (auto simp: anchored_def find_snapshot_unique ledger_ok_def)
  qed
qed

section \<open>The latest checkpoint\<close>

lemma last_sort_key:
  assumes "distinct (map f xs)" and "x \<in> set xs" and "\<And>y. y \<in> set xs \<Longrightarrow> f y \<le> (f x :: int)"
  shows "last (sort_key f xs) = x"
proof -
  let ?ys = "sort_key f xs"
  have ne: "?ys \<noteq> []" using assms(2) by (metis empty_iff set_empty set_sort)
  have "x \<in> set ?ys" using assms(2) by simp
  then have "f x \<le> f (last ?ys)"
  proof -
    obtain i where i: "i < length ?ys" "?ys ! i = x" using \<open>x \<in> set ?ys\<close> by (metis in_set_conv_nth)
    have "sorted (map f ?ys)" by simp
    then have "map f ?ys ! i \<le> map f ?ys ! (length ?ys - 1)"
      using i(1) by (intro sorted_nth_mono) auto
    then show ?thesis using i ne by (simp add: last_conv_nth)
  qed
  moreover have "last ?ys \<in> set xs" using ne by (metis last_in_set set_sort)
  ultimately have "f (last ?ys) = f x" using assms(3) by fastforce
  then show ?thesis using assms(1,2) \<open>last ?ys \<in> set xs\<close> by (auto simp: distinct_map inj_on_def)
qed

lemma latest_iff:
  assumes "keys_ok s"
  shows "latest_checkpoint s = Some c \<longleftrightarrow> c \<in> set (st_checkpoints s)
    \<and> (\<forall>d \<in> set (st_checkpoints s). cp_checkpoint_epoch d \<le> cp_checkpoint_epoch c)"
proof
  let ?ys = "sort_key cp_checkpoint_epoch (st_checkpoints s)"
  assume "latest_checkpoint s = Some c"
  then have hd: "rev ?ys \<noteq> []" "hd (rev ?ys) = c"
    by (auto simp: latest_checkpoint_def ordered_checkpoints_def split: list.splits)
  then have c: "last ?ys = c" "?ys \<noteq> []" by (auto simp: hd_rev)
  have "cp_checkpoint_epoch d \<le> cp_checkpoint_epoch c" if d: "d \<in> set (st_checkpoints s)" for d
  proof -
    obtain i where i: "i < length ?ys" "?ys ! i = d" using d by (metis in_set_conv_nth set_sort)
    have "sorted (map cp_checkpoint_epoch ?ys)" by simp
    then have "map cp_checkpoint_epoch ?ys ! i \<le> map cp_checkpoint_epoch ?ys ! (length ?ys - 1)"
      using i(1) by (intro sorted_nth_mono) auto
    then show ?thesis using i c by (simp add: last_conv_nth)
  qed
  moreover have "c \<in> set (st_checkpoints s)" using c by (metis last_in_set set_sort)
  ultimately show "c \<in> set (st_checkpoints s) \<and> (\<forall>d \<in> set (st_checkpoints s). cp_checkpoint_epoch d \<le> cp_checkpoint_epoch c)"
    by blast
next
  let ?ys = "sort_key cp_checkpoint_epoch (st_checkpoints s)"
  assume a: "c \<in> set (st_checkpoints s) \<and> (\<forall>d \<in> set (st_checkpoints s). cp_checkpoint_epoch d \<le> cp_checkpoint_epoch c)"
  then have "last ?ys = c" using assms by (intro last_sort_key) (auto simp: keys_ok_def)
  moreover have "?ys \<noteq> []" using a by (metis empty_iff set_empty set_sort)
  ultimately show "latest_checkpoint s = Some c"
    by (cases "rev ?ys") (auto simp: latest_checkpoint_def ordered_checkpoints_def hd_rev [symmetric])
qed

lemma latest_None: "latest_checkpoint s = None \<longleftrightarrow> st_checkpoints s = []"
proof -
  have "rev (sort_key cp_checkpoint_epoch (st_checkpoints s)) = [] \<longleftrightarrow> st_checkpoints s = []"
    by (metis rev_is_Nil_conv set_empty set_sort)
  then show ?thesis
    by (cases "rev (sort_key cp_checkpoint_epoch (st_checkpoints s))")
      (simp_all add: latest_checkpoint_def ordered_checkpoints_def)
qed

section \<open>Compaction keeps it\<close>

lemma set_protected_find:
  "keys_ok s \<Longrightarrow> find_snapshot j (set_protected b i s)
    = map_option (\<lambda>r. if ss_snapshot_id r = i then r\<lparr>ss_protected := b\<rparr> else r) (find_snapshot j s)"
proof -
  have "List.find (\<lambda>r. ss_snapshot_id r = j) (map (\<lambda>r. if ss_snapshot_id r = i then r\<lparr>ss_protected := b\<rparr> else r) rows)
      = map_option (\<lambda>r. if ss_snapshot_id r = i then r\<lparr>ss_protected := b\<rparr> else r) (List.find (\<lambda>r. ss_snapshot_id r = j) rows)" for rows
    by (induction rows) auto
  then show ?thesis by (simp add: find_snapshot_def set_protected_def)
qed

lemma set_protected_same [simp]:
  "st_events (set_protected b i s) = st_events s" "st_ledger_tip (set_protected b i s) = st_ledger_tip s"
  "st_checkpoints (set_protected b i s) = st_checkpoints s" "st_provenance (set_protected b i s) = st_provenance s"
  "st_journal (set_protected b i s) = st_journal s"
  "latest_checkpoint (set_protected b i s) = latest_checkpoint s"
  by (simp_all add: set_protected_def latest_checkpoint_def ordered_checkpoints_def)

lemma set_protected_keys [simp]: "keys_ok (set_protected b i s) = keys_ok s"
proof -
  have "map ss_snapshot_id (st_snapshots (set_protected b i s)) = map ss_snapshot_id (st_snapshots s)"
    by (simp add: set_protected_def)
  then show ?thesis by (simp add: keys_ok_def del: map_map)
qed

lemma provenance_only:
  assumes "foldE (insert_provenance cid) s protected = Inr t"
  shows "\<exists>p. t = s\<lparr>st_provenance := p\<rparr>"
proof (rule foldE_invariant [OF assms, where P = "\<lambda>u. \<exists>p. u = s\<lparr>st_provenance := p\<rparr>"])
  show "\<exists>p. s = s\<lparr>st_provenance := p\<rparr>" by (rule exI [of _ "st_provenance s"]) simp
  show "\<exists>p. v = s\<lparr>st_provenance := p\<rparr>" if "\<exists>p. u = s\<lparr>st_provenance := p\<rparr>" "insert_provenance cid u x = Inr v" for u v x
    using that by (auto simp: insert_provenance_def andThen_eq_Inr split: prod.splits if_splits)
qed

lemma commit_effect:
  assumes "commit_checkpoint c protected crash s = Inr t"
  obtains p where "t = (set_protected True (cp_snapshot_id c) s)\<lparr>st_checkpoints := st_checkpoints s @ [c], st_provenance := p,
      st_events := filter (\<lambda>r. \<not> er_sequence r \<le> cp_compacted_sequence_end c) (st_events s),
      st_ledger_checkpoint := Some (cp_checkpoint_id c, cp_checkpoint_hash c)\<rparr>"
    and "\<forall>d \<in> set (st_checkpoints s). cp_checkpoint_id d \<noteq> cp_checkpoint_id c \<and> cp_checkpoint_epoch d \<noteq> cp_checkpoint_epoch c"
proof -
  obtain s1 s2 where s1: "insert_checkpoint c (set_protected True (cp_snapshot_id c) s) = Inr s1"
    and s2: "foldE (insert_provenance (cp_checkpoint_id c)) s1 protected = Inr s2"
    and t: "t = (s2\<lparr>st_events := filter (\<lambda>r. \<not> er_sequence r \<le> cp_compacted_sequence_end c) (st_events s2)\<rparr>)
      \<lparr>st_ledger_checkpoint := Some (cp_checkpoint_id c, cp_checkpoint_hash c)\<rparr>"
    using assms by (auto simp: commit_checkpoint_def andThen_eq_Inr Let_def split: if_splits)
  obtain p where p: "s2 = s1\<lparr>st_provenance := p\<rparr>" using provenance_only [OF s2] by blast
  have s1': "s1 = (set_protected True (cp_snapshot_id c) s)\<lparr>st_checkpoints := st_checkpoints s @ [c]\<rparr>"
    and fresh: "\<forall>d \<in> set (st_checkpoints s). cp_checkpoint_id d \<noteq> cp_checkpoint_id c \<and> cp_checkpoint_epoch d \<noteq> cp_checkpoint_epoch c"
    using s1 by (auto simp: insert_checkpoint_def list_ex_iff split: if_splits)
  show ?thesis by (rule that [OF _ fresh]) (simp_all add: t p s1')
qed

lemma plan_facts:
  assumes ok: "ledger_ok E s" and plan: "plan_compaction E q s = Inr (Some (previous, snapshot, start, rows))"
  shows "previous = latest_checkpoint s" and "rows = st_events s" and "rows \<noteq> []"
    and "ss_sequence snapshot = last_sequence s" and "start = base_seq s + 1"
    and "find_snapshot (cq_snapshot_id q) s = Some snapshot" and "hash_canonical E (ss_state snapshot) = ss_state_hash snapshot"
    and "\<And>r. r \<in> set (st_events s) \<Longrightarrow> er_sequence r \<le> last_sequence s"
proof -
  let ?rows = "filter (\<lambda>r. start \<le> er_sequence r \<and> er_sequence r \<le> ss_sequence snapshot) (ordered_events s)"
  have start: "start = (case latest_checkpoint s of None \<Rightarrow> 1 | Some c \<Rightarrow> cp_compacted_sequence_end c + 1)"
    and rows: "rows = ?rows" and ne: "rows \<noteq> []"
    and p: "previous = latest_checkpoint s" and seq: "ss_sequence snapshot = last_sequence s"
    and load: "load_snapshot E (Some (cq_snapshot_id q)) s = Inr snapshot"
    using plan by (auto simp: plan_compaction_def Let_def andThen_eq_Inr split: if_splits)
  show st: "start = base_seq s + 1" using start by (simp add: base_seq_def split: option.splits)
  obtain h n where v: "validate_rows E (base_hash s) (base_seq s + 1) (st_events s) = Inr (h, n)"
    using ok by (auto simp: ledger_ok_def tail_ok_def)
  have range: "base_seq s + 1 \<le> er_sequence r \<and> er_sequence r \<le> last_sequence s" if "r \<in> set (st_events s)" for r
  proof -
    have "er_sequence r \<in> set (map er_sequence (st_events s))" using that by auto
    then show ?thesis using tail_tip(1) [OF v] by (simp add: validate_rows_facts(1) [OF v])
  qed
  have ord: "ordered_events s = st_events s" using ok tail_ordered(1) by (auto simp: ledger_ok_def)
  have "filter (\<lambda>r. base_seq s + 1 \<le> er_sequence r \<and> er_sequence r \<le> last_sequence s) (st_events s) = st_events s"
    using range by (auto intro!: filter_True)
  then show "rows = st_events s" by (simp add: rows seq st ord)
  show "previous = latest_checkpoint s" "rows \<noteq> []" "ss_sequence snapshot = last_sequence s" using p ne seq by auto
  show "find_snapshot (cq_snapshot_id q) s = Some snapshot" "hash_canonical E (ss_state snapshot) = ss_state_hash snapshot"
    using load by (auto simp: load_snapshot_def split: option.splits if_splits)
  show "\<And>r. r \<in> set (st_events s) \<Longrightarrow> er_sequence r \<le> last_sequence s" using range by blast
qed

lemma envelope_ignores_hash [simp]: "checkpoint_envelope (c\<lparr>cp_checkpoint_hash := h\<rparr>) = checkpoint_envelope c"
  by (simp add: checkpoint_envelope_def)

lemma commit_ok:
  assumes ok: "ledger_ok E s" and plan: "plan_compaction E q s = Inr (Some (previous, snapshot, start, rows))"
    and c: "c = new_checkpoint E cid q previous snapshot start rows"
    and com: "commit_checkpoint c protected crash s = Inr t"
  shows "ledger_ok E t" and "latest_checkpoint t = Some c" and "st_events t = []"
    and "last_sequence t = last_sequence s" and "last_event_hash t = last_event_hash s"
proof -
  note pf = plan_facts [OF ok plan]
  obtain p where t: "t = (set_protected True (cp_snapshot_id c) s)\<lparr>st_checkpoints := st_checkpoints s @ [c], st_provenance := p,
      st_events := filter (\<lambda>r. \<not> er_sequence r \<le> cp_compacted_sequence_end c) (st_events s),
      st_ledger_checkpoint := Some (cp_checkpoint_id c, cp_checkpoint_hash c)\<rparr>"
    and fresh: "\<forall>d \<in> set (st_checkpoints s). cp_checkpoint_id d \<noteq> cp_checkpoint_id c \<and> cp_checkpoint_epoch d \<noteq> cp_checkpoint_epoch c"
    by (rule commit_effect [OF com])
  have cf: "cp_compacted_sequence_end c = last_sequence s" "cp_snapshot_id c = cq_snapshot_id q"
    "cp_snapshot_state_hash c = ss_state_hash snapshot" "cp_terminal_event_hash c = er_event_hash (last rows)"
    "cp_checkpoint_epoch c = (case previous of None \<Rightarrow> 1 | Some d \<Rightarrow> cp_checkpoint_epoch d + 1)"
    "hash_canonical E (checkpoint_envelope c) = cp_checkpoint_hash c"
    using pf(4) by (simp_all add: c new_checkpoint_def Let_def checkpoint_envelope_def)
  show none: "st_events t = []" using pf(8) by (simp add: t cf(1) filter_empty_conv)
  have keys: "keys_ok t"
  proof -
    have "keys_ok (set_protected True (cp_snapshot_id c) s)" using ok by (simp add: ledger_ok_def)
    moreover have "cp_checkpoint_id c \<notin> cp_checkpoint_id ` set (st_checkpoints s)"
      "cp_checkpoint_epoch c \<notin> cp_checkpoint_epoch ` set (st_checkpoints s)"
      using fresh by (metis imageE)+
    ultimately show ?thesis by (simp add: keys_ok_def t)
  qed
  have "cp_checkpoint_epoch d \<le> cp_checkpoint_epoch c" if "d \<in> set (st_checkpoints s)" for d
  proof (cases "latest_checkpoint s")
    case None
    then show ?thesis using that by (simp add: latest_None)
  next
    case (Some e)
    then have "cp_checkpoint_epoch d \<le> cp_checkpoint_epoch e"
      using that ok by (simp add: latest_iff ledger_ok_def)
    then show ?thesis using Some by (simp add: cf(5) pf(1))
  qed
  moreover have cps: "st_checkpoints t = st_checkpoints s @ [c]" by (simp add: t)
  ultimately show latest: "latest_checkpoint t = Some c" by (auto simp: latest_iff [OF keys])
  have ord: "ordered_events s = st_events s" using ok tail_ordered(1) by (auto simp: ledger_ok_def)
  obtain r rs where rev: "rev (st_events s) = r # rs" using pf(2,3) by (cases "rev (st_events s)") auto
  then have "last (st_events s) = r" by (metis hd_rev list.sel(1))
  then have last: "last_event_hash s = cp_terminal_event_hash c"
    using rev by (simp add: last_event_hash_def ord cf(4) pf(2))
  show ls: "last_sequence t = last_sequence s"
    by (simp add: last_sequence_def [of t] ordered_events_def none latest cf(1))
  show lh: "last_event_hash t = last_event_hash s"
    by (simp add: last_event_hash_def [of t] ordered_events_def none latest last)
  have "anchored E t c"
  proof -
    have "find_snapshot (cp_snapshot_id c) t = Some (snapshot\<lparr>ss_protected := True\<rparr>)"
    proof -
      have "find_snapshot (cp_snapshot_id c) t = find_snapshot (cp_snapshot_id c) (set_protected True (cp_snapshot_id c) s)"
        by (simp add: find_snapshot_def t)
      moreover have "ss_snapshot_id snapshot = cp_snapshot_id c"
        using pf(6) find_Some by (fastforce simp: find_snapshot_def cf(2))
      ultimately show ?thesis
        using ok pf(6) by (simp add: set_protected_find ledger_ok_def cf(2))
    qed
    then show ?thesis using cf pf(4,7) by (simp add: anchored_def)
  qed
  moreover have "tail_ok E t" by (simp add: tail_ok_def none)
  moreover have "tip_ok t"
    using ok pf(2,3) by (simp add: ledger_ok_def tip_ok_def ls lh split: option.splits) (simp add: t)
  ultimately show "ledger_ok E t" using keys latest by (simp add: ledger_ok_def)
qed

lemma drop_checkpoint_ok:
  assumes ok: "ledger_ok E s" and latest: "latest_checkpoint s = Some c" and other: "cp_checkpoint_id old \<noteq> cp_checkpoint_id c"
  shows "ledger_ok E (drop_checkpoint old s)" and "latest_checkpoint (drop_checkpoint old s) = Some c"
    and "same_chain s (drop_checkpoint old s)"
proof -
  let ?s1 = "s\<lparr>st_provenance := filter (\<lambda>p. pv_checkpoint_id p \<noteq> cp_checkpoint_id old) (st_provenance s),
      st_checkpoints := filter (\<lambda>d. cp_checkpoint_id d \<noteq> cp_checkpoint_id old) (st_checkpoints s)\<rparr>"
  let ?t = "drop_checkpoint old s"
  have keys1: "keys_ok ?s1" using ok by (auto simp: ledger_ok_def keys_ok_def distinct_map_filter)
  then have keys: "keys_ok ?t" by (simp add: drop_checkpoint_def Let_def)
  have cps: "st_checkpoints ?t = filter (\<lambda>d. cp_checkpoint_id d \<noteq> cp_checkpoint_id old) (st_checkpoints s)"
    by (simp add: drop_checkpoint_def Let_def)
  have kc: "keys_ok s" using ok by (simp add: ledger_ok_def)
  show latest': "latest_checkpoint ?t = Some c"
    using latest other by (simp add: latest_iff [OF keys] latest_iff [OF kc] cps)
  show same: "same_chain s ?t" by (simp add: same_chain_def drop_checkpoint_def Let_def)
  have mem: "c \<in> set (st_checkpoints ?s1)" using latest other by (simp add: latest_iff [OF kc])
  have "find_snapshot (cp_snapshot_id c) ?t = find_snapshot (cp_snapshot_id c) s"
  proof (cases "cp_snapshot_id c = cp_snapshot_id old")
    case True
    then have "list_ex (\<lambda>d. cp_snapshot_id d = cp_snapshot_id old) (st_checkpoints ?s1)"
      using mem by (auto simp: list_ex_iff)
    then show ?thesis by (simp add: drop_checkpoint_def Let_def find_snapshot_def)
  next
    case False
    have "r \<in> set (st_snapshots s) \<Longrightarrow> ss_snapshot_id r = i \<Longrightarrow> find_snapshot i s = Some r" for r i
      using kc by (simp add: find_snapshot_unique)
    have "find_snapshot (cp_snapshot_id c) (set_protected False (cp_snapshot_id old) ?s1) = find_snapshot (cp_snapshot_id c) ?s1"
    proof (cases "find_snapshot (cp_snapshot_id c) ?s1")
      case (Some r)
      then have "ss_snapshot_id r = cp_snapshot_id c" using keys1 by (simp add: find_snapshot_unique)
      then show ?thesis using Some False by (simp add: set_protected_find [OF keys1])
    qed (simp add: set_protected_find [OF keys1])
    then show ?thesis by (simp add: drop_checkpoint_def Let_def find_snapshot_def)
  qed
  then have "anchored E ?t c = anchored E s c" by (simp add: anchored_def)
  then show "ledger_ok E ?t"
    using latest latest' by (intro same_chain_ok [OF ok same _ keys]) (auto simp: latest_None [symmetric])
qed

lemma drop_old_ok:
  assumes "ledger_ok E s" and "latest_checkpoint s = Some c"
  shows "ledger_ok E (drop_old_checkpoints (cp_checkpoint_id c) keep s)
    \<and> latest_checkpoint (drop_old_checkpoints (cp_checkpoint_id c) keep s) = Some c
    \<and> same_chain s (drop_old_checkpoints (cp_checkpoint_id c) keep s)"
proof -
  have "ledger_ok E (fold drop_checkpoint olds u) \<and> latest_checkpoint (fold drop_checkpoint olds u) = Some c
      \<and> same_chain u (fold drop_checkpoint olds u)"
    if "list_all (\<lambda>d. cp_checkpoint_id d \<noteq> cp_checkpoint_id c) olds" "ledger_ok E u" "latest_checkpoint u = Some c" for olds u
    using that
  proof (induction olds arbitrary: u)
    case Nil
    then show ?case by (simp add: same_chain_def)
  next
    case (Cons d olds)
    then have "ledger_ok E (drop_checkpoint d u)" "latest_checkpoint (drop_checkpoint d u) = Some c"
      "same_chain u (drop_checkpoint d u)"
      using drop_checkpoint_ok [OF Cons.prems(2,3)] by auto
    then show ?case using Cons by (auto simp: same_chain_def)
  qed
  moreover have "list_all (\<lambda>d. cp_checkpoint_id d \<noteq> cp_checkpoint_id c)
      (drop n (filter (\<lambda>d. cp_checkpoint_id d \<noteq> cp_checkpoint_id c) xs))" for n xs
    using set_drop_subset by (fastforce simp: list_all_iff)
  ultimately show ?thesis unfolding drop_old_checkpoints_def using assms by blast
qed

lemma prune_total: "prune_snapshots 2 s = (r, t) \<Longrightarrow> \<exists>k. r = Inr k"
  by (auto simp: prune_snapshots_def Let_def split: if_splits)

lemma compact_eq:
  assumes "plan_compaction E q s = Inr (Some (previous, snapshot, start, rows))"
    and "protected_provenance q previous snapshot s = Inr protected"
    and "cq_crash_after q \<noteq> Some ''checkpoint_prepared''"
    and "commit_checkpoint (new_checkpoint E cid q previous snapshot start rows) protected (cq_crash_after q) s = Inr s1"
    and "prune_snapshots 2 (drop_old_checkpoints cid (cq_keep_checkpoints q) s1) = (r3, s3)"
    and "validate_chain E s3 = Inr ()"
  shows "compact_authoritative_prefix E cid q s = (Inr (Some (checkpoint_result
      (new_checkpoint E cid q previous snapshot start rows) (int (length protected)))), s3)"
proof -
  obtain k where "r3 = Inr k" using prune_total assms(5) by blast
  then show ?thesis
    unfolding compact_authoritative_prefix_def Let_def assms(1) using assms(2-6) by simp
qed

lemma compact_result:
  assumes ok: "ledger_ok E s"
  obtains (refused) e where "compact_authoritative_prefix E cid q s = (Inl e, s)"
    | (nothing) "compact_authoritative_prefix E cid q s = (Inr None, s)"
    | (compacted) c t n where "compact_authoritative_prefix E cid q s = (Inr (Some (checkpoint_result c n)), t)"
      "ledger_ok E t" "latest_checkpoint t = Some c" "st_events t = []"
      "last_sequence t = last_sequence s" "last_event_hash t = last_event_hash s"
      "cp_terminal_event_hash c = last_event_hash s" "cp_compacted_sequence_end c = last_sequence s"
proof (cases "plan_compaction E q s")
  case (Inl e)
  then show ?thesis using refused by (simp add: compact_authoritative_prefix_def)
next
  case (Inr r)
  show ?thesis
  proof (cases r)
    case None
    then have "compact_authoritative_prefix E cid q s = (Inr None, s)"
      using Inr by (simp add: compact_authoritative_prefix_def)
    then show ?thesis by (rule nothing)
  next
    case (Some x)
    obtain previous snapshot start rows where x: "x = (previous, snapshot, start, rows)" by (cases x)
    have plan: "plan_compaction E q s = Inr (Some (previous, snapshot, start, rows))" using Inr Some x by simp
    let ?c = "new_checkpoint E cid q previous snapshot start rows"
    show ?thesis
    proof (cases "protected_provenance q previous snapshot s")
      case (Inl e)
      then show ?thesis using plan refused by (simp add: compact_authoritative_prefix_def)
    next
      case (Inr protected)
      show ?thesis
      proof (cases "cq_crash_after q = Some ''checkpoint_prepared''")
        case True
        then show ?thesis using plan Inr refused by (simp add: compact_authoritative_prefix_def)
      next
        case alive: False
        show ?thesis
        proof (cases "commit_checkpoint ?c protected (cq_crash_after q) s")
          case (Inl e)
          then show ?thesis using plan Inr alive refused by (simp add: compact_authoritative_prefix_def)
        next
          case com: (Inr s1)
          note c1 = commit_ok [OF ok plan HOL.refl com]
          have cid: "cp_checkpoint_id ?c = cid" by (simp add: new_checkpoint_def Let_def)
          define s2 where "s2 = drop_old_checkpoints cid (cq_keep_checkpoints q) s1"
          have s2: "ledger_ok E s2" "latest_checkpoint s2 = Some ?c" "same_chain s1 s2"
            using drop_old_ok [OF c1(1,2), of "cq_keep_checkpoints q"] by (simp_all add: s2_def cid)
          obtain r3 s3 where s3: "prune_snapshots 2 s2 = (r3, s3)" by (cases "prune_snapshots 2 s2")
          have ok3: "ledger_ok E s3" "same_chain s2 s3" "latest_checkpoint s3 = Some ?c"
            using prune_ok [OF s2(1), of 2] s3 s2(2) by simp_all
          have same: "same_chain s1 s3" using s2(3) ok3(2) by (simp add: same_chain_def)
          have seq: "last_sequence s3 = last_sequence s" "last_event_hash s3 = last_event_hash s" "st_events s3 = []"
            using same_chain_seq(3,4) [OF same] ok3(3) c1 same by (simp_all add: same_chain_def)
          have res: "compact_authoritative_prefix E cid q s = (Inr (Some (checkpoint_result ?c (int (length protected)))), s3)"
            by (rule compact_eq [OF plan Inr alive com s3 [unfolded s2_def] ok_validates [OF ok3(1)]])
          have "last_sequence s3 = cp_compacted_sequence_end ?c" "last_event_hash s3 = cp_terminal_event_hash ?c"
            by (simp_all add: last_sequence_def last_event_hash_def ordered_events_def seq(3) ok3(3))
          then show ?thesis
            by (intro compacted [OF res ok3(1,3) seq(3,1,2)]) (simp_all only: seq)
        qed
      qed
    qed
  qed
qed

lemma append_event_ok: "ledger_ok E s \<Longrightarrow> ledger_ok E (snd (append_event E fresh ev s))"
  using append_ok by (auto simp: append_event_def split: sum.split)

lemma compact_ok:
  assumes "ledger_ok E s"
  shows "ledger_ok E (snd (compact_authoritative_prefix E cid q s))"
  using assms by (rule compact_result [of E s cid q]) (simp_all add: assms)

lemma budget_only:
  assumes "ledger_ok E s"
  shows "ledger_ok E (s\<lparr>st_event_storage_budget := b\<rparr>)" and "ledger_ok E (s\<lparr>st_journal := rows\<rparr>)"
  by (rule same_chain_ok [OF assms];
      use assms in \<open>simp add: same_chain_def latest_checkpoint_def ordered_checkpoints_def ledger_ok_def keys_ok_def
        anchored_def find_snapshot_def\<close>)+

text \<open>A transaction whose stages keep the invariant keeps it, crash or not.\<close>

lemma run_stages_invariant:
  assumes "run_stages i crash stages s = Inr t" and "P s"
    and "\<And>stage u v. stage \<in> set stages \<Longrightarrow> P u \<Longrightarrow> stage u = Inr v \<Longrightarrow> P v"
  shows "P t"
  using assms
proof (induction stages arbitrary: i s)
  case Nil
  then show ?case by simp
next
  case (Cons stage stages)
  obtain u where u: "stage s = Inr u" and rest: "run_stages (Suc i) crash stages u = Inr t"
    using Cons.prems(1) by (auto simp: andThen_eq_Inr split: if_splits)
  have "P u" using Cons.prems(2,3) u by (meson list.set_intros(1))
  then show ?case using Cons.IH [OF rest] Cons.prems(3) by (meson list.set_intros(2))
qed

lemma atomic_keeps:
  assumes "P s" and "\<And>stage u v. stage \<in> set stages \<Longrightarrow> P u \<Longrightarrow> stage u = Inr v \<Longrightarrow> P v"
  shows "P (snd (atomic_outcome crash stages s))"
  using run_stages_invariant [of 1 crash stages s _ P] assms
  by (cases "run_stages 1 crash stages s") (auto simp: atomic_outcome_def)

section \<open>Every ledger a program can reach\<close>

text \<open>
  The stores that come from the empty one by the ledger's operations in any order: events appended alone or several in one
  transaction with a crash after any of its stages, snapshots saved and pruned, the prefix compacted with a crash at any of
  its injection points, and the storage budget and the execution journal set to anything.
\<close>

inductive ledger_from :: "hash_env \<Rightarrow> store \<Rightarrow> bool" for E where
  created: "ledger_from E empty_store"
| appended: "ledger_from E s \<Longrightarrow> ledger_from E (snd (append_event E fresh ev s))"
| transaction: "ledger_from E s \<Longrightarrow>
    ledger_from E (snd (atomic_outcome crash (map (\<lambda>(fresh, ev). append_row E fresh ev) evs) s))"
| saved: "ledger_from E s \<Longrightarrow> ledger_from E (snd (save_snapshot E sid agent_id sequence monotonic_time state prot s))"
| pruned: "ledger_from E s \<Longrightarrow> ledger_from E (snd (prune_snapshots keep s))"
| compacted: "ledger_from E s \<Longrightarrow> ledger_from E (snd (compact_authoritative_prefix E cid q s))"
| budget: "ledger_from E s \<Longrightarrow> ledger_from E (s\<lparr>st_event_storage_budget := b\<rparr>)"
| journal: "ledger_from E s \<Longrightarrow> ledger_from E (s\<lparr>st_journal := rows\<rparr>)"

lemma ledger_from_ok: "ledger_from E s \<Longrightarrow> ledger_ok E s"
proof (induction rule: ledger_from.induct)
  case (transaction s crash evs)
  show ?case
    by (rule atomic_keeps [where P = "ledger_ok E"]) (use transaction append_ok in auto)
qed (simp_all add: empty_ok append_event_ok save_ok prune_ok(1) compact_ok budget_only)

section \<open>Properties\<close>

text \<open>C22: every ledger that the operations can produce, crashes included, passes validation: its checkpoint is intact and
  anchored in a protected snapshot, its events are numbered without a gap from the checkpoint on and linked by their hashes,
  and its tip is the last of them.\<close>

theorem reachable_ledger_valid:
  assumes "ledger_from E s"
  shows "validate_chain E s = Inr () \<and> map er_sequence (ordered_events s) = [base_seq s + 1..last_sequence s]
    \<and> (\<forall>tip. st_ledger_tip s = Some tip \<longrightarrow> tip = (last_sequence s, last_event_hash s))"
proof -
  have ok: "ledger_ok E s" using ledger_from_ok assms .
  obtain h n where v: "validate_rows E (base_hash s) (base_seq s + 1) (st_events s) = Inr (h, n)"
    using ok by (auto simp: ledger_ok_def tail_ok_def)
  show ?thesis
    using ok ok_validates [OF ok] validate_rows_facts(1) [OF v] tail_tip(1) [OF v] tail_ordered(1) [of E s]
    by (simp add: ledger_ok_def tip_ok_def split: option.splits)
qed

definition sample_event :: "string \<Rightarrow> new_event" where
  "sample_event ty = \<lparr>ne_agent_id = ''a'', ne_event_type = ty, ne_monotonic_time = Fin 1, ne_wall_time = Fin 1,
     ne_payload = VDict [(''k'', VInt 1)], ne_causal_parent_ids = None, ne_event_id = None\<rparr>"

definition sample_ledger :: store where
  "sample_ledger = snd (append_event plain_env ''e2'' (sample_event ''lifecycle'')
     (snd (append_event plain_env ''e1'' (sample_event ''birth'') empty_store)))"

lemma sample_reachable: "ledger_from plain_env sample_ledger"
  unfolding sample_ledger_def by (intro ledger_from.intros)

theorem reachable_ledger_valid_witness:
  "validate_chain plain_env sample_ledger = Inr ()"
  using reachable_ledger_valid [OF sample_reachable] by simp

text \<open>C23: compaction moves the anchor, not the ledger. It refuses, or finds nothing to compact, and then changes nothing (so
  does a crash at any injection point); or it empties the hot table, leaves the last sequence number and the last hash as they
  were, and returns the checkpoint that now carries both, so the next event continues the chain.\<close>

theorem compaction_keeps_the_chain:
  assumes "ledger_from E s" and "compact_authoritative_prefix E cid q s = (r, t)"
  shows "case r of
      Inl e \<Rightarrow> t = s
    | Inr None \<Rightarrow> t = s
    | Inr (Some result) \<Rightarrow> st_events t = [] \<and> last_sequence t = last_sequence s \<and> last_event_hash t = last_event_hash s
        \<and> validate_chain E t = Inr ()
        \<and> (\<exists>c n. latest_checkpoint t = Some c \<and> result = checkpoint_result c n
             \<and> cp_compacted_sequence_end c = last_sequence s \<and> cp_terminal_event_hash c = last_event_hash s)"
  using ledger_from_ok [OF assms(1)]
proof (rule compact_result [of E s cid q])
  fix c u n
  assume "compact_authoritative_prefix E cid q s = (Inr (Some (checkpoint_result c n)), u)" "ledger_ok E u"
    "latest_checkpoint u = Some c" "st_events u = []" "last_sequence u = last_sequence s"
    "last_event_hash u = last_event_hash s" "cp_terminal_event_hash c = last_event_hash s"
    "cp_compacted_sequence_end c = last_sequence s"
  then show ?thesis using assms(2) ok_validates [of E u] by auto
qed (use assms(2) in auto)

text \<open>A snapshot of the tip, and the request to compact up to it.\<close>

definition sample_request :: compaction where
  "sample_request = \<lparr>cq_agent_id = ''a'', cq_snapshot_id = ''s'', cq_creation_tick = 1, cq_creation_wall_time = Fin 1,
     cq_habitat_binding = None, cq_habitat_checkpoint = None, cq_body_attachment = None,
     cq_protected_event_types = [''birth''], cq_keep_checkpoints = 4, cq_crash_after = None\<rparr>"

definition sample_with_snapshot :: store where
  "sample_with_snapshot = snd (save_snapshot plain_env ''s'' ''a'' 2 (Fin 1) (VDict []) False sample_ledger)"

lemma sample_ledger_rows:
  "\<exists>r1 r2. sample_ledger = empty_store\<lparr>st_events := [r1, r2], st_ledger_tip := Some (2, er_event_hash r2)\<rparr>
    \<and> er_event_id r1 = ''e1'' \<and> er_event_id r2 = ''e2''
    \<and> er_sequence r1 = 1 \<and> er_sequence r2 = 2 \<and> er_event_type r1 = ''birth'' \<and> er_event_type r2 = ''lifecycle''
    \<and> canonical (er_payload r1) = er_payload r1 \<and> canonical (er_payload r2) = er_payload r2"
proof -
  define r1 where "r1 = new_row plain_env ''e1'' (sample_event ''birth'') empty_store"
  define s1 where "s1 = empty_store\<lparr>st_events := [r1], st_ledger_tip := Some (er_sequence r1, er_event_hash r1)\<rparr>"
  define r2 where "r2 = new_row plain_env ''e2'' (sample_event ''lifecycle'') s1"
  have payload: "canonical (er_payload (new_row E fresh ev s)) = er_payload (new_row E fresh ev s)" for E fresh ev s
    by (simp add: new_row_def Let_def canonical_idem)
  have f1: "er_sequence r1 = 1" "er_event_id r1 = ''e1''" "er_monotonic_time r1 = Fin 1" "er_wall_time r1 = Fin 1"
    "er_event_type r1 = ''birth''"
    by (simp_all add: r1_def new_row_def Let_def empty_store_def last_sequence_def ordered_events_def
        latest_checkpoint_def ordered_checkpoints_def sample_event_def)
  have f2: "er_sequence r2 = 2" "er_event_id r2 = ''e2''" "er_monotonic_time r2 = Fin 1" "er_wall_time r2 = Fin 1"
    "er_event_type r2 = ''lifecycle''"
    by (simp_all add: r2_def new_row_def Let_def s1_def f1 empty_store_def last_sequence_def ordered_events_def
        sample_event_def)
  have a1: "snd (append_event plain_env ''e1'' (sample_event ''birth'') empty_store) = s1"
    by (simp add: append_event_def append_row_def check_event_storage_budget_def insert_event_def Let_def
        r1_def [symmetric] f1 s1_def) (simp add: empty_store_def)
  have a2: "sample_ledger = s1\<lparr>st_events := [r1, r2], st_ledger_tip := Some (2, er_event_hash r2)\<rparr>"
    unfolding sample_ledger_def a1
    by (simp add: append_event_def append_row_def check_event_storage_budget_def insert_event_def Let_def
        r2_def [symmetric] f1 f2) (simp add: s1_def f1 empty_store_def)
  show ?thesis
    by (rule exI [of _ r1], rule exI [of _ r2])
      (simp add: a2 f1 f2 r1_def [symmetric] payload s1_def, simp add: r1_def r2_def payload)
qed

lemma sample_compacts: "\<exists>x t. compact_authoritative_prefix plain_env ''c'' sample_request sample_with_snapshot = (Inr (Some x), t)"
proof -
  let ?s = "sample_with_snapshot"
  have reach: "ledger_from plain_env ?s"
    unfolding sample_with_snapshot_def by (intro ledger_from.saved sample_reachable)
  obtain r1 r2 where led: "sample_ledger = empty_store\<lparr>st_events := [r1, r2], st_ledger_tip := Some (2, er_event_hash r2)\<rparr>"
    and r: "er_sequence r1 = 1" "er_sequence r2 = 2" "er_event_type r1 = ''birth''" "er_event_type r2 = ''lifecycle''"
    using sample_ledger_rows by blast
  define sn where "sn = \<lparr>ss_snapshot_id = ''s'', ss_agent_id = ''a'', ss_sequence = 2, ss_monotonic_time = Fin 1,
         ss_state = canonical (VDict []), ss_state_hash = hash_canonical plain_env (VDict []), ss_protected = False\<rparr>"
  have s: "st_events ?s = [r1, r2]" "st_snapshots ?s = [sn]" "st_journal ?s = []" "st_checkpoints ?s = []"
    "st_provenance ?s = []"
    by (simp_all add: sample_with_snapshot_def save_snapshot_def led empty_store_def sn_def)
  have v: "validate_chain plain_env ?s = Inr ()" using ok_validates ledger_from_ok reach by blast
  have latest: "latest_checkpoint ?s = None" using s by (simp add: latest_None)
  have ord: "ordered_events ?s = [r1, r2]" by (simp add: s r ordered_events_def)
  then have seq: "last_sequence ?s = 2" by (simp add: last_sequence_def r)
  have sn: "load_snapshot plain_env (Some ''s'') ?s = Inr sn" "ss_agent_id sn = ''a''" "ss_sequence sn = 2"
    "snapshot_strings (ss_state sn) = []"
    by (simp_all add: load_snapshot_def find_snapshot_def s, simp_all add: sn_def sorted_items_def)
  have plan: "plan_compaction plain_env sample_request ?s = Inr (Some (None, sn, 1, [r1, r2]))"
    by (simp add: plan_compaction_def sample_request_def v sn seq latest ord r s has_prepared_habitat_execution_def)
  have prot: "protected_provenance sample_request None sn ?s = Inr [(''event_type:birth'', row_to_event r1)]"
    by (simp add: protected_provenance_def sample_request_def last_event_of_types_def ord r latest
        events_referenced_by_snapshot_def sn)
  let ?c = "new_checkpoint plain_env ''c'' sample_request None sn 1 [r1, r2]"
  have ids: "cp_checkpoint_id ?c = ''c''" "cp_creation_wall_time ?c = Fin 1" "cp_snapshot_id ?c = ''s''"
    by (simp_all add: new_checkpoint_def Let_def sample_request_def)
  obtain t where com: "commit_checkpoint ?c [(''event_type:birth'', row_to_event r1)] None ?s = Inr t"
    by (simp add: commit_checkpoint_def insert_checkpoint_def s ids Let_def insert_provenance_def row_to_event_def)
  have crash: "cq_crash_after sample_request = None" by (simp add: sample_request_def)
  show ?thesis
  proof (rule compact_result [OF ledger_from_ok [OF reach], of "''c''" sample_request])
    fix e assume r: "compact_authoritative_prefix plain_env ''c'' sample_request ?s = (Inl e, ?s)"
    obtain r3 s3 where s3: "prune_snapshots 2 (drop_old_checkpoints ''c'' (cq_keep_checkpoints sample_request) t) = (r3, s3)"
      by (cases "prune_snapshots 2 (drop_old_checkpoints ''c'' (cq_keep_checkpoints sample_request) t)")
    obtain k where "r3 = Inr k" using prune_total [OF s3] by blast
    then have "s3 = ?s" "validate_chain plain_env s3 \<noteq> Inr ()"
      using r unfolding compact_authoritative_prefix_def plan
      by (auto simp: prot crash com Let_def s3 split: sum.splits)
    then show ?thesis using v by simp
  next
    assume "compact_authoritative_prefix plain_env ''c'' sample_request ?s = (Inr None, ?s)"
    then show ?thesis
      unfolding compact_authoritative_prefix_def plan
      by (simp add: prot crash com Let_def split: prod.splits sum.splits)
  qed blast
qed

theorem compaction_keeps_the_chain_witness:
  "\<exists>x t. compact_authoritative_prefix plain_env ''c'' sample_request sample_with_snapshot = (Inr (Some x), t)
     \<and> st_events t = [] \<and> last_event_hash t = last_event_hash sample_with_snapshot \<and> validate_chain plain_env t = Inr ()"
proof -
  obtain x t where r: "compact_authoritative_prefix plain_env ''c'' sample_request sample_with_snapshot = (Inr (Some x), t)"
    using sample_compacts by blast
  have reach: "ledger_from plain_env sample_with_snapshot"
    unfolding sample_with_snapshot_def by (intro ledger_from.saved sample_reachable)
  show ?thesis
    using compaction_keeps_the_chain [OF reach r] r by (intro exI [of _ x] exI [of _ t] conjI) auto
qed

section \<open>Tampering\<close>

text \<open>A collision of the hash: two values with different canonical forms and the same hash.\<close>

definition hash_collision :: "hash_env \<Rightarrow> bool" where
  "hash_collision E \<longleftrightarrow> (\<exists>v w. canonical v \<noteq> canonical w \<and> hash_canonical E v = hash_canonical E w)"

lemma no_collision: "\<not> hash_collision E \<Longrightarrow> hash_canonical E v = hash_canonical E w \<Longrightarrow> canonical v = canonical w"
  by (auto simp: hash_collision_def)

text \<open>A row as the database can hold it: its payload is the canonical value of its text.\<close>

definition stored_row :: "event_row \<Rightarrow> bool" where
  "stored_row r \<longleftrightarrow> canonical (er_payload r) = er_payload r"

lemma body_dwf: "event_body r = VDict d \<Longrightarrow> dwf d"
  by (auto simp: event_body_def)

lemma body_injective:
  assumes c: "canonical (event_body r) = canonical (event_body q)" and "stored_row r" and "stored_row q"
    and h: "er_event_hash r = er_event_hash q"
  shows "r = q"
proof -
  obtain d where d: "event_body r = VDict d" by (simp add: event_body_def)
  obtain e where e: "event_body q = VDict e" by (simp add: event_body_def)
  have look: "map_option canonical (map_of d k) = map_option canonical (map_of e k)" for k
    using c canonical_lookup [OF body_dwf [OF d], of k] canonical_lookup [OF body_dwf [OF e], of k]
    by (simp add: d e)
  have strs: "map VStr xs = map VStr ys \<Longrightarrow> xs = ys" for xs ys :: "string list"
    by (rule map_injective) (auto simp: inj_def)
  have "er_event_id r = er_event_id q" "er_agent_id r = er_agent_id q" "er_sequence r = er_sequence q"
    "er_event_type r = er_event_type q" "er_schema_version r = er_schema_version q"
    "er_monotonic_time r = er_monotonic_time q" "er_wall_time r = er_wall_time q"
    "er_payload_hash r = er_payload_hash q" "er_previous_event_hash r = er_previous_event_hash q"
    using look [of "''event_id''"] look [of "''agent_id''"] look [of "''sequence''"] look [of "''event_type''"]
      look [of "''schema_version''"] look [of "''monotonic_time''"] look [of "''wall_time''"] look [of "''payload_hash''"]
      look [of "''previous_event_hash''"] d e
    by (auto simp: event_body_def)
  moreover have "er_causal_parent_ids r = er_causal_parent_ids q"
    using look [of "''causal_parent_ids''"] d e strs by (auto simp: event_body_def o_def)
  moreover have "er_payload r = er_payload q"
    using look [of "''payload''"] d e assms(2,3) by (auto simp: event_body_def stored_row_def)
  ultimately show ?thesis using h by (cases r; cases q) simp
qed

lemma validated_numbers:
  assumes "validate_rows E h n rs = Inr (h', n')" and "r \<in> set rs"
  shows "n \<le> er_sequence r" and "er_sequence r < n'"
proof -
  have "er_sequence r \<in> set [n..n' - 1]"
    using assms(2) validate_rows_facts(1) [OF assms(1), symmetric] by simp
  then show "n \<le> er_sequence r" "er_sequence r < n'" by auto
qed

text \<open>Two validated runs of rows that end in the same hash and number agree wherever both have a row, wherever they start.\<close>

lemma same_end_same_rows:
  assumes free: "\<not> hash_collision E"
    and v: "validate_rows E h n rs = Inr (tip, m)" and w: "validate_rows E h' n' qs = Inr (tip, m)"
    and stored: "list_all stored_row rs" "list_all stored_row qs"
  shows "filter (\<lambda>r. max n n' \<le> er_sequence r) rs = filter (\<lambda>r. max n n' \<le> er_sequence r) qs"
  using v w stored
proof (induction rs arbitrary: qs tip m rule: rev_induct)
  case Nil
  then have "m = n" by simp
  then have "\<not> max n n' \<le> er_sequence q" if "q \<in> set qs" for q
    using validated_numbers(2) [OF Nil.prems(2) that] by simp
  then show ?case by (simp add: filter_empty_conv)
next
  case (snoc r rs)
  show ?case
  proof (cases qs rule: rev_cases)
    case Nil
    then have "m = n'" using snoc.prems(2) by simp
    then have "\<not> max n n' \<le> er_sequence q" if "q \<in> set (rs @ [r])" for q
      using validated_numbers(2) [OF snoc.prems(1) that] by simp
    then show ?thesis using Nil by (auto simp: filter_empty_conv)
  next
    case qs: (snoc qs' q)
    obtain h1 n1 where r1: "validate_rows E h n rs = Inr (h1, n1)" "validate_rows E h1 n1 [r] = Inr (tip, m)"
      using snoc.prems(1) by (auto simp: validate_rows_append andThen_eq_Inr)
    obtain h2 n2 where q1: "validate_rows E h' n' qs' = Inr (h2, n2)" "validate_rows E h2 n2 [q] = Inr (tip, m)"
      using snoc.prems(2) by (auto simp: qs validate_rows_append andThen_eq_Inr)
    have r: "er_event_hash r = tip" "hash_canonical E (event_body r) = tip" "er_previous_event_hash r = h1" "n1 = m - 1"
      using r1(2) by (auto split: if_splits)
    have q: "er_event_hash q = tip" "hash_canonical E (event_body q) = tip" "er_previous_event_hash q = h2" "n2 = m - 1"
      using q1(2) by (auto split: if_splits)
    have "canonical (event_body r) = canonical (event_body q)" using no_collision [OF free] r q by simp
    then have eq: "r = q" using body_injective snoc.prems(3,4) r q by (simp add: qs)
    then have "h1 = h2" "n1 = n2" using r q by auto
    then have "filter (\<lambda>r. max n n' \<le> er_sequence r) rs = filter (\<lambda>r. max n n' \<le> er_sequence r) qs'"
      using snoc.IH [OF r1(1)] q1(1) snoc.prems(3,4) by (simp add: qs)
    then show ?thesis using eq qs by simp
  qed
qed

lemma validated_tail:
  assumes "validate_chain E u = Inr ()" and "st_ledger_tip u = Some tip"
  shows "validate_rows E (base_hash u) (base_seq u + 1) (iter_rows (base_seq u + 1) u) = Inr (snd tip, fst tip + 1)"
proof -
  obtain c where c: "validate_latest_checkpoint E u = Inr c"
    using assms(1) by (auto simp: validate_chain_def andThen_eq_Inr)
  then have "c = latest_checkpoint u"
    by (auto simp: validate_latest_checkpoint_def andThen_eq_Inr split: option.splits if_splits)
  then show ?thesis
    using assms c
    by (auto simp: validate_chain_def andThen_eq_Inr Let_def base_seq_def base_hash_def split: option.splits if_splits)
qed

lemma iter_rows_later: "k \<le> m \<Longrightarrow> iter_rows m s = filter (\<lambda>r. m \<le> er_sequence r) (iter_rows k s)"
  by (auto simp: iter_rows_def intro: filter_cong)

text \<open>C24: the ledger is tamper evident. Two stores that both pass validation and agree on the tip hold the same events, to
  the last byte of every payload and in the same order, from the number on at which neither has compacted its events away;
  unless a collision of the hash is at hand. Two stores without a checkpoint thus hold the same events from the first on.
  What one of them has compacted away, only the other can show, and nothing is claimed of it.\<close>

theorem same_tip_same_events:
  assumes "validate_chain E s = Inr ()" and "validate_chain E t = Inr ()"
    and "st_ledger_tip s = Some tip" and "st_ledger_tip t = Some tip"
    and "list_all stored_row (iter_rows (base_seq s + 1) s)" and "list_all stored_row (iter_rows (base_seq t + 1) t)"
  shows "iter_rows (max (base_seq s) (base_seq t) + 1) s = iter_rows (max (base_seq s) (base_seq t) + 1) t
    \<or> hash_collision E"
proof (cases "hash_collision E")
  case False
  have m: "max (base_seq s) (base_seq t) + 1 = max (base_seq s + 1) (base_seq t + 1)" by simp
  show ?thesis
    using same_end_same_rows [OF False validated_tail [OF assms(1,3)] validated_tail [OF assms(2,4)] assms(5,6)]
      iter_rows_later [of "base_seq s + 1" "max (base_seq s) (base_seq t) + 1" s]
      iter_rows_later [of "base_seq t + 1" "max (base_seq s) (base_seq t) + 1" t]
    unfolding m by simp
qed simp

text \<open>The sample ledger and its compaction, each continued by the same third event.\<close>

definition third_row :: "store \<Rightarrow> event_row" where
  "third_row u = new_row plain_env ''e3'' (sample_event ''lifecycle'') u"

definition continued :: "store \<Rightarrow> store" where
  "continued u = u\<lparr>st_events := st_events u @ [third_row u],
     st_ledger_tip := Some (er_sequence (third_row u), er_event_hash (third_row u))\<rparr>"

lemma continue_ok:
  assumes "ledger_ok plain_env u" and "st_event_storage_budget u = None"
    and "list_all (\<lambda>q. er_event_id q \<noteq> ''e3'') (st_events u)"
  shows "ledger_ok plain_env (continued u)"
proof -
  obtain h n where v: "validate_rows plain_env (base_hash u) (base_seq u + 1) (st_events u) = Inr (h, n)"
    using assms(1) by (auto simp: ledger_ok_def tail_ok_def)
  have id: "er_event_id (third_row u) = ''e3''" "er_monotonic_time (third_row u) = Fin 1" "er_wall_time (third_row u) = Fin 1"
    by (simp_all add: third_row_def new_row_def sample_event_def Let_def)
  have "er_sequence (third_row u) = n" using tail_tip(1) [OF v] by (simp add: third_row_def new_row_def Let_def)
  then have fresh: "\<not> list_ex (\<lambda>q. er_sequence q = er_sequence (third_row u) \<or> er_event_id q = ''e3'') (st_events u)"
    using validated_numbers(2) [OF v] assms(3) by (fastforce simp: list_ex_iff list_all_iff)
  have "insert_event (third_row u) u = Inr (u\<lparr>st_events := st_events u @ [third_row u]\<rparr>)"
    using fresh by (simp add: insert_event_def id)
  then have "append_row plain_env ''e3'' (sample_event ''lifecycle'') u = Inr (continued u)"
    by (simp add: append_row_def check_event_storage_budget_def assms(2) third_row_def [symmetric] continued_def Let_def)
  then show ?thesis using append_ok assms(1) by blast
qed

lemma continued_simps [simp]:
  "st_events (continued u) = st_events u @ [third_row u]"
  "st_ledger_tip (continued u) = Some (er_sequence (third_row u), er_event_hash (third_row u))"
  "base_seq (continued u) = base_seq u"
  by (simp_all add: continued_def base_seq_def)

lemma third_row_same:
  "last_sequence u = last_sequence v \<Longrightarrow> last_event_hash u = last_event_hash v \<Longrightarrow> third_row u = third_row v"
  by (simp add: third_row_def new_row_def)

lemma third_row_stored: "stored_row (third_row u)"
  by (simp add: stored_row_def third_row_def new_row_def Let_def canonical_idem)

lemma sample_compacted:
  obtains t where "ledger_ok plain_env t" "st_events t = []" "last_sequence t = last_sequence sample_with_snapshot"
    "last_event_hash t = last_event_hash sample_with_snapshot" "base_seq t = last_sequence sample_with_snapshot"
proof -
  have "ledger_from plain_env sample_with_snapshot"
    unfolding sample_with_snapshot_def by (intro ledger_from.saved sample_reachable)
  then show ?thesis
    using sample_compacts that
    by (elim exE) (rule compact_result [OF ledger_from_ok, of plain_env sample_with_snapshot "''c''" sample_request];
      auto simp: base_seq_def)
qed

theorem same_tip_same_events_witness:
  "\<exists>s t. validate_chain plain_env s = Inr () \<and> validate_chain plain_env t = Inr () \<and> st_ledger_tip s = st_ledger_tip t
     \<and> length (st_events s) = 3 \<and> length (st_events t) = 1 \<and> iter_rows (base_seq t + 1) t = st_events t
     \<and> (iter_rows (max (base_seq s) (base_seq t) + 1) s = iter_rows (max (base_seq s) (base_seq t) + 1) t
        \<or> hash_collision plain_env)"
proof -
  obtain r1 r2 where led: "sample_ledger = empty_store\<lparr>st_events := [r1, r2], st_ledger_tip := Some (2, er_event_hash r2)\<rparr>"
    and r: "canonical (er_payload r1) = er_payload r1" "canonical (er_payload r2) = er_payload r2"
    and ids: "er_event_id r1 = ''e1''" "er_event_id r2 = ''e2''"
    using sample_ledger_rows by blast
  let ?s = "sample_with_snapshot"
  have s: "st_events ?s = [r1, r2]" "st_event_storage_budget ?s = None"
    by (simp_all add: sample_with_snapshot_def save_snapshot_def led empty_store_def)
  obtain t0 where t0: "ledger_ok plain_env t0" "st_events t0 = []" "last_sequence t0 = last_sequence ?s"
    "last_event_hash t0 = last_event_hash ?s" "base_seq t0 = last_sequence ?s"
    using sample_compacted .
  let ?t = "t0\<lparr>st_event_storage_budget := None\<rparr>"
  have t: "ledger_ok plain_env ?t" "st_events ?t = []" "last_sequence ?t = last_sequence ?s" "last_event_hash ?t = last_event_hash ?s"
    using t0 budget_only(1) by (simp_all add: last_sequence_def last_event_hash_def ordered_events_def
        latest_checkpoint_def ordered_checkpoints_def)
  have "ledger_from plain_env ?s" unfolding sample_with_snapshot_def by (intro ledger_from.saved sample_reachable)
  then have cs: "ledger_ok plain_env (continued ?s)" using s ids by (intro continue_ok ledger_from_ok) simp_all
  have ct: "ledger_ok plain_env (continued ?t)" using t by (intro continue_ok) simp_all
  have tail: "iter_rows (base_seq u + 1) u = st_events u" if "ledger_ok plain_env u" for u
    using that by (intro tail_ordered(2) [of plain_env]) (simp add: ledger_ok_def)
  have tip: "st_ledger_tip (continued ?t) = st_ledger_tip (continued ?s)" using third_row_same [OF t(3,4)] by simp
  have "list_all stored_row (iter_rows (base_seq (continued ?s) + 1) (continued ?s))"
    "list_all stored_row (iter_rows (base_seq (continued ?t) + 1) (continued ?t))"
    using r s t third_row_stored tail [OF cs] tail [OF ct] by (simp_all add: stored_row_def)
  note same = same_tip_same_events [OF ok_validates [OF cs] ok_validates [OF ct] _ _ this]
  show ?thesis
    using same tip ok_validates [OF cs] ok_validates [OF ct] tail [OF ct] s t
    by (intro exI [of _ "continued ?s"] exI [of _ "continued ?t"]) simp
qed

end
