(* ===== verification/Affordances.thy ===== *)
theory Affordances
  imports LedgerChain
begin

text \<open>
  \<open>habitat_affordances/definitions.py\<close> and \<open>habitat_affordances/engine.py\<close>: what can be done with an object, the definitions
  and their hash, the checks of a request and the plan of its effects. The definitions file is a value of type
  \<^typ>\<open>pyv\<close>; \<open>math.hypot\<close> is the argument \<open>hypot\<close>. Mutations, event stubs and organism effects of a plan are dictionaries, as
  in the code.
\<close>

section \<open>Definitions\<close>

datatype affordance_operation = PICK_UP | PLACE | PUSH | ACTIVATE | DEACTIVATE | USE

fun operation_value :: "affordance_operation \<Rightarrow> string" where
  "operation_value PICK_UP = ''PICK_UP''"
| "operation_value PLACE = ''PLACE''"
| "operation_value PUSH = ''PUSH''"
| "operation_value ACTIVATE = ''ACTIVATE''"
| "operation_value DEACTIVATE = ''DEACTIVATE''"
| "operation_value USE = ''USE''"

definition operation_of :: "string \<Rightarrow> affordance_operation res" where
  "operation_of s =
     (if s = ''PICK_UP'' then Inr PICK_UP else if s = ''PLACE'' then Inr PLACE else if s = ''PUSH'' then Inr PUSH
      else if s = ''ACTIVATE'' then Inr ACTIVATE else if s = ''DEACTIVATE'' then Inr DEACTIVATE
      else if s = ''USE'' then Inr USE else Inl (ValueError ''not_a_valid_AffordanceOperation''))"

record affordance_preconditions =
  ap_schema_version :: string
  ap_requires_free_location :: bool
  ap_requires_not_held :: bool
  ap_requires_held_by_body :: bool
  ap_requires_portable :: bool
  ap_requires_remaining_yield_min :: "flt option"
  ap_requires_station_available :: "bool option"
  ap_requires_activatable_active :: "bool option"

record body_requirements =
  br_schema_version :: string
  br_required_capabilities :: "string list"
  br_maximum_held_mass_class :: "string option"

record environmental_cost =
  ec_schema_version :: string
  ec_effort :: flt

record organism_effect_proposal =
  oe_effect_kind :: string
  oe_magnitude :: flt

record organism_effect_contract =
  oc_schema_version :: string
  oc_effects :: "organism_effect_proposal list"

record world_effect_mutation =
  we_field :: string
  we_delta :: pyv

record world_effect_contract =
  wc_schema_version :: string
  wc_mutations :: "world_effect_mutation list"

record affordance_definition =
  ad_affordance_id :: string
  ad_target_object_kind :: object_kind
  ad_operation :: affordance_operation
  ad_required_capability :: string
  ad_preconditions :: affordance_preconditions
  ad_body_requirements :: body_requirements
  ad_environmental_cost :: environmental_cost
  ad_organism_effect_contract :: organism_effect_contract
  ad_world_effect_contract :: world_effect_contract
  ad_reversibility :: string
  ad_cooldown_ticks :: int
  ad_failure_modes :: "string list"
  ad_definition_version :: int
  ad_definition_hash :: string

definition preconditions_to_pyv :: "affordance_preconditions \<Rightarrow> pyv" where
  "preconditions_to_pyv p = VDict
     [(''schema_version'', VStr (ap_schema_version p)),
      (''requires_free_location'', VBool (ap_requires_free_location p)),
      (''requires_not_held'', VBool (ap_requires_not_held p)),
      (''requires_held_by_body'', VBool (ap_requires_held_by_body p)),
      (''requires_portable'', VBool (ap_requires_portable p)),
      (''requires_remaining_yield_min'', v_opt VFlt (ap_requires_remaining_yield_min p)),
      (''requires_station_available'', v_opt VBool (ap_requires_station_available p)),
      (''requires_activatable_active'', v_opt VBool (ap_requires_activatable_active p))]"

definition affordance_payload :: "affordance_definition \<Rightarrow> pyv" where
  "affordance_payload d = VDict
     [(''affordance_id'', VStr (ad_affordance_id d)),
      (''target_object_kind'', VStr (object_kind_value (ad_target_object_kind d))),
      (''operation'', VStr (operation_value (ad_operation d))),
      (''required_capability'', VStr (ad_required_capability d)),
      (''preconditions'', preconditions_to_pyv (ad_preconditions d)),
      (''body_requirements'', VDict
         [(''schema_version'', VStr (br_schema_version (ad_body_requirements d))),
          (''required_capabilities'', v_strs (br_required_capabilities (ad_body_requirements d))),
          (''maximum_held_mass_class'', v_opt VStr (br_maximum_held_mass_class (ad_body_requirements d)))]),
      (''environmental_cost'', VDict
         [(''schema_version'', VStr (ec_schema_version (ad_environmental_cost d))),
          (''effort'', VFlt (ec_effort (ad_environmental_cost d)))]),
      (''organism_effect_contract'', VDict
         [(''schema_version'', VStr (oc_schema_version (ad_organism_effect_contract d))),
          (''effects'', VList (map (\<lambda>e. VDict
             [(''effect_kind'', VStr (oe_effect_kind e)), (''magnitude'', VFlt (oe_magnitude e))])
             (oc_effects (ad_organism_effect_contract d))))]),
      (''world_effect_contract'', VDict
         [(''schema_version'', VStr (wc_schema_version (ad_world_effect_contract d))),
          (''mutations'', VList (map (\<lambda>m. VDict [(''field'', VStr (we_field m)), (''delta'', we_delta m)])
             (wc_mutations (ad_world_effect_contract d))))]),
      (''reversibility'', VStr (ad_reversibility d)),
      (''cooldown_ticks'', VInt (ad_cooldown_ticks d)),
      (''failure_modes'', v_strs (ad_failure_modes d)),
      (''definition_version'', VInt (ad_definition_version d))]"

definition affordance_hash :: "hash_env \<Rightarrow> affordance_definition \<Rightarrow> string" where
  "affordance_hash E d = hash_canonical E (affordance_payload d)"

definition with_definition_hash :: "hash_env \<Rightarrow> affordance_definition \<Rightarrow> affordance_definition res" where
  "with_definition_hash E d =
     (let computed = affordance_hash E d
      in if ad_definition_hash d \<noteq> [] \<and> ad_definition_hash d \<noteq> computed
         then Inl (ValueError ''affordance_definition_hash_mismatch'')
         else Inr (d\<lparr>ad_definition_hash := computed\<rparr>))"

text \<open>\<open>raw.get(k)\<close> kept as it is; a value of the annotated type.\<close>

fun plain_bool :: "pyv \<Rightarrow> bool res" where
  "plain_bool (VBool b) = Inr b"
| "plain_bool v = Inl (OutOfModel ''expected a bool'')"

definition exact_object_kind :: "string \<Rightarrow> object_kind res" where
  "exact_object_kind s = andThen (object_kind_of s) (\<lambda>k.
     if object_kind_value k = s then Inr k else Inl (ValueError ''not_a_valid_ObjectKind''))"

definition parse_preconditions :: "pyv \<Rightarrow> affordance_preconditions res" where
  "parse_preconditions raw =
     andThen (fld raw ''schema_version'' as_str) (\<lambda>schema.
     andThen (fld_or raw ''requires_free_location'' (VBool False) as_bool) (\<lambda>free.
     andThen (fld_or raw ''requires_not_held'' (VBool False) as_bool) (\<lambda>not_held.
     andThen (fld_or raw ''requires_held_by_body'' (VBool False) as_bool) (\<lambda>held.
     andThen (fld_or raw ''requires_portable'' (VBool False) as_bool) (\<lambda>portable.
     andThen (fld_or raw ''requires_remaining_yield_min'' VNone (opt_conv plain_flt)) (\<lambda>yield_min.
     andThen (fld_or raw ''requires_station_available'' VNone (opt_conv plain_bool)) (\<lambda>station.
     andThen (fld_or raw ''requires_activatable_active'' VNone (opt_conv plain_bool)) (\<lambda>activatable.
     Inr \<lparr>ap_schema_version = schema, ap_requires_free_location = free, ap_requires_not_held = not_held,
          ap_requires_held_by_body = held, ap_requires_portable = portable,
          ap_requires_remaining_yield_min = yield_min, ap_requires_station_available = station,
          ap_requires_activatable_active = activatable\<rparr>))))))))"

definition parse_effect :: "pyv \<Rightarrow> organism_effect_proposal res" where
  "parse_effect v = andThen (fld v ''effect_kind'' as_str) (\<lambda>k. andThen (fld v ''magnitude'' as_float) (\<lambda>m.
     Inr \<lparr>oe_effect_kind = k, oe_magnitude = m\<rparr>))"

definition parse_world_mutation :: "pyv \<Rightarrow> world_effect_mutation res" where
  "parse_world_mutation v = andThen (fld v ''field'' as_str) (\<lambda>f. andThen (item v ''delta'') (\<lambda>d.
     Inr \<lparr>we_field = f, we_delta = d\<rparr>))"

definition parse_definition :: "hash_env \<Rightarrow> pyv \<Rightarrow> affordance_definition res" where
  "parse_definition E raw =
     andThen (fld raw ''organism_effect_contract'' (\<lambda>c. fld c ''effects'' (tuple_of parse_effect))) (\<lambda>effects.
     andThen (fld raw ''world_effect_contract'' (\<lambda>c. fld c ''mutations'' (tuple_of parse_world_mutation))) (\<lambda>mutations.
     andThen (fld raw ''affordance_id'' as_str) (\<lambda>affordance_id.
     andThen (andThen (fld raw ''target_object_kind'' as_str) exact_object_kind) (\<lambda>kind.
     andThen (andThen (fld raw ''operation'' as_str) operation_of) (\<lambda>operation.
     andThen (fld raw ''required_capability'' as_str) (\<lambda>capability.
     andThen (fld raw ''preconditions'' parse_preconditions) (\<lambda>preconditions.
     andThen (item raw ''body_requirements'') (\<lambda>body.
     andThen (fld body ''schema_version'' as_str) (\<lambda>body_schema.
     andThen (fld body ''required_capabilities'' (tuple_of as_str)) (\<lambda>capabilities.
     andThen (fld_or body ''maximum_held_mass_class'' VNone (opt_conv plain_str)) (\<lambda>mass.
     andThen (item raw ''environmental_cost'') (\<lambda>cost.
     andThen (fld cost ''schema_version'' as_str) (\<lambda>cost_schema.
     andThen (fld cost ''effort'' as_float) (\<lambda>effort.
     andThen (fld raw ''organism_effect_contract'' (\<lambda>c. fld c ''schema_version'' as_str)) (\<lambda>organism_schema.
     andThen (fld raw ''world_effect_contract'' (\<lambda>c. fld c ''schema_version'' as_str)) (\<lambda>world_schema.
     andThen (fld raw ''reversibility'' as_str) (\<lambda>reversibility.
     andThen (fld raw ''cooldown_ticks'' as_int) (\<lambda>cooldown_ticks.
     andThen (fld_or raw ''failure_modes'' (VList []) (tuple_of as_str)) (\<lambda>failure_modes.
     andThen (fld raw ''definition_version'' as_int) (\<lambda>definition_version.
     andThen (fld_or raw ''definition_hash'' (VStr []) as_str) (\<lambda>hash.
     with_definition_hash E
       \<lparr>ad_affordance_id = affordance_id, ad_target_object_kind = kind, ad_operation = operation,
        ad_required_capability = capability, ad_preconditions = preconditions,
        ad_body_requirements = \<lparr>br_schema_version = body_schema, br_required_capabilities = capabilities,
          br_maximum_held_mass_class = mass\<rparr>,
        ad_environmental_cost = \<lparr>ec_schema_version = cost_schema, ec_effort = effort\<rparr>,
        ad_organism_effect_contract = \<lparr>oc_schema_version = organism_schema, oc_effects = effects\<rparr>,
        ad_world_effect_contract = \<lparr>wc_schema_version = world_schema, wc_mutations = mutations\<rparr>,
        ad_reversibility = reversibility, ad_cooldown_ticks = cooldown_ticks, ad_failure_modes = failure_modes,
        ad_definition_version = definition_version, ad_definition_hash = hash\<rparr>)))))))))))))))))))))"

definition load_affordance_definitions :: "hash_env \<Rightarrow> pyv list \<Rightarrow> affordance_definition dict res" where
  "load_affordance_definitions E raw_definitions =
     andThen (foldE (\<lambda>loaded raw. andThen (fld raw ''affordance_id'' plain_str) (\<lambda>i.
         andThen (parse_definition E raw) (\<lambda>d. Inr (dput i d loaded)))) [] raw_definitions) (\<lambda>loaded.
     if length loaded \<noteq> length raw_definitions then Inl (ValueError ''duplicate_affordance_id'') else Inr loaded)"

section \<open>Requests\<close>

definition MAX_COORDINATE :: flt where
  "MAX_COORDINATE = Fin 20"

definition MAX_PUSH_DISTANCE :: flt where
  "MAX_PUSH_DISTANCE = Fin 5"

definition MAX_DIRECTION_COMPONENT :: flt where
  "MAX_DIRECTION_COMPONENT = Fin 1"

text \<open>The field \<open>kind\<close> of a parameter class keeps its default: it is the constructor.\<close>

datatype manipulation_parameters =
    PickUpParameters int
  | PlaceParameters flt flt string "string option"
  | PushParameters flt flt flt
  | ActivateParameters
  | DeactivateParameters
  | UseParameters

definition PARAMETER_BOUNDS :: "(flt \<times> flt) dict" where
  "PARAMETER_BOUNDS =
     [(''target_x'', Fin 0, MAX_COORDINATE), (''target_y'', Fin 0, MAX_COORDINATE),
      (''direction_x'', flt_neg MAX_DIRECTION_COMPONENT, MAX_DIRECTION_COMPONENT),
      (''direction_y'', flt_neg MAX_DIRECTION_COMPONENT, MAX_DIRECTION_COMPONENT),
      (''requested_distance'', Fin 0, MAX_PUSH_DISTANCE)]"

record manipulation_request =
  mr_request_id :: string
  mr_execution_id :: string
  mr_capability :: string
  mr_target_object_id :: string
  mr_affordance_id :: string
  mr_expected_habitat_version :: int
  mr_expected_habitat_state_hash :: string
  mr_target_object_version :: int
  mr_target_object_definition_version :: int
  mr_target_object_definition_hash :: string
  mr_affordance_definition_version :: int
  mr_affordance_definition_hash :: string
  mr_body_instance_id :: string
  mr_body_profile_id :: string
  mr_attachment_generation :: int
  mr_parameters :: manipulation_parameters

text \<open>\<open>AdapterValidatedManipulation\<close>, without the validated profile, which nothing here reads.\<close>

record adapter_validated =
  av_body_pose_view :: body_pose_view
  av_reach_radius :: flt
  av_requested_parameters :: manipulation_parameters
  av_applied_parameters :: manipulation_parameters
  av_translation_applied :: bool

record habitat_effect_plan =
  hp_habitat_mutations :: "pyv list"
  hp_habitat_events :: "pyv list"
  hp_requested_organism_effects :: "pyv list"

record affordance_validation =
  vr_allowed :: bool
  vr_failure_code :: "string option"
  vr_expected_object_version :: "int option"
  vr_expected_habitat_version :: "int option"
  vr_effect_plan :: "habitat_effect_plan option"
  vr_applied_parameters :: "manipulation_parameters option"

definition out_of_bounds :: "string \<Rightarrow> flt \<Rightarrow> bool" where
  "out_of_bounds field_name value =
     (case map_of PARAMETER_BOUNDS field_name of
        None \<Rightarrow> True
      | Some (lo, hi) \<Rightarrow> \<not> is_finite value \<or> flt_lt value lo \<or> flt_lt hi value)"

text \<open>\<open>math.sqrt(2.0) + 1e-9\<close>.\<close>

definition max_magnitude :: flt where
  "max_magnitude = flt_add (flit 14142135623730951 10000000000000000) (flit 1 1000000000)"

fun validate_manipulation_parameters :: "(flt \<Rightarrow> flt \<Rightarrow> flt) \<Rightarrow> manipulation_parameters \<Rightarrow> string option" where
  "validate_manipulation_parameters hypot (PickUpParameters hold_slot) =
     (if hold_slot < 0 \<or> 0 < hold_slot then Some ''HOLD_SLOT_UNAVAILABLE'' else None)"
| "validate_manipulation_parameters hypot (PlaceParameters x y zone_id support) =
     (if out_of_bounds ''target_x'' x \<or> out_of_bounds ''target_y'' y then Some ''PLACEMENT_POSITION_INVALID''
      else if zone_id = [] then Some ''MALFORMED_MANIPULATION_REQUEST'' else None)"
| "validate_manipulation_parameters hypot (PushParameters dx dy distance) =
     (if out_of_bounds ''direction_x'' dx \<or> out_of_bounds ''direction_y'' dy \<or> out_of_bounds ''requested_distance'' distance
      then Some ''MALFORMED_MANIPULATION_REQUEST''
      else let magnitude = hypot dx dy
           in if flt_le magnitude (Fin 0) \<or> flt_lt max_magnitude magnitude
              then Some ''MALFORMED_MANIPULATION_REQUEST'' else None)"
| "validate_manipulation_parameters hypot ActivateParameters = None"
| "validate_manipulation_parameters hypot DeactivateParameters = None"
| "validate_manipulation_parameters hypot UseParameters = None"

fun operation_for_parameters :: "manipulation_parameters \<Rightarrow> affordance_operation" where
  "operation_for_parameters (PickUpParameters _) = PICK_UP"
| "operation_for_parameters (PlaceParameters _ _ _ _) = PLACE"
| "operation_for_parameters (PushParameters _ _ _) = PUSH"
| "operation_for_parameters ActivateParameters = ACTIVATE"
| "operation_for_parameters DeactivateParameters = DEACTIVATE"
| "operation_for_parameters UseParameters = USE"

definition cooldown_active :: "habitat_object \<Rightarrow> string \<Rightarrow> int \<Rightarrow> bool" where
  "cooldown_active ob affordance_id habitat_tick =
     list_ex (\<lambda>(aff_id, until_tick). aff_id = affordance_id \<and> habitat_tick < until_tick) (ho_cooldowns ob)"

definition check_preconditions :: "habitat_object \<Rightarrow> affordance_preconditions \<Rightarrow> string \<Rightarrow> string option" where
  "check_preconditions ob pre body_instance_id =
     (let failed = Some ''AFFORDANCE_PRECONDITION_FAILED'';
          held_failure = (if ap_requires_held_by_body pre
            then (case ho_location ob of
                FreeLocation _ _ _ \<Rightarrow> Some ''NO_OBJECT_HELD''
              | HeldByLocation holder _ _ \<Rightarrow> if holder \<noteq> body_instance_id then Some ''OBJECT_NOT_HELD_BY_BODY'' else None)
            else None);
          yield_failure = (case ap_requires_remaining_yield_min pre of None \<Rightarrow> None
            | Some m \<Rightarrow> (case ho_state ob of ResourceState y \<Rightarrow> if flt_lt y m then failed else None | _ \<Rightarrow> failed));
          station_failure = (case ap_requires_station_available pre of None \<Rightarrow> None
            | Some b \<Rightarrow> (case ho_state ob of StationState _ available \<Rightarrow> if available \<noteq> b then failed else None
                | _ \<Rightarrow> failed));
          active_failure = (case ap_requires_activatable_active pre of None \<Rightarrow> None
            | Some b \<Rightarrow> (case ho_state ob of ActivatableState active \<Rightarrow> if active \<noteq> b then failed else None
                | _ \<Rightarrow> failed))
      in if ap_requires_portable pre \<and> \<not> ho_portable ob then Some ''OBJECT_NOT_PORTABLE''
         else if ap_requires_free_location pre \<and> \<not> is_free (ho_location ob) then failed
         else if ap_requires_not_held pre \<and> \<not> is_free (ho_location ob) then Some ''OBJECT_ALREADY_HELD''
         else if held_failure \<noteq> None then held_failure
         else if yield_failure \<noteq> None then yield_failure
         else if station_failure \<noteq> None then station_failure
         else active_failure)"

fun is_numeric :: "pyv \<Rightarrow> bool" where
  "is_numeric (VInt i) = True"
| "is_numeric (VFlt x) = True"
| "is_numeric (VBool b) = True"
| "is_numeric v = False"

definition apply_world_effect :: "object_state \<Rightarrow> world_effect_mutation \<Rightarrow> object_state res" where
  "apply_world_effect st m =
     (if we_field m = ''state.remaining_yield'' then
        (case st of
           ResourceState y \<Rightarrow>
             if \<not> is_numeric (we_delta m) then Inl (ValueError ''world_effect_yield_delta_must_be_numeric'')
             else andThen (as_float (we_delta m)) (\<lambda>d. Inr (ResourceState (flt_add y d)))
         | _ \<Rightarrow> Inl (ValueError ''world_effect_requires_resource_state''))
      else if we_field m = ''state.active'' then
        (case st of
           ActivatableState a \<Rightarrow>
             (case we_delta m of VBool b \<Rightarrow> Inr (ActivatableState b)
              | _ \<Rightarrow> Inl (ValueError ''world_effect_active_delta_must_be_bool''))
         | _ \<Rightarrow> Inl (ValueError ''world_effect_requires_activatable_state''))
      else Inl (ValueError (''unsupported_world_effect_field:'' @ we_field m)))"

definition apply_world_effect_mutations :: "object_state \<Rightarrow> world_effect_mutation list \<Rightarrow> object_state res" where
  "apply_world_effect_mutations st mutations = foldE apply_world_effect st mutations"

section \<open>Plans\<close>

definition set_location :: "string \<Rightarrow> pyv \<Rightarrow> pyv" where
  "set_location object_id location = VDict
     [(''mutation_kind'', VStr ''SET_LOCATION''), (''object_id'', VStr object_id), (''location'', location)]"

definition set_active :: "string \<Rightarrow> bool \<Rightarrow> pyv" where
  "set_active object_id active = VDict
     [(''mutation_kind'', VStr ''SET_ACTIVATABLE_ACTIVE''), (''object_id'', VStr object_id), (''active'', VBool active)]"

definition world_effect :: "string \<Rightarrow> world_effect_mutation \<Rightarrow> pyv" where
  "world_effect object_id m = VDict
     [(''mutation_kind'', VStr ''APPLY_WORLD_EFFECT''), (''object_id'', VStr object_id), (''field'', VStr (we_field m)),
      (''delta'', we_delta m)]"

definition set_cooldown :: "string \<Rightarrow> string \<Rightarrow> int \<Rightarrow> pyv" where
  "set_cooldown object_id affordance_id until_tick = VDict
     [(''mutation_kind'', VStr ''SET_COOLDOWN''), (''object_id'', VStr object_id), (''affordance_id'', VStr affordance_id),
      (''cooldown_until_tick'', VInt until_tick)]"

definition event_stub :: "string \<Rightarrow> string \<Rightarrow> pyv" where
  "event_stub event_type object_id = VDict [(''event_type'', VStr event_type), (''object_id'', VStr object_id)]"

text \<open>Mutations and event stubs of the operation itself.\<close>

definition operation_effects ::
  "(flt \<Rightarrow> flt \<Rightarrow> flt) \<Rightarrow> affordance_definition \<Rightarrow> habitat_object \<Rightarrow> manipulation_parameters \<Rightarrow> string \<Rightarrow> int
    \<Rightarrow> (pyv list \<times> pyv list) res" where
  "operation_effects hypot defn ob params body_instance_id attachment_generation =
     (let i = ho_object_id ob in
      case (ad_operation defn, params) of
        (PICK_UP, PickUpParameters hold_slot) \<Rightarrow>
          Inr ([set_location i (habitat_location_to_payload
                  (HeldByLocation body_instance_id attachment_generation hold_slot))],
               [event_stub ''habitat_object_picked_up'' i])
      | (PLACE, PlaceParameters x y zone_id support) \<Rightarrow>
          Inr ([set_location i (habitat_location_to_payload (FreeLocation x y zone_id))],
               [event_stub ''habitat_object_placed'' i])
      | (PUSH, PushParameters dx dy distance) \<Rightarrow>
          (case ho_location ob of
             HeldByLocation _ _ _ \<Rightarrow> Inr ([], [])
           | FreeLocation ox oy zone_id \<Rightarrow>
               let norm = hypot dx dy;
                   scale = (if flt_lt (Fin 0) norm then flt_div distance norm else Fin 0)
               in Inr ([set_location i (habitat_location_to_payload (FreeLocation
                         (flt_add ox (flt_mult dx scale)) (flt_add oy (flt_mult dy scale)) zone_id))],
                       [event_stub ''habitat_object_moved'' i]))
      | (ACTIVATE, _) \<Rightarrow> Inr ([set_active i True], [event_stub ''habitat_affordance_activated'' i])
      | (DEACTIVATE, _) \<Rightarrow> Inr ([set_active i False], [event_stub ''habitat_affordance_deactivated'' i])
      | (USE, _) \<Rightarrow>
          andThen (apply_world_effect_mutations (ho_state ob) (wc_mutations (ad_world_effect_contract defn))) (\<lambda>new_state.
          Inr (map (world_effect i) (wc_mutations (ad_world_effect_contract defn)),
               [VDict [(''event_type'', VStr ''habitat_object_state_changed''), (''object_id'', VStr i),
                 (''new_state'', object_state_to_pyv new_state)]]))
      | _ \<Rightarrow> Inr ([], []))"

definition build_effect_plan ::
  "(flt \<Rightarrow> flt \<Rightarrow> flt) \<Rightarrow> affordance_definition \<Rightarrow> habitat_object \<Rightarrow> manipulation_parameters \<Rightarrow> int \<Rightarrow> string \<Rightarrow> int
    \<Rightarrow> habitat_effect_plan res" where
  "build_effect_plan hypot defn ob params habitat_tick body_instance_id attachment_generation =
     andThen (operation_effects hypot defn ob params body_instance_id attachment_generation) (\<lambda>(mutations, events).
     Inr \<lparr>hp_habitat_mutations = mutations @ (if 0 < ad_cooldown_ticks defn
            then [set_cooldown (ho_object_id ob) (ad_affordance_id defn) (habitat_tick + ad_cooldown_ticks defn)] else []),
          hp_habitat_events = events,
          hp_requested_organism_effects = map (\<lambda>e. VDict
            [(''effect_kind'', VStr (oe_effect_kind e)), (''magnitude'', VFlt (oe_magnitude e))])
            (oc_effects (ad_organism_effect_contract defn))\<rparr>)"

section \<open>Validation\<close>

definition refusal :: "string \<Rightarrow> int option \<Rightarrow> int \<Rightarrow> affordance_validation" where
  "refusal code object_version habitat_version =
     \<lparr>vr_allowed = False, vr_failure_code = Some code, vr_expected_object_version = object_version,
      vr_expected_habitat_version = Some habitat_version, vr_effect_plan = None, vr_applied_parameters = None\<rparr>"

text \<open>The checks against the object, in order: the code of the first that fails.\<close>

definition object_failure ::
  "affordance_definition \<Rightarrow> manipulation_request \<Rightarrow> manipulation_parameters \<Rightarrow> int \<Rightarrow> bool \<Rightarrow> habitat_object \<Rightarrow> string option" where
  "object_failure defn request params habitat_tick in_range ob =
     (if mr_target_object_version request \<noteq> ho_object_version ob then Some ''STALE_OBJECT_VERSION''
      else if mr_target_object_definition_version request \<noteq> ho_definition_version ob
        \<or> mr_target_object_definition_hash request \<noteq> ho_definition_hash ob then Some ''OBJECT_DEFINITION_MISMATCH''
      else if mr_affordance_id request \<notin> set (ho_affordance_ids ob) then Some ''AFFORDANCE_NOT_SUPPORTED''
      else if ad_target_object_kind defn \<noteq> ho_object_kind ob then Some ''AFFORDANCE_NOT_SUPPORTED''
      else if operation_for_parameters params \<noteq> ad_operation defn then Some ''MALFORMED_MANIPULATION_REQUEST''
      else if \<not> in_range then Some ''OBJECT_OUT_OF_RANGE''
      else if cooldown_active ob (mr_affordance_id request) habitat_tick then Some ''AFFORDANCE_COOLDOWN''
      else check_preconditions ob (ad_preconditions defn) (mr_body_instance_id request))"

definition validate_affordance ::
  "hash_env \<Rightarrow> (flt \<Rightarrow> flt \<Rightarrow> flt) \<Rightarrow> affordance_definition dict \<Rightarrow> manipulation_request \<Rightarrow> habitat_snapshot
    \<Rightarrow> adapter_validated \<Rightarrow> bool \<Rightarrow> affordance_validation res" where
  "validate_affordance E hypot definitions request sn adapter in_range =
     (let params = av_applied_parameters adapter;
          refuse = (\<lambda>code. Inr (refusal code None (sn_state_version sn)))
      in case validate_manipulation_parameters hypot params of
           Some code \<Rightarrow> refuse code
         | None \<Rightarrow>
      if mr_capability request \<noteq> ''MANIPULATE'' then refuse ''UNSUPPORTED_BODY_CAPABILITY''
      else case map_of definitions (mr_affordance_id request) of
           None \<Rightarrow> refuse ''AFFORDANCE_NOT_SUPPORTED''
         | Some defn \<Rightarrow>
      if mr_affordance_definition_version request \<noteq> ad_definition_version defn
      then refuse ''AFFORDANCE_DEFINITION_MISMATCH''
      else if mr_affordance_definition_hash request \<noteq> affordance_hash E defn
      then refuse ''AFFORDANCE_DEFINITION_MISMATCH''
      else if mr_expected_habitat_version request \<noteq> sn_state_version sn
        \<or> mr_expected_habitat_state_hash request \<noteq> sn_state_hash sn
      then refuse ''HABITAT_STATE_CONFLICT''
      else case map_of (sn_objects sn) (mr_target_object_id request) of
           None \<Rightarrow> refuse ''OBJECT_NOT_FOUND''
         | Some ob \<Rightarrow>
      (case object_failure defn request params (sn_habitat_tick sn) in_range ob of
         Some code \<Rightarrow> Inr (refusal code (Some (ho_object_version ob)) (sn_state_version sn))
       | None \<Rightarrow>
           andThen (build_effect_plan hypot defn ob params (sn_habitat_tick sn) (mr_body_instance_id request)
             (mr_attachment_generation request)) (\<lambda>plan.
           Inr \<lparr>vr_allowed = True, vr_failure_code = None, vr_expected_object_version = Some (ho_object_version ob),
                vr_expected_habitat_version = Some (sn_state_version sn), vr_effect_plan = Some plan,
                vr_applied_parameters = Some params\<rparr>)))"

section \<open>What an allowed manipulation satisfies\<close>

text \<open>A mutation a plan may hold: of a known kind, on one object.\<close>

definition mutation_on :: "string \<Rightarrow> pyv \<Rightarrow> bool" where
  "mutation_on object_id m \<longleftrightarrow> item m ''object_id'' = Inr (VStr object_id)
     \<and> list_ex (\<lambda>k. item m ''mutation_kind'' = Inr (VStr k))
         [''SET_LOCATION'', ''SET_ACTIVATABLE_ACTIVE'', ''APPLY_WORLD_EFFECT'', ''SET_COOLDOWN'']"

text \<open>The request describes the definition, the habitat and the object as they are now.\<close>

definition request_current ::
  "hash_env \<Rightarrow> manipulation_request \<Rightarrow> habitat_snapshot \<Rightarrow> affordance_definition \<Rightarrow> habitat_object \<Rightarrow> bool" where
  "request_current E request sn defn ob \<longleftrightarrow>
     mr_expected_habitat_version request = sn_state_version sn
     \<and> mr_expected_habitat_state_hash request = sn_state_hash sn
     \<and> mr_target_object_version request = ho_object_version ob
     \<and> mr_target_object_definition_version request = ho_definition_version ob
     \<and> mr_target_object_definition_hash request = ho_definition_hash ob
     \<and> mr_affordance_definition_version request = ad_definition_version defn
     \<and> mr_affordance_definition_hash request = affordance_hash E defn"

text \<open>Bounds of the numbers of a parameter.\<close>

fun parameters_bounded :: "manipulation_parameters \<Rightarrow> bool" where
  "parameters_bounded (PickUpParameters hold_slot) = (hold_slot = 0)"
| "parameters_bounded (PlaceParameters x y zone_id support) =
     (flt_le (Fin 0) x \<and> flt_le x (Fin 20) \<and> flt_le (Fin 0) y \<and> flt_le y (Fin 20) \<and> zone_id \<noteq> [])"
| "parameters_bounded (PushParameters dx dy distance) =
     (flt_le (Fin (- 1)) dx \<and> flt_le dx (Fin 1) \<and> flt_le (Fin (- 1)) dy \<and> flt_le dy (Fin 1)
      \<and> flt_le (Fin 0) distance \<and> flt_le distance (Fin 5))"
| "parameters_bounded _ = True"

lemma in_bounds_le:
  "\<not> out_of_bounds k v \<Longrightarrow> map_of PARAMETER_BOUNDS k = Some (lo, hi) \<Longrightarrow> is_finite lo \<Longrightarrow> is_finite hi
   \<Longrightarrow> flt_le lo v \<and> flt_le v hi"
  by (cases v; cases lo; cases hi) (auto simp: out_of_bounds_def)

lemma bounds_entries [simp]:
  "map_of PARAMETER_BOUNDS ''target_x'' = Some (Fin 0, Fin 20)"
  "map_of PARAMETER_BOUNDS ''target_y'' = Some (Fin 0, Fin 20)"
  "map_of PARAMETER_BOUNDS ''direction_x'' = Some (Fin (- 1), Fin 1)"
  "map_of PARAMETER_BOUNDS ''direction_y'' = Some (Fin (- 1), Fin 1)"
  "map_of PARAMETER_BOUNDS ''requested_distance'' = Some (Fin 0, Fin 5)"
  by (simp_all add: PARAMETER_BOUNDS_def MAX_COORDINATE_def MAX_DIRECTION_COMPONENT_def MAX_PUSH_DISTANCE_def)

lemma validated_parameters_bounded: "validate_manipulation_parameters hypot p = None \<Longrightarrow> parameters_bounded p"
  by (cases p) (auto simp: Let_def split: if_splits dest: in_bounds_le)

lemma operation_effects_on_target:
  "operation_effects hypot defn ob p b g = Inr (ms, es) \<Longrightarrow> list_all (mutation_on (ho_object_id ob)) ms"
  by (cases "ad_operation defn"; cases p)
    (auto simp: operation_effects_def mutation_on_def set_location_def set_active_def world_effect_def Let_def
      andThen_eq_Inr list_all_iff split: object_location.splits)

lemma effect_plan_on_target:
  "build_effect_plan hypot defn ob p t b g = Inr plan \<Longrightarrow> list_all (mutation_on (ho_object_id ob)) (hp_habitat_mutations plan)"
  by (auto simp: build_effect_plan_def andThen_eq_Inr mutation_on_def set_cooldown_def
      dest: operation_effects_on_target)

lemma refusal_fields [simp]:
  "vr_allowed (refusal c v h) = False" "vr_failure_code (refusal c v h) = Some c" "vr_effect_plan (refusal c v h) = None"
  by (simp_all add: refusal_def)

text \<open>The single way through the checks.\<close>

lemma validate_affordance_cases:
  assumes "validate_affordance E hypot definitions request sn adapter in_range = Inr r"
  obtains (refused) c v h where "r = refusal c v h"
  | (granted) defn ob plan where
    "validate_manipulation_parameters hypot (av_applied_parameters adapter) = None"
    "mr_capability request = ''MANIPULATE''"
    "map_of definitions (mr_affordance_id request) = Some defn"
    "map_of (sn_objects sn) (mr_target_object_id request) = Some ob"
    "request_current E request sn defn ob"
    "object_failure defn request (av_applied_parameters adapter) (sn_habitat_tick sn) in_range ob = None"
    "build_effect_plan hypot defn ob (av_applied_parameters adapter) (sn_habitat_tick sn) (mr_body_instance_id request)
       (mr_attachment_generation request) = Inr plan"
    "r = \<lparr>vr_allowed = True, vr_failure_code = None, vr_expected_object_version = Some (ho_object_version ob),
          vr_expected_habitat_version = Some (sn_state_version sn), vr_effect_plan = Some plan,
          vr_applied_parameters = Some (av_applied_parameters adapter)\<rparr>"
proof (cases "\<exists>c v h. r = refusal c v h")
  case True
  then show ?thesis using that(1) by blast
next
  case False
  have current: "request_current E request sn defn ob"
    if "object_failure defn request p t in_range ob = None" "\<not> mr_affordance_definition_version request \<noteq> ad_definition_version defn"
      "\<not> mr_affordance_definition_hash request \<noteq> affordance_hash E defn"
      "\<not> (mr_expected_habitat_version request \<noteq> sn_state_version sn \<or> mr_expected_habitat_state_hash request \<noteq> sn_state_hash sn)"
    for defn p t ob
    using that by (simp add: request_current_def object_failure_def split: if_splits)
  show ?thesis
    using assms False
    by (auto simp: validate_affordance_def Let_def andThen_eq_Inr intro!: that(2) current
        split: option.splits if_splits)
qed

lemma validate_affordance_granted:
  assumes "validate_manipulation_parameters hypot (av_applied_parameters adapter) = None"
    and "mr_capability request = ''MANIPULATE''"
    and "map_of definitions (mr_affordance_id request) = Some defn"
    and "map_of (sn_objects sn) (mr_target_object_id request) = Some ob"
    and "request_current E request sn defn ob"
    and "object_failure defn request (av_applied_parameters adapter) (sn_habitat_tick sn) in_range ob = None"
    and "build_effect_plan hypot defn ob (av_applied_parameters adapter) (sn_habitat_tick sn) (mr_body_instance_id request)
      (mr_attachment_generation request) = Inr plan"
  shows "validate_affordance E hypot definitions request sn adapter in_range = Inr
    \<lparr>vr_allowed = True, vr_failure_code = None, vr_expected_object_version = Some (ho_object_version ob),
     vr_expected_habitat_version = Some (sn_state_version sn), vr_effect_plan = Some plan,
     vr_applied_parameters = Some (av_applied_parameters adapter)\<rparr>"
  using assms by (simp add: validate_affordance_def request_current_def Let_def)

text \<open>The preconditions as a specification.\<close>

definition preconditions_hold :: "affordance_preconditions \<Rightarrow> habitat_object \<Rightarrow> string \<Rightarrow> bool" where
  "preconditions_hold pre ob body \<longleftrightarrow>
     (ap_requires_portable pre \<longrightarrow> ho_portable ob)
     \<and> (ap_requires_free_location pre \<or> ap_requires_not_held pre \<longrightarrow> is_free (ho_location ob))
     \<and> (ap_requires_held_by_body pre \<longrightarrow> (\<exists>g n. ho_location ob = HeldByLocation body g n))
     \<and> (\<forall>m. ap_requires_remaining_yield_min pre = Some m \<longrightarrow> (\<exists>y. ho_state ob = ResourceState y \<and> \<not> flt_lt y m))
     \<and> (\<forall>b. ap_requires_station_available pre = Some b \<longrightarrow> (\<exists>k. ho_state ob = StationState k b))
     \<and> (\<forall>b. ap_requires_activatable_active pre = Some b \<longrightarrow> ho_state ob = ActivatableState b)"

lemma check_preconditions_None: "check_preconditions ob pre body = None \<longleftrightarrow> preconditions_hold pre ob body"
  by (cases "ho_location ob"; cases "ho_state ob")
    (auto simp: check_preconditions_def preconditions_hold_def Let_def split: option.splits if_splits)

lemma object_failure_None:
  "object_failure defn request p t in_range ob = None \<longleftrightarrow>
     mr_target_object_version request = ho_object_version ob
     \<and> mr_target_object_definition_version request = ho_definition_version ob
     \<and> mr_target_object_definition_hash request = ho_definition_hash ob
     \<and> mr_affordance_id request \<in> set (ho_affordance_ids ob)
     \<and> ad_target_object_kind defn = ho_object_kind ob \<and> ad_operation defn = operation_for_parameters p \<and> in_range
     \<and> \<not> cooldown_active ob (mr_affordance_id request) t
     \<and> preconditions_hold (ad_preconditions defn) ob (mr_body_instance_id request)"
  by (auto simp: object_failure_def check_preconditions_None)

text \<open>C18: validation answers with either a failure code or a plan, never both or neither. It allows a manipulation
  only when the parameters are in bounds, the body is in range, the request describes the habitat, the object and the
  definition as they are now, the object offers the affordance of that operation, no cooldown runs and every precondition
  holds; and the plan then has mutations of known kinds on the target object only.\<close>

theorem allowed_manipulation_checked:
  assumes "validate_affordance E hypot definitions request sn adapter in_range = Inr r"
  shows "vr_allowed r = (vr_failure_code r = None) \<and> vr_allowed r = (vr_effect_plan r \<noteq> None)
    \<and> (vr_allowed r \<longrightarrow> parameters_bounded (av_applied_parameters adapter) \<and> in_range
        \<and> (\<exists>defn ob plan. map_of definitions (mr_affordance_id request) = Some defn
            \<and> map_of (sn_objects sn) (mr_target_object_id request) = Some ob
            \<and> request_current E request sn defn ob
            \<and> mr_affordance_id request \<in> set (ho_affordance_ids ob) \<and> ad_target_object_kind defn = ho_object_kind ob
            \<and> ad_operation defn = operation_for_parameters (av_applied_parameters adapter)
            \<and> \<not> cooldown_active ob (mr_affordance_id request) (sn_habitat_tick sn)
            \<and> preconditions_hold (ad_preconditions defn) ob (mr_body_instance_id request)
            \<and> vr_effect_plan r = Some plan
            \<and> list_all (mutation_on (ho_object_id ob)) (hp_habitat_mutations plan)))"
  using assms
proof (cases rule: validate_affordance_cases)
  case (granted defn ob plan)
  then show ?thesis
    using validated_parameters_bounded [OF granted(1)] effect_plan_on_target [OF granted(7)]
    by (auto simp: object_failure_None)
qed simp

text \<open>A request to rest at the station of the sample habitat.\<close>

definition sample_rest :: affordance_definition where
  "sample_rest =
     \<lparr>ad_affordance_id = ''REST'', ad_target_object_kind = REST_STATION, ad_operation = USE,
      ad_required_capability = ''MANIPULATE'',
      ad_preconditions = \<lparr>ap_schema_version = [], ap_requires_free_location = True, ap_requires_not_held = False,
        ap_requires_held_by_body = False, ap_requires_portable = False, ap_requires_remaining_yield_min = None,
        ap_requires_station_available = Some True, ap_requires_activatable_active = None\<rparr>,
      ad_body_requirements = \<lparr>br_schema_version = [], br_required_capabilities = [], br_maximum_held_mass_class = None\<rparr>,
      ad_environmental_cost = \<lparr>ec_schema_version = [], ec_effort = Fin 0\<rparr>,
      ad_organism_effect_contract = \<lparr>oc_schema_version = [], oc_effects = []\<rparr>,
      ad_world_effect_contract = \<lparr>wc_schema_version = [], wc_mutations = []\<rparr>,
      ad_reversibility = ''none'', ad_cooldown_ticks = 5, ad_failure_modes = [], ad_definition_version = 1,
      ad_definition_hash = []\<rparr>"

definition sample_manipulation :: "hash_env \<Rightarrow> habitat_state \<Rightarrow> affordance_definition \<Rightarrow> habitat_object \<Rightarrow> manipulation_request" where
  "sample_manipulation E s defn ob =
     \<lparr>mr_request_id = ''r'', mr_execution_id = ''e'', mr_capability = ''MANIPULATE'',
      mr_target_object_id = ho_object_id ob, mr_affordance_id = ad_affordance_id defn,
      mr_expected_habitat_version = hs_state_version s, mr_expected_habitat_state_hash = hs_state_hash s,
      mr_target_object_version = ho_object_version ob, mr_target_object_definition_version = ho_definition_version ob,
      mr_target_object_definition_hash = ho_definition_hash ob,
      mr_affordance_definition_version = ad_definition_version defn,
      mr_affordance_definition_hash = affordance_hash E defn, mr_body_instance_id = ''b'', mr_body_profile_id = ''p'',
      mr_attachment_generation = 1, mr_parameters = UseParameters\<rparr>"

definition sample_adapter :: "manipulation_parameters \<Rightarrow> adapter_validated" where
  "sample_adapter p =
     \<lparr>av_body_pose_view = \<lparr>bp_body_instance_id = ''b'', bp_body_pose_version = 0, bp_position = \<lparr>po_x = Fin 12, po_y = Fin 8\<rparr>,
        bp_collision_radius = Fin 1, bp_attachment_generation = 1\<rparr>,
      av_reach_radius = Fin 2, av_requested_parameters = p, av_applied_parameters = p, av_translation_applied = False\<rparr>"

lemma sample_station:
  "map_of (hs_objects (sample_habitat_state E)) ''rest:0'' = Some (make_object E ''rest:0'' REST_STATION
     (FreeLocation (Fin 12) (Fin 8) ''zone:rest'') (StationState ''REST'' True) (flit 15 10) [''REST''])"
  by (simp add: sample_habitat_state_def Let_def)

lemma sample_rest_allowed:
  fixes E hypot
  defines "s \<equiv> sample_habitat_state E"
  assumes "map_of (hs_objects s) ''rest:0'' = Some ob"
  obtains r where "validate_affordance E hypot [(''REST'', sample_rest)] (sample_manipulation E s sample_rest ob)
    (snapshot_view (new_habitat_engine s)) (sample_adapter UseParameters) True = Inr r" "vr_allowed r"
proof -
  have ob: "ob = make_object E ''rest:0'' REST_STATION (FreeLocation (Fin 12) (Fin 8) ''zone:rest'') (StationState ''REST'' True)
      (flit 15 10) [''REST'']"
    using assms sample_station by simp
  have f: "ho_object_id ob = ''rest:0''" "ho_object_kind ob = REST_STATION" "is_free (ho_location ob)"
    "ho_state ob = StationState ''REST'' True" "ho_affordance_ids ob = [''REST'']" "ho_cooldowns ob = []"
    by (simp_all add: ob make_object_def Let_def with_object_state_hash_def)
  let ?r = "sample_manipulation E s sample_rest ob" and ?p = "UseParameters"
  have none: "object_failure sample_rest ?r ?p t True ob = None" for t
    by (simp add: object_failure_None f preconditions_hold_def sample_manipulation_def sample_rest_def cooldown_active_def)
  have "request_current E ?r (snapshot_view (new_habitat_engine s)) sample_rest ob"
    by (simp add: request_current_def sample_manipulation_def snapshot_view_def new_habitat_engine_def)
  moreover obtain plan where "build_effect_plan hypot sample_rest ob ?p 0 ''b'' 1 = Inr plan"
    by (simp add: build_effect_plan_def operation_effects_def sample_rest_def apply_world_effect_mutations_def)
  moreover have "sn_habitat_tick (snapshot_view (new_habitat_engine s)) = 0"
    by (simp add: snapshot_view_def new_habitat_engine_def s_def sample_habitat_state_def Let_def)
  ultimately show ?thesis
    using assms(2) none
    by (intro that [OF validate_affordance_granted [of hypot _ _ _ sample_rest _ ob]])
      (simp_all add: sample_manipulation_def sample_adapter_def sample_rest_def snapshot_view_def new_habitat_engine_def f)
qed

theorem allowed_manipulation_checked_witness:
  "\<exists>ob r. validate_affordance plain_env (\<lambda>x y. Fin 1) [(''REST'', sample_rest)]
      (sample_manipulation plain_env (sample_habitat_state plain_env) sample_rest ob)
      (snapshot_view (new_habitat_engine (sample_habitat_state plain_env))) (sample_adapter UseParameters) True = Inr r
    \<and> vr_failure_code r = None \<and> vr_effect_plan r \<noteq> None"
proof -
  obtain ob where ob: "map_of (hs_objects (sample_habitat_state plain_env)) ''rest:0'' = Some ob"
    using sample_station by blast
  from sample_rest_allowed [OF ob, of "\<lambda>x y. Fin 1"] obtain r where
    r: "validate_affordance plain_env (\<lambda>x y. Fin 1) [(''REST'', sample_rest)]
      (sample_manipulation plain_env (sample_habitat_state plain_env) sample_rest ob)
      (snapshot_view (new_habitat_engine (sample_habitat_state plain_env))) (sample_adapter UseParameters) True = Inr r"
    "vr_allowed r" .
  have "vr_failure_code r = None \<and> vr_effect_plan r \<noteq> None"
    using allowed_manipulation_checked [OF r(1)] r(2) by simp
  with r(1) show ?thesis by (intro exI [of _ ob] exI [of _ r]) simp
qed

end
