(* ===== verification/Governance.thy ===== *)
theory Governance
  imports Affordances WaitJournal
begin

text \<open>
  \<open>governance.py\<close>: admission of a proposal (grants, forbidden effects, policy, contract, runtime safety), the pure
  projection of the effects verification authorises, and verification itself. Embodiment and adapter are arguments. The manipulation
  path, which also commits to the habitat, is in \<open>Manipulation\<close>. The mutable objects of a method are its state:
  \<open>governance\<close>, and the wait context whose journal an admission or an execution changes.
\<close>

section \<open>Proposals and decisions\<close>

definition WAIT_CAPABILITY :: string where
  "WAIT_CAPABILITY = ''WAIT''"

definition CAPABILITIES :: "string list" where
  "CAPABILITIES =
     [''IDLE'', ''ORIENT'', ''MOVE'', ''APPROACH'', ''RETREAT'', ''INSPECT'', ''REST'', ''CHARGE'', ''SIGNAL_PLAY'',
      ''SIGNAL_ASSISTANCE'']"

definition PREAUTHORIZED :: "string set" where
  "PREAUTHORIZED = set (CAPABILITIES @ [''MANIPULATE'', WAIT_CAPABILITY])"

definition FORBIDDEN_CAPABILITY_EFFECTS :: "string list" where
  "FORBIDDEN_CAPABILITY_EFFECTS =
     [''modify_identity'', ''modify_authority'', ''modify_physiology_direct'', ''rewrite_events'', ''grant_capability'',
      ''revoke_capability'']"

definition SIGNAL_CAPABILITIES :: "string list" where
  "SIGNAL_CAPABILITIES = [''SIGNAL_PLAY'', ''SIGNAL_ASSISTANCE'']"

definition SIGNAL_COOLDOWN_TICKS_DEFAULT :: int where
  "SIGNAL_COOLDOWN_TICKS_DEFAULT = 6"

record proposal =
  pr_proposal_id :: string
  pr_capability :: string
  pr_params :: pyv
  pr_requested_effects :: "string list"

record governance_decision =
  gd_admitted :: bool
  gd_stage_failed :: "string option"
  gd_reason :: string
  gd_proposal_id :: string
  gd_capability :: string

record wait_context =
  wc_effective_age_ticks :: int
  wc_expectation_status :: string
  wc_wait_journal :: "wait_journal option"
  wc_suppress_on_reject :: bool
  wc_suppress_duration_ticks :: int

record governance_state =
  gs_grants :: "string set"
  gs_denials :: int
  gs_admissions :: int
  gs_bypass_attempts :: int
  gs_verified_outcomes :: int
  gs_bypass_enabled :: bool
  gs_last_signal_tick :: int
  gs_signal_cooldown_ticks :: int

definition default_governance_state :: governance_state where
  "default_governance_state =
     \<lparr>gs_grants = PREAUTHORIZED, gs_denials = 0, gs_admissions = 0, gs_bypass_attempts = 0, gs_verified_outcomes = 0,
      gs_bypass_enabled = False, gs_last_signal_tick = - 10000, gs_signal_cooldown_ticks = SIGNAL_COOLDOWN_TICKS_DEFAULT\<rparr>"

definition governance_to_state :: "governance_state \<Rightarrow> pyv" where
  "governance_to_state g = VDict
     [(''grants'', v_strs (sorted_list_of_set (gs_grants g))),
      (''denials'', VInt (gs_denials g)),
      (''admissions'', VInt (gs_admissions g)),
      (''bypass_attempts'', VInt (gs_bypass_attempts g)),
      (''verified_outcomes'', VInt (gs_verified_outcomes g)),
      (''bypass_enabled'', VBool (gs_bypass_enabled g)),
      (''last_signal_tick'', VInt (gs_last_signal_tick g)),
      (''signal_cooldown_ticks'', VInt (gs_signal_cooldown_ticks g))]"

definition governance_from_state :: "pyv \<Rightarrow> governance_state res" where
  "governance_from_state d =
     andThen (fld_or d ''grants'' (v_strs (sorted_list_of_set PREAUTHORIZED)) (tuple_of plain_str)) (\<lambda>grants.
     andThen (fld_or d ''denials'' (VInt 0) as_int) (\<lambda>denials.
     andThen (fld_or d ''admissions'' (VInt 0) as_int) (\<lambda>admissions.
     andThen (fld_or d ''bypass_attempts'' (VInt 0) as_int) (\<lambda>bypass_attempts.
     andThen (fld_or d ''verified_outcomes'' (VInt 0) as_int) (\<lambda>verified_outcomes.
     andThen (fld_or d ''bypass_enabled'' (VBool False) as_bool) (\<lambda>bypass_enabled.
     andThen (fld_or d ''last_signal_tick'' (VInt (- 10000)) as_int) (\<lambda>last_signal_tick.
     andThen (fld_or d ''signal_cooldown_ticks'' (VInt SIGNAL_COOLDOWN_TICKS_DEFAULT) as_int) (\<lambda>signal_cooldown_ticks.
     Inr \<lparr>gs_grants = set grants, gs_denials = denials, gs_admissions = admissions, gs_bypass_attempts = bypass_attempts,
          gs_verified_outcomes = verified_outcomes, gs_bypass_enabled = bypass_enabled,
          gs_last_signal_tick = last_signal_tick, gs_signal_cooldown_ticks = signal_cooldown_ticks\<rparr>))))))))"

record governance =
  gv_state :: governance_state
  gv_last_decision :: "governance_decision option"

definition propose :: "string \<Rightarrow> string \<Rightarrow> pyv dict \<Rightarrow> string list option \<Rightarrow> proposal" where
  "propose fresh capability params requested_effects =
     \<lparr>pr_proposal_id = fresh, pr_capability = capability, pr_params = VDict params,
      pr_requested_effects = (case requested_effects of None \<Rightarrow> [] | Some es \<Rightarrow> es)\<rparr>"

section \<open>Admission\<close>

text \<open>\<open>repr\<close> of a list of names without quotes or escapes, as the f-strings of the code print it.\<close>

fun separated :: "string list \<Rightarrow> string" where
  "separated [] = []"
| "separated [x] = CHR 0x27 # x @ [CHR 0x27]"
| "separated (x # y # xs) = CHR 0x27 # x @ CHR 0x27 # '', '' @ separated (y # xs)"

definition list_repr :: "string list \<Rightarrow> string" where
  "list_repr xs = ''['' @ separated xs @ '']''"

definition decide :: "bool \<Rightarrow> string option \<Rightarrow> string \<Rightarrow> proposal \<Rightarrow> governance_decision" where
  "decide admitted stage_failed reason p =
     \<lparr>gd_admitted = admitted, gd_stage_failed = stage_failed, gd_reason = reason, gd_proposal_id = pr_proposal_id p,
      gd_capability = pr_capability p\<rparr>"

definition REQUIRED_WAIT_PARAMS :: "string list" where
  "REQUIRED_WAIT_PARAMS =
     [''recurrence_id'', ''window_start'', ''window_end'', ''maximum_wait_ticks'', ''expectation_version'']"

text \<open>The test of the suppressions, which coerces its arguments only when there is a journal.\<close>

definition wait_suppressed :: "wait_context \<Rightarrow> pyv \<Rightarrow> bool res" where
  "wait_suppressed c params =
     (case wc_wait_journal c of None \<Rightarrow> Inr False
      | Some j \<Rightarrow> andThen (fld params ''recurrence_id'' as_str) (\<lambda>r.
          andThen (fld params ''expectation_version'' as_int) (\<lambda>v. Inr (is_suppressed j r v (wc_effective_age_ticks c)))))"

definition validate_wait_admission :: "proposal \<Rightarrow> wait_context option \<Rightarrow> governance_decision option res" where
  "validate_wait_admission p context =
     (let params = pr_params p;
          missing = filter (\<lambda>k. \<not> has_key params k) REQUIRED_WAIT_PARAMS;
          refuse = (\<lambda>stage reason. Inr (Some (decide False (Some stage) reason p)))
      in if missing \<noteq> [] then refuse ''contract'' (''wait_params_missing:'' @ list_repr missing)
         else case context of
           None \<Rightarrow> refuse ''policy'' ''wait_context_required''
         | Some c \<Rightarrow>
      if wc_expectation_status c \<noteq> ''ACTIVE'' then refuse ''policy'' ''wait_requires_active_expectation''
      else andThen (fld params ''window_start'' as_float) (\<lambda>window_start.
      andThen (fld params ''window_end'' as_float) (\<lambda>window_end.
      if \<not> (flt_le window_start (exactly (wc_effective_age_ticks c)) \<and> flt_le (exactly (wc_effective_age_ticks c)) window_end)
      then refuse ''policy'' ''wait_outside_open_window''
      else andThen (wait_suppressed c params) (\<lambda>suppressed.
      if suppressed then refuse ''policy'' ''wait_suppressed''
      else andThen (fld_or params ''maximum_wait_ticks'' (VInt MAXIMUM_WAIT_TICKS) as_int) (\<lambda>max_wait.
      andThen (wait_deadline_age_tick (wc_effective_age_ticks c) window_end max_wait) (\<lambda>expected_deadline.
      andThen (fld_or params ''wait_deadline'' VNone (opt_conv as_int)) (\<lambda>params_deadline.
      if params_deadline \<noteq> None \<and> params_deadline \<noteq> Some expected_deadline
      then refuse ''contract'' ''wait_deadline_mismatch'' else Inr None)))))))"

text \<open>The checks before the contract stage: the refusal, and whether it counts as an attempted bypass.\<close>

definition admission_refusal :: "governance_state \<Rightarrow> proposal \<Rightarrow> int option \<Rightarrow> (governance_decision \<times> bool) option" where
  "admission_refusal g p tick =
     (if pr_capability p \<notin> gs_grants g
      then Some (decide False (Some ''capability_admission'') ''unknown_or_ungranted_capability'' p, False)
      else case List.find (\<lambda>eff. eff \<in> set FORBIDDEN_CAPABILITY_EFFECTS) (pr_requested_effects p) of
        Some eff \<Rightarrow> Some (decide False (Some ''capability_admission'') (''forbidden_effect:'' @ eff) p, True)
      | None \<Rightarrow>
          if pr_capability p \<notin> PREAUTHORIZED then Some (decide False (Some ''policy'') ''not_preauthorized'' p, False)
          else if pr_capability p \<in> set SIGNAL_CAPABILITIES
            \<and> (case tick of None \<Rightarrow> False | Some t \<Rightarrow> t - gs_last_signal_tick g < gs_signal_cooldown_ticks g)
          then Some (decide False (Some ''policy'') ''signal_cooldown'' p, False)
          else case pr_params p of
            VDict d \<Rightarrow> None
          | _ \<Rightarrow> Some (decide False (Some ''contract'') ''params_not_dict'' p, False))"

definition SUPPRESSED_WAIT_REASONS :: "string list" where
  "SUPPRESSED_WAIT_REASONS = [''wait_outside_open_window'', ''wait_requires_active_expectation'', ''wait_suppressed'']"

text \<open>What a refused wait records in the journal of its context.\<close>

definition suppress_refused_wait ::
  "proposal \<Rightarrow> governance_decision \<Rightarrow> wait_context option \<Rightarrow> wait_context option res" where
  "suppress_refused_wait p d context =
     (case context of None \<Rightarrow> Inr None
      | Some c \<Rightarrow>
          (case wc_wait_journal c of
             None \<Rightarrow> Inr (Some c)
           | Some j \<Rightarrow>
               if wc_suppress_on_reject c \<and> gd_reason d \<in> set SUPPRESSED_WAIT_REASONS
               then andThen (fld_or (pr_params p) ''recurrence_id'' (VStr []) as_str) (\<lambda>r.
                 andThen (fld_or (pr_params p) ''expectation_version'' (VInt 0) as_int) (\<lambda>v.
                 Inr (Some (c\<lparr>wc_wait_journal := Some (snd (record_suppression r v (gd_reason d)
                   (wc_effective_age_ticks c + wc_suppress_duration_ticks c) None (Some (pr_proposal_id p)) j))\<rparr>))))
               else Inr (Some c)))"

definition UNSAFE_PARAMS :: "string list" where
  "UNSAFE_PARAMS =
     [''agent_id'', ''authority'', ''grants'', ''identity_commitment'', ''physiology_set'', ''target_object_id'']"

definition unsafe_keys :: "pyv \<Rightarrow> string list" where
  "unsafe_keys params = filter (has_key params) UNSAFE_PARAMS"

text \<open>The last stage: refuse parameters that would carry authority, otherwise admit.\<close>

definition safety_stage :: "proposal \<Rightarrow> int option \<Rightarrow> governance_state \<Rightarrow> governance_decision \<times> governance_state" where
  "safety_stage p tick g =
     (if unsafe_keys (pr_params p) \<noteq> []
      then (decide False (Some ''runtime_safety'') (''unsafe_params:'' @ list_repr (unsafe_keys (pr_params p))) p,
            g\<lparr>gs_denials := gs_denials g + 1, gs_bypass_attempts := gs_bypass_attempts g + 1\<rparr>)
      else (decide True None ''admitted'' p,
            g\<lparr>gs_admissions := gs_admissions g + 1,
              gs_last_signal_tick := (case tick of Some t \<Rightarrow> if pr_capability p \<in> set SIGNAL_CAPABILITIES then t
                  else gs_last_signal_tick g | None \<Rightarrow> gs_last_signal_tick g)\<rparr>))"

definition admit :: "proposal \<Rightarrow> int option \<Rightarrow> (governance \<times> wait_context option, governance_decision) method" where
  "admit p tick = (\<lambda>(gv, context).
     let g0 = gv_state gv;
         g = (if gs_bypass_enabled g0 then g0\<lparr>gs_bypass_attempts := gs_bypass_attempts g0 + 1\<rparr> else g0);
         answer = (\<lambda>d g' context'. (Inr d, \<lparr>gv_state = g', gv_last_decision = Some d\<rparr>, context'));
         denied = g\<lparr>gs_denials := gs_denials g + 1\<rparr>
     in case admission_refusal g p tick of
          Some (d, bypass) \<Rightarrow>
            answer d (if bypass then denied\<lparr>gs_bypass_attempts := gs_bypass_attempts denied + 1\<rparr> else denied) context
        | None \<Rightarrow>
            (case (if pr_capability p = WAIT_CAPABILITY then validate_wait_admission p context else Inr None) of
               Inl e \<Rightarrow> (Inl e, gv\<lparr>gv_state := g\<rparr>, context)
             | Inr (Some d) \<Rightarrow>
                 (case suppress_refused_wait p d context of
                    Inl e \<Rightarrow> (Inl e, gv\<lparr>gv_state := denied\<rparr>, context)
                  | Inr context' \<Rightarrow> answer d denied context')
             | Inr None \<Rightarrow> let (d, g') = safety_stage p tick g in answer d g' context))"

section \<open>Effects that verification authorises\<close>

definition FAILED_REASONS :: "string list" where
  "FAILED_REASONS =
     [''unknown_capability'', ''out_of_range'', ''not_at_rest'', ''not_at_resource'', ''delayed'', ''affordance_denied'',
      ''route_blocked'']"

definition raw_get :: "pyv dict \<Rightarrow> string \<Rightarrow> pyv" where
  "raw_get raw k = dget VNone k raw"

definition scale_energy :: "flt \<Rightarrow> flt dict \<Rightarrow> flt dict" where
  "scale_energy scale effects =
     (if scale \<noteq> Fin 1 \<and> flt_lt (dget (Fin 0) ''energy'' effects) (Fin 0)
      then dput ''energy'' (flt_mult (dget (Fin 0) ''energy'' effects) scale) effects else effects)"

definition add_effects :: "flt dict \<Rightarrow> flt dict \<Rightarrow> flt dict" where
  "add_effects extra effects = fold (\<lambda>(k, v) es. dput k (flt_add (dget (Fin 0) k es) v) es) extra effects"

definition raw_delayed :: "pyv dict \<Rightarrow> bool" where
  "raw_delayed raw \<longleftrightarrow> raw_get raw ''reason'' = VStr ''delayed'' \<or> truthy (raw_get raw ''delayed'')"

definition raw_success :: "pyv dict \<Rightarrow> bool" where
  "raw_success raw \<longleftrightarrow> truthy (raw_get raw ''ok_raw'')
     \<and> (\<forall>r\<in>set FAILED_REASONS. raw_get raw ''reason'' \<noteq> VStr r)
     \<and> raw_get raw ''reason'' \<noteq> VStr ''movement_slip'' \<and> \<not> raw_delayed raw"

definition project_verified_outcome :: "string \<Rightarrow> pyv dict \<Rightarrow> (bool \<times> flt dict) res" where
  "project_verified_outcome capability raw =
     andThen
       (if raw_delayed raw then Inr []
        else if raw_success raw
        then Inr (if truthy (raw_get raw ''hazard_contact'')
               then add_effects (dget [] ''HAZARD_HIT'' OUTCOME_EFFECTS) (verified_outcome_effects capability True)
               else verified_outcome_effects capability True)
        else let effects = verified_outcome_effects capability False
             in if truthy (raw_get raw ''integrity_hit'')
                then andThen (as_float (raw_get raw ''integrity_hit'')) (\<lambda>hit.
                  Inr (dput ''integrity'' (flt_sub (dget (Fin 0) ''integrity'' effects) hit) effects))
                else Inr effects) (\<lambda>effects.
     andThen (as_float (dget (VFlt (Fin 1)) ''energy_cost_scale'' raw)) (\<lambda>scale.
     Inr (if map_of raw ''physiology_set'' \<noteq> None then (False, [])
          else (raw_success raw, scale_energy scale effects))))"

definition verify_outcome :: "string \<Rightarrow> string \<Rightarrow> pyv dict \<Rightarrow> (governance, verified_outcome) method" where
  "verify_outcome fresh capability raw gv =
     (case project_verified_outcome capability raw of
        Inl e \<Rightarrow> (Inl e, gv)
      | Inr (success, effects) \<Rightarrow>
          let g = gv_state gv;
              bypass = (if map_of raw ''physiology_set'' \<noteq> None then 1 else 0);
              gv' = gv\<lparr>gv_state := g\<lparr>gs_bypass_attempts := gs_bypass_attempts g + bypass,
                gs_verified_outcomes := gs_verified_outcomes g + 1\<rparr>\<rparr>
          in (andThen (as_str (dget (VStr ''unknown'') ''reason'' raw)) (\<lambda>reason.
              Inr \<lparr>vo_outcome_id = fresh, vo_capability = capability, vo_success = success, vo_reason = reason,
                vo_physiology_effects = effects, vo_raw = dpop ''physiology_set'' raw, vo_verified = True\<rparr>), gv'))"

text \<open>\<open>apply_physiology\<close>: the owner applies verified effects, moderated while depleted.\<close>

definition moderated_effects :: "physiology \<Rightarrow> verified_outcome \<Rightarrow> flt dict" where
  "moderated_effects phys outcome =
     (let effects = vo_physiology_effects outcome;
          es1 = (if vo_capability outcome \<in> {''MOVE'', ''APPROACH'', ''RETREAT''} \<and> flt_lt (flit 65 100) (ph_fatigue phys)
            then dput ''fatigue'' (py_min (Fin 0) (dget (Fin 0) ''fatigue'' effects)) effects else effects)
      in if vo_capability outcome \<in> {''MOVE'', ''APPROACH''} \<and> flt_lt (ph_energy phys) (flit 2 10)
         then dput ''energy'' (py_max (flit (- 2) 1000) (dget (Fin 0) ''energy'' es1)) es1 else es1)"

definition apply_physiology :: "verified_outcome \<Rightarrow> physiology \<Rightarrow> physiology" where
  "apply_physiology outcome phys =
     (if \<not> vo_verified outcome then phys else apply_outcome_effects (moderated_effects phys outcome) phys)"

section \<open>Execution\<close>

definition coerce_fallback_bias :: "pyv \<Rightarrow> fallback_bias option res" where
  "coerce_fallback_bias raw =
     (case raw of VDict d \<Rightarrow>
        andThen (fld raw ''candidate_class'' as_str) (\<lambda>c.
        andThen (fld raw ''bounded_delta'' as_float) (\<lambda>delta.
        andThen (fld raw ''expires_after_ticks'' as_int) (\<lambda>n.
        Inr (normalize_fallback_bias (Some \<lparr>fb_candidate_class = c, fb_bounded_delta = delta, fb_expires_after_ticks = n\<rparr>)))))
      | _ \<Rightarrow> Inr None)"

definition admit_wait_to_journal ::
  "hash_env \<Rightarrow> string \<Rightarrow> proposal \<Rightarrow> (wait_context, string option) method" where
  "admit_wait_to_journal E fresh p c =
     (case wc_wait_journal c of None \<Rightarrow> (Inr None, c)
      | Some j \<Rightarrow>
          let params = pr_params p;
              put = (\<lambda>j'. c\<lparr>wc_wait_journal := Some j'\<rparr>)
          in case andThen (fld params ''recurrence_id'' as_str) (\<lambda>r.
               andThen (fld params ''expectation_version'' as_int) (\<lambda>v.
               andThen (fld params ''window_start'' as_float) (\<lambda>a.
               andThen (fld params ''window_end'' as_float) (\<lambda>b.
               andThen (fld_or params ''maximum_wait_ticks'' (VInt MAXIMUM_WAIT_TICKS) as_int) (\<lambda>n.
               andThen (fld_or params ''interrupt_conditions'' VNone (\<lambda>x. tuple_of plain_str (or_else x (VList [])))) (\<lambda>conditions.
               andThen (fld_or params ''fallback_bias'' VNone coerce_fallback_bias) (\<lambda>bias.
               andThen (fld_or params ''internal_context_key'' (VStr []) as_str) (\<lambda>context_key.
               andThen (fld_or params ''expected_occurrence_id'' (VStr []) as_str) (\<lambda>occurrence.
               andThen (fld_or params ''execution_id'' VNone (opt_conv plain_str)) (\<lambda>execution_id.
               Inr (prepare_wait E fresh r v a b (wc_effective_age_ticks c) n conditions bias context_key occurrence
                      execution_id)))))))))))
             of Inl e \<Rightarrow> (Inl e, c)
              | Inr prepare \<Rightarrow>
                  (case prepare j of
                     (Inl e, j1) \<Rightarrow> (Inl e, put j1)
                   | (Inr prepared, j1) \<Rightarrow>
                       (case admit_prepared (we_execution_id prepared) j1 of
                          (Inl e, j2) \<Rightarrow> (Inl e, put j2)
                        | (Inr active, j2) \<Rightarrow> (Inr (Some (we_execution_id active)), put j2))))"

text \<open>\<open>execute_and_verify\<close>: \<open>run\<close> is the adapter's or the embodiment's execution of a capability, on the world \<open>'w\<close> it owns, and
  \<open>resolve\<close> the optional resolution of the parameters.\<close>

definition execute_and_verify ::
  "hash_env \<Rightarrow> (nat \<Rightarrow> string) \<Rightarrow> (string \<Rightarrow> pyv dict \<Rightarrow> ('w, pyv dict) method) \<Rightarrow> (pyv dict \<Rightarrow> pyv dict) option
    \<Rightarrow> proposal \<Rightarrow> governance_decision \<Rightarrow> (governance \<times> wait_context option \<times> 'w, verified_outcome option) method" where
  "execute_and_verify E fresh run resolve p d = (\<lambda>(gv, context, w).
     if \<not> gd_admitted d then (Inr None, gv, context, w)
     else if pr_capability p = WAIT_CAPABILITY
     then
       (case (case context of None \<Rightarrow> (Inr None, None)
              | Some c \<Rightarrow> apsnd Some (admit_wait_to_journal E (fresh 0) p c)) of
          (Inl e, context') \<Rightarrow> (Inl e, gv, context', w)
        | (Inr execution_id, context') \<Rightarrow>
            (Inr (Some \<lparr>vo_outcome_id = fresh 1, vo_capability = WAIT_CAPABILITY, vo_success = True,
               vo_reason = ''wait_admitted'', vo_physiology_effects = [],
               vo_raw = [(''ok_raw'', VBool True), (''reason'', VStr ''wait_admitted''),
                 (''capability'', VStr WAIT_CAPABILITY), (''params'', pr_params p),
                 (''execution_id'', v_opt VStr execution_id)],
               vo_verified = True\<rparr>), gv, context', w))
     else
       (case plain_dict (pr_params p) of
          Inl e \<Rightarrow> (Inl e, gv, context, w)
        | Inr params \<Rightarrow>
            (case run (pr_capability p) (case resolve of None \<Rightarrow> params | Some f \<Rightarrow> f params) w of
               (Inl e, w') \<Rightarrow> (Inl e, gv, context, w')
             | (Inr raw, w') \<Rightarrow>
                 (case verify_outcome (fresh 0) (pr_capability p) raw gv of
                    (r, gv') \<Rightarrow> (andThen r (\<lambda>v. Inr (Some v)), gv', context, w')))))"

text \<open>\<open>authority_effect_branches\<close>: the preflight answers of adapter and embodiment, the scale of the body and whether the habitat
  has a hazard are arguments. An adapter answers with a rejection or with the parameters it passes on.\<close>

definition authority_effect_branches ::
  "string \<Rightarrow> pyv dict \<Rightarrow> (pyv dict \<Rightarrow> pyv dict + pyv dict) option \<Rightarrow> (string \<Rightarrow> pyv dict \<Rightarrow> pyv dict option) \<Rightarrow> flt \<Rightarrow> bool
    \<Rightarrow> flt dict list res" where
  "authority_effect_branches capability params adapter_preflight preflight_primitive scale hazard =
     (let only = (\<lambda>raw. andThen (project_verified_outcome capability raw) (\<lambda>(success, effects). Inr [effects])) in
      case (case adapter_preflight of None \<Rightarrow> Inr params | Some f \<Rightarrow> f params) of
        Inl rejection \<Rightarrow> only rejection
      | Inr passed \<Rightarrow>
          (case preflight_primitive capability passed of
             Some raw \<Rightarrow> only raw
           | None \<Rightarrow>
               let base = verified_outcome_effect_branches capability in
               Inr (map (scale_energy scale) base
                 @ (if capability \<in> {''MOVE'', ''APPROACH'', ''RETREAT''} \<and> hazard
                    then map (\<lambda>b. scale_energy scale (add_effects (dget [] ''HAZARD_HIT'' OUTCOME_EFFECTS) b)) base else []))))"

section \<open>Admission is sound\<close>

lemma decide_fields [simp]:
  "gd_admitted (decide a st r p) = a" "gd_reason (decide a st r p) = r"
  by (simp_all add: decide_def)

lemma admission_refusal_denies: "admission_refusal g p tick = Some (d, b) \<Longrightarrow> \<not> gd_admitted d"
  by (auto simp: admission_refusal_def split: if_splits option.splits pyv.splits)

lemma find_None_all: "List.find (\<lambda>x. x \<in> A) xs = None \<longleftrightarrow> list_all (\<lambda>x. x \<notin> A) xs"
  by (auto simp: find_None_iff list_all_iff)

lemma admission_refusal_None:
  assumes "admission_refusal g p tick = None"
  shows "pr_capability p \<in> gs_grants g" "pr_capability p \<in> PREAUTHORIZED"
    "list_all (\<lambda>e. e \<notin> set FORBIDDEN_CAPABILITY_EFFECTS) (pr_requested_effects p)"
    "\<And>t. pr_capability p \<in> set SIGNAL_CAPABILITIES \<Longrightarrow> tick = Some t \<Longrightarrow> gs_signal_cooldown_ticks g \<le> t - gs_last_signal_tick g"
  using assms find_None_all
  by (auto simp: admission_refusal_def split: if_splits option.splits pyv.splits)

text \<open>An open window of an active expectation that nothing suppresses.\<close>

definition wait_open :: "pyv \<Rightarrow> wait_context \<Rightarrow> bool" where
  "wait_open params c \<longleftrightarrow> list_all (has_key params) REQUIRED_WAIT_PARAMS \<and> wc_expectation_status c = ''ACTIVE''
     \<and> (\<exists>a b. fld params ''window_start'' as_float = Inr a \<and> fld params ''window_end'' as_float = Inr b
         \<and> flt_le a (exactly (wc_effective_age_ticks c)) \<and> flt_le (exactly (wc_effective_age_ticks c)) b)
     \<and> wait_suppressed c params = Inr False"

lemma validate_wait_admission_passes:
  "validate_wait_admission p context = Inr None \<Longrightarrow> \<exists>c. context = Some c \<and> wait_open (pr_params p) c"
  by (auto simp: validate_wait_admission_def wait_open_def Let_def andThen_eq_Inr list_all_iff filter_empty_conv
      split: if_splits option.splits)

lemma validate_wait_admission_denies: "validate_wait_admission p context = Inr (Some d) \<Longrightarrow> \<not> gd_admitted d"
  by (auto simp: validate_wait_admission_def Let_def andThen_eq_Inr split: if_splits option.splits)

lemma safety_stage_cases:
  "safety_stage p tick g = (d, g') \<Longrightarrow>
     if gd_admitted d
     then unsafe_keys (pr_params p) = [] \<and> gs_admissions g' = gs_admissions g + 1 \<and> gs_denials g' = gs_denials g
       \<and> gs_last_signal_tick g' = (case tick of Some t \<Rightarrow> if pr_capability p \<in> set SIGNAL_CAPABILITIES then t
            else gs_last_signal_tick g | None \<Rightarrow> gs_last_signal_tick g)
     else gs_admissions g' = gs_admissions g \<and> gs_denials g' = gs_denials g + 1 \<and> gs_last_signal_tick g' = gs_last_signal_tick g"
  by (auto simp: safety_stage_def split: if_splits)

lemma safety_stage_keeps:
  "safety_stage p tick g = (d, g') \<Longrightarrow> gs_grants g' = gs_grants g \<and> gs_signal_cooldown_ticks g' = gs_signal_cooldown_ticks g"
  by (auto simp: safety_stage_def split: if_splits)

lemma admission_refusal_bypass [simp]:
  "admission_refusal (g\<lparr>gs_bypass_attempts := n\<rparr>) p tick = admission_refusal g p tick"
  "admission_refusal (g\<lparr>gs_bypass_enabled := b\<rparr>) p tick = admission_refusal g p tick"
  by (simp_all add: admission_refusal_def cong: option.case_cong)

lemma safety_stage_decision:
  "fst (safety_stage p tick g) = fst (safety_stage p tick g')"
  by (simp add: safety_stage_def)

text \<open>How an admission ends.\<close>

lemma admit_ends:
  assumes "admit p tick (gv, context) = (r, gv', context')"
  obtains (raised) e where "r = Inl e" "gs_last_signal_tick (gv_state gv') = gs_last_signal_tick (gv_state gv)"
      "gs_admissions (gv_state gv') = gs_admissions (gv_state gv)"
  | (denied) d where "r = Inr d" "\<not> gd_admitted d" "gs_denials (gv_state gv') = gs_denials (gv_state gv) + 1"
      "gs_admissions (gv_state gv') = gs_admissions (gv_state gv)"
      "gs_last_signal_tick (gv_state gv') = gs_last_signal_tick (gv_state gv)"
  | (admitted) d where "r = Inr d" "gd_admitted d" "admission_refusal (gv_state gv) p tick = None"
      "pr_capability p = WAIT_CAPABILITY \<Longrightarrow> validate_wait_admission p context = Inr None"
      "unsafe_keys (pr_params p) = []" "gs_denials (gv_state gv') = gs_denials (gv_state gv)"
      "gs_admissions (gv_state gv') = gs_admissions (gv_state gv) + 1" "context' = context"
      "gs_last_signal_tick (gv_state gv') = (case tick of Some t \<Rightarrow> if pr_capability p \<in> set SIGNAL_CAPABILITIES then t
          else gs_last_signal_tick (gv_state gv) | None \<Rightarrow> gs_last_signal_tick (gv_state gv))"
proof -
  let ?g = "if gs_bypass_enabled (gv_state gv)
      then (gv_state gv)\<lparr>gs_bypass_attempts := gs_bypass_attempts (gv_state gv) + 1\<rparr> else gv_state gv"
  show ?thesis
  proof (cases "admission_refusal ?g p tick")
    case (Some x)
    then show ?thesis
      using assms admission_refusal_denies [of ?g p tick "fst x" "snd x"]
      by (intro denied [of "fst x"]) (auto simp: admit_def Let_def split: prod.splits)
  next
    case none: None
    show ?thesis
    proof (cases "if pr_capability p = WAIT_CAPABILITY then validate_wait_admission p context else Inr None")
      case (Inl e)
      then show ?thesis using assms none by (intro raised [of e]) (auto simp: admit_def Let_def)
    next
      case (Inr answer)
      show ?thesis
      proof (cases answer)
        case (Some d)
        then have d: "\<not> gd_admitted d" using Inr validate_wait_admission_denies by (auto split: if_splits)
        show ?thesis
        proof (cases "suppress_refused_wait p d context")
          case (Inl e)
          then show ?thesis using assms none Inr Some by (intro raised [of e]) (auto simp: admit_def Let_def)
        next
          case (Inr c)
          then show ?thesis
            using assms none \<open>_ = Inr answer\<close> Some d by (intro denied [of d]) (auto simp: admit_def Let_def)
        qed
      next
        case None
        obtain d g' where s: "safety_stage p tick ?g = (d, g')" by fastforce
        have end_state: "r = Inr d" "gv' = \<lparr>gv_state = g', gv_last_decision = Some d\<rparr>" "context' = context"
          using assms none Inr None s by (auto simp: admit_def Let_def)
        have "admission_refusal (gv_state gv) p tick = None" using none by (simp split: if_splits)
        then show ?thesis
          using safety_stage_cases [OF s] end_state Inr None
          by (cases "gd_admitted d"; cases tick)
              (intro admitted [of d] denied [of d]; auto split: if_splits; fail)+
      qed
    qed
  qed
qed

lemma admit_bypass_decision:
  "fst (admit p tick (gv\<lparr>gv_state := (gv_state gv)\<lparr>gs_bypass_enabled := b\<rparr>\<rparr>, context)) = fst (admit p tick (gv, context))"
  by (cases "gs_bypass_enabled (gv_state gv)"; cases b)
    (auto simp: admit_def Let_def safety_stage_def split: option.splits sum.splits prod.splits)

text \<open>C19: a proposal is admitted only when its capability is granted and preauthorised, it asks for no forbidden effect and
  carries no authority in its parameters, a signal keeps the cooldown, and a wait lies in the open window of an active,
  unsuppressed expectation; every answer counts as exactly one admission or one denial, and switching on the bypass of the
  ablation changes no answer.\<close>

theorem admission_sound:
  assumes "admit p tick (gv, context) = (Inr d, gv', context')"
  shows "(gd_admitted d \<longrightarrow>
      pr_capability p \<in> gs_grants (gv_state gv) \<inter> PREAUTHORIZED
      \<and> list_all (\<lambda>e. e \<notin> set FORBIDDEN_CAPABILITY_EFFECTS) (pr_requested_effects p)
      \<and> unsafe_keys (pr_params p) = []
      \<and> (pr_capability p \<in> set SIGNAL_CAPABILITIES \<longrightarrow>
           (\<forall>t. tick = Some t \<longrightarrow> gs_signal_cooldown_ticks (gv_state gv) \<le> t - gs_last_signal_tick (gv_state gv)))
      \<and> (pr_capability p = WAIT_CAPABILITY \<longrightarrow> (\<exists>c. context = Some c \<and> wait_open (pr_params p) c)))
    \<and> gs_admissions (gv_state gv') = gs_admissions (gv_state gv) + (if gd_admitted d then 1 else 0)
    \<and> gs_denials (gv_state gv') = gs_denials (gv_state gv) + (if gd_admitted d then 0 else 1)
    \<and> fst (admit p tick (gv\<lparr>gv_state := (gv_state gv)\<lparr>gs_bypass_enabled := b\<rparr>\<rparr>, context)) = Inr d"
proof -
  have bypass: "fst (admit p tick (gv\<lparr>gv_state := (gv_state gv)\<lparr>gs_bypass_enabled := b\<rparr>\<rparr>, context)) = Inr d"
    using assms by (simp add: admit_bypass_decision)
  from assms show ?thesis
  proof (cases rule: admit_ends)
    case (admitted d')
    note none = admission_refusal_None [OF admitted(3)]
    have "\<exists>c. context = Some c \<and> wait_open (pr_params p) c" if "pr_capability p = WAIT_CAPABILITY"
      using admitted(4) [OF that] by (rule validate_wait_admission_passes)
    then show ?thesis using admitted none bypass by auto
  qed (use bypass in auto)
qed

text \<open>The ticks of the signals a run admits, in order.\<close>

fun admitted_signals :: "(proposal \<times> int option) list \<Rightarrow> governance \<times> wait_context option \<Rightarrow> int list" where
  "admitted_signals [] s = []"
| "admitted_signals ((p, tick) # ps) s =
     (case admit p tick s of (r, s') \<Rightarrow>
        (case (r, tick) of
           (Inr d, Some t) \<Rightarrow> if gd_admitted d \<and> pr_capability p \<in> set SIGNAL_CAPABILITIES then [t] else []
         | _ \<Rightarrow> []) @ admitted_signals ps s')"

fun spaced :: "int \<Rightarrow> int list \<Rightarrow> bool" where
  "spaced n (a # b # xs) = (n \<le> b - a \<and> spaced n (b # xs))"
| "spaced n _ = True"

lemma admit_cooldown:
  "admit p tick (gv, context) = (r, gv', context') \<Longrightarrow>
     gs_signal_cooldown_ticks (gv_state gv') = gs_signal_cooldown_ticks (gv_state gv)"
  using safety_stage_keeps
  by (auto simp: admit_def Let_def split: option.splits sum.splits prod.splits if_splits)

text \<open>C20: whatever is proposed and whatever raises in between, two signals admitted one after the other lie at least the
  cooldown apart, the first of them that far from the last signal on record.\<close>

theorem signals_spaced:
  "spaced (gs_signal_cooldown_ticks (gv_state gv)) (gs_last_signal_tick (gv_state gv) # admitted_signals ps (gv, context))"
proof (induction ps arbitrary: gv "context")
  case Nil
  show ?case by simp
next
  case (Cons q ps)
  obtain p tick where q: "q = (p, tick)" by (cases q)
  obtain r gv' context' where a: "admit p tick (gv, context) = (r, gv', context')" by (metis prod_cases3)
  note IH = Cons.IH [of gv' "context'", unfolded admit_cooldown [OF a]]
  from a show ?case
  proof (cases rule: admit_ends)
    case (raised e)
    then show ?thesis using IH a by (simp add: q)
  next
    case (denied d)
    then show ?thesis using IH a by (simp add: q split: option.splits)
  next
    case (admitted d)
    then show ?thesis
      using IH a admission_refusal_None(4) [OF admitted(3)] by (cases tick) (auto simp: q)
  qed
qed

lemma flt_mult_nonpos:
  assumes "flt_lt x (Fin 0)" "is_finite x" "flt_le (Fin 0) s"
  shows "flt_le (flt_mult x s) (Fin 0)"
proof (cases s)
  case (Fin q)
  obtain p where p: "x = Fin p" "p < 0" using assms(1,2) by (cases x) auto
  then have "p * q \<le> 0" using Fin assms(3) by (simp add: mult_nonpos_nonneg)
  then show ?thesis using flt_of_mono [of "p * q" 0] p Fin by simp
qed (use assms in \<open>cases x; auto simp: flt_le_def flt_eq_def inf_sign_def\<close>)+

lemma scaled_energy_nonpos:
  assumes "flt_le (dget (Fin 0) ''energy'' effects) (Fin 0)" "is_finite (dget (Fin 0) ''energy'' effects)"
    "flt_le (Fin 0) scale"
  shows "flt_le (dget (Fin 0) ''energy'' (scale_energy scale effects)) (Fin 0)"
  using assms flt_mult_nonpos by (auto simp: scale_energy_def dget_def)

lemma flit_small_negative: "flt_le (flit (- 3) 1000) (Fin 0)" "is_finite (flit (- 3) 1000)"
proof -
  have "flt_le (flt_of (of_int (- 1))) (flit (- 3) 1000)" "flt_le (flit (- 3) 1000) (flt_of 0)"
    unfolding flit_def by (rule flt_of_mono; simp)+
  then show "flt_le (flit (- 3) 1000) (Fin 0)" "is_finite (flit (- 3) 1000)"
    using flt_of_int_exact [of "- 1"] by (cases "flit (- 3) 1000"; simp add: flt_le_def flt_eq_def flt_of_int_def)+
qed

lemma failed_effects_nonpos:
  "flt_le (dget (Fin 0) ''energy'' (verified_outcome_effects capability False)) (Fin 0)"
  "is_finite (dget (Fin 0) ''energy'' (verified_outcome_effects capability False))"
  by (simp_all add: verified_outcome_effects_def OUTCOME_EFFECTS_def dget_def flit_small_negative)

text \<open>Effects on nothing but the homeostatic variables.\<close>

definition on_variables :: "flt dict \<Rightarrow> bool" where
  "on_variables effects \<longleftrightarrow> list_all (\<lambda>k. k \<in> set (dkeys BOUNDS)) (dkeys effects)"

lemma on_variables_Nil [simp]: "on_variables []"
  by (simp add: on_variables_def dkeys_def)

lemma on_variables_Cons [simp]: "on_variables ((k, v) # es) \<longleftrightarrow> k \<in> set (dkeys BOUNDS) \<and> on_variables es"
  by (simp add: on_variables_def dkeys_def)

lemma on_variables_dput: "on_variables effects \<Longrightarrow> k \<in> set (dkeys BOUNDS) \<Longrightarrow> on_variables (dput k v effects)"
  by (simp add: on_variables_def list_all_iff dkeys_def dom_update)

lemma on_variables_outcome: "on_variables (verified_outcome_effects capability success)"
  by (simp add: on_variables_def verified_outcome_effects_def OUTCOME_EFFECTS_def dget_def BOUNDS_def dkeys_def)

lemma on_variables_add: "on_variables effects \<Longrightarrow> on_variables extra \<Longrightarrow> on_variables (add_effects extra effects)"
  unfolding add_effects_def
  by (induction extra arbitrary: effects) (auto simp: on_variables_dput)

lemma on_variables_hazard: "on_variables (dget [] ''HAZARD_HIT'' OUTCOME_EFFECTS)"
  by (simp add: on_variables_def OUTCOME_EFFECTS_def dget_def BOUNDS_def dkeys_def)

lemma variables_of_interest [simp]: "''energy'' \<in> set (dkeys BOUNDS)" "''integrity'' \<in> set (dkeys BOUNDS)"
  by (simp_all add: BOUNDS_def dkeys_def)

lemma on_variables_scale: "on_variables effects \<Longrightarrow> on_variables (scale_energy scale effects)"
  by (simp add: scale_energy_def on_variables_dput)

lemma scale_no_energy [simp]: "scale_energy scale [] = []"
  by (simp add: scale_energy_def dget_def)

text \<open>The effects before the energy scale is applied.\<close>

lemma projected_effects:
  assumes "project_verified_outcome capability raw = Inr (success, effects)"
    and "as_float (dget (VFlt (Fin 1)) ''energy_cost_scale'' raw) = Inr scale" and "effects \<noteq> []" and "\<not> success"
  obtains "effects = scale_energy scale (verified_outcome_effects capability False)"
  | x where "effects = scale_energy scale (dput ''integrity'' x (verified_outcome_effects capability False))"
  using assms
  by (auto simp: project_verified_outcome_def andThen_eq_Inr Let_def split: if_splits)

text \<open>C21: what a capability reports about itself is never taken for an effect. Effects touch the homeostatic variables only;
  a result that tries to set the physiology, or is delayed, succeeds in nothing and has no effect; a failed action gains no
  energy, whatever scale of at least zero it reports; and the stored result never carries the attempted physiology.\<close>

theorem self_report_has_no_effect:
  assumes "verify_outcome fresh capability raw gv = (Inr v, gv')"
    and "as_float (dget (VFlt (Fin 1)) ''energy_cost_scale'' raw) = Inr scale" and "flt_le (Fin 0) scale"
  shows "on_variables (vo_physiology_effects v)
    \<and> (map_of raw ''physiology_set'' \<noteq> None \<or> raw_delayed raw \<longrightarrow> \<not> vo_success v \<and> vo_physiology_effects v = [])
    \<and> (\<not> vo_success v \<longrightarrow> flt_le (dget (Fin 0) ''energy'' (vo_physiology_effects v)) (Fin 0))
    \<and> map_of (vo_raw v) ''physiology_set'' = None
    \<and> gs_verified_outcomes (gv_state gv') = gs_verified_outcomes (gv_state gv) + 1"
proof -
  obtain success effects where p: "project_verified_outcome capability raw = Inr (success, effects)"
    and v: "vo_success v = success" "vo_physiology_effects v = effects" "vo_raw v = dpop ''physiology_set'' raw"
      "gs_verified_outcomes (gv_state gv') = gs_verified_outcomes (gv_state gv) + 1"
    using assms(1) by (auto simp: verify_outcome_def Let_def andThen_eq_Inr split: sum.splits)
  note variables = on_variables_scale on_variables_outcome on_variables_add on_variables_hazard on_variables_dput
  have delayed: "raw_delayed raw \<Longrightarrow> \<not> raw_success raw" by (simp add: raw_success_def)
  have "on_variables effects"
    using p by (auto simp: project_verified_outcome_def andThen_eq_Inr Let_def intro!: variables
        split: if_splits)
  moreover have "map_of raw ''physiology_set'' \<noteq> None \<or> raw_delayed raw \<longrightarrow> \<not> success \<and> effects = []"
    using p delayed by (auto simp: project_verified_outcome_def andThen_eq_Inr split: if_splits)
  moreover have "\<not> success \<longrightarrow> flt_le (dget (Fin 0) ''energy'' effects) (Fin 0)"
  proof (intro impI, cases "effects = []")
    case False
    assume "\<not> success"
    from p assms(2) False this show "flt_le (dget (Fin 0) ''energy'' effects) (Fin 0)"
      by (rule projected_effects)
        (simp_all add: scaled_energy_nonpos failed_effects_nonpos dget_dput assms(3))
  qed (simp add: dget_def)
  ultimately show ?thesis by (simp add: v delete_conv')
qed

text \<open>A proposal to signal, admitted by a governance in its initial state.\<close>

definition initial_governance :: governance where
  "initial_governance = \<lparr>gv_state = default_governance_state, gv_last_decision = None\<rparr>"

lemma initial_signal_admitted:
  obtains d gv' where "admit (propose ''p'' ''SIGNAL_PLAY'' [] None) (Some 0) (initial_governance, None) = (Inr d, gv', None)"
    "gd_admitted d"
  by (simp add: admit_def admission_refusal_def propose_def initial_governance_def default_governance_state_def
      PREAUTHORIZED_def CAPABILITIES_def SIGNAL_CAPABILITIES_def SIGNAL_COOLDOWN_TICKS_DEFAULT_def WAIT_CAPABILITY_def
      safety_stage_def unsafe_keys_def UNSAFE_PARAMS_def Let_def)

theorem admission_sound_witness:
  "\<exists>d gv'. admit (propose ''p'' ''SIGNAL_PLAY'' [] None) (Some 0) (initial_governance, None) = (Inr d, gv', None)
     \<and> gs_admissions (gv_state gv') = 1 \<and> ''SIGNAL_PLAY'' \<in> gs_grants (gv_state initial_governance)"
proof -
  obtain d gv' where a: "admit (propose ''p'' ''SIGNAL_PLAY'' [] None) (Some 0) (initial_governance, None) = (Inr d, gv', None)"
    "gd_admitted d"
    by (rule initial_signal_admitted)
  have "gs_admissions (gv_state gv') = 1 \<and> ''SIGNAL_PLAY'' \<in> gs_grants (gv_state initial_governance)"
    using admission_sound [OF a(1)] a(2)
    by (simp add: initial_governance_def default_governance_state_def propose_def)
  with a(1) show ?thesis by (intro exI [of _ d] exI [of _ gv']) simp
qed

definition forged_result :: "pyv dict" where
  "forged_result = [(''ok_raw'', VBool True), (''physiology_set'', VDict [(''energy'', VInt 1)])]"

theorem self_report_has_no_effect_witness:
  "\<exists>v gv'. verify_outcome ''o'' ''CHARGE'' forged_result initial_governance = (Inr v, gv')
     \<and> \<not> vo_success v \<and> vo_physiology_effects v = []"
proof -
  obtain v gv' where v: "verify_outcome ''o'' ''CHARGE'' forged_result initial_governance = (Inr v, gv')"
    by (simp add: verify_outcome_def project_verified_outcome_def forged_result_def raw_delayed_def raw_success_def
        raw_get_def dget_def FAILED_REASONS_def Let_def)
  have "as_float (dget (VFlt (Fin 1)) ''energy_cost_scale'' forged_result) = Inr (Fin 1)" "flt_le (Fin 0) (Fin 1)"
    by (simp_all add: forged_result_def dget_def)
  from self_report_has_no_effect [OF v this] have "\<not> vo_success v \<and> vo_physiology_effects v = []"
    by (simp add: forged_result_def)
  with v show ?thesis by (intro exI [of _ v] exI [of _ gv']) simp
qed

end
