(* ===== verification/ExecutionJournal.thy ===== *)
theory ExecutionJournal
  imports Governance
begin

text \<open>
  \<open>habitat/execution_journal.py\<close>: the journal that makes a manipulation take effect exactly once. An execution is prepared,
  its habitat events, organism effects, verified outcome and terminal journal row are written in one transaction, and only
  then does the habitat engine, in memory, and the physiology follow. A retry of a committed execution answers from the
  journal and lets the memory catch up. The objects a commit changes are the record \<open>commit_world\<close>.
\<close>

section \<open>Requests and results\<close>

definition EXECUTION_PAYLOAD_MISMATCH :: string where
  "EXECUTION_PAYLOAD_MISMATCH = ''EXECUTION_PAYLOAD_MISMATCH''"

definition HABITAT_COLLECTION_CAP_EXCEEDED :: string where
  "HABITAT_COLLECTION_CAP_EXCEEDED = ''HABITAT_COLLECTION_CAP_EXCEEDED''"

definition EVENT_STORAGE_BUDGET_EXCEEDED :: string where
  "EVENT_STORAGE_BUDGET_EXCEEDED = ''EVENT_STORAGE_BUDGET_EXCEEDED''"

definition STATUS_PREPARED :: string where
  "STATUS_PREPARED = ''PREPARED''"

definition STATUS_COMMITTED_SUCCESS :: string where
  "STATUS_COMMITTED_SUCCESS = ''COMMITTED_SUCCESS''"

definition STATUS_COMMITTED_FAILURE :: string where
  "STATUS_COMMITTED_FAILURE = ''COMMITTED_FAILURE''"

lemmas journal_statuses = STATUS_PREPARED_def STATUS_COMMITTED_SUCCESS_def STATUS_COMMITTED_FAILURE_def

definition journal_terminal :: "string \<Rightarrow> bool" where
  "journal_terminal status \<longleftrightarrow> status = STATUS_COMMITTED_SUCCESS \<or> status = STATUS_COMMITTED_FAILURE"

record prepared_execution =
  pe_execution_id :: string
  pe_request_id :: string
  pe_status :: string
  pe_canonical_payload_hash :: string
  pe_transaction_id :: string
  pe_prepared_tick :: int
  pe_outcome_id :: "string option"
  pe_failure_code :: "string option"

record commit_result =
  mc_execution_id :: string
  mc_request_id :: string
  mc_journal_status :: string
  mc_outcome :: "verified_outcome option"
  mc_failure_code :: "string option"
  mc_idempotent_replay :: bool

text \<open>\<open>asdict\<close> of the parameters, with the default \<open>kind\<close> of each class.\<close>

fun parameters_to_pyv :: "manipulation_parameters \<Rightarrow> pyv" where
  "parameters_to_pyv (PickUpParameters hold_slot) = VDict [(''kind'', VStr ''PICK_UP''), (''hold_slot'', VInt hold_slot)]"
| "parameters_to_pyv (PlaceParameters x y zone_id support) = VDict
     [(''kind'', VStr ''PLACE''), (''target_x'', VFlt x), (''target_y'', VFlt y), (''expected_zone_id'', VStr zone_id),
      (''support_object_id'', v_opt VStr support)]"
| "parameters_to_pyv (PushParameters dx dy distance) = VDict
     [(''kind'', VStr ''PUSH''), (''direction_x'', VFlt dx), (''direction_y'', VFlt dy), (''requested_distance'', VFlt distance)]"
| "parameters_to_pyv ActivateParameters = VDict [(''kind'', VStr ''ACTIVATE'')]"
| "parameters_to_pyv DeactivateParameters = VDict [(''kind'', VStr ''DEACTIVATE'')]"
| "parameters_to_pyv UseParameters = VDict [(''kind'', VStr ''USE'')]"

definition request_payload :: "manipulation_request \<Rightarrow> pyv" where
  "request_payload r = VDict
     [(''request_id'', VStr (mr_request_id r)),
      (''execution_id'', VStr (mr_execution_id r)),
      (''capability'', VStr (mr_capability r)),
      (''target_object_id'', VStr (mr_target_object_id r)),
      (''affordance_id'', VStr (mr_affordance_id r)),
      (''expected_habitat_version'', VInt (mr_expected_habitat_version r)),
      (''expected_habitat_state_hash'', VStr (mr_expected_habitat_state_hash r)),
      (''target_object_version'', VInt (mr_target_object_version r)),
      (''target_object_definition_version'', VInt (mr_target_object_definition_version r)),
      (''target_object_definition_hash'', VStr (mr_target_object_definition_hash r)),
      (''affordance_definition_version'', VInt (mr_affordance_definition_version r)),
      (''affordance_definition_hash'', VStr (mr_affordance_definition_hash r)),
      (''body_instance_id'', VStr (mr_body_instance_id r)),
      (''body_profile_id'', VStr (mr_body_profile_id r)),
      (''attachment_generation'', VInt (mr_attachment_generation r)),
      (''parameters'', parameters_to_pyv (mr_parameters r))]"

definition canonical_payload_hash :: "hash_env \<Rightarrow> manipulation_request \<Rightarrow> string" where
  "canonical_payload_hash E r = hash_canonical E (request_payload r)"

definition organism_effects_to_physiology :: "pyv list \<Rightarrow> flt dict res" where
  "organism_effects_to_physiology effects =
     foldE (\<lambda>out effect.
       andThen (fld_or effect ''effect_kind'' (VStr []) as_str) (\<lambda>kind.
       andThen (fld_or effect ''magnitude'' (VFlt (Fin 0)) as_float) (\<lambda>magnitude.
       Inr (if kind = ''RESOURCE_YIELD''
         then dput ''energy'' (flt_add (dget (Fin 0) ''energy'' out) magnitude) out else out)))) [] effects"

section \<open>Preparing\<close>

definition present :: "string option \<Rightarrow> string option" where
  "present x = (case x of None \<Rightarrow> None | Some s \<Rightarrow> if s = [] then None else Some s)"

definition prepared_from_row :: "journal_row \<Rightarrow> prepared_execution" where
  "prepared_from_row r =
     \<lparr>pe_execution_id = jr_execution_id r, pe_request_id = jr_request_id r, pe_status = jr_status r,
      pe_canonical_payload_hash = jr_canonical_payload_hash r, pe_transaction_id = jr_transaction_id r,
      pe_prepared_tick = jr_prepared_tick r, pe_outcome_id = present (jr_outcome_id r),
      pe_failure_code = present (jr_failure_code r)\<rparr>"

definition prepared_row :: "hash_env \<Rightarrow> manipulation_request \<Rightarrow> int \<Rightarrow> string \<Rightarrow> journal_row" where
  "prepared_row E request prepared_tick transaction_id =
     \<lparr>jr_execution_id = mr_execution_id request, jr_request_id = mr_request_id request, jr_status = STATUS_PREPARED,
      jr_canonical_payload_hash = canonical_payload_hash E request,
      jr_payload = canonical (VDict
        [(''request_id'', VStr (mr_request_id request)), (''execution_id'', VStr (mr_execution_id request)),
         (''target_object_id'', VStr (mr_target_object_id request)), (''affordance_id'', VStr (mr_affordance_id request))]),
      jr_transaction_id = transaction_id, jr_prepared_tick = prepared_tick, jr_outcome_id = None, jr_failure_code = None\<rparr>"

definition prepare_execution ::
  "hash_env \<Rightarrow> string \<Rightarrow> manipulation_request \<Rightarrow> int \<Rightarrow> string option \<Rightarrow> (store, prepared_execution) method" where
  "prepare_execution E fresh request prepared_tick transaction_id s =
     (let payload_hash = canonical_payload_hash E request in
      case get_journal (mr_execution_id request) s of
        Some row \<Rightarrow>
          (if jr_canonical_payload_hash row \<noteq> payload_hash then Inl (ExecutionJournalError EXECUTION_PAYLOAD_MISMATCH)
           else if jr_status row \<noteq> STATUS_PREPARED then Inl (ExecutionJournalError ''execution_already_terminal'')
           else Inr (prepared_from_row row), s)
      | None \<Rightarrow>
          (case andThen (case get_journal_by_request (mr_request_id request) s of
               None \<Rightarrow> Inr ()
             | Some row \<Rightarrow>
                 if jr_canonical_payload_hash row \<noteq> payload_hash
                 then Inl (ExecutionJournalError EXECUTION_PAYLOAD_MISMATCH)
                 else if jr_status row = STATUS_PREPARED \<and> jr_execution_id row \<noteq> mr_execution_id request
                 then Inl (ExecutionJournalError ''prepared_request_in_flight'') else Inr ()) (\<lambda>_.
             insert_journal_prepared (prepared_row E request prepared_tick (or_fresh transaction_id fresh)) s) of
             Inl e \<Rightarrow> (Inl e, s)
           | Inr t \<Rightarrow>
               (case get_journal (mr_execution_id request) t of
                  None \<Rightarrow> (Inl (AssertionError ''row_is_not_None''), t)
                | Some row \<Rightarrow> (Inr (prepared_from_row row), t))))"

section \<open>Results from the journal, and recovery\<close>

definition terminal_result_from_row :: "string \<Rightarrow> bool \<Rightarrow> journal_row \<Rightarrow> store \<Rightarrow> commit_result res" where
  "terminal_result_from_row agent_id idempotent_replay row s =
     andThen (case present (jr_outcome_id row) of None \<Rightarrow> Inr None
       | Some i \<Rightarrow> get_verified_outcome_by_id i agent_id s) (\<lambda>outcome.
     Inr \<lparr>mc_execution_id = jr_execution_id row, mc_request_id = jr_request_id row, mc_journal_status = jr_status row,
          mc_outcome = outcome, mc_failure_code = present (jr_failure_code row),
          mc_idempotent_replay = idempotent_replay\<rparr>)"

definition recover_execution :: "string \<Rightarrow> string \<Rightarrow> (store, commit_result option) method" where
  "recover_execution agent_id execution_id s =
     (case get_journal execution_id s of
        None \<Rightarrow> (Inr None, s)
      | Some row \<Rightarrow>
          if journal_terminal (jr_status row)
          then (andThen (terminal_result_from_row agent_id False row s) (\<lambda>r. Inr (Some r)), s)
          else if jr_status row \<noteq> STATUS_PREPARED then (Inr None, s)
          else
            (case find_commit_evidence execution_id (jr_transaction_id row) agent_id s of
               Inl e \<Rightarrow> (Inl e, s)
             | Inr None \<Rightarrow>
                 (Inr (Some \<lparr>mc_execution_id = execution_id, mc_request_id = jr_request_id row,
                    mc_journal_status = STATUS_PREPARED, mc_outcome = None, mc_failure_code = None,
                    mc_idempotent_replay = False\<rparr>), s)
             | Inr (Some evidence) \<Rightarrow>
                 let t = update_journal_terminal execution_id (ce_status evidence) (ce_outcome_id evidence)
                       (ce_failure_code evidence) s
                 in (case get_journal execution_id t of
                       None \<Rightarrow> (Inl (AssertionError ''row_is_not_None''), t)
                     | Some row' \<Rightarrow> (andThen (terminal_result_from_row agent_id False row' t) (\<lambda>r. Inr (Some r)), t))))"

section \<open>Effect plans on the habitat\<close>

text \<open>The place a \<open>SET_LOCATION\<close> mutation names, with the cap of the zone.\<close>

definition planned_location :: "habitat_state \<Rightarrow> string \<Rightarrow> pyv \<Rightarrow> object_location res" where
  "planned_location s object_id loc =
     andThen (item loc ''mode'') (\<lambda>mode.
     if mode = VStr ''HELD_BY'' then
       andThen (fld loc ''body_instance_id'' as_str) (\<lambda>body.
       andThen (fld loc ''attachment_generation'' as_int) (\<lambda>generation.
       andThen (fld loc ''hold_slot'' as_int) (\<lambda>hold_slot.
       Inr (HeldByLocation body generation hold_slot))))
     else
       andThen (fld_or loc ''zone_id'' VNone (\<lambda>v. as_str (or_else v (VStr [])))) (\<lambda>zone_id.
       let count = length (filter (\<lambda>(oid, ob). oid \<noteq> object_id
             \<and> (case ho_location ob of FreeLocation _ _ z \<Rightarrow> z = zone_id | _ \<Rightarrow> False)) (hs_objects s))
       in if zone_id \<noteq> [] \<and> (case map_of (hs_zones s) zone_id of None \<Rightarrow> False
              | Some zone \<Rightarrow> zn_occupancy_limit zone \<le> int count)
          then Inl (MutationRejected HABITAT_COLLECTION_CAP_EXCEEDED)
          else andThen (fld loc ''x'' as_float) (\<lambda>x. andThen (fld loc ''y'' as_float) (\<lambda>y.
            Inr (FreeLocation x y zone_id)))))"

definition set_object_cooldown :: "string \<Rightarrow> int \<Rightarrow> habitat_object \<Rightarrow> habitat_object" where
  "set_object_cooldown affordance_id until_tick ob =
     ob\<lparr>ho_cooldowns := sort (filter (\<lambda>(a, t). a \<noteq> affordance_id) (ho_cooldowns ob) @ [(affordance_id, until_tick)])\<rparr>"

definition mutate_as_planned :: "habitat_state \<Rightarrow> string \<Rightarrow> string \<Rightarrow> pyv \<Rightarrow> habitat_object \<Rightarrow> habitat_object res" where
  "mutate_as_planned s object_id kind mutation ob =
     (if kind = ''SET_LOCATION'' then
        andThen (fld mutation ''location'' (planned_location s object_id)) (\<lambda>l. Inr (ob\<lparr>ho_location := l\<rparr>))
      else if kind = ''SET_ACTIVATABLE_ACTIVE'' then
        andThen (fld mutation ''active'' as_bool) (\<lambda>b. Inr (ob\<lparr>ho_state := ActivatableState b\<rparr>))
      else if kind = ''APPLY_WORLD_EFFECT'' then
        andThen (fld mutation ''field'' as_str) (\<lambda>f. andThen (item mutation ''delta'') (\<lambda>d.
        andThen (apply_world_effect_mutations (ho_state ob) [\<lparr>we_field = f, we_delta = d\<rparr>]) (\<lambda>st.
        Inr (ob\<lparr>ho_state := st\<rparr>))))
      else if kind = ''SET_COOLDOWN'' then
        andThen (fld mutation ''affordance_id'' as_str) (\<lambda>a. andThen (fld mutation ''cooldown_until_tick'' as_int) (\<lambda>n.
        Inr (set_object_cooldown a n ob)))
      else Inl (MutationRejected (''unknown_mutation_kind:'' @ kind)))"

definition apply_one_mutation :: "hash_env \<Rightarrow> habitat_state \<Rightarrow> pyv \<Rightarrow> habitat_state res" where
  "apply_one_mutation E s mutation =
     andThen (fld mutation ''object_id'' as_str) (\<lambda>object_id.
     andThen (fld mutation ''mutation_kind'' as_str) (\<lambda>kind.
     case map_of (hs_objects s) object_id of
       None \<Rightarrow> Inl (MutationRejected (''missing_object:'' @ object_id))
     | Some ob \<Rightarrow>
         andThen (apply_committed_object_mutation E (mutate_as_planned s object_id kind mutation) ob) (\<lambda>updated.
         Inr (bump_state E (s\<lparr>hs_objects := dput object_id updated (hs_objects s)\<rparr>)))))"

definition apply_all_mutations :: "hash_env \<Rightarrow> habitat_state \<Rightarrow> pyv list \<Rightarrow> habitat_state res" where
  "apply_all_mutations E s mutations = foldE (apply_one_mutation E) s mutations"

definition build_event_for_stub ::
  "(nat \<Rightarrow> string) \<Rightarrow> habitat_state \<Rightarrow> habitat_state \<Rightarrow> envelope_args \<Rightarrow> pyv \<Rightarrow> pyv res" where
  "build_event_for_stub fresh before after args stub =
     andThen (fld stub ''event_type'' as_str) (\<lambda>event_type.
     andThen (fld stub ''object_id'' as_str) (\<lambda>object_id.
     if event_type = HABITAT_OBJECT_PICKED_UP then build_object_picked_up_event fresh before after object_id None args
     else if event_type = HABITAT_OBJECT_PLACED then build_object_placed_event fresh before after object_id None args
     else if event_type = HABITAT_OBJECT_MOVED then build_object_moved_event fresh before after object_id None args
     else if event_type = HABITAT_OBJECT_STATE_CHANGED then
       andThen (item stub ''new_state'') (\<lambda>new_state.
       build_habitat_event fresh (Some before) after HABITAT_OBJECT_STATE_CHANGED None
         [(''object_id'', VStr object_id), (''new_state'', new_state)] args)
     else if event_type = HABITAT_AFFORDANCE_ACTIVATED \<or> event_type = HABITAT_AFFORDANCE_DEACTIVATED then
       (case map_of (hs_objects after) object_id of
          None \<Rightarrow> Inl (KeyError object_id)
        | Some ob \<Rightarrow>
            build_habitat_event fresh (Some before) after event_type None
              [(''object_id'', VStr object_id), (''new_state'', object_state_to_pyv (ho_state ob))] args)
     else Inl (MutationRejected (''unsupported_habitat_event_stub:'' @ event_type))))"

text \<open>\<open>ids i\<close> are the fresh identities of the event of the \<open>i\<close>-th stub.\<close>

definition apply_effect_plan ::
  "hash_env \<Rightarrow> (nat \<Rightarrow> nat \<Rightarrow> string) \<Rightarrow> habitat_state \<Rightarrow> habitat_effect_plan \<Rightarrow> envelope_args
    \<Rightarrow> (habitat_state \<times> pyv list) res" where
  "apply_effect_plan E ids s plan args =
     andThen (apply_all_mutations E s (hp_habitat_mutations plan)) (\<lambda>after.
     andThen (mapE (\<lambda>(i, stub). build_event_for_stub (ids i) s after args stub) (enumerate 0 (hp_habitat_events plan))) (\<lambda>events.
     Inr (after, events)))"

definition plan_envelope :: "string \<Rightarrow> manipulation_request \<Rightarrow> envelope_args" where
  "plan_envelope transaction_id request =
     \<lparr>ea_habitat_tick = None, ea_transaction_id = Some transaction_id, ea_request_id = Some (mr_request_id request),
      ea_execution_id = Some (mr_execution_id request), ea_actor_ref = Some (mr_body_instance_id request),
      ea_target_ref = Some (mr_target_object_id request)\<rparr>"

section \<open>Catching up after a commit\<close>

text \<open>The branches of \<open>_apply_terminal_snapshot_from_event\<close> change one object, then announce the version of the event.\<close>

definition terminal_snapshot :: "hash_env \<Rightarrow> habitat_state \<Rightarrow> pyv \<Rightarrow> (habitat_object \<Rightarrow> habitat_object) \<Rightarrow> string \<Rightarrow> habitat_state res" where
  "terminal_snapshot E s payload change object_id =
     (case map_of (hs_objects s) object_id of
        None \<Rightarrow> Inl (KeyError object_id)
      | Some ob \<Rightarrow>
          andThen (apply_committed_object_mutation E (\<lambda>x. Inr (change x)) ob) (\<lambda>updated.
          andThen (fld payload ''new_state_version'' as_int) (\<lambda>version.
          let result = with_habitat_hash E (s\<lparr>hs_objects := dput object_id updated (hs_objects s), hs_state_version := version\<rparr>)
          in andThen (item payload ''new_state_hash'') (\<lambda>h.
             if h \<noteq> VStr (hs_state_hash result) then Inl (ExecutionJournalError ''rehydrate_hash_mismatch'')
             else Inr result))))"

definition apply_terminal_snapshot_from_event :: "hash_env \<Rightarrow> habitat_state \<Rightarrow> pyv \<Rightarrow> habitat_state res" where
  "apply_terminal_snapshot_from_event E s event =
     andThen (item event ''payload'') (\<lambda>payload.
     andThen (fld event ''event_type'' as_str) (\<lambda>event_type.
     andThen (if has_key payload ''object_id'' then andThen (fld payload ''object_id'' as_str) (\<lambda>i. Inr (Some i))
         else Inr None) (\<lambda>object_id.
     let on_object = (\<lambda>f. case object_id of None \<Rightarrow> Inl (AssertionError ''object_id_is_not_None'') | Some i \<Rightarrow> f i) in
     if event_type \<in> {HABITAT_OBJECT_STATE_CHANGED, HABITAT_AFFORDANCE_ACTIVATED, HABITAT_AFFORDANCE_DEACTIVATED}
     then on_object (\<lambda>i. andThen (fld payload ''new_state'' object_state_from_payload) (\<lambda>st.
       terminal_snapshot E s payload (\<lambda>ob. ob\<lparr>ho_state := st\<rparr>) i))
     else if event_type \<in> {HABITAT_OBJECT_MOVED, HABITAT_OBJECT_PICKED_UP, HABITAT_OBJECT_PLACED}
     then on_object (\<lambda>i. andThen (fld payload ''new_location'' location_from_payload) (\<lambda>l.
       terminal_snapshot E s payload (\<lambda>ob. ob\<lparr>ho_location := l\<rparr>) i))
     else Inl (ExecutionJournalError (''rehydrate_unsupported_event:'' @ event_type)))))"

definition rehydrate_apply_event :: "hash_env \<Rightarrow> habitat_state \<Rightarrow> pyv \<Rightarrow> habitat_state res" where
  "rehydrate_apply_event E s event =
     andThen (item event ''payload'') (\<lambda>payload.
     andThen (fld payload ''new_state_version'' as_int) (\<lambda>version.
     andThen (if hs_state_version s = version
         then andThen (item payload ''new_state_hash'') (\<lambda>h. Inr (h = VStr (hs_state_hash s))) else Inr False) (\<lambda>there.
     if there then Inr s
     else case apply_habitat_event E (Some s) event of
         Inl (HabitatEventError m) \<Rightarrow>
           if m = ''event_new_state_version_mismatch'' then apply_terminal_snapshot_from_event E s event
           else Inl (HabitatEventError m)
       | r \<Rightarrow> r)))"

definition catch_up :: "habitat_state \<Rightarrow> verified_outcome \<Rightarrow> habitat_engine \<times> physiology \<Rightarrow> habitat_engine \<times> physiology" where
  "catch_up s outcome = (\<lambda>(engine, phys). (rebuild_indexes (engine\<lparr>he_state := s\<rparr>), apply_physiology outcome phys))"

definition maybe_rehydrate_committed_success ::
  "hash_env \<Rightarrow> (nat \<Rightarrow> nat \<Rightarrow> string) \<Rightarrow> string \<Rightarrow> manipulation_request \<Rightarrow> affordance_validation \<Rightarrow> journal_row \<Rightarrow> store
    \<Rightarrow> (habitat_engine \<times> physiology, unit) method" where
  "maybe_rehydrate_committed_success E ids agent_id request validation row s w =
     (let s0 = he_state (fst w) in
      case present (jr_outcome_id row) of None \<Rightarrow> (Inr (), w) | Some outcome_id \<Rightarrow>
      (case get_verified_outcome_by_id outcome_id agent_id s of
         Inl e \<Rightarrow> (Inl e, w)
       | Inr None \<Rightarrow> (Inr (), w)
       | Inr (Some outcome) \<Rightarrow>
           if \<not> vo_success outcome then (Inr (), w) else
           let txn_events = list_habitat_events_for_execution agent_id (jr_execution_id row) (jr_transaction_id row) s in
           if txn_events = [] then (Inr (), w) else
           (case fld (last txn_events) ''payload'' (\<lambda>p. fld p ''new_state_hash'' as_str) of
              Inl e \<Rightarrow> (Inl e, w)
            | Inr expected_hash \<Rightarrow>
                if hs_state_hash s0 = expected_hash then (Inr (), w) else
                (case (case vr_effect_plan validation of None \<Rightarrow> Inr None
                       | Some plan \<Rightarrow> andThen (apply_effect_plan E ids s0 plan
                           \<lparr>ea_habitat_tick = None, ea_transaction_id = Some (jr_transaction_id row),
                            ea_request_id = Some (jr_request_id row), ea_execution_id = Some (jr_execution_id row),
                            ea_actor_ref = Some (mr_body_instance_id request),
                            ea_target_ref = Some (mr_target_object_id request)\<rparr>) (\<lambda>(after, _).
                           Inr (if hs_state_hash after = expected_hash then Some after else None))) of
                   Inl e \<Rightarrow> (Inl e, w)
                 | Inr (Some after) \<Rightarrow> (Inr (), catch_up after outcome w)
                 | Inr None \<Rightarrow>
                     (case foldE (rehydrate_apply_event E) s0 txn_events of
                        Inl e \<Rightarrow> (Inl e, w)
                      | Inr after \<Rightarrow> (Inr (), catch_up after outcome w))))))"

section \<open>Committing\<close>

record commit_world =
  cw_store :: store
  cw_governance :: governance
  cw_engine :: habitat_engine
  cw_physiology :: physiology

record commit_args =
  ca_agent_id :: string
  ca_prepared_tick :: int
  ca_monotonic_time :: flt
  ca_wall_time :: flt
  ca_transaction_id :: "string option"
  ca_crash_after_stage :: "nat option"

text \<open>\<open>Governance.verify_manipulation_outcome\<close>.\<close>

definition manipulation_raw ::
  "manipulation_request \<Rightarrow> bool \<Rightarrow> manipulation_parameters option \<Rightarrow> string \<Rightarrow> pyv dict" where
  "manipulation_raw request success applied transaction_id =
     [(''ok_raw'', VBool success), (''execution_id'', VStr (mr_execution_id request)),
      (''request_id'', VStr (mr_request_id request)), (''target_object_id'', VStr (mr_target_object_id request)),
      (''affordance_id'', VStr (mr_affordance_id request)), (''body_instance_id'', VStr (mr_body_instance_id request)),
      (''body_profile_id'', VStr (mr_body_profile_id request)),
      (''attachment_generation'', VInt (mr_attachment_generation request)), (''capability'', VStr (mr_capability request))]
     @ (case applied of None \<Rightarrow> []
        | Some p \<Rightarrow> [(''requested_parameters'', parameters_to_pyv (mr_parameters request)),
                    (''applied_parameters'', parameters_to_pyv p)])
     @ [(''transaction_id'', VStr transaction_id)]"

definition verify_manipulation_outcome ::
  "string \<Rightarrow> manipulation_request \<Rightarrow> bool \<Rightarrow> string option \<Rightarrow> flt dict \<Rightarrow> manipulation_parameters option \<Rightarrow> string
    \<Rightarrow> governance \<Rightarrow> verified_outcome \<times> governance" where
  "verify_manipulation_outcome fresh request success failure_code effects applied transaction_id gv =
     (\<lparr>vo_outcome_id = fresh, vo_capability = mr_capability request, vo_success = success,
       vo_reason = (if success then ''manipulation_committed'' else str_or failure_code ''manipulation_failed''),
       vo_physiology_effects = effects, vo_raw = manipulation_raw request success applied transaction_id,
       vo_verified = True\<rparr>,
      gv\<lparr>gv_state := (gv_state gv)\<lparr>gs_verified_outcomes := gs_verified_outcomes (gv_state gv) + 1\<rparr>\<rparr>)"

definition outcome_event :: "commit_args \<Rightarrow> manipulation_request \<Rightarrow> verified_outcome \<Rightarrow> string \<Rightarrow> new_event" where
  "outcome_event args request outcome reason =
     \<lparr>ne_agent_id = ca_agent_id args, ne_event_type = ''outcome_verified'', ne_monotonic_time = ca_monotonic_time args,
      ne_wall_time = ca_wall_time args,
      ne_payload = VDict
        [(''outcome_id'', VStr (vo_outcome_id outcome)), (''execution_id'', VStr (mr_execution_id request)),
         (''request_id'', VStr (mr_request_id request)), (''capability'', VStr (mr_capability request)),
         (''success'', VBool (vo_success outcome)), (''reason'', VStr reason),
         (''effects'', VDict (map (\<lambda>(k, x). (k, VFlt x)) (vo_physiology_effects outcome))), (''verified'', VBool True),
         (''raw'', VDict (vo_raw outcome))],
      ne_causal_parent_ids = None, ne_event_id = Some (vo_outcome_id outcome)\<rparr>"

definition journal_stage :: "string \<Rightarrow> string \<Rightarrow> string option \<Rightarrow> string option \<Rightarrow> store \<Rightarrow> store res" where
  "journal_stage execution_id status outcome_id failure_code s =
     Inr (update_journal_terminal execution_id status outcome_id failure_code s)"

text \<open>
  A failure changes no habitat and no physiology, which is what the two assertions of its \<open>on_commit\<close> compare. \<open>ids 0\<close> is
  the identity of the outcome.
\<close>

definition commit_failure ::
  "hash_env \<Rightarrow> (nat \<Rightarrow> string) \<Rightarrow> commit_args \<Rightarrow> manipulation_request \<Rightarrow> manipulation_parameters option \<Rightarrow> prepared_execution
    \<Rightarrow> string \<Rightarrow> (commit_world, commit_result) method" where
  "commit_failure E ids args request applied prepared failure_code w =
     (let (outcome, gv) = verify_manipulation_outcome (ids 0) request False (Some failure_code) [] applied
            (pe_transaction_id prepared) (cw_governance w);
          (r, s) = atomic_outcome (ca_crash_after_stage args)
            [journal_stage (pe_execution_id prepared) STATUS_COMMITTED_FAILURE (Some (vo_outcome_id outcome)) (Some failure_code),
             append_row E (ids 1) (outcome_event args request outcome failure_code)] (cw_store w);
          w' = w\<lparr>cw_store := s, cw_governance := gv\<rparr>
      in (case r of Inl e \<Rightarrow> (Inl e, w')
          | Inr _ \<Rightarrow> (Inr \<lparr>mc_execution_id = mr_execution_id request, mc_request_id = mr_request_id request,
              mc_journal_status = STATUS_COMMITTED_FAILURE, mc_outcome = Some outcome, mc_failure_code = Some failure_code,
              mc_idempotent_replay = False\<rparr>, w')))"

text \<open>A stored habitat event: \<open>append_event\<close> with the identity, type and payload of the event.\<close>

definition habitat_event_stage :: "hash_env \<Rightarrow> commit_args \<Rightarrow> pyv \<Rightarrow> store \<Rightarrow> store res" where
  "habitat_event_stage E args event s =
     andThen (fld event ''event_type'' plain_str) (\<lambda>event_type.
     andThen (item event ''payload'') (\<lambda>payload.
     andThen (fld event ''event_id'' plain_str) (\<lambda>event_id.
     append_row E event_id \<lparr>ne_agent_id = ca_agent_id args, ne_event_type = event_type,
       ne_monotonic_time = ca_monotonic_time args, ne_wall_time = ca_wall_time args, ne_payload = payload,
       ne_causal_parent_ids = None, ne_event_id = Some event_id\<rparr> s)))"

definition organism_effects_stage :: "hash_env \<Rightarrow> string \<Rightarrow> commit_args \<Rightarrow> manipulation_request \<Rightarrow> pyv list \<Rightarrow> store \<Rightarrow> store res" where
  "organism_effects_stage E fresh args request effects s =
     (if effects = [] then Inr s
      else append_row E fresh \<lparr>ne_agent_id = ca_agent_id args, ne_event_type = ''organism_effect_applied'',
        ne_monotonic_time = ca_monotonic_time args, ne_wall_time = ca_wall_time args,
        ne_payload = VDict [(''execution_id'', VStr (mr_execution_id request)), (''request_id'', VStr (mr_request_id request)),
          (''effects'', VList effects)], ne_causal_parent_ids = None, ne_event_id = None\<rparr> s)"

definition commit_success ::
  "hash_env \<Rightarrow> (nat \<Rightarrow> string) \<Rightarrow> (nat \<Rightarrow> nat \<Rightarrow> string) \<Rightarrow> commit_args \<Rightarrow> manipulation_request \<Rightarrow> habitat_effect_plan
    \<Rightarrow> prepared_execution \<Rightarrow> (commit_world, commit_result) method" where
  "commit_success E ids event_ids args request plan prepared w =
     (case apply_effect_plan E event_ids (he_state (cw_engine w)) plan (plan_envelope (pe_transaction_id prepared) request) of
        Inl (MutationRejected code) \<Rightarrow> commit_failure E ids args request None prepared code w
      | Inl e \<Rightarrow> (Inl e, w)
      | Inr (after, events) \<Rightarrow>
          (case organism_effects_to_physiology (hp_requested_organism_effects plan) of
             Inl e \<Rightarrow> (Inl e, w)
           | Inr phys_effects \<Rightarrow>
               let (outcome, gv) = verify_manipulation_outcome (ids 2) request True None phys_effects None
                     (pe_transaction_id prepared) (cw_governance w);
                   (r, s) = atomic_outcome (ca_crash_after_stage args)
                     [\<lambda>t. foldE (\<lambda>u event. habitat_event_stage E args event u) t events,
                      organism_effects_stage E (ids 3) args request (hp_requested_organism_effects plan),
                      append_row E (ids 4) (outcome_event args request outcome ''manipulation_committed''),
                      journal_stage (pe_execution_id prepared) STATUS_COMMITTED_SUCCESS (Some (vo_outcome_id outcome)) None]
                     (cw_store w);
                   w' = w\<lparr>cw_store := s, cw_governance := gv\<rparr>
               in (case r of
                     Inl (MutationRejected code) \<Rightarrow>
                       if code \<noteq> EVENT_STORAGE_BUDGET_EXCEEDED then (Inl (MutationRejected code), w')
                       else commit_failure E ids args request None prepared EVENT_STORAGE_BUDGET_EXCEEDED w'
                   | Inl e \<Rightarrow> (Inl e, w')
                   | Inr _ \<Rightarrow>
                       let (engine, phys) = catch_up after outcome (cw_engine w', cw_physiology w')
                       in (Inr \<lparr>mc_execution_id = mr_execution_id request, mc_request_id = mr_request_id request,
                             mc_journal_status = STATUS_COMMITTED_SUCCESS, mc_outcome = Some outcome, mc_failure_code = None,
                             mc_idempotent_replay = False\<rparr>, w'\<lparr>cw_engine := engine, cw_physiology := phys\<rparr>))))"

text \<open>What every path does that finds the execution committed: catch up after a success, then answer from the row.\<close>

definition catch_up_world ::
  "hash_env \<Rightarrow> (nat \<Rightarrow> nat \<Rightarrow> string) \<Rightarrow> commit_args \<Rightarrow> manipulation_request \<Rightarrow> affordance_validation \<Rightarrow> journal_row
    \<Rightarrow> (commit_world, unit) method" where
  "catch_up_world E ids args request validation row w =
     (if jr_status row \<noteq> STATUS_COMMITTED_SUCCESS then (Inr (), w)
      else case maybe_rehydrate_committed_success E ids (ca_agent_id args) request validation row (cw_store w)
          (cw_engine w, cw_physiology w) of
        (r, engine, phys) \<Rightarrow> (r, w\<lparr>cw_engine := engine, cw_physiology := phys\<rparr>))"

definition replay_committed ::
  "hash_env \<Rightarrow> (nat \<Rightarrow> nat \<Rightarrow> string) \<Rightarrow> commit_args \<Rightarrow> manipulation_request \<Rightarrow> affordance_validation \<Rightarrow> journal_row
    \<Rightarrow> (commit_world, commit_result) method" where
  "replay_committed E ids args request validation row w =
     (case catch_up_world E ids args request validation row w of
        (Inl e, w') \<Rightarrow> (Inl e, w')
      | (Inr _, w') \<Rightarrow> (terminal_result_from_row (ca_agent_id args) True row (cw_store w'), w'))"

text \<open>The part of a commit that follows a successful preparation.\<close>

definition commit_prepared ::
  "hash_env \<Rightarrow> (nat \<Rightarrow> string) \<Rightarrow> (nat \<Rightarrow> nat \<Rightarrow> string) \<Rightarrow> commit_args \<Rightarrow> manipulation_request \<Rightarrow> affordance_validation
    \<Rightarrow> prepared_execution \<Rightarrow> (commit_world, commit_result) method" where
  "commit_prepared E ids event_ids args request validation prepared w =
     (case get_journal (mr_execution_id request) (cw_store w) of
        None \<Rightarrow> (Inl (AssertionError ''existing_is_not_None''), w)
      | Some existing \<Rightarrow>
      if journal_terminal (jr_status existing) then replay_committed E event_ids args request validation existing w
      else if jr_canonical_payload_hash existing \<noteq> canonical_payload_hash E request
      then (Inl (ExecutionJournalError EXECUTION_PAYLOAD_MISMATCH), w)
      else case recover_execution (ca_agent_id args) (mr_execution_id request) (cw_store w) of (r, s) \<Rightarrow>
        let w1 = w\<lparr>cw_store := s\<rparr> in
        case r of Inl e \<Rightarrow> (Inl e, w1) | Inr recovery \<Rightarrow>
        (case (case recovery of Some c \<Rightarrow> if journal_terminal (mc_journal_status c) then Some c else None | None \<Rightarrow> None) of
           Some c \<Rightarrow>
             (case (if mc_journal_status c = STATUS_COMMITTED_SUCCESS
                    then (case get_journal (mr_execution_id request) s of
                        None \<Rightarrow> (Inl (AssertionError ''row_is_not_None''), w1)
                      | Some row \<Rightarrow>
                          (case maybe_rehydrate_committed_success E event_ids (ca_agent_id args) request validation row s
                              (cw_engine w1, cw_physiology w1) of
                            (r', engine, phys) \<Rightarrow> (r', w1\<lparr>cw_engine := engine, cw_physiology := phys\<rparr>)))
                    else (Inr (), w1)) of
                (Inl e, w2) \<Rightarrow> (Inl e, w2)
              | (Inr _, w2) \<Rightarrow> (Inr (c\<lparr>mc_idempotent_replay := True\<rparr>), w2))
         | None \<Rightarrow>
             if \<not> vr_allowed validation
             then commit_failure E ids args request (vr_applied_parameters validation) prepared
                    (str_or (vr_failure_code validation) ''AFFORDANCE_PRECONDITION_FAILED'') w1
             else (case vr_effect_plan validation of
                 None \<Rightarrow> (Inl (AssertionError ''effect_plan_is_not_None''), w1)
               | Some plan \<Rightarrow> commit_success E ids event_ids args request plan prepared w1)))"

definition commit_manipulation_transaction ::
  "hash_env \<Rightarrow> (nat \<Rightarrow> string) \<Rightarrow> (nat \<Rightarrow> nat \<Rightarrow> string) \<Rightarrow> commit_args \<Rightarrow> manipulation_request \<Rightarrow> affordance_validation
    \<Rightarrow> (commit_world, commit_result) method" where
  "commit_manipulation_transaction E ids event_ids args request validation w =
     (case (case get_journal (mr_execution_id request) (cw_store w) of
              None \<Rightarrow> Inr None
            | Some row \<Rightarrow>
                if jr_canonical_payload_hash row \<noteq> canonical_payload_hash E request
                then Inl (ExecutionJournalError EXECUTION_PAYLOAD_MISMATCH)
                else Inr (if journal_terminal (jr_status row) then Some row else None)) of
        Inl e \<Rightarrow> (Inl e, w)
      | Inr (Some row) \<Rightarrow> replay_committed E event_ids args request validation row w
      | Inr None \<Rightarrow>
          (case prepare_execution E (ids 5) request (ca_prepared_tick args) (ca_transaction_id args) (cw_store w) of
             (Inl e, s) \<Rightarrow> (Inl e, w\<lparr>cw_store := s\<rparr>)
           | (Inr prepared, s) \<Rightarrow>
               commit_prepared E ids event_ids args request validation prepared (w\<lparr>cw_store := s\<rparr>)))"

end
