(* ===== verification/JournalProtocol.thy ===== *)
theory JournalProtocol
  imports ExecutionJournal
begin

text \<open>
  What the execution journal guarantees. A commit happens as a whole or not at all; an attempt that raised leaves nothing but the
  prepared row and can be retried; a committed manipulation is answered again without a second effect; a payload that
  differs is refused. Two limits of the code are theorems as well: the event of a plan with a cooldown does not replay,
  and a full ledger cannot record a failure.
\<close>

section \<open>What each part leaves behind\<close>

lemma atomic_outcome_cases:
  assumes "atomic_outcome crash stages s = (r, t)"
  obtains (rolled_back) e where "r = Inl e" "t = s" "run_stages 1 crash stages s = Inl e"
  | (committed) "r = Inr ()" "run_stages 1 crash stages s = Inr t"
  using assms by (auto simp: atomic_outcome_def split: sum.splits)

lemma append_row_effect:
  "append_row E fresh ev s = Inr t \<Longrightarrow> st_events t = st_events s @ [new_row E fresh ev s] \<and> st_journal t = st_journal s"
  by (auto simp: append_row_def Let_def andThen_eq_Inr insert_event_def split: if_splits)

lemma habitat_stage_effect:
  "foldE (\<lambda>u event. habitat_event_stage E args event u) s events = Inr t \<Longrightarrow>
     (\<exists>rows. st_events t = st_events s @ rows \<and> length rows = length events) \<and> st_journal t = st_journal s"
proof (induction events arbitrary: s)
  case (Cons event events)
  then obtain u where u: "habitat_event_stage E args event s = Inr u"
    "foldE (\<lambda>u event. habitat_event_stage E args event u) u events = Inr t"
    by (auto simp: andThen_eq_Inr)
  from u(1) obtain r where "st_events u = st_events s @ [r]" "st_journal u = st_journal s"
    by (auto simp: habitat_event_stage_def andThen_eq_Inr dest!: append_row_effect)
  with Cons.IH [OF u(2)] show ?case by auto
qed simp

lemma organism_stage_effect:
  "organism_effects_stage E fresh args request effects s = Inr t \<Longrightarrow>
     (\<exists>rows. st_events t = st_events s @ rows \<and> length rows = (if effects = [] then 0 else 1)) \<and> st_journal t = st_journal s"
  by (auto simp: organism_effects_stage_def split: if_splits dest!: append_row_effect)

lemma find_map_update:
  "(\<And>x. P (f x) = P x) \<Longrightarrow> List.find P (map f xs) = map_option f (List.find P xs)"
  by (induction xs) auto

lemma get_journal_update:
  "get_journal i (update_journal_terminal i status outcome_id failure_code s) =
     map_option (\<lambda>r. r\<lparr>jr_status := status, jr_outcome_id := outcome_id, jr_failure_code := failure_code\<rparr>) (get_journal i s)"
proof -
  let ?f = "\<lambda>r. if jr_execution_id r = i
      then r\<lparr>jr_status := status, jr_outcome_id := outcome_id, jr_failure_code := failure_code\<rparr> else r"
  have "get_journal i (update_journal_terminal i status outcome_id failure_code s) = map_option ?f (get_journal i s)"
    by (simp add: get_journal_def update_journal_terminal_def find_map_update)
  then show ?thesis by (cases "get_journal i s") (auto simp: get_journal_def dest: find_Some)
qed

lemma get_journal_id: "get_journal i s = Some row \<Longrightarrow> jr_execution_id row = i"
  by (auto simp: get_journal_def dest: find_Some)

lemma get_journal_same: "st_journal t = st_journal s \<Longrightarrow> get_journal i t = get_journal i s"
  by (simp add: get_journal_def)

lemma update_events [simp]: "st_events (update_journal_terminal i st oid f s) = st_events s"
  by (simp add: update_journal_terminal_def)

lemma update_more [simp]:
  "st_snapshots (update_journal_terminal i st oid f s) = st_snapshots s"
  "st_checkpoints (update_journal_terminal i st oid f s) = st_checkpoints s"
  by (simp_all add: update_journal_terminal_def)

text \<open>The row of an execution that is prepared for exactly this request.\<close>

definition row_prepared :: "hash_env \<Rightarrow> manipulation_request \<Rightarrow> journal_row \<Rightarrow> bool" where
  "row_prepared E request row \<longleftrightarrow> jr_execution_id row = mr_execution_id request \<and> jr_status row = STATUS_PREPARED
     \<and> jr_canonical_payload_hash row = canonical_payload_hash E request"

lemma find_snoc: "List.find P (xs @ [x]) = (case List.find P xs of None \<Rightarrow> if P x then Some x else None | Some y \<Rightarrow> Some y)"
  by (induction xs) auto

lemma get_journal_insert:
  "get_journal i s = None \<Longrightarrow> insert_journal_prepared r s = Inr t \<Longrightarrow> jr_execution_id r = i \<Longrightarrow> get_journal i t = Some r"
  by (auto simp: insert_journal_prepared_def get_journal_def find_snoc split: if_splits option.splits)

lemma prepared_row_prepared: "row_prepared E request (prepared_row E request tick txn)"
  by (simp add: row_prepared_def prepared_row_def)

lemma prepare_execution_cases:
  assumes "prepare_execution E fresh request prepared_tick transaction_id s = (r, t)"
  obtains (refused) e where "r = Inl e" "t = s"
  | (prepared) row where "r = Inr (prepared_from_row row)" "get_journal (mr_execution_id request) t = Some row"
      "row_prepared E request row" "st_events t = st_events s"
proof (cases "get_journal (mr_execution_id request) s")
  case (Some row)
  then have "(\<exists>e. r = Inl e \<and> t = s) \<or> r = Inr (prepared_from_row row) \<and> row_prepared E request row \<and> t = s"
    using assms get_journal_id [OF Some] by (auto simp: prepare_execution_def Let_def row_prepared_def split: if_splits)
  then show ?thesis using refused prepared Some by blast
next
  case None
  let ?row = "prepared_row E request prepared_tick (or_fresh transaction_id fresh)"
  show ?thesis
  proof (cases "insert_journal_prepared ?row s")
    case (Inl e)
    then show ?thesis
      using assms None by (auto simp: prepare_execution_def Let_def intro!: refused split: option.splits if_splits)
  next
    case (Inr u)
    have g: "get_journal (mr_execution_id request) u = Some ?row"
      by (rule get_journal_insert [OF None Inr]) (simp add: prepared_row_def)
    have "st_events u = st_events s" using Inr by (auto simp: insert_journal_prepared_def split: if_splits)
    moreover have "(\<exists>e. r = Inl e \<and> t = s) \<or> r = Inr (prepared_from_row ?row) \<and> t = u"
      using assms None Inr g by (auto simp: prepare_execution_def Let_def split: option.splits if_splits)
    ultimately show ?thesis using refused prepared [of ?row] g prepared_row_prepared by blast
  qed
qed

text \<open>A failure, committed or not, leaves habitat and physiology alone.\<close>

definition same_body :: "commit_world \<Rightarrow> commit_world \<Rightarrow> bool" where
  "same_body w w' \<longleftrightarrow> cw_engine w' = cw_engine w \<and> cw_physiology w' = cw_physiology w"

lemma commit_failure_cases:
  assumes "commit_failure E ids args request applied prepared code w = (r, w')"
  obtains (rolled_back) e where "r = Inl e" "same_body w w'" "cw_store w' = cw_store w"
  | (committed) c row where "r = Inr c" "same_body w w'" "mc_journal_status c = STATUS_COMMITTED_FAILURE"
      "\<not> mc_idempotent_replay c" "mc_failure_code c = Some code"
      "st_events (cw_store w') = st_events (cw_store w) @ [row]"
      "get_journal (pe_execution_id prepared) (cw_store w') = map_option (\<lambda>q. q\<lparr>jr_status := STATUS_COMMITTED_FAILURE,
         jr_outcome_id := Some (ids 0), jr_failure_code := Some code\<rparr>) (get_journal (pe_execution_id prepared) (cw_store w))"
proof -
  obtain outcome gv where v: "verify_manipulation_outcome (ids 0) request False (Some code) [] applied
      (pe_transaction_id prepared) (cw_governance w) = (outcome, gv)"
    by fastforce
  then have oid: "vo_outcome_id outcome = ids 0" by (auto simp: verify_manipulation_outcome_def)
  let ?stages = "[journal_stage (pe_execution_id prepared) STATUS_COMMITTED_FAILURE (Some (vo_outcome_id outcome)) (Some code),
      append_row E (ids 1) (outcome_event args request outcome code)]"
  obtain q t where a: "atomic_outcome (ca_crash_after_stage args) ?stages (cw_store w) = (q, t)" by fastforce
  from a show ?thesis
  proof (cases rule: atomic_outcome_cases)
    case (rolled_back e)
    then show ?thesis
      using assms v a by (intro that(1)) (auto simp: commit_failure_def same_body_def)
  next
    case committed
    let ?u = "update_journal_terminal (pe_execution_id prepared) STATUS_COMMITTED_FAILURE (Some (ids 0)) (Some code) (cw_store w)"
    have "append_row E (ids 1) (outcome_event args request outcome code) ?u = Inr t"
      using committed(2) oid by (auto simp: journal_stage_def andThen_eq_Inr split: if_splits)
    note t = append_row_effect [OF this, THEN conjunct1] append_row_effect [OF this, THEN conjunct2, THEN get_journal_same]
    show ?thesis
      using assms v a committed(1) t(1)
      by (intro that(2)) (auto simp: commit_failure_def same_body_def get_journal_update t(2))
  qed
qed

text \<open>What a committed success has done: the planned state in the engine, the outcome in the physiology, every event of the plan
  in the ledger with the outcome last, and the journal row closed with that outcome.\<close>

definition success_committed ::
  "hash_env \<Rightarrow> (nat \<Rightarrow> nat \<Rightarrow> string) \<Rightarrow> manipulation_request \<Rightarrow> habitat_effect_plan \<Rightarrow> commit_world \<Rightarrow> commit_result
    \<Rightarrow> commit_world \<Rightarrow> bool" where
  "success_committed E event_ids request plan w c w' \<longleftrightarrow>
     mc_journal_status c = STATUS_COMMITTED_SUCCESS \<and> \<not> mc_idempotent_replay c
     \<and> (\<exists>transaction_id after events outcome rows row.
          apply_effect_plan E event_ids (he_state (cw_engine w)) plan (plan_envelope transaction_id request) = Inr (after, events)
          \<and> cw_engine w' = rebuild_indexes ((cw_engine w)\<lparr>he_state := after\<rparr>)
          \<and> mc_outcome c = Some outcome \<and> vo_success outcome \<and> cw_physiology w' = apply_physiology outcome (cw_physiology w)
          \<and> st_events (cw_store w') = st_events (cw_store w) @ rows
          \<and> length rows = length events + (if hp_requested_organism_effects plan = [] then 0 else 1) + 1
          \<and> get_journal (mr_execution_id request) (cw_store w') = Some row \<and> jr_status row = STATUS_COMMITTED_SUCCESS
          \<and> jr_outcome_id row = Some (vo_outcome_id outcome))"

definition failure_committed :: "manipulation_request \<Rightarrow> commit_world \<Rightarrow> commit_result \<Rightarrow> commit_world \<Rightarrow> bool" where
  "failure_committed request w c w' \<longleftrightarrow>
     mc_journal_status c = STATUS_COMMITTED_FAILURE \<and> \<not> mc_idempotent_replay c \<and> same_body w w'
     \<and> (\<exists>event row. st_events (cw_store w') = st_events (cw_store w) @ [event]
          \<and> get_journal (mr_execution_id request) (cw_store w') = Some row \<and> jr_status row = STATUS_COMMITTED_FAILURE)"

lemma commit_failure_spec:
  assumes "commit_failure E ids args request applied (prepared_from_row row) code w = (r, w')"
    and "get_journal (mr_execution_id request) (cw_store w) = Some row" and "row_prepared E request row"
  shows "case r of Inl e \<Rightarrow> same_body w w' \<and> cw_store w' = cw_store w | Inr c \<Rightarrow> failure_committed request w c w'"
  using assms(1)
proof (cases rule: commit_failure_cases)
  case (committed c event)
  then show ?thesis
    using assms(2,3) by (simp add: failure_committed_def prepared_from_row_def row_prepared_def)
qed simp

lemma run_stages_4:
  assumes "run_stages 1 crash [f, g, h, j] s = Inr t"
  obtains u v x where "f s = Inr u" "g u = Inr v" "h v = Inr x" "j x = Inr t"
  using assms by (auto simp: andThen_eq_Inr split: if_splits)

lemma commit_success_spec:
  assumes "commit_success E ids event_ids args request plan (prepared_from_row row) w = (r, w')"
    and row: "get_journal (mr_execution_id request) (cw_store w) = Some row" "row_prepared E request row"
  shows "case r of Inl e \<Rightarrow> same_body w w' \<and> cw_store w' = cw_store w
    | Inr c \<Rightarrow> failure_committed request w c w' \<or> success_committed E event_ids request plan w c w'"
proof (cases "apply_effect_plan E event_ids (he_state (cw_engine w)) plan
    (plan_envelope (pe_transaction_id (prepared_from_row row)) request)")
  case (Inl e)
  then show ?thesis
    using assms(1) commit_failure_spec [OF _ row]
    by (cases e) (fastforce simp: commit_success_def same_body_def split: sum.splits)+
next
  case plan: (Inr p)
  obtain after events where p: "p = (after, events)" by fastforce
  show ?thesis
  proof (cases "organism_effects_to_physiology (hp_requested_organism_effects plan)")
    case (Inl e)
    then show ?thesis using assms(1) plan p by (auto simp: commit_success_def same_body_def)
  next
    case effects: (Inr phys_effects)
    obtain outcome gv where v: "verify_manipulation_outcome (ids 2) request True None phys_effects None
        (pe_transaction_id (prepared_from_row row)) (cw_governance w) = (outcome, gv)" by fastforce
    then have succ: "vo_success outcome" by (auto simp: verify_manipulation_outcome_def)
    let ?stages = "[\<lambda>t. foldE (\<lambda>u event. habitat_event_stage E args event u) t events,
        organism_effects_stage E (ids 3) args request (hp_requested_organism_effects plan),
        append_row E (ids 4) (outcome_event args request outcome ''manipulation_committed''),
        journal_stage (pe_execution_id (prepared_from_row row)) STATUS_COMMITTED_SUCCESS (Some (vo_outcome_id outcome)) None]"
    obtain q t where a: "atomic_outcome (ca_crash_after_stage args) ?stages (cw_store w) = (q, t)" by fastforce
    let ?w = "w\<lparr>cw_store := t, cw_governance := gv\<rparr>"
    from a show ?thesis
    proof (cases rule: atomic_outcome_cases)
      case (rolled_back e)
      have same: "same_body w ?w" "cw_store ?w = cw_store w" using rolled_back by (simp_all add: same_body_def)
      have "(r, w') = (Inl e, ?w)
        \<or> (r, w') = commit_failure E ids args request None (prepared_from_row row) EVENT_STORAGE_BUDGET_EXCEEDED ?w"
        using assms(1) plan p effects v a rolled_back(1)
        by (cases e) (auto simp: commit_success_def Let_def split: if_splits)
      then show ?thesis
      proof
        assume "(r, w') = (Inl e, ?w)"
        then show ?thesis using same by simp
      next
        assume "(r, w') = commit_failure E ids args request None (prepared_from_row row) EVENT_STORAGE_BUDGET_EXCEEDED ?w"
        from commit_failure_spec [OF this [symmetric]] show ?thesis
          using row same rolled_back(2) by (auto simp: failure_committed_def same_body_def split: sum.splits)
      qed
    next
      case committed
      from committed(2) obtain a b c where s: "foldE (\<lambda>u event. habitat_event_stage E args event u) (cw_store w) events = Inr a"
        "organism_effects_stage E (ids 3) args request (hp_requested_organism_effects plan) a = Inr b"
        "append_row E (ids 4) (outcome_event args request outcome ''manipulation_committed'') b = Inr c"
        "journal_stage (pe_execution_id (prepared_from_row row)) STATUS_COMMITTED_SUCCESS (Some (vo_outcome_id outcome)) None c = Inr t"
        by (rule run_stages_4)
      obtain rows1 rows2 where rows: "st_events c = st_events (cw_store w) @ rows1 @ rows2 @
          [new_row E (ids 4) (outcome_event args request outcome ''manipulation_committed'') b]"
        "length rows1 = length events" "length rows2 = (if hp_requested_organism_effects plan = [] then 0 else 1)"
        using habitat_stage_effect [OF s(1)] organism_stage_effect [OF s(2)] append_row_effect [OF s(3)] by auto
      have same: "st_journal c = st_journal (cw_store w)"
        using habitat_stage_effect [OF s(1)] organism_stage_effect [OF s(2)] append_row_effect [OF s(3)] by simp
      have t: "t = update_journal_terminal (mr_execution_id request) STATUS_COMMITTED_SUCCESS (Some (vo_outcome_id outcome)) None c"
        using s(4) row by (simp add: journal_stage_def prepared_from_row_def row_prepared_def)
      have g: "get_journal (mr_execution_id request) t = Some (row\<lparr>jr_status := STATUS_COMMITTED_SUCCESS,
          jr_outcome_id := Some (vo_outcome_id outcome), jr_failure_code := None\<rparr>)"
        using row(1) by (simp add: t get_journal_update get_journal_same [OF same])
      have r: "r = Inr \<lparr>mc_execution_id = mr_execution_id request, mc_request_id = mr_request_id request,
            mc_journal_status = STATUS_COMMITTED_SUCCESS, mc_outcome = Some outcome, mc_failure_code = None,
            mc_idempotent_replay = False\<rparr>"
        "w' = ?w\<lparr>cw_engine := rebuild_indexes ((cw_engine w)\<lparr>he_state := after\<rparr>),
          cw_physiology := apply_physiology outcome (cw_physiology w)\<rparr>"
        using assms(1) plan p effects v a committed(1) by (simp_all add: commit_success_def catch_up_def)
      have "st_events t = st_events (cw_store w) @ (rows1 @ rows2 @
          [new_row E (ids 4) (outcome_event args request outcome ''manipulation_committed'') b])"
        using rows(1) t by simp
      then show ?thesis
        using plan p succ rows(2,3) g
        unfolding r success_committed_def
        by (intro disjI2 sum.case(2) [THEN iffD2]) (auto intro!: exI)
    qed
  qed
qed

section \<open>All or nothing\<close>

text \<open>A catch-up that raises has changed nothing; one that changes something has read the outcome.\<close>

lemma rehydrate_cases:
  assumes "maybe_rehydrate_committed_success E ids agent_id request validation row s w = (r, w')"
  shows "(\<exists>e. r = Inl e) \<and> w' = w \<or> r = Inr () \<and> (w' = w \<or> (\<exists>i v. present (jr_outcome_id row) = Some i
    \<and> get_verified_outcome_by_id i agent_id s = Inr (Some v)))"
proof (cases "present (jr_outcome_id row)")
  case None
  then show ?thesis using assms by (simp add: maybe_rehydrate_committed_success_def)
next
  case (Some i)
  show ?thesis
  proof (cases "get_verified_outcome_by_id i agent_id s")
    case (Inl e)
    then show ?thesis using assms Some by (auto simp: maybe_rehydrate_committed_success_def)
  next
    case (Inr v)
    then show ?thesis
      using assms Some
      by (cases v) (auto simp: maybe_rehydrate_committed_success_def Let_def split: if_splits sum.splits option.splits)
  qed
qed

definition replay_answer :: "commit_world \<Rightarrow> commit_result \<Rightarrow> commit_world \<Rightarrow> bool" where
  "replay_answer w c w' \<longleftrightarrow> mc_idempotent_replay c \<and> journal_terminal (mc_journal_status c)
     \<and> st_events (cw_store w') = st_events (cw_store w)"

lemma catch_up_world_cases:
  assumes "catch_up_world E ids args request validation row w = (r, w')"
  shows "cw_store w' = cw_store w \<and> cw_governance w' = cw_governance w
    \<and> (\<forall>e. r = Inl e \<longrightarrow> same_body w w')
    \<and> (r = Inr () \<longrightarrow> same_body w w' \<or> (\<exists>i v. present (jr_outcome_id row) = Some i
         \<and> get_verified_outcome_by_id i (ca_agent_id args) (cw_store w) = Inr (Some v)))"
proof (cases "jr_status row = STATUS_COMMITTED_SUCCESS")
  case True
  obtain q engine phys where m: "maybe_rehydrate_committed_success E ids (ca_agent_id args) request validation row (cw_store w)
      (cw_engine w, cw_physiology w) = (q, engine, phys)"
    by (metis prod_cases3)
  show ?thesis
    using assms True m rehydrate_cases [OF m] by (auto simp: catch_up_world_def same_body_def)
next
  case False
  then show ?thesis using assms by (auto simp: catch_up_world_def same_body_def)
qed

lemma terminal_result_fields:
  "terminal_result_from_row agent_id idem row s = Inr c \<Longrightarrow>
     mc_journal_status c = jr_status row \<and> mc_idempotent_replay c = idem"
  by (auto simp: terminal_result_from_row_def andThen_eq_Inr)

lemma terminal_result_reads:
  "present (jr_outcome_id row) = Some i \<Longrightarrow> get_verified_outcome_by_id i agent_id s = Inr (Some v)
   \<Longrightarrow> \<exists>c. terminal_result_from_row agent_id idem row s = Inr c"
  by (simp add: terminal_result_from_row_def)

lemma replay_committed_spec:
  assumes "replay_committed E ids args request validation row w = (r, w')" and "journal_terminal (jr_status row)"
  shows "case r of Inl e \<Rightarrow> same_body w w' \<and> cw_store w' = cw_store w | Inr c \<Rightarrow> replay_answer w c w'"
proof -
  obtain q u where c: "catch_up_world E ids args request validation row w = (q, u)" by fastforce
  note facts = catch_up_world_cases [OF c]
  show ?thesis
  proof (cases q)
    case (Inl e)
    then show ?thesis using assms(1) c facts by (auto simp: replay_committed_def)
  next
    case (Inr x)
    then have e: "r = terminal_result_from_row (ca_agent_id args) True row (cw_store w)" "w' = u"
      using assms(1) c facts by (auto simp: replay_committed_def)
    show ?thesis
    proof (cases "terminal_result_from_row (ca_agent_id args) True row (cw_store w)")
      case (Inl e')
      have "\<not> (\<exists>i v. present (jr_outcome_id row) = Some i \<and> get_verified_outcome_by_id i (ca_agent_id args) (cw_store w) = Inr (Some v))"
        using Inl by (auto dest: terminal_result_reads [where idem = True])
      then have "same_body w u" using facts Inr by auto
      then show ?thesis using e Inl facts by simp
    next
      case (Inr c)
      then show ?thesis using e facts assms(2) terminal_result_fields [OF Inr] by (simp add: replay_answer_def)
    qed
  qed
qed

lemma recover_execution_cases:
  assumes "recover_execution agent_id i s = (r, t)"
  shows "st_events t = st_events s \<and> ((\<exists>e. r = Inl e) \<or> r = Inr None \<and> t = s
    \<or> (\<exists>c. r = Inr (Some c) \<and> (mc_journal_status c = STATUS_PREPARED \<and> t = s
        \<or> (\<exists>row. get_journal i t = Some row \<and> journal_terminal (jr_status row) \<and> \<not> mc_idempotent_replay c
             \<and> terminal_result_from_row agent_id False row t = Inr c))))"
proof (cases "get_journal i s")
  case None
  then show ?thesis using assms by (simp add: recover_execution_def)
next
  case (Some row)
  consider (terminal) "journal_terminal (jr_status row)"
    | (other) "\<not> journal_terminal (jr_status row)" "jr_status row \<noteq> STATUS_PREPARED"
    | (prepared) "\<not> journal_terminal (jr_status row)" "jr_status row = STATUS_PREPARED"
    by blast
  then show ?thesis
  proof cases
    case terminal
    then show ?thesis
      using assms Some terminal_result_fields [of agent_id False row s]
      by (cases "terminal_result_from_row agent_id False row s") (auto simp: recover_execution_def)
  next
    case other
    then show ?thesis using assms Some by (simp add: recover_execution_def)
  next
    case prepared
    show ?thesis
    proof (cases "find_commit_evidence i (jr_transaction_id row) agent_id s")
      case (Inl e)
      then show ?thesis using assms Some prepared by (auto simp: recover_execution_def)
    next
      case (Inr evidence)
      show ?thesis
      proof (cases evidence)
        case None
        then show ?thesis using assms Some prepared Inr by (auto simp: recover_execution_def)
      next
        case (Some ev)
        let ?t = "update_journal_terminal i (ce_status ev) (ce_outcome_id ev) (ce_failure_code ev) s"
        let ?row = "row\<lparr>jr_status := ce_status ev, jr_outcome_id := ce_outcome_id ev, jr_failure_code := ce_failure_code ev\<rparr>"
        have "journal_terminal (ce_status ev)"
          using Inr Some by (auto simp: find_commit_evidence_def andThen_eq_Inr journal_terminal_def journal_statuses split: option.splits if_splits)
        moreover have "get_journal i ?t = Some ?row" using \<open>get_journal i s = Some row\<close> by (simp add: get_journal_update)
        ultimately show ?thesis
          using assms \<open>get_journal i s = Some row\<close> prepared Inr Some terminal_result_fields [of agent_id False ?row ?t]
          by (cases "terminal_result_from_row agent_id False ?row ?t") (auto simp: recover_execution_def)
      qed
    qed
  qed
qed

text \<open>What a call leaves behind, by how it ends.\<close>

definition commit_effect ::
  "hash_env \<Rightarrow> (nat \<Rightarrow> nat \<Rightarrow> string) \<Rightarrow> manipulation_request \<Rightarrow> affordance_validation \<Rightarrow> commit_world
    \<Rightarrow> commit_result res \<times> commit_world \<Rightarrow> bool" where
  "commit_effect E event_ids request validation w = (\<lambda>(r, w').
     case r of
       Inl e \<Rightarrow> same_body w w' \<and> st_events (cw_store w') = st_events (cw_store w)
     | Inr c \<Rightarrow> replay_answer w c w' \<or> failure_committed request w c w'
         \<or> vr_allowed validation \<and> (\<exists>plan. vr_effect_plan validation = Some plan
              \<and> success_committed E event_ids request plan w c w'))"

lemma commit_effect_Inl:
  "same_body w w' \<Longrightarrow> st_events (cw_store w') = st_events (cw_store w) \<Longrightarrow> commit_effect E ids request validation w (Inl e, w')"
  by (simp add: commit_effect_def)

lemma commit_effect_from:
  assumes "commit_effect E ids request validation w1 x" "same_body w w1" "st_events (cw_store w1) = st_events (cw_store w)"
  shows "commit_effect E ids request validation w x"
  using assms
  by (cases x; cases "fst x")
    (auto simp: commit_effect_def same_body_def replay_answer_def failure_committed_def success_committed_def)

lemma commit_prepared_effect:
  assumes "get_journal (mr_execution_id request) (cw_store w) = Some row" and "row_prepared E request row"
  shows "commit_effect E event_ids request validation w
    (commit_prepared E ids event_ids args request validation (prepared_from_row row) w)"
proof -
  have row: "\<not> journal_terminal (jr_status row)" "jr_canonical_payload_hash row = canonical_payload_hash E request"
    using assms(2) by (auto simp: row_prepared_def journal_terminal_def journal_statuses)
  obtain q s where rec: "recover_execution (ca_agent_id args) (mr_execution_id request) (cw_store w) = (q, s)" by fastforce
  note facts = recover_execution_cases [OF rec]
  let ?w = "w\<lparr>cw_store := s\<rparr>"
  have same: "same_body w ?w" "st_events (cw_store ?w) = st_events (cw_store w)" using facts by (simp_all add: same_body_def)
  show ?thesis
  proof (cases q)
    case (Inl e)
    then show ?thesis using assms(1) row rec same by (simp add: commit_prepared_def Let_def commit_effect_Inl)
  next
    case q: (Inr recovery)
    show ?thesis
    proof (cases "\<exists>c. recovery = Some c \<and> journal_terminal (mc_journal_status c)")
      case True
      then obtain c row' where c: "recovery = Some c" "journal_terminal (mc_journal_status c)"
        "get_journal (mr_execution_id request) s = Some row'"
        "terminal_result_from_row (ca_agent_id args) False row' s = Inr c"
        using facts q by (auto simp: journal_terminal_def journal_statuses)
      obtain r engine phys where m: "maybe_rehydrate_committed_success E event_ids (ca_agent_id args) request validation row' s
          (cw_engine w, cw_physiology w) = (r, engine, phys)"
        by (metis prod_cases3)
      have "replay_answer ?w (c\<lparr>mc_idempotent_replay := True\<rparr>) (?w\<lparr>cw_engine := engine, cw_physiology := phys\<rparr>)"
        "replay_answer ?w (c\<lparr>mc_idempotent_replay := True\<rparr>) ?w"
        using c(2) by (simp_all add: replay_answer_def)
      then have "commit_effect E event_ids request validation ?w
          (commit_prepared E ids event_ids args request validation (prepared_from_row row) w)"
        using assms(1) row rec q c m rehydrate_cases [OF m]
        by (auto simp: commit_prepared_def Let_def commit_effect_def same_body_def split: sum.splits)
      then show ?thesis using same by (rule commit_effect_from)
    next
      case False
      have kept: "get_journal (mr_execution_id request) s = Some row"
        using False facts q assms(1) terminal_result_fields by fastforce
      have none: "(case recovery of Some c \<Rightarrow> if journal_terminal (mc_journal_status c) then Some c else None | None \<Rightarrow> None) = None"
        using False by (cases recovery) auto
      have e: "commit_prepared E ids event_ids args request validation (prepared_from_row row) w =
          (if \<not> vr_allowed validation
           then commit_failure E ids args request (vr_applied_parameters validation) (prepared_from_row row)
             (str_or (vr_failure_code validation) ''AFFORDANCE_PRECONDITION_FAILED'') ?w
           else (case vr_effect_plan validation of
               None \<Rightarrow> (Inl (AssertionError ''effect_plan_is_not_None''), ?w)
             | Some plan \<Rightarrow> commit_success E ids event_ids args request plan (prepared_from_row row) ?w))"
        using assms(1) row rec q none by (simp add: commit_prepared_def Let_def)
      have "commit_effect E event_ids request validation ?w
          (commit_prepared E ids event_ids args request validation (prepared_from_row row) w)"
      proof (cases "vr_allowed validation")
        case True
        then show ?thesis
        proof (cases "vr_effect_plan validation")
          case (Some plan)
          obtain r w' where r: "commit_success E ids event_ids args request plan (prepared_from_row row) ?w = (r, w')" by fastforce
          from commit_success_spec [OF r _ assms(2)] kept show ?thesis
            using True Some r unfolding e by (auto simp: commit_effect_def split: sum.splits)
        qed (simp add: e commit_effect_def same_body_def)
      next
        case False
        obtain r w' where r: "commit_failure E ids args request (vr_applied_parameters validation) (prepared_from_row row)
            (str_or (vr_failure_code validation) ''AFFORDANCE_PRECONDITION_FAILED'') ?w = (r, w')" by fastforce
        from commit_failure_spec [OF r _ assms(2)] kept show ?thesis
          using False r unfolding e by (auto simp: commit_effect_def split: sum.splits)
      qed
      then show ?thesis using same by (rule commit_effect_from)
    qed
  qed
qed

text \<open>C27: a manipulation commits as a whole or not at all. However a call ends, with or without an injected crash: if it raises,
  neither habitat nor physiology nor the events of the ledger have changed; if it reports a failure, habitat and physiology
  are unchanged and the failure is one event and a closed journal row; if it reports a fresh success, the planned state, the
  physiological effects, all the plan's events and the closed journal row are there together; and a replayed answer appends
  no event (it may bring a stale habitat and body up to the recorded success: see C29).\<close>

theorem manipulation_commits_atomically:
  "commit_effect E event_ids request validation w
     (commit_manipulation_transaction E ids event_ids args request validation w)"
proof -
  obtain q s where p: "prepare_execution E (ids 5) request (ca_prepared_tick args) (ca_transaction_id args) (cw_store w) = (q, s)"
    by fastforce
  have prepare: "commit_effect E event_ids request validation w
      (case prepare_execution E (ids 5) request (ca_prepared_tick args) (ca_transaction_id args) (cw_store w) of
         (Inl e, s) \<Rightarrow> (Inl e, w\<lparr>cw_store := s\<rparr>)
       | (Inr prepared, s) \<Rightarrow> commit_prepared E ids event_ids args request validation prepared (w\<lparr>cw_store := s\<rparr>))"
    using p
  proof (cases rule: prepare_execution_cases)
    case (refused e)
    then show ?thesis using p by (simp add: commit_effect_def same_body_def)
  next
    case (prepared row)
    have "commit_effect E event_ids request validation (w\<lparr>cw_store := s\<rparr>)
        (commit_prepared E ids event_ids args request validation (prepared_from_row row) (w\<lparr>cw_store := s\<rparr>))"
      using prepared by (intro commit_prepared_effect) simp_all
    from commit_effect_from [OF this] show ?thesis using p prepared by (simp add: same_body_def)
  qed
  show ?thesis
  proof (cases "get_journal (mr_execution_id request) (cw_store w)")
    case None
    then show ?thesis using prepare by (simp add: commit_manipulation_transaction_def)
  next
    case (Some row)
    show ?thesis
    proof (cases "jr_canonical_payload_hash row = canonical_payload_hash E request \<and> journal_terminal (jr_status row)")
      case True
      obtain r w' where r: "replay_committed E event_ids args request validation row w = (r, w')" by fastforce
      from replay_committed_spec [OF r] True show ?thesis
        using Some r by (auto simp: commit_manipulation_transaction_def commit_effect_def split: sum.splits)
    next
      case False
      then show ?thesis
        using Some prepare by (auto simp: commit_manipulation_transaction_def commit_effect_def same_body_def)
    qed
  qed
qed

section \<open>Retrying a call that raised\<close>

text \<open>What a call leaves but for the counters of governance.\<close>

definition outside_governance :: "'a \<times> commit_world \<Rightarrow> 'a \<times> store \<times> habitat_engine \<times> physiology" where
  "outside_governance = (\<lambda>(r, w). (r, cw_store w, cw_engine w, cw_physiology w))"

lemma outside_governance_pair [simp]: "outside_governance (r, w) = (r, cw_store w, cw_engine w, cw_physiology w)"
  by (simp add: outside_governance_def)

lemma commit_failure_governance:
  "outside_governance (commit_failure E ids args request applied prepared code (w\<lparr>cw_governance := g\<rparr>))
   = outside_governance (commit_failure E ids args request applied prepared code w)"
  by (simp add: commit_failure_def verify_manipulation_outcome_def Let_def
      split: prod.splits sum.splits)

lemma commit_success_governance:
  "outside_governance (commit_success E ids event_ids args request plan prepared (w\<lparr>cw_governance := g\<rparr>))
   = outside_governance (commit_success E ids event_ids args request plan prepared w)"
proof -
  have "outside_governance (commit_failure E ids args request applied prepared code (w\<lparr>cw_store := s, cw_governance := g1\<rparr>))
      = outside_governance (commit_failure E ids args request applied prepared code (w\<lparr>cw_store := s, cw_governance := g2\<rparr>))"
    for s g1 g2 applied code
    using commit_failure_governance [where w = "w\<lparr>cw_store := s\<rparr>"] by simp
  then show ?thesis
    by (auto simp: commit_success_def verify_manipulation_outcome_def commit_failure_governance Let_def catch_up_def split: prod.splits sum.splits exn.splits)
qed

lemma store_kept [simp]: "w\<lparr>cw_store := cw_store w\<rparr> = w"
  by simp

lemma store_first [simp]: "w\<lparr>cw_governance := g, cw_store := t\<rparr> = w\<lparr>cw_store := t, cw_governance := g\<rparr>"
  by (cases w) simp

lemma transaction_args:
  "habitat_event_stage E (args\<lparr>ca_transaction_id := x\<rparr>) = habitat_event_stage E args"
  "organism_effects_stage E f (args\<lparr>ca_transaction_id := x\<rparr>) = organism_effects_stage E f args"
  "outcome_event (args\<lparr>ca_transaction_id := x\<rparr>) = outcome_event args"
  "ca_crash_after_stage (args\<lparr>ca_transaction_id := x\<rparr>) = ca_crash_after_stage args"
  by (simp_all add: habitat_event_stage_def organism_effects_stage_def outcome_event_def fun_eq_iff)

lemma commit_failure_args:
  "commit_failure E ids (args\<lparr>ca_transaction_id := x\<rparr>) request applied prepared code w
   = commit_failure E ids args request applied prepared code w"
  by (simp add: commit_failure_def transaction_args)

lemma commit_success_args:
  "commit_success E ids event_ids (args\<lparr>ca_transaction_id := x\<rparr>) request plan prepared w
   = commit_success E ids event_ids args request plan prepared w"
  unfolding commit_success_def transaction_args commit_failure_args ..

text \<open>No event of the ledger speaks of the execution, and the journal has no row for it.\<close>

definition execution_unseen :: "string \<Rightarrow> store \<Rightarrow> bool" where
  "execution_unseen i s \<longleftrightarrow> get_journal i s = None
     \<and> list_all (\<lambda>r. get_or (er_payload r) ''execution_id'' VNone \<noteq> Inr (VStr i)) (st_events s)"

lemma no_evidence:
  assumes "list_all (\<lambda>r. get_or (er_payload r) ''execution_id'' VNone \<noteq> Inr (VStr i)) (st_events s)"
  shows "find_commit_evidence i transaction_id agent_id s = Inr None"
proof -
  have "List.find (\<lambda>r. matches_execution i transaction_id (er_payload r))
      (rev (filter (\<lambda>r. er_agent_id r = agent_id \<and> er_event_type r = ''outcome_verified'') (ordered_events s))) = None"
    using assms by (auto simp: find_None_iff matches_execution_def ordered_events_def list_all_iff)
  then show ?thesis by (simp add: find_commit_evidence_def)
qed

lemma commit_prepared_unseen:
  assumes "get_journal (mr_execution_id request) (cw_store w) = Some row" and "row_prepared E request row"
    and "list_all (\<lambda>r. get_or (er_payload r) ''execution_id'' VNone \<noteq> Inr (VStr (mr_execution_id request))) (st_events (cw_store w))"
  shows "commit_prepared E ids event_ids args request validation (prepared_from_row row) w =
    (if \<not> vr_allowed validation
     then commit_failure E ids args request (vr_applied_parameters validation) (prepared_from_row row)
       (str_or (vr_failure_code validation) ''AFFORDANCE_PRECONDITION_FAILED'') w
     else (case vr_effect_plan validation of
         None \<Rightarrow> (Inl (AssertionError ''effect_plan_is_not_None''), w)
       | Some plan \<Rightarrow> commit_success E ids event_ids args request plan (prepared_from_row row) w))"
  using assms(1,2) no_evidence [OF assms(3)]
  by (simp add: commit_prepared_def recover_execution_def row_prepared_def journal_terminal_def journal_statuses Let_def
      split: option.split)

lemma commit_prepared_unseen_spec:
  assumes "get_journal (mr_execution_id request) (cw_store w) = Some row" and "row_prepared E request row"
    and "list_all (\<lambda>r. get_or (er_payload r) ''execution_id'' VNone \<noteq> Inr (VStr (mr_execution_id request))) (st_events (cw_store w))"
  shows "outside_governance (commit_prepared E ids event_ids args request validation (prepared_from_row row) (w\<lparr>cw_governance := g\<rparr>))
      = outside_governance (commit_prepared E ids event_ids args request validation (prepared_from_row row) w)"
    and "commit_prepared E ids event_ids args request validation (prepared_from_row row) w = (Inl e, w')
      \<Longrightarrow> same_body w w' \<and> cw_store w' = cw_store w"
proof -
  have g: "get_journal (mr_execution_id request) (cw_store (w\<lparr>cw_governance := g\<rparr>)) = Some row"
    "list_all (\<lambda>r. get_or (er_payload r) ''execution_id'' VNone \<noteq> Inr (VStr (mr_execution_id request)))
       (st_events (cw_store (w\<lparr>cw_governance := g\<rparr>)))"
    using assms by simp_all
  show "outside_governance (commit_prepared E ids event_ids args request validation (prepared_from_row row) (w\<lparr>cw_governance := g\<rparr>))
      = outside_governance (commit_prepared E ids event_ids args request validation (prepared_from_row row) w)"
    unfolding commit_prepared_unseen [OF assms] commit_prepared_unseen [OF g(1) assms(2) g(2)]
    by (simp add: commit_failure_governance commit_success_governance split: option.split)
  assume r: "commit_prepared E ids event_ids args request validation (prepared_from_row row) w = (Inl e, w')"
  show "same_body w w' \<and> cw_store w' = cw_store w"
    using r commit_failure_spec [OF _ assms(1,2)] commit_success_spec [OF _ assms(1,2)]
    unfolding commit_prepared_unseen [OF assms]
    by (fastforce simp: same_body_def split: if_splits option.splits)
qed

lemma prepare_unseen:
  assumes "get_journal (mr_execution_id request) s = None"
  shows "(\<exists>e. \<forall>f x. prepare_execution E f request n x s = (Inl e, s))
    \<or> (\<forall>f x. \<exists>t. let row = prepared_row E request n (or_fresh x f) in
         prepare_execution E f request n x s = (Inr (prepared_from_row row), t)
         \<and> t = s\<lparr>st_journal := st_journal s @ [row]\<rparr> \<and> get_journal (mr_execution_id request) t = Some row)"
proof -
  define check where "check = (case get_journal_by_request (mr_request_id request) s of
       None \<Rightarrow> Inr ()
     | Some row \<Rightarrow>
         if jr_canonical_payload_hash row \<noteq> canonical_payload_hash E request
         then Inl (ExecutionJournalError EXECUTION_PAYLOAD_MISMATCH)
         else if jr_status row = STATUS_PREPARED \<and> jr_execution_id row \<noteq> mr_execution_id request
         then Inl (ExecutionJournalError ''prepared_request_in_flight'') else Inr ())"
  have e: "prepare_execution E f request n x s =
      (case andThen check (\<lambda>_. insert_journal_prepared (prepared_row E request n (or_fresh x f)) s) of
         Inl e \<Rightarrow> (Inl e, s)
       | Inr t \<Rightarrow> (case get_journal (mr_execution_id request) t of
             None \<Rightarrow> (Inl (AssertionError ''row_is_not_None''), t)
           | Some row \<Rightarrow> (Inr (prepared_from_row row), t)))" for f x
    using assms by (simp add: prepare_execution_def Let_def check_def)
  let ?taken = "list_ex (\<lambda>q. jr_execution_id q = mr_execution_id request \<or> jr_request_id q = mr_request_id request) (st_journal s)"
  show ?thesis
  proof (cases "\<exists>err. check = Inl err")
    case True
    then show ?thesis using e by auto
  next
    case False
    then have c: "check = Inr ()" by (cases check) auto
    have i: "insert_journal_prepared (prepared_row E request n txn) s =
        (if ?taken then Inl (IntegrityError ''habitat_execution_journal'')
         else Inr (s\<lparr>st_journal := st_journal s @ [prepared_row E request n txn]\<rparr>))" for txn
      by (simp add: insert_journal_prepared_def prepared_row_def)
    show ?thesis
    proof (cases ?taken)
      case True
      then show ?thesis using e c i by simp
    next
      case False
      have "get_journal (mr_execution_id request) (s\<lparr>st_journal := st_journal s @ [prepared_row E request n txn]\<rparr>)
          = Some (prepared_row E request n txn)" for txn
        using assms by (simp add: get_journal_def find_snoc prepared_row_def)
      then show ?thesis using e c i False by (simp add: Let_def)
    qed
  qed
qed

text \<open>C28: a manipulation that raised, by an injected crash in any stage or otherwise, can be retried as if it had never been
  tried. When the ledger has not heard of the execution, the retry in the world the first attempt left ends exactly as
  one attempt in the original world under the transaction that was prepared: the same answer, ledger, journal,
  habitat and physiology.\<close>

theorem retry_after_crash:
  assumes "commit_manipulation_transaction E ids event_ids (args\<lparr>ca_crash_after_stage := crash\<rparr>) request validation w = (Inl e, w1)"
    and "execution_unseen (mr_execution_id request) (cw_store w)"
    and "transaction_id = or_fresh (ca_transaction_id args) (ids 5)" and "transaction_id \<noteq> []"
  shows "outside_governance (commit_manipulation_transaction E ids' event_ids' args request validation' w1)
    = outside_governance (commit_manipulation_transaction E ids' event_ids'
        (args\<lparr>ca_transaction_id := Some transaction_id\<rparr>) request validation' w)"
proof -
  let ?i = "mr_execution_id request" and ?s = "cw_store w"
  have none: "get_journal ?i ?s = None" and
    unseen: "list_all (\<lambda>r. get_or (er_payload r) ''execution_id'' VNone \<noteq> Inr (VStr ?i)) (st_events ?s)"
    using assms(2) by (simp_all add: execution_unseen_def)
  have run: "commit_manipulation_transaction E ids event_ids args request validation w =
      (case prepare_execution E (ids 5) request (ca_prepared_tick args) (ca_transaction_id args) ?s of
         (Inl e, s) \<Rightarrow> (Inl e, w\<lparr>cw_store := s\<rparr>)
       | (Inr prepared, s) \<Rightarrow> commit_prepared E ids event_ids args request validation prepared (w\<lparr>cw_store := s\<rparr>))"
    for ids event_ids args validation
    using none by (simp add: commit_manipulation_transaction_def)
  from prepare_unseen [OF none] show ?thesis
  proof
    assume "\<exists>err. \<forall>f x. prepare_execution E f request (ca_prepared_tick args) x ?s = (Inl err, ?s)"
    then obtain err where p: "\<And>f x. prepare_execution E f request (ca_prepared_tick args) x ?s = (Inl err, ?s)" by blast
    then have "w1 = w" using assms(1) by (simp add: run)
    then show ?thesis using p by (simp add: run)
  next
    assume p: "\<forall>f x. \<exists>t. let row = prepared_row E request (ca_prepared_tick args) (or_fresh x f) in
         prepare_execution E f request (ca_prepared_tick args) x ?s = (Inr (prepared_from_row row), t)
         \<and> t = ?s\<lparr>st_journal := st_journal ?s @ [row]\<rparr> \<and> get_journal ?i t = Some row"
    let ?row = "prepared_row E request (ca_prepared_tick args) transaction_id"
    let ?t = "?s\<lparr>st_journal := st_journal ?s @ [?row]\<rparr>"
    let ?w = "w\<lparr>cw_store := ?t\<rparr>"
    have first: "prepare_execution E (ids 5) request (ca_prepared_tick args) (ca_transaction_id args) ?s
        = (Inr (prepared_from_row ?row), ?t)" and g: "get_journal ?i ?t = Some ?row"
      using p [THEN spec, of "ids 5", THEN spec, of "ca_transaction_id args"] assms(3) by (auto simp: Let_def)
    have fresh: "prepare_execution E (ids' 5) request (ca_prepared_tick args) (Some transaction_id) ?s
        = (Inr (prepared_from_row ?row), ?t)"
      using p [THEN spec, of "ids' 5", THEN spec, of "Some transaction_id"] assms(4) by (auto simp: Let_def)
    have w: "get_journal ?i (cw_store ?w) = Some ?row" "row_prepared E request ?row"
      "list_all (\<lambda>r. get_or (er_payload r) ''execution_id'' VNone \<noteq> Inr (VStr ?i)) (st_events (cw_store ?w))"
      using g unseen prepared_row_prepared by simp_all
    have "commit_prepared E ids event_ids (args\<lparr>ca_crash_after_stage := crash\<rparr>) request validation (prepared_from_row ?row) ?w = (Inl e, w1)"
      using assms(1) first by (simp add: run)
    from commit_prepared_unseen_spec(2) [OF w this]
    have w1: "w1 = ?w\<lparr>cw_governance := cw_governance w1\<rparr>" by (simp add: same_body_def)
    have again: "prepare_execution E (ids' 5) request (ca_prepared_tick args) (ca_transaction_id args) ?t
        = (Inr (prepared_from_row ?row), ?t)"
      using g prepared_row_prepared [of E request "ca_prepared_tick args" transaction_id]
      by (simp add: prepare_execution_def row_prepared_def)
    have retry: "commit_manipulation_transaction E ids' event_ids' args request validation' (?w\<lparr>cw_governance := g\<rparr>)
        = commit_prepared E ids' event_ids' args request validation' (prepared_from_row ?row) (?w\<lparr>cw_governance := g\<rparr>)" for g
      using g again prepared_row_prepared [of E request "ca_prepared_tick args" transaction_id]
      by (simp add: commit_manipulation_transaction_def row_prepared_def journal_terminal_def journal_statuses)
    have args: "commit_prepared E ids' event_ids' (args\<lparr>ca_transaction_id := x\<rparr>) request validation' (prepared_from_row ?row) ?w
        = commit_prepared E ids' event_ids' args request validation' (prepared_from_row ?row) ?w" for x
      unfolding commit_prepared_unseen [OF w] commit_failure_args commit_success_args ..
    show ?thesis
      by (subst w1) (simp add: retry run fresh args commit_prepared_unseen_spec(1) [OF w])
  qed
qed

section \<open>The events of a plan\<close>

text \<open>What every event built for a stub looks like.\<close>

definition manipulation_event_types :: "string list" where
  "manipulation_event_types =
     [HABITAT_OBJECT_PICKED_UP, HABITAT_OBJECT_PLACED, HABITAT_OBJECT_MOVED, HABITAT_OBJECT_STATE_CHANGED,
      HABITAT_AFFORDANCE_ACTIVATED, HABITAT_AFFORDANCE_DEACTIVATED]"

definition stub_event :: "envelope_args \<Rightarrow> habitat_state \<Rightarrow> habitat_state \<Rightarrow> string \<Rightarrow> pyv dict \<Rightarrow> bool" where
  "stub_event args before after ty d \<longleftrightarrow> ty \<in> set manipulation_event_types \<and> dwf d
     \<and> map_of d ''habitat_id'' = Some (VStr (hs_habitat_id after))
     \<and> map_of d ''prior_state_version'' = Some (VInt (hs_state_version before))
     \<and> map_of d ''new_state_version'' = Some (VInt (hs_state_version after))
     \<and> map_of d ''new_state_hash'' = Some (VStr (hs_state_hash after))
     \<and> (\<forall>x. ea_execution_id args = Some x \<longrightarrow> map_of d ''execution_id'' = Some (VStr x))
     \<and> (\<forall>x. ea_transaction_id args = Some x \<longrightarrow> x \<noteq> [] \<longrightarrow> map_of d ''transaction_id'' = Some (VStr x))"

lemma built_stub_event:
  assumes "build_habitat_event fresh (Some before) after ty None [(''object_id'', VStr i), (k, v)] args = Inr event"
    and "ty \<in> set manipulation_event_types" and "k = ''new_location'' \<or> k = ''new_state''"
  shows "\<exists>j ty d. event = habitat_event j ty d \<and> stub_event args before after ty d"
proof -
  let ?d = "dput k v (dput ''object_id'' (VStr i) (envelope_fields fresh (Some before) after args))"
  have "event = habitat_event (fresh 2) ty ?d" using assms(1) by (simp add: build_habitat_event_def split: if_splits)
  moreover have "stub_event args before after ty ?d"
    using assms(2,3) by (auto simp: stub_event_def envelope_lookup dwf_dput)
  ultimately show ?thesis by (intro exI conjI)
qed

lemma built_location_stub_event:
  assumes "build_location_event ty fresh before after i None args = Inr event" and "ty \<in> set manipulation_event_types"
  shows "\<exists>j ty d. event = habitat_event j ty d \<and> stub_event args before after ty d"
  using assms by (auto simp: build_location_event_def intro: built_stub_event split: option.splits)

lemma stub_event_shape:
  assumes "build_event_for_stub fresh before after args stub = Inr event"
  obtains i ty d where "event = habitat_event i ty d" "stub_event args before after ty d"
proof -
  obtain ty i where ty: "fld stub ''event_type'' as_str = Inr ty" "fld stub ''object_id'' as_str = Inr i"
    using assms by (auto simp: build_event_for_stub_def andThen_eq_Inr)
  consider "ty = HABITAT_OBJECT_PICKED_UP" | "ty = HABITAT_OBJECT_PLACED" | "ty = HABITAT_OBJECT_MOVED"
    | "ty = HABITAT_OBJECT_STATE_CHANGED" | "ty = HABITAT_AFFORDANCE_ACTIVATED \<or> ty = HABITAT_AFFORDANCE_DEACTIVATED"
    using assms ty by (auto simp: build_event_for_stub_def split: if_splits)
  then have "\<exists>j ty d. event = habitat_event j ty d \<and> stub_event args before after ty d"
  proof cases
    case 4
    then show ?thesis
      using assms ty by (auto simp: build_event_for_stub_def andThen_eq_Inr manipulation_event_types_def
          habitat_event_names intro: built_stub_event)
  next
    case 5
    then show ?thesis
      using assms ty by (auto simp: build_event_for_stub_def manipulation_event_types_def habitat_event_names
          split: option.splits intro: built_stub_event)
  qed (use assms ty in \<open>auto simp: build_event_for_stub_def build_object_picked_up_event_def build_object_placed_event_def
      build_object_moved_event_def manipulation_event_types_def habitat_event_names intro: built_location_stub_event\<close>)+
  then show ?thesis using that by blast
qed

lemma manipulation_types:
  "ty \<in> set manipulation_event_types \<Longrightarrow> ty \<in> set HABITAT_EVENT_TYPES \<and> ty \<noteq> HABITAT_INITIALIZED
     \<and> ty \<noteq> HABITAT_BODY_ZONE_TRANSITIONED"
  by (auto simp: manipulation_event_types_def HABITAT_EVENT_TYPES_def habitat_event_names)

lemma one_mutation_version: "apply_one_mutation E s m = Inr t \<Longrightarrow> hs_state_version t = hs_state_version s + 1"
  by (auto simp: apply_one_mutation_def andThen_eq_Inr bump_state_def split: option.splits)

lemma all_mutations_version:
  "apply_all_mutations E s ms = Inr t \<Longrightarrow> hs_state_version t = hs_state_version s + int (length ms)"
  unfolding apply_all_mutations_def
  by (induction ms arbitrary: s) (auto simp: andThen_eq_Inr dest!: one_mutation_version)

lemma plan_event:
  assumes "apply_effect_plan E ids s plan args = Inr (after, events)" and "event \<in> set events"
  obtains fresh stub where "build_event_for_stub fresh s after args stub = Inr event"
proof -
  have "mapE (\<lambda>(i, stub). build_event_for_stub (ids i) s after args stub) (enumerate 0 (hp_habitat_events plan)) = Inr events"
    using assms(1) by (auto simp: apply_effect_plan_def andThen_eq_Inr)
  from mapE_mem [OF this assms(2)] show ?thesis using that by auto
qed

text \<open>C30: an event of a plan with two mutations or more cannot be applied again to the state the plan changed, although it is
  the only record of the change. A manipulation with an effect and a cooldown is such a plan: the habitat ledger then
  no longer replays.\<close>

theorem cooldown_event_does_not_replay:
  assumes "apply_effect_plan E ids s plan args = Inr (after, events)" and "event \<in> set events"
    and "2 \<le> length (hp_habitat_mutations plan)"
  shows "\<exists>e. apply_habitat_event E (Some s) (canonical event) = Inl e"
proof (rule ccontr)
  assume "\<not> ?thesis"
  then obtain t where t: "apply_habitat_event E (Some s) (canonical event) = Inr t"
    by (cases "apply_habitat_event E (Some s) (canonical event)") auto
  obtain fresh stub where "build_event_for_stub fresh s after args stub = Inr event"
    using plan_event [OF assms(1,2)] .
  then obtain i ty d where shape: "event = habitat_event i ty d" "stub_event args s after ty d"
    by (rule stub_event_shape)
  then have e: "event = habitat_event i ty d" "ty \<in> set manipulation_event_types" "dwf d"
    "map_of d ''new_state_version'' = Some (VInt (hs_state_version after))"
    by (simp_all add: stub_event_def)
  have after: "hs_state_version after \<ge> hs_state_version s + 2"
    using assms(1,3) all_mutations_version by (fastforce simp: apply_effect_plan_def andThen_eq_Inr)
  note ty = manipulation_types [OF e(2)]
  have parts: "event_parts (canonical event) ty (canonical (VDict d))" unfolding e(1) using ty by (intro stored_parts) simp
  have version: "fld (canonical (VDict d)) ''new_state_version'' as_int = Inr (hs_state_version after)"
    using e(3,4) by (simp add: read_canonical del: plain_lookups)
  obtain c where c: "check_order (Some s) ty (canonical (VDict d)) = Inr c"
    using t by (auto simp: apply_parts [OF parts] andThen_eq_Inr)
  have none: "c = None"
  proof (cases c)
    case (Some u)
    have "u = s" "hs_state_version after = hs_state_version u"
      using check_order_Some(1,2) [OF c [unfolded Some]] version by simp_all
    then show ?thesis using after by simp
  qed
  have "apply_mutation E (Some s) ty (canonical (VDict d)) = Inr t \<and> hs_state_version t = hs_state_version after"
    using t c none ty version by (auto simp: apply_parts [OF parts] andThen_eq_Inr split: if_splits)
  then show False using apply_mutation_keeps [of E s ty "canonical (VDict d)" t] ty after by simp
qed

section \<open>Refusals\<close>

text \<open>An execution or a request identity answers for one payload only. A call whose execution, or else whose request, is in
  the journal with another payload raises \<open>EXECUTION_PAYLOAD_MISMATCH\<close> and changes nothing at all.\<close>

theorem payload_mismatch_refused:
  assumes "(case get_journal (mr_execution_id request) (cw_store w) of Some row \<Rightarrow> Some row
      | None \<Rightarrow> get_journal_by_request (mr_request_id request) (cw_store w)) = Some row"
    and "jr_canonical_payload_hash row \<noteq> canonical_payload_hash E request"
  shows "commit_manipulation_transaction E ids event_ids args request validation w
    = (Inl (ExecutionJournalError EXECUTION_PAYLOAD_MISMATCH), w)"
  using assms
  by (cases "get_journal (mr_execution_id request) (cw_store w)")
    (simp_all add: commit_manipulation_transaction_def prepare_execution_def)

text \<open>A ledger without room: not even the failure can be recorded, the call raises.\<close>

definition ledger_full :: "store \<Rightarrow> bool" where
  "ledger_full s \<longleftrightarrow> (case st_event_storage_budget s of None \<Rightarrow> False | Some budget \<Rightarrow> budget \<le> int (length (st_events s)))"

lemma append_row_full: "ledger_full s \<Longrightarrow> append_row E f ev s = Inl (MutationRejected EVENT_STORAGE_BUDGET_EXCEEDED)"
  by (auto simp: ledger_full_def append_row_def check_event_storage_budget_def EVENT_STORAGE_BUDGET_EXCEEDED_def
      split: option.splits)

lemma ledger_full_journal [simp]: "ledger_full (s\<lparr>st_journal := j\<rparr>) = ledger_full s"
  by (simp add: ledger_full_def cong: option.case_cong)

lemma commit_failure_full:
  assumes "ledger_full (cw_store w)"
  shows "\<exists>e w'. commit_failure E ids args request applied prepared code w = (Inl e, w')"
  using assms
  by (auto simp: commit_failure_def verify_manipulation_outcome_def atomic_outcome_def journal_stage_def
      append_row_full update_journal_terminal_def Let_def split: prod.splits)

theorem full_ledger_records_no_failure:
  assumes "execution_unseen (mr_execution_id request) (cw_store w)" and "ledger_full (cw_store w)"
    and "\<not> vr_allowed validation"
  shows "\<exists>e w'. commit_manipulation_transaction E ids event_ids args request validation w = (Inl e, w')"
proof -
  have none: "get_journal (mr_execution_id request) (cw_store w) = None"
    using assms(1) by (simp add: execution_unseen_def)
  from prepare_unseen [OF none, of E "ca_prepared_tick args"] show ?thesis
  proof
    assume "\<exists>err. \<forall>f x. prepare_execution E f request (ca_prepared_tick args) x (cw_store w) = (Inl err, cw_store w)"
    then show ?thesis using none by (auto simp: commit_manipulation_transaction_def)
  next
    assume p: "\<forall>f x. \<exists>t. let row = prepared_row E request (ca_prepared_tick args) (or_fresh x f) in
         prepare_execution E f request (ca_prepared_tick args) x (cw_store w) = (Inr (prepared_from_row row), t)
         \<and> t = (cw_store w)\<lparr>st_journal := st_journal (cw_store w) @ [row]\<rparr> \<and> get_journal (mr_execution_id request) t = Some row"
    let ?row = "prepared_row E request (ca_prepared_tick args) (or_fresh (ca_transaction_id args) (ids 5))"
    let ?t = "(cw_store w)\<lparr>st_journal := st_journal (cw_store w) @ [?row]\<rparr>"
    have q: "prepare_execution E (ids 5) request (ca_prepared_tick args) (ca_transaction_id args) (cw_store w)
        = (Inr (prepared_from_row ?row), ?t)" "get_journal (mr_execution_id request) ?t = Some ?row"
      using p by (auto simp: Let_def)
    have "ledger_full (cw_store (w\<lparr>cw_store := ?t\<rparr>))" using assms(2) by simp
    from commit_failure_full [OF this] show ?thesis
      using none q assms(1,3) prepared_row_prepared
      by (auto simp: commit_manipulation_transaction_def execution_unseen_def commit_prepared_unseen)
  qed
qed

section \<open>Retrying a committed manipulation\<close>

lemma commit_success_stages:
  assumes "commit_success E ids event_ids args request plan prepared w = (Inr c, w')"
    and "mc_journal_status c = STATUS_COMMITTED_SUCCESS"
  obtains after events effects outcome x y z where
    "apply_effect_plan E event_ids (he_state (cw_engine w)) plan (plan_envelope (pe_transaction_id prepared) request)
       = Inr (after, events)"
    "organism_effects_to_physiology (hp_requested_organism_effects plan) = Inr effects"
    "outcome = fst (verify_manipulation_outcome (ids 2) request True None effects None (pe_transaction_id prepared) (cw_governance w))"
    "foldE (\<lambda>u event. habitat_event_stage E args event u) (cw_store w) events = Inr x"
    "organism_effects_stage E (ids 3) args request (hp_requested_organism_effects plan) x = Inr y"
    "append_row E (ids 4) (outcome_event args request outcome ''manipulation_committed'') y = Inr z"
    "cw_store w' = update_journal_terminal (pe_execution_id prepared) STATUS_COMMITTED_SUCCESS (Some (ids 2)) None z"
    "he_state (cw_engine w') = after" "mc_outcome c = Some outcome"
    "cw_engine w' = rebuild_indexes ((cw_engine w)\<lparr>he_state := after\<rparr>)" "cw_physiology w' = apply_physiology outcome (cw_physiology w)"
proof -
  have not_failure: False if "commit_failure E ids args request applied prepared code v = (Inr c, w')" for applied code v
    using that
  proof (cases rule: commit_failure_cases)
    case (committed c' r)
    then show ?thesis using assms(2) by (simp add: journal_statuses)
  qed simp
  obtain after events where p: "apply_effect_plan E event_ids (he_state (cw_engine w)) plan
      (plan_envelope (pe_transaction_id prepared) request) = Inr (after, events)"
    using assms(1) not_failure by (auto simp: commit_success_def split: sum.splits exn.splits)
  obtain effects where effects: "organism_effects_to_physiology (hp_requested_organism_effects plan) = Inr effects"
    using assms(1) p by (auto simp: commit_success_def split: sum.splits)
  obtain outcome gv where v: "verify_manipulation_outcome (ids 2) request True None effects None
      (pe_transaction_id prepared) (cw_governance w) = (outcome, gv)" by fastforce
  then have oid: "vo_outcome_id outcome = ids 2" by (auto simp: verify_manipulation_outcome_def)
  let ?stages = "[\<lambda>t. foldE (\<lambda>u event. habitat_event_stage E args event u) t events,
      organism_effects_stage E (ids 3) args request (hp_requested_organism_effects plan),
      append_row E (ids 4) (outcome_event args request outcome ''manipulation_committed''),
      journal_stage (pe_execution_id prepared) STATUS_COMMITTED_SUCCESS (Some (vo_outcome_id outcome)) None]"
  obtain q t where a: "atomic_outcome (ca_crash_after_stage args) ?stages (cw_store w) = (q, t)" by fastforce
  from a show ?thesis
  proof (cases rule: atomic_outcome_cases)
    case (rolled_back e)
    then show ?thesis
      using assms(1) p effects v a not_failure
      by (cases e) (auto simp: commit_success_def Let_def split: if_splits)
  next
    case committed
    from committed(2) obtain x y z where
      "foldE (\<lambda>u event. habitat_event_stage E args event u) (cw_store w) events = Inr x"
      "organism_effects_stage E (ids 3) args request (hp_requested_organism_effects plan) x = Inr y"
      "append_row E (ids 4) (outcome_event args request outcome ''manipulation_committed'') y = Inr z"
      "journal_stage (pe_execution_id prepared) STATUS_COMMITTED_SUCCESS (Some (vo_outcome_id outcome)) None z = Inr t"
      by (rule run_stages_4)
    then show ?thesis
      using assms(1) p effects v a committed(1) oid
      by (intro that [of after events effects outcome x y z])
        (auto simp: commit_success_def catch_up_def journal_stage_def)
  qed
qed

text \<open>The stored rows of the habitat events.\<close>

definition stores_event :: "string \<Rightarrow> event_row \<Rightarrow> pyv \<Rightarrow> bool" where
  "stores_event agent_id r event \<longleftrightarrow> (\<exists>i ty d. event = habitat_event i ty d \<and> er_event_type r = ty
     \<and> er_payload r = canonical (VDict d) \<and> er_agent_id r = agent_id)"

lemma habitat_stage_rows:
  assumes "foldE (\<lambda>u event. habitat_event_stage E args event u) s events = Inr t"
    and "\<And>event. event \<in> set events \<Longrightarrow> \<exists>i ty d. event = habitat_event i ty d"
  shows "\<exists>rows. st_events t = st_events s @ rows \<and> list_all2 (stores_event (ca_agent_id args)) rows events"
  using assms
proof (induction events arbitrary: s)
  case (Cons event events)
  then obtain u where u: "habitat_event_stage E args event s = Inr u"
    "foldE (\<lambda>u event. habitat_event_stage E args event u) u events = Inr t"
    by (auto simp: andThen_eq_Inr)
  obtain i ty d where e: "event = habitat_event i ty d" using Cons.prems(2) [of event] by auto
  obtain rows where rows: "st_events t = st_events u @ rows" "list_all2 (stores_event (ca_agent_id args)) rows events"
    using Cons.IH [OF u(2)] Cons.prems(2) by auto
  from u(1) obtain ev where ev: "append_row E i ev s = Inr u" "ne_event_type ev = ty" "ne_payload ev = VDict d"
    "ne_agent_id ev = ca_agent_id args"
    by (auto simp: habitat_event_stage_def e habitat_event_def)
  have "stores_event (ca_agent_id args) (new_row E i ev s) event"
    using ev by (auto simp: stores_event_def e new_row_def Let_def)
  then show ?case using append_row_effect [OF ev(1)] rows by auto
qed simp

lemma effects_shape:
  assumes "organism_effects_to_physiology effects = Inr out"
  shows "out = [] \<or> (\<exists>x. out = [(''energy'', x)])"
  using assms unfolding organism_effects_to_physiology_def
  by (rule foldE_invariant [where P = "\<lambda>out. out = [] \<or> (\<exists>x. out = [(''energy'', x)])"])
    (auto simp: andThen_eq_Inr split: if_splits)

lemma sorted_items_small [simp]: "sorted_items [] = []" "sorted_items [p] = [p]"
  by (simp_all add: sorted_items_def)

text \<open>The stored outcome reads back, but for the order of the keys of \<open>raw\<close>.\<close>

lemma stored_outcome_read:
  assumes "organism_effects_to_physiology effects = Inr out"
    and "outcome = fst (verify_manipulation_outcome i request True None out None txn gv)"
  shows "\<exists>raw. outcome_from_payload j (canonical (ne_payload (outcome_event args request outcome ''manipulation_committed'')))
    = Inr (outcome\<lparr>vo_raw := raw\<rparr>)"
  using effects_shape [OF assms(1)]
  by (auto simp: assms(2) verify_manipulation_outcome_def outcome_event_def outcome_from_payload_def read_canonical
      or_else_def dict_from_def del: plain_lookups)

lemma habitat_stage_ok:
  assumes "foldE (\<lambda>u event. habitat_event_stage E args event u) s events = Inr t" and "ledger_ok E s"
  shows "ledger_ok E t"
  using assms
  by (rule foldE_invariant) (auto simp: habitat_event_stage_def andThen_eq_Inr dest: append_ok)

lemma organism_stage_ok:
  "organism_effects_stage E fresh args request effects s = Inr t \<Longrightarrow> ledger_ok E s \<Longrightarrow> ledger_ok E t"
  by (auto simp: organism_effects_stage_def split: if_splits dest: append_ok)

lemma update_journal_ok: "ledger_ok E s \<Longrightarrow> ledger_ok E (update_journal_terminal i status outcome_id failure_code s)"
  unfolding update_journal_terminal_def by (rule budget_only(2))

lemma ok_ordered: "ledger_ok E s \<Longrightarrow> ordered_events s = st_events s"
  using tail_ordered(1) by (auto simp: ledger_ok_def)

lemma find_last: "list_all (\<lambda>x. \<not> P x) xs \<Longrightarrow> P y \<Longrightarrow> List.find P (xs @ [y]) = Some y"
  by (induction xs) auto

lemma appended_id_new:
  "append_row E fresh ev s = Inr t \<Longrightarrow> list_all (\<lambda>r. er_event_id r \<noteq> or_fresh (ne_event_id ev) fresh) (st_events s)"
  by (auto simp: append_row_def andThen_eq_Inr insert_event_def new_row_def Let_def list_ex_iff list_all_iff split: if_splits)

text \<open>The outcome a commit wrote last is the outcome its identity finds.\<close>

lemma outcome_found:
  assumes "append_row E fresh (outcome_event args request outcome ''manipulation_committed'') s = Inr t"
    and "vo_outcome_id outcome \<noteq> []" and "st_events u = st_events t"
  shows "get_verified_outcome_by_id (vo_outcome_id outcome) (ca_agent_id args) u =
    andThen (outcome_from_payload (vo_outcome_id outcome)
      (canonical (ne_payload (outcome_event args request outcome ''manipulation_committed'')))) (\<lambda>v. Inr (Some v))"
proof -
  let ?ev = "outcome_event args request outcome ''manipulation_committed''"
  have id: "or_fresh (ne_event_id ?ev) fresh = vo_outcome_id outcome"
    using assms(2) by (cases "vo_outcome_id outcome") (simp_all add: outcome_event_def)
  have u: "st_events u = st_events s @ [new_row E fresh ?ev s]" using append_row_effect [OF assms(1)] assms(3) by simp
  have row: "er_agent_id (new_row E fresh ?ev s) = ca_agent_id args \<and> er_event_type (new_row E fresh ?ev s) = ''outcome_verified''
      \<and> er_event_id (new_row E fresh ?ev s) = vo_outcome_id outcome \<and> er_payload (new_row E fresh ?ev s) = canonical (ne_payload ?ev)"
    using id by (simp add: new_row_def Let_def) (simp add: outcome_event_def)
  have "List.find (\<lambda>r. er_agent_id r = ca_agent_id args \<and> er_event_type r = ''outcome_verified'' \<and> er_event_id r = vo_outcome_id outcome)
      (st_events u) = Some (new_row E fresh ?ev s)"
    unfolding u using appended_id_new [OF assms(1)] row by (intro find_last) (auto simp: id list_all_iff)
  then show ?thesis using row by (simp add: get_verified_outcome_by_id_def)
qed

text \<open>The habitat events a commit wrote name the state it reached.\<close>

lemma stored_new_hash:
  assumes "stores_event agent_id r event" and "event = habitat_event i ty d" and "stub_event args before after ty d"
  shows "fld (VDict [(''event_type'', v), (''payload'', er_payload r)]) ''payload'' (\<lambda>p. fld p ''new_state_hash'' as_str)
    = Inr (hs_state_hash after)"
  using assms by (auto simp: stores_event_def stub_event_def habitat_event_def read_canonical simp del: canonical.simps(7))

lemma execution_events_hash:
  assumes "ordered_events s = old @ rows @ rest"
    and old: "list_all (\<lambda>r. get_or (er_payload r) ''execution_id'' VNone \<noteq> Inr (VStr i)) old"
    and rows: "list_all2 (stores_event agent_id) rows events"
    and events: "\<And>event. event \<in> set events \<Longrightarrow> \<exists>j ty d. event = habitat_event j ty d \<and> stub_event args before after ty d"
    and rest: "list_all (\<lambda>r. \<not> like_habitat (er_event_type r)) rest"
    and v: "v \<in> set (list_habitat_events_for_execution agent_id i txn s)"
  shows "fld v ''payload'' (\<lambda>p. fld p ''new_state_hash'' as_str) = Inr (hs_state_hash after)"
proof -
  obtain r where r: "r \<in> set rows" "v = VDict [(''event_type'', VStr (er_event_type r)), (''payload'', er_payload r)]"
    using v old rest unfolding list_habitat_events_for_execution_def assms(1) by (auto simp: list_all_iff)
  obtain event where e: "event \<in> set events" "stores_event agent_id r event"
    using rows r(1) by (metis in_set_conv_nth list_all2_conv_all_nth nth_mem)
  obtain j ty d where shape: "event = habitat_event j ty d" "stub_event args before after ty d" using events [OF e(1)] by blast
  show ?thesis unfolding r(2) by (rule stored_new_hash [OF e(2) shape])
qed

text \<open>A fresh success comes from one run of \<open>commit_success\<close> on the prepared world.\<close>

lemma fresh_success:
  assumes "commit_manipulation_transaction E ids event_ids args request validation w = (Inr c, w')"
    and "mc_journal_status c = STATUS_COMMITTED_SUCCESS" and "execution_unseen (mr_execution_id request) (cw_store w)"
  obtains row plan where
    "commit_success E ids event_ids args request plan (prepared_from_row row)
       (w\<lparr>cw_store := (cw_store w)\<lparr>st_journal := st_journal (cw_store w) @ [row]\<rparr>\<rparr>) = (Inr c, w')"
    "row_prepared E request row"
    "get_journal (mr_execution_id request) ((cw_store w)\<lparr>st_journal := st_journal (cw_store w) @ [row]\<rparr>) = Some row"
    "vr_effect_plan validation = Some plan"
    "jr_transaction_id row = or_fresh (ca_transaction_id args) (ids 5)" "jr_request_id row = mr_request_id request"
proof -
  have none: "get_journal (mr_execution_id request) (cw_store w) = None"
    using assms(3) by (simp add: execution_unseen_def)
  define row where "row = prepared_row E request (ca_prepared_tick args) (or_fresh (ca_transaction_id args) (ids 5))"
  let ?s = "(cw_store w)\<lparr>st_journal := st_journal (cw_store w) @ [row]\<rparr>"
  let ?w = "w\<lparr>cw_store := ?s\<rparr>"
  have p: "prepare_execution E (ids 5) request (ca_prepared_tick args) (ca_transaction_id args) (cw_store w)
      = (Inr (prepared_from_row row), ?s) \<and> get_journal (mr_execution_id request) ?s = Some row"
    using prepare_unseen [OF none, of E "ca_prepared_tick args"] assms(1) none
    by (auto simp: row_def Let_def commit_manipulation_transaction_def)
  have prepared: "row_prepared E request row" unfolding row_def by (rule prepared_row_prepared)
  have w: "get_journal (mr_execution_id request) (cw_store ?w) = Some row"
    "list_all (\<lambda>r. get_or (er_payload r) ''execution_id'' VNone \<noteq> Inr (VStr (mr_execution_id request))) (st_events (cw_store ?w))"
    using p assms(3) by (simp_all add: execution_unseen_def)
  have run: "commit_prepared E ids event_ids args request validation (prepared_from_row row) ?w = (Inr c, w')"
    using assms(1) p none by (simp add: commit_manipulation_transaction_def)
  have "vr_allowed validation"
  proof (rule ccontr)
    assume "\<not> ?thesis"
    then have "commit_failure E ids args request (vr_applied_parameters validation) (prepared_from_row row)
       (str_or (vr_failure_code validation) ''AFFORDANCE_PRECONDITION_FAILED'') ?w = (Inr c, w')"
      using run by (simp add: commit_prepared_unseen [OF w(1) prepared w(2)])
    from commit_failure_spec [OF this w(1) prepared] show False
      using assms(2) by (simp add: failure_committed_def journal_statuses)
  qed
  then obtain plan where "commit_success E ids event_ids args request plan (prepared_from_row row) ?w = (Inr c, w')"
    "vr_effect_plan validation = Some plan"
    using run by (auto simp: commit_prepared_unseen [OF w(1) prepared w(2)] split: option.splits)
  moreover have "jr_transaction_id row = or_fresh (ca_transaction_id args) (ids 5)" "jr_request_id row = mr_request_id request"
    by (simp_all add: row_def prepared_row_def)
  ultimately show ?thesis using that prepared p by blast
qed

text \<open>The plan applies again, whatever the new identities of its events.\<close>

lemma event_built_again:
  "build_habitat_event fresh before after ty None extra args = Inr event \<Longrightarrow> \<exists>event'. build_habitat_event fresh' before after ty None extra args = Inr event'"
  by (simp add: build_habitat_event_def split: if_splits)

lemma location_built_again:
  "build_location_event ty fresh before after i None args = Inr event \<Longrightarrow> \<exists>event'. build_location_event ty fresh' before after i None args = Inr event'"
  using event_built_again by (simp add: build_location_event_def split: option.splits)

lemmas build_events = build_object_picked_up_event_def build_object_placed_event_def build_object_moved_event_def

lemma stub_built_again:
  assumes "build_event_for_stub fresh before after args stub = Inr event"
  shows "\<exists>event'. build_event_for_stub fresh' before after args stub = Inr event'"
proof -
  obtain ty i where ty: "fld stub ''event_type'' as_str = Inr ty" "fld stub ''object_id'' as_str = Inr i"
    using assms by (auto simp: build_event_for_stub_def andThen_eq_Inr)
  consider "ty \<in> {HABITAT_OBJECT_PICKED_UP, HABITAT_OBJECT_PLACED, HABITAT_OBJECT_MOVED}"
    | "ty = HABITAT_OBJECT_STATE_CHANGED" | "ty = HABITAT_AFFORDANCE_ACTIVATED \<or> ty = HABITAT_AFFORDANCE_DEACTIVATED"
    using assms ty by (auto simp: build_event_for_stub_def split: if_splits)
  then show ?thesis
  proof cases
    case 1
    then have "build_event_for_stub fr before after args stub = build_location_event ty fr before after i None args" for fr
      using ty by (auto simp: build_event_for_stub_def habitat_event_names build_events)
    then show ?thesis using assms location_built_again by simp
  next
    case 2
    then obtain v where v: "item stub ''new_state'' = Inr v" using assms ty
      by (auto simp: build_event_for_stub_def andThen_eq_Inr habitat_event_names)
    show ?thesis using assms ty 2 v event_built_again by (simp add: build_event_for_stub_def habitat_event_names)
  next
    case 3
    then obtain ob where ob: "map_of (hs_objects after) i = Some ob" using assms ty
      by (auto simp: build_event_for_stub_def habitat_event_names split: option.splits)
    have "build_habitat_event fresh (Some before) after ty None
        [(''object_id'', VStr i), (''new_state'', object_state_to_pyv (ho_state ob))] args = Inr event"
      using assms ty 3 ob by (elim disjE; simp add: build_event_for_stub_def habitat_event_names)
    from event_built_again [OF this, of fresh'] show ?thesis
      using ty 3 ob by (elim disjE; simp add: build_event_for_stub_def habitat_event_names)
  qed
qed

lemma plan_applies_again:
  assumes "apply_effect_plan E ids s plan args = Inr (after, events)"
  shows "\<exists>events'. apply_effect_plan E ids' s plan args = Inr (after, events')"
proof -
  have again: "mapE (\<lambda>(i, stub). build_event_for_stub (ids i) s after args stub) xs = Inr ys
      \<Longrightarrow> \<exists>zs. mapE (\<lambda>(i, stub). build_event_for_stub (ids' i) s after args stub) xs = Inr zs" for xs ys
  proof (induction xs arbitrary: ys)
    case (Cons x xs)
    then show ?case using stub_built_again by (cases x) (fastforce simp: andThen_eq_Inr)
  qed simp
  show ?thesis using assms again by (fastforce simp: apply_effect_plan_def andThen_eq_Inr)
qed

text \<open>What a fresh success leaves in the ledger: its row, its outcome, and events that all announce the state it reached.\<close>

lemma plan_events_stored:
  assumes "list_all2 (stores_event agent_id) rows events" and "ordered_events s = old @ rows @ rest"
    and "\<And>event. event \<in> set events \<Longrightarrow> \<exists>j ty d. event = habitat_event j ty d \<and> stub_event args before after ty d"
    and "ea_execution_id args = Some i" "ea_transaction_id args = Some txn" "txn \<noteq> []" and "events \<noteq> []"
  shows "list_habitat_events_for_execution agent_id i txn s \<noteq> []"
proof -
  obtain r event where r: "r \<in> set rows" "event \<in> set events" "stores_event agent_id r event"
    using assms(1,7) by (cases rows; cases events) auto
  obtain j ty d where e: "event = habitat_event j ty d" "stub_event args before after ty d" using assms(3) r(2) by blast
  then have st: "er_event_type r = ty" "er_payload r = canonical (VDict d)" "er_agent_id r = agent_id"
    using r(3) by (auto simp: stores_event_def habitat_event_def)
  have "get_or (er_payload r) ''execution_id'' VNone = Inr (VStr i)" "get_or (er_payload r) ''transaction_id'' VNone = Inr (VStr txn)"
    using e(2) assms(4-6) by (simp_all add: st(2) stub_event_def read_canonical del: canonical.simps(7))
  moreover have "like_habitat ty" "ty \<noteq> ''habitat_body_zone_transitioned''"
    using e(2) by (auto simp: stub_event_def manipulation_event_types_def habitat_event_names like_habitat_def ascii_lower_def)
  ultimately show ?thesis
    using r(1) st(1,3) by (auto simp: list_habitat_events_for_execution_def assms(2) filter_empty_conv)
qed

lemma plan_event_count: "apply_effect_plan E ids s plan args = Inr (after, events) \<Longrightarrow> length events = length (hp_habitat_events plan)"
proof -
  have "mapE f xs = Inr ys \<Longrightarrow> length ys = length xs" for f :: "nat \<times> pyv \<Rightarrow> pyv res" and xs ys
    by (induction xs arbitrary: ys) (auto simp: andThen_eq_Inr)
  then show "apply_effect_plan E ids s plan args = Inr (after, events) \<Longrightarrow> length events = length (hp_habitat_events plan)"
    by (fastforce simp: apply_effect_plan_def andThen_eq_Inr)
qed

lemma committed_tail:
  assumes ok: "ledger_ok E s'" and s': "s' = update_journal_terminal i status oid code z"
    and y: "organism_effects_stage E fresh args request effects x = Inr y"
    and z: "append_row E fresh' (outcome_event args request outcome reason) y = Inr z"
    and h: "st_events x = old @ hrows"
  obtains rest where "ordered_events s' = old @ hrows @ rest" "list_all (\<lambda>r. \<not> like_habitat (er_event_type r)) rest"
proof
  let ?orow = "new_row E fresh' (outcome_event args request outcome reason) y"
  let ?erow = "drop (length (st_events x)) (st_events y)"
  have e: "st_events y = st_events x @ ?erow" "list_all (\<lambda>r. \<not> like_habitat (er_event_type r)) ?erow"
    using y by (auto simp: organism_effects_stage_def new_row_def Let_def like_habitat_def ascii_lower_def
        split: if_splits dest!: append_row_effect)
  have "\<not> like_habitat (er_event_type ?orow)"
    by (simp add: new_row_def Let_def outcome_event_def like_habitat_def ascii_lower_def)
  then show "list_all (\<lambda>r. \<not> like_habitat (er_event_type r)) (?erow @ [?orow])" using e(2) by simp
  show "ordered_events s' = old @ hrows @ ?erow @ [?orow]"
    using ok_ordered [OF ok] append_row_effect [OF z] e(1) h by (simp add: s')
qed

definition committed_facts ::
  "hash_env \<Rightarrow> string \<Rightarrow> manipulation_request \<Rightarrow> habitat_state \<Rightarrow> verified_outcome \<Rightarrow> journal_row \<Rightarrow> store \<Rightarrow> bool" where
  "committed_facts E agent_id request after outcome row s \<longleftrightarrow>
     get_journal (mr_execution_id request) s = Some row \<and> jr_status row = STATUS_COMMITTED_SUCCESS
     \<and> jr_canonical_payload_hash row = canonical_payload_hash E request \<and> vo_success outcome
     \<and> jr_execution_id row = mr_execution_id request \<and> jr_request_id row = mr_request_id request
     \<and> (\<exists>i. present (jr_outcome_id row) = Some i \<and> get_verified_outcome_by_id i agent_id s = Inr (Some outcome))
     \<and> (\<forall>v \<in> set (list_habitat_events_for_execution agent_id (mr_execution_id request) (jr_transaction_id row) s).
          fld v ''payload'' (\<lambda>p. fld p ''new_state_hash'' as_str) = Inr (hs_state_hash after))"

lemma fresh_success_facts:
  assumes "commit_manipulation_transaction E ids event_ids args request validation w = (Inr c, w')"
    and "mc_journal_status c = STATUS_COMMITTED_SUCCESS"
    and "execution_unseen (mr_execution_id request) (cw_store w)" and "ledger_ok E (cw_store w)"
    and "ids 2 \<noteq> []"
  obtains plan row after events outcome raw where
    "vr_effect_plan validation = Some plan" "mc_outcome c = Some outcome"
    "committed_facts E (ca_agent_id args) request after (outcome\<lparr>vo_raw := raw\<rparr>) row (cw_store w')"
    "apply_effect_plan E event_ids (he_state (cw_engine w)) plan (plan_envelope (jr_transaction_id row) request) = Inr (after, events)"
    "hp_habitat_events plan \<noteq> [] \<and> ids 5 \<noteq> [] \<longrightarrow>
       list_habitat_events_for_execution (ca_agent_id args) (mr_execution_id request) (jr_transaction_id row) (cw_store w') \<noteq> []"
    "cw_engine w' = rebuild_indexes ((cw_engine w)\<lparr>he_state := after\<rparr>)" "he_state (cw_engine w') = after"
    "cw_physiology w' = apply_physiology outcome (cw_physiology w)"
proof -
  obtain row plan where run: "commit_success E ids event_ids args request plan (prepared_from_row row)
       (w\<lparr>cw_store := (cw_store w)\<lparr>st_journal := st_journal (cw_store w) @ [row]\<rparr>\<rparr>) = (Inr c, w')"
    and row: "row_prepared E request row"
    "get_journal (mr_execution_id request) ((cw_store w)\<lparr>st_journal := st_journal (cw_store w) @ [row]\<rparr>) = Some row"
    and vplan: "vr_effect_plan validation = Some plan" and txn: "jr_transaction_id row = or_fresh (ca_transaction_id args) (ids 5)"
    and request: "jr_request_id row = mr_request_id request"
    by (rule fresh_success [OF assms(1-3)])
  let ?s = "(cw_store w)\<lparr>st_journal := st_journal (cw_store w) @ [row]\<rparr>"
  let ?i = "mr_execution_id request"
  have pe: "pe_execution_id (prepared_from_row row) = ?i" "pe_transaction_id (prepared_from_row row) = jr_transaction_id row"
    using row(1) by (simp_all add: prepared_from_row_def row_prepared_def)
  have s: "ledger_ok E ?s" using assms(4) by (rule budget_only(2))
  let ?w = "w\<lparr>cw_store := ?s\<rparr>"
  have w: "he_state (cw_engine ?w) = he_state (cw_engine w)" "cw_governance ?w = cw_governance w" "cw_store ?w = ?s"
    "cw_engine ?w = cw_engine w" "cw_physiology ?w = cw_physiology w"
    by simp_all
  obtain after events effects outcome x y z where
    plan: "apply_effect_plan E event_ids (he_state (cw_engine w)) plan (plan_envelope (jr_transaction_id row) request) = Inr (after, events)"
    and effects: "organism_effects_to_physiology (hp_requested_organism_effects plan) = Inr effects"
    and outcome: "outcome = fst (verify_manipulation_outcome (ids 2) request True None effects None (jr_transaction_id row) (cw_governance w))"
    and x: "foldE (\<lambda>u event. habitat_event_stage E args event u) ?s events = Inr x"
    and y: "organism_effects_stage E (ids 3) args request (hp_requested_organism_effects plan) x = Inr y"
    and z: "append_row E (ids 4) (outcome_event args request outcome ''manipulation_committed'') y = Inr z"
    and w': "cw_store w' = update_journal_terminal ?i STATUS_COMMITTED_SUCCESS (Some (ids 2)) None z"
      "he_state (cw_engine w') = after" "mc_outcome c = Some outcome"
      "cw_engine w' = rebuild_indexes ((cw_engine w)\<lparr>he_state := after\<rparr>)" "cw_physiology w' = apply_physiology outcome (cw_physiology w)"
    by (rule commit_success_stages [OF run assms(2), unfolded pe w])
  have oid: "vo_outcome_id outcome = ids 2" "vo_success outcome" by (auto simp: outcome verify_manipulation_outcome_def)
  have ok: "ledger_ok E (cw_store w')"
    using organism_stage_ok [OF y habitat_stage_ok [OF x s]] append_ok [OF _ z] update_journal_ok by (auto simp: w'(1))
  let ?row = "row\<lparr>jr_status := STATUS_COMMITTED_SUCCESS, jr_outcome_id := Some (ids 2), jr_failure_code := None\<rparr>"
  have "st_journal z = st_journal ?s"
    using habitat_stage_effect [OF x] organism_stage_effect [OF y] append_row_effect [OF z] by simp
  from get_journal_same [OF this] have "get_journal ?i z = Some row" using row(2) by simp
  then have journal: "get_journal ?i (cw_store w') = Some ?row" by (simp add: w'(1) get_journal_update)
  obtain raw where raw: "outcome_from_payload (vo_outcome_id outcome)
      (canonical (ne_payload (outcome_event args request outcome ''manipulation_committed''))) = Inr (outcome\<lparr>vo_raw := raw\<rparr>)"
    using stored_outcome_read [OF effects outcome] by blast
  have found: "get_verified_outcome_by_id (ids 2) (ca_agent_id args) (cw_store w') = Inr (Some (outcome\<lparr>vo_raw := raw\<rparr>))"
    using outcome_found [OF z, of "cw_store w'"] raw assms(5) oid by (simp add: w'(1))
  have shapes: "\<exists>j ty d. event = habitat_event j ty d
      \<and> stub_event (plan_envelope (jr_transaction_id row) request) (he_state (cw_engine w)) after ty d" if "event \<in> set events" for event
    by (rule plan_event [OF plan that], erule stub_event_shape) blast
  obtain hrows where h: "st_events x = st_events (cw_store w) @ hrows" "list_all2 (stores_event (ca_agent_id args)) hrows events"
    using habitat_stage_rows [OF x] shapes by fastforce
  obtain rest where rest: "ordered_events (cw_store w') = st_events (cw_store w) @ hrows @ rest"
    "list_all (\<lambda>r. \<not> like_habitat (er_event_type r)) rest"
    by (rule committed_tail [OF ok w'(1) y z h(1)])
  have txn_ne: "ids 5 \<noteq> [] \<Longrightarrow> jr_transaction_id row \<noteq> []" using txn by (cases "ca_transaction_id args") auto
  have hash: "fld v ''payload'' (\<lambda>p. fld p ''new_state_hash'' as_str) = Inr (hs_state_hash after)"
    if "v \<in> set (list_habitat_events_for_execution (ca_agent_id args) ?i (jr_transaction_id row) (cw_store w'))" for v
    by (rule execution_events_hash [OF rest(1) _ h(2) shapes rest(2) that])
      (use assms(3) in \<open>simp_all add: execution_unseen_def\<close>)
  have facts: "committed_facts E (ca_agent_id args) request after (outcome\<lparr>vo_raw := raw\<rparr>) ?row (cw_store w')"
    unfolding committed_facts_def using journal row(1) oid(2) found assms(5) hash request
    by (simp add: row_prepared_def present_def)
  have "hp_habitat_events plan \<noteq> [] \<Longrightarrow> events \<noteq> []" using plan_event_count [OF plan] by auto
  then have "list_habitat_events_for_execution (ca_agent_id args) ?i (jr_transaction_id row) (cw_store w') \<noteq> []"
    if "hp_habitat_events plan \<noteq> []" "ids 5 \<noteq> []"
    using plan_events_stored [OF h(2) rest(1) shapes _ _ txn_ne, of ?i] that by (simp add: plan_envelope_def)
  then show ?thesis
    using that [OF vplan w'(3) facts, of events] plan w'(2,4,5) by simp
qed

text \<open>A retry then answers from the journal, after the memory has caught up.\<close>

definition replays :: "commit_result \<Rightarrow> commit_result \<Rightarrow> bool" where
  "replays c c' \<longleftrightarrow> mc_journal_status c' = STATUS_COMMITTED_SUCCESS \<and> mc_idempotent_replay c'
     \<and> (\<exists>outcome raw. mc_outcome c = Some outcome \<and> mc_outcome c' = Some (outcome\<lparr>vo_raw := raw\<rparr>))"

lemma retry_answers:
  assumes "committed_facts E (ca_agent_id args) request after (outcome\<lparr>vo_raw := raw\<rparr>) row (cw_store v)"
    and "mc_outcome c = Some outcome"
    and "maybe_rehydrate_committed_success E event_ids (ca_agent_id args) request validation row (cw_store v)
      (cw_engine v, cw_physiology v) = (Inr (), engine, phys)"
  shows "\<exists>c'. commit_manipulation_transaction E ids event_ids args request validation v
      = (Inr c', v\<lparr>cw_engine := engine, cw_physiology := phys\<rparr>) \<and> replays c c'"
proof -
  obtain i where i: "present (jr_outcome_id row) = Some i"
    "get_verified_outcome_by_id i (ca_agent_id args) (cw_store v) = Inr (Some (outcome\<lparr>vo_raw := raw\<rparr>))"
    using assms(1) by (auto simp: committed_facts_def)
  have row: "get_journal (mr_execution_id request) (cw_store v) = Some row" "jr_status row = STATUS_COMMITTED_SUCCESS"
    "jr_canonical_payload_hash row = canonical_payload_hash E request"
    using assms(1) by (simp_all add: committed_facts_def)
  have "commit_manipulation_transaction E ids event_ids args request validation v
      = replay_committed E event_ids args request validation row v"
    using row by (simp add: commit_manipulation_transaction_def journal_terminal_def)
  then show ?thesis
    using i row(2) assms(2,3)
    by (auto simp: replay_committed_def catch_up_world_def terminal_result_from_row_def replays_def intro!: exI [of _ raw])
qed

lemma rehydrate_current:
  assumes "committed_facts E agent_id request after outcome row s" and "hs_state_hash (he_state (fst body)) = hs_state_hash after"
  shows "maybe_rehydrate_committed_success E event_ids agent_id request validation row s body = (Inr (), body)"
  using assms by (auto simp: committed_facts_def maybe_rehydrate_committed_success_def Let_def)

lemma rehydrate_stale:
  assumes "committed_facts E agent_id request after outcome row s"
    and "hs_state_hash (he_state engine) \<noteq> hs_state_hash after"
    and "list_habitat_events_for_execution agent_id (mr_execution_id request) (jr_transaction_id row) s \<noteq> []"
    and "vr_effect_plan validation = Some plan"
    and "apply_effect_plan E ids (he_state engine) plan (plan_envelope (jr_transaction_id row) request) = Inr (after, events)"
  shows "maybe_rehydrate_committed_success E event_ids agent_id request validation row s (engine, phys)
    = (Inr (), catch_up after outcome (engine, phys))"
proof -
  obtain events' where "apply_effect_plan E event_ids (he_state engine) plan (plan_envelope (jr_transaction_id row) request)
      = Inr (after, events')"
    using plan_applies_again [OF assms(5)] by blast
  then show ?thesis
    using assms(1-4) last_in_set [OF assms(3)]
    by (auto simp: committed_facts_def maybe_rehydrate_committed_success_def Let_def plan_envelope_def)
qed

text \<open>C29: a committed manipulation is idempotent. After a fresh success, the same request sent again, with any validation and
  any crash point, to a process whose ledger is the one the success left and whose habitat has the state hash it reached,
  answers that success with the same outcome, marked as a replay, and leaves every part of the world as it is: no event, no
  second effect on the body. Sent again with its validation to a process that has only the ledger, its habitat and its body
  still being those from before the manipulation, it gives the same answer and brings both to exactly where the success had
  left them, once and without an event (provided the plan has an event and changed the hash, from which the code tells a stale
  habitat). Only the untyped copy of the outcome is read back in the order of its stored keys.\<close>

theorem committed_retry_is_idempotent:
  assumes "commit_manipulation_transaction E ids event_ids args request validation w = (Inr c, w')"
    and "mc_journal_status c = STATUS_COMMITTED_SUCCESS"
    and "execution_unseen (mr_execution_id request) (cw_store w)" and "ledger_ok E (cw_store w)"
    and "ids 2 \<noteq> []" and "ca_agent_id args' = ca_agent_id args"
  shows "(\<forall>v. cw_store v = cw_store w' \<and> hs_state_hash (he_state (cw_engine v)) = hs_state_hash (he_state (cw_engine w')) \<longrightarrow>
      (\<exists>c'. commit_manipulation_transaction E ids' event_ids' args' request validation' v = (Inr c', v) \<and> replays c c'))
    \<and> (\<forall>plan. vr_effect_plan validation = Some plan \<and> hp_habitat_events plan \<noteq> [] \<and> ids 5 \<noteq> []
        \<and> hs_state_hash (he_state (cw_engine w)) \<noteq> hs_state_hash (he_state (cw_engine w')) \<longrightarrow>
      (\<exists>c'. commit_manipulation_transaction E ids' event_ids' args' request validation
           (w'\<lparr>cw_engine := cw_engine w, cw_physiology := cw_physiology w\<rparr>) = (Inr c', w') \<and> replays c c'))"
proof -
  obtain plan row after events outcome raw where
    f: "vr_effect_plan validation = Some plan" "mc_outcome c = Some outcome"
    "committed_facts E (ca_agent_id args') request after (outcome\<lparr>vo_raw := raw\<rparr>) row (cw_store w')"
    "apply_effect_plan E event_ids (he_state (cw_engine w)) plan (plan_envelope (jr_transaction_id row) request) = Inr (after, events)"
    "hp_habitat_events plan \<noteq> [] \<and> ids 5 \<noteq> [] \<longrightarrow>
       list_habitat_events_for_execution (ca_agent_id args') (mr_execution_id request) (jr_transaction_id row) (cw_store w') \<noteq> []"
    "cw_engine w' = rebuild_indexes ((cw_engine w)\<lparr>he_state := after\<rparr>)" "he_state (cw_engine w') = after"
    "cw_physiology w' = apply_physiology outcome (cw_physiology w)"
    by (rule fresh_success_facts [OF assms(1-5), folded assms(6)]) (rule that)
  have raw: "apply_physiology (outcome\<lparr>vo_raw := raw\<rparr>) ph = apply_physiology outcome ph" for ph
    by (simp add: apply_physiology_def moderated_effects_def Let_def)
  have "\<exists>c'. commit_manipulation_transaction E ids' event_ids' args' request validation' v = (Inr c', v) \<and> replays c c'"
    if v: "cw_store v = cw_store w'" "hs_state_hash (he_state (cw_engine v)) = hs_state_hash (he_state (cw_engine w'))" for v
    using retry_answers [OF f(3) [folded v(1)] f(2) rehydrate_current [OF f(3) [folded v(1)]]] v(2) f(7) by simp
  moreover have "\<exists>c'. commit_manipulation_transaction E ids' event_ids' args' request validation
        (w'\<lparr>cw_engine := cw_engine w, cw_physiology := cw_physiology w\<rparr>) = (Inr c', w') \<and> replays c c'"
    if "hp_habitat_events plan \<noteq> []" "ids 5 \<noteq> []" "hs_state_hash (he_state (cw_engine w)) \<noteq> hs_state_hash (he_state (cw_engine w'))"
  proof -
    let ?v = "w'\<lparr>cw_engine := cw_engine w, cw_physiology := cw_physiology w\<rparr>"
    have v: "cw_store ?v = cw_store w'" "cw_engine ?v = cw_engine w" "cw_physiology ?v = cw_physiology w" by simp_all
    have "maybe_rehydrate_committed_success E event_ids' (ca_agent_id args') request validation row (cw_store ?v)
        (cw_engine ?v, cw_physiology ?v) = (Inr (), cw_engine w', cw_physiology w')"
      unfolding v using rehydrate_stale [OF f(3) _ f(5) [rule_format] f(1,4)] that f(6-8) by (simp add: catch_up_def raw)
    from retry_answers [OF f(3) [folded v(1)] f(2) this] show ?thesis by simp
  qed
  ultimately show ?thesis using f(1) by auto
qed


section \<open>Instances\<close>

text \<open>The sample habitat, an empty ledger, and the plan of a use of the resource with a cooldown. The digest of this
  environment is constant.\<close>

definition flat_env :: hash_env where
  "flat_env = \<lparr>float_repr = (\<lambda>_. []), sha256_hex = (\<lambda>_. ''h'')\<rparr>"

lemma flat_hash [simp]: "hash_canonical flat_env v = ''h''"
  by (simp add: hash_canonical_def flat_env_def)

definition sample_use_plan :: habitat_effect_plan where
  "sample_use_plan =
     \<lparr>hp_habitat_mutations =
        [VDict [(''object_id'', VStr ''resource:0''), (''mutation_kind'', VStr ''APPLY_WORLD_EFFECT''),
           (''field'', VStr ''state.remaining_yield''), (''delta'', VFlt (flit (- 1) 4))],
         VDict [(''object_id'', VStr ''resource:0''), (''mutation_kind'', VStr ''SET_COOLDOWN''),
           (''affordance_id'', VStr ''USE''), (''cooldown_until_tick'', VInt 10)]],
      hp_habitat_events =
        [VDict [(''event_type'', VStr HABITAT_OBJECT_STATE_CHANGED), (''object_id'', VStr ''resource:0''),
           (''new_state'', object_state_to_pyv (ResourceState (flit 3 4)))]],
      hp_requested_organism_effects = [VDict [(''effect_kind'', VStr ''RESOURCE_YIELD''), (''magnitude'', VFlt (flit 1 4))]]\<rparr>"

definition sample_args :: commit_args where
  "sample_args = \<lparr>ca_agent_id = ''a'', ca_prepared_tick = 0, ca_monotonic_time = Fin 0, ca_wall_time = Fin 0,
     ca_transaction_id = Some ''t'', ca_crash_after_stage = None\<rparr>"

definition sample_validation :: affordance_validation where
  "sample_validation = \<lparr>vr_allowed = True, vr_failure_code = None, vr_expected_object_version = None, vr_expected_habitat_version = None,
     vr_effect_plan = Some sample_use_plan, vr_applied_parameters = None\<rparr>"

definition sample_world :: commit_world where
  "sample_world = \<lparr>cw_store = empty_store,
     cw_governance = \<lparr>gv_state = default_governance_state, gv_last_decision = None\<rparr>,
     cw_engine = new_habitat_engine (sample_habitat_state flat_env), cw_physiology = default_physiology\<rparr>"

definition sample_use :: manipulation_request where
  "sample_use = sample_manipulation flat_env (sample_habitat_state flat_env) sample_rest
     (make_object flat_env ''resource:0'' RESOURCE (FreeLocation (Fin 4) (Fin 3) ''zone:general'') (ResourceState (Fin 1))
        (flit 12 10) [''USE''])"

abbreviation sample_event_ids :: "nat \<Rightarrow> nat \<Rightarrow> string" where
  "sample_event_ids \<equiv> \<lambda>i n. ''habitat-event''"

definition sample_ids :: "nat \<Rightarrow> string" where
  "sample_ids n = replicate (Suc n) CHR ''x''"

lemma sample_ids [simp]: "sample_ids n \<noteq> []" "sample_ids m = sample_ids n \<longleftrightarrow> m = n" "sample_ids n \<noteq> ''habitat-event''"
    "''habitat-event'' \<noteq> sample_ids n"
  by (simp_all add: sample_ids_def replicate_eq_replicate)

lemma sample_resource:
  "map_of (hs_objects (sample_habitat_state flat_env)) ''resource:0'' = Some (make_object flat_env ''resource:0'' RESOURCE
     (FreeLocation (Fin 4) (Fin 3) ''zone:general'') (ResourceState (Fin 1)) (flit 12 10) [''USE''])"
  by (simp add: sample_habitat_state_def Let_def)

lemma sample_plan_applies:
  obtains after d where "apply_effect_plan flat_env sample_event_ids (sample_habitat_state flat_env) sample_use_plan args
    = Inr (after, [habitat_event ''habitat-event'' HABITAT_OBJECT_STATE_CHANGED d])"
proof -
  have "\<exists>after. apply_all_mutations flat_env (sample_habitat_state flat_env) (hp_habitat_mutations sample_use_plan) = Inr after"
    using sample_resource
    by (simp add: apply_all_mutations_def sample_use_plan_def apply_one_mutation_def apply_committed_object_mutation_def
        mutate_as_planned_def bump_state_def apply_world_effect_mutations_def make_object_def Let_def
        with_object_state_hash_def with_habitat_hash_def set_object_cooldown_def apply_world_effect_def)
  then obtain after where "apply_all_mutations flat_env (sample_habitat_state flat_env) (hp_habitat_mutations sample_use_plan) = Inr after"
    by blast
  then have "\<exists>d. apply_effect_plan flat_env sample_event_ids (sample_habitat_state flat_env) sample_use_plan args
    = Inr (after, [habitat_event ''habitat-event'' HABITAT_OBJECT_STATE_CHANGED d])"
    by (simp add: apply_effect_plan_def) (simp add: sample_use_plan_def build_event_for_stub_def habitat_event_names
        build_habitat_event_def HABITAT_EVENT_TYPES_def habitat_event_def)
  then show ?thesis using that by blast
qed

theorem cooldown_event_does_not_replay_witness:
  "\<exists>after event e. apply_effect_plan flat_env sample_event_ids (sample_habitat_state flat_env) sample_use_plan no_args
      = Inr (after, [event])
    \<and> apply_habitat_event flat_env (Some (sample_habitat_state flat_env)) (canonical event) = Inl e"
proof -
  obtain after d where p: "apply_effect_plan flat_env sample_event_ids (sample_habitat_state flat_env) sample_use_plan no_args
    = Inr (after, [habitat_event ''habitat-event'' HABITAT_OBJECT_STATE_CHANGED d])" by (rule sample_plan_applies)
  then show ?thesis using cooldown_event_does_not_replay [OF p, of "habitat_event ''habitat-event'' HABITAT_OBJECT_STATE_CHANGED d"]
    by (simp add: sample_use_plan_def)
qed

theorem payload_mismatch_refused_witness:
  "commit_manipulation_transaction flat_env sample_ids sample_event_ids sample_args sample_use sample_validation
     (sample_world\<lparr>cw_store := empty_store\<lparr>st_journal := [(prepared_row flat_env sample_use 0 ''t'')\<lparr>jr_canonical_payload_hash := ''other''\<rparr>]\<rparr>\<rparr>)
   = (Inl (ExecutionJournalError EXECUTION_PAYLOAD_MISMATCH),
      sample_world\<lparr>cw_store := empty_store\<lparr>st_journal := [(prepared_row flat_env sample_use 0 ''t'')\<lparr>jr_canonical_payload_hash := ''other''\<rparr>]\<rparr>\<rparr>)"
  by (rule payload_mismatch_refused [where row = "(prepared_row flat_env sample_use 0 ''t'')\<lparr>jr_canonical_payload_hash := ''other''\<rparr>"])
    (simp_all add: get_journal_def prepared_row_def canonical_payload_hash_def)

lemma sample_row: "canonical_payload_hash flat_env r = ''h''"
  by (simp add: canonical_payload_hash_def)

lemma sample_append:
  assumes "st_event_storage_budget s = None" and "ne_monotonic_time ev = Fin 0" "ne_wall_time ev = Fin 0"
    and "list_all (\<lambda>q. er_sequence q \<noteq> last_sequence s + 1 \<and> er_event_id q \<noteq> or_fresh (ne_event_id ev) fresh) (st_events s)"
  shows "append_row E fresh ev s = Inr (s\<lparr>st_events := st_events s @ [new_row E fresh ev s],
     st_ledger_tip := Some (er_sequence (new_row E fresh ev s), er_event_hash (new_row E fresh ev s))\<rparr>)"
  using assms by (auto simp: append_row_def check_event_storage_budget_def insert_event_def new_row_def Let_def list_ex_iff list_all_iff)

lemma sample_effects:
  "organism_effects_to_physiology (hp_requested_organism_effects sample_use_plan) = Inr [(''energy'', flt_add (Fin 0) (flit 1 4))]"
  by (simp add: organism_effects_to_physiology_def sample_use_plan_def dget_def)

lemma new_row_fields [simp]:
  "er_event_id (new_row E fresh ev s) = or_fresh (ne_event_id ev) fresh"
  "er_sequence (new_row E fresh ev s) = last_sequence s + 1"
  by (simp_all add: new_row_def Let_def)

text \<open>The three rows of the sample commit are written.\<close>

lemma sample_stages:
  assumes "st_events s = []" "st_event_storage_budget s = None" "ledger_ok flat_env s"
    and "vo_outcome_id outcome = sample_ids 2"
  obtains x y z where
    "habitat_event_stage flat_env sample_args (habitat_event ''habitat-event'' HABITAT_OBJECT_STATE_CHANGED d) s = Inr x"
    "organism_effects_stage flat_env (sample_ids 3) sample_args sample_use (hp_requested_organism_effects sample_use_plan) x = Inr y"
    "append_row flat_env (sample_ids 4) (outcome_event sample_args sample_use outcome ''manipulation_committed'') y = Inr z"
proof -
  let ?ev = "\<lparr>ne_agent_id = ''a'', ne_event_type = HABITAT_OBJECT_STATE_CHANGED, ne_monotonic_time = Fin 0, ne_wall_time = Fin 0,
     ne_payload = VDict d, ne_causal_parent_ids = None, ne_event_id = Some ''habitat-event''\<rparr>"
  obtain x where x: "append_row flat_env ''habitat-event'' ?ev s = Inr x" "st_event_storage_budget x = None"
    "st_events x = [new_row flat_env ''habitat-event'' ?ev s]"
    using sample_append [of s ?ev "''habitat-event''" flat_env] assms(1,2) by simp
  note okx = append_ok [OF assms(3) x(1)]
  let ?ef = "\<lparr>ne_agent_id = ''a'', ne_event_type = ''organism_effect_applied'', ne_monotonic_time = Fin 0, ne_wall_time = Fin 0,
     ne_payload = VDict [(''execution_id'', VStr (mr_execution_id sample_use)), (''request_id'', VStr (mr_request_id sample_use)),
       (''effects'', VList (hp_requested_organism_effects sample_use_plan))], ne_causal_parent_ids = None, ne_event_id = None\<rparr>"
  obtain y where y: "append_row flat_env (sample_ids 3) ?ef x = Inr y" "st_event_storage_budget y = None"
    "st_events y = [new_row flat_env ''habitat-event'' ?ev s, new_row flat_env (sample_ids 3) ?ef x]"
    using sample_append [of x ?ef "sample_ids 3" flat_env] x(2,3) okx by simp
  note oky = append_ok [OF conjunct1 [OF okx] y(1)]
  obtain z where z: "append_row flat_env (sample_ids 4) (outcome_event sample_args sample_use outcome ''manipulation_committed'') y = Inr z"
    using sample_append [of y "outcome_event sample_args sample_use outcome ''manipulation_committed''" "sample_ids 4" flat_env] y(2,3) okx oky assms(4)
    by (simp add: outcome_event_def sample_args_def)
  show ?thesis
    using that x(1) y(1) z by (simp add: habitat_event_stage_def organism_effects_stage_def habitat_event_def sample_args_def sample_use_plan_def)
qed

abbreviation sample_prepared :: journal_row where
  "sample_prepared \<equiv> prepared_row flat_env sample_use 0 ''t''"

abbreviation sample_journaled :: store where
  "sample_journaled \<equiv> empty_store\<lparr>st_journal := [sample_prepared]\<rparr>"

lemma sample_store: "st_events sample_journaled = []" "st_event_storage_budget sample_journaled = None"
  "ledger_ok flat_env sample_journaled" "get_journal ''e'' sample_journaled = Some sample_prepared"
  using budget_only(2) [OF empty_ok] by (simp_all add: empty_store_def get_journal_def prepared_row_def sample_use_def sample_manipulation_def)

lemma sample_run:
  assumes "ca_crash_after_stage args = crash" "ca_transaction_id args = Some ''t''" "ca_prepared_tick args = 0"
  shows "commit_manipulation_transaction flat_env sample_ids sample_event_ids args sample_use sample_validation sample_world
    = commit_success flat_env sample_ids sample_event_ids args sample_use sample_use_plan (prepared_from_row sample_prepared)
        (sample_world\<lparr>cw_store := sample_journaled\<rparr>)"
proof -
  have e: "mr_execution_id sample_use = ''e''" by (simp add: sample_use_def sample_manipulation_def)
  have g: "get_journal ''e'' (cw_store sample_world) = None" by (simp add: sample_world_def empty_store_def get_journal_def)
  have empty: "st_journal empty_store = []" by (simp add: empty_store_def)
  have w: "cw_store sample_world = empty_store" by (simp add: sample_world_def)
  have i: "insert_journal_prepared sample_prepared empty_store = Inr sample_journaled"
    by (simp add: insert_journal_prepared_def empty)
  have p: "prepare_execution flat_env (sample_ids 5) sample_use 0 (Some ''t'') (cw_store sample_world)
      = (Inr (prepared_from_row sample_prepared), sample_journaled)"
    using g i sample_store(4) by (simp add: prepare_execution_def e w get_journal_by_request_def empty)
  show ?thesis
    using e g p sample_store(4) prepared_row_prepared [of flat_env sample_use 0 "''t''"]
    by (simp add: commit_manipulation_transaction_def assms commit_prepared_unseen sample_store(1) sample_validation_def)
qed

lemma sample_unseen: "execution_unseen (mr_execution_id sample_use) (cw_store sample_world)"
  by (simp add: execution_unseen_def sample_world_def empty_store_def get_journal_def)

lemma sample_commits:
  obtains c w' where "commit_manipulation_transaction flat_env sample_ids sample_event_ids sample_args sample_use sample_validation
      sample_world = (Inr c, w')" "mc_journal_status c = STATUS_COMMITTED_SUCCESS"
proof -
  let ?w = "sample_world\<lparr>cw_store := sample_journaled\<rparr>"
  let ?v = "verify_manipulation_outcome (sample_ids 2) sample_use True None [(''energy'', flt_add (Fin 0) (flit 1 4))] None
      (pe_transaction_id (prepared_from_row sample_prepared)) (cw_governance sample_world)"
  obtain outcome gv where v: "?v = (outcome, gv)" by fastforce
  then have oid: "vo_outcome_id outcome = sample_ids 2" by (auto simp: verify_manipulation_outcome_def)
  have he: "he_state (cw_engine sample_world) = sample_habitat_state flat_env" by (simp add: sample_world_def new_habitat_engine_def)
  obtain after d where p: "apply_effect_plan flat_env sample_event_ids (sample_habitat_state flat_env) sample_use_plan
     (plan_envelope (pe_transaction_id (prepared_from_row sample_prepared)) sample_use)
    = Inr (after, [habitat_event ''habitat-event'' HABITAT_OBJECT_STATE_CHANGED d])" by (rule sample_plan_applies)
  obtain x y z where s:
    "habitat_event_stage flat_env sample_args (habitat_event ''habitat-event'' HABITAT_OBJECT_STATE_CHANGED d) sample_journaled = Inr x"
    "organism_effects_stage flat_env (sample_ids 3) sample_args sample_use (hp_requested_organism_effects sample_use_plan) x = Inr y"
    "append_row flat_env (sample_ids 4) (outcome_event sample_args sample_use outcome ''manipulation_committed'') y = Inr z"
    by (rule sample_stages [OF sample_store(1-3) oid])
  have no_crash: "ca_crash_after_stage sample_args = None" by (simp add: sample_args_def)
  have "\<exists>c w'. commit_success flat_env sample_ids sample_event_ids sample_args sample_use sample_use_plan
      (prepared_from_row sample_prepared) ?w = (Inr c, w') \<and> mc_journal_status c = STATUS_COMMITTED_SUCCESS"
    using p v s he sample_effects
    using no_crash by (simp add: commit_success_def atomic_outcome_def journal_stage_def catch_up_def)
  then show ?thesis
    using that sample_run [OF refl, of sample_args] by (auto simp: sample_args_def)
qed

lemma sample_ok: "ledger_ok flat_env (cw_store sample_world)"
  by (simp add: sample_world_def empty_ok)

theorem committed_retry_is_idempotent_witness:
  "\<exists>c w' c'. commit_manipulation_transaction flat_env sample_ids sample_event_ids sample_args sample_use sample_validation
      sample_world = (Inr c, w')
    \<and> commit_manipulation_transaction flat_env sample_ids sample_event_ids sample_args sample_use sample_validation w' = (Inr c', w')
    \<and> replays c c'"
proof -
  obtain c w' where c: "commit_manipulation_transaction flat_env sample_ids sample_event_ids sample_args sample_use sample_validation
      sample_world = (Inr c, w')" "mc_journal_status c = STATUS_COMMITTED_SUCCESS" by (rule sample_commits)
  from committed_retry_is_idempotent [OF c sample_unseen sample_ok,
      where args' = sample_args and ids' = sample_ids and event_ids' = sample_event_ids and validation' = sample_validation] show ?thesis
    using c(1) by (auto intro: exI [of _ c] exI [of _ w'])
qed

text \<open>The same call with a crash after the habitat events are written.\<close>

lemma sample_crashes:
  obtains e w1 where "commit_manipulation_transaction flat_env sample_ids sample_event_ids (sample_args\<lparr>ca_crash_after_stage := Some 1\<rparr>)
      sample_use sample_validation sample_world = (Inl e, w1)"
proof -
  let ?args = "sample_args\<lparr>ca_crash_after_stage := Some 1\<rparr>"
  have he: "he_state (cw_engine sample_world) = sample_habitat_state flat_env" by (simp add: sample_world_def new_habitat_engine_def)
  obtain after d where p: "apply_effect_plan flat_env sample_event_ids (sample_habitat_state flat_env) sample_use_plan
     (plan_envelope (pe_transaction_id (prepared_from_row sample_prepared)) sample_use)
    = Inr (after, [habitat_event ''habitat-event'' HABITAT_OBJECT_STATE_CHANGED d])" by (rule sample_plan_applies)
  obtain outcome gv where v: "verify_manipulation_outcome (sample_ids 2) sample_use True None [(''energy'', flt_add (Fin 0) (flit 1 4))] None
      (pe_transaction_id (prepared_from_row sample_prepared)) (cw_governance sample_world) = (outcome, gv)" by fastforce
  then have oid: "vo_outcome_id outcome = sample_ids 2" by (auto simp: verify_manipulation_outcome_def)
  obtain x where s: "habitat_event_stage flat_env sample_args (habitat_event ''habitat-event'' HABITAT_OBJECT_STATE_CHANGED d) sample_journaled = Inr x"
    by (rule sample_stages [OF sample_store(1-3) oid])
  have same: "habitat_event_stage flat_env ?args = habitat_event_stage flat_env sample_args"
    by (simp add: habitat_event_stage_def fun_eq_iff)
  have "\<exists>e w1. commit_success flat_env sample_ids sample_event_ids ?args sample_use sample_use_plan
      (prepared_from_row sample_prepared) (sample_world\<lparr>cw_store := sample_journaled\<rparr>) = (Inl e, w1)"
    using p v s he sample_effects same by (simp add: commit_success_def atomic_outcome_def)
  then show ?thesis using that sample_run [OF refl, of ?args] by (auto simp: sample_args_def)
qed

theorem retry_after_crash_witness:
  "\<exists>e w1. commit_manipulation_transaction flat_env sample_ids sample_event_ids (sample_args\<lparr>ca_crash_after_stage := Some 1\<rparr>)
      sample_use sample_validation sample_world = (Inl e, w1)
    \<and> outside_governance (commit_manipulation_transaction flat_env sample_ids sample_event_ids sample_args sample_use sample_validation w1)
      = outside_governance (commit_manipulation_transaction flat_env sample_ids sample_event_ids
          (sample_args\<lparr>ca_transaction_id := Some ''t''\<rparr>) sample_use sample_validation sample_world)"
proof -
  obtain e w1 where c: "commit_manipulation_transaction flat_env sample_ids sample_event_ids (sample_args\<lparr>ca_crash_after_stage := Some 1\<rparr>)
      sample_use sample_validation sample_world = (Inl e, w1)" by (rule sample_crashes)
  from retry_after_crash [OF c sample_unseen, of "''t''"] show ?thesis
    using c by (intro exI [of _ e] exI [of _ w1]) (simp add: sample_args_def)
qed

end
