(* ===== verification/Competition.thy ===== *)
theory Competition
  imports HabitatEngine Physiology
begin

text \<open>
  \<open>stochastic_competition.py\<close> and \<open>distributed_competition.py\<close>: how one of the admissible candidates of a tick is selected. The
  consequences of a candidate are compared channel by channel, a candidate that another one beats on supported evidence is
  dominated, and among the rest a perturbation derived from the identity of the candidate decides. The functions of
  \<open>math\<close> are the fields of \<open>libm\<close>. A callable that gives the channels of an owner is a function of the candidate.
\<close>

section \<open>Candidate-local perturbation\<close>

definition COMPETITION_CONTRACT_SCHEMA :: string where
  "COMPETITION_CONTRACT_SCHEMA = ''CANDIDATE_STABLE_STOCHASTIC_TERM_V1''"

definition CANDIDATE_COMPETITION_NAMESPACE :: string where
  "CANDIDATE_COMPETITION_NAMESPACE = ''ordinary_candidate_competition:v1''"

definition CANDIDATE_NOISE_SIGMA :: flt where
  "CANDIDATE_NOISE_SIGMA = flit 8 100"

definition PROVENANCE_ONLY_KEYS :: "string list" where
  "PROVENANCE_ONLY_KEYS =
     [''source'', ''memory_item_id'', ''practice_goal_id'', ''routine_skill_id'', ''goal_id'', ''trace_id'', ''provenance'',
      ''proposal_id'', ''supporting_evidence_refs'']"

text \<open>The keys that only tell where a proposal came from are left out, at any depth.\<close>

primrec normalize_behavioral_value :: "pyv \<Rightarrow> pyv res" where
  "normalize_behavioral_value VNone = Inr VNone"
| "normalize_behavioral_value (VBool b) = Inr (VBool b)"
| "normalize_behavioral_value (VInt i) = Inr (VInt i)"
| "normalize_behavioral_value (VFlt x) =
     (if is_finite x then Inr (VFlt x) else Inl (ValueError ''non_finite_behavioral_parameter''))"
| "normalize_behavioral_value (VStr s) = Inr (VStr s)"
| "normalize_behavioral_value (VList xs) =
     andThen (mapE (\<lambda>r. r) (map normalize_behavioral_value xs)) (\<lambda>ys. Inr (VList ys))"
| "normalize_behavioral_value (VDict d) =
     andThen (mapE (\<lambda>(k, r). andThen r (\<lambda>v. Inr (k, v)))
       (filter (\<lambda>(k, r). k \<notin> set PROVENANCE_ONLY_KEYS) (map (map_prod id normalize_behavioral_value) d)))
       (\<lambda>e. Inr (VDict e))"

definition candidate_behavioral_identity :: "hash_env \<Rightarrow> string \<Rightarrow> pyv dict \<Rightarrow> string res" where
  "candidate_behavioral_identity E capability params =
     andThen (normalize_behavioral_value (VDict params)) (\<lambda>p.
     Inr (canon_json E (VDict [(''capability'', VStr capability), (''params'', p)])))"

record libm =
  lm_log :: "flt \<Rightarrow> flt"
  lm_sqrt :: "flt \<Rightarrow> flt"
  lm_cos :: "flt \<Rightarrow> flt"

text \<open>\<open>math.pi\<close>, exactly.\<close>

definition math_pi :: flt where
  "math_pi = Fin (884279719003555 / 281474976710656)"

fun hex_value :: "string \<Rightarrow> int" where
  "hex_value [] = 0"
| "hex_value (c # cs) =
     (let n = (of_char c :: int); d = (if n < 58 then n - 48 else n - 87) in d * 16 ^ length cs + hex_value cs)"

text \<open>\<open>int.from_bytes(digest[a:b], 'big')\<close> is the number the hexadecimal digits \<open>2 a\<close> to \<open>2 b\<close> denote.\<close>

definition digest_int :: "string \<Rightarrow> nat \<Rightarrow> nat \<Rightarrow> int" where
  "digest_int digest a b = hex_value (take (2 * (b - a)) (drop (2 * a) digest))"

definition unit_from_digest :: "string \<Rightarrow> nat \<Rightarrow> nat \<Rightarrow> flt" where
  "unit_from_digest digest a b = flt_div (flt_add (flt_of_int (digest_int digest a b)) (flit 1 2)) (Fin (2 ^ 64))"

definition candidate_stochastic_term ::
  "libm \<Rightarrow> hash_env \<Rightarrow> pyv \<Rightarrow> int \<Rightarrow> string \<Rightarrow> pyv dict \<Rightarrow> string \<Rightarrow> flt \<Rightarrow> flt res" where
  "candidate_stochastic_term M E organism_basis active_tick capability params namespace sigma =
     andThen (as_str organism_basis) (\<lambda>basis.
     andThen (candidate_behavioral_identity E capability params) (\<lambda>identity.
     let digest = hash_canonical E (VDict
           [(''schema'', VStr COMPETITION_CONTRACT_SCHEMA), (''namespace'', VStr namespace), (''organism_basis'', VStr basis),
            (''active_tick'', VInt active_tick), (''candidate_identity'', VStr identity)]);
         u1 = unit_from_digest digest 0 8;
         u2 = unit_from_digest digest 8 16;
         standard_normal = flt_mult (lm_sqrt M (flt_mult (Fin (- 2)) (lm_log M u1)))
           (lm_cos M (flt_mult (flt_mult (Fin 2) math_pi) u2))
     in Inr (flt_mult sigma standard_normal)))"

section \<open>Evidence and views\<close>

definition SUPPORTED :: string where
  "SUPPORTED = ''SUPPORTED''"

definition UNKNOWN :: string where
  "UNKNOWN = ''UNKNOWN''"

definition NOT_APPLICABLE :: string where
  "NOT_APPLICABLE = ''NOT_APPLICABLE''"

lemmas evidence_statuses = SUPPORTED_def UNKNOWN_def NOT_APPLICABLE_def

definition MAX_ORDINARY_CANDIDATES :: nat where
  "MAX_ORDINARY_CANDIDATES = 256"

definition MAX_CHANNELS_PER_CANDIDATE :: nat where
  "MAX_CHANNELS_PER_CANDIDATE = 64"

definition MAX_PROVENANCE_REFS :: nat where
  "MAX_PROVENANCE_REFS = 4"

record evidence =
  ev_status :: string
  ev_order :: "flt option"
  ev_provenance :: "string list"

definition make_evidence :: "string \<Rightarrow> flt option \<Rightarrow> string list \<Rightarrow> evidence res" where
  "make_evidence status order provenance =
     (if status \<notin> {SUPPORTED, UNKNOWN, NOT_APPLICABLE} then Inl (ValueError (''invalid_evidence_status:'' @ status))
      else if status = SUPPORTED \<and> order = None then Inl (ValueError ''supported_evidence_requires_order'')
      else if status \<noteq> SUPPORTED \<and> order \<noteq> None then Inl (ValueError ''unsupported_evidence_cannot_have_order'')
      else if MAX_PROVENANCE_REFS < length provenance then Inl (ValueError ''evidence_provenance_bound_exceeded'')
      else Inr \<lparr>ev_status = status, ev_order = order, ev_provenance = provenance\<rparr>)"

definition evidence_as_dict :: "evidence \<Rightarrow> pyv" where
  "evidence_as_dict v = VDict
     [(''status'', VStr (ev_status v)), (''order'', v_opt VFlt (ev_order v)), (''provenance'', v_strs (ev_provenance v))]"

text \<open>The three constructors never raise: the provenance they are given is cut first.\<close>

definition kept_provenance :: "string list \<Rightarrow> string list" where
  "kept_provenance provenance = take MAX_PROVENANCE_REFS (filter (\<lambda>s. s \<noteq> []) provenance)"

definition supported :: "flt \<Rightarrow> string list \<Rightarrow> evidence" where
  "supported order provenance = \<lparr>ev_status = SUPPORTED, ev_order = Some order, ev_provenance = kept_provenance provenance\<rparr>"

definition unknown :: "string list \<Rightarrow> evidence" where
  "unknown provenance = \<lparr>ev_status = UNKNOWN, ev_order = None, ev_provenance = kept_provenance provenance\<rparr>"

definition not_applicable :: evidence where
  "not_applicable = \<lparr>ev_status = NOT_APPLICABLE, ev_order = None, ev_provenance = []\<rparr>"

text \<open>\<open>Candidate\<close> of \<open>arbitration.py\<close>.\<close>

record candidate =
  cd_capability :: string
  cd_params :: "pyv dict"
  cd_scores :: "flt dict"
  cd_total :: flt

record consequence_view =
  vw_identity :: string
  vw_capability :: string
  vw_params :: "pyv dict"
  vw_channels :: "evidence dict"
  vw_stochastic_term :: flt

definition make_view :: "string \<Rightarrow> string \<Rightarrow> pyv dict \<Rightarrow> evidence dict \<Rightarrow> flt \<Rightarrow> consequence_view res" where
  "make_view identity capability params channels stochastic_term =
     (if MAX_CHANNELS_PER_CANDIDATE < length channels then Inl (ValueError ''candidate_channel_bound_exceeded'')
      else Inr \<lparr>vw_identity = identity, vw_capability = capability, vw_params = params, vw_channels = channels,
                vw_stochastic_term = stochastic_term\<rparr>)"

definition view_as_dict :: "consequence_view \<Rightarrow> pyv" where
  "view_as_dict v = VDict
     [(''schema'', VStr ''CANDIDATE_CONSEQUENCE_VIEW_V1''), (''identity'', VStr (vw_identity v)),
      (''capability'', VStr (vw_capability v)), (''params'', VDict (vw_params v)),
      (''channels'', VDict (map (\<lambda>(k, e). (k, evidence_as_dict e)) (sorted_items (vw_channels v)))),
      (''stochastic_term'', VFlt (vw_stochastic_term v))]"

text \<open>A channel of an owner is evidence already, or a value to read it from.\<close>

datatype channel_value = Evidence evidence | RawEvidence pyv

fun coerce_evidence :: "channel_value \<Rightarrow> evidence res" where
  "coerce_evidence (Evidence e) = Inr e"
| "coerce_evidence (RawEvidence (VDict d)) =
     andThen (fld_or (VDict d) ''status'' (VStr UNKNOWN) as_str) (\<lambda>status.
     andThen (fld_or (VDict d) ''provenance'' (VList []) as_list) (\<lambda>items.
     andThen (mapE as_str (filter truthy items)) (\<lambda>provenance.
     andThen (get_or (VDict d) ''order'' VNone) (\<lambda>order.
     andThen (if status = SUPPORTED then opt_conv as_float order else Inr None) (\<lambda>value.
     make_evidence status value (take MAX_PROVENANCE_REFS provenance))))))"
| "coerce_evidence (RawEvidence v) = Inl (TypeError ''evidence_value_must_be_mapping'')"

section \<open>Dominance\<close>

record dominance_attempt =
  at_dominator :: string
  at_target :: string
  at_passed :: bool
  at_reason :: string
  at_strict_channels :: "string list"
  at_blocking_channels :: "string list"

definition attempt_as_dict :: "dominance_attempt \<Rightarrow> pyv" where
  "attempt_as_dict t = VDict
     [(''dominator'', VStr (at_dominator t)), (''target'', VStr (at_target t)), (''passed'', VBool (at_passed t)),
      (''reason'', VStr (at_reason t)), (''strict_channels'', v_strs (at_strict_channels t)),
      (''blocking_channels'', v_strs (at_blocking_channels t))]"

definition channel_of :: "consequence_view \<Rightarrow> string \<Rightarrow> evidence" where
  "channel_of v k = dget not_applicable k (vw_channels v)"

definition channel_keys :: "consequence_view list \<Rightarrow> string list" where
  "channel_keys views = sorted_list_of_set (\<Union>v\<in>set views. set (dkeys (vw_channels v)))"

definition order_of :: "evidence \<Rightarrow> flt" where
  "order_of e = (case ev_order e of None \<Rightarrow> NaN | Some x \<Rightarrow> x)"

text \<open>The loop over the channels, with the strict and the blocked ones so far.\<close>

fun compare_channels ::
  "consequence_view \<Rightarrow> consequence_view \<Rightarrow> string list \<Rightarrow> string list \<Rightarrow> string list \<Rightarrow> dominance_attempt" where
  "compare_channels a b strict blocked [] =
     (if blocked \<noteq> [] then \<lparr>at_dominator = vw_identity a, at_target = vw_identity b, at_passed = False,
         at_reason = ''unknown_or_inapplicable_blocks_elimination'', at_strict_channels = strict, at_blocking_channels = blocked\<rparr>
      else if strict = [] then \<lparr>at_dominator = vw_identity a, at_target = vw_identity b, at_passed = False,
         at_reason = ''no_strict_supported_improvement'', at_strict_channels = [], at_blocking_channels = []\<rparr>
      else \<lparr>at_dominator = vw_identity a, at_target = vw_identity b, at_passed = True,
         at_reason = ''supported_no_worse_everywhere_and_strictly_better'', at_strict_channels = strict,
         at_blocking_channels = []\<rparr>)"
| "compare_channels a b strict blocked (key # keys) =
     (let av = channel_of a key; bv = channel_of b key in
      if ev_status av = NOT_APPLICABLE \<and> ev_status bv = NOT_APPLICABLE then compare_channels a b strict blocked keys
      else if ev_status av \<noteq> SUPPORTED \<or> ev_status bv \<noteq> SUPPORTED then compare_channels a b strict (blocked @ [key]) keys
      else if flt_lt (order_of av) (order_of bv)
      then \<lparr>at_dominator = vw_identity a, at_target = vw_identity b, at_passed = False,
         at_reason = ''worse_in_supported_channel'', at_strict_channels = strict, at_blocking_channels = [key]\<rparr>
      else if flt_lt (order_of bv) (order_of av) then compare_channels a b (strict @ [key]) blocked keys
      else compare_channels a b strict blocked keys)"

definition supported_dominance :: "consequence_view \<Rightarrow> consequence_view \<Rightarrow> dominance_attempt" where
  "supported_dominance a b = compare_channels a b [] [] (channel_keys [a, b])"

section \<open>The frontier\<close>

record competition_result =
  cr_selected_identity :: string
  cr_frontier_identities :: "string list"
  cr_dominated_identities :: "string list"
  cr_attempts :: "dominance_attempt list"
  cr_stochastic_resolution_required :: bool

definition result_as_dict :: "competition_result \<Rightarrow> pyv dict" where
  "result_as_dict r =
     [(''schema'', VStr ''SUPPORTED_DOMINANCE_DISTRIBUTED_COMPETITION_V1''),
      (''selected_identity'', VStr (cr_selected_identity r)), (''frontier_identities'', v_strs (cr_frontier_identities r)),
      (''dominated_identities'', v_strs (cr_dominated_identities r)),
      (''stochastic_resolution_required'', VBool (cr_stochastic_resolution_required r)),
      (''attempts'', VList (map attempt_as_dict (cr_attempts r)))]"

definition pairwise_attempts :: "consequence_view list \<Rightarrow> dominance_attempt list" where
  "pairwise_attempts ordered =
     concat (map (\<lambda>a. map (supported_dominance a) (filter (\<lambda>b. vw_identity a \<noteq> vw_identity b) ordered)) ordered)"

definition best_term :: "consequence_view list \<Rightarrow> consequence_view" where
  "best_term views = hd (sort_key (\<lambda>v. (flt_neg (vw_stochastic_term v), vw_identity v)) views)"

definition resolve_supported_frontier :: "consequence_view list \<Rightarrow> competition_result res" where
  "resolve_supported_frontier views =
     (if views = [] then Inl (ValueError ''no_admissible_existing_candidate'')
      else if MAX_ORDINARY_CANDIDATES < length views then Inl (ValueError ''ordinary_candidate_bound_exceeded'')
      else if card (set (map vw_identity views)) \<noteq> length views
      then Inl (ValueError ''duplicate_behavioral_candidate_not_deduplicated'')
      else
        let ordered = sort_key vw_identity views;
            attempts = pairwise_attempts ordered;
            dominated = set (map at_target (filter at_passed attempts));
            frontier = filter (\<lambda>v. vw_identity v \<notin> dominated) ordered
        in if frontier = [] then Inl (RuntimeError ''supported_dominance_frontier_empty'')
           else Inr \<lparr>cr_selected_identity = vw_identity (best_term frontier),
             cr_frontier_identities = map vw_identity frontier, cr_dominated_identities = sorted_list_of_set dominated,
             cr_attempts = attempts, cr_stochastic_resolution_required = 1 < length frontier\<rparr>)"

section \<open>Building the views\<close>

fun worst_of :: "flt list \<Rightarrow> flt" where
  "worst_of [] = NaN"
| "worst_of (x # xs) = foldl py_max x xs"

definition worst_distance :: "flt \<Rightarrow> bounds \<Rightarrow> string \<Rightarrow> flt dict list \<Rightarrow> flt" where
  "worst_distance current b dimension branches =
     worst_of (map (\<lambda>branch. flt_abs (flt_sub (flt_add current (dget (Fin 0) dimension branch)) (bd_ideal b))) branches)"

definition physiology_channels :: "physiology \<Rightarrow> flt dict list \<Rightarrow> evidence dict" where
  "physiology_channels phys effect_branches =
     (let branches = (if effect_branches = [] then [[]] else effect_branches)
      in map (\<lambda>(dimension, b). (''physiology.'' @ dimension,
           supported (flt_neg (worst_distance (phys_get phys dimension) b dimension branches))
             [''constitutional_effect_branch:'' @ dimension])) BOUNDS)"

text \<open>The channels of the six owners, in the order they are merged; an absent owner has none.\<close>

record owner_channels =
  oc_self_model_view :: "channel_value dict"
  oc_world_model_view :: "channel_value dict"
  oc_temporal_channels :: "channel_value dict"
  oc_individuality_channels :: "channel_value dict"
  oc_contextual_channels :: "channel_value dict"
  oc_option_channels :: "channel_value dict"

definition owners_in_order :: "owner_channels \<Rightarrow> channel_value dict list" where
  "owners_in_order oc =
     [oc_self_model_view oc, oc_world_model_view oc, oc_temporal_channels oc, oc_individuality_channels oc,
      oc_contextual_channels oc, oc_option_channels oc]"

definition add_channel :: "evidence dict \<Rightarrow> string \<times> channel_value \<Rightarrow> evidence dict res" where
  "add_channel channels = (\<lambda>(key, v).
     if map_of channels key \<noteq> None then Inl (ValueError (''duplicate_evidence_channel:'' @ key))
     else andThen (coerce_evidence v) (\<lambda>e. Inr (dput key e channels)))"

definition build_consequence_view ::
  "libm \<Rightarrow> hash_env \<Rightarrow> candidate \<Rightarrow> physiology \<Rightarrow> flt dict list \<Rightarrow> pyv option \<Rightarrow> int \<Rightarrow> owner_channels \<Rightarrow> consequence_view res" where
  "build_consequence_view M E c phys effect_branches organism_basis active_tick owners =
     andThen (candidate_behavioral_identity E (cd_capability c) (cd_params c)) (\<lambda>identity.
     andThen (foldE (\<lambda>channels owner. foldE add_channel channels (sorted_items owner))
         (physiology_channels phys effect_branches) (owners_in_order owners)) (\<lambda>channels.
     andThen (case organism_basis of None \<Rightarrow> Inr (Fin 0)
       | Some basis \<Rightarrow> candidate_stochastic_term M E basis active_tick (cd_capability c) (cd_params c)
           CANDIDATE_COMPETITION_NAMESPACE CANDIDATE_NOISE_SIGMA) (\<lambda>stochastic.
     make_view identity (cd_capability c) (cd_params c) channels stochastic)))"

definition evaluate_candidates ::
  "libm \<Rightarrow> hash_env \<Rightarrow> candidate list \<Rightarrow> physiology \<Rightarrow> pyv option \<Rightarrow> int \<Rightarrow> (candidate \<Rightarrow> flt dict list)
    \<Rightarrow> (candidate \<Rightarrow> owner_channels) \<Rightarrow> (candidate \<times> consequence_view list \<times> competition_result) res" where
  "evaluate_candidates M E candidates phys organism_basis active_tick effect_branches_for owners_for =
     (if MAX_ORDINARY_CANDIDATES < length candidates then Inl (ValueError ''ordinary_candidate_bound_exceeded'')
      else
        andThen (mapE (\<lambda>c. build_consequence_view M E c phys (effect_branches_for c) organism_basis active_tick (owners_for c))
          candidates) (\<lambda>views.
        andThen (resolve_supported_frontier views) (\<lambda>r.
        case List.find (\<lambda>(c, v). vw_identity v = cr_selected_identity r) (zip candidates views) of
          None \<Rightarrow> Inl (RuntimeError ''StopIteration'')
        | Some (c, v) \<Rightarrow> Inr (c, views, r))))"

section \<open>The trace\<close>

definition status_count :: "string \<Rightarrow> consequence_view list \<Rightarrow> string \<Rightarrow> pyv" where
  "status_count status views key = VInt (int (length (filter (\<lambda>v. ev_status (channel_of v key) = status) views)))"

definition trace_summary :: "consequence_view list \<Rightarrow> competition_result \<Rightarrow> pyv" where
  "trace_summary views r =
     (let keys = channel_keys views; full_pool = best_term views; n = length (cr_frontier_identities r)
      in VDict (dict_update (result_as_dict r)
        [(''admissible_candidate_count'', VInt (int (length views))),
         (''applicable_channel_count'', VInt (int (length keys))),
         (''supported_count_by_channel'', VDict (map (\<lambda>k. (k, status_count SUPPORTED views k)) keys)),
         (''unknown_count_by_channel'', VDict (map (\<lambda>k. (k, status_count UNKNOWN views k)) keys)),
         (''pairwise_dominance_count'', VInt (int (length (filter at_passed (cr_attempts r))))),
         (''eliminated_candidate_count'', VInt (int (length (cr_dominated_identities r)))),
         (''frontier_size'', VInt (int n)),
         (''frontier_full_pool_ratio'', VFlt (flt_div (flt_of_int (int n)) (flt_of_int (int (length views))))),
         (''frontier_equals_full_pool'', VBool (n = length views)),
         (''stochastic_only_full_pool_shadow_winner'', VStr (vw_identity full_pool)),
         (''distributed_changed_winner'', VBool (vw_identity full_pool \<noteq> cr_selected_identity r)),
         (''views'', VList (map view_as_dict views))]))"

section \<open>Dominance as a strict preference\<close>

text \<open>What the comparison means, channel by channel.\<close>

definition no_worse :: "evidence \<Rightarrow> evidence \<Rightarrow> bool" where
  "no_worse av bv \<longleftrightarrow> ev_status av = NOT_APPLICABLE \<and> ev_status bv = NOT_APPLICABLE
     \<or> ev_status av = SUPPORTED \<and> ev_status bv = SUPPORTED \<and> \<not> flt_lt (order_of av) (order_of bv)"

definition better :: "evidence \<Rightarrow> evidence \<Rightarrow> bool" where
  "better av bv \<longleftrightarrow> ev_status av = SUPPORTED \<and> ev_status bv = SUPPORTED \<and> flt_lt (order_of bv) (order_of av)"

definition dominates :: "consequence_view \<Rightarrow> consequence_view \<Rightarrow> bool" where
  "dominates a b \<longleftrightarrow> (\<forall>k. no_worse (channel_of a k) (channel_of b k)) \<and> (\<exists>k. better (channel_of a k) (channel_of b k))"

text \<open>Every supported channel has a number as its order.\<close>

definition orders_comparable :: "consequence_view \<Rightarrow> bool" where
  "orders_comparable v \<longleftrightarrow> list_all (\<lambda>(k, e). ev_status e = SUPPORTED \<longrightarrow> order_of e \<noteq> NaN) (vw_channels v)"

lemma comparable_channel: "orders_comparable v \<Longrightarrow> ev_status (channel_of v k) = SUPPORTED \<Longrightarrow> order_of (channel_of v k) \<noteq> NaN"
  by (auto simp: orders_comparable_def channel_of_def dget_def list_all_iff not_applicable_def evidence_statuses
      split: option.splits dest!: map_of_SomeD)

lemma lt_nan_free: "x \<noteq> NaN \<Longrightarrow> y \<noteq> NaN \<Longrightarrow> flt_lt x y \<longleftrightarrow> x < y"
  by (simp add: less_flt_def)

lemma statuses_differ [simp]: "NOT_APPLICABLE \<noteq> SUPPORTED" "SUPPORTED \<noteq> NOT_APPLICABLE" "UNKNOWN \<noteq> SUPPORTED" "SUPPORTED \<noteq> UNKNOWN"
  by (simp_all add: evidence_statuses)

lemma no_worse_trans:
  assumes "no_worse x y" "no_worse y z"
    and "\<And>e. e \<in> {x, y, z} \<Longrightarrow> ev_status e = SUPPORTED \<Longrightarrow> order_of e \<noteq> NaN"
  shows "no_worse x z \<and> (better x y \<or> better y z \<longrightarrow> better x z)"
proof (cases "ev_status y = SUPPORTED")
  case True
  then have st: "ev_status x = SUPPORTED" "ev_status z = SUPPORTED" using assms(1,2) by (auto simp: no_worse_def)
  have "order_of x \<noteq> NaN" "order_of y \<noteq> NaN" "order_of z \<noteq> NaN" using assms(3) st True by simp_all
  then show ?thesis using assms(1,2) st True by (auto simp: no_worse_def better_def lt_nan_free)
next
  case False
  then show ?thesis using assms(1,2) by (simp add: no_worse_def better_def)
qed

locale strict_preference =
  fixes prefer_to :: "'a \<Rightarrow> 'a \<Rightarrow> bool" and comparable :: "'a \<Rightarrow> bool"
  assumes irreflexive: "comparable x \<Longrightarrow> \<not> prefer_to x x"
    and transitive: "comparable x \<Longrightarrow> comparable y \<Longrightarrow> comparable z \<Longrightarrow> prefer_to x y \<Longrightarrow> prefer_to y z \<Longrightarrow> prefer_to x z"
begin

lemma some_maximal:
  assumes "finite A" "A \<noteq> {}" "\<And>x. x \<in> A \<Longrightarrow> comparable x"
  obtains m where "m \<in> A" "\<And>x. x \<in> A \<Longrightarrow> \<not> prefer_to x m"
proof -
  have "asymp_on A (\<lambda>x y. prefer_to y x)" "transp_on A (\<lambda>x y. prefer_to y x)"
    using assms(3) by (auto intro!: asymp_onI transp_onI dest: transitive irreflexive)
  from Finite_Set.bex_max_element [OF assms(1) this assms(2)] show ?thesis using that assms(3) irreflexive by metis
qed

text \<open>In a finite pool what is not maximal has something maximal above it.\<close>

lemma covered:
  assumes "finite A" "\<And>x. x \<in> A \<Longrightarrow> comparable x" "b \<in> A"
  shows "\<exists>m\<in>A. (m = b \<or> prefer_to m b) \<and> (\<forall>x\<in>A. \<not> prefer_to x m)"
proof (cases "\<exists>x\<in>A. prefer_to x b")
  case True
  let ?B = "{x \<in> A. prefer_to x b}"
  obtain m where m: "m \<in> ?B" "\<And>x. x \<in> ?B \<Longrightarrow> \<not> prefer_to x m"
    by (rule some_maximal [of ?B]) (use assms True in auto)
  moreover have "\<not> prefer_to x m" if "x \<in> A" for x using m that assms transitive [of x m b] by auto
  ultimately show ?thesis by blast
qed (use assms in blast)

end

interpretation supported: strict_preference dominates orders_comparable
proof
  show "\<not> dominates x x" if "orders_comparable x" for x
    using comparable_channel [OF that] by (auto simp: dominates_def better_def lt_nan_free)
next
  fix x y z
  assume ok: "orders_comparable x" "orders_comparable y" "orders_comparable z" and d: "dominates x y" "dominates y z"
  have "no_worse (channel_of x k) (channel_of z k) \<and>
      (better (channel_of x k) (channel_of y k) \<or> better (channel_of y k) (channel_of z k) \<longrightarrow> better (channel_of x k) (channel_of z k))" for k
    by (rule no_worse_trans) (use ok d comparable_channel in \<open>auto simp: dominates_def\<close>)
  then show "dominates x z" using d(1) by (auto simp: dominates_def)
qed

section \<open>The loop computes dominance\<close>

lemma compare_passed:
  "at_passed (compare_channels a b strict blocked keys) \<longleftrightarrow> blocked = []
     \<and> (\<forall>k\<in>set keys. no_worse (channel_of a k) (channel_of b k))
     \<and> (strict \<noteq> [] \<or> (\<exists>k\<in>set keys. better (channel_of a k) (channel_of b k)))"
proof (induction a b strict blocked keys rule: compare_channels.induct)
  case (2 a b strict blocked key keys)
  then show ?case
    by (auto simp: Let_def no_worse_def better_def lt_nan_free)
qed simp

lemma compare_target: "at_target (compare_channels a b strict blocked keys) = vw_identity b"
  by (induction a b strict blocked keys rule: compare_channels.induct) (simp_all add: Let_def)

lemma dominance_target: "at_target (supported_dominance a b) = vw_identity b"
  by (simp add: supported_dominance_def compare_target)

lemma no_key: "k \<notin> set (channel_keys [a, b]) \<Longrightarrow> channel_of a k = not_applicable \<and> channel_of b k = not_applicable"
  using map_of_eq_None_iff [of "vw_channels a" k] map_of_eq_None_iff [of "vw_channels b" k]
  by (simp add: channel_keys_def channel_of_def dget_def dkeys_def)

lemma dominance_passed: "at_passed (supported_dominance a b) \<longleftrightarrow> dominates a b"
proof -
  have "no_worse (channel_of a k) (channel_of b k) \<and> \<not> better (channel_of a k) (channel_of b k)"
    if "k \<notin> set (channel_keys [a, b])" for k
    using no_key [OF that] by (simp add: no_worse_def better_def not_applicable_def)
  then show ?thesis unfolding supported_dominance_def compare_passed dominates_def by blast
qed

lemma passed_attempt:
  "t \<in> set (pairwise_attempts vs) \<and> at_passed t \<longleftrightarrow>
     (\<exists>a\<in>set vs. \<exists>b\<in>set vs. vw_identity a \<noteq> vw_identity b \<and> dominates a b \<and> t = supported_dominance a b)"
  by (simp add: pairwise_attempts_def image_iff) (metis dominance_passed)

lemma dominated_set:
  "set (map at_target (filter at_passed (pairwise_attempts vs))) =
     {vw_identity b | a b. a \<in> set vs \<and> b \<in> set vs \<and> vw_identity a \<noteq> vw_identity b \<and> dominates a b}"
proof -
  have "set (map at_target (filter at_passed (pairwise_attempts vs)))
      = {at_target t | t. t \<in> set (pairwise_attempts vs) \<and> at_passed t}" by auto
  also have "\<dots> = {vw_identity b | a b. a \<in> set vs \<and> b \<in> set vs \<and> vw_identity a \<noteq> vw_identity b \<and> dominates a b}"
    unfolding passed_attempt by (intro Collect_cong) (metis dominance_target)
  finally show ?thesis .
qed

lemma hd_sort_key:
  assumes "xs \<noteq> []"
  shows "hd (sort_key f xs) \<in> set xs" and "x \<in> set xs \<Longrightarrow> f (hd (sort_key f xs)) \<le> f x"
proof -
  have ne: "sort_key f xs \<noteq> []" using assms by (metis set_empty set_sort)
  then show "hd (sort_key f xs) \<in> set xs" using hd_in_set [OF ne] by simp
  assume "x \<in> set xs"
  then have "x \<in> set (sort_key f xs)" by simp
  moreover have "sorted (map f (sort_key f xs))" by simp
  ultimately show "f (hd (sort_key f xs)) \<le> f x" using ne by (cases "sort_key f xs") auto
qed

section \<open>The result of a competition\<close>

definition frontier_of :: "consequence_view list \<Rightarrow> consequence_view list" where
  "frontier_of views = filter (\<lambda>v. \<not> (\<exists>u\<in>set views. vw_identity u \<noteq> vw_identity v \<and> dominates u v)) (sort_key vw_identity views)"

lemma distinct_card_map: "card (set (map f xs)) = length xs \<longleftrightarrow> distinct (map f xs)"
  by (metis card_distinct distinct_card length_map)

lemma same_identity: "distinct (map vw_identity views) \<Longrightarrow> u \<in> set views \<Longrightarrow> v \<in> set views \<Longrightarrow> vw_identity u = vw_identity v \<Longrightarrow> u = v"
  by (simp add: distinct_map inj_on_def)

lemma frontier_filter:
  assumes "distinct (map vw_identity views)"
  shows "filter (\<lambda>v. vw_identity v \<notin> set (map at_target (filter at_passed (pairwise_attempts (sort_key vw_identity views)))))
      (sort_key vw_identity views) = frontier_of views"
  unfolding dominated_set frontier_of_def
  by (rule filter_cong) (use same_identity [OF assms] in auto)

text \<open>The result, with the loop and its sets gone.\<close>

lemma resolve_eq:
  assumes "views \<noteq> []" "length views \<le> MAX_ORDINARY_CANDIDATES" "distinct (map vw_identity views)"
  shows "resolve_supported_frontier views =
    (if frontier_of views = [] then Inl (RuntimeError ''supported_dominance_frontier_empty'')
     else Inr \<lparr>cr_selected_identity = vw_identity (best_term (frontier_of views)),
       cr_frontier_identities = map vw_identity (frontier_of views),
       cr_dominated_identities = sorted_list_of_set
         (set (map at_target (filter at_passed (pairwise_attempts (sort_key vw_identity views))))),
       cr_attempts = pairwise_attempts (sort_key vw_identity views),
       cr_stochastic_resolution_required = 1 < length (frontier_of views)\<rparr>)"
proof -
  have c: "views \<noteq> []" "\<not> MAX_ORDINARY_CANDIDATES < length views" "card (set (map vw_identity views)) = length views"
    using assms distinct_card_map [of vw_identity views] by simp_all
  show ?thesis
    unfolding resolve_supported_frontier_def Let_def frontier_filter [OF assms(3)] using c by simp
qed

lemma resolve_Inr:
  assumes "resolve_supported_frontier views = Inr r"
  shows "views \<noteq> [] \<and> length views \<le> MAX_ORDINARY_CANDIDATES \<and> distinct (map vw_identity views)"
  using assms distinct_card_map [of vw_identity views]
  by (auto simp: resolve_supported_frontier_def split: if_splits)

lemma resolve_mset:
  assumes "mset views = mset views'"
  shows "resolve_supported_frontier views = resolve_supported_frontier views'"
proof -
  have set_len: "set views = set views'" "length views = length views'" "views = [] \<longleftrightarrow> views' = []"
    using assms by (auto dest: mset_eq_setD mset_eq_length)
  show ?thesis
  proof (cases "distinct (map vw_identity views)")
    case True
    have "sort_key vw_identity views = sort_key vw_identity views'"
      by (rule sort_key_inj_key_eq) (use assms True set_len in \<open>auto simp: distinct_map\<close>)
    then show ?thesis using set_len by (simp only: resolve_supported_frontier_def set_map)
  next
    case False
    then show ?thesis
      using set_len distinct_card_map [of vw_identity views] by (simp only: resolve_supported_frontier_def set_map) simp
  qed
qed

section \<open>Selection\<close>

text \<open>C31: the competition always selects, and what it selects no candidate beats. When the orders of the channels are numbers and
  the identities differ, the result is a value, never the error of an empty frontier; the selected candidate is one of the
  pool, no other dominates it, every candidate is in the frontier or dominated by one of the frontier, and among the
  frontier nobody has a larger perturbation.\<close>

theorem competition_selects_undominated:
  assumes "views \<noteq> []" "length views \<le> MAX_ORDINARY_CANDIDATES" "distinct (map vw_identity views)"
    and "list_all (\<lambda>v. orders_comparable v \<and> vw_stochastic_term v \<noteq> NaN) views"
  shows "\<exists>r v. resolve_supported_frontier views = Inr r \<and> v \<in> set views \<and> vw_identity v = cr_selected_identity r
    \<and> vw_identity v \<in> set (cr_frontier_identities r)
    \<and> (\<forall>u\<in>set views. \<not> dominates u v)
    \<and> (\<forall>u\<in>set views. vw_identity u \<in> set (cr_frontier_identities r)
         \<or> (\<exists>f\<in>set views. vw_identity f \<in> set (cr_frontier_identities r) \<and> dominates f u))
    \<and> (\<forall>u\<in>set views. vw_identity u \<in> set (cr_frontier_identities r) \<longrightarrow> flt_le (vw_stochastic_term u) (vw_stochastic_term v))"
proof -
  let ?F = "frontier_of views"
  have ok: "orders_comparable x" "vw_stochastic_term x \<noteq> NaN" if "x \<in> set views" for x
    using assms(4) that by (simp_all add: list_all_iff)
  have in_frontier: "v \<in> set ?F \<longleftrightarrow> v \<in> set views \<and> (\<forall>u\<in>set views. \<not> dominates u v)" for v
  proof -
    have "vw_identity u \<noteq> vw_identity v" if "v \<in> set views" "u \<in> set views" "dominates u v" for u
      using same_identity [OF assms(3) that(2,1)] supported.irreflexive [OF ok(1) [OF that(1)]] that(3) by blast
    then show ?thesis by (auto simp: frontier_of_def)
  qed
  have cover: "\<exists>m\<in>set ?F. m = b \<or> dominates m b" if b: "b \<in> set views" for b
  proof -
    have "\<exists>m\<in>set views. (m = b \<or> dominates m b) \<and> (\<forall>x\<in>set views. \<not> dominates x m)"
      by (rule supported.covered [OF finite_set ok(1) b])
    then show ?thesis using in_frontier by blast
  qed
  have ne: "?F \<noteq> []" using cover assms(1) by (metis empty_iff empty_set hd_in_set)
  let ?v = "best_term ?F"
  have v: "?v \<in> set ?F" unfolding best_term_def using ne by (rule hd_sort_key)
  have ids: "vw_identity u \<in> set (map vw_identity ?F) \<longleftrightarrow> u \<in> set ?F" if "u \<in> set views" for u
    using same_identity [OF assms(3) that] in_frontier by (auto simp: image_iff)
  have max: "flt_le (vw_stochastic_term u) (vw_stochastic_term ?v)" if "u \<in> set ?F" for u
  proof -
    have "(flt_neg (vw_stochastic_term ?v), vw_identity ?v) \<le> (flt_neg (vw_stochastic_term u), vw_identity u)"
      unfolding best_term_def using ne that by (rule hd_sort_key)
    then have "flt_neg (vw_stochastic_term ?v) \<le> flt_neg (vw_stochastic_term u)" by (auto simp: less_eq_prod_def)
    then show ?thesis
      using ok(2) [of u] ok(2) [of ?v] v that in_frontier
      by (cases "vw_stochastic_term u"; cases "vw_stochastic_term ?v") (auto simp: less_eq_flt_def flt_le_def flt_eq_def)
  qed
  obtain r where r: "resolve_supported_frontier views = Inr r" "cr_selected_identity r = vw_identity ?v"
    "cr_frontier_identities r = map vw_identity ?F"
    using resolve_eq [OF assms(1-3)] ne by simp
  have F: "vw_identity u \<in> set (cr_frontier_identities r) \<longleftrightarrow> u \<in> set ?F" if "u \<in> set views" for u
    unfolding r(3) by (rule ids [OF that])
  have vin: "?v \<in> set views" using v in_frontier by simp
  show ?thesis
  proof (intro exI [of _ r] exI [of _ ?v] conjI ballI impI)
    fix u
    assume u: "u \<in> set views"
    show "\<not> dominates u ?v" using v in_frontier u by simp
    show "vw_identity u \<in> set (cr_frontier_identities r)
      \<or> (\<exists>f\<in>set views. vw_identity f \<in> set (cr_frontier_identities r) \<and> dominates f u)"
    proof -
      obtain m where m: "m \<in> set ?F" "m = u \<or> dominates m u" using cover [OF u] by blast
      then have "m \<in> set views" using in_frontier by simp
      then show ?thesis using m F by blast
    qed
    assume "vw_identity u \<in> set (cr_frontier_identities r)"
    then show "flt_le (vw_stochastic_term u) (vw_stochastic_term ?v)" using max F [OF u] by simp
  qed (use r(1,2) vin v F [OF vin] in simp_all)
qed

section \<open>Order and provenance do not matter\<close>

lemma mapE_values: "mapE f xs = Inr ys \<Longrightarrow> ys = map (\<lambda>x. projr (f x)) xs \<and> (\<forall>x\<in>set xs. \<exists>y. f x = Inr y)"
  by (induction xs arbitrary: ys) (auto simp: andThen_eq_Inr)

lemma mapE_projr: "(\<And>x. x \<in> set xs \<Longrightarrow> \<exists>y. f x = Inr y) \<Longrightarrow> mapE f xs = Inr (map (\<lambda>x. projr (f x)) xs)"
  by (rule mapE_Inr) (metis sum.sel(2))

text \<open>C32: the competition does not depend on the order in which the candidates were proposed. If it selects one of them, then in
  any other order it selects the same one, with the same frontier, the same attempts and the same dominated identities.\<close>

theorem selection_order_independent:
  assumes "evaluate_candidates M E candidates phys organism_basis active_tick effect_branches_for owners_for = Inr (c, views, r)"
    and "mset candidates' = mset candidates"
  shows "\<exists>views'. evaluate_candidates M E candidates' phys organism_basis active_tick effect_branches_for owners_for
      = Inr (c, views', r) \<and> mset views' = mset views"
proof -
  let ?f = "\<lambda>c. build_consequence_view M E c phys (effect_branches_for c) organism_basis active_tick (owners_for c)"
  let ?g = "\<lambda>c. projr (?f c)"
  have len: "length candidates \<le> MAX_ORDINARY_CANDIDATES" "length candidates' = length candidates"
    using assms mset_eq_length [OF assms(2)] by (auto simp: evaluate_candidates_def split: if_splits)
  obtain v where run: "mapE ?f candidates = Inr views" "resolve_supported_frontier views = Inr r"
    "List.find (\<lambda>(c, v). vw_identity v = cr_selected_identity r) (zip candidates views) = Some (c, v)"
    using assms(1) by (auto simp: evaluate_candidates_def andThen_eq_Inr split: if_splits option.splits)
  have views: "views = map ?g candidates" and made: "\<And>c. c \<in> set candidates \<Longrightarrow> \<exists>v. ?f c = Inr v"
    using mapE_values [OF run(1)] by blast+
  let ?views' = "map ?g candidates'"
  have mem: "set candidates' = set candidates" using assms(2) by (rule mset_eq_setD)
  have m: "mset ?views' = mset views" unfolding views mset_map assms(2) ..
  have run': "mapE ?f candidates' = Inr ?views'"
    by (rule mapE_projr) (rule made, simp add: mem)
  have r: "resolve_supported_frontier ?views' = Inr r" using resolve_mset [OF m] run(2) by simp
  have "distinct (map vw_identity views)" using resolve_Inr [OF run(2)] by simp
  then have inj: "inj_on (\<lambda>c. vw_identity (?g c)) (set candidates)" unfolding views by (simp add: distinct_map inj_on_def)
  have zips: "zip cs (map ?g cs) = map (\<lambda>c. (c, ?g c)) cs" for cs by (induction cs) auto
  have c: "c \<in> set candidates" "vw_identity (?g c) = cr_selected_identity r"
    using find_Some [OF run(3)] unfolding views zips by auto
  have "\<exists>x. List.find (\<lambda>(c, v). vw_identity v = cr_selected_identity r) (zip candidates' ?views') = Some x"
  proof (rule ccontr)
    assume "\<not> ?thesis"
    then have "List.find (\<lambda>(c, v). vw_identity v = cr_selected_identity r) (zip candidates' ?views') = None"
      unfolding not_Some_eq not_ex .
    then have "\<not> (\<exists>x\<in>set (zip candidates' ?views'). (\<lambda>(c, v). vw_identity v = cr_selected_identity r) x)"
      by (simp only: find_None_iff) blast
    then show False using c mem unfolding zips by auto
  qed
  then obtain c' v' where f: "List.find (\<lambda>(c, v). vw_identity v = cr_selected_identity r) (zip candidates' ?views') = Some (c', v')"
    by auto
  have "c' \<in> set candidates" "vw_identity (?g c') = cr_selected_identity r"
    using find_Some [OF f] mem unfolding zips by auto
  then have "c' = c" using inj c by (auto simp: inj_on_def)
  then show ?thesis using len run' r f m by (simp add: evaluate_candidates_def)
qed

text \<open>What normalising leaves of a dictionary, whatever the order of its keys.\<close>

definition normalize_item :: "string \<times> pyv \<Rightarrow> (string \<times> pyv) res" where
  "normalize_item = (\<lambda>(k, v). andThen (normalize_behavioral_value v) (\<lambda>w. Inr (k, w)))"

definition behavioral_items :: "pyv dict \<Rightarrow> pyv dict" where
  "behavioral_items d = filter (\<lambda>(k, v). k \<notin> set PROVENANCE_ONLY_KEYS) d"

lemma normalize_dict: "normalize_behavioral_value (VDict d) =
    andThen (mapE normalize_item (behavioral_items d)) (\<lambda>e. Inr (VDict e))"
proof -
  have "mapE (\<lambda>(k, r). andThen r (\<lambda>v. Inr (k, v))) (filter (\<lambda>(k, r). k \<notin> set PROVENANCE_ONLY_KEYS)
      (map (map_prod id normalize_behavioral_value) d))
    = mapE normalize_item (behavioral_items d)"
    by (induction d) (auto simp: behavioral_items_def normalize_item_def)
  then show ?thesis by simp
qed

lemma mapE_error: "mapE f xs = Inl e \<Longrightarrow> \<exists>x\<in>set xs. f x = Inl e"
  by (induction xs) (auto simp: andThen_eq_Inl)

lemma normalize_error: "normalize_behavioral_value v = Inl e \<Longrightarrow> e = ValueError ''non_finite_behavioral_parameter''"
proof (induction v arbitrary: e)
  case (VFlt x)
  then show ?case by (simp split: if_splits)
next
  case (VList xs)
  then have "mapE (\<lambda>r. r) (map normalize_behavioral_value xs) = Inl e" by (simp add: andThen_eq_Inl)
  from mapE_error [OF this] show ?case using VList.IH by auto
next
  case (VDict d)
  then have "mapE normalize_item (behavioral_items d) = Inl e"
    by (simp add: normalize_dict andThen_eq_Inl del: normalize_behavioral_value.simps)
  from mapE_error [OF this] obtain k v where "(k, v) \<in> set d" "normalize_behavioral_value v = Inl e"
    by (auto simp: andThen_eq_Inl behavioral_items_def normalize_item_def)
  then show ?case using VDict.IH [of "(k, v)" v] by simp
qed simp_all

lemma mapE_mset:
  assumes "mset xs = mset ys" and "\<And>x err. f x = Inl err \<Longrightarrow> err = e"
  shows "(\<exists>us vs. mapE f xs = Inr us \<and> mapE f ys = Inr vs \<and> mset us = mset vs \<and> us = map (\<lambda>x. projr (f x)) xs
        \<and> (\<forall>x\<in>set xs. \<exists>y. f x = Inr y))
    \<or> mapE f xs = Inl e \<and> mapE f ys = Inl e"
proof (cases "\<forall>x\<in>set xs. \<exists>y. f x = Inr y")
  case True
  then have "mapE f xs = Inr (map (\<lambda>x. projr (f x)) xs)" "mapE f ys = Inr (map (\<lambda>x. projr (f x)) ys)"
    using mset_eq_setD [OF assms(1)] by (auto intro!: mapE_projr)
  moreover have "mset (map (\<lambda>x. projr (f x)) xs) = mset (map (\<lambda>x. projr (f x)) ys)" unfolding mset_map assms(1) ..
  ultimately show ?thesis using True by blast
next
  case False
  have "mapE f zs = Inl e" if "\<exists>x\<in>set zs. \<not> (\<exists>y. f x = Inr y)" for zs
    using that
  proof (induction zs)
    case (Cons z zs)
    show ?case
    proof (cases "f z")
      case (Inl err)
      then show ?thesis using assms(2) by simp
    next
      case (Inr y)
      then show ?thesis using Cons by auto
    qed
  qed simp
  then show ?thesis using False mset_eq_setD [OF assms(1)] by blast
qed

lemma canonical_dict_mset:
  assumes "mset d = mset e" "dwf d"
  shows "canonical (VDict d) = canonical (VDict e)"
proof -
  let ?c = "map (map_prod id canonical)"
  have keys: "map fst (?c xs) = map fst xs" for xs by (induction xs) auto
  have "sort_key fst (?c d) = sort_key fst (?c e)"
  proof (rule sort_key_inj_key_eq)
    have "distinct (map fst (?c d))" using assms(2) keys [of d] by simp
    then show "inj_on fst (set (?c d))" unfolding distinct_map by blast
  qed (use assms(1) in simp_all)
  then show ?thesis by (simp add: sorted_items_def)
qed

text \<open>The perturbation is neutral to the source of a proposal. Two proposals of one capability whose executable parameters
  agree, whatever the order of the parameters and whatever their provenance keys say, have the same behavioural identity,
  and so the same perturbation: no owner gains by proposing the same action again or by renaming its goal.\<close>

theorem perturbation_source_neutral:
  assumes "dwf params" "dwf params'"
    and "\<And>k. k \<notin> set PROVENANCE_ONLY_KEYS \<Longrightarrow> map_of params k = map_of params' k"
  shows "candidate_behavioral_identity E capability params = candidate_behavioral_identity E capability params'
    \<and> candidate_stochastic_term M E basis tick capability params namespace sigma
      = candidate_stochastic_term M E basis tick capability params' namespace sigma"
proof -
  have wf: "dwf (behavioral_items params)" "dwf (behavioral_items params')"
    using assms(1,2) by (auto simp: behavioral_items_def distinct_map_filter)
  have "(k, v) \<in> set (behavioral_items params) \<longleftrightarrow> (k, v) \<in> set (behavioral_items params')" for k v
    using assms(3) [of k]
    by (auto simp: behavioral_items_def map_of_eq_Some_iff [OF assms(1), symmetric] map_of_eq_Some_iff [OF assms(2), symmetric])
  then have "set (behavioral_items params) = set (behavioral_items params')" by auto
  then have m: "mset (behavioral_items params) = mset (behavioral_items params')"
    using wf by (simp add: set_eq_iff_mset_eq_distinct distinct_map)
  have err: "err = ValueError ''non_finite_behavioral_parameter''" if "normalize_item x = Inl err" for x err
    using that normalize_error by (cases x) (auto simp: normalize_item_def andThen_eq_Inl)
  have "(\<exists>us vs. mapE normalize_item (behavioral_items params) = Inr us \<and> mapE normalize_item (behavioral_items params') = Inr vs
        \<and> mset us = mset vs \<and> us = map (\<lambda>x. projr (normalize_item x)) (behavioral_items params)
        \<and> (\<forall>x\<in>set (behavioral_items params). \<exists>y. normalize_item x = Inr y))
      \<or> mapE normalize_item (behavioral_items params) = Inl (ValueError ''non_finite_behavioral_parameter'')
        \<and> mapE normalize_item (behavioral_items params') = Inl (ValueError ''non_finite_behavioral_parameter'')"
    by (rule mapE_mset [OF m]) (erule err)
  then have "(\<exists>us vs. mapE normalize_item (behavioral_items params) = Inr us
        \<and> mapE normalize_item (behavioral_items params') = Inr vs \<and> canonical (VDict us) = canonical (VDict vs))
      \<or> mapE normalize_item (behavioral_items params) = Inl (ValueError ''non_finite_behavioral_parameter'')
        \<and> mapE normalize_item (behavioral_items params') = Inl (ValueError ''non_finite_behavioral_parameter'')"
  proof
    assume "\<exists>us vs. mapE normalize_item (behavioral_items params) = Inr us \<and> mapE normalize_item (behavioral_items params') = Inr vs
        \<and> mset us = mset vs \<and> us = map (\<lambda>x. projr (normalize_item x)) (behavioral_items params)
        \<and> (\<forall>x\<in>set (behavioral_items params). \<exists>y. normalize_item x = Inr y)"
    then obtain us vs where u: "mapE normalize_item (behavioral_items params) = Inr us" "mapE normalize_item (behavioral_items params') = Inr vs"
      "mset us = mset vs" "us = map (\<lambda>x. projr (normalize_item x)) (behavioral_items params)"
      "\<forall>x\<in>set (behavioral_items params). \<exists>y. normalize_item x = Inr y" by blast
    have "map fst us = map fst (behavioral_items params)" using u(4,5) by (auto simp: normalize_item_def andThen_eq_Inr)
    then show ?thesis using u(1,2) canonical_dict_mset [OF u(3)] wf by auto
  qed simp
  then have "candidate_behavioral_identity E capability params = candidate_behavioral_identity E capability params'"
    unfolding candidate_behavioral_identity_def normalize_dict
    by (elim disjE exE conjE) (simp_all add: canon_json_def)
  then show ?thesis by (simp add: candidate_stochastic_term_def)
qed

section \<open>Instances\<close>

definition sample_view :: "string \<Rightarrow> (string \<times> flt) list \<Rightarrow> consequence_view" where
  "sample_view i orders = \<lparr>vw_identity = i, vw_capability = ''MOVE'', vw_params = [],
     vw_channels = map (\<lambda>(k, x). (k, supported x [])) orders, vw_stochastic_term = Fin 0\<rparr>"

theorem competition_selects_undominated_witness:
  "\<exists>r. resolve_supported_frontier [sample_view ''a'' [(''k'', Fin 1)], sample_view ''b'' [(''k'', Fin 2)]] = Inr r
     \<and> cr_frontier_identities r \<noteq> []"
proof -
  let ?vs = "[sample_view ''a'' [(''k'', Fin 1)], sample_view ''b'' [(''k'', Fin 2)]]"
  have "?vs \<noteq> []" "length ?vs \<le> MAX_ORDINARY_CANDIDATES" "distinct (map vw_identity ?vs)"
    "list_all (\<lambda>v. orders_comparable v \<and> vw_stochastic_term v \<noteq> NaN) ?vs"
    by (simp_all add: MAX_ORDINARY_CANDIDATES_def sample_view_def orders_comparable_def supported_def order_of_def)
  from competition_selects_undominated [OF this] obtain r v where
    "resolve_supported_frontier ?vs = Inr r" "v \<in> set ?vs" "vw_identity v \<in> set (cr_frontier_identities r)" by (elim exE conjE) (rule that)
  then show ?thesis by (intro exI [of _ r]) (cases "cr_frontier_identities r", simp_all)
qed

definition sample_candidate :: "string \<Rightarrow> candidate" where
  "sample_candidate capability = \<lparr>cd_capability = capability, cd_params = [], cd_scores = [], cd_total = Fin 0\<rparr>"

definition no_owners :: owner_channels where
  "no_owners = \<lparr>oc_self_model_view = [], oc_world_model_view = [], oc_temporal_channels = [], oc_individuality_channels = [],
     oc_contextual_channels = [], oc_option_channels = []\<rparr>"

definition sample_libm :: libm where
  "sample_libm = \<lparr>lm_log = (\<lambda>x. x), lm_sqrt = (\<lambda>x. x), lm_cos = (\<lambda>x. x)\<rparr>"

definition sample_evaluate :: "candidate list \<Rightarrow> (candidate \<times> consequence_view list \<times> competition_result) res" where
  "sample_evaluate cs = evaluate_candidates sample_libm plain_env cs default_physiology None 0 (\<lambda>_. []) (\<lambda>_. no_owners)"

lemma frontier_subset: "set (frontier_of vs) \<subseteq> set vs"
  by (auto simp: frontier_of_def)

lemma sample_built:
  obtains va vb where
    "build_consequence_view sample_libm plain_env (sample_candidate ''REST'') default_physiology [] None 0 no_owners = Inr va"
    "build_consequence_view sample_libm plain_env (sample_candidate ''MOVE'') default_physiology [] None 0 no_owners = Inr vb"
    "vw_identity va \<noteq> vw_identity vb" "vw_channels va = vw_channels vb"
proof -
  let ?ch = "physiology_channels default_physiology []"
  have len: "length ?ch \<le> 64" by (simp add: physiology_channels_def BOUNDS_def Let_def)
  have "\<exists>i. candidate_behavioral_identity plain_env ''REST'' [] = Inr i" "\<exists>i. candidate_behavioral_identity plain_env ''MOVE'' [] = Inr i"
    by (simp_all add: candidate_behavioral_identity_def)
  then obtain i j where ij: "candidate_behavioral_identity plain_env ''REST'' [] = Inr i"
    "candidate_behavioral_identity plain_env ''MOVE'' [] = Inr j" by blast
  have ne: "i \<noteq> j"
    using ij by (auto simp: candidate_behavioral_identity_def canon_json_def sorted_items_def json_str_def json_char_def Let_def)
  show ?thesis
    by (rule that [of "\<lparr>vw_identity = i, vw_capability = ''REST'', vw_params = [], vw_channels = ?ch, vw_stochastic_term = Fin 0\<rparr>"
          "\<lparr>vw_identity = j, vw_capability = ''MOVE'', vw_params = [], vw_channels = ?ch, vw_stochastic_term = Fin 0\<rparr>"])
      (use ij ne len in \<open>simp_all add: build_consequence_view_def sample_candidate_def owners_in_order_def no_owners_def sorted_items_def
         make_view_def MAX_CHANNELS_PER_CANDIDATE_def\<close>)
qed

lemma sample_evaluates: "\<exists>c vs r. sample_evaluate [sample_candidate ''REST'', sample_candidate ''MOVE''] = Inr (c, vs, r)"
proof -
  obtain va vb where v: "build_consequence_view sample_libm plain_env (sample_candidate ''REST'') default_physiology [] None 0 no_owners = Inr va"
    "build_consequence_view sample_libm plain_env (sample_candidate ''MOVE'') default_physiology [] None 0 no_owners = Inr vb"
    "vw_identity va \<noteq> vw_identity vb" "vw_channels va = vw_channels vb" by (rule sample_built)
  have same: "channel_of va = channel_of vb" using v(4) by (simp add: channel_of_def fun_eq_iff)
  have irr: "\<not> better e e" for e by (cases "order_of e") (auto simp: better_def)
  have nd: "\<not> dominates a b" if "a \<in> {va, vb}" "b \<in> {va, vb}" for a b
    using that same irr by (auto simp: dominates_def)
  have "frontier_of [va, vb] = sort_key vw_identity [va, vb]" using nd by (simp add: frontier_of_def)
  then have f: "frontier_of [va, vb] \<noteq> []" by (metis list.distinct(1) set_empty set_sort)
  have "best_term (frontier_of [va, vb]) \<in> set (frontier_of [va, vb])" unfolding best_term_def using f by (rule hd_sort_key)
  moreover have "set (frontier_of [va, vb]) \<subseteq> {va, vb}" using frontier_subset [of "[va, vb]"] by simp
  ultimately have best: "best_term (frontier_of [va, vb]) = va \<or> best_term (frontier_of [va, vb]) = vb" by blast
  obtain r where r: "resolve_supported_frontier [va, vb] = Inr r"
    "cr_selected_identity r = vw_identity (best_term (frontier_of [va, vb]))"
    using v(3) resolve_eq [of "[va, vb]"] f by (simp add: MAX_ORDINARY_CANDIDATES_def)
  have "mapE (\<lambda>c. build_consequence_view sample_libm plain_env c default_physiology [] None 0 no_owners)
      [sample_candidate ''REST'', sample_candidate ''MOVE''] = Inr [va, vb]"
    using v(1,2) by simp
  then show ?thesis
    using best r by (auto simp: sample_evaluate_def evaluate_candidates_def MAX_ORDINARY_CANDIDATES_def simp del: mapE.simps)
qed

theorem selection_order_independent_witness:
  "\<exists>c vs vs' r. sample_evaluate [sample_candidate ''REST'', sample_candidate ''MOVE''] = Inr (c, vs, r)
     \<and> sample_evaluate [sample_candidate ''MOVE'', sample_candidate ''REST''] = Inr (c, vs', r)"
proof -
  obtain c vs r where r: "sample_evaluate [sample_candidate ''REST'', sample_candidate ''MOVE''] = Inr (c, vs, r)"
    using sample_evaluates by blast
  from selection_order_independent [OF r [unfolded sample_evaluate_def], of "[sample_candidate ''MOVE'', sample_candidate ''REST'']"]
  show ?thesis using r by (auto simp: sample_evaluate_def)
qed

theorem perturbation_source_neutral_witness:
  "candidate_behavioral_identity plain_env ''MOVE'' [(''step'', VInt 1), (''source'', VStr ''memory''), (''heading'', VInt 2)]
   = candidate_behavioral_identity plain_env ''MOVE'' [(''heading'', VInt 2), (''step'', VInt 1), (''goal_id'', VStr ''g'')]"
  by (rule perturbation_source_neutral [where M = sample_libm and basis = VNone and tick = 0 and namespace = "''''"
        and sigma = "Fin 0", THEN conjunct1]) (auto simp: PROVENANCE_ONLY_KEYS_def)

text \<open>An order that is no number is accepted as supported evidence, and then three candidates can beat each other in a circle:
  the competition raises instead of selecting.\<close>

definition circle :: "consequence_view list" where
  "circle = [sample_view ''a'' [(''p'', Fin 2), (''q'', NaN), (''r'', Fin 1)],
     sample_view ''b'' [(''p'', Fin 1), (''q'', Fin 2), (''r'', NaN)],
     sample_view ''c'' [(''p'', NaN), (''q'', Fin 1), (''r'', Fin 2)]]"

theorem not_a_number_empties_frontier:
  "make_evidence SUPPORTED (Some NaN) [] = Inr (supported NaN [])
   \<and> resolve_supported_frontier circle = Inl (RuntimeError ''supported_dominance_frontier_empty'')"
proof
  show "make_evidence SUPPORTED (Some NaN) [] = Inr (supported NaN [])"
    by (simp add: make_evidence_def supported_def kept_provenance_def)
  have d: "dominates (circle ! 0) (circle ! 1)" "dominates (circle ! 1) (circle ! 2)" "dominates (circle ! 2) (circle ! 0)"
    unfolding dominance_passed [symmetric] by code_simp+
  have "frontier_of circle = []"
    using d by (auto simp: frontier_of_def filter_empty_conv circle_def sample_view_def)
  then show "resolve_supported_frontier circle = Inl (RuntimeError ''supported_dominance_frontier_empty'')"
    by (subst resolve_eq) (auto simp: circle_def MAX_ORDINARY_CANDIDATES_def sample_view_def)
qed

end
