(* ===== verification/BoundedRings.thy ===== *)
theory BoundedRings
  imports Contracts PyValue
begin

text \<open>
  \<open>BoundedRing\<close> of \<open>util.py\<close>: a list of fixed capacity in preallocated slots. \<open>ring_list\<close> is its iteration, oldest first; that
  every operation does to this list what the list operation would do makes the ring an implementation of the
  interface \<open>bounded_log\<close>. A slice is the slice of \<open>ring_list\<close>.
\<close>

section \<open>The ring\<close>

record 'a ring =
  rg_buf :: "'a option list"
  rg_maxlen :: nat
  rg_start :: nat
  rg_len :: nat

definition ring_slot :: "'a ring \<Rightarrow> nat \<Rightarrow> nat" where
  "ring_slot r i = (rg_start r + i) mod rg_maxlen r"

definition ring_append :: "'a \<Rightarrow> 'a ring \<Rightarrow> 'a ring" where
  "ring_append x r =
     (if rg_len r < rg_maxlen r
      then r\<lparr>rg_buf := (rg_buf r)[ring_slot r (rg_len r) := Some x], rg_len := rg_len r + 1\<rparr>
      else r\<lparr>rg_buf := (rg_buf r)[rg_start r := Some x], rg_start := (rg_start r + 1) mod rg_maxlen r\<rparr>)"

definition new_ring :: "int \<Rightarrow> 'a list \<Rightarrow> 'a ring res" where
  "new_ring maxlen initial =
     (if maxlen < 1 then Inl (ValueError ''maxlen_must_be_positive'')
      else Inr (fold ring_append initial
        \<lparr>rg_buf = replicate (nat maxlen) None, rg_maxlen = nat maxlen, rg_start = 0, rg_len = 0\<rparr>))"

definition ring_list :: "'a ring \<Rightarrow> 'a list" where
  "ring_list r = map (\<lambda>i. the (rg_buf r ! ring_slot r i)) [0..<rg_len r]"

definition ring_get :: "'a ring \<Rightarrow> int \<Rightarrow> 'a res" where
  "ring_get r index =
     (let n = int (rg_len r); i = (if index < 0 then index + n else index)
      in if i < 0 \<or> n \<le> i then Inl (IndexError ''ring_index'')
         else Inr (the (rg_buf r ! ring_slot r (nat i))))"

definition reclaim_oldest :: "'a ring \<Rightarrow> 'a option" where
  "reclaim_oldest r = (if rg_len r < rg_maxlen r then None else rg_buf r ! rg_start r)"

definition advance_after_reclaim :: "('a ring, unit) method" where
  "advance_after_reclaim r =
     (if rg_len r < rg_maxlen r then (Inl (RuntimeError ''reclaim_advance_on_partial_ring''), r)
      else (Inr (), r\<lparr>rg_start := (rg_start r + 1) mod rg_maxlen r\<rparr>))"

definition ring_clear :: "'a ring \<Rightarrow> 'a ring" where
  "ring_clear r = r\<lparr>rg_buf := replicate (rg_maxlen r) None, rg_start := 0, rg_len := 0\<rparr>"

definition reset_from :: "'a list \<Rightarrow> 'a ring \<Rightarrow> 'a ring" where
  "reset_from items r = fold ring_append (last_n (rg_maxlen r) items) (ring_clear r)"

definition ring_eq :: "'a ring \<Rightarrow> 'a ring \<Rightarrow> bool" where
  "ring_eq r s \<longleftrightarrow> ring_list r = ring_list s"

text \<open>Ordinary least squares, beside it in \<open>util.py\<close>. \<open>sum\<close> of floats, from Python 3.12 on, carries a compensation for what each
  addition rounds off and adds it at the end; squares are taken as products.\<close>

definition compensated :: "flt \<times> flt \<Rightarrow> flt \<Rightarrow> flt \<times> flt" where
  "compensated sc v = (case sc of (s, c) \<Rightarrow> let x = flt_add s v in
     (x, flt_add c (if flt_le (flt_abs v) (flt_abs s) then flt_add (flt_sub s x) v else flt_add (flt_sub v x) s)))"

definition flt_sum :: "flt list \<Rightarrow> flt" where
  "flt_sum xs = (case foldl compensated (Fin 0, Fin 0) xs of (s, c) \<Rightarrow>
     if c \<noteq> Fin 0 \<and> is_finite c then flt_add s c else s)"

definition ols_slope :: "flt list \<Rightarrow> flt list \<Rightarrow> flt" where
  "ols_slope xs ys =
     (let n = length xs in
      if n < 2 \<or> n \<noteq> length ys then Fin 0
      else
        let mx = flt_div (flt_sum xs) (flt_of_int (int n));
            my = flt_div (flt_sum ys) (flt_of_int (int n));
            den = flt_sum (map (\<lambda>x. flt_mult (flt_sub x mx) (flt_sub x mx)) xs)
        in if flt_le den (Fin 0) then Fin 0
           else flt_div (flt_sum (map (\<lambda>(x, y). flt_mult (flt_sub x mx) (flt_sub y my)) (zip xs ys))) den)"

section \<open>A ring is a bounded log\<close>

definition ring_ok :: "'a ring \<Rightarrow> bool" where
  "ring_ok r \<longleftrightarrow> 0 < rg_maxlen r \<and> length (rg_buf r) = rg_maxlen r \<and> rg_start r < rg_maxlen r \<and> rg_len r \<le> rg_maxlen r"

lemma length_ring_list [simp]: "length (ring_list r) = rg_len r"
  by (simp add: ring_list_def)

lemma nth_ring_list: "i < rg_len r \<Longrightarrow> ring_list r ! i = the (rg_buf r ! ring_slot r i)"
  by (simp add: ring_list_def)

lemma ring_ok_len: "ring_ok r \<and> rg_maxlen r = n \<Longrightarrow> rg_len r \<le> n"
  by (auto simp: ring_ok_def)

lemma slot_bound: "ring_ok r \<Longrightarrow> ring_slot r i < rg_maxlen r"
  by (simp add: ring_ok_def ring_slot_def)

lemma slot_inj:
  assumes "ring_ok r" "i < rg_maxlen r" "j < rg_maxlen r" "ring_slot r i = ring_slot r j"
  shows "i = j"
proof -
  let ?m = "rg_maxlen r" and ?s = "rg_start r"
  have wrap: "(?s + k) mod ?m = (if ?s + k < ?m then ?s + k else ?s + k - ?m)" if "k < ?m" for k
    using that assms(1) le_mod_geq [of ?m "?s + k"] by (auto simp: ring_ok_def not_less)
  show ?thesis using assms wrap [of i] wrap [of j] by (simp add: ring_slot_def ring_ok_def split: if_splits)
qed

lemma ring_append_ok: "ring_ok r \<Longrightarrow> ring_ok (ring_append x r) \<and> rg_maxlen (ring_append x r) = rg_maxlen r"
  by (simp add: ring_append_def ring_ok_def)

text \<open>Rotating a full ring by one: slot \<open>i\<close> is the old slot \<open>i + 1\<close>.\<close>

lemma slot_rotated: "ring_slot (r\<lparr>rg_start := (rg_start r + 1) mod rg_maxlen r\<rparr>) i = ring_slot r (i + 1)"
  by (simp add: ring_slot_def mod_add_left_eq)

lemma rotated_list:
  assumes "ring_ok r" "rg_len r = rg_maxlen r"
  shows "ring_list (r\<lparr>rg_buf := (rg_buf r)[rg_start r := Some x], rg_start := (rg_start r + 1) mod rg_maxlen r\<rparr>)
    = tl (ring_list r) @ [x]" (is "ring_list ?t = _")
proof (rule nth_equalityI)
  have m: "0 < rg_maxlen r" "rg_start r < rg_maxlen r" "length (rg_buf r) = rg_maxlen r"
    using assms(1) by (simp_all add: ring_ok_def)
  show "length (ring_list ?t) = length (tl (ring_list r) @ [x])" using assms(2) m by simp
  fix i
  assume "i < length (ring_list ?t)"
  then have i: "i < rg_maxlen r" using assms(2) by simp
  have slot: "ring_slot ?t i = ring_slot r (i + 1)"
    using slot_rotated [of r i] by (simp add: ring_slot_def)
  have start: "ring_slot r 0 = rg_start r" using m by (simp add: ring_slot_def)
  show "ring_list ?t ! i = (tl (ring_list r) @ [x]) ! i"
  proof (cases "i + 1 < rg_maxlen r")
    case True
    then have "i < rg_maxlen r - 1" by simp
    moreover from True have "ring_slot r (i + 1) \<noteq> rg_start r"
      using slot_inj [OF assms(1), of "i + 1" 0] start m by auto
    ultimately show ?thesis
      using True i assms(2) slot m slot_bound [OF assms(1)] by (simp add: nth_ring_list nth_append nth_tl)
  next
    case False
    then have "i = rg_maxlen r - 1" using i by simp
    moreover have "i + 1 = rg_maxlen r" using False i by simp
    then have "ring_slot r (i + 1) = rg_start r" using m by (simp add: ring_slot_def)
    ultimately show ?thesis using i assms(2) slot m by (simp add: nth_ring_list nth_append)
  qed
qed

lemma append_partial:
  assumes "ring_ok r" "rg_len r < rg_maxlen r"
  shows "ring_list (ring_append x r) = ring_list r @ [x]"
proof (rule nth_equalityI)
  show "length (ring_list (ring_append x r)) = length (ring_list r @ [x])" using assms(2) by (simp add: ring_append_def)
  fix i
  assume "i < length (ring_list (ring_append x r))"
  then have i: "i < rg_len r + 1" using assms(2) by (simp add: ring_append_def)
  have slot: "ring_slot (ring_append x r) i = ring_slot r i" using assms(2) by (simp add: ring_slot_def ring_append_def)
  have "ring_slot r i = ring_slot r (rg_len r) \<longleftrightarrow> i = rg_len r"
    using slot_inj [OF assms(1), of i "rg_len r"] i assms(2) by auto
  then show "ring_list (ring_append x r) ! i = (ring_list r @ [x]) ! i"
    using i assms slot slot_bound [OF assms(1)]
    by (auto simp: nth_ring_list nth_append ring_append_def ring_ok_def nth_list_update)
qed

lemma ring_list_append:
  assumes "ring_ok r"
  shows "ring_list (ring_append x r) = last_n (rg_maxlen r) (ring_list r @ [x])"
proof (cases "rg_len r < rg_maxlen r")
  case True
  then show ?thesis using append_partial [OF assms True] by (simp add: last_n_id)
next
  case False
  then have full: "rg_len r = rg_maxlen r" using assms by (simp add: ring_ok_def)
  have pos: "0 < rg_maxlen r" using assms by (simp add: ring_ok_def)
  have "last_n (rg_maxlen r - 1) (ring_list r) = tl (ring_list r)"
    using full pos length_ring_list [of r] by (simp add: last_n_def drop_Suc del: length_ring_list)
  then show ?thesis using rotated_list [OF assms full] full pos by (simp add: ring_append_def last_n_snoc)
qed

lemma ring_bounded_log: "0 < n \<Longrightarrow> bounded_log n ring_list ring_append (\<lambda>r. ring_ok r \<and> rg_maxlen r = n)"
  by unfold_locales (simp_all add: ring_list_append ring_append_ok ring_ok_len)

text \<open>The ring of 128 experiences of \<open>route_evidence.py\<close>; any other capacity likewise.\<close>

interpretation route_ring: bounded_log 128 ring_list ring_append "\<lambda>r. ring_ok r \<and> rg_maxlen r = 128"
  by (rule ring_bounded_log) simp

lemma new_ring_empty: "0 < n \<Longrightarrow> ring_ok \<lparr>rg_buf = replicate n None, rg_maxlen = n, rg_start = 0, rg_len = 0\<rparr>"
  by (simp add: ring_ok_def)

lemma new_ring_bound: "new_ring n xs = Inr r \<Longrightarrow> 0 < nat n"
  by (simp add: new_ring_def split: if_splits)

lemma ring_appends:
  assumes "ring_ok r"
  shows "ring_ok (fold ring_append ys r) \<and> rg_maxlen (fold ring_append ys r) = rg_maxlen r \<and>
    ring_list (fold ring_append ys r) = last_n (rg_maxlen r) (ring_list r @ ys)"
proof -
  have "0 < rg_maxlen r" using assms by (simp add: ring_ok_def)
  then have log: "bounded_log (rg_maxlen r) ring_list ring_append (\<lambda>s :: 'a ring. ring_ok s \<and> rg_maxlen s = rg_maxlen r)"
    by (rule ring_bounded_log)
  show ?thesis
    using bounded_log.view_push_all [OF log, of r ys] bounded_log.ok_push_all [OF log, of r ys] assms
    by (simp add: bounded_log.push_all_def [OF log])
qed

lemma new_ring_Inr:
  assumes "new_ring n xs = Inr r"
  shows "ring_ok r \<and> rg_maxlen r = nat n \<and> ring_list r = last_n (nat n) xs"
proof -
  let ?r0 = "\<lparr>rg_buf = replicate (nat n) None, rg_maxlen = nat n, rg_start = 0, rg_len = 0\<rparr> :: 'a ring"
  have ok: "ring_ok ?r0" by (rule new_ring_empty [OF new_ring_bound [OF assms]])
  have "r = fold ring_append xs ?r0" using assms by (simp add: new_ring_def split: if_splits)
  moreover have "ring_list ?r0 = []" by (simp add: ring_list_def)
  ultimately show ?thesis using ring_appends [OF ok, of xs] by simp
qed

lemma last_n_again: "last_n n (last_n n xs @ ys) = last_n n (xs @ ys)"
proof (induction ys rule: rev_induct)
  case Nil
  then show ?case by (simp add: last_n_id length_last_n)
next
  case (snoc y ys)
  have "last_n n (last_n n xs @ ys @ [y]) = last_n n (last_n n (last_n n xs @ ys) @ [y])"
    using last_n_last_n_snoc [of n "last_n n xs @ ys" y] by simp
  also have "\<dots> = last_n n (xs @ ys @ [y])" using snoc last_n_last_n_snoc [of n "xs @ ys" y] by simp
  finally show ?case by simp
qed

lemma ring_get_list:
  "ring_get r i = (let n = int (length (ring_list r)); j = (if i < 0 then i + n else i)
     in if j < 0 \<or> n \<le> j then Inl (IndexError ''ring_index'') else Inr (ring_list r ! nat j))"
  by (simp add: ring_get_def Let_def nth_ring_list nat_less_iff)

lemma clear_ok: "ring_ok r \<Longrightarrow> ring_ok (ring_clear r) \<and> ring_list (ring_clear r) = [] \<and> rg_maxlen (ring_clear r) = rg_maxlen r"
  by (simp add: ring_ok_def ring_clear_def ring_list_def)

lemma reset_list: "ring_ok r \<Longrightarrow> ring_ok (reset_from xs r) \<and> ring_list (reset_from xs r) = last_n (rg_maxlen r) xs"
  using clear_ok [of r] ring_appends [of "ring_clear r" "last_n (rg_maxlen r) xs"]
  by (simp add: reset_from_def last_n_id length_last_n)

text \<open>
  The engines that keep a ring of records full of preallocated slots rewrite the oldest record in place (\<open>reclaim_oldest\<close>, then
  \<open>advance_after_reclaim\<close>): the same as appending the rewritten record.
\<close>

definition rewrite_oldest :: "('a \<Rightarrow> 'a) \<Rightarrow> 'a ring \<Rightarrow> 'a ring" where
  "rewrite_oldest f r = snd (advance_after_reclaim
     (r\<lparr>rg_buf := (rg_buf r)[rg_start r := map_option f (reclaim_oldest r)]\<rparr>))"

lemma rewrite_is_append:
  assumes "ring_ok r" "reclaim_oldest r = Some x"
  shows "rewrite_oldest f r = ring_append (f x) r"
  using assms by (auto simp: rewrite_oldest_def reclaim_oldest_def advance_after_reclaim_def ring_append_def split: if_splits)

text \<open>C33: a ring created with a positive capacity and filled by any appends reads, at every index from either end and in
  iteration, as the list of the newest entries; rewriting the oldest slot in place is appending the rewritten entry; a capacity
  below one is refused.\<close>

theorem ring_holds_the_newest:
  assumes "new_ring n xs = Inr r" and "s = fold ring_append ys r"
  shows "1 \<le> n \<and> ring_list s = last_n (nat n) (xs @ ys) \<and>
    ring_get s i = (let len = int (length (ring_list s)); j = (if i < 0 then i + len else i)
      in if j < 0 \<or> len \<le> j then Inl (IndexError ''ring_index'') else Inr (ring_list s ! nat j)) \<and>
    (reclaim_oldest s = Some x \<longrightarrow> ring_list (rewrite_oldest f s) = last_n (nat n) (xs @ ys @ [f x]))"
proof (intro conjI impI)
  show "1 \<le> n" using new_ring_bound [OF assms(1)] by simp
  have r: "ring_ok r" "rg_maxlen r = nat n" "ring_list r = last_n (nat n) xs" using new_ring_Inr [OF assms(1)] by simp_all
  then show s: "ring_list s = last_n (nat n) (xs @ ys)" using ring_appends [OF r(1), of ys] by (simp add: assms(2) last_n_again)
  show "ring_get s i = (let len = int (length (ring_list s)); j = (if i < 0 then i + len else i)
      in if j < 0 \<or> len \<le> j then Inl (IndexError ''ring_index'') else Inr (ring_list s ! nat j))"
    by (rule ring_get_list)
  have ok: "ring_ok s" "rg_maxlen s = nat n" using ring_appends [OF r(1), of ys] r(2) by (simp_all add: assms(2))
  assume "reclaim_oldest s = Some x"
  then show "ring_list (rewrite_oldest f s) = last_n (nat n) (xs @ ys @ [f x])"
    using ok by (simp add: rewrite_is_append ring_list_append s last_n_again)
qed

theorem ring_holds_the_newest_witness:
  "\<exists>r s. new_ring 2 [1, 2 :: int] = Inr r \<and> s = fold ring_append [3] r \<and> ring_list s = [2, 3] \<and>
     ring_get s (- 1) = Inr 3 \<and> ring_get s 2 = Inl (IndexError ''ring_index'') \<and>
     ring_list (rewrite_oldest (\<lambda>x. x + 40) s) = [3, 42]"
proof -
  obtain r where r: "new_ring 2 [1, 2 :: int] = Inr r" by (simp add: new_ring_def)
  let ?s = "fold ring_append [3] r"
  have "reclaim_oldest ?s = Some 2"
    using r by (auto simp: new_ring_def ring_append_def ring_slot_def reclaim_oldest_def numeral_2_eq_2)
  then have all: "ring_list ?s = last_n (nat 2) ([1, 2] @ [3])"
      "ring_list (rewrite_oldest (\<lambda>x. x + 40) ?s) = last_n (nat 2) ([1, 2] @ [3] @ [2 + 40])"
    using ring_holds_the_newest [OF r, where ys = "[3]" and x = 2 and f = "\<lambda>x. x + 40", OF refl] by blast+
  have get: "ring_get ?s i = (let len = int (length (ring_list ?s)); j = (if i < 0 then i + len else i)
      in if j < 0 \<or> len \<le> j then Inl (IndexError ''ring_index'') else Inr (ring_list ?s ! nat j))" for i
    using ring_holds_the_newest [OF r, where ys = "[3]", OF refl] by blast
  have l: "ring_list ?s = [2, 3]" using all(1) by (simp add: last_n_def)
  have "ring_list (rewrite_oldest (\<lambda>x. x + 40) ?s) = [3, 42]" using all(2) by (simp add: last_n_def)
  moreover have "ring_get ?s (- 1) = Inr 3" "ring_get ?s 2 = Inl (IndexError ''ring_index'')"
    using get [of "- 1"] get [of 2] by (simp_all add: l del: fold.simps)
  ultimately show ?thesis using r l by blast
qed

end
