(* ===== verification/RouteEvidence.thy ===== *)
theory RouteEvidence
  imports BoundedRings
begin

text \<open>
  \<open>world_model/route_evidence.py\<close>: route episodes bound to one opportunity, closed into records of verified experience and kept
  in a ring of bounded capacity. A mapping handed in by a caller is a \<open>pyv\<close>; the dictionaries a call returns are \<open>pyv\<close> as well.
  A call that raises keeps what it had changed.
\<close>

section \<open>Constants\<close>

definition ROUTE_EVIDENCE_SCHEMA_V1 :: string where
  "ROUTE_EVIDENCE_SCHEMA_V1 = ''VERIFIED_ROUTE_EXPERIENCE_V1''"

definition ROUTE_EVIDENCE_SCHEMA :: string where
  "ROUTE_EVIDENCE_SCHEMA = ''VERIFIED_ROUTE_EXPERIENCE_V2''"

definition ROUTE_EVIDENCE_SEMANTICS :: string where
  "ROUTE_EVIDENCE_SEMANTICS = ''VERIFIED_OBSERVED_SUPPORT''"

definition DEFAULT_ROUTE_EVIDENCE_CAPACITY :: int where
  "DEFAULT_ROUTE_EVIDENCE_CAPACITY = 128"

definition ROUTE_CAPABILITY :: string where
  "ROUTE_CAPABILITY = ''APPROACH''"

definition ROUTE_CONTROL_CAPABILITIES :: "string set" where
  "ROUTE_CONTROL_CAPABILITIES = {''APPROACH'', ''ORIENT''}"

definition TERMINAL_CAPABILITIES :: "string set" where
  "TERMINAL_CAPABILITIES = {''CHARGE'', ''REST'', ''INSPECT''}"

definition TERMINAL_BY_KIND :: "(string \<times> string) list" where
  "TERMINAL_BY_KIND =
     [(''resource'', ''CHARGE''), (''novel_crystal'', ''CHARGE''), (''rest'', ''REST''), (''inspect'', ''INSPECT'')]"

definition ELIGIBLE_FACT_KINDS :: "string set" where
  "ELIGIBLE_FACT_KINDS = {''CURRENT_OBSERVATION'', ''REMEMBERED_ESTIMATE''}"

text \<open>\<open>_value\<close>: the entry of a mapping, or an attribute, which a plain value does not have.\<close>

fun item_value :: "pyv \<Rightarrow> string \<Rightarrow> pyv \<Rightarrow> pyv" where
  "item_value (VDict d) name dflt = (case map_of d name of None \<Rightarrow> dflt | Some v \<Rightarrow> v)"
| "item_value v name dflt = dflt"

section \<open>Which opportunity\<close>

record opportunity_resolution =
  or_status :: string
  or_opportunity_entity_id :: "string option"
  or_candidate_entity_ids :: "string list"
  or_reason :: "string option"

definition resolution_to_dict :: "opportunity_resolution \<Rightarrow> pyv" where
  "resolution_to_dict o1 = VDict
     [(''status'', VStr (or_status o1)), (''opportunity_entity_id'', v_opt VStr (or_opportunity_entity_id o1)),
      (''candidate_entity_ids'', v_strs (or_candidate_entity_ids o1)), (''reason'', v_opt VStr (or_reason o1))]"

definition unavailable :: "string \<Rightarrow> opportunity_resolution" where
  "unavailable reason = \<lparr>or_status = ''UNAVAILABLE'', or_opportunity_entity_id = None, or_candidate_entity_ids = [],
     or_reason = Some reason\<rparr>"

text \<open>One pass of the loop: the identifiers the entity adds to \<open>matches\<close>.\<close>

definition opportunity_match :: "string \<Rightarrow> string \<Rightarrow> string \<times> pyv \<Rightarrow> string list res" where
  "opportunity_match target_kind body_schema_id = (\<lambda>(key, entity).
     andThen (as_str (or_else (item_value entity ''entity_id'' (VStr key)) (VStr []))) (\<lambda>entity_id.
     if entity_id = [] then Inr []
     else andThen (as_str (item_value entity ''entity_kind'' (VStr []))) (\<lambda>kind.
     if kind \<noteq> target_kind then Inr []
     else andThen (as_str (item_value entity ''fact_kind'' (VStr ''UNKNOWN''))) (\<lambda>fact.
     if fact \<notin> ELIGIBLE_FACT_KINDS then Inr []
     else
       let support_schema = item_value entity ''support_body_schema_id'' VNone in
       if support_schema = VNone then Inr [entity_id]
       else andThen (as_str support_schema) (\<lambda>schema. Inr (if schema \<noteq> body_schema_id then [] else [entity_id]))))))"

text \<open>\<open>dict.fromkeys\<close> keeps the first of equal identifiers.\<close>

definition from_keys :: "string list \<Rightarrow> string list" where
  "from_keys xs = fold (\<lambda>x seen. if x \<in> set seen then seen else seen @ [x]) xs []"

definition resolve_opportunity :: "pyv dict \<Rightarrow> string option \<Rightarrow> string option \<Rightarrow> opportunity_resolution res" where
  "resolve_opportunity entities target_kind body_schema_id =
     (case target_kind of None \<Rightarrow> Inr (unavailable ''target_kind_missing'')
      | Some kind \<Rightarrow> if kind = [] then Inr (unavailable ''target_kind_missing'') else
     (case body_schema_id of None \<Rightarrow> Inr (unavailable ''body_schema_missing'')
      | Some schema \<Rightarrow> if schema = [] then Inr (unavailable ''body_schema_missing'') else
     andThen (mapE (opportunity_match kind schema) entities) (\<lambda>matches.
     let found = from_keys (concat matches) in
     Inr (if length found = 1
          then \<lparr>or_status = ''EXACT'', or_opportunity_entity_id = Some (hd found), or_candidate_entity_ids = found,
                or_reason = None\<rparr>
          else if 1 < length found
          then \<lparr>or_status = ''AMBIGUOUS'', or_opportunity_entity_id = None, or_candidate_entity_ids = found,
                or_reason = Some ''multiple_matching_entities''\<rparr>
          else unavailable ''no_matching_policy_safe_entity''))))"

section \<open>Control steps\<close>

record control_step =
  st_capability :: string
  st_issue_tick :: int
  st_completion_tick :: int
  st_completion_lag :: int
  st_translational_movement :: bool
  st_success :: bool
  st_verified_outcome_ref :: "string option"

definition make_step :: "control_step \<Rightarrow> control_step res" where
  "make_step s =
     (if st_capability s \<notin> ROUTE_CONTROL_CAPABILITIES \<union> TERMINAL_CAPABILITIES
      then Inl (ValueError ''route_control_step_capability'')
      else if st_issue_tick s < 0 \<or> st_completion_tick s < st_issue_tick s
      then Inl (ValueError ''route_control_step_tick_range'')
      else if st_completion_lag s \<noteq> st_completion_tick s - st_issue_tick s
      then Inl (ValueError ''route_control_step_lag'')
      else if st_completion_lag s < 0 then Inl (ValueError ''route_control_step_negative_lag'')
      else if st_capability s = ROUTE_CAPABILITY \<and> \<not> st_translational_movement s
      then Inl (ValueError ''route_control_step_approach_translation'')
      else if st_capability s \<noteq> ROUTE_CAPABILITY \<and> st_translational_movement s
      then Inl (ValueError ''route_control_step_nonapproach_translation'')
      else Inr s)"

definition step_to_dict :: "control_step \<Rightarrow> pyv" where
  "step_to_dict s = VDict
     [(''capability'', VStr (st_capability s)), (''issue_tick'', VInt (st_issue_tick s)),
      (''completion_tick'', VInt (st_completion_tick s)), (''completion_lag'', VInt (st_completion_lag s)),
      (''translational_movement'', VBool (st_translational_movement s)), (''success'', VBool (st_success s)),
      (''verified_outcome_ref'', v_opt VStr (st_verified_outcome_ref s))]"

text \<open>\<open>str(v[k]) if v.get(k) else None\<close>.\<close>

definition str_if_truthy :: "pyv \<Rightarrow> string option res" where
  "str_if_truthy x = (if truthy x then andThen (as_str x) (\<lambda>s. Inr (Some s)) else Inr None)"

definition str_if_set :: "pyv \<Rightarrow> string \<Rightarrow> string option res" where
  "str_if_set v k = andThen (get_or v k VNone) str_if_truthy"

definition step_from_dict :: "pyv \<Rightarrow> control_step res" where
  "step_from_dict v =
     andThen (fld v ''capability'' as_str) (\<lambda>capability.
     andThen (fld v ''issue_tick'' as_int) (\<lambda>issue_tick.
     andThen (fld v ''completion_tick'' as_int) (\<lambda>completion_tick.
     andThen (fld v ''completion_lag'' as_int) (\<lambda>completion_lag.
     andThen (fld_or v ''translational_movement'' (VBool False) as_bool) (\<lambda>moved.
     andThen (fld_or v ''success'' (VBool False) as_bool) (\<lambda>success.
     andThen (str_if_set v ''verified_outcome_ref'') (\<lambda>ref.
     make_step \<lparr>st_capability = capability, st_issue_tick = issue_tick, st_completion_tick = completion_tick,
       st_completion_lag = completion_lag, st_translational_movement = moved, st_success = success,
       st_verified_outcome_ref = ref\<rparr>)))))))"

section \<open>Experiences\<close>

record route_experience =
  rx_evidence_id :: string
  rx_opportunity_entity_id :: string
  rx_opportunity_entity_kind :: string
  rx_body_schema_id :: string
  rx_route_capability :: string
  rx_terminal_capability :: string
  rx_start_tick :: int
  rx_final_tick :: int
  rx_start_distance :: "flt option"
  rx_start_fact_kind :: string
  rx_start_provenance :: "string option"
  rx_movement_count :: int
  rx_movement_lags :: "int list"
  rx_terminal_lag :: "int option"
  rx_terminal_result :: bool
  rx_failure_code :: "string option"
  rx_outcome_refs :: "string list"
  rx_semantics :: string
  rx_steps :: "control_step list"
  rx_schema :: string

definition make_experience :: "route_experience \<Rightarrow> route_experience res" where
  "make_experience x =
     (if rx_evidence_id x = [] \<or> rx_opportunity_entity_id x = [] \<or> rx_body_schema_id x = []
      then Inl (ValueError ''route_experience_identity_required'')
      else if rx_route_capability x \<noteq> ROUTE_CAPABILITY then Inl (ValueError ''route_experience_route_capability'')
      else if rx_terminal_capability x \<notin> TERMINAL_CAPABILITIES
      then Inl (ValueError ''route_experience_terminal_capability'')
      else if rx_start_tick x < 0 \<or> rx_final_tick x < rx_start_tick x
      then Inl (ValueError ''route_experience_tick_range'')
      else if rx_movement_count x \<noteq> int (length (rx_movement_lags x))
      then Inl (ValueError ''route_experience_movement_count_mismatch'')
      else if list_ex (\<lambda>lag. lag < 0) (rx_movement_lags x) then Inl (ValueError ''route_experience_movement_lag'')
      else if (case rx_terminal_lag x of None \<Rightarrow> False | Some lag \<Rightarrow> lag < 0)
      then Inl (ValueError ''route_experience_terminal_lag'')
      else if (case rx_start_distance x of None \<Rightarrow> False | Some d \<Rightarrow> \<not> is_finite d \<or> flt_lt d (Fin 0))
      then Inl (ValueError ''route_experience_distance_support'')
      else if rx_semantics x \<noteq> ROUTE_EVIDENCE_SEMANTICS then Inl (ValueError ''route_experience_semantics'')
      else if rx_schema x \<notin> {ROUTE_EVIDENCE_SCHEMA_V1, ROUTE_EVIDENCE_SCHEMA}
      then Inl (ValueError ''route_experience_schema'')
      else if rx_schema x = ROUTE_EVIDENCE_SCHEMA_V1 \<and> rx_steps x \<noteq> []
      then Inl (ValueError ''v1_route_control_steps_not_representable'')
      else Inr x)"

definition experience_to_dict :: "route_experience \<Rightarrow> pyv" where
  "experience_to_dict x = VDict
     [(''evidence_id'', VStr (rx_evidence_id x)), (''opportunity_entity_id'', VStr (rx_opportunity_entity_id x)),
      (''opportunity_entity_kind'', VStr (rx_opportunity_entity_kind x)), (''body_schema_id'', VStr (rx_body_schema_id x)),
      (''route_capability'', VStr (rx_route_capability x)), (''terminal_capability'', VStr (rx_terminal_capability x)),
      (''start_tick'', VInt (rx_start_tick x)), (''final_tick'', VInt (rx_final_tick x)),
      (''start_distance_support_upper_bound'', v_opt VFlt (rx_start_distance x)),
      (''start_fact_kind'', VStr (rx_start_fact_kind x)),
      (''start_support_provenance'', v_opt VStr (rx_start_provenance x)),
      (''verified_movement_execution_count'', VInt (rx_movement_count x)),
      (''movement_completion_lags'', VList (map VInt (rx_movement_lags x))),
      (''terminal_completion_lag'', v_opt VInt (rx_terminal_lag x)), (''terminal_result'', VBool (rx_terminal_result x)),
      (''route_failure_code'', v_opt VStr (rx_failure_code x)), (''execution_outcome_refs'', v_strs (rx_outcome_refs x)),
      (''evidence_semantics'', VStr (rx_semantics x)), (''route_control_steps'', VList (map step_to_dict (rx_steps x))),
      (''schema'', VStr (rx_schema x))]"

definition experience_from_dict :: "pyv \<Rightarrow> route_experience res" where
  "experience_from_dict v =
     andThen (get_or v ''route_control_steps'' VNone) (\<lambda>raw_steps.
     andThen (tuple_of step_from_dict (or_else raw_steps (VList []))) (\<lambda>steps.
     andThen (fld_or v ''schema'' (VStr (if raw_steps \<noteq> VNone then ROUTE_EVIDENCE_SCHEMA else ROUTE_EVIDENCE_SCHEMA_V1))
       as_str) (\<lambda>schema.
     andThen (fld v ''evidence_id'' as_str) (\<lambda>evidence_id.
     andThen (fld v ''opportunity_entity_id'' as_str) (\<lambda>entity_id.
     andThen (fld v ''opportunity_entity_kind'' as_str) (\<lambda>entity_kind.
     andThen (fld v ''body_schema_id'' as_str) (\<lambda>body.
     andThen (fld_or v ''route_capability'' (VStr ROUTE_CAPABILITY) as_str) (\<lambda>route.
     andThen (fld v ''terminal_capability'' as_str) (\<lambda>terminal.
     andThen (fld v ''start_tick'' as_int) (\<lambda>start_tick.
     andThen (fld v ''final_tick'' as_int) (\<lambda>final_tick.
     andThen (fld_or v ''start_distance_support_upper_bound'' VNone (opt_conv as_float)) (\<lambda>distance.
     andThen (fld_or v ''start_fact_kind'' (VStr ''UNKNOWN'') as_str) (\<lambda>fact_kind.
     andThen (str_if_set v ''start_support_provenance'') (\<lambda>provenance.
     andThen (fld_or v ''verified_movement_execution_count'' (VInt 0) as_int) (\<lambda>count.
     andThen (fld_or v ''movement_completion_lags'' (VList []) (tuple_of as_int)) (\<lambda>lags.
     andThen (fld_or v ''terminal_completion_lag'' VNone (opt_conv as_int)) (\<lambda>terminal_lag.
     andThen (fld_or v ''terminal_result'' (VBool False) as_bool) (\<lambda>result.
     andThen (str_if_set v ''route_failure_code'') (\<lambda>failure.
     andThen (fld_or v ''execution_outcome_refs'' (VList []) (tuple_of as_str)) (\<lambda>refs.
     andThen (fld_or v ''evidence_semantics'' (VStr ROUTE_EVIDENCE_SEMANTICS) as_str) (\<lambda>semantics.
     make_experience
       \<lparr>rx_evidence_id = evidence_id, rx_opportunity_entity_id = entity_id, rx_opportunity_entity_kind = entity_kind,
        rx_body_schema_id = body, rx_route_capability = route, rx_terminal_capability = terminal,
        rx_start_tick = start_tick, rx_final_tick = final_tick, rx_start_distance = distance,
        rx_start_fact_kind = fact_kind, rx_start_provenance = provenance, rx_movement_count = count,
        rx_movement_lags = lags, rx_terminal_lag = terminal_lag, rx_terminal_result = result, rx_failure_code = failure,
        rx_outcome_refs = refs, rx_semantics = semantics, rx_steps = steps, rx_schema = schema\<rparr>)))))))))))))))))))))"

section \<open>Episodes\<close>

record route_episode =
  re_opportunity_entity_id :: string
  re_opportunity_entity_kind :: string
  re_body_schema_id :: string
  re_route_capability :: string
  re_terminal_capability :: string
  re_start_tick :: int
  re_start_distance :: "flt option"
  re_start_fact_kind :: string
  re_start_provenance :: "string option"
  re_movement_lags :: "int list"
  re_terminal_lag :: "int option"
  re_terminal_result :: bool
  re_failure_code :: "string option"
  re_final_tick :: "int option"
  re_outcome_refs :: "string list"
  re_steps :: "control_step list"

text \<open>\<open>if outcome_ref: refs.append(str(outcome_ref))\<close>.\<close>

definition set_ref :: "string option \<Rightarrow> string option" where
  "set_ref ref = (case ref of None \<Rightarrow> None | Some s \<Rightarrow> if s = [] then None else Some s)"

definition ref_list :: "string option \<Rightarrow> string list" where
  "ref_list ref = (case set_ref ref of None \<Rightarrow> [] | Some s \<Rightarrow> [s])"

definition add_ref :: "string option \<Rightarrow> route_episode \<Rightarrow> route_episode" where
  "add_ref ref e = e\<lparr>re_outcome_refs := re_outcome_refs e @ ref_list ref\<rparr>"

definition episode_close :: "int \<Rightarrow> string option \<Rightarrow> route_episode \<Rightarrow> route_episode" where
  "episode_close tick ref e = add_ref ref (e\<lparr>re_final_tick := Some tick\<rparr>)"

definition experience_of :: "route_episode \<Rightarrow> string \<Rightarrow> int \<Rightarrow> route_experience" where
  "experience_of e evidence_id final_tick =
       \<lparr>rx_evidence_id = evidence_id, rx_opportunity_entity_id = re_opportunity_entity_id e,
        rx_opportunity_entity_kind = re_opportunity_entity_kind e, rx_body_schema_id = re_body_schema_id e,
        rx_route_capability = re_route_capability e, rx_terminal_capability = re_terminal_capability e,
        rx_start_tick = re_start_tick e, rx_final_tick = final_tick, rx_start_distance = re_start_distance e,
        rx_start_fact_kind = re_start_fact_kind e, rx_start_provenance = re_start_provenance e,
        rx_movement_count = int (length (re_movement_lags e)), rx_movement_lags = re_movement_lags e,
        rx_terminal_lag = re_terminal_lag e, rx_terminal_result = re_terminal_result e,
        rx_failure_code = re_failure_code e, rx_outcome_refs = re_outcome_refs e,
        rx_semantics = ROUTE_EVIDENCE_SEMANTICS, rx_steps = re_steps e, rx_schema = ROUTE_EVIDENCE_SCHEMA\<rparr>"

definition to_experience :: "route_episode \<Rightarrow> string \<Rightarrow> route_experience res" where
  "to_experience e evidence_id =
     (case re_final_tick e of None \<Rightarrow> Inl (ValueError ''route_episode_not_closed'')
      | Some final_tick \<Rightarrow> make_experience (experience_of e evidence_id final_tick))"

section \<open>The store\<close>

record route_store =
  rt_capacity :: int
  rt_experiences :: "route_experience ring"
  rt_episode :: "route_episode option"

definition new_route_store :: "int \<Rightarrow> route_store res" where
  "new_route_store capacity =
     (if capacity < 1 then Inl (ValueError ''route_evidence_capacity'')
      else andThen (new_ring capacity []) (\<lambda>r.
        Inr \<lparr>rt_capacity = capacity, rt_experiences = r, rt_episode = None\<rparr>))"

definition reason_dict :: "string \<Rightarrow> pyv" where
  "reason_dict reason = VDict [(''adapted'', VBool False), (''reason'', VStr reason)]"

definition discard_dict :: "string \<Rightarrow> pyv" where
  "discard_dict reason = VDict [(''adapted'', VBool False), (''discarded'', VBool True), (''reason'', VStr reason)]"

definition route_discard :: "string \<Rightarrow> (route_store, pyv) method" where
  "route_discard reason t = (Inr (discard_dict reason), t\<lparr>rt_episode := None\<rparr>)"

definition bind_for_issue ::
  "pyv dict \<Rightarrow> string \<Rightarrow> string option \<Rightarrow> string option \<Rightarrow> pyv option res" where
  "bind_for_issue entities capability target_kind body_schema_id =
     (if capability \<notin> {''ORIENT'', ROUTE_CAPABILITY} \<union> TERMINAL_CAPABILITIES then Inr None
      else andThen (resolve_opportunity entities target_kind body_schema_id) (\<lambda>resolution.
      if or_status resolution \<noteq> ''EXACT'' then Inr None
      else
        let entity_id = the (or_opportunity_entity_id resolution) in
        (case map_of entities entity_id of None \<Rightarrow> Inl (KeyError entity_id)
         | Some entity \<Rightarrow>
           andThen (as_str (item_value entity ''entity_kind'' VNone)) (\<lambda>kind.
           andThen (as_str (item_value entity ''fact_kind'' (VStr ''UNKNOWN''))) (\<lambda>fact.
           Inr (Some (VDict
             [(''status'', VStr ''EXACT''), (''opportunity_entity_id'', VStr entity_id),
              (''opportunity_entity_kind'', VStr kind), (''body_schema_id'', v_opt VStr body_schema_id),
              (''start_distance_support_upper_bound'', item_value entity ''distance_support_upper_bound'' VNone),
              (''start_fact_kind'', VStr fact),
              (''start_support_provenance'', item_value entity ''support_provenance'' VNone)])))))))"

definition new_episode :: "pyv \<Rightarrow> int \<Rightarrow> string \<Rightarrow> route_episode res" where
  "new_episode binding tick terminal =
     andThen (fld binding ''opportunity_entity_id'' as_str) (\<lambda>entity_id.
     andThen (fld binding ''opportunity_entity_kind'' as_str) (\<lambda>kind.
     andThen (fld binding ''body_schema_id'' as_str) (\<lambda>body.
     andThen (fld_or binding ''start_distance_support_upper_bound'' VNone (opt_conv as_float)) (\<lambda>distance.
     andThen (fld_or binding ''start_fact_kind'' (VStr ''UNKNOWN'') as_str) (\<lambda>fact_kind.
     andThen (str_if_set binding ''start_support_provenance'') (\<lambda>provenance.
     Inr \<lparr>re_opportunity_entity_id = entity_id, re_opportunity_entity_kind = kind, re_body_schema_id = body,
       re_route_capability = ROUTE_CAPABILITY, re_terminal_capability = terminal, re_start_tick = tick,
       re_start_distance = distance, re_start_fact_kind = fact_kind, re_start_provenance = provenance,
       re_movement_lags = [], re_terminal_lag = None, re_terminal_result = False, re_failure_code = None,
       re_final_tick = None, re_outcome_refs = [], re_steps = []\<rparr>))))))"

definition start_episode :: "pyv \<Rightarrow> int \<Rightarrow> string \<Rightarrow> (route_store, unit) method" where
  "start_episode binding tick terminal t =
     (case new_episode binding tick terminal of
        Inl e \<Rightarrow> (Inl e, t)
      | Inr e \<Rightarrow> (Inr (), t\<lparr>rt_episode := Some e\<rparr>))"

definition append_closed :: "bool \<Rightarrow> int \<Rightarrow> string option \<Rightarrow> (route_store, pyv) method" where
  "append_closed success tick ref t =
     (case rt_episode t of None \<Rightarrow> (Inr (reason_dict ''no_episode''), t)
      | Some e \<Rightarrow>
        let closed = episode_close tick ref (e\<lparr>re_terminal_result := success\<rparr>) in
        (case to_experience closed
            (''route-experience:'' @ (case set_ref ref of None \<Rightarrow> int_str tick | Some s \<Rightarrow> s)) of
           Inl err \<Rightarrow> (Inl err, t\<lparr>rt_episode := Some closed\<rparr>)
         | Inr x \<Rightarrow>
           (Inr (VDict [(''adapted'', VBool True), (''experience'', experience_to_dict x)]),
            t\<lparr>rt_experiences := ring_append x (rt_experiences t), rt_episode := None\<rparr>)))"

definition record_control_step ::
  "string \<Rightarrow> bool \<Rightarrow> int \<Rightarrow> int option \<Rightarrow> string option \<Rightarrow> (route_store, int) method" where
  "record_control_step capability success tick issue_tick ref t =
     (case rt_episode t of None \<Rightarrow> (Inl (ValueError ''route_episode_required''), t)
      | Some e \<Rightarrow>
        let issued = (case issue_tick of None \<Rightarrow> tick | Some i \<Rightarrow> i); lag = max 0 (tick - issued) in
        (case make_step \<lparr>st_capability = capability, st_issue_tick = issued, st_completion_tick = tick,
             st_completion_lag = lag, st_translational_movement = (capability = ROUTE_CAPABILITY), st_success = success,
             st_verified_outcome_ref = set_ref ref\<rparr> of
           Inl err \<Rightarrow> (Inl err, t)
         | Inr s \<Rightarrow> (Inr lag, t\<lparr>rt_episode := Some (e\<lparr>re_steps := re_steps e @ [s]\<rparr>)\<rparr>)))"

text \<open>An assignment to a field of the episode in progress, and sequencing of methods.\<close>

definition on_episode :: "(route_episode \<Rightarrow> route_episode) \<Rightarrow> route_store \<Rightarrow> route_store" where
  "on_episode f t = t\<lparr>rt_episode := map_option f (rt_episode t)\<rparr>"

definition then_do :: "('s, 'a) method \<Rightarrow> ('a \<Rightarrow> ('s, 'b) method) \<Rightarrow> ('s, 'b) method" where
  "then_do m f t = (case m t of (Inl e, u) \<Rightarrow> (Inl e, u) | (Inr x, u) \<Rightarrow> f x u)"

definition start_if_none :: "pyv \<Rightarrow> int \<Rightarrow> string \<Rightarrow> (route_store, unit) method" where
  "start_if_none binding tick terminal t =
     (if rt_episode t = None then start_episode binding tick terminal t else (Inr (), t))"

text \<open>The three branches by capability, once the binding fits the episode.\<close>

definition approach_outcome ::
  "pyv \<Rightarrow> string \<Rightarrow> bool \<Rightarrow> string \<Rightarrow> int \<Rightarrow> int option \<Rightarrow> string option \<Rightarrow> (route_store, pyv) method" where
  "approach_outcome binding terminal success reason tick issue_tick ref =
     then_do (start_if_none binding tick terminal) (\<lambda>_.
     then_do (record_control_step ROUTE_CAPABILITY success tick issue_tick ref) (\<lambda>lag t.
     if \<not> success then append_closed False tick ref (on_episode (\<lambda>e. e\<lparr>re_failure_code := Some reason\<rparr>) t)
     else
       (Inr (VDict [(''adapted'', VBool False), (''episode_active'', VBool True), (''movement_lag'', VInt lag)]),
        on_episode (\<lambda>e. add_ref ref (e\<lparr>re_movement_lags := re_movement_lags e @ [lag]\<rparr>)) t)))"

definition orient_outcome ::
  "pyv \<Rightarrow> string \<Rightarrow> bool \<Rightarrow> string \<Rightarrow> int \<Rightarrow> int option \<Rightarrow> string option \<Rightarrow> (route_store, pyv) method" where
  "orient_outcome binding terminal success reason tick issue_tick ref =
     then_do (start_if_none binding tick terminal) (\<lambda>_.
     then_do (record_control_step ''ORIENT'' success tick issue_tick ref) (\<lambda>lag t.
     if \<not> success then append_closed False tick ref (on_episode (\<lambda>e. e\<lparr>re_failure_code := Some reason\<rparr>) t)
     else
       (Inr (VDict [(''adapted'', VBool False), (''episode_active'', VBool True), (''route_control_lag'', VInt lag)]),
        on_episode (add_ref ref) t)))"

definition terminal_outcome ::
  "pyv \<Rightarrow> string \<Rightarrow> bool \<Rightarrow> string \<Rightarrow> int \<Rightarrow> int option \<Rightarrow> string option \<Rightarrow> (route_store, pyv) method" where
  "terminal_outcome binding terminal success reason tick issue_tick ref t =
     (if rt_episode t = None \<and> \<not> success then (Inr (reason_dict ''terminal_failure_without_route''), t)
      else then_do (start_if_none binding tick terminal) (\<lambda>_.
        then_do (record_control_step terminal success tick issue_tick ref) (\<lambda>lag t.
        if \<not> success then
          (if reason \<in> {''not_at_rest'', ''not_at_resource'', ''not_at_inspect''} then
             (Inr (VDict [(''adapted'', VBool False), (''episode_active'', VBool True),
                (''reason'', VStr ''premature_terminal'')]), on_episode (add_ref ref) t)
           else append_closed False tick ref (on_episode (\<lambda>e. e\<lparr>re_failure_code := Some reason\<rparr>) t))
        else append_closed True tick ref (on_episode (\<lambda>e. e\<lparr>re_terminal_lag := Some lag\<rparr>) t))) t)"

text \<open>The rest of the method once the binding names an entity of a known kind.\<close>

definition bound_outcome ::
  "pyv dict \<Rightarrow> string \<Rightarrow> string \<Rightarrow> string \<Rightarrow> string \<Rightarrow> bool \<Rightarrow> string \<Rightarrow> int \<Rightarrow> int option \<Rightarrow> string option
     \<Rightarrow> (route_store, pyv) method" where
  "bound_outcome b target_id schema terminal capability success reason tick issue_tick ref t =
     (let same = (case rt_episode t of None \<Rightarrow> False
            | Some e \<Rightarrow> re_opportunity_entity_id e = target_id \<and> re_body_schema_id e = schema);
          switched = (rt_episode t \<noteq> None \<and> \<not> same);
          u = (if switched then t\<lparr>rt_episode := None\<rparr> else t) in
      if switched \<and> re_body_schema_id (the (rt_episode t)) \<noteq> schema
      then (Inr (discard_dict ''body_schema_changed''), u)
      else if capability = ROUTE_CAPABILITY
      then approach_outcome (VDict b) terminal success reason tick issue_tick ref u
      else if capability = ''ORIENT''
      then orient_outcome (VDict b) terminal success reason tick issue_tick ref u
      else if capability \<notin> TERMINAL_CAPABILITIES then route_discard ''unrelated_action'' u
      else if capability \<noteq> terminal then route_discard ''terminal_capability_mismatch'' u
      else terminal_outcome (VDict b) terminal success reason tick issue_tick ref u)"

definition record_verified_outcome ::
  "pyv dict option \<Rightarrow> string \<Rightarrow> bool \<Rightarrow> string \<Rightarrow> bool \<Rightarrow> int \<Rightarrow> int option \<Rightarrow> string option \<Rightarrow> string option
     \<Rightarrow> (route_store, pyv) method" where
  "record_verified_outcome binding capability success reason verified tick issue_tick body_schema_id ref t =
     (let b = (case binding of None \<Rightarrow> [] | Some d \<Rightarrow> d);
          get = (\<lambda>k. case map_of b k of None \<Rightarrow> VNone | Some v \<Rightarrow> v) in
      if b = [] \<or> get ''status'' \<noteq> VStr ''EXACT'' then
        (if rt_episode t \<noteq> None then route_discard ''missing_exact_binding'' t
         else (Inr (reason_dict ''missing_exact_binding''), t))
      else if \<not> verified \<or> set_ref body_schema_id = None then route_discard ''unverified_or_missing_body_schema'' t
      else
        let schema = the body_schema_id in
        (case as_str (get ''body_schema_id'') of Inl e \<Rightarrow> (Inl e, t)
         | Inr bound \<Rightarrow>
        if bound \<noteq> schema then route_discard ''body_schema_changed'' t
        else (case andThen (as_str (get ''opportunity_entity_id'')) (\<lambda>target_id.
                   andThen (as_str (get ''opportunity_entity_kind'')) (\<lambda>target_kind. Inr (target_id, target_kind))) of
           Inl e \<Rightarrow> (Inl e, t)
         | Inr (target_id, target_kind) \<Rightarrow>
        (case map_of TERMINAL_BY_KIND target_kind of
           None \<Rightarrow> (Inr (reason_dict ''unsupported_terminal_kind''), t)
         | Some terminal \<Rightarrow>
           bound_outcome b target_id schema terminal capability success reason tick issue_tick ref t))))"

definition route_to_state :: "route_store \<Rightarrow> pyv" where
  "route_to_state t = VDict
     [(''schema'', VStr ROUTE_EVIDENCE_SCHEMA), (''capacity'', VInt (rt_capacity t)),
      (''experiences'', VList (map experience_to_dict (ring_list (rt_experiences t))))]"

definition route_from_state :: "pyv \<Rightarrow> int \<Rightarrow> route_store res" where
  "route_from_state v default_capacity =
     (if \<not> truthy v then new_route_store default_capacity
      else andThen (fld_or v ''capacity'' (VInt default_capacity) as_int) (\<lambda>capacity.
        andThen (new_route_store capacity) (\<lambda>store.
        andThen (fld_or v ''experiences'' (VList []) as_list) (\<lambda>items.
        foldE (\<lambda>t item. andThen (experience_from_dict item) (\<lambda>x.
          Inr (t\<lparr>rt_experiences := ring_append x (rt_experiences t)\<rparr>))) store items))))"

definition counts_bounded :: "route_store \<Rightarrow> bool" where
  "counts_bounded t \<longleftrightarrow> int (rg_len (rt_experiences t)) \<le> rt_capacity t"

text \<open>\<open>route_demand_support\<close>; \<open>min\<close> and \<open>max\<close> of a nonempty list.\<close>

definition int_min :: "int list \<Rightarrow> pyv" where
  "int_min xs = (if xs = [] then VNone else VInt (foldr min (tl xs) (hd xs)))"

definition int_max :: "int list \<Rightarrow> pyv" where
  "int_max xs = (if xs = [] then VNone else VInt (foldr max (tl xs) (hd xs)))"

definition route_demand_support :: "route_store \<Rightarrow> string \<Rightarrow> string \<Rightarrow> string \<Rightarrow> pyv" where
  "route_demand_support t entity_id body_schema_id terminal =
     (let matches = filter (\<lambda>x. rx_opportunity_entity_id x = entity_id \<and> rx_body_schema_id x = body_schema_id \<and>
            rx_terminal_capability x = terminal) (ring_list (rt_experiences t));
          about = [(''support_semantics'', VStr ROUTE_EVIDENCE_SEMANTICS), (''opportunity_entity_id'', VStr entity_id),
            (''body_schema_id'', VStr body_schema_id), (''terminal_capability'', VStr terminal),
            (''sample_count'', VInt (int (length matches)))];
          counts = map rx_movement_count matches;
          lags = concat (map rx_movement_lags matches);
          terminal_lags = List.map_filter rx_terminal_lag matches;
          codes = filter (\<lambda>c. c \<noteq> []) (List.map_filter rx_failure_code matches)
      in if matches = [] then VDict ((''status'', VStr ''UNKNOWN'') # about)
         else VDict ((''status'', VStr ''VERIFIED_OBSERVED_SUPPORT'') # about @
           [(''success_sample_count'', VInt (int (length (filter rx_terminal_result matches)))),
            (''failure_sample_count'', VInt (int (length (filter (\<lambda>x. \<not> rx_terminal_result x) matches)))),
            (''observed_movement_execution_min'', int_min counts), (''observed_movement_execution_max'', int_max counts),
            (''movement_completion_lag_min'', int_min lags), (''movement_completion_lag_max'', int_max lags),
            (''terminal_completion_lag_min'', int_min terminal_lags),
            (''terminal_completion_lag_max'', int_max terminal_lags),
            (''terminal_observations'', VList (map (VBool \<circ> rx_terminal_result) matches)),
            (''failure_modes'', v_strs (sorted_list_of_set (set codes))),
            (''latest_tick'', int_max (map rx_final_tick matches)),
            (''provenance'', v_strs (concat (map rx_outcome_refs matches)))]))"


section \<open>What every stored experience says\<close>

text \<open>
  \<open>K\<close> gives the kinds under which an entity may be bound. Every episode and every experience is a summary of its steps; the
  result of an experience is the success of its last step.
\<close>

definition terminals_of :: "(string \<Rightarrow> string set) \<Rightarrow> string \<Rightarrow> string set" where
  "terminals_of K entity_id = {c. \<exists>k \<in> K entity_id. map_of TERMINAL_BY_KIND k = Some c}"

definition binding_kinds :: "(string \<Rightarrow> string set) \<Rightarrow> pyv dict option \<Rightarrow> bool" where
  "binding_kinds K binding \<longleftrightarrow> (\<forall>b entity_id kind. binding = Some b \<longrightarrow>
     as_str (case map_of b ''opportunity_entity_id'' of None \<Rightarrow> VNone | Some v \<Rightarrow> v) = Inr entity_id \<longrightarrow>
     as_str (case map_of b ''opportunity_entity_kind'' of None \<Rightarrow> VNone | Some v \<Rightarrow> v) = Inr kind \<longrightarrow>
     kind \<in> K entity_id)"

definition movement_lags :: "control_step list \<Rightarrow> int list" where
  "movement_lags steps =
     map st_completion_lag (filter (\<lambda>s. st_capability s = ROUTE_CAPABILITY \<and> st_success s) steps)"

definition step_ok :: "control_step \<Rightarrow> bool" where
  "step_ok s \<longleftrightarrow> make_step s = Inr s \<and> st_verified_outcome_ref s \<noteq> Some []"

definition summary_ok ::
  "(string \<Rightarrow> string set) \<Rightarrow> string \<Rightarrow> string \<Rightarrow> string option \<Rightarrow> int list \<Rightarrow> string list \<Rightarrow> control_step list \<Rightarrow> bool" where
  "summary_ok K entity_id terminal provenance lags refs steps \<longleftrightarrow>
     terminal \<in> terminals_of K entity_id \<and> provenance \<noteq> Some [] \<and> lags = movement_lags steps \<and>
     refs = List.map_filter st_verified_outcome_ref steps \<and> list_all step_ok steps"

definition episode_ok :: "(string \<Rightarrow> string set) \<Rightarrow> route_episode \<Rightarrow> bool" where
  "episode_ok K e \<longleftrightarrow> summary_ok K (re_opportunity_entity_id e) (re_terminal_capability e) (re_start_provenance e)
     (re_movement_lags e) (re_outcome_refs e) (re_steps e)"

definition ends_well :: "(string \<Rightarrow> string set) \<Rightarrow> string \<Rightarrow> bool \<Rightarrow> int option \<Rightarrow> control_step list \<Rightarrow> bool" where
  "ends_well K entity_id result lag steps \<longleftrightarrow> steps \<noteq> [] \<and> result = st_success (last steps) \<and>
     (result \<longrightarrow> st_capability (last steps) \<in> terminals_of K entity_id \<and> lag = Some (st_completion_lag (last steps)))"

definition experience_ok :: "(string \<Rightarrow> string set) \<Rightarrow> route_experience \<Rightarrow> bool" where
  "experience_ok K x \<longleftrightarrow> make_experience x = Inr x \<and> rx_schema x = ROUTE_EVIDENCE_SCHEMA \<and>
     summary_ok K (rx_opportunity_entity_id x) (rx_terminal_capability x) (rx_start_provenance x)
       (rx_movement_lags x) (rx_outcome_refs x) (rx_steps x) \<and>
     ends_well K (rx_opportunity_entity_id x) (rx_terminal_result x) (rx_terminal_lag x) (rx_steps x)"

definition store_ok :: "(string \<Rightarrow> string set) \<Rightarrow> route_store \<Rightarrow> bool" where
  "store_ok K t \<longleftrightarrow> 1 \<le> rt_capacity t \<and> ring_ok (rt_experiences t) \<and> rg_maxlen (rt_experiences t) = nat (rt_capacity t) \<and>
     list_all (experience_ok K) (ring_list (rt_experiences t)) \<and>
     (case rt_episode t of None \<Rightarrow> True | Some e \<Rightarrow> episode_ok K e)"

lemma make_experience_id: "make_experience x = Inr y \<Longrightarrow> y = x"
  by (simp add: make_experience_def split: if_splits)

lemma make_experience_count: "make_experience x = Inr y \<Longrightarrow> rx_movement_count x = int (length (rx_movement_lags x))"
  by (simp add: make_experience_def split: if_splits)

lemma make_step_id: "make_step x = Inr y \<Longrightarrow> y = x"
  by (simp add: make_step_def split: if_splits)

lemma set_ref_ne [simp]: "set_ref ref \<noteq> Some []"
  by (simp add: set_ref_def split: option.splits)

lemma str_if_set_ne: "str_if_set v k = Inr s \<Longrightarrow> s \<noteq> Some []"
proof -
  have "as_str x = Inr [] \<Longrightarrow> \<not> truthy x" for x
    by (cases x) (auto simp: int_str_def split: if_splits)
  then show "str_if_set v k = Inr s \<Longrightarrow> s \<noteq> Some []"
    by (auto simp: str_if_set_def str_if_truthy_def andThen_eq_Inr split: if_splits)
qed

lemma ring_append_all:
  assumes "ring_ok r" "list_all P (ring_list r)" "P x"
  shows "list_all P (ring_list (ring_append x r))"
  using assms set_last_n [of "rg_maxlen r" "ring_list r @ [x]"]
  by (auto simp: ring_list_append list_all_iff)

lemma store_append:
  "store_ok K t \<Longrightarrow> experience_ok K x \<Longrightarrow>
     store_ok K (t\<lparr>rt_experiences := ring_append x (rt_experiences t), rt_episode := None\<rparr>)"
  by (simp add: store_ok_def ring_append_ok ring_append_all)

lemma store_episode: "store_ok K t \<Longrightarrow> episode_ok K e \<Longrightarrow> store_ok K (t\<lparr>rt_episode := Some e\<rparr>)"
  by (simp add: store_ok_def)

lemma store_no_episode: "store_ok K t \<Longrightarrow> store_ok K (t\<lparr>rt_episode := None\<rparr>)"
  by (simp add: store_ok_def)

text \<open>Closing an episode that ends well.\<close>

lemma append_closed_ok:
  assumes "store_ok K t" "rt_episode u = Some e" "u = t\<lparr>rt_episode := Some e\<rparr>"
    and ok: "episode_ok K (add_ref ref e)" and ends: "ends_well K (re_opportunity_entity_id e) success (re_terminal_lag e) (re_steps e)"
  shows "store_ok K (snd (append_closed success tick ref u))"
proof -
  let ?c = "episode_close tick ref (e\<lparr>re_terminal_result := success\<rparr>)"
  have c: "episode_ok K ?c" using ok by (simp add: episode_ok_def episode_close_def add_ref_def)
  have x: "experience_ok K x" if "to_experience ?c i = Inr x" for i x
  proof -
    define y where "y = experience_of ?c i tick"
    have made: "make_experience y = Inr x" using that by (simp add: to_experience_def episode_close_def add_ref_def y_def)
    have y: "rx_schema y = ROUTE_EVIDENCE_SCHEMA" "rx_steps y = re_steps e"
      "rx_opportunity_entity_id y = re_opportunity_entity_id e" "rx_terminal_result y = success"
      "rx_terminal_lag y = re_terminal_lag e" "rx_terminal_capability y = re_terminal_capability e"
      "rx_start_provenance y = re_start_provenance e" "rx_movement_lags y = re_movement_lags e"
      "rx_outcome_refs y = re_outcome_refs (add_ref ref e)"
      by (simp_all add: y_def experience_of_def episode_close_def add_ref_def)
    have eq: "x = y" using made by (rule make_experience_id)
    show ?thesis using ok ends made unfolding eq by (simp add: experience_ok_def y episode_ok_def add_ref_def)
  qed
  show ?thesis
  proof (cases "to_experience ?c (''route-experience:'' @ (case set_ref ref of None \<Rightarrow> int_str tick | Some s \<Rightarrow> s))")
    case (Inl err)
    then show ?thesis using assms(1,2,3) c by (simp add: append_closed_def Let_def store_episode)
  next
    case (Inr y)
    then show ?thesis using assms(1,2,3) x [OF Inr] store_append [of K t y] by (simp add: append_closed_def Let_def)
  qed
qed


subsection \<open>The operations\<close>

lemma ref_list_step: "List.map_filter st_verified_outcome_ref (steps @ [s]) =
    List.map_filter st_verified_outcome_ref steps @ (case st_verified_outcome_ref s of None \<Rightarrow> [] | Some r \<Rightarrow> [r])"
  by (simp add: map_filter_simps map_filter_def split: option.splits)

text \<open>A recorded control step, or an error that leaves the store as it was.\<close>

lemma record_step_cases:
  assumes "rt_episode t = Some e" "capability \<in> ROUTE_CONTROL_CAPABILITIES \<union> TERMINAL_CAPABILITIES"
  obtains (err) err where "record_control_step capability success tick issue_tick ref t = (Inl err, t)"
  | (ok) s where "record_control_step capability success tick issue_tick ref t =
        (Inr (st_completion_lag s), t\<lparr>rt_episode := Some (e\<lparr>re_steps := re_steps e @ [s]\<rparr>)\<rparr>)"
      and "step_ok s" "st_capability s = capability" "st_success s = success" "st_verified_outcome_ref s = set_ref ref"
proof -
  let ?issued = "case issue_tick of None \<Rightarrow> tick | Some i \<Rightarrow> i"
  let ?s = "\<lparr>st_capability = capability, st_issue_tick = ?issued, st_completion_tick = tick,
      st_completion_lag = max 0 (tick - ?issued), st_translational_movement = (capability = ROUTE_CAPABILITY),
      st_success = success, st_verified_outcome_ref = set_ref ref\<rparr>"
  show thesis
  proof (cases "make_step ?s")
    case (Inl x)
    then show thesis using assms(1) by (intro err [of x]) (simp add: record_control_step_def Let_def)
  next
    case (Inr s)
    then have "s = ?s" by (rule make_step_id)
    then show thesis using assms(1) Inr by (intro ok [of ?s]) (simp_all add: record_control_step_def Let_def step_ok_def)
  qed
qed

lemma new_episode_fields:
  assumes "new_episode b tick terminal = Inr e"
  shows "re_movement_lags e = []" and "re_outcome_refs e = []" and "re_steps e = []" and "re_terminal_capability e = terminal"
    and "fld b ''opportunity_entity_id'' as_str = Inr (re_opportunity_entity_id e)"
    and "str_if_set b ''start_support_provenance'' = Inr (re_start_provenance e)"
  using assms by (auto simp: new_episode_def andThen_eq_Inr simp del: fld_VDict fld_or_VDict)

lemma start_episode_ok:
  assumes t: "store_ok K t" and b: "binding_kinds K (Some b)"
    and kind: "as_str (case map_of b ''opportunity_entity_kind'' of None \<Rightarrow> VNone | Some v \<Rightarrow> v) = Inr kind"
    and terminal: "map_of TERMINAL_BY_KIND kind = Some terminal"
  obtains (err) err where "start_if_none (VDict b) tick terminal t = (Inl err, t)"
  | (ok) e where "start_if_none (VDict b) tick terminal t = (Inr (), t\<lparr>rt_episode := Some e\<rparr>)" "episode_ok K e"
      "rt_episode t \<noteq> None \<longrightarrow> rt_episode t = Some e"
      "rt_episode t = None \<longrightarrow> as_str (case map_of b ''opportunity_entity_id'' of None \<Rightarrow> VNone | Some v \<Rightarrow> v)
         = Inr (re_opportunity_entity_id e)"
proof (cases "rt_episode t")
  case (Some e)
  then show thesis using t by (intro ok [of e]) (simp_all add: start_if_none_def store_ok_def)
next
  case None
  show thesis
  proof (cases "new_episode (VDict b) tick terminal")
    case (Inl x)
    then show thesis using None by (intro err [of x]) (simp add: start_if_none_def start_episode_def)
  next
    case (Inr e)
    note new = new_episode_fields [OF Inr]
    have i: "as_str (case map_of b ''opportunity_entity_id'' of None \<Rightarrow> VNone | Some v \<Rightarrow> v)
        = Inr (re_opportunity_entity_id e)"
      using new(5) by (simp split: option.splits)
    then have "kind \<in> K (re_opportunity_entity_id e)" using b kind by (auto simp: binding_kinds_def)
    then have "terminal \<in> terminals_of K (re_opportunity_entity_id e)"
      using terminal by (auto simp: terminals_of_def)
    then have "episode_ok K e"
      using new str_if_set_ne [OF new(6)] by (simp add: episode_ok_def summary_ok_def movement_lags_def map_filter_simps)
    then show thesis using None Inr i by (intro ok [of e]) (simp_all add: start_if_none_def start_episode_def)
  qed
qed

definition fits :: "(string \<Rightarrow> string set) \<Rightarrow> pyv dict \<Rightarrow> string \<Rightarrow> route_store \<Rightarrow> bool" where
  "fits K b terminal t \<longleftrightarrow> store_ok K t \<and> binding_kinds K (Some b) \<and>
     (\<exists>kind. as_str (case map_of b ''opportunity_entity_kind'' of None \<Rightarrow> VNone | Some v \<Rightarrow> v) = Inr kind \<and>
        map_of TERMINAL_BY_KIND kind = Some terminal) \<and>
     (\<forall>e. rt_episode t = Some e \<longrightarrow> as_str (case map_of b ''opportunity_entity_id'' of None \<Rightarrow> VNone | Some v \<Rightarrow> v)
        = Inr (re_opportunity_entity_id e))"

lemma started:
  assumes "fits K b terminal t"
  obtains (err) err where "start_if_none (VDict b) tick terminal t = (Inl err, t)"
  | (ok) e where "start_if_none (VDict b) tick terminal t = (Inr (), t\<lparr>rt_episode := Some e\<rparr>)" "episode_ok K e"
      "terminal \<in> terminals_of K (re_opportunity_entity_id e)"
proof -
  let ?id = "as_str (case map_of b ''opportunity_entity_id'' of None \<Rightarrow> VNone | Some v \<Rightarrow> v)"
  obtain kind where t: "store_ok K t" and b: "binding_kinds K (Some b)"
    and kind: "as_str (case map_of b ''opportunity_entity_kind'' of None \<Rightarrow> VNone | Some v \<Rightarrow> v) = Inr kind"
      "map_of TERMINAL_BY_KIND kind = Some terminal"
    using assms by (auto simp: fits_def)
  show thesis
  proof (cases rule: start_episode_ok [OF t b kind, of tick, case_names err ok])
    case (err e)
    then show thesis by (rule that(1))
  next
    case (ok e)
    have "?id = Inr (re_opportunity_entity_id e)"
      using ok(3,4) assms by (cases "rt_episode t") (auto simp: fits_def)
    then have "kind \<in> K (re_opportunity_entity_id e)" using b kind(1) by (auto simp: binding_kinds_def)
    then have "terminal \<in> terminals_of K (re_opportunity_entity_id e)" using kind(2) by (auto simp: terminals_of_def)
    then show thesis by (rule that(2) [OF ok(1,2)])
  qed
qed

text \<open>An episode with one more step, its reference added, and its lag if it was a movement.\<close>

lemma add_step_ok:
  assumes "episode_ok K e" "step_ok s" "st_verified_outcome_ref s = set_ref ref"
    and "lags = re_movement_lags e @ (if st_capability s = ROUTE_CAPABILITY \<and> st_success s then [st_completion_lag s] else [])"
  shows "episode_ok K (add_ref ref (e\<lparr>re_steps := re_steps e @ [s], re_movement_lags := lags, re_failure_code := code,
      re_terminal_lag := terminal_lag\<rparr>))"
  using assms by (simp add: episode_ok_def summary_ok_def add_ref_def ref_list_step ref_list_def movement_lags_def)

lemma terminals_of_TERMINAL: "c \<in> terminals_of K i \<Longrightarrow> c \<in> TERMINAL_CAPABILITIES \<and> c \<noteq> ROUTE_CAPABILITY"
  by (auto simp: terminals_of_def TERMINAL_BY_KIND_def TERMINAL_CAPABILITIES_def ROUTE_CAPABILITY_def split: if_splits)

lemma approach_outcome_ok:
  assumes "fits K b terminal t"
  shows "store_ok K (snd (approach_outcome (VDict b) terminal success reason tick issue_tick ref t))"
proof -
  have t: "store_ok K t" using assms by (simp add: fits_def)
  show ?thesis
  proof (cases rule: started [OF assms, of tick, case_names err ok])
    case (err e)
    then show ?thesis using t by (simp add: approach_outcome_def then_do_def)
  next
    case (ok e)
    let ?u = "t\<lparr>rt_episode := Some e\<rparr>"
    have u: "rt_episode ?u = Some e" "ROUTE_CAPABILITY \<in> ROUTE_CONTROL_CAPABILITIES \<union> TERMINAL_CAPABILITIES"
      by (simp_all add: ROUTE_CAPABILITY_def ROUTE_CONTROL_CAPABILITIES_def)
    show ?thesis
    proof (cases rule: record_step_cases [OF u, of success tick issue_tick ref, case_names err ok])
      case (err x)
      then show ?thesis using ok t by (simp add: approach_outcome_def then_do_def store_episode)
    next
      case step: (ok s)
      note add = add_step_ok [OF ok(2) step(2,5)]
      show ?thesis
      proof (cases success)
        case True
        then show ?thesis
          using ok(1) step store_episode [OF t add [OF refl, where code = "re_failure_code e" and terminal_lag = "re_terminal_lag e"]]
          by (simp add: approach_outcome_def then_do_def on_episode_def)
      next
        case False
        let ?e = "e\<lparr>re_steps := re_steps e @ [s], re_failure_code := Some reason\<rparr>"
        have "store_ok K (snd (append_closed False tick ref (t\<lparr>rt_episode := Some ?e\<rparr>)))"
          using add [where lags = "re_movement_lags e" and code = "Some reason" and terminal_lag = "re_terminal_lag e"] step False
          by (intro append_closed_ok [OF t, of _ ?e]) (simp_all add: ends_well_def)
        then show ?thesis using ok(1) step False by (simp add: approach_outcome_def then_do_def on_episode_def)
      qed
    qed
  qed
qed

lemma orient_outcome_ok:
  assumes "fits K b terminal t"
  shows "store_ok K (snd (orient_outcome (VDict b) terminal success reason tick issue_tick ref t))"
proof -
  have t: "store_ok K t" using assms by (simp add: fits_def)
  show ?thesis
  proof (cases rule: started [OF assms, of tick, case_names err ok])
    case (err e)
    then show ?thesis using t by (simp add: orient_outcome_def then_do_def)
  next
    case (ok e)
    let ?u = "t\<lparr>rt_episode := Some e\<rparr>"
    have u: "rt_episode ?u = Some e" "''ORIENT'' \<in> ROUTE_CONTROL_CAPABILITIES \<union> TERMINAL_CAPABILITIES"
      by (simp_all add: ROUTE_CONTROL_CAPABILITIES_def)
    show ?thesis
    proof (cases rule: record_step_cases [OF u, of success tick issue_tick ref, case_names err ok])
      case (err x)
      then show ?thesis using ok t by (simp add: orient_outcome_def then_do_def store_episode)
    next
      case step: (ok s)
      have "st_capability s \<noteq> ROUTE_CAPABILITY" using step(3) by (simp add: ROUTE_CAPABILITY_def)
      then have add: "episode_ok K (add_ref ref (e\<lparr>re_steps := re_steps e @ [s], re_failure_code := code\<rparr>))" for code
        using add_step_ok [OF ok(2) step(2,5), where lags = "re_movement_lags e" and code = code and terminal_lag = "re_terminal_lag e"] by simp
      show ?thesis
      proof (cases success)
        case True
        then show ?thesis using ok(1) step store_episode [OF t add [of "re_failure_code e"]]
          by (simp add: orient_outcome_def then_do_def on_episode_def)
      next
        case False
        let ?e = "e\<lparr>re_steps := re_steps e @ [s], re_failure_code := Some reason\<rparr>"
        have "store_ok K (snd (append_closed False tick ref (t\<lparr>rt_episode := Some ?e\<rparr>)))"
          using add [of "Some reason"] step False
          by (intro append_closed_ok [OF t, of _ ?e]) (simp_all add: ends_well_def)
        then show ?thesis using ok(1) step False by (simp add: orient_outcome_def then_do_def on_episode_def)
      qed
    qed
  qed
qed

lemma terminal_outcome_ok:
  assumes "fits K b terminal t"
  shows "store_ok K (snd (terminal_outcome (VDict b) terminal success reason tick issue_tick ref t))"
proof (cases "rt_episode t = None \<and> \<not> success")
  case True
  then show ?thesis using assms by (simp add: terminal_outcome_def fits_def)
next
  case go: False
  have t: "store_ok K t" using assms by (simp add: fits_def)
  show ?thesis
  proof (cases rule: started [OF assms, of tick, case_names err ok])
    case (err e)
    then show ?thesis using t go by (auto simp: terminal_outcome_def then_do_def)
  next
    case (ok e)
    let ?u = "t\<lparr>rt_episode := Some e\<rparr>"
    note cap = terminals_of_TERMINAL [OF ok(3)]
    have u: "rt_episode ?u = Some e" "terminal \<in> ROUTE_CONTROL_CAPABILITIES \<union> TERMINAL_CAPABILITIES" using cap by simp_all
    show ?thesis
    proof (cases rule: record_step_cases [OF u, of success tick issue_tick ref, case_names err ok])
      case (err x)
      then show ?thesis using ok t go by (auto simp: terminal_outcome_def then_do_def store_episode)
    next
      case step: (ok s)
      have add: "episode_ok K (add_ref ref (e\<lparr>re_steps := re_steps e @ [s], re_failure_code := code, re_terminal_lag := l\<rparr>))"
        for code l
        using add_step_ok [OF ok(2) step(2,5), where lags = "re_movement_lags e" and code = code and terminal_lag = l] step(3) cap by simp
      consider (well) success | (early) "\<not> success" "reason \<in> {''not_at_rest'', ''not_at_resource'', ''not_at_inspect''}"
        | (failed) "\<not> success" "reason \<notin> {''not_at_rest'', ''not_at_resource'', ''not_at_inspect''}" by blast
      then show ?thesis
      proof cases
        case well
        let ?e = "e\<lparr>re_steps := re_steps e @ [s], re_terminal_lag := Some (st_completion_lag s)\<rparr>"
        have "store_ok K (snd (append_closed True tick ref (t\<lparr>rt_episode := Some ?e\<rparr>)))"
          using add [of "Some (st_completion_lag s)" "re_failure_code e"] step ok(3) well
          by (intro append_closed_ok [OF t, of _ ?e]) (simp_all add: ends_well_def)
        then show ?thesis using ok(1) step well by (simp add: terminal_outcome_def then_do_def on_episode_def)
      next
        case early
        then show ?thesis using ok(1) step go store_episode [OF t add [of "re_terminal_lag e" "re_failure_code e"]]
          by (auto simp: terminal_outcome_def then_do_def on_episode_def)
      next
        case failed
        let ?e = "e\<lparr>re_steps := re_steps e @ [s], re_failure_code := Some reason\<rparr>"
        have "store_ok K (snd (append_closed False tick ref (t\<lparr>rt_episode := Some ?e\<rparr>)))"
          using add [of "re_terminal_lag e" "Some reason"] step failed
          by (intro append_closed_ok [OF t, of _ ?e]) (simp_all add: ends_well_def)
        then show ?thesis using ok(1) step failed go by (auto simp: terminal_outcome_def then_do_def on_episode_def)
      qed
    qed
  qed
qed

lemma bound_outcome_ok:
  assumes "store_ok K t" "binding_kinds K (Some b)"
    and "as_str (case map_of b ''opportunity_entity_id'' of None \<Rightarrow> VNone | Some v \<Rightarrow> v) = Inr target_id"
    and "as_str (case map_of b ''opportunity_entity_kind'' of None \<Rightarrow> VNone | Some v \<Rightarrow> v) = Inr kind"
    and "map_of TERMINAL_BY_KIND kind = Some terminal"
  shows "store_ok K (snd (bound_outcome b target_id schema terminal capability success reason tick issue_tick ref t))"
proof -
  define u where "u = (if rt_episode t \<noteq> None \<and> \<not> (case rt_episode t of None \<Rightarrow> False
       | Some e \<Rightarrow> re_opportunity_entity_id e = target_id \<and> re_body_schema_id e = schema)
     then t\<lparr>rt_episode := None\<rparr> else t)"
  have u: "store_ok K u" using assms(1) by (simp add: u_def store_no_episode)
  have "rt_episode u = Some e \<Longrightarrow> re_opportunity_entity_id e = target_id" for e
    by (auto simp: u_def split: if_splits option.splits)
  then have fit: "fits K b terminal u" using u assms by (auto simp: fits_def)
  show ?thesis
    unfolding bound_outcome_def Let_def u_def [symmetric]
    using u approach_outcome_ok [OF fit] orient_outcome_ok [OF fit] terminal_outcome_ok [OF fit]
    by (simp add: route_discard_def store_no_episode)
qed

lemma record_verified_outcome_ok:
  assumes "store_ok K t" "binding_kinds K binding"
  shows "store_ok K (snd (record_verified_outcome binding capability success reason verified tick issue_tick schema ref t))"
proof (cases binding)
  case None
  then show ?thesis using assms(1)
    by (simp add: record_verified_outcome_def route_discard_def store_no_episode)
next
  case (Some b)
  note bound = bound_outcome_ok [OF assms(1) assms(2) [unfolded Some]]
  show ?thesis
    unfolding record_verified_outcome_def Let_def Some
    using assms(1)
    by (auto simp: route_discard_def store_no_episode andThen_eq_Inr intro: bound split: sum.splits option.splits)
qed

section \<open>Restart\<close>

definition normal_code :: "route_experience \<Rightarrow> route_experience" where
  "normal_code x = x\<lparr>rx_failure_code := set_ref (rx_failure_code x)\<rparr>"

lemma experience_normal_ok: "experience_ok K x \<Longrightarrow> experience_ok K (normal_code x)"
  by (simp add: experience_ok_def normal_code_def make_experience_def split: if_splits)

lemma str_if_set_canonical:
  "dwf d \<Longrightarrow> str_if_set (canonical (VDict d)) k =
     (case map_of d k of None \<Rightarrow> Inr None | Some v \<Rightarrow> str_if_truthy (canonical v))"
  by (simp add: str_if_set_def get_or_canonical str_if_truthy_def del: canonical.simps split: option.splits)

lemma str_if_truthy_v_opt: "str_if_truthy (v_opt VStr s) = Inr (set_ref s)"
  by (simp add: set_ref_def str_if_truthy_def split: option.splits)

lemma schemas_differ [simp]: "ROUTE_EVIDENCE_SCHEMA \<noteq> ROUTE_EVIDENCE_SCHEMA_V1"
  by (simp add: ROUTE_EVIDENCE_SCHEMA_def ROUTE_EVIDENCE_SCHEMA_V1_def)

lemma set_ref_id: "s \<noteq> Some [] \<Longrightarrow> set_ref s = s"
  by (cases s) (auto simp: set_ref_def)

lemma canonical_opts: "canonical (v_opt VStr s) = v_opt VStr s" "canonical (v_opt VInt i) = v_opt VInt i"
  "canonical (v_opt VFlt x) = v_opt VFlt x"
  by (simp_all split: option.splits)

lemma step_round_trip: "step_ok s \<Longrightarrow> step_from_dict (canonical (step_to_dict s)) = Inr s"
  by (cases s) (simp add: step_from_dict_def step_to_dict_def fld_canonical fld_or_canonical str_if_set_canonical str_if_truthy_v_opt
      set_ref_id step_ok_def canonical_opts
      del: canonical.simps(7) canonical_v_opt fld_VDict fld_or_VDict)

lemma experience_round_trip:
  assumes "make_experience x = Inr x" "rx_schema x = ROUTE_EVIDENCE_SCHEMA" "list_all step_ok (rx_steps x)"
    and "rx_start_provenance x \<noteq> Some []"
  shows "experience_from_dict (canonical (experience_to_dict x)) = Inr (normal_code x)"
proof -
  have steps: "tuple_of step_from_dict (or_else (VList (map (canonical \<circ> step_to_dict) (rx_steps x))) (VList [])) = Inr (rx_steps x)"
    using assms(3) by (simp add: or_else_list tuple_of_def mapE_map comp_def)
       (induction "rx_steps x"; simp add: step_round_trip list_all_iff mapE_Inr)
  have norm: "rx_schema x = ROUTE_EVIDENCE_SCHEMA \<Longrightarrow> make_experience (normal_code x) = Inr (normal_code x)"
    using assms(1) by (simp add: normal_code_def make_experience_def split: if_splits)
  show ?thesis
    by (insert assms norm steps, cases x) (simp add: experience_from_dict_def experience_to_dict_def fld_canonical fld_or_canonical get_or_canonical
        str_if_set_canonical str_if_truthy_v_opt set_ref_id normal_code_def comp_def
        canonical_opts
      del: canonical.simps(7) canonical_v_opt fld_VDict fld_or_VDict)
qed

lemma restore_items:
  assumes "list_all (experience_ok K) xs"
  shows "foldE (\<lambda>t item. andThen (experience_from_dict item) (\<lambda>x.
      Inr (t\<lparr>rt_experiences := ring_append x (rt_experiences t)\<rparr>))) t (map (\<lambda>x. canonical (experience_to_dict x)) xs) =
    Inr (t\<lparr>rt_experiences := fold ring_append (map normal_code xs) (rt_experiences t)\<rparr>)"
  using assms
proof (induction xs arbitrary: t)
  case Nil
  then show ?case by simp
next
  case (Cons x xs)
  then have "experience_from_dict (canonical (experience_to_dict x)) = Inr (normal_code x)"
    by (intro experience_round_trip) (simp_all add: experience_ok_def summary_ok_def)
  then show ?case using Cons by simp
qed

lemma from_state_canonical:
  assumes "dwf d" "d \<noteq> []"
  shows "route_from_state (canonical (VDict d)) n =
    andThen (case map_of d ''capacity'' of None \<Rightarrow> Inr n | Some v \<Rightarrow> as_int (canonical v)) (\<lambda>capacity.
    andThen (new_route_store capacity) (\<lambda>store.
    andThen (case map_of d ''experiences'' of None \<Rightarrow> Inr [] | Some v \<Rightarrow> as_list (canonical v)) (\<lambda>items.
    foldE (\<lambda>t item. andThen (experience_from_dict item) (\<lambda>x.
      Inr (t\<lparr>rt_experiences := ring_append x (rt_experiences t)\<rparr>))) store items)))"
proof -
  have "sorted_items (map (map_prod id canonical) d) \<noteq> []"
    using assms(2) length_sorted_items [of "map (map_prod id canonical) d"] by (metis length_0_conv map_is_Nil_conv)
  then show ?thesis
    using fld_or_canonical [OF assms(1), of "''capacity''" "VInt n" as_int]
      fld_or_canonical [OF assms(1), of "''experiences''" "VList []" as_list]
    by (simp add: route_from_state_def split: option.splits)
qed

lemma restarted_store:
  assumes "store_ok K t"
  obtains u where "route_from_state (canonical (route_to_state t)) n = Inr u" "store_ok K u" "rt_capacity u = rt_capacity t"
    "rt_episode u = None" "ring_list (rt_experiences u) = map normal_code (ring_list (rt_experiences t))"
proof -
  let ?xs = "ring_list (rt_experiences t)"
  have t: "1 \<le> rt_capacity t" "ring_ok (rt_experiences t)" "rg_maxlen (rt_experiences t) = nat (rt_capacity t)"
    "list_all (experience_ok K) ?xs" using assms by (simp_all add: store_ok_def)
  then obtain r :: "route_experience ring" where r: "new_ring (rt_capacity t) [] = Inr r" by (simp add: new_ring_def)
  let ?r = "fold ring_append (map normal_code ?xs) r"
  let ?u = "\<lparr>rt_capacity = rt_capacity t, rt_experiences = ?r, rt_episode = None\<rparr>"
  have "route_from_state (canonical (route_to_state t)) n = Inr ?u"
    using r t(1) restore_items [OF t(4), of "\<lparr>rt_capacity = rt_capacity t, rt_experiences = r, rt_episode = None\<rparr>"]
    by (simp add: route_to_state_def from_state_canonical new_route_store_def comp_def del: canonical.simps(7))
  moreover have ring: "ring_ok ?r" "rg_maxlen ?r = nat (rt_capacity t)" "ring_list ?r = map normal_code ?xs"
    using new_ring_Inr [OF r] ring_appends [of r "map normal_code ?xs"] t(2,3)
    by (simp_all add: last_n_id last_n_def ring_ok_def)
  moreover have "store_ok K ?u"
    using t(1) ring t(4) by (auto simp: store_ok_def list_all_iff intro: experience_normal_ok)
  ultimately show thesis by (intro that [of ?u]) simp_all
qed

section \<open>Reachable stores\<close>

inductive route_reachable :: "(string \<Rightarrow> string set) \<Rightarrow> route_store \<Rightarrow> bool" for K where
  created: "new_route_store n = Inr t \<Longrightarrow> route_reachable K t"
| recorded: "route_reachable K t \<Longrightarrow> binding_kinds K binding \<Longrightarrow>
    route_reachable K (snd (record_verified_outcome binding capability success reason verified tick issue_tick schema ref t))"
| restarted: "route_reachable K t \<Longrightarrow> route_from_state (canonical (route_to_state t)) n = Inr u \<Longrightarrow> route_reachable K u"

lemma new_store_ok: "new_route_store n = Inr t \<Longrightarrow> store_ok K t"
  by (auto simp: new_route_store_def store_ok_def andThen_eq_Inr last_n_def dest!: new_ring_Inr split: if_splits)

lemma reachable_store_ok: "route_reachable K t \<Longrightarrow> store_ok K t"
proof (induction rule: route_reachable.induct)
  case (restarted t n u)
  show ?case by (rule restarted_store [OF restarted(3), of n]) (use restarted(2) in simp)
qed (auto intro: new_store_ok record_verified_outcome_ok)

text \<open>C34: every experience of a reachable store summarises its own verified control steps: its movement lags are those of the
  successful \<open>APPROACH\<close> steps in order and its movement count their number, its references are those of the steps; its
  result is the success of the last step, and a success is one of a terminal capability under which the entity was bound, with
  the lag of that step; the terminal capability it names is the one of its kind when the entity keeps one kind. The store never
  holds more experiences than its capacity.\<close>

theorem experience_summarises_its_steps:
  assumes "route_reachable K t" and "x \<in> set (ring_list (rt_experiences t))"
  shows "rx_movement_lags x =
      map st_completion_lag (filter (\<lambda>s. st_capability s = ''APPROACH'' \<and> st_success s) (rx_steps x)) \<and>
    rx_movement_count x = int (length (rx_movement_lags x)) \<and>
    rx_outcome_refs x = List.map_filter st_verified_outcome_ref (rx_steps x) \<and>
    rx_steps x \<noteq> [] \<and> rx_terminal_result x = st_success (last (rx_steps x)) \<and>
    (rx_terminal_result x \<longrightarrow> rx_terminal_lag x = Some (st_completion_lag (last (rx_steps x)))) \<and>
    (rx_terminal_result x \<longrightarrow> K (rx_opportunity_entity_id x) = {k} \<longrightarrow>
      map_of TERMINAL_BY_KIND k = Some (rx_terminal_capability x) \<and> st_capability (last (rx_steps x)) = rx_terminal_capability x) \<and>
    int (length (ring_list (rt_experiences t))) \<le> rt_capacity t"
proof -
  have t: "store_ok K t" using assms(1) by (rule reachable_store_ok)
  then have x: "experience_ok K x" using assms(2) by (simp add: store_ok_def list_all_iff)
  then have ends: "ends_well K (rx_opportunity_entity_id x) (rx_terminal_result x) (rx_terminal_lag x) (rx_steps x)"
    and terminal: "rx_terminal_capability x \<in> terminals_of K (rx_opportunity_entity_id x)"
    unfolding experience_ok_def summary_ok_def by blast+
  have "rx_movement_lags x = map st_completion_lag (filter (\<lambda>s. st_capability s = ''APPROACH'' \<and> st_success s) (rx_steps x))"
    using x by (simp add: experience_ok_def summary_ok_def movement_lags_def ROUTE_CAPABILITY_def)
  moreover have "rx_movement_count x = int (length (rx_movement_lags x))"
    using x make_experience_count [of x x] by (simp add: experience_ok_def)
  moreover have "rx_outcome_refs x = List.map_filter st_verified_outcome_ref (rx_steps x)"
    using x by (simp add: experience_ok_def summary_ok_def)
  moreover have "rx_steps x \<noteq> []" "rx_terminal_result x = st_success (last (rx_steps x))"
    "rx_terminal_result x \<longrightarrow> rx_terminal_lag x = Some (st_completion_lag (last (rx_steps x)))"
    using ends unfolding ends_well_def by blast+
  moreover have "map_of TERMINAL_BY_KIND k = Some (rx_terminal_capability x) \<and> st_capability (last (rx_steps x)) = rx_terminal_capability x"
    if "rx_terminal_result x" "K (rx_opportunity_entity_id x) = {k}"
    using ends terminal that unfolding ends_well_def terminals_of_def by auto
  moreover have "int (length (ring_list (rt_experiences t))) \<le> rt_capacity t"
    using t by (auto simp: store_ok_def ring_ok_def)
  ultimately show ?thesis by blast
qed

text \<open>C35: a reachable store written to its canonical state and read back holds the same experiences in the same order and the same
  capacity, with no episode in progress; only an empty failure code comes back as none, and reading back a second time
  changes nothing.\<close>

theorem route_store_round_trip:
  assumes "route_reachable K t"
  shows "\<exists>u. route_from_state (canonical (route_to_state t)) n = Inr u \<and> rt_capacity u = rt_capacity t \<and> rt_episode u = None \<and>
    ring_list (rt_experiences u) = map normal_code (ring_list (rt_experiences t)) \<and>
    (\<exists>v. route_from_state (canonical (route_to_state u)) n = Inr v \<and> route_to_state v = route_to_state u)"
proof -
  obtain u where u: "route_from_state (canonical (route_to_state t)) n = Inr u" "store_ok K u" "rt_capacity u = rt_capacity t"
      "rt_episode u = None" "ring_list (rt_experiences u) = map normal_code (ring_list (rt_experiences t))"
    by (rule restarted_store [OF reachable_store_ok [OF assms]])
  obtain v where v: "route_from_state (canonical (route_to_state u)) n = Inr v" "rt_capacity v = rt_capacity u"
      "ring_list (rt_experiences v) = map normal_code (ring_list (rt_experiences u))"
    by (rule restarted_store [OF u(2)])
  have "set_ref (set_ref c) = set_ref c" for c by (rule set_ref_id) simp
  then have "normal_code (normal_code x) = normal_code x" for x by (simp add: normal_code_def)
  then have "ring_list (rt_experiences v) = ring_list (rt_experiences u)" by (simp add: v(3) u(5) comp_def)
  then have "route_to_state v = route_to_state u" by (simp add: route_to_state_def v(2))
  then show ?thesis using u v by blast
qed

section \<open>A route and its record\<close>

definition sample_binding :: "string \<Rightarrow> pyv dict" where
  "sample_binding kind =
     [(''status'', VStr ''EXACT''), (''opportunity_entity_id'', VStr ''e1''), (''opportunity_entity_kind'', VStr kind),
      (''body_schema_id'', VStr ''b1''), (''start_distance_support_upper_bound'', VFlt (Fin 3))]"

definition empty_routes :: route_store where
  "empty_routes = \<lparr>rt_capacity = 2,
     rt_experiences = \<lparr>rg_buf = [None, None], rg_maxlen = 2, rg_start = 0, rg_len = 0\<rparr>, rt_episode = None\<rparr>"

definition approached :: route_store where
  "approached = snd (record_verified_outcome (Some (sample_binding ''resource'')) ''APPROACH'' True ''ok'' True 5 (Some 3)
     (Some ''b1'') (Some ''r1'') empty_routes)"

definition arrived :: "string \<Rightarrow> string \<Rightarrow> route_store" where
  "arrived kind capability = snd (record_verified_outcome (Some (sample_binding kind)) capability True ''ok'' True 9 (Some 8)
     (Some ''b1'') (Some ''r2'') approached)"

lemma empty_routes_reachable: "route_reachable K empty_routes"
  by (rule created [of 2]) (simp add: new_route_store_def new_ring_def empty_routes_def numeral_2_eq_2)

lemma arrived_reachable:
  assumes "\<And>k. k \<in> {''resource'', kind} \<Longrightarrow> k \<in> K ''e1''"
  shows "route_reachable K (arrived kind capability)"
proof -
  have "binding_kinds K (Some (sample_binding k))" if "k \<in> {''resource'', kind}" for k
    using assms [OF that] by (simp add: binding_kinds_def sample_binding_def)
  then show ?thesis
    unfolding arrived_def approached_def using empty_routes_reachable by (intro recorded) simp_all
qed

text \<open>The record of the two verified steps; and what is recorded when the same entity is bound under another kind in between.\<close>

lemma arrived_charge:
  "map (\<lambda>x. (rx_terminal_capability x, rx_movement_lags x, rx_terminal_lag x, rx_terminal_result x,
       map st_capability (rx_steps x), rx_outcome_refs x)) (ring_list (rt_experiences (arrived ''resource'' ''CHARGE''))) =
    [(''CHARGE'', [2], Some 1, True, [''APPROACH'', ''CHARGE''], [''r1'', ''r2''])]"
  by code_simp

lemma kind_change_records_other_terminal:
  "map (\<lambda>x. (rx_terminal_capability x, rx_terminal_result x, map st_capability (rx_steps x)))
      (ring_list (rt_experiences (arrived ''rest'' ''REST''))) =
    [(''CHARGE'', True, [''APPROACH'', ''REST''])]"
  by code_simp

theorem experience_summarises_its_steps_witness:
  "\<exists>t x. route_reachable (\<lambda>_. {''resource''}) t \<and> x \<in> set (ring_list (rt_experiences t)) \<and> rx_terminal_result x \<and>
     rx_movement_count x = 1 \<and> st_capability (last (rx_steps x)) = ''CHARGE''"
proof -
  let ?t = "arrived ''resource'' ''CHARGE''"
  have r: "route_reachable (\<lambda>_. {''resource''}) ?t" by (rule arrived_reachable) simp
  obtain x where x: "ring_list (rt_experiences ?t) = [x]" "rx_terminal_capability x = ''CHARGE''" "rx_movement_lags x = [2]"
      "rx_terminal_result x"
    using arrived_charge by (auto simp: map_eq_Cons_conv)
  then have m: "x \<in> set (ring_list (rt_experiences ?t))" by simp
  have "rx_movement_count x = int (length (rx_movement_lags x))"
      "st_capability (last (rx_steps x)) = rx_terminal_capability x"
    using experience_summarises_its_steps [OF r m, of "''resource''"] x(4) by blast+
  then have "rx_movement_count x = 1" "st_capability (last (rx_steps x)) = ''CHARGE''" using x(2,3) by simp_all
  then show ?thesis using r m x(4) by blast
qed

theorem route_store_round_trip_witness:
  "\<exists>u. route_from_state (canonical (route_to_state (arrived ''resource'' ''CHARGE''))) 128 = Inr u \<and> rt_capacity u = 2 \<and>
     length (ring_list (rt_experiences u)) = 1"
proof -
  let ?t = "arrived ''resource'' ''CHARGE''"
  have r: "route_reachable (\<lambda>_. {''resource''}) ?t" by (rule arrived_reachable) simp
  have "length (ring_list (rt_experiences ?t)) = 1" using arg_cong [OF arrived_charge, of length] by (simp del: length_ring_list)
  moreover have "rt_capacity ?t = 2" by code_simp
  ultimately show ?thesis using route_store_round_trip [OF r, of 128] by fastforce
qed

end
