(* ===== verification/Viability.thy ===== *)
theory Viability
  imports Competition
begin

text \<open>
  \<open>recoverability/viability.py\<close>: which of the candidates of a tick provably bring the physiology back into its bands. The two
  callables of the caller are the fields \<open>rc_branches_for\<close> and \<open>rc_executability_for\<close> of a \<open>recovery_context\<close>, which also holds
  the arguments every function passes on. A physiology is a dictionary by variable name.
\<close>

section \<open>Routes\<close>

definition EXECUTABLE :: string where
  "EXECUTABLE = ''EXECUTABLE''"

definition RECOVERY_TERMINAL_CAPABILITIES :: "string set" where
  "RECOVERY_TERMINAL_CAPABILITIES = {''REST'', ''CHARGE'', ''INSPECT''}"

definition ROBUST_NOW :: string where
  "ROBUST_NOW = ''ROBUST_NOW''"

definition MAY_ROUTE :: string where
  "MAY_ROUTE = ''MAY_ROUTE''"

definition PROVEN_DIRECT_RECOVERY_PATH :: string where
  "PROVEN_DIRECT_RECOVERY_PATH = ''PROVEN_DIRECT_RECOVERY_PATH''"

definition DIRECT_RECOVERY_PATH_NOT_PROVEN :: string where
  "DIRECT_RECOVERY_PATH_NOT_PROVEN = ''DIRECT_RECOVERY_PATH_NOT_PROVEN''"

record recovery_route =
  rr_need :: string
  rr_status :: string
  rr_candidate :: candidate
  rr_endpoint_capability :: string
  rr_target_kind :: "string option"
  rr_source :: string
  rr_projected :: "flt dict option"
  rr_blocked_by :: "string option"

record recovery_context =
  rc_candidates :: "candidate list"
  rc_observations :: "pyv dict list"
  rc_branches_for :: "candidate \<Rightarrow> flt dict list"
  rc_executability_for :: "candidate \<Rightarrow> string"
  rc_drift_enabled :: bool

definition recovery_target :: "candidate \<Rightarrow> string option res" where
  "recovery_target c =
     (let params = cd_params c; value = or_else (dget VNone ''toward'' params) (dget VNone ''from'' params)
      in opt_conv as_str value)"

definition direction_of :: "string \<Rightarrow> flt \<Rightarrow> flt res" where
  "direction_of name value =
     andThen (ditem name BOUNDS) (\<lambda>b. Inr
       (if flt_lt value (bd_ideal b) then Fin 1 else if flt_lt (bd_ideal b) value then Fin (- 1) else Fin 0))"

definition project_step :: "bool \<Rightarrow> flt dict \<Rightarrow> flt dict \<Rightarrow> flt dict res" where
  "project_step drift_enabled physiology branch = project_verified_transition physiology branch drift_enabled (Fin 1)"

text \<open>\<open>min(values, key=...)\<close>: the first value with a least key.\<close>

definition min_by :: "('a \<Rightarrow> flt) \<Rightarrow> 'a list \<Rightarrow> 'a" where
  "min_by key xs = foldl (\<lambda>best x. if flt_lt (key x) (key best) then x else best) (hd xs) (tl xs)"

definition margin_of :: "bounds \<Rightarrow> flt \<Rightarrow> flt" where
  "margin_of b x = py_min (flt_sub x (bd_critical_low b)) (flt_sub (bd_critical_high b) x)"

definition project_branches :: "bool \<Rightarrow> flt dict \<Rightarrow> flt dict list \<Rightarrow> (bool \<times> flt dict) res" where
  "project_branches drift_enabled physiology branches =
     andThen (mapE (project_step drift_enabled physiology) (if branches = [] then [[]] else branches)) (\<lambda>states.
     andThen (mapE (\<lambda>(name, b). andThen (mapE (ditem name) states) (\<lambda>xs. Inr (name, b, xs))) BOUNDS) (\<lambda>rows.
     Inr (list_all (\<lambda>(name, b, xs). \<not> list_ex (critical_violation b) xs) rows,
          map (\<lambda>(name, b, xs). (name, min_by (margin_of b) xs)) rows)))"

text \<open>\<open>all\<close> and \<open>any\<close> over a generator that may raise.\<close>

fun allE :: "('a \<Rightarrow> bool res) \<Rightarrow> 'a list \<Rightarrow> bool res" where
  "allE f [] = Inr True"
| "allE f (x # xs) = andThen (f x) (\<lambda>b. if b then allE f xs else Inr False)"

fun anyE :: "('a \<Rightarrow> bool res) \<Rightarrow> 'a list \<Rightarrow> bool res" where
  "anyE f [] = Inr False"
| "anyE f (x # xs) = andThen (f x) (\<lambda>b. if b then Inr True else anyE f xs)"

definition corrects_need :: "bool \<Rightarrow> string \<Rightarrow> flt dict \<Rightarrow> flt dict list \<Rightarrow> bool res" where
  "corrects_need drift_enabled need physiology branches =
     andThen (ditem need physiology) (\<lambda>value.
     andThen (direction_of need value) (\<lambda>direction.
     if direction = Fin 0 then Inr False
     else if branches = [] then Inr False
     else allE (\<lambda>branch.
       andThen (project_step drift_enabled physiology branch) (\<lambda>state.
       andThen (ditem need state) (\<lambda>x.
       Inr (flt_lt (Fin 0) (flt_mult direction (flt_sub x value)))))) branches))"

definition success_branch_corrects_need :: "bool \<Rightarrow> string \<Rightarrow> flt dict \<Rightarrow> flt dict list \<Rightarrow> bool res" where
  "success_branch_corrects_need drift_enabled need physiology branches =
     corrects_need drift_enabled need physiology (take 1 branches)"

definition needs_action :: "string \<Rightarrow> bounds \<Rightarrow> flt \<Rightarrow> bool" where
  "needs_action name b x \<longleftrightarrow>
     (if name = ''fatigue'' then flt_lt (bd_viable_high b) x
      else if name \<in> {''energy'', ''integrity''} then flt_lt x (bd_viable_low b)
      else \<not> in_viable_band b x)"

definition active_recovery_needs_for :: "flt dict \<Rightarrow> string list res" where
  "active_recovery_needs_for physiology =
     andThen (mapE (\<lambda>(name, b). andThen (ditem name physiology) (\<lambda>x.
        Inr (if needs_action name b x then [name] else []))) BOUNDS) (\<lambda>xs. Inr (concat xs))"

text \<open>\<open>float(v)\<close> with \<open>TypeError\<close> and \<open>ValueError\<close> caught.\<close>

definition float_or_none :: "pyv \<Rightarrow> flt option res" where
  "float_or_none v =
     (case as_float v of Inr x \<Rightarrow> Inr (Some x)
      | Inl (TypeError m) \<Rightarrow> Inr None | Inl (ValueError m) \<Rightarrow> Inr None | Inl e \<Rightarrow> Inl e)"

definition policy_bounded_approach :: "candidate \<Rightarrow> pyv dict \<Rightarrow> candidate option res" where
  "policy_bounded_approach c observation =
     andThen (float_or_none (dget VNone ''estimated_distance'' observation)) (\<lambda>d.
     case d of None \<Rightarrow> Inr None
     | Some distance \<Rightarrow>
       if \<not> is_finite distance \<or> flt_le distance (Fin 0) then Inr None
       else andThen (float_or_none (dget (VFlt (Fin 1)) ''step'' (cd_params c))) (\<lambda>s.
         case s of None \<Rightarrow> Inr None
         | Some nominal_step \<Rightarrow>
           if \<not> is_finite nominal_step \<or> flt_le nominal_step (Fin 0) then Inr None
           else Inr (Some \<lparr>cd_capability = cd_capability c,
             cd_params = dput ''source'' (VStr ''policy_visible_recovery_approach'')
               (dput ''step'' (VFlt (py_min nominal_step distance)) (cd_params c)),
             cd_scores = [], cd_total = Fin 0\<rparr>)))"

section \<open>Enumeration\<close>

text \<open>The observation kept for each kind: the last one.\<close>

definition observation_by_kind :: "pyv dict list \<Rightarrow> pyv dict dict res" where
  "observation_by_kind observations =
     foldE (\<lambda>d ob.
       if \<not> truthy (dget VNone ''kind'' ob) then Inr d
       else andThen (as_str (dget (VStr []) ''kind'' ob)) (\<lambda>k. Inr (dput k ob d))) [] observations"

definition filterE :: "('a \<Rightarrow> bool res) \<Rightarrow> 'a list \<Rightarrow> 'a list res" where
  "filterE f xs = andThen (mapE (\<lambda>x. andThen (f x) (\<lambda>b. Inr (if b then [x] else []))) xs) (\<lambda>ys. Inr (concat ys))"

definition direct_routes :: "recovery_context \<Rightarrow> flt dict \<Rightarrow> string list \<Rightarrow> candidate \<Rightarrow> recovery_route list res" where
  "direct_routes C physiology needs endpoint =
     andThen (recovery_target endpoint) (\<lambda>target.
     let branches = rc_branches_for C endpoint; executable = (rc_executability_for C endpoint = EXECUTABLE) in
     andThen (project_branches (rc_drift_enabled C) physiology branches) (\<lambda>(safe, projected).
     andThen (filterE (\<lambda>need. if executable \<and> safe then corrects_need (rc_drift_enabled C) need physiology branches
       else Inr False) needs) (\<lambda>corrected.
     Inr (map (\<lambda>need. \<lparr>rr_need = need, rr_status = ROBUST_NOW, rr_candidate = endpoint,
       rr_endpoint_capability = cd_capability endpoint, rr_target_kind = target,
       rr_source = ''current_authority_preflight'', rr_projected = Some projected, rr_blocked_by = None\<rparr>) corrected))))"

definition approach_routes ::
  "recovery_context \<Rightarrow> flt dict \<Rightarrow> string list \<Rightarrow> pyv dict \<Rightarrow> candidate \<Rightarrow> string \<Rightarrow> flt dict list \<Rightarrow> candidate
     \<Rightarrow> recovery_route list res" where
  "approach_routes C physiology needs observation endpoint target branches approach =
     (if cd_capability approach \<noteq> ''APPROACH'' then Inr []
      else andThen (recovery_target approach) (\<lambda>toward.
      if toward \<noteq> Some target then Inr []
      else andThen (policy_bounded_approach approach observation) (\<lambda>b.
      case b of None \<Rightarrow> Inr []
      | Some bounded_approach \<Rightarrow>
        andThen (filterE (\<lambda>need. success_branch_corrects_need (rc_drift_enabled C) need physiology branches) needs)
        (\<lambda>corrected.
        Inr (map (\<lambda>need. \<lparr>rr_need = need, rr_status = MAY_ROUTE, rr_candidate = bounded_approach,
          rr_endpoint_capability = cd_capability endpoint, rr_target_kind = Some target,
          rr_source = ''policy_visible_target_bound_candidate_pair'', rr_projected = None,
          rr_blocked_by = Some ''future_arrival_not_hard_proven''\<rparr>) corrected)))))"

definition may_routes ::
  "recovery_context \<Rightarrow> flt dict \<Rightarrow> string list \<Rightarrow> pyv dict dict \<Rightarrow> candidate \<Rightarrow> recovery_route list res" where
  "may_routes C physiology needs by_kind endpoint =
     (if rc_executability_for C endpoint = EXECUTABLE then Inr []
      else andThen (recovery_target endpoint) (\<lambda>t.
      case t of None \<Rightarrow> Inr []
      | Some target \<Rightarrow>
        (case map_of by_kind target of None \<Rightarrow> Inr []
         | Some observation \<Rightarrow>
           andThen (mapE (approach_routes C physiology needs observation endpoint target
             (verified_outcome_effect_branches (cd_capability endpoint))) (rc_candidates C)) (\<lambda>rows. Inr (concat rows)))))"

text \<open>The first route of every key, in the order of the keys.\<close>

definition route_key :: "recovery_route \<Rightarrow> string \<times> string \<times> string option \<times> string" where
  "route_key r = (rr_need r, rr_endpoint_capability r, rr_target_kind r, rr_status r)"

definition route_order :: "recovery_route \<Rightarrow> string list" where
  "route_order r = [rr_need r, rr_endpoint_capability r, (case rr_target_kind r of None \<Rightarrow> [] | Some t \<Rightarrow> t), rr_status r]"

definition first_by :: "('a \<Rightarrow> 'k) \<Rightarrow> 'a list \<Rightarrow> 'a list" where
  "first_by key xs = foldl (\<lambda>kept x. if key x \<in> set (map key kept) then kept else kept @ [x]) [] xs"

definition enumerate_regulatory_recovery_routes ::
  "recovery_context \<Rightarrow> flt dict \<Rightarrow> string list \<Rightarrow> recovery_route list res" where
  "enumerate_regulatory_recovery_routes C physiology active_needs =
     (let needs = filter (\<lambda>n. n \<in> set active_needs) (map fst BOUNDS);
          terminal = filter (\<lambda>c. cd_capability c \<in> RECOVERY_TERMINAL_CAPABILITIES) (rc_candidates C) in
      andThen (observation_by_kind (rc_observations C)) (\<lambda>by_kind.
      andThen (mapE (direct_routes C physiology needs) (rc_candidates C)) (\<lambda>direct.
      andThen (mapE (may_routes C physiology needs by_kind) terminal) (\<lambda>may.
      Inr (sort_key route_order (first_by route_key (concat direct @ concat may)))))))"

definition candidates_of :: "string \<Rightarrow> recovery_route list \<Rightarrow> candidate list" where
  "candidates_of status routes =
     map rr_candidate (first_by (\<lambda>r. (cd_capability (rr_candidate r), rr_target_kind r))
       (filter (\<lambda>r. rr_status r = status) routes))"

definition robust_candidates :: "recovery_route list \<Rightarrow> candidate list" where
  "robust_candidates routes = candidates_of ROBUST_NOW routes"

definition may_route_candidates :: "recovery_route list \<Rightarrow> candidate list" where
  "may_route_candidates routes = candidates_of MAY_ROUTE routes"

section \<open>The reserve\<close>

definition state_has_continuation ::
  "(candidate \<Rightarrow> flt dict \<Rightarrow> bool res) \<Rightarrow> recovery_context \<Rightarrow> bool \<Rightarrow> flt dict \<Rightarrow> bool res" where
  "state_has_continuation next_reserve C last_step state =
     andThen (active_recovery_needs_for state) (\<lambda>needs.
     if needs = [] then Inr True
     else andThen (enumerate_regulatory_recovery_routes C state needs) (\<lambda>routes.
     let covered = map rr_need (filter (\<lambda>r. rr_status r = ROBUST_NOW) routes) in
     if \<not> set needs \<subseteq> set covered then Inr False
     else if last_step then Inr True
     else anyE (\<lambda>c. next_reserve c state) (robust_candidates routes)))"

fun reserve_at :: "recovery_context \<Rightarrow> nat \<Rightarrow> candidate \<Rightarrow> flt dict \<Rightarrow> bool res" where
  "reserve_at C 0 candidate physiology = Inl (ValueError ''continuation_depth_must_be_positive'')"
| "reserve_at C (Suc depth) candidate physiology =
     (if rc_branches_for C candidate = [] then Inr False
      else allE (\<lambda>branch. andThen (project_step (rc_drift_enabled C) physiology branch)
        (state_has_continuation (reserve_at C depth) C (depth = 0))) (rc_branches_for C candidate))"

definition preserves_robust_recovery_reserve :: "recovery_context \<Rightarrow> candidate \<Rightarrow> flt dict \<Rightarrow> int \<Rightarrow> bool res" where
  "preserves_robust_recovery_reserve C candidate physiology continuation_depth =
     (if continuation_depth < 1 then Inl (ValueError ''continuation_depth_must_be_positive'')
      else reserve_at C (nat continuation_depth) candidate physiology)"

section \<open>The bounded search\<close>

text \<open>\<open>round(x, 12)\<close>, and the key of a state.\<close>

fun round12 :: "flt \<Rightarrow> flt" where
  "round12 (Fin q) = flt_of (of_int (half_even (q * 1000000000000)) / 1000000000000)"
| "round12 x = x"

definition state_key :: "flt dict \<Rightarrow> flt list res" where
  "state_key state = mapE (\<lambda>(name, b). andThen (ditem name state) (\<lambda>x. Inr (round12 x))) BOUNDS"

text \<open>The variables the nested function shares.\<close>

record search =
  sr_explored :: "flt list list"
  sr_visiting :: "flt list list"
  sr_memo :: "(flt list \<times> bool) list"
  sr_exhausted :: bool

fun all_reach ::
  "(flt dict \<Rightarrow> search \<Rightarrow> (bool \<times> search) res) \<Rightarrow> flt dict list \<Rightarrow> search \<Rightarrow> (bool \<times> search) res" where
  "all_reach f [] st = Inr (True, st)"
| "all_reach f (s # ss) st = andThen (f s st) (\<lambda>(b, st'). if b then all_reach f ss st' else Inr (False, st'))"

fun some_candidate ::
  "(flt dict \<Rightarrow> search \<Rightarrow> (bool \<times> search) res) \<Rightarrow> recovery_context \<Rightarrow> flt dict \<Rightarrow> candidate list \<Rightarrow> search
     \<Rightarrow> (bool \<times> search) res" where
  "some_candidate f C state [] st = Inr (False, st)"
| "some_candidate f C state (c # cs) st =
     (if rc_branches_for C c = [] then some_candidate f C state cs st
      else andThen (mapE (project_step (rc_drift_enabled C) state) (rc_branches_for C c)) (\<lambda>successors.
        andThen (all_reach f successors st) (\<lambda>(b, st'). if b then Inr (True, st') else some_candidate f C state cs st')))"

definition remember :: "flt list \<Rightarrow> bool \<Rightarrow> search \<Rightarrow> search" where
  "remember key b st = st\<lparr>sr_memo := AList.update key b (sr_memo st), sr_visiting := remove1 key (sr_visiting st)\<rparr>"

definition reach_step ::
  "(flt dict \<Rightarrow> search \<Rightarrow> (bool \<times> search) res) \<Rightarrow> recovery_context \<Rightarrow> int \<Rightarrow> flt dict \<Rightarrow> search \<Rightarrow> (bool \<times> search) res"
where
  "reach_step f C max_explored_states state st =
     andThen (active_recovery_needs_for state) (\<lambda>needs.
     if needs = [] then Inr (True, st)
     else andThen (state_key state) (\<lambda>key.
     case map_of (sr_memo st) key of Some b \<Rightarrow> Inr (b, st)
     | None \<Rightarrow>
       if key \<in> set (sr_visiting st) then Inr (False, st)
       else if key \<notin> set (sr_explored st) \<and> max_explored_states \<le> int (length (sr_explored st))
       then Inr (False, st\<lparr>sr_exhausted := True\<rparr>)
       else
         let explored = (if key \<in> set (sr_explored st) then sr_explored st else key # sr_explored st);
             st1 = st\<lparr>sr_explored := explored, sr_visiting := key # sr_visiting st\<rparr> in
         andThen (enumerate_regulatory_recovery_routes C state needs) (\<lambda>routes.
         andThen (some_candidate f C state (robust_candidates routes) st1) (\<lambda>(b, st2).
         Inr (b, remember key b st2)))))"

text \<open>The recursion of \<open>reaches_viability\<close> with fuel; the search below gives one more than the states it may explore.\<close>

fun reaches_viability :: "recovery_context \<Rightarrow> int \<Rightarrow> nat \<Rightarrow> flt dict \<Rightarrow> search \<Rightarrow> (bool \<times> search) res" where
  "reaches_viability C m 0 state st = Inl (OutOfModel ''recursion'')"
| "reaches_viability C m (Suc n) state st = reach_step (reaches_viability C m n) C m state st"

definition direct_regulatory_recovery_path_status :: "recovery_context \<Rightarrow> flt dict \<Rightarrow> int \<Rightarrow> string res" where
  "direct_regulatory_recovery_path_status C physiology max_explored_states =
     (if max_explored_states < 1 then Inl (ValueError ''max_explored_states_must_be_positive'')
      else andThen (reaches_viability C max_explored_states (nat max_explored_states + 1) physiology
          \<lparr>sr_explored = [], sr_visiting = [], sr_memo = [], sr_exhausted = False\<rparr>) (\<lambda>(b, st).
        Inr (if b then PROVEN_DIRECT_RECOVERY_PATH else DIRECT_RECOVERY_PATH_NOT_PROVEN)))"

section \<open>What a route stands for\<close>

definition viable :: "flt dict \<Rightarrow> bool" where
  "viable s \<longleftrightarrow> active_recovery_needs_for s = Inr []"

definition noncritical :: "flt dict \<Rightarrow> bool" where
  "noncritical s \<longleftrightarrow> list_all (\<lambda>(n, b). case map_of s n of None \<Rightarrow> False | Some x \<Rightarrow> \<not> critical_violation b x) BOUNDS"

text \<open>A candidate that may be executed now and whose every outcome stays out of the critical ranges.\<close>

definition lawful :: "recovery_context \<Rightarrow> flt dict \<Rightarrow> candidate \<Rightarrow> bool" where
  "lawful C s c \<longleftrightarrow> c \<in> set (rc_candidates C) \<and> rc_executability_for C c = EXECUTABLE \<and> rc_branches_for C c \<noteq> [] \<and>
     list_all (\<lambda>branch. case project_step (rc_drift_enabled C) s branch of Inl e \<Rightarrow> False | Inr t \<Rightarrow> noncritical t)
       (rc_branches_for C c)"

definition toward_ideal :: "bounds \<Rightarrow> flt \<Rightarrow> flt \<Rightarrow> bool" where
  "toward_ideal b x y \<longleftrightarrow> (flt_lt x (bd_ideal b) \<and> flt_lt x y) \<or> (flt_lt (bd_ideal b) x \<and> flt_lt y x)"

text \<open>Every outcome strictly moves the variable towards its ideal.\<close>

definition moves_toward :: "recovery_context \<Rightarrow> flt dict \<Rightarrow> candidate \<Rightarrow> string \<Rightarrow> bool" where
  "moves_toward C s c n \<longleftrightarrow> list_all (\<lambda>branch.
     case (map_of BOUNDS n, map_of s n, project_step (rc_drift_enabled C) s branch) of
       (Some b, Some x, Inr t) \<Rightarrow> (case map_of t n of None \<Rightarrow> False | Some y \<Rightarrow> toward_ideal b x y)
     | _ \<Rightarrow> False) (rc_branches_for C c)"

lemma ditem_Inr: "ditem k d = Inr v \<longleftrightarrow> map_of d k = Some v"
  by (simp add: ditem_def split: option.splits)

lemma allE_True: "allE f xs = Inr True \<longleftrightarrow> list_all (\<lambda>x. f x = Inr True) xs"
  by (induction xs) (auto simp: andThen_eq_Inr)

lemma anyE_True: "anyE f xs = Inr True \<Longrightarrow> \<exists>x \<in> set xs. f x = Inr True"
  by (induction xs) (auto simp: andThen_eq_Inr split: if_splits)

lemma mapE_Inr_iff: "mapE f xs = Inr ys \<longleftrightarrow> list_all2 (\<lambda>x y. f x = Inr y) xs ys"
  by (induction xs arbitrary: ys) (auto simp: andThen_eq_Inr list_all2_Cons1)

lemma first_by_subset: "set (first_by key xs) \<subseteq> set xs"
proof -
  have "set (foldl (\<lambda>kept x. if key x \<in> set (map key kept) then kept else kept @ [x]) ys xs) \<subseteq> set ys \<union> set xs" for ys
  proof (induction xs arbitrary: ys)
    case Nil
    then show ?case by simp
  next
    case (Cons a xs)
    let ?zs = "if key a \<in> set (map key ys) then ys else ys @ [a]"
    have "set ?zs \<subseteq> set ys \<union> {a}" by auto
    then show ?case using Cons.IH [of ?zs] by auto
  qed
  then show ?thesis unfolding first_by_def by fastforce
qed

lemma filterE_mem:
  assumes "filterE f xs = Inr ys" "y \<in> set ys"
  shows "y \<in> set xs \<and> f y = Inr True"
proof -
  obtain zs where zs: "mapE (\<lambda>x. andThen (f x) (\<lambda>b. Inr (if b then [x] else []))) xs = Inr zs" and "ys = concat zs"
    using assms(1) by (auto simp: filterE_def andThen_eq_Inr)
  then obtain z where z: "z \<in> set zs" "y \<in> set z" using assms(2) by auto
  then obtain x b where "x \<in> set xs" "f x = Inr b" "z = (if b then [x] else [])"
    using mapE_mem [OF zs z(1)] by (auto simp: andThen_eq_Inr)
  then show ?thesis using z(2) by (auto split: if_splits)
qed

lemma flt_lt_not_le: "flt_lt x y \<Longrightarrow> \<not> flt_le y x"
  using flt_le_less_trans [of y x y] by auto

lemma flt_of_pos: "flt_lt (Fin 0) (flt_of q) \<Longrightarrow> 0 < q"
  using flt_of_mono [of q 0] flt_lt_not_le [of "Fin 0" "flt_of q"] by (auto simp: not_less [symmetric])

lemma flt_of_neg: "flt_lt (flt_of q) (Fin 0) \<Longrightarrow> q < 0"
  using flt_of_mono [of 0 q] flt_lt_not_le [of "flt_of q" "Fin 0"] by (auto simp: not_less [symmetric])

lemma pos_difference: "flt_lt (Fin 0) (flt_sub y x) \<Longrightarrow> flt_lt x y"
  by (cases x; cases y) (auto simp: flt_sub_def dest: flt_of_pos)

lemma neg_difference: "flt_lt (flt_sub y x) (Fin 0) \<Longrightarrow> flt_lt y x"
  by (cases x; cases y) (auto simp: flt_sub_def dest: flt_of_neg)

lemma times_one_pos: "flt_lt (Fin 0) (flt_mult (Fin 1) z) \<Longrightarrow> flt_lt (Fin 0) z"
  by (cases z) (auto simp: inf_sign_def dest: flt_of_pos)

lemma times_minus_one_pos: "flt_lt (Fin 0) (flt_mult (Fin (- 1)) z) \<Longrightarrow> flt_lt z (Fin 0)"
  by (cases z) (auto simp: inf_sign_def dest: flt_of_pos)

lemma direction_moves:
  assumes "direction_of n x = Inr d" "flt_lt (Fin 0) (flt_mult d (flt_sub y x))" "map_of BOUNDS n = Some b"
  shows "toward_ideal b x y"
proof -
  have "d = (if flt_lt x (bd_ideal b) then Fin 1 else if flt_lt (bd_ideal b) x then Fin (- 1) else Fin 0)"
    using assms(1,3) by (simp add: direction_of_def ditem_def)
  then consider "flt_lt x (bd_ideal b)" "d = Fin 1" | "flt_lt (bd_ideal b) x" "d = Fin (- 1)" | "d = Fin 0"
    by (metis (full_types))
  then show ?thesis
  proof cases
    case 1
    then show ?thesis using assms(2) pos_difference [OF times_one_pos] by (simp add: toward_ideal_def)
  next
    case 2
    then show ?thesis using assms(2) neg_difference [OF times_minus_one_pos] by (simp add: toward_ideal_def)
  next
    case 3
    have "\<not> flt_lt (Fin 0) (flt_mult (Fin 0) z)" for z by (cases z) (simp_all add: flt_of_small)
    then show ?thesis using assms(2) 3 by simp
  qed
qed

lemma corrects_need_moves:
  assumes "corrects_need (rc_drift_enabled C) n s (rc_branches_for C c) = Inr True"
  shows "moves_toward C s c n" and "rc_branches_for C c \<noteq> []"
proof -
  obtain x where x: "map_of s n = Some x" using assms by (auto simp: corrects_need_def andThen_eq_Inr ditem_Inr)
  obtain d where d: "direction_of n x = Inr d" using assms x by (auto simp: corrects_need_def andThen_eq_Inr ditem_def)
  have all: "list_all (\<lambda>branch. andThen (project_step (rc_drift_enabled C) s branch) (\<lambda>state.
       andThen (ditem n state) (\<lambda>y. Inr (flt_lt (Fin 0) (flt_mult d (flt_sub y x))))) = Inr True) (rc_branches_for C c)"
    and ne: "rc_branches_for C c \<noteq> []"
    using assms x d by (simp_all add: corrects_need_def ditem_def allE_True split: if_splits)
  show "rc_branches_for C c \<noteq> []" by (rule ne)
  obtain b where b: "map_of BOUNDS n = Some b" using d by (auto simp: direction_of_def andThen_eq_Inr ditem_Inr)
  have "case project_step (rc_drift_enabled C) s branch of Inl e \<Rightarrow> False
      | Inr t \<Rightarrow> (case map_of t n of None \<Rightarrow> False | Some y \<Rightarrow> toward_ideal b x y)" if br: "branch \<in> set (rc_branches_for C c)" for branch
  proof -
    obtain t y where "project_step (rc_drift_enabled C) s branch = Inr t" "map_of t n = Some y"
        "flt_lt (Fin 0) (flt_mult d (flt_sub y x))"
      using all br by (auto simp: list_all_iff andThen_eq_Inr ditem_Inr)
    then show ?thesis using direction_moves [OF d _ b] by simp
  qed
  then show "moves_toward C s c n" by (simp add: moves_toward_def x b list_all_iff split: sum.splits)
qed

lemma project_branches_safe:
  assumes "project_branches drift s branches = Inr (True, p)" "branch \<in> set branches"
  shows "\<exists>t. project_step drift s branch = Inr t \<and> noncritical t"
proof -
  have ne: "branches \<noteq> []" using assms(2) by auto
  obtain states rows where st: "mapE (project_step drift s) branches = Inr states"
    and rows: "mapE (\<lambda>(name, b). andThen (mapE (ditem name) states) (\<lambda>xs. Inr (name, b, xs))) BOUNDS = Inr rows"
    and safe: "list_all (\<lambda>(name, b, xs). \<not> list_ex (critical_violation b) xs) rows"
    using assms(1) ne by (auto simp: project_branches_def andThen_eq_Inr)
  obtain t where t: "t \<in> set states" "project_step drift s branch = Inr t"
    using mapE_mem_src [OF st assms(2)] by blast
  have "case map_of t n of None \<Rightarrow> False | Some x \<Rightarrow> \<not> critical_violation b x" if nb: "(n, b) \<in> set BOUNDS" for n b
  proof -
    obtain row where row: "row \<in> set rows" "andThen (mapE (ditem n) states) (\<lambda>xs. Inr (n, b, xs)) = Inr row"
      using mapE_mem_src [OF rows nb] by auto
    then obtain xs where xs: "mapE (ditem n) states = Inr xs" "row = (n, b, xs)" by (auto simp: andThen_eq_Inr)
    obtain x where "x \<in> set xs" "ditem n t = Inr x" using mapE_mem_src [OF xs(1) t(1)] by blast
    then show ?thesis using safe row(1) xs(2) by (auto simp: ditem_Inr list_all_iff list_ex_iff)
  qed
  then show ?thesis using t by (auto simp: noncritical_def list_all_iff)
qed

lemma direct_routes_Inr:
  assumes "direct_routes C s needs c = Inr rs"
  obtains t safe p ns where "project_branches (rc_drift_enabled C) s (rc_branches_for C c) = Inr (safe, p)"
    "filterE (\<lambda>need. if rc_executability_for C c = EXECUTABLE \<and> safe
        then corrects_need (rc_drift_enabled C) need s (rc_branches_for C c) else Inr False) needs = Inr ns"
    "rs = map (\<lambda>need. \<lparr>rr_need = need, rr_status = ROBUST_NOW, rr_candidate = c,
       rr_endpoint_capability = cd_capability c, rr_target_kind = t,
       rr_source = ''current_authority_preflight'', rr_projected = Some p, rr_blocked_by = None\<rparr>) ns"
proof -
  obtain t where t: "recovery_target c = Inr t" using assms by (auto simp: direct_routes_def andThen_eq_Inr)
  obtain safe p where pb: "project_branches (rc_drift_enabled C) s (rc_branches_for C c) = Inr (safe, p)"
    using assms by (auto simp: direct_routes_def Let_def andThen_eq_Inr)
  have "andThen (filterE (\<lambda>need. if rc_executability_for C c = EXECUTABLE \<and> safe
        then corrects_need (rc_drift_enabled C) need s (rc_branches_for C c) else Inr False) needs) (\<lambda>corrected.
     Inr (map (\<lambda>need. \<lparr>rr_need = need, rr_status = ROBUST_NOW, rr_candidate = c,
       rr_endpoint_capability = cd_capability c, rr_target_kind = t,
       rr_source = ''current_authority_preflight'', rr_projected = Some p, rr_blocked_by = None\<rparr>) corrected)) = Inr rs"
    using assms t pb by (simp add: direct_routes_def)
  then show thesis using pb that unfolding andThen_eq_Inr by blast
qed

lemma direct_route_sound:
  assumes "direct_routes C s needs c = Inr rs" "r \<in> set rs" "c \<in> set (rc_candidates C)"
  shows "rr_candidate r = c \<and> lawful C s c \<and> moves_toward C s c (rr_need r)"
proof -
  from assms(1) show ?thesis
  proof (rule direct_routes_Inr)
    fix t safe p ns
    assume pb: "project_branches (rc_drift_enabled C) s (rc_branches_for C c) = Inr (safe, p)"
      and ns: "filterE (\<lambda>need. if rc_executability_for C c = EXECUTABLE \<and> safe
        then corrects_need (rc_drift_enabled C) need s (rc_branches_for C c) else Inr False) needs = Inr ns"
      and rs: "rs = map (\<lambda>need. \<lparr>rr_need = need, rr_status = ROBUST_NOW, rr_candidate = c,
       rr_endpoint_capability = cd_capability c, rr_target_kind = t,
       rr_source = ''current_authority_preflight'', rr_projected = Some p, rr_blocked_by = None\<rparr>) ns"
    have r: "rr_need r \<in> set ns" "rr_candidate r = c" using assms(2) unfolding rs by auto
    have ok: "rc_executability_for C c = EXECUTABLE" "safe"
      "corrects_need (rc_drift_enabled C) (rr_need r) s (rc_branches_for C c) = Inr True"
      using filterE_mem [OF ns r(1)] by (simp_all split: if_splits)
    have "\<exists>t. project_step (rc_drift_enabled C) s branch = Inr t \<and> noncritical t" if "branch \<in> set (rc_branches_for C c)" for branch
      using project_branches_safe [OF _ that] pb ok(2) by simp
    then have "lawful C s c"
      unfolding lawful_def list_all_iff using assms(3) ok(1) corrects_need_moves(2) [OF ok(3)] by fastforce
    then show ?thesis using r(2) corrects_need_moves(1) [OF ok(3)] by simp
  qed
qed

lemma may_route_status: "may_routes C s needs k c = Inr rs \<Longrightarrow> r \<in> set rs \<Longrightarrow> rr_status r = MAY_ROUTE"
proof -
  assume may: "may_routes C s needs k c = Inr rs" and r: "r \<in> set rs"
  obtain t' where t': "recovery_target c = Inr t'" using may r by (auto simp: may_routes_def andThen_eq_Inr split: if_splits)
  obtain t where t: "t' = Some t" using may r t' by (cases t') (auto simp: may_routes_def split: if_splits)
  obtain ob where ob: "map_of k t = Some ob"
    using may r t' t by (cases "map_of k t") (auto simp: may_routes_def split: if_splits)
  have "andThen (mapE (approach_routes C s needs ob c t (verified_outcome_effect_branches (cd_capability c))) (rc_candidates C))
      (\<lambda>rows. Inr (concat rows)) = Inr rs"
    using may r t' t ob by (auto simp: may_routes_def split: if_splits)
  then obtain rows where rows: "mapE (approach_routes C s needs ob c t
      (verified_outcome_effect_branches (cd_capability c))) (rc_candidates C) = Inr rows" "rs = concat rows"
    unfolding andThen_eq_Inr by blast
  then obtain row where "row \<in> set rows" "r \<in> set row" using r by auto
  with mapE_mem [OF rows(1)] obtain a where "approach_routes C s needs ob c t
      (verified_outcome_effect_branches (cd_capability c)) a = Inr row" by blast
  then show "rr_status r = MAY_ROUTE"
    using \<open>r \<in> set row\<close> by (auto simp: approach_routes_def andThen_eq_Inr split: if_splits option.splits)
qed

text \<open>A robust route is a lawful candidate that moves the variable it is listed for.\<close>

lemma robust_route_sound:
  assumes "enumerate_regulatory_recovery_routes C s needs = Inr routes" "r \<in> set routes" "rr_status r = ROBUST_NOW"
  shows "lawful C s (rr_candidate r) \<and> moves_toward C s (rr_candidate r) (rr_need r)"
proof -
  obtain direct may k where d: "mapE (direct_routes C s (filter (\<lambda>n. n \<in> set needs) (map fst BOUNDS))) (rc_candidates C) = Inr direct"
    and m: "mapE (may_routes C s (filter (\<lambda>n. n \<in> set needs) (map fst BOUNDS)) k)
        (filter (\<lambda>c. cd_capability c \<in> RECOVERY_TERMINAL_CAPABILITIES) (rc_candidates C)) = Inr may"
    and r: "routes = sort_key route_order (first_by route_key (concat direct @ concat may))"
    using assms(1) by (auto simp: enumerate_regulatory_recovery_routes_def andThen_eq_Inr Let_def)
  have "r \<in> set (concat direct) \<union> set (concat may)"
    using assms(2) first_by_subset [of route_key "concat direct @ concat may"] by (auto simp: r)
  moreover have "r \<notin> set (concat may)"
    using assms(3) mapE_mem [OF m] may_route_status by (fastforce simp: ROBUST_NOW_def MAY_ROUTE_def)
  ultimately obtain rs where "rs \<in> set direct" "r \<in> set rs" by auto
  then show ?thesis using mapE_mem [OF d] direct_route_sound by fastforce
qed

lemma robust_candidate_lawful:
  assumes "enumerate_regulatory_recovery_routes C s needs = Inr routes" "c \<in> set (robust_candidates routes)"
  shows "lawful C s c"
proof -
  obtain r where "r \<in> set routes" "rr_status r = ROBUST_NOW" "c = rr_candidate r"
    using assms(2) first_by_subset [of _ "filter (\<lambda>r. rr_status r = ROBUST_NOW) routes"]
    by (fastforce simp: robust_candidates_def candidates_of_def)
  then show ?thesis using robust_route_sound [OF assms(1)] by simp
qed

section \<open>What the reserve proves\<close>

text \<open>
  \<open>needs_covered\<close>: each active need has a lawful candidate all of whose outcomes move that variable towards its ideal.
  \<open>continues C k s\<close>: for \<open>k\<close> further decisions there is a lawful candidate after every outcome of which the same holds.
\<close>

definition needs_covered :: "recovery_context \<Rightarrow> flt dict \<Rightarrow> bool" where
  "needs_covered C s \<longleftrightarrow> viable s \<or> (\<exists>needs. active_recovery_needs_for s = Inr needs \<and>
     (\<forall>n \<in> set needs. \<exists>c \<in> set (rc_candidates C). lawful C s c \<and> moves_toward C s c n))"

primrec continues :: "recovery_context \<Rightarrow> nat \<Rightarrow> flt dict \<Rightarrow> bool" where
  "continues C 0 s = needs_covered C s"
| "continues C (Suc k) s = (viable s \<or> needs_covered C s \<and>
     (\<exists>c \<in> set (rc_candidates C). lawful C s c \<and>
       (\<forall>branch \<in> set (rc_branches_for C c). \<exists>t. project_step (rc_drift_enabled C) s branch = Inr t \<and> continues C k t)))"

lemma continues_down: "continues C (Suc k) s \<Longrightarrow> continues C k s"
proof (induction k arbitrary: s)
  case 0
  then show ?case by (auto simp: needs_covered_def)
next
  case (Suc k)
  show ?case
  proof (cases "viable s")
    case True
    then show ?thesis by simp
  next
    case False
    then obtain c where c: "needs_covered C s" "c \<in> set (rc_candidates C)" "lawful C s c"
      and br: "\<forall>branch \<in> set (rc_branches_for C c). \<exists>t. project_step (rc_drift_enabled C) s branch = Inr t \<and> continues C (Suc k) t"
      using Suc.prems by (auto simp only: continues.simps)
    have "\<forall>branch \<in> set (rc_branches_for C c). \<exists>t. project_step (rc_drift_enabled C) s branch = Inr t \<and> continues C k t"
      using br Suc.IH by blast
    then show ?thesis using c by auto
  qed
qed

lemma continues_below: "continues C k s \<Longrightarrow> j \<le> k \<Longrightarrow> continues C j s"
proof (induction k)
  case (Suc k)
  then show ?case using continues_down [OF Suc.prems(1)] by (cases "j = Suc k") simp_all
qed simp

lemma has_continuation_cases:
  assumes "state_has_continuation f C last_step s = Inr True"
  shows "viable s \<or> needs_covered C s \<and> (last_step \<or> (\<exists>c \<in> set (rc_candidates C). lawful C s c \<and> f c s = Inr True))"
proof (cases "viable s")
  case False
  obtain needs where needs: "active_recovery_needs_for s = Inr needs"
    using assms by (auto simp: state_has_continuation_def andThen_eq_Inr)
  then have ne: "needs \<noteq> []" using False by (auto simp: viable_def)
  then obtain routes where routes: "enumerate_regulatory_recovery_routes C s needs = Inr routes"
    and all: "set needs \<subseteq> set (map rr_need (filter (\<lambda>r. rr_status r = ROBUST_NOW) routes))"
    and more: "last_step \<or> anyE (\<lambda>c. f c s) (robust_candidates routes) = Inr True"
    using assms needs by (auto simp: state_has_continuation_def andThen_eq_Inr Let_def split: if_splits)
  have "\<exists>c \<in> set (rc_candidates C). lawful C s c \<and> moves_toward C s c n" if n: "n \<in> set needs" for n
  proof -
    obtain r where "r \<in> set routes" "rr_status r = ROBUST_NOW" "rr_need r = n" using all n by auto
    then have l: "lawful C s (rr_candidate r) \<and> moves_toward C s (rr_candidate r) n"
      using robust_route_sound [OF routes] by blast
    then show ?thesis by (intro bexI [of _ "rr_candidate r"]) (auto simp: lawful_def)
  qed
  then have "needs_covered C s" using needs by (auto simp: needs_covered_def)
  moreover have "\<exists>c \<in> set (rc_candidates C). lawful C s c \<and> f c s = Inr True" if further: "\<not> last_step"
  proof -
    obtain c where c: "c \<in> set (robust_candidates routes)" "f c s = Inr True" using more further anyE_True by blast
    then have l: "lawful C s c" using robust_candidate_lawful [OF routes] by simp
    then show ?thesis using c(2) by (intro bexI [of _ c]) (simp_all add: lawful_def)
  qed
  ultimately show ?thesis by blast
qed simp

lemma reserve_continues:
  assumes "reserve_at C (Suc d) c s = Inr True"
  shows "rc_branches_for C c \<noteq> [] \<and>
    (\<forall>branch \<in> set (rc_branches_for C c). \<exists>t. project_step (rc_drift_enabled C) s branch = Inr t \<and> continues C d t)"
  using assms
proof (induction d arbitrary: c s)
  case (0 c s)
  then have ne: "rc_branches_for C c \<noteq> []"
    and all: "list_all (\<lambda>branch. andThen (project_step (rc_drift_enabled C) s branch)
        (state_has_continuation (reserve_at C 0) C True) = Inr True) (rc_branches_for C c)"
    by (simp_all add: allE_True split: if_splits)
  have "\<exists>t. project_step (rc_drift_enabled C) s branch = Inr t \<and> continues C 0 t" if br: "branch \<in> set (rc_branches_for C c)" for branch
  proof -
    obtain t where t: "project_step (rc_drift_enabled C) s branch = Inr t"
        "state_has_continuation (reserve_at C 0) C True t = Inr True"
      using all br by (auto simp: list_all_iff andThen_eq_Inr)
    then show ?thesis using has_continuation_cases [OF t(2)] by (auto simp: needs_covered_def)
  qed
  then show ?case using ne by blast
next
  case (Suc d c s)
  have ne: "rc_branches_for C c \<noteq> []"
    and all: "list_all (\<lambda>branch. andThen (project_step (rc_drift_enabled C) s branch)
        (state_has_continuation (reserve_at C (Suc d)) C False) = Inr True) (rc_branches_for C c)"
    using Suc.prems unfolding reserve_at.simps(2) [of C "Suc d"] by (simp_all add: allE_True split: if_splits)
  have "\<exists>t. project_step (rc_drift_enabled C) s branch = Inr t \<and> continues C (Suc d) t"
    if br: "branch \<in> set (rc_branches_for C c)" for branch
  proof -
    obtain t where t: "project_step (rc_drift_enabled C) s branch = Inr t"
        "state_has_continuation (reserve_at C (Suc d)) C False t = Inr True"
      using all br by (auto simp: list_all_iff andThen_eq_Inr)
    have "continues C (Suc d) t" using has_continuation_cases [OF t(2)] Suc.IH by fastforce
    then show ?thesis using t(1) by blast
  qed
  then show ?case using ne by blast
qed

text \<open>C36: when a candidate is found to preserve the recovery reserve to a depth, it has outcomes, and after each of them, for
  every smaller number of further decisions, either no variable needs recovery or each variable that does has an executable
  candidate all of whose outcomes stay out of the critical ranges and move that variable towards its ideal, and one such
  candidate leads again, whatever its outcome, to states for which this holds. The result for a depth implies the one for any
  smaller depth.\<close>

theorem reserve_is_a_strategy:
  assumes "preserves_robust_recovery_reserve C c physiology depth = Inr True" and "int k < depth"
  shows "rc_branches_for C c \<noteq> [] \<and> list_all (\<lambda>branch.
    \<exists>t. project_verified_transition physiology branch (rc_drift_enabled C) (Fin 1) = Inr t \<and> continues C k t) (rc_branches_for C c)"
proof -
  have r: "reserve_at C (nat depth) c physiology = Inr True"
    using assms(1) by (simp add: preserves_robust_recovery_reserve_def split: if_splits)
  then obtain d where d: "nat depth = Suc d" by (cases "nat depth") auto
  have all: "rc_branches_for C c \<noteq> [] \<and> (\<forall>branch \<in> set (rc_branches_for C c).
      \<exists>t. project_step (rc_drift_enabled C) physiology branch = Inr t \<and> continues C d t)"
    by (rule reserve_continues) (use r d in simp)
  have "k \<le> d" using assms(2) d by linarith
  then show ?thesis using all continues_below unfolding list_all_iff project_step_def by blast
qed

section \<open>What the search proves, and that it ends\<close>

text \<open>
  States from which lawful candidates lead back into the bands whatever their outcomes. The search identifies states whose
  variables agree when rounded to twelve decimals, so each outcome may be replaced by such a state.
\<close>

inductive proven_path :: "recovery_context \<Rightarrow> flt dict \<Rightarrow> bool" for C where
  arrived_home: "viable s \<Longrightarrow> proven_path C s"
| one_step: "lawful C s c \<Longrightarrow>
    (\<And>branch. branch \<in> set (rc_branches_for C c) \<Longrightarrow>
      \<exists>t u. project_step (rc_drift_enabled C) s branch = Inr t \<and> (t = u \<or> state_key t = state_key u) \<and> proven_path C u) \<Longrightarrow>
    proven_path C s"

definition proven_upto :: "recovery_context \<Rightarrow> flt dict \<Rightarrow> bool" where
  "proven_upto C s \<longleftrightarrow> (\<exists>u. (s = u \<or> state_key s = state_key u) \<and> proven_path C u)"

definition memo_ok :: "recovery_context \<Rightarrow> search \<Rightarrow> bool" where
  "memo_ok C st \<longleftrightarrow> (\<forall>k. map_of (sr_memo st) k = Some True \<longrightarrow> (\<exists>u. state_key u = Inr k \<and> proven_path C u))"

definition keeps_memo :: "recovery_context \<Rightarrow> (flt dict \<Rightarrow> search \<Rightarrow> (bool \<times> search) res) \<Rightarrow> bool" where
  "keeps_memo C f \<longleftrightarrow> (\<forall>s st b st'. f s st = Inr (b, st') \<longrightarrow> memo_ok C st \<longrightarrow> memo_ok C st' \<and> (b \<longrightarrow> proven_upto C s))"

lemma keeps_memoD: "keeps_memo C f \<Longrightarrow> f s st = Inr (b, st') \<Longrightarrow> memo_ok C st \<Longrightarrow> memo_ok C st' \<and> (b \<longrightarrow> proven_upto C s)"
  unfolding keeps_memo_def by blast

lemma some_candidate_cases:
  assumes "some_candidate f C s (c # cs) st = Inr (b, st')"
  obtains (none) "rc_branches_for C c = []" "some_candidate f C s cs st = Inr (b, st')"
  | (yes) ss where "rc_branches_for C c \<noteq> []" "mapE (project_step (rc_drift_enabled C) s) (rc_branches_for C c) = Inr ss"
      "all_reach f ss st = Inr (True, st')" "b"
  | (no) ss st1 where "rc_branches_for C c \<noteq> []" "mapE (project_step (rc_drift_enabled C) s) (rc_branches_for C c) = Inr ss"
      "all_reach f ss st = Inr (False, st1)" "some_candidate f C s cs st1 = Inr (b, st')"
proof (cases "rc_branches_for C c = []")
  case True
  then show thesis using assms none by simp
next
  case False
  then obtain ss where ss: "mapE (project_step (rc_drift_enabled C) s) (rc_branches_for C c) = Inr ss"
    using assms by (auto simp: andThen_eq_Inr)
  then obtain b1 st1 where r: "all_reach f ss st = Inr (b1, st1)" using assms False by (auto simp: andThen_eq_Inr)
  show thesis
  proof (cases b1)
    case True
    then show thesis using assms False ss r by (intro yes [of ss]) simp_all
  next
    case b1: False
    then show thesis using assms False ss r by (intro no [of ss st1]) simp_all
  qed
qed

lemma all_reach_sound:
  assumes "keeps_memo C f"
  shows "all_reach f ss st = Inr (b, st') \<Longrightarrow> memo_ok C st \<Longrightarrow> memo_ok C st' \<and> (b \<longrightarrow> (\<forall>s \<in> set ss. proven_upto C s))"
proof (induction ss arbitrary: st)
  case (Cons s ss)
  then obtain b1 st1 where f: "f s st = Inr (b1, st1)" by (auto simp: andThen_eq_Inr)
  have one: "memo_ok C st1" "b1 \<longrightarrow> proven_upto C s" using keeps_memoD [OF assms f Cons.prems(2)] by simp_all
  show ?case using Cons.prems(1) Cons.IH [OF _ one(1)] one f by (cases b1) auto
qed simp

lemma some_candidate_sound:
  assumes "keeps_memo C f"
  shows "some_candidate f C s cs st = Inr (b, st') \<Longrightarrow> memo_ok C st \<Longrightarrow> \<forall>c \<in> set cs. lawful C s c \<Longrightarrow>
    memo_ok C st' \<and> (b \<longrightarrow> proven_path C s)"
proof (induction cs arbitrary: st)
  case (Cons c cs)
  note all = all_reach_sound [OF assms]
  from Cons.prems(1) show ?case
  proof (cases rule: some_candidate_cases)
    case none
    then show ?thesis using Cons.IH [OF none(2)] Cons.prems(2,3) by simp
  next
    case (yes ss)
    have ok: "memo_ok C st'" "\<forall>s \<in> set ss. proven_upto C s" using all [OF yes(3) Cons.prems(2)] by simp_all
    have "proven_path C s"
    proof (rule one_step)
      show "lawful C s c" using Cons.prems(3) by simp
      show "\<exists>t u. project_step (rc_drift_enabled C) s branch = Inr t \<and> (t = u \<or> state_key t = state_key u) \<and> proven_path C u"
        if "branch \<in> set (rc_branches_for C c)" for branch
        using mapE_mem_src [OF yes(2) that] ok(2) unfolding proven_upto_def by blast
    qed
    then show ?thesis using ok(1) by simp
  next
    case (no ss st1)
    have "memo_ok C st1" using all [OF no(3) Cons.prems(2)] by simp
    then show ?thesis using Cons.IH [OF no(4)] Cons.prems(3) by simp
  qed
qed simp

lemma reaches_sound:
  "keeps_memo C (reaches_viability C m n)"
proof (induction n)
  case 0
  then show ?case by (simp add: keeps_memo_def)
next
  case (Suc n)
  have "memo_ok C st' \<and> (b \<longrightarrow> proven_upto C s)"
    if run: "reaches_viability C m (Suc n) s st = Inr (b, st')" and memo: "memo_ok C st" for s st b st'
  proof -
  let ?f = "reaches_viability C m n"
  obtain needs where needs: "active_recovery_needs_for s = Inr needs"
    using run by (auto simp: reach_step_def andThen_eq_Inr)
  show ?thesis
  proof (cases "needs = []")
    case True
    then have "proven_path C s" using needs by (intro arrived_home) (simp add: viable_def)
    then have "proven_upto C s" by (auto simp: proven_upto_def)
    then show ?thesis using run memo needs True by (simp add: reach_step_def)
  next
    case ne: False
    obtain key where key: "state_key s = Inr key" using run needs ne by (auto simp: reach_step_def andThen_eq_Inr)
    show ?thesis
    proof (cases "map_of (sr_memo st) key")
      case (Some v)
      then have "b = v" "st' = st" using run needs ne key by (simp_all add: reach_step_def)
      moreover have "v \<longrightarrow> proven_upto C s"
      proof
        assume v
        then obtain u where "state_key u = Inr key" "proven_path C u" using memo Some unfolding memo_ok_def by auto
        then show "proven_upto C s" unfolding proven_upto_def using key by (intro exI [of _ u]) simp
      qed
      ultimately show ?thesis using memo by simp
    next
      case None
      show ?thesis
      proof (cases "key \<in> set (sr_visiting st) \<or> key \<notin> set (sr_explored st) \<and> m \<le> int (length (sr_explored st))")
        case True
        then have "\<not> b" "sr_memo st' = sr_memo st" using run needs ne key None
          by (auto simp: reach_step_def split: if_splits)
        then show ?thesis using memo by (simp add: memo_ok_def)
      next
        case False
        let ?st1 = "st\<lparr>sr_explored := if key \<in> set (sr_explored st) then sr_explored st else key # sr_explored st,
          sr_visiting := key # sr_visiting st\<rparr>"
        obtain routes b2 st2 where routes: "enumerate_regulatory_recovery_routes C s needs = Inr routes"
          and sc: "some_candidate ?f C s (robust_candidates routes) ?st1 = Inr (b2, st2)"
          and out: "b = b2" "st' = remember key b2 st2"
          using run needs ne key None False by (auto simp: reach_step_def andThen_eq_Inr Let_def)
        have "memo_ok C ?st1" using memo by (simp add: memo_ok_def)
        from some_candidate_sound [OF Suc.IH sc this] robust_candidate_lawful [OF routes]
        have ok: "memo_ok C st2" "b2 \<longrightarrow> proven_path C s" by blast+
        then have "memo_ok C st'" using key by (auto simp: out memo_ok_def remember_def update_conv)
        then show ?thesis using ok(2) by (auto simp: out proven_upto_def)
      qed
    qed
  qed
  qed
  then show ?case unfolding keeps_memo_def by blast
qed

text \<open>Inputs the functions can read: targets and kinds with a text, distances and steps with a number.\<close>

definition inputs_readable :: "recovery_context \<Rightarrow> bool" where
  "inputs_readable C \<longleftrightarrow> \<not> isl (observation_by_kind (rc_observations C)) \<and>
     list_all (\<lambda>c. \<not> isl (recovery_target c) \<and>
       list_all (\<lambda>ob. \<not> isl (policy_bounded_approach c ob)) (rc_observations C)) (rc_candidates C)"

definition complete :: "flt dict \<Rightarrow> bool" where
  "complete s \<longleftrightarrow> list_all (\<lambda>(n, b). map_of s n \<noteq> None) BOUNDS"

lemma some_false: "Ex Not"
  by (rule exI [of _ False]) simp

lemma some_true: "\<exists>b :: bool. b"
  by (rule exI [of _ True]) simp

lemmas some_bool = some_false some_true

lemma mapE_total: "(\<And>x. x \<in> set xs \<Longrightarrow> \<exists>y. f x = Inr y) \<Longrightarrow> \<exists>ys. mapE f xs = Inr ys"
proof (induction xs)
  case (Cons x xs)
  then obtain y ys where "f x = Inr y" "mapE f xs = Inr ys" by (metis list.set_intros)
  then show ?case by simp
qed simp

lemma allE_total: "(\<And>x. x \<in> set xs \<Longrightarrow> \<exists>y. f x = Inr y) \<Longrightarrow> \<exists>b. allE f xs = Inr b"
proof (induction xs)
  case (Cons x xs)
  obtain b where "f x = Inr b" using Cons.prems by auto
  moreover obtain c where "allE f xs = Inr c" using Cons by auto
  ultimately show ?case by (simp add: some_bool)
qed (simp add: some_bool)

lemma filterE_total: "(\<And>x. x \<in> set xs \<Longrightarrow> \<exists>y. f x = Inr y) \<Longrightarrow> \<exists>ys. filterE f xs = Inr ys"
  using mapE_total [of xs "\<lambda>x. andThen (f x) (\<lambda>b. Inr (if b then [x] else []))"]
  by (fastforce simp: filterE_def)

lemma BOUNDS_names: "(n, b) \<in> set BOUNDS \<Longrightarrow> n \<in> {''energy'', ''fatigue'', ''integrity'', ''stimulation''}"
  by (auto simp: BOUNDS_def)

lemma complete_get: "complete s \<Longrightarrow> n \<in> set (map fst BOUNDS) \<Longrightarrow> \<exists>x. ditem n s = Inr x"
  by (auto simp: complete_def list_all_iff ditem_Inr)

lemma project_complete:
  assumes "complete s"
  shows "\<exists>t. project_step drift s branch = Inr t \<and> complete t"
proof -
  have get: "\<exists>x. map_of s n = Some x" if "n \<in> {''energy'', ''fatigue'', ''integrity'', ''stimulation''}" for n
    using assms that by (auto simp: complete_def BOUNDS_def)
  obtain e f i st where "map_of s ''energy'' = Some e" "map_of s ''fatigue'' = Some f" "map_of s ''integrity'' = Some i"
      "map_of s ''stimulation'' = Some st"
    using get [of "''energy''"] get [of "''fatigue''"] get [of "''integrity''"] get [of "''stimulation''"] by auto
  then show ?thesis
    by (simp add: project_step_def project_verified_transition_def BOUNDS_def DEFAULT_DRIFT_def ditem_def complete_def)
qed

lemma needs_total: "complete s \<Longrightarrow> \<exists>ns. active_recovery_needs_for s = Inr ns"
  using mapE_total [of BOUNDS "\<lambda>(name, b). andThen (ditem name s) (\<lambda>x. Inr (if needs_action name b x then [name] else []))"]
    complete_get by (fastforce simp: active_recovery_needs_for_def)

lemma state_key_total: "complete s \<Longrightarrow> \<exists>k. state_key s = Inr k"
  using mapE_total [of BOUNDS "\<lambda>(name, b). andThen (ditem name s) (\<lambda>x. Inr (round12 x))"] complete_get
  by (fastforce simp: state_key_def)

lemma corrects_need_total:
  assumes "complete s" "n \<in> set (map fst BOUNDS)"
  shows "\<exists>b. corrects_need drift n s branches = Inr b"
proof -
  obtain x where x: "ditem n s = Inr x" using complete_get [OF assms] by blast
  obtain d where d: "direction_of n x = Inr d" using assms(2) by (auto simp: direction_of_def BOUNDS_def ditem_def)
  have "\<exists>b. allE (\<lambda>branch. andThen (project_step drift s branch) (\<lambda>state.
      andThen (ditem n state) (\<lambda>y. Inr (flt_lt (Fin 0) (flt_mult d (flt_sub y x)))))) branches = Inr b"
  proof (rule allE_total)
    fix branch
    obtain t where "project_step drift s branch = Inr t" "complete t" using project_complete [OF assms(1)] by blast
    then show "\<exists>y. andThen (project_step drift s branch) (\<lambda>state.
        andThen (ditem n state) (\<lambda>y. Inr (flt_lt (Fin 0) (flt_mult d (flt_sub y x))))) = Inr y"
      using complete_get [of t n] assms(2) by auto
  qed
  then show ?thesis using x d by (simp add: corrects_need_def some_bool)
qed

lemma needs_read:
  "complete s \<Longrightarrow> set needs \<subseteq> set (map fst BOUNDS) \<Longrightarrow> n \<in> set needs \<Longrightarrow> \<exists>b. corrects_need drift n s branches = Inr b"
  by (rule corrects_need_total) auto

lemma project_branches_total:
  assumes "complete s"
  shows "\<exists>r. project_branches drift s branches = Inr r"
proof -
  let ?bs = "if branches = [] then [[]] else branches"
  obtain states where st: "mapE (project_step drift s) ?bs = Inr states"
    using mapE_total [of ?bs "project_step drift s"] project_complete [OF assms] by blast
  have c: "complete t" if "t \<in> set states" for t
    using mapE_mem [OF st that] project_complete [OF assms] by (metis sum.inject(2))
  have "\<exists>rows. mapE (\<lambda>(name, b). andThen (mapE (ditem name) states) (\<lambda>xs. Inr (name, b, xs))) BOUNDS = Inr rows"
  proof (rule mapE_total)
    fix nb
    assume nb: "nb \<in> set BOUNDS"
    obtain n b where n: "nb = (n, b)" by (cases nb)
    then have "n \<in> set (map fst BOUNDS)" using nb by force
    then obtain xs where "mapE (ditem n) states = Inr xs" using mapE_total [of states "ditem n"] complete_get c by blast
    then show "\<exists>y. (case nb of (name, b) \<Rightarrow> andThen (mapE (ditem name) states) (\<lambda>xs. Inr (name, b, xs))) = Inr y"
      by (simp add: n)
  qed
  then obtain rows where "mapE (\<lambda>(name, b). andThen (mapE (ditem name) states) (\<lambda>xs. Inr (name, b, xs))) BOUNDS = Inr rows" ..
  then show ?thesis using st by (simp add: project_branches_def)
qed

lemma not_isl_Inr: "\<not> isl r \<Longrightarrow> \<exists>x. r = Inr x"
  by (cases r) simp_all

lemma target_total: "inputs_readable C \<Longrightarrow> c \<in> set (rc_candidates C) \<Longrightarrow> \<exists>t. recovery_target c = Inr t"
  by (rule not_isl_Inr) (simp add: inputs_readable_def list_all_iff)

lemma approach_total:
  "inputs_readable C \<Longrightarrow> c \<in> set (rc_candidates C) \<Longrightarrow> ob \<in> set (rc_observations C) \<Longrightarrow> \<exists>a. policy_bounded_approach c ob = Inr a"
  by (rule not_isl_Inr) (simp add: inputs_readable_def list_all_iff)

lemma by_kind_observed:
  assumes "observation_by_kind obs = Inr d" "map_of d k = Some ob"
  shows "ob \<in> set obs"
proof -
  let ?f = "\<lambda>d ob. if \<not> truthy (dget VNone ''kind'' ob) then Inr d
       else andThen (as_str (dget (VStr []) ''kind'' ob)) (\<lambda>k. Inr (dput k ob d))"
  have "foldE ?f e xs = Inr d' \<Longrightarrow> \<forall>k o1. map_of e k = Some o1 \<longrightarrow> o1 \<in> X \<Longrightarrow> set xs \<subseteq> X \<Longrightarrow>
      map_of d' k' = Some o2 \<Longrightarrow> o2 \<in> X" for e xs d' X k' o2
  proof (induction xs arbitrary: e)
    case (Cons x xs)
    obtain e' where e': "?f e x = Inr e'" "foldE ?f e' xs = Inr d'" using Cons.prems(1) by (auto simp: andThen_eq_Inr)
    have "\<forall>k o1. map_of e' k = Some o1 \<longrightarrow> o1 \<in> X"
      using e'(1) Cons.prems(2,3) by (auto simp: andThen_eq_Inr split: if_splits)
    then show ?case using Cons.IH [OF e'(2)] Cons.prems(3,4) by simp
  qed simp
  from this [of "[]" obs d "set obs" k ob] show ?thesis using assms by (simp add: observation_by_kind_def)
qed

lemma direct_routes_total:
  assumes "inputs_readable C" "complete s" "set needs \<subseteq> set (map fst BOUNDS)" "c \<in> set (rc_candidates C)"
  shows "\<exists>rs. direct_routes C s needs c = Inr rs"
proof -
  obtain t where t: "recovery_target c = Inr t" using target_total [OF assms(1,4)] ..
  obtain safe p where pb: "project_branches (rc_drift_enabled C) s (rc_branches_for C c) = Inr (safe, p)"
    using project_branches_total [OF assms(2)] by (metis surj_pair)
  have "\<exists>ns. filterE (\<lambda>need. if rc_executability_for C c = EXECUTABLE \<and> safe
      then corrects_need (rc_drift_enabled C) need s (rc_branches_for C c) else Inr False) needs = Inr ns"
    by (rule filterE_total) (simp add: needs_read [OF assms(2,3)] some_bool)
  then show ?thesis using t pb by (auto simp: direct_routes_def)
qed

lemma approach_routes_total:
  assumes "inputs_readable C" "complete s" "set needs \<subseteq> set (map fst BOUNDS)" "a \<in> set (rc_candidates C)"
    "ob \<in> set (rc_observations C)"
  shows "\<exists>rs. approach_routes C s needs ob endpoint target branches a = Inr rs"
proof -
  obtain t where t: "recovery_target a = Inr t" using target_total [OF assms(1,4)] ..
  obtain b where b: "policy_bounded_approach a ob = Inr b" using approach_total [OF assms(1,4,5)] ..
  have "\<exists>ns. filterE (\<lambda>need. success_branch_corrects_need (rc_drift_enabled C) need s branches) needs = Inr ns"
    by (rule filterE_total) (simp add: needs_read [OF assms(2,3)] success_branch_corrects_need_def)
  then show ?thesis using t b by (cases b) (auto simp: approach_routes_def)
qed

lemma may_routes_total:
  assumes "inputs_readable C" "complete s" "set needs \<subseteq> set (map fst BOUNDS)" "c \<in> set (rc_candidates C)"
    "observation_by_kind (rc_observations C) = Inr k"
  shows "\<exists>rs. may_routes C s needs k c = Inr rs"
proof -
  obtain t where t: "recovery_target c = Inr t" using target_total [OF assms(1,4)] ..
  have "\<exists>rows. mapE (approach_routes C s needs ob c u (verified_outcome_effect_branches (cd_capability c))) (rc_candidates C) = Inr rows"
    if "map_of k u = Some ob" for u ob
    using by_kind_observed [OF assms(5) that] approach_routes_total [OF assms(1,2,3)] by (intro mapE_total) blast
  then show ?thesis using t by (fastforce simp: may_routes_def split: option.splits)
qed

lemma enumerate_total:
  assumes "inputs_readable C" "complete s"
  shows "\<exists>rs. enumerate_regulatory_recovery_routes C s needs = Inr rs"
proof -
  let ?needs = "filter (\<lambda>n. n \<in> set needs) (map fst BOUNDS)"
  have sub: "set ?needs \<subseteq> set (map fst BOUNDS)" by auto
  obtain k where k: "observation_by_kind (rc_observations C) = Inr k"
    using assms(1) not_isl_Inr by (auto simp: inputs_readable_def)
  have "\<exists>d. mapE (direct_routes C s ?needs) (rc_candidates C) = Inr d"
    by (rule mapE_total) (rule direct_routes_total [OF assms sub])
  then obtain d where d: "mapE (direct_routes C s ?needs) (rc_candidates C) = Inr d" ..
  have "\<exists>m. mapE (may_routes C s ?needs k)
      (filter (\<lambda>c. cd_capability c \<in> RECOVERY_TERMINAL_CAPABILITIES) (rc_candidates C)) = Inr m"
    by (rule mapE_total) (rule may_routes_total [OF assms sub _ k], simp)
  then obtain m where m: "mapE (may_routes C s ?needs k)
      (filter (\<lambda>c. cd_capability c \<in> RECOVERY_TERMINAL_CAPABILITIES) (rc_candidates C)) = Inr m" ..
  show ?thesis using k d m by (simp add: enumerate_regulatory_recovery_routes_def Let_def)
qed

subsection \<open>The search ends\<close>

text \<open>
  Every state being visited is explored, and an explored state is being visited or remembered. So a recursive call explores a new
  state, and the depth of the recursion is bounded by the number of states that may be explored.
\<close>

definition search_ok :: "int \<Rightarrow> search \<Rightarrow> bool" where
  "search_ok m st \<longleftrightarrow> distinct (sr_visiting st) \<and> set (sr_visiting st) \<subseteq> set (sr_explored st) \<and>
     int (length (sr_explored st)) \<le> m \<and>
     (\<forall>k \<in> set (sr_explored st). k \<in> set (sr_visiting st) \<or> map_of (sr_memo st) k \<noteq> None)"

definition ends_with :: "(flt dict \<Rightarrow> search \<Rightarrow> (bool \<times> search) res) \<Rightarrow> int \<Rightarrow> flt list list \<Rightarrow> bool" where
  "ends_with f m v \<longleftrightarrow> (\<forall>s st. complete s \<longrightarrow> search_ok m st \<longrightarrow> sr_visiting st = v \<longrightarrow>
     (\<exists>b st'. f s st = Inr (b, st') \<and> search_ok m st' \<and> sr_visiting st' = v))"

lemma ends_withD: "ends_with f m v \<Longrightarrow> complete s \<Longrightarrow> search_ok m st \<Longrightarrow> sr_visiting st = v \<Longrightarrow>
    \<exists>b st'. f s st = Inr (b, st') \<and> search_ok m st' \<and> sr_visiting st' = v"
  unfolding ends_with_def by blast

lemma all_reach_ends:
  assumes "ends_with f m v"
  shows "\<forall>s \<in> set ss. complete s \<Longrightarrow> search_ok m st \<Longrightarrow> sr_visiting st = v \<Longrightarrow>
    \<exists>b st'. all_reach f ss st = Inr (b, st') \<and> search_ok m st' \<and> sr_visiting st' = v"
proof (induction ss arbitrary: st)
  case (Cons s ss)
  then obtain b st' where f: "f s st = Inr (b, st')" "search_ok m st'" "sr_visiting st' = v"
    using assms unfolding ends_with_def by (metis list.set_intros(1))
  show ?case using Cons.IH [OF _ f(2,3)] Cons.prems(1) f by (cases b) auto
qed (simp add: some_bool)

lemma some_candidate_ends:
  assumes "ends_with f m v" "complete s"
  shows "search_ok m st \<Longrightarrow> sr_visiting st = v \<Longrightarrow>
    \<exists>b st'. some_candidate f C s cs st = Inr (b, st') \<and> search_ok m st' \<and> sr_visiting st' = v"
proof (induction cs arbitrary: st)
  case (Cons c cs)
  show ?case
  proof (cases "rc_branches_for C c = []")
    case True
    then show ?thesis using Cons by simp
  next
    case False
    obtain ss where ss: "mapE (project_step (rc_drift_enabled C) s) (rc_branches_for C c) = Inr ss"
      using mapE_total [of "rc_branches_for C c" "project_step (rc_drift_enabled C) s"] project_complete [OF assms(2)] by blast
    have "\<forall>t \<in> set ss. complete t"
      using mapE_mem [OF ss] project_complete [OF assms(2)] by (metis sum.inject(2))
    then obtain b st' where r: "all_reach f ss st = Inr (b, st')" "search_ok m st'" "sr_visiting st' = v"
      using all_reach_ends [OF assms(1) _ Cons.prems] by blast
    then show ?thesis using Cons.IH [OF r(2,3)] ss False by (cases b) auto
  qed
qed (simp add: some_bool)

lemma visiting_bound:
  assumes "search_ok m st"
  shows "int (length (sr_visiting st)) \<le> m"
proof -
  have "distinct (sr_visiting st)" using assms unfolding search_ok_def by blast
  then have "length (sr_visiting st) = card (set (sr_visiting st))" by (rule List.distinct_card [symmetric])
  also have "\<dots> \<le> card (set (sr_explored st))" using assms by (intro card_mono) (simp_all add: search_ok_def)
  also have "\<dots> \<le> length (sr_explored st)" by (rule card_length)
  finally show ?thesis using assms by (simp add: search_ok_def)
qed

lemma reaches_ends:
  assumes "inputs_readable C" "0 \<le> m"
  shows "nat m < n + length v \<Longrightarrow> ends_with (reaches_viability C m n) m v"
proof (induction n arbitrary: v)
  case 0
  have "\<not> (search_ok m st \<and> sr_visiting st = v)" for st
    using visiting_bound [of m st] 0 by auto
  then show ?case by (auto simp: ends_with_def)
next
  case (Suc n)
  have "\<exists>b st'. reaches_viability C m (Suc n) s st = Inr (b, st') \<and> search_ok m st' \<and> sr_visiting st' = v"
    if s: "complete s" and st: "search_ok m st" "sr_visiting st = v" for s st
  proof -
    obtain needs where needs: "active_recovery_needs_for s = Inr needs" using needs_total [OF s] ..
    obtain key where key: "state_key s = Inr key" using state_key_total [OF s] ..
    obtain routes where routes: "enumerate_regulatory_recovery_routes C s needs = Inr routes"
      using enumerate_total [OF assms(1) s] by blast
    consider (home) "needs = []" | (known) b where "needs \<noteq> []" "map_of (sr_memo st) key = Some b"
      | (again) "needs \<noteq> []" "map_of (sr_memo st) key = None" "key \<in> set v"
      | (full) "needs \<noteq> []" "map_of (sr_memo st) key = None" "key \<notin> set v" "m \<le> int (length (sr_explored st))"
      | (new) "needs \<noteq> []" "map_of (sr_memo st) key = None" "key \<notin> set v" "int (length (sr_explored st)) < m"
      by (cases "map_of (sr_memo st) key"; cases "key \<in> set v"; cases "m \<le> int (length (sr_explored st))") auto
    then show ?thesis
    proof cases
      case new
      have fresh: "key \<notin> set (sr_explored st)" using st new by (auto simp: search_ok_def)
      let ?st1 = "st\<lparr>sr_explored := key # sr_explored st, sr_visiting := key # sr_visiting st\<rparr>"
      have ok1: "search_ok m ?st1" using st new by (auto simp: search_ok_def)
      have v1: "sr_visiting ?st1 = key # v" using st(2) by simp
      have "ends_with (reaches_viability C m n) m (key # v)" by (rule Suc.IH) (use Suc.prems in simp)
      then obtain b st2 where r: "some_candidate (reaches_viability C m n) C s (robust_candidates routes) ?st1 = Inr (b, st2)"
          "search_ok m st2" "sr_visiting st2 = key # v"
        using some_candidate_ends [OF _ s ok1 v1] by blast
      have "search_ok m (remember key b st2)" using r(2,3) by (auto simp: search_ok_def remember_def update_conv)
      moreover have "sr_visiting (remember key b st2) = v" using r(3) by (simp add: remember_def)
      moreover have "reaches_viability C m (Suc n) s st = Inr (b, remember key b st2)"
        using needs key routes new fresh st(2) r(1) by (simp add: reach_step_def)
      ultimately show ?thesis by blast
    next
      case full
      have fresh: "key \<notin> set (sr_explored st)" using st full by (auto simp: search_ok_def)
      then show ?thesis using needs key full st by (auto simp: reach_step_def search_ok_def)
    qed (use needs key st in \<open>simp_all add: reach_step_def some_bool\<close>)
  qed
  then show ?case unfolding ends_with_def by blast
qed

text \<open>C37: with a physiology of the four variables and readable inputs the bounded search always returns one of its two answers,
  however many states it may explore; and when it answers that a direct path is proven, a strategy of lawful candidates leads
  from the given state back into the bands whatever their outcomes, states being identified when their variables agree to
  twelve decimals.\<close>

theorem direct_path_search_is_sound:
  assumes "inputs_readable C" and "complete physiology" and "1 \<le> limit"
  shows "\<exists>answer. direct_regulatory_recovery_path_status C physiology limit = Inr answer \<and>
    answer \<in> {PROVEN_DIRECT_RECOVERY_PATH, DIRECT_RECOVERY_PATH_NOT_PROVEN} \<and>
    (answer = PROVEN_DIRECT_RECOVERY_PATH \<longrightarrow>
      (\<exists>u. (physiology = u \<or> state_key physiology = state_key u) \<and> proven_path C u))"
proof -
  let ?st = "\<lparr>sr_explored = [], sr_visiting = [], sr_memo = [], sr_exhausted = False\<rparr>"
  have ends: "ends_with (reaches_viability C limit (nat limit + 1)) limit []"
    by (rule reaches_ends [OF assms(1)]) (use assms(3) in simp_all)
  have ok: "search_ok limit ?st" "sr_visiting ?st = []" using assms(3) by (simp_all add: search_ok_def)
  obtain b st' where r: "reaches_viability C limit (nat limit + 1) physiology ?st = Inr (b, st')"
    using ends_withD [OF ends assms(2) ok] by blast
  have "b \<longrightarrow> proven_upto C physiology"
    using keeps_memoD [OF reaches_sound r] by (simp add: memo_ok_def)
  then show ?thesis
    using r assms(3)
    by (auto simp: direct_regulatory_recovery_path_status_def PROVEN_DIRECT_RECOVERY_PATH_def
        DIRECT_RECOVERY_PATH_NOT_PROVEN_def proven_upto_def simp del: reaches_viability.simps)
qed

section \<open>A charging organism\<close>

definition charge_candidate :: "string \<Rightarrow> string \<Rightarrow> candidate" where
  "charge_candidate capability target =
     \<lparr>cd_capability = capability, cd_params = [(''toward'', VStr target)], cd_scores = [], cd_total = Fin 0\<rparr>"

text \<open>One candidate that always charges.\<close>

definition charging :: recovery_context where
  "charging = \<lparr>rc_candidates = [charge_candidate ''CHARGE'' ''resource''], rc_observations = [[(''kind'', VStr ''resource'')]],
     rc_branches_for = (\<lambda>c. [[(''energy'', Fin (1 / 8))]]), rc_executability_for = (\<lambda>c. EXECUTABLE),
     rc_drift_enabled = False\<rparr>"

definition at_energy :: "flt \<Rightarrow> flt dict" where
  "at_energy x = [(''energy'', x), (''fatigue'', Fin (1 / 4)), (''integrity'', Fin (3 / 4)), (''stimulation'', Fin (1 / 2))]"

abbreviation drained :: "flt dict" where
  "drained \<equiv> at_energy (Fin (3 / 16))"

definition charge_route :: recovery_route where
  "charge_route = \<lparr>rr_need = ''energy'', rr_status = ROBUST_NOW, rr_candidate = charge_candidate ''CHARGE'' ''resource'',
     rr_endpoint_capability = ''CHARGE'', rr_target_kind = Some ''resource'', rr_source = ''current_authority_preflight'',
     rr_projected = Some (at_energy (Fin (5 / 16))), rr_blocked_by = None\<rparr>"

lemma charging_fields:
  "rc_candidates charging = [charge_candidate ''CHARGE'' ''resource'']" "rc_drift_enabled charging = False"
  "rc_branches_for charging c = [[(''energy'', Fin (1 / 8))]]" "rc_executability_for charging c = EXECUTABLE"
  "cd_capability (charge_candidate k t) = k"
  by (simp_all add: charging_def charge_candidate_def)

lemma charging_readable: "inputs_readable charging"
  by code_simp

lemma drained_complete: "complete drained"
  by code_simp

lemma drained_needs: "active_recovery_needs_for drained = Inr [''energy'']"
  by code_simp

lemma charged_needs: "active_recovery_needs_for (at_energy (Fin (5 / 16))) = Inr []"
  by code_simp

lemma drained_charges: "project_step False drained [(''energy'', Fin (1 / 8))] = Inr (at_energy (Fin (5 / 16)))"
  by code_simp

lemma empty_charges: "project_step False (at_energy (Fin (1 / 16))) [(''energy'', Fin (1 / 8))] = Inr drained"
  by code_simp

lemma drained_direct: "direct_routes charging drained [''energy''] (charge_candidate ''CHARGE'' ''resource'') = Inr [charge_route]"
  by code_simp

lemma charging_observed: "observation_by_kind (rc_observations charging) = Inr [(''resource'', [(''kind'', VStr ''resource'')])]"
  by code_simp

lemma energy_only: "filter (\<lambda>n. n \<in> set [''energy'']) (map fst BOUNDS) = [''energy'']"
  by code_simp

lemma drained_routes: "enumerate_regulatory_recovery_routes charging drained [''energy''] = Inr [charge_route]"
  unfolding enumerate_regulatory_recovery_routes_def Let_def charging_observed energy_only
  by (simp add: drained_direct may_routes_def charging_fields first_by_def RECOVERY_TERMINAL_CAPABILITIES_def)

lemma charge_robust: "robust_candidates [charge_route] = [charge_candidate ''CHARGE'' ''resource'']"
  by (simp add: robust_candidates_def candidates_of_def first_by_def charge_route_def)

lemma charge_route_fields: "rr_need charge_route = ''energy''" "rr_status charge_route = ROBUST_NOW"
  by (simp_all add: charge_route_def)

lemma drained_recovers:
  "direct_regulatory_recovery_path_status charging drained 2 = Inr PROVEN_DIRECT_RECOVERY_PATH"
proof -
  obtain key where "state_key drained = Inr key" using state_key_total [OF drained_complete] ..
  then show ?thesis
    by (simp add: direct_regulatory_recovery_path_status_def numeral_2_eq_2 reach_step_def drained_needs drained_routes
        charge_robust charging_fields drained_charges charged_needs)
qed

lemma empty_reserve:
  "preserves_robust_recovery_reserve charging (charge_candidate ''CHARGE'' ''resource'') (at_energy (Fin (1 / 16))) 2 = Inr True"
  by (auto simp: preserves_robust_recovery_reserve_def numeral_2_eq_2 state_has_continuation_def drained_needs drained_routes
      charge_robust charging_fields drained_charges charged_needs empty_charges charge_route_fields)

theorem direct_path_search_is_sound_witness:
  "\<exists>u. (drained = u \<or> state_key drained = state_key u) \<and> proven_path charging u"
  using direct_path_search_is_sound [OF charging_readable drained_complete, of 2] drained_recovers by auto

theorem reserve_is_a_strategy_witness:
  "\<exists>t. project_verified_transition (at_energy (Fin (1 / 16))) [(''energy'', Fin (1 / 8))] False (Fin 1) = Inr t \<and>
     continues charging 1 t"
  using reserve_is_a_strategy [OF empty_reserve, of 1] by (simp add: charging_fields)

text \<open>The two readings of the active needs, of the owner and of a projected state, agree.\<close>

lemma active_needs_mirror: "active_recovery_needs_for (phys_as_dict p) = Inr (active_recovery_needs p)"
  by (simp add: active_recovery_needs_for_def active_recovery_needs_def BOUNDS_def ditem_def phys_as_dict_def phys_get_def
      dget_def needs_action_def)

end
