(* ===== verification/Intervals.thy ===== *)
theory Intervals
  imports Physiology
begin

text \<open>
  \<open>hypothetical/core.py\<close>, first part: the evidence envelope, a finite interval of floats with the kind of support it rests on
  and bounded references to where it comes from. \<open>math.nextafter\<close> moves every computed end one float outwards, which is
  what makes the arithmetic conservative: a sum or a product of values inside the operands, taken exactly or rounded by the
  machine, lies inside the result. \<open>SupportInterval\<close> of \<open>self_model/engine.py\<close> is the observed interval envelopes are made from.
\<close>

section \<open>The neighbouring floats\<close>

text \<open>\<open>math.nextafter(x, math.inf)\<close> and \<open>math.nextafter(x, -math.inf)\<close>.\<close>

definition step_below :: "rat \<Rightarrow> rat" where
  "step_below p = (if p = pow2 (ilog2 p) \<and> - 1022 < ilog2 p then pow2 (quantum p - 1) else pow2 (quantum p))"

fun next_up :: "flt \<Rightarrow> flt" where
  "next_up (Fin q) = flt_of (if q = 0 then pow2 (- 1074) else if 0 < q then q + pow2 (quantum q) else q + step_below (- q))"
| "next_up NInf = Fin (pow2 971 - pow2 1024)"
| "next_up x = x"

definition next_down :: "flt \<Rightarrow> flt" where
  "next_down x = flt_neg (next_up (flt_neg x))"

lemma rnd_multiple:
  assumes "0 < x" and "x = of_int k * pow2 q" and "quantum x \<le> q"
  shows "rnd x = x"
proof -
  have "x = of_int (k * 2 ^ nat (q - quantum x)) * pow2 (quantum x)"
    by (subst assms(2), subst pow2_multiple [OF assms(3)]) simp
  then have "rnd_pos x = x" by (rule rnd_pos_fixed)
  then show ?thesis using assms(1) by (simp add: rnd_def)
qed

lemma double_multiple:
  assumes "0 < q" and "rnd q = q"
  obtains k where "0 < k" "q = of_int k * pow2 (quantum q)"
proof -
  have "q = of_int (half_even (q / pow2 (quantum q))) * pow2 (quantum q)"
    using assms by (simp add: rnd_def rnd_pos_def)
  then show ?thesis using that assms(1) by (metis of_int_0_less_iff pow2_pos zero_less_mult_pos2)
qed

text \<open>Above a positive double lies, at a distance of its quantum, a double.\<close>

lemma rnd_above:
  assumes "0 < q" and "rnd q = q"
  shows "rnd (q + pow2 (quantum q)) = q + pow2 (quantum q)"
proof -
  let ?s = "quantum q" and ?e = "ilog2 q"
  let ?u = "q + pow2 ?s"
  obtain k where k: "0 < k" "q = of_int k * pow2 ?s" using double_multiple [OF assms] .
  have u: "?u = of_int (k + 1) * pow2 ?s" by (subst (1) k(2)) (simp add: algebra_simps)
  have b: "pow2 ?e \<le> q" "q < pow2 (?e + 1)" using ilog2_bounds [OF assms(1)] by auto
  have pos: "0 < ?u" using assms(1) by (simp add: add_pos_pos)
  show ?thesis
  proof (cases "?u < pow2 (?e + 1)")
    case True
    then have "pow2 (ilog2 ?u) < pow2 (?e + 1)" using ilog2_bounds(1) [OF pos] by linarith
    then have "quantum ?u \<le> ?s" by (auto simp: quantum_def pow2_less_iff)
    then show ?thesis using rnd_multiple [OF pos u] by blast
  next
    case False
    have "?s \<le> ?e + 1 \<or> ?e + 1 < ?s" by linarith
    then show ?thesis
    proof
      assume le: "?s \<le> ?e + 1"
      then have "pow2 (?e + 1) = of_int (2 ^ nat (?e + 1 - ?s)) * pow2 ?s" using pow2_multiple by simp
      then have "of_int k < (of_int (2 ^ nat (?e + 1 - ?s)) :: rat)" "of_int (k + 1) \<ge> (of_int (2 ^ nat (?e + 1 - ?s)) :: rat)"
        using b(2) k(2) False u by (metis mult_less_cancel_right_pos pow2_pos, metis mult_le_cancel_right_pos not_less pow2_pos)
      then have "k + 1 = 2 ^ nat (?e + 1 - ?s)" by linarith
      then have eq: "?u = pow2 (?e + 1)" using u \<open>pow2 (?e + 1) = _\<close> by simp
      show ?thesis
      proof (cases "- 1022 \<le> ?e + 1")
        case True then show ?thesis using eq rnd_pow2 by simp
      next
        case False
        then have "ilog2 ?u = ?e + 1" "?s = - 1074" unfolding eq by (simp_all only: ilog2_pow2) (simp add: quantum_def)
        then have "quantum ?u \<le> ?s" using False by (simp add: quantum_def)
        then show ?thesis using rnd_multiple [OF pos u] by blast
      qed
    next
      assume "?e + 1 < ?s"
      then have "q < pow2 ?s" using b(2) pow2_mono [of "?e + 1" ?s] by linarith
      then show ?thesis using k by (metis (no_types) int_one_le_iff_zero_less linorder_not_less mult_le_cancel_right_pos mult_1 of_int_1_le_iff pow2_pos)
    qed
  qed
qed

text \<open>Below it, at the distance \<open>step_below\<close>, lies one as well, or zero.\<close>

lemma rnd_below:
  assumes "0 < p" and "rnd p = p"
  shows "rnd (p - step_below p) = p - step_below p"
proof -
  let ?s = "quantum p" and ?e = "ilog2 p"
  obtain k where k: "0 < k" "p = of_int k * pow2 ?s" using double_multiple [OF assms] .
  have b: "pow2 ?e \<le> p" "p < pow2 (?e + 1)" using ilog2_bounds [OF assms(1)] by auto
  show ?thesis
  proof (cases "p = pow2 ?e \<and> - 1022 < ?e")
    case True
    then have s: "?s = ?e - 52" by (simp add: quantum_def)
    have p: "p = of_int (2 ^ 53) * pow2 (?s - 1)" using True pow2_multiple [of "?s - 1" ?e] s by simp
    then have u: "p - step_below p = of_int (2 ^ 53 - 1) * pow2 (?s - 1)"
      using True by (simp add: step_below_def algebra_simps)
    then have pos: "0 < p - step_below p" by simp
    have "p - step_below p < p" using True by (simp add: step_below_def)
    then have "pow2 (ilog2 (p - step_below p)) < pow2 ?e" using ilog2_bounds(1) [OF pos] True by linarith
    then have "ilog2 (p - step_below p) < ?e" by (simp only: pow2_less_iff)
    then have "quantum (p - step_below p) \<le> ?s - 1" using True by (auto simp: quantum_def)
    then show ?thesis using rnd_multiple [OF pos u] by blast
  next
    case False
    then have step: "step_below p = pow2 ?s" unfolding step_below_def by (rule if_not_P)
    have u: "p - step_below p = of_int (k - 1) * pow2 ?s"
      unfolding step by (subst (1) k(2)) (simp add: algebra_simps)
    show ?thesis
    proof (cases "k = 1")
      case True then show ?thesis using u by simp
    next
      case ne: False
      then have pos: "0 < p - step_below p" unfolding u using k(1) by simp
      have "p - step_below p \<le> p" by (simp add: step)
      then have "ilog2 (p - step_below p) \<le> ?e" using ilog2_mono pos by blast
      then have "quantum (p - step_below p) \<le> ?s" by (simp add: quantum_def)
      then show ?thesis using rnd_multiple [OF pos u] by blast
    qed
  qed
qed

text \<open>What a computed end leaves inside: a value below the exact result stays below the float above the rounded one.\<close>

lemma next_up_gt:
  assumes "rnd q = q" and "next_up (Fin q) = Fin u"
  shows "q < u" and "rnd u = u"
proof -
  let ?t = "if q = 0 then pow2 (- 1074) else if 0 < q then q + pow2 (quantum q) else q + step_below (- q)"
  have "rnd ?t = ?t \<and> q < ?t"
  proof (cases q "0::rat" rule: linorder_cases)
    case less
    then have "rnd (- q - step_below (- q)) = - q - step_below (- q)" using assms(1) rnd_below [of "- q"] by (simp add: rnd_minus)
    then have "rnd (- (- q - step_below (- q))) = - (- q - step_below (- q))" by (simp only: rnd_minus)
    then show ?thesis using less by (simp add: add.commute) (simp add: step_below_def)
  next
    case equal
    have "rnd (pow2 (- 1074)) = pow2 (- 1074)"
      using rnd_multiple [of "pow2 (- 1074)" 1 "- 1074"] by (simp add: quantum_def ilog2_pow2)
    then show ?thesis using equal by simp
  next
    case greater
    then show ?thesis using rnd_above [OF greater assms(1)] by simp
  qed
  moreover have "u = rnd ?t" using assms(2) by (auto simp: flt_of_def Let_def split: if_splits)
  ultimately show "q < u" "rnd u = u" by simp_all
qed

lemma above_rounded: "flt_of x = Fin r \<Longrightarrow> next_up (Fin r) = Fin u \<Longrightarrow> x \<le> u"
proof -
  assume r: "flt_of x = Fin r" and u: "next_up (Fin r) = Fin u"
  then have eq: "r = rnd x" by (auto simp: flt_of_def Let_def split: if_splits)
  have gt: "r < u" "rnd u = u" using next_up_gt [OF _ u] eq by auto
  show "x \<le> u"
  proof (rule ccontr)
    assume "\<not> x \<le> u"
    then have "rnd u \<le> rnd x" by (intro rnd_mono) simp
    then show False using gt eq by simp
  qed
qed

lemma flt_of_minus: "flt_of (- x) = flt_neg (flt_of x)"
  using pow2_pos [of 1024] by (auto simp: flt_of_def Let_def rnd_minus simp del: pow2_pos)

lemma below_rounded: "flt_of x = Fin r \<Longrightarrow> next_down (Fin r) = Fin d \<Longrightarrow> d \<le> x"
proof -
  assume r: "flt_of x = Fin r" and d: "next_down (Fin r) = Fin d"
  from r have "flt_of (- x) = Fin (- r)" by (simp add: flt_of_minus)
  moreover from d have "next_up (Fin (- r)) = Fin (- d)"
    by (cases "next_up (Fin (- r))") (auto simp: next_down_def simp del: next_up.simps)
  ultimately show "d \<le> x" using above_rounded by fastforce
qed

text \<open>How far out a computed end is moved: at most \<open>2 ^ -52\<close> of a value in the normal range.\<close>

lemma quantum_small:
  assumes "pow2 (- 1022) \<le> p"
  shows "pow2 (quantum p) \<le> p * pow2 (- 52)"
proof -
  have p: "0 < p" using assms pow2_pos [of "- 1022"] by linarith
  have "pow2 (- 1022) < pow2 (ilog2 p + 1)" using assms ilog2_bounds(2) [OF p] by linarith
  then have "- 1022 \<le> ilog2 p" by (simp add: pow2_less_iff)
  then have "pow2 (quantum p) = pow2 (ilog2 p) * pow2 (- 52)" by (simp add: quantum_def flip: pow2_add)
  then show ?thesis using ilog2_bounds(1) [OF p] by simp
qed

lemma flt_of_unit: "rnd y = y \<Longrightarrow> \<bar>y\<bar> \<le> 4 \<Longrightarrow> flt_of y = Fin y"
  using pow2_1024_big [of 8] by (auto simp: flt_of_def Let_def)

lemma next_up_near:
  assumes "rnd q = q" and "pow2 (- 1022) \<le> \<bar>q\<bar>" and "\<bar>q\<bar> \<le> 2"
  shows "\<exists>u. next_up (Fin q) = Fin u \<and> q \<le> u \<and> u \<le> q + \<bar>q\<bar> * pow2 (- 52)"
proof -
  have small: "pow2 (quantum \<bar>q\<bar>) \<le> \<bar>q\<bar> * pow2 (- 52)" using quantum_small [OF assms(2)] .
  have "pow2 (- 52) \<le> 1" using pow2_mono [of "- 52" 0] by simp
  then have "\<bar>q\<bar> * pow2 (- 52) \<le> 2" using assms(3) mult_mono [of "\<bar>q\<bar>" 2 "pow2 (- 52)" 1] by simp
  then have le: "pow2 (quantum \<bar>q\<bar>) \<le> 2" using small by linarith
  show ?thesis
  proof (cases q "0::rat" rule: linorder_cases)
    case less
    let ?t = "q + step_below (- q)"
    have step: "0 < step_below (- q)" "step_below (- q) \<le> pow2 (quantum (- q))"
      using pow2_mono [of "quantum (- q) - 1" "quantum (- q)"] by (simp_all add: step_below_def)
    have "rnd (- q - step_below (- q)) = - q - step_below (- q)" using rnd_below [of "- q"] less assms(1) by (simp add: rnd_minus)
    then have "rnd (- (- q - step_below (- q))) = - (- q - step_below (- q))" by (simp only: rnd_minus)
    then have "rnd ?t = ?t" by (simp add: add.commute)
    then have "flt_of ?t = Fin ?t" using step le less assms(3) by (intro flt_of_unit) auto
    then show ?thesis using less step small by auto
  next
    case equal
    then show ?thesis using assms(2) pow2_pos [of "- 1022"] by auto
  next
    case greater
    have "flt_of (q + pow2 (quantum q)) = Fin (q + pow2 (quantum q))"
      using rnd_above [OF greater assms(1)] le greater assms(3) by (intro flt_of_unit) auto
    then show ?thesis using greater small by auto
  qed
qed

lemma next_down_near:
  assumes "rnd q = q" and "pow2 (- 1022) \<le> \<bar>q\<bar>" and "\<bar>q\<bar> \<le> 2"
  shows "\<exists>d. next_down (Fin q) = Fin d \<and> q - \<bar>q\<bar> * pow2 (- 52) \<le> d \<and> d \<le> q"
proof -
  obtain u where "next_up (Fin (- q)) = Fin u" "- q \<le> u" "u \<le> - q + \<bar>q\<bar> * pow2 (- 52)"
    using next_up_near [of "- q"] assms by (auto simp: rnd_minus)
  then show ?thesis by (intro exI [of _ "- u"]) (simp add: next_down_def del: next_up.simps)
qed

lemma is_finite_iff: "is_finite x \<longleftrightarrow> (\<exists>q. x = Fin q)"
  by (cases x) auto

section \<open>Kinds of support\<close>

text \<open>\<open>SupportSemantics\<close>: the members are strings.\<close>

definition HARD_CONTRACT :: string where "HARD_CONTRACT = ''HARD_CONTRACT''"
definition VERIFIED_OBSERVED_SUPPORT :: string where "VERIFIED_OBSERVED_SUPPORT = ''VERIFIED_OBSERVED_SUPPORT''"
definition PROBABILISTIC_SUPPORT :: string where "PROBABILISTIC_SUPPORT = ''PROBABILISTIC_SUPPORT''"
definition UNKNOWN_SUPPORT :: string where "UNKNOWN_SUPPORT = ''UNKNOWN''"
definition NOT_APPLICABLE_SUPPORT :: string where "NOT_APPLICABLE_SUPPORT = ''NOT_APPLICABLE''"

definition SUPPORTED_SEMANTICS :: "string list" where
  "SUPPORTED_SEMANTICS = [HARD_CONTRACT, VERIFIED_OBSERVED_SUPPORT]"

definition SEMANTIC_STRENGTH :: "nat dict" where
  "SEMANTIC_STRENGTH = [(HARD_CONTRACT, 0), (VERIFIED_OBSERVED_SUPPORT, 1), (PROBABILISTIC_SUPPORT, 2), (UNKNOWN_SUPPORT, 3)]"

definition BRANCH_CEILING :: nat where "BRANCH_CEILING = 32"
definition MAX_EVIDENCE_REFS :: nat where "MAX_EVIDENCE_REFS = 16"
definition MAX_REASON_LENGTH :: nat where "MAX_REASON_LENGTH = 96"

definition bounded_refs :: "string list \<Rightarrow> string list" where
  "bounded_refs refs = take MAX_EVIDENCE_REFS (sort (remdups (map (take MAX_REASON_LENGTH) refs)))"

definition normalized_semantics :: "string \<Rightarrow> string" where
  "normalized_semantics s =
     (if s \<in> set (dkeys SEMANTIC_STRENGTH) \<or> s = NOT_APPLICABLE_SUPPORT then s else UNKNOWN_SUPPORT)"

definition semantic_strength :: "string \<Rightarrow> nat" where
  "semantic_strength s = dget 0 (normalized_semantics s) SEMANTIC_STRENGTH"

text \<open>\<open>max\<close> with a key: the first of the greatest.\<close>

definition weakest_semantics :: "string list \<Rightarrow> string" where
  "weakest_semantics values =
     (case filter (\<lambda>v. v \<noteq> NOT_APPLICABLE_SUPPORT) values of
        [] \<Rightarrow> NOT_APPLICABLE_SUPPORT
      | v # vs \<Rightarrow> foldl (\<lambda>best x. if semantic_strength best < semantic_strength x then x else best) v vs)"

section \<open>Envelopes\<close>

record envelope =
  en_minimum :: "flt option"
  en_maximum :: "flt option"
  en_semantics :: string
  en_provenance :: "string list"

definition make_envelope :: "flt option \<Rightarrow> flt option \<Rightarrow> string \<Rightarrow> string list \<Rightarrow> envelope" where
  "make_envelope minimum maximum semantics provenance =
     (case (minimum, maximum) of
        (Some lo, Some hi) \<Rightarrow>
          if \<not> is_finite lo \<or> \<not> is_finite hi \<or> flt_lt hi lo
          then \<lparr>en_minimum = None, en_maximum = None, en_semantics = UNKNOWN_SUPPORT, en_provenance = bounded_refs provenance\<rparr>
          else \<lparr>en_minimum = Some lo, en_maximum = Some hi, en_semantics = normalized_semantics semantics,
            en_provenance = bounded_refs provenance\<rparr>
      | _ \<Rightarrow> \<lparr>en_minimum = None, en_maximum = None, en_semantics = UNKNOWN_SUPPORT, en_provenance = bounded_refs provenance\<rparr>)"

definition unknown_envelope :: "string list \<Rightarrow> envelope" where
  "unknown_envelope provenance = make_envelope None None UNKNOWN_SUPPORT provenance"

definition categorical_supported :: "envelope \<Rightarrow> bool" where
  "categorical_supported e \<longleftrightarrow> en_semantics e \<in> set SUPPORTED_SEMANTICS \<and> en_minimum e \<noteq> None \<and> en_maximum e \<noteq> None"

text \<open>The two ends, when both are there.\<close>

definition ends_of :: "envelope \<Rightarrow> (flt \<times> flt) option" where
  "ends_of e = (case (en_minimum e, en_maximum e) of (Some lo, Some hi) \<Rightarrow> Some (lo, hi) | _ \<Rightarrow> None)"

definition envelope_add :: "envelope \<Rightarrow> envelope \<Rightarrow> envelope" where
  "envelope_add a b =
     (case (ends_of a, ends_of b) of
        (Some (lo, hi), Some (lo', hi')) \<Rightarrow>
          make_envelope (Some (next_down (flt_add lo lo'))) (Some (next_up (flt_add hi hi')))
            (weakest_semantics [en_semantics a, en_semantics b]) (en_provenance a @ en_provenance b)
      | _ \<Rightarrow> unknown_envelope (en_provenance a @ en_provenance b))"

definition envelope_translate :: "envelope \<Rightarrow> flt \<Rightarrow> envelope" where
  "envelope_translate e offset = envelope_add e (make_envelope (Some offset) (Some offset) HARD_CONTRACT [])"

definition envelope_scale :: "envelope \<Rightarrow> flt \<Rightarrow> envelope" where
  "envelope_scale e scalar =
     (case ends_of e of
        None \<Rightarrow> unknown_envelope (en_provenance e)
      | Some (minimum, maximum) \<Rightarrow>
          if \<not> is_finite scalar then unknown_envelope (en_provenance e)
          else let lo = flt_mult minimum scalar; hi = flt_mult maximum scalar in
            make_envelope (Some (next_down (py_min lo hi))) (Some (next_up (py_max lo hi))) (en_semantics e) (en_provenance e))"

definition envelope_intersect :: "envelope \<Rightarrow> envelope \<Rightarrow> envelope" where
  "envelope_intersect a b =
     (case (ends_of a, ends_of b) of
        (Some (lo, hi), Some (lo', hi')) \<Rightarrow>
          let minimum = py_max lo lo'; maximum = py_min hi hi' in
          if flt_lt maximum minimum then unknown_envelope (en_provenance a @ en_provenance b)
          else make_envelope (Some minimum) (Some maximum) (weakest_semantics [en_semantics a, en_semantics b])
            (en_provenance a @ en_provenance b)
      | _ \<Rightarrow> unknown_envelope (en_provenance a @ en_provenance b))"

definition envelope_contains :: "envelope \<Rightarrow> flt \<Rightarrow> bool" where
  "envelope_contains e value = (case ends_of e of None \<Rightarrow> False | Some (lo, hi) \<Rightarrow> flt_le lo value \<and> flt_le value hi)"

definition envelope_to_canonical :: "envelope \<Rightarrow> pyv" where
  "envelope_to_canonical e = VDict [(''minimum'', v_opt VFlt (en_minimum e)), (''maximum'', v_opt VFlt (en_maximum e)),
     (''semantics'', VStr (en_semantics e)), (''provenance'', v_strs (en_provenance e))]"

section \<open>What an envelope says\<close>

text \<open>An envelope admits the values between its ends; an unknown one rules nothing out.\<close>

definition admits :: "envelope \<Rightarrow> rat \<Rightarrow> bool" where
  "admits e x \<longleftrightarrow> (case ends_of e of None \<Rightarrow> True | Some (lo, hi) \<Rightarrow> flt_le lo (Fin x) \<and> flt_le (Fin x) hi)"

definition has_ends :: "envelope \<Rightarrow> bool" where
  "has_ends e \<longleftrightarrow> (en_minimum e = None \<longleftrightarrow> en_maximum e = None) \<and>
     (case ends_of e of None \<Rightarrow> True | Some (lo, hi) \<Rightarrow> is_finite lo \<and> is_finite hi \<and> flt_le lo hi)"

lemma make_envelope_cases:
  obtains "ends_of (make_envelope mn mx s p) = None" "en_semantics (make_envelope mn mx s p) = UNKNOWN_SUPPORT"
  | lo hi where "mn = Some (Fin lo)" "mx = Some (Fin hi)" "lo \<le> hi" "ends_of (make_envelope mn mx s p) = Some (Fin lo, Fin hi)"
      "en_semantics (make_envelope mn mx s p) = normalized_semantics s"
proof (cases "\<exists>lo hi. mn = Some (Fin lo) \<and> mx = Some (Fin hi) \<and> lo \<le> hi")
  case True
  then show ?thesis using that(2) by (auto simp: make_envelope_def ends_of_def)
next
  case False
  then have "ends_of (make_envelope mn mx s p) = None \<and> en_semantics (make_envelope mn mx s p) = UNKNOWN_SUPPORT"
    by (auto simp: make_envelope_def ends_of_def is_finite_iff split: option.splits)
  then show ?thesis using that(1) by blast
qed

lemma has_ends_make [simp]: "has_ends (make_envelope mn mx s p)"
  by (auto simp: has_ends_def make_envelope_def ends_of_def flt_not_lt split: option.splits)
    (metis flt_not_lt is_finite.simps(4))+

lemma largest_double: "rnd (pow2 1024 - pow2 971) = pow2 1024 - pow2 971"
proof -
  have "step_below (pow2 1024) = pow2 971" by (simp add: step_below_def quantum_def ilog2_pow2)
  then show ?thesis using rnd_below [of "pow2 1024"] rnd_pow2 [of 1024] by simp
qed

lemma flt_neg_neg [simp]: "flt_neg (flt_neg x) = x"
  by (cases x) simp_all

lemma is_double_neg: "is_double (flt_neg x) = is_double x"
  by (cases x; simp add: flt_of_minus) (metis flt_neg.simps(1) flt_neg_neg)

lemma is_double_next_up: "is_double (next_up x)"
proof (cases x)
  case NInf
  have "pow2 971 < pow2 1024" by (simp only: pow2_less_iff)
  moreover have "rnd (pow2 971 - pow2 1024) = pow2 971 - pow2 1024"
    using largest_double rnd_minus [of "pow2 1024 - pow2 971"] by simp
  ultimately have "flt_of (pow2 971 - pow2 1024) = Fin (pow2 971 - pow2 1024)"
    using pow2_pos [of 971] pow2_pos [of 1024] unfolding flt_of_def Let_def by (simp del: pow2_pos)
  then show ?thesis using NInf by simp
qed simp_all

lemma is_double_next_down: "is_double (next_down x)"
  by (simp add: next_down_def is_double_neg is_double_next_up)

lemma is_double_mult: "is_double (flt_mult x y)"
  by (cases x; cases y) (simp_all add: inf_sign_def)

text \<open>The result of a machine operation on finite operands, moved outwards, bounds the exact result.\<close>

lemma outward:
  assumes "next_down (flt_of x) = Fin d" and "next_up (flt_of y) = Fin u" and "x \<le> y"
  shows "d \<le> x \<and> y \<le> u"
proof (cases "flt_of x")
  case (Fin r)
  then have x: "d \<le> x" using below_rounded assms(1) by metis
  show ?thesis
  proof (cases "flt_of y")
    case (Fin s)
    then show ?thesis using x above_rounded assms(2) by metis
  next
    case NInf
    then show ?thesis using Fin flt_of_mono [OF assms(3)] by (simp add: flt_le_def flt_eq_def)
  qed (use assms(2) in simp_all)
next
  case PInf
  then show ?thesis using assms(2) flt_of_mono [OF assms(3)] by (cases "flt_of y") (simp_all add: flt_le_def flt_eq_def)
qed (use assms(1) in \<open>simp_all add: next_down_def\<close>)

lemma ends_finite: "has_ends e \<Longrightarrow> ends_of e = None \<or> (\<exists>lo hi. ends_of e = Some (Fin lo, Fin hi) \<and> lo \<le> hi)"
  by (cases "ends_of e") (auto simp: has_ends_def is_finite_iff)

lemma admits_between: "ends_of e = Some (Fin lo, Fin hi) \<Longrightarrow> admits e x \<longleftrightarrow> lo \<le> x \<and> x \<le> hi"
  by (simp add: admits_def)

text \<open>The arithmetic is conservative.\<close>

lemma make_admits:
  "(\<And>lo hi. mn = Some (Fin lo) \<Longrightarrow> mx = Some (Fin hi) \<Longrightarrow> lo \<le> x \<and> x \<le> hi) \<Longrightarrow> admits (make_envelope mn mx s p) x"
  by (rule make_envelope_cases [of mn mx s p]) (auto simp: admits_def)

lemma unknown_admits [simp]: "admits (unknown_envelope p) x"
  unfolding unknown_envelope_def by (rule make_admits) simp

lemma admits_add:
  assumes "has_ends a" and "has_ends b" and "admits a x" and "admits b y"
  shows "admits (envelope_add a b) (x + y)"
proof (cases "ends_of a = None \<or> ends_of b = None")
  case True
  then show ?thesis by (auto simp: envelope_add_def split: option.splits)
next
  case False
  then obtain lo hi lo' hi' where e: "ends_of a = Some (Fin lo, Fin hi)" "ends_of b = Some (Fin lo', Fin hi')"
    using ends_finite [OF assms(1)] ends_finite [OF assms(2)] by auto
  with assms(3,4) have "lo + lo' \<le> x + y" "x + y \<le> hi + hi'" by (auto simp: admits_between)
  then show ?thesis
    by (auto simp: envelope_add_def e intro!: make_admits dest!: outward simp del: next_up.simps)
qed

lemma admits_scale:
  assumes "has_ends e" and "admits e x"
  shows "admits (envelope_scale e (Fin c)) (x * c)"
proof (cases "ends_of e")
  case (Some ab)
  then obtain lo hi where e: "ends_of e = Some (Fin lo, Fin hi)" using ends_finite [OF assms(1)] by auto
  with assms(2) have x: "lo \<le> x" "x \<le> hi" by (auto simp: admits_between)
  define a b where "a = min (lo * c) (hi * c)" and "b = max (lo * c) (hi * c)"
  have ab: "a \<le> x * c" "x * c \<le> b" "a \<le> b"
    using x by (cases "0 \<le> c"; simp add: a_def b_def mult_right_mono mult_right_mono_neg min_def max_def)+
  have "py_min (flt_of (lo * c)) (flt_of (hi * c)) = flt_of a" "py_max (flt_of (lo * c)) (flt_of (hi * c)) = flt_of b"
    using flt_of_mono [of "lo * c" "hi * c"] flt_of_mono [of "hi * c" "lo * c"] flt_le_antisym flt_not_lt [of "flt_of (hi * c)" "flt_of (lo * c)"]
      flt_not_lt [of "flt_of (lo * c)" "flt_of (hi * c)"]
    by (auto simp: py_min_def py_max_def a_def b_def min_def max_def)
  then show ?thesis
    using ab by (auto simp: envelope_scale_def e Let_def intro!: make_admits dest!: outward simp del: next_up.simps)
qed (simp add: envelope_scale_def)

lemma admits_intersect:
  assumes "has_ends a" and "has_ends b" and "admits a x" and "admits b x"
  shows "admits (envelope_intersect a b) x"
proof (cases "ends_of a = None \<or> ends_of b = None")
  case True
  then show ?thesis by (auto simp: envelope_intersect_def split: option.splits)
next
  case False
  then obtain lo hi lo' hi' where e: "ends_of a = Some (Fin lo, Fin hi)" "ends_of b = Some (Fin lo', Fin hi')"
    using ends_finite [OF assms(1)] ends_finite [OF assms(2)] by auto
  with assms(3,4) show ?thesis
    by (auto simp: envelope_intersect_def e Let_def admits_between py_max_def py_min_def intro!: make_admits split: if_splits)
qed

text \<open>With ends that are floats, an envelope admits what the machine makes of a value it admits.\<close>

definition sharp :: "envelope \<Rightarrow> bool" where
  "sharp e \<longleftrightarrow> has_ends e \<and> (case ends_of e of None \<Rightarrow> True | Some (lo, hi) \<Rightarrow> is_double lo \<and> is_double hi)"

lemma sharp_ends: "sharp e \<Longrightarrow> has_ends e"
  by (simp add: sharp_def)

lemma is_double_Fin: "is_double (Fin q) \<longleftrightarrow> rnd q = q \<and> \<not> pow2 1024 \<le> q \<and> \<not> q \<le> - pow2 1024"
  by (auto simp: flt_of_def Let_def)

lemma sharp_admits_rnd: "sharp e \<Longrightarrow> admits e x \<Longrightarrow> admits e (rnd x)"
  using ends_finite [of e] rnd_mono [of _ x] rnd_mono [of x]
  by (auto simp: sharp_def admits_between is_double_Fin admits_def [of e "rnd x"] simp del: is_double.simps) (metis rnd_mono)+

lemma sharp_make: "(\<And>x. mn = Some x \<Longrightarrow> is_double x) \<Longrightarrow> (\<And>x. mx = Some x \<Longrightarrow> is_double x) \<Longrightarrow> sharp (make_envelope mn mx s p)"
  by (rule make_envelope_cases [of mn mx s p]) (auto simp: sharp_def simp del: is_double.simps)

lemma sharp_unknown [simp]: "sharp (unknown_envelope p)"
  unfolding unknown_envelope_def by (rule sharp_make) simp_all

lemma sharp_add [simp]: "sharp (envelope_add a b)"
  by (auto simp: envelope_add_def is_double_next_up is_double_next_down intro!: sharp_make split: option.splits simp del: next_up.simps)

lemma sharp_scale [simp]: "sharp (envelope_scale e c)"
  by (auto simp: envelope_scale_def Let_def is_double_next_up is_double_next_down intro!: sharp_make split: option.splits simp del: next_up.simps)

text \<open>A sum has categorical support only if both terms have it, or one has it and the other is a value to which the kinds of
  support do not apply.\<close>

lemma weakest_pair:
  "weakest_semantics [a, b] \<in> set SUPPORTED_SEMANTICS \<Longrightarrow>
     (a \<in> set SUPPORTED_SEMANTICS \<or> a = NOT_APPLICABLE_SUPPORT) \<and> (b \<in> set SUPPORTED_SEMANTICS \<or> b = NOT_APPLICABLE_SUPPORT)"
  by (auto simp: weakest_semantics_def semantic_strength_def normalized_semantics_def SUPPORTED_SEMANTICS_def SEMANTIC_STRENGTH_def
      dkeys_def HARD_CONTRACT_def VERIFIED_OBSERVED_SUPPORT_def PROBABILISTIC_SUPPORT_def UNKNOWN_SUPPORT_def
      NOT_APPLICABLE_SUPPORT_def dget_def split: if_splits)

section \<open>Observed support\<close>

record support_interval =
  si_minimum :: "flt option"
  si_maximum :: "flt option"
  si_semantics :: string
  si_evidence_count :: int
  si_provenance :: "string list"

definition MAX_SUPPORT_PROVENANCE_REFS :: nat where "MAX_SUPPORT_PROVENANCE_REFS = 16"

definition new_interval :: support_interval where
  "new_interval = \<lparr>si_minimum = None, si_maximum = None, si_semantics = UNKNOWN_SUPPORT, si_evidence_count = 0, si_provenance = []\<rparr>"

definition interval_observe :: "flt \<Rightarrow> string \<Rightarrow> support_interval \<Rightarrow> support_interval" where
  "interval_observe value ref i =
     i\<lparr>si_minimum := Some (case si_minimum i of None \<Rightarrow> value | Some m \<Rightarrow> py_min m value),
       si_maximum := Some (case si_maximum i of None \<Rightarrow> value | Some m \<Rightarrow> py_max m value),
       si_semantics := VERIFIED_OBSERVED_SUPPORT,
       si_evidence_count := si_evidence_count i + 1,
       si_provenance := last_n MAX_SUPPORT_PROVENANCE_REFS (remove1 ref (si_provenance i) @ [ref])\<rparr>"

definition interval_to_dict :: "support_interval \<Rightarrow> pyv" where
  "interval_to_dict i = VDict [(''minimum'', v_opt VFlt (si_minimum i)), (''maximum'', v_opt VFlt (si_maximum i)),
     (''semantics'', VStr (si_semantics i)), (''evidence_count'', VInt (si_evidence_count i)),
     (''provenance'', v_strs (si_provenance i))]"

definition interval_from_dict :: "pyv \<Rightarrow> support_interval res" where
  "interval_from_dict d =
     andThen (get_or d ''minimum'' VNone) (\<lambda>mn. andThen (opt_conv as_float mn) (\<lambda>minimum.
     andThen (get_or d ''maximum'' VNone) (\<lambda>mx. andThen (opt_conv as_float mx) (\<lambda>maximum.
     andThen (fld_or d ''semantics'' (VStr UNKNOWN_SUPPORT) as_str) (\<lambda>semantics.
     andThen (fld_or d ''evidence_count'' (VInt 0) as_int) (\<lambda>evidence_count.
     andThen (fld_or d ''provenance'' (VList []) (tuple_of as_str)) (\<lambda>provenance.
     Inr \<lparr>si_minimum = minimum, si_maximum = maximum, si_semantics = semantics, si_evidence_count = evidence_count,
       si_provenance = last_n MAX_SUPPORT_PROVENANCE_REFS provenance\<rparr>)))))))"

text \<open>After any sequence of finite observations an interval holds every one of them, and reads back what it writes.\<close>

definition holds_value :: "support_interval \<Rightarrow> rat \<Rightarrow> bool" where
  "holds_value i x \<longleftrightarrow> (\<exists>lo hi. si_minimum i = Some (Fin lo) \<and> si_maximum i = Some (Fin hi) \<and> lo \<le> x \<and> x \<le> hi)"

lemma observe_holds:
  assumes "i = new_interval \<or> holds_value i y"
  shows "holds_value (interval_observe (Fin x) ref i) x" and "holds_value i y \<Longrightarrow> holds_value (interval_observe (Fin x) ref i) y"
  using assms by (auto simp: holds_value_def interval_observe_def new_interval_def py_min_def py_max_def)

lemma observations_hold:
  "x \<in> set (map fst obs) \<Longrightarrow> holds_value (foldl (\<lambda>i (v, ref). interval_observe (Fin v) ref i) new_interval obs) x"
proof (induction obs arbitrary: x rule: rev_induct)
  case (snoc o' obs)
  obtain v ref where o': "o' = (v, ref)" by (cases o')
  let ?i = "foldl (\<lambda>i (v, ref). interval_observe (Fin v) ref i) new_interval obs"
  have "?i = new_interval \<or> holds_value ?i w" if "w = (if obs = [] then v else fst (hd obs))" for w
    using snoc.IH [of w] that by (cases obs) auto
  then show ?case using snoc observe_holds o' by fastforce
qed simp

lemma interval_round_trip: "length (si_provenance i) \<le> MAX_SUPPORT_PROVENANCE_REFS \<Longrightarrow> interval_from_dict (interval_to_dict i) = Inr i"
  by (simp add: interval_from_dict_def interval_to_dict_def last_n_id)

end
