(* ===== verification/Hypothetical.thy ===== *)
theory Hypothetical
  imports Intervals
begin

text \<open>
  \<open>hypothetical/core.py\<close>, second part, and \<open>hypothetical/adapters.py\<close>: dependency tokens, physiology branches, opportunities and
  routes, hypothetical states, regulatory services and transition contracts, the composition of one transition, and the
  construction of roots, contracts and services from sources. A \<open>FrozenMap\<close> is a dictionary with its keys sorted; the
  constructors that can raise (\<open>__post_init__\<close>) are the functions \<open>make_...\<close>.
\<close>

section \<open>Tokens, branches, evidence\<close>

datatype transition_status = Supported | Unsupported | Unknown

fun transition_status_value :: "transition_status \<Rightarrow> string" where
  "transition_status_value Supported = ''SUPPORTED''"
| "transition_status_value Unsupported = ''UNSUPPORTED''"
| "transition_status_value Unknown = ''UNKNOWN''"

record dependency_token =
  tk_class :: string
  tk_identity :: string
  tk_version :: string

definition token_to_canonical :: "dependency_token \<Rightarrow> pyv" where
  "token_to_canonical t = VDict [(''class'', VStr (tk_class t)), (''identity'', VStr (tk_identity t)),
     (''version_or_hash'', VStr (tk_version t))]"

definition sorted_tokens :: "dependency_token list \<Rightarrow> dependency_token list" where
  "sorted_tokens ts = sort_key (\<lambda>t. [tk_class t, tk_identity t, tk_version t]) (remdups ts)"

definition dependency_fingerprint :: "hash_env \<Rightarrow> dependency_token list \<Rightarrow> string" where
  "dependency_fingerprint E ts = hash_canonical E (VList (map token_to_canonical (sorted_tokens ts)))"

definition dependency_fingerprint_matches :: "hash_env \<Rightarrow> string \<Rightarrow> dependency_token list \<Rightarrow> bool" where
  "dependency_fingerprint_matches E expected ts \<longleftrightarrow> expected = dependency_fingerprint E ts"

text \<open>\<open>FrozenMap\<close> of envelopes and \<open>to_plain\<close>; \<open>_freeze\<close> of a plain value refuses the infinities and NaN.\<close>

definition envelopes_to_plain :: "envelope dict \<Rightarrow> pyv" where
  "envelopes_to_plain d = VDict (map (\<lambda>(k, e). (k, envelope_to_canonical e)) d)"

primrec finite_values :: "pyv \<Rightarrow> bool" where
  "finite_values VNone = True"
| "finite_values (VBool b) = True"
| "finite_values (VInt i) = True"
| "finite_values (VFlt x) = is_finite x"
| "finite_values (VStr s) = True"
| "finite_values (VList vs) = list_all id (map finite_values vs)"
| "finite_values (VDict d) = list_all snd (map (map_prod id finite_values) d)"

definition freeze :: "pyv dict \<Rightarrow> pyv dict res" where
  "freeze d = (if finite_values (VDict d) then Inr (sorted_items (map (map_prod id canonical) d))
     else Inl (ValueError ''hypothetical values must be finite''))"

record physiology_branch =
  pb_values :: "envelope dict"
  pb_provenance :: "string list"

definition make_branch :: "envelope dict \<Rightarrow> string list \<Rightarrow> physiology_branch" where
  "make_branch values provenance = \<lparr>pb_values = sorted_items values, pb_provenance = bounded_refs provenance\<rparr>"

definition apply_effect :: "string \<times> envelope \<Rightarrow> envelope dict \<Rightarrow> envelope dict" where
  "apply_effect ne result =
     dput (fst ne) (case map_of result (fst ne) of None \<Rightarrow> unknown_envelope (en_provenance (snd ne))
       | Some existing \<Rightarrow> envelope_add existing (snd ne)) result"

definition branch_apply :: "physiology_branch \<Rightarrow> envelope dict \<Rightarrow> physiology_branch" where
  "branch_apply b effects = make_branch (fold apply_effect effects (pb_values b)) (pb_provenance b)"

definition branch_to_canonical :: "physiology_branch \<Rightarrow> pyv" where
  "branch_to_canonical b = VDict [(''values'', envelopes_to_plain (pb_values b)), (''provenance'', v_strs (pb_provenance b))]"

record opportunity_evidence =
  oe_identity :: string
  oe_availability :: transition_status
  oe_persistence :: envelope
  oe_provenance :: "string list"

definition make_opportunity :: "string \<Rightarrow> transition_status \<Rightarrow> envelope \<Rightarrow> string list \<Rightarrow> opportunity_evidence" where
  "make_opportunity i a p r = \<lparr>oe_identity = i, oe_availability = a, oe_persistence = p, oe_provenance = bounded_refs r\<rparr>"

definition opportunity_to_canonical :: "opportunity_evidence \<Rightarrow> pyv" where
  "opportunity_to_canonical e = VDict [(''identity'', VStr (oe_identity e)), (''availability'', VStr (transition_status_value (oe_availability e))),
     (''persistence'', envelope_to_canonical (oe_persistence e)), (''provenance'', v_strs (oe_provenance e))]"

record route_evidence =
  rv_identity :: string
  rv_availability :: transition_status
  rv_timing :: envelope
  rv_capability :: envelope
  rv_provenance :: "string list"

definition make_route_evidence :: "string \<Rightarrow> transition_status \<Rightarrow> envelope \<Rightarrow> envelope \<Rightarrow> string list \<Rightarrow> route_evidence" where
  "make_route_evidence i a t c r =
     \<lparr>rv_identity = i, rv_availability = a, rv_timing = t, rv_capability = c, rv_provenance = bounded_refs r\<rparr>"

definition route_to_canonical :: "route_evidence \<Rightarrow> pyv" where
  "route_to_canonical e = VDict [(''identity'', VStr (rv_identity e)), (''availability'', VStr (transition_status_value (rv_availability e))),
     (''timing'', envelope_to_canonical (rv_timing e)), (''capability'', envelope_to_canonical (rv_capability e)),
     (''provenance'', v_strs (rv_provenance e))]"

section \<open>States\<close>

record hypothetical_state =
  hy_root_tick :: int
  hy_elapsed_time :: envelope
  hy_physiology_branches :: "physiology_branch list"
  hy_body_schema_identity :: string
  hy_opportunities :: "opportunity_evidence dict"
  hy_routes :: "route_evidence dict"
  hy_pending_commitment :: "pyv dict"
  hy_provenance :: "string list"
  hy_dependencies :: "dependency_token list"
  hy_material_fingerprint :: string
  hy_depth :: int

definition make_state :: "hash_env \<Rightarrow> hypothetical_state \<Rightarrow> hypothetical_state res" where
  "make_state E raw =
     (let branches = sort_key (\<lambda>b. hash_canonical E (branch_to_canonical b)) (hy_physiology_branches raw) in
      if branches = [] \<or> BRANCH_CEILING < length branches
      then Inl (ValueError ''hypothetical state requires bounded immutable physiology branches'')
      else andThen (freeze (hy_pending_commitment raw)) (\<lambda>pending.
        let dependencies = sorted_tokens (hy_dependencies raw);
            fingerprint = dependency_fingerprint E dependencies in
        if hy_material_fingerprint raw \<noteq> [] \<and> hy_material_fingerprint raw \<noteq> fingerprint
        then Inl (ValueError ''material fingerprint does not match dependencies'')
        else Inr (raw\<lparr>hy_physiology_branches := branches, hy_opportunities := sorted_items (hy_opportunities raw),
          hy_routes := sorted_items (hy_routes raw), hy_pending_commitment := pending,
          hy_provenance := bounded_refs (hy_provenance raw), hy_dependencies := dependencies,
          hy_material_fingerprint := fingerprint\<rparr>)))"

definition valid_for :: "hash_env \<Rightarrow> hypothetical_state \<Rightarrow> dependency_token list \<Rightarrow> bool" where
  "valid_for E s ts = dependency_fingerprint_matches E (hy_material_fingerprint s) ts"

definition state_to_canonical :: "hypothetical_state \<Rightarrow> pyv" where
  "state_to_canonical s = VDict
     [(''root_tick'', VInt (hy_root_tick s)), (''elapsed_time'', envelope_to_canonical (hy_elapsed_time s)),
      (''physiology_branches'', VList (map branch_to_canonical (hy_physiology_branches s))),
      (''body_schema_identity'', VStr (hy_body_schema_identity s)),
      (''opportunities'', VDict (map (\<lambda>(k, e). (k, opportunity_to_canonical e)) (hy_opportunities s))),
      (''routes'', VDict (map (\<lambda>(k, e). (k, route_to_canonical e)) (hy_routes s))),
      (''pending_commitment'', VDict (hy_pending_commitment s)), (''provenance'', v_strs (hy_provenance s)),
      (''dependencies'', VList (map token_to_canonical (hy_dependencies s))),
      (''material_fingerprint'', VStr (hy_material_fingerprint s)), (''depth'', VInt (hy_depth s))]"

definition semantic_identity :: "hash_env \<Rightarrow> hypothetical_state \<Rightarrow> string" where
  "semantic_identity E s = hash_canonical E (state_to_canonical s)"

section \<open>Services and contracts\<close>

record regulatory_service =
  sv_semantic_identity :: string
  sv_owners :: "string list"
  sv_terminal_capability :: string
  sv_opportunity_identity :: "string option"
  sv_route_identity :: "string option"
  sv_duration :: envelope
  sv_effect_branches :: "envelope dict list"
  sv_body_schema_identity :: string
  sv_preconditions :: "envelope list"
  sv_provenance :: "string list"
  sv_availability :: transition_status
  sv_dependencies :: "dependency_token list"

text \<open>The effect branches as both constructors keep them: maps with sorted keys, in the order of their hashes.\<close>

definition frozen_branches :: "hash_env \<Rightarrow> envelope dict list \<Rightarrow> envelope dict list" where
  "frozen_branches E bs = sort_key (\<lambda>b. hash_canonical E (envelopes_to_plain b)) (map sorted_items bs)"

definition make_service :: "hash_env \<Rightarrow> regulatory_service \<Rightarrow> regulatory_service res" where
  "make_service E raw =
     (let branches = frozen_branches E (sv_effect_branches raw) in
      if branches = [] \<or> 2 < length branches
      then Inl (ValueError ''a service must retain one or two authoritative effect branches'')
      else Inr (raw\<lparr>sv_owners := sort (remdups (sv_owners raw)), sv_effect_branches := branches,
        sv_provenance := bounded_refs (sv_provenance raw), sv_dependencies := sorted_tokens (sv_dependencies raw)\<rparr>))"

record validated_service =
  vs_service :: regulatory_service
  vs_dependencies :: "dependency_token list"

record transition_contract =
  tc_semantic_identity :: string
  tc_duration :: envelope
  tc_effect_branches :: "envelope dict list"
  tc_required_evidence :: "envelope list"
  tc_opportunity_identity :: "string option"
  tc_route_identity :: "string option"
  tc_availability :: transition_status
  tc_service :: "validated_service option"
  tc_provenance :: "string list"

definition make_contract :: "hash_env \<Rightarrow> transition_contract \<Rightarrow> transition_contract res" where
  "make_contract E raw =
     (let branches = frozen_branches E (tc_effect_branches raw) in
      if branches = [] \<or> 2 < length branches
      then Inl (ValueError ''transition must retain one or two effect branches'')
      else Inr (raw\<lparr>tc_effect_branches := branches, tc_provenance := bounded_refs (tc_provenance raw)\<rparr>))"

record transition_result =
  tr_status :: transition_status
  tr_successors :: "hypothetical_state list"
  tr_reason :: string
  tr_provenance :: "string list"
  tr_dependencies :: "dependency_token list"

definition make_result ::
  "transition_status \<Rightarrow> hypothetical_state list \<Rightarrow> string \<Rightarrow> string list \<Rightarrow> dependency_token list \<Rightarrow> transition_result" where
  "make_result status successors reason provenance dependencies =
     \<lparr>tr_status = status, tr_successors = successors, tr_reason = take MAX_REASON_LENGTH reason,
      tr_provenance = bounded_refs provenance, tr_dependencies = sorted_tokens dependencies\<rparr>"

definition unknown_result :: "string \<Rightarrow> string list \<Rightarrow> dependency_token list \<Rightarrow> transition_result" where
  "unknown_result reason provenance dependencies = make_result Unknown [] reason provenance dependencies"

definition service_evidence :: "regulatory_service \<Rightarrow> envelope list" where
  "service_evidence s = sv_duration s # sv_preconditions s @ concat (map (map snd) (sv_effect_branches s))"

definition validate_regulatory_service :: "regulatory_service \<Rightarrow> transition_result + validated_service" where
  "validate_regulatory_service s =
     (if sv_availability s = Unsupported
      then Inl (make_result Unsupported [] ''SERVICE_KNOWN_UNAVAILABLE'' (sv_provenance s) (sv_dependencies s))
      else if sv_availability s \<noteq> Supported \<or> \<not> list_all categorical_supported (service_evidence s)
      then Inl (unknown_result ''SERVICE_EVIDENCE_INSUFFICIENT'' (sv_provenance s) (sv_dependencies s))
      else Inr \<lparr>vs_service = s, vs_dependencies = sv_dependencies s\<rparr>)"

section \<open>One transition\<close>

definition availability_result ::
  "transition_status \<Rightarrow> string \<Rightarrow> string \<Rightarrow> string list \<Rightarrow> dependency_token list \<Rightarrow> transition_result option" where
  "availability_result value unknown_reason unsupported_reason provenance dependencies =
     (case value of
        Unsupported \<Rightarrow> Some (make_result Unsupported [] unsupported_reason provenance dependencies)
      | Unknown \<Rightarrow> Some (unknown_result unknown_reason provenance dependencies)
      | Supported \<Rightarrow> None)"

text \<open>\<open>x not in (None, y)\<close>: an identity the contract names that is not the one of the service.\<close>

definition differs_from :: "string option \<Rightarrow> string option \<Rightarrow> bool" where
  "differs_from own other \<longleftrightarrow> own \<noteq> None \<and> own \<noteq> other"

definition service_refusal :: "hypothetical_state \<Rightarrow> transition_contract \<Rightarrow> transition_result option" where
  "service_refusal s c =
     (case tc_service c of
        None \<Rightarrow> None
      | Some v \<Rightarrow>
          let service = vs_service v in
          if sv_body_schema_identity service \<noteq> hy_body_schema_identity s
          then Some (unknown_result ''SERVICE_BODY_SCHEMA_MISMATCH'' (tc_provenance c) (hy_dependencies s))
          else if tc_duration c \<noteq> sv_duration service \<or> tc_effect_branches c \<noteq> sv_effect_branches service
          then Some (unknown_result ''SERVICE_CONTRACT_MISMATCH'' (tc_provenance c) (hy_dependencies s))
          else if differs_from (tc_opportunity_identity c) (sv_opportunity_identity service)
            \<or> differs_from (tc_route_identity c) (sv_route_identity service)
          then Some (unknown_result ''SERVICE_CONTRACT_MISMATCH'' (tc_provenance c) (hy_dependencies s))
          else None)"

definition effective_opportunity :: "transition_contract \<Rightarrow> string option" where
  "effective_opportunity c = (case tc_service c of None \<Rightarrow> tc_opportunity_identity c | Some v \<Rightarrow> sv_opportunity_identity (vs_service v))"

definition effective_route :: "transition_contract \<Rightarrow> string option" where
  "effective_route c = (case tc_service c of None \<Rightarrow> tc_route_identity c | Some v \<Rightarrow> sv_route_identity (vs_service v))"

definition transition_dependencies :: "hypothetical_state \<Rightarrow> transition_contract \<Rightarrow> dependency_token list" where
  "transition_dependencies s c =
     (case tc_service c of None \<Rightarrow> hy_dependencies s | Some v \<Rightarrow> sorted_tokens (hy_dependencies s @ vs_dependencies v))"

definition contract_evidence :: "transition_contract \<Rightarrow> envelope list" where
  "contract_evidence c = tc_duration c # tc_required_evidence c @ concat (map (map snd) (tc_effect_branches c))"

definition opportunity_refusal :: "hypothetical_state \<Rightarrow> transition_contract \<Rightarrow> transition_result option" where
  "opportunity_refusal s c =
     (case effective_opportunity c of
        None \<Rightarrow> None
      | Some identity \<Rightarrow>
          (case map_of (hy_opportunities s) identity of
             None \<Rightarrow> Some (unknown_result ''OPPORTUNITY_PERSISTENCE_UNKNOWN'' (tc_provenance c) (hy_dependencies s))
           | Some opportunity \<Rightarrow>
               (case availability_result (oe_availability opportunity) ''OPPORTUNITY_PERSISTENCE_UNKNOWN''
                   ''OPPORTUNITY_KNOWN_UNAVAILABLE'' (oe_provenance opportunity) (hy_dependencies s) of
                  Some r \<Rightarrow> Some r
                | None \<Rightarrow>
                    if \<not> categorical_supported (oe_persistence opportunity)
                    then Some (unknown_result ''OPPORTUNITY_PERSISTENCE_UNKNOWN'' (oe_provenance opportunity) (hy_dependencies s))
                    else None)))"

definition route_refusal :: "hypothetical_state \<Rightarrow> transition_contract \<Rightarrow> transition_result option" where
  "route_refusal s c =
     (case effective_route c of
        None \<Rightarrow> None
      | Some identity \<Rightarrow>
          (case map_of (hy_routes s) identity of
             None \<Rightarrow> Some (unknown_result ''ROUTE_SUPPORT_UNKNOWN'' (tc_provenance c) (hy_dependencies s))
           | Some route \<Rightarrow>
               (case availability_result (rv_availability route) ''ROUTE_SUPPORT_UNKNOWN'' ''ROUTE_KNOWN_UNAVAILABLE''
                   (rv_provenance route) (hy_dependencies s) of
                  Some r \<Rightarrow> Some r
                | None \<Rightarrow>
                    if \<not> categorical_supported (rv_timing route) \<or> \<not> categorical_supported (rv_capability route)
                    then Some (unknown_result ''ROUTE_SUPPORT_UNKNOWN'' (rv_provenance route) (hy_dependencies s))
                    else None)))"

text \<open>The guards of a transition in the order the code applies them.\<close>

definition transition_refusal :: "hypothetical_state \<Rightarrow> transition_contract \<Rightarrow> transition_result option" where
  "transition_refusal s c =
     (case availability_result (tc_availability c) ''TRANSITION_AVAILABILITY_UNKNOWN'' ''TRANSITION_KNOWN_UNAVAILABLE''
         (tc_provenance c) (hy_dependencies s) of
        Some r \<Rightarrow> Some r
      | None \<Rightarrow>
          if \<not> categorical_supported (hy_elapsed_time s)
          then Some (unknown_result ''STATE_TIMING_UNKNOWN'' (hy_provenance s) (hy_dependencies s))
          else (case service_refusal s c of Some r \<Rightarrow> Some r | None \<Rightarrow>
            if \<not> list_all categorical_supported (contract_evidence c)
            then Some (unknown_result ''REQUIRED_EVIDENCE_NOT_CATEGORICAL'' (tc_provenance c) (hy_dependencies s))
            else (case opportunity_refusal s c of Some r \<Rightarrow> Some r | None \<Rightarrow>
              (case route_refusal s c of Some r \<Rightarrow> Some r | None \<Rightarrow>
                if BRANCH_CEILING < length (hy_physiology_branches s) * length (tc_effect_branches c)
                then Some (unknown_result ''BRANCH_CEILING_EXCEEDED'' (tc_provenance c) (hy_dependencies s))
                else None))))"

definition fields_known :: "physiology_branch \<Rightarrow> envelope dict \<Rightarrow> bool" where
  "fields_known b effects \<longleftrightarrow>
     list_all (\<lambda>(name, e). categorical_supported (case map_of (pb_values b) name of None \<Rightarrow> unknown_envelope [] | Some v \<Rightarrow> v)) effects"

definition successor_state ::
  "hash_env \<Rightarrow> hypothetical_state \<Rightarrow> transition_contract \<Rightarrow> physiology_branch \<Rightarrow> envelope dict \<Rightarrow> hypothetical_state res" where
  "successor_state E s c branch effects =
     make_state E (s\<lparr>hy_elapsed_time := envelope_add (hy_elapsed_time s) (tc_duration c),
       hy_physiology_branches := [branch_apply branch effects], hy_provenance := hy_provenance s @ tc_provenance c,
       hy_dependencies := transition_dependencies s c, hy_material_fingerprint := [], hy_depth := hy_depth s + 1\<rparr>)"

text \<open>The double loop over branches and effects; \<open>None\<close> when it returns because a field is not known.\<close>

fun build_successors ::
  "hash_env \<Rightarrow> hypothetical_state \<Rightarrow> transition_contract \<Rightarrow> (physiology_branch \<times> envelope dict) list \<Rightarrow> hypothetical_state list option res"
where
  "build_successors E s c [] = Inr (Some [])"
| "build_successors E s c ((branch, effects) # rest) =
     (if \<not> fields_known branch effects then Inr None
      else andThen (successor_state E s c branch effects) (\<lambda>t.
        andThen (build_successors E s c rest) (\<lambda>ts. Inr (map_option ((#) t) ts))))"

definition transition :: "hash_env \<Rightarrow> hypothetical_state \<Rightarrow> transition_contract \<Rightarrow> transition_result res" where
  "transition E s c =
     (case transition_refusal s c of
        Some r \<Rightarrow> Inr r
      | None \<Rightarrow>
          andThen (build_successors E s c (List.product (hy_physiology_branches s) (tc_effect_branches c))) (\<lambda>ts.
          Inr (case ts of
             None \<Rightarrow> unknown_result ''STATE_EFFECT_FIELD_UNKNOWN'' (tc_provenance c) (transition_dependencies s c)
           | Some successors \<Rightarrow> make_result Supported successors ''SUPPORTED_TRANSITION'' (hy_provenance s @ tc_provenance c)
               (transition_dependencies s c))))"

section \<open>Sources\<close>

definition SERVICE_OWNERS :: "string list dict" where
  "SERVICE_OWNERS = [(''CHARGE'', [''energy'']), (''REST'', [''fatigue'', ''integrity'']), (''INSPECT'', [''stimulation''])]"

definition observed_envelope :: "flt \<Rightarrow> string \<Rightarrow> envelope" where
  "observed_envelope value provenance = make_envelope (Some value) (Some value) VERIFIED_OBSERVED_SUPPORT [provenance]"

definition hard_envelope :: "flt \<Rightarrow> string \<Rightarrow> envelope" where
  "hard_envelope value provenance = make_envelope (Some value) (Some value) HARD_CONTRACT [provenance]"

definition envelope_from_interval :: "support_interval \<Rightarrow> string \<Rightarrow> string \<Rightarrow> string \<Rightarrow> envelope" where
  "envelope_from_interval i expected_body_schema source_body_schema provenance =
     (if expected_body_schema \<noteq> source_body_schema then unknown_envelope [provenance, ''body-schema-mismatch'']
      else make_envelope (si_minimum i) (si_maximum i) (si_semantics i) (si_provenance i @ [provenance]))"

record source_opportunity =
  so_identity :: string
  so_availability :: transition_status
  so_persistence_horizon :: envelope
  so_provenance :: "string list"
  so_token :: dependency_token

definition opportunity_evidence_of :: "source_opportunity \<Rightarrow> opportunity_evidence" where
  "opportunity_evidence_of o' = make_opportunity (so_identity o') (so_availability o') (so_persistence_horizon o') (so_provenance o')"

record source_route =
  sr_identity :: string
  sr_availability :: transition_status
  sr_timing :: envelope
  sr_capability :: envelope
  sr_provenance :: "string list"
  sr_token :: dependency_token

definition route_evidence_of :: "source_route \<Rightarrow> route_evidence" where
  "route_evidence_of r = make_route_evidence (sr_identity r) (sr_availability r) (sr_timing r) (sr_capability r) (sr_provenance r)"

record source_service =
  ss_service :: regulatory_service
  ss_validated :: "validated_service option"
  ss_persistence_horizon :: envelope
  ss_dependencies :: "dependency_token list"
  ss_construction_status :: transition_status
  ss_reason :: string

definition join_with :: "char \<Rightarrow> string list \<Rightarrow> string" where
  "join_with c xs = (case xs of [] \<Rightarrow> [] | x # rest \<Rightarrow> x @ concat (map (\<lambda>y. c # y) rest))"

definition root_state_from_sources ::
  "hash_env \<Rightarrow> int \<Rightarrow> flt dict \<Rightarrow> string \<Rightarrow> string \<Rightarrow> source_opportunity dict \<Rightarrow> source_route dict \<Rightarrow> pyv dict
     \<Rightarrow> dependency_token list \<Rightarrow> hypothetical_state res" where
  "root_state_from_sources E root_tick raw body_schema_identity body_schema_version opportunities routes pending additional =
     (if set (dkeys raw) \<noteq> set (dkeys BOUNDS)
      then Inl (ValueError ''root physiology requires exactly the four authoritative owners'')
      else
        let tick = int_str root_tick;
            value = (\<lambda>name. dget NaN name raw);
            values = map (\<lambda>name. (name, observed_envelope (value name) (''physiology-root:'' @ tick @ '':'' @ name))) (dkeys BOUNDS);
            root_token = \<lparr>tk_class = ''physiology_root'', tk_identity = ''organism'',
              tk_version = tick @ '':'' @ join_with (CHR '','') (map (\<lambda>name. name @ ''='' @ float_repr E (value name)) (dkeys BOUNDS))\<rparr>;
            body_token = \<lparr>tk_class = ''body_schema'', tk_identity = body_schema_identity, tk_version = body_schema_version\<rparr>
        in make_state E
          \<lparr>hy_root_tick = root_tick, hy_elapsed_time = hard_envelope (Fin 0) ''physiology-contract:root-elapsed-time'',
           hy_physiology_branches = [make_branch (sorted_items values) [''physiology-root:'' @ tick]],
           hy_body_schema_identity = body_schema_identity,
           hy_opportunities = map (\<lambda>(k, o'). (k, opportunity_evidence_of o')) opportunities,
           hy_routes = map (\<lambda>(k, r). (k, route_evidence_of r)) routes, hy_pending_commitment = pending,
           hy_provenance = [''source-root:'' @ tick],
           hy_dependencies = additional @ [root_token, body_token] @ map (so_token \<circ> snd) opportunities @ map (sr_token \<circ> snd) routes,
           hy_material_fingerprint = [], hy_depth = 0\<rparr>)"

record capability_support =
  cs_capability :: string
  cs_body_schema_id :: string
  cs_progress :: support_interval
  cs_applied_step :: support_interval
  cs_completion :: support_interval

definition capability_envelopes :: "capability_support \<Rightarrow> string \<Rightarrow> envelope \<times> envelope \<times> envelope" where
  "capability_envelopes e body_schema_identity =
     (let base = ''self-model-capability:'' @ cs_capability e;
          from = (\<lambda>i part. envelope_from_interval i body_schema_identity (cs_body_schema_id e) (base @ '':'' @ part))
      in (from (cs_progress e) ''progress'', from (cs_applied_step e) ''applied-step'', from (cs_completion e) ''completion''))"

text \<open>The effects of one verified outcome together with the drift over the longest duration.\<close>

definition drift_envelope :: "string \<Rightarrow> flt \<Rightarrow> envelope" where
  "drift_envelope owner duration =
     envelope_scale (hard_envelope (dget (Fin 0) owner DEFAULT_DRIFT) (''physiology-contract:drift:'' @ owner)) duration"

definition outcome_envelopes :: "string \<Rightarrow> nat \<Rightarrow> flt \<Rightarrow> flt dict \<Rightarrow> envelope dict" where
  "outcome_envelopes capability index duration outcome =
     map (\<lambda>owner. (owner, envelope_add
       (hard_envelope (dget (Fin 0) owner outcome)
         (''verified-outcome:'' @ capability @ '':branch:'' @ nat_str index @ '':'' @ owner))
       (drift_envelope owner duration))) (dkeys BOUNDS)"

definition capability_transition_contract ::
  "hash_env \<Rightarrow> string \<Rightarrow> envelope \<Rightarrow> string option \<Rightarrow> string option \<Rightarrow> envelope list \<Rightarrow> transition_contract res" where
  "capability_transition_contract E capability duration opportunity_identity route_identity required_evidence =
     (let branches =
        (if \<not> categorical_supported duration
         then [map (\<lambda>name. (name, unknown_envelope [''outcome-branch:'' @ capability])) (dkeys BOUNDS)]
         else map (\<lambda>(index, outcome). outcome_envelopes capability index
             (case en_maximum duration of None \<Rightarrow> Fin 0 | Some x \<Rightarrow> x) outcome)
           (enumerate 0 (verified_outcome_effect_branches capability)))
      in make_contract E
        \<lparr>tc_semantic_identity = ''source-capability:'' @ capability, tc_duration = duration, tc_effect_branches = branches,
         tc_required_evidence = required_evidence, tc_opportunity_identity = opportunity_identity,
         tc_route_identity = route_identity, tc_availability = Supported, tc_service = None,
         tc_provenance = [''source-capability:'' @ capability]\<rparr>)"

definition source_status :: "source_opportunity \<Rightarrow> source_route option \<Rightarrow> envelope list \<Rightarrow> transition_status \<times> string" where
  "source_status o' route required =
     (if so_availability o' = Unsupported \<or> (\<exists>r \<in> set_option route. sr_availability r = Unsupported)
      then (Unsupported, ''KNOWN_SOURCE_UNAVAILABLE'')
      else if \<not> list_all categorical_supported required \<or> so_availability o' \<noteq> Supported
        \<or> (\<exists>r \<in> set_option route. sr_availability r \<noteq> Supported)
      then (Unknown, ''SOURCE_EVIDENCE_INSUFFICIENT'')
      else (Supported, ''SOURCE_BACKED''))"

definition source_backed ::
  "envelope \<Rightarrow> dependency_token list \<Rightarrow> transition_status \<Rightarrow> string \<Rightarrow> regulatory_service \<Rightarrow> source_service" where
  "source_backed horizon dependencies status reason service =
     (case validate_regulatory_service service of
        Inr v \<Rightarrow> \<lparr>ss_service = service, ss_validated = Some v, ss_persistence_horizon = horizon,
          ss_dependencies = dependencies, ss_construction_status = status, ss_reason = reason\<rparr>
      | Inl r \<Rightarrow> \<lparr>ss_service = service, ss_validated = None, ss_persistence_horizon = horizon,
          ss_dependencies = dependencies, ss_construction_status = tr_status r, ss_reason = tr_reason r\<rparr>)"

definition build_regulatory_service ::
  "hash_env \<Rightarrow> string \<Rightarrow> string \<Rightarrow> source_opportunity \<Rightarrow> source_route option \<Rightarrow> envelope \<Rightarrow> envelope \<Rightarrow> dependency_token
     \<Rightarrow> source_service res" where
  "build_regulatory_service E capability body_schema_identity opp route duration capability_support body_version_token =
     (case map_of SERVICE_OWNERS capability of
        None \<Rightarrow> Inl (ValueError ''only CHARGE, REST, and INSPECT are source-backed AS-003O services'')
      | Some owners \<Rightarrow>
          let route_id = map_option sr_identity route;
              dependencies = [body_version_token, so_token opp] @ (case route of None \<Rightarrow> [] | Some r \<Rightarrow> [sr_token r]);
              required = [duration, capability_support, so_persistence_horizon opp]
                @ (case route of None \<Rightarrow> [] | Some r \<Rightarrow> [sr_timing r, sr_capability r]);
              (status, reason) = source_status opp route required
          in andThen (capability_transition_contract E capability duration (Some (so_identity opp)) route_id [capability_support]) (\<lambda>contract.
             andThen (make_service E
               \<lparr>sv_semantic_identity = ''source-service:'' @ capability @ '':'' @ body_schema_identity @ '':'' @ so_identity opp @ '':''
                  @ (case route_id of None \<Rightarrow> ''stationary'' | Some r \<Rightarrow> if r = [] then ''stationary'' else r),
                sv_owners = owners, sv_terminal_capability = capability, sv_opportunity_identity = Some (so_identity opp),
                sv_route_identity = route_id, sv_duration = duration, sv_effect_branches = tc_effect_branches contract,
                sv_body_schema_identity = body_schema_identity, sv_preconditions = [capability_support],
                sv_provenance = (''source-service:'' @ capability) # so_provenance opp @ (case route of None \<Rightarrow> [] | Some r \<Rightarrow> sr_provenance r),
                sv_availability = status, sv_dependencies = dependencies\<rparr>) (\<lambda>service.
             Inr (source_backed (so_persistence_horizon opp) dependencies status reason service))))"

section \<open>What a transition covers\<close>

lemma list_all2_member: "list_all2 P xs ys \<Longrightarrow> x \<in> set xs \<Longrightarrow> \<exists>y \<in> set ys. P x y"
  by (metis in_set_conv_nth list_all2_conv_all_nth)

text \<open>A concrete physiology inside a branch, concrete effects inside an effect branch, and what the effects make of it.\<close>

definition values_admit :: "envelope dict \<Rightarrow> (string \<Rightarrow> rat) \<Rightarrow> bool" where
  "values_admit d v \<longleftrightarrow> (\<forall>name e. map_of d name = Some e \<longrightarrow> admits e (v name))"

definition after_effects :: "envelope dict \<Rightarrow> (string \<Rightarrow> rat) \<Rightarrow> (string \<Rightarrow> rat) \<Rightarrow> string \<Rightarrow> rat" where
  "after_effects effects v d name = (if map_of effects name = None then v name else v name + d name)"

definition envelopes_ok :: "envelope dict \<Rightarrow> bool" where
  "envelopes_ok d \<longleftrightarrow> dwf d \<and> list_all (sharp \<circ> snd) d"

definition hypothetical_ok :: "hypothetical_state \<Rightarrow> bool" where
  "hypothetical_ok s \<longleftrightarrow> list_all (envelopes_ok \<circ> pb_values) (hy_physiology_branches s) \<and> has_ends (hy_elapsed_time s)
     \<and> hy_physiology_branches s \<noteq> [] \<and> length (hy_physiology_branches s) \<le> BRANCH_CEILING
     \<and> finite_values (VDict (hy_pending_commitment s))"

definition effects_ok :: "envelope dict list \<Rightarrow> bool" where
  "effects_ok bs \<longleftrightarrow> list_all envelopes_ok bs \<and> bs \<noteq> [] \<and> length bs \<le> 2"

lemma envelopes_okD: "envelopes_ok d \<Longrightarrow> map_of d name = Some e \<Longrightarrow> sharp e"
  by (auto simp: envelopes_ok_def list_all_iff dest!: map_of_SomeD)

lemma values_admit_rnd: "envelopes_ok d \<Longrightarrow> values_admit d v \<Longrightarrow> values_admit d (\<lambda>n. rnd (v n))"
  by (auto simp: values_admit_def dest: envelopes_okD intro: sharp_admits_rnd)

lemma apply_effect_lookup:
  "map_of (apply_effect (n, e) r) = (map_of r)(n \<mapsto> (case map_of r n of None \<Rightarrow> unknown_envelope (en_provenance e)
     | Some x \<Rightarrow> envelope_add x e))"
  by (cases "map_of r n") (simp_all add: apply_effect_def)

lemma fold_effects_lookup:
  "dwf effects \<Longrightarrow> map_of (fold apply_effect effects r) name =
     (case map_of effects name of None \<Rightarrow> map_of r name
      | Some e \<Rightarrow> Some (case map_of r name of None \<Rightarrow> unknown_envelope (en_provenance e) | Some x \<Rightarrow> envelope_add x e))"
proof (induction effects arbitrary: r)
  case (Cons ne effects)
  obtain n e where ne: "ne = (n, e)" by (cases ne)
  with Cons.prems have "map_of effects n = None" by (simp add: map_of_eq_None_iff)
  then show ?case using Cons by (auto simp: ne apply_effect_lookup split: option.splits)
qed simp

lemma fold_effects_dwf: "dwf r \<Longrightarrow> dwf (fold apply_effect effects r)"
  by (induction effects arbitrary: r) (auto simp: apply_effect_def dwf_dput)

lemma has_ends_unknown [simp]: "has_ends (unknown_envelope p)"
  by (simp add: unknown_envelope_def)

lemma has_ends_add [simp]: "has_ends (envelope_add a b)"
  using sharp_ends [OF sharp_add] .

lemma branch_apply_lookup:
  assumes "dwf (pb_values b)" and "dwf effects"
  shows "map_of (pb_values (branch_apply b effects)) = map_of (fold apply_effect effects (pb_values b))"
  using sorted_items_lookup [OF fold_effects_dwf [OF assms(1)]] by (simp add: branch_apply_def make_branch_def)

lemma branch_apply_ok:
  assumes "envelopes_ok (pb_values b)" and "envelopes_ok effects"
  shows "envelopes_ok (pb_values (branch_apply b effects))"
proof -
  have wf: "dwf (pb_values b)" "dwf effects" using assms by (auto simp: envelopes_ok_def)
  have "sharp e" if "map_of (pb_values (branch_apply b effects)) name = Some e" for name e
    using that envelopes_okD [OF assms(1), of name]
    by (auto simp: branch_apply_lookup [OF wf] fold_effects_lookup [OF wf(2)] split: option.splits)
  moreover have "dwf (pb_values (branch_apply b effects))"
    using fold_effects_dwf [OF wf(1)] by (simp add: branch_apply_def make_branch_def)
  ultimately show ?thesis unfolding envelopes_ok_def list_all_iff o_def by (auto dest: map_of_is_SomeI)
qed

lemma branch_apply_admits:
  assumes "envelopes_ok (pb_values b)" and "envelopes_ok effects"
    and "values_admit (pb_values b) v" and "values_admit effects d"
  shows "values_admit (pb_values (branch_apply b effects)) (after_effects effects v d)"
proof -
  have wf: "dwf (pb_values b)" "dwf effects" using assms by (auto simp: envelopes_ok_def)
  show ?thesis
    using assms(3,4) envelopes_okD [OF assms(1)] envelopes_okD [OF assms(2)]
    by (auto simp: values_admit_def branch_apply_lookup [OF wf] fold_effects_lookup [OF wf(2)] after_effects_def
        intro!: admits_add sharp_ends split: option.splits)
qed

text \<open>A state that has been built is built again from its own parts, and its successors are such states.\<close>

lemma finite_canonical [simp]: "finite_values (canonical v) = finite_values v"
proof (induction v)
  case (VList vs)
  then show ?case by (auto simp: list_all_iff)
next
  case (VDict d)
  have "set (sorted_items (map (map_prod id canonical) d)) = map_prod id canonical ` set d" by simp
  then show ?case using VDict by (auto simp: list_all_iff)
qed simp_all

lemma make_state_ok:
  assumes "hypothetical_ok raw" and "hy_material_fingerprint raw = []"
  obtains t where "make_state E raw = Inr t" "hypothetical_ok t" "hy_elapsed_time t = hy_elapsed_time raw"
    "set (hy_physiology_branches t) = set (hy_physiology_branches raw)" "hy_depth t = hy_depth raw"
    "length (hy_physiology_branches t) = length (hy_physiology_branches raw)"
proof -
  have "sort_key f (hy_physiology_branches raw) \<noteq> []" for f :: "physiology_branch \<Rightarrow> string"
    using assms(1) by (metis length_0_conv length_sort hypothetical_ok_def)
  then show ?thesis
    using that assms finite_canonical [of "VDict (hy_pending_commitment raw)"]
    by (auto simp: make_state_def Let_def freeze_def hypothetical_ok_def list_all_iff)
qed

lemma result_fields [simp]:
  "tr_status (make_result st ss q p d) = st" "tr_successors (make_result st ss q p d) = ss"
  "tr_status (unknown_result q p d) = Unknown" "tr_successors (unknown_result q p d) = []"
  by (simp_all add: make_result_def unknown_result_def)

lemma refusals_refuse:
  "availability_result a u n p d = Some q \<Longrightarrow> tr_status q \<noteq> Supported"
  "service_refusal s c = Some q \<Longrightarrow> tr_status q \<noteq> Supported"
  by (cases a; force simp: availability_result_def) (auto simp: service_refusal_def Let_def split: option.splits if_splits)

lemma opportunity_refuses: "opportunity_refusal s c = Some q \<Longrightarrow> tr_status q \<noteq> Supported"
  unfolding opportunity_refusal_def by (auto split: option.splits if_splits dest: refusals_refuse)

lemma route_refuses: "route_refusal s c = Some q \<Longrightarrow> tr_status q \<noteq> Supported"
  unfolding route_refusal_def by (auto split: option.splits if_splits dest: refusals_refuse)

lemma transition_refuses: "transition_refusal s c = Some q \<Longrightarrow> tr_status q \<noteq> Supported"
  unfolding transition_refusal_def
  by (auto split: option.splits if_splits dest: refusals_refuse opportunity_refuses route_refuses)

lemma transition_not_refused:
  "transition_refusal s c = None \<Longrightarrow> \<not> BRANCH_CEILING < length (hy_physiology_branches s) * length (tc_effect_branches c)"
  unfolding transition_refusal_def by (simp split: option.splits if_splits)

lemma transition_supported:
  assumes "transition E s c = Inr r" and "tr_status r = Supported"
  obtains "transition_refusal s c = None"
    "build_successors E s c (List.product (hy_physiology_branches s) (tc_effect_branches c)) = Inr (Some (tr_successors r))"
proof (cases "transition_refusal s c")
  case None
  then show ?thesis
    using assms that by (auto simp: transition_def andThen_eq_Inr split: option.splits)
next
  case (Some q)
  then show ?thesis using assms transition_refuses [OF Some] by (simp add: transition_def)
qed

lemma build_successors_all2:
  "build_successors E s c bes = Inr (Some ts) \<Longrightarrow>
     list_all2 (\<lambda>(b, effects) t. fields_known b effects \<and> successor_state E s c b effects = Inr t) bes ts"
  by (induction bes arbitrary: ts) (auto simp: andThen_eq_Inr split: if_splits)

lemma successor_fields:
  assumes "hypothetical_ok s" and "b \<in> set (hy_physiology_branches s)" and "envelopes_ok effects"
  obtains t where "successor_state E s c b effects = Inr t" "hypothetical_ok t" "hy_physiology_branches t = [branch_apply b effects]"
    "hy_elapsed_time t = envelope_add (hy_elapsed_time s) (tc_duration c)" "hy_depth t = hy_depth s + 1"
proof -
  let ?raw = "s\<lparr>hy_elapsed_time := envelope_add (hy_elapsed_time s) (tc_duration c),
       hy_physiology_branches := [branch_apply b effects], hy_provenance := hy_provenance s @ tc_provenance c,
       hy_dependencies := transition_dependencies s c, hy_material_fingerprint := [], hy_depth := hy_depth s + 1\<rparr>"
  have "hypothetical_ok ?raw"
    using assms branch_apply_ok [of b effects] by (auto simp: hypothetical_ok_def list_all_iff BRANCH_CEILING_def)
  from make_state_ok [OF this] obtain t where t: "make_state E ?raw = Inr t" "hypothetical_ok t"
    "hy_elapsed_time t = envelope_add (hy_elapsed_time s) (tc_duration c)"
    "set (hy_physiology_branches t) = {branch_apply b effects}" "hy_depth t = hy_depth s + 1"
    "length (hy_physiology_branches t) = 1" by auto
  then have "hy_physiology_branches t = [branch_apply b effects]"
    by (cases "hy_physiology_branches t") auto
  with t that show ?thesis by (simp add: successor_state_def)
qed

text \<open>A transition raises nothing, and its successors are one state for every branch and every effect branch.\<close>

lemma build_successors_total:
  assumes "hypothetical_ok s" and "\<And>b e. (b, e) \<in> set bes \<Longrightarrow> b \<in> set (hy_physiology_branches s) \<and> envelopes_ok e"
  shows "\<exists>o'. build_successors E s c bes = Inr o'"
  using assms(2)
proof (induction bes)
  case (Cons be bes)
  obtain b e where be: "be = (b, e)" by (cases be)
  have "b \<in> set (hy_physiology_branches s)" "envelopes_ok e" using Cons.prems [of b e] be by simp_all
  from successor_fields [OF assms(1) this] obtain t where "successor_state E s c b e = Inr t" .
  moreover obtain o' where "build_successors E s c bes = Inr o'" using Cons.IH Cons.prems by fastforce
  ultimately show ?case by (simp add: be)
qed simp

lemma transition_total:
  assumes "hypothetical_ok s" and "effects_ok (tc_effect_branches c)"
  shows "\<exists>r. transition E s c = Inr r"
proof -
  have "\<exists>o'. build_successors E s c (List.product (hy_physiology_branches s) (tc_effect_branches c)) = Inr o'"
    using assms by (intro build_successors_total) (auto simp: effects_ok_def list_all_iff)
  then show ?thesis by (auto simp: transition_def split: option.split)
qed

lemma transition_successors:
  assumes "hypothetical_ok s" and "effects_ok (tc_effect_branches c)" and "transition E s c = Inr r" and "tr_status r = Supported"
  shows "list_all2 (\<lambda>(b, effects) t. hypothetical_ok t \<and> hy_physiology_branches t = [branch_apply b effects]
      \<and> hy_elapsed_time t = envelope_add (hy_elapsed_time s) (tc_duration c) \<and> hy_depth t = hy_depth s + 1)
    (List.product (hy_physiology_branches s) (tc_effect_branches c)) (tr_successors r)"
proof -
  have "build_successors E s c (List.product (hy_physiology_branches s) (tc_effect_branches c)) = Inr (Some (tr_successors r))"
    using transition_supported [OF assms(3,4)] by blast
  then show ?thesis
  proof (rule list.rel_mono_strong [OF build_successors_all2], goal_cases)
    case (1 be t)
    obtain b e where be: "be = (b, e)" by (cases be)
    with 1 have "b \<in> set (hy_physiology_branches s)" "envelopes_ok e"
      using assms(2) by (auto simp: effects_ok_def list_all_iff)
    from successor_fields [OF assms(1) this] obtain t' where t': "successor_state E s c b e = Inr t'" "hypothetical_ok t'"
      "hy_physiology_branches t' = [branch_apply b e]" "hy_elapsed_time t' = envelope_add (hy_elapsed_time s) (tc_duration c)"
      "hy_depth t' = hy_depth s + 1" .
    moreover have "t = t'" using 1(3) t'(1) by (simp add: be)
    ultimately show ?case by (simp add: be)
  qed
qed

text \<open>The number of successors.\<close>

lemma transition_count:
  assumes "hypothetical_ok s" and "effects_ok (tc_effect_branches c)" and "transition E s c = Inr r" and "tr_status r = Supported"
  shows "tr_successors r \<noteq> []" and "length (tr_successors r) \<le> BRANCH_CEILING"
proof -
  have len: "length (tr_successors r) = length (hy_physiology_branches s) * length (tc_effect_branches c)"
    using list_all2_lengthD [OF transition_successors [OF assms]] by simp
  moreover have "\<not> BRANCH_CEILING < length (hy_physiology_branches s) * length (tc_effect_branches c)"
    using transition_supported [OF assms(3,4)] transition_not_refused by blast
  ultimately show "length (tr_successors r) \<le> BRANCH_CEILING" by simp
  show "tr_successors r \<noteq> []" using len assms(1,2) by (auto simp: hypothetical_ok_def effects_ok_def)
qed

text \<open>C38: a supported transition is conservative. It has between one and thirty-two successors, and whatever physiology one of
  the branches admits and whatever effects one of the effect branches admits, one successor admits what the effects make of
  it, exactly and as the machine rounds it, and the elapsed time; each successor has a single branch and is one step deeper.\<close>

theorem transition_encloses:
  assumes "hypothetical_ok s" and "effects_ok (tc_effect_branches c)" and "has_ends (tc_duration c)"
    and "transition E s c = Inr r" and "tr_status r = Supported"
    and "b \<in> set (hy_physiology_branches s)" and "effects \<in> set (tc_effect_branches c)"
    and "values_admit (pb_values b) v" and "values_admit effects d"
    and "admits (hy_elapsed_time s) before" and "admits (tc_duration c) taken"
  shows "1 \<le> length (tr_successors r) \<and> length (tr_successors r) \<le> BRANCH_CEILING
    \<and> (\<exists>t b'. t \<in> set (tr_successors r) \<and> hy_physiology_branches t = [b'] \<and> hy_depth t = hy_depth s + 1
        \<and> values_admit (pb_values b') (after_effects effects v d)
        \<and> values_admit (pb_values b') (\<lambda>name. rnd (after_effects effects v d name)) \<and> admits (hy_elapsed_time t) (before + taken))"
proof -
  have ok: "envelopes_ok (pb_values b)" "envelopes_ok effects" "has_ends (hy_elapsed_time s)"
    using assms(1,2,6,7) by (auto simp: hypothetical_ok_def effects_ok_def list_all_iff)
  have "(b, effects) \<in> set (List.product (hy_physiology_branches s) (tc_effect_branches c))" using assms(6,7) by simp
  from list_all2_member [OF transition_successors [OF assms(1,2,4,5)] this] obtain t where t: "t \<in> set (tr_successors r)"
    "hy_physiology_branches t = [branch_apply b effects]"
    "hy_elapsed_time t = envelope_add (hy_elapsed_time s) (tc_duration c)" "hy_depth t = hy_depth s + 1"
    by auto
  moreover have "1 \<le> length (tr_successors r)" "length (tr_successors r) \<le> BRANCH_CEILING"
    using transition_count [OF assms(1,2,4,5)] by (simp_all add: Suc_le_eq)
  ultimately show ?thesis
    using branch_apply_admits [OF ok(1,2) assms(8,9)] admits_add [OF ok(3) assms(3,10,11)]
      values_admit_rnd [OF branch_apply_ok [OF ok(1,2)]] by auto
qed

section \<open>What construction guarantees\<close>

lemma sharp_point: "is_double x \<Longrightarrow> sharp (make_envelope (Some x) (Some x) k p)"
  by (rule sharp_make) simp_all

lemma dkeys_BOUNDS: "distinct (dkeys BOUNDS)" "dkeys BOUNDS = [''energy'', ''fatigue'', ''integrity'', ''stimulation'']"
  by (simp_all add: dkeys_def BOUNDS_def)

lemma envelopes_by_name: "distinct names \<Longrightarrow> (\<And>n. n \<in> set names \<Longrightarrow> sharp (f n)) \<Longrightarrow> envelopes_ok (map (\<lambda>n. (n, f n)) names)"
  by (simp add: envelopes_ok_def list_all_iff o_def)

lemma envelopes_ok_sorted [simp]: "envelopes_ok (sorted_items d) = envelopes_ok d"
  by (simp add: envelopes_ok_def list_all_iff)

text \<open>A root built from floats is a good state.\<close>

lemma root_state_ok:
  assumes "root_state_from_sources E tick raw body version opportunities routes pending additional = Inr s"
    and "list_all (is_double \<circ> snd) raw"
  shows "hypothetical_ok s"
proof -
  have keys: "set (dkeys raw) = set (dkeys BOUNDS)"
    using assms(1) by (auto simp: root_state_from_sources_def split: if_splits)
  have d: "is_double (dget NaN name raw)" for name
    using assms(2) by (auto simp: dget_def list_all_iff split: option.split dest!: map_of_SomeD)
  have elapsed: "has_ends (hard_envelope (Fin 0) p)" for p
    unfolding hard_envelope_def by simp
  have vals: "envelopes_ok (map (\<lambda>name. (name, observed_envelope (dget NaN name raw) (f name))) (dkeys BOUNDS))" for f
    using dkeys_BOUNDS(1) by (intro envelopes_by_name) (auto simp: observed_envelope_def intro: sharp_point d)
  obtain raw' where raw': "make_state E raw' = Inr s" "hy_material_fingerprint raw' = []"
      "length (hy_physiology_branches raw') = 1" "list_all (envelopes_ok \<circ> pb_values) (hy_physiology_branches raw')"
      "has_ends (hy_elapsed_time raw')"
    using assms(1) keys elapsed vals
    by (auto simp: root_state_from_sources_def Let_def make_branch_def)
  have "freeze (hy_pending_commitment raw') \<noteq> Inl e" for e
    using raw'(1) by (auto simp: make_state_def Let_def split: if_splits)
  then have "finite_values (VDict (hy_pending_commitment raw'))"
    unfolding freeze_def by (rule_tac ccontr) (simp only: if_False simp_thms, blast)
  then have "hypothetical_ok raw'" using raw' by (auto simp: hypothetical_ok_def BRANCH_CEILING_def)
  from make_state_ok [OF this raw'(2)] show ?thesis using raw'(1) by (metis sum.inject(2))
qed

lemma frozen_set: "set (frozen_branches E bs) = sorted_items ` set bs"
  by (simp add: frozen_branches_def)

lemma frozen_effects_ok:
  assumes "effects_ok bs"
  shows "effects_ok (frozen_branches E bs)"
proof -
  have "length (frozen_branches E bs) = length bs" by (simp add: frozen_branches_def)
  then have "frozen_branches E bs \<noteq> []" "length (frozen_branches E bs) \<le> 2"
    using assms by (auto simp: effects_ok_def)
  then show ?thesis using assms unfolding effects_ok_def list_all_iff frozen_set by simp
qed

text \<open>A contract of a capability is always built, with lawful effects.\<close>

lemma outcome_branches_count:
  "verified_outcome_effect_branches c \<noteq> []" "length (verified_outcome_effect_branches c) \<le> 2"
  unfolding verified_outcome_effect_branches_def Let_def by simp_all

lemma capability_contract_ok:
  obtains c where "capability_transition_contract E capability duration o' r' required = Inr c" "effects_ok (tc_effect_branches c)"
proof -
  let ?bs = "if \<not> categorical_supported duration
    then [map (\<lambda>name. (name, unknown_envelope [''outcome-branch:'' @ capability])) (dkeys BOUNDS)]
    else map (\<lambda>(index, outcome). outcome_envelopes capability index
        (case en_maximum duration of None \<Rightarrow> Fin 0 | Some x \<Rightarrow> x) outcome) (enumerate 0 (verified_outcome_effect_branches capability))"
  have "envelopes_ok (outcome_envelopes capability i x out)" for i x out
    unfolding outcome_envelopes_def by (rule envelopes_by_name) (simp_all add: dkeys_BOUNDS(1))
  moreover have "envelopes_ok (map (\<lambda>name. (name, unknown_envelope p)) (dkeys BOUNDS))" for p
    by (rule envelopes_by_name) (simp_all add: dkeys_BOUNDS(1))
  ultimately have "effects_ok ?bs"
    using outcome_branches_count [of capability]
    by (cases "categorical_supported duration") (simp_all add: effects_ok_def list_all_iff split_beta enumerate_eq_zip zip_eq_Nil_iff)
  from frozen_effects_ok [OF this, of E] show ?thesis
    by (intro that) (auto simp: capability_transition_contract_def make_contract_def Let_def effects_ok_def)
qed

section \<open>One transition, computed\<close>

definition point :: "rat \<Rightarrow> envelope" where
  "point x = make_envelope (Some (Fin x)) (Some (Fin x)) HARD_CONTRACT []"

definition energy_branch :: "envelope \<Rightarrow> physiology_branch" where
  "energy_branch e = \<lparr>pb_values = [(''energy'', e)], pb_provenance = []\<rparr>"

definition energy_state :: "hash_env \<Rightarrow> int \<Rightarrow> envelope \<Rightarrow> envelope \<Rightarrow> hypothetical_state" where
  "energy_state E depth elapsed e = \<lparr>hy_root_tick = 0, hy_elapsed_time = elapsed, hy_physiology_branches = [energy_branch e],
     hy_body_schema_identity = ''body'', hy_opportunities = [], hy_routes = [], hy_pending_commitment = [], hy_provenance = [],
     hy_dependencies = [], hy_material_fingerprint = dependency_fingerprint E [], hy_depth = depth\<rparr>"

definition waiting :: transition_contract where
  "waiting = \<lparr>tc_semantic_identity = ''wait'', tc_duration = point 1, tc_effect_branches = [[(''energy'', point (1 / 32))]],
     tc_required_evidence = [], tc_opportunity_identity = None, tc_route_identity = None, tc_availability = Supported,
     tc_service = None, tc_provenance = []\<rparr>"

definition rested :: envelope where "rested = envelope_add (point (1 / 4)) (point (1 / 32))"
definition one_later :: envelope where "one_later = envelope_add (point 1) (point 1)"

text \<open>Envelopes of a contract between two bounds; the bounds of a sum.\<close>

definition hard_between :: "envelope \<Rightarrow> rat \<Rightarrow> rat \<Rightarrow> bool" where
  "hard_between e L H \<longleftrightarrow> en_semantics e = HARD_CONTRACT \<and>
     (\<exists>d u. ends_of e = Some (Fin d, Fin u) \<and> L \<le> d \<and> d \<le> u \<and> u \<le> H)"

lemma hard_point: "hard_between (point x) x x"
  by (simp add: hard_between_def point_def make_envelope_def ends_of_def normalized_semantics_def dkeys_def SEMANTIC_STRENGTH_def)

lemma hard_categorical: "hard_between e L H \<Longrightarrow> categorical_supported e"
  by (auto simp: hard_between_def categorical_supported_def SUPPORTED_SEMANTICS_def ends_of_def split: option.splits)

lemma hard_between_mono: "hard_between e L H \<Longrightarrow> L' \<le> L \<Longrightarrow> H \<le> H' \<Longrightarrow> hard_between e L' H'"
  unfolding hard_between_def by (meson order_trans)

lemma weakest_hard: "weakest_semantics [HARD_CONTRACT, HARD_CONTRACT] = HARD_CONTRACT"
  by (simp add: weakest_semantics_def HARD_CONTRACT_def NOT_APPLICABLE_SUPPORT_def)

lemma hard_between_add:
  assumes "hard_between e L H" and "hard_between f L' H'"
    and "rnd (L + L') = L + L'" and "rnd (H + H') = H + H'" and "1 / 8 \<le> L + L'" and "H + H' \<le> 2"
  shows "hard_between (envelope_add e f) ((L + L') * (1 - pow2 (- 52))) ((H + H') * (1 + pow2 (- 52)))"
proof -
  obtain d u d' u' where e: "en_semantics e = HARD_CONTRACT" "ends_of e = Some (Fin d, Fin u)" "L \<le> d" "d \<le> u" "u \<le> H"
    and f: "en_semantics f = HARD_CONTRACT" "ends_of f = Some (Fin d', Fin u')" "L' \<le> d'" "d' \<le> u'" "u' \<le> H'"
    using assms(1,2) unfolding hard_between_def by blast
  let ?a = "rnd (d + d')" and ?b = "rnd (u + u')" and ?eps = "pow2 (- 52)"
  have a: "L + L' \<le> ?a" using rnd_mono [of "L + L'" "d + d'"] e f assms(3) by simp
  have b: "?b \<le> H + H'" using rnd_mono [of "u + u'" "H + H'"] e f assms(4) by simp
  have ab: "?a \<le> ?b" using e f by (intro rnd_mono) simp
  have eps: "pow2 (- 1022) \<le> 1 / 8" "0 < ?eps" "?eps < 1"
    using pow2_mono [of "- 1022" "- 3"] pow2_less_iff [of "- 52" 0] by (simp_all add: pow2_def [of "- 3"])
  have "flt_of (d + d') = Fin ?a" "flt_of (u + u') = Fin ?b"
    using flt_of_unit [of ?a] flt_of_unit [of ?b] a b ab assms(5,6) pow2_1024_big [of 8] by (auto simp: flt_of_def Let_def)
  moreover obtain lo where lo: "next_down (Fin ?a) = Fin lo" "?a - \<bar>?a\<bar> * ?eps \<le> lo" "lo \<le> ?a"
    using next_down_near [of ?a] a b ab assms(5,6) eps by auto
  moreover obtain hi where hi: "next_up (Fin ?b) = Fin hi" "?b \<le> hi" "hi \<le> ?b + \<bar>?b\<bar> * ?eps"
    using next_up_near [of ?b] a b ab assms(5,6) eps by auto
  moreover have "(L + L') * (1 - ?eps) \<le> lo"
    using mult_right_mono [OF a, of "1 - ?eps"] lo(2) a assms(5) eps by (simp add: algebra_simps)
  moreover have "hi \<le> (H + H') * (1 + ?eps)"
    using mult_right_mono [OF b, of "1 + ?eps"] hi(3) a ab assms(5) eps by (simp add: algebra_simps)
  ultimately show ?thesis
    using e f ab
    by (simp add: hard_between_def envelope_add_def make_envelope_def weakest_hard ends_of_def normalized_semantics_def dkeys_def
        SEMANTIC_STRENGTH_def del: next_up.simps)
qed

lemma dyadic: "rnd (9 / 32) = 9 / 32" "rnd 2 = 2" "rnd (1 / 2) = 1 / 2" "rnd (9 / 16) = 9 / 16"
  by code_simp+

lemma eps_small: "pow2 (- 52) \<le> 1 / 64"
  by (simp add: pow2_def)

lemma rested_between: "hard_between rested (1 / 4) (19 / 64)"
  using hard_between_add [OF hard_point hard_point, of "1 / 4" "1 / 32"] eps_small
  by (auto simp: rested_def dyadic elim!: hard_between_mono)

lemma one_later_between: "hard_between one_later 1 3"
  using hard_between_add [OF hard_point hard_point, of 1 1] eps_small
  by (auto simp: one_later_def dyadic elim!: hard_between_mono)

lemma demo_evidence:
  "categorical_supported (point x)" "categorical_supported rested" "categorical_supported one_later"
  using hard_categorical hard_point rested_between one_later_between by blast+

lemma small [simp]: "bounded_refs [] = []" "sorted_tokens [] = []"
  by (simp_all add: bounded_refs_def sorted_tokens_def)

lemma energy_apply: "branch_apply (energy_branch e) [(''energy'', d)] = energy_branch (envelope_add e d)"
  by (simp add: branch_apply_def energy_branch_def make_branch_def apply_effect_def sorted_items_def)

lemma energy_known: "categorical_supported e \<Longrightarrow> fields_known (energy_branch e) [(''energy'', d)]"
  by (simp add: fields_known_def energy_branch_def)

lemma energy_build: "make_state E (energy_state E n t e\<lparr>hy_material_fingerprint := []\<rparr>) = Inr (energy_state E n t e)"
  by (simp add: make_state_def energy_state_def Let_def BRANCH_CEILING_def freeze_def sorted_items_def)


lemma energy_successor:
  assumes "tc_provenance c = []" and "transition_dependencies (energy_state E n t e) c = []"
  shows "successor_state E (energy_state E n t e) c (energy_branch e) [(''energy'', d)] =
    Inr (energy_state E (n + 1) (envelope_add t (tc_duration c)) (envelope_add e d))"
  using energy_build [of E "n + 1" "envelope_add t (tc_duration c)" "envelope_add e d"] assms
  by (simp add: successor_state_def energy_apply) (simp add: energy_state_def)

lemma energy_transition:
  assumes "transition_refusal (energy_state E n t e) c = None" and "categorical_supported e"
    and "tc_effect_branches c = [[(''energy'', d)]]" and "tc_provenance c = []"
    and "transition_dependencies (energy_state E n t e) c = []"
  shows "transition E (energy_state E n t e) c =
    Inr (make_result Supported [energy_state E (n + 1) (envelope_add t (tc_duration c)) (envelope_add e d)] ''SUPPORTED_TRANSITION'' [] [])"
proof -
  have b: "hy_physiology_branches (energy_state E n t e) = [energy_branch e]" "hy_provenance (energy_state E n t e) = []"
    by (simp_all add: energy_state_def)
  have "build_successors E (energy_state E n t e) c [(energy_branch e, [(''energy'', d)])] =
      Inr (Some [energy_state E (n + 1) (envelope_add t (tc_duration c)) (envelope_add e d)])"
    using energy_successor [OF assms(4,5)] energy_known [OF assms(2)] by simp
  then show ?thesis by (simp add: transition_def assms b)
qed

lemma waiting_allowed: "transition_refusal (energy_state E 0 (point 1) (point (1 / 4))) waiting = None"
  using demo_evidence by (simp add: transition_refusal_def availability_result_def service_refusal_def opportunity_refusal_def
      route_refusal_def effective_opportunity_def effective_route_def contract_evidence_def waiting_def energy_state_def BRANCH_CEILING_def)

lemma waits: "transition E (energy_state E 0 (point 1) (point (1 / 4))) waiting =
    Inr (make_result Supported [energy_state E 1 one_later rested] ''SUPPORTED_TRANSITION'' [] [])"
  using energy_transition [OF waiting_allowed demo_evidence(1)]
  by (simp add: waiting_def transition_dependencies_def rested_def one_later_def) (simp add: energy_state_def)

lemma waiting_ok: "hypothetical_ok (energy_state E 0 (point 1) (point (1 / 4)))" "effects_ok (tc_effect_branches waiting)"
  "has_ends (tc_duration waiting)"
  "values_admit (pb_values (energy_branch (point (1 / 4)))) (\<lambda>name. 1 / 4)" "values_admit [(''energy'', point (1 / 32))] (\<lambda>name. 1 / 32)"
  "admits (point 1) 1"
proof -
  have p: "sharp (point 1)" "sharp (point (1 / 4))" "sharp (point (1 / 32))" "admits (point 1) 1" "admits (point (1 / 4)) (1 / 4)"
    "admits (point (1 / 32)) (1 / 32)"
    by code_simp+
  show "hypothetical_ok (energy_state E 0 (point 1) (point (1 / 4)))" "effects_ok (tc_effect_branches waiting)"
    "has_ends (tc_duration waiting)"
    "values_admit (pb_values (energy_branch (point (1 / 4)))) (\<lambda>name. 1 / 4)" "values_admit [(''energy'', point (1 / 32))] (\<lambda>name. 1 / 32)"
    "admits (point 1) 1"
    using p sharp_ends by (auto simp: hypothetical_ok_def energy_state_def energy_branch_def envelopes_ok_def BRANCH_CEILING_def effects_ok_def
        waiting_def values_admit_def)
qed

theorem transition_encloses_witness:
  "values_admit (pb_values (energy_branch rested)) (after_effects [(''energy'', point (1 / 32))] (\<lambda>name. 1 / 4) (\<lambda>name. 1 / 32))
     \<and> admits one_later 2"
proof -
  have f: "hy_physiology_branches (energy_state E n t e) = [energy_branch e]" "hy_elapsed_time (energy_state E n t e) = t" for E n t e
    by (simp_all add: energy_state_def)
  have at: "energy_branch (point (1 / 4)) \<in> set (hy_physiology_branches (energy_state plain_env 0 (point 1) (point (1 / 4))))"
    "[(''energy'', point (1 / 32))] \<in> set (tc_effect_branches waiting)"
    "admits (hy_elapsed_time (energy_state plain_env 0 (point 1) (point (1 / 4)))) 1" "admits (tc_duration waiting) 1"
    using waiting_ok(6) by (simp_all add: f) (simp_all add: waiting_def)
  from transition_encloses [OF waiting_ok(1,2,3) waits _ at(1,2) waiting_ok(4,5) at(3,4)]
  show ?thesis by (auto simp: f)
qed

end
