(* ===== verification/Continuation.thy ===== *)
theory Continuation
  imports Hypothetical
begin

text \<open>
  \<open>hypothetical/continuation.py\<close>: whether after every supported outcome of a candidate some order of regulatory services, none
  used twice and at most four, brings the obligations back into their viable bands. The search is over hypothetical states; its
  lists of witnesses and reasons, which the code mutates in place, are the record \<open>walk\<close>. A witness is the JSON text of a plan.
\<close>

section \<open>Completion and single services\<close>

definition MAX_CONTINUATION_DEPTH :: int where "MAX_CONTINUATION_DEPTH = 4"
definition MAX_SERVICE_ORDERS :: nat where "MAX_SERVICE_ORDERS = 24"

record continuation_proof =
  cp_status :: transition_status
  cp_reason :: string
  cp_witnesses :: "(string \<times> string) list"
  cp_max_active_paths :: nat
  cp_unknown_reasons :: "string list"

definition branch_key :: "hash_env \<Rightarrow> nat \<Rightarrow> string \<Rightarrow> string" where
  "branch_key E index identity = ''branch:'' @ nat_str index @ '':'' @ identity"

text \<open>\<open>_obligations_complete\<close>: the first variable that decides, in the order of the two loops.\<close>

definition obligation_status :: "physiology_branch \<Rightarrow> string \<Rightarrow> transition_status res" where
  "obligation_status branch owner =
     (case map_of (pb_values branch) owner of
        None \<Rightarrow> Inr Unknown
      | Some value \<Rightarrow>
          if \<not> categorical_supported value then Inr Unknown
          else (case ends_of value of
              None \<Rightarrow> Inr Unknown
            | Some (lo, hi) \<Rightarrow> andThen (ditem owner BOUNDS) (\<lambda>b.
                Inr (if \<not> in_viable_band b lo \<or> \<not> in_viable_band b hi then Unsupported else Supported))))"

fun first_not_supported :: "('a \<Rightarrow> transition_status res) \<Rightarrow> 'a list \<Rightarrow> transition_status res" where
  "first_not_supported f [] = Inr Supported"
| "first_not_supported f (x # xs) = andThen (f x) (\<lambda>st. if st = Supported then first_not_supported f xs else Inr st)"

definition obligations_complete :: "hypothetical_state \<Rightarrow> string list \<Rightarrow> transition_status res" where
  "obligations_complete s obligations =
     first_not_supported (\<lambda>(branch, owner). obligation_status branch owner) (List.product (hy_physiology_branches s) obligations)"

definition service_covers :: "source_service \<Rightarrow> string list \<Rightarrow> bool" where
  "service_covers svc remaining \<longleftrightarrow> set (sv_owners (ss_service svc)) \<inter> set remaining \<noteq> {}"

definition service_id :: "source_service \<Rightarrow> string" where
  "service_id svc = sv_semantic_identity (ss_service svc)"

definition horizon_supports :: "hypothetical_state \<Rightarrow> source_service \<Rightarrow> transition_status" where
  "horizon_supports s svc =
     (let horizon = ss_persistence_horizon svc; duration = sv_duration (ss_service svc);
          or0 = (\<lambda>x. case x of None \<Rightarrow> Fin 0 | Some y \<Rightarrow> y) in
      if \<not> categorical_supported (hy_elapsed_time s) \<or> \<not> categorical_supported horizon \<or> \<not> categorical_supported duration
      then Unknown
      else if flt_le (flt_add (or0 (en_maximum (hy_elapsed_time s))) (or0 (en_maximum duration))) (or0 (en_minimum horizon))
      then Supported else Unknown)"

definition service_contract :: "source_service \<Rightarrow> transition_contract" where
  "service_contract svc = (let service = ss_service svc in
     \<lparr>tc_semantic_identity = sv_semantic_identity service, tc_duration = sv_duration service,
      tc_effect_branches = sv_effect_branches service, tc_required_evidence = sv_preconditions service,
      tc_opportunity_identity = sv_opportunity_identity service, tc_route_identity = sv_route_identity service,
      tc_availability = sv_availability service, tc_service = ss_validated svc, tc_provenance = sv_provenance service\<rparr>)"

definition service_transition :: "hash_env \<Rightarrow> hypothetical_state \<Rightarrow> source_service \<Rightarrow> transition_result res" where
  "service_transition E s svc =
     (if ss_validated svc = None
      then Inr (make_result (ss_construction_status svc) [] (ss_reason svc) (sv_provenance (ss_service svc)) (ss_dependencies svc))
      else if horizon_supports s svc \<noteq> Supported
      then Inr (make_result (horizon_supports s svc) [] ''OPPORTUNITY_HORIZON_INSUFFICIENT'' (sv_provenance (ss_service svc))
        (ss_dependencies svc))
      else andThen (make_contract E (service_contract svc)) (transition E s))"

section \<open>Witnesses\<close>

definition complete_witness :: "hash_env \<Rightarrow> string" where
  "complete_witness E = canon_json E (VDict [(''kind'', VStr ''complete'')])"

definition service_witness :: "hash_env \<Rightarrow> string \<Rightarrow> string list \<Rightarrow> string" where
  "service_witness E identity children =
     canon_json E (VDict [(''children'', v_strs children), (''kind'', VStr ''service''), (''service'', VStr identity)])"

text \<open>What the search mutates: the widest frontier, the witnesses of all orders, the reasons of ignorance.\<close>

record walk =
  wk_frontier :: nat
  wk_orders :: "string list"
  wk_reasons :: "string list"

definition note_reason :: "string \<Rightarrow> walk \<Rightarrow> walk" where
  "note_reason q w = w\<lparr>wk_reasons := List.insert q (wk_reasons w)\<rparr>"

section \<open>The search\<close>

text \<open>The loop over the successors of one service: the witnesses of the children so far, whether one is unknown, whether all are
  supported; a successor whose owners are not served ends the loop.\<close>

record children =
  ch_witnesses :: "string list list"
  ch_unknown :: bool
  ch_supported :: bool

type_synonym searcher = "hypothetical_state \<Rightarrow> string list \<Rightarrow> string list \<Rightarrow> nat \<Rightarrow> walk
  \<Rightarrow> (transition_status \<times> string list \<times> string \<times> walk) res"

fun search_children ::
  "(hypothetical_state \<Rightarrow> walk \<Rightarrow> (transition_status \<times> string list \<times> string \<times> walk) res) \<Rightarrow> string list
     \<Rightarrow> hypothetical_state list \<Rightarrow> children \<Rightarrow> walk \<Rightarrow> (children \<times> walk) res"
where
  "search_children f owners [] ch w = Inr (ch, w)"
| "search_children f owners (child # rest) ch w =
     andThen (obligations_complete child owners) (\<lambda>served.
     case served of
       Unsupported \<Rightarrow> Inr (ch\<lparr>ch_supported := False\<rparr>, w)
     | Unknown \<Rightarrow> search_children f owners rest (ch\<lparr>ch_unknown := True, ch_supported := False\<rparr>) w
     | Supported \<Rightarrow> andThen (f child w) (\<lambda>(status, witnesses, reason, w').
         search_children f owners rest
           (case status of
              Supported \<Rightarrow> ch\<lparr>ch_witnesses := ch_witnesses ch @ [witnesses]\<rparr>
            | Unknown \<Rightarrow> ch\<lparr>ch_unknown := True, ch_supported := False\<rparr>
            | Unsupported \<Rightarrow> ch\<lparr>ch_supported := False\<rparr>) w'))"

text \<open>One service of the loop: the witnesses it adds, and whether it leaves something unknown.\<close>

definition try_service ::
  "(string list \<Rightarrow> string list \<Rightarrow> nat \<Rightarrow> hypothetical_state \<Rightarrow> walk \<Rightarrow> (transition_status \<times> string list \<times> string \<times> walk) res)
     \<Rightarrow> hash_env \<Rightarrow> hypothetical_state \<Rightarrow> string list \<Rightarrow> string list \<Rightarrow> nat \<Rightarrow> source_service \<Rightarrow> walk
     \<Rightarrow> (string list \<times> bool \<times> walk) res"
where
  "try_service f E s remaining used path_factor svc w =
     (let identity = service_id svc; owners = sv_owners (ss_service svc) in
      if identity \<in> set used \<or> \<not> service_covers svc remaining then Inr ([], False, w)
      else andThen (service_transition E s svc) (\<lambda>r.
      case tr_status r of
        Unsupported \<Rightarrow> Inr ([], False, w)
      | Unknown \<Rightarrow> Inr ([], True, note_reason (tr_reason r) w)
      | Supported \<Rightarrow>
          let projected = path_factor * length (tr_successors r); w1 = w\<lparr>wk_frontier := max (wk_frontier w) projected\<rparr> in
          if BRANCH_CEILING < projected then Inr ([], True, note_reason ''BRANCH_FRONTIER_EXCEEDED'' w1)
          else andThen (search_children (f (filter (\<lambda>o'. o' \<notin> set owners) remaining) (List.insert identity used) projected)
              owners (tr_successors r) \<lparr>ch_witnesses = [], ch_unknown = False, ch_supported = True\<rparr> w1) (\<lambda>(ch, w2).
            if ch_supported ch \<and> length (ch_witnesses ch) = length (tr_successors r) then
              let ws = remdups (map (service_witness E identity) (product_lists (ch_witnesses ch)));
                  w3 = w2\<lparr>wk_orders := fold List.insert ws (wk_orders w2)\<rparr> in
              if MAX_SERVICE_ORDERS < length (wk_orders w3)
              then Inr ([], True, note_reason ''SERVICE_ORDER_FRONTIER_EXCEEDED'' w3)
              else Inr (ws, False, w3)
            else Inr ([], ch_unknown ch, w2))))"

fun try_services ::
  "(source_service \<Rightarrow> walk \<Rightarrow> (string list \<times> bool \<times> walk) res) \<Rightarrow> source_service list \<Rightarrow> string list \<Rightarrow> bool \<Rightarrow> walk
     \<Rightarrow> (string list \<times> bool \<times> walk) res"
where
  "try_services f [] found saw_unknown w = Inr (found, saw_unknown, w)"
| "try_services f (svc # rest) found saw_unknown w =
     andThen (f svc w) (\<lambda>(ws, u, w'). try_services f rest (fold List.insert ws found) (saw_unknown \<or> u) w')"

definition conclude :: "string list \<times> bool \<times> walk \<Rightarrow> transition_status \<times> string list \<times> string \<times> walk" where
  "conclude fuw = (case fuw of (found, saw_unknown, w) \<Rightarrow>
     if found \<noteq> [] then (Supported, found, ''SUPPORTED_CONTINUATION'', w)
     else if saw_unknown then (Unknown, [], ''CONTINUATION_UNKNOWN'', w)
     else (Unsupported, [], ''NO_SUPPORTED_CONTINUATION'', w))"

text \<open>\<open>_enumerate_witnesses\<close>; the first argument is the depth left, \<open>max_depth - depth\<close>. The code keeps the remaining owners in
  a frozenset and loops over it: \<open>iter\<close> is the order of that loop, which the language leaves open.\<close>

primrec enumerate_witnesses ::
  "nat \<Rightarrow> (string list \<Rightarrow> string list) \<Rightarrow> hash_env \<Rightarrow> source_service list \<Rightarrow> string list \<Rightarrow> string list \<Rightarrow> nat \<Rightarrow> hypothetical_state
     \<Rightarrow> walk \<Rightarrow> (transition_status \<times> string list \<times> string \<times> walk) res"
where
  "enumerate_witnesses 0 iter E available remaining used path_factor s w =
     andThen (obligations_complete s (iter remaining)) (\<lambda>complete.
     if complete = Supported then Inr (Supported, [complete_witness E], ''OBLIGATIONS_COMPLETE'', w)
     else Inr (Unknown, [], ''CONTINUATION_DEPTH_EXHAUSTED'', note_reason ''CONTINUATION_DEPTH_EXHAUSTED''
       (if complete = Unknown then note_reason ''PHYSIOLOGY_COMPLETION_UNKNOWN'' w else w)))"
| "enumerate_witnesses (Suc n) iter E available remaining used path_factor s w =
     andThen (obligations_complete s (iter remaining)) (\<lambda>complete.
     if complete = Supported then Inr (Supported, [complete_witness E], ''OBLIGATIONS_COMPLETE'', w)
     else andThen (try_services
         (try_service (enumerate_witnesses n iter E available) E s remaining used path_factor)
         available [] (complete = Unknown) (if complete = Unknown then note_reason ''PHYSIOLOGY_COMPLETION_UNKNOWN'' w else w))
       (\<lambda>fuw. Inr (conclude fuw)))"

text \<open>The loop over the successors of the candidate.\<close>

definition proof_of ::
  "transition_status \<Rightarrow> string \<Rightarrow> (string \<times> string) list \<Rightarrow> walk \<Rightarrow> continuation_proof" where
  "proof_of status reason found w =
     \<lparr>cp_status = status, cp_reason = reason, cp_witnesses = found, cp_max_active_paths = wk_frontier w,
      cp_unknown_reasons = sort (wk_reasons w)\<rparr>"

fun continue_branches ::
  "(hypothetical_state \<Rightarrow> walk \<Rightarrow> (transition_status \<times> string list \<times> string \<times> walk) res) \<Rightarrow> hash_env \<Rightarrow> nat
     \<Rightarrow> hypothetical_state list \<Rightarrow> (string \<times> string) list \<Rightarrow> walk \<Rightarrow> continuation_proof res"
where
  "continue_branches f E index [] found w = Inr (proof_of Supported ''ROBUST_BOUNDED_CONTINUATION_SUPPORTED'' found w)"
| "continue_branches f E index (branch # rest) found w =
     andThen (f branch w) (\<lambda>(status, witnesses, reason, w').
     case status of
       Supported \<Rightarrow> continue_branches f E (index + 1) rest
         (found @ [(branch_key E index (semantic_identity E branch), hd (sort witnesses))]) w'
     | Unknown \<Rightarrow> Inr (proof_of Unknown ''BRANCH_CONTINUATION_UNKNOWN'' found (note_reason reason w'))
     | Unsupported \<Rightarrow> Inr (proof_of Unsupported ''BRANCH_HAS_NO_SUPPORTED_CONTINUATION'' found w'))"

definition bare_proof :: "transition_status \<Rightarrow> string \<Rightarrow> nat \<Rightarrow> continuation_proof" where
  "bare_proof status reason paths =
     \<lparr>cp_status = status, cp_reason = reason, cp_witnesses = [], cp_max_active_paths = paths, cp_unknown_reasons = []\<rparr>"

definition bounded_continuation_status ::
  "(string list \<Rightarrow> string list) \<Rightarrow> hash_env \<Rightarrow> hypothetical_state \<Rightarrow> transition_contract \<Rightarrow> source_service list \<Rightarrow> string list
     \<Rightarrow> int \<Rightarrow> continuation_proof res"
where
  "bounded_continuation_status iter E root_state candidate services obligations max_depth =
     (if max_depth < 1 \<or> MAX_CONTINUATION_DEPTH < max_depth
      then Inr (bare_proof Unknown ''CONTINUATION_DEPTH_OUT_OF_CONTRACT'' 0)
      else
        let required = sort (remdups obligations); available = sort_key service_id services in
        if required = [] then Inr (bare_proof Unsupported ''NO_ACTIVE_REGULATORY_OBLIGATIONS'' 0)
        else andThen (transition E root_state candidate) (\<lambda>current.
          if tr_status current \<noteq> Supported then
            (let ceiling = tr_reason current = ''BRANCH_CEILING_EXCEEDED'' in
             Inr (bare_proof (if ceiling then Unknown else tr_status current)
               (if ceiling then ''BRANCH_FRONTIER_EXCEEDED'' else ''CURRENT_CANDIDATE_'' @ tr_reason current)
               (length (tr_successors current))))
          else continue_branches
            (enumerate_witnesses (nat max_depth) iter E available required [] (max 1 (length (tr_successors current))))
            E 0 (tr_successors current) [] \<lparr>wk_frontier = length (tr_successors current), wk_orders = [], wk_reasons = []\<rparr>))"

section \<open>Sets of continuations\<close>

type_synonym continuation_set = "(string \<times> string list) list"

definition continuation_from_mapping :: "string list dict \<Rightarrow> continuation_set" where
  "continuation_from_mapping mapping = sorted_items (map (\<lambda>(k, vs). (k, sort (remdups vs))) mapping)"

definition isolated_branch :: "hash_env \<Rightarrow> hypothetical_state \<Rightarrow> physiology_branch \<Rightarrow> hypothetical_state res" where
  "isolated_branch E root_state branch = make_state E (root_state\<lparr>hy_physiology_branches := [branch], hy_material_fingerprint := []\<rparr>)"

definition root_continuation_set ::
  "(string list \<Rightarrow> string list) \<Rightarrow> hash_env \<Rightarrow> hypothetical_state \<Rightarrow> source_service list \<Rightarrow> string list \<Rightarrow> int \<Rightarrow> continuation_set res"
where
  "root_continuation_set iter E root_state services obligations max_depth =
     (let required = sort (remdups obligations); available = sort_key service_id services in
      andThen (foldE (\<lambda>mapping (index, branch).
          andThen (isolated_branch E root_state branch) (\<lambda>s.
          andThen (enumerate_witnesses (nat max_depth) iter E available required [] 1 s
            \<lparr>wk_frontier = 1, wk_orders = [], wk_reasons = []\<rparr>) (\<lambda>(status, witnesses, reason, w).
          Inr (if witnesses = [] then mapping
            else dput (branch_key E index (hash_canonical E (branch_to_canonical branch))) witnesses mapping))))
        [] (enumerate 0 (hy_physiology_branches root_state))) (\<lambda>mapping.
      Inr (continuation_from_mapping mapping)))"

definition strict_continuation_superset :: "continuation_set \<Rightarrow> continuation_set \<Rightarrow> transition_status" where
  "strict_continuation_superset left right =
     (if set (dkeys left) \<noteq> set (dkeys right) then Unknown
      else if list_ex (\<lambda>(branch, vs). \<not> set (dget [] branch right) \<subseteq> set vs) left then Unsupported
      else if list_ex (\<lambda>(branch, vs). set vs \<noteq> set (dget [] branch right)) left then Supported else Unsupported)"

section \<open>One service after every branch\<close>

text \<open>\<open>robust_continuation_status\<close>: the services each branch supports, in a loop that stops at the first branch without one.\<close>

fun supporting_services ::
  "hash_env \<Rightarrow> hypothetical_state \<Rightarrow> source_service list \<Rightarrow> string list \<times> bool \<times> string list \<times> nat
     \<Rightarrow> (continuation_proof + string list \<times> bool \<times> string list \<times> nat) res"
where
  "supporting_services E branch [] acc = Inr (Inr acc)"
| "supporting_services E branch (svc # rest) (found, unknown, reasons, paths) =
     andThen (service_transition E branch svc) (\<lambda>outcome.
     if BRANCH_CEILING < length (tr_successors outcome)
     then Inr (Inl (bare_proof Unknown ''BRANCH_FRONTIER_EXCEEDED'' (length (tr_successors outcome))))
     else supporting_services E branch rest
       (let paths' = max paths (length (tr_successors outcome)) in
        case tr_status outcome of
          Supported \<Rightarrow> (found @ [service_id svc], unknown, reasons, paths')
        | Unknown \<Rightarrow> (found, True, reasons @ [tr_reason outcome], paths')
        | Unsupported \<Rightarrow> (found, unknown, reasons, paths')))"

fun robust_branches ::
  "hash_env \<Rightarrow> source_service list \<Rightarrow> hypothetical_state list \<Rightarrow> (string \<times> string) list \<Rightarrow> string list \<Rightarrow> nat \<Rightarrow> continuation_proof res"
where
  "robust_branches E services [] found reasons paths =
     Inr \<lparr>cp_status = Supported, cp_reason = ''ROBUST_CONTINUATION_SUPPORTED'', cp_witnesses = found, cp_max_active_paths = paths,
       cp_unknown_reasons = []\<rparr>"
| "robust_branches E services (branch # rest) found reasons paths =
     andThen (supporting_services E branch services ([], False, reasons, paths)) (\<lambda>out.
     case out of
       Inl p \<Rightarrow> Inr p
     | Inr (supported, unknown, reasons', paths') \<Rightarrow>
         if supported \<noteq> [] then robust_branches E services rest (found @ [(semantic_identity E branch, hd (sort supported))]) reasons' paths'
         else Inr \<lparr>cp_status = (if unknown then Unknown else Unsupported),
           cp_reason = (if unknown then ''BRANCH_CONTINUATION_UNKNOWN'' else ''BRANCH_HAS_NO_SUPPORTED_CONTINUATION''),
           cp_witnesses = found, cp_max_active_paths = paths', cp_unknown_reasons = (if unknown then sort (remdups reasons') else [])\<rparr>)"

definition robust_continuation_status ::
  "hash_env \<Rightarrow> hypothetical_state \<Rightarrow> transition_contract \<Rightarrow> source_service list \<Rightarrow> continuation_proof res" where
  "robust_continuation_status E root_state candidate services =
     andThen (transition E root_state candidate) (\<lambda>current.
     if tr_status current \<noteq> Supported then
       Inr (if tr_reason current = ''BRANCH_CEILING_EXCEEDED'' then bare_proof Unknown ''BRANCH_FRONTIER_EXCEEDED'' (BRANCH_CEILING + 1)
         else bare_proof (tr_status current) (''CURRENT_CANDIDATE_'' @ tr_reason current) (length (tr_successors current)))
     else if BRANCH_CEILING < length (tr_successors current)
     then Inr (bare_proof Unknown ''BRANCH_FRONTIER_EXCEEDED'' (length (tr_successors current)))
     else robust_branches E services (tr_successors current) [] [] (length (tr_successors current)))"

section \<open>Plans\<close>

text \<open>What a witness describes: nothing more to do, or a service and a plan for each of its outcomes.\<close>

datatype plan = Done | Serve string "plan list"

primrec plan_text :: "hash_env \<Rightarrow> plan \<Rightarrow> string" where
  "plan_text E Done = complete_witness E"
| "plan_text E (Serve identity ps) = service_witness E identity (map (plan_text E) ps)"

text \<open>A plan over hypothetical states: the first argument bounds its height.\<close>

definition all_complete :: "hypothetical_state \<Rightarrow> string list \<Rightarrow> bool" where
  "all_complete s owners \<longleftrightarrow>
     (\<forall>b \<in> set (hy_physiology_branches s). \<forall>o' \<in> set owners. obligation_status b o' = Inr Supported)"

definition serves_by ::
  "(string list \<Rightarrow> string list \<Rightarrow> hypothetical_state \<Rightarrow> plan \<Rightarrow> bool) \<Rightarrow> hash_env \<Rightarrow> string list \<Rightarrow> string list \<Rightarrow> hypothetical_state
     \<Rightarrow> source_service \<Rightarrow> plan list \<Rightarrow> bool"
where
  "serves_by F E remaining used s svc ps \<longleftrightarrow>
     service_id svc \<notin> set used \<and> service_covers svc remaining \<and>
     (\<exists>r. service_transition E s svc = Inr r \<and> tr_status r = Supported \<and>
       list_all2 (\<lambda>t q. all_complete t (sv_owners (ss_service svc)) \<and>
         F (filter (\<lambda>o'. o' \<notin> set (sv_owners (ss_service svc))) remaining) (List.insert (service_id svc) used) t q)
         (tr_successors r) ps)"

primrec follows ::
  "nat \<Rightarrow> hash_env \<Rightarrow> source_service list \<Rightarrow> string list \<Rightarrow> string list \<Rightarrow> hypothetical_state \<Rightarrow> plan \<Rightarrow> bool"
where
  "follows 0 E available remaining used s p \<longleftrightarrow> p = Done \<and> all_complete s remaining"
| "follows (Suc k) E available remaining used s p \<longleftrightarrow>
     p = Done \<and> all_complete s remaining \<or>
     (\<exists>svc \<in> set available. \<exists>ps. p = Serve (service_id svc) ps \<and> serves_by (follows k E available) E remaining used s svc ps)"

text \<open>A plan over concrete physiologies: whatever the effects, within the evidence, the owners of every service used are viable
  after it, and at the end the obligations left are.\<close>

definition viable_value :: "string \<Rightarrow> rat \<Rightarrow> bool" where
  "viable_value name x \<longleftrightarrow> (case map_of BOUNDS name of None \<Rightarrow> False | Some b \<Rightarrow> in_viable_band b (Fin x))"

primrec works :: "nat \<Rightarrow> source_service list \<Rightarrow> string list \<Rightarrow> (string \<Rightarrow> rat) \<Rightarrow> plan \<Rightarrow> bool" where
  "works 0 services remaining v p \<longleftrightarrow> p = Done \<and> (\<forall>o' \<in> set remaining. viable_value o' (v o'))"
| "works (Suc k) services remaining v p \<longleftrightarrow>
     p = Done \<and> (\<forall>o' \<in> set remaining. viable_value o' (v o')) \<or>
     (\<exists>svc \<in> set services. \<exists>ps. p = Serve (service_id svc) ps \<and>
       (\<forall>effects \<in> set (sv_effect_branches (ss_service svc)). \<forall>d. values_admit effects d \<longrightarrow>
         (\<forall>o' \<in> set (sv_owners (ss_service svc)). viable_value o' (after_effects effects v d o')) \<and>
         (\<exists>q \<in> set ps. works k services (filter (\<lambda>o'. o' \<notin> set (sv_owners (ss_service svc))) remaining)
           (after_effects effects v d) q)))"

section \<open>The search finds plans\<close>

lemma first_not_supported_iff:
  "first_not_supported f xs = Inr Supported \<longleftrightarrow> (\<forall>x \<in> set xs. f x = Inr Supported)"
  by (induction xs) (auto simp: andThen_eq_Inr)

lemma obligations_complete_iff: "obligations_complete s owners = Inr Supported \<longleftrightarrow> all_complete s owners"
  by (simp add: obligations_complete_def first_not_supported_iff all_complete_def)

text \<open>What the verdict on one state says of the plans \<open>F\<close> allows.\<close>

definition verdict_ok :: "hash_env \<Rightarrow> (plan \<Rightarrow> bool) \<Rightarrow> transition_status \<Rightarrow> string list \<Rightarrow> bool" where
  "verdict_ok E F status witnesses \<longleftrightarrow>
     (status = Supported \<longrightarrow> witnesses \<noteq> [] \<and> (\<forall>x \<in> set witnesses. \<exists>p. x = plan_text E p \<and> F p)) \<and>
     (status = Unsupported \<longrightarrow> \<not> (\<exists>p. F p))"

lemma search_children_sound:
  assumes "search_children f owners ts ch w = Inr (ch', w')"
    and "\<And>t w status ws q w'. f t w = Inr (status, ws, q, w') \<Longrightarrow> verdict_ok E (F t) status ws"
  shows "(ch_unknown ch \<longrightarrow> ch_unknown ch') \<and>
    (ch_supported ch' \<longrightarrow> ch_supported ch \<and> (\<exists>wss. ch_witnesses ch' = ch_witnesses ch @ wss \<and>
       list_all2 (\<lambda>t ws. all_complete t owners \<and> ws \<noteq> [] \<and> (\<forall>x \<in> set ws. \<exists>p. x = plan_text E p \<and> F t p)) ts wss)) \<and>
    (\<not> ch_supported ch' \<and> \<not> ch_unknown ch' \<longrightarrow>
       \<not> ch_supported ch \<or> (\<exists>t \<in> set ts. \<not> all_complete t owners \<or> \<not> (\<exists>p. F t p)))"
  using assms(1)
proof (induction ts arbitrary: ch w)
  case (Cons t ts)
  from Cons.prems obtain served where served: "obligations_complete t owners = Inr served"
    by (auto simp: andThen_eq_Inr)
  show ?case
  proof (cases served)
    case Unsupported
    then have "\<not> all_complete t owners" using served by (simp flip: obligations_complete_iff)
    then show ?thesis using Cons.prems served Unsupported by auto
  next
    case Unknown
    then show ?thesis using Cons.IH [of "ch\<lparr>ch_unknown := True, ch_supported := False\<rparr>" w] Cons.prems served by auto
  next
    case Supported
    then have c: "all_complete t owners" using served by (simp flip: obligations_complete_iff)
    from Cons.prems served Supported obtain status ws q w1 where f: "f t w = Inr (status, ws, q, w1)"
      by (auto simp: andThen_eq_Inr)
    note v = assms(2) [OF f]
    show ?thesis
    proof (cases status)
      case Supported': Supported
      have r: "search_children f owners ts (ch\<lparr>ch_witnesses := ch_witnesses ch @ [ws]\<rparr>) w1 = Inr (ch', w')"
        using Cons.prems served Supported f Supported' by simp
      have good: "ws \<noteq> [] \<and> (\<forall>x \<in> set ws. \<exists>p. x = plan_text E p \<and> F t p)" using v Supported' by (simp add: verdict_ok_def)
      show ?thesis
      proof (intro conjI impI)
        assume s': "ch_supported ch'"
        then obtain wss where wss: "ch_supported ch" "ch_witnesses ch' = ch_witnesses ch @ [ws] @ wss"
          "list_all2 (\<lambda>t ws. all_complete t owners \<and> ws \<noteq> [] \<and> (\<forall>x \<in> set ws. \<exists>p. x = plan_text E p \<and> F t p)) ts wss"
          using Cons.IH [OF r] by auto
        then show "\<exists>wss. ch_witnesses ch' = ch_witnesses ch @ wss \<and> list_all2 (\<lambda>t ws. all_complete t owners \<and> ws \<noteq> [] \<and>
            (\<forall>x \<in> set ws. \<exists>p. x = plan_text E p \<and> F t p)) (t # ts) wss"
          using c good by (intro exI [of _ "ws # wss"]) simp
      qed (use Cons.IH [OF r] in auto)
    next
      case Unsupported
      then show ?thesis using Cons.IH [of "ch\<lparr>ch_supported := False\<rparr>" w1] Cons.prems served Supported f v
        by (auto simp: verdict_ok_def)
    next
      case Unknown
      then show ?thesis using Cons.IH [of "ch\<lparr>ch_unknown := True, ch_supported := False\<rparr>" w1] Cons.prems served Supported f by auto
    qed
  qed
qed auto

lemma choose_plans:
  "list_all2 (\<lambda>t x. \<exists>p. x = plan_text E p \<and> P t p) ts xs \<Longrightarrow> \<exists>ps. xs = map (plan_text E) ps \<and> list_all2 P ts ps"
proof (induction rule: list_all2_induct)
  case (Cons t ts x xs)
  then obtain p ps where "x = plan_text E p" "P t p" "xs = map (plan_text E) ps" "list_all2 P ts ps" by blast
  then show ?case by (intro exI [of _ "p # ps"]) simp
qed simp

lemma product_lists_ne: "(\<And>ws. ws \<in> set wss \<Longrightarrow> ws \<noteq> []) \<Longrightarrow> product_lists wss \<noteq> []"
  by (induction wss) auto

lemma combinations_are_plans:
  assumes "list_all2 (\<lambda>t ws. ws \<noteq> [] \<and> (\<forall>x \<in> set ws. \<exists>p. x = plan_text E p \<and> P t p)) ts wss"
  shows "product_lists wss \<noteq> []"
    and "x \<in> set (map (service_witness E identity) (product_lists wss)) \<Longrightarrow>
      \<exists>ps. x = plan_text E (Serve identity ps) \<and> list_all2 P ts ps"
proof -
  show "product_lists wss \<noteq> []"
    by (rule product_lists_ne) (use assms in \<open>auto simp: list_all2_conv_all_nth in_set_conv_nth\<close>)
  assume "x \<in> set (map (service_witness E identity) (product_lists wss))"
  then obtain xs where xs: "x = service_witness E identity xs" "list_all2 (\<lambda>y ws. y \<in> set ws) xs wss"
    by (auto simp: product_lists_set)
  have "list_all2 (\<lambda>t y. \<exists>p. y = plan_text E p \<and> P t p) ts xs"
    using assms xs(2) by (auto simp: list_all2_conv_all_nth)
  then show "\<exists>ps. x = plan_text E (Serve identity ps) \<and> list_all2 P ts ps"
    using choose_plans xs(1) by fastforce
qed

lemma insert_all_set [simp]: "set (fold List.insert xs ys) = set xs \<union> set ys"
  by (induction xs arbitrary: ys) auto

lemma insert_all_empty [simp]: "fold List.insert xs ys = [] \<longleftrightarrow> xs = [] \<and> ys = []"
  by (metis insert_all_set set_empty sup_eq_bot_iff)

lemma try_service_sound:
  assumes "try_service f E s remaining used factor svc w = Inr (ws, u, w')"
    and "\<And>rem us fac t w status xs q w'. f rem us fac t w = Inr (status, xs, q, w') \<Longrightarrow> verdict_ok E (F rem us t) status xs"
  shows "(\<forall>x \<in> set ws. \<exists>ps. x = plan_text E (Serve (service_id svc) ps) \<and> serves_by F E remaining used s svc ps) \<and>
    (\<not> u \<and> ws = [] \<longrightarrow> \<not> (\<exists>ps. serves_by F E remaining used s svc ps))"
proof (cases "service_id svc \<in> set used \<or> \<not> service_covers svc remaining")
  case True
  then show ?thesis using assms(1) by (auto simp: try_service_def serves_by_def)
next
  case False
  let ?owners = "sv_owners (ss_service svc)"
  let ?rem = "filter (\<lambda>o'. o' \<notin> set ?owners) remaining" and ?used = "List.insert (service_id svc) used"
  obtain r where r: "service_transition E s svc = Inr r"
    using assms(1) False by (auto simp: try_service_def Let_def andThen_eq_Inr)
  show ?thesis
  proof (cases "tr_status r")
    case Supported
    let ?factor = "factor * length (tr_successors r)"
    let ?w1 = "w\<lparr>wk_frontier := max (wk_frontier w) ?factor\<rparr>"
    let ?ch0 = "\<lparr>ch_witnesses = [], ch_unknown = False, ch_supported = True\<rparr>"
    show ?thesis
    proof (cases "BRANCH_CEILING < ?factor")
      case True
      then have "ws = []" "u" using assms(1) False r Supported by (auto simp: try_service_def Let_def)
      then show ?thesis by simp
    next
      case small: False
      then obtain ch w2 where ch: "search_children (f ?rem ?used ?factor) ?owners (tr_successors r) ?ch0 ?w1 = Inr (ch, w2)"
        using assms(1) False r Supported by (auto simp: try_service_def Let_def andThen_eq_Inr)
      have sound: "(ch_supported ch \<longrightarrow> (\<exists>wss. ch_witnesses ch = wss \<and>
           list_all2 (\<lambda>t ws. all_complete t ?owners \<and> ws \<noteq> [] \<and> (\<forall>x \<in> set ws. \<exists>p. x = plan_text E p \<and> F ?rem ?used t p))
             (tr_successors r) wss)) \<and>
        (\<not> ch_supported ch \<and> \<not> ch_unknown ch \<longrightarrow>
           (\<exists>t \<in> set (tr_successors r). \<not> all_complete t ?owners \<or> \<not> (\<exists>p. F ?rem ?used t p)))"
        using search_children_sound [OF ch assms(2)] by simp
      show ?thesis
      proof (cases "ch_supported ch")
        case True
        let ?P = "\<lambda>t q. all_complete t ?owners \<and> F ?rem ?used t q"
        have all: "list_all2 (\<lambda>t ws. ws \<noteq> [] \<and> (\<forall>x \<in> set ws. \<exists>p. x = plan_text E p \<and> ?P t p)) (tr_successors r) (ch_witnesses ch)"
          using sound True by (auto elim: list_all2_mono)
        note plans = combinations_are_plans [OF all]
        have res: "if u then ws = [] else ws = remdups (map (service_witness E (service_id svc)) (product_lists (ch_witnesses ch)))"
          using assms(1) False r Supported small ch True list_all2_lengthD [OF all]
          by (auto simp: try_service_def Let_def split: if_splits)
        have "serves_by F E remaining used s svc ps" if "list_all2 ?P (tr_successors r) ps" for ps
          using False r Supported that by (auto simp: serves_by_def)
        then have "\<exists>ps. x = plan_text E (Serve (service_id svc) ps) \<and> serves_by F E remaining used s svc ps"
          if "x \<in> set (map (service_witness E (service_id svc)) (product_lists (ch_witnesses ch)))" for x
          using plans(2) [OF that] by blast
        moreover have "ws \<noteq> []" if "\<not> u" using res that plans(1) by simp
        ultimately show ?thesis using res by (cases u) auto
      next
        case unsup: False
        then have "ws = []" "u = ch_unknown ch"
          using assms(1) False r Supported small ch by (auto simp: try_service_def Let_def)
        moreover have "\<not> serves_by F E remaining used s svc ps" if no: "\<not> ch_unknown ch" for ps
        proof
          assume "serves_by F E remaining used s svc ps"
          then have "list_all2 (\<lambda>t q. all_complete t ?owners \<and> F ?rem ?used t q) (tr_successors r) ps"
            using r by (auto simp: serves_by_def)
          from list_all2_member [OF this] have "\<forall>t \<in> set (tr_successors r). all_complete t ?owners \<and> (\<exists>p. F ?rem ?used t p)"
            by blast
          then show False using sound unsup no by blast
        qed
        ultimately show ?thesis by auto
      qed
    qed
  next
    case Unsupported
    then show ?thesis using assms(1) False r by (auto simp: try_service_def serves_by_def)
  next
    case Unknown
    then show ?thesis using assms(1) False r by (auto simp: try_service_def)
  qed
qed

lemma try_services_sound:
  assumes "try_services f svcs found u w = Inr (found', u', w')"
    and "\<And>svc w ws u w'. f svc w = Inr (ws, u, w') \<Longrightarrow> (\<forall>x \<in> set ws. Good svc x) \<and> (\<not> u \<and> ws = [] \<longrightarrow> None_for svc)"
  shows "(\<forall>x \<in> set found'. x \<in> set found \<or> (\<exists>svc \<in> set svcs. Good svc x)) \<and>
    (found' = [] \<and> \<not> u' \<longrightarrow> found = [] \<and> \<not> u \<and> (\<forall>svc \<in> set svcs. None_for svc))"
  using assms(1)
proof (induction svcs arbitrary: found u w)
  case (Cons svc svcs)
  then obtain ws u1 w1 where f: "f svc w = Inr (ws, u1, w1)"
    "try_services f svcs (fold List.insert ws found) (u \<or> u1) w1 = Inr (found', u', w')"
    by (auto simp: andThen_eq_Inr)
  show ?case using Cons.IH [OF f(2)] assms(2) [OF f(1)] by (simp only: insert_all_set insert_all_empty) auto
qed auto

lemma enumerate_sound:
  assumes "\<And>xs. set (iter xs) = set xs"
  shows "enumerate_witnesses n iter E available remaining used factor s w = Inr (status, ws, q, w') \<Longrightarrow>
    verdict_ok E (follows n E available remaining used s) status ws"
proof (induction n arbitrary: remaining used factor s w status ws q w')
  case 0
  have "obligations_complete s (iter remaining) = Inr Supported \<longleftrightarrow> all_complete s remaining"
    by (simp add: obligations_complete_iff all_complete_def assms)
  then show ?case using 0 by (auto simp: verdict_ok_def andThen_eq_Inr split: if_splits intro: exI [of _ Done])
next
  case (Suc n)
  have done_iff: "obligations_complete s (iter remaining) = Inr Supported \<longleftrightarrow> all_complete s remaining"
    by (simp add: obligations_complete_iff all_complete_def assms)
  obtain complete where c: "obligations_complete s (iter remaining) = Inr complete" using Suc.prems by (auto simp: andThen_eq_Inr)
  show ?case
  proof (cases "complete = Supported")
    case True
    then show ?thesis using Suc.prems c done_iff by (auto simp: verdict_ok_def intro!: exI [of _ Done])
  next
    case False
    let ?w = "if complete = Unknown then note_reason ''PHYSIOLOGY_COMPLETION_UNKNOWN'' w else w"
    let ?f = "try_service (enumerate_witnesses n iter E available) E s remaining used factor"
    let ?F = "follows n E available"
    obtain found u w1 where t: "try_services ?f available [] (complete = Unknown) ?w = Inr (found, u, w1)"
      and out: "conclude (found, u, w1) = (status, ws, q, w')"
      using Suc.prems c False by (auto simp: andThen_eq_Inr)
    have one: "(\<forall>x \<in> set ws. \<exists>ps. x = plan_text E (Serve (service_id svc) ps) \<and> serves_by ?F E remaining used s svc ps) \<and>
        (\<not> u \<and> ws = [] \<longrightarrow> \<not> (\<exists>ps. serves_by ?F E remaining used s svc ps))"
      if "?f svc w = Inr (ws, u, w')" for svc w ws u w'
      by (rule try_service_sound [OF that]) (rule Suc.IH)
    have sound: "(\<forall>x \<in> set found. \<exists>svc \<in> set available. \<exists>ps. x = plan_text E (Serve (service_id svc) ps)
          \<and> serves_by ?F E remaining used s svc ps) \<and>
        (found = [] \<and> \<not> u \<longrightarrow> complete \<noteq> Unknown \<and> (\<forall>svc \<in> set available. \<not> (\<exists>ps. serves_by ?F E remaining used s svc ps)))"
      using try_services_sound [where Good = "\<lambda>svc x. \<exists>ps. x = plan_text E (Serve (service_id svc) ps) \<and>
          serves_by ?F E remaining used s svc ps" and None_for = "\<lambda>svc. \<not> (\<exists>ps. serves_by ?F E remaining used s svc ps)", OF t one]
      by auto
    have not_done: "\<not> all_complete s remaining" using c False done_iff by simp
    show ?thesis
    proof (cases "found = []")
      case True
      have "\<not> follows (Suc n) E available remaining used s p" if "\<not> u" for p
        using sound True that not_done by auto
      then show ?thesis using out True by (cases u) (auto simp: verdict_ok_def conclude_def)
    next
      case ne: False
      have "\<exists>p. x = plan_text E p \<and> follows (Suc n) E available remaining used s p" if "x \<in> set found" for x
      proof -
        from sound that obtain svc ps where svc: "svc \<in> set available" "x = plan_text E (Serve (service_id svc) ps)"
          "serves_by ?F E remaining used s svc ps" by blast
        then have "follows (Suc n) E available remaining used s (Serve (service_id svc) ps)" by auto
        then show ?thesis using svc(2) by blast
      qed
      then show ?thesis using out ne by (simp add: verdict_ok_def conclude_def del: follows.simps)
    qed
  qed
qed

section \<open>Plans work\<close>

lemma viable_between:
  "in_viable_band b lo \<Longrightarrow> in_viable_band b hi \<Longrightarrow> flt_le lo x \<Longrightarrow> flt_le x hi \<Longrightarrow> in_viable_band b x"
  unfolding in_viable_band_def using flt_le_trans by blast

lemma complete_viable:
  assumes "all_complete s owners" and "b \<in> set (hy_physiology_branches s)" and "values_admit (pb_values b) v" and "o' \<in> set owners"
  shows "viable_value o' (v o')"
proof -
  have "obligation_status b o' = Inr Supported" using assms by (simp add: all_complete_def)
  then obtain e lo hi bd where e: "map_of (pb_values b) o' = Some e" "ends_of e = Some (lo, hi)" "map_of BOUNDS o' = Some bd"
    "in_viable_band bd lo" "in_viable_band bd hi"
    by (auto simp: obligation_status_def andThen_eq_Inr ditem_def split: option.splits if_splits)
  have "admits e (v o')" using assms(3) e(1) by (simp add: values_admit_def)
  then have "flt_le lo (Fin (v o'))" "flt_le (Fin (v o')) hi" using e(2) by (simp_all add: admits_def)
  from viable_between [OF e(4,5) this] show ?thesis using e(3) by (simp add: viable_value_def)
qed

lemma sorted_effects:
  assumes "dwf effects"
  shows "values_admit (sorted_items effects) d = values_admit effects d"
    and "after_effects (sorted_items effects) v d = after_effects effects v d"
  using sorted_items_lookup [OF assms] by (auto simp: values_admit_def after_effects_def)

text \<open>What construction guarantees of a service: lawful effects, and no supported status without a validation.\<close>

definition service_ok :: "source_service \<Rightarrow> bool" where
  "service_ok svc \<longleftrightarrow> effects_ok (sv_effect_branches (ss_service svc)) \<and>
     (ss_validated svc = None \<longrightarrow> ss_construction_status svc \<noteq> Supported)"

lemma service_step:
  assumes "hypothetical_ok s" and "service_ok svc"
    and "service_transition E s svc = Inr r" and "tr_status r = Supported"
    and "b \<in> set (hy_physiology_branches s)" and "values_admit (pb_values b) v"
    and "effects \<in> set (sv_effect_branches (ss_service svc))" and "values_admit effects d"
  obtains t b' where "t \<in> set (tr_successors r)" "hypothetical_ok t" "hy_physiology_branches t = [b']"
    "values_admit (pb_values b') (after_effects effects v d)"
proof -
  let ?bs = "frozen_branches E (sv_effect_branches (ss_service svc))"
  obtain c where c: "transition E s c = Inr r" "tc_effect_branches c = ?bs"
    using assms(2,3,4)
    by (auto simp: service_ok_def service_transition_def make_contract_def service_contract_def Let_def andThen_eq_Inr split: if_splits)
  have bs_ok: "effects_ok (sv_effect_branches (ss_service svc))" using assms(2) by (simp add: service_ok_def)
  have ok: "effects_ok (tc_effect_branches c)" using frozen_effects_ok [OF bs_ok] c(2) by simp
  have wf: "envelopes_ok effects" "dwf effects"
    using bs_ok assms(7) by (auto simp: effects_ok_def list_all_iff envelopes_ok_def)
  have "(b, sorted_items effects) \<in> set (List.product (hy_physiology_branches s) (tc_effect_branches c))"
    using assms(5,7) c(2) by (auto simp: frozen_set)
  from list_all2_member [OF transition_successors [OF assms(1) ok c(1) assms(4)] this]
  obtain t where t: "t \<in> set (tr_successors r)" "hypothetical_ok t" "hy_physiology_branches t = [branch_apply b (sorted_items effects)]"
    by auto
  have "envelopes_ok (pb_values b)" "envelopes_ok (sorted_items effects)"
    using assms(1,5) wf by (auto simp: hypothetical_ok_def list_all_iff envelopes_ok_def)
  from branch_apply_admits [OF this assms(6)] have
    "values_admit (pb_values (branch_apply b (sorted_items effects))) (after_effects effects v d)"
    using assms(8) sorted_effects [OF wf(2)] by simp
  with t that show ?thesis by blast
qed

text \<open>A plan over hypothetical states is a plan over the physiologies they admit.\<close>

lemma follows_works:
  assumes "list_all service_ok available"
  shows "follows n E available remaining used s p \<Longrightarrow> hypothetical_ok s \<Longrightarrow> b \<in> set (hy_physiology_branches s) \<Longrightarrow>
    values_admit (pb_values b) v \<Longrightarrow> works n available remaining v p"
proof (induction n arbitrary: remaining used s p b v)
  case 0
  then show ?case using complete_viable [OF _ 0(3,4)] by auto
next
  case (Suc n)
  from Suc.prems(1) consider "p = Done" "all_complete s remaining"
    | svc ps where "svc \<in> set available" "p = Serve (service_id svc) ps"
      "serves_by (follows n E available) E remaining used s svc ps" by auto
  then show ?case
  proof cases
    case 1
    then show ?thesis using complete_viable [OF _ Suc.prems(3,4)] by simp
  next
    case 2
    let ?owners = "sv_owners (ss_service svc)"
    let ?rem = "filter (\<lambda>o'. o' \<notin> set ?owners) remaining"
    from 2(3) obtain r where r: "service_transition E s svc = Inr r" "tr_status r = Supported"
      "list_all2 (\<lambda>t q. all_complete t ?owners \<and> follows n E available ?rem (List.insert (service_id svc) used) t q) (tr_successors r) ps"
      by (auto simp: serves_by_def)
    have ok: "service_ok svc" using assms 2(1) by (simp add: list_all_iff)
    have "(\<forall>o' \<in> set ?owners. viable_value o' (after_effects effects v d o')) \<and>
        (\<exists>q \<in> set ps. works n available ?rem (after_effects effects v d) q)"
      if e: "effects \<in> set (sv_effect_branches (ss_service svc))" and d: "values_admit effects d" for effects d
    proof -
      obtain t b' where t: "t \<in> set (tr_successors r)" "hypothetical_ok t" "hy_physiology_branches t = [b']"
        "values_admit (pb_values b') (after_effects effects v d)"
        by (rule service_step [OF Suc.prems(2) ok r(1,2) Suc.prems(3,4) e d])
      obtain q where q: "q \<in> set ps" "all_complete t ?owners" "follows n E available ?rem (List.insert (service_id svc) used) t q"
        using list_all2_member [OF r(3) t(1)] by blast
      then show ?thesis using complete_viable [OF q(2) _ t(4)] Suc.IH [OF q(3) t(2) _ t(4)] t(3) by auto
    qed
    then show ?thesis using 2(1,2) by auto
  qed
qed

section \<open>The verdict\<close>

lemma works_cong:
  "set rem = set rem' \<Longrightarrow> set services = set services' \<Longrightarrow> works n services rem v p = works n services' rem' v p"
proof (induction n arbitrary: rem rem' v p)
  case (Suc n)
  have "works n services (filter P rem) u q = works n services' (filter P rem') u q" for P u q
    by (rule Suc.IH) (simp_all add: Suc.prems)
  then show ?case using Suc.prems by simp
qed simp

lemma serves_by_cong:
  assumes "set rem = set rem'" and "\<And>rem rem' used t q. set rem = set rem' \<Longrightarrow> F rem used t q = G rem' used t q"
  shows "serves_by F E rem used s svc ps = serves_by G E rem' used s svc ps"
proof -
  have "F (filter (\<lambda>o'. o' \<notin> set os) rem) used t q = G (filter (\<lambda>o'. o' \<notin> set os) rem') used t q" for os used t q
    by (rule assms(2)) (simp add: assms(1))
  then show ?thesis by (simp add: serves_by_def service_covers_def assms(1))
qed

lemma follows_cong:
  "set rem = set rem' \<Longrightarrow> set services = set services' \<Longrightarrow> follows n E services rem used s p = follows n E services' rem' used s p"
proof (induction n arbitrary: rem rem' used s p)
  case (Suc n)
  have "serves_by (follows n E services) E rem used s svc ps = serves_by (follows n E services') E rem' used s svc ps" for svc ps
    by (rule serves_by_cong [OF Suc.prems(1)]) (rule Suc.IH [OF _ Suc.prems(2)])
  then show ?case using Suc.prems by (simp add: all_complete_def)
qed (simp add: all_complete_def)

lemma continue_branches_sound:
  assumes "continue_branches f E i ts found w = Inr pr"
    and "\<And>t w status ws q w'. f t w = Inr (status, ws, q, w') \<Longrightarrow> verdict_ok E (F t) status ws"
  shows "(cp_status pr = Supported \<longrightarrow> set found \<subseteq> set (cp_witnesses pr) \<and>
      (\<forall>t \<in> set ts. \<exists>key p. (key, plan_text E p) \<in> set (cp_witnesses pr) \<and> F t p)) \<and>
    (cp_status pr = Unsupported \<longrightarrow> (\<exists>t \<in> set ts. \<not> (\<exists>p. F t p)))"
  using assms(1)
proof (induction ts arbitrary: i found w)
  case Nil
  then show ?case by (auto simp: proof_of_def)
next
  case (Cons t ts)
  obtain status ws q w1 where f: "f t w = Inr (status, ws, q, w1)" using Cons.prems by (auto simp: andThen_eq_Inr)
  note v = assms(2) [OF f]
  show ?case
  proof (cases status)
    case Supported
    then have "ws \<noteq> []" and good: "\<And>x. x \<in> set ws \<Longrightarrow> \<exists>p. x = plan_text E p \<and> F t p" using v by (auto simp: verdict_ok_def)
    then have "hd (sort ws) \<in> set ws" by (metis hd_in_set length_0_conv length_sort set_sort)
    then obtain p where p: "hd (sort ws) = plan_text E p" "F t p" using good by blast
    let ?kx = "(branch_key E i (semantic_identity E t), hd (sort ws))"
    have r: "continue_branches f E (i + 1) ts (found @ [?kx]) w1 = Inr pr" using Cons.prems f Supported by simp
    show ?thesis using Cons.IH [OF r] p by auto
  qed (use Cons.prems f v in \<open>auto simp: proof_of_def verdict_ok_def\<close>)
qed

lemma bounded_cases:
  assumes "bounded_continuation_status iter E root_state candidate services obligations max_depth = Inr pr"
    and "cp_status pr \<noteq> Unknown"
  obtains "obligations = []" "cp_status pr = Unsupported"
  | r where "transition E root_state candidate = Inr r" "tr_status r = Unsupported" "cp_status pr = Unsupported"
  | r w where "transition E root_state candidate = Inr r" "tr_status r = Supported"
      "continue_branches (enumerate_witnesses (nat max_depth) iter E (sort_key service_id services) (sort (remdups obligations)) []
         (max 1 (length (tr_successors r)))) E 0 (tr_successors r) [] w = Inr pr"
proof -
  let ?req = "sort (remdups obligations)"
  have "set ?req = set obligations" by simp
  then have ne: "?req = [] \<longleftrightarrow> obligations = []" by (metis set_empty)
  have range: "\<not> (max_depth < 1 \<or> MAX_CONTINUATION_DEPTH < max_depth)"
    using assms by (auto simp: bounded_continuation_status_def bare_proof_def)
  show ?thesis
  proof (cases "?req = []")
    case True
    then have "cp_status pr = Unsupported"
      using assms(1) range by (auto simp: bounded_continuation_status_def bare_proof_def)
    then show ?thesis using True ne that(1) by simp
  next
    case False
    then obtain r where r: "transition E root_state candidate = Inr r"
      using assms(1) range by (auto simp: bounded_continuation_status_def Let_def andThen_eq_Inr)
    show ?thesis
    proof (cases "tr_status r = Supported")
      case True
      then show ?thesis
        using assms(1) range False r by (intro that(3) [OF r True]) (simp add: bounded_continuation_status_def Let_def)
    next
      case no: False
      then have "cp_status pr = tr_status r"
        using assms range False r by (simp add: bounded_continuation_status_def Let_def bare_proof_def) (auto split: if_splits)
      then show ?thesis using assms(2) no that(2) r by (cases "tr_status r") simp_all
    qed
  qed
qed

text \<open>C39: a supported continuation is a promise about physiologies, not about intervals. Whatever the physiology of the root and
  the effects of the candidate are within their evidence, one of the recorded witnesses is the text of a plan that works from
  there: at most \<open>max_depth\<close> services in a row, and whatever effects within the evidence each service has, the owners of a
  service are viable right after it, and the obligations that no service of the plan owns are viable at the end. The code
  does not look at an owner again once it has been served, and neither does the promise: a later service may take it out of
  its band again (see \<open>served_obligations_forgotten\<close>).\<close>

theorem continuation_supports_plan:
  assumes "\<And>xs. set (iter xs) = set xs"
    and "hypothetical_ok root_state" and "effects_ok (tc_effect_branches candidate)" and "list_all service_ok services"
    and "bounded_continuation_status iter E root_state candidate services obligations max_depth = Inr pr"
    and "cp_status pr = Supported"
    and "b \<in> set (hy_physiology_branches root_state)" and "values_admit (pb_values b) v"
    and "effects \<in> set (tc_effect_branches candidate)" and "values_admit effects d"
  shows "\<exists>key p. (key, plan_text E p) \<in> set (cp_witnesses pr) \<and> works (nat max_depth) services obligations (after_effects effects v d) p"
proof -
  let ?av = "sort_key service_id services" and ?req = "sort (remdups obligations)"
  from assms(6) have "cp_status pr \<noteq> Unknown" by simp
  then obtain r w where r: "transition E root_state candidate = Inr r" "tr_status r = Supported"
    "continue_branches (enumerate_witnesses (nat max_depth) iter E ?av ?req [] (max 1 (length (tr_successors r)))) E 0
       (tr_successors r) [] w = Inr pr"
    using bounded_cases [OF assms(5)] assms(6) by (metis transition_status.distinct(1))
  have ok: "envelopes_ok (pb_values b)" "envelopes_ok effects"
    using assms(2,3,7,9) by (auto simp: hypothetical_ok_def effects_ok_def list_all_iff)
  have "(b, effects) \<in> set (List.product (hy_physiology_branches root_state) (tc_effect_branches candidate))"
    using assms(7,9) by simp
  from list_all2_member [OF transition_successors [OF assms(2,3) r(1,2)] this]
  obtain t where t: "t \<in> set (tr_successors r)" "hypothetical_ok t" "hy_physiology_branches t = [branch_apply b effects]" by auto
  have "\<exists>key p. (key, plan_text E p) \<in> set (cp_witnesses pr) \<and> follows (nat max_depth) E ?av ?req [] t p"
    using continue_branches_sound [OF r(3), where F = "follows (nat max_depth) E ?av ?req []"] enumerate_sound [OF assms(1)]
      assms(6) t(1) by blast
  then obtain key p where p: "(key, plan_text E p) \<in> set (cp_witnesses pr)" "follows (nat max_depth) E ?av ?req [] t p" by blast
  have "list_all service_ok ?av" using assms(4) by (simp add: list_all_iff)
  from follows_works [OF this p(2) t(2)] branch_apply_admits [OF ok assms(8,10)] t(3)
  have "works (nat max_depth) ?av ?req (after_effects effects v d) p" by simp
  then show ?thesis using p(1) works_cong [of ?req obligations ?av services] by auto
qed

text \<open>C40: a refused continuation is refused for a reason: there is no obligation, or the candidate itself is unavailable, or one
  of its outcomes is a state from which no plan of at most \<open>max_depth\<close> services in a row serves the obligations.\<close>

theorem refused_continuation_has_no_plan:
  assumes "\<And>xs. set (iter xs) = set xs"
    and "bounded_continuation_status iter E root_state candidate services obligations max_depth = Inr pr"
    and "cp_status pr = Unsupported"
  shows "obligations = [] \<or> (\<exists>r. transition E root_state candidate = Inr r \<and>
    (tr_status r = Unsupported \<or> (\<exists>t \<in> set (tr_successors r). \<not> (\<exists>p. follows (nat max_depth) E services obligations [] t p))))"
proof -
  let ?av = "sort_key service_id services" and ?req = "sort (remdups obligations)"
  have cong: "follows n E ?av ?req [] t p = follows n E services obligations [] t p" for n t p
    by (rule follows_cong) simp_all
  from assms(3) have "cp_status pr \<noteq> Unknown" by simp
  from bounded_cases [OF assms(2) this] show ?thesis
  proof cases
    case (3 r w)
    have "\<exists>t \<in> set (tr_successors r). \<not> (\<exists>p. follows (nat max_depth) E ?av ?req [] t p)"
      using continue_branches_sound [OF 3(3), where F = "follows (nat max_depth) E ?av ?req []"] enumerate_sound [OF assms(1)]
        assms(3) by blast
    then show ?thesis using 3(1) cong by auto
  qed blast+
qed

section \<open>The search raises nothing\<close>

text \<open>A service built from sources is one the verdict may rest on.\<close>

lemma built_service_ok: "build_regulatory_service E capability body opp route duration support token = Inr svc \<Longrightarrow> service_ok svc"
proof -
  assume built: "build_regulatory_service E capability body opp route duration support token = Inr svc"
  obtain c where c: "capability_transition_contract E capability duration (Some (so_identity opp)) (map_option sr_identity route) [support] = Inr c"
    "effects_ok (tc_effect_branches c)" by (rule capability_contract_ok)
  have "\<exists>raw service horizon deps st q. make_service E raw = Inr service \<and> sv_effect_branches raw = tc_effect_branches c \<and>
      svc = source_backed horizon deps st q service"
    using built c(1)
    by (auto simp: build_regulatory_service_def Let_def andThen_eq_Inr split: option.splits prod.splits)
      (rule exI, rule exI, rule conjI, assumption, fastforce)+
  then obtain raw service horizon deps st q where s: "make_service E raw = Inr service" "sv_effect_branches raw = tc_effect_branches c"
    "svc = source_backed horizon deps st q service" by blast
  then have v: "ss_service svc = service"
    "ss_validated svc = None \<longrightarrow> (\<exists>r. validate_regulatory_service service = Inl r \<and> ss_construction_status svc = tr_status r)"
    by (simp_all add: source_backed_def split: sum.split)
  have "sv_effect_branches service = frozen_branches E (tc_effect_branches c)"
    using s(1,2) by (auto simp: make_service_def Let_def split: if_splits)
  moreover have "tr_status r \<noteq> Supported" if "validate_regulatory_service service = Inl r" for r
    using that by (auto simp: validate_regulatory_service_def split: if_splits)
  ultimately show "service_ok svc" using v frozen_effects_ok [OF c(2), of E] by (auto simp: service_ok_def)
qed

lemma first_not_supported_total: "(\<And>x. x \<in> set xs \<Longrightarrow> \<exists>st. f x = Inr st) \<Longrightarrow> \<exists>st. first_not_supported f xs = Inr st"
  by (induction xs) (auto simp: andThen_eq_Inr, metis (no_types, lifting) andThen.simps(2))

lemma obligations_total: "set owners \<subseteq> set (dkeys BOUNDS) \<Longrightarrow> \<exists>st. obligations_complete s owners = Inr st"
  unfolding obligations_complete_def
  by (rule first_not_supported_total)
    (auto simp: obligation_status_def ditem_def dkeys_def split: option.split dest!: map_of_eq_None_iff [THEN iffD1])

lemma service_transition_total:
  assumes "hypothetical_ok s" and "service_ok svc"
  shows "\<exists>r. service_transition E s svc = Inr r"
proof -
  have ok: "effects_ok (frozen_branches E (sv_effect_branches (ss_service svc)))"
    using assms(2) frozen_effects_ok by (simp add: service_ok_def)
  then obtain c where "make_contract E (service_contract svc) = Inr c" "effects_ok (tc_effect_branches c)"
    by (simp add: make_contract_def service_contract_def Let_def effects_ok_def)
  then show ?thesis using transition_total [OF assms(1)] by (simp add: service_transition_def)
qed

lemma service_successors_ok:
  assumes "hypothetical_ok s" and "service_ok svc" and "service_transition E s svc = Inr r" and "tr_status r = Supported"
  shows "list_all hypothetical_ok (tr_successors r)"
proof -
  obtain c where c: "transition E s c = Inr r" "tc_effect_branches c = frozen_branches E (sv_effect_branches (ss_service svc))"
    using assms(2,3,4)
    by (auto simp: service_ok_def service_transition_def make_contract_def service_contract_def Let_def andThen_eq_Inr split: if_splits)
  have "effects_ok (tc_effect_branches c)" using assms(2) frozen_effects_ok c(2) by (simp add: service_ok_def)
  from transition_successors [OF assms(1) this c(1) assms(4)] show ?thesis
    by (auto simp: list_all2_conv_all_nth list_all_length split_beta)
qed

lemma search_children_total:
  assumes "set owners \<subseteq> set (dkeys BOUNDS)" and "list_all hypothetical_ok ts"
    and "\<And>t w. hypothetical_ok t \<Longrightarrow> \<exists>o'. f t w = Inr o'"
  shows "\<exists>o'. search_children f owners ts ch w = Inr o'"
  using assms(2)
proof (induction ts arbitrary: ch w)
  case (Cons t ts)
  obtain st where "obligations_complete t owners = Inr st" using obligations_total [OF assms(1)] by blast
  moreover obtain o' where "f t w = Inr o'" using assms(3) Cons.prems by fastforce
  ultimately show ?case using Cons by (cases st; cases o') auto
qed simp

definition owners_known :: "source_service \<Rightarrow> bool" where
  "owners_known svc \<longleftrightarrow> set (sv_owners (ss_service svc)) \<subseteq> set (dkeys BOUNDS)"

lemma try_service_total:
  assumes "hypothetical_ok s" and "service_ok svc" and "owners_known svc"
    and "\<And>rem us fac t w. set rem \<subseteq> set (dkeys BOUNDS) \<Longrightarrow> hypothetical_ok t \<Longrightarrow> \<exists>o'. f rem us fac t w = Inr o'"
    and "set remaining \<subseteq> set (dkeys BOUNDS)"
  shows "\<exists>o'. try_service f E s remaining used factor svc w = Inr o'"
proof -
  obtain r where r: "service_transition E s svc = Inr r" using service_transition_total [OF assms(1,2)] by blast
  let ?owners = "sv_owners (ss_service svc)"
  let ?rem = "filter (\<lambda>o'. o' \<notin> set ?owners) remaining"
  have rem: "set ?rem \<subseteq> set (dkeys BOUNDS)" using assms(5) by auto
  have "\<exists>o'. search_children (f ?rem us fac) ?owners (tr_successors r) ch w' = Inr o'" if "tr_status r = Supported" for us fac ch w'
    using search_children_total [of ?owners "tr_successors r" "f ?rem us fac"] assms(3) assms(4) [OF rem]
      service_successors_ok [OF assms(1,2) r that] by (simp add: owners_known_def)
  note children = this
  show ?thesis
  proof (cases "tr_status r")
    case Supported
    let ?w = "w\<lparr>wk_frontier := max (wk_frontier w) (factor * length (tr_successors r))\<rparr>"
    obtain ch w2 where "search_children (f ?rem (List.insert (service_id svc) used) (factor * length (tr_successors r))) ?owners
        (tr_successors r) \<lparr>ch_witnesses = [], ch_unknown = False, ch_supported = True\<rparr> ?w = Inr (ch, w2)"
      using children [OF Supported] by (metis prod.collapse)
    then show ?thesis using r Supported by (auto simp: try_service_def Let_def)
  qed (use r in \<open>auto simp: try_service_def Let_def\<close>)
qed

lemma try_services_total:
  "(\<And>svc w. svc \<in> set svcs \<Longrightarrow> \<exists>o'. f svc w = Inr o') \<Longrightarrow> \<exists>o'. try_services f svcs found u w = Inr o'"
proof (induction svcs arbitrary: found u w)
  case (Cons svc svcs)
  obtain o' where "f svc w = Inr o'" using Cons.prems by fastforce
  then show ?case using Cons by (cases o') simp
qed simp

lemma search_total:
  assumes "\<And>xs. set (iter xs) = set xs" and "list_all service_ok available" and "list_all owners_known available"
  shows "set remaining \<subseteq> set (dkeys BOUNDS) \<Longrightarrow> hypothetical_ok s \<Longrightarrow>
    \<exists>o'. enumerate_witnesses n iter E available remaining used factor s w = Inr o'"
proof (induction n arbitrary: remaining used factor s w)
  case 0
  obtain st where "obligations_complete s (iter remaining) = Inr st" using obligations_total [of "iter remaining"] assms(1) [of remaining] 0(1) by metis
  then show ?case by simp
next
  case (Suc n)
  obtain st where st: "obligations_complete s (iter remaining) = Inr st"
    using obligations_total [of "iter remaining"] assms(1) [of remaining] Suc.prems(1) by metis
  have loop: "\<exists>o'. try_services (try_service (enumerate_witnesses n iter E available) E s remaining used factor) available [] u w' = Inr o'"
    for u w'
  proof (rule try_services_total)
    fix svc w''
    assume "svc \<in> set available"
    then have "service_ok svc" "owners_known svc" using assms(2,3) by (auto simp: list_all_iff)
    from try_service_total [OF Suc.prems(2) this Suc.IH Suc.prems(1)]
    show "\<exists>o'. try_service (enumerate_witnesses n iter E available) E s remaining used factor svc w'' = Inr o'" .
  qed
  obtain o' where "try_services (try_service (enumerate_witnesses n iter E available) E s remaining used factor) available []
      (st = Unknown) (if st = Unknown then note_reason ''PHYSIOLOGY_COMPLETION_UNKNOWN'' w else w) = Inr o'"
    using loop by blast
  then show ?case using st by (cases "conclude o'") simp
qed

lemma continue_branches_total:
  "list_all hypothetical_ok ts \<Longrightarrow> (\<And>t w. hypothetical_ok t \<Longrightarrow> \<exists>o'. f t w = Inr o') \<Longrightarrow> \<exists>pr. continue_branches f E i ts found w = Inr pr"
proof (induction ts arbitrary: i found w)
  case (Cons t ts)
  obtain o' where "f t w = Inr o'" using Cons.prems by fastforce
  then show ?case using Cons by (cases o'; cases "fst o'") simp_all
qed simp

text \<open>For obligations and services of known variables the verdict is always reached.\<close>

lemma bounded_continuation_total:
  assumes "\<And>xs. set (iter xs) = set xs" and "hypothetical_ok root_state" and "effects_ok (tc_effect_branches candidate)"
    and "list_all service_ok services" and "list_all owners_known services" and "set obligations \<subseteq> set (dkeys BOUNDS)"
  shows "\<exists>pr. bounded_continuation_status iter E root_state candidate services obligations max_depth = Inr pr"
proof -
  obtain r where r: "transition E root_state candidate = Inr r" using transition_total [OF assms(2,3)] by blast
  let ?f = "enumerate_witnesses (nat max_depth) iter E (sort_key service_id services) (sort (remdups obligations)) []"
  have "\<exists>pr. continue_branches (?f fac) E 0 (tr_successors r) [] w = Inr pr" if sup: "tr_status r = Supported" for w fac
  proof (rule continue_branches_total)
    show "list_all hypothetical_ok (tr_successors r)"
      using transition_successors [OF assms(2,3) r sup] by (auto simp: list_all2_conv_all_nth list_all_length split_beta)
    show "\<exists>o'. ?f fac t w' = Inr o'" if "hypothetical_ok t" for t w'
      by (rule search_total [OF assms(1)]) (use assms(4-6) that in \<open>simp_all add: list_all_iff\<close>)
  qed
  then show ?thesis using r by (auto simp: bounded_continuation_status_def Let_def)
qed

section \<open>A continuation, computed\<close>

definition charging_service :: source_service where
  "charging_service =
     (let service = \<lparr>sv_semantic_identity = ''charge'', sv_owners = [''energy''], sv_terminal_capability = ''CHARGE'',
        sv_opportunity_identity = None, sv_route_identity = None, sv_duration = point 1,
        sv_effect_branches = [[(''energy'', point (1 / 4))]], sv_body_schema_identity = ''body'', sv_preconditions = [],
        sv_provenance = [], sv_availability = Supported, sv_dependencies = []\<rparr>
      in \<lparr>ss_service = service, ss_validated = Some \<lparr>vs_service = service, vs_dependencies = []\<rparr>,
        ss_persistence_horizon = point 8, ss_dependencies = [], ss_construction_status = Supported, ss_reason = ''SOURCE_BACKED''\<rparr>)"

definition charged :: envelope where "charged = envelope_add rested (point (1 / 4))"

lemma viable_energy:
  "in_viable_band (make_bounds (flit 5 100) (flit 30 100) (flit 70 100) (flit 90 100) (Fin 1)) (Fin x) \<longleftrightarrow>
     rnd (3 / 10) \<le> x \<and> x \<le> rnd (9 / 10)"
proof -
  have "flit 30 100 = Fin (rnd (3 / 10))" "flit 90 100 = Fin (rnd (9 / 10))"
    using rnd_mono [of "3 / 10" 1] rnd_mono [of "9 / 10" 1] rnd_mono [of 0 "3 / 10"] rnd_mono [of 0 "9 / 10"] pow2_1024_big [of 1]
    by (auto simp: flit_def flt_of_def Let_def)
  then show ?thesis by (simp add: in_viable_band_def make_bounds_def)
qed

lemma charged_between: "hard_between charged (3 / 8) (19 / 32)"
  using hard_between_add [OF hard_between_mono [OF rested_between, of "1 / 4" "5 / 16"] hard_point, of "1 / 4"] eps_small
  by (auto simp: charged_def dyadic elim!: hard_between_mono)

lemma energies:
  "obligation_status (energy_branch rested) ''energy'' = Inr Unsupported"
  "obligation_status (energy_branch charged) ''energy'' = Inr Supported"
proof -
  obtain a b c d where r: "ends_of rested = Some (Fin a, Fin b)" "b \<le> 19 / 64"
      "ends_of charged = Some (Fin c, Fin d)" "3 / 8 \<le> c" "c \<le> d" "d \<le> 19 / 32"
    using rested_between charged_between unfolding hard_between_def by blast
  have v: "19 / 64 < rnd (3 / 10)" "rnd (3 / 10) \<le> 3 / 8" "19 / 32 \<le> rnd (9 / 10)"
  proof -
    have d: "rnd (77 / 256) = 77 / 256" "rnd (3 / 8) = 3 / 8" "rnd (19 / 32) = 19 / 32" "rnd (153 / 512) = 153 / 512" by code_simp+
    show "19 / 64 < rnd (3 / 10)" using rnd_mono [of "153 / 512" "3 / 10"] by (simp add: d)
    show "rnd (3 / 10) \<le> 3 / 8" using rnd_mono [of "3 / 10" "3 / 8"] by (simp add: d)
    show "19 / 32 \<le> rnd (9 / 10)" using rnd_mono [of "19 / 32" "9 / 10"] by (simp add: d)
  qed
  have e: "ditem ''energy'' BOUNDS = Inr (make_bounds (flit 5 100) (flit 30 100) (flit 70 100) (flit 90 100) (Fin 1))"
    by (simp add: ditem_def BOUNDS_def)
  have c: "categorical_supported rested" "categorical_supported charged"
    using hard_categorical rested_between charged_between by blast+
  show "obligation_status (energy_branch rested) ''energy'' = Inr Unsupported"
    "obligation_status (energy_branch charged) ''energy'' = Inr Supported"
    using r v c by (simp_all add: obligation_status_def energy_branch_def e viable_energy)
qed

lemma in_time: "horizon_supports (energy_state E 1 one_later rested) charging_service = Supported"
proof -
  obtain a b where o': "en_minimum one_later = Some (Fin a)" "en_maximum one_later = Some (Fin b)" "b \<le> 3"
    using one_later_between by (auto simp: hard_between_def ends_of_def split: option.splits)
  have p: "en_minimum (point x) = Some (Fin x)" "en_maximum (point x) = Some (Fin x)" for x
    by (simp_all add: point_def make_envelope_def)
  have "rnd (b + 1) \<le> 4" using rnd_mono [of "b + 1" 4] o'(3) rnd_int [of 4] by simp
  then have "flt_le (flt_add (Fin b) (Fin 1)) (Fin 8)"
    using pow2_1024_big [of 8] by (auto simp: flt_of_def Let_def flt_le_def)
  then show ?thesis using demo_evidence by (simp add: horizon_supports_def charging_service_def energy_state_def Let_def o' p)
qed

lemma charging_allowed: "transition_refusal (energy_state E 1 one_later rested) (service_contract charging_service) = None"
  using demo_evidence by (simp add: transition_refusal_def availability_result_def service_refusal_def opportunity_refusal_def
      route_refusal_def effective_opportunity_def effective_route_def contract_evidence_def charging_service_def service_contract_def
      energy_state_def BRANCH_CEILING_def Let_def differs_from_def)

lemma charges: "service_transition E (energy_state E 1 one_later rested) charging_service =
    Inr (make_result Supported [energy_state E 2 (envelope_add one_later (point 1)) charged] ''SUPPORTED_TRANSITION'' [] [])"
proof -
  have c: "make_contract E (service_contract charging_service) = Inr (service_contract charging_service)"
    by (simp add: make_contract_def service_contract_def charging_service_def Let_def frozen_branches_def sorted_items_def)
  have "ss_validated charging_service \<noteq> None" by (simp add: charging_service_def Let_def)
  moreover have "transition E (energy_state E 1 one_later rested) (service_contract charging_service) =
      Inr (make_result Supported [energy_state E (1 + 1) (envelope_add one_later (tc_duration (service_contract charging_service)))
        (envelope_add rested (point (1 / 4)))] ''SUPPORTED_TRANSITION'' [] [])"
    by (rule energy_transition [OF charging_allowed demo_evidence(2)])
      (simp_all add: service_contract_def charging_service_def Let_def transition_dependencies_def energy_state_def)
  moreover have "tc_duration (service_contract charging_service) = point 1"
    by (simp add: service_contract_def charging_service_def Let_def)
  ultimately show ?thesis by (simp add: service_transition_def charged_def in_time c del: not_None_eq)
qed

lemma charging_complete:
  "obligations_complete (energy_state E n t rested) [''energy''] = Inr Unsupported"
  "obligations_complete (energy_state E n t charged) [''energy''] = Inr Supported"
  "obligations_complete s [] = Inr Supported"
proof -
  show "obligations_complete s [] = Inr Supported" by (simp add: obligations_complete_iff all_complete_def)
qed (use energies in \<open>simp_all add: obligations_complete_def energy_state_def\<close>)

lemma charging_service_fields:
  "service_id charging_service = ''charge''" "sv_owners (ss_service charging_service) = [''energy'']"
  "service_covers charging_service [''energy'']"
  by (simp_all add: service_id_def service_covers_def charging_service_def Let_def)

lemma charging_found:
  "enumerate_witnesses (Suc n) id E [charging_service] [''energy''] [] (Suc 0) (energy_state E 1 one_later rested)
     \<lparr>wk_frontier = Suc 0, wk_orders = [], wk_reasons = []\<rparr> =
   Inr (Supported, [service_witness E ''charge'' [complete_witness E]], ''SUPPORTED_CONTINUATION'',
     \<lparr>wk_frontier = Suc 0, wk_orders = [service_witness E ''charge'' [complete_witness E]], wk_reasons = []\<rparr>)"
proof -
  have "enumerate_witnesses n id E [charging_service] [] [''charge''] (Suc 0) s w =
      Inr (Supported, [complete_witness E], ''OBLIGATIONS_COMPLETE'', w)" for s w
    by (cases n) (simp_all add: charging_complete)
  then show ?thesis
    by (simp add: charging_complete try_service_def charging_service_fields charges conclude_def BRANCH_CEILING_def MAX_SERVICE_ORDERS_def Let_def)
qed

lemma charging_continues:
  "\<exists>pr. bounded_continuation_status id E (energy_state E 0 (point 1) (point (1 / 4))) waiting [charging_service] [''energy''] 4 = Inr pr
    \<and> cp_status pr = Supported"
proof -
  have four: "(4::nat) = Suc 3" by simp
  show ?thesis
    using charging_found [of 3 E]
    by (simp add: bounded_continuation_status_def MAX_CONTINUATION_DEPTH_def waits proof_of_def Let_def flip: four
        del: enumerate_witnesses.simps)
qed

lemma charging_ok: "service_ok charging_service"
proof -
  have "sharp (point (1 / 4))" by code_simp
  then show ?thesis by (simp add: service_ok_def charging_service_def Let_def effects_ok_def envelopes_ok_def)
qed

theorem continuation_supports_plan_witness:
  "\<exists>p. works 4 [charging_service] [''energy''] (after_effects [(''energy'', point (1 / 32))] (\<lambda>name. 1 / 4) (\<lambda>name. 1 / 32)) p"
proof -
  obtain pr where pr: "bounded_continuation_status id plain_env (energy_state plain_env 0 (point 1) (point (1 / 4))) waiting
      [charging_service] [''energy''] 4 = Inr pr" "cp_status pr = Supported"
    using charging_continues by blast
  have "energy_branch (point (1 / 4)) \<in> set (hy_physiology_branches (energy_state plain_env 0 (point 1) (point (1 / 4))))"
    "[(''energy'', point (1 / 32))] \<in> set (tc_effect_branches waiting)" "list_all service_ok [charging_service]"
    using charging_ok by (simp_all add: energy_state_def waiting_def)
  from continuation_supports_plan [OF _ waiting_ok(1,2) this(3) pr this(1) waiting_ok(4) this(2) waiting_ok(5)]
  show ?thesis by auto
qed

theorem refused_continuation_has_no_plan_witness:
  "\<exists>r. transition plain_env (energy_state plain_env 0 (point 1) (point (1 / 4))) waiting = Inr r \<and>
     (\<exists>t \<in> set (tr_successors r). \<not> (\<exists>p. follows 4 plain_env [] [''energy''] [] t p))"
proof -
  have four: "(4::nat) = Suc 3" by simp
  have "enumerate_witnesses 4 id plain_env [] [''energy''] [] (Suc 0) (energy_state plain_env 1 one_later rested) w =
      Inr (Unsupported, [], ''NO_SUPPORTED_CONTINUATION'', w)" for w
    by (simp only: four enumerate_witnesses.simps id_apply charging_complete andThen.simps try_services.simps) (simp add: conclude_def)
  then have "\<exists>pr. bounded_continuation_status id plain_env (energy_state plain_env 0 (point 1) (point (1 / 4))) waiting [] [''energy''] 4 = Inr pr
      \<and> cp_status pr = Unsupported"
    by (simp add: bounded_continuation_status_def MAX_CONTINUATION_DEPTH_def waits proof_of_def Let_def del: enumerate_witnesses.simps)
  then obtain pr where pr: "bounded_continuation_status id plain_env (energy_state plain_env 0 (point 1) (point (1 / 4))) waiting []
      [''energy''] 4 = Inr pr" "cp_status pr = Unsupported" by blast
  from refused_continuation_has_no_plan [OF _ this] waits [of plain_env] show ?thesis by simp
qed

section \<open>Where the code falls short of its contract\<close>

text \<open>An obligation that has been served is dropped from those the search still looks at. With none left every state is accepted,
  whatever has become of the variables served on the way.\<close>

lemma served_obligations_forgotten:
  "enumerate_witnesses n id E available [] used factor (energy_state E d t level) w =
     Inr (Supported, [complete_witness E], ''OBLIGATIONS_COMPLETE'', w)"
  by (cases n) (simp_all add: charging_complete(3))

text \<open>The verdict depends on the order in which a set is traversed: with one unserved and one unknown variable a state is refused
  or unknown, whichever comes first.\<close>

lemma verdict_depends_on_iteration_order:
  "\<exists>pr pr'. bounded_continuation_status id E (energy_state E 0 (point 1) (point (1 / 4))) waiting [] [''energy'', ''fatigue''] 4 = Inr pr
     \<and> bounded_continuation_status rev E (energy_state E 0 (point 1) (point (1 / 4))) waiting [] [''energy'', ''fatigue''] 4 = Inr pr'
     \<and> cp_status pr = Unsupported \<and> cp_status pr' = Unknown"
proof -
  have four: "(4::nat) = Suc 3" by simp
  have f: "obligation_status (energy_branch rested) ''fatigue'' = Inr Unknown"
    by (simp add: obligation_status_def energy_branch_def)
  have c: "obligations_complete (energy_state E 1 one_later rested) [''energy'', ''fatigue''] = Inr Unsupported"
    "obligations_complete (energy_state E 1 one_later rested) [''fatigue'', ''energy''] = Inr Unknown"
    by (simp_all add: obligations_complete_def energy_state_def f energies)
  have r: "rev [''energy'', ''fatigue''] = [''fatigue'', ''energy'']" by simp
  let ?w = "\<lparr>wk_frontier = Suc 0, wk_orders = [], wk_reasons = []\<rparr>"
  obtain w1 where w1: "enumerate_witnesses 4 id E [] [''energy'', ''fatigue''] [] (Suc 0) (energy_state E 1 one_later rested) ?w =
      Inr (Unsupported, [], ''NO_SUPPORTED_CONTINUATION'', w1)"
    by (simp only: four enumerate_witnesses.simps id_apply c andThen.simps try_services.simps) (simp add: conclude_def)
  obtain w2 where w2: "enumerate_witnesses 4 rev E [] [''energy'', ''fatigue''] [] (Suc 0) (energy_state E 1 one_later rested) ?w =
      Inr (Unknown, [], ''CONTINUATION_UNKNOWN'', w2)"
    by (simp only: four enumerate_witnesses.simps r c andThen.simps try_services.simps) (simp add: conclude_def)
  show ?thesis
    by (simp add: bounded_continuation_status_def MAX_CONTINUATION_DEPTH_def waits proof_of_def Let_def w1 w2
        del: enumerate_witnesses.simps)
qed

text \<open>The test of the persistence horizon adds two floats without rounding outwards: a completion beyond the horizon is accepted.\<close>

lemma horizon_rounds_inward:
  "\<exists>svc. horizon_supports (energy_state E 0 (point 1) (point (1 / 4))) svc = Supported \<and>
     ss_persistence_horizon svc = point 1 \<and> sv_duration (ss_service svc) = point (pow2 (- 54)) \<and> 1 < 1 + pow2 (- 54)"
proof -
  let ?svc = "charging_service\<lparr>ss_persistence_horizon := point 1,
    ss_service := (ss_service charging_service)\<lparr>sv_duration := point (pow2 (- 54))\<rparr>\<rparr>"
  have p: "en_minimum (point x) = Some (Fin x)" "en_maximum (point x) = Some (Fin x)" for x
    by (simp_all add: point_def make_envelope_def)
  have "flt_le (flt_add (Fin 1) (Fin (pow2 (- 54)))) (Fin 1)" by code_simp
  then show ?thesis
    using demo_evidence by (intro exI [of _ ?svc]) (simp add: horizon_supports_def energy_state_def Let_def p)
qed

text \<open>The drift inside an effect is that of the longest duration only: the drift of a shorter one is not admitted.\<close>

lemma drift_of_shorter_duration_missed: "\<not> admits (drift_envelope ''energy'' (Fin 1)) (- 1 / 1000)"
proof -
  let ?x = "rnd (- 2 / 1000)"
  have "rnd (1 / 512) = 1 / 512" "rnd (1 / 256) = 1 / 256" by code_simp+
  then have d: "rnd (- (1 / 512)) = - (1 / 512)" "rnd (- (1 / 256)) = - (1 / 256)" by (simp_all only: rnd_minus)
  have x: "- 1 / 256 \<le> ?x" "?x \<le> - 1 / 512"
    using rnd_mono [of "- 1 / 256" "- 2 / 1000"] rnd_mono [of "- 2 / 1000" "- 1 / 512"] by (simp_all add: d)
  have m: "pow2 (- 1022) \<le> 1 / 512" using pow2_mono [of "- 1022" "- 9"] by (simp add: pow2_def [of "- 9"])
  then have m': "pow2 (- 1022) \<le> \<bar>?x\<bar>" "\<bar>?x\<bar> \<le> 2" using x by linarith+
  obtain u where u: "next_up (Fin ?x) = Fin u" "?x \<le> u" "u \<le> ?x + \<bar>?x\<bar> * pow2 (- 52)" using next_up_near [OF rnd_idem m'] by blast
  obtain lo where lo: "next_down (Fin ?x) = Fin lo" "lo \<le> ?x" using next_down_near [OF rnd_idem m'] by blast
  have "\<bar>?x\<bar> * pow2 (- 52) \<le> 1 / 256 * (1 / 64)" using x eps_small by (intro mult_mono) auto
  then have small: "u < - 1 / 1000" using u(3) x by linarith
  have fx: "flt_of ?x = Fin ?x" "flt_of (- 2 / 1000) = Fin ?x"
    using x pow2_1024_big [of 1] by (auto simp: flt_of_def Let_def)
  have "drift_envelope ''energy'' (Fin 1) = envelope_scale (make_envelope (Some (Fin ?x)) (Some (Fin ?x)) HARD_CONTRACT
      [''physiology-contract:drift:energy'']) (Fin 1)"
    using fx by (simp add: drift_envelope_def hard_envelope_def DEFAULT_DRIFT_def dget_def flit_def)
  then have "ends_of (drift_envelope ''energy'' (Fin 1)) = Some (Fin lo, Fin u)"
    using fx u lo by (simp add: envelope_scale_def make_envelope_def ends_of_def Let_def py_min_def py_max_def del: next_up.simps)
  then show ?thesis using small by (simp add: admits_between)
qed

text \<open>Branches are not clamped to the unit interval as the organism's variables are.\<close>

lemma branch_leaves_unit_interval:
  "\<not> admits (envelope_add (point (15 / 16)) (point (1 / 8))) 1 \<and> clamp01 (flt_add (Fin (15 / 16)) (Fin (1 / 8))) = Fin 1"
  by code_simp

end
