(* ===== verification/Adapter.thy ===== *)
theory Adapter
  imports Governance LedgerChain
begin

text \<open>
  \<open>embodiment_adapters/profiles.py\<close> and \<open>embodiment_adapters/adapter.py\<close>: body profiles with their hash, and the adapter that
  holds the attachment of a body and narrows what governance admitted. Attaching, detaching and swapping write an event before
  they change the adapter; the ledger is the authority from which a later process rebuilds the attachment, and the lemmas show
  that it rebuilds exactly the adapter's state. The world behind the
  adapter is a type \<open>'w\<close>: the embodiment executes a primitive on it, and the observer of the attachment is a method of it. A
  profile resolver, the two clocks and \<open>new_id()\<close> are arguments.
\<close>

section \<open>Body profiles\<close>

definition BODY_PROFILE_SCHEMA_VERSION_D008 :: string where
  "BODY_PROFILE_SCHEMA_VERSION_D008 = ''d008.body-profile.v1''"

definition BODY_PROFILE_SCHEMA_VERSION :: string where
  "BODY_PROFILE_SCHEMA_VERSION = ''d009.body-profile.v1''"

definition MASS_CLASS_ORDER :: "int dict" where
  "MASS_CLASS_ORDER = [(''LIGHT'', 0), (''MEDIUM'', 1), (''HEAVY'', 2)]"

record body_profile =
  bf_profile_id :: string
  bf_schema_version :: string
  bf_supported_capabilities :: "string set"
  bf_physical_limits :: "pyv dict"
  bf_presentation_mapping :: "pyv dict"

text \<open>\<open>asdict\<close> of a profile, with the set as its sorted list.\<close>

definition profile_payload :: "body_profile \<Rightarrow> pyv" where
  "profile_payload p = VDict
     [(''profile_id'', VStr (bf_profile_id p)), (''schema_version'', VStr (bf_schema_version p)),
      (''supported_capabilities'', v_strs (sorted_list_of_set (bf_supported_capabilities p))),
      (''physical_limits'', VDict (bf_physical_limits p)), (''presentation_mapping'', VDict (bf_presentation_mapping p))]"

text \<open>\<open>allow_nan=False\<close>: a value without infinities and NaN.\<close>

primrec json_compliant :: "pyv \<Rightarrow> bool" where
  "json_compliant VNone = True"
| "json_compliant (VBool b) = True"
| "json_compliant (VInt i) = True"
| "json_compliant (VFlt x) = is_finite x"
| "json_compliant (VStr s) = True"
| "json_compliant (VList xs) = list_all id (map json_compliant xs)"
| "json_compliant (VDict d) = list_all snd (map (map_prod id json_compliant) d)"

definition profile_definition_hash :: "hash_env \<Rightarrow> body_profile \<Rightarrow> string res" where
  "profile_definition_hash E p =
     (if json_compliant (profile_payload p) then Inr (hash_canonical E (profile_payload p))
      else Inl (ValueError ''Out of range float values are not JSON compliant''))"

definition FULL_CAPABILITY_SET :: "string set" where
  "FULL_CAPABILITY_SET = set CAPABILITIES"

definition D009_CAPABILITY_SET :: "string set" where
  "D009_CAPABILITY_SET = set (CAPABILITIES @ [''MANIPULATE''])"

definition default_manipulation_mapping :: pyv where
  "default_manipulation_mapping = VDict
     [(''hold_slot_count'', VInt 1), (''maximum_held_mass_class'', VStr ''LIGHT''),
      (''hold_anchor'', VDict [(''x'', VFlt (flit 4 10)), (''y'', VFlt (flit 2 10))])]"

definition d009_profile_from_d008 :: "body_profile \<Rightarrow> body_profile" where
  "d009_profile_from_d008 p =
     \<lparr>bf_profile_id = bf_profile_id p, bf_schema_version = BODY_PROFILE_SCHEMA_VERSION,
      bf_supported_capabilities = D009_CAPABILITY_SET, bf_physical_limits = bf_physical_limits p,
      bf_presentation_mapping = dput ''manipulation'' default_manipulation_mapping (bf_presentation_mapping p)\<rparr>"

definition ABSTRACT_SHAPE_BODY :: body_profile where
  "ABSTRACT_SHAPE_BODY =
     \<lparr>bf_profile_id = ''ABSTRACT_SHAPE_BODY'', bf_schema_version = BODY_PROFILE_SCHEMA_VERSION_D008,
      bf_supported_capabilities = FULL_CAPABILITY_SET,
      bf_physical_limits = [(''max_step'', VFlt (Fin 1)), (''turn_rate'', VFlt (Fin 90)), (''attention_radius'', VFlt (Fin 6))],
      bf_presentation_mapping =
        [(''geometry'', VStr ''abstract_shape''),
         (''posture_map'', VDict [(''active'', VStr ''upright''), (''rest'', VStr ''low''), (''charge'', VStr ''docked'')]),
         (''signal_icons'', VDict [(''SIGNAL_PLAY'', VStr ''spark''), (''SIGNAL_ASSISTANCE'', VStr ''beacon'')])]\<rparr>"

definition MINIMAL_CREATURE_BODY :: body_profile where
  "MINIMAL_CREATURE_BODY =
     \<lparr>bf_profile_id = ''MINIMAL_CREATURE_BODY'', bf_schema_version = BODY_PROFILE_SCHEMA_VERSION_D008,
      bf_supported_capabilities = FULL_CAPABILITY_SET,
      bf_physical_limits = [(''max_step'', VFlt (flit 8 10)), (''turn_rate'', VFlt (Fin 75)), (''attention_radius'', VFlt (Fin 5))],
      bf_presentation_mapping =
        [(''geometry'', VStr ''minimal_creature''),
         (''posture_map'', VDict [(''active'', VStr ''standing''), (''rest'', VStr ''curled''), (''charge'', VStr ''nesting'')]),
         (''signal_icons'', VDict [(''SIGNAL_PLAY'', VStr ''tail_wag''), (''SIGNAL_ASSISTANCE'', VStr ''alert_chirp'')])]\<rparr>"

definition ABSTRACT_SHAPE_BODY_D009 :: body_profile where
  "ABSTRACT_SHAPE_BODY_D009 = d009_profile_from_d008 ABSTRACT_SHAPE_BODY"

definition MINIMAL_CREATURE_BODY_D009 :: body_profile where
  "MINIMAL_CREATURE_BODY_D009 = d009_profile_from_d008 MINIMAL_CREATURE_BODY"

definition D008_PROFILES :: "body_profile dict" where
  "D008_PROFILES = [(''ABSTRACT_SHAPE_BODY'', ABSTRACT_SHAPE_BODY), (''MINIMAL_CREATURE_BODY'', MINIMAL_CREATURE_BODY)]"

definition D009_PROFILES :: "body_profile dict" where
  "D009_PROFILES =
     [(''ABSTRACT_SHAPE_BODY'', ABSTRACT_SHAPE_BODY_D009), (''MINIMAL_CREATURE_BODY'', MINIMAL_CREATURE_BODY_D009)]"

definition get_d008_profile :: "string \<Rightarrow> body_profile res" where
  "get_d008_profile i = (case map_of D008_PROFILES i of None \<Rightarrow> Inl (KeyError i) | Some p \<Rightarrow> Inr p)"

definition get_profile :: "string \<Rightarrow> body_profile res" where
  "get_profile i = (case map_of D009_PROFILES i of None \<Rightarrow> Inl (KeyError i) | Some p \<Rightarrow> Inr p)"

definition is_d008_profile_hash :: "hash_env \<Rightarrow> string \<Rightarrow> string \<Rightarrow> bool res" where
  "is_d008_profile_hash E i digest =
     andThen (get_d008_profile i) (\<lambda>p. andThen (profile_definition_hash E p) (\<lambda>h. Inr (h = digest)))"

definition is_d009_profile_hash :: "hash_env \<Rightarrow> string \<Rightarrow> string \<Rightarrow> bool res" where
  "is_d009_profile_hash E i digest =
     andThen (get_profile i) (\<lambda>p. andThen (profile_definition_hash E p) (\<lambda>h. Inr (h = digest)))"

definition profile_manipulation_fields :: "body_profile \<Rightarrow> pyv res" where
  "profile_manipulation_fields p =
     andThen (as_dict (or_else (dget VNone ''manipulation'' (bf_presentation_mapping p)) (VDict []))) (\<lambda>d. Inr (VDict d))"

definition hold_slot_count :: "body_profile \<Rightarrow> int res" where
  "hold_slot_count p = andThen (profile_manipulation_fields p) (\<lambda>m. fld_or m ''hold_slot_count'' (VInt 0) as_int)"

definition maximum_held_mass_class :: "body_profile \<Rightarrow> string option res" where
  "maximum_held_mass_class p =
     andThen (profile_manipulation_fields p) (\<lambda>m. fld_or m ''maximum_held_mass_class'' VNone (opt_conv as_str))"

definition hold_anchor :: "body_profile \<Rightarrow> (flt \<times> flt) res" where
  "hold_anchor p =
     andThen (profile_manipulation_fields p) (\<lambda>m.
     andThen (get_or m ''hold_anchor'' VNone) (\<lambda>v. let raw = or_else v (VDict []) in
     andThen (fld_or raw ''x'' (VFlt (Fin 0)) as_float) (\<lambda>x.
     andThen (fld_or raw ''y'' (VFlt (Fin 0)) as_float) (\<lambda>y. Inr (x, y)))))"

definition mass_class_supported :: "string \<Rightarrow> string \<Rightarrow> bool" where
  "mass_class_supported object_mass maximum_held \<longleftrightarrow>
     dget 99 object_mass MASS_CLASS_ORDER \<le> dget (- 1) maximum_held MASS_CLASS_ORDER"

definition default_migration_profile_id :: "pyv \<Rightarrow> string res" where
  "default_migration_profile_id thresholds = fld thresholds ''default_migration_profile_id'' as_str"

section \<open>Attachment\<close>

definition ATTACHMENT_EVENT_TYPES :: "string list" where
  "ATTACHMENT_EVENT_TYPES =
     [''embodiment_body_attached'', ''embodiment_body_detached'', ''embodiment_body_profile_swapped'',
      ''embodiment_body_replaced'']"

record attachment_state =
  at_body_instance_id :: "string option"
  at_body_profile_id :: "string option"
  at_attachment_status :: string
  at_attachment_generation :: int

definition detached_body :: attachment_state where
  "detached_body = \<lparr>at_body_instance_id = None, at_body_profile_id = None, at_attachment_status = ''DETACHED'',
     at_attachment_generation = 0\<rparr>"

definition attachment_to_state :: "attachment_state \<Rightarrow> pyv" where
  "attachment_to_state st = VDict
     [(''body_instance_id'', v_opt VStr (at_body_instance_id st)), (''body_profile_id'', v_opt VStr (at_body_profile_id st)),
      (''attachment_status'', VStr (at_attachment_status st)),
      (''attachment_generation'', VInt (at_attachment_generation st))]"

definition attachment_from_state :: "pyv \<Rightarrow> attachment_state res" where
  "attachment_from_state d =
     andThen (fld_or d ''body_instance_id'' VNone (opt_conv plain_str)) (\<lambda>instance_id.
     andThen (fld_or d ''body_profile_id'' VNone (opt_conv plain_str)) (\<lambda>profile_id.
     andThen (fld_or d ''attachment_status'' (VStr ''DETACHED'') as_str) (\<lambda>status.
     andThen (fld_or d ''attachment_generation'' (VInt 0) as_int) (\<lambda>generation.
     Inr \<lparr>at_body_instance_id = instance_id, at_body_profile_id = profile_id, at_attachment_status = status,
          at_attachment_generation = generation\<rparr>))))"

text \<open>The state an event announces: the keys of its instance and of its profile, and the status.\<close>

definition announced_state :: "pyv \<Rightarrow> string \<Rightarrow> string option \<Rightarrow> string \<Rightarrow> attachment_state res" where
  "announced_state payload instance_key profile_key status =
     andThen (fld payload instance_key (opt_conv plain_str)) (\<lambda>instance_id.
     andThen (case profile_key of None \<Rightarrow> Inr None | Some k \<Rightarrow> fld payload k (opt_conv plain_str)) (\<lambda>profile_id.
     andThen (fld payload ''new_generation'' as_int) (\<lambda>generation.
     Inr \<lparr>at_body_instance_id = instance_id, at_body_profile_id = profile_id, at_attachment_status = status,
          at_attachment_generation = generation\<rparr>)))"

definition attachment_state_from_event :: "pyv option \<Rightarrow> attachment_state res" where
  "attachment_state_from_event event =
     (case event of None \<Rightarrow> Inr detached_body
      | Some ev \<Rightarrow>
          andThen (item ev ''event_type'') (\<lambda>event_type.
          andThen (item ev ''payload'') (\<lambda>payload.
          if event_type = VStr ''embodiment_body_attached''
          then announced_state payload ''new_body_instance_id'' (Some ''new_profile_id'') ''ATTACHED''
          else if event_type = VStr ''embodiment_body_profile_swapped''
          then announced_state payload ''body_instance_id'' (Some ''new_profile_id'') ''ATTACHED''
          else if event_type = VStr ''embodiment_body_detached''
          then announced_state payload ''body_instance_id'' None ''DETACHED''
          else if event_type = VStr ''embodiment_body_replaced''
          then announced_state payload ''new_body_instance_id'' (Some ''new_profile_id'') ''ATTACHED''
          else andThen (as_str event_type) (\<lambda>t. Inl (ValueError (''not_an_attachment_event:'' @ t))))))"

text \<open>What \<open>load_organism\<close> builds the adapter from.\<close>

definition load_attachment :: "store \<Rightarrow> attachment_state res" where
  "load_attachment s = andThen (last_event_of_types ATTACHMENT_EVENT_TYPES s) attachment_state_from_event"

record 'w adapter_world =
  aw_store :: store
  aw_state :: attachment_state
  aw_owner :: 'w

record adapter_env =
  ae_agent_id :: string
  ae_resolve_profile :: "string \<Rightarrow> body_profile res"
  ae_monotonic_time :: flt
  ae_wall_time :: flt

type_synonym 'w observer = "(attachment_state \<Rightarrow> ('w, unit) method) option"

definition apply_state :: "'w observer \<Rightarrow> attachment_state \<Rightarrow> ('w adapter_world, unit) method" where
  "apply_state observer st w =
     (case observer of None \<Rightarrow> (Inr (), w\<lparr>aw_state := st\<rparr>)
      | Some f \<Rightarrow> (case f st (aw_owner w) of (r, owner) \<Rightarrow> (r, w\<lparr>aw_state := st, aw_owner := owner\<rparr>)))"

definition adapter_profile :: "adapter_env \<Rightarrow> attachment_state \<Rightarrow> body_profile option res" where
  "adapter_profile V st =
     (case at_body_profile_id st of None \<Rightarrow> Inr None
      | Some i \<Rightarrow> andThen (ae_resolve_profile V i) (\<lambda>p. Inr (Some p)))"

text \<open>\<open>assert profile is not None\<close>.\<close>

definition required_profile :: "adapter_env \<Rightarrow> attachment_state \<Rightarrow> body_profile res" where
  "required_profile V st = andThen (adapter_profile V st) (\<lambda>p.
     case p of None \<Rightarrow> Inl (AssertionError ''profile_is_not_None'') | Some q \<Rightarrow> Inr q)"

text \<open>The event, then the state: what attaching, detaching and swapping end with.\<close>

definition commit_attachment ::
  "hash_env \<Rightarrow> string \<Rightarrow> adapter_env \<Rightarrow> 'w observer \<Rightarrow> string \<Rightarrow> pyv dict \<Rightarrow> attachment_state
    \<Rightarrow> ('w adapter_world, unit) method" where
  "commit_attachment E fresh V observer event_type payload st w =
     (case append_event E fresh
         \<lparr>ne_agent_id = ae_agent_id V, ne_event_type = event_type, ne_monotonic_time = ae_monotonic_time V,
          ne_wall_time = ae_wall_time V, ne_payload = VDict payload, ne_causal_parent_ids = None, ne_event_id = None\<rparr>
         (aw_store w) of
        (Inl e, s) \<Rightarrow> (Inl e, w\<lparr>aw_store := s\<rparr>)
      | (Inr _, s) \<Rightarrow> apply_state observer st (w\<lparr>aw_store := s\<rparr>))"

definition attach_body ::
  "hash_env \<Rightarrow> (nat \<Rightarrow> string) \<Rightarrow> adapter_env \<Rightarrow> 'w observer \<Rightarrow> string \<Rightarrow> string \<Rightarrow> string option
    \<Rightarrow> (string \<Rightarrow> body_profile res) option \<Rightarrow> ('w adapter_world, unit) method" where
  "attach_body E fresh V observer profile_id origin migrated resolver w =
     (let st = aw_state w; resolve = (case resolver of None \<Rightarrow> ae_resolve_profile V | Some f \<Rightarrow> f) in
      if at_attachment_status st = ''ATTACHED'' then (Inl (AdapterError ''already_attached''), w)
      else case andThen (resolve profile_id) (\<lambda>p. andThen (profile_definition_hash E p) (\<lambda>h. Inr (p, h))) of
        Inl e \<Rightarrow> (Inl e, w)
      | Inr (profile, h) \<Rightarrow>
          let generation = at_attachment_generation st + 1;
              instance_id = or_fresh (at_body_instance_id st) (fresh 0)
          in commit_attachment E (fresh 1) V observer ''embodiment_body_attached''
               ([(''old_status'', VStr (at_attachment_status st)), (''new_status'', VStr ''ATTACHED''),
                 (''new_body_instance_id'', VStr instance_id), (''new_profile_id'', VStr (bf_profile_id profile)),
                 (''new_generation'', VInt generation), (''profile_schema_version'', VStr (bf_schema_version profile)),
                 (''profile_definition_hash'', VStr h), (''origin'', VStr origin)]
                @ opt_field ''migrated_from_schema_version'' migrated)
               \<lparr>at_body_instance_id = Some instance_id, at_body_profile_id = Some (bf_profile_id profile),
                at_attachment_status = ''ATTACHED'', at_attachment_generation = generation\<rparr> w)"

definition detach_body ::
  "hash_env \<Rightarrow> (nat \<Rightarrow> string) \<Rightarrow> adapter_env \<Rightarrow> 'w observer \<Rightarrow> string \<Rightarrow> ('w adapter_world, unit) method" where
  "detach_body E fresh V observer reason w =
     (let st = aw_state w in
      if at_attachment_status st \<noteq> ''ATTACHED'' then (Inl (AdapterError ''not_attached''), w)
      else
        let generation = at_attachment_generation st + 1
        in commit_attachment E (fresh 1) V observer ''embodiment_body_detached''
             [(''body_instance_id'', v_opt VStr (at_body_instance_id st)), (''profile_id'', v_opt VStr (at_body_profile_id st)),
              (''old_generation'', VInt (at_attachment_generation st)), (''new_generation'', VInt generation),
              (''reason'', VStr reason)]
             \<lparr>at_body_instance_id = at_body_instance_id st, at_body_profile_id = None, at_attachment_status = ''DETACHED'',
              at_attachment_generation = generation\<rparr> w)"

definition swap_profile ::
  "hash_env \<Rightarrow> (nat \<Rightarrow> string) \<Rightarrow> adapter_env \<Rightarrow> 'w observer \<Rightarrow> string \<Rightarrow> string \<Rightarrow> string option
    \<Rightarrow> ('w adapter_world, unit) method" where
  "swap_profile E fresh V observer new_profile_id origin old_hash w =
     (let st = aw_state w in
      if at_attachment_status st \<noteq> ''ATTACHED'' then (Inl (AdapterError ''not_attached''), w)
      else case andThen (required_profile V st) (\<lambda>old_profile.
          andThen (ae_resolve_profile V new_profile_id) (\<lambda>new_profile.
          andThen (profile_definition_hash E new_profile) (\<lambda>new_hash.
          andThen (case old_hash of Some h \<Rightarrow> Inr h | None \<Rightarrow> profile_definition_hash E old_profile) (\<lambda>h.
          Inr (new_profile, new_hash, h))))) of
        Inl e \<Rightarrow> (Inl e, w)
      | Inr (new_profile, new_hash, h) \<Rightarrow>
          let generation = at_attachment_generation st + 1
          in commit_attachment E (fresh 1) V observer ''embodiment_body_profile_swapped''
               [(''body_instance_id'', v_opt VStr (at_body_instance_id st)),
                (''old_profile_id'', v_opt VStr (at_body_profile_id st)),
                (''new_profile_id'', VStr (bf_profile_id new_profile)),
                (''old_generation'', VInt (at_attachment_generation st)), (''new_generation'', VInt generation),
                (''profile_schema_version'', VStr (bf_schema_version new_profile)),
                (''profile_definition_hash'', VStr new_hash), (''origin'', VStr origin),
                (''old_profile_definition_hash'', VStr h)]
               \<lparr>at_body_instance_id = at_body_instance_id st, at_body_profile_id = Some (bf_profile_id new_profile),
                at_attachment_status = ''ATTACHED'', at_attachment_generation = generation\<rparr> w)"

text \<open>\<open>Embodiment.bind_attachment_identity\<close>, the observer the runtime installs: the occupancy copies the committed identity.\<close>

record body_identity =
  bi_body_instance_id :: string
  bi_attachment_generation :: int

definition bind_attachment_identity :: "attachment_state \<Rightarrow> (body_identity, unit) method" where
  "bind_attachment_identity st b =
     (case at_body_instance_id st of
        None \<Rightarrow> (Inl (HabitatAuthorityError ''attachment_body_instance_missing''), b)
      | Some i \<Rightarrow>
          if at_attachment_generation st < 0 then (Inl (HabitatAuthorityError ''attachment_generation_invalid''), b)
          else (Inr (), b\<lparr>bi_body_instance_id := i, bi_attachment_generation := at_attachment_generation st\<rparr>))"

section \<open>Preflight and execution\<close>

record adapter_request =
  aq_request_id :: string
  aq_capability :: string
  aq_params :: "pyv dict"
  aq_attachment_generation :: int
  aq_tick :: int
  aq_expected_profile_hash :: "string option"

definition reject_request ::
  "string \<Rightarrow> attachment_state \<Rightarrow> adapter_request \<Rightarrow> string \<Rightarrow> pyv \<Rightarrow> string option \<Rightarrow> pyv dict" where
  "reject_request fresh st request failure_code profile_constraint profile_hash =
     [(''ok_raw'', VBool False), (''reason'', VStr failure_code), (''failure_code'', VStr failure_code),
      (''execution_id'', VStr fresh), (''request_id'', VStr (aq_request_id request)),
      (''body_instance_id'', v_opt VStr (at_body_instance_id st)), (''body_profile_id'', v_opt VStr (at_body_profile_id st)),
      (''profile_definition_hash'', v_opt VStr profile_hash),
      (''attachment_generation'', VInt (at_attachment_generation st)), (''capability'', VStr (aq_capability request)),
      (''profile_constraint'', profile_constraint), (''translation_applied'', VBool False),
      (''tick'', VInt (aq_tick request)), (''adapter_certified'', VBool False)]"

text \<open>\<open>_validate_attachment\<close>: a rejection with the code of the first check that fails.\<close>

definition validate_attachment ::
  "hash_env \<Rightarrow> string \<Rightarrow> adapter_env \<Rightarrow> attachment_state \<Rightarrow> adapter_request \<Rightarrow> pyv dict option res" where
  "validate_attachment E fresh V st request =
     (if at_attachment_status st \<noteq> ''ATTACHED'' then Inr (Some (reject_request fresh st request ''BODY_DETACHED'' VNone None))
      else if aq_attachment_generation request \<noteq> at_attachment_generation st
      then Inr (Some (reject_request fresh st request ''STALE_ATTACHMENT_GENERATION'' VNone None))
      else andThen (required_profile V st) (\<lambda>profile.
        let rejected = (\<lambda>code. andThen (profile_definition_hash E profile) (\<lambda>h.
              Inr (Some (reject_request fresh st request code VNone (Some h))))) in
        andThen (case aq_expected_profile_hash request of None \<Rightarrow> Inr False
          | Some expected \<Rightarrow> andThen (profile_definition_hash E profile) (\<lambda>h. Inr (expected \<noteq> h))) (\<lambda>mismatch.
        if mismatch then rejected ''PROFILE_HASH_MISMATCH''
        else if aq_capability request \<notin> bf_supported_capabilities profile then rejected ''UNSUPPORTED_BODY_CAPABILITY''
        else Inr None)))"

definition CONTINUOUS_STEP_CAPABILITIES :: "string list" where
  "CONTINUOUS_STEP_CAPABILITIES = [''MOVE'', ''APPROACH'', ''RETREAT'']"

definition default_step :: "string \<Rightarrow> flt" where
  "default_step capability = (if capability = ''RETREAT'' then flit 12 10 else Fin 1)"

definition step_constraint :: "pyv \<Rightarrow> pyv \<Rightarrow> string \<Rightarrow> pyv" where
  "step_constraint requested max_step reason = VDict
     [(''limit'', VStr ''max_step''), (''requested'', requested), (''max'', max_step), (''reason'', VStr reason)]"

text \<open>
  \<open>_translate_continuous_limits\<close>: the parameters to use, the provenance of a translation, the constraint that rejects. A limit is
  a float, as \<open>physical_limits\<close> is annotated.
\<close>

definition translate_continuous_limits ::
  "adapter_request \<Rightarrow> body_profile \<Rightarrow> (pyv dict \<times> pyv dict option \<times> pyv option) res" where
  "translate_continuous_limits request profile =
     (let params = aq_params request; unchanged = Inr (params, None, None) in
      if aq_capability request \<notin> set CONTINUOUS_STEP_CAPABILITIES then unchanged
      else case dget VNone ''max_step'' (bf_physical_limits profile) of
        VNone \<Rightarrow> unchanged
      | limit \<Rightarrow> andThen (plain_flt limit) (\<lambda>max_step.
          let raw_step = dget (VFlt (default_step (aq_capability request))) ''step'' params;
              rejected = (\<lambda>requested reason. Inr (params, None, Some (step_constraint requested (VFlt max_step) reason)))
          in case as_float raw_step of
               Inl (TypeError m) \<Rightarrow> rejected raw_step ''malformed''
             | Inl (ValueError m) \<Rightarrow> rejected raw_step ''malformed''
             | Inl e \<Rightarrow> Inl e
             | Inr requested_step \<Rightarrow>
                 if \<not> is_finite requested_step then rejected (VFlt requested_step) ''non_finite''
                 else if flt_le requested_step (Fin 0) then rejected (VFlt requested_step) ''non_positive''
                 else if flt_le requested_step max_step then unchanged
                 else if \<not> truthy (dget (VBool True) ''max_step_clampable'' (bf_physical_limits profile))
                 then rejected (VFlt requested_step) ''non_clampable''
                 else
                   let translated = dput ''step'' (VFlt max_step) params
                   in Inr (translated,
                        Some [(''requested_parameters'', VDict params), (''applied_parameters'', VDict translated),
                          (''translation_reason'', VStr ''max_step_exceeded_clamped_to_profile_limit'')], None)))"

definition preflight_execution ::
  "hash_env \<Rightarrow> string \<Rightarrow> adapter_env \<Rightarrow> attachment_state \<Rightarrow> adapter_request
    \<Rightarrow> (pyv dict option \<times> pyv dict \<times> pyv dict option) res" where
  "preflight_execution E fresh V st request =
     andThen (validate_attachment E fresh V st request) (\<lambda>rejection.
     if rejection \<noteq> None then Inr (rejection, aq_params request, None)
     else andThen (required_profile V st) (\<lambda>profile.
       andThen (translate_continuous_limits request profile) (\<lambda>(translated, provenance, constraint).
       case constraint of
         None \<Rightarrow> Inr (None, translated, provenance)
       | Some c \<Rightarrow> andThen (profile_definition_hash E profile) (\<lambda>h.
           Inr (Some (reject_request fresh st request ''BODY_LIMIT_REJECTED'' c (Some h)), aq_params request, None)))))"

text \<open>\<open>execute\<close>: \<open>primitive\<close> is \<open>Embodiment.execute_primitive\<close> with its generator, on the owner's world.\<close>

definition adapter_execute ::
  "hash_env \<Rightarrow> string \<Rightarrow> adapter_env \<Rightarrow> (string \<Rightarrow> pyv dict \<Rightarrow> ('w, pyv dict) method) \<Rightarrow> adapter_request
    \<Rightarrow> ('w adapter_world, pyv dict) method" where
  "adapter_execute E fresh V primitive request w =
     (case preflight_execution E fresh V (aw_state w) request of
        Inl e \<Rightarrow> (Inl e, w)
      | Inr (Some rejection, _, _) \<Rightarrow> (Inr rejection, w)
      | Inr (None, translated, provenance) \<Rightarrow>
          (case required_profile V (aw_state w) of
             Inl e \<Rightarrow> (Inl e, w)
           | Inr profile \<Rightarrow>
               (case primitive (aq_capability request) translated (aw_owner w) of
                  (r, owner) \<Rightarrow>
                    (andThen r (\<lambda>raw. andThen (profile_definition_hash E profile) (\<lambda>h.
                       let raw1 = dput ''body_profile_id'' (v_opt VStr (at_body_profile_id (aw_state w))) raw;
                           raw2 = dput ''profile_definition_hash'' (VStr h) raw1;
                           raw3 = dput ''translation_applied'' (VBool (provenance \<noteq> None)) raw2
                       in Inr (case provenance of None \<Rightarrow> raw3 | Some p \<Rightarrow> fold (\<lambda>(k, v). dput k v) p raw3))),
                     w\<lparr>aw_owner := owner\<rparr>))))"

text \<open>The occupancy of the body as the embodiment reports it, and its reach.\<close>

record body_occupancy =
  bo_body_instance_id :: string
  bo_body_pose_version :: int
  bo_position_x :: flt
  bo_position_y :: flt
  bo_collision_radius :: flt
  bo_attachment_generation :: int
  bo_sensor_range :: flt

definition validate_manipulation ::
  "hash_env \<Rightarrow> (flt \<Rightarrow> flt \<Rightarrow> flt) \<Rightarrow> adapter_env \<Rightarrow> attachment_state \<Rightarrow> string \<Rightarrow> manipulation_parameters \<Rightarrow> int
    \<Rightarrow> string option \<Rightarrow> body_occupancy \<Rightarrow> string option \<Rightarrow> adapter_validated res" where
  "validate_manipulation E hypot V st capability parameters generation body_instance_id occ expected_profile_hash =
     (if at_attachment_status st \<noteq> ''ATTACHED'' then Inl (ManipulationValidationError ''BODY_DETACHED'')
      else if generation \<noteq> at_attachment_generation st
      then Inl (ManipulationValidationError ''STALE_ATTACHMENT_GENERATION'')
      else if body_instance_id \<noteq> at_body_instance_id st then Inl (ManipulationValidationError ''BODY_DETACHED'')
      else andThen (required_profile V st) (\<lambda>profile.
        andThen (case expected_profile_hash of None \<Rightarrow> Inr False
          | Some expected \<Rightarrow> andThen (profile_definition_hash E profile) (\<lambda>h. Inr (expected \<noteq> h))) (\<lambda>mismatch.
        if mismatch then Inl (ManipulationValidationError ''PROFILE_HASH_MISMATCH'')
        else if capability \<noteq> ''MANIPULATE'' \<or> ''MANIPULATE'' \<notin> bf_supported_capabilities profile
        then Inl (ManipulationValidationError ''UNSUPPORTED_BODY_CAPABILITY'')
        else case validate_manipulation_parameters hypot parameters of
          Some code \<Rightarrow> Inl (ManipulationValidationError code)
        | None \<Rightarrow>
            andThen (case parameters of
                PickUpParameters hold_slot \<Rightarrow> andThen (hold_slot_count profile) (\<lambda>n. Inr (n \<le> hold_slot))
              | _ \<Rightarrow> Inr False) (\<lambda>no_slot.
            if no_slot then Inl (ManipulationValidationError ''HOLD_SLOT_UNAVAILABLE'')
            else Inr \<lparr>av_body_pose_view =
                   \<lparr>bp_body_instance_id = bo_body_instance_id occ, bp_body_pose_version = bo_body_pose_version occ,
                    bp_position = \<lparr>po_x = bo_position_x occ, po_y = bo_position_y occ\<rparr>,
                    bp_collision_radius = py_max (bo_collision_radius occ) (flit 5 10),
                    bp_attachment_generation = bo_attachment_generation occ\<rparr>,
                 av_reach_radius = bo_sensor_range occ, av_requested_parameters = parameters,
                 av_applied_parameters = parameters, av_translation_applied = False\<rparr>))))"

section \<open>The ledger is the authority\<close>

text \<open>The newest event of the given types in the provenance of the latest checkpoint is not younger than the checkpoint.\<close>

definition provenance_old :: "string list \<Rightarrow> store \<Rightarrow> bool" where
  "provenance_old types s \<longleftrightarrow> (\<forall>c. latest_checkpoint s = Some c \<longrightarrow>
     (\<exists>items b. checkpoint_provenance (Some (cp_checkpoint_id c)) s = Inr items
        \<and> max_event None (filter (\<lambda>ev. list_ex (\<lambda>t. get_or ev ''event_type'' VNone = Inr (VStr t)) types) (map snd items)) = Inr b
        \<and> (\<forall>ev n. b = Some (ev, n) \<longrightarrow> n \<le> cp_compacted_sequence_end c)))"

lemma provenance_old_same:
  "st_checkpoints t = st_checkpoints s \<Longrightarrow> st_provenance t = st_provenance s \<Longrightarrow> provenance_old types t = provenance_old types s"
  by (simp add: provenance_old_def latest_checkpoint_def ordered_checkpoints_def checkpoint_provenance_def)

lemma append_event_cases:
  obtains e where "append_event E fresh ev s = (Inl e, s)"
  | "append_event E fresh ev s = (Inr (row_to_event (new_row E fresh ev s)),
       s\<lparr>st_events := st_events s @ [new_row E fresh ev s],
         st_ledger_tip := Some (er_sequence (new_row E fresh ev s), er_event_hash (new_row E fresh ev s))\<rparr>)"
  by (cases "append_row E fresh ev s")
    (auto simp: append_event_def append_row_def insert_event_def Let_def andThen_eq_Inr split: if_splits)

text \<open>After an event of one of the types is appended, it is the last one.\<close>

lemma appended_event_is_last:
  assumes ok: "ledger_ok E s" and old: "provenance_old types s" and app: "append_event E fresh ev s = (Inr x, t)"
    and type: "ne_event_type ev \<in> set types"
  shows "last_event_of_types types t = Inr (Some x)" and "ledger_ok E t" and "provenance_old types t"
proof -
  let ?r = "new_row E fresh ev s"
  have t: "x = row_to_event ?r" "t = s\<lparr>st_events := st_events s @ [?r], st_ledger_tip := Some (er_sequence ?r, er_event_hash ?r)\<rparr>"
    using app append_event_cases [of E fresh ev s] by (metis Inl_Inr_False prod.inject sum.inject(2))+
  show okt: "ledger_ok E t" using append_event_ok [OF ok, of fresh ev] app by simp
  show oldt: "provenance_old types t" using old provenance_old_same [of t s] by (simp add: t)
  obtain h n where v: "validate_rows E (base_hash s) (base_seq s + 1) (st_events s) = Inr (h, n)"
    using ok by (auto simp: ledger_ok_def tail_ok_def)
  have "er_sequence ?r = n" using tail_tip(1) [OF v] by (simp add: new_row_def Let_def)
  then have seq: "base_seq s < er_sequence ?r" using validate_rows_facts(2) [OF v] by simp
  have "ordered_events t = st_events s @ [?r]"
    using tail_ordered(1) [of E t] okt by (simp add: ledger_ok_def t)
  moreover have "er_event_type ?r \<in> set types" using type by (simp add: new_row_def Let_def)
  ultimately have rows: "rev (filter (\<lambda>r. er_event_type r \<in> set types) (ordered_events t))
      = ?r # rev (filter (\<lambda>r. er_event_type r \<in> set types) (st_events s))" by simp
  have latest: "latest_checkpoint t = latest_checkpoint s" by (simp add: t latest_checkpoint_def ordered_checkpoints_def)
  show "last_event_of_types types t = Inr (Some x)"
  proof (cases "latest_checkpoint t")
    case None
    then show ?thesis by (simp add: last_event_of_types_def rows t(1))
  next
    case (Some c)
    then obtain items b where b: "checkpoint_provenance (Some (cp_checkpoint_id c)) t = Inr items"
        "max_event None (filter (\<lambda>ev. list_ex (\<lambda>t. get_or ev ''event_type'' VNone = Inr (VStr t)) types) (map snd items)) = Inr b"
        "\<forall>ev n. b = Some (ev, n) \<longrightarrow> n \<le> cp_compacted_sequence_end c"
      using oldt unfolding provenance_old_def by blast
    have "n \<le> er_sequence ?r" if "b = Some (e, n)" for e n
      using b(3) that seq Some latest by (fastforce simp: base_seq_def)
    then show ?thesis using Some b(1,2) by (cases b) (auto simp: last_event_of_types_def rows t(1))
  qed
qed

text \<open>An attachment event read back.\<close>

lemma announced_back:
  assumes "dwf d" and "map_of d instance_key = Some (v_opt VStr i)" and "map_of d ''new_generation'' = Some (VInt n)"
    and "case profile_key of None \<Rightarrow> p = None | Some k \<Rightarrow> map_of d k = Some (v_opt VStr p)"
  shows "announced_state (canonical (VDict d)) instance_key profile_key status =
    Inr \<lparr>at_body_instance_id = i, at_body_profile_id = p, at_attachment_status = status, at_attachment_generation = n\<rparr>"
proof -
  have strs: "opt_conv plain_str (v_opt VStr q) = Inr q" for q :: "string option"
    by (cases q) (simp_all add: opt_conv_def)
  have itm: "item (canonical (VDict d)) k = Inr (canonical v)" if "map_of d k = Some v" for k v
    using item_canonical [OF assms(1), of k] that by (simp only: option.case)
  show ?thesis
  proof (cases profile_key)
    case None
    then show ?thesis
      using assms(4) itm [OF assms(2)] itm [OF assms(3)] by (simp add: announced_state_def fld_def strs del: canonical.simps(7))
  next
    case (Some k)
    with assms(4) have "map_of d k = Some (v_opt VStr p)" by simp
    then show ?thesis
      using Some itm [OF assms(2)] itm [OF assms(3)] itm [of k]
      by (simp add: announced_state_def fld_def strs del: canonical.simps(7))
  qed
qed

definition new_attachment_event :: "adapter_env \<Rightarrow> string \<Rightarrow> pyv dict \<Rightarrow> new_event" where
  "new_attachment_event V event_type payload =
     \<lparr>ne_agent_id = ae_agent_id V, ne_event_type = event_type, ne_monotonic_time = ae_monotonic_time V,
      ne_wall_time = ae_wall_time V, ne_payload = VDict payload, ne_causal_parent_ids = None, ne_event_id = None\<rparr>"

lemma event_read_back:
  "attachment_state_from_event (Some (row_to_event (new_row E fresh (new_attachment_event V event_type payload) s))) =
     (if event_type = ''embodiment_body_attached''
      then announced_state (canonical (VDict payload)) ''new_body_instance_id'' (Some ''new_profile_id'') ''ATTACHED''
      else if event_type = ''embodiment_body_profile_swapped''
      then announced_state (canonical (VDict payload)) ''body_instance_id'' (Some ''new_profile_id'') ''ATTACHED''
      else if event_type = ''embodiment_body_detached''
      then announced_state (canonical (VDict payload)) ''body_instance_id'' None ''DETACHED''
      else if event_type = ''embodiment_body_replaced''
      then announced_state (canonical (VDict payload)) ''new_body_instance_id'' (Some ''new_profile_id'') ''ATTACHED''
      else Inl (ValueError (''not_an_attachment_event:'' @ event_type)))"
  by (simp add: attachment_state_from_event_def row_to_event_def new_row_def new_attachment_event_def Let_def
      del: canonical.simps)

text \<open>What holds of the adapter and its ledger between two calls.\<close>

definition adapter_synced :: "hash_env \<Rightarrow> 'w adapter_world \<Rightarrow> bool" where
  "adapter_synced E w \<longleftrightarrow> ledger_ok E (aw_store w) \<and> provenance_old ATTACHMENT_EVENT_TYPES (aw_store w)
     \<and> load_attachment (aw_store w) = Inr (aw_state w)"

lemma commit_attachment_synced:
  assumes "adapter_synced E w" and "event_type \<in> set ATTACHMENT_EVENT_TYPES"
    and reads: "\<And>s. attachment_state_from_event (Some (row_to_event (new_row E fresh (new_attachment_event V event_type payload) s))) = Inr st"
    and c: "commit_attachment E fresh V observer event_type payload st w = (r, w')"
  shows "adapter_synced E w'" and "aw_state w' = aw_state w \<and> aw_owner w' = aw_owner w \<or> aw_state w' = st"
proof -
  let ?ev = "new_attachment_event V event_type payload"
  have ok: "ledger_ok E (aw_store w)" "provenance_old ATTACHMENT_EVENT_TYPES (aw_store w)"
    using assms(1) by (simp_all add: adapter_synced_def)
  have "adapter_synced E w' \<and> (aw_state w' = aw_state w \<and> aw_owner w' = aw_owner w \<or> aw_state w' = st)"
  proof (rule append_event_cases [of E fresh ?ev "aw_store w"])
    fix e assume "append_event E fresh ?ev (aw_store w) = (Inl e, aw_store w)"
    then have "w' = w" using c by (simp add: commit_attachment_def new_attachment_event_def)
    then show ?thesis using assms(1) by simp
  next
    let ?x = "row_to_event (new_row E fresh ?ev (aw_store w))"
    let ?s = "(aw_store w)\<lparr>st_events := st_events (aw_store w) @ [new_row E fresh ?ev (aw_store w)],
      st_ledger_tip := Some (er_sequence (new_row E fresh ?ev (aw_store w)), er_event_hash (new_row E fresh ?ev (aw_store w)))\<rparr>"
    assume app: "append_event E fresh ?ev (aw_store w) = (Inr ?x, ?s)"
    then have w': "aw_store w' = ?s" "aw_state w' = st"
      using c by (auto simp: commit_attachment_def apply_state_def new_attachment_event_def split: option.splits prod.splits)
    have type: "ne_event_type ?ev \<in> set ATTACHMENT_EVENT_TYPES" using assms(2) by (simp add: new_attachment_event_def)
    have "load_attachment ?s = Inr st"
      using appended_event_is_last(1) [OF ok app type] reads by (simp add: load_attachment_def)
    then show ?thesis
      using appended_event_is_last(2,3) [OF ok app type] w' by (simp add: adapter_synced_def)
  qed
  then show "adapter_synced E w'" "aw_state w' = aw_state w \<and> aw_owner w' = aw_owner w \<or> aw_state w' = st" by simp_all
qed

text \<open>One call that changes the attachment, with any arguments, any observer and any outcome.\<close>

inductive adapter_step :: "hash_env \<Rightarrow> 'w adapter_world \<Rightarrow> 'w adapter_world \<Rightarrow> bool" for E where
  attached: "adapter_step E w (snd (attach_body E fresh V observer profile_id origin migrated resolver w))"
| detached: "adapter_step E w (snd (detach_body E fresh V observer reason w))"
| swapped: "adapter_step E w (snd (swap_profile E fresh V observer profile_id origin old_hash w))"
| executed: "adapter_step E w (snd (adapter_execute E fresh V primitive request w))"

text \<open>What a step makes of the attachment: nothing, or the next generation.\<close>

definition next_attachment :: "attachment_state \<Rightarrow> attachment_state \<Rightarrow> bool" where
  "next_attachment st st' \<longleftrightarrow> st' = st \<or> at_attachment_generation st' = at_attachment_generation st + 1"

lemma adapter_step_synced:
  assumes "adapter_step E w w'" and "adapter_synced E w"
  shows "adapter_synced E w' \<and> next_attachment (aw_state w) (aw_state w')"
  using assms
proof cases
  case (attached fresh V observer profile_id origin migrated resolver)
  define res where "res = (case resolver of None \<Rightarrow> ae_resolve_profile V | Some f \<Rightarrow> f)"
  show ?thesis
  proof (cases "at_attachment_status (aw_state w) = ''ATTACHED''")
    case True
    then show ?thesis using attached assms(2) by (simp add: attach_body_def next_attachment_def Let_def)
  next
    case free: False
    show ?thesis
    proof (cases "andThen (res profile_id) (\<lambda>p. andThen (profile_definition_hash E p) (\<lambda>h. Inr (p, h)))")
      case (Inl e)
      then show ?thesis using attached assms(2) free by (simp add: attach_body_def next_attachment_def Let_def flip: res_def)
    next
      case (Inr ph)
      obtain p h where ph: "ph = (p, h)" by (cases ph)
      let ?st = "aw_state w"
      let ?i = "or_fresh (at_body_instance_id ?st) (fresh 0)"
      define d where "d = [(''old_status'', VStr (at_attachment_status ?st)), (''new_status'', VStr ''ATTACHED''),
                 (''new_body_instance_id'', VStr ?i), (''new_profile_id'', VStr (bf_profile_id p)),
                 (''new_generation'', VInt (at_attachment_generation ?st + 1)), (''profile_schema_version'', VStr (bf_schema_version p)),
                 (''profile_definition_hash'', VStr h), (''origin'', VStr origin)]
                @ opt_field ''migrated_from_schema_version'' migrated"
      define st' where "st' = \<lparr>at_body_instance_id = Some ?i, at_body_profile_id = Some (bf_profile_id p),
                at_attachment_status = ''ATTACHED'', at_attachment_generation = at_attachment_generation ?st + 1\<rparr>"
      have w': "w' = snd (commit_attachment E (fresh 1) V observer ''embodiment_body_attached'' d st' w)"
        using attached free Inr ph by (simp add: attach_body_def Let_def d_def st'_def flip: res_def)
      have "announced_state (canonical (VDict d)) ''new_body_instance_id'' (Some ''new_profile_id'') ''ATTACHED'' = Inr st'"
        unfolding st'_def by (rule announced_back) (auto simp: d_def opt_field_def split: option.splits)
      then show ?thesis
        using commit_attachment_synced [OF assms(2) _ _ surjective_pairing, of "''embodiment_body_attached''" "fresh 1" V d st' observer]
        unfolding w' by (auto simp: event_read_back ATTACHMENT_EVENT_TYPES_def next_attachment_def st'_def)
    qed
  qed
next
  case (detached fresh V observer reason)
  let ?st = "aw_state w"
  define d where "d = [(''body_instance_id'', v_opt VStr (at_body_instance_id ?st)), (''profile_id'', v_opt VStr (at_body_profile_id ?st)),
              (''old_generation'', VInt (at_attachment_generation ?st)), (''new_generation'', VInt (at_attachment_generation ?st + 1)),
              (''reason'', VStr reason)]"
  define st' where "st' = \<lparr>at_body_instance_id = at_body_instance_id ?st, at_body_profile_id = None, at_attachment_status = ''DETACHED'',
              at_attachment_generation = at_attachment_generation ?st + 1\<rparr>"
  have "announced_state (canonical (VDict d)) ''body_instance_id'' None ''DETACHED'' = Inr st'"
    unfolding st'_def by (rule announced_back) (auto simp: d_def)
  then show ?thesis
    using detached assms(2)
      commit_attachment_synced [OF assms(2) _ _ surjective_pairing, of "''embodiment_body_detached''" "fresh 1" V d st' observer]
    by (auto simp: detach_body_def event_read_back ATTACHMENT_EVENT_TYPES_def next_attachment_def Let_def d_def [symmetric] st'_def [symmetric])
      (auto simp: st'_def)
next
  case (swapped fresh V observer profile_id origin old_hash)
  let ?st = "aw_state w"
  let ?found = "andThen (required_profile V ?st) (\<lambda>old_profile.
          andThen (ae_resolve_profile V profile_id) (\<lambda>new_profile.
          andThen (profile_definition_hash E new_profile) (\<lambda>new_hash.
          andThen (case old_hash of Some h \<Rightarrow> Inr h | None \<Rightarrow> profile_definition_hash E old_profile) (\<lambda>h.
          Inr (new_profile, new_hash, h)))))"
  consider "w' = w" | p nh h where "?found = Inr (p, nh, h)" "at_attachment_status ?st = ''ATTACHED''"
    using swapped by (cases ?found) (auto simp: swap_profile_def Let_def split: if_splits)
  then show ?thesis
  proof cases
    case 1
    then show ?thesis using assms(2) by (simp add: next_attachment_def)
  next
    case (2 p nh h)
    define d where "d = [(''body_instance_id'', v_opt VStr (at_body_instance_id ?st)),
                (''old_profile_id'', v_opt VStr (at_body_profile_id ?st)),
                (''new_profile_id'', VStr (bf_profile_id p)),
                (''old_generation'', VInt (at_attachment_generation ?st)), (''new_generation'', VInt (at_attachment_generation ?st + 1)),
                (''profile_schema_version'', VStr (bf_schema_version p)),
                (''profile_definition_hash'', VStr nh), (''origin'', VStr origin),
                (''old_profile_definition_hash'', VStr h)]"
    define st' where "st' = \<lparr>at_body_instance_id = at_body_instance_id ?st, at_body_profile_id = Some (bf_profile_id p),
                at_attachment_status = ''ATTACHED'', at_attachment_generation = at_attachment_generation ?st + 1\<rparr>"
    have w': "w' = snd (commit_attachment E (fresh 1) V observer ''embodiment_body_profile_swapped'' d st' w)"
      using swapped 2 by (simp add: swap_profile_def Let_def d_def st'_def)
    have "announced_state (canonical (VDict d)) ''body_instance_id'' (Some ''new_profile_id'') ''ATTACHED'' = Inr st'"
      unfolding st'_def by (rule announced_back) (auto simp: d_def)
    then show ?thesis
      using commit_attachment_synced [OF assms(2) _ _ surjective_pairing, of "''embodiment_body_profile_swapped''" "fresh 1" V d st' observer]
      unfolding w' by (auto simp: event_read_back ATTACHMENT_EVENT_TYPES_def next_attachment_def st'_def)
  qed
next
  case (executed fresh V primitive request)
  then have "aw_store w' = aw_store w" "aw_state w' = aw_state w"
    by (auto simp: adapter_execute_def split: sum.splits option.splits prod.splits)
  then show ?thesis using assms(2) by (simp add: adapter_synced_def next_attachment_def)
qed

inductive adapter_steps :: "hash_env \<Rightarrow> 'w adapter_world \<Rightarrow> 'w adapter_world \<Rightarrow> bool" for E where
  start: "adapter_steps E w w"
| extend: "adapter_steps E w w' \<Longrightarrow> adapter_step E w' w'' \<Longrightarrow> adapter_steps E w w''"

lemma born_synced: "adapter_synced E \<lparr>aw_store = empty_store, aw_state = detached_body, aw_owner = owner\<rparr>"
  using empty_ok [of E]
  by (simp add: adapter_synced_def provenance_old_def load_attachment_def last_event_of_types_def
      attachment_state_from_event_def latest_checkpoint_def ordered_checkpoints_def ordered_events_def)
    (simp add: empty_store_def attachment_state_from_event_def)

text \<open>Whatever is attached, detached and swapped, with whatever outcome, a later process rebuilds from the ledger the attachment
  the adapter has, and the generation of the attachment never goes back.\<close>

lemma attachment_rebuilt:
  assumes "adapter_steps E w w'" and "adapter_synced E w"
  shows "load_attachment (aw_store w') = Inr (aw_state w')"
    and "at_attachment_generation (aw_state w) \<le> at_attachment_generation (aw_state w')"
proof -
  have "adapter_synced E w' \<and> at_attachment_generation (aw_state w) \<le> at_attachment_generation (aw_state w')"
    using assms
  proof (induction rule: adapter_steps.induct)
    case (extend w w' w'')
    then show ?case using adapter_step_synced [OF extend.hyps(2)] by (fastforce simp: next_attachment_def)
  qed simp
  then show "load_attachment (aw_store w') = Inr (aw_state w')"
    "at_attachment_generation (aw_state w) \<le> at_attachment_generation (aw_state w')"
    by (simp_all add: adapter_synced_def)
qed

text \<open>The observer of the runtime: after an attachment that succeeds, the body has the identity the adapter committed.\<close>

lemma attached_body_is_bound:
  assumes "attach_body E fresh V (Some bind_attachment_identity) profile_id origin migrated resolver w = (Inr (), w')"
  shows "at_body_instance_id (aw_state w') = Some (bi_body_instance_id (aw_owner w'))
    \<and> at_attachment_generation (aw_state w') = bi_attachment_generation (aw_owner w')"
  using assms
  by (auto simp: attach_body_def commit_attachment_def apply_state_def bind_attachment_identity_def Let_def
      split: if_splits sum.splits prod.splits option.splits)

section \<open>What reaches the body\<close>

lemma accepted_attachment:
  assumes "validate_attachment E fresh V st request = Inr None"
  obtains p where "required_profile V st = Inr p" "at_attachment_status st = ''ATTACHED''"
    "aq_attachment_generation request = at_attachment_generation st" "aq_capability request \<in> bf_supported_capabilities p"
    "\<And>h. aq_expected_profile_hash request = Some h \<Longrightarrow> profile_definition_hash E p = Inr h"
  using assms
  by (auto simp: validate_attachment_def Let_def andThen_eq_Inr split: if_splits option.splits)

text \<open>The body acts only for an attached adapter, for the attachment the request was made for and with a capability the profile
  has; otherwise it is left alone.\<close>

lemma only_supported_primitives_run:
  assumes "adapter_execute E fresh V primitive request w = (r, w')" and "aw_owner w' \<noteq> aw_owner w"
  obtains p params where "required_profile V (aw_state w) = Inr p" "at_attachment_status (aw_state w) = ''ATTACHED''"
    "aq_attachment_generation request = at_attachment_generation (aw_state w)"
    "aq_capability request \<in> bf_supported_capabilities p"
    "aw_owner w' = snd (primitive (aq_capability request) params (aw_owner w))"
proof -
  obtain params prov where pre: "preflight_execution E fresh V (aw_state w) request = Inr (None, params, prov)"
    and own: "aw_owner w' = snd (primitive (aq_capability request) params (aw_owner w))"
    using assms by (auto simp: adapter_execute_def split: sum.splits option.splits prod.splits)
  then have "validate_attachment E fresh V (aw_state w) request = Inr None"
    by (auto simp: preflight_execution_def andThen_eq_Inr split: if_splits)
  from accepted_attachment [OF this] show ?thesis using that own by metis
qed

text \<open>A step that passes the preflight is a positive number within the limit of the profile.\<close>

lemma translated_step_bounded:
  assumes "translate_continuous_limits request profile = Inr (params, prov, None)"
    and "aq_capability request \<in> set CONTINUOUS_STEP_CAPABILITIES"
    and "dget VNone ''max_step'' (bf_physical_limits profile) = VFlt m" and "flt_lt (Fin 0) m" and "is_finite m"
  shows "\<exists>x. as_float (dget (VFlt (default_step (aq_capability request))) ''step'' params) = Inr x
    \<and> is_finite x \<and> flt_lt (Fin 0) x \<and> flt_le x m"
proof (cases "as_float (dget (VFlt (default_step (aq_capability request))) ''step'' (aq_params request))")
  case (Inl e)
  then show ?thesis
    using assms(1-3) by (cases e) (simp_all add: translate_continuous_limits_def Let_def)
next
  case (Inr x)
  then have fin: "is_finite x" and pos: "\<not> flt_le x (Fin 0)"
    using assms(1-3) by (auto simp: translate_continuous_limits_def Let_def split: if_splits)
  then have "flt_lt (Fin 0) x" by (cases x) (auto simp: flt_le_def flt_eq_def)
  moreover have "flt_le x m \<and> params = aq_params request \<or> params = dput ''step'' (VFlt m) (aq_params request)"
    using assms(1-3) Inr fin pos by (auto simp: translate_continuous_limits_def Let_def split: if_splits)
  moreover have "flt_le m m" using assms(5) by (cases m) (auto simp: flt_le_def flt_eq_def)
  ultimately show ?thesis using Inr fin assms(4,5) by auto
qed

text \<open>What the adapter certifies of a manipulation, and that it certifies nothing else.\<close>

lemma validated_manipulation_checked:
  assumes "validate_manipulation E hypot V st capability parameters generation body_instance_id occ expected = Inr av"
  obtains p where "required_profile V st = Inr p" "at_attachment_status st = ''ATTACHED''"
    "generation = at_attachment_generation st" "body_instance_id = at_body_instance_id st" "capability = ''MANIPULATE''"
    "''MANIPULATE'' \<in> bf_supported_capabilities p" "validate_manipulation_parameters hypot parameters = None"
    "\<forall>slot. parameters = PickUpParameters slot \<longrightarrow> (\<exists>n. hold_slot_count p = Inr n \<and> slot < n)"
    "av_applied_parameters av = parameters" "av_reach_radius av = bo_sensor_range occ"
  using assms
  by (cases parameters) (auto simp: validate_manipulation_def andThen_eq_Inr split: if_splits option.splits)

end
