(* ===== verification/Manipulation.thy ===== *)
theory Manipulation
  imports Adapter ExecutionJournal
begin

text \<open>
  The manipulation path: \<open>resolve_manipulation_address\<close> of \<open>perception.py\<close> and \<open>execute_manipulation\<close> of \<open>governance.py\<close>. An
  admitted proposal names what it perceived, never an object; the address is resolved against the trusted bindings and the
  habitat as it is, the adapter certifies body and parameters, the affordance engine validates, and the execution journal
  commits. The new identifiers of the call are \<open>fresh 0\<close> (the outcome of a failure) and \<open>fresh 1\<close> (the execution).
\<close>

section \<open>Addresses\<close>

text \<open>\<open>ObjectAddressBinding\<close>: the fields the resolution reads.\<close>

record object_address_binding =
  ob_target_address_ref :: string
  ob_perception_evidence_ref :: string
  ob_perception_state_version :: int
  ob_binding_hash :: string
  ob_object_id :: string
  ob_object_version :: int

record resolved_target =
  rt_target_object_id :: string
  rt_target_object_version :: int
  rt_binding_hash :: string

definition resolve_manipulation_address ::
  "string \<Rightarrow> string \<Rightarrow> int \<Rightarrow> object_address_binding list \<Rightarrow> habitat_engine \<Rightarrow> resolved_target res" where
  "resolve_manipulation_address target_address_ref perception_evidence_ref perception_state_version bindings habitat =
     (case filter (\<lambda>b. ob_target_address_ref b = target_address_ref \<and> ob_perception_evidence_ref b = perception_evidence_ref)
         bindings of
        [] \<Rightarrow> Inl (ManipulationResolveError ''OBJECT_NOT_PERCEIVED'')
      | binding # others \<Rightarrow>
          if others \<noteq> [] then Inl (ManipulationResolveError ''OBJECT_ADDRESS_AMBIGUOUS'')
          else if ob_perception_state_version binding \<noteq> perception_state_version
          then Inl (ManipulationResolveError ''OBJECT_ADDRESS_BINDING_STALE'')
          else case get_object habitat (ob_object_id binding) of
            None \<Rightarrow> Inl (ManipulationResolveError ''OBJECT_NOT_FOUND'')
          | Some obj \<Rightarrow>
              if ho_object_version obj \<noteq> ob_object_version binding
              then Inl (ManipulationResolveError ''OBJECT_ADDRESS_BINDING_STALE'')
              else Inr \<lparr>rt_target_object_id = ob_object_id binding, rt_target_object_version = ho_object_version obj,
                rt_binding_hash = ob_binding_hash binding\<rparr>)"

text \<open>An address that resolves names exactly one perceived object, and that object is still what was perceived.\<close>

lemma resolved_address:
  assumes "resolve_manipulation_address ref evidence version bindings habitat = Inr r"
  obtains b ob where "b \<in> set bindings" "ob_target_address_ref b = ref" "ob_perception_evidence_ref b = evidence"
    "ob_perception_state_version b = version" "rt_target_object_id r = ob_object_id b"
    "get_object habitat (rt_target_object_id r) = Some ob" "ho_object_version ob = ob_object_version b"
    "rt_target_object_version r = ho_object_version ob"
    "\<forall>c \<in> set bindings. ob_target_address_ref c = ref \<and> ob_perception_evidence_ref c = evidence \<longrightarrow> c = b"
proof -
  let ?P = "\<lambda>b. ob_target_address_ref b = ref \<and> ob_perception_evidence_ref b = evidence"
  obtain b ob where b: "filter ?P bindings = [b]" "ob_perception_state_version b = version"
      "get_object habitat (ob_object_id b) = Some ob" "ho_object_version ob = ob_object_version b"
      "r = \<lparr>rt_target_object_id = ob_object_id b, rt_target_object_version = ho_object_version ob, rt_binding_hash = ob_binding_hash b\<rparr>"
    using assms by (auto simp: resolve_manipulation_address_def split: list.splits option.splits if_splits)
  have "set (filter ?P bindings) = {b}" using b(1) by simp
  then have "b \<in> set bindings \<and> ?P b" "\<forall>c \<in> set bindings. ?P c \<longrightarrow> c = b" by auto
  then show ?thesis using that [of b ob] b(2-5) by simp
qed

section \<open>The path\<close>

text \<open>What the proposal asks: address, evidence, perception version, affordance, kind and slot, and the expected profile.\<close>

record manipulation_ask =
  ma_target_address_ref :: string
  ma_perception_evidence_ref :: string
  ma_perception_state_version :: int
  ma_affordance_id :: string
  ma_raw_parameters :: pyv

definition manipulation_ask_of :: "pyv \<Rightarrow> manipulation_ask res" where
  "manipulation_ask_of params =
     andThen (as_dict params) (\<lambda>_.
     andThen (fld_or params ''target_address_ref'' (VStr []) as_str) (\<lambda>address.
     andThen (fld_or params ''perception_evidence_ref'' (VStr []) as_str) (\<lambda>evidence.
     andThen (fld_or params ''perception_state_version'' (VInt (- 1)) as_int) (\<lambda>version.
     andThen (fld_or params ''perceived_affordance_ref'' (VStr []) as_str) (\<lambda>affordance_id.
     andThen (get_or params ''parameters'' VNone) (\<lambda>raw.
     andThen (as_dict (or_else raw (VDict []))) (\<lambda>d.
     Inr \<lparr>ma_target_address_ref = address, ma_perception_evidence_ref = evidence, ma_perception_state_version = version,
          ma_affordance_id = affordance_id, ma_raw_parameters = VDict d\<rparr>)))))))"

text \<open>Any kind but \<open>PICK_UP\<close> and \<open>ACTIVATE\<close> becomes a use.\<close>

definition parameters_of_kind :: "pyv \<Rightarrow> manipulation_parameters res" where
  "parameters_of_kind raw =
     andThen (fld_or raw ''kind'' (VStr ''USE'') as_str) (\<lambda>kind.
     if kind = ''PICK_UP'' then andThen (fld_or raw ''hold_slot'' (VInt 0) as_int) (\<lambda>n. Inr (PickUpParameters n))
     else if kind = ''ACTIVATE'' then Inr ActivateParameters
     else Inr UseParameters)"

record manipulation_env =
  me_definitions :: "affordance_definition dict"
  me_adapter :: adapter_env
  me_attachment :: attachment_state
  me_occupancy :: body_occupancy
  me_bindings :: "object_address_binding list"
  me_agent_id :: string
  me_tick :: int
  me_monotonic_time :: flt
  me_wall_time :: flt

text \<open>\<open>_fail\<close>.\<close>

definition failed_manipulation :: "string \<Rightarrow> string \<Rightarrow> (commit_world, verified_outcome option) method" where
  "failed_manipulation fresh code w =
     (let gv = cw_governance w
      in (Inr (Some \<lparr>vo_outcome_id = fresh, vo_capability = ''MANIPULATE'', vo_success = False, vo_reason = code,
            vo_physiology_effects = [],
            vo_raw = [(''ok_raw'', VBool False), (''failure_code'', VStr code), (''capability'', VStr ''MANIPULATE'')],
            vo_verified = True\<rparr>),
          w\<lparr>cw_governance := gv\<lparr>gv_state := (gv_state gv)\<lparr>gs_verified_outcomes := gs_verified_outcomes (gv_state gv) + 1\<rparr>\<rparr>\<rparr>))"

text \<open>The identity of an attached body; a field of the request that its annotation excludes is outside the model.\<close>

definition attached_identity :: "attachment_state \<Rightarrow> (string \<times> string) res" where
  "attached_identity st = (case (at_body_instance_id st, at_body_profile_id st) of
     (Some i, Some p) \<Rightarrow> Inr (i, p) | _ \<Rightarrow> Inl (OutOfModel ''attached_body_without_identity''))"

text \<open>The request for a resolved object, and its validation against the habitat as it is.\<close>

definition validated_request ::
  "hash_env \<Rightarrow> (flt \<Rightarrow> flt \<Rightarrow> flt) \<Rightarrow> string \<Rightarrow> manipulation_env \<Rightarrow> string \<Rightarrow> resolved_target \<Rightarrow> affordance_definition \<Rightarrow> string
    \<Rightarrow> manipulation_parameters \<Rightarrow> adapter_validated \<Rightarrow> habitat_object \<Rightarrow> habitat_engine \<Rightarrow> (manipulation_request \<times> affordance_validation) res" where
  "validated_request E hypot execution_id V proposal_id resolved defn affordance_id parameters adapter_validated obj habitat =
     (let snapshot = snapshot_view habitat; st = me_attachment V
      in andThen (attached_identity st) (\<lambda>(body_instance_id, body_profile_id).
         let request = \<lparr>mr_request_id = proposal_id, mr_execution_id = execution_id, mr_capability = ''MANIPULATE'',
               mr_target_object_id = rt_target_object_id resolved, mr_affordance_id = affordance_id,
               mr_expected_habitat_version = sn_state_version snapshot,
               mr_expected_habitat_state_hash = sn_state_hash snapshot,
               mr_target_object_version = rt_target_object_version resolved,
               mr_target_object_definition_version = ho_definition_version obj,
               mr_target_object_definition_hash = ho_definition_hash obj,
               mr_affordance_definition_version = ad_definition_version defn,
               mr_affordance_definition_hash = affordance_hash E defn,
               mr_body_instance_id = body_instance_id, mr_body_profile_id = body_profile_id,
               mr_attachment_generation = at_attachment_generation st, mr_parameters = parameters\<rparr>;
             in_range = check_range hypot habitat (av_body_pose_view adapter_validated) (av_reach_radius adapter_validated)
               (rt_target_object_id resolved)
         in andThen (validate_affordance E hypot (me_definitions V) request snapshot adapter_validated in_range) (\<lambda>validation.
            Inr (request, validation))))"

definition manipulation_args :: "manipulation_env \<Rightarrow> commit_args" where
  "manipulation_args V = \<lparr>ca_agent_id = me_agent_id V, ca_prepared_tick = me_tick V, ca_monotonic_time = me_monotonic_time V,
     ca_wall_time = me_wall_time V, ca_transaction_id = None, ca_crash_after_stage = None\<rparr>"

definition execute_manipulation ::
  "hash_env \<Rightarrow> (flt \<Rightarrow> flt \<Rightarrow> flt) \<Rightarrow> (nat \<Rightarrow> string) \<Rightarrow> (nat \<Rightarrow> string) \<Rightarrow> (nat \<Rightarrow> nat \<Rightarrow> string) \<Rightarrow> manipulation_env \<Rightarrow> proposal
    \<Rightarrow> governance_decision \<Rightarrow> (commit_world, verified_outcome option) method" where
  "execute_manipulation E hypot fresh ids event_ids V proposal decision w =
     (if \<not> gd_admitted decision then (Inr None, w)
      else case manipulation_ask_of (pr_params proposal) of Inl e \<Rightarrow> (Inl e, w)
      | Inr ask \<Rightarrow>
      (case resolve_manipulation_address (ma_target_address_ref ask) (ma_perception_evidence_ref ask)
          (ma_perception_state_version ask) (me_bindings V) (cw_engine w) of
         Inl (ManipulationResolveError code) \<Rightarrow> failed_manipulation (fresh 0) code w
       | Inl e \<Rightarrow> (Inl e, w)
       | Inr resolved \<Rightarrow>
      (case andThen (parameters_of_kind (ma_raw_parameters ask)) (\<lambda>parameters.
          andThen (fld_or (pr_params proposal) ''expected_profile_hash'' VNone (opt_conv plain_str)) (\<lambda>expected.
          andThen (validate_manipulation E hypot (me_adapter V) (me_attachment V) ''MANIPULATE'' parameters
            (at_attachment_generation (me_attachment V)) (at_body_instance_id (me_attachment V)) (me_occupancy V) expected)
          (\<lambda>av. Inr (parameters, av)))) of
         Inl (ManipulationValidationError code) \<Rightarrow> failed_manipulation (fresh 0) code w
       | Inl e \<Rightarrow> (Inl e, w)
       | Inr (parameters, av) \<Rightarrow>
      (case ditem (rt_target_object_id resolved) (hs_objects (he_state (cw_engine w))) of Inl e \<Rightarrow> (Inl e, w)
       | Inr obj \<Rightarrow>
      (case map_of (me_definitions V) (ma_affordance_id ask) of
         None \<Rightarrow> failed_manipulation (fresh 0) ''AFFORDANCE_NOT_SUPPORTED'' w
       | Some defn \<Rightarrow>
      (case validated_request E hypot (fresh 1) V (pr_proposal_id proposal) resolved defn (ma_affordance_id ask) parameters av
          obj (cw_engine w) of
         Inl e \<Rightarrow> (Inl e, w)
       | Inr (request, validation) \<Rightarrow>
           (case commit_manipulation_transaction E ids event_ids (manipulation_args V) request validation w of
              (r, w') \<Rightarrow> (andThen r (\<lambda>commit. Inr (mc_outcome commit)), w'))))))))"

text \<open>What the path has established when it commits.\<close>

definition manipulation_ready ::
  "hash_env \<Rightarrow> (flt \<Rightarrow> flt \<Rightarrow> flt) \<Rightarrow> manipulation_env \<Rightarrow> proposal \<Rightarrow> habitat_engine \<Rightarrow> manipulation_request \<Rightarrow> affordance_validation
    \<Rightarrow> bool" where
  "manipulation_ready E hypot V proposal habitat request validation \<longleftrightarrow>
     (\<exists>ask resolved parameters expected av obj defn.
        manipulation_ask_of (pr_params proposal) = Inr ask
      \<and> resolve_manipulation_address (ma_target_address_ref ask) (ma_perception_evidence_ref ask)
          (ma_perception_state_version ask) (me_bindings V) habitat = Inr resolved
      \<and> parameters_of_kind (ma_raw_parameters ask) = Inr parameters
      \<and> validate_manipulation E hypot (me_adapter V) (me_attachment V) ''MANIPULATE'' parameters
          (at_attachment_generation (me_attachment V)) (at_body_instance_id (me_attachment V)) (me_occupancy V) expected = Inr av
      \<and> map_of (hs_objects (he_state habitat)) (rt_target_object_id resolved) = Some obj
      \<and> map_of (me_definitions V) (ma_affordance_id ask) = Some defn
      \<and> request_current E request (snapshot_view habitat) defn obj
      \<and> mr_request_id request = pr_proposal_id proposal \<and> mr_parameters request = parameters
      \<and> mr_target_object_id request = rt_target_object_id resolved
      \<and> validate_affordance E hypot (me_definitions V) request (snapshot_view habitat) av
          (check_range hypot habitat (av_body_pose_view av) (av_reach_radius av) (rt_target_object_id resolved)) = Inr validation)"

lemma validated_requestD:
  assumes "validated_request E hypot execution_id V proposal_id resolved defn affordance_id parameters av obj habitat = Inr (request, validation)"
    and "rt_target_object_version resolved = ho_object_version obj"
  shows "request_current E request (snapshot_view habitat) defn obj" and "mr_request_id request = proposal_id"
    and "mr_parameters request = parameters" and "mr_target_object_id request = rt_target_object_id resolved"
    and "validate_affordance E hypot (me_definitions V) request (snapshot_view habitat) av
      (check_range hypot habitat (av_body_pose_view av) (av_reach_radius av) (rt_target_object_id resolved)) = Inr validation"
  using assms by (auto simp: validated_request_def request_current_def Let_def andThen_eq_Inr split: prod.splits)

text \<open>Either nothing but the count of verified outcomes changes, or the journal commits a request that everything above vouches
  for, with the answer of that commit.\<close>

lemma execute_manipulation_cases:
  assumes "execute_manipulation E hypot fresh ids event_ids V proposal decision w = (r, w')"
  obtains "w' = w"
  | code where "failed_manipulation (fresh 0) code w = (r, w')"
  | request validation c where "gd_admitted decision" "manipulation_ready E hypot V proposal (cw_engine w) request validation"
      "commit_manipulation_transaction E ids event_ids (manipulation_args V) request validation w = (c, w')"
      "r = andThen c (\<lambda>commit. Inr (mc_outcome commit))"
proof (cases "gd_admitted decision")
  case False
  then show ?thesis using assms that(1) by (simp add: execute_manipulation_def)
next
  case admitted: True
  show ?thesis
  proof (cases "manipulation_ask_of (pr_params proposal)")
    case (Inl e)
    then show ?thesis using assms admitted that(1) by (simp add: execute_manipulation_def)
  next
    case ask: (Inr ask)
    let ?resolve = "resolve_manipulation_address (ma_target_address_ref ask) (ma_perception_evidence_ref ask)
          (ma_perception_state_version ask) (me_bindings V) (cw_engine w)"
    show ?thesis
    proof (cases ?resolve)
      case (Inl e)
      then show ?thesis using assms admitted ask that(1,2) by (cases e) (auto simp: execute_manipulation_def)
    next
      case resolved: (Inr resolved)
      let ?check = "andThen (parameters_of_kind (ma_raw_parameters ask)) (\<lambda>parameters.
          andThen (fld_or (pr_params proposal) ''expected_profile_hash'' VNone (opt_conv plain_str)) (\<lambda>expected.
          andThen (validate_manipulation E hypot (me_adapter V) (me_attachment V) ''MANIPULATE'' parameters
            (at_attachment_generation (me_attachment V)) (at_body_instance_id (me_attachment V)) (me_occupancy V) expected)
          (\<lambda>av. Inr (parameters, av))))"
      show ?thesis
      proof (cases ?check)
        case (Inl e)
        then show ?thesis using assms admitted ask resolved that(1,2) by (cases e) (auto simp: execute_manipulation_def)
      next
        case (Inr pa)
        then obtain parameters av where pa: "pa = (parameters, av)" by (cases pa)
        obtain b ob where ob: "get_object (cw_engine w) (rt_target_object_id resolved) = Some ob"
            "rt_target_object_version resolved = ho_object_version ob"
          using resolved_address [OF resolved] by metis
        then have obj: "map_of (hs_objects (he_state (cw_engine w))) (rt_target_object_id resolved) = Some ob"
          by (simp add: get_object_def)
        show ?thesis
        proof (cases "map_of (me_definitions V) (ma_affordance_id ask)")
          case None
          then show ?thesis
            using assms admitted ask resolved Inr pa obj that(2) by (simp add: execute_manipulation_def ditem_def)
        next
          case defn: (Some defn)
          let ?valid = "validated_request E hypot (fresh 1) V (pr_proposal_id proposal) resolved defn (ma_affordance_id ask) parameters av
              ob (cw_engine w)"
          show ?thesis
          proof (cases ?valid)
            case e: (Inl e)
            then show ?thesis
              using assms admitted ask resolved Inr pa obj defn that(1) by (simp add: execute_manipulation_def ditem_def)
          next
            case rv: (Inr rv)
            obtain request validation where v: "rv = (request, validation)" by (cases rv)
            obtain c v' where c: "commit_manipulation_transaction E ids event_ids (manipulation_args V) request validation w = (c, v')"
              by (metis surj_pair)
            have "(andThen c (\<lambda>commit. Inr (mc_outcome commit)), v') = (r, w')"
              using assms admitted ask resolved Inr pa obj defn rv v c by (simp add: execute_manipulation_def ditem_def)
            moreover have "manipulation_ready E hypot V proposal (cw_engine w) request validation"
              using ask resolved Inr pa obj defn validated_requestD [OF rv [unfolded v] ob(2)]
              unfolding manipulation_ready_def by (auto simp: andThen_eq_Inr)
            ultimately show ?thesis using that(3) [of request validation c] admitted c by auto
          qed
        qed
      qed
    qed
  qed
qed

text \<open>Habitat, physiology and ledger are out of reach of a proposal that was not admitted, whose address does not resolve or whose
  body is not there: if anything but the governance counters changed, all of it was in order.\<close>

lemma manipulation_needs_everything:
  assumes "execute_manipulation E hypot fresh ids event_ids V proposal decision w = (r, w')"
    and "cw_engine w' \<noteq> cw_engine w \<or> cw_physiology w' \<noteq> cw_physiology w \<or> cw_store w' \<noteq> cw_store w"
  obtains request validation where "gd_admitted decision" "manipulation_ready E hypot V proposal (cw_engine w) request validation"
proof (rule execute_manipulation_cases [OF assms(1)])
  fix code assume "failed_manipulation (fresh 0) code w = (r, w')"
  then have False using assms(2) by (auto simp: failed_manipulation_def Let_def)
  then show thesis ..
qed (use assms(2) that in auto)

section \<open>What cannot be asked for\<close>

lemma kinds_of_parameters:
  "parameters_of_kind raw = Inr p \<Longrightarrow> (\<exists>n. p = PickUpParameters n) \<or> p = ActivateParameters \<or> p = UseParameters"
  by (auto simp: parameters_of_kind_def andThen_eq_Inr split: if_splits)

text \<open>Placing, pushing and deactivating have definitions, parameters, validation and events, but no proposal reaches them: their
  kinds become a use, which the validation of such an affordance refuses.\<close>

lemma no_place_push_or_deactivate:
  assumes "manipulation_ready E hypot V proposal habitat request validation" and "vr_allowed validation"
  shows "\<exists>defn. map_of (me_definitions V) (mr_affordance_id request) = Some defn \<and> ad_operation defn \<in> {PICK_UP, ACTIVATE, USE}"
proof -
  obtain raw parameters expected av in_range where
    p: "parameters_of_kind raw = Inr parameters"
    and av: "validate_manipulation E hypot (me_adapter V) (me_attachment V) ''MANIPULATE'' parameters
      (at_attachment_generation (me_attachment V)) (at_body_instance_id (me_attachment V)) (me_occupancy V) expected = Inr av"
    and v: "validate_affordance E hypot (me_definitions V) request (snapshot_view habitat) av in_range = Inr validation"
    using assms(1) unfolding manipulation_ready_def by blast
  have "av_applied_parameters av = parameters" using validated_manipulation_checked [OF av] by metis
  then obtain defn ob where "map_of (me_definitions V) (mr_affordance_id request) = Some defn"
      "object_failure defn request parameters (sn_habitat_tick (snapshot_view habitat)) in_range ob = None"
    using v assms(2) by (auto simp: validate_affordance_def refusal_def Let_def split: option.splits if_splits)
  then show ?thesis
    using kinds_of_parameters [OF p] by (auto simp: object_failure_def split: if_splits)
qed

end
