(* ===== verification/Spec2Isabelle.thy ===== *)
theory Spec2Isabelle
  imports EngineProtocols JournalProtocol Competition RouteEvidence Viability Continuation Manipulation
begin

text \<open>
  A verification library for \<open>umbra_core\<close>, the core of an autonomous organism simulation in Python. The library follows the
  packages of the program: every function, method and class it covers is one definition of the theory of its module (a long
  function is split where its loops and branches are), and the properties speak of those definitions only.

  \<^bold>\<open>The program.\<close> An organism runs in ticks. Its habitat (\<open>habitat/\<close>) holds zones and objects and is changed by one
  writer, \<open>HabitatEngine\<close>, whose events replay to the same state. Its physiology (\<open>physiology.py\<close>) drifts and takes the effects
  of outcomes that governance (\<open>governance.py\<close>) verified. What it may do with an object is decided by the affordance engine
  (\<open>habitat_affordances/\<close>) against a snapshot of the habitat, and done once through the execution journal
  (\<open>habitat/execution_journal.py\<close>). Everything durable goes to a ledger of hash-chained events with snapshots, checkpoints and
  that journal (\<open>persistence.py\<close>), under an identity fixed at birth (\<open>identity.py\<close>). Time is the business of the temporal
  package (\<open>temporal/\<close>, \<open>wait_execution.py\<close>): it learns recurrences from observations, advances an effective age through
  committed events, counts the time the process was down exactly once and keeps a journal of waits. What to do next is chosen
  among candidates: some are shown to restore the physiology (\<open>recoverability/viability.py\<close>) or to leave a continuation that does
  (\<open>hypothetical/\<close>), the experience of routes already walked is kept (\<open>world_model/route_evidence.py\<close>), and the choice among the
  undominated ones is drawn (\<open>distributed_competition.py\<close>, \<open>stochastic_competition.py\<close>).

  \<^bold>\<open>Theories and what their lemmas show.\<close>

  \<^item> \<open>Prelude\<close>, \<open>Float64\<close>, \<open>PyValue\<close>, \<open>Contracts\<close>: exceptions and results; binary64 on rationals with the infinities and NaN,
    its rounding monotone and exact where it should be; plain values with their canonical text and hash; and the interfaces as
    locales (sealed records, event logs, idempotent logs, plan slots, bounded logs, keyed stores), each interpreted on the
    definitions of the components that provide it.
  \<^item> \<open>Recurrence\<close> (\<open>temporal/recurrence.py\<close>): the estimator and the bounded index of hypotheses. The search for the next occurrence
    ends and is exact; observations are counted once and by lane.
  \<^item> \<open>WaitJournal\<close> (\<open>wait_execution.py\<close>): every public method is a step of the journal, a restart too; the invariant of all
    reachable journals, finality of ended waits, and the cap that is never freed.
  \<^item> \<open>TemporalState\<close> (\<open>temporal/state.py\<close>, \<open>clock.py\<close>, \<open>observations.py\<close>, \<open>migration.py\<close>), \<open>TemporalPolicy\<close> (\<open>policy.py\<close>,
    \<open>config.py\<close>, \<open>allowlists.py\<close>), \<open>Downtime\<close> (\<open>contracts.py\<close>, \<open>downtime.py\<close>), \<open>TemporalEvents\<close> (\<open>events.py\<close>): states with their
    seals, records of what was committed, and that replaying the records gives the committed state.
  \<^item> \<open>TemporalEngine\<close>, \<open>EngineInvariant\<close>, \<open>EngineProtocols\<close> (\<open>engine.py\<close>): the engine with its three slots; \<open>engine_steps\<close> is any
    sequence of its methods with any outcome, \<open>engine_life\<close> adds restarts through \<open>replace_state\<close>; advances, downtime and
    evidence count once.
  \<^item> \<open>HabitatState\<close>, \<open>HabitatEvents\<close>, \<open>HabitatEngine\<close>, \<open>HabitatReplay\<close> (\<open>habitat/\<close>): states and seals, events and their
    fail-closed application, the engine with its indexes; logged writes replay to the state of the engine, the two writes
    without an event do not.
  \<^item> \<open>Physiology\<close>, \<open>Ledger\<close>, \<open>LedgerChain\<close> (\<open>persistence.py\<close>, \<open>identity.py\<close>): bounded variables on exact floats; every reachable
    ledger validates, compaction keeps the chain, and the tip binds the events that are still there.
  \<^item> \<open>Affordances\<close> (\<open>habitat_affordances/\<close>), \<open>Governance\<close> (\<open>governance.py\<close>): what an allowed manipulation has been checked
    for; what admission requires and counts; which physiological effects a verified outcome can have.
  \<^item> \<open>ExecutionJournal\<close>, \<open>JournalProtocol\<close> (\<open>habitat/execution_journal.py\<close>): prepare, commit, recover and catch up, with a crash
    at any stage; a commit is atomic, an attempt that raised can be retried, a committed one is answered again.
  \<^item> \<open>Adapter\<close> (\<open>embodiment_adapters/\<close>), \<open>Manipulation\<close> (\<open>governance.py\<close>, and the address resolution of \<open>perception.py\<close>): body
    profiles, the attachment of a body and what is let through to it; a later process rebuilds the attachment from the ledger,
    and a manipulation reaches the journal only when address, body and habitat are in order.
  \<^item> \<open>BoundedRings\<close> (\<open>util.py\<close>), \<open>RouteEvidence\<close> (\<open>world_model/route_evidence.py\<close>): rings that refine bounded lists; episodes, the
    verified experience they close into, and the stored form of the store.
  \<^item> \<open>Competition\<close> (\<open>distributed_competition.py\<close>, \<open>stochastic_competition.py\<close>): dominance, the frontier and the draw; the selection
    is undominated and does not depend on the order of the candidates.
  \<^item> \<open>Viability\<close> (\<open>recoverability/viability.py\<close>): the search over capability branches; what it accepts is a strategy.
  \<^item> \<open>Intervals\<close>, \<open>Hypothetical\<close> (\<open>hypothetical/core.py\<close>, \<open>adapters.py\<close>, the intervals of \<open>self_model/\<close>): evidence envelopes with
    outward rounding and the composition of one transition, which encloses what the machine computes.
  \<^item> \<open>Continuation\<close> (\<open>hypothetical/continuation.py\<close>): the bounded AND/OR search; a supported verdict carries a plan, a refusal
    means there is none. The specification \<open>works\<close> asks of a plan what the code checks: the owners of a service right after
    it, and the obligations never served at the end.

  \<^bold>\<open>Bounds and fuel.\<close> No definition may diverge. The loop of \<open>next_index_loop\<close> ends by the measure \<open>2 ^ 1024 - n\<close>, where the
  conversion of its index raises, and its property bounds the rounds by \<open>2 * age + 2\<close>. \<open>reaches_viability\<close> gets one unit of fuel
  more than the states it may explore; a chain of states in progress never repeats one and each is explored, so the fuel is
  never used up (proved with the property of the search). \<open>enumerate_witnesses\<close> recurses on the depth that is left, at most
  \<open>MAX_CONTINUATION_DEPTH\<close>. All other recursion is structural. The caps of the program (\<open>MAX_WAIT_EXECUTIONS\<close>,
  \<open>MAX_RECURRENCE_HYPOTHESES\<close>, \<open>MAX_COMPACTED_IDENTITIES\<close>, \<open>BRANCH_CEILING\<close> and so on) are constants with their values in the source.

  \<^bold>\<open>Conventions.\<close> A dataclass is a record whose fields carry a prefix of the class; an enumeration is a datatype; a
  dictionary is an association list in insertion order, a frozen map one in key order; a text is a \<open>string\<close>. A function that
  may raise returns \<open>'a res\<close>; a method returns its result and the object as it is afterwards, also after a raise. \<open>new_id()\<close>
  is an argument \<open>fresh\<close>; the digest and the text of a float are the two fields of the argument \<open>E\<close>; \<open>math.hypot\<close> and the
  other functions of the C library are arguments; \<open>math.nextafter\<close>, \<open>round\<close> and \<open>sum\<close> (compensated, as from Python 3.12 on) are
  written out. The order in which a set is traversed is an argument where a result depends on it. The contents of files are
  values, and the callables that other parts of the program supply (embodiment, owners, predictions) are arguments.
  Comparisons of an integer with a float are exact; there is one zero, since nothing the code computes tells the two apart. A
  table of the database is a list in row order, a violated constraint an \<open>IntegrityError\<close>, and a crash the stage of a
  transaction after which nothing more happens and nothing is kept. A value of a type that the annotations exclude is
  \<open>OutOfModel\<close>.

  \<^bold>\<open>Not modelled.\<close> \<open>runtime.py\<close> wires the parts together with threads, clocks and files; \<open>arbitration.py\<close> scores candidates
  over the live state of all subsystems. The engines of the world model (its route evidence apart), memory, self model (its
  intervals apart), social model, development and individuality keep large stores of their own that nothing here reads;
  \<open>perception.py\<close> (the resolution of addresses apart) and \<open>embodiment.py\<close> simulate the senses and the motion of the body; \<open>expression/\<close> and \<open>ui/\<close> only show. Of
  \<open>hypothetical/\<close> and \<open>recoverability/\<close> the frames, modal forms, shadow comparisons and views that collect inputs and reports
  around the modelled searches are left out. \<open>experiments/\<close>, \<open>tools/\<close>, \<open>scripts/\<close> and \<open>research/\<close> are harnesses over the core.
\<close>

end
